(* ===== verification/Prelude.thy ===== *)
theory Prelude
  imports Complex_Main "HOL-Library.Word" "HOL-Library.Multiset"
begin

text \<open>
  What the components share: the fixed-width unsigned arithmetic of C++ written out on
  \<open>nat\<close>, the result type for behaviour the C++ standard leaves undefined, vectors read by
  index, maps kept as association lists in iteration order, and the lemma collections the
  component proofs add to the simplifier.
\<close>

named_theorems ub_simps "evaluation of operations that may be undefined"
named_theorems width_simps "fixed-width arithmetic that does not wrap"
named_theorems frame_simps "fields an operation leaves unchanged"

section \<open>Fixed-width unsigned integers on nat\<close>

text \<open>
  An unsigned C++ integer is a \<open>nat\<close>; every operation that can leave its range is wrapped
  explicitly with the width the source gives it.
\<close>

definition u8 :: "nat \<Rightarrow> nat" where "u8 n = n mod 2 ^ 8"
definition u16 :: "nat \<Rightarrow> nat" where "u16 n = n mod 2 ^ 16"
definition u32 :: "nat \<Rightarrow> nat" where "u32 n = n mod 2 ^ 32"
definition u64 :: "nat \<Rightarrow> nat" where "u64 n = n mod 2 ^ 64"

text \<open>Unsigned subtraction at 32 and 64 bits wraps around below zero.\<close>

definition sub32 :: "nat \<Rightarrow> nat \<Rightarrow> nat" where "sub32 a b = u32 (a + 2 ^ 32 - u32 b)"
definition sub64 :: "nat \<Rightarrow> nat \<Rightarrow> nat" where "sub64 a b = u64 (a + 2 ^ 64 - u64 b)"

lemma u8_id [width_simps]: "n < 2 ^ 8 \<Longrightarrow> u8 n = n" by (simp add: u8_def)
lemma u16_id [width_simps]: "n < 2 ^ 16 \<Longrightarrow> u16 n = n" by (simp add: u16_def)
lemma u32_id [width_simps]: "n < 2 ^ 32 \<Longrightarrow> u32 n = n" by (simp add: u32_def)
lemma u64_id [width_simps]: "n < 2 ^ 64 \<Longrightarrow> u64 n = n" by (simp add: u64_def)

lemma u8_less [simp]: "u8 n < 256" by (simp add: u8_def)
lemma u16_less [simp]: "u16 n < 2 ^ 16" unfolding u16_def by (rule mod_less_divisor) simp
lemma u32_less [simp]: "u32 n < 2 ^ 32" unfolding u32_def by (rule mod_less_divisor) simp
lemma u64_less [simp]: "u64 n < 2 ^ 64" unfolding u64_def by (rule mod_less_divisor) simp

lemma u32_le [simp]: "u32 n \<le> n" by (simp add: u32_def)
lemma u64_le [simp]: "u64 n \<le> n" by (simp add: u64_def)

lemma sub64_id [width_simps]:
  assumes "b \<le> a" "a < 2 ^ 64" shows "sub64 a b = a - b"
proof -
  have "a + 2 ^ 64 - b = (a - b) + 2 ^ 64" using assms by simp
  then have "(a + 2 ^ 64 - b) mod 2 ^ 64 = a - b" using assms by (simp only: mod_add_self2) simp
  then show ?thesis using assms by (simp add: sub64_def u64_def)
qed

lemma sub32_id [width_simps]:
  assumes "b \<le> a" "a < 2 ^ 32" shows "sub32 a b = a - b"
proof -
  have "a + 2 ^ 32 - b = (a - b) + 2 ^ 32" using assms by simp
  then have "(a + 2 ^ 32 - b) mod 2 ^ 32 = a - b" using assms by (simp only: mod_add_self2) simp
  then show ?thesis using assms by (simp add: sub32_def u32_def)
qed

section \<open>Undefined behaviour as a value\<close>

text \<open>
  A read past the end of an array, a null or stale pointer that is followed, a shift by at least the width of its operand and a
  conversion whose value does not fit are undefined in C++. The model makes each of them a
  value, so that a theorem can say it does not happen.
\<close>

datatype ub = OutOfBounds | BadShift | BadConversion | NullPointer | DanglingPointer

type_synonym 'a ub_result = "ub + 'a"

definition ub_bind :: "'a ub_result \<Rightarrow> ('a \<Rightarrow> 'b ub_result) \<Rightarrow> 'b ub_result" where
  "ub_bind m f = (case m of Inl e \<Rightarrow> Inl e | Inr x \<Rightarrow> f x)"

lemma ub_bind_simps [simp, ub_simps]:
  "ub_bind (Inl e) f = Inl e" "ub_bind (Inr x) f = f x"
  by (simp_all add: ub_bind_def)

lemma ub_bind_eq_Inr: "ub_bind m f = Inr y \<longleftrightarrow> (\<exists>x. m = Inr x \<and> f x = Inr y)"
  by (cases m) (simp_all add: ub_bind_def)

text \<open>A read of an array of known length.\<close>

definition read_at :: "'a list \<Rightarrow> nat \<Rightarrow> 'a ub_result" where
  "read_at xs i = (if i < length xs then Inr (xs ! i) else Inl OutOfBounds)"

lemma read_at_in [simp, ub_simps]: "i < length xs \<Longrightarrow> read_at xs i = Inr (xs ! i)"
  by (simp add: read_at_def)

lemma read_at_eq_Inr: "read_at xs i = Inr x \<longleftrightarrow> i < length xs \<and> xs ! i = x"
  by (auto simp: read_at_def)

section \<open>First match and in-place update of a vector\<close>

text \<open>The first index whose element satisfies a predicate, as a range-for with a break.\<close>

fun find_index :: "('a \<Rightarrow> bool) \<Rightarrow> 'a list \<Rightarrow> nat option" where
  "find_index P [] = None"
| "find_index P (x # xs) = (if P x then Some 0 else map_option Suc (find_index P xs))"

lemma find_index_SomeD:
  "find_index P xs = Some i \<Longrightarrow> i < length xs \<and> P (xs ! i) \<and> (\<forall>j < i. \<not> P (xs ! j))"
proof (induction xs arbitrary: i)
  case (Cons x xs)
  then show ?case by (auto split: if_splits simp: less_Suc_eq_0_disj nth_Cons')
qed simp

lemma find_index_None: "find_index P xs = None \<longleftrightarrow> (\<forall>x \<in> set xs. \<not> P x)"
  by (induction xs) auto

lemma find_index_find: "map_option (nth xs) (find_index P xs) = find P xs"
  by (induction xs) (auto simp: option.map_comp comp_def)

section \<open>Association lists in iteration order\<close>

text \<open>
  \<open>std::map\<close> and \<open>std::unordered_map\<close> values that the code iterates over are association
  lists; the list order is the iteration order. \<open>assoc_upd\<close> assigns to a key in place and
  appends a new one.
\<close>

fun assoc_upd :: "'k \<Rightarrow> 'v \<Rightarrow> ('k \<times> 'v) list \<Rightarrow> ('k \<times> 'v) list" where
  "assoc_upd k v [] = [(k, v)]"
| "assoc_upd k v ((k', v') # m) = (if k' = k then (k, v) # m else (k', v') # assoc_upd k v m)"

definition assoc_del :: "'k \<Rightarrow> ('k \<times> 'v) list \<Rightarrow> ('k \<times> 'v) list" where
  "assoc_del k m = filter (\<lambda>p. fst p \<noteq> k) m"

lemma map_of_assoc_upd [simp]: "map_of (assoc_upd k v m) = (map_of m)(k \<mapsto> v)"
  by (induction m) (auto simp: fun_eq_iff)

lemma map_of_assoc_del [simp]: "map_of (assoc_del k m) = (map_of m)(k := None)"
  by (induction m) (auto simp: assoc_del_def fun_eq_iff)

lemma fst_assoc_upd: "fst ` set (assoc_upd k v m) = insert k (fst ` set m)"
  by (simp flip: dom_map_of_conv_image_fst)

lemma distinct_assoc_upd [simp]:
  "distinct (map fst m) \<Longrightarrow> distinct (map fst (assoc_upd k v m))"
proof (induction m)
  case (Cons p m)
  then show ?case using fst_assoc_upd [of k v m] by (cases p) auto
qed simp

lemma distinct_assoc_del [simp]:
  "distinct (map fst m) \<Longrightarrow> distinct (map fst (assoc_del k m))"
  by (simp add: assoc_del_def distinct_map_filter)

end
