(* ===== verification/Ieee754.thy ===== *)
theory Ieee754
  imports Prelude
begin

text \<open>
  The C++ \<open>double\<close> (IEEE 754 binary64, round to nearest, ties to even), as the code uses it:
  conversion from integers, the four operations, comparison, \<open>std::min\<close>, \<open>std::max\<close>,
  \<open>std::abs\<close> and the conversion back to a byte. A finite value is its rational; the negative
  zero, the infinities and the NaN are values of their own. \<open>round64\<close> is the rounding of
  an exact result, and \<open>round64_dyadic\<close> says that it is the identity on the values binary64
  can hold.
\<close>

section \<open>Values and rounding\<close>

datatype double = NaN | PosInf | NegInf | NegZero | Fin rat

fun ilog2 :: "nat \<Rightarrow> nat" where
  "ilog2 n = (if n < 2 then 0 else Suc (ilog2 (n div 2)))"

declare ilog2.simps [simp del]

text \<open>The binary exponent of a positive rational: \<open>2 powi e \<le> q < 2 powi (e + 1)\<close>.\<close>

definition exponent2 :: "rat \<Rightarrow> int" where
  "exponent2 q =
     (let (n, d) = quotient_of q;
          e = int (ilog2 (nat n)) - int (ilog2 (nat d))
      in if 2 powi e \<le> q then e else e - 1)"

text \<open>Round half to even.\<close>

definition round_even :: "rat \<Rightarrow> int" where
  "round_even x =
     (let f = \<lfloor>x\<rfloor>; r = x - of_int f
      in if r < 1 / 2 then f else if r > 1 / 2 then f + 1 else if even f then f else f + 1)"

definition round64 :: "rat \<Rightarrow> double" where
  "round64 q =
     (if q = 0 then Fin 0
      else let e = max (exponent2 \<bar>q\<bar> - 52) (- 1074);
               m = round_even (\<bar>q\<bar> / 2 powi e);
               r = of_int m * 2 powi e
           in if 2 ^ 1024 \<le> r then (if q < 0 then NegInf else PosInf)
              else if m = 0 then (if q < 0 then NegZero else Fin 0)
              else Fin (if q < 0 then - r else r))"

section \<open>Operations\<close>

definition of_integer :: "int \<Rightarrow> double" where
  "of_integer n = round64 (of_int n)"

fun isnan :: "double \<Rightarrow> bool" where
  "isnan NaN = True"
| "isnan _ = False"

text \<open>The sign bit of a value that is not a NaN.\<close>

fun signbit :: "double \<Rightarrow> bool" where
  "signbit NegInf = True"
| "signbit NegZero = True"
| "signbit (Fin q) = (q < 0)"
| "signbit _ = False"

fun dneg :: "double \<Rightarrow> double" where
  "dneg NaN = NaN"
| "dneg PosInf = NegInf"
| "dneg NegInf = PosInf"
| "dneg NegZero = Fin 0"
| "dneg (Fin q) = (if q = 0 then NegZero else Fin (- q))"

fun dabs :: "double \<Rightarrow> double" where
  "dabs NaN = NaN"
| "dabs PosInf = PosInf"
| "dabs NegInf = PosInf"
| "dabs NegZero = Fin 0"
| "dabs (Fin q) = Fin \<bar>q\<bar>"

fun dadd :: "double \<Rightarrow> double \<Rightarrow> double" where
  "dadd NaN _ = NaN"
| "dadd _ NaN = NaN"
| "dadd PosInf NegInf = NaN"
| "dadd NegInf PosInf = NaN"
| "dadd PosInf _ = PosInf"
| "dadd _ PosInf = PosInf"
| "dadd NegInf _ = NegInf"
| "dadd _ NegInf = NegInf"
| "dadd NegZero NegZero = NegZero"
| "dadd NegZero (Fin q) = Fin q"
| "dadd (Fin p) NegZero = Fin p"
| "dadd (Fin p) (Fin q) = round64 (p + q)"

definition dsub :: "double \<Rightarrow> double \<Rightarrow> double" where
  "dsub x y = dadd x (dneg y)"

definition signed_zero :: "bool \<Rightarrow> double" where
  "signed_zero s = (if s then NegZero else Fin 0)"

definition signed_inf :: "bool \<Rightarrow> double" where
  "signed_inf s = (if s then NegInf else PosInf)"

text \<open>The rational of a finite value, nothing for an infinity or a NaN.\<close>

fun fin_val :: "double \<Rightarrow> rat option" where
  "fin_val NegZero = Some 0"
| "fin_val (Fin q) = Some q"
| "fin_val _ = None"

definition is_zero :: "double \<Rightarrow> bool" where
  "is_zero x = (fin_val x = Some 0)"

definition dmul :: "double \<Rightarrow> double \<Rightarrow> double" where
  "dmul x y =
     (if isnan x \<or> isnan y then NaN
      else let s = (signbit x \<noteq> signbit y) in
        (case (fin_val x, fin_val y) of
           (Some p, Some q) \<Rightarrow> if p = 0 \<or> q = 0 then signed_zero s else round64 (p * q)
         | _ \<Rightarrow> if is_zero x \<or> is_zero y then NaN else signed_inf s))"

definition ddiv :: "double \<Rightarrow> double \<Rightarrow> double" where
  "ddiv x y =
     (if isnan x \<or> isnan y then NaN
      else let s = (signbit x \<noteq> signbit y) in
        (case (fin_val x, fin_val y) of
           (Some p, Some q) \<Rightarrow>
             if q = 0 then (if p = 0 then NaN else signed_inf s)
             else if p = 0 then signed_zero s
             else round64 (p / q)
         | (None, Some _) \<Rightarrow> signed_inf s
         | (Some _, None) \<Rightarrow> signed_zero s
         | (None, None) \<Rightarrow> NaN))"

fun dlt :: "double \<Rightarrow> double \<Rightarrow> bool" where
  "dlt NaN _ = False"
| "dlt _ NaN = False"
| "dlt NegInf y = (y \<noteq> NegInf)"
| "dlt _ NegInf = False"
| "dlt PosInf _ = False"
| "dlt _ PosInf = True"
| "dlt x y = (the (fin_val x) < the (fin_val y))"

definition dle :: "double \<Rightarrow> double \<Rightarrow> bool" where
  "dle x y = (\<not> isnan x \<and> \<not> isnan y \<and> \<not> dlt y x)"

definition deq :: "double \<Rightarrow> double \<Rightarrow> bool" where
  "deq x y = (dle x y \<and> dle y x)"

text \<open>\<open>std::min (a, b)\<close> and \<open>std::max (a, b)\<close> as the standard library defines them.\<close>

definition dmin :: "double \<Rightarrow> double \<Rightarrow> double" where
  "dmin a b = (if dlt b a then b else a)"

definition dmax :: "double \<Rightarrow> double \<Rightarrow> double" where
  "dmax a b = (if dlt a b then b else a)"

text \<open>\<open>std::numeric_limits<double>::max ()\<close> and the smallest positive normal value \<open>min ()\<close>.\<close>

definition double_max :: double where
  "double_max = Fin ((2 - 1 / 2 ^ 52) * 2 ^ 1023)"

definition double_min :: double where
  "double_min = Fin (1 / 2 ^ 1022)"

text \<open>\<open>static_cast<uint8_t>\<close>: truncation, undefined when the result does not fit.\<close>

definition to_u8 :: "double \<Rightarrow> nat ub_result" where
  "to_u8 x =
     (case fin_val x of
        None \<Rightarrow> Inl BadConversion
      | Some q \<Rightarrow>
          let t = (if q < 0 then \<lceil>q\<rceil> else \<lfloor>q\<rfloor>)
          in if 0 \<le> t \<and> t < 256 then Inr (nat t) else Inl BadConversion)"

section \<open>Rounding is exact on representable values\<close>

lemma ilog2_bounds: "0 < n \<Longrightarrow> 2 ^ ilog2 n \<le> n \<and> n < 2 ^ Suc (ilog2 n)"
proof (induction n rule: ilog2.induct)
  case (1 n)
  show ?case
  proof (cases "n < 2")
    case True
    with 1 have "n = 1" by simp
    then show ?thesis by (simp add: ilog2.simps)
  next
    case False
    then have IH: "2 ^ ilog2 (n div 2) \<le> n div 2" "n div 2 < 2 ^ Suc (ilog2 (n div 2))"
      using 1 by auto
    have e: "ilog2 n = Suc (ilog2 (n div 2))" using False by (subst ilog2.simps) simp
    define p where "p = (2::nat) ^ ilog2 (n div 2)"
    have "p \<le> n div 2" "n div 2 < 2 * p" using IH by (simp_all add: p_def)
    then have "2 * p \<le> n" "n < 4 * p" by linarith+
    then show ?thesis unfolding e by (simp add: p_def)
  qed
qed

lemma ilog2_rat:
  assumes "0 < n"
  shows "(2::rat) ^ ilog2 (nat n) \<le> of_int n \<and> of_int n < (2::rat) ^ Suc (ilog2 (nat n))"
proof -
  define k where "k = nat n"
  have n: "n = int k" and k: "0 < k" using assms by (simp_all add: k_def)
  have "of_nat (2 ^ ilog2 k) \<le> (of_nat k :: rat)" "of_nat k < (of_nat (2 ^ Suc (ilog2 k)) :: rat)"
    using ilog2_bounds [OF k] by (simp_all only: of_nat_le_iff of_nat_less_iff)
  then show ?thesis by (simp add: n)
qed

lemma exponent2_bounds:
  assumes "0 < q"
  shows "2 powi exponent2 q \<le> q" "q < 2 powi (exponent2 q + 1)"
proof -
  obtain n d where nd: "quotient_of q = (n, d)" by (cases "quotient_of q")
  then have q: "q = of_int n / of_int d" and d: "0 < d"
    by (auto simp: quotient_of_div dest: quotient_of_denom_pos)
  with assms have n: "0 < n" by (simp add: zero_less_divide_iff)
  define i where "i = ilog2 (nat n)"
  define j where "j = ilog2 (nat d)"
  have ni: "(2::rat) ^ i \<le> of_int n" "of_int n < (2::rat) ^ Suc i"
    using ilog2_rat [of n] n by (simp_all add: i_def)
  have dj: "(2::rat) ^ j \<le> of_int d" "of_int d < (2::rat) ^ Suc j"
    using ilog2_rat [of d] d by (simp_all add: j_def)
  have dp: "(0::rat) < of_int d" using d by simp
  define e where "e = int i - int j"
  have pe: "(2::rat) powi e = 2 ^ i / 2 ^ j"
    by (simp add: e_def power_int_diff)
  have pe1: "(2::rat) powi (e + 1) = 2 * 2 ^ i / 2 ^ j"
    using pe by (simp add: power_int_add)
  have pem: "(2::rat) powi (e - 1) = 2 ^ i / 2 ^ j / 2"
    using pe by (simp add: power_int_diff)
  have up: "q < 2 powi (e + 1)"
  proof -
    have "of_int n * 2 ^ j < (2::rat) ^ Suc i * of_int d"
      using ni(2) dj(1) dp n by (intro mult_less_le_imp_less) auto
    then show ?thesis unfolding pe1 q using dp by (simp add: field_simps)
  qed
  have lo: "2 powi (e - 1) \<le> q"
  proof -
    have "(2::rat) ^ i * of_int d \<le> of_int n * 2 ^ Suc j"
      using ni(1) dj(2) dp n by (intro mult_mono) auto
    then show ?thesis unfolding pem q using dp by (simp add: field_simps)
  qed
  have ex: "exponent2 q = (if 2 powi e \<le> q then e else e - 1)"
    by (simp add: exponent2_def nd Let_def e_def i_def j_def)
  show "2 powi exponent2 q \<le> q" using lo ex by simp
  show "q < 2 powi (exponent2 q + 1)" using up ex by (auto split: if_splits)
qed

lemma round_even_of_int [simp]: "round_even (of_int n) = n"
  by (simp add: round_even_def)

text \<open>
  A value \<open>m * 2 powi k\<close> with at most 53 significant bits, an exponent within range and below
  the overflow threshold is its own rounding.
\<close>

lemma round64_dyadic:
  assumes m: "\<bar>m\<bar> < 2 ^ 53" and k: "- 1074 \<le> k"
    and q: "q = of_int m * 2 powi k" and big: "\<bar>q\<bar> < 2 ^ 1024"
  shows "round64 q = Fin q"
proof (cases "m = 0")
  case True
  then show ?thesis using q by (simp add: round64_def)
next
  case False
  define a where "a = \<bar>q\<bar>"
  have a: "a = of_int \<bar>m\<bar> * 2 powi k" by (simp add: a_def q abs_mult)
  have a0: "0 < a" using False by (simp add: a)
  define e where "e = max (exponent2 a - 52) (- 1074)"
  have ke: "e \<le> k"
  proof (rule ccontr)
    assume "\<not> e \<le> k"
    with k have L: "k + 53 \<le> exponent2 a" unfolding e_def by linarith
    have "(2::rat) powi (k + 53) \<le> 2 powi exponent2 a"
      using L by (intro power_int_increasing) auto
    also have "\<dots> \<le> a" by (rule exponent2_bounds [OF a0])
    finally have "(2::rat) powi k * 2 ^ 53 \<le> of_int \<bar>m\<bar> * 2 powi k"
      by (simp add: a power_int_add)
    then have "(2::rat) ^ 53 \<le> of_int \<bar>m\<bar>" by (simp add: mult.commute)
    then have "(2::int) ^ 53 \<le> \<bar>m\<bar>"
      by (metis of_int_le_iff of_int_numeral of_int_power)
    with m show False by simp
  qed
  have div: "a / 2 powi e = of_int (\<bar>m\<bar> * 2 ^ nat (k - e))"
  proof -
    have "(2::rat) powi k = 2 ^ nat (k - e) * 2 powi e"
      using ke power_int_add [of "2::rat" "k - e" e] power_int_nonneg_exp [of "k - e" "2::rat"] by simp
    then show ?thesis by (simp add: a)
  qed
  have r: "of_int (round_even (a / 2 powi e)) * 2 powi e = a"
  proof -
    have "a = of_int (\<bar>m\<bar> * 2 ^ nat (k - e)) * 2 powi e" using div by (simp add: divide_eq_eq)
    then show ?thesis unfolding div round_even_of_int by (rule sym)
  qed
  have nz: "round_even (a / 2 powi e) \<noteq> 0" using r a0 by auto
  have qn: "q \<noteq> 0" using a0 a_def by auto
  show ?thesis
    using qn nz r big unfolding round64_def Let_def a_def [symmetric] e_def [symmetric]
    by (auto simp: a_def)
qed

lemma round64_of_int: "\<bar>n\<bar> < 2 ^ 53 \<Longrightarrow> round64 (of_int n) = Fin (of_int n)"
proof -
  assume n: "\<bar>n\<bar> < 2 ^ 53"
  have "\<bar>rat_of_int n\<bar> < 2 ^ 53"
    using n by (simp flip: of_int_abs add: of_int_less_iff [of _ "2 ^ 53", simplified])
  also have "(2::rat) ^ 53 \<le> 2 ^ 1024" by (rule power_increasing) auto
  finally show ?thesis using n by (intro round64_dyadic [where m = n and k = 0]) auto
qed

lemma round64_numeral [simp]: "numeral w < (2::int) ^ 53 \<Longrightarrow> round64 (numeral w) = Fin (numeral w)"
  using round64_of_int [of "numeral w"] by simp

lemma round64_neg_numeral [simp]:
  "numeral w < (2::int) ^ 53 \<Longrightarrow> round64 (- numeral w) = Fin (- numeral w)"
  using round64_of_int [of "- numeral w"] by simp

lemma round64_0 [simp]: "round64 0 = Fin 0" by (simp add: round64_def)
lemma round64_1 [simp]: "round64 1 = Fin 1" using round64_of_int [of 1] by simp

lemma of_integer_exact: "\<bar>n\<bar> < 2 ^ 53 \<Longrightarrow> of_integer n = Fin (of_int n)"
  by (simp add: of_integer_def round64_of_int)

section \<open>Comparison\<close>

lemma dlt_Fin [simp]: "dlt (Fin p) (Fin q) \<longleftrightarrow> p < q" by simp

lemma dlt_irrefl [simp]: "\<not> dlt x x" by (cases x) auto

lemma dlt_trans: "dlt x y \<Longrightarrow> dlt y z \<Longrightarrow> dlt x z"
  by (cases x; cases y; cases z) auto

lemma dlt_asym: "dlt x y \<Longrightarrow> \<not> dlt y x"
  using dlt_trans dlt_irrefl by blast

lemma dlt_negtrans: "\<not> dlt x y \<Longrightarrow> \<not> dlt y z \<Longrightarrow> \<not> isnan y \<Longrightarrow> \<not> dlt x z"
  by (cases x; cases y; cases z) auto

lemma dle_Fin [simp]: "dle (Fin p) (Fin q) \<longleftrightarrow> p \<le> q" by (auto simp: dle_def)

lemma dle_refl: "\<not> isnan x \<Longrightarrow> dle x x" by (simp add: dle_def)

lemma dle_trans: "dle x y \<Longrightarrow> dle y z \<Longrightarrow> dle x z"
  by (auto simp: dle_def dest: dlt_negtrans)

lemma dle_linear: "\<not> isnan x \<Longrightarrow> \<not> isnan y \<Longrightarrow> dle x y \<or> dle y x"
  by (auto simp: dle_def dest: dlt_asym)

lemma dmin_le: "\<not> isnan a \<Longrightarrow> \<not> isnan b \<Longrightarrow> dle (dmin a b) a \<and> dle (dmin a b) b"
  by (auto simp: dmin_def dle_def dest: dlt_asym)

lemma dmax_ge: "\<not> isnan a \<Longrightarrow> \<not> isnan b \<Longrightarrow> dle a (dmax a b) \<and> dle b (dmax a b)"
  by (auto simp: dmax_def dle_def dest: dlt_asym)

end
