(* ===== verification/CanDecoder.thy ===== *)
theory CanDecoder
  imports Ieee754
begin

unbundle bit_operations_syntax

text \<open>
  Decoding of CAN frames: \<open>datadecoding/src/CANDecoder.cpp\<close> with the signal and message
  formats of \<open>types/include/SignalTypes.h\<close> and \<open>MessageTypes.h\<close>. Bytes are \<open>8 word\<close>, the
  accumulated raw value is a \<open>64 word\<close>. An operation the C++ standard leaves undefined (a
  read past the frame, a shift by 64 or more, an out-of-range conversion) is \<open>Inl\<close>.
\<close>

section \<open>Formats and decoded messages\<close>

type_synonym byte = "8 word"

record CANSignalFormat =
  mSignalID :: nat
  mIsBigEndian :: bool
  mIsSigned :: bool
  mFirstBitPosition :: nat
  mSizeInBits :: nat
  mOffset :: double
  mFactor :: double
  mIsMultiplexorSignal :: bool
  mMultiplexorValue :: nat

record CANMessageFormat =
  mMessageID :: nat
  mSizeInBytes :: nat
  mIsMultiplexed :: bool
  mSignals :: "CANSignalFormat list"

record CANDecodedSignal =
  dsSignalID :: nat
  dsRawValue :: int
  dsPhysicalValue :: double

record CANDecodedMessage =
  dmSignals :: "CANDecodedSignal list"
  dmDecodingTime :: nat

text \<open>The default member initialisers of the two format structs.\<close>

definition default_signal_format :: CANSignalFormat where
  "default_signal_format = \<lparr>mSignalID = 0, mIsBigEndian = False, mIsSigned = False,
     mFirstBitPosition = 0, mSizeInBits = 0, mOffset = Fin 0, mFactor = Fin 0,
     mIsMultiplexorSignal = False, mMultiplexorValue = 255\<rparr>"

definition default_message_format :: CANMessageFormat where
  "default_message_format = \<lparr>mMessageID = 0, mSizeInBytes = 0, mIsMultiplexed = False, mSignals = []\<rparr>"

definition message_isValid :: "CANMessageFormat \<Rightarrow> bool" where
  "message_isValid f = (mSignals f \<noteq> [])"

section \<open>Extraction of a raw value\<close>

definition BYTE_SIZE :: nat where "BYTE_SIZE = 8"

definition shl64 :: "64 word \<Rightarrow> nat \<Rightarrow> 64 word ub_result" where
  "shl64 x n = (if n < 64 then Inr (push_bit n x) else Inl BadShift)"

definition MASK64 :: "nat \<Rightarrow> 64 word ub_result" where
  "MASK64 nbits = (if 1 \<le> nbits \<and> nbits \<le> 64 then Inr (drop_bit (64 - nbits) (- 1)) else Inl BadShift)"

text \<open>The body shared by the two residual-byte loops, over the byte indices they visit.\<close>

fun residual_bytes :: "byte list \<Rightarrow> nat list \<Rightarrow> 64 word \<Rightarrow> nat \<Rightarrow> 64 word ub_result" where
  "residual_bytes frameData [] result resultLength = Inr result"
| "residual_bytes frameData (cnt # cs) result resultLength =
     ub_bind (read_at frameData cnt) (\<lambda>b.
     ub_bind (shl64 (ucast b) resultLength) (\<lambda>x.
       residual_bytes frameData cs (result OR x) (u8 (resultLength + BYTE_SIZE))))"

text \<open>Division of \<open>int\<close> values truncates towards zero in C++; the cast to \<open>uint8_t\<close> wraps.\<close>

definition be_end_byte :: "nat \<Rightarrow> nat \<Rightarrow> nat \<Rightarrow> nat" where
  "be_end_byte startByte startBitInByte sizeInBits =
     (let x = int (startByte * BYTE_SIZE + BYTE_SIZE) - int startBitInByte - int sizeInBits;
          q = (if x < 0 then - ((- x) div int BYTE_SIZE) else x div int BYTE_SIZE)
      in nat (q mod 256))"

definition extractSignalFromFrame :: "byte list \<Rightarrow> CANSignalFormat \<Rightarrow> int ub_result" where
  "extractSignalFromFrame frameData sd =
     (let startBit = u8 (mFirstBitPosition sd);
          startByte = startBit div BYTE_SIZE;
          startBitInByte = startBit mod BYTE_SIZE;
          resultLength = u8 (BYTE_SIZE - startBitInByte)
      in ub_bind (read_at frameData startByte) (\<lambda>b0.
         let result = drop_bit startBitInByte (ucast b0);
             counts = (if mIsBigEndian sd
                       then rev [be_end_byte startByte startBitInByte (mSizeInBits sd) ..< startByte]
                       else [startByte + 1 ..< u8 ((startBit + mSizeInBits sd - 1) div BYTE_SIZE) + 1])
         in ub_bind (residual_bytes frameData counts result resultLength) (\<lambda>result.
            ub_bind (MASK64 (mSizeInBits sd)) (\<lambda>mask.
            let result = result AND mask in
            if mIsSigned sd
            then ub_bind (shl64 1 (mSizeInBits sd - 1)) (\<lambda>msb.
                   Inr (sint ((result XOR msb) - msb)))
            else Inr (sint result)))))"

section \<open>Decoding of a message\<close>

record decode_state =
  errorCounter :: nat
  decoded :: "CANDecodedSignal list"

text \<open>One iteration of the loop over the signals of the format.\<close>

definition decode_signal ::
  "byte list \<Rightarrow> nat \<Rightarrow> nat set \<Rightarrow> nat \<Rightarrow> CANSignalFormat \<Rightarrow> decode_state \<Rightarrow> decode_state ub_result" where
  "decode_signal frameData frameSizeInBits ids multiplexorValue s st =
     (if mSignalID s \<notin> ids then Inr st
      else if multiplexorValue \<noteq> 255 \<and> mMultiplexorValue s \<noteq> multiplexorValue then Inr st
      else if mFirstBitPosition s \<ge> frameSizeInBits \<or> mSizeInBits s < 1 \<or> mSizeInBits s > frameSizeInBits
        then Inr (st\<lparr>errorCounter := u8 (errorCounter st + 1)\<rparr>)
      else if \<not> mIsBigEndian s \<and> mFirstBitPosition s + mSizeInBits s > frameSizeInBits
        then Inr (st\<lparr>errorCounter := u8 (errorCounter st + 1)\<rparr>)
      else ub_bind (extractSignalFromFrame frameData s) (\<lambda>rawValue.
             Inr (st\<lparr>decoded := decoded st @
                      [\<lparr>dsSignalID = mSignalID s, dsRawValue = rawValue,
                        dsPhysicalValue = dadd (dmul (of_integer rawValue) (mFactor s)) (mOffset s)\<rparr>]\<rparr>)))"

fun decode_signals ::
  "byte list \<Rightarrow> nat \<Rightarrow> nat set \<Rightarrow> nat \<Rightarrow> CANSignalFormat list \<Rightarrow> decode_state \<Rightarrow> decode_state ub_result" where
  "decode_signals fr bits ids mux [] st = Inr st"
| "decode_signals fr bits ids mux (s # ss) st =
     ub_bind (decode_signal fr bits ids mux s st) (decode_signals fr bits ids mux ss)"

text \<open>The multiplexor value and the entry the multiplexor signal adds to the message.\<close>

definition decode_multiplexor ::
  "byte list \<Rightarrow> CANSignalFormat \<Rightarrow> (nat \<times> CANDecodedSignal) ub_result" where
  "decode_multiplexor frameData s =
     ub_bind (extractSignalFromFrame frameData s) (\<lambda>rawValue.
     ub_bind (to_u8 (dadd (dmul (of_integer (rawValue mod 256)) (mFactor s)) (mOffset s))) (\<lambda>m.
       Inr (m, \<lparr>dsSignalID = mSignalID s, dsRawValue = rawValue, dsPhysicalValue = of_integer (int m)\<rparr>)))"

definition decodeCANMessage ::
  "byte list \<Rightarrow> CANMessageFormat \<Rightarrow> nat set \<Rightarrow> nat \<Rightarrow> CANDecodedMessage \<Rightarrow> (bool \<times> CANDecodedMessage) ub_result" where
  "decodeCANMessage frameData format ids now msg =
     (let frameSizeInBits = u32 (length frameData * 8);
          body = (\<lambda>mux start.
            ub_bind (decode_signals frameData frameSizeInBits ids mux (mSignals format)
                       \<lparr>errorCounter = 0, decoded = dmSignals msg @ start\<rparr>) (\<lambda>st.
              Inr (errorCounter st = 0, msg\<lparr>dmSignals := decoded st, dmDecodingTime := now\<rparr>)))
      in if mIsMultiplexed format
         then (case find mIsMultiplexorSignal (mSignals format) of
                 None \<Rightarrow> Inr (False, msg)
               | Some s \<Rightarrow>
                   if mSignalID s \<in> ids
                   then ub_bind (decode_multiplexor frameData s) (\<lambda>(m, d). body m [d])
                   else body 255 [])
         else body 255 [])"

section \<open>The value a signal denotes\<close>

text \<open>
  Bit \<open>i\<close> of a signal, counted from its least significant bit, in the frame. A little-endian
  signal continues in the following byte, a big-endian one in the preceding byte.
\<close>

definition frame_bit :: "bool \<Rightarrow> byte list \<Rightarrow> nat \<Rightarrow> nat \<Rightarrow> bool" where
  "frame_bit be fr first i =
     (let p = first mod 8 + i
      in bit (fr ! (if be then first div 8 - p div 8 else first div 8 + p div 8)) (p mod 8))"

definition bits_value :: "bool \<Rightarrow> nat \<Rightarrow> (nat \<Rightarrow> bool) \<Rightarrow> int" where
  "bits_value isSigned n f =
     (let v = horner_sum of_bool 2 (map f [0 ..< n]) in if isSigned \<and> f (n - 1) then v - 2 ^ n else v)"

text \<open>A signal lies inside a frame of at most eight bytes.\<close>

definition signal_fits :: "byte list \<Rightarrow> CANSignalFormat \<Rightarrow> bool" where
  "signal_fits fr s \<longleftrightarrow>
     length fr \<le> 8 \<and> 1 \<le> mSizeInBits s \<and> mFirstBitPosition s < 8 * length fr \<and>
     (if mIsBigEndian s
      then mFirstBitPosition s mod 8 + mSizeInBits s \<le> 8 * (mFirstBitPosition s div 8 + 1)
      else mFirstBitPosition s + mSizeInBits s \<le> 8 * length fr)"

section \<open>Correctness of the extraction\<close>

lemma residual_bytes_bits:
  assumes "\<forall>c \<in> set cs. c < length fr" and "len + 8 * length cs \<le> 71"
  shows "\<exists>w. residual_bytes fr cs r len = Inr w \<and>
    (\<forall>i < 64. bit w i \<longleftrightarrow> bit r i \<or>
       (len \<le> i \<and> (i - len) div 8 < length cs \<and> bit (fr ! (cs ! ((i - len) div 8))) ((i - len) mod 8)))"
  using assms
proof (induction cs arbitrary: r len)
  case (Cons c cs)
  define x :: "64 word" where "x = push_bit len (ucast (fr ! c))"
  have len: "len < 64" "u8 (len + 8) = len + 8" using Cons.prems(2) by (simp_all add: u8_def)
  have "\<forall>c \<in> set cs. c < length fr" "len + 8 + 8 * length cs \<le> 71" using Cons.prems by auto
  from Cons.IH [OF this, of "r OR x"] obtain w where
    w: "residual_bytes fr cs (r OR x) (len + 8) = Inr w" and
    bits: "\<And>i. i < 64 \<Longrightarrow> bit w i \<longleftrightarrow> bit (r OR x) i \<or>
       (len + 8 \<le> i \<and> (i - (len + 8)) div 8 < length cs \<and>
        bit (fr ! (cs ! ((i - (len + 8)) div 8))) ((i - (len + 8)) mod 8))" by blast
  have run: "residual_bytes fr (c # cs) r len = Inr w"
    using Cons.prems len w by (simp add: shl64_def x_def BYTE_SIZE_def)
  have "bit w i \<longleftrightarrow> bit r i \<or>
       (len \<le> i \<and> (i - len) div 8 < length (c # cs) \<and>
        bit (fr ! ((c # cs) ! ((i - len) div 8))) ((i - len) mod 8))" if i: "i < 64" for i
  proof (cases "i < len + 8")
    case True
    have 1: "len \<le> i \<Longrightarrow> (i - len) div 8 = 0 \<and> (i - len) mod 8 = i - len" using True by simp
    have 2: "bit x i \<longleftrightarrow> len \<le> i \<and> bit (fr ! c) (i - len)"
      using i by (auto simp: x_def bit_push_bit_iff bit_ucast_iff)
    show ?thesis using bits [OF i] True 1 2 by (auto simp: bit_or_iff)
  next
    case False
    define k where "k = i - (len + 8)"
    have k: "i - len = k + 8" using False by (simp add: k_def)
    have 2: "\<not> bit x i"
      using False i by (auto simp: x_def bit_push_bit_iff bit_ucast_iff dest!: bit_imp_le_length)
    show ?thesis using bits [OF i] False 2 by (simp add: bit_or_iff k k_def [symmetric])
  qed
  with run show ?case by blast
qed simp

lemma MASK64_eq: "1 \<le> n \<Longrightarrow> n \<le> 64 \<Longrightarrow> MASK64 n = Inr (mask n)"
proof -
  assume n: "1 \<le> n" "n \<le> 64"
  have "drop_bit (64 - n) (- 1 :: 64 word) = mask n"
    by (rule bit_eqI) (use n in \<open>auto simp: bit_drop_bit_eq bit_mask_iff\<close>)
  with n show ?thesis by (simp add: MASK64_def)
qed

text \<open>The exclusive-or step of the code is a sign extension.\<close>

lemma xor_sub_sign:
  fixes w :: "64 word"
  shows "(w XOR push_bit k 1) - push_bit k 1 = (if bit w k then w - 2 * push_bit k 1 else w)"
proof (cases "bit w k")
  case True
  let ?m = "push_bit k (1 :: 64 word)"
  have "(w XOR ?m) AND ?m = 0"
    by (rule bit_eqI) (use True in \<open>auto simp: bit_and_iff bit_xor_iff bit_push_bit_iff bit_1_iff bit_exp_iff\<close>)
  then have "(w XOR ?m) + ?m = (w XOR ?m) XOR ?m"
    by (simp add: disjunctive_add_eq_xor)
  then have "w XOR ?m = w - ?m" by (simp add: xor.assoc eq_diff_eq)
  with True show ?thesis by simp
next
  case False
  let ?m = "push_bit k (1 :: 64 word)"
  have "w AND ?m = 0"
    by (rule bit_eqI) (use False in \<open>auto simp: bit_and_iff bit_push_bit_iff bit_1_iff bit_exp_iff\<close>)
  then have "w XOR ?m = w + ?m" by (simp add: disjunctive_add_eq_xor)
  with False show ?thesis by simp
qed

lemma word_of_bits:
  fixes w :: "64 word"
  assumes "\<And>i. i < 64 \<Longrightarrow> bit w i \<longleftrightarrow> i < n \<and> f i"
  shows "w = word_of_int (horner_sum of_bool 2 (map f [0 ..< n]))"
  by (rule bit_word_eqI) (auto simp: assms bit_horner_sum_bit_iff bit_word_of_int_iff)

text \<open>Masking and sign extension of a word whose low bits are those of the signal.\<close>

lemma finish_value:
  fixes w :: "64 word"
  assumes n: "1 \<le> n" "n \<le> 64" and bits: "\<And>i. i < n \<Longrightarrow> bit w i \<longleftrightarrow> f i"
  shows "sint (w AND mask n) = signed_take_bit 63 (bits_value False n f)"
    and "sint (((w AND mask n) XOR push_bit (n - 1) 1) - push_bit (n - 1) 1)
           = signed_take_bit 63 (bits_value True n f)"
proof -
  let ?v = "horner_sum of_bool 2 (map f [0 ..< n]) :: int"
  have w: "w AND mask n = word_of_int ?v"
    by (rule word_of_bits) (use bits in \<open>auto simp: bit_and_iff bit_mask_iff\<close>)
  have sint: "sint (word_of_int k :: 64 word) = signed_take_bit 63 k" for k
    by (simp add: sint_sbintrunc')
  show "sint (w AND mask n) = signed_take_bit 63 (bits_value False n f)"
    by (simp add: w sint bits_value_def)
  have b: "bit (w AND mask n) (n - 1) \<longleftrightarrow> f (n - 1)"
    using n bits [of "n - 1"] by (auto simp: bit_and_iff bit_mask_iff)
  have two: "2 * push_bit (n - 1) (1 :: 64 word) = word_of_int (2 ^ n)"
  proof -
    have "(2 :: 64 word) ^ Suc (n - 1) = 2 ^ n" using n by (metis Suc_diff_1 less_eq_Suc_le One_nat_def)
    then show ?thesis by (simp add: push_bit_eq_mult)
  qed
  have "((w AND mask n) XOR push_bit (n - 1) 1) - push_bit (n - 1) 1 = (word_of_int (bits_value True n f) :: 64 word)"
    unfolding xor_sub_sign b two unfolding w
    by (cases "f (n - 1)") (simp_all only: bits_value_def Let_def simp_thms wi_hom_sub if_True if_False)
  then show "sint (((w AND mask n) XOR push_bit (n - 1) 1) - push_bit (n - 1) 1)
           = signed_take_bit 63 (bits_value True n f)"
    by (simp only: sint)
qed

text \<open>The bytes both loops visit, and the bits they contribute.\<close>

lemma little_endian_word:
  assumes fr: "length fr \<le> 8" and fb: "first < 8 * length fr" and n: "1 \<le> n" "first + n \<le> 8 * length fr"
  shows "\<exists>w. residual_bytes fr [first div 8 + 1 ..< u8 ((first + n - 1) div 8) + 1]
                (drop_bit (first mod 8) (ucast (fr ! (first div 8)))) (8 - first mod 8) = Inr w \<and>
           (\<forall>i < n. bit w i \<longleftrightarrow> frame_bit False fr first i)"
proof -
  define e where "e = (first + n - 1) div 8"
  have e: "u8 e = e" "e < length fr" using assms by (auto simp: u8_def e_def)
  define d where "d = first div 8"
  define cs where "cs = [d + 1 ..< e + 1]"
  have cs: "\<forall>c \<in> set cs. c < length fr" using e by (auto simp: cs_def)
  have lcs: "length cs = e - d" using length_upt [of "d + 1" "e + 1"] by (simp add: cs_def)
  then have "length cs \<le> 7" using e fr by linarith
  then have len: "8 - first mod 8 + 8 * length cs \<le> 71" by linarith
  from residual_bytes_bits [OF cs len, of "drop_bit (first mod 8) (ucast (fr ! (first div 8)))"]
  obtain w where run: "residual_bytes fr cs (drop_bit (first mod 8) (ucast (fr ! (first div 8)))) (8 - first mod 8) = Inr w"
    and bits: "\<And>i. i < 64 \<Longrightarrow> bit w i \<longleftrightarrow>
        bit (drop_bit (first mod 8) (ucast (fr ! (first div 8)) :: 64 word)) i \<or>
        8 - first mod 8 \<le> i \<and> (i - (8 - first mod 8)) div 8 < length cs \<and>
        bit (fr ! (cs ! ((i - (8 - first mod 8)) div 8))) ((i - (8 - first mod 8)) mod 8)" by blast
  have "bit w i \<longleftrightarrow> frame_bit False fr first i" if i: "i < n" for i
  proof -
    have i64: "i < 64" using i n fr by linarith
    show ?thesis
    proof (cases "first mod 8 + i < 8")
      case True
      then show ?thesis using bits [OF i64] i64
        by (auto simp: bit_drop_bit_eq bit_ucast_iff frame_bit_def Let_def)
    next
      case False
      define k where "k = i - (8 - first mod 8)"
      have k: "first mod 8 + i = k + 8" using False by (simp add: k_def)
      have "first + i = 8 * (first div 8) + (k + 8)" using k by (metis add.assoc mult_div_mod_eq)
      then have "d + (k + 8) div 8 \<le> e" using i unfolding e_def d_def by linarith
      then have kl: "k div 8 < length cs" unfolding lcs by linarith
      have nth: "cs ! (k div 8) = d + 1 + k div 8"
        using kl lcs unfolding cs_def by (intro nth_upt) linarith
      have ge: "8 - first mod 8 \<le> i" using False by linarith
      have no: "\<not> bit (drop_bit (first mod 8) (ucast (fr ! (first div 8)) :: 64 word)) i"
        using False by (auto simp: bit_drop_bit_eq bit_ucast_iff dest!: bit_imp_le_length)
      show ?thesis using bits [OF i64] no ge kl nth
        unfolding k_def [symmetric] by (simp add: frame_bit_def Let_def k d_def)
    qed
  qed
  with run show ?thesis unfolding e_def [symmetric] e(1) cs_def d_def by blast
qed

lemma big_endian_word:
  assumes fr: "length fr \<le> 8" and fb: "first < 8 * length fr"
    and n: "1 \<le> n" "first mod 8 + n \<le> 8 * (first div 8 + 1)"
  shows "\<exists>w. residual_bytes fr (rev [be_end_byte (first div 8) (first mod 8) n ..< first div 8])
                (drop_bit (first mod 8) (ucast (fr ! (first div 8)))) (8 - first mod 8) = Inr w \<and>
           (\<forall>i < n. bit w i \<longleftrightarrow> frame_bit True fr first i)"
proof -
  define b where "b = first div 8"
  define s where "s = first mod 8"
  define e where "e = (8 * b + 8 - (s + n)) div 8"
  have b: "b < length fr" "b \<le> 7" using fb fr by (auto simp: b_def)
  have s: "s < 8" by (simp add: s_def)
  have ns: "s + n \<le> 8 * b + 8" using n by (simp add: b_def s_def)
  have e_eq: "be_end_byte b s n = e"
  proof -
    have x: "int (b * 8 + 8) - int s - int n = int (8 * b + 8 - (s + n))" using ns by simp
    have "e < 256" using b by (simp add: e_def)
    then show ?thesis unfolding be_end_byte_def BYTE_SIZE_def Let_def x
      by (simp add: e_def flip: of_nat_div zdiv_int)
  qed
  let ?cs = "rev [e ..< b]"
  have cs: "\<forall>c \<in> set ?cs. c < length fr" using b by auto
  have len: "8 - s + 8 * length ?cs \<le> 71" using b by auto
  from residual_bytes_bits [OF cs len, of "drop_bit s (ucast (fr ! b))"]
  obtain w where run: "residual_bytes fr ?cs (drop_bit s (ucast (fr ! b))) (8 - s) = Inr w"
    and bits: "\<And>i. i < 64 \<Longrightarrow> bit w i \<longleftrightarrow>
        bit (drop_bit s (ucast (fr ! b) :: 64 word)) i \<or>
        8 - s \<le> i \<and> (i - (8 - s)) div 8 < length ?cs \<and>
        bit (fr ! (?cs ! ((i - (8 - s)) div 8))) ((i - (8 - s)) mod 8)" by blast
  have "bit w i \<longleftrightarrow> frame_bit True fr first i" if i: "i < n" for i
  proof -
    have i64: "i < 64" using i ns b by linarith
    show ?thesis
    proof (cases "s + i < 8")
      case True
      then show ?thesis using bits [OF i64] i64
        by (auto simp: bit_drop_bit_eq bit_ucast_iff frame_bit_def Let_def s_def b_def)
    next
      case False
      define k where "k = i - (8 - s)"
      have k: "s + i = k + 8" using False s by (simp add: k_def)
      have "k + 8 < s + n" using k i by linarith
      then have kl: "k div 8 < b - e" using ns e_def by linarith
      then have nth: "?cs ! (k div 8) = b - Suc (k div 8)" by (simp add: rev_nth)
      have no: "\<not> bit (drop_bit s (ucast (fr ! b) :: 64 word)) i"
        using False by (auto simp: bit_drop_bit_eq bit_ucast_iff dest!: bit_imp_le_length)
      have "8 - s \<le> i" using False by linarith
      then show ?thesis using bits [OF i64] no kl nth
        unfolding k_def [symmetric] by (auto simp: frame_bit_def Let_def k s_def [symmetric] b_def [symmetric])
    qed
  qed
  with run show ?thesis unfolding b_def [symmetric] s_def [symmetric] e_eq by blast
qed

text \<open>
  C30. The raw value of a signal inside its frame is the number its bits denote: the bits of
  the signal, little-endian or big-endian, read as an unsigned or a two's complement number
  and stored in an \<open>int64_t\<close>. No read is out of bounds and no shift is too wide.
\<close>

theorem extract_denotes:
  assumes "signal_fits fr s"
  shows "extractSignalFromFrame fr s =
    Inr (signed_take_bit 63 (bits_value (mIsSigned s) (mSizeInBits s)
           (frame_bit (mIsBigEndian s) fr (mFirstBitPosition s))))"
proof -
  define first where "first = mFirstBitPosition s"
  define n where "n = mSizeInBits s"
  have fr: "length fr \<le> 8" and fb: "first < 8 * length fr" and n: "1 \<le> n"
    using assms by (auto simp: signal_fits_def first_def n_def)
  have "first < 64" using fr fb by linarith
  then have u: "u8 first = first" "u8 (8 - first mod 8) = 8 - first mod 8" by (simp_all add: u8_def)
  have b: "first div 8 < length fr" using fb by linarith
  define cs where "cs = (if mIsBigEndian s then rev [be_end_byte (first div 8) (first mod 8) n ..< first div 8]
                         else [first div 8 + 1 ..< u8 ((first + n - 1) div 8) + 1])"
  have n64: "n \<le> 64"
  proof (cases "mIsBigEndian s")
    case True
    with assms have "first mod 8 + n \<le> 8 * (first div 8) + 8"
      by (simp add: signal_fits_def first_def n_def)
    moreover have "first div 8 \<le> 7" using b fr by linarith
    ultimately show ?thesis by linarith
  next
    case False
    with assms have "first + n \<le> 8 * length fr" by (simp add: signal_fits_def first_def n_def)
    with fr show ?thesis by linarith
  qed
  obtain w where run: "residual_bytes fr cs (drop_bit (first mod 8) (ucast (fr ! (first div 8)))) (8 - first mod 8) = Inr w"
    and bits: "\<And>i. i < n \<Longrightarrow> bit w i \<longleftrightarrow> frame_bit (mIsBigEndian s) fr first i"
  proof (cases "mIsBigEndian s")
    case True
    then show ?thesis using that big_endian_word [OF fr fb n] assms
      by (auto simp: signal_fits_def cs_def first_def n_def)
  next
    case False
    then show ?thesis using that little_endian_word [OF fr fb n] assms
      by (auto simp: signal_fits_def cs_def first_def n_def)
  qed
  note fin = finish_value [OF n n64 bits]
  have sh: "shl64 1 (n - 1) = Inr (push_bit (n - 1) 1)" using n n64 by (simp add: shl64_def)
  show ?thesis
    unfolding extractSignalFromFrame_def Let_def first_def [symmetric] n_def [symmetric] BYTE_SIZE_def u
      cs_def [symmetric] read_at_in [OF b] ub_bind_simps run MASK64_eq [OF n n64] sh
    using fin by simp
qed

definition example_frame :: "byte list" where "example_frame = [0x34, 0x92, 0x7F]"

definition example_signal :: CANSignalFormat where
  "example_signal = default_signal_format
     \<lparr>mSignalID := 7, mIsSigned := True, mFirstBitPosition := 4, mSizeInBits := 12, mFactor := Fin 2, mOffset := Fin 1\<rparr>"

theorem extract_denotes_witness:
  "signal_fits example_frame example_signal \<and> extractSignalFromFrame example_frame example_signal = Inr (- 1757)"
proof -
  have fits: "signal_fits example_frame example_signal"
    by (simp add: signal_fits_def example_frame_def example_signal_def default_signal_format_def)
  have "bits_value True 12 (frame_bit False example_frame 4) = - 1757" by code_simp
  then show ?thesis using fits extract_denotes [OF fits]
    by (simp add: example_signal_def default_signal_format_def)
qed

section \<open>Memory safety and the decoded message\<close>

text \<open>The range check the loop of \<open>decodeCANMessage\<close> applies before it decodes a signal.\<close>

definition in_range :: "nat \<Rightarrow> CANSignalFormat \<Rightarrow> bool" where
  "in_range bits s \<longleftrightarrow> mFirstBitPosition s < bits \<and> 1 \<le> mSizeInBits s \<and> mSizeInBits s \<le> bits \<and>
     (\<not> mIsBigEndian s \<longrightarrow> mFirstBitPosition s + mSizeInBits s \<le> bits)"

lemma extract_safe:
  assumes fr: "length fr \<le> 8" and rng: "in_range (8 * length fr) s"
  shows "\<exists>v. extractSignalFromFrame fr s = Inr v"
proof -
  define first where "first = mFirstBitPosition s"
  define n where "n = mSizeInBits s"
  have fb: "first < 8 * length fr" and n: "1 \<le> n" "n \<le> 64"
    using rng fr by (auto simp: in_range_def first_def n_def)
  have "first < 64" using fr fb by linarith
  then have u: "u8 first = first" "u8 (8 - first mod 8) = 8 - first mod 8" by (simp_all add: u8_def)
  have b: "first div 8 < length fr" using fb by linarith
  define cs where "cs = (if mIsBigEndian s then rev [be_end_byte (first div 8) (first mod 8) n ..< first div 8]
                         else [first div 8 + 1 ..< u8 ((first + n - 1) div 8) + 1])"
  obtain w where run: "residual_bytes fr cs (drop_bit (first mod 8) (ucast (fr ! (first div 8)))) (8 - first mod 8) = Inr w"
  proof (cases "mIsBigEndian s")
    case True
    have 1: "\<forall>c \<in> set cs. c < length fr" using b True by (auto simp: cs_def)
    have "length cs \<le> first div 8" using True by (simp add: cs_def)
    then have 2: "8 - first mod 8 + 8 * length cs \<le> 71" using b fr by linarith
    show ?thesis using residual_bytes_bits [OF 1 2] that by blast
  next
    case False
    then have "first + n \<le> 8 * length fr" using rng by (simp add: in_range_def first_def n_def)
    from little_endian_word [OF fr fb n(1) this] False show ?thesis using that by (auto simp: cs_def)
  qed
  have sh: "shl64 1 (n - 1) = Inr (push_bit (n - 1) 1)" using n by (simp add: shl64_def)
  show ?thesis
    unfolding extractSignalFromFrame_def Let_def first_def [symmetric] n_def [symmetric] BYTE_SIZE_def u
      cs_def [symmetric] read_at_in [OF b] ub_bind_simps run MASK64_eq [OF n] sh
    by auto
qed

text \<open>What a signal in range contributes to the message.\<close>

definition raw_value :: "byte list \<Rightarrow> CANSignalFormat \<Rightarrow> int" where
  "raw_value fr s = (case extractSignalFromFrame fr s of Inr v \<Rightarrow> v | Inl _ \<Rightarrow> 0)"

definition decoded_signal :: "byte list \<Rightarrow> CANSignalFormat \<Rightarrow> CANDecodedSignal" where
  "decoded_signal fr s =
     \<lparr>dsSignalID = mSignalID s, dsRawValue = raw_value fr s,
      dsPhysicalValue = dadd (dmul (of_integer (raw_value fr s)) (mFactor s)) (mOffset s)\<rparr>"

lemma decode_signal_cases:
  assumes fr: "length fr \<le> 8"
  shows "decode_signal fr (8 * length fr) ids mux s st = Inr
     (if mSignalID s \<in> ids \<and> (mux = 255 \<or> mMultiplexorValue s = mux)
      then if in_range (8 * length fr) s then st\<lparr>decoded := decoded st @ [decoded_signal fr s]\<rparr>
           else st\<lparr>errorCounter := u8 (errorCounter st + 1)\<rparr>
      else st)"
proof (cases "in_range (8 * length fr) s")
  case True
  with extract_safe [OF fr] obtain v where "extractSignalFromFrame fr s = Inr v" by blast
  with True show ?thesis
    by (auto simp: decode_signal_def in_range_def decoded_signal_def raw_value_def)
next
  case False
  then show ?thesis by (auto simp: decode_signal_def in_range_def)
qed

lemma decode_signals_cases:
  fixes mux :: nat and ids :: "nat set" and ss :: "CANSignalFormat list"
  assumes fr: "length fr \<le> 8" and c: "errorCounter st < 256"
  defines "sel \<equiv> filter (\<lambda>s. mSignalID s \<in> ids \<and> (mux = 255 \<or> mMultiplexorValue s = mux)) ss"
  shows "decode_signals fr (8 * length fr) ids mux ss st = Inr
     (st\<lparr>errorCounter := (errorCounter st + length (filter (\<lambda>s. \<not> in_range (8 * length fr) s) sel)) mod 256,
         decoded := decoded st @ map (decoded_signal fr) (filter (in_range (8 * length fr)) sel)\<rparr>)"
  using c unfolding sel_def
proof (induction ss arbitrary: st)
  case (Cons s ss)
  show ?case using Cons.prems by (auto simp: decode_signal_cases [OF fr] Cons.IH u8_def mod_simps)
qed simp

lemma decode_plain:
  assumes "length fr \<le> 8" and "\<not> mIsMultiplexed fmt"
  shows "decodeCANMessage fr fmt ids now msg =
    (let sel = filter (\<lambda>s. mSignalID s \<in> ids) (mSignals fmt)
     in Inr (length (filter (\<lambda>s. \<not> in_range (8 * length fr) s) sel) mod 256 = 0,
             msg\<lparr>dmSignals := dmSignals msg @ map (decoded_signal fr) (filter (in_range (8 * length fr)) sel),
                 dmDecodingTime := now\<rparr>))"
proof -
  have "length fr * 8 < 2 ^ 32" using assms(1) by simp
  then have u: "u32 (length fr * 8) = 8 * length fr" using u32_id [of "length fr * 8"] by simp
  show ?thesis
    using assms(2) decode_signals_cases [OF assms(1), of "\<lparr>errorCounter = 0, decoded = dmSignals msg\<rparr>" ids 255 "mSignals fmt"]
    unfolding decodeCANMessage_def Let_def u by simp
qed

text \<open>
  C31. Decoding a frame of at most eight bytes with a format that is not multiplexed never has
  undefined behaviour; the message gets exactly the requested signals that lie in the frame,
  in the order of the format, each with its scaled value. Whether it succeeded is told by the number
  of requested signals out of range, which is counted in eight bits: the result is true when that
  number is a multiple of 256.
\<close>

theorem decodeCANMessage_result:
  assumes "length fr \<le> 8" and "\<not> mIsMultiplexed fmt"
  shows "decodeCANMessage fr fmt ids now msg =
    (let sel = filter (\<lambda>s. mSignalID s \<in> ids) (mSignals fmt)
     in Inr (length (filter (\<lambda>s. \<not> in_range (8 * length fr) s) sel) mod 256 = 0,
             msg\<lparr>dmSignals := dmSignals msg @ map (decoded_signal fr) (filter (in_range (8 * length fr)) sel),
                 dmDecodingTime := now\<rparr>))"
  by (rule decode_plain [OF assms])

definition example_format :: CANMessageFormat where
  "example_format = default_message_format
     \<lparr>mSignals := [example_signal, example_signal\<lparr>mSignalID := 8, mFirstBitPosition := 20\<rparr>]\<rparr>"

theorem decodeCANMessage_result_witness:
  "length example_frame \<le> 8 \<and> \<not> mIsMultiplexed example_format \<and>
   decodeCANMessage example_frame example_format {7, 8} 99 \<lparr>dmSignals = [], dmDecodingTime = 0\<rparr> =
     Inr (False, \<lparr>dmSignals = [\<lparr>dsSignalID = 7, dsRawValue = - 1757, dsPhysicalValue = Fin (- 3513)\<rparr>],
                   dmDecodingTime = 99\<rparr>)"
proof -
  have 1: "length example_frame \<le> 8" and 2: "\<not> mIsMultiplexed example_format"
    by (simp_all add: example_frame_def example_format_def default_message_format_def)
  have raw: "extractSignalFromFrame example_frame example_signal = Inr (- 1757)" by code_simp
  have d: "decoded_signal example_frame example_signal =
      \<lparr>dsSignalID = 7, dsRawValue = - 1757, dsPhysicalValue = Fin (- 3513)\<rparr>"
    unfolding decoded_signal_def raw_value_def raw
    by (simp add: example_signal_def default_signal_format_def of_integer_exact dmul_def)
  have len: "length example_frame = 3" by (simp add: example_frame_def)
  have r: "in_range 24 example_signal"
     "\<not> in_range 24 (example_signal\<lparr>mSignalID := 8, mFirstBitPosition := 20\<rparr>)"
     "mSignalID example_signal = 7"
    by (simp_all add: in_range_def example_signal_def default_signal_format_def)
  show ?thesis
    using 1 2 decodeCANMessage_result [OF 1 2, of "{7, 8}" 99 "\<lparr>dmSignals = [], dmDecodingTime = 0\<rparr>"]
    by (simp add: len example_format_def default_message_format_def r d)
qed

text \<open>
  A message with 256 requested signals, none of which lies in the frame, is reported as decoded
  without an error: the counter of the errors is back at zero.
\<close>

theorem errors_forgotten:
  assumes "length fr \<le> 8" and "\<not> mIsMultiplexed fmt" and "length (mSignals fmt) = 256"
    and "\<forall>s \<in> set (mSignals fmt). mSignalID s \<in> ids \<and> \<not> in_range (8 * length fr) s"
  shows "decodeCANMessage fr fmt ids now msg = Inr (True, msg\<lparr>dmDecodingTime := now\<rparr>)"
proof -
  have f: "filter (\<lambda>s. mSignalID s \<in> ids) (mSignals fmt) = mSignals fmt"
      "filter (\<lambda>s. \<not> in_range (8 * length fr) s) (mSignals fmt) = mSignals fmt" "filter (in_range (8 * length fr)) (mSignals fmt) = []"
    using assms(4) by (auto intro: filter_True filter_False)
  show ?thesis using assms(3) by (simp add: decode_plain [OF assms(1,2)] Let_def f)
qed

theorem errors_forgotten_witness:
  "decodeCANMessage example_frame (default_message_format\<lparr>mSignals := replicate 256 (example_signal\<lparr>mFirstBitPosition := 24\<rparr>)\<rparr>) {7} 5
     \<lparr>dmSignals = [], dmDecodingTime = 0\<rparr> = Inr (True, \<lparr>dmSignals = [], dmDecodingTime = 5\<rparr>)"
proof -
  let ?s = "example_signal\<lparr>mFirstBitPosition := 24\<rparr>"
  let ?fmt = "default_message_format\<lparr>mSignals := replicate 256 ?s\<rparr>"
  have 1: "length example_frame \<le> 8" "\<not> mIsMultiplexed ?fmt" "length (mSignals ?fmt) = 256"
    by (simp_all add: example_frame_def default_message_format_def)
  have 2: "\<forall>s \<in> set (mSignals ?fmt). mSignalID s \<in> {7} \<and> \<not> in_range (8 * length example_frame) s"
    by (simp add: example_signal_def in_range_def example_frame_def)
  show ?thesis using errors_forgotten [OF 1 2, of 5 "\<lparr>dmSignals = [], dmDecodingTime = 0\<rparr>"] by simp
qed

text \<open>
  C38. The multiplexor signal is read without the range check the other signals get: when it
  starts past the end of the frame the code reads out of bounds.
\<close>

theorem multiplexor_out_of_bounds:
  assumes "mIsMultiplexed fmt" and "find mIsMultiplexorSignal (mSignals fmt) = Some s"
    and "mSignalID s \<in> ids" and "length fr \<le> u8 (mFirstBitPosition s) div 8"
  shows "decodeCANMessage fr fmt ids now msg = Inl OutOfBounds"
  using assms
  by (simp add: decodeCANMessage_def decode_multiplexor_def extractSignalFromFrame_def BYTE_SIZE_def read_at_def)

theorem multiplexor_out_of_bounds_witness:
  "\<exists>fmt. mIsMultiplexed fmt \<and> decodeCANMessage example_frame fmt {7} 0 \<lparr>dmSignals = [], dmDecodingTime = 0\<rparr> = Inl OutOfBounds"
proof -
  let ?s = "example_signal\<lparr>mFirstBitPosition := 24, mIsMultiplexorSignal := True\<rparr>"
  let ?fmt = "default_message_format\<lparr>mIsMultiplexed := True, mSignals := [?s]\<rparr>"
  have 1: "mIsMultiplexed ?fmt" and 2: "find mIsMultiplexorSignal (mSignals ?fmt) = Some ?s" by simp_all
  have 3: "mSignalID ?s \<in> {7}" by (simp add: example_signal_def)
  have 4: "length example_frame \<le> u8 (mFirstBitPosition ?s) div 8" by (simp add: example_frame_def u8_def)
  from multiplexor_out_of_bounds [OF 1 2 3 4] 1 show ?thesis by blast
qed

end
