(* ===== verification/ObdDecoder.thy ===== *)
theory ObdDecoder
  imports CanDecoder
begin

text \<open>
  Decoding of OBD-II responses (SAE J1979): \<open>datadecoding/src/OBDDataDecoder.cpp\<close> with the
  types and tables of \<open>types/include/OBDDataTypes.h\<close>. A \<open>uint8_t\<close> is a \<open>nat\<close> below 256
  (\<open>bytes_ok\<close>); the decoder dictionary is a partial map from PIDs to message formats; the
  output map is an association list read through \<open>map_of\<close>.
\<close>

section \<open>Service modes and PID tables\<close>

datatype SID = INVALID_SERVICE_MODE | CURRENT_STATS | STATS_SINCE_FREEZE_FRAME | STORED_DTC
  | CLEAR_DTC | OXGEN_SENSOR_MODE_NON_CAN | OXGEN_SENSOR_MODE | PENDING_DTC | TESTING | VEHICLE_INFO

fun sid_toUType :: "SID \<Rightarrow> nat" where
  "sid_toUType INVALID_SERVICE_MODE = 0x00"
| "sid_toUType CURRENT_STATS = 0x01"
| "sid_toUType STATS_SINCE_FREEZE_FRAME = 0x02"
| "sid_toUType STORED_DTC = 0x03"
| "sid_toUType CLEAR_DTC = 0x04"
| "sid_toUType OXGEN_SENSOR_MODE_NON_CAN = 0x05"
| "sid_toUType OXGEN_SENSOR_MODE = 0x06"
| "sid_toUType PENDING_DTC = 0x07"
| "sid_toUType TESTING = 0x08"
| "sid_toUType VEHICLE_INFO = 0x09"

definition INVALID_PID :: nat where "INVALID_PID = 255"
definition SUPPORTED_PID_STEP :: nat where "SUPPORTED_PID_STEP = 0x20"
definition POSITIVE_ECU_RESPONSE_BASE :: nat where "POSITIVE_ECU_RESPONSE_BASE = 0x40"

definition supportedPIDRange :: "nat list" where
  "supportedPIDRange = [0x00, 0x20, 0x40, 0x60, 0x80, 0xA0, 0xC0, 0xE0]"

definition mode2PIDs :: "nat list" where "mode2PIDs = [0x02]"

definition mode9PIDs :: "nat list" where
  "mode9PIDs = [0x00, 0x01, 0x02, 0x03, 0x04, 0x05, 0x06, 0x07, 0x08, 0x09, 0x0A, 0x0B]"

definition getPID :: "SID \<Rightarrow> nat \<Rightarrow> nat" where
  "getPID sid index =
     (case sid of
        CURRENT_STATS \<Rightarrow> if index < last supportedPIDRange + SUPPORTED_PID_STEP then u8 index else INVALID_PID
      | STATS_SINCE_FREEZE_FRAME \<Rightarrow> if index < length mode2PIDs then mode2PIDs ! index else INVALID_PID
      | VEHICLE_INFO \<Rightarrow> if index < length mode9PIDs then mode9PIDs ! index else INVALID_PID
      | _ \<Rightarrow> INVALID_PID)"

record DTCInfo =
  dtcSID :: SID
  dtcReceiveTime :: nat
  mDTCCodes :: "string list"

definition default_DTCInfo :: DTCInfo where
  "default_DTCInfo = \<lparr>dtcSID = INVALID_SERVICE_MODE, dtcReceiveTime = 0, mDTCCodes = []\<rparr>"

definition dtc_hasItems :: "DTCInfo \<Rightarrow> bool" where
  "dtc_hasItems info = (mDTCCodes info \<noteq> [])"

record EmissionInfo =
  emSID :: SID
  mPIDsToValues :: "(nat \<times> double) list"

record OBDRequest =
  rqSID :: SID
  rqPID :: nat

definition vehicleIdentificationNumberRequest :: OBDRequest where
  "vehicleIdentificationNumberRequest = \<lparr>rqSID = VEHICLE_INFO, rqPID = 0x02\<rparr>"

definition bytes_ok :: "nat list \<Rightarrow> bool" where
  "bytes_ok bs \<longleftrightarrow> (\<forall>b \<in> set bs. b < 256)"

text \<open>\<open>a || b\<close>, whose right operand is evaluated only when the left one is false, and a byte compared to a value.\<close>

definition or_else :: "bool ub_result \<Rightarrow> bool ub_result \<Rightarrow> bool ub_result" where
  "or_else a b = ub_bind a (\<lambda>x. if x then Inr True else b)"

definition byte_differs :: "nat list \<Rightarrow> nat \<Rightarrow> nat \<Rightarrow> bool ub_result" where
  "byte_differs xs i v = ub_bind (read_at xs i) (\<lambda>b. Inr (v \<noteq> b))"

lemma or_else_Inr [simp]: "or_else (Inr x) b = (if x then Inr True else b)"
  by (simp add: or_else_def)

lemma byte_differs_in [simp]: "i < length xs \<Longrightarrow> byte_differs xs i v = Inr (v \<noteq> xs ! i)"
  by (simp add: byte_differs_def)

text \<open>The first byte is there when the size was checked.\<close>

lemma byte_differs_first: "n \<le> length xs \<Longrightarrow> 0 < n \<Longrightarrow> byte_differs xs 0 v = Inr (v \<noteq> xs ! 0)"
  by (rule byte_differs_in) (rule less_le_trans)

section \<open>Supported PIDs\<close>

text \<open>The inner loop: the PIDs that one response byte announces, from bit 0 upwards.\<close>

definition byte_pids :: "SID \<Rightarrow> nat \<Rightarrow> nat \<Rightarrow> nat list" where
  "byte_pids sid b idx0 =
     filter (\<lambda>p. p \<noteq> INVALID_PID \<and> p \<notin> set supportedPIDRange)
       (map (\<lambda>j. getPID sid (idx0 - j)) (filter (\<lambda>j. bit b j) [0 ..< BYTE_SIZE]))"

text \<open>
  The outer loop over the byte indices; an invalid range byte breaks out of it. Every read of the
  response is one that may be out of bounds.
\<close>

fun supported_loop :: "SID \<Rightarrow> nat list \<Rightarrow> nat list \<Rightarrow> nat \<Rightarrow> nat \<Rightarrow> nat list \<Rightarrow> nat list ub_result" where
  "supported_loop sid inputData [] basePID baseIdx acc = Inr acc"
| "supported_loop sid inputData (i # is) basePID baseIdx acc =
     ub_bind (read_at inputData i) (\<lambda>b.
       if i mod 5 = 1
       then if b mod SUPPORTED_PID_STEP \<noteq> 0 then Inr acc
            else supported_loop sid inputData is b i acc
       else supported_loop sid inputData is basePID baseIdx
              (acc @ byte_pids sid b ((i - baseIdx) * BYTE_SIZE + basePID)))"

definition decodeSupportedPIDs :: "SID \<Rightarrow> nat list \<Rightarrow> nat list \<Rightarrow> (bool \<times> nat list) ub_result" where
  "decodeSupportedPIDs sid inputData supportedPIDs =
     ub_bind (or_else (Inr (length inputData < 6)) (or_else (byte_differs inputData 0 (POSITIVE_ECU_RESPONSE_BASE + sid_toUType sid))
                (Inr ((length inputData - 1) mod 5 \<noteq> 0)))) (\<lambda>invalid.
       if invalid then Inr (False, supportedPIDs)
       else ub_bind (supported_loop sid inputData [1 ..< length inputData] 0 0 supportedPIDs) (\<lambda>acc.
              let r = sort acc in Inr (r \<noteq> [], r)))"

section \<open>Emission PIDs\<close>

type_synonym OBDDecoderDictionary = "nat \<Rightarrow> CANMessageFormat option"

text \<open>The index after the requested PIDs, none when one of them is missing.\<close>

fun isPIDResponseValid_loop :: "OBDDecoderDictionary \<Rightarrow> nat list \<Rightarrow> nat list \<Rightarrow> nat \<Rightarrow> nat option ub_result" where
  "isPIDResponseValid_loop dict [] ecuResponse idx = Inr (Some idx)"
| "isPIDResponseValid_loop dict (pid # pids) ecuResponse idx =
     ub_bind (or_else (Inr (idx \<ge> length ecuResponse)) (byte_differs ecuResponse idx pid)) (\<lambda>missing.
       if missing then Inr None
       else (case dict pid of
               None \<Rightarrow> Inr None
             | Some f \<Rightarrow> isPIDResponseValid_loop dict pids ecuResponse (idx + (mSizeInBytes f + 1))))"

definition isPIDResponseValid :: "OBDDecoderDictionary \<Rightarrow> nat list \<Rightarrow> nat list \<Rightarrow> bool ub_result" where
  "isPIDResponseValid dict pids ecuResponse =
     ub_bind (isPIDResponseValid_loop dict pids ecuResponse 1) (\<lambda>r. Inr (r = Some (length ecuResponse)))"

definition isFormulaValid :: "OBDDecoderDictionary \<Rightarrow> nat \<Rightarrow> CANSignalFormat \<Rightarrow> bool" where
  "isFormulaValid dict pid formula =
     (case dict pid of
        None \<Rightarrow> False
      | Some f \<Rightarrow>
          mFirstBitPosition formula < mSizeInBytes f * BYTE_SIZE \<and>
          mSizeInBits formula + mFirstBitPosition formula \<le> mSizeInBytes f * BYTE_SIZE \<and>
          (mSizeInBits formula < 8 \<or>
           mSizeInBits formula mod 8 = 0 \<and> mFirstBitPosition formula mod 8 = 0))"

text \<open>The \<open>while (numOfBytes != 0)\<close> loop that concatenates raw bytes in 64 bits.\<close>

fun concat_bytes :: "nat list \<Rightarrow> nat \<Rightarrow> nat \<Rightarrow> nat \<Rightarrow> nat ub_result" where
  "concat_bytes inputData 0 byteIdx rawData = Inr rawData"
| "concat_bytes inputData (Suc numOfBytes) byteIdx rawData =
     ub_bind (read_at inputData byteIdx) (\<lambda>b.
       concat_bytes inputData numOfBytes (byteIdx + 1) (u64 (push_bit BYTE_SIZE rawData) OR b))"

definition formula_raw :: "nat list \<Rightarrow> nat \<Rightarrow> CANSignalFormat \<Rightarrow> nat ub_result" where
  "formula_raw inputData byteCounter formula =
     (let byteIdx = byteCounter + mFirstBitPosition formula div BYTE_SIZE in
      if mSizeInBits formula < BYTE_SIZE
      then ub_bind (read_at inputData byteIdx) (\<lambda>b.
             Inr (drop_bit (mFirstBitPosition formula mod BYTE_SIZE) b
                  AND drop_bit (BYTE_SIZE - mSizeInBits formula) 0xFF))
      else concat_bytes inputData (mSizeInBits formula div BYTE_SIZE) byteIdx 0)"

text \<open>\<open>std::map::emplace\<close> keeps an entry that is already there.\<close>

definition emplace_value :: "nat \<Rightarrow> double \<Rightarrow> (nat \<times> double) list \<Rightarrow> (nat \<times> double) list" where
  "emplace_value k v m = (if map_of m k = None then m @ [(k, v)] else m)"

fun emission_formulas ::
  "OBDDecoderDictionary \<Rightarrow> nat list \<Rightarrow> nat \<Rightarrow> nat \<Rightarrow> CANSignalFormat list \<Rightarrow> (nat \<times> double) list
     \<Rightarrow> (nat \<times> double) list ub_result" where
  "emission_formulas dict inputData byteCounter pid [] vals = Inr vals"
| "emission_formulas dict inputData byteCounter pid (formula # fs) vals =
     (if isFormulaValid dict pid formula
      then ub_bind (formula_raw inputData byteCounter formula) (\<lambda>rawData.
             emission_formulas dict inputData byteCounter pid fs
               (emplace_value (mSignalID formula)
                  (dadd (dmul (of_integer (int rawData)) (mFactor formula)) (mOffset formula)) vals))
      else emission_formulas dict inputData byteCounter pid fs vals)"

function emission_loop ::
  "OBDDecoderDictionary \<Rightarrow> nat list \<Rightarrow> nat \<Rightarrow> (nat \<times> double) list \<Rightarrow> (nat \<times> double) list ub_result" where
  "emission_loop dict inputData byteCounter vals =
     (if byteCounter < length inputData
      then ub_bind (read_at inputData byteCounter) (\<lambda>pid.
             case dict pid of
               None \<Rightarrow> Inr vals
             | Some f \<Rightarrow>
                 ub_bind
                   (if byteCounter + 1 + mSizeInBytes f \<le> length inputData
                    then emission_formulas dict inputData (byteCounter + 1) pid (mSignals f) vals
                    else Inr vals)
                   (emission_loop dict inputData (byteCounter + 1 + mSizeInBytes f)))
      else Inr vals)"
  by pat_completeness auto
termination
  by (relation "measure (\<lambda>(dict, inp, c, vals). length inp - c)") auto

declare emission_loop.simps [simp del]

definition decodeEmissionPIDs ::
  "OBDDecoderDictionary option \<Rightarrow> SID \<Rightarrow> nat list \<Rightarrow> nat list \<Rightarrow> EmissionInfo \<Rightarrow> (bool \<times> EmissionInfo) ub_result" where
  "decodeEmissionPIDs dictionary sid pids inputData info =
     ub_bind (or_else (Inr (length inputData < 3)) (byte_differs inputData 0 (POSITIVE_ECU_RESPONSE_BASE + sid_toUType sid))) (\<lambda>invalid.
       if invalid then Inr (False, info)
       else (case dictionary of
               None \<Rightarrow> Inr (False, info)
             | Some dict \<Rightarrow>
                 ub_bind (isPIDResponseValid dict pids inputData) (\<lambda>valid.
                   if \<not> valid then Inr (False, info)
                   else ub_bind (emission_loop dict inputData 1 (mPIDsToValues info)) (\<lambda>vals.
                          Inr (vals \<noteq> [], info\<lparr>emSID := sid, mPIDsToValues := vals\<rparr>)))))"

section \<open>Trouble codes and the VIN\<close>

definition dtc_domain :: "nat \<Rightarrow> string" where
  "dtc_domain d = (if d = 0 then ''P'' else if d = 1 then ''C'' else if d = 2 then ''B''
     else if d = 3 then ''U'' else [])"

text \<open>A value below 16 printed with \<open>std::hex\<close> and put through \<open>toupper\<close>.\<close>

definition upper_hex :: "nat \<Rightarrow> char" where
  "upper_hex n = ''0123456789ABCDEF'' ! n"

definition extractDTCString :: "nat \<Rightarrow> nat \<Rightarrow> string" where
  "extractDTCString firstByte secondByte =
     dtc_domain (drop_bit 6 firstByte) @
     [upper_hex (drop_bit 4 (firstByte AND 0x30)), upper_hex (firstByte AND 0x0F),
      upper_hex (drop_bit 4 secondByte), upper_hex (secondByte AND 0x0F)]"

text \<open>The loop over the bytes of the codes, two at a time; the size is at least two when it starts.\<close>

function dtc_loop :: "nat list \<Rightarrow> nat \<Rightarrow> string list \<Rightarrow> string list ub_result" where
  "dtc_loop inputData byteIndex codes =
     (if byteIndex < length inputData - 1
      then ub_bind (read_at inputData byteIndex) (\<lambda>a. ub_bind (read_at inputData (byteIndex + 1)) (\<lambda>b.
             dtc_loop inputData (byteIndex + 2) (codes @ [extractDTCString a b])))
      else Inr codes)"
  by pat_completeness auto
termination
  by (relation "measure (\<lambda>(inp, i, codes). length inp - i)") auto

declare dtc_loop.simps [simp del]

definition decodeDTCs :: "SID \<Rightarrow> nat list \<Rightarrow> DTCInfo \<Rightarrow> (bool \<times> DTCInfo) ub_result" where
  "decodeDTCs sid inputData info =
     ub_bind (or_else (Inr (length inputData < 2)) (byte_differs inputData 0 (POSITIVE_ECU_RESPONSE_BASE + sid_toUType sid))) (\<lambda>invalid.
       if invalid then Inr (False, info)
       else ub_bind (read_at inputData 1) (\<lambda>dtcCount.
         let info = info\<lparr>dtcSID := sid\<rparr> in
         if dtcCount = 0 then Inr (True, info)
         else if dtcCount * 2 + 2 \<noteq> length inputData then Inr (False, info)
         else ub_bind (dtc_loop inputData 2 (mDTCCodes info)) (\<lambda>codes.
                Inr (codes \<noteq> [], info\<lparr>mDTCCodes := codes\<rparr>))))"

text \<open>The range \<open>[begin() + n, end())\<close> is one only when the vector has \<open>n\<close> elements.\<close>

definition range_from :: "'a list \<Rightarrow> nat \<Rightarrow> 'a list ub_result" where
  "range_from xs n = (if n \<le> length xs then Inr (drop n xs) else Inl OutOfBounds)"

definition decodeVIN :: "nat list \<Rightarrow> string \<Rightarrow> (bool \<times> string) ub_result" where
  "decodeVIN inputData vin =
     ub_bind (or_else (Inr (length inputData < 3))
              (or_else (byte_differs inputData 0 (POSITIVE_ECU_RESPONSE_BASE + sid_toUType (rqSID vehicleIdentificationNumberRequest)))
                (byte_differs inputData 1 (rqPID vehicleIdentificationNumberRequest)))) (\<lambda>invalid.
       if invalid then Inr (False, vin)
       else ub_bind (range_from inputData 3) (\<lambda>bytes. let vin = map char_of bytes in Inr (vin \<noteq> [], vin)))"

section \<open>Supported PIDs: what is reported\<close>

lemma getPID_stats: "getPID CURRENT_STATS i = (if i < 256 then i else 255)"
  by (simp add: getPID_def supportedPIDRange_def SUPPORTED_PID_STEP_def INVALID_PID_def u8_def)

lemma supportedPIDRange_mod: "p < 256 \<Longrightarrow> p \<in> set supportedPIDRange \<longleftrightarrow> p mod 32 = 0"
proof -
  assume p: "p < 256"
  have "p mod 32 = 0 \<longleftrightarrow> p = 32 * (p div 32)" by presburger
  moreover have "p div 32 \<in> {0, 1, 2, 3, 4, 5, 6, 7}" using p by (auto intro: less_mult_imp_div_less)
  ultimately show ?thesis unfolding supportedPIDRange_def by auto
qed

text \<open>PID \<open>base + o\<close> of a block is announced by bit \<open>7 - (o - 1) mod 8\<close> of data byte \<open>(o - 1) div 8\<close>.\<close>

definition announced :: "nat list \<Rightarrow> nat \<Rightarrow> nat \<Rightarrow> bool" where
  "announced inp n p \<longleftrightarrow>
     (\<exists>d < 4. \<exists>j < 8. bit (inp ! (5 * n + 2 + d)) j \<and> p = inp ! (5 * n + 1) + 8 * (d + 1) - j) \<and>
     p < 255 \<and> p mod 32 \<noteq> 0"

lemma set_byte_pids:
  "set (byte_pids CURRENT_STATS b idx0) =
     {p. (\<exists>j < 8. bit b j \<and> p = idx0 - j) \<and> p < 255 \<and> p mod 32 \<noteq> 0}"
proof -
  have "(getPID CURRENT_STATS i \<noteq> 255 \<and> getPID CURRENT_STATS i \<notin> set supportedPIDRange) \<longleftrightarrow>
        i < 255 \<and> i mod 32 \<noteq> 0" for i
    using supportedPIDRange_mod [of i] by (auto simp: getPID_stats)
  moreover have "i < 255 \<Longrightarrow> getPID CURRENT_STATS i = i" for i by (simp add: getPID_stats)
  ultimately show ?thesis
    by (auto simp: byte_pids_def BYTE_SIZE_def INVALID_PID_def image_iff) (metis getPID_stats)+
qed

lemma upt_block: "n < k \<Longrightarrow> [5 * n + 1 ..< 5 * k + 1] =
   [5 * n + 1, 5 * n + 2, 5 * n + 3, 5 * n + 4, 5 * n + 5] @ [5 * (n + 1) + 1 ..< 5 * k + 1]"
proof -
  assume nk: "n < k"
  have "[5 * n + 1 ..< 5 * k + 1] = [5 * n + 1 ..< 5 * n + 6] @ [5 * n + 6 ..< 5 * k + 1]"
    using nk upt_add_eq_append [of "5 * n + 1" "5 * n + 6" "5 * k + 1 - (5 * n + 6)"] by simp
  moreover have "[5 * n + 1 ..< 5 * n + 6] = [5 * n + 1, 5 * n + 2, 5 * n + 3, 5 * n + 4, 5 * n + 5]"
    by (simp add: upt_rec)
  ultimately show ?thesis by (simp add: algebra_simps)
qed

lemma supported_block:
  assumes a: "a mod 5 = 0" and n: "a + 5 < length inp"
  shows "supported_loop sid inp ([a + 1, a + 2, a + 3, a + 4, a + 5] @ rest) bp bi acc =
    (if inp ! (a + 1) mod 32 \<noteq> 0 then Inr acc
     else supported_loop sid inp rest (inp ! (a + 1)) (a + 1)
       (acc @ byte_pids sid (inp ! (a + 2)) (8 + inp ! (a + 1)) @
        byte_pids sid (inp ! (a + 3)) (16 + inp ! (a + 1)) @
        byte_pids sid (inp ! (a + 4)) (24 + inp ! (a + 1)) @
        byte_pids sid (inp ! (a + 5)) (32 + inp ! (a + 1))))"
proof -
  have m: "(a + 1) mod 5 = 1" "(a + 2) mod 5 \<noteq> 1" "(a + 3) mod 5 \<noteq> 1" "(a + 4) mod 5 \<noteq> 1" "(a + 5) mod 5 \<noteq> 1"
    using a by presburger+
  have d: "a + 2 - (a + 1) = 1" "a + 3 - (a + 1) = 2" "a + 4 - (a + 1) = 3" "a + 5 - (a + 1) = 4"
    by simp_all
  have t: "1 * 8 + x = 8 + x" "2 * 8 + x = 16 + x" "3 * 8 + x = 24 + x" "4 * 8 + x = 32 + x" for x :: nat
    by simp_all
  have rd: "read_at inp (a + k) = Inr (inp ! (a + k))" if "k \<le> 5" for k using n that by simp
  have k: "(1::nat) \<le> 5" "(2::nat) \<le> 5" "(3::nat) \<le> 5" "(4::nat) \<le> 5" "(5::nat) \<le> 5" by simp_all
  show ?thesis
    by (simp only: append_Cons append_Nil supported_loop.simps rd [OF k(1)] rd [OF k(2)] rd [OF k(3)] rd [OF k(4)] rd [OF k(5)]
        ub_bind_simps m d t simp_thms if_True if_False SUPPORTED_PID_STEP_def BYTE_SIZE_def append_assoc split: if_split)
qed

lemma supported_loop_set:
  assumes "n \<le> k" and len: "5 * k < length inp"
  shows "\<exists>r. supported_loop CURRENT_STATS inp [5 * n + 1 ..< 5 * k + 1] bp bi acc = Inr r \<and> set r =
    set acc \<union> {p. \<exists>m. n \<le> m \<and> m < k \<and> (\<forall>l. n \<le> l \<and> l \<le> m \<longrightarrow> inp ! (5 * l + 1) mod 32 = 0) \<and> announced inp m p}"
  using assms(1)
proof (induction "k - n" arbitrary: n bp bi acc)
  case 0
  then have "n = k" by simp
  then show ?case by auto
next
  case (Suc d)
  then have nk: "n < k" by simp
  have a0: "5 * n mod 5 = 0" "5 * n + 5 < length inp" using nk len by simp_all
  note block = supported_block [OF a0, where sid = CURRENT_STATS]
  show ?case
  proof (cases "inp ! (5 * n + 1) mod 32 = 0")
    case False
    then show ?thesis unfolding upt_block [OF nk] block by (simp only: simp_thms if_True) auto
  next
    case True
    let ?b = "inp ! (5 * n + 1)"
    let ?acc = "acc @ byte_pids CURRENT_STATS (inp ! (5 * n + 2)) (8 + ?b) @
        byte_pids CURRENT_STATS (inp ! (5 * n + 3)) (16 + ?b) @
        byte_pids CURRENT_STATS (inp ! (5 * n + 4)) (24 + ?b) @
        byte_pids CURRENT_STATS (inp ! (5 * n + 5)) (32 + ?b)"
    have step: "supported_loop CURRENT_STATS inp [5 * n + 1 ..< 5 * k + 1] bp bi acc =
       supported_loop CURRENT_STATS inp [5 * (n + 1) + 1 ..< 5 * k + 1] ?b (5 * n + 1) ?acc"
      unfolding upt_block [OF nk] block by (simp only: True simp_thms if_False)
    have "\<exists>r. supported_loop CURRENT_STATS inp [5 * (n + 1) + 1 ..< 5 * k + 1] ?b (5 * n + 1) ?acc = Inr r \<and> set r =
       set ?acc \<union> {p. \<exists>m. n + 1 \<le> m \<and> m < k \<and>
          (\<forall>l. n + 1 \<le> l \<and> l \<le> m \<longrightarrow> inp ! (5 * l + 1) mod 32 = 0) \<and> announced inp m p}"
      using Suc.hyps(2) nk by (intro Suc.hyps(1)) auto
    then obtain r where IH: "supported_loop CURRENT_STATS inp [5 * (n + 1) + 1 ..< 5 * k + 1] ?b (5 * n + 1) ?acc = Inr r"
      "set r = set ?acc \<union> {p. \<exists>m. n + 1 \<le> m \<and> m < k \<and>
          (\<forall>l. n + 1 \<le> l \<and> l \<le> m \<longrightarrow> inp ! (5 * l + 1) mod 32 = 0) \<and> announced inp m p}" by blast
    have four: "(\<exists>d < 4. P d) \<longleftrightarrow> P 0 \<or> P 1 \<or> P 2 \<or> P (3::nat)" for P
      by (auto simp: numeral_eq_Suc less_Suc_eq)
    have acc: "set ?acc = set acc \<union> {p. announced inp n p}"
    proof -
      have e: "5 * n + 2 + 0 = 5 * n + 2" "5 * n + 2 + 1 = 5 * n + 3" "5 * n + 2 + 2 = 5 * n + 4"
        "5 * n + 2 + 3 = 5 * n + 5" "?b + 8 * (0 + 1) = 8 + ?b" "?b + 8 * (1 + 1) = 16 + ?b"
        "?b + 8 * (2 + 1) = 24 + ?b" "?b + 8 * (3 + 1) = 32 + ?b" by simp_all
      show ?thesis unfolding announced_def four set_append set_byte_pids e by blast
    qed
    have all: "(\<forall>l. n \<le> l \<and> l \<le> m \<longrightarrow> inp ! (5 * l + 1) mod 32 = 0) \<longleftrightarrow>
        (\<forall>l. n + 1 \<le> l \<and> l \<le> m \<longrightarrow> inp ! (5 * l + 1) mod 32 = 0)" for m
      using True by (metis Suc_eq_plus1 le_antisym not_less_eq_eq Suc_leD)
    have ex: "(\<exists>m. n \<le> m \<and> P m) \<longleftrightarrow> P n \<or> (\<exists>m. n + 1 \<le> m \<and> P m)" for P
      by (metis Suc_eq_plus1 le_antisym le_refl not_less_eq_eq Suc_leD)
    note IH = IH(1) IH(2) [unfolded acc]
    show ?thesis unfolding step IH(1) all ex by (rule exI [of _ r]) (use nk True IH(2) in auto)
  qed
qed

text \<open>
  A positive response to a supported-PID request of service mode 1 yields the PIDs its
  bitmaps announce, and no others: those of the blocks up to the first invalid range byte, less
  the range PIDs themselves and the reserved PID 255; the result is sorted.
\<close>

theorem decodeSupportedPIDs_announced:
  assumes "length inp = 5 * k + 1" and "1 \<le> k" and "inp ! 0 = 0x41"
  shows "\<exists>r. decodeSupportedPIDs CURRENT_STATS inp old = Inr (r \<noteq> [], r) \<and> sorted r \<and>
    set r = set old \<union>
      {p. \<exists>m < k. (\<forall>l \<le> m. inp ! (5 * l + 1) mod 32 = 0) \<and> announced inp m p}"
proof -
  obtain r where r: "supported_loop CURRENT_STATS inp [5 * 0 + 1 ..< 5 * k + 1] 0 0 old = Inr r"
      "set r = set old \<union> {p. \<exists>m < k. (\<forall>l \<le> m. inp ! (5 * l + 1) mod 32 = 0) \<and> announced inp m p}"
    using supported_loop_set [of 0 k inp 0 0 old] assms(1) by auto
  moreover have "decodeSupportedPIDs CURRENT_STATS inp old = Inr (sort r \<noteq> [], sort r)"
    using assms r(1) by (simp add: decodeSupportedPIDs_def POSITIVE_ECU_RESPONSE_BASE_def Let_def del: upt_Suc)
  ultimately show ?thesis by (intro exI [of _ "sort r"]) simp
qed

definition example_supported :: "nat list" where
  "example_supported = [0x41, 0x00, 0x80, 0x00, 0x00, 0x01, 0x20, 0x00, 0x02, 0x00, 0x00]"

theorem decodeSupportedPIDs_announced_witness:
  "length example_supported = 5 * 2 + 1 \<and> decodeSupportedPIDs CURRENT_STATS example_supported [] = Inr (True, [1, 47])"
proof -
  have 1: "length example_supported = 5 * 2 + 1" "(1::nat) \<le> 2" "example_supported ! 0 = 0x41"
    by (simp_all add: example_supported_def)
  have "decodeSupportedPIDs CURRENT_STATS example_supported [] = Inr (True, [1, 47])" by code_simp
  then show ?thesis using 1 decodeSupportedPIDs_announced [OF 1, of "[]"] by simp
qed

section \<open>Emission PIDs: safety and values\<close>

lemma bytes_ok_nth: "bytes_ok bs \<Longrightarrow> i < length bs \<Longrightarrow> bs ! i < 256"
  by (simp add: bytes_ok_def)

lemma concat_bytes_eq:
  "idx + n \<le> length inp \<Longrightarrow>
   concat_bytes inp n idx raw = Inr (foldl (\<lambda>r b. u64 (push_bit 8 r) OR b) raw (take n (drop idx inp)))"
proof (induction n arbitrary: idx raw)
  case (Suc n)
  then have "idx < length inp" by simp
  then have "drop idx inp = inp ! idx # drop (idx + 1) inp" by (simp add: Cons_nth_drop_Suc)
  with Suc show ?case by (simp add: BYTE_SIZE_def)
qed simp

lemma formula_raw_safe:
  assumes "dict pid = Some f" and "isFormulaValid dict pid formula"
    and "c + mSizeInBytes f \<le> length inp"
  shows "\<exists>v. formula_raw inp c formula = Inr v"
proof -
  have v: "mFirstBitPosition formula < mSizeInBytes f * 8"
    "mSizeInBits formula + mFirstBitPosition formula \<le> mSizeInBytes f * 8"
    "mSizeInBits formula < 8 \<or> mFirstBitPosition formula mod 8 = 0"
    using assms(1,2) by (auto simp: isFormulaValid_def BYTE_SIZE_def)
  have i: "c + mFirstBitPosition formula div 8 < length inp" using v(1) assms(3) by linarith
  have n: "c + mFirstBitPosition formula div 8 + mSizeInBits formula div 8 \<le> length inp"
    using v(2) assms(3) by linarith
  show ?thesis using i concat_bytes_eq [OF n, of 0]
    by (auto simp: formula_raw_def BYTE_SIZE_def Let_def)
qed

lemma emission_formulas_safe:
  assumes "dict pid = Some f" and "c + mSizeInBytes f \<le> length inp"
  shows "\<exists>vals'. emission_formulas dict inp c pid fs vals = Inr vals'"
proof (induction fs arbitrary: vals)
  case (Cons formula fs)
  show ?case
  proof (cases "isFormulaValid dict pid formula")
    case True
    from formula_raw_safe [where dict = dict, OF assms(1) True assms(2)]
    obtain v where "formula_raw inp c formula = Inr v" by blast
    with True Cons.IH show ?thesis by simp
  qed (use Cons.IH in simp)
qed simp

lemma emission_loop_safe: "\<exists>vals'. emission_loop dict inp c vals = Inr vals'"
proof (induction dict inp c vals rule: emission_loop.induct)
  case (1 dict inp c vals)
  show ?case
  proof (cases "c < length inp")
    case True
    note IH = 1 [OF True]
    show ?thesis
    proof (cases "dict (inp ! c)")
      case None
      with True show ?thesis by (subst emission_loop.simps) simp
    next
      case (Some f)
      have "\<exists>vals1. (if c + 1 + mSizeInBytes f \<le> length inp
          then emission_formulas dict inp (c + 1) (inp ! c) (mSignals f) vals else Inr vals) = Inr vals1"
        using emission_formulas_safe [where dict = dict, OF Some, of "c + 1" inp] by simp
      then obtain vals1 where "(if c + 1 + mSizeInBytes f \<le> length inp
          then emission_formulas dict inp (c + 1) (inp ! c) (mSignals f) vals else Inr vals) = Inr vals1" ..
      with True Some IH show ?thesis by (subst emission_loop.simps) simp
    qed
  qed (subst emission_loop.simps, simp)
qed

text \<open>The reference of the response check: the response from an index on is that of the requested PIDs.\<close>

fun lists_pids :: "OBDDecoderDictionary \<Rightarrow> nat list \<Rightarrow> nat list \<Rightarrow> nat \<Rightarrow> nat option" where
  "lists_pids dict [] inp c = Some c"
| "lists_pids dict (pid # pids) inp c =
     (if c < length inp \<and> inp ! c = pid
      then (case dict pid of None \<Rightarrow> None | Some f \<Rightarrow> lists_pids dict pids inp (c + 1 + mSizeInBytes f)) else None)"

definition response_valid :: "OBDDecoderDictionary \<Rightarrow> nat list \<Rightarrow> nat list \<Rightarrow> bool" where
  "response_valid dict pids inp \<longleftrightarrow> lists_pids dict pids inp 1 = Some (length inp)"

lemma isPIDResponseValid_loop_eq: "isPIDResponseValid_loop dict pids inp c = Inr (lists_pids dict pids inp c)"
  by (induction pids arbitrary: c) (auto split: option.split)

lemma isPIDResponseValid_eq: "isPIDResponseValid dict pids inp = Inr (response_valid dict pids inp)"
  by (simp add: isPIDResponseValid_def isPIDResponseValid_loop_eq response_valid_def)

lemma supported_loop_safe: "\<forall>i \<in> set is. i < length inp \<Longrightarrow> \<exists>r. supported_loop sid inp is bp bi acc = Inr r"
  by (induction "is" arbitrary: bp bi acc) auto

lemma dtc_loop_safe: "\<exists>codes'. dtc_loop inp i codes = Inr codes'"
proof (induction inp i codes rule: dtc_loop.induct)
  case (1 inp i codes)
  show ?case
  proof (cases "i < length inp - 1")
    case True
    then show ?thesis using "1.IH" by (subst dtc_loop.simps) simp
  qed (subst dtc_loop.simps, simp)
qed

lemma decodeEmissionPIDs_safe: "\<exists>r. decodeEmissionPIDs dictionary sid pids inp info = Inr r"
proof (cases "length inp < 3")
  case False
  then have h: "byte_differs inp 0 v = Inr (v \<noteq> inp ! 0)" for v using byte_differs_first [of 3 inp] by simp
  show ?thesis
  proof (cases dictionary)
    case (Some dict)
    obtain vals where "emission_loop dict inp 1 (mPIDsToValues info) = Inr vals"
      using emission_loop_safe by blast
    then show ?thesis using False Some by (auto simp: decodeEmissionPIDs_def isPIDResponseValid_eq h)
  qed (use False h in \<open>auto simp: decodeEmissionPIDs_def\<close>)
qed (auto simp: decodeEmissionPIDs_def)

lemma decodeSupportedPIDs_safe: "\<exists>r. decodeSupportedPIDs sid inp pids = Inr r"
proof (cases "length inp < 6")
  case False
  obtain r where "supported_loop sid inp [1 ..< length inp] 0 0 pids = Inr r"
    using supported_loop_safe [of "[1 ..< length inp]" inp sid 0 0 pids] by auto
  then show ?thesis using False byte_differs_first [of 6 inp] by (auto simp: decodeSupportedPIDs_def Let_def)
qed (auto simp: decodeSupportedPIDs_def)

lemma decodeDTCs_safe: "\<exists>r. decodeDTCs sid inp info = Inr r"
proof (cases "length inp < 2")
  case False
  obtain codes where "dtc_loop inp 2 (mDTCCodes info) = Inr codes" using dtc_loop_safe by blast
  then show ?thesis using False byte_differs_first [of 2 inp] by (auto simp: decodeDTCs_def Let_def)
qed (auto simp: decodeDTCs_def)

lemma decodeVIN_safe: "\<exists>r. decodeVIN inp vin = Inr r"
proof (cases "length inp < 3")
  case False
  then show ?thesis using byte_differs_first [of 3 inp] by (auto simp: decodeVIN_def range_from_def Let_def)
qed (auto simp: decodeVIN_def)

text \<open>
  C26. No decoder reads outside the response of the control unit, whatever the response, the requested
  PIDs, the decoder dictionary and what was decoded before are: neither the header, nor the parameter
  bytes, nor the data of a formula, a trouble code or the VIN.
\<close>

theorem decoders_memory_safe:
  "(\<exists>r. decodeEmissionPIDs dictionary sid pids inp info = Inr r) \<and> (\<exists>r. decodeSupportedPIDs sid inp supported = Inr r) \<and>
   (\<exists>r. decodeDTCs sid inp codes = Inr r) \<and> (\<exists>r. decodeVIN inp vin = Inr r)"
  by (intro conjI decodeEmissionPIDs_safe decodeSupportedPIDs_safe decodeDTCs_safe decodeVIN_safe)

lemma or_byte: "b < 256 \<Longrightarrow> push_bit 8 r OR b = 256 * r + b" for b r :: nat
proof -
  assume b: "b < 256"
  have "push_bit 8 r AND b = 0"
  proof (rule bit_eqI)
    fix n
    have "\<not> bit b n" if "8 \<le> n"
    proof -
      have "b < 2 ^ n" using b power_increasing [OF that, of "2::nat"] by simp
      then show ?thesis by (simp add: bit_iff_odd)
    qed
    then show "bit (push_bit 8 r AND b) n \<longleftrightarrow> bit (0::nat) n"
      by (auto simp: bit_and_iff bit_push_bit_iff)
  qed
  then have "push_bit 8 r OR b = push_bit 8 r + b" by (simp add: disjunctive_add_eq_or)
  then show ?thesis by (simp add: push_bit_eq_mult)
qed

text \<open>The number a sequence of bytes denotes, most significant byte first.\<close>

definition big_endian :: "nat list \<Rightarrow> nat" where
  "big_endian bs = foldl (\<lambda>r b. 256 * r + b) 0 bs"

lemma concat_fold_eq:
  assumes "bytes_ok bs" and "r < 256 ^ j" and "j + length bs \<le> 8"
  shows "foldl (\<lambda>r b. u64 (push_bit 8 r) OR b) r bs = foldl (\<lambda>r b. 256 * r + b) r bs"
  using assms
proof (induction bs arbitrary: r j)
  case (Cons b bs)
  have b: "b < 256" using Cons.prems by (simp add: bytes_ok_def)
  have "(256::nat) ^ Suc j \<le> 256 ^ 8" using Cons.prems by (intro power_increasing) auto
  moreover have "256 * r + 256 \<le> 256 ^ Suc j" using Cons.prems(2) by simp
  ultimately have u: "u64 (push_bit 8 r) = push_bit 8 r" and r: "256 * r + b < 256 ^ Suc j"
    using b by (simp_all add: u64_def push_bit_eq_mult)
  show ?case using Cons.IH [OF _ r] Cons.prems by (simp add: u or_byte [OF b] bytes_ok_def)
qed simp

text \<open>
  The raw data of a valid formula: a signal of whole bytes (at most eight) is its bytes
  read most significant first; a shorter signal inside one byte is its bit field.
\<close>

theorem formula_raw_value:
  assumes "dict pid = Some f" and "isFormulaValid dict pid formula"
    and "c + mSizeInBytes f \<le> length inp" and "bytes_ok inp"
    and "mSizeInBits formula \<le> 64"
    and "8 \<le> mSizeInBits formula \<or> mFirstBitPosition formula mod 8 + mSizeInBits formula \<le> 8"
  shows "formula_raw inp c formula = Inr
    (if 8 \<le> mSizeInBits formula
     then big_endian (take (mSizeInBits formula div 8) (drop (c + mFirstBitPosition formula div 8) inp))
     else (inp ! (c + mFirstBitPosition formula div 8) div 2 ^ (mFirstBitPosition formula mod 8))
            mod 2 ^ mSizeInBits formula)"
proof -
  define i where "i = c + mFirstBitPosition formula div 8"
  have v: "mFirstBitPosition formula < mSizeInBytes f * 8"
    "mSizeInBits formula + mFirstBitPosition formula \<le> mSizeInBytes f * 8"
    using assms(1,2) by (auto simp: isFormulaValid_def BYTE_SIZE_def)
  have i: "i < length inp" using v(1) assms(3) unfolding i_def by linarith
  have n: "i + mSizeInBits formula div 8 \<le> length inp" using v(2) assms(3) unfolding i_def by linarith
  show ?thesis
  proof (cases "8 \<le> mSizeInBits formula")
    case True
    let ?bs = "take (mSizeInBits formula div 8) (drop i inp)"
    have ok: "bytes_ok ?bs" using assms(4) by (auto simp: bytes_ok_def dest: in_set_takeD in_set_dropD)
    have len: "0 + length ?bs \<le> 8" using assms(5) by simp
    have "foldl (\<lambda>r b. u64 (push_bit 8 r) OR b) 0 ?bs = big_endian ?bs"
      using concat_fold_eq [OF ok _ len, of 0] by (simp add: big_endian_def)
    then show ?thesis using True concat_bytes_eq [OF n, of 0]
      by (simp add: formula_raw_def BYTE_SIZE_def Let_def i_def)
  next
    case False
    have "drop_bit (8 - mSizeInBits formula) (255::nat) = mask (mSizeInBits formula)"
    proof -
      have "(255::nat) = mask 8" by (simp add: mask_eq_exp_minus_1)
      then have "drop_bit (8 - mSizeInBits formula) (255::nat) = drop_bit (8 - mSizeInBits formula) (mask 8)"
        by (rule arg_cong)
      also have "\<dots> = mask (mSizeInBits formula)" using False by (simp only: drop_bit_mask_eq) simp
      finally show ?thesis .
    qed
    then show ?thesis using False i
      by (simp add: formula_raw_def BYTE_SIZE_def Let_def i_def take_bit_eq_mask [symmetric]
          take_bit_eq_mod drop_bit_eq_div)
  qed
qed

definition example_dict :: OBDDecoderDictionary where
  "example_dict = [0x0C \<mapsto> default_message_format
     \<lparr>mSizeInBytes := 2,
      mSignals := [default_signal_format\<lparr>mSignalID := 5, mSizeInBits := 16, mFactor := Fin 3, mOffset := Fin 1\<rparr>]\<rparr>]"

theorem formula_raw_value_witness:
  "isFormulaValid example_dict 0x0C (default_signal_format\<lparr>mSizeInBits := 16\<rparr>) \<and>
   formula_raw [0x41, 0x0C, 0x1A, 0xF8] 2 (default_signal_format\<lparr>mSizeInBits := 16\<rparr>) = Inr 6904"
proof -
  let ?f = "the (example_dict 0x0C)" and ?s = "default_signal_format\<lparr>mSizeInBits := 16\<rparr>"
  have 1: "example_dict 0x0C = Some ?f" and 3: "2 + mSizeInBytes ?f \<le> length [0x41, 0x0C, 0x1A, 0xF8::nat]"
    by (simp_all add: example_dict_def)
  have 2: "isFormulaValid example_dict 0x0C ?s"
    by (simp add: isFormulaValid_def example_dict_def default_signal_format_def BYTE_SIZE_def)
  have 4: "bytes_ok [0x41, 0x0C, 0x1A, 0xF8]" by (simp add: bytes_ok_def)
  have 5: "mSizeInBits ?s \<le> 64" "8 \<le> mSizeInBits ?s \<or> mFirstBitPosition ?s mod 8 + mSizeInBits ?s \<le> 8"
    by simp_all
  from formula_raw_value [OF 1 2 3 4 5] 2 show ?thesis
    by (simp add: default_signal_format_def big_endian_def)
qed

text \<open>
  The validity rule accepts bit fields that cross a byte boundary, but only the first of
  the two bytes is read: the bits in the second byte are lost.
\<close>

theorem crossing_field_truncated:
  assumes "mSizeInBits formula < 8" and "c + mFirstBitPosition formula div 8 < length inp" and "bytes_ok inp"
  shows "\<exists>v. formula_raw inp c formula = Inr v \<and> v < 2 ^ (8 - mFirstBitPosition formula mod 8)"
proof -
  let ?s = "mFirstBitPosition formula mod 8"
  let ?b = "inp ! (c + mFirstBitPosition formula div 8)"
  have "?b < 2 ^ 8" using bytes_ok_nth [OF assms(3,2)] by simp
  also have "(2::nat) ^ 8 = 2 ^ (8 - ?s) * 2 ^ ?s" by (simp flip: power_add)
  finally have "drop_bit ?s ?b < 2 ^ (8 - ?s)" by (simp add: drop_bit_eq_div less_mult_imp_div_less)
  moreover have "x AND y \<le> x" for x y :: nat by (metis and_nat_def nat_int_comparison(3) AND_upper1 of_nat_0_le_iff int_nat_eq of_nat_and_eq)
  ultimately show ?thesis using assms
    by (auto simp: formula_raw_def BYTE_SIZE_def Let_def intro: le_less_trans)
qed

theorem crossing_field_truncated_witness:
  "isFormulaValid example_dict 0x0C (default_signal_format\<lparr>mFirstBitPosition := 6, mSizeInBits := 4\<rparr>) \<and>
   formula_raw [0x41, 0x0C, 0xC0, 0x03] 2 (default_signal_format\<lparr>mFirstBitPosition := 6, mSizeInBits := 4\<rparr>) = Inr 3 \<and> (3::nat) < 2 ^ 2"
proof -
  let ?s = "default_signal_format\<lparr>mFirstBitPosition := 6, mSizeInBits := 4\<rparr>"
  have 1: "mSizeInBits ?s < 8" "2 + mFirstBitPosition ?s div 8 < length [0x41, 0x0C, 0xC0, 0x03::nat]"
    "bytes_ok [0x41, 0x0C, 0xC0, 0x03]" by (simp_all add: bytes_ok_def)
  have valid: "isFormulaValid example_dict 0x0C ?s"
    by (simp add: isFormulaValid_def example_dict_def default_signal_format_def BYTE_SIZE_def)
  have "formula_raw [0x41, 0x0C, 0xC0, 0x03] 2 ?s = Inr 3" by code_simp
  with valid crossing_field_truncated [OF 1] show ?thesis by simp
qed

text \<open>
  The walk over a response that was found valid, PID by requested PID.
\<close>

fun walk_pids ::
  "OBDDecoderDictionary \<Rightarrow> nat list \<Rightarrow> nat list \<Rightarrow> nat \<Rightarrow> (nat \<times> double) list \<Rightarrow> (nat \<times> double) list ub_result" where
  "walk_pids dict inp [] c vals = Inr vals"
| "walk_pids dict inp (pid # pids) c vals =
     (case dict pid of
        None \<Rightarrow> Inr vals
      | Some f \<Rightarrow> ub_bind (emission_formulas dict inp (c + 1) pid (mSignals f) vals)
                    (walk_pids dict inp pids (c + 1 + mSizeInBytes f)))"

lemma lists_pids_mono:
  "lists_pids dict pids inp c = Some n \<Longrightarrow> c \<le> n"
  by (induction dict pids inp c rule: lists_pids.induct)
     (auto split: if_splits option.splits)

lemma emission_loop_walk:
  "lists_pids dict pids inp c = Some (length inp) \<Longrightarrow>
   emission_loop dict inp c vals = walk_pids dict inp pids c vals"
proof (induction pids arbitrary: c vals)
  case Nil
  then show ?case by (subst emission_loop.simps) simp
next
  case (Cons pid pids)
  then obtain f where c: "c < length inp" "inp ! c = pid" and f: "dict pid = Some f"
    and rest: "lists_pids dict pids inp (c + 1 + mSizeInBytes f) = Some (length inp)"
    by (auto split: if_splits option.splits)
  have "c + 1 + mSizeInBytes f \<le> length inp" using lists_pids_mono [OF rest] .
  with c f have "emission_loop dict inp c vals =
      ub_bind (emission_formulas dict inp (c + 1) pid (mSignals f) vals) (emission_loop dict inp (c + 1 + mSizeInBytes f))"
    by (subst emission_loop.simps) simp
  also have "\<dots> = walk_pids dict inp (pid # pids) c vals"
    using f Cons.IH [OF rest] by (simp add: ub_bind_def split: sum.split)
  finally show ?case .
qed

text \<open>
  A positive response that lists exactly the requested PIDs with the lengths of the
  decoder dictionary is decoded PID by requested PID: the loop stays aligned with the
  response to its end, and the result is true when it holds at least one value.
\<close>

theorem decodeEmissionPIDs_aligned:
  assumes "3 \<le> length inp" and "inp ! 0 = 0x40 + sid_toUType sid"
    and "isPIDResponseValid dict pids inp = Inr True"
  shows "decodeEmissionPIDs (Some dict) sid pids inp info =
    ub_bind (walk_pids dict inp pids 1 (mPIDsToValues info)) (\<lambda>vals.
      Inr (vals \<noteq> [], info\<lparr>emSID := sid, mPIDsToValues := vals\<rparr>))"
  using assms emission_loop_walk [of dict pids inp 1] byte_differs_first [OF assms(1)]
  by (simp add: decodeEmissionPIDs_def POSITIVE_ECU_RESPONSE_BASE_def isPIDResponseValid_eq response_valid_def)

theorem decodeEmissionPIDs_aligned_witness:
  "isPIDResponseValid example_dict [0x0C] [0x41, 0x0C, 0x1A, 0xF8] = Inr True \<and>
   decodeEmissionPIDs (Some example_dict) CURRENT_STATS [0x0C] [0x41, 0x0C, 0x1A, 0xF8]
     \<lparr>emSID = INVALID_SERVICE_MODE, mPIDsToValues = []\<rparr> =
   Inr (True, \<lparr>emSID = CURRENT_STATS, mPIDsToValues = [(5, Fin 20713)]\<rparr>)"
proof -
  have 1: "3 \<le> length [0x41, 0x0C, 0x1A, 0xF8::nat]" "[0x41, 0x0C, 0x1A, 0xF8] ! 0 = 0x40 + sid_toUType CURRENT_STATS"
    and 2: "isPIDResponseValid example_dict [0x0C] [0x41, 0x0C, 0x1A, 0xF8] = Inr True"
    by (simp_all add: isPIDResponseValid_eq response_valid_def example_dict_def default_message_format_def)
  let ?s = "default_signal_format\<lparr>mSignalID := 5, mSizeInBits := 16, mFactor := Fin 3, mOffset := Fin 1\<rparr>"
  have "concat_bytes [0x41, 0x0C, 0x1A, 0xF8] (Suc (Suc 0)) 2 0 = Inr 6904" by (simp add: BYTE_SIZE_def u64_def)
  then have raw: "formula_raw [0x41, 0x0C, 0x1A, 0xF8] 2 ?s = Inr 6904"
    by (simp add: formula_raw_def BYTE_SIZE_def default_signal_format_def Let_def numeral_2_eq_2 [symmetric])
  have v: "isFormulaValid example_dict 12 ?s"
    by (simp add: isFormulaValid_def example_dict_def default_signal_format_def BYTE_SIZE_def)
  have d: "example_dict 12 = Some (default_message_format\<lparr>mSizeInBytes := 2, mSignals := [?s]\<rparr>)"
    by (simp add: example_dict_def)
  have "walk_pids example_dict [0x41, 0x0C, 0x1A, 0xF8] [0x0C] 1 [] = Inr [(5, Fin 20713)]"
    using raw [unfolded numeral_2_eq_2] v by (simp add: d emplace_value_def of_integer_exact dmul_def)
  with 2 decodeEmissionPIDs_aligned [OF 1 2, of "\<lparr>emSID = INVALID_SERVICE_MODE, mPIDsToValues = []\<rparr>"]
  show ?thesis by simp
qed

section \<open>Trouble codes\<close>

lemma and_0x0F: "n AND 0x0F = n mod 16" for n :: nat
proof -
  have "(15::nat) = mask 4" by (simp add: mask_eq_exp_minus_1)
  then show ?thesis by (simp only: take_bit_eq_mask [symmetric]) (simp add: take_bit_eq_mod)
qed

lemma and_0x30: "drop_bit 4 (n AND 0x30) = (n div 16) mod 4" for n :: nat
proof -
  have "drop_bit 4 (n AND 0x30) = drop_bit 4 n AND (3::nat)" by simp
  also have "(3::nat) = mask 2" by (simp add: mask_eq_exp_minus_1)
  finally show ?thesis by (simp only: take_bit_eq_mask [symmetric]) (simp add: take_bit_eq_mod drop_bit_eq_div)
qed

lemma upper_hex_inj: "m < 16 \<Longrightarrow> n < 16 \<Longrightarrow> upper_hex m = upper_hex n \<Longrightarrow> m = n"
proof -
  assume mn: "m < 16" "n < 16" and eq: "upper_hex m = upper_hex n"
  have "distinct ''0123456789ABCDEF''" "length ''0123456789ABCDEF'' = 16" by simp_all
  with mn eq show "m = n" unfolding upper_hex_def by (metis nth_eq_iff_index_eq)
qed

lemma extractDTCString_digits:
  assumes "a < 256" "b < 256"
  shows "extractDTCString a b = [''PCBU'' ! (a div 64), upper_hex (a div 16 mod 4), upper_hex (a mod 16),
           upper_hex (b div 16), upper_hex (b mod 16)]"
proof -
  have "a div 64 < 4" using assms by (simp add: less_mult_imp_div_less)
  then have "a div 64 \<in> {0, 1, 2, 3}" by auto
  then have "dtc_domain (a div 64) = [''PCBU'' ! (a div 64)]" by (auto simp: dtc_domain_def)
  then show ?thesis by (simp only: extractDTCString_def and_0x0F and_0x30) (simp add: drop_bit_eq_div)
qed

text \<open>
  Different trouble codes are reported as different strings: the five characters of a DTC
  determine its two bytes.
\<close>

theorem extractDTCString_injective:
  assumes "a < 256" "b < 256" "a' < 256" "b' < 256"
    and "extractDTCString a b = extractDTCString a' b'"
  shows "a = a' \<and> b = b'"
proof -
  have eqs: "''PCBU'' ! (a div 64) = ''PCBU'' ! (a' div 64)"
    "upper_hex (a div 16 mod 4) = upper_hex (a' div 16 mod 4)" "upper_hex (a mod 16) = upper_hex (a' mod 16)"
    "upper_hex (b div 16) = upper_hex (b' div 16)" "upper_hex (b mod 16) = upper_hex (b' mod 16)"
    using assms(5) by (simp_all add: extractDTCString_digits assms(1-4))
  have "a div 64 < 4" "a' div 64 < 4" using assms by (simp_all add: less_mult_imp_div_less)
  moreover have "distinct ''PCBU''" "length ''PCBU'' = 4" by simp_all
  ultimately have 1: "a div 64 = a' div 64" using eqs(1) by (metis nth_eq_iff_index_eq)
  have 2: "a div 16 mod 4 = a' div 16 mod 4" by (rule upper_hex_inj) (use eqs in auto)
  have 3: "a mod 16 = a' mod 16" by (rule upper_hex_inj) (use eqs in auto)
  have 4: "b div 16 = b' div 16" by (rule upper_hex_inj) (use eqs assms in \<open>auto simp: less_mult_imp_div_less\<close>)
  have 5: "b mod 16 = b' mod 16" by (rule upper_hex_inj) (use eqs in auto)
  have "n div 16 div 4 = n div 64" for n :: nat by (simp add: div_mult2_eq [symmetric])
  with 1 2 have "a div 16 = a' div 16" by (metis mult_div_mod_eq)
  with 3 have "a = a'" by (metis mult_div_mod_eq)
  moreover from 4 5 have "b = b'" by (metis mult_div_mod_eq)
  ultimately show ?thesis by simp
qed

theorem extractDTCString_injective_witness:
  "extractDTCString 0x14 0x62 = ''P1462'' \<and> (0x14 = (0x14::nat) \<and> 0x62 = (0x62::nat))"
proof -
  have e: "extractDTCString 0x14 0x62 = ''P1462''" by code_simp
  show ?thesis using e extractDTCString_injective [of "0x14" "0x62" "0x14" "0x62"] by simp
qed

lemma dtc_loop_concat:
  "dtc_loop (pre @ concat (map (\<lambda>(a, b). [a, b]) ps)) (length pre) codes = Inr (codes @ map (\<lambda>(a, b). extractDTCString a b) ps)"
proof (induction ps arbitrary: pre codes)
  case Nil
  have "\<not> length pre < length pre - 1" by linarith
  then show ?case by (subst dtc_loop.simps) simp
next
  case (Cons p ps)
  obtain a b where p: "p = (a, b)" by (cases p)
  let ?inp = "pre @ [a, b] @ concat (map (\<lambda>(a, b). [a, b]) ps)"
  have "dtc_loop ?inp (length pre) codes = dtc_loop ?inp (length (pre @ [a, b])) (codes @ [extractDTCString a b])"
    by (subst dtc_loop.simps) (simp add: nth_append)
  also have "\<dots> = Inr ((codes @ [extractDTCString a b]) @ map (\<lambda>(a, b). extractDTCString a b) ps)"
    using Cons.IH [of "pre @ [a, b]" "codes @ [extractDTCString a b]"] by simp
  finally show ?case by (simp add: p)
qed

lemma length_pairs: "length (concat (map (\<lambda>(a, b). [a, b]) ps)) = 2 * length ps"
  by (induction ps) auto

text \<open>
  A positive DTC response whose count byte agrees with its length yields one string per
  pair of bytes, in order; a response whose count disagrees is rejected with no code added.
\<close>

theorem decodeDTCs_codes:
  assumes "inp = (0x40 + sid_toUType sid) # n # concat (map (\<lambda>(a, b). [a, b]) ps)" and "0 < n"
  shows "decodeDTCs sid inp info = Inr
    (if n = length ps
     then (True, info\<lparr>dtcSID := sid, mDTCCodes := mDTCCodes info @ map (\<lambda>(a, b). extractDTCString a b) ps\<rparr>)
     else (False, info\<lparr>dtcSID := sid\<rparr>))"
  using assms dtc_loop_concat [of "[0x40 + sid_toUType sid, n]" ps "mDTCCodes info"]
  by (auto simp: decodeDTCs_def POSITIVE_ECU_RESPONSE_BASE_def length_pairs Let_def numeral_2_eq_2)

theorem decodeDTCs_codes_witness:
  "decodeDTCs STORED_DTC [0x43, 2, 0x01, 0x43, 0xC1, 0x96] default_DTCInfo =
     Inr (True, \<lparr>dtcSID = STORED_DTC, dtcReceiveTime = 0, mDTCCodes = [''P0143'', ''U0196'']\<rparr>)"
proof -
  have 1: "[0x43, 2, 0x01, 0x43, 0xC1, 0x96] =
      (0x40 + sid_toUType STORED_DTC) # 2 # concat (map (\<lambda>(a, b). [a, b]) [(0x01, 0x43), (0xC1, 0x96)])" by simp
  have "extractDTCString 0x01 0x43 = ''P0143''" "extractDTCString 0xC1 0x96 = ''U0196''" by code_simp+
  then show ?thesis using decodeDTCs_codes [OF 1, of default_DTCInfo] by (simp add: default_DTCInfo_def)
qed

end
