(* ===== verification/Geohash.thy ===== *)
theory Geohash
  imports Ieee754
begin

unbundle bit_operations_syntax

text \<open>
  The geohash encoder (\<open>types/src/Geohash.cpp\<close>) and the geohash function of condition
  expressions (\<open>datainspection/src/location/GeohashFunctionNode.cpp\<close>). A hash of \<open>n\<close> bits
  alternates longitude and latitude bits, the first one longitude. The lemmas show that the
  bisection in \<open>double\<close> is exact, so that a hash is the cell that contains the point.
\<close>

section \<open>Encoding\<close>

definition base32Map :: "char list" where
  "base32Map = ''0123456789bcdefghjkmnpqrstuvwxyz''"

definition MAX_PRECISION :: nat where "MAX_PRECISION = 9"
definition BASE32_BITS :: nat where "BASE32_BITS = 5"
definition LAT_MIN :: double where "LAT_MIN = Fin (- 90)"
definition LAT_MAX :: double where "LAT_MAX = Fin 90"
definition LON_MIN :: double where "LON_MIN = Fin (- 180)"
definition LON_MAX :: double where "LON_MAX = Fin 180"

record geohash_state =
  latLow :: double
  latHigh :: double
  lonLow :: double
  lonHigh :: double
  hashBits :: nat

definition midpoint :: "double \<Rightarrow> double \<Rightarrow> double" where
  "midpoint low high = dadd low (ddiv (dsub high low) (Fin 2))"

text \<open>One iteration of the bit loop.\<close>

definition geohash_bit :: "double \<Rightarrow> double \<Rightarrow> bool \<Rightarrow> geohash_state \<Rightarrow> geohash_state" where
  "geohash_bit lat lon isLonBit st =
     (if isLonBit
      then let lonMid = midpoint (lonLow st) (lonHigh st) in
        if dle lonMid lon
        then st\<lparr>hashBits := u64 (push_bit 1 (hashBits st)) OR 1, lonLow := lonMid\<rparr>
        else st\<lparr>hashBits := u64 (push_bit 1 (hashBits st)) OR 0, lonHigh := lonMid\<rparr>
      else let latMid = midpoint (latLow st) (latHigh st) in
        if dle latMid lat
        then st\<lparr>hashBits := u64 (push_bit 1 (hashBits st)) OR 1, latLow := latMid\<rparr>
        else st\<lparr>hashBits := u64 (push_bit 1 (hashBits st)) OR 0, latHigh := latMid\<rparr>)"

fun geohash_bits :: "nat \<Rightarrow> bool \<Rightarrow> double \<Rightarrow> double \<Rightarrow> geohash_state \<Rightarrow> geohash_state" where
  "geohash_bits 0 isLonBit lat lon st = st"
| "geohash_bits (Suc n) isLonBit lat lon st =
     geohash_bits n (\<not> isLonBit) lat lon (geohash_bit lat lon isLonBit st)"

definition geohash_start :: geohash_state where
  "geohash_start = \<lparr>latLow = LAT_MIN, latHigh = LAT_MAX, lonLow = LON_MIN, lonHigh = LON_MAX, hashBits = 0\<rparr>"

definition invalid_input :: "double \<Rightarrow> double \<Rightarrow> nat \<Rightarrow> bool" where
  "invalid_input lat lon precision =
     (precision > MAX_PRECISION \<or> dlt lat LAT_MIN \<or> dlt LAT_MAX lat \<or> dlt lon LON_MIN \<or> dlt LON_MAX lon)"

text \<open>\<open>None\<close> is the result false, with the output parameter left alone.\<close>

definition encode_bits :: "double \<Rightarrow> double \<Rightarrow> nat \<Rightarrow> nat option" where
  "encode_bits lat lon precision =
     (if invalid_input lat lon precision then None
      else Some (hashBits (geohash_bits (precision * BASE32_BITS) True lat lon geohash_start)))"

definition encode :: "double \<Rightarrow> double \<Rightarrow> nat \<Rightarrow> string option" where
  "encode lat lon precision =
     (if invalid_input lat lon precision then None
      else let bits = (case encode_bits lat lon precision of None \<Rightarrow> 0 | Some b \<Rightarrow> b)
           in Some (map (\<lambda>i. base32Map ! (drop_bit ((precision - 1 - i) * BASE32_BITS) bits AND 0x1F))
                        [0 ..< precision]))"

section \<open>The geohash function node\<close>

datatype GPSUnitType = DECIMAL_DEGREE | MICROARCSECOND | MILLIARCSECOND | ARCSECOND

record GeohashInfo =
  mGeohashString :: string
  mPrevReportedGeohashString :: string

definition geohash_hasItems :: "GeohashInfo \<Rightarrow> bool" where
  "geohash_hasItems info = (length (mGeohashString info) > 0)"

record GeohashFunctionNode =
  mGeohashInfo :: GeohashInfo
  mIsGeohashNew :: bool

definition init_geohash_node :: GeohashFunctionNode where
  "init_geohash_node = \<lparr>mGeohashInfo = \<lparr>mGeohashString = [], mPrevReportedGeohashString = []\<rparr>, mIsGeohashNew = False\<rparr>"

fun convertToDecimalDegree :: "double \<Rightarrow> GPSUnitType \<Rightarrow> double" where
  "convertToDecimalDegree val DECIMAL_DEGREE = val"
| "convertToDecimalDegree val MICROARCSECOND = ddiv val (Fin 3600000000)"
| "convertToDecimalDegree val MILLIARCSECOND = ddiv val (Fin 3600000)"
| "convertToDecimalDegree val ARCSECOND = ddiv val (Fin 3600)"

definition evaluateGeohash ::
  "double \<Rightarrow> double \<Rightarrow> nat \<Rightarrow> GPSUnitType \<Rightarrow> GeohashFunctionNode \<Rightarrow> bool \<times> GeohashFunctionNode" where
  "evaluateGeohash latitude longitude precision gpsUnitType node =
     (let latitude = convertToDecimalDegree latitude gpsUnitType;
          longitude = convertToDecimalDegree longitude gpsUnitType;
          precision = (if precision > MAX_PRECISION then MAX_PRECISION else precision);
          old = mGeohashString (mGeohashInfo node)
      in case encode latitude longitude MAX_PRECISION of
           None \<Rightarrow> (False, node\<lparr>mIsGeohashNew := False\<rparr>)
         | Some current \<Rightarrow>
             let new = (if length old \<ge> precision \<and> length current \<ge> precision
                        then take precision current \<noteq> take precision old
                        else \<not> geohash_hasItems (mGeohashInfo node))
             in (new, node\<lparr>mIsGeohashNew := new,
                           mGeohashInfo := (mGeohashInfo node)\<lparr>mGeohashString := current\<rparr>\<rparr>))"

definition consumeGeohash :: "GeohashFunctionNode \<Rightarrow> GeohashInfo \<times> GeohashFunctionNode" where
  "consumeGeohash node =
     (mGeohashInfo node,
      node\<lparr>mIsGeohashNew := False,
           mGeohashInfo := (mGeohashInfo node)
             \<lparr>mPrevReportedGeohashString := mGeohashString (mGeohashInfo node)\<rparr>\<rparr>)"

definition hasNewGeohash :: "GeohashFunctionNode \<Rightarrow> bool" where
  "hasNewGeohash node = mIsGeohashNew node"

section \<open>Exact bisection\<close>

text \<open>
  The grid lines of depth \<open>k\<close> between \<open>- 45 d\<close> and \<open>45 d\<close> (\<open>d\<close> is 2 for the latitude, 4
  for the longitude), two steps to a cell of depth \<open>k\<close>.
\<close>

definition edge :: "int \<Rightarrow> nat \<Rightarrow> int \<Rightarrow> rat" where
  "edge d k j = of_int (45 * d * (j - 2 ^ k)) / 2 ^ k"

lemma edge_Suc: "edge d (Suc k) (2 * j) = edge d k j"
  by (simp add: edge_def field_simps)

lemma edge_mono: "0 < d \<Longrightarrow> i < j \<Longrightarrow> edge d k i < edge d k j"
  by (simp add: edge_def divide_strict_right_mono)

lemma edge_round:
  assumes "0 < d" "d \<le> 4" "k \<le> 30" "0 \<le> j" "j \<le> 2 * 2 ^ k"
  shows "round64 (edge d k j) = Fin (edge d k j)"
proof (rule round64_dyadic [where m = "45 * d * (j - 2 ^ k)" and k = "- int k"])
  have "\<bar>j - 2 ^ k\<bar> \<le> 2 ^ k" using assms by (simp add: abs_le_iff)
  moreover have "\<bar>d\<bar> \<le> 4" using assms by simp
  ultimately have "\<bar>d\<bar> * \<bar>j - 2 ^ k\<bar> \<le> 4 * 2 ^ k" by (intro mult_mono) auto
  moreover have "(2::int) ^ k \<le> 2 ^ 30" using assms(3) by (rule power_increasing) simp
  ultimately have b: "\<bar>45 * d * (j - 2 ^ k)\<bar> \<le> 180 * 2 ^ k" by (simp add: abs_mult)
  with \<open>2 ^ k \<le> 2 ^ 30\<close> show "\<bar>45 * d * (j - 2 ^ k)\<bar> < 2 ^ 53" by simp
  show "- 1074 \<le> - int k" using assms by simp
  show "edge d k j = of_int (45 * d * (j - 2 ^ k)) * 2 powi (- int k)"
    by (simp add: edge_def power_int_minus divide_inverse)
  have "\<bar>edge d k j\<bar> = of_int \<bar>45 * d * (j - 2 ^ k)\<bar> / 2 ^ k"
    by (simp only: edge_def abs_divide of_int_abs) simp
  also have "\<dots> \<le> of_int (180 * 2 ^ k) / 2 ^ k"
    using b by (intro divide_right_mono) (simp_all only: of_int_le_iff zero_le_power zero_le_numeral)
  also have "\<dots> = (180::rat)" by simp
  also have "\<dots> < 2 ^ 8" by simp
  also have "\<dots> \<le> (2::rat) ^ 1024" by (rule power_increasing) auto
  finally show "\<bar>edge d k j\<bar> < 2 ^ 1024" .
qed

text \<open>The midpoint of a cell is computed without rounding error.\<close>

lemma midpoint_exact:
  assumes "0 < d" "d \<le> 4" "k \<le> 30" "0 \<le> x" "x < 2 ^ k"
  shows "midpoint (Fin (edge d k (2 * x))) (Fin (edge d k (2 * x + 2))) = Fin (edge d k (2 * x + 1))"
proof -
  let ?l = "edge d k (2 * x)" and ?h = "edge d k (2 * x + 2)"
  have w: "?h - ?l = of_int (90 * d) / 2 ^ k" "of_int (90 * d) / 2 ^ k / 2 = (of_int (45 * d) / 2 ^ k :: rat)"
    by (simp_all add: edge_def field_simps)
  have pow: "(2::int) ^ k \<le> 2 ^ 30" using assms(3) by (rule power_increasing) simp
  have small: "\<bar>rat_of_int m / 2 ^ k\<bar> < 2 ^ 1024" if "\<bar>m\<bar> < 2 ^ 53" for m
  proof -
    have "\<bar>rat_of_int m\<bar> / 2 ^ k \<le> \<bar>rat_of_int m\<bar>" by (simp add: divide_le_eq mult_le_cancel_left1)
    also have "\<bar>rat_of_int m\<bar> < 2 ^ 53" using that by (metis of_int_abs of_int_less_iff of_int_numeral of_int_power)
    also have "(2::rat) ^ 53 \<le> 2 ^ 1024" by (rule power_increasing) auto
    finally show ?thesis by simp
  qed
  have r: "round64 (of_int m / 2 ^ k) = Fin (of_int m / 2 ^ k)" if m: "\<bar>m\<bar> < 2 ^ 53" for m
    by (rule round64_dyadic [OF m, of "- int k"])
       (use assms(3) small [OF m] in \<open>auto simp: power_int_minus divide_inverse\<close>)
  have d90: "\<bar>90 * d\<bar> < 2 ^ 53" "\<bar>45 * d\<bar> < 2 ^ 53" using assms(1,2) by auto
  have sub: "dsub (Fin ?h) (Fin ?l) = Fin (of_int (90 * d) / 2 ^ k)"
  proof (cases "?l = 0")
    case True
    with w(1) show ?thesis by (simp add: dsub_def)
  next
    case False
    then show ?thesis using r [OF d90(1)] w(1) by (simp add: dsub_def)
  qed
  have pos: "(0::rat) < of_int (90 * d) / 2 ^ k" using assms(1) by simp
  then have half: "ddiv (Fin (of_int (90 * d) / 2 ^ k)) (Fin 2) = Fin (of_int (45 * d) / 2 ^ k)"
    using r [OF d90(2)] w(2) assms(1) by (simp add: ddiv_def)
  have "?l + of_int (45 * d) / 2 ^ k = edge d k (2 * x + 1)"
    by (simp add: edge_def field_simps)
  then show ?thesis
    using edge_round [OF assms(1-3), of "2 * x + 1"] assms(4,5)
    unfolding midpoint_def sub half by simp
qed

section \<open>A hash is a cell\<close>

text \<open>The column and the row a hash of \<open>n\<close> bits stands for.\<close>

fun cell :: "nat \<Rightarrow> nat \<Rightarrow> nat \<times> nat" where
  "cell 0 h = (0, 0)"
| "cell (Suc n) h =
     (let (x, y) = cell n (h div 2)
      in if even n then (2 * x + h mod 2, y) else (x, 2 * y + h mod 2))"

text \<open>The coordinate lies in cell \<open>x\<close> of depth \<open>k\<close>; the last cell includes its upper edge.\<close>

definition in_cell :: "int \<Rightarrow> nat \<Rightarrow> nat \<Rightarrow> rat \<Rightarrow> bool" where
  "in_cell d k x v \<longleftrightarrow> x < 2 ^ k \<and> edge d k (2 * int x) \<le> v \<and>
     (v < edge d k (2 * int x + 2) \<or> v = of_int (45 * d) \<and> x + 1 = 2 ^ k)"

lemma in_cell_split:
  assumes "0 < d" "in_cell d k x v"
  shows "in_cell d (Suc k) (if edge d k (2 * int x + 1) \<le> v then 2 * x + 1 else 2 * x) v"
proof (cases "edge d k (2 * int x + 1) \<le> v")
  case True
  have e: "edge d (Suc k) (2 * int (2 * x + 1)) = edge d k (2 * int x + 1)"
    "edge d (Suc k) (2 * int (2 * x + 1) + 2) = edge d k (2 * int x + 2)"
    using edge_Suc [of d k "2 * int x + 1"] edge_Suc [of d k "2 * int x + 2"] by (simp_all add: algebra_simps)
  from True assms have "x < 2 ^ k" "edge d k (2 * int x + 1) \<le> v"
    "v < edge d k (2 * int x + 2) \<or> v = of_int (45 * d) \<and> x + 1 = 2 ^ k"
    by (auto simp: in_cell_def)
  then show ?thesis unfolding if_P [OF True] in_cell_def e by auto
next
  case False
  have e: "edge d (Suc k) (2 * int (2 * x)) = edge d k (2 * int x)"
    "edge d (Suc k) (2 * int (2 * x) + 2) = edge d k (2 * int x + 1)"
    using edge_Suc [of d k "2 * int x"] edge_Suc [of d k "2 * int x + 1"] by (simp_all add: algebra_simps)
  from False assms have "x < 2 ^ k" "edge d k (2 * int x) \<le> v" "v < edge d k (2 * int x + 1)"
    by (auto simp: in_cell_def)
  then show ?thesis unfolding if_not_P [OF False] in_cell_def e by auto
qed

lemma dle_fin_val: "fin_val u = Some p \<Longrightarrow> fin_val v = Some q \<Longrightarrow> dle u v \<longleftrightarrow> p \<le> q"
  by (cases u; cases v) (auto simp: dle_def)

lemma dlt_fin_val: "fin_val u = Some p \<Longrightarrow> fin_val v = Some q \<Longrightarrow> dlt u v \<longleftrightarrow> p < q"
  by (cases u; cases v) auto

lemma hash_append:
  assumes "h < 2 ^ n" "n \<le> 60"
  shows "u64 (push_bit 1 h) OR 1 = 2 * h + 1" "u64 (push_bit 1 h) OR 0 = 2 * h"
proof -
  have "(2::nat) ^ n \<le> 2 ^ 60" using assms(2) by (rule power_increasing) simp
  then have "2 * h < 2 ^ 64" using assms(1) by simp
  then have u: "u64 (push_bit 1 h) = 2 * h" by (simp add: u64_def push_bit_eq_mult)
  show "u64 (push_bit 1 h) OR 1 = 2 * h + 1" unfolding u by (simp only: or_one_eq) simp
  show "u64 (push_bit 1 h) OR 0 = 2 * h" unfolding u by simp
qed

definition cell_state :: "nat \<Rightarrow> nat \<Rightarrow> nat \<Rightarrow> nat \<Rightarrow> nat \<Rightarrow> geohash_state" where
  "cell_state k l h x y =
     \<lparr>latLow = Fin (edge 2 l (2 * int y)), latHigh = Fin (edge 2 l (2 * int y + 2)),
      lonLow = Fin (edge 4 k (2 * int x)), lonHigh = Fin (edge 4 k (2 * int x + 2)), hashBits = h\<rparr>"

definition geo_inv :: "rat \<Rightarrow> rat \<Rightarrow> nat \<Rightarrow> geohash_state \<Rightarrow> bool" where
  "geo_inv a b n st \<longleftrightarrow>
     (\<exists>h x y. cell n h = (x, y) \<and> h < 2 ^ n \<and> in_cell 4 ((n + 1) div 2) x b \<and> in_cell 2 (n div 2) y a \<and>
        st = cell_state ((n + 1) div 2) (n div 2) h x y)"

lemma edge_up:
  "edge d (Suc k) (2 * int (2 * z + 1)) = edge d k (2 * int z + 1)"
  "edge d (Suc k) (2 * int (2 * z + 1) + 2) = edge d k (2 * int z + 2)"
  "edge d (Suc k) (2 * int (2 * z)) = edge d k (2 * int z)"
  "edge d (Suc k) (2 * int (2 * z) + 2) = edge d k (2 * int z + 1)"
  using edge_Suc [of d k "2 * int z + 1"] edge_Suc [of d k "2 * int z + 2"] edge_Suc [of d k "2 * int z"]
  by (simp_all add: algebra_simps)

lemma in_cell_bound: "in_cell d k x v \<Longrightarrow> int x < 2 ^ k"
  unfolding in_cell_def by (metis of_nat_less_iff of_nat_numeral of_nat_power)

text \<open>One iteration refines one coordinate by one bit.\<close>

lemma lon_bit:
  assumes "h < 2 ^ n" "n < 45" "k \<le> 30" "in_cell 4 k x b" "fin_val lon = Some b"
  defines "c \<equiv> (edge 4 k (2 * int x + 1) \<le> b)"
  shows "geohash_bit lat lon True (cell_state k l h x y) =
     cell_state (Suc k) l (if c then 2 * h + 1 else 2 * h) (if c then 2 * x + 1 else 2 * x) y"
proof -
  have m: "midpoint (Fin (edge 4 k (2 * int x))) (Fin (edge 4 k (2 * int x + 2))) = Fin (edge 4 k (2 * int x + 1))"
    by (rule midpoint_exact) (use assms(3) in_cell_bound [OF assms(4)] in simp_all)
  have q: "dle (Fin (edge 4 k (2 * int x + 1))) lon = c"
    unfolding c_def using assms(5) by (rule dle_fin_val [rotated]) simp
  have h: "u64 (push_bit 1 h) OR 1 = 2 * h + 1" "u64 (push_bit 1 h) OR 0 = 2 * h"
    using hash_append [OF assms(1)] assms(2) by simp_all
  show ?thesis
    by (cases c) (simp_all only: geohash_bit_def cell_state_def geohash_state.simps
         geohash_state.update_convs m q h if_True if_False Let_def edge_up)
qed

lemma lat_bit:
  assumes "h < 2 ^ n" "n < 45" "l \<le> 30" "in_cell 2 l y a" "fin_val lat = Some a"
  defines "c \<equiv> (edge 2 l (2 * int y + 1) \<le> a)"
  shows "geohash_bit lat lon False (cell_state k l h x y) =
     cell_state k (Suc l) (if c then 2 * h + 1 else 2 * h) x (if c then 2 * y + 1 else 2 * y)"
proof -
  have m: "midpoint (Fin (edge 2 l (2 * int y))) (Fin (edge 2 l (2 * int y + 2))) = Fin (edge 2 l (2 * int y + 1))"
    by (rule midpoint_exact) (use assms(3) in_cell_bound [OF assms(4)] in simp_all)
  have q: "dle (Fin (edge 2 l (2 * int y + 1))) lat = c"
    unfolding c_def using assms(5) by (rule dle_fin_val [rotated]) simp
  have h: "u64 (push_bit 1 h) OR 1 = 2 * h + 1" "u64 (push_bit 1 h) OR 0 = 2 * h"
    using hash_append [OF assms(1)] assms(2) by simp_all
  show ?thesis
    by (cases c) (simp_all only: geohash_bit_def cell_state_def geohash_state.simps
         geohash_state.update_convs m q h if_True if_False Let_def edge_up)
qed

lemma geo_inv_step:
  assumes inv: "geo_inv a b n st" and n: "n < 45"
    and lat: "fin_val lat = Some a" and lon: "fin_val lon = Some b"
  shows "geo_inv a b (Suc n) (geohash_bit lat lon (even n) st)"
proof -
  obtain h x y where i: "cell n h = (x, y)" "h < 2 ^ n" "in_cell 4 ((n + 1) div 2) x b" "in_cell 2 (n div 2) y a"
    "st = cell_state ((n + 1) div 2) (n div 2) h x y"
    using inv by (auto simp: geo_inv_def)
  show ?thesis
  proof (cases "even n")
    case True
    have k: "(Suc n + 1) div 2 = Suc ((n + 1) div 2)" "Suc n div 2 = n div 2" using True by presburger+
    let ?c = "edge 4 ((n + 1) div 2) (2 * int x + 1) \<le> b"
    have "geohash_bit lat lon (even n) st = cell_state (Suc ((n + 1) div 2)) (n div 2)
        (if ?c then 2 * h + 1 else 2 * h) (if ?c then 2 * x + 1 else 2 * x) y"
      unfolding i(5) using True lon_bit [OF i(2) n _ i(3) lon] n by simp
    moreover have "cell (Suc n) (if ?c then 2 * h + 1 else 2 * h) = (if ?c then 2 * x + 1 else 2 * x, y)"
      using True i(1) by simp
    ultimately show ?thesis
      unfolding geo_inv_def k using i in_cell_split [OF _ i(3)] by (intro exI conjI) auto
  next
    case False
    have k: "(Suc n + 1) div 2 = (n + 1) div 2" "Suc n div 2 = Suc (n div 2)" using False by presburger+
    let ?c = "edge 2 (n div 2) (2 * int y + 1) \<le> a"
    have "geohash_bit lat lon (even n) st = cell_state ((n + 1) div 2) (Suc (n div 2))
        (if ?c then 2 * h + 1 else 2 * h) x (if ?c then 2 * y + 1 else 2 * y)"
      unfolding i(5) using False lat_bit [OF i(2) n _ i(4) lat] n by simp
    moreover have "cell (Suc n) (if ?c then 2 * h + 1 else 2 * h) = (x, if ?c then 2 * y + 1 else 2 * y)"
      using False i(1) by simp
    ultimately show ?thesis
      unfolding geo_inv_def k using i in_cell_split [OF _ i(4)] by (intro exI conjI) auto
  qed
qed

lemma geohash_bits_add:
  "geohash_bits (m + n) f lat lon st = geohash_bits n (f = even m) lat lon (geohash_bits m f lat lon st)"
  by (induction m arbitrary: f st) (auto intro: arg_cong [where f = "\<lambda>g. geohash_bits n g lat lon _"])

lemma geohash_bits_snoc:
  "geohash_bits (Suc n) f lat lon st = geohash_bit lat lon (f = even n) (geohash_bits n f lat lon st)"
  using geohash_bits_add [of n 1] by simp

lemma geo_inv_bits:
  assumes "fin_val lat = Some a" "fin_val lon = Some b" "- 90 \<le> a" "a \<le> 90" "- 180 \<le> b" "b \<le> 180"
  shows "n \<le> 45 \<Longrightarrow> geo_inv a b n (geohash_bits n True lat lon geohash_start)"
proof (induction n)
  case 0
  have "geohash_start = cell_state 0 0 0 0 0"
    by (simp add: geohash_start_def cell_state_def edge_def LAT_MIN_def LAT_MAX_def LON_MIN_def LON_MAX_def)
  moreover have "in_cell 4 0 0 b" "in_cell 2 0 0 a" using assms by (auto simp: in_cell_def edge_def)
  ultimately show ?case by (simp add: geo_inv_def)
next
  case (Suc n)
  then show ?case
    unfolding geohash_bits_snoc using geo_inv_step [of a b n _ lat lon] assms by simp
qed

section \<open>A shorter hash is a prefix\<close>

lemma hash_bit:
  assumes "hashBits st < 2 ^ n" "n \<le> 60"
  shows "hashBits (geohash_bit lat lon f st) div 2 = hashBits st \<and> hashBits (geohash_bit lat lon f st) < 2 ^ Suc n"
  using hash_append [OF assms] assms(1) by (auto simp: geohash_bit_def Let_def)

lemma hash_bits:
  "hashBits st < 2 ^ k \<Longrightarrow> k + n \<le> 60 \<Longrightarrow>
   hashBits (geohash_bits n f lat lon st) div 2 ^ n = hashBits st \<and> hashBits (geohash_bits n f lat lon st) < 2 ^ (k + n)"
proof (induction n arbitrary: f st k)
  case (Suc n)
  have b: "hashBits (geohash_bit lat lon f st) div 2 = hashBits st" "hashBits (geohash_bit lat lon f st) < 2 ^ Suc k"
    using hash_bit [OF Suc.prems(1)] Suc.prems(2) by simp_all
  then show ?case
    using Suc.IH [of "geohash_bit lat lon f st" "Suc k" "\<not> f"] Suc.prems(2)
    by (simp add: div_mult2_eq mult.commute [of 2])
qed simp

lemma geohash_start_bits [simp]: "hashBits geohash_start = 0"
  by (simp add: geohash_start_def)

lemma encode_bits_prefix:
  assumes "p + q \<le> 9" "encode_bits lat lon (p + q) = Some h"
  shows "encode_bits lat lon p = Some (h div 2 ^ (5 * q))"
proof -
  have v: "\<not> invalid_input lat lon (p + q)" "h = hashBits (geohash_bits ((p + q) * BASE32_BITS) True lat lon geohash_start)"
    using assms(2) by (auto simp: encode_bits_def split: if_splits)
  then have v': "\<not> invalid_input lat lon p" by (auto simp: invalid_input_def)
  let ?st = "geohash_bits (p * 5) True lat lon geohash_start"
  have "hashBits ?st < 2 ^ (p * 5)"
    using hash_bits [of geohash_start 0 "p * 5"] assms(1) by simp
  then have "h div 2 ^ (q * 5) = hashBits ?st"
    using hash_bits [of ?st "p * 5" "q * 5"] assms(1) v(2)
    by (simp add: BASE32_BITS_def add_mult_distrib geohash_bits_add)
  with v' show ?thesis by (simp add: encode_bits_def BASE32_BITS_def mult.commute)
qed

lemma length_encode: "encode lat lon p = Some s \<Longrightarrow> length s = p"
  by (auto simp: encode_def split: if_splits)

lemma encode_valid: "encode lat lon p = None \<longleftrightarrow> invalid_input lat lon p"
  by (simp add: encode_def Let_def)

lemma encode_take:
  assumes "encode lat lon 9 = Some s" "p \<le> 9"
  shows "encode lat lon p = Some (take p s)"
proof -
  obtain h where h: "encode_bits lat lon (p + (9 - p)) = Some h" "\<not> invalid_input lat lon 9"
    using assms by (auto simp: encode_def encode_bits_def split: if_splits)
  then have hp: "encode_bits lat lon p = Some (h div 2 ^ (5 * (9 - p)))"
    using encode_bits_prefix [of p "9 - p"] assms(2) by simp
  have v: "\<not> invalid_input lat lon p" using h(2) assms(2) by (auto simp: invalid_input_def MAX_PRECISION_def)
  have s: "s = map (\<lambda>i. base32Map ! (drop_bit ((9 - 1 - i) * 5) h AND 0x1F)) [0..<9]"
    using assms h by (simp add: encode_def BASE32_BITS_def del: upt_rec_numeral)
  have "drop_bit ((p - 1 - i) * 5) (h div 2 ^ (5 * (9 - p))) = drop_bit ((9 - 1 - i) * 5) h" if "i < p" for i
  proof -
    have "(9 - 1 - i) * 5 = 5 * (9 - p) + (p - 1 - i) * 5" using that assms(2) by simp
    then show ?thesis by (simp only: drop_bit_eq_div div_mult2_eq power_add)
  qed
  then show ?thesis
    unfolding s using v hp assms(2) by (simp add: encode_def BASE32_BITS_def take_map del: upt_rec_numeral)
qed

section \<open>Properties\<close>

text \<open>
  For a position within the coordinate ranges and a precision of at most nine characters
  the bit encoder succeeds, and its hash is the address of the grid cell that contains the
  position: reading the bits alternately as a longitude column and a latitude row gives a
  cell of the exact rational grid with both coordinates inside. No rounding error of the
  \<open>double\<close> bisection can put a position into a neighbouring cell.
\<close>

theorem encode_denotes:
  assumes "fin_val lat = Some a" "fin_val lon = Some b" "- 90 \<le> a" "a \<le> 90" "- 180 \<le> b" "b \<le> 180" "p \<le> 9"
  shows "\<exists>h. encode_bits lat lon p = Some h \<and> h < 2 ^ (5 * p) \<and>
     in_cell 4 ((5 * p + 1) div 2) (fst (cell (5 * p) h)) b \<and> in_cell 2 (5 * p div 2) (snd (cell (5 * p) h)) a"
proof -
  have "geo_inv a b (5 * p) (geohash_bits (5 * p) True lat lon geohash_start)"
    using geo_inv_bits [OF assms(1-6), of "5 * p"] assms(7) by simp
  then obtain h x y where h: "cell (5 * p) h = (x, y)" "h < 2 ^ (5 * p)" "in_cell 4 ((5 * p + 1) div 2) x b"
    "in_cell 2 (5 * p div 2) y a" "hashBits (geohash_bits (5 * p) True lat lon geohash_start) = h"
    by (auto simp: geo_inv_def cell_state_def)
  have "\<not> invalid_input lat lon p"
    using assms dlt_fin_val [OF assms(1), of "Fin (- 90)" "- 90"] dlt_fin_val [of "Fin 90" 90 lat a]
      dlt_fin_val [OF assms(2), of "Fin (- 180)" "- 180"] dlt_fin_val [of "Fin 180" 180 lon b]
    by (simp add: invalid_input_def LAT_MIN_def LAT_MAX_def LON_MIN_def LON_MAX_def MAX_PRECISION_def)
  then show ?thesis using h by (auto simp: encode_bits_def BASE32_BITS_def mult.commute)
qed

text \<open>
  An evaluation with a usable precision reports a new geohash exactly when the cell of that
  precision differs from the one stored before (any cell differs from no stored hash), always
  stores the full nine characters, and leaves the previously reported hash alone; an invalid
  position reports nothing new and keeps the stored hash.
\<close>

theorem evaluateGeohash_new:
  fixes latitude longitude :: double and unit :: GPSUnitType
  defines "lat \<equiv> convertToDecimalDegree latitude unit" and "lon \<equiv> convertToDecimalDegree longitude unit"
  assumes "mGeohashString (mGeohashInfo node) = [] \<or> length (mGeohashString (mGeohashInfo node)) = 9" "0 < precision"
  shows "\<exists>isNew node'. evaluateGeohash latitude longitude precision unit node = (isNew, node') \<and>
     hasNewGeohash node' = isNew \<and>
     mPrevReportedGeohashString (mGeohashInfo node') = mPrevReportedGeohashString (mGeohashInfo node) \<and>
     (case encode lat lon 9 of
        None \<Rightarrow> \<not> isNew \<and> mGeohashInfo node' = mGeohashInfo node
      | Some s \<Rightarrow> length s = 9 \<and> mGeohashString (mGeohashInfo node') = s \<and>
          (isNew \<longleftrightarrow> encode lat lon (min precision 9) \<noteq>
             Some (take (min precision 9) (mGeohashString (mGeohashInfo node)))))"
proof (cases "encode lat lon 9")
  case None
  then show ?thesis
    by (simp add: evaluateGeohash_def MAX_PRECISION_def Let_def hasNewGeohash_def flip: lat_def lon_def) blast
next
  case (Some s)
  have p: "(if 9 < precision then 9 else precision) = min precision 9" by simp
  have l: "length s = 9" using Some by (rule length_encode)
  have t: "encode lat lon (min precision 9) = Some (take (min precision 9) s)"
    using Some by (rule encode_take) simp
  let ?old = "mGeohashString (mGeohashInfo node)" and ?p = "min precision 9"
  define new where "new \<longleftrightarrow> (if ?p \<le> length ?old then take ?p s \<noteq> take ?p ?old else ?old = [])"
  have e: "evaluateGeohash latitude longitude precision unit node =
      (new, node\<lparr>mIsGeohashNew := new, mGeohashInfo := (mGeohashInfo node)\<lparr>mGeohashString := s\<rparr>\<rparr>)"
    using Some l unfolding evaluateGeohash_def MAX_PRECISION_def Let_def p lat_def [symmetric] lon_def [symmetric]
    by (simp add: new_def geohash_hasItems_def)
  have "new \<longleftrightarrow> take ?p s \<noteq> take ?p ?old"
  proof (cases "?old = []")
    case True
    then have "new" "length (take ?p s) \<noteq> length (take ?p ?old)" using assms(4) l by (simp_all add: new_def)
    then show ?thesis by metis
  next
    case False
    then show ?thesis using assms(3) by (simp add: new_def)
  qed
  then show ?thesis using Some l t by (simp add: e hasNewGeohash_def)
qed

text \<open>A position that is not a number passes the range check and is reported as a place.\<close>

lemma dle_NaN [simp]: "\<not> dle x NaN"
  by (cases x) (simp_all add: dle_def)

lemma nan_hash: "hashBits st = 0 \<Longrightarrow> hashBits (geohash_bits n f NaN NaN st) = 0"
  by (induction n arbitrary: f st) (simp_all add: geohash_bit_def Let_def u64_def)

lemma nan_position_is_encoded: "encode NaN NaN 9 = Some ''000000000''"
proof -
  have "\<not> invalid_input NaN NaN 9"
    by (simp add: invalid_input_def MAX_PRECISION_def LAT_MIN_def LAT_MAX_def LON_MIN_def LON_MAX_def)
  then show ?thesis by (simp add: encode_def encode_bits_def nan_hash base32Map_def upt_rec)
qed

theorem encode_denotes_witness:
  "\<exists>h. encode_bits (Fin (375 / 10)) (Fin (- 122)) 5 = Some h \<and> h < 2 ^ (5 * 5) \<and>
     in_cell 4 ((5 * 5 + 1) div 2) (fst (cell (5 * 5) h)) (- 122) \<and> in_cell 2 (5 * 5 div 2) (snd (cell (5 * 5) h)) (375 / 10)"
  by (rule encode_denotes) simp_all

definition sample_node :: GeohashFunctionNode where
  "sample_node = \<lparr>mGeohashInfo = \<lparr>mGeohashString = ''9q9hvu7wb'', mPrevReportedGeohashString = []\<rparr>, mIsGeohashNew = True\<rparr>"

theorem evaluateGeohash_new_witness:
  "\<exists>isNew node'. evaluateGeohash (Fin 37) (Fin (- 122)) 5 DECIMAL_DEGREE sample_node = (isNew, node') \<and>
     hasNewGeohash node' = isNew \<and>
     mPrevReportedGeohashString (mGeohashInfo node') = mPrevReportedGeohashString (mGeohashInfo sample_node) \<and>
     (case encode (Fin 37) (Fin (- 122)) 9 of
        None \<Rightarrow> \<not> isNew \<and> mGeohashInfo node' = mGeohashInfo sample_node
      | Some s \<Rightarrow> length s = 9 \<and> mGeohashString (mGeohashInfo node') = s \<and>
          (isNew \<longleftrightarrow> encode (Fin 37) (Fin (- 122)) (min 5 9) \<noteq>
             Some (take (min 5 9) (mGeohashString (mGeohashInfo sample_node)))))"
proof -
  have h: "mGeohashString (mGeohashInfo sample_node) = [] \<or> length (mGeohashString (mGeohashInfo sample_node)) = 9"
    "0 < (5::nat)"
    by (simp_all add: sample_node_def)
  show ?thesis
    by (rule evaluateGeohash_new [OF h, of "Fin 37" "Fin (- 122)" DECIMAL_DEGREE, unfolded convertToDecimalDegree.simps])
qed

end
