(* ===== verification/InspectionTypes.thy ===== *)
theory InspectionTypes
  imports ObdDecoder Geohash
begin

text \<open>
  The data the inspection engine works on: the condition expressions and collection settings of
  \<open>ICollectionScheme.h\<close>, the inspection matrix, the collected samples and the triggered data of
  \<open>CollectionInspectionAPITypes.h\<close>, and the bit sets indexed by condition.
\<close>

section \<open>Identifiers\<close>

definition INVALID_SIGNAL_ID :: nat where "INVALID_SIGNAL_ID = 0xFFFFFFFF"
definition MESSAGE_ID_NA :: nat where "MESSAGE_ID_NA = 0xFFFFFFFE"
definition INVALID_CAN_SOURCE_NUMERIC_ID :: nat where "INVALID_CAN_SOURCE_NUMERIC_ID = 0xFFFFFFFF"
definition MAX_CAN_FRAME_BYTE_SIZE :: nat where "MAX_CAN_FRAME_BYTE_SIZE = 8"

section \<open>Condition expressions\<close>

datatype ExpressionNodeType =
    FLOAT | SIGNAL | WINDOWFUNCTION | GEOHASHFUNCTION | BOOLEAN
  | OPERATOR_SMALLER | OPERATOR_BIGGER | OPERATOR_SMALLER_EQUAL | OPERATOR_BIGGER_EQUAL | OPERATOR_EQUAL
  | OPERATOR_LOGICAL_AND | OPERATOR_LOGICAL_OR | OPERATOR_LOGICAL_NOT
  | OPERATOR_ARITHMETIC_PLUS | OPERATOR_ARITHMETIC_MINUS | OPERATOR_ARITHMETIC_MULTIPLY
  | OPERATOR_ARITHMETIC_DIVIDE

datatype WindowFunction =
    LAST_FIXED_WINDOW_AVG | PREV_LAST_FIXED_WINDOW_AVG | LAST_FIXED_WINDOW_MIN | PREV_LAST_FIXED_WINDOW_MIN
  | LAST_FIXED_WINDOW_MAX | PREV_LAST_FIXED_WINDOW_MAX | NO_WINDOW

record GeohashFunction =
  latitudeSignalID :: nat
  longitudeSignalID :: nat
  geoPrecision :: nat
  gpsUnitType :: GPSUnitType

record ExpressionFunction =
  geohashFunction :: GeohashFunction
  windowFunction :: WindowFunction

definition default_function :: ExpressionFunction where
  "default_function =
     \<lparr>geohashFunction = \<lparr>latitudeSignalID = 0, longitudeSignalID = 0, geoPrecision = 0, gpsUnitType = DECIMAL_DEGREE\<rparr>,
      windowFunction = NO_WINDOW\<rparr>"

text \<open>A node and what its \<open>left\<close> and \<open>right\<close> pointers reach; \<open>None\<close> is the null pointer.\<close>

datatype ExpressionNode =
  ExpressionNode (nodeType: ExpressionNodeType) (left: "ExpressionNode option") (right: "ExpressionNode option")
    (floatingValue: double) (booleanValue: bool) (exprSignalID: nat) (exprFunction: ExpressionFunction)

section \<open>The inspection matrix\<close>

record PassThroughMetaData =
  compress :: bool
  persist :: bool
  priority :: nat
  decoderID :: string
  collectionSchemeID :: string

definition default_metadata :: PassThroughMetaData where
  "default_metadata = \<lparr>compress = False, persist = False, priority = 0, decoderID = [], collectionSchemeID = []\<rparr>"

datatype ImageCollectionType = TIME_BASED | FRAME_BASED | NO_IMAGE_TYPE

record ImageCollectionInfo =
  imgDeviceID :: nat
  imgFormat :: nat
  imgCollectionType :: ImageCollectionType
  imgBeforeDurationMs :: nat

record SignalCollectionInfo =
  sigID :: nat
  sigSampleBufferSize :: nat
  sigMinimumSampleIntervalMs :: nat
  sigFixedWindowPeriod :: nat
  sigIsConditionOnly :: bool

text \<open>In the inspection matrix a CAN frame is identified by its numeric channel.\<close>

record CanFrameMatrixInfo =
  frmID :: nat
  frmChannelID :: nat
  frmSampleBufferSize :: nat
  frmMinimumSampleIntervalMs :: nat

record ConditionWithCollectedData =
  condition :: "ExpressionNode option"
  minimumPublishInterval :: nat
  afterDuration :: nat
  cndSignals :: "SignalCollectionInfo list"
  cndCanFrames :: "CanFrameMatrixInfo list"
  includeActiveDtcs :: bool
  triggerOnlyOnRisingEdge :: bool
  probabilityToSend :: double
  cndMetaData :: PassThroughMetaData
  imageCollectionInfos :: "ImageCollectionInfo list"
  includeImageCapture :: bool

record InspectionMatrix =
  mtxConditions :: "ConditionWithCollectedData list"

definition MAX_NUMBER_OF_ACTIVE_CONDITION :: nat where "MAX_NUMBER_OF_ACTIVE_CONDITION = 256"
definition ALL_CONDITIONS :: nat where "ALL_CONDITIONS = 0xFFFFFFFF"
definition MAX_EQUATION_DEPTH :: nat where "MAX_EQUATION_DEPTH = 10"
definition MAX_DIFFERENT_SIGNAL_IDS :: nat where "MAX_DIFFERENT_SIGNAL_IDS = 50000"

section \<open>Collected data\<close>

record CollectedSignal =
  csMessageID :: nat
  csSignalID :: nat
  csReceiveTime :: nat
  csValue :: double

definition collected_signal :: "nat \<Rightarrow> nat \<Rightarrow> double \<Rightarrow> CollectedSignal" where
  "collected_signal signalID receiveTime val =
     \<lparr>csMessageID = MESSAGE_ID_NA, csSignalID = signalID, csReceiveTime = receiveTime, csValue = val\<rparr>"

record CollectedCanRawFrame =
  cfFrameID :: nat
  cfChannelID :: nat
  cfReceiveTime :: nat
  cfData :: "nat list"
  cfSize :: nat

record TriggeredCollectionSchemeData =
  trMetaData :: PassThroughMetaData
  triggerTime :: nat
  trSignals :: "CollectedSignal list"
  trCanFrames :: "CollectedCanRawFrame list"
  trDTCInfo :: DTCInfo
  trGeohashInfo :: GeohashInfo
  eventID :: nat

record EventMetadata =
  evEventID :: nat
  evSourceID :: nat
  evNegativeOffsetMs :: nat
  evPositiveOffsetMs :: nat

section \<open>Bit sets indexed by condition\<close>

type_synonym bitset = "256 word"

definition bs_all :: "bitset \<Rightarrow> bool" where "bs_all b = (b = - 1)"
definition bs_none :: "bitset \<Rightarrow> bool" where "bs_none b = (b = 0)"
definition bs_assign :: "nat \<Rightarrow> bool \<Rightarrow> bitset \<Rightarrow> bitset" where
  "bs_assign i v b = (if v then set_bit i b else unset_bit i b)"

definition setAlreadyConsumed :: "nat \<Rightarrow> bool \<Rightarrow> bitset \<Rightarrow> bitset" where
  "setAlreadyConsumed conditionId v b =
     (if conditionId = ALL_CONDITIONS then (if v then - 1 else 0) else bs_assign conditionId v b)"

lemma bit_bs_assign: "bit (bs_assign i v b) j \<longleftrightarrow> (if j = i \<and> i < 256 then v else bit b j)"
  by (auto simp: bs_assign_def bit_simps dest: bit_imp_le_length)

lemma bit_bs_all: "bit (- 1 :: bitset) i \<longleftrightarrow> i < 256"
  by simp

lemma bs_none_iff: "bs_none b \<longleftrightarrow> (\<forall>i < 256. \<not> bit b i)"
  by (auto simp: bs_none_def bit_eq_iff dest: bit_imp_le_length)

lemma bs_all_iff: "bs_all b \<longleftrightarrow> (\<forall>i < 256. bit b i)"
  by (auto simp: bs_all_def bit_eq_iff)

lemma bit_setAlreadyConsumed:
  "i < 256 \<Longrightarrow> bit (setAlreadyConsumed i v b) j \<longleftrightarrow> (if j = i then v else bit b j)"
  by (simp add: setAlreadyConsumed_def ALL_CONDITIONS_def bit_bs_assign)

lemma setAlreadyConsumed_reset [simp]: "setAlreadyConsumed ALL_CONDITIONS False b = 0"
  by (simp add: setAlreadyConsumed_def)

end
