(* ===== verification/Containers.thy ===== *)
theory Containers
  imports Prelude "HOL-Library.List_Lexorder" "HOL-Library.Char_ord"
begin

text \<open>
  The standard containers of the scheme manager: a \<open>std::map\<close> is an association list with
  strictly ascending keys, iterated in list order, and a \<open>std::priority_queue\<close> over
  \<open>std::greater\<close> is an ascending list whose first element is the top. Each comes with the
  interface its clients rely on, stated as a locale and interpreted on the lists.
\<close>

section \<open>Ordered maps\<close>

fun omap_put :: "'k::linorder \<Rightarrow> 'v \<Rightarrow> ('k \<times> 'v) list \<Rightarrow> ('k \<times> 'v) list" where
  "omap_put k v [] = [(k, v)]"
| "omap_put k v ((k', v') # m) =
     (if k < k' then (k, v) # (k', v') # m
      else if k = k' then (k, v) # m
      else (k', v') # omap_put k v m)"

definition omap_ok :: "('k::linorder \<times> 'v) list \<Rightarrow> bool" where
  "omap_ok m \<longleftrightarrow> sorted_wrt (<) (map fst m)"

lemma omap_ok_Nil [simp]: "omap_ok []" by (simp add: omap_ok_def)

lemma omap_ok_Cons: "omap_ok (p # m) \<longleftrightarrow> (\<forall>q \<in> set m. fst p < fst q) \<and> omap_ok m"
  by (auto simp: omap_ok_def)

lemma map_of_omap_put [simp]: "map_of (omap_put k v m) = (map_of m)(k \<mapsto> v)"
  by (induction m) (auto simp: fun_eq_iff)

lemma set_omap_put: "set (omap_put k v m) \<subseteq> insert (k, v) (set m)"
  by (induction m) (auto split: if_splits)

lemma omap_ok_put [simp]: "omap_ok m \<Longrightarrow> omap_ok (omap_put k v m)"
proof (induction m)
  case (Cons p m)
  obtain k' v' where p: "p = (k', v')" by (cases p)
  have m: "\<forall>q \<in> set m. k' < fst q" "omap_ok m" using Cons.prems by (simp_all add: omap_ok_Cons p)
  show ?case
  proof (cases "k < k'")
    case True
    then show ?thesis using m p by (auto simp: omap_ok_Cons)
  next
    case nl: False
    show ?thesis
    proof (cases "k = k'")
      case True
      then show ?thesis using m p by (simp add: omap_ok_Cons)
    next
      case False
      then have "\<forall>q \<in> set (omap_put k v m). k' < fst q" using m(1) nl set_omap_put [of k v m] by fastforce
      then show ?thesis using Cons.IH [OF m(2)] p nl False by (simp add: omap_ok_Cons)
    qed
  qed
qed (simp add: omap_ok_def)

lemma omap_ok_del [simp]: "omap_ok m \<Longrightarrow> omap_ok (assoc_del k m)"
  by (induction m) (auto simp: omap_ok_Cons assoc_del_def)

lemma omap_ok_filter: "omap_ok m \<Longrightarrow> omap_ok (filter P m)"
  by (induction m) (auto simp: omap_ok_Cons)

lemma omap_ok_distinct: "omap_ok m \<Longrightarrow> distinct (map fst m)"
  by (simp add: omap_ok_def strict_sorted_iff)

text \<open>Filtering by key.\<close>

lemma map_of_filter_key: "map_of (filter (\<lambda>p. P (fst p)) m) = (\<lambda>k. if P k then map_of m k else None)"
  by (induction m) (auto simp: fun_eq_iff)

locale ordered_map =
  fixes lookup :: "'m \<Rightarrow> 'k::linorder \<Rightarrow> 'v option"
    and put :: "'k \<Rightarrow> 'v \<Rightarrow> 'm \<Rightarrow> 'm"
    and del :: "'k \<Rightarrow> 'm \<Rightarrow> 'm"
    and keys :: "'m \<Rightarrow> 'k list"
    and ok :: "'m \<Rightarrow> bool"
  assumes lookup_put: "lookup (put k v m) = (lookup m)(k \<mapsto> v)"
    and lookup_del: "lookup (del k m) = (lookup m)(k := None)"
    and ok_put: "ok m \<Longrightarrow> ok (put k v m)"
    and ok_del: "ok m \<Longrightarrow> ok (del k m)"
    and set_keys: "set (keys m) = dom (lookup m)"
    and sorted_keys: "ok m \<Longrightarrow> sorted_wrt (<) (keys m)"
begin

text \<open>Moving an entry from one map to another keeps two maps disjoint.\<close>

lemma move_disjoint:
  assumes "dom (lookup a) \<inter> dom (lookup b) = {}"
  shows "dom (lookup (del k a)) \<inter> dom (lookup (put k v b)) = {}"
  using assms by (auto simp: lookup_put lookup_del)

lemma put_disjoint:
  assumes "dom (lookup a) \<inter> dom (lookup b) = {}" "lookup a k = None"
  shows "dom (lookup a) \<inter> dom (lookup (put k v b)) = {}"
  using assms by (auto simp: lookup_put)

lemma del_disjoint: "dom (lookup a) \<inter> dom (lookup b) = {} \<Longrightarrow> dom (lookup (del k a)) \<inter> dom (lookup b) = {}"
  by (auto simp: lookup_del)

text \<open>The keys of an ordered map are determined by its lookups.\<close>

lemma keys_unique:
  assumes "ok a" "ok b" "dom (lookup a) = dom (lookup b)"
  shows "keys a = keys b"
  using strict_sorted_equal [OF sorted_keys [OF assms(1)] sorted_keys [OF assms(2)]] assms(3) by (simp add: set_keys)

end

interpretation om: ordered_map map_of omap_put assoc_del "map fst" omap_ok
  by unfold_locales (auto simp: omap_ok_def dom_map_of_conv_image_fst omap_ok_put [unfolded omap_ok_def]
      omap_ok_del [unfolded omap_ok_def])

section \<open>Priority queues\<close>

text \<open>An event of the timeline is a pair compared by time first and then by identifier.\<close>

datatype TimeData = TimeData (tdTime: nat) (tdID: string)

instantiation TimeData :: linorder
begin

definition less_eq_TimeData :: "TimeData \<Rightarrow> TimeData \<Rightarrow> bool" where
  "less_eq_TimeData a b \<longleftrightarrow> tdTime a < tdTime b \<or> tdTime a = tdTime b \<and> tdID a \<le> tdID b"

definition less_TimeData :: "TimeData \<Rightarrow> TimeData \<Rightarrow> bool" where
  "less_TimeData a b \<longleftrightarrow> tdTime a < tdTime b \<or> tdTime a = tdTime b \<and> tdID a < tdID b"

instance
  by standard (auto simp: less_eq_TimeData_def less_TimeData_def TimeData.expand)

end

lemma TimeData_le_time: "a \<le> b \<Longrightarrow> tdTime a \<le> tdTime b"
  by (auto simp: less_eq_TimeData_def)

lemma TimeData_less_time: "tdTime a < tdTime b \<Longrightarrow> a < b"
  by (simp add: less_TimeData_def)

locale min_queue =
  fixes inv :: "'q \<Rightarrow> bool"
    and push :: "'a::linorder \<Rightarrow> 'q \<Rightarrow> 'q"
    and top_of :: "'q \<Rightarrow> 'a"
    and pop :: "'q \<Rightarrow> 'q"
    and content :: "'q \<Rightarrow> 'a multiset"
  assumes inv_push: "inv q \<Longrightarrow> inv (push x q)"
    and inv_pop: "inv q \<Longrightarrow> content q \<noteq> {#} \<Longrightarrow> inv (pop q)"
    and content_push: "content (push x q) = add_mset x (content q)"
    and top_in: "inv q \<Longrightarrow> content q \<noteq> {#} \<Longrightarrow> top_of q \<in># content q"
    and top_least: "inv q \<Longrightarrow> x \<in># content q \<Longrightarrow> top_of q \<le> x"
    and content_pop: "inv q \<Longrightarrow> content q \<noteq> {#} \<Longrightarrow> content (pop q) = content q - {#top_of q#}"
begin

lemma size_pop: "inv q \<Longrightarrow> content q \<noteq> {#} \<Longrightarrow> size (content (pop q)) < size (content q)"
  using top_in [of q] by (simp add: content_pop size_Diff1_less)

text \<open>Pushing an element above the top and popping replaces the top.\<close>

lemma replace_top:
  assumes "inv q" "content q \<noteq> {#}" "top_of q < x"
  shows "content (pop (push x q)) = add_mset x (content q - {#top_of q#})"
proof -
  have inv: "inv (push x q)" "content (push x q) \<noteq> {#}" using assms(1) by (simp_all add: inv_push content_push)
  have "top_of (push x q) \<in># add_mset x (content q)" using top_in [OF inv] by (simp add: content_push)
  moreover have "top_of (push x q) \<le> top_of q"
    using top_least [OF inv(1), of "top_of q"] top_in [OF assms(1,2)] by (simp add: content_push)
  ultimately have "top_of (push x q) = top_of q"
    using top_least [OF assms(1)] assms(3) by (auto intro: antisym)
  then show ?thesis using content_pop [OF inv] top_in [OF assms(1,2)] assms(3)
    by (simp add: content_push)
qed

end

lemma sorted_hd_le: "sorted q \<Longrightarrow> x \<in> set q \<Longrightarrow> hd q \<le> x"
  by (cases q) auto

interpretation tq: min_queue sorted insort hd tl mset
  by unfold_locales (auto simp: sorted_insort sorted_tl sorted_hd_le neq_Nil_conv)

lemma insort_replace_hd:
  assumes "sorted q" "q \<noteq> []" "hd q < x"
  shows "mset (tl (insort x q)) = add_mset x (mset (tl q))"
  using tq.replace_top [OF assms(1) _ assms(3)] assms(2) by (cases q) auto

end
