(* ===== verification/SchemeTypes.thy ===== *)
theory SchemeTypes
  imports InspectionTypes Containers
begin

text \<open>
  Collection schemes as the manager sees them (\<open>ICollectionScheme.h\<close>), and the messages of
  \<open>collection_schemes.proto\<close> they are built from. The generated message classes are records
  with the fields of the schema, a \<open>oneof\<close> is a datatype, and an enumeration has a
  constructor for values outside the schema.
\<close>

section \<open>Expression nodes in a vector\<close>

text \<open>A pointer to a node of a vector is its index.\<close>

record ExpressionCell =
  cellType :: ExpressionNodeType
  cellLeft :: "nat option"
  cellRight :: "nat option"
  cellFloat :: double
  cellBool :: bool
  cellSignal :: nat
  cellFunction :: ExpressionFunction

definition default_cell :: ExpressionCell where
  "default_cell = \<lparr>cellType = FLOAT, cellLeft = None, cellRight = None, cellFloat = Fin 0, cellBool = False,
     cellSignal = 0, cellFunction = default_function\<rparr>"

text \<open>A pointer denotes the tree it unfolds to.\<close>

fun denotes :: "(nat \<Rightarrow> ExpressionCell option) \<Rightarrow> nat option \<Rightarrow> ExpressionNode option \<Rightarrow> bool" where
  "denotes store p None \<longleftrightarrow> p = None"
| "denotes store p (Some (ExpressionNode t l r f b s fn)) \<longleftrightarrow>
     (\<exists>i c. p = Some i \<and> store i = Some c \<and> cellType c = t \<and> cellFloat c = f \<and> cellBool c = b \<and> cellSignal c = s \<and>
        cellFunction c = fn \<and> denotes store (cellLeft c) l \<and> denotes store (cellRight c) r)"

definition at_index :: "'a list \<Rightarrow> nat \<Rightarrow> 'a option" where
  "at_index xs i = (if i < length xs then Some (xs ! i) else None)"

section \<open>Collection schemes\<close>

record CanFrameCollectionInfo =
  cfiFrameID :: nat
  cfiInterfaceID :: string
  cfiSampleBufferSize :: nat
  cfiMinimumSampleIntervalMs :: nat

record CollectionScheme =
  schCollectionSchemeID :: string
  schDecoderManifestID :: string
  schStartTime :: nat
  schExpiryTime :: nat
  schMinimumPublishIntervalMs :: nat
  schAfterDurationMs :: nat
  schActiveDTCsIncluded :: bool
  schTriggerOnlyOnRisingEdge :: bool
  schCollectSignals :: "SignalCollectionInfo list"
  schCollectRawCanFrames :: "CanFrameCollectionInfo list"
  schPersistNeeded :: bool
  schCompressionNeeded :: bool
  schPriority :: nat
  schCondition :: "nat option"
  schExpressionNodes :: "ExpressionCell list"
  schProbabilityToSend :: double
  schImageCaptureData :: "ImageCollectionInfo list"

definition INVALID_MINIMUM_PUBLISH_TIME :: nat where "INVALID_MINIMUM_PUBLISH_TIME = 2 ^ 32 - 1"
definition DEFAULT_PROBABILITY_TO_SEND :: double where "DEFAULT_PROBABILITY_TO_SEND = Fin 1"

section \<open>Messages\<close>

datatype Operator =
    COMPARE_SMALLER | COMPARE_BIGGER | COMPARE_SMALLER_EQUAL | COMPARE_BIGGER_EQUAL | COMPARE_EQUAL | COMPARE_NOT_EQUAL
  | LOGICAL_AND | LOGICAL_OR | LOGICAL_NOT
  | ARITHMETIC_PLUS | ARITHMETIC_MINUS | ARITHMETIC_MULTIPLY | ARITHMETIC_DIVIDE | OTHER_OPERATOR int

datatype WindowType =
    LAST_WINDOW_MIN | LAST_WINDOW_MAX | LAST_WINDOW_AVG | PREV_LAST_WINDOW_MIN | PREV_LAST_WINDOW_MAX | PREV_LAST_WINDOW_AVG
  | OTHER_WINDOW int

datatype ConditionNode =
    NodeSignalId nat | NodeDoubleValue double | NodeBooleanValue bool
  | NodeWindowFunction nat WindowType | NodeGeohashFunction nat nat nat GPSUnitType | NodeFunctionNotSet
  | NodeOperator Operator "ConditionNode option" "ConditionNode option" | NodeNotSet

datatype CollectionSchemeType =
    TimeBased (timePeriodMs: nat)
  | ConditionBased (conditionMinimumIntervalMs: nat) (conditionTree: ConditionNode) (risingEdgeOnly: bool)
  | TypeNotSet

record RawCanFrameMsg =
  canInterfaceId :: string
  canMessageId :: nat
  rawSampleBufferSize :: nat
  rawMinimumSamplePeriodMs :: nat

record ImageDataMsg =
  imageSourceNodeId :: nat
  imageType :: nat
  timeBasedImageData :: "nat option"

record CollectionSchemeMsg =
  campaign_arn :: string
  decoder_manifest_arn :: string
  start_time_ms_epoch :: nat
  expiry_time_ms_epoch :: nat
  collection_scheme_type :: CollectionSchemeType
  after_duration_ms :: nat
  include_active_dtcs :: bool
  signal_information :: "SignalCollectionInfo list"
  raw_can_frames_to_collect :: "RawCanFrameMsg list"
  persist_all_collected_data :: bool
  compress_collected_data :: bool
  msg_priority :: nat
  probabilities :: "double option"
  image_data :: "ImageDataMsg list"

end
