(* ===== verification/WindowFunction.thy ===== *)
theory WindowFunction
  imports InspectionTypes
begin

text \<open>
  The fixed time windows of a signal, \<open>CollectionInspectionEngine::FixedTimeWindowFunctionData\<close>:
  the values of the window being collected, the last complete window and the one before.
  The lemmas relate the values of a complete window to the samples that arrived in it.
\<close>

section \<open>State and operations\<close>

record FixedTimeWindowFunctionData =
  mWindowSizeMs :: nat
  mLastTimeCalculated :: nat
  mLastMin :: double
  mLastMax :: double
  mLastAvg :: double
  mLastAvailable :: bool
  mPreviousLastMin :: double
  mPreviousLastMax :: double
  mPreviousLastAvg :: double
  mPreviousLastAvailable :: bool
  mCollectingMin :: double
  mCollectingMax :: double
  mCollectingSum :: double
  mCollectedSignals :: nat

definition fixed_window :: "nat \<Rightarrow> FixedTimeWindowFunctionData" where
  "fixed_window windowSize =
     \<lparr>mWindowSizeMs = windowSize, mLastTimeCalculated = 0,
      mLastMin = double_min, mLastMax = double_max, mLastAvg = Fin 0, mLastAvailable = False,
      mPreviousLastMin = double_min, mPreviousLastMax = double_max, mPreviousLastAvg = Fin 0, mPreviousLastAvailable = False,
      mCollectingMin = double_min, mCollectingMax = double_max, mCollectingSum = Fin 0, mCollectedSignals = 0\<rparr>"

text \<open>
  \<open>initNewWindow\<close> returns the lowered \<open>nextWindowFunctionTimesOut\<close> beside the window. The
  number of whole windows passed is truncated to 32 bits before it is multiplied.
\<close>

definition initNewWindow ::
  "nat \<Rightarrow> nat \<Rightarrow> FixedTimeWindowFunctionData \<Rightarrow> FixedTimeWindowFunctionData \<times> nat" where
  "initNewWindow timestamp nextTimesOut w =
     (let start = u64 (mLastTimeCalculated w +
            u64 (u32 (sub64 timestamp (mLastTimeCalculated w) div mWindowSizeMs w) * mWindowSizeMs w))
      in (w\<lparr>mCollectingMin := double_max, mCollectingMax := double_min, mCollectingSum := Fin 0,
            mCollectedSignals := 0, mLastTimeCalculated := start\<rparr>,
          min nextTimesOut (u64 (start + mWindowSizeMs w))))"

definition updateInternalVariables :: "double \<Rightarrow> FixedTimeWindowFunctionData \<Rightarrow> FixedTimeWindowFunctionData" where
  "updateInternalVariables v w =
     w\<lparr>mCollectingMin := dmin (mCollectingMin w) v, mCollectingMax := dmax (mCollectingMax w) v,
       mCollectingSum := dadd (mCollectingSum w) v, mCollectedSignals := u32 (mCollectedSignals w + 1)\<rparr>"

definition collected_avg :: "FixedTimeWindowFunctionData \<Rightarrow> double" where
  "collected_avg w = ddiv (mCollectingSum w) (of_integer (int (mCollectedSignals w)))"

text \<open>Result: the changed flag, the window and the lowered \<open>nextWindowFunctionTimesOut\<close>.\<close>

definition updateWindow ::
  "nat \<Rightarrow> nat \<Rightarrow> FixedTimeWindowFunctionData \<Rightarrow> bool \<times> FixedTimeWindowFunctionData \<times> nat" where
  "updateWindow timestamp nextTimesOut w =
     (if mLastTimeCalculated w = 0
      then (True, initNewWindow timestamp nextTimesOut (w\<lparr>mLastTimeCalculated := timestamp\<rparr>))
      else if timestamp \<ge> u64 (mLastTimeCalculated w + u64 (mWindowSizeMs w * 2))
      then (True, initNewWindow timestamp nextTimesOut
             (let w = w\<lparr>mLastAvailable := False\<rparr>
              in if mCollectedSignals w = 0 then w\<lparr>mPreviousLastAvailable := False\<rparr>
                 else w\<lparr>mPreviousLastAvailable := True, mPreviousLastMin := mCollectingMin w,
                        mPreviousLastMax := mCollectingMax w, mPreviousLastAvg := collected_avg w\<rparr>))
      else if timestamp \<ge> u64 (mLastTimeCalculated w + mWindowSizeMs w)
      then (True, initNewWindow timestamp nextTimesOut
             (let w = w\<lparr>mPreviousLastMin := mLastMin w, mPreviousLastMax := mLastMax w,
                        mPreviousLastAvg := mLastAvg w, mPreviousLastAvailable := mLastAvailable w\<rparr>
              in if mCollectedSignals w = 0 then w\<lparr>mLastAvailable := False\<rparr>
                 else w\<lparr>mLastAvailable := True, mLastMin := mCollectingMin w,
                        mLastMax := mCollectingMax w, mLastAvg := collected_avg w\<rparr>))
      else (False, w, min nextTimesOut (u64 (mLastTimeCalculated w + mWindowSizeMs w))))"

definition addValue ::
  "double \<Rightarrow> nat \<Rightarrow> nat \<Rightarrow> FixedTimeWindowFunctionData \<Rightarrow> FixedTimeWindowFunctionData \<times> nat" where
  "addValue v timestamp nextTimesOut w =
     (let (changed, w, nextTimesOut) = updateWindow timestamp nextTimesOut w
      in (updateInternalVariables v w, nextTimesOut))"

section \<open>Frame and time-out facts\<close>

lemma initNewWindow_size [simp]: "mWindowSizeMs (fst (initNewWindow t n w)) = mWindowSizeMs w"
  by (simp add: initNewWindow_def Let_def)

lemma updateWindow_size [simp]: "mWindowSizeMs (fst (snd (updateWindow t n w))) = mWindowSizeMs w"
  by (simp add: updateWindow_def Let_def)

lemma addValue_size [simp]: "mWindowSizeMs (fst (addValue v t n w)) = mWindowSizeMs w"
  by (simp add: addValue_def updateInternalVariables_def split_beta)

lemma updateWindow_times_out: "snd (snd (updateWindow t n w)) \<le> n"
  by (simp add: updateWindow_def initNewWindow_def Let_def)

text \<open>The samples collected since the window opened.\<close>

definition collected :: "double list \<Rightarrow> FixedTimeWindowFunctionData \<Rightarrow> bool" where
  "collected vs w \<longleftrightarrow>
     mCollectingMin w = foldl dmin double_max vs \<and> mCollectingMax w = foldl dmax double_min vs \<and>
     mCollectingSum w = foldl dadd (Fin 0) vs \<and> mCollectedSignals w = length vs"

lemma collected_initNewWindow [simp]: "collected [] (fst (initNewWindow t n w))"
  by (simp add: collected_def initNewWindow_def Let_def)

lemma collected_update:
  "collected vs w \<Longrightarrow> length vs + 1 < 2 ^ 32 \<Longrightarrow> collected (vs @ [v]) (updateInternalVariables v w)"
  by (simp add: collected_def updateInternalVariables_def width_simps)

text \<open>A time inside the open window leaves the window as it is.\<close>

definition inside :: "FixedTimeWindowFunctionData \<Rightarrow> nat \<Rightarrow> bool" where
  "inside w t \<longleftrightarrow> mLastTimeCalculated w \<noteq> 0 \<and> mLastTimeCalculated w \<le> t \<and>
     t < mLastTimeCalculated w + mWindowSizeMs w \<and> mLastTimeCalculated w + 2 * mWindowSizeMs w < 2 ^ 64"

lemma updateWindow_inside:
  "inside w t \<Longrightarrow> updateWindow t n w = (False, w, min n (mLastTimeCalculated w + mWindowSizeMs w))"
  by (simp add: updateWindow_def inside_def width_simps mult.commute)

fun add_values :: "(double \<times> nat) list \<Rightarrow> nat \<Rightarrow> FixedTimeWindowFunctionData \<Rightarrow> FixedTimeWindowFunctionData \<times> nat" where
  "add_values [] n w = (w, n)"
| "add_values ((v, t) # xs) n w = (let (w, n) = addValue v t n w in add_values xs n w)"

lemma add_values_inside:
  "collected vs w \<Longrightarrow> \<forall>p \<in> set xs. inside w (snd p) \<Longrightarrow> length vs + length xs < 2 ^ 32 \<Longrightarrow>
   \<exists>n'. add_values xs n w =
     (w\<lparr>mCollectingMin := foldl dmin double_max (vs @ map fst xs), mCollectingMax := foldl dmax double_min (vs @ map fst xs),
        mCollectingSum := foldl dadd (Fin 0) (vs @ map fst xs), mCollectedSignals := length vs + length xs\<rparr>, n')"
proof (induction xs arbitrary: vs w n)
  case Nil
  then show ?case by (simp add: collected_def)
next
  case (Cons p xs)
  obtain v t where p: "p = (v, t)" by force
  let ?w = "updateInternalVariables v w"
  have "addValue v t n w = (?w, min n (mLastTimeCalculated w + mWindowSizeMs w))"
    using Cons.prems(2) updateWindow_inside [of w t n] by (simp add: p addValue_def)
  moreover have "collected (vs @ [v]) ?w"
    using Cons.prems(1,3) by (intro collected_update) simp_all
  moreover have "\<forall>q \<in> set xs. inside ?w (snd q)"
    using Cons.prems(2) by (simp add: inside_def updateInternalVariables_def)
  ultimately show ?case
    using Cons.IH [of "vs @ [v]" ?w] Cons.prems(3)
    by (simp add: p) (simp add: updateInternalVariables_def)
qed

section \<open>Folded minimum and maximum\<close>

definition finite_double :: "double \<Rightarrow> bool" where
  "finite_double v \<longleftrightarrow> \<not> isnan v \<and> dle v double_max \<and> dle (dneg double_max) v"

lemma not_nan_double_max [simp]: "\<not> isnan double_max" "\<not> isnan double_min"
  by (simp_all add: double_max_def double_min_def)

lemma foldl_dmin:
  "\<not> isnan a \<Longrightarrow> \<forall>v \<in> set vs. \<not> isnan v \<Longrightarrow>
   foldl dmin a vs \<in> insert a (set vs) \<and> (\<forall>v \<in> insert a (set vs). dle (foldl dmin a vs) v)"
proof (induction vs arbitrary: a)
  case Nil
  then show ?case by (simp add: dle_refl)
next
  case (Cons v vs)
  have n: "\<not> isnan (dmin a v)" "dmin a v \<in> {a, v}" using Cons.prems by (auto simp: dmin_def)
  with Cons.IH [of "dmin a v"] Cons.prems dmin_le [of a v] show ?case
    by (auto intro: dle_trans)
qed

lemma foldl_dmax:
  "\<not> isnan a \<Longrightarrow> \<forall>v \<in> set vs. \<not> isnan v \<Longrightarrow>
   foldl dmax a vs \<in> insert a (set vs) \<and> (\<forall>v \<in> insert a (set vs). dle v (foldl dmax a vs))"
proof (induction vs arbitrary: a)
  case Nil
  then show ?case by (simp add: dle_refl)
next
  case (Cons v vs)
  have n: "\<not> isnan (dmax a v)" "dmax a v \<in> {a, v}" using Cons.prems by (auto simp: dmax_def)
  with Cons.IH [of "dmax a v"] Cons.prems dmax_ge [of a v] show ?case
    by (auto intro: dle_trans)
qed

lemma foldl_dmin_member:
  assumes "vs \<noteq> []" "\<forall>v \<in> set vs. finite_double v"
  shows "\<exists>v \<in> set vs. deq (foldl dmin double_max vs) v"
proof -
  have nn: "\<forall>v \<in> set vs. \<not> isnan v" using assms(2) by (simp add: finite_double_def)
  note m = foldl_dmin [OF not_nan_double_max(1) nn]
  show ?thesis
  proof (cases "foldl dmin double_max vs \<in> set vs")
    case True
    then show ?thesis using nn by (auto simp: deq_def intro: dle_refl)
  next
    case False
    then have e: "foldl dmin double_max vs = double_max" using m by blast
    obtain v where "v \<in> set vs" using assms(1) by (cases vs) auto
    then show ?thesis using m assms(2) unfolding e by (auto simp: deq_def finite_double_def)
  qed
qed

section \<open>Properties\<close>

text \<open>What a window holds after the samples \<open>xs\<close> arrived inside it and time \<open>t\<close> closed it.\<close>

definition close_window ::
  "(double \<times> nat) list \<Rightarrow> nat \<Rightarrow> FixedTimeWindowFunctionData \<Rightarrow> bool \<times> FixedTimeWindowFunctionData \<times> nat" where
  "close_window xs t w = (let (w, n) = add_values xs 0 w in updateWindow t n w)"

lemma close_window_values:
  assumes "collected [] w" "\<forall>p \<in> set xs. inside w (snd p)" "xs \<noteq> []" "length xs < 2 ^ 32"
    and "mLastTimeCalculated w + mWindowSizeMs w \<le> t" "t < mLastTimeCalculated w + 2 * mWindowSizeMs w"
  defines "r \<equiv> fst (snd (close_window xs t w))"
  shows "fst (close_window xs t w)" "mLastAvailable r"
    and "mLastMin r = foldl dmin double_max (map fst xs)" "mLastMax r = foldl dmax double_min (map fst xs)"
    and "mLastAvg r = ddiv (foldl dadd (Fin 0) (map fst xs)) (of_integer (int (length xs)))"
    and "mPreviousLastMin r = mLastMin w" "mPreviousLastMax r = mLastMax w" "mPreviousLastAvg r = mLastAvg w"
        "mPreviousLastAvailable r = mLastAvailable w"
proof -
  let ?w = "w\<lparr>mCollectingMin := foldl dmin double_max (map fst xs), mCollectingMax := foldl dmax double_min (map fst xs),
        mCollectingSum := foldl dadd (Fin 0) (map fst xs), mCollectedSignals := length xs\<rparr>"
  obtain n where a: "add_values xs 0 w = (?w, n)"
    using add_values_inside [OF assms(1,2), of 0] assms(4) by auto
  obtain p where "p \<in> set xs" using assms(3) by (cases xs) auto
  then have i: "inside w (snd p)" using assms(2) by simp
  have last: "mLastTimeCalculated w \<noteq> 0" using i by (simp add: inside_def)
  have u: "u64 (mLastTimeCalculated w + u64 (mWindowSizeMs w * 2)) = mLastTimeCalculated w + 2 * mWindowSizeMs w"
    "u64 (mLastTimeCalculated w + mWindowSizeMs w) = mLastTimeCalculated w + mWindowSizeMs w"
    using i by (simp_all add: inside_def width_simps mult.commute)
  note simps = r_def close_window_def a updateWindow_def last u assms(3,5,6) not_le [THEN iffD2, OF assms(6)]
    initNewWindow_def Let_def collected_avg_def
  show "fst (close_window xs t w)" "mLastAvailable r"
    "mLastMin r = foldl dmin double_max (map fst xs)" "mLastMax r = foldl dmax double_min (map fst xs)"
    "mLastAvg r = ddiv (foldl dadd (Fin 0) (map fst xs)) (of_integer (int (length xs)))"
    "mPreviousLastMin r = mLastMin w" "mPreviousLastMax r = mLastMax w" "mPreviousLastAvg r = mLastAvg w"
    "mPreviousLastAvailable r = mLastAvailable w"
    by (simp_all add: simps)
qed

text \<open>
  When a newly opened window collects at least one finite sample and the next update falls
  into the following window, the update reports a change and publishes the window: the minimum
  is one of the samples and not above any of them, no sample is above the maximum, the average
  is the sum of the samples in arrival order divided by their number, and the values of the
  window before become the previous ones. The maximum is a sample unless every sample is below
  the smallest positive normal number.
\<close>

theorem complete_window:
  assumes "collected [] w" "\<forall>p \<in> set xs. inside w (snd p)" "xs \<noteq> []" "length xs < 2 ^ 32"
    and "mLastTimeCalculated w + mWindowSizeMs w \<le> t" "t < mLastTimeCalculated w + 2 * mWindowSizeMs w"
    and "\<forall>p \<in> set xs. finite_double (fst p)"
  shows "\<exists>r n. close_window xs t w = (True, r, n) \<and> mLastAvailable r \<and>
     (\<exists>p \<in> set xs. deq (mLastMin r) (fst p)) \<and> (\<forall>p \<in> set xs. dle (mLastMin r) (fst p) \<and> dle (fst p) (mLastMax r)) \<and>
     (mLastMax r = double_min \<or> mLastMax r \<in> fst ` set xs) \<and>
     mLastAvg r = ddiv (foldl dadd (Fin 0) (map fst xs)) (of_integer (int (length xs))) \<and>
     mPreviousLastMin r = mLastMin w \<and> mPreviousLastMax r = mLastMax w \<and>
     mPreviousLastAvg r = mLastAvg w \<and> mPreviousLastAvailable r = mLastAvailable w"
proof -
  note v = close_window_values [OF assms(1-6)]
  have nn: "\<forall>v \<in> set (map fst xs). \<not> isnan v" using assms(7) by (auto simp: finite_double_def)
  have fin: "\<forall>v \<in> set (map fst xs). finite_double v" "map fst xs \<noteq> []" using assms(3,7) by auto
  note lo = foldl_dmin [OF not_nan_double_max(1) nn] and hi = foldl_dmax [OF not_nan_double_max(2) nn]
  obtain b r n where c: "close_window xs t w = (b, r, n)" by (metis prod_cases3)
  show ?thesis
    using v lo hi foldl_dmin_member [OF fin(2,1)] unfolding c by auto
qed

text \<open>
  The running maximum starts from \<open>std::numeric_limits<double>::min ()\<close>, which is the
  smallest positive normal number and not the lowest value: if every sample of a window is
  negative, the published maximum is that positive number, which is no sample and above all.
\<close>

theorem negative_window_maximum:
  assumes "collected [] w" "\<forall>p \<in> set xs. inside w (snd p)" "xs \<noteq> []" "length xs < 2 ^ 32"
    and "mLastTimeCalculated w + mWindowSizeMs w \<le> t" "t < mLastTimeCalculated w + 2 * mWindowSizeMs w"
    and "\<forall>p \<in> set xs. dlt (fst p) (Fin 0)"
  shows "mLastMax (fst (snd (close_window xs t w))) = double_min \<and>
     (\<forall>p \<in> set xs. dlt (fst p) (mLastMax (fst (snd (close_window xs t w)))))"
proof -
  have pos: "dlt (Fin 0) double_min" by (simp add: double_min_def)
  have neg: "dlt v double_min" if "v \<in> set (map fst xs)" for v
    using assms(7) that pos by (auto intro: dlt_trans)
  have "\<forall>v \<in> set vs. dlt v double_min \<Longrightarrow> foldl dmax double_min vs = double_min" for vs
    by (induction vs) (auto simp: dmax_def dest: dlt_asym)
  then have "foldl dmax double_min (map fst xs) = double_min" using neg by blast
  then show ?thesis using close_window_values(4) [OF assms(1-6)] neg by auto
qed

text \<open>
  After an update at time \<open>t\<close> the open window contains \<open>t\<close>, has moved forward by a
  whole number of window lengths, and the engine's next wake-up is not after its end, provided
  fewer than \<open>2 ^ 32\<close> windows passed and the times do not come near the end of 64 bits.
\<close>

theorem updateWindow_contains:
  assumes "0 < mWindowSizeMs w" "mLastTimeCalculated w \<le> t" "0 < t"
    and "t - mLastTimeCalculated w < 2 ^ 32 * mWindowSizeMs w" "t + 2 * mWindowSizeMs w < 2 ^ 64"
  shows "\<exists>changed r n'. updateWindow t n w = (changed, r, n') \<and>
     mLastTimeCalculated r \<le> t \<and> t < mLastTimeCalculated r + mWindowSizeMs w \<and>
     (mLastTimeCalculated w \<noteq> 0 \<longrightarrow>
        (\<exists>k. mLastTimeCalculated r = mLastTimeCalculated w + k * mWindowSizeMs w)) \<and>
     n' = min n (mLastTimeCalculated r + mWindowSizeMs w)"
proof -
  have init: "mLastTimeCalculated (fst (initNewWindow t n v)) =
        mLastTimeCalculated v + (t - mLastTimeCalculated v) div mWindowSizeMs w * mWindowSizeMs w"
      "snd (initNewWindow t n v) = min n (mLastTimeCalculated (fst (initNewWindow t n v)) + mWindowSizeMs w)"
      "mLastTimeCalculated (fst (initNewWindow t n v)) \<le> t"
      "t < mLastTimeCalculated (fst (initNewWindow t n v)) + mWindowSizeMs w"
    if v: "mWindowSizeMs v = mWindowSizeMs w" "mLastTimeCalculated v = mLastTimeCalculated w \<or> mLastTimeCalculated v = t" for v
  proof -
    let ?l = "mLastTimeCalculated v" and ?s = "mWindowSizeMs w"
    have l: "?l \<le> t" "t < 2 ^ 64" using v(2) assms(2,5) by auto
    have q: "(t - ?l) div ?s < 2 ^ 32"
      using v(2) assms(1,4) by (auto intro: div_less_iff_less_mult [THEN iffD2])
    have m: "(t - ?l) div ?s * ?s \<le> t - ?l" by simp
    have "u64 ((t - ?l) div ?s * ?s) = (t - ?l) div ?s * ?s" "u64 (?l + (t - ?l) div ?s * ?s) = ?l + (t - ?l) div ?s * ?s"
      using m l by (intro u64_id; linarith)+
    then have e: "mLastTimeCalculated (fst (initNewWindow t n v)) = ?l + (t - ?l) div ?s * ?s"
      using l q v(1) by (simp add: initNewWindow_def Let_def sub64_id u32_id)
    have "?l + (t - ?l) div ?s * ?s + ?s < 2 ^ 64" using m l assms(5) by linarith
    then show "mLastTimeCalculated (fst (initNewWindow t n v)) = ?l + (t - ?l) div ?s * ?s"
      "snd (initNewWindow t n v) = min n (mLastTimeCalculated (fst (initNewWindow t n v)) + ?s)"
      using e v(1) by (simp_all add: initNewWindow_def Let_def width_simps)
    show "mLastTimeCalculated (fst (initNewWindow t n v)) \<le> t"
      "t < mLastTimeCalculated (fst (initNewWindow t n v)) + ?s"
      using m l mod_less_divisor [OF assms(1), of "t - ?l"] div_mult_mod_eq [of "t - ?l" ?s] unfolding e
      by linarith+
  qed
  have u: "u64 (mLastTimeCalculated w + u64 (mWindowSizeMs w * 2)) = mLastTimeCalculated w + 2 * mWindowSizeMs w"
    "u64 (mLastTimeCalculated w + mWindowSizeMs w) = mLastTimeCalculated w + mWindowSizeMs w"
    using assms(2,5) by (simp_all add: width_simps mult.commute)
  show ?thesis
  proof (cases "mLastTimeCalculated w = 0 \<or> mLastTimeCalculated w + mWindowSizeMs w \<le> t")
    case True
    have "\<exists>v. updateWindow t n w = (True, initNewWindow t n v) \<and> mWindowSizeMs v = mWindowSizeMs w \<and>
        mLastTimeCalculated v = (if mLastTimeCalculated w = 0 then t else mLastTimeCalculated w)"
      using True unfolding updateWindow_def u
      by (cases "mLastTimeCalculated w = 0"; cases "mLastTimeCalculated w + 2 * mWindowSizeMs w \<le> t")
         (simp_all add: Let_def, (intro impI exI conjI refl | simp)+)
    then obtain v where v: "updateWindow t n w = (True, initNewWindow t n v)" "mWindowSizeMs v = mWindowSizeMs w"
      "mLastTimeCalculated v = (if mLastTimeCalculated w = 0 then t else mLastTimeCalculated w)"
      by blast
    then show ?thesis
      using init [of v] by (cases "initNewWindow t n v") (auto split: if_splits)
  next
    case False
    then show ?thesis using assms(2) unfolding updateWindow_def u by (auto intro: exI [of _ 0])
  qed
qed

section \<open>Witnesses\<close>

definition sample_window :: FixedTimeWindowFunctionData where
  "sample_window = fst (initNewWindow 1000 0 ((fixed_window 100)\<lparr>mLastTimeCalculated := 1000\<rparr>))"

lemma sample_window_facts:
  "collected [] sample_window" "mLastTimeCalculated sample_window = 1000" "mWindowSizeMs sample_window = 100"
  by (simp_all add: sample_window_def fixed_window_def) (simp add: initNewWindow_def Let_def sub64_id u64_id u32_id)

lemma finite_small: "\<bar>q\<bar> \<le> (10::rat) \<Longrightarrow> finite_double (Fin q)"
proof -
  assume q: "\<bar>q\<bar> \<le> 10"
  define M where "M = (2 - 1 / 2 ^ 52) * (2::rat) ^ 1023"
  have "(10::rat) \<le> (2 - 1 / 2 ^ 52) * 2 ^ 4" by simp
  also have "(2 - 1 / 2 ^ 52) * 2 ^ 4 \<le> (2 - 1 / 2 ^ 52) * (2::rat) ^ 1023"
    by (intro mult_left_mono power_increasing) simp_all
  finally have "10 \<le> M" by (simp only: M_def)
  moreover have m: "double_max = Fin M" by (simp only: double_max_def M_def)
  ultimately show ?thesis using q unfolding finite_double_def m by auto
qed

theorem complete_window_witness:
  "\<exists>r n. close_window [(Fin 3, 1010), (Fin (- 2), 1050)] 1120 sample_window = (True, r, n) \<and> mLastAvailable r \<and>
     mLastAvg r = ddiv (foldl dadd (Fin 0) [Fin 3, Fin (- 2)]) (of_integer 2)"
  using complete_window [of sample_window "[(Fin 3, 1010), (Fin (- 2), 1050)]" 1120]
  by (auto simp: sample_window_facts inside_def finite_small)

theorem negative_window_maximum_witness:
  "mLastMax (fst (snd (close_window [(Fin (- 2), 1010), (Fin (- 5), 1050)] 1120 sample_window))) = double_min"
  using negative_window_maximum [of sample_window "[(Fin (- 2), 1010), (Fin (- 5), 1050)]" 1120]
  by (simp add: sample_window_facts inside_def)

theorem updateWindow_contains_witness:
  "\<exists>changed r n'. updateWindow 1730 5000 sample_window = (changed, r, n') \<and>
     mLastTimeCalculated r \<le> 1730 \<and> 1730 < mLastTimeCalculated r + 100"
  using updateWindow_contains [of sample_window 1730 5000]
  by (auto simp: sample_window_facts)

end
