(* ===== verification/HistoryBuffer.thy ===== *)
theory HistoryBuffer
  imports WindowFunction
begin

text \<open>
  The history buffers of the inspection engine: \<open>SignalHistoryBuffer\<close> and
  \<open>CanFrameHistoryBuffer\<close>, ring buffers of samples that carry, per condition, whether the
  condition consumed them. Recording and collecting work on one buffer here; the engine theory
  selects the buffer. The abstract view of a ring is the list of its samples, newest first.
\<close>

section \<open>Ring positions\<close>

definition ring_prev :: "nat \<Rightarrow> nat \<Rightarrow> nat" where
  "ring_prev cap idx = (if idx = 0 then cap - 1 else idx - 1)"

definition ring_next :: "nat \<Rightarrow> nat \<Rightarrow> nat" where
  "ring_next cap idx = (if idx + 1 \<ge> cap then 0 else idx + 1)"

definition ring_index :: "nat \<Rightarrow> nat \<Rightarrow> nat \<Rightarrow> nat" where
  "ring_index cap idx i = (if i \<le> idx then idx - i else idx + cap - i)"

text \<open>The \<open>n\<close> newest samples, newest first.\<close>

definition ring_view :: "nat \<Rightarrow> nat \<Rightarrow> nat \<Rightarrow> 'a list \<Rightarrow> 'a list" where
  "ring_view cap idx n xs = map (\<lambda>i. xs ! ring_index cap idx i) [0 ..< n]"

lemma length_ring_view [simp]: "length (ring_view cap idx n xs) = n"
  by (simp add: ring_view_def)

lemma ring_index_less: "idx < cap \<Longrightarrow> i < cap \<Longrightarrow> ring_index cap idx i < cap"
  by (auto simp: ring_index_def)

lemma ring_index_inj: "idx < cap \<Longrightarrow> i < cap \<Longrightarrow> j < cap \<Longrightarrow> ring_index cap idx i = ring_index cap idx j \<Longrightarrow> i = j"
  by (auto simp: ring_index_def split: if_splits)

lemma ring_prev_less: "idx < cap \<Longrightarrow> ring_prev cap idx < cap"
  by (auto simp: ring_prev_def)

lemma ring_next_less: "0 < cap \<Longrightarrow> ring_next cap idx < cap"
  by (auto simp: ring_next_def)

lemma ring_prev_next: "idx < cap \<Longrightarrow> ring_prev cap (ring_next cap idx) = idx"
  by (auto simp: ring_prev_def ring_next_def)

lemma ring_index_Suc: "idx < cap \<Longrightarrow> Suc i < cap \<Longrightarrow> ring_index cap idx (Suc i) = ring_index cap (ring_prev cap idx) i"
  by (auto simp: ring_index_def ring_prev_def)

lemma ring_view_Suc:
  "idx < cap \<Longrightarrow> n < cap \<Longrightarrow> ring_view cap idx (Suc n) xs = xs ! idx # ring_view cap (ring_prev cap idx) n xs"
  unfolding ring_view_def
  by (simp add: map_upt_Suc ring_index_Suc ring_index_def [of cap idx 0] del: upt_Suc)

lemma ring_view_update_other:
  assumes "idx < cap" "n \<le> cap" "\<And>i. i < n \<Longrightarrow> ring_index cap idx i \<noteq> j"
  shows "ring_view cap idx n (xs[j := s]) = ring_view cap idx n xs"
  using assms(3) by (auto simp: ring_view_def) (metis nth_list_update_neq)

lemma ring_view_rest:
  assumes "idx < cap" "n < cap"
  shows "ring_view cap (ring_prev cap idx) n (xs[idx := s]) = ring_view cap (ring_prev cap idx) n xs"
proof (rule ring_view_update_other)
  fix i assume "i < n"
  then have "Suc i < cap" using assms(2) by simp
  then show "ring_index cap (ring_prev cap idx) i \<noteq> idx"
    using ring_index_inj [OF assms(1), of "Suc i" 0] ring_index_Suc [OF assms(1)] assms(1)
    by (auto simp: ring_index_def [of cap idx 0])
qed (use assms ring_prev_less in auto)

text \<open>Writing the slot after the current one makes the new sample the head of the view.\<close>

lemma ring_view_push:
  assumes "idx < cap" "cap \<le> length xs"
  shows "ring_view cap (ring_next cap idx) (min (Suc c) cap) (xs[ring_next cap idx := s]) =
     take cap (s # ring_view cap idx (min c cap) xs)"
proof -
  let ?j = "ring_next cap idx"
  obtain m where m: "cap = Suc m" using assms(1) by (cases cap) auto
  have j: "?j < cap" using assms by (intro ring_next_less) simp
  have "ring_view cap ?j (min (Suc c) cap) (xs[?j := s]) =
      s # ring_view cap idx (min c m) (xs[?j := s])"
    using ring_view_Suc [OF j, of "min c m" "xs[?j := s]"] ring_prev_next [OF assms(1)] j assms(2)
    by (simp add: m less_Suc_eq_le)
  also have "ring_view cap idx (min c m) (xs[?j := s]) = ring_view cap idx (min c m) xs"
    using ring_view_rest [OF j, of "min c m" xs s] ring_prev_next [OF assms(1)] by (simp add: m less_Suc_eq_le)
  also have "ring_view cap idx (min c m) xs = take m (ring_view cap idx (min c cap) xs)"
    by (cases "c \<le> m") (simp_all add: ring_view_def m take_map)
  finally show ?thesis by (simp add: m)
qed

section \<open>The interface of a history\<close>

text \<open>
  What the engine relies on: recording a sample puts it in front of the history and drops the
  oldest one once the capacity is reached. \<open>room\<close> is the number of samples that can still be
  recorded before the 32-bit sample counter wraps around.
\<close>

locale history =
  fixes ok :: "'b \<Rightarrow> bool" and capacity :: "'b \<Rightarrow> nat" and room :: "'b \<Rightarrow> nat"
    and newest :: "'b \<Rightarrow> 'o list" and stored :: "'b \<Rightarrow> 's \<Rightarrow> 'o"
    and admissible :: "'s \<Rightarrow> bool" and put :: "'s \<Rightarrow> 'b \<Rightarrow> 'b"
  assumes put_ok: "ok b \<Longrightarrow> admissible s \<Longrightarrow> 0 < room b \<Longrightarrow> ok (put s b)"
    and put_capacity: "ok b \<Longrightarrow> admissible s \<Longrightarrow> capacity (put s b) = capacity b"
    and put_stored: "ok b \<Longrightarrow> admissible s \<Longrightarrow> stored (put s b) = stored b"
    and put_room: "ok b \<Longrightarrow> admissible s \<Longrightarrow> 0 < room b \<Longrightarrow> room (put s b) = room b - 1"
    and put_newest: "ok b \<Longrightarrow> admissible s \<Longrightarrow> 0 < room b \<Longrightarrow>
      newest (put s b) = take (capacity b) (stored b s # newest b)"
    and newest_bounded: "ok b \<Longrightarrow> length (newest b) \<le> capacity b"
begin

lemma fold_ok:
  "ok b \<Longrightarrow> \<forall>s \<in> set xs. admissible s \<Longrightarrow> length xs \<le> room b \<Longrightarrow>
   ok (fold put xs b) \<and> capacity (fold put xs b) = capacity b"
  by (induction xs arbitrary: b) (auto simp: put_ok put_capacity put_room)

lemma fold_newest:
  "ok b \<Longrightarrow> \<forall>s \<in> set xs. admissible s \<Longrightarrow> length xs \<le> room b \<Longrightarrow>
   newest (fold put xs b) = take (capacity b) (map (stored b) (rev xs) @ newest b)"
proof (induction xs arbitrary: b)
  case Nil
  then show ?case using newest_bounded by simp
next
  case (Cons x xs)
  then have "newest (fold put xs (put x b)) =
      take (capacity b) (map (stored b) (rev xs) @ take (capacity b) (stored b x # newest b))"
    by (simp add: put_ok put_capacity put_room put_newest put_stored)
  also have "\<dots> = take (capacity b) (map (stored b) (rev xs) @ stored b x # newest b)"
    by (simp only: take_append take_take) simp
  finally show ?case by simp
qed

text \<open>As long as no more samples than the capacity arrived, none is lost.\<close>

lemma fold_all_kept:
  "ok b \<Longrightarrow> newest b = [] \<Longrightarrow> \<forall>s \<in> set xs. admissible s \<Longrightarrow> length xs \<le> room b \<Longrightarrow> length xs \<le> capacity b \<Longrightarrow>
   newest (fold put xs b) = map (stored b) (rev xs)"
  by (simp add: fold_newest)

end

section \<open>The signal history buffer\<close>

record SignalSample =
  ssConsumed :: bitset
  ssValue :: double
  ssTimestamp :: nat

definition default_SignalSample :: SignalSample where
  "default_SignalSample = \<lparr>ssConsumed = 0, ssValue = Fin 0, ssTimestamp = 0\<rparr>"

record SignalHistoryBuffer =
  sbMinimumSampleIntervalMs :: nat
  sbBuffer :: "SignalSample list"
  sbSize :: nat
  sbCurrentPosition :: nat
  sbCounter :: nat
  sbLastSample :: nat
  sbWindowFunctionData :: "FixedTimeWindowFunctionData list"
  sbConditionsThatEvaluateOnThisSignal :: bitset

definition signal_history_buffer :: "nat \<Rightarrow> nat \<Rightarrow> SignalHistoryBuffer" where
  "signal_history_buffer sizeIn sampleInterval =
     \<lparr>sbMinimumSampleIntervalMs = sampleInterval, sbBuffer = [], sbSize = sizeIn, sbCurrentPosition = sub32 sizeIn 1,
      sbCounter = 0, sbLastSample = 0, sbWindowFunctionData = [], sbConditionsThatEvaluateOnThisSignal = 0\<rparr>"

text \<open>Windows are referred to by their index; \<open>None\<close> is the null pointer.\<close>

definition getFixedWindow :: "nat \<Rightarrow> SignalHistoryBuffer \<Rightarrow> nat option" where
  "getFixedWindow windowSizeMs buf =
     (if windowSizeMs = 0 then None
      else find_index (\<lambda>w. mWindowSizeMs w = windowSizeMs) (sbWindowFunctionData buf))"

definition addFixedWindow :: "nat \<Rightarrow> SignalHistoryBuffer \<Rightarrow> SignalHistoryBuffer" where
  "addFixedWindow windowSizeMs buf =
     (if windowSizeMs = 0 then buf
      else case getFixedWindow windowSizeMs buf of
             Some i \<Rightarrow> buf
           | None \<Rightarrow> buf\<lparr>sbWindowFunctionData := sbWindowFunctionData buf @ [fixed_window windowSizeMs]\<rparr>)"

definition signal_accepts :: "nat \<Rightarrow> SignalHistoryBuffer \<Rightarrow> bool" where
  "signal_accepts receiveTime buf \<longleftrightarrow>
     sbSize buf > 0 \<and> sbSize buf \<le> length (sbBuffer buf) \<and>
     (sbMinimumSampleIntervalMs buf = 0 \<or> receiveTime \<ge> u64 (sbLastSample buf + sbMinimumSampleIntervalMs buf))"

definition record_signal :: "nat \<Rightarrow> double \<Rightarrow> SignalHistoryBuffer \<Rightarrow> SignalHistoryBuffer" where
  "record_signal receiveTime v buf =
     (let pos = u32 (sbCurrentPosition buf + 1);
          pos = (if pos \<ge> sbSize buf then 0 else pos)
      in buf\<lparr>sbCurrentPosition := pos,
             sbBuffer := (sbBuffer buf)[pos := \<lparr>ssConsumed = setAlreadyConsumed ALL_CONDITIONS False (ssConsumed (sbBuffer buf ! pos)),
                                               ssValue = v, ssTimestamp = receiveTime\<rparr>],
             sbCounter := u32 (sbCounter buf + 1), sbLastSample := receiveTime\<rparr>)"

fun add_to_windows ::
  "double \<Rightarrow> nat \<Rightarrow> nat \<Rightarrow> FixedTimeWindowFunctionData list \<Rightarrow> FixedTimeWindowFunctionData list \<times> nat" where
  "add_to_windows v receiveTime nextTimesOut [] = ([], nextTimesOut)"
| "add_to_windows v receiveTime nextTimesOut (w # ws) =
     (let (w, nextTimesOut) = addValue v receiveTime nextTimesOut w;
          (ws, nextTimesOut) = add_to_windows v receiveTime nextTimesOut ws
      in (w # ws, nextTimesOut))"

text \<open>The body of the loop of \<open>addNewSignal\<close>: the buffer, the next time-out and the conditions to re-evaluate.\<close>

definition add_to_buffer ::
  "nat \<Rightarrow> double \<Rightarrow> nat \<Rightarrow> bitset \<Rightarrow> SignalHistoryBuffer \<Rightarrow> SignalHistoryBuffer \<times> nat \<times> bitset" where
  "add_to_buffer receiveTime v nextTimesOut changed buf =
     (if signal_accepts receiveTime buf
      then let buf = record_signal receiveTime v buf;
               (ws, nextTimesOut) = add_to_windows v receiveTime nextTimesOut (sbWindowFunctionData buf)
           in (buf\<lparr>sbWindowFunctionData := ws\<rparr>, nextTimesOut, changed OR sbConditionsThatEvaluateOnThisSignal buf)
      else (buf, nextTimesOut, changed))"

section \<open>The CAN frame history buffer\<close>

record CanFrameSample =
  fsConsumed :: bitset
  fsSize :: nat
  fsBuffer :: "nat list"
  fsTimestamp :: nat

definition default_CanFrameSample :: CanFrameSample where
  "default_CanFrameSample =
     \<lparr>fsConsumed = 0, fsSize = 0, fsBuffer = replicate MAX_CAN_FRAME_BYTE_SIZE 0, fsTimestamp = 0\<rparr>"

record CanFrameHistoryBuffer =
  fbFrameID :: nat
  fbChannelID :: nat
  fbMinimumSampleIntervalMs :: nat
  fbBuffer :: "CanFrameSample list"
  fbSize :: nat
  fbCurrentPosition :: nat
  fbCounter :: nat
  fbLastSample :: nat

definition can_frame_history_buffer :: "nat \<Rightarrow> nat \<Rightarrow> nat \<Rightarrow> nat \<Rightarrow> CanFrameHistoryBuffer" where
  "can_frame_history_buffer frameID channelID sizeIn sampleInterval =
     \<lparr>fbFrameID = frameID, fbChannelID = channelID, fbMinimumSampleIntervalMs = sampleInterval, fbBuffer = [],
      fbSize = sizeIn, fbCurrentPosition = sub32 sizeIn 1, fbCounter = 0, fbLastSample = 0\<rparr>"

definition frame_accepts :: "nat \<Rightarrow> CanFrameHistoryBuffer \<Rightarrow> bool" where
  "frame_accepts receiveTime buf \<longleftrightarrow>
     fbSize buf > 0 \<and> fbSize buf \<le> length (fbBuffer buf) \<and>
     (fbMinimumSampleIntervalMs buf = 0 \<or> receiveTime \<ge> u64 (fbLastSample buf + fbMinimumSampleIntervalMs buf))"

text \<open>
  The stored size is limited by the number of samples of the ring buffer, as the source has it,
  and not by the eight bytes of a frame. A copy beyond the frame's bytes is out of bounds.
\<close>

definition record_frame ::
  "nat \<Rightarrow> nat list \<Rightarrow> nat \<Rightarrow> CanFrameHistoryBuffer \<Rightarrow> CanFrameHistoryBuffer ub_result" where
  "record_frame receiveTime bytes frameSize buf =
     (let pos = u32 (fbCurrentPosition buf + 1);
          pos = (if pos \<ge> fbSize buf then 0 else pos);
          n = min frameSize (u8 (length (fbBuffer buf)));
          slot = fbBuffer buf ! pos
      in if n \<le> length (fsBuffer slot) \<and> n \<le> length bytes
         then Inr (buf\<lparr>fbCurrentPosition := pos,
                 fbBuffer := (fbBuffer buf)[pos :=
                    \<lparr>fsConsumed = setAlreadyConsumed ALL_CONDITIONS False (fsConsumed slot), fsSize = n,
                     fsBuffer = take n bytes @ drop n (fsBuffer slot), fsTimestamp = receiveTime\<rparr>],
                 fbCounter := u32 (fbCounter buf + 1), fbLastSample := receiveTime\<rparr>)
         else Inl OutOfBounds)"

section \<open>Collecting\<close>

definition to_int32 :: "nat \<Rightarrow> int" where
  "to_int32 n = (if u32 n < 2 ^ 31 then int (u32 n) else int (u32 n) - 2 ^ 32)"

text \<open>
  The collection loop that \<open>collectLastSignals\<close> and \<open>collectLastCanFrames\<close> share in text: it
  walks \<open>n\<close> samples back from a position, hands out those to be taken, marks them and keeps
  the newest timestamp. \<open>pos\<close> is an \<open>int\<close> of the source.
\<close>

fun collect_loop ::
  "('s \<Rightarrow> bool) \<Rightarrow> ('s \<Rightarrow> 'o) \<Rightarrow> ('s \<Rightarrow> 's) \<Rightarrow> ('s \<Rightarrow> nat) \<Rightarrow> nat \<Rightarrow> nat \<Rightarrow> int \<Rightarrow> 's list \<Rightarrow> nat \<Rightarrow> 'o list \<Rightarrow>
   ('s list \<times> nat \<times> 'o list) ub_result" where
  "collect_loop taken out mark stamp bufSize 0 pos xs newestTime acc = Inr (xs, newestTime, acc)"
| "collect_loop taken out mark stamp bufSize (Suc n) pos xs newestTime acc =
     (let pos = (if pos < 0 then to_int32 bufSize - 1 else pos);
          pos = (if pos \<ge> to_int32 bufSize then 0 else pos);
          i = nat (pos mod 2 ^ 32)
      in ub_bind (read_at xs i) (\<lambda>s.
           collect_loop taken out mark stamp bufSize n (pos - 1)
             (if taken s then xs[i := mark s] else xs)
             (max newestTime (stamp s))
             (if taken s then acc @ [out s] else acc)))"

definition collect_signals ::
  "bool \<Rightarrow> nat \<Rightarrow> nat \<Rightarrow> nat \<Rightarrow> nat \<Rightarrow> CollectedSignal list \<Rightarrow> SignalHistoryBuffer \<Rightarrow>
   (SignalHistoryBuffer \<times> nat \<times> CollectedSignal list) ub_result" where
  "collect_signals onlyOnce signalID maxNumber conditionId newestTime acc buf =
     ub_bind
       (collect_loop (\<lambda>s. \<not> bit (ssConsumed s) conditionId \<or> \<not> onlyOnce)
          (\<lambda>s. collected_signal signalID (ssTimestamp s) (ssValue s))
          (\<lambda>s. s\<lparr>ssConsumed := setAlreadyConsumed conditionId True (ssConsumed s)\<rparr>) ssTimestamp
          (sbSize buf) (min maxNumber (sbCounter buf)) (to_int32 (sbCurrentPosition buf)) (sbBuffer buf) newestTime acc)
       (\<lambda>(xs, newestTime, acc). Inr (buf\<lparr>sbBuffer := xs\<rparr>, newestTime, acc))"

definition collect_frames ::
  "bool \<Rightarrow> nat \<Rightarrow> nat \<Rightarrow> nat \<Rightarrow> CollectedCanRawFrame list \<Rightarrow> CanFrameHistoryBuffer \<Rightarrow>
   (CanFrameHistoryBuffer \<times> nat \<times> CollectedCanRawFrame list) ub_result" where
  "collect_frames onlyOnce maxNumber conditionId newestTime acc buf =
     ub_bind
       (collect_loop (\<lambda>s. \<not> bit (fsConsumed s) conditionId \<or> \<not> onlyOnce)
          (\<lambda>s. \<lparr>cfFrameID = fbFrameID buf, cfChannelID = fbChannelID buf, cfReceiveTime = fsTimestamp s,
                cfData = fsBuffer s, cfSize = fsSize s\<rparr>)
          (\<lambda>s. s\<lparr>fsConsumed := setAlreadyConsumed conditionId True (fsConsumed s)\<rparr>) fsTimestamp
          (fbSize buf) (min maxNumber (fbCounter buf)) (to_int32 (fbCurrentPosition buf)) (fbBuffer buf) newestTime acc)
       (\<lambda>(xs, newestTime, acc). Inr (buf\<lparr>fbBuffer := xs\<rparr>, newestTime, acc))"

text \<open>The collection loop visits exactly the \<open>n\<close> newest samples of the ring and nothing else.\<close>

definition collected_slot :: "('s \<Rightarrow> bool) \<Rightarrow> ('s \<Rightarrow> 's) \<Rightarrow> 's \<Rightarrow> 's" where
  "collected_slot taken mark s = (if taken s then mark s else s)"

lemma to_int32_small: "n < 2 ^ 31 \<Longrightarrow> to_int32 n = int n"
  by (simp add: to_int32_def width_simps)

lemma collect_loop_step:
  assumes "cap \<le> length xs" "cap < 2 ^ 31" "idx < cap"
    and "(if pos < 0 then int cap - 1 else if pos \<ge> int cap then 0 else pos) = int idx"
  shows "collect_loop taken out mark stamp cap (Suc n) pos xs nt acc =
    collect_loop taken out mark stamp cap n (int idx - 1) (if taken (xs ! idx) then xs[idx := mark (xs ! idx)] else xs)
      (max nt (stamp (xs ! idx))) (if taken (xs ! idx) then acc @ [out (xs ! idx)] else acc)"
proof -
  let ?c = "to_int32 cap"
  have c: "?c = int cap" using assms(2) by (rule to_int32_small)
  have p: "(let p = if pos < 0 then ?c - 1 else pos in if p \<ge> ?c then 0 else p) = int idx"
    using assms(3,4) by (auto simp: c Let_def split: if_splits)
  have i: "nat (int idx mod 2 ^ 32) = idx" using assms(2,3) by simp
  show ?thesis using p i assms(1,3) by (simp add: Let_def)
qed

text \<open>The slots after the first step are not the first one, so what was marked there stays.\<close>

lemma ring_rest:
  assumes "idx < cap" and "n < cap" and "i < n"
  shows "ring_index cap (ring_prev cap idx) i \<noteq> idx"
    and "(if b then xs[idx := x] else xs) ! ring_index cap (ring_prev cap idx) i = xs ! ring_index cap (ring_prev cap idx) i"
proof -
  have "ring_index cap idx 0 = idx" by (simp add: ring_index_def)
  then show ne: "ring_index cap (ring_prev cap idx) i \<noteq> idx"
    using ring_index_inj [OF assms(1), of "Suc i" 0] ring_index_Suc [OF assms(1), of i] assms(2,3) by auto
  show "(if b then xs[idx := x] else xs) ! ring_index cap (ring_prev cap idx) i = xs ! ring_index cap (ring_prev cap idx) i"
    using nth_list_update_neq [OF not_sym [OF ne], of xs x] by simp
qed

lemma collect_loop_spec:
  assumes "cap \<le> length xs" "cap < 2 ^ 31" "n \<le> cap" "idx < cap"
    and "(if pos < 0 then int cap - 1 else if pos \<ge> int cap then 0 else pos) = int idx"
  shows "\<exists>xs'. collect_loop taken out mark stamp cap n pos xs nt acc =
       Inr (xs', foldl max nt (map stamp (ring_view cap idx n xs)), acc @ map out (filter taken (ring_view cap idx n xs))) \<and>
     length xs' = length xs \<and>
     (\<forall>i < n. xs' ! ring_index cap idx i = collected_slot taken mark (xs ! ring_index cap idx i)) \<and>
     (\<forall>j. (\<forall>i < n. j \<noteq> ring_index cap idx i) \<longrightarrow> xs' ! j = xs ! j)"
  using assms
proof (induction n arbitrary: idx pos xs nt acc)
  case 0
  then show ?case by (simp add: ring_view_def)
next
  case (Suc n)
  let ?s = "xs ! idx"
  let ?xs = "if taken ?s then xs[idx := mark ?s] else xs" and ?acc = "if taken ?s then acc @ [out ?s] else acc"
  note step = collect_loop_step [OF Suc.prems(1,2,4,5)]
  let ?p = "ring_prev cap idx"
  have "?p < cap" "(if int idx - 1 < 0 then int cap - 1 else if int idx - 1 \<ge> int cap then 0 else int idx - 1) = int ?p"
    using Suc.prems(4) by (auto simp: ring_prev_def)
  moreover have "cap \<le> length ?xs" "n \<le> cap" using Suc.prems(1,3) by simp_all
  ultimately obtain xs' where IH: "collect_loop taken out mark stamp cap n (int idx - 1) ?xs (max nt (stamp ?s)) ?acc =
       Inr (xs', foldl max (max nt (stamp ?s)) (map stamp (ring_view cap ?p n ?xs)), ?acc @ map out (filter taken (ring_view cap ?p n ?xs)))"
     "length xs' = length ?xs"
     "\<forall>i < n. xs' ! ring_index cap ?p i = collected_slot taken mark (?xs ! ring_index cap ?p i)"
     "\<forall>j. (\<forall>i < n. j \<noteq> ring_index cap ?p i) \<longrightarrow> xs' ! j = ?xs ! j"
    using Suc.IH [of ?xs ?p "int idx - 1" "max nt (stamp ?s)" ?acc] Suc.prems(2) by blast
  have n: "n < cap" using Suc.prems(3) by simp
  have rest: "ring_view cap ?p n ?xs = ring_view cap ?p n xs"
    using ring_view_rest [OF Suc.prems(4) n, of xs "mark ?s"] by simp
  have view: "ring_view cap idx (Suc n) xs = ?s # ring_view cap ?p n xs"
    by (rule ring_view_Suc [OF Suc.prems(4) n])
  have idx0: "ring_index cap idx 0 = idx" by (simp add: ring_index_def)
  note other = ring_rest [OF Suc.prems(4) n]
  have sl: "xs' ! ring_index cap idx i = collected_slot taken mark (xs ! ring_index cap idx i)" if "i < Suc n" for i
  proof (cases i)
    case 0
    have "xs' ! idx = ?xs ! idx" using IH(4) other(1) by metis
    also have "\<dots> = collected_slot taken mark ?s" using Suc.prems(1,4) by (simp add: collected_slot_def)
    finally show ?thesis by (simp add: 0 idx0)
  next
    case (Suc k)
    then have k: "k < n" "ring_index cap idx i = ring_index cap ?p k"
      using that n ring_index_Suc [OF Suc.prems(4), of k] by simp_all
    have "xs' ! ring_index cap ?p k = collected_slot taken mark (?xs ! ring_index cap ?p k)"
      using IH(3) k(1) by blast
    then show ?thesis unfolding k(2) other(2) [OF k(1)] .
  qed
  have un: "xs' ! j = xs ! j" if j: "\<forall>i < Suc n. j \<noteq> ring_index cap idx i" for j
  proof -
    have ne: "idx \<noteq> j" using j idx0 by (metis zero_less_Suc)
    have "\<forall>i < n. j \<noteq> ring_index cap ?p i"
      using j ring_index_Suc [OF Suc.prems(4)] n by (metis Suc_less_eq less_trans_Suc)
    then have "xs' ! j = ?xs ! j" using IH(4) by blast
    then show ?thesis using nth_list_update_neq [OF ne, of xs "mark ?s"] by simp
  qed
  show ?case unfolding step IH(1) rest view using sl un IH(2) by auto
qed

lemma collect_loop_view:
  assumes "cap \<le> length xs" "cap < 2 ^ 31" "n \<le> m" "m \<le> cap" "idx < cap"
  shows "\<exists>xs'. collect_loop taken out mark stamp cap n (to_int32 idx) xs nt acc =
       Inr (xs', foldl max nt (map stamp (take n (ring_view cap idx m xs))), acc @ map out (filter taken (take n (ring_view cap idx m xs)))) \<and>
     length xs' = length xs \<and>
     ring_view cap idx m xs' = map (collected_slot taken mark) (take n (ring_view cap idx m xs)) @ drop n (ring_view cap idx m xs)"
proof -
  have pos: "(if to_int32 idx < 0 then int cap - 1 else if to_int32 idx \<ge> int cap then 0 else to_int32 idx) = int idx"
    using assms(2,5) by (simp add: to_int32_small)
  have v: "ring_view cap idx n xs = take n (ring_view cap idx m xs)"
    using assms(3) by (simp add: ring_view_def take_map)
  obtain xs' where r: "collect_loop taken out mark stamp cap n (to_int32 idx) xs nt acc =
       Inr (xs', foldl max nt (map stamp (ring_view cap idx n xs)), acc @ map out (filter taken (ring_view cap idx n xs)))"
     "length xs' = length xs"
     "\<forall>i < n. xs' ! ring_index cap idx i = collected_slot taken mark (xs ! ring_index cap idx i)"
     "\<forall>j. (\<forall>i < n. j \<noteq> ring_index cap idx i) \<longrightarrow> xs' ! j = xs ! j"
    using collect_loop_spec [OF assms(1,2) le_trans [OF assms(3,4)] assms(5) pos] by blast
  have "ring_view cap idx m xs' = map (collected_slot taken mark) (take n (ring_view cap idx m xs)) @ drop n (ring_view cap idx m xs)"
  proof (rule nth_equalityI)
    fix i assume "i < length (ring_view cap idx m xs')"
    then have i: "i < m" by simp
    show "ring_view cap idx m xs' ! i = (map (collected_slot taken mark) (take n (ring_view cap idx m xs)) @ drop n (ring_view cap idx m xs)) ! i"
    proof (cases "i < n")
      case True
      then show ?thesis using r(3) i assms(3) by (simp add: nth_append ring_view_def)
    next
      case False
      then have "\<forall>k < n. ring_index cap idx i \<noteq> ring_index cap idx k"
        using ring_index_inj [OF assms(5), of i] i assms(3,4) by (metis less_le_trans)
      then show ?thesis using r(4) i False assms(3) by (simp add: nth_append ring_view_def)
    qed
  qed (use assms(3) in simp)
  then show ?thesis using r(1,2) unfolding v by blast
qed

section \<open>The buffers are histories\<close>

definition signal_ok :: "SignalHistoryBuffer \<Rightarrow> bool" where
  "signal_ok buf \<longleftrightarrow> 0 < sbSize buf \<and> sbSize buf \<le> length (sbBuffer buf) \<and> sbSize buf < 2 ^ 31 \<and>
     sbCurrentPosition buf < sbSize buf \<and> sbCounter buf < 2 ^ 32"

text \<open>The recorded slots, newest first, and the samples in them.\<close>

definition signal_slots :: "SignalHistoryBuffer \<Rightarrow> SignalSample list" where
  "signal_slots buf = ring_view (sbSize buf) (sbCurrentPosition buf) (min (sbCounter buf) (sbSize buf)) (sbBuffer buf)"

definition signal_samples :: "SignalHistoryBuffer \<Rightarrow> (nat \<times> double) list" where
  "signal_samples buf = map (\<lambda>s. (ssTimestamp s, ssValue s)) (signal_slots buf)"

definition put_signal :: "nat \<times> double \<Rightarrow> SignalHistoryBuffer \<Rightarrow> SignalHistoryBuffer" where
  "put_signal p buf = record_signal (fst p) (snd p) buf"

lemma record_signal_pos:
  "signal_ok buf \<Longrightarrow> record_signal t v buf =
     buf\<lparr>sbCurrentPosition := ring_next (sbSize buf) (sbCurrentPosition buf),
       sbBuffer := (sbBuffer buf)[ring_next (sbSize buf) (sbCurrentPosition buf) := \<lparr>ssConsumed = 0, ssValue = v, ssTimestamp = t\<rparr>],
       sbCounter := u32 (sbCounter buf + 1), sbLastSample := t\<rparr>"
  by (simp add: record_signal_def signal_ok_def ring_next_def Let_def width_simps)

lemma record_signal_slots:
  assumes "signal_ok buf" "sbCounter buf + 1 < 2 ^ 32"
  shows "signal_slots (record_signal t v buf) = take (sbSize buf) (\<lparr>ssConsumed = 0, ssValue = v, ssTimestamp = t\<rparr> # signal_slots buf)"
  using assms ring_view_push [of "sbCurrentPosition buf" "sbSize buf" "sbBuffer buf" "sbCounter buf"]
  by (simp add: record_signal_pos signal_slots_def u32_id) (simp add: signal_ok_def)

lemma record_signal_ok: "signal_ok buf \<Longrightarrow> signal_ok (record_signal t v buf)"
  using u32_less [of "sbCounter buf + 1"]
  by (simp add: record_signal_pos) (simp add: signal_ok_def ring_next_less)

interpretation sh: history signal_ok sbSize "\<lambda>b. 2 ^ 32 - 1 - sbCounter b" signal_samples "\<lambda>b s. s" "\<lambda>s. True" put_signal
proof (unfold_locales, goal_cases)
  case (1 b s)
  then show ?case by (simp add: put_signal_def record_signal_ok)
next
  case (4 b s)
  then show ?case by (simp add: put_signal_def record_signal_pos u32_id)
next
  case (5 b s)
  then show ?case by (simp add: put_signal_def signal_samples_def record_signal_slots take_map take_Cons')
qed (simp_all add: put_signal_def record_signal_pos signal_samples_def signal_slots_def)

definition frame_ok :: "CanFrameHistoryBuffer \<Rightarrow> bool" where
  "frame_ok buf \<longleftrightarrow> 0 < fbSize buf \<and> fbSize buf \<le> length (fbBuffer buf) \<and> fbSize buf < 2 ^ 31 \<and>
     fbCurrentPosition buf < fbSize buf \<and> fbCounter buf < 2 ^ 32 \<and>
     (\<forall>s \<in> set (fbBuffer buf). length (fsBuffer s) = MAX_CAN_FRAME_BYTE_SIZE)"

definition frame_slots :: "CanFrameHistoryBuffer \<Rightarrow> CanFrameSample list" where
  "frame_slots buf = ring_view (fbSize buf) (fbCurrentPosition buf) (min (fbCounter buf) (fbSize buf)) (fbBuffer buf)"

definition frame_samples :: "CanFrameHistoryBuffer \<Rightarrow> (nat \<times> nat list) list" where
  "frame_samples buf = map (\<lambda>s. (fsTimestamp s, take (fsSize s) (fsBuffer s))) (frame_slots buf)"

text \<open>A frame as it arrives: time, the array of eight bytes and the number of bytes used.\<close>

definition frame_fits :: "nat \<times> nat list \<times> nat \<Rightarrow> bool" where
  "frame_fits f \<longleftrightarrow> length (fst (snd f)) = MAX_CAN_FRAME_BYTE_SIZE \<and> snd (snd f) \<le> MAX_CAN_FRAME_BYTE_SIZE"

definition stored_frame :: "CanFrameHistoryBuffer \<Rightarrow> nat \<times> nat list \<times> nat \<Rightarrow> nat \<times> nat list" where
  "stored_frame buf f = (fst f, take (min (snd (snd f)) (u8 (length (fbBuffer buf)))) (fst (snd f)))"

definition put_frame :: "nat \<times> nat list \<times> nat \<Rightarrow> CanFrameHistoryBuffer \<Rightarrow> CanFrameHistoryBuffer" where
  "put_frame f buf = (case record_frame (fst f) (fst (snd f)) (snd (snd f)) buf of Inr b \<Rightarrow> b | Inl _ \<Rightarrow> buf)"

lemma record_frame_pos:
  assumes "frame_ok buf" "frame_fits f"
  shows "record_frame (fst f) (fst (snd f)) (snd (snd f)) buf = Inr (put_frame f buf)"
    and "put_frame f buf =
     (let pos = ring_next (fbSize buf) (fbCurrentPosition buf); n = min (snd (snd f)) (u8 (length (fbBuffer buf))) in
      buf\<lparr>fbCurrentPosition := pos,
       fbBuffer := (fbBuffer buf)[pos := \<lparr>fsConsumed = 0, fsSize = n,
         fsBuffer = take n (fst (snd f)) @ drop n (fsBuffer (fbBuffer buf ! pos)), fsTimestamp = fst f\<rparr>],
       fbCounter := u32 (fbCounter buf + 1), fbLastSample := fst f\<rparr>)"
proof -
  let ?pos = "ring_next (fbSize buf) (fbCurrentPosition buf)"
  have pos: "(if fbSize buf \<le> u32 (fbCurrentPosition buf + 1) then 0 else u32 (fbCurrentPosition buf + 1)) = ?pos"
    using assms(1) by (simp add: frame_ok_def ring_next_def width_simps)
  have "?pos < length (fbBuffer buf)"
    using assms(1) ring_next_less [of "fbSize buf" "fbCurrentPosition buf"] by (simp add: frame_ok_def)
  then have len: "length (fsBuffer (fbBuffer buf ! ?pos)) = MAX_CAN_FRAME_BYTE_SIZE"
    using assms(1) by (simp add: frame_ok_def)
  have n: "min (snd (snd f)) (u8 (length (fbBuffer buf))) \<le> MAX_CAN_FRAME_BYTE_SIZE"
    "length (fst (snd f)) = MAX_CAN_FRAME_BYTE_SIZE" using assms(2) by (auto simp: frame_fits_def)
  have r: "record_frame (fst f) (fst (snd f)) (snd (snd f)) buf = Inr
     (let pos = ring_next (fbSize buf) (fbCurrentPosition buf); n = min (snd (snd f)) (u8 (length (fbBuffer buf))) in
      buf\<lparr>fbCurrentPosition := pos,
       fbBuffer := (fbBuffer buf)[pos := \<lparr>fsConsumed = 0, fsSize = n,
         fsBuffer = take n (fst (snd f)) @ drop n (fsBuffer (fbBuffer buf ! pos)), fsTimestamp = fst f\<rparr>],
       fbCounter := u32 (fbCounter buf + 1), fbLastSample := fst f\<rparr>)"
    using n len unfolding record_frame_def Let_def pos by simp
  then show "put_frame f buf =
     (let pos = ring_next (fbSize buf) (fbCurrentPosition buf); n = min (snd (snd f)) (u8 (length (fbBuffer buf))) in
      buf\<lparr>fbCurrentPosition := pos,
       fbBuffer := (fbBuffer buf)[pos := \<lparr>fsConsumed = 0, fsSize = n,
         fsBuffer = take n (fst (snd f)) @ drop n (fsBuffer (fbBuffer buf ! pos)), fsTimestamp = fst f\<rparr>],
       fbCounter := u32 (fbCounter buf + 1), fbLastSample := fst f\<rparr>)"
    by (simp add: put_frame_def)
  with r show "record_frame (fst f) (fst (snd f)) (snd (snd f)) buf = Inr (put_frame f buf)" by simp
qed

lemma put_frame_slots:
  assumes "frame_ok buf" "frame_fits f" "fbCounter buf + 1 < 2 ^ 32"
  shows "frame_samples (put_frame f buf) = take (fbSize buf) (stored_frame buf f # frame_samples buf)"
proof -
  let ?n = "min (snd (snd f)) (u8 (length (fbBuffer buf)))"
  have t: "?n \<le> length (fst (snd f))"
    using assms(2) by (auto simp: frame_fits_def min_le_iff_disj)
  show ?thesis
    using assms ring_view_push [of "fbCurrentPosition buf" "fbSize buf" "fbBuffer buf" "fbCounter buf"]
    unfolding frame_samples_def frame_slots_def record_frame_pos(2) [OF assms(1,2)] Let_def
    by (simp add: u32_id) (simp add: frame_ok_def stored_frame_def t take_Cons' flip: take_map)
qed

lemma put_frame_ok:
  assumes "frame_ok buf" "frame_fits f"
  shows "frame_ok (put_frame f buf)"
proof -
  let ?pos = "ring_next (fbSize buf) (fbCurrentPosition buf)" and ?n = "min (snd (snd f)) (u8 (length (fbBuffer buf)))"
  have pos: "?pos < fbSize buf" "?pos < length (fbBuffer buf)"
    using assms(1) ring_next_less [of "fbSize buf" "fbCurrentPosition buf"] by (simp_all add: frame_ok_def)
  then have len: "length (fsBuffer (fbBuffer buf ! ?pos)) = MAX_CAN_FRAME_BYTE_SIZE"
    using assms(1) by (simp add: frame_ok_def)
  have "length (take ?n (fst (snd f)) @ drop ?n (fsBuffer (fbBuffer buf ! ?pos))) = MAX_CAN_FRAME_BYTE_SIZE"
    using len assms(2) by (auto simp: frame_fits_def)
  then show ?thesis
    using assms pos set_update_subset_insert [of "fbBuffer buf" ?pos] unfolding record_frame_pos(2) [OF assms(1,2)] Let_def
    by (auto simp: frame_ok_def dest!: subsetD [OF set_update_subset_insert]) (simp add: u32_def)
qed

lemma put_frame_frame [frame_simps]:
  assumes "frame_ok buf" "frame_fits f"
  shows "fbSize (put_frame f buf) = fbSize buf" "length (fbBuffer (put_frame f buf)) = length (fbBuffer buf)"
    "fbCounter (put_frame f buf) = u32 (fbCounter buf + 1)"
  unfolding record_frame_pos(2) [OF assms] by (simp_all add: Let_def)

interpretation fh: history frame_ok fbSize "\<lambda>b. 2 ^ 32 - 1 - fbCounter b" frame_samples stored_frame frame_fits put_frame
proof (unfold_locales, goal_cases)
  case (1 b s)
  then show ?case by (simp add: put_frame_ok)
next
  case (3 b s)
  then show ?case by (simp add: stored_frame_def put_frame_frame fun_eq_iff)
next
  case (4 b s)
  then show ?case by (simp add: put_frame_frame u32_id)
next
  case (5 b s)
  then show ?case by (simp add: put_frame_slots)
qed (simp_all add: put_frame_frame frame_samples_def frame_slots_def)

section \<open>Properties\<close>

text \<open>
  C13. After any sequence of accepted samples a signal buffer holds the newest of them, as many
  as its size, newest first, in front of what it held before: the ring arithmetic, the position
  and the counter implement a bounded history. (The counter must not wrap around at 32 bits.)
\<close>

theorem signal_history:
  assumes "signal_ok buf" "sbCounter buf + length xs < 2 ^ 32"
  shows "signal_samples (fold put_signal xs buf) = take (sbSize buf) (rev xs @ signal_samples buf)"
  using sh.fold_newest [OF assms(1), of xs] assms(2) by simp

text \<open>
  Recording raw CAN frames of at most eight bytes never writes outside a frame and keeps the
  newest frames in order, but of each frame only as many bytes as the ring buffer has slots
  (modulo 256): the size limit uses the length of the ring instead of the length of the frame.
\<close>

theorem frame_history:
  assumes "frame_ok buf" "\<forall>f \<in> set xs. frame_fits f" "fbCounter buf + length xs < 2 ^ 32"
  shows "frame_ok (fold put_frame xs buf) \<and>
     frame_samples (fold put_frame xs buf) =
       take (fbSize buf) (map (\<lambda>f. (fst f, take (min (snd (snd f)) (length (fbBuffer buf) mod 256)) (fst (snd f)))) (rev xs)
         @ frame_samples buf)"
  using fh.fold_newest [OF assms(1,2)] fh.fold_ok [OF assms(1,2)] assms(3)
  by (simp add: stored_frame_def [abs_def] u8_def)

text \<open>The slots handed out by a collection: the newest ones not yet consumed by the condition.\<close>

definition unconsumed :: "nat \<Rightarrow> SignalSample list \<Rightarrow> SignalSample list" where
  "unconsumed conditionId slots = filter (\<lambda>s. \<not> bit (ssConsumed s) conditionId) slots"

lemma collect_signals_spec:
  assumes "signal_ok buf" "maxNumber \<le> sbSize buf"
  shows "\<exists>buf'. collect_signals onlyOnce signalID maxNumber c nt acc buf =
      Inr (buf', foldl max nt (map ssTimestamp (take maxNumber (signal_slots buf))),
        acc @ map (\<lambda>s. collected_signal signalID (ssTimestamp s) (ssValue s))
          (filter (\<lambda>s. \<not> bit (ssConsumed s) c \<or> \<not> onlyOnce) (take maxNumber (signal_slots buf)))) \<and>
      signal_ok buf' \<and> sbSize buf' = sbSize buf \<and> sbCounter buf' = sbCounter buf \<and>
      length (sbBuffer buf') = length (sbBuffer buf) \<and>
      signal_slots buf' = map (collected_slot (\<lambda>s. \<not> bit (ssConsumed s) c \<or> \<not> onlyOnce)
          (\<lambda>s. s\<lparr>ssConsumed := setAlreadyConsumed c True (ssConsumed s)\<rparr>)) (take maxNumber (signal_slots buf))
        @ drop maxNumber (signal_slots buf)"
proof -
  let ?m = "min (sbCounter buf) (sbSize buf)" and ?n = "min maxNumber (sbCounter buf)"
  let ?t = "\<lambda>s. \<not> bit (ssConsumed s) c \<or> \<not> onlyOnce"
  let ?mark = "\<lambda>s. s\<lparr>ssConsumed := setAlreadyConsumed c True (ssConsumed s)\<rparr>"
  have b: "sbSize buf \<le> length (sbBuffer buf)" "sbSize buf < 2 ^ 31" "?n \<le> ?m" "?m \<le> sbSize buf" "sbCurrentPosition buf < sbSize buf"
    using assms by (auto simp: signal_ok_def)
  have t: "take ?n (signal_slots buf) = take maxNumber (signal_slots buf)" "drop ?n (signal_slots buf) = drop maxNumber (signal_slots buf)"
    using assms(2) by (simp_all add: signal_slots_def min_def)
  obtain xs where xs: "collect_loop ?t (\<lambda>s. collected_signal signalID (ssTimestamp s) (ssValue s)) ?mark ssTimestamp (sbSize buf) ?n
        (to_int32 (sbCurrentPosition buf)) (sbBuffer buf) nt acc =
      Inr (xs, foldl max nt (map ssTimestamp (take ?n (signal_slots buf))),
        acc @ map (\<lambda>s. collected_signal signalID (ssTimestamp s) (ssValue s)) (filter ?t (take ?n (signal_slots buf))))"
    "length xs = length (sbBuffer buf)"
    "ring_view (sbSize buf) (sbCurrentPosition buf) ?m xs =
      map (collected_slot ?t ?mark) (take ?n (signal_slots buf)) @ drop ?n (signal_slots buf)"
    using collect_loop_view [OF b, where taken = ?t and mark = ?mark and stamp = ssTimestamp and nt = nt and acc = acc
      and out = "\<lambda>s. collected_signal signalID (ssTimestamp s) (ssValue s)"]
    unfolding signal_slots_def [symmetric] by blast
  have "collect_signals onlyOnce signalID maxNumber c nt acc buf =
      Inr (buf\<lparr>sbBuffer := xs\<rparr>, foldl max nt (map ssTimestamp (take maxNumber (signal_slots buf))),
        acc @ map (\<lambda>s. collected_signal signalID (ssTimestamp s) (ssValue s)) (filter ?t (take maxNumber (signal_slots buf))))"
    unfolding collect_signals_def xs(1) t by simp
  moreover have "signal_slots (buf\<lparr>sbBuffer := xs\<rparr>) =
      map (collected_slot ?t ?mark) (take maxNumber (signal_slots buf)) @ drop maxNumber (signal_slots buf)"
    using xs(3) unfolding t by (simp add: signal_slots_def)
  moreover have "signal_ok (buf\<lparr>sbBuffer := xs\<rparr>)" using assms(1) xs(2) by (simp add: signal_ok_def)
  ultimately show ?thesis using xs(2) by (intro exI [of _ "buf\<lparr>sbBuffer := xs\<rparr>"]) simp
qed

lemma map_marked:
  assumes "\<And>s. g (mk s) = g s"
  shows "map g (map mk (take n xs) @ drop n xs) = map g xs"
proof -
  have "map g (map mk (take n xs) @ drop n xs) = map g (take n xs @ drop n xs)"
    by (simp only: map_append map_map comp_def assms)
  then show ?thesis by (simp only: append_take_drop_id)
qed

text \<open>
  C19. Collecting up to \<open>maxNumber\<close> samples for a condition with send-only-once hands out, newest
  first, exactly those of the newest \<open>maxNumber\<close> samples the condition has not consumed yet, and
  marks them: collecting again hands out nothing, while what any other condition has consumed
  does not change.
\<close>

theorem collect_signals_once:
  assumes "signal_ok buf" "maxNumber \<le> sbSize buf" "c < 256"
  shows "\<exists>buf' t. collect_signals True signalID maxNumber c nt [] buf =
      Inr (buf', t, map (\<lambda>s. collected_signal signalID (ssTimestamp s) (ssValue s))
                      (unconsumed c (take maxNumber (signal_slots buf)))) \<and>
      signal_samples buf' = signal_samples buf \<and>
      (\<exists>buf''. collect_signals True signalID maxNumber c nt [] buf' = Inr (buf'', t, [])) \<and>
      (\<forall>d < 256. d \<noteq> c \<longrightarrow> map (\<lambda>s. bit (ssConsumed s) d) (signal_slots buf') = map (\<lambda>s. bit (ssConsumed s) d) (signal_slots buf))"
proof -
  let ?mark = "collected_slot (\<lambda>s. \<not> bit (ssConsumed s) c \<or> \<not> True) (\<lambda>s. s\<lparr>ssConsumed := setAlreadyConsumed c True (ssConsumed s)\<rparr>)"
  let ?top = "take maxNumber (signal_slots buf)"
  obtain buf' where b: "collect_signals True signalID maxNumber c nt [] buf =
      Inr (buf', foldl max nt (map ssTimestamp ?top),
        [] @ map (\<lambda>s. collected_signal signalID (ssTimestamp s) (ssValue s)) (filter (\<lambda>s. \<not> bit (ssConsumed s) c \<or> \<not> True) ?top))"
      "signal_ok buf'" "sbSize buf' = sbSize buf"
      "signal_slots buf' = map ?mark ?top @ drop maxNumber (signal_slots buf)"
    using collect_signals_spec [OF assms(1,2), of True signalID c nt "[]"] by blast
  have m: "ssTimestamp (?mark s) = ssTimestamp s" "ssValue (?mark s) = ssValue s" "bit (ssConsumed (?mark s)) c"
    "d \<noteq> c \<Longrightarrow> bit (ssConsumed (?mark s)) d = bit (ssConsumed s) d" for s d
    using assms(3) by (simp_all add: collected_slot_def bit_setAlreadyConsumed)
  have len: "take maxNumber (map ?mark ?top @ drop maxNumber (signal_slots buf)) = map ?mark ?top"
    by (cases "length (signal_slots buf) \<le> maxNumber") (simp_all add: min_def)
  have samples: "signal_samples buf' = signal_samples buf"
    unfolding signal_samples_def b(4) by (rule map_marked) (simp only: m)
  obtain buf'' where b2: "collect_signals True signalID maxNumber c nt [] buf' =
      Inr (buf'', foldl max nt (map ssTimestamp (map ?mark ?top)),
        [] @ map (\<lambda>s. collected_signal signalID (ssTimestamp s) (ssValue s)) (filter (\<lambda>s. \<not> bit (ssConsumed s) c \<or> \<not> True) (map ?mark ?top)))"
    using collect_signals_spec [OF b(2), of maxNumber True signalID c nt "[]"] assms(2) b(3) unfolding b(4) len by auto
  have none: "filter (\<lambda>s. \<not> bit (ssConsumed s) c \<or> \<not> True) (map ?mark ?top) = []"
    using assms(3) by (auto simp: filter_empty_conv collected_slot_def bit_setAlreadyConsumed)
  have t: "map ssTimestamp (map ?mark ?top) = map ssTimestamp ?top" by (simp add: collected_slot_def)
  have other: "map (\<lambda>s. bit (ssConsumed s) d) (signal_slots buf') = map (\<lambda>s. bit (ssConsumed s) d) (signal_slots buf)" if "d \<noteq> c" for d
    unfolding b(4) by (rule map_marked) (simp only: m(4) [OF that])
  show ?thesis
    using b(1) b2 samples other unfolding none t by (auto simp: unconsumed_def)
qed

section \<open>Witnesses\<close>

definition sample_signal_buffer :: SignalHistoryBuffer where
  "sample_signal_buffer = (signal_history_buffer 2 0)\<lparr>sbBuffer := replicate 2 default_SignalSample\<rparr>"

definition sample_frame_buffer :: CanFrameHistoryBuffer where
  "sample_frame_buffer = (can_frame_history_buffer 291 1 2 0)\<lparr>fbBuffer := replicate 2 default_CanFrameSample\<rparr>"

lemma sample_buffers_ok: "signal_ok sample_signal_buffer" "frame_ok sample_frame_buffer"
  by (simp_all add: signal_ok_def frame_ok_def sample_signal_buffer_def sample_frame_buffer_def signal_history_buffer_def
      can_frame_history_buffer_def sub32_def u32_def default_CanFrameSample_def)

theorem signal_history_witness:
  "signal_samples (fold put_signal [(10, Fin 1), (20, Fin 2), (30, Fin 3)] sample_signal_buffer) = [(30, Fin 3), (20, Fin 2)]"
  using signal_history [OF sample_buffers_ok(1), of "[(10, Fin 1), (20, Fin 2), (30, Fin 3)]"]
  by (simp add: sample_signal_buffer_def signal_history_buffer_def)

theorem frame_history_witness:
  "frame_samples (fold put_frame [(10, [1,2,3,4,5,6,7,8], 8)] sample_frame_buffer) = [(10, [1, 2])]"
  using frame_history [OF sample_buffers_ok(2), of "[(10, [1,2,3,4,5,6,7,8], 8)]"]
  by (simp add: frame_fits_def MAX_CAN_FRAME_BYTE_SIZE_def)
     (simp add: sample_frame_buffer_def can_frame_history_buffer_def frame_samples_def frame_slots_def ring_view_def)

theorem collect_signals_once_witness:
  "\<exists>buf' t. collect_signals True 7 2 3 0 [] (put_signal (10, Fin 1) sample_signal_buffer) =
      Inr (buf', t, map (\<lambda>s. collected_signal 7 (ssTimestamp s) (ssValue s))
                      (unconsumed 3 (take 2 (signal_slots (put_signal (10, Fin 1) sample_signal_buffer)))))"
proof -
  have "signal_ok (put_signal (10, Fin 1) sample_signal_buffer)" "2 \<le> sbSize (put_signal (10, Fin 1) sample_signal_buffer)"
    using sh.put_ok [OF sample_buffers_ok(1)] sh.put_capacity [OF sample_buffers_ok(1)]
    by (simp_all add: sample_signal_buffer_def signal_history_buffer_def)
  then show ?thesis using collect_signals_once [of "put_signal (10, Fin 1) sample_signal_buffer" 2 3 7 0] by auto
qed

end
