(* ===== verification/Expression.thy ===== *)
theory Expression
  imports HistoryBuffer
begin

text \<open>
  Evaluation of condition expressions by the inspection engine (\<open>eval\<close> and the leaf accessors
  of \<open>CollectionInspectionEngine.cpp\<close>) and the test whether a signal takes part in an
  expression. The reference semantics has no depth limit and no output parameters; the lemmas
  show that the evaluator computes it up to depth ten and what it does beyond.
\<close>

section \<open>Buffers and the condition that uses them\<close>

type_synonym signal_buffers = "(nat \<times> SignalHistoryBuffer list) list"

definition buffers_of :: "nat \<Rightarrow> signal_buffers \<Rightarrow> SignalHistoryBuffer list" where
  "buffers_of signalID m = (case map_of m signalID of Some bufs \<Rightarrow> bufs | None \<Rightarrow> [])"

text \<open>A pointer to a buffer is the signal and the index in its vector; a window adds its index.\<close>

record ActiveCondition =
  mLastDataTimestampPublished :: nat
  mLastTrigger :: nat
  mEvaluationSignals :: "nat \<Rightarrow> (nat \<times> nat) option"
  mEvaluationFunctions :: "nat \<Rightarrow> (nat \<times> nat \<times> nat) option"
  mCondition :: ConditionWithCollectedData
  mEventID :: nat

definition active_condition :: "ConditionWithCollectedData \<Rightarrow> ActiveCondition" where
  "active_condition conditionIn =
     \<lparr>mLastDataTimestampPublished = 0, mLastTrigger = 0, mEvaluationSignals = (\<lambda>_. None),
      mEvaluationFunctions = (\<lambda>_. None), mCondition = conditionIn, mEventID = 0\<rparr>"

datatype ExpressionErrorCode =
    SUCCESSFUL | SIGNAL_NOT_FOUND | FUNCTION_DATA_NOT_AVAILABLE | STACK_DEPTH_REACHED
  | NOT_IMPLEMENTED_TYPE | NOT_IMPLEMENTED_FUNCTION

definition EVAL_EQUAL_DISTANCE :: double where
  "EVAL_EQUAL_DISTANCE = round64 (1 / 1000)"

section \<open>Which signals take part in an expression\<close>

fun isSignalPartOfEval :: "ExpressionNode option \<Rightarrow> nat \<Rightarrow> nat \<Rightarrow> bool" where
  "isSignalPartOfEval expression signalID 0 = False"
| "isSignalPartOfEval None signalID (Suc depth) = False"
| "isSignalPartOfEval (Some e) signalID (Suc depth) =
     (if nodeType e = SIGNAL \<or> nodeType e = WINDOWFUNCTION then exprSignalID e = signalID
      else if nodeType e = GEOHASHFUNCTION
      then latitudeSignalID (geohashFunction (exprFunction e)) = signalID \<or>
           longitudeSignalID (geohashFunction (exprFunction e)) = signalID
      else isSignalPartOfEval (left e) signalID depth \<or> isSignalPartOfEval (right e) signalID depth)"

section \<open>The leaves\<close>

text \<open>The result parameter is passed in and returned; an error may leave it as it was.\<close>

definition getLatestSignalValue ::
  "signal_buffers \<Rightarrow> ActiveCondition \<Rightarrow> nat \<Rightarrow> double \<Rightarrow> (ExpressionErrorCode \<times> double) ub_result" where
  "getLatestSignalValue m cond signalID result =
     (case mEvaluationSignals cond signalID of
        None \<Rightarrow> Inr (SIGNAL_NOT_FOUND, result)
      | Some (sid, k) \<Rightarrow>
          ub_bind (read_at (buffers_of sid m) k) (\<lambda>s.
            if sbCounter s = 0 then Inr (SIGNAL_NOT_FOUND, result)
            else ub_bind (read_at (sbBuffer s) (sbCurrentPosition s)) (\<lambda>x. Inr (SUCCESSFUL, ssValue x))))"

definition window_value :: "WindowFunction \<Rightarrow> FixedTimeWindowFunctionData \<Rightarrow> double \<Rightarrow> ExpressionErrorCode \<times> double" where
  "window_value fn w result =
     (let available = (\<lambda>b. if b then SUCCESSFUL else FUNCTION_DATA_NOT_AVAILABLE) in
      case fn of
        LAST_FIXED_WINDOW_AVG \<Rightarrow> (available (mLastAvailable w), mLastAvg w)
      | LAST_FIXED_WINDOW_MIN \<Rightarrow> (available (mLastAvailable w), mLastMin w)
      | LAST_FIXED_WINDOW_MAX \<Rightarrow> (available (mLastAvailable w), mLastMax w)
      | PREV_LAST_FIXED_WINDOW_AVG \<Rightarrow> (available (mPreviousLastAvailable w), mPreviousLastAvg w)
      | PREV_LAST_FIXED_WINDOW_MIN \<Rightarrow> (available (mPreviousLastAvailable w), mPreviousLastMin w)
      | PREV_LAST_FIXED_WINDOW_MAX \<Rightarrow> (available (mPreviousLastAvailable w), mPreviousLastMax w)
      | NO_WINDOW \<Rightarrow> (NOT_IMPLEMENTED_FUNCTION, result))"

definition getSampleWindowFunction ::
  "signal_buffers \<Rightarrow> ActiveCondition \<Rightarrow> WindowFunction \<Rightarrow> nat \<Rightarrow> double \<Rightarrow> (ExpressionErrorCode \<times> double) ub_result" where
  "getSampleWindowFunction m cond fn signalID result =
     (case mEvaluationFunctions cond signalID of
        None \<Rightarrow> Inr (SIGNAL_NOT_FOUND, result)
      | Some (sid, k, j) \<Rightarrow>
          ub_bind (read_at (buffers_of sid m) k) (\<lambda>s.
            ub_bind (read_at (sbWindowFunctionData s) j) (\<lambda>w. Inr (window_value fn w result))))"

definition getGeohashFunctionNode ::
  "signal_buffers \<Rightarrow> ActiveCondition \<Rightarrow> GeohashFunction \<Rightarrow> GeohashFunctionNode \<Rightarrow>
   (ExpressionErrorCode \<times> bool \<times> GeohashFunctionNode) ub_result" where
  "getGeohashFunctionNode m cond fn g =
     ub_bind (getLatestSignalValue m cond (latitudeSignalID fn) (Fin 0)) (\<lambda>(status, latitude).
       if status \<noteq> SUCCESSFUL then Inr (status, False, g)
       else ub_bind (getLatestSignalValue m cond (longitudeSignalID fn) (Fin 0)) (\<lambda>(status, longitude).
         if status \<noteq> SUCCESSFUL then Inr (status, False, g)
         else let (isNew, g) = evaluateGeohash latitude longitude (geoPrecision fn) (gpsUnitType fn) g
              in Inr (SUCCESSFUL, isNew, g)))"

section \<open>The evaluator\<close>

text \<open>The result of an operator on the values of its operands, with the output parameters \<open>d\<close> and \<open>b\<close>.\<close>

definition apply_operator ::
  "ExpressionNodeType \<Rightarrow> double \<Rightarrow> double \<Rightarrow> bool \<Rightarrow> bool \<Rightarrow> double \<Rightarrow> bool \<Rightarrow> ExpressionErrorCode \<times> double \<times> bool" where
  "apply_operator op leftDouble rightDouble leftBool rightBool d b =
     (case op of
        OPERATOR_SMALLER \<Rightarrow> (SUCCESSFUL, d, dlt leftDouble rightDouble)
      | OPERATOR_BIGGER \<Rightarrow> (SUCCESSFUL, d, dlt rightDouble leftDouble)
      | OPERATOR_SMALLER_EQUAL \<Rightarrow> (SUCCESSFUL, d, dle leftDouble rightDouble)
      | OPERATOR_BIGGER_EQUAL \<Rightarrow> (SUCCESSFUL, d, dle rightDouble leftDouble)
      | OPERATOR_EQUAL \<Rightarrow> (SUCCESSFUL, d, dlt (dabs (dsub leftDouble rightDouble)) EVAL_EQUAL_DISTANCE)
      | OPERATOR_LOGICAL_AND \<Rightarrow> (SUCCESSFUL, d, leftBool \<and> rightBool)
      | OPERATOR_LOGICAL_OR \<Rightarrow> (SUCCESSFUL, d, leftBool \<or> rightBool)
      | OPERATOR_LOGICAL_NOT \<Rightarrow> (SUCCESSFUL, d, \<not> leftBool)
      | OPERATOR_ARITHMETIC_PLUS \<Rightarrow> (SUCCESSFUL, dadd leftDouble rightDouble, b)
      | OPERATOR_ARITHMETIC_MINUS \<Rightarrow> (SUCCESSFUL, dsub leftDouble rightDouble, b)
      | OPERATOR_ARITHMETIC_MULTIPLY \<Rightarrow> (SUCCESSFUL, dmul leftDouble rightDouble, b)
      | OPERATOR_ARITHMETIC_DIVIDE \<Rightarrow> (SUCCESSFUL, ddiv leftDouble rightDouble, b)
      | _ \<Rightarrow> (NOT_IMPLEMENTED_TYPE, d, b))"

fun eval ::
  "signal_buffers \<Rightarrow> ActiveCondition \<Rightarrow> ExpressionNode option \<Rightarrow> GeohashFunctionNode \<Rightarrow> double \<Rightarrow> bool \<Rightarrow> nat \<Rightarrow>
   (ExpressionErrorCode \<times> double \<times> bool \<times> GeohashFunctionNode) ub_result" where
  "eval m cond expression g d b 0 = Inr (STACK_DEPTH_REACHED, d, b, g)"
| "eval m cond None g d b (Suc depth) = Inr (STACK_DEPTH_REACHED, d, b, g)"
| "eval m cond (Some e) g d b (Suc depth) =
     (if nodeType e = FLOAT then Inr (SUCCESSFUL, floatingValue e, b, g)
      else if nodeType e = BOOLEAN then Inr (SUCCESSFUL, d, booleanValue e, g)
      else if nodeType e = SIGNAL
      then ub_bind (getLatestSignalValue m cond (exprSignalID e) d) (\<lambda>(ret, d). Inr (ret, d, b, g))
      else if nodeType e = WINDOWFUNCTION
      then ub_bind (getSampleWindowFunction m cond (windowFunction (exprFunction e)) (exprSignalID e) d)
             (\<lambda>(ret, d). Inr (ret, d, b, g))
      else if nodeType e = GEOHASHFUNCTION
      then ub_bind (getGeohashFunctionNode m cond (geohashFunction (exprFunction e)) g)
             (\<lambda>(ret, b, g). Inr (ret, d, b, g))
      else ub_bind (eval m cond (left e) g (Fin 0) False depth) (\<lambda>(leftRet, leftDouble, leftBool, g).
             if leftRet \<noteq> SUCCESSFUL then Inr (leftRet, d, b, g)
             else ub_bind
               (if nodeType e = OPERATOR_LOGICAL_NOT then Inr (SUCCESSFUL, Fin 0, False, g)
                else eval m cond (right e) g (Fin 0) False depth) (\<lambda>(rightRet, rightDouble, rightBool, g).
               if rightRet \<noteq> SUCCESSFUL then Inr (rightRet, d, b, g)
               else let (ret, d, b) = apply_operator (nodeType e) leftDouble rightDouble leftBool rightBool d b
                    in Inr (ret, d, b, g))))"

section \<open>The reference semantics\<close>

text \<open>What the leaves denote in a state of the engine, when they are available.\<close>

definition signal_value :: "signal_buffers \<Rightarrow> ActiveCondition \<Rightarrow> nat \<Rightarrow> double option" where
  "signal_value m cond signalID =
     (case getLatestSignalValue m cond signalID (Fin 0) of Inr (SUCCESSFUL, v) \<Rightarrow> Some v | _ \<Rightarrow> None)"

definition window_fn_value :: "signal_buffers \<Rightarrow> ActiveCondition \<Rightarrow> WindowFunction \<Rightarrow> nat \<Rightarrow> double option" where
  "window_fn_value m cond fn signalID =
     (case getSampleWindowFunction m cond fn signalID (Fin 0) of Inr (SUCCESSFUL, v) \<Rightarrow> Some v | _ \<Rightarrow> None)"

definition lift2 :: "('a \<Rightarrow> 'a \<Rightarrow> 'b) \<Rightarrow> 'a option \<Rightarrow> 'a option \<Rightarrow> 'b option" where
  "lift2 f x y = (case (x, y) of (Some a, Some b) \<Rightarrow> Some (f a b) | _ \<Rightarrow> None)"

fun num_sem :: "signal_buffers \<Rightarrow> ActiveCondition \<Rightarrow> ExpressionNode \<Rightarrow> double option" where
  "num_sem m c (ExpressionNode FLOAT l r f b s fn) = Some f"
| "num_sem m c (ExpressionNode SIGNAL l r f b s fn) = signal_value m c s"
| "num_sem m c (ExpressionNode WINDOWFUNCTION l r f b s fn) = window_fn_value m c (windowFunction fn) s"
| "num_sem m c (ExpressionNode OPERATOR_ARITHMETIC_PLUS (Some l) (Some r) f b s fn) = lift2 dadd (num_sem m c l) (num_sem m c r)"
| "num_sem m c (ExpressionNode OPERATOR_ARITHMETIC_MINUS (Some l) (Some r) f b s fn) = lift2 dsub (num_sem m c l) (num_sem m c r)"
| "num_sem m c (ExpressionNode OPERATOR_ARITHMETIC_MULTIPLY (Some l) (Some r) f b s fn) = lift2 dmul (num_sem m c l) (num_sem m c r)"
| "num_sem m c (ExpressionNode OPERATOR_ARITHMETIC_DIVIDE (Some l) (Some r) f b s fn) = lift2 ddiv (num_sem m c l) (num_sem m c r)"
| "num_sem m c _ = None"

fun bool_sem :: "signal_buffers \<Rightarrow> ActiveCondition \<Rightarrow> ExpressionNode \<Rightarrow> bool option" where
  "bool_sem m c (ExpressionNode BOOLEAN l r f b s fn) = Some b"
| "bool_sem m c (ExpressionNode OPERATOR_SMALLER (Some l) (Some r) f b s fn) = lift2 dlt (num_sem m c l) (num_sem m c r)"
| "bool_sem m c (ExpressionNode OPERATOR_BIGGER (Some l) (Some r) f b s fn) = lift2 (\<lambda>x y. dlt y x) (num_sem m c l) (num_sem m c r)"
| "bool_sem m c (ExpressionNode OPERATOR_SMALLER_EQUAL (Some l) (Some r) f b s fn) = lift2 dle (num_sem m c l) (num_sem m c r)"
| "bool_sem m c (ExpressionNode OPERATOR_BIGGER_EQUAL (Some l) (Some r) f b s fn) = lift2 (\<lambda>x y. dle y x) (num_sem m c l) (num_sem m c r)"
| "bool_sem m c (ExpressionNode OPERATOR_EQUAL (Some l) (Some r) f b s fn) =
     lift2 (\<lambda>x y. dlt (dabs (dsub x y)) EVAL_EQUAL_DISTANCE) (num_sem m c l) (num_sem m c r)"
| "bool_sem m c (ExpressionNode OPERATOR_LOGICAL_AND (Some l) (Some r) f b s fn) = lift2 (\<and>) (bool_sem m c l) (bool_sem m c r)"
| "bool_sem m c (ExpressionNode OPERATOR_LOGICAL_OR (Some l) (Some r) f b s fn) = lift2 (\<or>) (bool_sem m c l) (bool_sem m c r)"
| "bool_sem m c (ExpressionNode OPERATOR_LOGICAL_NOT (Some l) r f b s fn) = map_option Not (bool_sem m c l)"
| "bool_sem m c _ = None"

text \<open>The height of an expression; the right operand of a negation does not count.\<close>

fun height :: "ExpressionNode \<Rightarrow> nat" where
  "height (ExpressionNode t l r f b s fn) =
     (if t \<in> {FLOAT, SIGNAL, WINDOWFUNCTION, GEOHASHFUNCTION, BOOLEAN} then 1
      else Suc (max (case l of None \<Rightarrow> 0 | Some x \<Rightarrow> height x)
                    (if t = OPERATOR_LOGICAL_NOT then 0 else case r of None \<Rightarrow> 0 | Some x \<Rightarrow> height x)))"

section \<open>The evaluator computes the reference semantics\<close>

lemma success_value:
  "(case r of Inr (SUCCESSFUL, v) \<Rightarrow> Some v | _ \<Rightarrow> None) = Some v \<longleftrightarrow> r = Inr (SUCCESSFUL, v)"
  by (cases r) (auto split: prod.split ExpressionErrorCode.split)

lemma getLatest_ok:
  "signal_value m c s = Some v \<Longrightarrow> getLatestSignalValue m c s d = Inr (SUCCESSFUL, v)"
  unfolding signal_value_def success_value
  by (auto simp: getLatestSignalValue_def ub_bind_def split: option.splits if_splits sum.splits)

lemma getWindow_ok:
  "window_fn_value m c fn s = Some v \<Longrightarrow> getSampleWindowFunction m c fn s d = Inr (SUCCESSFUL, v)"
  unfolding window_fn_value_def success_value
  by (cases fn) (auto simp: getSampleWindowFunction_def window_value_def ub_bind_def Let_def
      split: option.splits if_splits sum.splits)

lemma lift2_Some: "lift2 f x y = Some z \<longleftrightarrow> (\<exists>a b. x = Some a \<and> y = Some b \<and> z = f a b)"
  by (auto simp: lift2_def split: option.splits)

lemma height_pos: "0 < height e"
  by (cases e) simp

lemmas eval_simps = apply_operator_def lift2_Some Let_def

lemma eval_num:
  "num_sem m c e = Some v \<Longrightarrow>
   eval m c (Some e) g d b k = Inr (if height e \<le> k then (SUCCESSFUL, v, b, g) else (STACK_DEPTH_REACHED, d, b, g))"
proof (induction m c e arbitrary: v d b k rule: num_sem.induct)
  case (1 m c l r f b s fn)
  then show ?case by (cases k) simp_all
next
  case (2 m c l r f b s fn)
  then show ?case by (cases k) (simp_all add: getLatest_ok)
next
  case (3 m c l r f b s fn)
  then show ?case by (cases k) (simp_all add: getWindow_ok)
qed (case_tac [1-4] k, auto simp: eval_simps)

lemma eval_bool:
  "bool_sem m c e = Some v \<Longrightarrow>
   eval m c (Some e) g d b k = Inr (if height e \<le> k then (SUCCESSFUL, d, v, g) else (STACK_DEPTH_REACHED, d, b, g))"
proof (induction m c e arbitrary: v d b k rule: bool_sem.induct)
  case (1 m c l r f b s fn)
  then show ?case by (cases k) simp_all
qed (case_tac [1-8] k, auto simp: eval_simps eval_num)

lemma ub_bind_cong [fundef_cong]: "r = r' \<Longrightarrow> (\<And>x. r' = Inr x \<Longrightarrow> f x = f' x) \<Longrightarrow> ub_bind r f = ub_bind r' f'"
  by (cases r) auto

lemma eval_cong:
  "(\<And>s. isSignalPartOfEval x s k \<Longrightarrow> mEvaluationSignals c s = mEvaluationSignals c' s \<and>
       mEvaluationFunctions c s = mEvaluationFunctions c' s) \<Longrightarrow>
   eval m c x g d b k = eval m c' x g d b k"
proof (induction m c x g d b k rule: eval.induct)
  case (3 m c e g d b depth)
  consider "nodeType e = FLOAT \<or> nodeType e = BOOLEAN" | "nodeType e = SIGNAL \<or> nodeType e = WINDOWFUNCTION"
    | "nodeType e = GEOHASHFUNCTION"
    | "nodeType e \<notin> {FLOAT, BOOLEAN, SIGNAL, WINDOWFUNCTION, GEOHASHFUNCTION}" by blast
  then show ?case
  proof cases
    case 1
    then show ?thesis by auto
  next
    case 2
    then show ?thesis using "3.prems" [of "exprSignalID e"]
      by (auto simp: getLatestSignalValue_def getSampleWindowFunction_def)
  next
    case 3
    let ?f = "geohashFunction (exprFunction e)"
    have "getLatestSignalValue m c (latitudeSignalID ?f) (Fin 0) = getLatestSignalValue m c' (latitudeSignalID ?f) (Fin 0)"
      "getLatestSignalValue m c (longitudeSignalID ?f) (Fin 0) = getLatestSignalValue m c' (longitudeSignalID ?f) (Fin 0)"
      using "3.prems" [of "latitudeSignalID ?f"] "3.prems" [of "longitudeSignalID ?f"] 3
      by (simp_all add: getLatestSignalValue_def)
    then have "getGeohashFunctionNode m c ?f g = getGeohashFunctionNode m c' ?f g"
      by (simp only: getGeohashFunctionNode_def)
    then show ?thesis using 3 by simp
  next
    case 4
    have l: "eval m c (left e) g (Fin 0) False depth = eval m c' (left e) g (Fin 0) False depth"
      by (rule "3.IH"(1)) (use 4 "3.prems" in auto)
    show ?thesis
    proof (cases "eval m c' (left e) g (Fin 0) False depth")
      case (Inl u)
      then show ?thesis using 4 by (simp add: l)
    next
      case (Inr res)
      obtain ret ld lb g' where res: "res = (ret, ld, lb, g')" by (metis prod_cases4)
      have "eval m c (right e) g' (Fin 0) False depth = eval m c' (right e) g' (Fin 0) False depth"
        if "ret = SUCCESSFUL" "nodeType e \<noteq> OPERATOR_LOGICAL_NOT"
        by (rule "3.IH"(2)) (use 4 "3.prems" that Inr res l in auto)
      then show ?thesis using 4 Inr by (simp add: l res)
    qed
  qed
qed simp_all

text \<open>Following valid pointers, the evaluator reads no memory out of bounds.\<close>

definition signal_inv :: "SignalHistoryBuffer \<Rightarrow> bool" where
  "signal_inv b \<longleftrightarrow> (0 < sbCounter b \<or> (0 < sbSize b \<and> sbSize b \<le> length (sbBuffer b)) \<longrightarrow> signal_ok b)"

definition pointers_ok :: "signal_buffers \<Rightarrow> ActiveCondition \<Rightarrow> bool" where
  "pointers_ok m c \<longleftrightarrow>
     (\<forall>s sid k. mEvaluationSignals c s = Some (sid, k) \<longrightarrow>
        k < length (buffers_of sid m) \<and> signal_inv (buffers_of sid m ! k)) \<and>
     (\<forall>s sid k j. mEvaluationFunctions c s = Some (sid, k, j) \<longrightarrow>
        k < length (buffers_of sid m) \<and> j < length (sbWindowFunctionData (buffers_of sid m ! k)))"

definition defined :: "'a ub_result \<Rightarrow> bool" where
  "defined r \<longleftrightarrow> (\<exists>x. r = Inr x)"

lemma defined_simps [simp]: "defined (Inr x)" "\<not> defined (Inl u)"
  by (simp_all add: defined_def)

lemma defined_bind: "defined r \<Longrightarrow> (\<And>x. r = Inr x \<Longrightarrow> defined (f x)) \<Longrightarrow> defined (ub_bind r f)"
  by (auto simp: defined_def)

lemma getLatest_safe: "pointers_ok m c \<Longrightarrow> defined (getLatestSignalValue m c s d)"
  by (force simp: getLatestSignalValue_def pointers_ok_def signal_inv_def signal_ok_def split: option.splits)

lemma getWindow_safe: "pointers_ok m c \<Longrightarrow> defined (getSampleWindowFunction m c fn s d)"
  by (auto simp: getSampleWindowFunction_def pointers_ok_def split: option.splits)

lemma getGeohash_safe: "pointers_ok m c \<Longrightarrow> defined (getGeohashFunctionNode m c fn g)"
  unfolding getGeohashFunctionNode_def
  by (auto intro!: defined_bind getLatest_safe split: prod.splits)

lemma eval_safe: "pointers_ok m c \<Longrightarrow> defined (eval m c x g d b k)"
proof (induction m c x g d b k rule: eval.induct)
  case (3 m c e g d b depth)
  then show ?case
    by (auto intro!: defined_bind getLatest_safe getWindow_safe getGeohash_safe simp: Let_def split: prod.splits)
qed simp_all

section \<open>Properties\<close>

text \<open>
  C22. For a well-typed condition whose signals and windows are available, the evaluator at the
  depth limit of the engine returns exactly the value of the expression, whatever its output
  parameters held, if the expression is at most ten levels high, and the error for an exceeded
  depth otherwise. It never confuses numeric and boolean operands and changes no state.
\<close>

theorem eval_reference:
  assumes "bool_sem m c e = Some v"
  shows "eval m c (Some e) g d b MAX_EQUATION_DEPTH =
     Inr (if height e \<le> 10 then (SUCCESSFUL, d, v, g) else (STACK_DEPTH_REACHED, d, b, g))"
  using eval_bool [OF assms] by (simp add: MAX_EQUATION_DEPTH_def)

text \<open>
  The test that decides which signals a condition is connected to is complete: the result of
  an evaluation depends only on the pointers of signals the test accepts, at every depth limit,
  for every expression, geohash functions included.
\<close>

theorem isSignalPartOfEval_complete:
  assumes "\<forall>s. isSignalPartOfEval x s k \<longrightarrow>
     mEvaluationSignals c s = mEvaluationSignals c' s \<and> mEvaluationFunctions c s = mEvaluationFunctions c' s"
  shows "eval m c x g d b k = eval m c' x g d b k"
  by (rule eval_cong) (use assms in blast)

section \<open>Witnesses\<close>

definition num_node :: "double \<Rightarrow> ExpressionNode" where
  "num_node v = ExpressionNode FLOAT None None v False 0 default_function"

definition signal_node :: "nat \<Rightarrow> ExpressionNode" where
  "signal_node s = ExpressionNode SIGNAL None None (Fin 0) False s default_function"

definition op_node :: "ExpressionNodeType \<Rightarrow> ExpressionNode \<Rightarrow> ExpressionNode \<Rightarrow> ExpressionNode" where
  "op_node t l r = ExpressionNode t (Some l) (Some r) (Fin 0) False 0 default_function"

definition sample_condition :: ConditionWithCollectedData where
  "sample_condition =
     \<lparr>condition = Some (op_node OPERATOR_BIGGER (signal_node 7) (num_node (Fin 2))),
      minimumPublishInterval = 0, afterDuration = 0,
      cndSignals = [\<lparr>sigID = 7, sigSampleBufferSize = 2, sigMinimumSampleIntervalMs = 0, sigFixedWindowPeriod = 0, sigIsConditionOnly = False\<rparr>],
      cndCanFrames = [], includeActiveDtcs = False, triggerOnlyOnRisingEdge = False, probabilityToSend = Fin 1,
      cndMetaData = default_metadata, imageCollectionInfos = [], includeImageCapture = False\<rparr>"

definition sample_active :: ActiveCondition where
  "sample_active = (active_condition sample_condition)\<lparr>mEvaluationSignals := [7 \<mapsto> (7, 0)]\<rparr>"

definition sample_buffers :: signal_buffers where
  "sample_buffers = [(7, [put_signal (10, Fin 5) sample_signal_buffer])]"

lemma sample_signal_value: "signal_value sample_buffers sample_active 7 = Some (Fin 5)"
  by (simp add: signal_value_def getLatestSignalValue_def sample_active_def active_condition_def sample_buffers_def
      buffers_of_def put_signal_def record_signal_pos [OF sample_buffers_ok(1)])
     (simp add: sample_signal_buffer_def signal_history_buffer_def ring_next_def sub32_def u32_def read_at_def)

theorem eval_reference_witness:
  "eval sample_buffers sample_active (condition sample_condition) init_geohash_node (Fin 0) False MAX_EQUATION_DEPTH =
     Inr (SUCCESSFUL, Fin 0, True, init_geohash_node)"
  using eval_reference [of sample_buffers sample_active "op_node OPERATOR_BIGGER (signal_node 7) (num_node (Fin 2))" True
      init_geohash_node "Fin 0" False]
  by (simp add: sample_condition_def op_node_def signal_node_def num_node_def sample_signal_value lift2_def)

theorem isSignalPartOfEval_complete_witness:
  "eval sample_buffers sample_active (condition sample_condition) init_geohash_node (Fin 0) False 10 =
   eval sample_buffers (sample_active\<lparr>mEvaluationSignals := [7 \<mapsto> (7, 0), 8 \<mapsto> (8, 0)]\<rparr>)
     (condition sample_condition) init_geohash_node (Fin 0) False 10"
  by (rule isSignalPartOfEval_complete)
     (simp add: sample_condition_def op_node_def signal_node_def num_node_def sample_active_def active_condition_def
       eval_nat_numeral)

end
