(* ===== verification/SchemeIngestion.thy ===== *)
theory SchemeIngestion
  imports SchemeTypes Expression
begin

text \<open>
  Building collection schemes from their messages (\<open>CollectionSchemeIngestion.cpp\<close>) and the
  list of schemes of one document (\<open>CollectionSchemeIngestionList.cpp\<close>). The condition tree is
  serialised into a vector of nodes that point at each other, so the vector must not move while
  it is filled; the model keeps its capacity, and how a full vector grows is a parameter. Parsing
  of protocol buffers is a parameter as well.
\<close>

section \<open>Conversion of the enumerations\<close>

fun convertFunctionType :: "WindowType \<Rightarrow> WindowFunction" where
  "convertFunctionType LAST_WINDOW_MIN = LAST_FIXED_WINDOW_MIN"
| "convertFunctionType LAST_WINDOW_MAX = LAST_FIXED_WINDOW_MAX"
| "convertFunctionType LAST_WINDOW_AVG = LAST_FIXED_WINDOW_AVG"
| "convertFunctionType PREV_LAST_WINDOW_MIN = PREV_LAST_FIXED_WINDOW_MIN"
| "convertFunctionType PREV_LAST_WINDOW_MAX = PREV_LAST_FIXED_WINDOW_MAX"
| "convertFunctionType PREV_LAST_WINDOW_AVG = PREV_LAST_FIXED_WINDOW_AVG"
| "convertFunctionType (OTHER_WINDOW n) = NO_WINDOW"

fun convertOperatorType :: "Operator \<Rightarrow> ExpressionNodeType" where
  "convertOperatorType COMPARE_SMALLER = OPERATOR_SMALLER"
| "convertOperatorType COMPARE_BIGGER = OPERATOR_BIGGER"
| "convertOperatorType COMPARE_SMALLER_EQUAL = OPERATOR_SMALLER_EQUAL"
| "convertOperatorType COMPARE_BIGGER_EQUAL = OPERATOR_BIGGER_EQUAL"
| "convertOperatorType COMPARE_EQUAL = OPERATOR_EQUAL"
| "convertOperatorType COMPARE_NOT_EQUAL = BOOLEAN"
| "convertOperatorType LOGICAL_AND = OPERATOR_LOGICAL_AND"
| "convertOperatorType LOGICAL_OR = OPERATOR_LOGICAL_OR"
| "convertOperatorType LOGICAL_NOT = OPERATOR_LOGICAL_NOT"
| "convertOperatorType ARITHMETIC_PLUS = OPERATOR_ARITHMETIC_PLUS"
| "convertOperatorType ARITHMETIC_MINUS = OPERATOR_ARITHMETIC_MINUS"
| "convertOperatorType ARITHMETIC_MULTIPLY = OPERATOR_ARITHMETIC_MULTIPLY"
| "convertOperatorType ARITHMETIC_DIVIDE = OPERATOR_ARITHMETIC_DIVIDE"
| "convertOperatorType (OTHER_OPERATOR n) = BOOLEAN"

section \<open>The vector of nodes\<close>

text \<open>The sum is below \<open>2 ^ depth\<close> and does not wrap.\<close>

fun getNumberOfNodes :: "ConditionNode \<Rightarrow> nat \<Rightarrow> nat" where
  "getNumberOfNodes node 0 = 0"
| "getNumberOfNodes (NodeOperator op l r) (Suc depth) =
     1 + (case l of None \<Rightarrow> 0 | Some c \<Rightarrow> getNumberOfNodes c depth) + (case r of None \<Rightarrow> 0 | Some c \<Rightarrow> getNumberOfNodes c depth)"
| "getNumberOfNodes node (Suc depth) = 1"

record node_vector =
  vecCells :: "ExpressionCell list"
  vecCapacity :: nat

text \<open>
  Growing a full vector moves its elements. Pointers to them exist once \<open>nextIndex\<close> is not zero,
  and the caller writes through its own when the recursion returns.
\<close>

definition emplace_back :: "(nat \<Rightarrow> nat) \<Rightarrow> nat \<Rightarrow> node_vector \<Rightarrow> node_vector ub_result" where
  "emplace_back grow nextIndex v =
     (if length (vecCells v) < vecCapacity v then Inr (v\<lparr>vecCells := vecCells v @ [default_cell]\<rparr>)
      else if nextIndex = 0 then Inr (v\<lparr>vecCells := vecCells v @ [default_cell], vecCapacity := grow (vecCapacity v)\<rparr>)
      else Inl DanglingPointer)"

definition pop_back :: "node_vector \<Rightarrow> node_vector" where
  "pop_back v = v\<lparr>vecCells := butlast (vecCells v)\<rparr>"

definition update_cell :: "nat \<Rightarrow> (ExpressionCell \<Rightarrow> ExpressionCell) \<Rightarrow> node_vector \<Rightarrow> node_vector" where
  "update_cell i f v = v\<lparr>vecCells := (vecCells v)[i := f (vecCells v ! i)]\<rparr>"

text \<open>The pointer to the new node, null if there is none, with the vector and the next index.\<close>

fun serializeNode ::
  "(nat \<Rightarrow> nat) \<Rightarrow> nat \<Rightarrow> ConditionNode \<Rightarrow> node_vector \<Rightarrow> nat \<Rightarrow> (nat option \<times> node_vector \<times> nat) ub_result" where
  "serializeNode grow 0 node v nextIndex = Inr (None, v, nextIndex)"
| "serializeNode grow (Suc remainingDepth) node v nextIndex =
     ub_bind (emplace_back grow nextIndex v) (\<lambda>v.
     if nextIndex \<ge> length (vecCells v) then Inl OutOfBounds
     else let cur = nextIndex; nextIndex = u32 (nextIndex + 1) in
       case node of
         NodeSignalId s \<Rightarrow> Inr (Some cur, update_cell cur (\<lambda>c. c\<lparr>cellSignal := s, cellType := SIGNAL\<rparr>) v, nextIndex)
       | NodeDoubleValue x \<Rightarrow> Inr (Some cur, update_cell cur (\<lambda>c. c\<lparr>cellFloat := x, cellType := FLOAT\<rparr>) v, nextIndex)
       | NodeBooleanValue b \<Rightarrow> Inr (Some cur, update_cell cur (\<lambda>c. c\<lparr>cellBool := b, cellType := BOOLEAN\<rparr>) v, nextIndex)
       | NodeWindowFunction s w \<Rightarrow> Inr (Some cur, update_cell cur (\<lambda>c. c\<lparr>cellSignal := s,
           cellFunction := (cellFunction c)\<lparr>windowFunction := convertFunctionType w\<rparr>, cellType := WINDOWFUNCTION\<rparr>) v, nextIndex)
       | NodeGeohashFunction lat lon precision unit \<Rightarrow> Inr (Some cur, update_cell cur (\<lambda>c. c\<lparr>cellType := GEOHASHFUNCTION,
           cellFunction := (cellFunction c)\<lparr>geohashFunction := \<lparr>latitudeSignalID = lat, longitudeSignalID = lon,
             geoPrecision = u8 precision, gpsUnitType = unit\<rparr>\<rparr>\<rparr>) v, nextIndex)
       | NodeOperator op (Some l) r \<Rightarrow>
           let v = update_cell cur (\<lambda>c. c\<lparr>cellType := convertOperatorType op\<rparr>) v in
           if convertOperatorType op = BOOLEAN then Inr (Some cur, update_cell cur (\<lambda>c. c\<lparr>cellBool := False\<rparr>) v, nextIndex)
           else ub_bind (serializeNode grow remainingDepth l v nextIndex) (\<lambda>(lp, v, nextIndex).
             let v = update_cell cur (\<lambda>c. c\<lparr>cellLeft := lp\<rparr>) v in
             case (if convertOperatorType op \<noteq> OPERATOR_LOGICAL_NOT then r else None) of
               Some rc \<Rightarrow> ub_bind (serializeNode grow remainingDepth rc v nextIndex) (\<lambda>(rp, v, nextIndex).
                 Inr (Some cur, update_cell cur (\<lambda>c. c\<lparr>cellRight := rp\<rparr>) v, nextIndex))
             | None \<Rightarrow> Inr (Some cur, update_cell cur (\<lambda>c. c\<lparr>cellRight := None\<rparr>) v, nextIndex))
       | _ \<Rightarrow> Inr (None, pop_back v, nextIndex))"

section \<open>A scheme\<close>

definition collected_frame :: "RawCanFrameMsg \<Rightarrow> CanFrameCollectionInfo" where
  "collected_frame f = \<lparr>cfiFrameID = canMessageId f, cfiInterfaceID = canInterfaceId f,
     cfiSampleBufferSize = rawSampleBufferSize f, cfiMinimumSampleIntervalMs = rawMinimumSamplePeriodMs f\<rparr>"

text \<open>Only time based image capture is supported, the rest is skipped.\<close>

definition image_capture :: "ImageDataMsg \<Rightarrow> ImageCollectionInfo list" where
  "image_capture d =
     (case timeBasedImageData d of
        None \<Rightarrow> []
      | Some before \<Rightarrow> [\<lparr>imgDeviceID = imageSourceNodeId d, imgFormat = imageType d, imgCollectionType = TIME_BASED,
                          imgBeforeDurationMs = before\<rparr>])"

definition build_condition :: "(nat \<Rightarrow> nat) \<Rightarrow> CollectionSchemeType \<Rightarrow> (nat option \<times> ExpressionCell list) ub_result" where
  "build_condition grow t =
     (case t of
        ConditionBased interval tree rising \<Rightarrow>
          let numNodes = getNumberOfNodes tree MAX_EQUATION_DEPTH;
              v = \<lparr>vecCells = replicate numNodes default_cell, vecCapacity = numNodes\<rparr>
          in ub_bind (serializeNode grow MAX_EQUATION_DEPTH tree v 0) (\<lambda>(rootNode, v, nextIndex). Inr (rootNode, vecCells v))
      | TimeBased period \<Rightarrow> Inr (Some 0, [default_cell\<lparr>cellBool := True, cellType := BOOLEAN\<rparr>])
      | TypeNotSet \<Rightarrow> Inr (None, []))"

definition minimum_publish_interval :: "CollectionSchemeType \<Rightarrow> nat" where
  "minimum_publish_interval t =
     (case t of TimeBased period \<Rightarrow> period | ConditionBased interval tree rising \<Rightarrow> interval
      | TypeNotSet \<Rightarrow> INVALID_MINIMUM_PUBLISH_TIME)"

definition trigger_only_on_rising_edge :: "CollectionSchemeType \<Rightarrow> bool" where
  "trigger_only_on_rising_edge t = (case t of ConditionBased interval tree rising \<Rightarrow> rising | _ \<Rightarrow> False)"

text \<open>What the accessors return for a message that was built.\<close>

definition scheme_of :: "CollectionSchemeMsg \<Rightarrow> nat option \<Rightarrow> ExpressionCell list \<Rightarrow> CollectionScheme" where
  "scheme_of msg rootNode nodes =
     \<lparr>schCollectionSchemeID = campaign_arn msg, schDecoderManifestID = decoder_manifest_arn msg,
      schStartTime = start_time_ms_epoch msg, schExpiryTime = expiry_time_ms_epoch msg,
      schMinimumPublishIntervalMs = minimum_publish_interval (collection_scheme_type msg),
      schAfterDurationMs = after_duration_ms msg, schActiveDTCsIncluded = include_active_dtcs msg,
      schTriggerOnlyOnRisingEdge = trigger_only_on_rising_edge (collection_scheme_type msg),
      schCollectSignals = signal_information msg,
      schCollectRawCanFrames = map collected_frame (raw_can_frames_to_collect msg),
      schPersistNeeded = persist_all_collected_data msg, schCompressionNeeded = compress_collected_data msg,
      schPriority = msg_priority msg, schCondition = rootNode, schExpressionNodes = nodes,
      schProbabilityToSend = (case probabilities msg of None \<Rightarrow> DEFAULT_PROBABILITY_TO_SEND | Some p \<Rightarrow> p),
      schImageCaptureData = concat (map image_capture (image_data msg))\<rparr>"

text \<open>What they return before.\<close>

definition invalid_scheme :: CollectionScheme where
  "invalid_scheme =
     \<lparr>schCollectionSchemeID = [], schDecoderManifestID = [], schStartTime = 2 ^ 64 - 1, schExpiryTime = 2 ^ 64 - 1,
      schMinimumPublishIntervalMs = INVALID_MINIMUM_PUBLISH_TIME, schAfterDurationMs = 2 ^ 32 - 1, schActiveDTCsIncluded = False,
      schTriggerOnlyOnRisingEdge = False, schCollectSignals = [], schCollectRawCanFrames = [], schPersistNeeded = False,
      schCompressionNeeded = False, schPriority = 2 ^ 32 - 1, schCondition = None, schExpressionNodes = [],
      schProbabilityToSend = Fin 0, schImageCaptureData = []\<rparr>"

definition accessors :: "bool \<Rightarrow> CollectionSchemeMsg \<Rightarrow> nat option \<Rightarrow> ExpressionCell list \<Rightarrow> CollectionScheme" where
  "accessors ready msg rootNode nodes = (if \<not> ready then invalid_scheme else scheme_of msg rootNode nodes)"

text \<open>\<open>None\<close> is a build that fails.\<close>

definition build_scheme :: "(nat \<Rightarrow> nat) \<Rightarrow> CollectionSchemeMsg \<Rightarrow> CollectionScheme option ub_result" where
  "build_scheme grow msg =
     (if campaign_arn msg = [] \<or> decoder_manifest_arn msg = [] then Inr None
      else if expiry_time_ms_epoch msg < start_time_ms_epoch msg then Inr None
      else ub_bind (build_condition grow (collection_scheme_type msg)) (\<lambda>(rootNode, nodes). Inr (Some (accessors True msg rootNode nodes))))"

section \<open>The list of schemes\<close>

definition COLLECTION_SCHEME_LIST_BYTE_SIZE_LIMIT :: nat where "COLLECTION_SCHEME_LIST_BYTE_SIZE_LIMIT = 128000000"

record CollectionSchemeList =
  lstReady :: bool
  lstBinaryData :: "nat list"
  lstSchemes :: "CollectionScheme list"

definition new_list :: CollectionSchemeList where
  "new_list = \<lparr>lstReady = False, lstBinaryData = [], lstSchemes = []\<rparr>"

definition getCollectionSchemes :: "CollectionSchemeList \<Rightarrow> CollectionScheme list" where
  "getCollectionSchemes l = (if \<not> lstReady l then [] else lstSchemes l)"

definition list_copyData :: "nat list \<Rightarrow> CollectionSchemeList \<Rightarrow> bool \<times> CollectionSchemeList" where
  "list_copyData bytes l =
     (let l = l\<lparr>lstReady := False\<rparr> in
      if bytes = [] then (False, l)
      else if length bytes > COLLECTION_SCHEME_LIST_BYTE_SIZE_LIMIT then (False, l)
      else (True, l\<lparr>lstBinaryData := bytes\<rparr>))"

fun build_schemes :: "(nat \<Rightarrow> nat) \<Rightarrow> CollectionSchemeMsg list \<Rightarrow> CollectionScheme list ub_result" where
  "build_schemes grow [] = Inr []"
| "build_schemes grow (msg # msgs) =
     ub_bind (build_scheme grow msg) (\<lambda>s. ub_bind (build_schemes grow msgs) (\<lambda>ss.
       Inr (case s of None \<Rightarrow> ss | Some s \<Rightarrow> s # ss)))"

definition list_build ::
  "(nat \<Rightarrow> nat) \<Rightarrow> (nat list \<Rightarrow> CollectionSchemeMsg list option) \<Rightarrow> CollectionSchemeList \<Rightarrow> (bool \<times> CollectionSchemeList) ub_result" where
  "list_build grow parse l =
     (if lstBinaryData l = [] then Inr (False, l)
      else case parse (lstBinaryData l) of
        None \<Rightarrow> Inr (False, l)
      | Some msgs \<Rightarrow> ub_bind (build_schemes grow msgs) (\<lambda>ss. Inr (True, l\<lparr>lstReady := True, lstSchemes := ss\<rparr>)))"

section \<open>The tree a vector denotes\<close>

text \<open>The expression a condition tree stands for, cut off below the depth limit.\<close>

definition leaf :: "ExpressionNodeType \<Rightarrow> double \<Rightarrow> bool \<Rightarrow> nat \<Rightarrow> ExpressionFunction \<Rightarrow> ExpressionNode option" where
  "leaf t x b s fn = Some (ExpressionNode t None None x b s fn)"

fun expr_of :: "nat \<Rightarrow> ConditionNode \<Rightarrow> ExpressionNode option" where
  "expr_of 0 node = None"
| "expr_of (Suc d) (NodeSignalId s) = leaf SIGNAL (Fin 0) False s default_function"
| "expr_of (Suc d) (NodeDoubleValue x) = leaf FLOAT x False 0 default_function"
| "expr_of (Suc d) (NodeBooleanValue b) = leaf BOOLEAN (Fin 0) b 0 default_function"
| "expr_of (Suc d) (NodeWindowFunction s w) =
     leaf WINDOWFUNCTION (Fin 0) False s (default_function\<lparr>windowFunction := convertFunctionType w\<rparr>)"
| "expr_of (Suc d) (NodeGeohashFunction lat lon precision unit) =
     leaf GEOHASHFUNCTION (Fin 0) False 0 (default_function\<lparr>geohashFunction := \<lparr>latitudeSignalID = lat, longitudeSignalID = lon,
       geoPrecision = u8 precision, gpsUnitType = unit\<rparr>\<rparr>)"
| "expr_of (Suc d) (NodeOperator op None r) = None"
| "expr_of (Suc d) (NodeOperator op (Some l) r) =
     (if convertOperatorType op = BOOLEAN then leaf BOOLEAN (Fin 0) False 0 default_function
      else Some (ExpressionNode (convertOperatorType op) (expr_of d l)
        (case r of None \<Rightarrow> None | Some c \<Rightarrow> if op = LOGICAL_NOT then None else expr_of d c) (Fin 0) False 0 default_function))"
| "expr_of (Suc d) NodeFunctionNotSet = None"
| "expr_of (Suc d) NodeNotSet = None"

lemma convert_not [simp]: "convertOperatorType op = OPERATOR_LOGICAL_NOT \<longleftrightarrow> op = LOGICAL_NOT"
  by (cases op) simp_all

lemma number_pos: "0 < getNumberOfNodes node (Suc d)"
  by (cases node) simp_all

lemma two_power: "Suc 0 < 2 * 2 ^ d" by (induction d) auto

lemma number_less: "getNumberOfNodes node d < 2 ^ d"
proof (induction node d rule: getNumberOfNodes.induct)
  case (2 op l r depth)
  have "(case l of None \<Rightarrow> 0 | Some c \<Rightarrow> getNumberOfNodes c depth) < 2 ^ depth"
    "(case r of None \<Rightarrow> 0 | Some c \<Rightarrow> getNumberOfNodes c depth) < 2 ^ depth"
    using 2 by (simp_all split: option.split)
  then show ?case by simp
qed (simp_all add: two_power)

definition agree :: "nat \<Rightarrow> nat \<Rightarrow> ExpressionCell list \<Rightarrow> ExpressionCell list \<Rightarrow> bool" where
  "agree a b xs ys \<longleftrightarrow> (\<forall>j. a \<le> j \<and> j < b \<longrightarrow> at_index xs j = at_index ys j)"

text \<open>A pointer denotes an expression in every vector that has the cells of a segment.\<close>

definition denotes_within :: "nat \<Rightarrow> nat \<Rightarrow> ExpressionCell list \<Rightarrow> nat option \<Rightarrow> ExpressionNode option \<Rightarrow> bool" where
  "denotes_within a b cells p e \<longleftrightarrow> (\<forall>cells'. agree a b cells cells' \<longrightarrow> denotes (at_index cells') p e)"

definition room :: "nat \<Rightarrow> node_vector \<Rightarrow> bool" where
  "room n v \<longleftrightarrow> length (vecCells v) + n \<le> vecCapacity v"

text \<open>
  What serialising a node with \<open>n\<close> nodes below it does to a vector with room for them, whose
  cells from \<open>nextIndex\<close> to \<open>bound\<close> are fresh.
\<close>

definition serialized ::
  "nat \<Rightarrow> nat \<Rightarrow> node_vector \<Rightarrow> nat \<Rightarrow> ExpressionNode option \<Rightarrow> nat option \<times> node_vector \<times> nat \<Rightarrow> bool" where
  "serialized bound n v nextIndex e r \<longleftrightarrow>
     (case r of (p, v', next') \<Rightarrow>
        nextIndex \<le> next' \<and> next' \<le> nextIndex + n \<and> vecCapacity v' = vecCapacity v \<and>
        bound \<le> length (vecCells v') \<and> length (vecCells v') \<le> length (vecCells v) + n \<and>
        agree 0 nextIndex (vecCells v) (vecCells v') \<and> agree next' bound (vecCells v) (vecCells v') \<and>
        denotes_within nextIndex next' (vecCells v') p e)"

lemma agree_refl [simp]: "agree a b xs xs" by (simp add: agree_def)
lemma agree_sym: "agree a b xs ys \<Longrightarrow> agree a b ys xs" by (simp add: agree_def)
lemma agree_trans: "agree a b xs ys \<Longrightarrow> agree a b ys zs \<Longrightarrow> agree a b xs zs" by (simp add: agree_def)
lemma agree_sub: "agree a b xs ys \<Longrightarrow> a \<le> c \<Longrightarrow> d \<le> b \<Longrightarrow> agree c d xs ys" by (simp add: agree_def)
lemma agree_update: "i < a \<or> b \<le> i \<Longrightarrow> agree a b xs (xs[i := x])" by (auto simp: agree_def at_index_def)
lemma agree_append: "b \<le> length xs \<Longrightarrow> agree a b xs (xs @ ys)" by (auto simp: agree_def at_index_def nth_append)

lemma agree_nth: "agree a b xs ys \<Longrightarrow> a \<le> i \<Longrightarrow> i < b \<Longrightarrow> i < length xs \<Longrightarrow> i < length ys \<and> ys ! i = xs ! i"
  by (auto simp: agree_def at_index_def split: if_splits dest: spec [of _ i])

lemma vec_simps [simp]:
  "vecCapacity (update_cell i f v) = vecCapacity v" "length (vecCells (update_cell i f v)) = length (vecCells v)"
  "vecCells (update_cell i f v) = (vecCells v)[i := f (vecCells v ! i)]"
  by (simp_all add: update_cell_def)

lemma denotes_within_mono:
  assumes "denotes_within a b cells p e" "agree a b cells cells'"
  shows "denotes_within a b cells' p e"
  using assms agree_trans by (auto simp: denotes_within_def)

lemma denotes_leaf:
  assumes "cur < length cells" "cells ! cur = \<lparr>cellType = t, cellLeft = None, cellRight = None, cellFloat = x, cellBool = b,
     cellSignal = s, cellFunction = fn\<rparr>" "a \<le> cur" "cur < n"
  shows "denotes_within a n cells (Some cur) (leaf t x b s fn)"
  using assms by (auto simp: denotes_within_def leaf_def agree_def at_index_def dest!: spec [of _ cur])

lemma denotes_operator:
  assumes "cur < length cells" "cells ! cur = \<lparr>cellType = t, cellLeft = lp, cellRight = rp, cellFloat = Fin 0, cellBool = False,
     cellSignal = 0, cellFunction = default_function\<rparr>"
    and "denotes_within (Suc cur) m cells lp l" "denotes_within m n cells rp r" "cur < m" "m \<le> n"
  shows "denotes_within cur n cells (Some cur) (Some (ExpressionNode t l r (Fin 0) False 0 default_function))"
  unfolding denotes_within_def
proof (intro allI impI)
  fix cells' assume a: "agree cur n cells cells'"
  have "at_index cells' cur = Some (cells ! cur)" using agree_nth [OF a, of cur] assms(1,5,6) by (simp add: at_index_def)
  moreover have "denotes (at_index cells') lp l" "denotes (at_index cells') rp r"
    using assms(3-6) agree_sub [OF a] by (auto simp: denotes_within_def)
  ultimately show "denotes (at_index cells') (Some cur) (Some (ExpressionNode t l r (Fin 0) False 0 default_function))"
    by (simp add: assms(2))
qed

text \<open>A leaf is written into the fresh cell.\<close>

lemma serialized_leaf:
  assumes "cur < bound" "bound \<le> length (vecCells v)" "vecCells v ! cur = default_cell" "0 < n"
    and "f default_cell = \<lparr>cellType = t, cellLeft = None, cellRight = None, cellFloat = x, cellBool = b, cellSignal = s, cellFunction = fn\<rparr>"
  shows "serialized bound n v cur (leaf t x b s fn)
     (Some cur, update_cell cur f (v\<lparr>vecCells := vecCells v @ [default_cell]\<rparr>), Suc cur)"
proof -
  let ?xs = "(vecCells v @ [default_cell])[cur := f default_cell]"
  have nth: "(vecCells v @ [default_cell]) ! cur = default_cell" using assms by (simp add: nth_append)
  have "agree 0 cur (vecCells v) ?xs" "agree (Suc cur) bound (vecCells v) ?xs"
    using assms by (auto intro: agree_trans [OF agree_append agree_update])
  moreover have "denotes_within cur (Suc cur) ?xs (Some cur) (leaf t x b s fn)"
    by (rule denotes_leaf) (use assms in \<open>simp_all add: nth_list_update\<close>)
  ultimately show ?thesis using assms by (simp add: serialized_def nth)
qed

lemma serialized_null:
  assumes "cur < bound" "bound \<le> length (vecCells v)" "0 < n"
  shows "serialized bound n v cur None (None, pop_back (v\<lparr>vecCells := vecCells v @ [default_cell]\<rparr>), Suc cur)"
  using assms by (simp add: serialized_def pop_back_def denotes_within_def)

lemma serialized_operator:
  assumes v2: "v2 = update_cell cur (\<lambda>c. c\<lparr>cellType := t\<rparr>) (v\<lparr>vecCells := vecCells v @ [default_cell]\<rparr>)"
    and v: "cur < bound" "bound \<le> length (vecCells v)" "vecCells v ! cur = default_cell"
    and l: "serialized bound nl v2 (Suc cur) l (lp, v3, n1)"
    and v4: "v4 = update_cell cur (\<lambda>c. c\<lparr>cellLeft := lp\<rparr>) v3"
    and r: "serialized bound nr v4 n1 r (rp, v5, n2)"
    and v6: "v6 = update_cell cur (\<lambda>c. c\<lparr>cellRight := rp\<rparr>) v5" and n: "1 + nl + nr \<le> n"
  shows "serialized bound n v cur (Some (ExpressionNode t l r (Fin 0) False 0 default_function)) (Some cur, v6, n2)"
proof -
  note L = l [unfolded serialized_def prod.case] and R = r [unfolded serialized_def prod.case]
  have idx: "Suc cur \<le> n1" "n1 \<le> n2" using L R by auto
  have len: "cur < length (vecCells v2)" "cur < length (vecCells v3)" "cur < length (vecCells v4)" "cur < length (vecCells v5)"
    using v v2 v4 L R by auto
  have c2: "vecCells v2 ! cur = default_cell\<lparr>cellType := t\<rparr>" using v len(1) by (simp add: v2 nth_append)
  have c3: "vecCells v3 ! cur = default_cell\<lparr>cellType := t\<rparr>"
    using L agree_nth [of 0 "Suc cur" "vecCells v2" "vecCells v3" cur] len(1) c2 by simp
  have c4: "vecCells v4 ! cur = default_cell\<lparr>cellType := t, cellLeft := lp\<rparr>" using c3 len(2) by (simp add: v4)
  have c5: "vecCells v5 ! cur = default_cell\<lparr>cellType := t, cellLeft := lp\<rparr>"
    using R agree_nth [of 0 n1 "vecCells v4" "vecCells v5" cur] idx len(3) c4 by simp
  have c6: "vecCells v6 ! cur = \<lparr>cellType = t, cellLeft = lp, cellRight = rp, cellFloat = Fin 0, cellBool = False,
     cellSignal = 0, cellFunction = default_function\<rparr>"
    using c5 len(4) by (simp add: v6 default_cell_def)
  have a45: "agree a b (vecCells v3) (vecCells v4)" "agree a b (vecCells v5) (vecCells v6)" if "cur < a \<or> b \<le> cur" for a b
    using that by (simp_all add: v4 v6 agree_update)
  have a2: "agree a b (vecCells v) (vecCells v2)" if "cur < a \<or> b \<le> cur" "b \<le> bound" for a b
    using that v by (simp add: v2 agree_trans [OF agree_append agree_update])
  have "denotes_within (Suc cur) n1 (vecCells v6) lp l"
    by (rule denotes_within_mono [of _ _ "vecCells v3"])
       (use L R idx in \<open>auto intro!: agree_trans [OF a45(1)] agree_trans [OF _ a45(2)] elim: agree_sub\<close>)
  moreover have "denotes_within n1 n2 (vecCells v6) rp r"
    by (rule denotes_within_mono [of _ _ "vecCells v5"]) (use R idx a45(2) in auto)
  ultimately have d: "denotes_within cur n2 (vecCells v6) (Some cur) (Some (ExpressionNode t l r (Fin 0) False 0 default_function))"
    by (intro denotes_operator [OF _ c6, where m = n1]) (use len(4) idx in \<open>simp_all add: v6\<close>)
  have lo: "agree 0 cur (vecCells v) (vecCells v6)"
    by (rule agree_trans [OF a2 agree_trans [OF _ agree_trans [OF a45(1) agree_trans [OF _ a45(2)]]]])
       (use L R idx v in \<open>auto elim: agree_sub\<close>)
  have hi: "agree n2 bound (vecCells v) (vecCells v6)"
    by (rule agree_trans [OF a2 agree_trans [OF _ agree_trans [OF a45(1) agree_trans [OF _ a45(2)]]]])
       (use L R idx v in \<open>auto elim: agree_sub\<close>)
  show ?thesis using L R idx n d lo hi v2 v4 v6 by (simp add: serialized_def)
qed

text \<open>With room for its nodes, a condition tree is serialised without moving the vector.\<close>

text \<open>A vector with room for a tree: default cells from the next index on, and no wrap of indices.\<close>

definition prepared :: "nat \<Rightarrow> nat \<Rightarrow> ConditionNode \<Rightarrow> node_vector \<Rightarrow> nat \<Rightarrow> bool" where
  "prepared bound d node v cur \<longleftrightarrow> room (getNumberOfNodes node d) v \<and> cur + getNumberOfNodes node d \<le> bound \<and>
     bound \<le> length (vecCells v) \<and> bound < 2 ^ 32 \<and> (\<forall>j. cur \<le> j \<and> j < bound \<longrightarrow> vecCells v ! j = default_cell)"

lemma prepared_entry:
  assumes "prepared bound (Suc d) node v cur"
  shows "emplace_back grow cur v = Inr (v\<lparr>vecCells := vecCells v @ [default_cell]\<rparr>)" "u32 (Suc cur) = Suc cur"
    and "cur < bound" "bound \<le> length (vecCells v)" "vecCells v ! cur = default_cell" "\<not> Suc (length (vecCells v)) \<le> cur"
  using assms number_pos [of node d] by (auto simp: prepared_def emplace_back_def room_def u32_id)

lemma serialize_operator_ok:
  assumes nb: "convertOperatorType op \<noteq> BOOLEAN"
    and IH: "\<And>node v cur. prepared bound d node v cur \<Longrightarrow>
      \<exists>r. serializeNode grow d node v cur = Inr r \<and> serialized bound (getNumberOfNodes node d) v cur (expr_of d node) r"
    and pre: "prepared bound (Suc d) (NodeOperator op (Some l) r) v cur"
  shows "\<exists>x. serializeNode grow (Suc d) (NodeOperator op (Some l) r) v cur = Inr x \<and>
    serialized bound (getNumberOfNodes (NodeOperator op (Some l) r) (Suc d)) v cur (expr_of (Suc d) (NodeOperator op (Some l) r)) x"
proof -
  let ?nl = "getNumberOfNodes l d" and ?n = "getNumberOfNodes (NodeOperator op (Some l) r) (Suc d)"
  note entry = prepared_entry [OF pre] and p = pre [unfolded prepared_def]
  define rr where "rr = (if op = LOGICAL_NOT then None else r)"
  define nr where "nr = (case rr of None \<Rightarrow> 0 | Some c \<Rightarrow> getNumberOfNodes c d)"
  define v2 where "v2 = update_cell cur (\<lambda>c. c\<lparr>cellType := convertOperatorType op\<rparr>) (v\<lparr>vecCells := vecCells v @ [default_cell]\<rparr>)"
  have n: "1 + ?nl + nr \<le> ?n" by (simp add: nr_def rr_def split: option.split)
  have len2: "length (vecCells v2) = Suc (length (vecCells v))" by (simp add: v2_def)
  have c2: "vecCells v2 ! j = vecCells v ! j" if "j \<noteq> cur" "j < bound" for j
    using that entry(4) by (simp add: v2_def nth_append)
  have "prepared bound d l v2 (Suc cur)" using p n c2 len2 by (auto simp: prepared_def room_def v2_def)
  then obtain lp v3 n1 where l: "serializeNode grow d l v2 (Suc cur) = Inr (lp, v3, n1)"
      "serialized bound ?nl v2 (Suc cur) (expr_of d l) (lp, v3, n1)"
    using IH [of l v2 "Suc cur"] by auto
  define v4 where "v4 = update_cell cur (\<lambda>c. c\<lparr>cellLeft := lp\<rparr>) v3"
  note L = l(2) [unfolded serialized_def prod.case]
  have c4: "vecCells v4 ! j = default_cell" if "n1 \<le> j" "j < bound" for j
  proof -
    have "vecCells v3 ! j = vecCells v2 ! j"
      using agree_nth [of n1 bound "vecCells v2" "vecCells v3" j] L that entry(4) len2 by simp
    then show ?thesis using that L c2 [of j] p by (auto simp: v4_def)
  qed
  note whole = serialized_operator [OF v2_def entry(3,4,5) l(2) v4_def _ _ n]
  note simps = entry(1,2,6) Let_def nb l(1) v2_def [symmetric] v4_def [symmetric] rr_def
  show ?thesis
  proof (cases rr)
    case None
    have "serialized bound nr v4 n1 None (None, v4, n1)"
      using L None by (simp add: serialized_def nr_def v4_def denotes_within_def)
    from whole [OF this refl] show ?thesis using None by (auto simp: simps split: if_splits option.splits)
  next
    case (Some rc)
    have "prepared bound d rc v4 n1" using p n c4 len2 L Some by (auto simp: prepared_def room_def v4_def nr_def v2_def)
    then obtain rp v5 n2 where r: "serializeNode grow d rc v4 n1 = Inr (rp, v5, n2)" "serialized bound nr v4 n1 (expr_of d rc) (rp, v5, n2)"
      using IH [of rc v4 n1] Some by (auto simp: nr_def)
    from whole [OF r(2) refl] show ?thesis using Some r(1) by (auto simp: simps split: if_splits)
  qed
qed

lemma serializeNode_ok:
  "prepared bound d node v cur \<Longrightarrow>
     \<exists>r. serializeNode grow d node v cur = Inr r \<and> serialized bound (getNumberOfNodes node d) v cur (expr_of d node) r"
proof (induction d arbitrary: node v cur)
  case 0
  then show ?case by (simp add: serialized_def denotes_within_def prepared_def)
next
  case (Suc d)
  note entry = prepared_entry [OF Suc.prems] and pos = number_pos [of node d]
  note simps = entry(1,2,6) Let_def
  note leaf = serialized_leaf [OF entry(3,4,5) pos] and null = serialized_null [OF entry(3,4) pos]
  show ?case
  proof (cases node)
    case (NodeOperator op lo r)
    show ?thesis
    proof (cases "lo = None \<or> convertOperatorType op = BOOLEAN")
      case False
      then show ?thesis using serialize_operator_ok [OF _ Suc.IH] Suc.prems NodeOperator by auto
    next
      case True
      have "update_cell cur (\<lambda>c. c\<lparr>cellBool := False\<rparr>) (update_cell cur (\<lambda>c. c\<lparr>cellType := BOOLEAN\<rparr>) (v\<lparr>vecCells := vecCells v @ [default_cell]\<rparr>)) =
          update_cell cur (\<lambda>c. c\<lparr>cellType := BOOLEAN, cellBool := False\<rparr>) (v\<lparr>vecCells := vecCells v @ [default_cell]\<rparr>)"
        using entry(6) by (simp add: update_cell_def nth_append)
      then show ?thesis using True NodeOperator null leaf [of "\<lambda>c. c\<lparr>cellType := BOOLEAN, cellBool := False\<rparr>" BOOLEAN "Fin 0" False 0 default_function]
        by (cases lo) (auto simp: simps default_cell_def)
    qed
  next
    case (NodeSignalId s)
    then show ?thesis using leaf [where b = False and f = "\<lambda>c. c\<lparr>cellSignal := s, cellType := SIGNAL\<rparr>"] by (simp add: simps default_cell_def)
  next
    case (NodeDoubleValue x)
    then show ?thesis using leaf [where b = False and f = "\<lambda>c. c\<lparr>cellFloat := x, cellType := FLOAT\<rparr>"] by (simp add: simps default_cell_def)
  next
    case (NodeBooleanValue b)
    then show ?thesis using leaf [where b = b and f = "\<lambda>c. c\<lparr>cellBool := b, cellType := BOOLEAN\<rparr>"] by (simp add: simps default_cell_def)
  next
    case (NodeWindowFunction s w)
    then show ?thesis using leaf [where b = False and f = "\<lambda>c. c\<lparr>cellSignal := s,
           cellFunction := (cellFunction c)\<lparr>windowFunction := convertFunctionType w\<rparr>, cellType := WINDOWFUNCTION\<rparr>"]
      by (simp add: simps default_cell_def)
  next
    case (NodeGeohashFunction lat lon precision unit)
    then show ?thesis using leaf [where b = False and f = "\<lambda>c. c\<lparr>cellType := GEOHASHFUNCTION,
           cellFunction := (cellFunction c)\<lparr>geohashFunction := \<lparr>latitudeSignalID = lat, longitudeSignalID = lon,
             geoPrecision = u8 precision, gpsUnitType = unit\<rparr>\<rparr>\<rparr>"]
      by (simp add: simps default_cell_def)
  qed (use null in \<open>simp_all add: simps\<close>)
qed

section \<open>Building a scheme\<close>

definition condition_expr :: "CollectionSchemeType \<Rightarrow> ExpressionNode option" where
  "condition_expr t =
     (case t of ConditionBased interval tree rising \<Rightarrow> expr_of MAX_EQUATION_DEPTH tree
      | TimeBased period \<Rightarrow> leaf BOOLEAN (Fin 0) True 0 default_function
      | TypeNotSet \<Rightarrow> None)"

lemma serialize_full:
  assumes "length (vecCells v) = vecCapacity v" "vecCapacity v < grow (vecCapacity v)"
  shows "serializeNode grow (Suc d) node v 0 = serializeNode grow (Suc d) node (v\<lparr>vecCapacity := grow (vecCapacity v)\<rparr>) 0"
proof -
  have "emplace_back grow 0 v = emplace_back grow 0 (v\<lparr>vecCapacity := grow (vecCapacity v)\<rparr>)"
    using assms by (simp add: emplace_back_def)
  then show ?thesis unfolding serializeNode.simps by simp
qed

lemma build_condition_ok:
  assumes "\<forall>n. 2 * n \<le> grow n"
  shows "\<exists>p cells. build_condition grow t = Inr (p, cells) \<and> denotes (at_index cells) p (condition_expr t)"
proof (cases t)
  case (TimeBased period)
  then show ?thesis by (auto simp: build_condition_def condition_expr_def leaf_def at_index_def default_cell_def)
next
  case TypeNotSet
  then show ?thesis by (simp add: build_condition_def condition_expr_def)
next
  case (ConditionBased interval tree rising)
  define n where "n = getNumberOfNodes tree MAX_EQUATION_DEPTH"
  have depth: "MAX_EQUATION_DEPTH = Suc 9" by (simp add: MAX_EQUATION_DEPTH_def)
  have n: "0 < n" "n < 2 ^ 32"
    using number_pos [of tree 9] number_less [of tree MAX_EQUATION_DEPTH] by (simp_all add: n_def depth)
  have grows: "2 * n \<le> grow n" using assms by blast
  let ?v = "\<lparr>vecCells = replicate n default_cell, vecCapacity = n\<rparr>"
  obtain p v' k where r: "serializeNode grow MAX_EQUATION_DEPTH tree (?v\<lparr>vecCapacity := grow n\<rparr>) 0 = Inr (p, v', k)"
    "serialized n n (?v\<lparr>vecCapacity := grow n\<rparr>) 0 (expr_of MAX_EQUATION_DEPTH tree) (p, v', k)"
    using serializeNode_ok [of n MAX_EQUATION_DEPTH tree "?v\<lparr>vecCapacity := grow n\<rparr>" 0 grow] n grows
    by (auto simp: prepared_def room_def n_def [symmetric])
  have "serializeNode grow MAX_EQUATION_DEPTH tree ?v 0 = Inr (p, v', k)"
    using serialize_full [of ?v grow 9 tree] n grows r(1) unfolding depth by simp
  then have "build_condition grow t = Inr (p, vecCells v')"
    using ConditionBased by (simp add: build_condition_def n_def [symmetric] Let_def)
  moreover have "denotes (at_index (vecCells v')) p (condition_expr t)"
    using r(2) ConditionBased by (auto simp: serialized_def denotes_within_def condition_expr_def)
  ultimately show ?thesis by blast
qed

definition msg_valid :: "CollectionSchemeMsg \<Rightarrow> bool" where
  "msg_valid msg \<longleftrightarrow> campaign_arn msg \<noteq> [] \<and> decoder_manifest_arn msg \<noteq> [] \<and> start_time_ms_epoch msg \<le> expiry_time_ms_epoch msg"

definition built_from :: "CollectionSchemeMsg \<Rightarrow> CollectionScheme \<Rightarrow> bool" where
  "built_from msg s \<longleftrightarrow> s = scheme_of msg (schCondition s) (schExpressionNodes s) \<and>
     denotes (at_index (schExpressionNodes s)) (schCondition s) (condition_expr (collection_scheme_type msg))"

lemma build_scheme_ok:
  assumes "\<forall>n. 2 * n \<le> grow n"
  shows "\<exists>r. build_scheme grow msg = Inr r \<and> (case r of None \<Rightarrow> \<not> msg_valid msg | Some s \<Rightarrow> msg_valid msg \<and> built_from msg s)"
proof (cases "msg_valid msg")
  case True
  obtain p cells where c: "build_condition grow (collection_scheme_type msg) = Inr (p, cells)"
    "denotes (at_index cells) p (condition_expr (collection_scheme_type msg))"
    using build_condition_ok [OF assms] by blast
  have "build_scheme grow msg = Inr (Some (scheme_of msg p cells))"
    using True c(1) by (simp add: build_scheme_def msg_valid_def accessors_def)
  then show ?thesis using c(2) True by (auto simp: built_from_def scheme_of_def)
next
  case False
  then have "build_scheme grow msg = Inr None" by (auto simp: build_scheme_def msg_valid_def)
  then show ?thesis using False by simp
qed


text \<open>
  The nodes are allocated by \<open>resize\<close> and appended once more, so the vector moves under
  its pointers where it does not double: with growth by half, the condition \<open>signal > 2\<close> is
  enough to write through a stale pointer.
\<close>

theorem growth_by_half_dangles:
  "build_condition (\<lambda>n. n + n div 2) (ConditionBased 0 (NodeOperator COMPARE_BIGGER (Some (NodeSignalId 7)) (Some (NodeDoubleValue (Fin 2)))) False) =
     Inl DanglingPointer"
proof -
  let ?tree = "NodeOperator COMPARE_BIGGER (Some (NodeSignalId 7)) (Some (NodeDoubleValue (Fin 2)))"
  have "serializeNode (\<lambda>n. n + n div 2) (Suc (Suc d)) ?tree
      \<lparr>vecCells = [default_cell, default_cell, default_cell], vecCapacity = 3\<rparr> 0 = Inl DanglingPointer" for d
    by (simp add: emplace_back_def update_cell_def Let_def u32_def)
  moreover have "getNumberOfNodes ?tree (Suc (Suc d)) = 3" for d by simp
  from this [of 8] have "getNumberOfNodes ?tree 10 = 3" by simp
  ultimately show ?thesis using \<open>\<And>d. serializeNode _ (Suc (Suc d)) _ _ _ = _\<close> [of 8]
    by (simp add: build_condition_def MAX_EQUATION_DEPTH_def numeral_3_eq_3 Let_def)
qed

text \<open>
  A condition written with \<open>!=\<close> is built without an error and evaluates to false whatever
  its operands are.
\<close>

theorem not_equal_is_false:
  assumes "\<forall>n. 2 * n \<le> grow n"
    and "build_condition grow (ConditionBased interval (NodeOperator COMPARE_NOT_EQUAL (Some l) r) rising) = Inr (p, cells)"
  shows "\<exists>e. denotes (at_index cells) p (Some e) \<and>
     (\<forall>m c g d b. eval m c (Some e) g d b MAX_EQUATION_DEPTH = Inr (SUCCESSFUL, d, False, g))"
proof -
  have "condition_expr (ConditionBased interval (NodeOperator COMPARE_NOT_EQUAL (Some l) r) rising) =
      Some (ExpressionNode BOOLEAN None None (Fin 0) False 0 default_function)"
    using expr_of.simps(8) [of 9 COMPARE_NOT_EQUAL l r] by (simp add: condition_expr_def MAX_EQUATION_DEPTH_def leaf_def)
  then have "denotes (at_index cells) p (Some (ExpressionNode BOOLEAN None None (Fin 0) False 0 default_function))"
    using build_condition_ok [OF assms(1), of "ConditionBased interval (NodeOperator COMPARE_NOT_EQUAL (Some l) r) rising"] assms(2)
    by auto
  moreover have "eval m c (Some (ExpressionNode BOOLEAN None None (Fin 0) False 0 default_function)) g d b MAX_EQUATION_DEPTH =
      Inr (SUCCESSFUL, d, False, g)" for m c g d b
    using eval.simps(3) [of m c _ g d b 9] by (simp add: MAX_EQUATION_DEPTH_def)
  ultimately show ?thesis by blast
qed

section \<open>Building the list\<close>

lemma build_schemes_ok:
  assumes "\<forall>n. 2 * n \<le> grow n"
  shows "\<exists>ss. build_schemes grow msgs = Inr ss \<and> list_all2 built_from (filter msg_valid msgs) ss"
proof (induction msgs)
  case (Cons msg msgs)
  obtain r where r: "build_scheme grow msg = Inr r" "case r of None \<Rightarrow> \<not> msg_valid msg | Some s \<Rightarrow> msg_valid msg \<and> built_from msg s"
    using build_scheme_ok [OF assms] by blast
  then show ?case using Cons.IH by (cases r) auto
qed simp

text \<open>
  A document that parses is turned into the list of the schemes of its valid messages, in
  their order; the invalid ones are dropped and do not fail the rest.
\<close>

theorem list_build_result:
  assumes "\<forall>n. 2 * n \<le> grow n" "lstBinaryData l \<noteq> []" "parse (lstBinaryData l) = Some msgs"
  shows "\<exists>l'. list_build grow parse l = Inr (True, l') \<and> list_all2 built_from (filter msg_valid msgs) (getCollectionSchemes l')"
  using build_schemes_ok [OF assms(1), of msgs] assms(2,3) by (auto simp: list_build_def getCollectionSchemes_def)

section \<open>Concrete instances\<close>

definition sample_msg :: CollectionSchemeMsg where
  "sample_msg = \<lparr>campaign_arn = ''c1'', decoder_manifest_arn = ''dm1'', start_time_ms_epoch = 100, expiry_time_ms_epoch = 200,
     collection_scheme_type = TimeBased 10, after_duration_ms = 0, include_active_dtcs = False, signal_information = [],
     raw_can_frames_to_collect = [], persist_all_collected_data = False, compress_collected_data = False, msg_priority = 0,
     probabilities = None, image_data = []\<rparr>"


theorem not_equal_is_false_witness:
  "\<exists>e. \<forall>m c g d b. eval m c (Some e) g d b MAX_EQUATION_DEPTH = Inr (SUCCESSFUL, d, False, g)"
proof -
  let ?t = "ConditionBased 0 (NodeOperator COMPARE_NOT_EQUAL (Some (NodeSignalId 7)) (Some (NodeSignalId 7))) False"
  obtain p cells where b: "build_condition (\<lambda>n. 2 * n) ?t = Inr (p, cells)"
    using build_condition_ok [of "\<lambda>n. 2 * n" ?t] by auto
  show ?thesis using not_equal_is_false [OF _ b] by auto
qed

theorem list_build_result_witness:
  "\<exists>l'. list_build (\<lambda>n. 2 * n) (\<lambda>_. Some [sample_msg]) (new_list\<lparr>lstBinaryData := [1]\<rparr>) = Inr (True, l') \<and>
     length (getCollectionSchemes l') = 1"
proof -
  have "filter msg_valid [sample_msg] = [sample_msg]" by (simp add: msg_valid_def sample_msg_def)
  then show ?thesis
    using list_build_result [of "\<lambda>n. 2 * n" "new_list\<lparr>lstBinaryData := [1]\<rparr>" "\<lambda>_. Some [sample_msg]" "[sample_msg]"]
    by (auto dest!: list_all2_lengthD)
qed

end
