(* ===== verification/DecoderManifest.thy ===== *)
theory DecoderManifest
  imports SchemeIngestion
begin

text \<open>
  Decoder manifests (\<open>DecoderManifestIngestion.cpp\<close>, \<open>IDecoderManifest.h\<close>): the message of
  \<open>decoder_manifest.proto\<close> as a record, the four dictionaries built from it, and the lookups.
  Parsing the binary document is a parameter. An unordered map that is only looked up is a map.
\<close>

section \<open>Messages and formats\<close>

record CANSignalMsg =
  cmSignalID :: nat
  cmInterfaceID :: string
  cmMessageID :: nat
  cmIsBigEndian :: bool
  cmIsSigned :: bool
  cmStartBit :: nat
  cmOffset :: double
  cmFactor :: double
  cmLength :: nat

record OBDPIDSignalMsg =
  omSignalID :: nat
  omPidResponseLength :: nat
  omServiceMode :: nat
  omPID :: nat
  omScaling :: double
  omOffset :: double
  omStartByte :: nat
  omByteLength :: nat
  omBitRightShift :: nat
  omBitMaskLength :: nat

record DecoderManifestMsg =
  manifest_arn :: string
  can_signals :: "CANSignalMsg list"
  obd_pid_signals :: "OBDPIDSignalMsg list"

datatype VehicleDataSourceProtocol = INVALID_PROTOCOL | CAN_TP | SOMEIP | OBD | RAW_SOCKET | DOIP | AVB | DDS

record PIDSignalDecoderFormat =
  mPidResponseLength :: nat
  mServiceMode :: nat
  mPID :: nat
  mScaling :: double
  pidOffset :: double
  mStartByte :: nat
  mByteLength :: nat
  mBitRightShift :: nat
  mBitMaskLength :: nat

definition default_pid_format :: PIDSignalDecoderFormat where
  "default_pid_format =
     \<lparr>mPidResponseLength = 0, mServiceMode = 0, mPID = 0, mScaling = Fin 0, pidOffset = Fin 0, mStartByte = 0,
      mByteLength = 0, mBitRightShift = 0, mBitMaskLength = 0\<rparr>"

definition INVALID_CAN_FRAME_ID :: nat where "INVALID_CAN_FRAME_ID = 0xFFFFFFFF"
definition DECODER_MANIFEST_BYTE_SIZE_LIMIT :: nat where "DECODER_MANIFEST_BYTE_SIZE_LIMIT = 128000000"

record DecoderManifest =
  mReady :: bool
  mProtoBinaryData :: "nat list"
  mManifestID :: string
  mCANMessageFormatDictionary :: "string \<Rightarrow> (nat \<Rightarrow> CANMessageFormat option) option"
  mSignalToFrame :: "nat \<Rightarrow> (nat \<times> string) option"
  mSignalToProtocol :: "nat \<Rightarrow> VehicleDataSourceProtocol option"
  mSignalToPID :: "nat \<Rightarrow> PIDSignalDecoderFormat option"

definition new_manifest :: DecoderManifest where
  "new_manifest =
     \<lparr>mReady = False, mProtoBinaryData = [], mManifestID = [], mCANMessageFormatDictionary = (\<lambda>_. None),
      mSignalToFrame = (\<lambda>_. None), mSignalToProtocol = (\<lambda>_. None), mSignalToPID = (\<lambda>_. None)\<rparr>"

section \<open>Lookups\<close>

definition getID :: "DecoderManifest \<Rightarrow> string" where
  "getID d = (if \<not> mReady d then [] else mManifestID d)"

definition getCANMessageFormat :: "nat \<Rightarrow> string \<Rightarrow> DecoderManifest \<Rightarrow> CANMessageFormat" where
  "getCANMessageFormat canID interfaceID d =
     (if \<not> mReady d then default_message_format
      else case mCANMessageFormatDictionary d interfaceID of
        None \<Rightarrow> default_message_format
      | Some frames \<Rightarrow> (case frames canID of None \<Rightarrow> default_message_format | Some f \<Rightarrow> f))"

definition getCANFrameAndInterfaceID :: "nat \<Rightarrow> DecoderManifest \<Rightarrow> nat \<times> string" where
  "getCANFrameAndInterfaceID signalID d =
     (if \<not> mReady d then (INVALID_CAN_FRAME_ID, [])
      else case mSignalToFrame d signalID of Some p \<Rightarrow> p | None \<Rightarrow> (INVALID_CAN_FRAME_ID, []))"

definition getNetworkProtocol :: "nat \<Rightarrow> DecoderManifest \<Rightarrow> VehicleDataSourceProtocol" where
  "getNetworkProtocol signalID d =
     (if \<not> mReady d then INVALID_PROTOCOL
      else case mSignalToProtocol d signalID of Some p \<Rightarrow> p | None \<Rightarrow> INVALID_PROTOCOL)"

definition getPIDSignalDecoderFormat :: "nat \<Rightarrow> DecoderManifest \<Rightarrow> PIDSignalDecoderFormat" where
  "getPIDSignalDecoderFormat signalID d =
     (if \<not> mReady d then default_pid_format
      else case mSignalToPID d signalID of Some p \<Rightarrow> p | None \<Rightarrow> default_pid_format)"

section \<open>Building\<close>

definition manifest_copyData :: "nat list \<Rightarrow> DecoderManifest \<Rightarrow> bool \<times> DecoderManifest" where
  "manifest_copyData bytes d =
     (if bytes = [] then (False, d)
      else if length bytes > DECODER_MANIFEST_BYTE_SIZE_LIMIT then (False, d)
      else (True, d\<lparr>mProtoBinaryData := bytes, mReady := False\<rparr>))"

definition can_signal_format :: "CANSignalMsg \<Rightarrow> CANSignalFormat" where
  "can_signal_format s =
     \<lparr>mSignalID = cmSignalID s, mIsBigEndian = cmIsBigEndian s, mIsSigned = cmIsSigned s,
      mFirstBitPosition = u16 (cmStartBit s), mSizeInBits = u16 (cmLength s), mOffset = cmOffset s, mFactor = cmFactor s,
      mIsMultiplexorSignal = False, mMultiplexorValue = 0\<rparr>"

definition add_format :: "CANSignalMsg \<Rightarrow> (string \<Rightarrow> (nat \<Rightarrow> CANMessageFormat option) option) \<Rightarrow>
    (string \<Rightarrow> (nat \<Rightarrow> CANMessageFormat option) option)" where
  "add_format s dict =
     (let i = cmInterfaceID s; f = cmMessageID s in
      case dict i of
        None \<Rightarrow> dict(i \<mapsto> [f \<mapsto> \<lparr>mMessageID = f, mSizeInBytes = MAX_CAN_FRAME_BYTE_SIZE, mIsMultiplexed = False,
                               mSignals = [can_signal_format s]\<rparr>])
      | Some frames \<Rightarrow>
          (case frames f of
             Some fmt \<Rightarrow> dict(i \<mapsto> frames(f \<mapsto> fmt\<lparr>mSignals := mSignals fmt @ [can_signal_format s]\<rparr>))
           | None \<Rightarrow> dict(i \<mapsto> frames(f \<mapsto> \<lparr>mMessageID = f, mSizeInBytes = MAX_CAN_FRAME_BYTE_SIZE, mIsMultiplexed = False,
                                            mSignals = [can_signal_format s]\<rparr>))))"

text \<open>\<open>insert\<close> keeps the entry that is there, \<open>operator[]\<close> replaces it.\<close>

definition add_can_msg :: "CANSignalMsg \<Rightarrow> DecoderManifest \<Rightarrow> DecoderManifest" where
  "add_can_msg s d =
     d\<lparr>mSignalToProtocol := (mSignalToProtocol d)(cmSignalID s \<mapsto> RAW_SOCKET),
       mSignalToFrame := (case mSignalToFrame d (cmSignalID s) of
          None \<Rightarrow> (mSignalToFrame d)(cmSignalID s \<mapsto> (cmMessageID s, cmInterfaceID s))
        | Some _ \<Rightarrow> mSignalToFrame d),
       mCANMessageFormatDictionary := add_format s (mCANMessageFormatDictionary d)\<rparr>"

definition pid_signal_format :: "OBDPIDSignalMsg \<Rightarrow> PIDSignalDecoderFormat" where
  "pid_signal_format s =
     \<lparr>mPidResponseLength = omPidResponseLength s, mServiceMode = omServiceMode s, mPID = u8 (omPID s),
      mScaling = omScaling s, pidOffset = omOffset s, mStartByte = omStartByte s, mByteLength = omByteLength s,
      mBitRightShift = u8 (omBitRightShift s), mBitMaskLength = u8 (omBitMaskLength s)\<rparr>"

definition add_pid_msg :: "OBDPIDSignalMsg \<Rightarrow> DecoderManifest \<Rightarrow> DecoderManifest" where
  "add_pid_msg s d =
     d\<lparr>mSignalToProtocol := (mSignalToProtocol d)(omSignalID s \<mapsto> OBD),
       mSignalToPID := (mSignalToPID d)(omSignalID s \<mapsto> pid_signal_format s)\<rparr>"

text \<open>What a failed parse leaves in the message is not visible: the manifest is not ready.\<close>

definition manifest_build :: "(nat list \<Rightarrow> DecoderManifestMsg option) \<Rightarrow> DecoderManifest \<Rightarrow> bool \<times> DecoderManifest" where
  "manifest_build parse d =
     (if mProtoBinaryData d = [] then (False, d)
      else case parse (mProtoBinaryData d) of
        None \<Rightarrow> (False, d)
      | Some msg \<Rightarrow>
          if can_signals msg = [] \<and> obd_pid_signals msg = [] then (False, d\<lparr>mManifestID := manifest_arn msg\<rparr>)
          else (True, (fold add_pid_msg (obd_pid_signals msg)
                  (fold add_can_msg (can_signals msg) (d\<lparr>mManifestID := manifest_arn msg\<rparr>)))\<lparr>mReady := True\<rparr>))"

section \<open>What the dictionaries hold\<close>

definition formats_of :: "CANSignalMsg list \<Rightarrow> nat \<Rightarrow> string \<Rightarrow> CANSignalFormat list" where
  "formats_of ms f i = map can_signal_format (filter (\<lambda>s. cmMessageID s = f \<and> cmInterfaceID s = i) ms)"

definition lookup_format :: "(string \<Rightarrow> (nat \<Rightarrow> CANMessageFormat option) option) \<Rightarrow> string \<Rightarrow> nat \<Rightarrow> CANMessageFormat option" where
  "lookup_format dict i f = (case dict i of None \<Rightarrow> None | Some frames \<Rightarrow> frames f)"

text \<open>One more signal for a frame.\<close>

fun grown :: "CANSignalMsg \<Rightarrow> CANMessageFormat option \<Rightarrow> CANMessageFormat" where
  "grown s None = \<lparr>mMessageID = cmMessageID s, mSizeInBytes = MAX_CAN_FRAME_BYTE_SIZE, mIsMultiplexed = False,
     mSignals = [can_signal_format s]\<rparr>"
| "grown s (Some fmt) = fmt\<lparr>mSignals := mSignals fmt @ [can_signal_format s]\<rparr>"

lemma lookup_add_format:
  "lookup_format (add_format s dict) i f =
     (if i = cmInterfaceID s \<and> f = cmMessageID s then Some (grown s (lookup_format dict i f)) else lookup_format dict i f)"
  by (cases "dict (cmInterfaceID s)"; cases "the (dict (cmInterfaceID s)) (cmMessageID s)")
     (auto simp: add_format_def lookup_format_def Let_def)

definition frame_format :: "nat \<Rightarrow> CANSignalFormat list \<Rightarrow> CANMessageFormat option" where
  "frame_format f fs = (if fs = [] then None else
     Some \<lparr>mMessageID = f, mSizeInBytes = MAX_CAN_FRAME_BYTE_SIZE, mIsMultiplexed = False, mSignals = fs\<rparr>)"

lemma frame_format_grown: "Some (grown s (frame_format (cmMessageID s) fs)) = frame_format (cmMessageID s) (fs @ [can_signal_format s])"
  by (cases "fs = []") (simp_all add: frame_format_def)

lemma add_can_msg_fields [simp]:
  "mSignalToProtocol (add_can_msg s d) = (mSignalToProtocol d)(cmSignalID s \<mapsto> RAW_SOCKET)"
  "mSignalToPID (add_can_msg s d) = mSignalToPID d"
  "mCANMessageFormatDictionary (add_can_msg s d) = add_format s (mCANMessageFormatDictionary d)"
  "mManifestID (add_can_msg s d) = mManifestID d" "mReady (add_can_msg s d) = mReady d"
  by (simp_all add: add_can_msg_def)

lemma add_pid_msg_fields [simp]:
  "mSignalToProtocol (add_pid_msg p d) = (mSignalToProtocol d)(omSignalID p \<mapsto> OBD)"
  "mSignalToPID (add_pid_msg p d) = (mSignalToPID d)(omSignalID p \<mapsto> pid_signal_format p)"
  "mSignalToFrame (add_pid_msg p d) = mSignalToFrame d"
  "mCANMessageFormatDictionary (add_pid_msg p d) = mCANMessageFormatDictionary d"
  "mManifestID (add_pid_msg p d) = mManifestID d" "mReady (add_pid_msg p d) = mReady d"
  by (simp_all add: add_pid_msg_def)

lemma build_formats:
  assumes "lookup_format (mCANMessageFormatDictionary d) i f = frame_format f fs"
  shows "lookup_format (mCANMessageFormatDictionary (fold add_can_msg ms d)) i f = frame_format f (fs @ formats_of ms f i)"
  using assms
proof (induction ms arbitrary: d fs)
  case (Cons s ms)
  show ?case
  proof (cases "i = cmInterfaceID s \<and> f = cmMessageID s")
    case True
    then have "lookup_format (mCANMessageFormatDictionary (add_can_msg s d)) i f = frame_format f (fs @ [can_signal_format s])"
      using Cons.prems frame_format_grown [of s fs] by (simp add: lookup_add_format)
    from Cons.IH [OF this] True show ?thesis by (simp add: formats_of_def)
  next
    case False
    then have "lookup_format (mCANMessageFormatDictionary (add_can_msg s d)) i f = frame_format f fs"
      using Cons.prems by (auto simp: lookup_add_format)
    from Cons.IH [OF this] False show ?thesis by (auto simp: formats_of_def)
  qed
qed (simp add: formats_of_def)

definition first_frame :: "CANSignalMsg list \<Rightarrow> nat \<Rightarrow> (nat \<times> string) option" where
  "first_frame ms i = map_option (\<lambda>s. (cmMessageID s, cmInterfaceID s)) (find (\<lambda>s. cmSignalID s = i) ms)"

lemma frame_add: "mSignalToFrame (add_can_msg s d) i =
    (if i = cmSignalID s \<and> mSignalToFrame d i = None then Some (cmMessageID s, cmInterfaceID s) else mSignalToFrame d i)"
  by (auto simp: add_can_msg_def split: option.split)

lemma build_frames:
  "mSignalToFrame (fold add_can_msg ms d) i = (case mSignalToFrame d i of Some p \<Rightarrow> Some p | None \<Rightarrow> first_frame ms i)"
  by (induction ms arbitrary: d) (auto simp: first_frame_def frame_add split: option.split)

lemma build_can_other:
  "mSignalToProtocol (fold add_can_msg ms d) i = (if i \<in> cmSignalID ` set ms then Some RAW_SOCKET else mSignalToProtocol d i)"
  "mSignalToPID (fold add_can_msg ms d) = mSignalToPID d" "mManifestID (fold add_can_msg ms d) = mManifestID d"
  by (induction ms arbitrary: d) auto

lemma find_append: "find P (xs @ ys) = (case find P xs of None \<Rightarrow> find P ys | Some x \<Rightarrow> Some x)"
  by (induction xs) auto

lemma build_pid:
  "mSignalToProtocol (fold add_pid_msg ps d) i = (if i \<in> omSignalID ` set ps then Some OBD else mSignalToProtocol d i)"
  "mSignalToPID (fold add_pid_msg ps d) i =
     (case find (\<lambda>p. omSignalID p = i) (rev ps) of Some p \<Rightarrow> Some (pid_signal_format p) | None \<Rightarrow> mSignalToPID d i)"
  "mSignalToFrame (fold add_pid_msg ps d) = mSignalToFrame d"
  "mCANMessageFormatDictionary (fold add_pid_msg ps d) = mCANMessageFormatDictionary d"
  "mManifestID (fold add_pid_msg ps d) = mManifestID d"
  by (induction ps arbitrary: d) (auto simp: find_append split: option.split)

text \<open>
  A manifest built from a document that parses and has a signal. It knows the protocol of
  exactly the signals listed, on-board diagnostics taking precedence; a bus signal is in the frame
  it was listed with first; the format of a frame on an interface has all its signals in order;
  and the format of a diagnostics signal is the one listed last.
\<close>

theorem manifest_build_result:
  assumes "parse bytes = Some msg" "bytes \<noteq> []" "can_signals msg \<noteq> [] \<or> obd_pid_signals msg \<noteq> []"
  shows "\<exists>d. manifest_build parse (new_manifest\<lparr>mProtoBinaryData := bytes\<rparr>) = (True, d) \<and> getID d = manifest_arn msg \<and>
     (\<forall>i. getNetworkProtocol i d =
        (if i \<in> omSignalID ` set (obd_pid_signals msg) then OBD
         else if i \<in> cmSignalID ` set (can_signals msg) then RAW_SOCKET else INVALID_PROTOCOL)) \<and>
     (\<forall>i. getCANFrameAndInterfaceID i d =
        (case find (\<lambda>s. cmSignalID s = i) (can_signals msg) of
           Some s \<Rightarrow> (cmMessageID s, cmInterfaceID s) | None \<Rightarrow> (INVALID_CAN_FRAME_ID, []))) \<and>
     (\<forall>f i. mSignals (getCANMessageFormat f i d) = formats_of (can_signals msg) f i) \<and>
     (\<forall>i. getPIDSignalDecoderFormat i d =
        (case find (\<lambda>p. omSignalID p = i) (rev (obd_pid_signals msg)) of
           Some p \<Rightarrow> pid_signal_format p | None \<Rightarrow> default_pid_format))"
proof -
  define d0 where "d0 = new_manifest\<lparr>mProtoBinaryData := bytes, mManifestID := manifest_arn msg\<rparr>"
  have d0: "mCANMessageFormatDictionary d0 = (\<lambda>_. None)" "mSignalToFrame d0 = (\<lambda>_. None)" "mSignalToProtocol d0 = (\<lambda>_. None)"
    "mSignalToPID d0 = (\<lambda>_. None)" "mManifestID d0 = manifest_arn msg"
    by (simp_all add: d0_def new_manifest_def)
  let ?d = "(fold add_pid_msg (obd_pid_signals msg) (fold add_can_msg (can_signals msg) d0))\<lparr>mReady := True\<rparr>"
  have "lookup_format (mCANMessageFormatDictionary d0) i f = frame_format f []" for i f
    by (simp add: lookup_format_def frame_format_def d0)
  then have F: "lookup_format (mCANMessageFormatDictionary ?d) i f = frame_format f (formats_of (can_signals msg) f i)" for i f
    using build_formats [of d0 i f "[]"] by (simp add: build_pid)
  have fmt: "getCANMessageFormat f i ?d = (case lookup_format (mCANMessageFormatDictionary ?d) i f of None \<Rightarrow> default_message_format | Some x \<Rightarrow> x)"
    for f i by (simp add: getCANMessageFormat_def lookup_format_def split: option.split)
  have "mSignals (getCANMessageFormat f i ?d) = formats_of (can_signals msg) f i" for f i
    unfolding fmt F by (simp add: frame_format_def default_message_format_def)
  moreover have "getNetworkProtocol i ?d = (if i \<in> omSignalID ` set (obd_pid_signals msg) then OBD
      else if i \<in> cmSignalID ` set (can_signals msg) then RAW_SOCKET else INVALID_PROTOCOL)" for i
    by (simp add: getNetworkProtocol_def build_pid build_can_other d0)
  moreover have "getCANFrameAndInterfaceID i ?d = (case find (\<lambda>s. cmSignalID s = i) (can_signals msg) of
      Some s \<Rightarrow> (cmMessageID s, cmInterfaceID s) | None \<Rightarrow> (INVALID_CAN_FRAME_ID, []))" for i
    by (simp add: getCANFrameAndInterfaceID_def build_pid build_frames first_frame_def d0 split: option.split)
  moreover have "getPIDSignalDecoderFormat i ?d = (case find (\<lambda>p. omSignalID p = i) (rev (obd_pid_signals msg)) of
      Some p \<Rightarrow> pid_signal_format p | None \<Rightarrow> default_pid_format)" for i
    by (simp add: getPIDSignalDecoderFormat_def build_pid build_can_other d0 split: option.split)
  moreover have "getID ?d = manifest_arn msg" by (simp add: getID_def build_pid build_can_other d0)
  moreover have "manifest_build parse (new_manifest\<lparr>mProtoBinaryData := bytes\<rparr>) = (True, ?d)"
    using assms by (simp add: manifest_build_def d0_def)
  ultimately show ?thesis by blast
qed

text \<open>A frame with two signals, and a diagnostics signal.\<close>

definition sample_can_msg :: "nat \<Rightarrow> nat \<Rightarrow> CANSignalMsg" where
  "sample_can_msg i start = \<lparr>cmSignalID = i, cmInterfaceID = ''can0'', cmMessageID = 0x123, cmIsBigEndian = True, cmIsSigned = False,
     cmStartBit = start, cmOffset = Fin 0, cmFactor = Fin 1, cmLength = 8\<rparr>"

definition sample_pid_msg :: "nat \<Rightarrow> OBDPIDSignalMsg" where
  "sample_pid_msg i = \<lparr>omSignalID = i, omPidResponseLength = 1, omServiceMode = 1, omPID = 5, omScaling = Fin 1, omOffset = Fin (- 40),
     omStartByte = 0, omByteLength = 1, omBitRightShift = 0, omBitMaskLength = 8\<rparr>"

definition sample_manifest_msg :: DecoderManifestMsg where
  "sample_manifest_msg =
     \<lparr>manifest_arn = ''m'', can_signals = [sample_can_msg 1 0, sample_can_msg 2 8], obd_pid_signals = [sample_pid_msg 3]\<rparr>"

theorem manifest_build_result_witness:
  "\<exists>d. manifest_build (\<lambda>_. Some sample_manifest_msg) (new_manifest\<lparr>mProtoBinaryData := [1]\<rparr>) = (True, d) \<and>
     length (mSignals (getCANMessageFormat 0x123 ''can0'' d)) = 2 \<and> getNetworkProtocol 3 d = OBD"
proof -
  have s: "can_signals sample_manifest_msg = [sample_can_msg 1 0, sample_can_msg 2 8]"
    "obd_pid_signals sample_manifest_msg = [sample_pid_msg 3]" by (simp_all add: sample_manifest_msg_def)
  obtain d where d: "manifest_build (\<lambda>_. Some sample_manifest_msg) (new_manifest\<lparr>mProtoBinaryData := [1]\<rparr>) = (True, d)"
    "\<forall>i. getNetworkProtocol i d =
        (if i \<in> omSignalID ` set (obd_pid_signals sample_manifest_msg) then OBD
         else if i \<in> cmSignalID ` set (can_signals sample_manifest_msg) then RAW_SOCKET else INVALID_PROTOCOL)"
    "\<forall>f i. mSignals (getCANMessageFormat f i d) = formats_of (can_signals sample_manifest_msg) f i"
    using manifest_build_result [of "\<lambda>_. Some sample_manifest_msg" "[1]" sample_manifest_msg] s by auto
  have "length (mSignals (getCANMessageFormat 0x123 ''can0'' d)) = 2"
    using d(3) s by (simp add: formats_of_def sample_can_msg_def)
  moreover have "getNetworkProtocol 3 d = OBD" using d(2) s by (simp add: sample_pid_msg_def)
  ultimately show ?thesis using d(1) by blast
qed

end
