(* ===== verification/SchemeTimeline.thy ===== *)
theory SchemeTimeline
  imports SchemeIngestion
begin

text \<open>
  Which collection schemes are enabled and when that changes (\<open>CollectionSchemeManager.cpp\<close>):
  the maps of enabled and idle schemes, the timeline of start, stop and checkin events, the
  rebuild and update of both from a new list, and the pass over the events that are due.
  Whether a checkin is delivered is an input; the messages handed over are an output log.
\<close>

section \<open>State\<close>

record timeline =
  mIdleCollectionSchemeMap :: "(string \<times> CollectionScheme) list"
  mEnabledCollectionSchemeMap :: "(string \<times> CollectionScheme) list"
  currentDecoderManifestID :: string
  mCheckinIntervalInMsec :: nat
  mTimeLine :: "TimeData list"
  mSchemaListener :: bool
  checkinMessages :: "string list list"

definition CHECKIN :: string where "CHECKIN = ''Checkin''"
definition DEFAULT_CHECKIN_INTERVAL_IN_MILLISECOND :: nat where "DEFAULT_CHECKIN_INTERVAL_IN_MILLISECOND = 300000"
definition RETRY_CHECKIN_INTERVAL_IN_MILLISECOND :: nat where "RETRY_CHECKIN_INTERVAL_IN_MILLISECOND = 5000"

definition new_timeline :: "string \<Rightarrow> timeline" where
  "new_timeline dm_id =
     \<lparr>mIdleCollectionSchemeMap = [], mEnabledCollectionSchemeMap = [], currentDecoderManifestID = dm_id,
      mCheckinIntervalInMsec = DEFAULT_CHECKIN_INTERVAL_IN_MILLISECOND, mTimeLine = [], mSchemaListener = False,
      checkinMessages = []\<rparr>"

definition set_checkin_interval :: "nat \<Rightarrow> timeline \<Rightarrow> timeline" where
  "set_checkin_interval checkinIntervalMsec s =
     s\<lparr>mCheckinIntervalInMsec := (if checkinIntervalMsec > 0 then checkinIntervalMsec else DEFAULT_CHECKIN_INTERVAL_IN_MILLISECOND)\<rparr>"

definition push_event :: "nat \<Rightarrow> string \<Rightarrow> timeline \<Rightarrow> timeline" where
  "push_event t i s = s\<lparr>mTimeLine := insort (TimeData t i) (mTimeLine s)\<rparr>"

definition pop_event :: "timeline \<Rightarrow> timeline" where
  "pop_event s = s\<lparr>mTimeLine := tl (mTimeLine s)\<rparr>"

definition put_enabled :: "string \<Rightarrow> CollectionScheme \<Rightarrow> timeline \<Rightarrow> timeline" where
  "put_enabled i c s = s\<lparr>mEnabledCollectionSchemeMap := omap_put i c (mEnabledCollectionSchemeMap s)\<rparr>"

definition put_idle :: "string \<Rightarrow> CollectionScheme \<Rightarrow> timeline \<Rightarrow> timeline" where
  "put_idle i c s = s\<lparr>mIdleCollectionSchemeMap := omap_put i c (mIdleCollectionSchemeMap s)\<rparr>"

definition erase_enabled :: "string \<Rightarrow> timeline \<Rightarrow> timeline" where
  "erase_enabled i s = s\<lparr>mEnabledCollectionSchemeMap := assoc_del i (mEnabledCollectionSchemeMap s)\<rparr>"

definition erase_idle :: "string \<Rightarrow> timeline \<Rightarrow> timeline" where
  "erase_idle i s = s\<lparr>mIdleCollectionSchemeMap := assoc_del i (mIdleCollectionSchemeMap s)\<rparr>"

definition isCollectionSchemeLoaded :: "timeline \<Rightarrow> bool" where
  "isCollectionSchemeLoaded s \<longleftrightarrow> mEnabledCollectionSchemeMap s \<noteq> [] \<or> mIdleCollectionSchemeMap s \<noteq> []"

section \<open>Clearing, rebuilding and updating\<close>

text \<open>The last checkin event popped is kept unless its time is zero.\<close>

definition cleanupCollectionSchemes :: "timeline \<Rightarrow> timeline" where
  "cleanupCollectionSchemes s =
     (if mEnabledCollectionSchemeMap s = [] \<and> mIdleCollectionSchemeMap s = [] then s
      else let checkins = filter (\<lambda>d. tdID d = CHECKIN) (mTimeLine s);
               saveTimeData = (if checkins = [] then TimeData 0 [] else last checkins)
           in s\<lparr>mEnabledCollectionSchemeMap := [], mIdleCollectionSchemeMap := [],
                mTimeLine := (if tdTime saveTimeData \<noteq> 0 then [saveTimeData] else [])\<rparr>)"

fun rebuild_loop :: "nat \<Rightarrow> CollectionScheme list \<Rightarrow> bool \<Rightarrow> timeline \<Rightarrow> bool \<times> timeline" where
  "rebuild_loop currTime [] ret s = (ret, s)"
| "rebuild_loop currTime (c # cs) ret s =
     (if schDecoderManifestID c \<noteq> currentDecoderManifestID s then (False, cleanupCollectionSchemes s)
      else let startTime = schStartTime c; stopTime = schExpiryTime c; i = schCollectionSchemeID c in
        if startTime > currTime
        then rebuild_loop currTime cs ret (push_event stopTime i (push_event startTime i (put_idle i c s)))
        else if stopTime > currTime
        then rebuild_loop currTime cs True (push_event stopTime i (put_enabled i c s))
        else rebuild_loop currTime cs ret s)"

definition rebuildMapsandTimeLine :: "CollectionSchemeList option \<Rightarrow> nat \<Rightarrow> timeline \<Rightarrow> bool \<times> timeline" where
  "rebuildMapsandTimeLine mCollectionSchemeList currTime s =
     (case mCollectionSchemeList of None \<Rightarrow> (False, s) | Some l \<Rightarrow> rebuild_loop currTime (getCollectionSchemes l) False s)"

text \<open>One scheme of an update.\<close>

definition update_scheme :: "nat \<Rightarrow> CollectionScheme \<Rightarrow> bool \<Rightarrow> timeline \<Rightarrow> bool \<times> timeline" where
  "update_scheme currTime c ret s =
     (let startTime = schStartTime c; stopTime = schExpiryTime c; i = schCollectionSchemeID c in
      case map_of (mEnabledCollectionSchemeMap s) i of
        Some held \<Rightarrow>
          if stopTime \<le> currTime then (True, erase_enabled i s)
          else if stopTime \<noteq> schExpiryTime held then (ret, push_event stopTime i (put_enabled i c s))
          else (ret, s)
      | None \<Rightarrow>
          (case map_of (mIdleCollectionSchemeMap s) i of
             Some held \<Rightarrow>
               if startTime \<le> currTime \<and> stopTime > currTime
               then (True, push_event stopTime i (put_enabled i c (erase_idle i s)))
               else if startTime > currTime \<and> (startTime \<noteq> schStartTime held \<or> stopTime \<noteq> schExpiryTime held)
               then (ret, push_event stopTime i (push_event startTime i (put_idle i c s)))
               else (ret, s)
           | None \<Rightarrow>
               if startTime \<le> currTime \<and> stopTime > currTime then (True, push_event stopTime i (put_enabled i c s))
               else if startTime > currTime then (ret, push_event stopTime i (push_event startTime i (put_idle i c s)))
               else (ret, s)))"

text \<open>The first result is false when a scheme needs another decoder manifest.\<close>

fun update_loop :: "nat \<Rightarrow> CollectionScheme list \<Rightarrow> bool \<Rightarrow> timeline \<Rightarrow> bool \<times> bool \<times> timeline" where
  "update_loop currTime [] ret s = (True, ret, s)"
| "update_loop currTime (c # cs) ret s =
     (if schDecoderManifestID c \<noteq> currentDecoderManifestID s then (False, False, cleanupCollectionSchemes s)
      else let (ret, s) = update_scheme currTime c ret s in update_loop currTime cs ret s)"

definition updateMapsandTimeLine :: "CollectionSchemeList option \<Rightarrow> nat \<Rightarrow> timeline \<Rightarrow> bool \<times> timeline" where
  "updateMapsandTimeLine mCollectionSchemeList currTime s =
     (case mCollectionSchemeList of
        None \<Rightarrow> (False, s)
      | Some l \<Rightarrow>
          let newCollectionSchemeIDs = set (map schCollectionSchemeID (getCollectionSchemes l));
              (matching, ret, s) = update_loop currTime (getCollectionSchemes l) False s
          in if \<not> matching then (ret, s)
             else let known = (\<lambda>p. fst p \<in> newCollectionSchemeIDs);
                      ret = (ret \<or> (\<exists>p \<in> set (mEnabledCollectionSchemeMap s). \<not> known p))
                  in (ret, s\<lparr>mIdleCollectionSchemeMap := filter known (mIdleCollectionSchemeMap s),
                            mEnabledCollectionSchemeMap := filter known (mEnabledCollectionSchemeMap s)\<rparr>))"

section \<open>Checkins\<close>

definition prepareCheckinTimer :: "nat \<Rightarrow> timeline \<Rightarrow> timeline" where
  "prepareCheckinTimer currTime s = push_event currTime CHECKIN s"

text \<open>\<open>delivered n\<close> is what the listener returns for the \<open>n\<close>th message.\<close>

definition checkin_message :: "timeline \<Rightarrow> string list" where
  "checkin_message s = map fst (mEnabledCollectionSchemeMap s) @ map fst (mIdleCollectionSchemeMap s) @
     (if currentDecoderManifestID s \<noteq> [] then [currentDecoderManifestID s] else [])"

definition sendCheckin :: "(nat \<Rightarrow> bool) \<Rightarrow> timeline \<Rightarrow> bool \<times> timeline" where
  "sendCheckin delivered s =
     (if \<not> mSchemaListener s then (False, s)
      else (delivered (length (checkinMessages s)), s\<lparr>checkinMessages := checkinMessages s @ [checkin_message s]\<rparr>))"

section \<open>The pass over the timeline\<close>

text \<open>A due checkin is sent, its successor pushed and the top popped.\<close>

definition serve_checkin :: "(nat \<Rightarrow> bool) \<Rightarrow> nat \<Rightarrow> timeline \<Rightarrow> timeline" where
  "serve_checkin delivered currTime s =
     (let (checkinSuccess, s) = sendCheckin delivered s;
          s = (if checkinSuccess
               then if mCheckinIntervalInMsec s > 0 then push_event (u64 (currTime + mCheckinIntervalInMsec s)) CHECKIN s else s
               else push_event (u64 (currTime + min RETRY_CHECKIN_INTERVAL_IN_MILLISECOND (mCheckinIntervalInMsec s))) CHECKIN s)
      in pop_event s)"

text \<open>One round of the loop with the event on top; \<open>None\<close> is the break.\<close>

definition check_event :: "(nat \<Rightarrow> bool) \<Rightarrow> nat \<Rightarrow> TimeData \<Rightarrow> bool \<Rightarrow> timeline \<Rightarrow> (bool \<times> timeline) option" where
  "check_event delivered currTime topPair ret s =
     (let i = tdID topPair; topTime = tdTime topPair in
      if i = CHECKIN
      then if currTime < topTime then None else Some (ret, serve_checkin delivered currTime s)
      else case map_of (mEnabledCollectionSchemeMap s) i of
        Some held \<Rightarrow>
          if schExpiryTime held \<noteq> topTime then Some (ret, pop_event s)
          else if topTime \<le> currTime then Some (True, pop_event (erase_enabled i s))
          else None
      | None \<Rightarrow>
          (case map_of (mIdleCollectionSchemeMap s) i of
             None \<Rightarrow> Some (ret, pop_event s)
           | Some held \<Rightarrow>
               if schStartTime held \<noteq> topTime then Some (ret, pop_event s)
               else if topTime \<le> currTime then Some (True, pop_event (erase_idle i (put_enabled i held s)))
               else None))"

definition check_round :: "(nat \<Rightarrow> bool) \<Rightarrow> nat \<Rightarrow> bool \<Rightarrow> timeline \<Rightarrow> (bool \<times> timeline) option" where
  "check_round delivered currTime ret s =
     (case mTimeLine s of [] \<Rightarrow> None | topPair # _ \<Rightarrow> check_event delivered currTime topPair ret s)"

text \<open>The loop may not end, so its result is partial.\<close>

partial_function (option) check_loop :: "(nat \<Rightarrow> bool) \<Rightarrow> nat \<Rightarrow> bool \<Rightarrow> timeline \<Rightarrow> (bool \<times> timeline) option" where
  "check_loop delivered currTime ret s =
     (case check_round delivered currTime ret s of
        None \<Rightarrow> Some (ret, s)
      | Some (ret', s') \<Rightarrow> check_loop delivered currTime ret' s')"

definition checkTimeLine :: "(nat \<Rightarrow> bool) \<Rightarrow> nat \<Rightarrow> timeline \<Rightarrow> (bool \<times> timeline) option" where
  "checkTimeLine delivered currTime s =
     (if mTimeLine s = [] \<or> currTime < tdTime (hd (mTimeLine s)) then Some (False, s)
      else check_loop delivered currTime False s)"

end
