(* ===== verification/SchemeSchedule.thy ===== *)
theory SchemeSchedule
  imports SchemeTimeline
begin

text \<open>
  What the timeline achieves: the pass over it ends and leaves exactly the schemes enabled whose
  time it is, every update keeps the events a scheme needs, and one checkin is always pending.
\<close>

section \<open>Well-formed timelines\<close>

abbreviation enabled :: "timeline \<Rightarrow> string \<Rightarrow> CollectionScheme option" where
  "enabled s \<equiv> map_of (mEnabledCollectionSchemeMap s)"

abbreviation idle :: "timeline \<Rightarrow> string \<Rightarrow> CollectionScheme option" where
  "idle s \<equiv> map_of (mIdleCollectionSchemeMap s)"

definition maps_ok :: "timeline \<Rightarrow> bool" where
  "maps_ok s \<longleftrightarrow> omap_ok (mEnabledCollectionSchemeMap s) \<and> omap_ok (mIdleCollectionSchemeMap s) \<and>
     dom (enabled s) \<inter> dom (idle s) = {}"

text \<open>How many copies of an event the schemes need: one to stop an enabled one, one each to start and to stop an idle one.\<close>

definition needed :: "timeline \<Rightarrow> TimeData \<Rightarrow> nat" where
  "needed s d =
     (case enabled s (tdID d) of Some c \<Rightarrow> of_bool (schExpiryTime c = tdTime d) | None \<Rightarrow> 0) +
     (case idle s (tdID d) of
        Some c \<Rightarrow> of_bool (schStartTime c = tdTime d) + of_bool (schExpiryTime c = tdTime d)
      | None \<Rightarrow> 0)"

definition events_ok :: "timeline \<Rightarrow> bool" where
  "events_ok s \<longleftrightarrow> sorted (mTimeLine s) \<and> (\<forall>d. needed s d \<le> count (mset (mTimeLine s)) d) \<and>
     enabled s CHECKIN = None \<and> idle s CHECKIN = None \<and> (\<forall>i c. idle s i = Some c \<longrightarrow> schStartTime c \<le> schExpiryTime c)"

definition timeline_ok :: "timeline \<Rightarrow> bool" where
  "timeline_ok s \<longleftrightarrow> maps_ok s \<and> events_ok s"

lemma timeline_simps [simp]:
  "mEnabledCollectionSchemeMap (push_event t i s) = mEnabledCollectionSchemeMap s"
  "mIdleCollectionSchemeMap (push_event t i s) = mIdleCollectionSchemeMap s"
  "mTimeLine (push_event t i s) = insort (TimeData t i) (mTimeLine s)"
  "mEnabledCollectionSchemeMap (pop_event s) = mEnabledCollectionSchemeMap s"
  "mIdleCollectionSchemeMap (pop_event s) = mIdleCollectionSchemeMap s"
  "mTimeLine (pop_event s) = tl (mTimeLine s)"
  "mEnabledCollectionSchemeMap (put_enabled i c s) = omap_put i c (mEnabledCollectionSchemeMap s)"
  "mIdleCollectionSchemeMap (put_enabled i c s) = mIdleCollectionSchemeMap s"
  "mTimeLine (put_enabled i c s) = mTimeLine s"
  "mEnabledCollectionSchemeMap (put_idle i c s) = mEnabledCollectionSchemeMap s"
  "mIdleCollectionSchemeMap (put_idle i c s) = omap_put i c (mIdleCollectionSchemeMap s)"
  "mTimeLine (put_idle i c s) = mTimeLine s"
  "mEnabledCollectionSchemeMap (erase_enabled i s) = assoc_del i (mEnabledCollectionSchemeMap s)"
  "mIdleCollectionSchemeMap (erase_enabled i s) = mIdleCollectionSchemeMap s"
  "mTimeLine (erase_enabled i s) = mTimeLine s"
  "mEnabledCollectionSchemeMap (erase_idle i s) = mEnabledCollectionSchemeMap s"
  "mIdleCollectionSchemeMap (erase_idle i s) = assoc_del i (mIdleCollectionSchemeMap s)"
  "mTimeLine (erase_idle i s) = mTimeLine s"
  by (simp_all add: push_event_def pop_event_def put_enabled_def put_idle_def erase_enabled_def erase_idle_def)

text \<open>The fields the operations on maps and events leave alone.\<close>

definition same_config :: "timeline \<Rightarrow> timeline \<Rightarrow> bool" where
  "same_config s s' \<longleftrightarrow> currentDecoderManifestID s' = currentDecoderManifestID s \<and>
     mCheckinIntervalInMsec s' = mCheckinIntervalInMsec s \<and> mSchemaListener s' = mSchemaListener s"

lemma same_config_refl [simp]: "same_config s s" by (simp add: same_config_def)

lemma same_config_ops [simp]:
  "same_config s (push_event t i s') = same_config s s'" "same_config s (pop_event s') = same_config s s'"
  "same_config s (put_enabled i c s') = same_config s s'" "same_config s (put_idle i c s') = same_config s s'"
  "same_config s (erase_enabled i s') = same_config s s'" "same_config s (erase_idle i s') = same_config s s'"
  by (simp_all add: same_config_def push_event_def pop_event_def put_enabled_def put_idle_def erase_enabled_def erase_idle_def)

lemma messages_ops [simp]:
  "checkinMessages (push_event t i s) = checkinMessages s" "checkinMessages (pop_event s) = checkinMessages s"
  "checkinMessages (put_enabled i c s) = checkinMessages s" "checkinMessages (put_idle i c s) = checkinMessages s"
  "checkinMessages (erase_enabled i s) = checkinMessages s" "checkinMessages (erase_idle i s) = checkinMessages s"
  by (simp_all add: push_event_def pop_event_def put_enabled_def put_idle_def erase_enabled_def erase_idle_def)

section \<open>The schedule\<close>

text \<open>What should be enabled and idle at time \<open>t\<close>, given what is now.\<close>

fun pick_enabled :: "nat \<Rightarrow> CollectionScheme option \<Rightarrow> CollectionScheme option \<Rightarrow> CollectionScheme option" where
  "pick_enabled t (Some c) d = (if t < schExpiryTime c then Some c else None)"
| "pick_enabled t None (Some c) = (if schStartTime c \<le> t \<and> t < schExpiryTime c then Some c else None)"
| "pick_enabled t None None = None"

fun pick_idle :: "nat \<Rightarrow> CollectionScheme option \<Rightarrow> CollectionScheme option" where
  "pick_idle t (Some c) = (if t < schStartTime c then Some c else None)"
| "pick_idle t None = None"

definition enabled_at :: "nat \<Rightarrow> timeline \<Rightarrow> string \<Rightarrow> CollectionScheme option" where
  "enabled_at t s i = pick_enabled t (enabled s i) (idle s i)"

definition idle_at :: "nat \<Rightarrow> timeline \<Rightarrow> string \<Rightarrow> CollectionScheme option" where
  "idle_at t s i = pick_idle t (idle s i)"

text \<open>The number of rounds a pass can still take.\<close>

definition rounds_left :: "nat \<Rightarrow> timeline \<Rightarrow> nat" where
  "rounds_left t s = length (mTimeLine s) + length (filter (\<lambda>d. tdTime d \<le> t) (mTimeLine s))"

definition checkin_times :: "timeline \<Rightarrow> nat list" where
  "checkin_times s = map tdTime (filter (\<lambda>d. tdID d = CHECKIN) (mTimeLine s))"

text \<open>How a round may change the timeline.\<close>

definition round_ok :: "nat \<Rightarrow> bool \<Rightarrow> timeline \<Rightarrow> bool \<Rightarrow> timeline \<Rightarrow> bool" where
  "round_ok t ret s ret' s' \<longleftrightarrow> timeline_ok s' \<and> enabled_at t s' = enabled_at t s \<and> idle_at t s' = idle_at t s \<and>
     (ret \<longrightarrow> ret') \<and>
     (\<not> ret' \<longrightarrow> mEnabledCollectionSchemeMap s' = mEnabledCollectionSchemeMap s \<and>
        mIdleCollectionSchemeMap s' = mIdleCollectionSchemeMap s) \<and>
     same_config s s' \<and> rounds_left t s' < rounds_left t s"

lemma rounds_left_tl:
  "mTimeLine s = ev # rest \<Longrightarrow> mTimeLine s' = rest \<Longrightarrow> rounds_left t s' < rounds_left t s"
  by (simp add: rounds_left_def)

text \<open>A checkin that is due is replaced by a later one.\<close>

lemma serve_checkin_props:
  assumes "mTimeLine s = ev # rest" "tdTime ev \<le> t" "0 < mCheckinIntervalInMsec s" "t + mCheckinIntervalInMsec s < 2 ^ 64"
  obtains c where "t < c" "c \<le> t + mCheckinIntervalInMsec s"
    "mTimeLine (serve_checkin delivered t s) = insort (TimeData c CHECKIN) rest"
    "mEnabledCollectionSchemeMap (serve_checkin delivered t s) = mEnabledCollectionSchemeMap s"
    "mIdleCollectionSchemeMap (serve_checkin delivered t s) = mIdleCollectionSchemeMap s"
    "same_config s (serve_checkin delivered t s)"
    "checkinMessages (serve_checkin delivered t s) =
       checkinMessages s @ (if mSchemaListener s then [checkin_message s] else [])"
proof -
  let ?c = "if fst (sendCheckin delivered s) then u64 (t + mCheckinIntervalInMsec s)
            else u64 (t + min RETRY_CHECKIN_INTERVAL_IN_MILLISECOND (mCheckinIntervalInMsec s))"
  have c: "t < ?c" "?c \<le> t + mCheckinIntervalInMsec s"
    using assms(3,4) by (auto simp: u64_id RETRY_CHECKIN_INTERVAL_IN_MILLISECOND_def min_def)
  have top: "tl (insort (TimeData ?c CHECKIN) (ev # rest)) = insort (TimeData ?c CHECKIN) rest"
    using c(1) assms(2) TimeData_less_time [of ev "TimeData ?c CHECKIN"] by (auto simp: not_le [symmetric])
  have snd: "mTimeLine (snd (sendCheckin delivered s)) = mTimeLine s"
    "mCheckinIntervalInMsec (snd (sendCheckin delivered s)) = mCheckinIntervalInMsec s"
    "mEnabledCollectionSchemeMap (snd (sendCheckin delivered s)) = mEnabledCollectionSchemeMap s"
    "mIdleCollectionSchemeMap (snd (sendCheckin delivered s)) = mIdleCollectionSchemeMap s"
    "same_config s (snd (sendCheckin delivered s))"
    "checkinMessages (snd (sendCheckin delivered s)) = checkinMessages s @ (if mSchemaListener s then [checkin_message s] else [])"
    by (simp_all add: sendCheckin_def same_config_def)
  have eq: "serve_checkin delivered t s = pop_event (push_event ?c CHECKIN (snd (sendCheckin delivered s)))"
    using assms(3) snd(2) by (simp add: serve_checkin_def split_beta Let_def)
  show thesis
    by (rule that [of ?c]) (use c top snd assms(1) in \<open>simp_all add: eq del: insort_key.simps\<close>)
qed

lemma needed_member: "events_ok s \<Longrightarrow> 0 < needed s d \<Longrightarrow> d \<in> set (mTimeLine s)"
  by (metis count_mset_0_iff events_ok_def not_less zero_less_iff_neq_zero)

lemma needed_enabled: "enabled s i = Some c \<Longrightarrow> 0 < needed s (TimeData (schExpiryTime c) i)"
  by (simp add: needed_def)

lemma needed_idle:
  "idle s i = Some c \<Longrightarrow> 0 < needed s (TimeData (schStartTime c) i)"
  "idle s i = Some c \<Longrightarrow> 0 < needed s (TimeData (schExpiryTime c) i)"
  by (simp_all add: needed_def)

text \<open>Taking the first event away is harmless if it is needed less than before or not at all.\<close>

lemma events_ok_pop:
  assumes "events_ok s" "mTimeLine s = ev # rest" "mTimeLine s' = rest" "\<And>d. needed s' d \<le> needed s d"
    and "needed s' ev < needed s ev \<or> needed s' ev = 0"
    and "enabled s' CHECKIN = None" "idle s' CHECKIN = None" "\<And>i c. idle s' i = Some c \<Longrightarrow> schStartTime c \<le> schExpiryTime c"
  shows "events_ok s'"
proof -
  have "needed s' d \<le> count (mset rest) d" for d
  proof (cases "d = ev")
    case True
    have "needed s ev \<le> Suc (count (mset rest) ev)" using assms(1,2) by (auto simp: events_ok_def dest: spec [of _ ev])
    then show ?thesis using True assms(5) by auto
  next
    case False
    have "needed s d \<le> count (mset (ev # rest)) d" using assms(1,2) by (auto simp: events_ok_def)
    then show ?thesis using False assms(4) [of d] by simp
  qed
  then show ?thesis using assms(1,2,3,6-8) by (auto simp: events_ok_def)
qed

lemma checkin_not_needed: "events_ok s \<Longrightarrow> tdID ev = CHECKIN \<Longrightarrow> needed s ev = 0"
  by (simp add: events_ok_def needed_def)

text \<open>An idle scheme whose start is not the time of the first event does not stop at that time either.\<close>

lemma stop_not_first:
  assumes "events_ok s" "mTimeLine s = ev # rest" "idle s (tdID ev) = Some c" "schStartTime c \<noteq> tdTime ev"
  shows "schExpiryTime c \<noteq> tdTime ev"
proof
  assume stop: "schExpiryTime c = tdTime ev"
  have "TimeData (schStartTime c) (tdID ev) \<in> set (mTimeLine s)"
    by (rule needed_member [OF assms(1) needed_idle(1) [OF assms(3)]])
  then have "ev \<le> TimeData (schStartTime c) (tdID ev)" using assms(1,2) by (auto simp: events_ok_def)
  then have "tdTime ev \<le> schStartTime c" using TimeData_le_time by fastforce
  moreover have "schStartTime c \<le> schExpiryTime c" using assms(1,3) by (simp add: events_ok_def)
  ultimately show False using stop assms(4) by simp
qed

section \<open>One round\<close>

lemma needed_cong:
  "mEnabledCollectionSchemeMap s' = mEnabledCollectionSchemeMap s \<Longrightarrow> mIdleCollectionSchemeMap s' = mIdleCollectionSchemeMap s \<Longrightarrow>
   needed s' d = needed s d"
  by (simp add: needed_def)

lemma at_cong:
  assumes "mEnabledCollectionSchemeMap s' = mEnabledCollectionSchemeMap s" "mIdleCollectionSchemeMap s' = mIdleCollectionSchemeMap s"
  shows "enabled_at t s' = enabled_at t s" "idle_at t s' = idle_at t s" "maps_ok s' = maps_ok s"
  by (simp_all add: enabled_at_def [abs_def] idle_at_def [abs_def] maps_ok_def assms)

lemma round_obsolete:
  assumes "timeline_ok s" "mTimeLine s = ev # rest" "needed s ev = 0"
  shows "round_ok t ret s ret (pop_event s)"
proof -
  have n: "needed (pop_event s) d = needed s d" for d by (rule needed_cong) simp_all
  have "events_ok (pop_event s)"
    by (rule events_ok_pop [of s ev rest]) (use assms n in \<open>auto simp: timeline_ok_def events_ok_def\<close>)
  then show ?thesis using assms at_cong [of "pop_event s" s]
    by (auto simp: round_ok_def timeline_ok_def rounds_left_def)
qed

lemma needed_stop:
  assumes "maps_ok s" "enabled s (tdID ev) = Some c" "schExpiryTime c = tdTime ev"
  shows "needed (pop_event (erase_enabled (tdID ev) s)) d \<le> needed s d" "needed (pop_event (erase_enabled (tdID ev) s)) ev = 0"
proof -
  have "idle s (tdID ev) = None" using assms(1,2) by (auto simp: maps_ok_def)
  then show "needed (pop_event (erase_enabled (tdID ev) s)) ev = 0" by (simp add: needed_def)
  show "needed (pop_event (erase_enabled (tdID ev) s)) d \<le> needed s d" by (simp add: needed_def split: option.split)
qed

lemma round_stop:
  assumes "timeline_ok s" "mTimeLine s = ev # rest" "enabled s (tdID ev) = Some c" "schExpiryTime c = tdTime ev" "tdTime ev \<le> t"
  shows "round_ok t ret s True (pop_event (erase_enabled (tdID ev) s))"
proof -
  let ?s = "pop_event (erase_enabled (tdID ev) s)"
  have m: "maps_ok s" "events_ok s" using assms(1) by (simp_all add: timeline_ok_def)
  have none: "idle s (tdID ev) = None" using m(1) assms(3) by (auto simp: maps_ok_def)
  have ids: "enabled s CHECKIN = None" "idle s CHECKIN = None" "\<And>i c. idle s i = Some c \<Longrightarrow> schStartTime c \<le> schExpiryTime c"
    using m(2) by (auto simp: events_ok_def)
  have "events_ok ?s"
    by (rule events_ok_pop [OF m(2) assms(2) _ needed_stop(1) [OF m(1) assms(3,4)] disjI2 [OF needed_stop(2) [OF m(1) assms(3,4)]]])
       (use ids assms(2) in auto)
  moreover have "maps_ok ?s" using m(1) by (auto simp: maps_ok_def)
  moreover have "enabled_at t ?s = enabled_at t s" "idle_at t ?s = idle_at t s"
    using assms(3-5) none by (auto simp: enabled_at_def idle_at_def fun_eq_iff)
  ultimately show ?thesis using assms(2) by (auto simp: round_ok_def timeline_ok_def rounds_left_def)
qed

lemma needed_start:
  assumes "idle s (tdID ev) = Some c" "enabled s (tdID ev) = None" "schStartTime c = tdTime ev"
  shows "needed (pop_event (erase_idle (tdID ev) (put_enabled (tdID ev) c s))) d \<le> needed s d"
    "needed (pop_event (erase_idle (tdID ev) (put_enabled (tdID ev) c s))) ev < needed s ev"
  using assms by (auto simp: needed_def split: option.split)

lemma round_start:
  assumes "timeline_ok s" "mTimeLine s = ev # rest" "enabled s (tdID ev) = None" "idle s (tdID ev) = Some c"
    "schStartTime c = tdTime ev" "tdTime ev \<le> t"
  shows "round_ok t ret s True (pop_event (erase_idle (tdID ev) (put_enabled (tdID ev) c s)))"
proof -
  let ?s = "pop_event (erase_idle (tdID ev) (put_enabled (tdID ev) c s))"
  have m: "maps_ok s" "events_ok s" using assms(1) by (simp_all add: timeline_ok_def)
  have ids: "enabled s CHECKIN = None" "idle s CHECKIN = None" "\<And>i c. idle s i = Some c \<Longrightarrow> schStartTime c \<le> schExpiryTime c"
    using m(2) by (auto simp: events_ok_def)
  then have nc: "CHECKIN \<noteq> tdID ev" using assms(4) by auto
  have "events_ok ?s"
    by (rule events_ok_pop [OF m(2) assms(2) _ needed_start(1) [OF assms(4,3,5)] disjI1 [OF needed_start(2) [OF assms(4,3,5)]]])
       (use ids nc assms(2) in \<open>auto split: if_splits\<close>)
  moreover have "maps_ok ?s" using m(1) om.move_disjoint [of "mIdleCollectionSchemeMap s" "mEnabledCollectionSchemeMap s" "tdID ev" c]
    by (auto simp: maps_ok_def)
  moreover have "enabled_at t ?s = enabled_at t s" "idle_at t ?s = idle_at t s"
    using assms(3-6) by (auto simp: enabled_at_def idle_at_def fun_eq_iff)
  ultimately show ?thesis using assms(2) by (auto simp: round_ok_def timeline_ok_def rounds_left_def)
qed

definition clock_ok :: "nat \<Rightarrow> timeline \<Rightarrow> bool" where
  "clock_ok t s \<longleftrightarrow> 0 < mCheckinIntervalInMsec s \<and> t + mCheckinIntervalInMsec s < 2 ^ 64"

lemma round_checkin:
  assumes "timeline_ok s" "mTimeLine s = ev # rest" "tdID ev = CHECKIN" "tdTime ev \<le> t" "clock_ok t s"
  shows "round_ok t ret s ret (serve_checkin delivered t s)"
proof -
  obtain c where c: "t < c" "mTimeLine (serve_checkin delivered t s) = insort (TimeData c CHECKIN) rest"
    "mEnabledCollectionSchemeMap (serve_checkin delivered t s) = mEnabledCollectionSchemeMap s"
    "mIdleCollectionSchemeMap (serve_checkin delivered t s) = mIdleCollectionSchemeMap s"
    "same_config s (serve_checkin delivered t s)"
    using serve_checkin_props [OF assms(2,4)] assms(5) by (auto simp: clock_ok_def)
  have e: "events_ok s" using assms(1) by (simp add: timeline_ok_def)
  have "events_ok (serve_checkin delivered t s)" unfolding events_ok_def c(2-4) needed_cong [OF c(3,4)]
  proof (intro conjI allI impI)
    show "sorted (insort (TimeData c CHECKIN) rest)" using e assms(2) by (simp add: events_ok_def sorted_insort)
    show "needed s d \<le> count (mset (insort (TimeData c CHECKIN) rest)) d" for d
    proof (cases "d = ev")
      case True
      then show ?thesis using checkin_not_needed [OF e assms(3)] by simp
    next
      case False
      have "needed s d \<le> count (mset (mTimeLine s)) d" using e by (simp add: events_ok_def)
      then show ?thesis using False assms(2) by simp
    qed
  qed (use e in \<open>auto simp: events_ok_def\<close>)
  then have "timeline_ok (serve_checkin delivered t s)" using assms(1) at_cong(3) [OF c(3,4)] by (simp add: timeline_ok_def)
  moreover have "rounds_left t (serve_checkin delivered t s) < rounds_left t s"
    using c(1) assms(2,4) by (simp add: rounds_left_def c(2) filter_insort_triv)
  ultimately show ?thesis using at_cong [OF c(3,4)] c(3-5) by (simp add: round_ok_def)
qed

text \<open>Every round keeps the schedule and brings the end nearer.\<close>

lemma check_round_ok:
  assumes "timeline_ok s" "clock_ok t s" "check_round delivered t ret s = Some (ret', s')"
  shows "round_ok t ret s ret' s'"
proof -
  obtain ev rest where q: "mTimeLine s = ev # rest" using assms(3) by (cases "mTimeLine s") (auto simp: check_round_def)
  have e: "check_event delivered t ev ret s = Some (ret', s')" using assms(3) q by (simp add: check_round_def)
  have m: "maps_ok s" "events_ok s" using assms(1) by (simp_all add: timeline_ok_def)
  show ?thesis
  proof (cases "tdID ev = CHECKIN")
    case True
    then have "ret' = ret" "s' = serve_checkin delivered t s" "tdTime ev \<le> t" using e by (auto simp: check_event_def split: if_splits)
    then show ?thesis using round_checkin [OF assms(1) q True _ assms(2)] by simp
  next
    case nc: False
    show ?thesis
    proof (cases "enabled s (tdID ev)")
      case (Some c)
      have none: "idle s (tdID ev) = None" using m(1) Some by (auto simp: maps_ok_def)
      show ?thesis
      proof (cases "schExpiryTime c = tdTime ev")
        case True
        then show ?thesis using e nc Some round_stop [OF assms(1) q Some True] by (auto simp: check_event_def Let_def split: if_splits)
      next
        case False
        then have "needed s ev = 0" using Some none by (simp add: needed_def)
        then show ?thesis using e nc Some False round_obsolete [OF assms(1) q] by (auto simp: check_event_def Let_def)
      qed
    next
      case ne: None
      show ?thesis
      proof (cases "idle s (tdID ev)")
        case None
        then have "needed s ev = 0" using ne by (simp add: needed_def)
        then show ?thesis using e nc ne None round_obsolete [OF assms(1) q] by (auto simp: check_event_def Let_def)
      next
        case (Some c)
        show ?thesis
        proof (cases "schStartTime c = tdTime ev")
          case True
          then show ?thesis using e nc ne Some round_start [OF assms(1) q ne Some True]
            by (auto simp: check_event_def Let_def split: if_splits)
        next
          case False
          then have "needed s ev = 0" using Some ne stop_not_first [OF m(2) q Some False] by (simp add: needed_def)
          then show ?thesis using e nc ne Some False round_obsolete [OF assms(1) q] by (auto simp: check_event_def Let_def)
        qed
      qed
    qed
  qed
qed

section \<open>The whole pass\<close>

text \<open>The loop ends if every round keeps a property and decreases the rounds left.\<close>

lemma check_loop_ends:
  assumes "P ret s"
    and "\<And>ret s ret' s'. P ret s \<Longrightarrow> check_round delivered t ret s = Some (ret', s') \<Longrightarrow> P ret' s' \<and> rounds_left t s' < rounds_left t s"
  shows "\<exists>ret' s'. check_loop delivered t ret s = Some (ret', s') \<and> P ret' s' \<and> check_round delivered t ret' s' = None"
  using assms(1)
proof (induction "rounds_left t s" arbitrary: ret s rule: less_induct)
  case less
  show ?case
  proof (cases "check_round delivered t ret s")
    case None
    then show ?thesis using less.prems by (simp add: check_loop.simps [of delivered t ret s])
  next
    case (Some r)
    obtain ret1 s1 where r: "r = (ret1, s1)" by (cases r)
    have "P ret1 s1" "rounds_left t s1 < rounds_left t s" using assms(2) [OF less.prems] Some r by auto
    from less.hyps [OF this(2,1)] show ?thesis using Some r by (simp add: check_loop.simps [of delivered t ret s])
  qed
qed

text \<open>When the first event lies ahead, the maps are what the schedule asks for.\<close>

lemma ahead:
  assumes "timeline_ok s" "mTimeLine s = [] \<or> t < tdTime (hd (mTimeLine s))"
  shows "enabled s = enabled_at t s" "idle s = idle_at t s"
proof -
  have e: "events_ok s" using assms(1) by (simp add: timeline_ok_def)
  have later: "t < tdTime d" if "d \<in> set (mTimeLine s)" for d
  proof -
    have "hd (mTimeLine s) \<le> d" using e that by (simp add: events_ok_def sorted_hd_le)
    then have "tdTime (hd (mTimeLine s)) \<le> tdTime d" by (rule TimeData_le_time)
    then show ?thesis using assms(2) that by auto
  qed
  have "t < schExpiryTime c" if "enabled s i = Some c" for i c
    using later [OF needed_member [OF e needed_enabled [OF that]]] by simp
  moreover have "t < schStartTime c" if "idle s i = Some c" for i c
    using later [OF needed_member [OF e needed_idle(1) [OF that]]] by simp
  ultimately have "enabled s i = enabled_at t s i" "idle s i = idle_at t s i" for i
    unfolding enabled_at_def idle_at_def
    by (cases "enabled s i"; cases "idle s i"; fastforce)+
  then show "enabled s = enabled_at t s" "idle s = idle_at t s" by auto
qed

lemma check_round_None: "check_round delivered t ret s = None \<Longrightarrow> mTimeLine s = [] \<or> t < tdTime (hd (mTimeLine s))"
  by (cases "mTimeLine s") (auto simp: check_round_def check_event_def Let_def split: if_splits option.splits)

text \<open>What a pass has done so far.\<close>

definition pass_so_far :: "nat \<Rightarrow> timeline \<Rightarrow> bool \<Rightarrow> timeline \<Rightarrow> bool" where
  "pass_so_far t s0 ret s \<longleftrightarrow> timeline_ok s \<and> same_config s0 s \<and> enabled_at t s = enabled_at t s0 \<and> idle_at t s = idle_at t s0 \<and>
     (\<not> ret \<longrightarrow> mEnabledCollectionSchemeMap s = mEnabledCollectionSchemeMap s0 \<and>
        mIdleCollectionSchemeMap s = mIdleCollectionSchemeMap s0)"

lemma clock_ok_config: "same_config s s' \<Longrightarrow> clock_ok t s' = clock_ok t s"
  by (simp add: same_config_def clock_ok_def)

lemma pass_round:
  assumes "clock_ok t s0" "pass_so_far t s0 ret s" "check_round delivered t ret s = Some (ret', s')"
  shows "pass_so_far t s0 ret' s' \<and> rounds_left t s' < rounds_left t s"
proof -
  have "clock_ok t s" using assms(1,2) clock_ok_config by (auto simp: pass_so_far_def)
  then have "round_ok t ret s ret' s'" using check_round_ok assms(2,3) by (auto simp: pass_so_far_def)
  then show ?thesis using assms(2) by (auto simp: pass_so_far_def round_ok_def same_config_def)
qed

lemma checkTimeLine_pass:
  assumes "timeline_ok s" "clock_ok t s"
  shows "\<exists>ret s'. checkTimeLine delivered t s = Some (ret, s') \<and> pass_so_far t s ret s' \<and>
     (mTimeLine s' = [] \<or> t < tdTime (hd (mTimeLine s')))"
proof (cases "mTimeLine s = [] \<or> t < tdTime (hd (mTimeLine s))")
  case True
  then show ?thesis using assms(1) by (auto simp: checkTimeLine_def pass_so_far_def)
next
  case False
  have start: "pass_so_far t s False s" using assms(1) by (simp add: pass_so_far_def)
  have "\<exists>ret s'. check_loop delivered t False s = Some (ret, s') \<and> pass_so_far t s ret s' \<and> check_round delivered t ret s' = None"
    by (rule check_loop_ends [where P = "pass_so_far t s", OF start]) (rule pass_round [OF assms(2)])
  then obtain ret s' where r: "check_loop delivered t False s = Some (ret, s')" "pass_so_far t s ret s'"
    "check_round delivered t ret s' = None" by blast
  then show ?thesis using False check_round_None [OF r(3)] by (simp add: checkTimeLine_def)
qed

text \<open>
  The pass over the timeline ends and implements the schedule: at time \<open>t\<close> a scheme is
  enabled afterwards exactly if it was enabled or its start has come, and its stop has not; it is
  idle exactly if it was idle and its start has not come. Without a reported change both maps are
  as before, and the timeline stays well-formed.
\<close>

lemma schedule_pass:
  assumes "timeline_ok s" "clock_ok t s"
  shows "\<exists>ret s'. checkTimeLine delivered t s = Some (ret, s') \<and> timeline_ok s' \<and>
     enabled s' = enabled_at t s \<and> idle s' = idle_at t s \<and>
     (\<not> ret \<longrightarrow> mEnabledCollectionSchemeMap s' = mEnabledCollectionSchemeMap s)"
proof -
  obtain ret s' where r: "checkTimeLine delivered t s = Some (ret, s')" "pass_so_far t s ret s'"
    "mTimeLine s' = [] \<or> t < tdTime (hd (mTimeLine s'))"
    using checkTimeLine_pass [OF assms] by blast
  then show ?thesis using ahead [OF _ r(3)] by (auto simp: pass_so_far_def)
qed

section \<open>Checkins\<close>

text \<open>Exactly one checkin is pending, at time \<open>c\<close>.\<close>

definition pending :: "nat \<Rightarrow> timeline \<Rightarrow> bool" where
  "pending c s \<longleftrightarrow> filter (\<lambda>d. tdID d = CHECKIN) (mTimeLine s) = [TimeData c CHECKIN]"

text \<open>Before and after the checkin of a pass is served.\<close>

definition checkin_so_far :: "nat \<Rightarrow> nat \<Rightarrow> timeline \<Rightarrow> timeline \<Rightarrow> bool" where
  "checkin_so_far t c0 s0 s \<longleftrightarrow> timeline_ok s \<and> same_config s0 s \<and>
     (pending c0 s \<and> checkinMessages s = checkinMessages s0 \<or>
      c0 \<le> t \<and> length (checkinMessages s) = length (checkinMessages s0) + of_bool (mSchemaListener s0) \<and>
      (\<exists>c. pending c s \<and> t < c \<and> c \<le> t + mCheckinIntervalInMsec s0))"

lemma pending_top:
  assumes "mTimeLine s = ev # rest" "pending c s" "tdID ev = CHECKIN"
  shows "tdTime ev = c" "filter (\<lambda>d. tdID d = CHECKIN) rest = []"
  using assms by (auto simp: pending_def)

lemma pending_rest:
  assumes "mTimeLine s = ev # rest" "tdID ev \<noteq> CHECKIN" "mTimeLine s' = rest"
  shows "pending c s' = pending c s"
  using assms by (simp add: pending_def)

lemma filter_insort_checkin:
  "filter (\<lambda>d. tdID d = CHECKIN) rest = [] \<Longrightarrow> filter (\<lambda>d. tdID d = CHECKIN) (insort (TimeData c CHECKIN) rest) = [TimeData c CHECKIN]"
  by (induction rest) (auto split: if_splits)

text \<open>A round serves the checkin or leaves it alone.\<close>

lemma check_round_event:
  assumes "check_round delivered t ret s = Some (ret', s')" "mTimeLine s = ev # rest"
  shows "tdID ev = CHECKIN \<and> tdTime ev \<le> t \<and> s' = serve_checkin delivered t s \<or>
     tdID ev \<noteq> CHECKIN \<and> mTimeLine s' = rest \<and> checkinMessages s' = checkinMessages s"
proof (cases "tdID ev = CHECKIN")
  case True
  then show ?thesis using assms by (auto simp: check_round_def check_event_def split: if_splits)
next
  case nc: False
  show ?thesis using assms nc
    by (cases "enabled s (tdID ev)"; cases "idle s (tdID ev)") (auto simp: check_round_def check_event_def Let_def split: if_splits)
qed

lemma checkin_round:
  assumes "clock_ok t s0" "checkin_so_far t c0 s0 s" "check_round delivered t ret s = Some (ret', s')"
  shows "checkin_so_far t c0 s0 s' \<and> rounds_left t s' < rounds_left t s"
proof -
  have clk: "clock_ok t s" using assms(1,2) clock_ok_config by (auto simp: checkin_so_far_def)
  have ok: "round_ok t ret s ret' s'" using check_round_ok [OF _ clk assms(3)] assms(2) by (auto simp: checkin_so_far_def)
  have cfg: "same_config s0 s" "same_config s0 s'" using assms(2) ok by (auto simp: checkin_so_far_def round_ok_def same_config_def)
  obtain ev rest where q: "mTimeLine s = ev # rest" using assms(3) by (cases "mTimeLine s") (auto simp: check_round_def)
  consider (served) "tdID ev = CHECKIN" "tdTime ev \<le> t" "s' = serve_checkin delivered t s"
    | (other) "tdID ev \<noteq> CHECKIN" "mTimeLine s' = rest" "checkinMessages s' = checkinMessages s"
    using check_round_event [OF assms(3) q] by blast
  then have "checkin_so_far t c0 s0 s'"
  proof cases
    case served
    obtain c where c: "t < c" "c \<le> t + mCheckinIntervalInMsec s" "mTimeLine s' = insort (TimeData c CHECKIN) rest"
      "checkinMessages s' = checkinMessages s @ (if mSchemaListener s then [checkin_message s] else [])"
      using serve_checkin_props [OF q served(2)] clk served(3) by (auto simp: clock_ok_def)
    have "\<not> (\<exists>c. pending c s \<and> t < c)" using pending_top(1) [OF q _ served(1)] served(2) by auto
    then have p: "pending c0 s" "checkinMessages s = checkinMessages s0" using assms(2) by (auto simp: checkin_so_far_def)
    have "c0 \<le> t" using pending_top(1) [OF q p(1) served(1)] served(2) by simp
    moreover have "pending c s'" using pending_top(2) [OF q p(1) served(1)] c(3) by (simp add: pending_def filter_insort_checkin)
    ultimately show ?thesis using c(1,2,4) p(2) cfg ok by (auto simp: checkin_so_far_def round_ok_def same_config_def)
  next
    case other
    then show ?thesis using assms(2) pending_rest [OF q other(1,2)] cfg ok by (auto simp: checkin_so_far_def round_ok_def)
  qed
  then show ?thesis using ok by (simp add: round_ok_def)
qed

text \<open>
  There is always exactly one checkin pending. A pass at time \<open>t\<close> leaves it in the future:
  where it was if it was not due, and otherwise at most one interval ahead, with exactly one
  message handed to the listener.
\<close>

lemma checkin_pass:
  assumes "timeline_ok s" "clock_ok t s" "pending c0 s"
  shows "\<exists>ret s' c. checkTimeLine delivered t s = Some (ret, s') \<and> pending c s' \<and> t < c \<and>
     (if t < c0 then c = c0 \<and> checkinMessages s' = checkinMessages s
      else c \<le> t + mCheckinIntervalInMsec s \<and>
           length (checkinMessages s') = length (checkinMessages s) + of_bool (mSchemaListener s))"
proof -
  have start: "checkin_so_far t c0 s s" using assms(1,3) by (simp add: checkin_so_far_def)
  obtain ret s' where r: "checkTimeLine delivered t s = Some (ret, s')" "checkin_so_far t c0 s s'"
    "mTimeLine s' = [] \<or> t < tdTime (hd (mTimeLine s'))"
  proof (cases "mTimeLine s = [] \<or> t < tdTime (hd (mTimeLine s))")
    case True
    then show thesis using start by (intro that [of False s]) (simp_all add: checkTimeLine_def)
  next
    case False
    have "\<exists>ret s'. check_loop delivered t False s = Some (ret, s') \<and> checkin_so_far t c0 s s' \<and> check_round delivered t ret s' = None"
      by (rule check_loop_ends [where P = "\<lambda>_. checkin_so_far t c0 s", OF start]) (rule checkin_round [OF assms(2)])
    then show thesis using False check_round_None that by (auto simp: checkTimeLine_def)
  qed
  have ahead: "t < c" if "pending c s'" for c
  proof -
    have mem: "TimeData c CHECKIN \<in> set (mTimeLine s')" using that filter_set [of _ "mTimeLine s'"]
      by (auto simp: pending_def dest!: arg_cong [of _ _ set])
    then have "hd (mTimeLine s') \<le> TimeData c CHECKIN"
      using r(2) by (intro sorted_hd_le) (auto simp: checkin_so_far_def timeline_ok_def events_ok_def)
    then show ?thesis using TimeData_le_time r(3) mem by fastforce
  qed
  show ?thesis using r(1,2) ahead unfolding checkin_so_far_def by (cases "t < c0") force+
qed

end
