(* ===== verification/SchemeUpdates.thy ===== *)
theory SchemeUpdates
  imports SchemeSchedule
begin

text \<open>
  Updates of the maps and the timeline from a new list of schemes: they keep the timeline
  well-formed, what becomes of each scheme, and which changes they report.
\<close>

section \<open>Single operations keep the timeline well-formed\<close>

definition scheme_ok :: "CollectionScheme \<Rightarrow> bool" where
  "scheme_ok c \<longleftrightarrow> schStartTime c \<le> schExpiryTime c \<and> schCollectionSchemeID c \<noteq> CHECKIN"

lemma sorted_insort_event: "sorted q \<Longrightarrow> sorted (insort x q :: TimeData list)"
  by (simp add: sorted_insort)

text \<open>A scheme that is enabled gets an event to stop it.\<close>

lemma timeline_ok_enable:
  assumes "timeline_ok s" "idle s i = None" "i \<noteq> CHECKIN"
  shows "timeline_ok (push_event (schExpiryTime c) i (put_enabled i c s))"
proof -
  let ?s = "push_event (schExpiryTime c) i (put_enabled i c s)"
  have m: "maps_ok s" "events_ok s" using assms(1) by (simp_all add: timeline_ok_def)
  have "needed ?s d \<le> count (mset (mTimeLine ?s)) d" for d
  proof (cases "tdID d = i")
    case True
    then show ?thesis using assms(2) by (cases d) (auto simp: needed_def)
  next
    case False
    then have "needed ?s d = needed s d" by (simp add: needed_def)
    moreover have "needed s d \<le> count (mset (mTimeLine s)) d" using m(2) by (simp add: events_ok_def)
    ultimately show ?thesis by simp
  qed
  then show ?thesis using m assms(2,3) by (auto simp: timeline_ok_def maps_ok_def events_ok_def sorted_insort_event)
qed

text \<open>An idle scheme gets an event to start and one to stop it.\<close>

lemma timeline_ok_idle:
  assumes "timeline_ok s" "enabled s i = None" "i \<noteq> CHECKIN" "schStartTime c \<le> schExpiryTime c"
  shows "timeline_ok (push_event (schExpiryTime c) i (push_event (schStartTime c) i (put_idle i c s)))"
proof -
  let ?s = "push_event (schExpiryTime c) i (push_event (schStartTime c) i (put_idle i c s))"
  have m: "maps_ok s" "events_ok s" using assms(1) by (simp_all add: timeline_ok_def)
  have "needed ?s d \<le> count (mset (mTimeLine ?s)) d" for d
  proof (cases "tdID d = i")
    case True
    then show ?thesis using assms(2) by (cases d) (auto simp: needed_def)
  next
    case False
    then have "needed ?s d = needed s d" by (simp add: needed_def)
    moreover have "needed s d \<le> count (mset (mTimeLine s)) d" using m(2) by (simp add: events_ok_def)
    ultimately show ?thesis by simp
  qed
  then show ?thesis using m assms(2-) by (auto simp: timeline_ok_def maps_ok_def events_ok_def sorted_insort_event)
qed

text \<open>Fewer schemes need fewer events.\<close>

lemma timeline_ok_fewer:
  assumes "timeline_ok s" "maps_ok s'" "mTimeLine s' = mTimeLine s"
    and "\<And>i. enabled s' i = enabled s i \<or> enabled s' i = None" "\<And>i. idle s' i = idle s i \<or> idle s' i = None"
  shows "timeline_ok s'"
proof -
  have e: "events_ok s" using assms(1) by (simp add: timeline_ok_def)
  have "needed s' d \<le> count (mset (mTimeLine s')) d" for d
  proof -
    have "needed s' d \<le> needed s d"
      using assms(4) [of "tdID d"] assms(5) [of "tdID d"] unfolding needed_def by (elim disjE) simp_all
    also have "\<dots> \<le> count (mset (mTimeLine s)) d" using e by (simp add: events_ok_def)
    finally show ?thesis using assms(3) by simp
  qed
  moreover have "enabled s' CHECKIN = None" "idle s' CHECKIN = None"
    using e assms(4,5) [of CHECKIN] by (auto simp: events_ok_def)
  moreover have "schStartTime c \<le> schExpiryTime c" if "idle s' i = Some c" for i c
    using e assms(5) [of i] that by (auto simp: events_ok_def)
  ultimately show ?thesis using e assms(2,3) by (simp add: timeline_ok_def events_ok_def)
qed

lemma timeline_ok_erase:
  assumes "timeline_ok s" shows "timeline_ok (erase_enabled i s)" "timeline_ok (erase_idle i s)"
proof -
  have m: "maps_ok s" using assms by (simp add: timeline_ok_def)
  show "timeline_ok (erase_enabled i s)" "timeline_ok (erase_idle i s)"
    by (rule timeline_ok_fewer [OF assms]; use m in \<open>auto simp: maps_ok_def\<close>)+
qed

lemma timeline_ok_filter:
  assumes "timeline_ok s"
  shows "timeline_ok (s\<lparr>mIdleCollectionSchemeMap := filter (\<lambda>p. P (fst p)) (mIdleCollectionSchemeMap s),
     mEnabledCollectionSchemeMap := filter (\<lambda>p. P (fst p)) (mEnabledCollectionSchemeMap s)\<rparr>)"
proof (rule timeline_ok_fewer [OF assms])
  have disj: "idle s i = None" if "enabled s i = Some c" for i c
    using assms that by (auto simp: timeline_ok_def maps_ok_def)
  then show "maps_ok (s\<lparr>mIdleCollectionSchemeMap := filter (\<lambda>p. P (fst p)) (mIdleCollectionSchemeMap s),
     mEnabledCollectionSchemeMap := filter (\<lambda>p. P (fst p)) (mEnabledCollectionSchemeMap s)\<rparr>)"
    using assms by (auto simp: timeline_ok_def maps_ok_def map_of_filter_key omap_ok_filter dest: disj split: if_splits)
qed (simp_all add: map_of_filter_key)

section \<open>One scheme of an update\<close>

fun upd_enabled :: "nat \<Rightarrow> CollectionScheme \<Rightarrow> CollectionScheme option \<Rightarrow> CollectionScheme option" where
  "upd_enabled t c (Some held) =
     (if schExpiryTime c \<le> t then None else if schExpiryTime c \<noteq> schExpiryTime held then Some c else Some held)"
| "upd_enabled t c None = (if schStartTime c \<le> t \<and> t < schExpiryTime c then Some c else None)"

fun upd_idle :: "nat \<Rightarrow> CollectionScheme \<Rightarrow> CollectionScheme option \<Rightarrow> CollectionScheme option \<Rightarrow> CollectionScheme option" where
  "upd_idle t c (Some e) d = None"
| "upd_idle t c None (Some held) =
     (if schStartTime c \<le> t \<and> t < schExpiryTime c then None
      else if t < schStartTime c \<and> (schStartTime c \<noteq> schStartTime held \<or> schExpiryTime c \<noteq> schExpiryTime held) then Some c
      else Some held)"
| "upd_idle t c None None = (if t < schStartTime c then Some c else None)"

lemma update_scheme_ok:
  fixes t :: nat and ret :: bool
  assumes "timeline_ok s" "scheme_ok c"
  defines "i \<equiv> schCollectionSchemeID c"
  defines "r \<equiv> update_scheme t c ret s"
  shows "timeline_ok (snd r)" "same_config s (snd r)"
    "enabled (snd r) = (enabled s)(i := upd_enabled t c (enabled s i))"
    "idle (snd r) = (idle s)(i := upd_idle t c (enabled s i) (idle s i))"
    "fst r \<longleftrightarrow> ret \<or> (upd_enabled t c (enabled s i) = None) \<noteq> (enabled s i = None)"
proof -
  have c: "i \<noteq> CHECKIN" "schStartTime c \<le> schExpiryTime c" using assms(2) by (simp_all add: i_def scheme_ok_def)
  have disj: "enabled s i \<noteq> None \<Longrightarrow> idle s i = None" using assms(1) by (auto simp: timeline_ok_def maps_ok_def)
  note eqs = update_scheme_def [of t c ret s, folded r_def i_def, unfolded Let_def]
  show "timeline_ok (snd r)"
  proof (cases "enabled s i")
    case (Some h)
    then show ?thesis using eqs disj timeline_ok_enable [OF assms(1) _ c(1), of c] timeline_ok_erase(1) [OF assms(1), of i] assms(1)
      by simp
  next
    case ne: None
    show ?thesis
    proof (cases "idle s i")
      case (Some h)
      have "timeline_ok (push_event (schExpiryTime c) i (put_enabled i c (erase_idle i s)))"
        by (rule timeline_ok_enable [OF timeline_ok_erase(2) [OF assms(1)] _ c(1)]) simp
      then show ?thesis using eqs ne Some timeline_ok_idle [OF assms(1) ne c] assms(1) by simp
    next
      case None
      then show ?thesis using eqs ne timeline_ok_enable [OF assms(1) None c(1), of c] timeline_ok_idle [OF assms(1) ne c] assms(1) by simp
    qed
  qed
  show "same_config s (snd r)" unfolding eqs by (simp split: option.split)
  show "enabled (snd r) = (enabled s)(i := upd_enabled t c (enabled s i))" unfolding eqs
    by (cases "enabled s i"; cases "idle s i") (auto simp: fun_eq_iff)
  show "idle (snd r) = (idle s)(i := upd_idle t c (enabled s i) (idle s i))" unfolding eqs
    using disj by (cases "enabled s i"; cases "idle s i") (auto simp: fun_eq_iff)
  show "fst r \<longleftrightarrow> ret \<or> (upd_enabled t c (enabled s i) = None) \<noteq> (enabled s i = None)" unfolding eqs
    by (cases "enabled s i"; cases "idle s i") auto
qed

section \<open>The whole update\<close>

lemma dom_differs: "dom f \<noteq> dom g \<longleftrightarrow> (\<exists>i. (f i = None) \<noteq> (g i = None))"
  unfolding set_eq_iff domIff not_all by (rule arg_cong [of _ _ Ex]) (intro ext, argo)

text \<open>The scheme a list holds for an identifier.\<close>

definition scheme_for :: "CollectionScheme list \<Rightarrow> string \<Rightarrow> CollectionScheme option" where
  "scheme_for cs i = find (\<lambda>c. schCollectionSchemeID c = i) cs"

lemma scheme_for_simps [simp]:
  "scheme_for [] i = None"
  "scheme_for (c # cs) i = (if schCollectionSchemeID c = i then Some c else scheme_for cs i)"
  by (simp_all add: scheme_for_def)

lemma scheme_for_None: "scheme_for cs i = None \<longleftrightarrow> i \<notin> set (map schCollectionSchemeID cs)"
  by (induction cs) auto

definition schemes_ok :: "string \<Rightarrow> CollectionScheme list \<Rightarrow> bool" where
  "schemes_ok manifest cs \<longleftrightarrow> (\<forall>c \<in> set cs. scheme_ok c \<and> schDecoderManifestID c = manifest) \<and>
     distinct (map schCollectionSchemeID cs)"

definition listed_enabled :: "nat \<Rightarrow> CollectionScheme list \<Rightarrow> timeline \<Rightarrow> string \<Rightarrow> CollectionScheme option" where
  "listed_enabled t cs s i = (case scheme_for cs i of None \<Rightarrow> enabled s i | Some c \<Rightarrow> upd_enabled t c (enabled s i))"

definition listed_idle :: "nat \<Rightarrow> CollectionScheme list \<Rightarrow> timeline \<Rightarrow> string \<Rightarrow> CollectionScheme option" where
  "listed_idle t cs s i = (case scheme_for cs i of None \<Rightarrow> idle s i | Some c \<Rightarrow> upd_idle t c (enabled s i) (idle s i))"

lemma update_loop_ok:
  "timeline_ok s \<Longrightarrow> schemes_ok (currentDecoderManifestID s) cs \<Longrightarrow>
   \<exists>ret' s'. update_loop t cs ret s = (True, ret', s') \<and> timeline_ok s' \<and> same_config s s' \<and>
     enabled s' = listed_enabled t cs s \<and> idle s' = listed_idle t cs s \<and>
     (ret' \<longleftrightarrow> ret \<or> (\<exists>i \<in> set (map schCollectionSchemeID cs). (enabled s' i = None) \<noteq> (enabled s i = None)))"
proof (induction cs arbitrary: ret s)
  case Nil
  then show ?case by (auto simp: listed_enabled_def listed_idle_def)
next
  case (Cons c cs)
  let ?i = "schCollectionSchemeID c"
  obtain r1 s1 where u: "update_scheme t c ret s = (r1, s1)" by (cases "update_scheme t c ret s")
  have sc: "scheme_ok c" "schDecoderManifestID c = currentDecoderManifestID s" "?i \<notin> set (map schCollectionSchemeID cs)"
    using Cons.prems(2) by (auto simp: schemes_ok_def)
  note U = update_scheme_ok [OF Cons.prems(1) sc(1), of t ret, unfolded u fst_conv snd_conv]
  have "schemes_ok (currentDecoderManifestID s1) cs" using Cons.prems(2) U(2) by (simp add: schemes_ok_def same_config_def)
  from Cons.IH [OF U(1) this, of r1] obtain r2 s2 where I: "update_loop t cs r1 s1 = (True, r2, s2)" "timeline_ok s2"
    "same_config s1 s2" "enabled s2 = listed_enabled t cs s1" "idle s2 = listed_idle t cs s1"
    "r2 \<longleftrightarrow> r1 \<or> (\<exists>i \<in> set (map schCollectionSchemeID cs). (enabled s2 i = None) \<noteq> (enabled s1 i = None))" by blast
  have other: "enabled s1 i = enabled s i" "idle s1 i = idle s i" if "i \<noteq> ?i" for i using that U(3,4) by simp_all
  have nf: "scheme_for cs ?i = None" using sc(3) scheme_for_None by blast
  have en: "enabled s2 = listed_enabled t (c # cs) s" unfolding I(4)
  proof
    fix i show "listed_enabled t cs s1 i = listed_enabled t (c # cs) s i"
      using nf U(3) other(1) [of i] by (cases "i = ?i") (simp_all add: listed_enabled_def cong: option.case_cong)
  qed
  have id: "idle s2 = listed_idle t (c # cs) s" unfolding I(5)
  proof
    fix i show "listed_idle t cs s1 i = listed_idle t (c # cs) s i"
      using nf U(3,4) other [of i] by (cases "i = ?i") (simp_all add: listed_idle_def cong: option.case_cong)
  qed
  have here: "enabled s2 ?i = upd_enabled t c (enabled s ?i)" unfolding en by (simp add: listed_enabled_def)
  have "(\<exists>i \<in> set (map schCollectionSchemeID cs). (enabled s2 i = None) \<noteq> (enabled s1 i = None)) \<longleftrightarrow>
      (\<exists>i \<in> set (map schCollectionSchemeID cs). (enabled s2 i = None) \<noteq> (enabled s i = None))"
    using other(1) sc(3) by (intro bex_cong refl) metis
  then have "r2 \<longleftrightarrow> ret \<or> (\<exists>i \<in> set (map schCollectionSchemeID (c # cs)). (enabled s2 i = None) \<noteq> (enabled s i = None))"
    unfolding I(6) U(5) using here by auto
  moreover have "same_config s s2" using U(2) I(3) by (simp add: same_config_def)
  ultimately show ?case using sc(2) u I(1,2) en id by auto
qed

text \<open>
  An update whose schemes all belong to the current manifest, with distinct identifiers. The
  timeline stays well-formed; every scheme of the list becomes what its old state and its new
  times say; a scheme missing from the list is gone; and a change is reported exactly if the set
  of enabled identifiers has changed.
\<close>

lemma update_ok:
  assumes "timeline_ok s" "schemes_ok (currentDecoderManifestID s) (getCollectionSchemes l)"
  shows "\<exists>ret s'. updateMapsandTimeLine (Some l) t s = (ret, s') \<and> timeline_ok s' \<and>
     (\<forall>i. enabled s' i = (case scheme_for (getCollectionSchemes l) i of None \<Rightarrow> None | Some c \<Rightarrow> upd_enabled t c (enabled s i))) \<and>
     (\<forall>i. idle s' i = (case scheme_for (getCollectionSchemes l) i of None \<Rightarrow> None | Some c \<Rightarrow> upd_idle t c (enabled s i) (idle s i))) \<and>
     (ret \<longleftrightarrow> dom (enabled s') \<noteq> dom (enabled s))"
proof -
  let ?cs = "getCollectionSchemes l"
  define ids where "ids = set (map schCollectionSchemeID ?cs)"
  have noid: "scheme_for ?cs i = None \<longleftrightarrow> i \<notin> ids" for i by (simp add: scheme_for_None ids_def)
  obtain r1 s1 where u: "update_loop t ?cs False s = (True, r1, s1)" "timeline_ok s1" "same_config s s1"
    "enabled s1 = listed_enabled t ?cs s" "idle s1 = listed_idle t ?cs s"
    "r1 \<longleftrightarrow> (\<exists>i \<in> ids. (enabled s1 i = None) \<noteq> (enabled s i = None))"
    using update_loop_ok [OF assms, of t False] unfolding ids_def [symmetric] by auto
  define s2 where "s2 = s1\<lparr>mIdleCollectionSchemeMap := filter (\<lambda>p. fst p \<in> ids) (mIdleCollectionSchemeMap s1),
      mEnabledCollectionSchemeMap := filter (\<lambda>p. fst p \<in> ids) (mEnabledCollectionSchemeMap s1)\<rparr>"
  define ret where "ret \<longleftrightarrow> r1 \<or> (\<exists>p \<in> set (mEnabledCollectionSchemeMap s1). fst p \<notin> ids)"
  have eq: "updateMapsandTimeLine (Some l) t s = (ret, s2)"
    using u(1) by (simp add: updateMapsandTimeLine_def s2_def ret_def Let_def ids_def [symmetric] del: set_map)
  have ok: "timeline_ok s2" unfolding s2_def by (rule timeline_ok_filter [OF u(2), of "\<lambda>i. i \<in> ids"])
  have en: "enabled s2 i = (if i \<in> ids then enabled s1 i else None)" and id: "idle s2 i = (if i \<in> ids then idle s1 i else None)" for i
    by (simp_all add: s2_def map_of_filter_key [of "\<lambda>i. i \<in> ids"])
  have en1: "enabled s1 i = enabled s i" if "i \<notin> ids" for i
    using that noid [of i] by (simp add: u(4) listed_enabled_def)
  have E: "enabled s2 i = (case scheme_for ?cs i of None \<Rightarrow> None | Some c \<Rightarrow> upd_enabled t c (enabled s i))" for i
    unfolding en using noid [of i] by (cases "scheme_for ?cs i") (simp_all add: u(4) listed_enabled_def)
  have I: "idle s2 i = (case scheme_for ?cs i of None \<Rightarrow> None | Some c \<Rightarrow> upd_idle t c (enabled s i) (idle s i))" for i
    unfolding id using noid [of i] by (cases "scheme_for ?cs i") (simp_all add: u(5) listed_idle_def)
  have "(\<exists>p \<in> set (mEnabledCollectionSchemeMap s1). fst p \<notin> ids) \<longleftrightarrow> (\<exists>i. i \<notin> ids \<and> enabled s1 i \<noteq> None)"
    by (force simp: map_of_eq_None_iff)
  then have "ret \<longleftrightarrow> (\<exists>i. (enabled s2 i = None) \<noteq> (enabled s i = None))"
    unfolding ret_def u(6) using en en1 by (metis (no_types, lifting))
  also have "\<dots> \<longleftrightarrow> dom (enabled s2) \<noteq> dom (enabled s)" by (simp only: dom_differs)
  finally show ?thesis using eq ok E I by blast
qed

section \<open>Cleaning up\<close>

text \<open>A scheme of the list that needs another decoder manifest.\<close>

definition mismatch :: "string \<Rightarrow> CollectionScheme list \<Rightarrow> bool" where
  "mismatch manifest cs \<longleftrightarrow> (\<exists>c \<in> set cs. schDecoderManifestID c \<noteq> manifest)"

definition no_schemes :: "timeline \<Rightarrow> bool" where
  "no_schemes s \<longleftrightarrow> mEnabledCollectionSchemeMap s = [] \<and> mIdleCollectionSchemeMap s = []"

lemma cleanup_no_schemes [simp]: "no_schemes (cleanupCollectionSchemes s)"
  by (simp add: no_schemes_def cleanupCollectionSchemes_def Let_def)

lemma cleanup_config [simp]: "same_config s (cleanupCollectionSchemes s)"
  by (simp add: same_config_def cleanupCollectionSchemes_def Let_def)

lemma cleanup_messages [simp]: "checkinMessages (cleanupCollectionSchemes s) = checkinMessages s"
  by (simp add: cleanupCollectionSchemes_def Let_def)

lemma timeline_ok_no_schemes: "no_schemes s \<Longrightarrow> timeline_ok s \<longleftrightarrow> sorted (mTimeLine s)"
  by (simp add: no_schemes_def timeline_ok_def maps_ok_def events_ok_def needed_def)

lemma cleanup_ok:
  assumes "timeline_ok s" shows "timeline_ok (cleanupCollectionSchemes s)"
proof (cases "no_schemes s")
  case True
  then show ?thesis using assms by (simp add: cleanupCollectionSchemes_def no_schemes_def)
next
  case False
  then have "sorted (mTimeLine (cleanupCollectionSchemes s))" by (auto simp: cleanupCollectionSchemes_def no_schemes_def Let_def)
  then show ?thesis by (simp add: timeline_ok_no_schemes)
qed

text \<open>The pending checkin survives, unless it is due at the beginning of time.\<close>

lemma cleanup_pending: "pending c s \<Longrightarrow> 0 < c \<Longrightarrow> pending c (cleanupCollectionSchemes s)"
  by (auto simp: pending_def cleanupCollectionSchemes_def Let_def)

text \<open>The loop keeps the timeline well-formed whether or not it runs into a mismatch.\<close>

lemma update_loop_keeps:
  "timeline_ok s \<Longrightarrow> \<forall>c \<in> set cs. scheme_ok c \<Longrightarrow> timeline_ok (snd (snd (update_loop t cs ret s)))"
proof (induction cs arbitrary: ret s)
  case (Cons c cs)
  obtain r1 s1 where u: "update_scheme t c ret s = (r1, s1)" by (cases "update_scheme t c ret s")
  have "timeline_ok s1" using update_scheme_ok(1) [OF Cons.prems(1), of c t ret] Cons.prems(2) u by simp
  then show ?case using Cons.IH [of s1 r1] Cons.prems u cleanup_ok by simp
qed simp

lemma update_scheme_config: "same_config s (snd (update_scheme t c ret s))"
  unfolding update_scheme_def Let_def by (simp split: option.split)

lemma update_loop_mismatch:
  "mismatch (currentDecoderManifestID s) cs \<Longrightarrow>
   \<exists>s'. update_loop t cs ret s = (False, False, s') \<and> no_schemes s' \<and> same_config s s'"
proof (induction cs arbitrary: ret s)
  case Nil
  then show ?case by (simp add: mismatch_def)
next
  case (Cons c cs)
  show ?case
  proof (cases "schDecoderManifestID c = currentDecoderManifestID s")
    case True
    obtain r1 s1 where u: "update_scheme t c ret s = (r1, s1)" by (cases "update_scheme t c ret s")
    then have cfg: "same_config s s1" using update_scheme_config [of s t c ret] by simp
    then have "mismatch (currentDecoderManifestID s1) cs" using Cons.prems True by (simp add: mismatch_def same_config_def)
    from Cons.IH [OF this, of r1] show ?thesis using True u cfg by (auto simp: same_config_def)
  qed simp
qed

lemma update_mismatch:
  assumes "mismatch (currentDecoderManifestID s) (getCollectionSchemes l)"
  shows "\<exists>s'. updateMapsandTimeLine (Some l) t s = (False, s') \<and> no_schemes s' \<and> same_config s s'"
proof -
  obtain s' where "update_loop t (getCollectionSchemes l) False s = (False, False, s')" "no_schemes s'" "same_config s s'"
    using update_loop_mismatch [OF assms] by blast
  then show ?thesis by (simp add: updateMapsandTimeLine_def)
qed

section \<open>Rebuilding\<close>

text \<open>What becomes of a scheme that is new.\<close>

definition new_enabled :: "nat \<Rightarrow> CollectionScheme list \<Rightarrow> string \<Rightarrow> CollectionScheme option" where
  "new_enabled t cs i = (case scheme_for cs i of None \<Rightarrow> None | Some c \<Rightarrow> upd_enabled t c None)"

definition new_idle :: "nat \<Rightarrow> CollectionScheme list \<Rightarrow> string \<Rightarrow> CollectionScheme option" where
  "new_idle t cs i = (case scheme_for cs i of None \<Rightarrow> None | Some c \<Rightarrow> upd_idle t c None None)"

definition fresh_for :: "CollectionScheme list \<Rightarrow> timeline \<Rightarrow> bool" where
  "fresh_for cs s \<longleftrightarrow> (\<forall>c \<in> set cs. enabled s (schCollectionSchemeID c) = None \<and> idle s (schCollectionSchemeID c) = None)"

text \<open>Schemes that are new are treated alike by a rebuild and an update.\<close>

lemma rebuild_loop_update:
  "timeline_ok s \<Longrightarrow> \<forall>c \<in> set cs. scheme_ok c \<Longrightarrow> distinct (map schCollectionSchemeID cs) \<Longrightarrow> fresh_for cs s \<Longrightarrow>
   rebuild_loop t cs ret s = snd (update_loop t cs ret s)"
proof (induction cs arbitrary: ret s)
  case (Cons c cs)
  let ?i = "schCollectionSchemeID c"
  show ?case
  proof (cases "schDecoderManifestID c = currentDecoderManifestID s")
    case True
    obtain r1 s1 where u: "update_scheme t c ret s = (r1, s1)" by (cases "update_scheme t c ret s")
    have sc: "scheme_ok c" "\<forall>c \<in> set cs. scheme_ok c" "distinct (map schCollectionSchemeID cs)"
      "?i \<notin> set (map schCollectionSchemeID cs)"
      using Cons.prems(2,3) by auto
    note U = update_scheme_ok [OF Cons.prems(1) sc(1), of t ret, unfolded u fst_conv snd_conv]
    have new: "enabled s ?i = None" "idle s ?i = None" using Cons.prems(4) by (simp_all add: fresh_for_def)
    have fr: "fresh_for cs s1" using Cons.prems(4) sc(4) U(3,4) by (auto simp: fresh_for_def image_iff)
    have "rebuild_loop t (c # cs) ret s = rebuild_loop t cs r1 s1"
      using u new True by (auto simp: update_scheme_def Let_def split: if_splits)
    then show ?thesis using Cons.IH [OF U(1) sc(2,3) fr, of r1] u True by simp
  qed simp
qed simp

lemma rebuild_ok:
  assumes "no_schemes s" "sorted (mTimeLine s)" "schemes_ok (currentDecoderManifestID s) (getCollectionSchemes l)"
  shows "\<exists>ret s'. rebuildMapsandTimeLine (Some l) t s = (ret, s') \<and> timeline_ok s' \<and> same_config s s' \<and>
     enabled s' = new_enabled t (getCollectionSchemes l) \<and> idle s' = new_idle t (getCollectionSchemes l) \<and>
     (ret \<longleftrightarrow> dom (enabled s') \<noteq> {})"
proof -
  let ?cs = "getCollectionSchemes l"
  have ok: "timeline_ok s" using assms(1,2) by (simp add: timeline_ok_no_schemes)
  have none: "enabled s = Map.empty" "idle s = Map.empty" using assms(1) by (simp_all add: no_schemes_def)
  obtain r s' where u: "update_loop t ?cs False s = (True, r, s')" "timeline_ok s'" "same_config s s'"
    "enabled s' = listed_enabled t ?cs s" "idle s' = listed_idle t ?cs s"
    "r \<longleftrightarrow> (\<exists>i \<in> set (map schCollectionSchemeID ?cs). (enabled s' i = None) \<noteq> (enabled s i = None))"
    using update_loop_ok [OF ok assms(3), of t False] by auto
  have "rebuildMapsandTimeLine (Some l) t s = (r, s')"
    using u(1) rebuild_loop_update [OF ok, of ?cs t False] assms(3) none
    by (simp add: fresh_for_def rebuildMapsandTimeLine_def schemes_ok_def)
  moreover have E: "enabled s' = new_enabled t ?cs" and "idle s' = new_idle t ?cs"
    using none by (auto simp: u(4,5) listed_enabled_def listed_idle_def new_enabled_def new_idle_def fun_eq_iff cong: option.case_cong)
  moreover have "r \<longleftrightarrow> dom (enabled s') \<noteq> {}"
  proof -
    have "enabled s' i = None" if "i \<notin> set (map schCollectionSchemeID ?cs)" for i
      using that scheme_for_None [of ?cs i] unfolding E new_enabled_def by simp
    then show ?thesis using none dom_differs [of "enabled s'" Map.empty] unfolding u(6) by (metis dom_empty)
  qed
  ultimately show ?thesis using u(2,3) by blast
qed

section \<open>Properties\<close>

text \<open>
  C20. The pass over the timeline ends and implements the schedule: at time \<open>t\<close> a scheme is
  enabled afterwards exactly if it was enabled or its start has come, and its stop has not; it is
  idle exactly if it was idle and its start has not come. Without a reported change the enabled
  map is as before, and the timeline stays well-formed.
\<close>

theorem checkTimeLine_schedules:
  assumes "timeline_ok s" "clock_ok t s"
  shows "\<exists>ret s'. checkTimeLine delivered t s = Some (ret, s') \<and> timeline_ok s' \<and>
     enabled s' = enabled_at t s \<and> idle s' = idle_at t s \<and>
     (\<not> ret \<longrightarrow> mEnabledCollectionSchemeMap s' = mEnabledCollectionSchemeMap s)"
  by (rule schedule_pass [OF assms])

text \<open>
  There is always exactly one checkin pending. A pass at time \<open>t\<close> leaves it in the future:
  where it was if it was not due, and otherwise at most one interval ahead, with exactly one
  message handed to the listener.
\<close>

theorem checkTimeLine_checkin:
  assumes "timeline_ok s" "clock_ok t s" "pending c0 s"
  shows "\<exists>ret s' c. checkTimeLine delivered t s = Some (ret, s') \<and> pending c s' \<and> t < c \<and>
     (if t < c0 then c = c0 \<and> checkinMessages s' = checkinMessages s
      else c \<le> t + mCheckinIntervalInMsec s \<and>
           length (checkinMessages s') = length (checkinMessages s) + of_bool (mSchemaListener s))"
  by (rule checkin_pass [OF assms])

text \<open>
  C36. An update from a list of schemes with distinct identifiers, none of them that of the checkin, that do
  not end before they start, and a well-formed timeline. The timeline stays well-formed. If all schemes belong to the manifest in use,
  every scheme of the list becomes what its old state and its new times say, a scheme missing from the list
  is gone, and a change is reported exactly if the set of enabled identifiers has changed; so not
  when an enabled scheme is only replaced by a version with another stop time. If some scheme needs another
  manifest, every scheme is gone and no change is reported.
\<close>

theorem update_result:
  assumes "timeline_ok s" and "\<forall>c \<in> set (getCollectionSchemes l). scheme_ok c"
    and "distinct (map schCollectionSchemeID (getCollectionSchemes l))"
  shows "\<exists>ret s'. updateMapsandTimeLine (Some l) t s = (ret, s') \<and> timeline_ok s' \<and>
     (if \<forall>c \<in> set (getCollectionSchemes l). schDecoderManifestID c = currentDecoderManifestID s
      then (\<forall>i. enabled s' i = (case scheme_for (getCollectionSchemes l) i of None \<Rightarrow> None | Some c \<Rightarrow> upd_enabled t c (enabled s i))) \<and>
        (\<forall>i. idle s' i = (case scheme_for (getCollectionSchemes l) i of None \<Rightarrow> None | Some c \<Rightarrow> upd_idle t c (enabled s i) (idle s i))) \<and>
        (ret \<longleftrightarrow> dom (enabled s') \<noteq> dom (enabled s))
      else enabled s' = Map.empty \<and> idle s' = Map.empty \<and> \<not> ret)"
proof (cases "mismatch (currentDecoderManifestID s) (getCollectionSchemes l)")
  case True
  obtain s1 where u: "update_loop t (getCollectionSchemes l) False s = (False, False, s1)" "no_schemes s1"
    using update_loop_mismatch [OF True] by blast
  have ok: "timeline_ok s1" using update_loop_keeps [OF assms(1,2), of t False] u(1) by simp
  have other: "(\<forall>c \<in> set (getCollectionSchemes l). schDecoderManifestID c = currentDecoderManifestID s) = False"
    using True by (auto simp: mismatch_def)
  show ?thesis unfolding other if_False
    by (intro exI [of _ False] exI [of _ s1]) (use u ok in \<open>simp add: updateMapsandTimeLine_def no_schemes_def\<close>)
next
  case False
  then have all: "\<forall>c \<in> set (getCollectionSchemes l). schDecoderManifestID c = currentDecoderManifestID s"
    by (simp add: mismatch_def)
  then have "schemes_ok (currentDecoderManifestID s) (getCollectionSchemes l)" using assms(2,3) by (simp add: schemes_ok_def)
  from update_ok [OF assms(1) this, of t] show ?thesis unfolding eqTrueI [OF all] if_True .
qed

text \<open>
  One scheme of the list that needs another decoder manifest makes an update drop every
  scheme, the enabled ones included, and still report that the enabled schemes have not changed.
\<close>

theorem mismatch_clears_unreported:
  assumes "mismatch (currentDecoderManifestID s) (getCollectionSchemes l)"
  shows "\<exists>s'. updateMapsandTimeLine (Some l) t s = (False, s') \<and> enabled s' = Map.empty \<and> idle s' = Map.empty"
proof -
  obtain s' where "updateMapsandTimeLine (Some l) t s = (False, s')" "no_schemes s'" using update_mismatch [OF assms] by blast
  then show ?thesis by (simp add: no_schemes_def)
qed

section \<open>Witnesses\<close>

definition sample_scheme :: "string \<Rightarrow> string \<Rightarrow> nat \<Rightarrow> nat \<Rightarrow> CollectionScheme" where
  "sample_scheme i manifest start stop =
     invalid_scheme\<lparr>schCollectionSchemeID := i, schDecoderManifestID := manifest, schStartTime := start, schExpiryTime := stop\<rparr>"

lemma sample_scheme_simps [simp]:
  "schCollectionSchemeID (sample_scheme i m a b) = i" "schDecoderManifestID (sample_scheme i m a b) = m"
  "schStartTime (sample_scheme i m a b) = a" "schExpiryTime (sample_scheme i m a b) = b"
  by (simp_all add: sample_scheme_def)

definition sample_list :: "CollectionScheme list \<Rightarrow> CollectionSchemeList" where
  "sample_list cs = new_list\<lparr>lstSchemes := cs, lstReady := True\<rparr>"

text \<open>A scheme that waits for its start, and one that is enabled.\<close>

definition sample_timeline :: timeline where
  "sample_timeline =
     push_event 40 ''b'' (put_enabled ''b'' (sample_scheme ''b'' ''m'' 0 40)
       (push_event 30 ''a'' (push_event 10 ''a'' (put_idle ''a'' (sample_scheme ''a'' ''m'' 10 30)
         (prepareCheckinTimer 5 (new_timeline ''m''))))))"

lemma new_timeline_ok: "timeline_ok (prepareCheckinTimer t (new_timeline m))"
  by (simp add: timeline_ok_no_schemes no_schemes_def prepareCheckinTimer_def new_timeline_def)

lemma sample_timeline_maps:
  "enabled sample_timeline = [''b'' \<mapsto> sample_scheme ''b'' ''m'' 0 40]"
  "idle sample_timeline = [''a'' \<mapsto> sample_scheme ''a'' ''m'' 10 30]"
  "currentDecoderManifestID sample_timeline = ''m''" "mCheckinIntervalInMsec sample_timeline = 300000"
  by (simp_all add: sample_timeline_def prepareCheckinTimer_def push_event_def put_enabled_def put_idle_def new_timeline_def
      DEFAULT_CHECKIN_INTERVAL_IN_MILLISECOND_def)

lemma sample_timeline_ok: "timeline_ok sample_timeline"
proof -
  have a: "timeline_ok (push_event 30 ''a'' (push_event 10 ''a'' (put_idle ''a'' (sample_scheme ''a'' ''m'' 10 30)
      (prepareCheckinTimer 5 (new_timeline ''m'')))))"
    using timeline_ok_idle [OF new_timeline_ok, of 5 "''m''" "''a''" "sample_scheme ''a'' ''m'' 10 30"]
    by (simp add: prepareCheckinTimer_def new_timeline_def CHECKIN_def push_event_def)
  show ?thesis unfolding sample_timeline_def
    using timeline_ok_enable [OF a, of "''b''" "sample_scheme ''b'' ''m'' 0 40"]
    by (simp add: prepareCheckinTimer_def new_timeline_def CHECKIN_def push_event_def put_idle_def)
qed

lemma sample_clock: "t < 1000 \<Longrightarrow> clock_ok t sample_timeline"
  by (simp add: clock_ok_def sample_timeline_maps)

lemma sample_pending: "pending 5 sample_timeline"
  by (simp add: pending_def sample_timeline_def prepareCheckinTimer_def push_event_def put_enabled_def put_idle_def
      new_timeline_def CHECKIN_def less_eq_TimeData_def)

theorem checkTimeLine_schedules_witness:
  "\<exists>ret s'. checkTimeLine (\<lambda>_. True) 20 sample_timeline = Some (ret, s') \<and>
     enabled s' ''a'' = Some (sample_scheme ''a'' ''m'' 10 30) \<and> enabled s' ''b'' \<noteq> None \<and> idle s' ''a'' = None"
proof -
  obtain ret s' where "checkTimeLine (\<lambda>_. True) 20 sample_timeline = Some (ret, s')"
    "enabled s' = enabled_at 20 sample_timeline" "idle s' = idle_at 20 sample_timeline"
    using checkTimeLine_schedules [OF sample_timeline_ok sample_clock, of 20 "\<lambda>_. True"] by auto
  then show ?thesis by (simp add: enabled_at_def idle_at_def sample_timeline_maps)
qed

theorem checkTimeLine_checkin_witness:
  "\<exists>ret s' c. checkTimeLine (\<lambda>_. False) 20 sample_timeline = Some (ret, s') \<and> pending c s' \<and> 20 < c \<and> c \<le> 300020"
  using checkTimeLine_checkin [OF sample_timeline_ok sample_clock sample_pending, of 20 "\<lambda>_. False"]
  by (auto simp: sample_timeline_maps)

theorem update_result_witness:
  "\<exists>s'. updateMapsandTimeLine (Some (sample_list [sample_scheme ''a'' ''m'' 10 30, sample_scheme ''b'' ''m'' 0 15])) 20
     sample_timeline = (True, s') \<and> dom (enabled s') = {''a''}"
proof -
  let ?l = "sample_list [sample_scheme ''a'' ''m'' 10 30, sample_scheme ''b'' ''m'' 0 15]"
  have l: "\<forall>c \<in> set (getCollectionSchemes ?l). scheme_ok c" "distinct (map schCollectionSchemeID (getCollectionSchemes ?l))"
    by (simp_all add: sample_list_def getCollectionSchemes_def scheme_ok_def CHECKIN_def)
  have "\<forall>c \<in> set (getCollectionSchemes ?l). schDecoderManifestID c = currentDecoderManifestID sample_timeline"
    by (simp add: sample_timeline_maps sample_list_def getCollectionSchemes_def)
  with update_result [OF sample_timeline_ok l, of 20] obtain ret s' where
    u: "updateMapsandTimeLine (Some ?l) 20 sample_timeline = (ret, s')"
    "\<forall>i. enabled s' i = (case scheme_for (getCollectionSchemes ?l) i of None \<Rightarrow> None | Some c \<Rightarrow> upd_enabled 20 c (enabled sample_timeline i))"
    "ret \<longleftrightarrow> dom (enabled s') \<noteq> dom (enabled sample_timeline)" by auto
  have "dom (enabled s') = {''a''}"
    using u(2) by (auto simp: sample_timeline_maps sample_list_def getCollectionSchemes_def dom_def split: if_splits)
  then show ?thesis using u(1,3) by (simp add: sample_timeline_maps)
qed

theorem mismatch_clears_unreported_witness:
  "enabled sample_timeline ''b'' \<noteq> None \<and>
   (\<exists>s'. updateMapsandTimeLine (Some (sample_list [sample_scheme ''a'' ''n'' 10 30])) 20 sample_timeline = (False, s') \<and>
     enabled s' = Map.empty)"
proof -
  have "mismatch (currentDecoderManifestID sample_timeline) (getCollectionSchemes (sample_list [sample_scheme ''a'' ''n'' 10 30]))"
    by (simp add: sample_timeline_maps sample_list_def getCollectionSchemes_def mismatch_def)
  from mismatch_clears_unreported [OF this, of 20] show ?thesis by (auto simp: sample_timeline_maps)
qed

end
