(* ===== verification/MatrixExtractor.thy ===== *)
theory MatrixExtractor
  imports SchemeUpdates
begin

text \<open>
  The inspection matrix the manager hands to the engine (\<open>InspectionMatrixExtractor.cpp\<close>) and the
  channel numbers it uses (\<open>CANInterfaceIDTranslator.h\<close>): the settings of every enabled scheme, and
  one vector with copies of all expression nodes whose pointers are moved from the vectors of the
  schemes to the new one. A node of a scheme is addressed by the position of the scheme among the
  enabled ones and its index there; \<open>None\<close> as the result of a traversal means that it does not end.
\<close>

section \<open>Channel numbers\<close>

record CANInterfaceIDTranslator =
  mLookup :: "(nat \<times> string) list"
  mCounter :: nat

definition new_translator :: CANInterfaceIDTranslator where
  "new_translator = \<lparr>mLookup = [], mCounter = 0\<rparr>"

definition translator_add :: "string \<Rightarrow> CANInterfaceIDTranslator \<Rightarrow> CANInterfaceIDTranslator" where
  "translator_add iid x = x\<lparr>mLookup := mLookup x @ [(mCounter x, iid)], mCounter := u32 (mCounter x + 1)\<rparr>"

definition getChannelNumericID :: "CANInterfaceIDTranslator \<Rightarrow> string \<Rightarrow> nat" where
  "getChannelNumericID x iid = (case find (\<lambda>l. snd l = iid) (mLookup x) of Some l \<Rightarrow> fst l | None \<Rightarrow> INVALID_CAN_SOURCE_NUMERIC_ID)"

definition getInterfaceID :: "CANInterfaceIDTranslator \<Rightarrow> nat \<Rightarrow> string" where
  "getInterfaceID x cid = (case find (\<lambda>l. fst l = cid) (mLookup x) of Some l \<Rightarrow> snd l | None \<Rightarrow> [])"

section \<open>The settings of a condition\<close>

definition matrix_frame :: "CANInterfaceIDTranslator \<Rightarrow> CanFrameCollectionInfo \<Rightarrow> CanFrameMatrixInfo" where
  "matrix_frame x f =
     \<lparr>frmID = cfiFrameID f, frmChannelID = getChannelNumericID x (cfiInterfaceID f),
      frmSampleBufferSize = cfiSampleBufferSize f, frmMinimumSampleIntervalMs = cfiMinimumSampleIntervalMs f\<rparr>"

text \<open>The settings start out zero, and zero is the time based type.\<close>

definition matrix_image :: "ImageCollectionInfo \<Rightarrow> ImageCollectionInfo" where
  "matrix_image info =
     \<lparr>imgDeviceID = imgDeviceID info, imgFormat = imgFormat info,
      imgCollectionType = (if imgCollectionType info = FRAME_BASED then FRAME_BASED else TIME_BASED),
      imgBeforeDurationMs = (if imgCollectionType info = TIME_BASED then imgBeforeDurationMs info else 0)\<rparr>"

definition addConditionData :: "CANInterfaceIDTranslator \<Rightarrow> CollectionScheme \<Rightarrow> ConditionWithCollectedData" where
  "addConditionData x c =
     \<lparr>condition = None, minimumPublishInterval = schMinimumPublishIntervalMs c, afterDuration = schAfterDurationMs c,
      cndSignals = schCollectSignals c,
      cndCanFrames = filter (\<lambda>f. frmChannelID f \<noteq> INVALID_CAN_SOURCE_NUMERIC_ID) (map (matrix_frame x) (schCollectRawCanFrames c)),
      includeActiveDtcs = schActiveDTCsIncluded c, triggerOnlyOnRisingEdge = schTriggerOnlyOnRisingEdge c,
      probabilityToSend = schProbabilityToSend c,
      cndMetaData = \<lparr>compress = schCompressionNeeded c, persist = schPersistNeeded c, priority = schPriority c,
        decoderID = schDecoderManifestID c, collectionSchemeID = schCollectionSchemeID c\<rparr>,
      imageCollectionInfos = map matrix_image (schImageCaptureData c),
      includeImageCapture = map matrix_image (schImageCaptureData c) \<noteq> []\<rparr>"

section \<open>The traversal\<close>

type_synonym node_ptr = "nat \<times> nat"

record traversal =
  nodeToIndexMap :: "node_ptr option \<Rightarrow> nat option"
  trNodes :: "node_ptr list"
  trIndex :: nat

definition new_traversal :: traversal where
  "new_traversal = \<lparr>nodeToIndexMap = (\<lambda>_. None), trNodes = [], trIndex = 0\<rparr>"

definition deref :: "CollectionScheme list \<Rightarrow> node_ptr \<Rightarrow> ExpressionCell option" where
  "deref ss q = (if fst q < length ss then at_index (schExpressionNodes (ss ! fst q)) (snd q) else None)"

definition node_of :: "nat \<Rightarrow> nat option \<Rightarrow> node_ptr option" where
  "node_of k p = map_option (Pair k) p"

definition visit :: "node_ptr \<Rightarrow> traversal \<Rightarrow> traversal" where
  "visit currNode x =
     x\<lparr>nodeToIndexMap := (nodeToIndexMap x)(Some currNode \<mapsto> trIndex x), trNodes := trNodes x @ [currNode],
       trIndex := u32 (trIndex x + 1)\<rparr>"

text \<open>Push a node and its left descendants.\<close>

partial_function (option) push_left :: "CollectionScheme list \<Rightarrow> node_ptr option \<Rightarrow> node_ptr list \<Rightarrow> node_ptr list ub_result option" where
  "push_left ss currNode nodeStack =
     (case currNode of
        None \<Rightarrow> Some (Inr nodeStack)
      | Some q \<Rightarrow>
          (case deref ss q of
             None \<Rightarrow> Some (Inl DanglingPointer)
           | Some c \<Rightarrow> push_left ss (node_of (fst q) (cellLeft c)) (q # nodeStack)))"

text \<open>Visit the node on top and go on with its right child.\<close>

partial_function (option) walk :: "CollectionScheme list \<Rightarrow> node_ptr list \<Rightarrow> traversal \<Rightarrow> traversal ub_result option" where
  "walk ss nodeStack x =
     (case nodeStack of
        [] \<Rightarrow> Some (Inr x)
      | q # rest \<Rightarrow>
          (case deref ss q of
             None \<Rightarrow> Some (Inl DanglingPointer)
           | Some c \<Rightarrow>
               (case push_left ss (node_of (fst q) (cellRight c)) rest of
                  None \<Rightarrow> None
                | Some (Inl e) \<Rightarrow> Some (Inl e)
                | Some (Inr nodeStack) \<Rightarrow> walk ss nodeStack (visit q x))))"

definition traverse :: "CollectionScheme list \<Rightarrow> nat \<Rightarrow> traversal \<Rightarrow> traversal ub_result option" where
  "traverse ss k x =
     (case push_left ss (node_of k (schCondition (ss ! k))) [] of
        None \<Rightarrow> None
      | Some (Inl e) \<Rightarrow> Some (Inl e)
      | Some (Inr nodeStack) \<Rightarrow> walk ss nodeStack x)"

fun traverse_all :: "CollectionScheme list \<Rightarrow> nat list \<Rightarrow> traversal \<Rightarrow> traversal ub_result option" where
  "traverse_all ss [] x = Some (Inr x)"
| "traverse_all ss (k # ks) x =
     (case traverse ss k x of
        None \<Rightarrow> None
      | Some (Inl e) \<Rightarrow> Some (Inl e)
      | Some (Inr x) \<Rightarrow> traverse_all ss ks x)"

section \<open>The copies\<close>

text \<open>Reading the map with \<open>operator[]\<close> yields zero for a key that is not there.\<close>

definition index_of :: "traversal \<Rightarrow> node_ptr option \<Rightarrow> nat" where
  "index_of x q = (case nodeToIndexMap x q of Some i \<Rightarrow> i | None \<Rightarrow> 0)"

definition copy_cell :: "traversal \<Rightarrow> nat \<Rightarrow> ExpressionCell \<Rightarrow> ExpressionCell" where
  "copy_cell x k c =
     c\<lparr>cellLeft := map_option (\<lambda>l. index_of x (Some (k, l))) (cellLeft c),
       cellRight := map_option (\<lambda>r. index_of x (Some (k, r))) (cellRight c)\<rparr>"

fun copy_nodes :: "CollectionScheme list \<Rightarrow> traversal \<Rightarrow> node_ptr list \<Rightarrow> ExpressionCell list ub_result" where
  "copy_nodes ss x [] = Inr []"
| "copy_nodes ss x (q # qs) =
     (case deref ss q of
        None \<Rightarrow> Inl DanglingPointer
      | Some c \<Rightarrow> ub_bind (copy_nodes ss x qs) (\<lambda>cs. Inr (copy_cell x (fst q) c # cs)))"

text \<open>The new root of a condition is the address of an element of the storage.\<close>

fun new_roots :: "traversal \<Rightarrow> nat \<Rightarrow> node_ptr option list \<Rightarrow> nat list ub_result" where
  "new_roots x n [] = Inr []"
| "new_roots x n (q # qs) =
     (if n \<le> index_of x q then Inl OutOfBounds
      else ub_bind (new_roots x n qs) (\<lambda>is. Inr (index_of x q # is)))"

text \<open>The matrix: the settings of each condition with its root in the storage.\<close>

record MatrixGraph =
  mgConditions :: "(nat \<times> ConditionWithCollectedData) list"
  expressionNodeStorage :: "ExpressionCell list"

definition matrix_copy :: "CANInterfaceIDTranslator \<Rightarrow> CollectionScheme list \<Rightarrow> traversal \<Rightarrow> MatrixGraph ub_result" where
  "matrix_copy ids ss x =
     ub_bind (copy_nodes ss x (trNodes x)) (\<lambda>storage.
     ub_bind (new_roots x (length storage) (map (\<lambda>k. node_of k (schCondition (ss ! k))) [0..<length ss])) (\<lambda>roots.
       Inr \<lparr>mgConditions = zip roots (map (addConditionData ids) ss), expressionNodeStorage = storage\<rparr>))"

text \<open>The loop over the nodes counts in 32 bits and never ends if there are more.\<close>

definition inspectionMatrixExtractor ::
  "CANInterfaceIDTranslator \<Rightarrow> (string \<times> CollectionScheme) list \<Rightarrow> MatrixGraph ub_result option" where
  "inspectionMatrixExtractor ids enabledMap =
     (let ss = map snd enabledMap in
      case traverse_all ss [0..<length ss] new_traversal of
        None \<Rightarrow> None
      | Some (Inl e) \<Rightarrow> Some (Inl e)
      | Some (Inr x) \<Rightarrow> if 2 ^ 32 \<le> length (trNodes x) then None else Some (matrix_copy ids ss x))"

section \<open>What the traversal visits\<close>

fun visited :: "(nat \<Rightarrow> ExpressionCell option) \<Rightarrow> nat option \<Rightarrow> ExpressionNode option \<Rightarrow> nat list" where
  "visited store p None = []"
| "visited store p (Some (ExpressionNode t l r f b s fn)) =
     (case p of
        None \<Rightarrow> []
      | Some i \<Rightarrow> (case store i of None \<Rightarrow> [] | Some c \<Rightarrow> visited store (cellLeft c) l @ i # visited store (cellRight c) r))"

fun node_count :: "ExpressionNode option \<Rightarrow> nat" where
  "node_count None = 0"
| "node_count (Some (ExpressionNode t l r f b s fn)) = node_count l + node_count r + 1"

lemma length_visited: "denotes store p t \<Longrightarrow> length (visited store p t) = node_count t"
  by (induction store p t rule: denotes.induct) auto

definition visit_all :: "nat \<Rightarrow> nat list \<Rightarrow> traversal \<Rightarrow> traversal" where
  "visit_all k is x = fold (\<lambda>i. visit (k, i)) is x"

lemma visit_all_simps [simp]:
  "visit_all k [] x = x" "visit_all k (i # is) x = visit_all k is (visit (k, i) x)"
  "visit_all k (is @ js) x = visit_all k js (visit_all k is x)"
  by (simp_all add: visit_all_def)

text \<open>Going down from a pointer visits its tree in order and comes back to the stack.\<close>

lemma walk_tree:
  assumes "denotes (\<lambda>i. deref ss (k, i)) p t"
  shows "\<exists>st'. push_left ss (node_of k p) st = Some (Inr st') \<and>
     walk ss st' x = walk ss st (visit_all k (visited (\<lambda>i. deref ss (k, i)) p t) x)"
  using assms
proof (induction "\<lambda>i. deref ss (k, i)" p t arbitrary: st x rule: denotes.induct)
  case (1 p)
  then show ?case by (simp add: node_of_def push_left.simps)
next
  case (2 p t l r f b s fn)
  let ?store = "\<lambda>i. deref ss (k, i)"
  obtain i c where c: "p = Some i" "deref ss (k, i) = Some c" "denotes ?store (cellLeft c) l" "denotes ?store (cellRight c) r"
    using "2.prems" by auto
  let ?x = "visit_all k (visited ?store (cellLeft c) l) x"
  obtain st1 where l: "push_left ss (node_of k (cellLeft c)) ((k, i) # st) = Some (Inr st1)"
    "walk ss st1 x = walk ss ((k, i) # st) ?x"
    using "2.hyps"(1) [OF c(3), of "(k, i) # st" x] by blast
  obtain st2 where r: "push_left ss (node_of k (cellRight c)) st = Some (Inr st2)"
    "walk ss st2 (visit (k, i) ?x) = walk ss st (visit_all k (visited ?store (cellRight c) r) (visit (k, i) ?x))"
    using "2.hyps"(2) [OF c(4), of st "visit (k, i) ?x"] by blast
  have "push_left ss (node_of k p) st = Some (Inr st1)"
    using c l(1) by (subst push_left.simps) (simp add: node_of_def)
  moreover have "walk ss ((k, i) # st) ?x = walk ss st2 (visit (k, i) ?x)"
    using c r(1) by (subst walk.simps) simp
  ultimately show ?case using c l(2) r(2) by simp
qed

section \<open>The numbers of the nodes\<close>

text \<open>The map gives every visited node one of its places in the list, and knows no others.\<close>

definition traversal_ok :: "traversal \<Rightarrow> bool" where
  "traversal_ok x \<longleftrightarrow> trIndex x = length (trNodes x) mod 2 ^ 32 \<and> nodeToIndexMap x None = None \<and>
     (length (trNodes x) < 2 ^ 32 \<longrightarrow>
       (\<forall>q i. nodeToIndexMap x (Some q) = Some i \<longrightarrow> i < length (trNodes x) \<and> trNodes x ! i = q)) \<and>
     (\<forall>q \<in> set (trNodes x). nodeToIndexMap x (Some q) \<noteq> None)"

lemma traversal_ok_new: "traversal_ok new_traversal"
  by (simp add: traversal_ok_def new_traversal_def)

lemma traversal_ok_visit: "traversal_ok x \<Longrightarrow> traversal_ok (visit q x)"
  unfolding traversal_ok_def visit_def u32_def
  by (auto simp: nth_append mod_Suc_eq less_Suc_eq Suc_le_eq dest: spec)

lemma traversal_ok_visit_all: "traversal_ok x \<Longrightarrow> traversal_ok (visit_all k is x)"
  by (induction "is" arbitrary: x) (simp_all add: traversal_ok_visit)

lemma trNodes_visit_all [simp]: "trNodes (visit_all k is x) = trNodes x @ map (Pair k) is"
  by (induction "is" arbitrary: x) (simp_all add: visit_def)

lemma traversal_ok_index:
  assumes "traversal_ok x" "length (trNodes x) < 2 ^ 32" "q \<in> set (trNodes x)"
  shows "index_of x (Some q) < length (trNodes x)" "trNodes x ! index_of x (Some q) = q"
proof -
  obtain i where i: "nodeToIndexMap x (Some q) = Some i" using assms(1,3) by (auto simp: traversal_ok_def)
  then have "i < length (trNodes x) \<and> trNodes x ! i = q" using assms(1,2) unfolding traversal_ok_def by blast
  then show "index_of x (Some q) < length (trNodes x)" "trNodes x ! index_of x (Some q) = q"
    using i by (simp_all add: index_of_def)
qed

section \<open>All schemes\<close>

text \<open>The condition of every scheme denotes the tree given for it.\<close>

definition denote_all :: "CollectionScheme list \<Rightarrow> ExpressionNode option list \<Rightarrow> bool" where
  "denote_all ss ts \<longleftrightarrow> length ts = length ss \<and>
     (\<forall>k < length ss. denotes (at_index (schExpressionNodes (ss ! k))) (schCondition (ss ! k)) (ts ! k))"

abbreviation scheme_store :: "CollectionScheme list \<Rightarrow> nat \<Rightarrow> nat \<Rightarrow> ExpressionCell option" where
  "scheme_store ss k \<equiv> \<lambda>i. deref ss (k, i)"

lemma scheme_store_eq: "k < length ss \<Longrightarrow> scheme_store ss k = at_index (schExpressionNodes (ss ! k))"
  by (simp add: deref_def)

definition visits :: "CollectionScheme list \<Rightarrow> ExpressionNode option list \<Rightarrow> nat \<Rightarrow> nat list" where
  "visits ss ts k = visited (scheme_store ss k) (schCondition (ss ! k)) (ts ! k)"

lemma denote_all_store:
  "denote_all ss ts \<Longrightarrow> k < length ss \<Longrightarrow> denotes (scheme_store ss k) (schCondition (ss ! k)) (ts ! k)"
  by (simp add: denote_all_def scheme_store_eq)

lemma traverse_tree:
  assumes "denote_all ss ts" "k < length ss"
  shows "traverse ss k x = Some (Inr (visit_all k (visits ss ts k) x))"
proof -
  obtain st where "push_left ss (node_of k (schCondition (ss ! k))) [] = Some (Inr st)"
    "walk ss st x = walk ss [] (visit_all k (visits ss ts k) x)"
    using walk_tree [OF denote_all_store [OF assms], of "[]" x] unfolding visits_def by blast
  then show ?thesis by (simp add: traverse_def walk.simps [of ss "[]"])
qed

lemma traverse_all_trees:
  assumes "denote_all ss ts" "\<forall>k \<in> set ks. k < length ss"
  shows "traverse_all ss ks x = Some (Inr (fold (\<lambda>k. visit_all k (visits ss ts k)) ks x))"
  using assms(2) by (induction ks arbitrary: x) (simp_all add: traverse_tree [OF assms(1)])

lemma fold_visits:
  "trNodes (fold (\<lambda>k. visit_all k (vs k)) ks x) = trNodes x @ concat (map (\<lambda>k. map (Pair k) (vs k)) ks)"
  "traversal_ok x \<Longrightarrow> traversal_ok (fold (\<lambda>k. visit_all k (vs k)) ks x)"
  by (induction ks arbitrary: x) (simp_all add: traversal_ok_visit_all)

text \<open>The traversal of all schemes.\<close>

definition all_visited :: "CollectionScheme list \<Rightarrow> ExpressionNode option list \<Rightarrow> traversal" where
  "all_visited ss ts = fold (\<lambda>k. visit_all k (visits ss ts k)) [0..<length ss] new_traversal"

lemma all_visited_nodes:
  "trNodes (all_visited ss ts) = concat (map (\<lambda>k. map (Pair k) (visits ss ts k)) [0..<length ss])"
  by (simp add: all_visited_def fold_visits new_traversal_def)

lemma all_visited_ok: "traversal_ok (all_visited ss ts)"
  unfolding all_visited_def by (rule fold_visits(2) [OF traversal_ok_new])

lemma all_visited_count:
  assumes "denote_all ss ts"
  shows "length (trNodes (all_visited ss ts)) = sum_list (map node_count ts)"
proof -
  have "map (\<lambda>k. length (visits ss ts k)) [0..<length ss] = map node_count ts"
    using assms length_visited [OF denote_all_store [OF assms]] by (auto simp: denote_all_def visits_def intro!: nth_equalityI)
  then show ?thesis by (simp add: all_visited_nodes length_concat comp_def)
qed

lemma visited_deref: "denotes store p t \<Longrightarrow> i \<in> set (visited store p t) \<Longrightarrow> store i \<noteq> None"
  by (induction store p t rule: denotes.induct) auto

lemma all_visited_deref:
  assumes "denote_all ss ts" "q \<in> set (trNodes (all_visited ss ts))" shows "deref ss q \<noteq> None"
  using assms(2) visited_deref [OF denote_all_store [OF assms(1)]] by (fastforce simp: all_visited_nodes visits_def)

section \<open>The copies denote the same trees\<close>

lemma copy_nodes_ok:
  "\<forall>q \<in> set qs. deref ss q \<noteq> None \<Longrightarrow> copy_nodes ss x qs = Inr (map (\<lambda>q. copy_cell x (fst q) (the (deref ss q))) qs)"
  by (induction qs) auto

definition copied :: "CollectionScheme list \<Rightarrow> traversal \<Rightarrow> ExpressionCell list" where
  "copied ss x = map (\<lambda>q. copy_cell x (fst q) (the (deref ss q))) (trNodes x)"

lemma copied_denotes:
  assumes "traversal_ok x" "length (trNodes x) < 2 ^ 32"
    and "denotes (scheme_store ss k) p t" "Pair k ` set (visited (scheme_store ss k) p t) \<subseteq> set (trNodes x)"
  shows "denotes (at_index (copied ss x)) (map_option (\<lambda>i. index_of x (Some (k, i))) p) t"
  using assms(3,4)
proof (induction "scheme_store ss k" p t rule: denotes.induct)
  case (2 p t l r f b s fn)
  obtain i c where c: "p = Some i" "deref ss (k, i) = Some c" "denotes (scheme_store ss k) (cellLeft c) l"
    "denotes (scheme_store ss k) (cellRight c) r" "cellType c = t" "cellFloat c = f" "cellBool c = b" "cellSignal c = s"
    "cellFunction c = fn"
    using "2.prems"(1) by auto
  have sub: "Pair k ` set (visited (scheme_store ss k) (cellLeft c) l) \<subseteq> set (trNodes x)"
    "Pair k ` set (visited (scheme_store ss k) (cellRight c) r) \<subseteq> set (trNodes x)" "(k, i) \<in> set (trNodes x)"
    using "2.prems"(2) c(1,2) by auto
  let ?j = "index_of x (Some (k, i))"
  have "at_index (copied ss x) ?j = Some (copy_cell x k c)"
    using traversal_ok_index [OF assms(1,2) sub(3)] c(2) by (simp add: at_index_def copied_def)
  then show ?case
    using c "2.hyps"(1) [OF c(3) sub(1)] "2.hyps"(2) [OF c(4) sub(2)] by (simp add: copy_cell_def)
qed simp

lemma new_roots_ok:
  "\<forall>q \<in> set qs. index_of x q < n \<Longrightarrow> new_roots x n qs = Inr (map (index_of x) qs)"
  by (induction qs) auto

text \<open>The root of every condition that is not null denotes its tree.\<close>

lemma root_denotes:
  assumes "denote_all ss ts" "sum_list (map node_count ts) < 2 ^ 32" "k < length ss" "ts ! k = Some T"
  defines "x \<equiv> all_visited ss ts"
  shows "denotes (at_index (copied ss x)) (Some (index_of x (node_of k (schCondition (ss ! k))))) (Some T)"
    "index_of x (node_of k (schCondition (ss ! k))) < length (trNodes x)"
proof -
  have n: "length (trNodes x) < 2 ^ 32" using all_visited_count [OF assms(1)] assms(2) by (simp add: x_def)
  have d: "denotes (scheme_store ss k) (schCondition (ss ! k)) (Some T)"
    using denote_all_store [OF assms(1,3)] assms(4) by simp
  then obtain i where i: "schCondition (ss ! k) = Some i" by (cases T) auto
  have sub: "Pair k ` set (visited (scheme_store ss k) (schCondition (ss ! k)) (Some T)) \<subseteq> set (trNodes x)"
    using assms(3,4) by (fastforce simp: x_def all_visited_nodes visits_def)
  show "denotes (at_index (copied ss x)) (Some (index_of x (node_of k (schCondition (ss ! k))))) (Some T)"
    using copied_denotes [OF all_visited_ok [of ss ts, folded x_def] n d sub] by (simp add: i node_of_def)
  then show "index_of x (node_of k (schCondition (ss ! k))) < length (trNodes x)"
    by (cases T) (auto simp: at_index_def copied_def split: if_splits)
qed

lemma extractor_copies:
  assumes "denote_all (map snd m) ts" "sum_list (map node_count ts) < 2 ^ 32"
  shows "inspectionMatrixExtractor ids m = Some (matrix_copy ids (map snd m) (all_visited (map snd m) ts))"
  using assms traverse_all_trees [OF assms(1), of "[0..<length m]" new_traversal] all_visited_count [OF assms(1)]
  by (simp add: inspectionMatrixExtractor_def Let_def all_visited_def)

lemma matrix_copy_ok:
  assumes "denote_all ss ts" "\<forall>k < length ss. index_of (all_visited ss ts) (node_of k (schCondition (ss ! k))) < length (trNodes (all_visited ss ts))"
  shows "matrix_copy ids ss (all_visited ss ts) =
     Inr \<lparr>mgConditions = zip (map (\<lambda>k. index_of (all_visited ss ts) (node_of k (schCondition (ss ! k)))) [0..<length ss]) (map (addConditionData ids) ss),
          expressionNodeStorage = copied ss (all_visited ss ts)\<rparr>"
proof -
  have "copy_nodes ss (all_visited ss ts) (trNodes (all_visited ss ts)) = Inr (copied ss (all_visited ss ts))"
    unfolding copied_def by (rule copy_nodes_ok) (use all_visited_deref [OF assms(1)] in blast)
  moreover have "length (copied ss (all_visited ss ts)) = length (trNodes (all_visited ss ts))" by (simp add: copied_def)
  ultimately show ?thesis using assms(2) by (simp add: matrix_copy_def new_roots_ok comp_def)
qed

text \<open>All schemes have a condition.\<close>

lemma extractor_denotes:
  assumes "denote_all (map snd m) (map Some Ts)" "sum_list (map (node_count \<circ> Some) Ts) < 2 ^ 32"
  shows "\<exists>g. inspectionMatrixExtractor ids m = Some (Inr g) \<and>
     map snd (mgConditions g) = map (addConditionData ids) (map snd m) \<and>
     length (expressionNodeStorage g) = sum_list (map (node_count \<circ> Some) Ts) \<and>
     (\<forall>k < length m. denotes (at_index (expressionNodeStorage g)) (Some (fst (mgConditions g ! k))) (Some (Ts ! k)))"
proof -
  let ?ss = "map snd m" and ?ts = "map Some Ts"
  let ?x = "all_visited ?ss ?ts"
  have few: "sum_list (map node_count ?ts) < 2 ^ 32" using assms(2) by (simp add: comp_def)
  have len: "length Ts = length m" using assms(1) by (simp add: denote_all_def)
  have root: "denotes (at_index (copied ?ss ?x)) (Some (index_of ?x (node_of k (schCondition (?ss ! k))))) (Some (Ts ! k))"
    "index_of ?x (node_of k (schCondition (?ss ! k))) < length (trNodes ?x)" if "k < length m" for k
    using root_denotes [OF assms(1) few, of k "Ts ! k"] that len by auto
  have "inspectionMatrixExtractor ids m = Some (Inr
      \<lparr>mgConditions = zip (map (\<lambda>k. index_of ?x (node_of k (schCondition (?ss ! k)))) [0..<length ?ss]) (map (addConditionData ids) ?ss),
       expressionNodeStorage = copied ?ss ?x\<rparr>)"
    using extractor_copies [OF assms(1) few, of ids] matrix_copy_ok [OF assms(1), of ids] root(2) by simp
  moreover have "length (copied ?ss ?x) = sum_list (map (node_count \<circ> Some) Ts)"
    using all_visited_count [OF assms(1)] by (simp add: copied_def comp_def)
  ultimately show ?thesis using root(1) by simp
qed

section \<open>Properties\<close>


text \<open>
  A scheme without a condition, beside schemes that have one. Its null pointer is looked up in
  the map of the nodes, which answers zero, so its condition in the matrix is the first node of
  the storage: a node of the condition of another scheme.
\<close>

theorem null_condition_borrows:
  assumes "denote_all (map snd m) ts" "sum_list (map node_count ts) < 2 ^ 32" "0 < sum_list (map node_count ts)"
    and "k < length m" "schCondition (snd (m ! k)) = None"
  shows "\<exists>g c. inspectionMatrixExtractor ids m = Some (Inr g) \<and> fst (mgConditions g ! k) = 0 \<and>
     at_index (expressionNodeStorage g) 0 = Some c"
proof -
  let ?ss = "map snd m"
  let ?x = "all_visited ?ss ts"
  have none: "index_of ?x None = 0" using all_visited_ok [of ?ss ts] by (simp add: index_of_def traversal_ok_def)
  have pos: "0 < length (trNodes ?x)" using all_visited_count [OF assms(1)] assms(3) by simp
  have "index_of ?x (node_of j (schCondition (?ss ! j))) < length (trNodes ?x)" if "j < length ?ss" for j
  proof (cases "ts ! j")
    case None
    then have "schCondition (?ss ! j) = None" using assms(1) that by (auto simp: denote_all_def)
    then show ?thesis using none pos by (simp add: node_of_def)
  next
    case (Some T)
    then show ?thesis using root_denotes(2) [OF assms(1,2) that] by blast
  qed
  then have "inspectionMatrixExtractor ids m = Some (Inr
      \<lparr>mgConditions = zip (map (\<lambda>k. index_of ?x (node_of k (schCondition (?ss ! k)))) [0..<length ?ss]) (map (addConditionData ids) ?ss),
       expressionNodeStorage = copied ?ss ?x\<rparr>)"
    using extractor_copies [OF assms(1,2), of ids] matrix_copy_ok [OF assms(1), of ids] by simp
  then show ?thesis using assms(4,5) none pos by (simp add: node_of_def at_index_def copied_def)
qed

section \<open>Witnesses\<close>

text \<open>A scheme whose condition is a constant, and one that has none.\<close>

definition constant_scheme :: "string \<Rightarrow> bool \<Rightarrow> CollectionScheme" where
  "constant_scheme i v = (sample_scheme i ''m'' 0 40)
     \<lparr>schCondition := Some 0, schExpressionNodes := [default_cell\<lparr>cellType := BOOLEAN, cellBool := v\<rparr>]\<rparr>"

definition constant_tree :: "bool \<Rightarrow> ExpressionNode" where
  "constant_tree v = ExpressionNode BOOLEAN None None (Fin 0) v 0 default_function"

lemma constant_denotes:
  "denotes (at_index (schExpressionNodes (constant_scheme i v))) (schCondition (constant_scheme i v)) (Some (constant_tree v))"
  by (simp add: constant_scheme_def constant_tree_def at_index_def default_cell_def)


theorem null_condition_borrows_witness:
  "\<exists>g c. inspectionMatrixExtractor new_translator [(''a'', sample_scheme ''a'' ''m'' 0 40), (''b'', constant_scheme ''b'' True)] = Some (Inr g) \<and>
     fst (mgConditions g ! 0) = 0 \<and> at_index (expressionNodeStorage g) 0 = Some c"
proof -
  let ?m = "[(''a'', sample_scheme ''a'' ''m'' 0 40), (''b'', constant_scheme ''b'' True)]"
  have none: "schCondition (sample_scheme ''a'' ''m'' 0 40) = None" by (simp add: sample_scheme_def invalid_scheme_def)
  have d: "denote_all (map snd ?m) [None, Some (constant_tree True)]"
    by (simp add: denote_all_def constant_denotes none less_Suc_eq)
  have n: "sum_list (map node_count [None, Some (constant_tree True)]) = 1" by (simp add: constant_tree_def)
  show ?thesis using null_condition_borrows [OF d, unfolded n, of 0 new_translator] none by simp
qed

end
