(* ===== verification/DictionaryExtractor.thy ===== *)
theory DictionaryExtractor
  imports DecoderManifest MatrixExtractor
begin

text \<open>
  The decoder dictionaries the manager publishes (\<open>DecoderDictionaryExtractor.cpp\<close>,
  \<open>IDecoderDictionary.h\<close>): for every frame on a bus channel how it is decoded or collected, and for
  every parameter of the on-board diagnostics the signals in its response. The lemmas give each
  entry in closed form from the requests of the enabled schemes.
\<close>

section \<open>Dictionaries\<close>

datatype CANMessageCollectType = DECODE | RAW | RAW_AND_DECODE

record CANMessageDecoderMethod =
  collectType :: CANMessageCollectType
  methodFormat :: CANMessageFormat

record CANDecoderDictionary =
  signalIDsToCollect :: "nat set"
  canMessageDecoderMethod :: "nat \<Rightarrow> (nat \<Rightarrow> CANMessageDecoderMethod option) option"

definition new_dictionary :: CANDecoderDictionary where
  "new_dictionary = \<lparr>signalIDsToCollect = {}, canMessageDecoderMethod = (\<lambda>_. None)\<rparr>"

text \<open>Value initialisation makes the type of a new method zero, which is \<open>DECODE\<close>.\<close>

definition default_method :: CANMessageDecoderMethod where
  "default_method = \<lparr>collectType = DECODE, methodFormat = default_message_format\<rparr>"

type_synonym dictionary_map = "VehicleDataSourceProtocol \<Rightarrow> CANDecoderDictionary option"

definition ensure_dictionary :: "VehicleDataSourceProtocol \<Rightarrow> dictionary_map \<Rightarrow> dictionary_map" where
  "ensure_dictionary p m = (case m p of None \<Rightarrow> m(p \<mapsto> new_dictionary) | Some _ \<Rightarrow> m)"

definition dictionary_of :: "VehicleDataSourceProtocol \<Rightarrow> dictionary_map \<Rightarrow> CANDecoderDictionary" where
  "dictionary_of p m = (case m p of None \<Rightarrow> new_dictionary | Some d \<Rightarrow> d)"

definition frames_of :: "nat \<Rightarrow> CANDecoderDictionary \<Rightarrow> nat \<Rightarrow> CANMessageDecoderMethod option" where
  "frames_of ch d = (case canMessageDecoderMethod d ch of None \<Rightarrow> (\<lambda>_. None) | Some frames \<Rightarrow> frames)"

definition put_method :: "nat \<Rightarrow> nat \<Rightarrow> CANMessageDecoderMethod \<Rightarrow> CANDecoderDictionary \<Rightarrow> CANDecoderDictionary" where
  "put_method ch f x d = d\<lparr>canMessageDecoderMethod := (canMessageDecoderMethod d)(ch \<mapsto> (frames_of ch d)(f \<mapsto> x))\<rparr>"

section \<open>Extraction\<close>

text \<open>A signal of the vehicle bus.\<close>

definition collect_can_signal ::
  "DecoderManifest \<Rightarrow> CANInterfaceIDTranslator \<Rightarrow> nat \<Rightarrow> CANDecoderDictionary \<Rightarrow> CANDecoderDictionary" where
  "collect_can_signal manifest ids signalID d =
     (let (f, interfaceId) = getCANFrameAndInterfaceID signalID manifest; ch = getChannelNumericID ids interfaceId in
      if ch = INVALID_CAN_SOURCE_NUMERIC_ID then d
      else let d = d\<lparr>signalIDsToCollect := insert signalID (signalIDsToCollect d)\<rparr> in
        case frames_of ch d f of
          None \<Rightarrow> put_method ch f \<lparr>collectType = DECODE, methodFormat = getCANMessageFormat f interfaceId manifest\<rparr> d
        | Some x \<Rightarrow>
            if collectType x = RAW
            then put_method ch f \<lparr>collectType = RAW_AND_DECODE, methodFormat = getCANMessageFormat f interfaceId manifest\<rparr> d
            else d)"

text \<open>A diagnostics signal in the generic format.\<close>

definition obd_signal_format :: "nat \<Rightarrow> PIDSignalDecoderFormat \<Rightarrow> CANSignalFormat" where
  "obd_signal_format signalID x =
     default_signal_format
       \<lparr>mSignalID := signalID,
        mFirstBitPosition := u16 (mStartByte x * BYTE_SIZE + mBitRightShift x),
        mSizeInBits := u16 (sub64 (mByteLength x) 1 * BYTE_SIZE + mBitMaskLength x),
        mFactor := mScaling x, mOffset := pidOffset x\<rparr>"

definition collect_obd_signal :: "DecoderManifest \<Rightarrow> nat \<Rightarrow> CANDecoderDictionary \<Rightarrow> CANDecoderDictionary" where
  "collect_obd_signal manifest signalID d =
     (let x = getPIDSignalDecoderFormat signalID manifest;
          d = d\<lparr>signalIDsToCollect := insert signalID (signalIDsToCollect d)\<rparr>;
          entry = (case frames_of 0 d (mPID x) of
             None \<Rightarrow> default_method\<lparr>methodFormat := default_message_format
                       \<lparr>mMessageID := mPID x, mSizeInBytes := u8 (mPidResponseLength x)\<rparr>\<rparr>
           | Some e \<Rightarrow> e);
          fmt = methodFormat entry
      in put_method 0 (mPID x) (entry\<lparr>methodFormat := fmt\<lparr>mSignals := mSignals fmt @ [obd_signal_format signalID x]\<rparr>\<rparr>) d)"

definition collect_signal ::
  "DecoderManifest \<Rightarrow> CANInterfaceIDTranslator \<Rightarrow> nat \<Rightarrow> dictionary_map \<Rightarrow> dictionary_map" where
  "collect_signal manifest ids signalID m =
     (let p = getNetworkProtocol signalID manifest in
      if p = INVALID_PROTOCOL then m
      else let m = ensure_dictionary p m in
        if p = RAW_SOCKET then m(p \<mapsto> collect_can_signal manifest ids signalID (dictionary_of p m))
        else if p = OBD then m(p \<mapsto> collect_obd_signal manifest signalID (dictionary_of p m))
        else m)"

text \<open>A frame to be collected as it is.\<close>

definition collect_raw_frame :: "CANInterfaceIDTranslator \<Rightarrow> CanFrameCollectionInfo \<Rightarrow> CANDecoderDictionary \<Rightarrow> CANDecoderDictionary" where
  "collect_raw_frame ids info d =
     (let ch = getChannelNumericID ids (cfiInterfaceID info) in
      if ch = INVALID_CAN_SOURCE_NUMERIC_ID then d
      else case frames_of ch d (cfiFrameID info) of
        None \<Rightarrow> put_method ch (cfiFrameID info) (default_method\<lparr>collectType := RAW\<rparr>) d
      | Some x \<Rightarrow> put_method ch (cfiFrameID info) (x\<lparr>collectType := RAW_AND_DECODE\<rparr>) d)"

definition collect_raw_frames :: "CANInterfaceIDTranslator \<Rightarrow> CanFrameCollectionInfo list \<Rightarrow> dictionary_map \<Rightarrow> dictionary_map" where
  "collect_raw_frames ids infos m =
     (if infos = [] then m
      else let m = ensure_dictionary RAW_SOCKET m
           in m(RAW_SOCKET \<mapsto> fold (collect_raw_frame ids) infos (dictionary_of RAW_SOCKET m)))"

definition collect_scheme ::
  "DecoderManifest \<Rightarrow> CANInterfaceIDTranslator \<Rightarrow> CollectionScheme \<Rightarrow> dictionary_map \<Rightarrow> dictionary_map" where
  "collect_scheme manifest ids c m =
     collect_raw_frames ids (schCollectRawCanFrames c)
       (fold (\<lambda>info. collect_signal manifest ids (sigID info)) (schCollectSignals c) m)"

definition decoderDictionaryExtractor ::
  "DecoderManifest \<Rightarrow> CANInterfaceIDTranslator \<Rightarrow> (string \<times> CollectionScheme) list \<Rightarrow> dictionary_map" where
  "decoderDictionaryExtractor manifest ids enabledMap =
     ensure_dictionary OBD (ensure_dictionary RAW_SOCKET
       (fold (\<lambda>p. collect_scheme manifest ids (snd p)) enabledMap (\<lambda>_. None)))"

section \<open>The requests of the schemes\<close>

datatype request = WantSignal nat | WantFrame CanFrameCollectionInfo

definition requests :: "(string \<times> CollectionScheme) list \<Rightarrow> request list" where
  "requests m = concat (map (\<lambda>p. map (\<lambda>info. WantSignal (sigID info)) (schCollectSignals (snd p)) @
     map WantFrame (schCollectRawCanFrames (snd p))) m)"

fun serve :: "DecoderManifest \<Rightarrow> CANInterfaceIDTranslator \<Rightarrow> request \<Rightarrow> dictionary_map \<Rightarrow> dictionary_map" where
  "serve manifest ids (WantSignal i) m = collect_signal manifest ids i m"
| "serve manifest ids (WantFrame info) m = m(RAW_SOCKET \<mapsto> collect_raw_frame ids info (dictionary_of RAW_SOCKET m))"

lemma dictionary_of_ensure [simp]: "dictionary_of p (ensure_dictionary q m) = dictionary_of p m"
  by (auto simp: dictionary_of_def ensure_dictionary_def split: option.split)

lemma ensure_upd [simp]: "(ensure_dictionary p m)(p \<mapsto> d) = m(p \<mapsto> d)"
  by (auto simp: ensure_dictionary_def split: option.split)

lemma dictionary_of_upd [simp]: "dictionary_of p (m(p \<mapsto> d)) = d"
  by (simp add: dictionary_of_def)

lemma fold_serve_frames:
  "infos \<noteq> [] \<Longrightarrow> fold (serve manifest ids) (map WantFrame infos) m =
     m(RAW_SOCKET \<mapsto> fold (collect_raw_frame ids) infos (dictionary_of RAW_SOCKET m))"
proof (induction infos arbitrary: m)
  case (Cons info infos)
  show ?case
  proof (cases "infos = []")
    case False
    show ?thesis using Cons.IH [OF False, of "m(RAW_SOCKET \<mapsto> collect_raw_frame ids info (dictionary_of RAW_SOCKET m))"]
      by (simp only: fold_simps list.map serve.simps dictionary_of_upd fun_upd_upd)
  qed simp
qed simp

lemma fold_serve_signals:
  "fold (serve manifest ids) (map (\<lambda>info. WantSignal (sigID info)) infos) m =
   fold (\<lambda>info. collect_signal manifest ids (sigID info)) infos m"
  by (induction infos arbitrary: m) simp_all

lemma collect_scheme_serve:
  "collect_scheme manifest ids c m =
     fold (serve manifest ids) (map (\<lambda>info. WantSignal (sigID info)) (schCollectSignals c) @ map WantFrame (schCollectRawCanFrames c)) m"
  by (cases "schCollectRawCanFrames c = []") (simp_all add: collect_scheme_def collect_raw_frames_def fold_serve_frames fold_serve_signals)

lemma extractor_requests:
  "decoderDictionaryExtractor manifest ids m =
     ensure_dictionary OBD (ensure_dictionary RAW_SOCKET (fold (serve manifest ids) (requests m) (\<lambda>_. None)))"
proof -
  have "fold (\<lambda>p. collect_scheme manifest ids (snd p)) m x = fold (serve manifest ids) (requests m) x" for x
    by (induction m arbitrary: x) (simp_all add: requests_def collect_scheme_serve)
  then show ?thesis by (simp add: decoderDictionaryExtractor_def)
qed

section \<open>Channels\<close>

lemma find_member: "find P xs = Some x \<Longrightarrow> x \<in> set xs \<and> P x"
  by (induction xs) (auto split: if_splits)

definition translator_ok :: "CANInterfaceIDTranslator \<Rightarrow> bool" where
  "translator_ok ids \<longleftrightarrow> distinct (map fst (mLookup ids))"

lemma channel_entry:
  assumes "getChannelNumericID ids i \<noteq> INVALID_CAN_SOURCE_NUMERIC_ID"
  shows "(getChannelNumericID ids i, i) \<in> set (mLookup ids)"
proof (cases "find (\<lambda>l. snd l = i) (mLookup ids)")
  case (Some l)
  have "l \<in> set (mLookup ids)" "l = (fst l, i)" using find_member [OF Some] by (simp_all add: prod_eq_iff)
  moreover have "getChannelNumericID ids i = fst l" using Some by (simp add: getChannelNumericID_def)
  ultimately show ?thesis by metis
qed (use assms in \<open>simp add: getChannelNumericID_def\<close>)

lemma interface_of_channel:
  assumes "translator_ok ids" "getChannelNumericID ids i = ch" "ch \<noteq> INVALID_CAN_SOURCE_NUMERIC_ID"
  shows "getInterfaceID ids ch = i"
proof -
  have mem: "(ch, i) \<in> set (mLookup ids)" using channel_entry [of ids i] assms(2,3) by simp
  then obtain l where l: "find (\<lambda>l. fst l = ch) (mLookup ids) = Some l"
    by (cases "find (\<lambda>l. fst l = ch) (mLookup ids)") (auto simp: find_None_iff)
  then have "l \<in> set (mLookup ids)" "l = (ch, snd l)" using find_member [OF l] by (simp_all add: prod_eq_iff)
  then have "snd l = i" using mem assms(1) eq_key_imp_eq_value [of "mLookup ids" ch "snd l" i] by (metis translator_ok_def)
  then show ?thesis using l by (simp add: getInterfaceID_def)
qed

text \<open>Interfaces added to a new translator are numbered in order.\<close>

lemma translator_add_all:
  "length is + mCounter x < 2 ^ 32 \<Longrightarrow>
   mLookup (fold translator_add is x) = mLookup x @ zip [mCounter x..<mCounter x + length is] is"
proof (induction "is" arbitrary: x)
  case (Cons i "is")
  have a: "mCounter (translator_add i x) = mCounter x + 1" "mLookup (translator_add i x) = mLookup x @ [(mCounter x, i)]"
    using Cons.prems by (simp_all add: translator_add_def u32_id)
  have "[mCounter x..<mCounter x + length (i # is)] = mCounter x # [mCounter x + 1..<mCounter x + 1 + length is]"
    by (simp add: upt_conv_Cons del: upt_Suc)
  then have "zip [mCounter x..<mCounter x + length (i # is)] (i # is) =
      (mCounter x, i) # zip [mCounter x + 1..<mCounter x + 1 + length is] is" by (simp only: zip_Cons_Cons)
  then show ?case using Cons.IH [of "translator_add i x"] Cons.prems a by simp
qed simp

lemma translator_ok_add_all: "length is < 2 ^ 32 \<Longrightarrow> translator_ok (fold translator_add is new_translator)"
  by (simp add: translator_ok_def translator_add_all new_translator_def)

section \<open>Frames of the bus\<close>

definition can_method :: "dictionary_map \<Rightarrow> nat \<Rightarrow> nat \<Rightarrow> CANMessageDecoderMethod option" where
  "can_method m ch f = frames_of ch (dictionary_of RAW_SOCKET m) f"

text \<open>What a request asks of a frame: true if one of its signals, false if the frame itself.\<close>

fun asks :: "DecoderManifest \<Rightarrow> CANInterfaceIDTranslator \<Rightarrow> nat \<Rightarrow> nat \<Rightarrow> request \<Rightarrow> bool option" where
  "asks manifest ids ch f (WantSignal i) =
     (if getNetworkProtocol i manifest = RAW_SOCKET \<and> fst (getCANFrameAndInterfaceID i manifest) = f \<and>
         getChannelNumericID ids (snd (getCANFrameAndInterfaceID i manifest)) = ch
      then Some True else None)"
| "asks manifest ids ch f (WantFrame info) =
     (if cfiFrameID info = f \<and> getChannelNumericID ids (cfiInterfaceID info) = ch then Some False else None)"

text \<open>How the entry changes, given the format of the frame.\<close>

fun ask :: "CANMessageFormat \<Rightarrow> bool \<Rightarrow> CANMessageDecoderMethod option \<Rightarrow> CANMessageDecoderMethod" where
  "ask fmt True None = \<lparr>collectType = DECODE, methodFormat = fmt\<rparr>"
| "ask fmt True (Some x) = (if collectType x = RAW then \<lparr>collectType = RAW_AND_DECODE, methodFormat = fmt\<rparr> else x)"
| "ask fmt False None = default_method\<lparr>collectType := RAW\<rparr>"
| "ask fmt False (Some x) = x\<lparr>collectType := RAW_AND_DECODE\<rparr>"

lemma frames_put [simp]:
  "frames_of c (put_method ch f x d) g = (if c = ch \<and> g = f then Some x else frames_of c d g)"
  by (auto simp: frames_of_def put_method_def split: option.split)

lemma frames_insert [simp]: "frames_of c (d\<lparr>signalIDsToCollect := S\<rparr>) = frames_of c d"
  by (simp add: frames_of_def)

lemma frames_collect_can:
  assumes "translator_ok ids" "ch \<noteq> INVALID_CAN_SOURCE_NUMERIC_ID"
  shows "frames_of ch (collect_can_signal manifest ids i d) f =
     (if fst (getCANFrameAndInterfaceID i manifest) = f \<and> getChannelNumericID ids (snd (getCANFrameAndInterfaceID i manifest)) = ch
      then Some (ask (getCANMessageFormat f (getInterfaceID ids ch) manifest) True (frames_of ch d f)) else frames_of ch d f)"
proof -
  obtain g j where p: "getCANFrameAndInterfaceID i manifest = (g, j)" by (cases "getCANFrameAndInterfaceID i manifest")
  show ?thesis
  proof (cases "g = f \<and> getChannelNumericID ids j = ch")
    case True
    have "getInterfaceID ids ch = j" using interface_of_channel [OF assms(1) _ assms(2)] True by blast
    then show ?thesis using True p assms(2)
      by (cases "frames_of ch d f") (auto simp: collect_can_signal_def Let_def)
  next
    case False
    then show ?thesis using p by (auto simp: collect_can_signal_def Let_def split: option.split)
  qed
qed

lemma frames_collect_raw:
  assumes "ch \<noteq> INVALID_CAN_SOURCE_NUMERIC_ID"
  shows "frames_of ch (collect_raw_frame ids info d) f =
     (if cfiFrameID info = f \<and> getChannelNumericID ids (cfiInterfaceID info) = ch
      then Some (ask fmt False (frames_of ch d f)) else frames_of ch d f)"
  using assms by (cases "frames_of (getChannelNumericID ids (cfiInterfaceID info)) d (cfiFrameID info)")
    (auto simp: collect_raw_frame_def Let_def)

lemma can_method_upd:
  "can_method (m(RAW_SOCKET \<mapsto> d)) ch f = frames_of ch d f"
  "p \<noteq> RAW_SOCKET \<Longrightarrow> can_method (m(p \<mapsto> d)) ch f = can_method m ch f"
  "can_method (ensure_dictionary p m) ch f = can_method m ch f"
  by (simp_all add: can_method_def dictionary_of_def ensure_dictionary_def new_dictionary_def frames_of_def split: option.split)

lemma can_method_serve:
  assumes "translator_ok ids" "ch \<noteq> INVALID_CAN_SOURCE_NUMERIC_ID"
  shows "can_method (serve manifest ids r m) ch f =
     (case asks manifest ids ch f r of
        None \<Rightarrow> can_method m ch f
      | Some w \<Rightarrow> Some (ask (getCANMessageFormat f (getInterfaceID ids ch) manifest) w (can_method m ch f)))"
proof (cases r)
  case (WantSignal i)
  show ?thesis
  proof (cases "getNetworkProtocol i manifest = RAW_SOCKET")
    case True
    then show ?thesis using WantSignal frames_collect_can [OF assms, of manifest i "dictionary_of RAW_SOCKET m" f]
      by (simp add: collect_signal_def can_method_upd can_method_def [of m])
  next
    case False
    then show ?thesis using WantSignal by (simp add: collect_signal_def can_method_upd Let_def)
  qed
next
  case (WantFrame info)
  then show ?thesis
    using frames_collect_raw [OF assms(2), of ids info "dictionary_of RAW_SOCKET m" f "getCANMessageFormat f (getInterfaceID ids ch) manifest"]
    by (simp add: can_method_upd can_method_def [of m])
qed

text \<open>The entry after a list of requests for the same frame.\<close>

definition entry_after :: "CANMessageFormat \<Rightarrow> bool list \<Rightarrow> CANMessageDecoderMethod option" where
  "entry_after fmt ws =
     (if ws = [] then None
      else Some \<lparr>collectType = (if False \<notin> set ws then DECODE else if ws = [False] then RAW else RAW_AND_DECODE),
                 methodFormat = (if True \<in> set ws \<and> length (takeWhile Not ws) \<le> 1 then fmt else default_message_format)\<rparr>)"

lemma takeWhile_Not_all: "True \<notin> set ws \<Longrightarrow> takeWhile Not ws = ws"
  by (induction ws) auto

lemma takeWhile_Not_some: "True \<in> set ws \<Longrightarrow> takeWhile Not (ws @ vs) = takeWhile Not ws"
  by (induction ws) auto

lemma all_false_two: "True \<notin> set ws \<Longrightarrow> ws \<noteq> [] \<Longrightarrow> ws \<noteq> [False] \<Longrightarrow> \<not> length ws \<le> Suc 0 \<and> False \<in> set ws"
  by (cases ws rule: remdups_adj.cases) auto

lemma entry_after_snoc: "entry_after fmt (ws @ [w]) = Some (ask fmt w (entry_after fmt ws))"
proof (cases "True \<in> set ws")
  case True
  then show ?thesis by (cases w) (auto simp: entry_after_def takeWhile_Not_some)
next
  case no: False
  show ?thesis
  proof (cases "ws = [] \<or> ws = [False]")
    case True
    then show ?thesis by (cases w) (auto simp: entry_after_def default_method_def)
  next
    case False
    have two: "\<not> length ws \<le> Suc 0" "False \<in> set ws" using all_false_two [OF no] False by auto
    have tw: "takeWhile Not (ws @ [w]) = ws @ (if w then [] else [w])"
      using no by (simp add: takeWhile_append takeWhile_Not_all) (metis (full_types))
    show ?thesis using two no False tw by (cases w) (auto simp: entry_after_def takeWhile_Not_all)
  qed
qed

lemma can_method_requests:
  assumes "translator_ok ids" "ch \<noteq> INVALID_CAN_SOURCE_NUMERIC_ID"
  shows "can_method (fold (serve manifest ids) rs (\<lambda>_. None)) ch f =
     entry_after (getCANMessageFormat f (getInterfaceID ids ch) manifest) (List.map_filter (asks manifest ids ch f) rs)"
proof (induction rs rule: rev_induct)
  case Nil
  show ?case by (simp add: can_method_def dictionary_of_def new_dictionary_def frames_of_def entry_after_def map_filter_simps)
next
  case (snoc r rs)
  have app: "List.map_filter (asks manifest ids ch f) (rs @ [r]) =
      List.map_filter (asks manifest ids ch f) rs @ (case asks manifest ids ch f r of None \<Rightarrow> [] | Some w \<Rightarrow> [w])"
    by (simp add: List.map_filter_def split: option.split)
  show ?case
    by (cases "asks manifest ids ch f r")
       (simp_all add: can_method_serve [OF assms] snoc app entry_after_snoc)
qed

text \<open>
  C37. The entry of a frame on a channel of the bus in the published dictionary, in closed form from
  the requests of the enabled schemes in order. There is one exactly if something is asked of the
  frame; it is decoded if a signal is wanted, collected if the frame is, and both if both are. It
  has the format of the manifest if a signal is wanted and the frame itself was asked for at most
  once before that.
\<close>

theorem dictionary_entry:
  assumes "translator_ok ids" "ch \<noteq> INVALID_CAN_SOURCE_NUMERIC_ID"
  shows "can_method (decoderDictionaryExtractor manifest ids m) ch f =
     entry_after (getCANMessageFormat f (getInterfaceID ids ch) manifest) (List.map_filter (asks manifest ids ch f) (requests m))"
  by (simp add: extractor_requests can_method_upd can_method_requests [OF assms])

text \<open>
  Two schemes collect a frame and a later one a signal of it. The entry says that the frame is
  decoded, but its format has no signals, so the signal the third scheme wants is never decoded.
\<close>

theorem frame_twice_loses_format:
  assumes "translator_ok ids" "ch \<noteq> INVALID_CAN_SOURCE_NUMERIC_ID"
    and "List.map_filter (asks manifest ids ch f) (requests m) = False # False # ws"
  shows "can_method (decoderDictionaryExtractor manifest ids m) ch f =
     Some \<lparr>collectType = RAW_AND_DECODE, methodFormat = default_message_format\<rparr>"
proof -
  have "can_method (decoderDictionaryExtractor manifest ids m) ch f =
      entry_after (getCANMessageFormat f (getInterfaceID ids ch) manifest) (False # False # ws)"
    using can_method_requests [OF assms(1,2)] by (simp add: extractor_requests can_method_upd assms(3))
  then show ?thesis by (simp add: entry_after_def)
qed

section \<open>Diagnostics\<close>

definition obd_method :: "dictionary_map \<Rightarrow> nat \<Rightarrow> CANMessageDecoderMethod option" where
  "obd_method m pid = frames_of 0 (dictionary_of OBD m) pid"

fun wanted_signal :: "request \<Rightarrow> nat option" where
  "wanted_signal (WantSignal i) = Some i"
| "wanted_signal (WantFrame info) = None"

definition for_pid :: "DecoderManifest \<Rightarrow> nat \<Rightarrow> nat \<Rightarrow> bool" where
  "for_pid manifest pid i \<longleftrightarrow> getNetworkProtocol i manifest = OBD \<and> mPID (getPIDSignalDecoderFormat i manifest) = pid"

definition obd_after :: "DecoderManifest \<Rightarrow> nat \<Rightarrow> nat list \<Rightarrow> CANMessageDecoderMethod option" where
  "obd_after manifest pid is =
     (if is = [] then None
      else Some \<lparr>collectType = DECODE, methodFormat =
        \<lparr>mMessageID = pid, mSizeInBytes = u8 (mPidResponseLength (getPIDSignalDecoderFormat (hd is) manifest)), mIsMultiplexed = False,
         mSignals = map (\<lambda>i. obd_signal_format i (getPIDSignalDecoderFormat i manifest)) is\<rparr>\<rparr>)"

lemma frames_collect_obd:
  "frames_of 0 d pid = obd_after manifest pid is \<Longrightarrow>
   frames_of 0 (collect_obd_signal manifest i d) pid =
     (if mPID (getPIDSignalDecoderFormat i manifest) = pid then obd_after manifest pid (is @ [i]) else frames_of 0 d pid)"
  by (cases "is = []") (auto simp: collect_obd_signal_def Let_def obd_after_def default_method_def default_message_format_def)

lemma obd_method_upd:
  "obd_method (m(OBD \<mapsto> d)) pid = frames_of 0 d pid"
  "p \<noteq> OBD \<Longrightarrow> obd_method (m(p \<mapsto> d)) pid = obd_method m pid"
  "obd_method (ensure_dictionary p m) pid = obd_method m pid"
  by (simp_all add: obd_method_def dictionary_of_def ensure_dictionary_def new_dictionary_def frames_of_def split: option.split)

lemma obd_method_serve:
  assumes "obd_method m pid = obd_after manifest pid is"
  shows "obd_method (serve manifest ids r m) pid = obd_after manifest pid
     (is @ filter (for_pid manifest pid) (case wanted_signal r of None \<Rightarrow> [] | Some i \<Rightarrow> [i]))"
proof (cases r)
  case (WantSignal i)
  show ?thesis
  proof (cases "getNetworkProtocol i manifest = OBD")
    case True
    then show ?thesis using WantSignal frames_collect_obd [OF assms [unfolded obd_method_def], of i] assms
      by (simp add: collect_signal_def obd_method_upd for_pid_def obd_method_def [of m])
  next
    case False
    then show ?thesis using WantSignal assms by (simp add: collect_signal_def obd_method_upd Let_def for_pid_def)
  qed
qed (simp add: obd_method_upd assms)

text \<open>
  The entry of a diagnostics parameter in the published dictionary lists, in order, every
  wanted signal the manifest finds in its response, with the bit position and the length computed
  from the bytes and bits of the manifest; a signal two schemes want is listed twice.
\<close>

theorem obd_dictionary_entry:
  "obd_method (decoderDictionaryExtractor manifest ids m) pid =
     obd_after manifest pid (filter (for_pid manifest pid) (List.map_filter wanted_signal (requests m)))"
proof -
  have "obd_method (fold (serve manifest ids) rs (\<lambda>_. None)) pid =
      obd_after manifest pid (filter (for_pid manifest pid) (List.map_filter wanted_signal rs))" for rs
  proof (induction rs rule: rev_induct)
    case Nil
    show ?case by (simp add: obd_method_def dictionary_of_def new_dictionary_def frames_of_def obd_after_def map_filter_simps)
  next
    case (snoc r rs)
    have "List.map_filter wanted_signal (rs @ [r]) =
        List.map_filter wanted_signal rs @ (case wanted_signal r of None \<Rightarrow> [] | Some i \<Rightarrow> [i])"
      by (simp add: List.map_filter_def split: option.split)
    then show ?case using obd_method_serve [OF snoc, of ids r] by simp
  qed
  then show ?thesis by (simp add: extractor_requests obd_method_upd)
qed

section \<open>Witnesses\<close>

definition sample_manifest :: DecoderManifest where
  "sample_manifest = new_manifest
     \<lparr>mReady := True, mSignalToProtocol := [1 \<mapsto> RAW_SOCKET], mSignalToFrame := [1 \<mapsto> (0x123, ''can0'')],
      mCANMessageFormatDictionary := [''can0'' \<mapsto> [0x123 \<mapsto> default_message_format\<lparr>mSignals := [default_signal_format]\<rparr>]]\<rparr>"

definition sample_ids :: CANInterfaceIDTranslator where "sample_ids = translator_add ''can0'' new_translator"

definition signal_scheme :: "string \<Rightarrow> CollectionScheme" where
  "signal_scheme i = (sample_scheme i ''m'' 0 40)\<lparr>schCollectSignals :=
     [\<lparr>sigID = 1, sigSampleBufferSize = 1, sigMinimumSampleIntervalMs = 0, sigFixedWindowPeriod = 0, sigIsConditionOnly = False\<rparr>]\<rparr>"

definition frame_scheme :: "string \<Rightarrow> CollectionScheme" where
  "frame_scheme i = (sample_scheme i ''m'' 0 40)\<lparr>schCollectRawCanFrames :=
     [\<lparr>cfiFrameID = 0x123, cfiInterfaceID = ''can0'', cfiSampleBufferSize = 1, cfiMinimumSampleIntervalMs = 0\<rparr>]\<rparr>"

lemma sample_lookups:
  "translator_ok sample_ids" "getChannelNumericID sample_ids ''can0'' = 0" "getInterfaceID sample_ids 0 = ''can0''"
  "getCANFrameAndInterfaceID 1 sample_manifest = (0x123, ''can0'')" "getNetworkProtocol 1 sample_manifest = RAW_SOCKET"
  "getCANMessageFormat 0x123 ''can0'' sample_manifest = default_message_format\<lparr>mSignals := [default_signal_format]\<rparr>"
  by (simp_all add: sample_ids_def translator_add_def new_translator_def translator_ok_def getChannelNumericID_def getInterfaceID_def
      sample_manifest_def new_manifest_def getCANFrameAndInterfaceID_def getNetworkProtocol_def getCANMessageFormat_def)

lemma sample_requests:
  "requests [(i, signal_scheme i)] = [WantSignal 1]"
  "requests [(a, frame_scheme a), (b, frame_scheme b), (i, signal_scheme i)] =
     [WantFrame (hd (schCollectRawCanFrames (frame_scheme a))), WantFrame (hd (schCollectRawCanFrames (frame_scheme b))), WantSignal 1]"
  by (simp_all add: requests_def signal_scheme_def frame_scheme_def sample_scheme_def invalid_scheme_def)

lemma sample_asks: "cfiFrameID (hd (schCollectRawCanFrames (frame_scheme a))) = 0x123"
  "cfiInterfaceID (hd (schCollectRawCanFrames (frame_scheme a))) = ''can0''"
  by (simp_all add: frame_scheme_def)

theorem dictionary_entry_witness:
  "can_method (decoderDictionaryExtractor sample_manifest sample_ids [(''a'', signal_scheme ''a'')]) 0 0x123 =
     Some \<lparr>collectType = DECODE, methodFormat = default_message_format\<lparr>mSignals := [default_signal_format]\<rparr>\<rparr>"
proof -
  have ch: "0 \<noteq> INVALID_CAN_SOURCE_NUMERIC_ID" by (simp add: INVALID_CAN_SOURCE_NUMERIC_ID_def)
  have "List.map_filter (asks sample_manifest sample_ids 0 0x123) (requests [(''a'', signal_scheme ''a'')]) = [True]"
    by (simp add: sample_requests map_filter_simps sample_lookups del: One_nat_def)
  then show ?thesis unfolding dictionary_entry [OF sample_lookups(1) ch] by (simp add: sample_lookups entry_after_def)
qed

theorem frame_twice_loses_format_witness:
  "can_method (decoderDictionaryExtractor sample_manifest sample_ids
     [(''a'', frame_scheme ''a''), (''b'', frame_scheme ''b''), (''c'', signal_scheme ''c'')]) 0 0x123 =
     Some \<lparr>collectType = RAW_AND_DECODE, methodFormat = default_message_format\<rparr>"
proof -
  have ch: "0 \<noteq> INVALID_CAN_SOURCE_NUMERIC_ID" by (simp add: INVALID_CAN_SOURCE_NUMERIC_ID_def)
  have "List.map_filter (asks sample_manifest sample_ids 0 0x123)
      (requests [(''a'', frame_scheme ''a''), (''b'', frame_scheme ''b''), (''c'', signal_scheme ''c'')]) = [False, False, True]"
    by (simp add: sample_requests sample_asks map_filter_simps sample_lookups del: One_nat_def)
  then show ?thesis by (rule frame_twice_loses_format [OF sample_lookups(1) ch])
qed

end
