(* ===== verification/Persistency.thy ===== *)
theory Persistency
  imports Prelude
begin

text \<open>
  Documents and payloads on disk (\<open>CacheAndPersist.cpp\<close>, \<open>PayloadManager.cpp\<close>): three files
  within a size limit, two of them overwritten and one appended to, and the records of collected
  data in the third. The file system and the compression library are parameters.
\<close>

section \<open>Files\<close>

datatype DataType = EDGE_TO_CLOUD_PAYLOAD | COLLECTION_SCHEME_LIST | DECODER_MANIFEST | DEFAULT_DATA_TYPE

datatype ErrorCode = SUCCESS | MEMORY_FULL | EMPTY | FILESYSTEM_ERROR | INVALID_DATATYPE | INVALID_DATA

text \<open>\<open>None\<close> is a file that does not exist.\<close>

record CacheAndPersist =
  files :: "DataType \<Rightarrow> nat list option"
  mMaxPersistencePartitionSize :: nat

text \<open>What the file system does: whether a file opens, how much of a write arrives, and whether a read succeeds.\<close>

record FileSystem =
  canOpen :: "DataType \<Rightarrow> bool"
  taken :: "nat list \<Rightarrow> nat"
  canRead :: "DataType \<Rightarrow> bool"

definition INVALID_FILE_SIZE :: nat where "INVALID_FILE_SIZE = 2 ^ 64 - 1"

definition createFile :: "FileSystem \<Rightarrow> DataType \<Rightarrow> CacheAndPersist \<Rightarrow> ErrorCode \<times> CacheAndPersist" where
  "createFile fs d s =
     (if files s d \<noteq> None \<and> canOpen fs d then (SUCCESS, s)
      else if \<not> canOpen fs d then (FILESYSTEM_ERROR, s)
      else (SUCCESS, s\<lparr>files := (files s)(d \<mapsto> [])\<rparr>))"

definition persistency_init :: "FileSystem \<Rightarrow> CacheAndPersist \<Rightarrow> bool \<times> CacheAndPersist" where
  "persistency_init fs s =
     (let (r1, s) = createFile fs DECODER_MANIFEST s in
      if r1 \<noteq> SUCCESS then (False, s)
      else let (r2, s) = createFile fs COLLECTION_SCHEME_LIST s in
      if r2 \<noteq> SUCCESS then (False, s)
      else let (r3, s) = createFile fs EDGE_TO_CLOUD_PAYLOAD s in (r3 = SUCCESS, s))"

definition getSize :: "DataType \<Rightarrow> CacheAndPersist \<Rightarrow> nat" where
  "getSize d s =
     (if d = DEFAULT_DATA_TYPE then INVALID_FILE_SIZE
      else case files s d of Some content \<Rightarrow> length content | None \<Rightarrow> 0)"

definition persistency_write :: "FileSystem \<Rightarrow> nat list option \<Rightarrow> DataType \<Rightarrow> CacheAndPersist \<Rightarrow> ErrorCode \<times> CacheAndPersist" where
  "persistency_write fs bufPtr d s =
     (case bufPtr of
        None \<Rightarrow> (INVALID_DATA, s)
      | Some bytes \<Rightarrow>
          if u64 (getSize COLLECTION_SCHEME_LIST s + getSize DECODER_MANIFEST s + getSize EDGE_TO_CLOUD_PAYLOAD s + length bytes)
               \<ge> mMaxPersistencePartitionSize s
          then (MEMORY_FULL, s)
          else if d = DEFAULT_DATA_TYPE then (INVALID_DATATYPE, s)
          else if \<not> canOpen fs d then (FILESYSTEM_ERROR, s)
          else let before = (if d = EDGE_TO_CLOUD_PAYLOAD then case files s d of Some content \<Rightarrow> content | None \<Rightarrow> [] else []);
                   s = s\<lparr>files := (files s)(d \<mapsto> before @ take (taken fs bytes) bytes)\<rparr>
               in (if taken fs bytes < length bytes then FILESYSTEM_ERROR else SUCCESS, s))"

definition persistency_read :: "FileSystem \<Rightarrow> nat \<Rightarrow> DataType \<Rightarrow> CacheAndPersist \<Rightarrow> ErrorCode \<times> nat list" where
  "persistency_read fs bufSize d s =
     (if d = DEFAULT_DATA_TYPE then (INVALID_DATATYPE, [])
      else case files s d of
        None \<Rightarrow> (FILESYSTEM_ERROR, [])
      | Some content \<Rightarrow>
          if \<not> canOpen fs d then (FILESYSTEM_ERROR, [])
          else let fileSize = min (mMaxPersistencePartitionSize s) (getSize d s) in
            if fileSize = 0 then (EMPTY, [])
            else if \<not> canRead fs d then (FILESYSTEM_ERROR, [])
            else (SUCCESS, take (min bufSize fileSize) content))"

definition persistency_erase :: "FileSystem \<Rightarrow> DataType \<Rightarrow> CacheAndPersist \<Rightarrow> ErrorCode \<times> CacheAndPersist" where
  "persistency_erase fs d s =
     (if d = DEFAULT_DATA_TYPE then (INVALID_DATATYPE, s)
      else if \<not> canOpen fs d then (FILESYSTEM_ERROR, s)
      else (SUCCESS, s\<lparr>files := (files s)(d \<mapsto> [])\<rparr>))"

section \<open>Payloads\<close>

text \<open>The packed header is a flag and a little-endian 64-bit size.\<close>

record PayloadHeader =
  compressionRequired :: bool
  payloadSize :: nat

definition HEADER_SIZE :: nat where "HEADER_SIZE = 9"

fun le_bytes :: "nat \<Rightarrow> nat \<Rightarrow> nat list" where
  "le_bytes 0 x = []"
| "le_bytes (Suc n) x = x mod 256 # le_bytes n (x div 256)"

fun of_le_bytes :: "nat list \<Rightarrow> nat" where
  "of_le_bytes [] = 0"
| "of_le_bytes (b # bs) = b + 256 * of_le_bytes bs"

definition header_bytes :: "PayloadHeader \<Rightarrow> nat list" where
  "header_bytes h = of_bool (compressionRequired h) # le_bytes 8 (payloadSize h)"

definition read_header :: "nat list \<Rightarrow> PayloadHeader" where
  "read_header bytes = \<lparr>compressionRequired = (hd bytes \<noteq> 0), payloadSize = of_le_bytes (take 8 (tl bytes))\<rparr>"

record CollectionSchemeParams =
  prmPersist :: bool
  prmCompression :: bool
  prmPriority :: nat

definition preparePayload :: "nat \<Rightarrow> nat list \<Rightarrow> CollectionSchemeParams \<Rightarrow> nat list option" where
  "preparePayload bufSize data params =
     (if bufSize < length data + HEADER_SIZE then None
      else Some (header_bytes \<lparr>compressionRequired = prmCompression params, payloadSize = length data\<rparr> @ data
                 @ replicate (bufSize - (length data + HEADER_SIZE)) 0))"

text \<open>\<open>compress\<close> yields the compressed bytes, none of them on failure.\<close>

definition storeData ::
  "FileSystem \<Rightarrow> (nat list \<Rightarrow> nat list) \<Rightarrow> nat list \<Rightarrow> CollectionSchemeParams \<Rightarrow> CacheAndPersist \<Rightarrow> bool \<times> CacheAndPersist" where
  "storeData fs compress buf params s =
     (if \<not> prmPersist params then (False, s)
      else let compressedData = (if \<not> prmCompression params then compress buf else buf) in
        if \<not> prmCompression params \<and> compressedData = [] then (False, s)
        else case preparePayload (length compressedData + HEADER_SIZE) compressedData params of
          None \<Rightarrow> (False, s)
        | Some writeBuffer \<Rightarrow>
            let (status, s) = persistency_write fs (Some writeBuffer) EDGE_TO_CLOUD_PAYLOAD s in (status = SUCCESS, s))"

text \<open>The records from \<open>pos\<close> on; the data found before an error is kept.\<close>

function payload_loop ::
  "(nat list \<Rightarrow> nat list option) \<Rightarrow> nat list \<Rightarrow> nat \<Rightarrow> nat list list \<Rightarrow> (ErrorCode \<times> nat list list) ub_result" where
  "payload_loop uncompress readBuffer pos data =
     (if length readBuffer \<le> pos then Inr (SUCCESS, data)
      else if length readBuffer < pos + HEADER_SIZE then Inl OutOfBounds
      else let h = read_header (drop pos readBuffer);
               dataString = take (payloadSize h) (drop (pos + HEADER_SIZE) readBuffer);
               payloadData = (if \<not> compressionRequired h then uncompress dataString else Some dataString)
           in case payloadData of
                None \<Rightarrow> Inr (INVALID_DATA, data)
              | Some p \<Rightarrow> payload_loop uncompress readBuffer (pos + HEADER_SIZE + length dataString) (data @ [p]))"
  by pat_completeness auto
termination
  by (relation "measure (\<lambda>(u, b, pos, d). length b - pos)") (auto simp: HEADER_SIZE_def)

text \<open>\<open>junk\<close> is what a fresh buffer holds where the file is shorter than its size says.\<close>

definition retrieveData ::
  "FileSystem \<Rightarrow> (nat list \<Rightarrow> nat list option) \<Rightarrow> (nat \<Rightarrow> nat) \<Rightarrow> CacheAndPersist \<Rightarrow> (ErrorCode \<times> nat list list) ub_result" where
  "retrieveData fs uncompress junk s =
     (let readSize = getSize EDGE_TO_CLOUD_PAYLOAD s in
      if readSize = 0 then Inr (EMPTY, [])
      else let (status, bytes) = persistency_read fs readSize EDGE_TO_CLOUD_PAYLOAD s in
        if status \<noteq> SUCCESS then Inr (status, [])
        else payload_loop uncompress (bytes @ map junk [length bytes..<readSize]) 0 [])"

declare payload_loop.simps [simp del]

section \<open>The size limit\<close>

definition used :: "CacheAndPersist \<Rightarrow> nat" where
  "used s = getSize COLLECTION_SCHEME_LIST s + getSize DECODER_MANIFEST s + getSize EDGE_TO_CLOUD_PAYLOAD s"

text \<open>The limit and a single buffer are far from the end of the 64-bit range.\<close>

definition partition_ok :: "CacheAndPersist \<Rightarrow> bool" where
  "partition_ok s \<longleftrightarrow> mMaxPersistencePartitionSize s < 2 ^ 63 \<and> used s < mMaxPersistencePartitionSize s"

lemma used_upd:
  "d \<noteq> DEFAULT_DATA_TYPE \<Longrightarrow> used (s\<lparr>files := (files s)(d \<mapsto> content)\<rparr>) + getSize d s = used s + length content"
  by (cases d) (simp_all add: used_def getSize_def)

lemma partition_bound [simp]: "mMaxPersistencePartitionSize (s\<lparr>files := f\<rparr>) = mMaxPersistencePartitionSize s"
  by simp

lemma write_partition_ok:
  assumes "partition_ok s" "length bytes < 2 ^ 63"
  shows "partition_ok (snd (persistency_write fs (Some bytes) d s))"
proof -
  have sum: "u64 (used s + length bytes) = used s + length bytes" using assms by (simp add: partition_ok_def u64_id)
  show ?thesis
  proof (cases "used s + length bytes < mMaxPersistencePartitionSize s \<and> d \<noteq> DEFAULT_DATA_TYPE \<and> canOpen fs d")
    case False
    then have "snd (persistency_write fs (Some bytes) d s) = s"
      using sum by (auto simp: persistency_write_def used_def [symmetric])
    then show ?thesis using assms(1) by simp
  next
    case True
    let ?b = "if d = EDGE_TO_CLOUD_PAYLOAD then case files s d of Some content \<Rightarrow> content | None \<Rightarrow> [] else []"
    let ?s = "s\<lparr>files := (files s)(d \<mapsto> ?b @ take (taken fs bytes) bytes)\<rparr>"
    have eq: "snd (persistency_write fs (Some bytes) d s) = ?s"
      using True sum by (simp add: persistency_write_def used_def [symmetric] Let_def)
    have "length ?b \<le> getSize d s" using True by (auto simp: getSize_def split: option.split)
    then have "used ?s \<le> used s + length bytes"
      using used_upd [of d s "?b @ take (taken fs bytes) bytes"] True by simp
    then show ?thesis using True assms(1) eq by (simp add: partition_ok_def)
  qed
qed

section \<open>Documents\<close>

text \<open>What the scheme manager relies on to find its documents again after a restart.\<close>

locale document_store =
  fixes save :: "'s \<Rightarrow> 'd \<Rightarrow> nat list \<Rightarrow> 's option"
    and load :: "'s \<Rightarrow> 'd \<Rightarrow> nat list option"
    and document :: "'d \<Rightarrow> bool"
  assumes load_saved: "document d \<Longrightarrow> bytes \<noteq> [] \<Longrightarrow> save s d bytes = Some s' \<Longrightarrow> load s' d = Some bytes"
    and load_other: "document d \<Longrightarrow> save s d bytes = Some s' \<Longrightarrow> e \<noteq> d \<Longrightarrow> load s' e = load s e"
begin

text \<open>The last document saved wins, and the two documents do not disturb each other.\<close>

lemma load_last:
  assumes "document d" "document e" "d \<noteq> e" "b1 \<noteq> []" "b2 \<noteq> []" "save s d b1 = Some s1" "save s1 e b2 = Some s2"
  shows "load s2 d = Some b1" "load s2 e = Some b2"
  using load_saved [OF assms(1,4,6)] load_other [OF assms(2,7,3)] load_saved [OF assms(2,5,7)] by simp_all

end

text \<open>Saving and loading whole documents on a disk where files open and can be read.\<close>

definition disk_ok :: "FileSystem \<Rightarrow> bool" where
  "disk_ok fs \<longleftrightarrow> (\<forall>d. canOpen fs d \<and> canRead fs d)"

definition save_document :: "FileSystem \<Rightarrow> CacheAndPersist \<Rightarrow> DataType \<Rightarrow> nat list \<Rightarrow> CacheAndPersist option" where
  "save_document fs s d bytes =
     (let (status, s') = persistency_write fs (Some bytes) d s in
      if status = SUCCESS \<and> disk_ok fs \<and> partition_ok s \<and> length bytes < 2 ^ 63 then Some s' else None)"

definition load_document :: "FileSystem \<Rightarrow> CacheAndPersist \<Rightarrow> DataType \<Rightarrow> nat list option" where
  "load_document fs s d =
     (let (status, bytes) = persistency_read fs (getSize d s) d s in if status = SUCCESS then Some bytes else None)"

lemma write_success:
  assumes "persistency_write fs (Some bytes) d s = (SUCCESS, s')"
  shows "s' = s\<lparr>files := (files s)(d \<mapsto> (if d = EDGE_TO_CLOUD_PAYLOAD then case files s d of Some content \<Rightarrow> content | None \<Rightarrow> [] else []) @ bytes)\<rparr>"
    "d \<noteq> DEFAULT_DATA_TYPE" "canOpen fs d"
  using assms by (auto simp: persistency_write_def Let_def split: if_splits)

lemma write_status:
  assumes "persistency_write fs (Some bytes) d s = (status, s')"
  shows "status = SUCCESS \<or> status = FILESYSTEM_ERROR \<or> s' = s"
  using assms by (auto simp: persistency_write_def Let_def split: if_splits)

lemma save_write:
  assumes "save_document fs s d bytes = Some s'"
  shows "persistency_write fs (Some bytes) d s = (SUCCESS, s')" "disk_ok fs" "partition_ok s" "length bytes < 2 ^ 63"
  using assms by (auto simp: save_document_def split: prod.splits if_splits)

lemma save_load:
  assumes "d \<noteq> EDGE_TO_CLOUD_PAYLOAD" "bytes \<noteq> []" "save_document fs s d bytes = Some s'"
  shows "load_document fs s' d = Some bytes"
proof -
  note w = save_write [OF assms(3)]
  note s' = write_success [OF w(1)]
  have f: "files s' d = Some bytes" "d \<noteq> DEFAULT_DATA_TYPE" using s' assms(1) by simp_all
  have "partition_ok s'" using write_partition_ok [OF w(3,4), of fs d] w(1) by simp
  moreover have "getSize d s' \<le> used s'" using f by (cases d) (simp_all add: used_def)
  ultimately have "length bytes < mMaxPersistencePartitionSize s'" using f by (simp add: partition_ok_def getSize_def)
  then show ?thesis using f w(2) assms(2) by (simp add: load_document_def persistency_read_def getSize_def disk_ok_def Let_def)
qed

lemma load_cong:
  assumes "files s' d = files s d" "mMaxPersistencePartitionSize s' = mMaxPersistencePartitionSize s"
  shows "load_document fs s' d = load_document fs s d"
proof -
  have "getSize d s' = getSize d s" using assms(1) by (simp add: getSize_def)
  then show ?thesis using assms by (cases "files s d") (simp_all add: load_document_def persistency_read_def)
qed

lemma save_load_other: "save_document fs s d bytes = Some s' \<Longrightarrow> e \<noteq> d \<Longrightarrow> load_document fs s' e = load_document fs s e"
proof -
  assume a: "save_document fs s d bytes = Some s'" "e \<noteq> d"
  note s' = write_success(1) [OF save_write(1) [OF a(1)]]
  show "load_document fs s' e = load_document fs s e" by (rule load_cong) (use a(2) in \<open>simp_all add: s'\<close>)
qed

interpretation docs: document_store "save_document fs" "load_document fs" "\<lambda>d. d \<noteq> EDGE_TO_CLOUD_PAYLOAD" for fs
  by unfold_locales (rule save_load save_load_other; assumption)+

section \<open>Records of payloads\<close>

lemma le_bytes_length [simp]: "length (le_bytes n x) = n"
  by (induction n arbitrary: x) simp_all

lemma of_le_bytes_le [simp]: "of_le_bytes (le_bytes n x) = x mod 256 ^ n"
proof (induction n arbitrary: x)
  case (Suc n)
  have "x mod 256 + 256 * (x div 256 mod 256 ^ n) = x mod (256 * 256 ^ n)" by (simp add: mod_mult2_eq add.commute)
  then show ?case using Suc by simp
qed simp

lemma header_roundtrip:
  assumes "payloadSize h < 2 ^ 64"
  shows "read_header (header_bytes h @ rest) = h"
proof -
  have "payloadSize h mod 256 ^ 8 = payloadSize h" using assms by (intro mod_less) simp
  then show ?thesis by (cases h) (simp add: read_header_def header_bytes_def)
qed

lemma header_length [simp]: "length (header_bytes h) = HEADER_SIZE"
  by (simp add: header_bytes_def HEADER_SIZE_def)

text \<open>What is stored for a payload.\<close>

definition stored_bytes :: "(nat list \<Rightarrow> nat list) \<Rightarrow> CollectionSchemeParams \<Rightarrow> nat list \<Rightarrow> nat list" where
  "stored_bytes compress params buf = (if prmCompression params then buf else compress buf)"

definition record_bytes :: "(nat list \<Rightarrow> nat list) \<Rightarrow> CollectionSchemeParams \<Rightarrow> nat list \<Rightarrow> nat list" where
  "record_bytes compress params buf =
     header_bytes \<lparr>compressionRequired = prmCompression params, payloadSize = length (stored_bytes compress params buf)\<rparr>
     @ stored_bytes compress params buf"

lemma storeData_write:
  "storeData fs compress buf params s =
     (if \<not> prmPersist params \<or> \<not> prmCompression params \<and> compress buf = [] then (False, s)
      else let (status, s') = persistency_write fs (Some (record_bytes compress params buf)) EDGE_TO_CLOUD_PAYLOAD s
           in (status = SUCCESS, s'))"
  by (simp add: storeData_def preparePayload_def record_bytes_def stored_bytes_def Let_def)

text \<open>What the compression library promises.\<close>

definition codec_ok :: "(nat list \<Rightarrow> nat list) \<Rightarrow> (nat list \<Rightarrow> nat list option) \<Rightarrow> bool" where
  "codec_ok compress uncompress \<longleftrightarrow> (\<forall>x. compress x \<noteq> [] \<longrightarrow> uncompress (compress x) = Some x)"

text \<open>The loop reads a record that starts at \<open>pos\<close>.\<close>

lemma payload_loop_record:
  assumes "codec_ok compress uncompress" "prmCompression params \<or> compress buf \<noteq> []"
    and "length (stored_bytes compress params buf) < 2 ^ 64"
  shows "payload_loop uncompress (before @ record_bytes compress params buf @ rest) (length before) data =
     payload_loop uncompress (before @ record_bytes compress params buf @ rest)
       (length (before @ record_bytes compress params buf)) (data @ [buf])"
proof -
  let ?h = "\<lparr>compressionRequired = prmCompression params, payloadSize = length (stored_bytes compress params buf)\<rparr>"
  have hdr: "read_header (record_bytes compress params buf @ rest) = ?h"
    unfolding record_bytes_def append_assoc by (rule header_roundtrip) (use assms(3) in simp)
  have pos: "0 < HEADER_SIZE" by (simp add: HEADER_SIZE_def)
  show ?thesis using hdr assms(1,2) pos
    by (subst payload_loop.simps) (auto simp: codec_ok_def record_bytes_def stored_bytes_def Let_def add.assoc)
qed

lemma payload_loop_end: "payload_loop uncompress bytes (length bytes) data = Inr (SUCCESS, data)"
  by (simp add: payload_loop.simps)

definition records :: "(nat list \<Rightarrow> nat list) \<Rightarrow> (nat list \<times> CollectionSchemeParams) list \<Rightarrow> nat list" where
  "records compress ps = concat (map (\<lambda>(buf, params). record_bytes compress params buf) ps)"

definition record_ok :: "(nat list \<Rightarrow> nat list) \<Rightarrow> nat list \<times> CollectionSchemeParams \<Rightarrow> bool" where
  "record_ok compress p \<longleftrightarrow> (prmCompression (snd p) \<or> compress (fst p) \<noteq> []) \<and> length (stored_bytes compress (snd p) (fst p)) < 2 ^ 64"

lemma payload_loop_records:
  assumes "codec_ok compress uncompress" "\<forall>p \<in> set ps. record_ok compress p"
  shows "payload_loop uncompress (before @ records compress ps) (length before) data = Inr (SUCCESS, data @ map fst ps)"
  using assms(2)
proof (induction ps arbitrary: before data)
  case Nil
  then show ?case by (simp add: records_def payload_loop_end)
next
  case (Cons p ps)
  obtain buf params where p: "p = (buf, params)" by (cases p)
  let ?r = "record_bytes compress params buf"
  have "payload_loop uncompress (before @ ?r @ records compress ps) (length before) data =
      payload_loop uncompress ((before @ ?r) @ records compress ps) (length (before @ ?r)) (data @ [buf])"
    using payload_loop_record [OF assms(1), where params = params and buf = buf and before = before and rest = "records compress ps"]
      Cons.prems p by (simp add: record_ok_def)
  also have "\<dots> = Inr (SUCCESS, (data @ [buf]) @ map fst ps)" by (rule Cons.IH) (use Cons.prems in simp)
  finally show ?case using p by (simp add: records_def)
qed

section \<open>Storing and retrieving\<close>

definition content :: "CacheAndPersist \<Rightarrow> nat list" where
  "content s = (case files s EDGE_TO_CLOUD_PAYLOAD of Some bytes \<Rightarrow> bytes | None \<Rightarrow> [])"

lemma content_size: "getSize EDGE_TO_CLOUD_PAYLOAD s = length (content s)"
  by (simp add: content_def getSize_def split: option.split)

text \<open>A disk on which every write that fits is complete.\<close>

definition writes_complete :: "FileSystem \<Rightarrow> bool" where
  "writes_complete fs \<longleftrightarrow> disk_ok fs \<and> (\<forall>bytes. length bytes \<le> taken fs bytes)"

definition payload_fits :: "(nat list \<Rightarrow> nat list) \<Rightarrow> nat list \<times> CollectionSchemeParams \<Rightarrow> bool" where
  "payload_fits compress p \<longleftrightarrow> length (stored_bytes compress (snd p) (fst p)) < 2 ^ 62"

lemma storeData_step:
  assumes "writes_complete fs" "partition_ok s" "payload_fits compress (buf, params)" "storeData fs compress buf params s = (ok, s')"
  shows "partition_ok s'" "content s' = content s @ (if ok then record_bytes compress params buf else [])"
    "ok \<Longrightarrow> record_ok compress (buf, params)"
proof -
  let ?r = "record_bytes compress params buf"
  have len: "length ?r < 2 ^ 63" using assms(3) by (simp add: record_bytes_def payload_fits_def HEADER_SIZE_def)
  have "partition_ok s' \<and> content s' = content s @ (if ok then ?r else []) \<and> (ok \<longrightarrow> record_ok compress (buf, params))"
  proof (cases "\<not> prmPersist params \<or> \<not> prmCompression params \<and> compress buf = []")
    case True
    then show ?thesis using assms(2,4) by (simp add: storeData_write)
  next
    case False
    obtain status s1 where w: "persistency_write fs (Some ?r) EDGE_TO_CLOUD_PAYLOAD s = (status, s1)"
      by (cases "persistency_write fs (Some ?r) EDGE_TO_CLOUD_PAYLOAD s")
    have "storeData fs compress buf params s = (status = SUCCESS, s1)" unfolding storeData_write if_not_P [OF False] w by simp
    then have eq: "ok \<longleftrightarrow> status = SUCCESS" "s' = s1" using assms(4) by simp_all
    have p: "partition_ok s1" using write_partition_ok [OF assms(2) len, of fs EDGE_TO_CLOUD_PAYLOAD] w by simp
    show ?thesis
    proof (cases "status = SUCCESS")
      case True
      then have "content s1 = content s @ ?r" using write_success(1) [of fs ?r EDGE_TO_CLOUD_PAYLOAD s s1] w by (simp add: content_def)
      moreover have "record_ok compress (buf, params)" using False assms(3) by (auto simp: record_ok_def payload_fits_def)
      ultimately show ?thesis using eq True p by simp
    next
      case f: False
      have "\<not> taken fs ?r < length ?r" "canOpen fs EDGE_TO_CLOUD_PAYLOAD" using assms(1) by (simp_all add: writes_complete_def disk_ok_def not_less)
      then have "s1 = s" using w f by (auto simp: persistency_write_def Let_def split: if_splits)
      then show ?thesis using eq f p by simp
    qed
  qed
  then show "partition_ok s'" "content s' = content s @ (if ok then ?r else [])" "ok \<Longrightarrow> record_ok compress (buf, params)" by simp_all
qed

text \<open>Storing a sequence of payloads; the ones that were persisted are returned.\<close>

fun store_all ::
  "FileSystem \<Rightarrow> (nat list \<Rightarrow> nat list) \<Rightarrow> (nat list \<times> CollectionSchemeParams) list \<Rightarrow> CacheAndPersist \<Rightarrow> nat list list \<times> CacheAndPersist" where
  "store_all fs compress [] s = ([], s)"
| "store_all fs compress ((buf, params) # ps) s =
     (let (ok, s) = storeData fs compress buf params s; (kept, s) = store_all fs compress ps s
      in (if ok then buf # kept else kept, s))"

lemma store_all_records:
  assumes "writes_complete fs"
  shows "partition_ok s \<Longrightarrow> \<forall>p \<in> set ps. payload_fits compress p \<Longrightarrow>
     \<exists>kps s'. store_all fs compress ps s = (map fst kps, s') \<and> partition_ok s' \<and> content s' = content s @ records compress kps \<and>
       (\<forall>p \<in> set kps. record_ok compress p)"
proof (induction ps arbitrary: s)
  case Nil
  then show ?case by (intro exI [of _ "[]"] exI [of _ s]) (simp add: records_def)
next
  case (Cons p ps)
  obtain buf params where p: "p = (buf, params)" by (cases p)
  obtain ok s1 where s1: "storeData fs compress buf params s = (ok, s1)" by (cases "storeData fs compress buf params s")
  have fits: "payload_fits compress (buf, params)" using Cons.prems(2) p by simp
  note step = storeData_step [OF assms Cons.prems(1) fits s1]
  obtain kps s' where k: "store_all fs compress ps s1 = (map fst kps, s')" "partition_ok s'" "content s' = content s1 @ records compress kps"
    "\<forall>p \<in> set kps. record_ok compress p"
    using Cons.IH [OF step(1)] Cons.prems(2) by auto
  let ?kps = "if ok then (buf, params) # kps else kps"
  have "store_all fs compress (p # ps) s = (map fst ?kps, s')" using p s1 k(1) by simp
  moreover have "content s' = content s @ records compress ?kps" using k(3) step(2) by (simp add: records_def)
  moreover have "\<forall>p \<in> set ?kps. record_ok compress p" using k(4) step(3) by auto
  ultimately show ?case using k(2) by blast
qed

lemma retrieve_all:
  assumes "disk_ok fs" "partition_ok s" "content s \<noteq> []"
  shows "retrieveData fs uncompress junk s = payload_loop uncompress (content s) 0 []"
proof -
  obtain c where c: "files s EDGE_TO_CLOUD_PAYLOAD = Some c" "c \<noteq> []" using assms(3) by (auto simp: content_def split: option.splits)
  have len: "getSize EDGE_TO_CLOUD_PAYLOAD s = length c" using c(1) by (simp add: getSize_def)
  moreover have "length c < mMaxPersistencePartitionSize s" using assms(2) len by (simp add: partition_ok_def used_def)
  ultimately have "persistency_read fs (length c) EDGE_TO_CLOUD_PAYLOAD s = (SUCCESS, c)"
    using c assms(1) by (simp add: persistency_read_def disk_ok_def Let_def)
  then show ?thesis using c len by (simp add: retrieveData_def Let_def content_def)
qed

text \<open>
  C32. Payloads stored one after the other on a disk that completes its writes, starting without
  stored payloads, are retrieved: exactly those for which storing reported success, in order and
  with their bytes unchanged, whether or not they were compressed before.
\<close>

theorem payload_roundtrip:
  assumes "writes_complete fs" "codec_ok compress uncompress" "partition_ok s" "content s = []"
    and "\<forall>p \<in> set ps. payload_fits compress p"
  shows "\<exists>kept s'. store_all fs compress ps s = (kept, s') \<and> partition_ok s' \<and>
     retrieveData fs uncompress junk s' = Inr (if kept = [] then (EMPTY, []) else (SUCCESS, kept))"
proof -
  obtain kps s' where k: "store_all fs compress ps s = (map fst kps, s')" "partition_ok s'" "content s' = records compress kps"
    "\<forall>p \<in> set kps. record_ok compress p"
    using store_all_records [OF assms(1,3,5)] assms(4) by auto
  show ?thesis
  proof (cases kps)
    case Nil
    then have "retrieveData fs uncompress junk s' = Inr (EMPTY, [])"
      using k(3) by (simp add: retrieveData_def content_size records_def)
    then show ?thesis using k(1,2) Nil by simp
  next
    case (Cons p kps')
    then have ne: "content s' \<noteq> []" using k(3) by (cases p) (simp add: records_def record_bytes_def header_bytes_def)
    have "retrieveData fs uncompress junk s' = Inr (SUCCESS, map fst kps)"
      using retrieve_all [OF _ k(2) ne, of fs uncompress junk] assms(1) payload_loop_records [OF assms(2) k(4), of "[]" "[]"]
      by (simp add: writes_complete_def k(3))
    then show ?thesis using k(1,2) Cons by simp
  qed
qed

text \<open>
  A write that stops within the header of a record leaves the torn header in the file. Storing
  reports the failure, but the next retrieval reads the header past the end of its buffer.
\<close>

theorem torn_header_out_of_bounds:
  assumes "disk_ok fs" "partition_ok s" "content s = []" "prmPersist params" "prmCompression params"
    and "0 < taken fs (record_bytes compress params buf)" "taken fs (record_bytes compress params buf) < HEADER_SIZE"
    and "used s + length (record_bytes compress params buf) < mMaxPersistencePartitionSize s"
  shows "\<exists>s'. storeData fs compress buf params s = (False, s') \<and> retrieveData fs uncompress junk s' = Inl OutOfBounds"
proof -
  let ?r = "record_bytes compress params buf"
  let ?c = "take (taken fs ?r) ?r"
  have r: "HEADER_SIZE \<le> length ?r" by (simp add: record_bytes_def)
  let ?s = "s\<lparr>files := (files s)(EDGE_TO_CLOUD_PAYLOAD \<mapsto> ?c)\<rparr>"
  have sum: "u64 (used s + length ?r) = used s + length ?r" using assms(2,8) by (simp add: partition_ok_def u64_id)
  have "(case files s EDGE_TO_CLOUD_PAYLOAD of Some bytes \<Rightarrow> bytes | None \<Rightarrow> []) = []" using assms(3) by (simp add: content_def)
  then have "persistency_write fs (Some ?r) EDGE_TO_CLOUD_PAYLOAD s = (FILESYSTEM_ERROR, ?s)"
    using assms(1,7,8) r sum by (simp add: persistency_write_def used_def [symmetric] disk_ok_def Let_def)
  then have st: "storeData fs compress buf params s = (False, ?s)" using assms(4,5) by (simp add: storeData_write)
  have c: "content ?s = ?c" "?c \<noteq> []" "length ?c < HEADER_SIZE" using assms(6,7) r by (auto simp: content_def)
  have "used ?s \<le> used s + length ?r"
    using used_upd [of EDGE_TO_CLOUD_PAYLOAD s ?c] by simp
  then have "partition_ok ?s" using assms(2,8) by (simp add: partition_ok_def)
  from retrieve_all [OF assms(1) this, of uncompress junk] c
  have "retrieveData fs uncompress junk ?s = Inl OutOfBounds" by (simp add: payload_loop.simps)
  then show ?thesis using st by blast
qed

section \<open>Witnesses\<close>

definition sample_disk :: "nat \<Rightarrow> FileSystem" where
  "sample_disk n = \<lparr>canOpen = (\<lambda>_. True), taken = (\<lambda>bytes. min n (length bytes)), canRead = (\<lambda>_. True)\<rparr>"

definition good_disk :: FileSystem where
  "good_disk = \<lparr>canOpen = (\<lambda>_. True), taken = length, canRead = (\<lambda>_. True)\<rparr>"

definition empty_store :: CacheAndPersist where
  "empty_store = \<lparr>files = (\<lambda>_. None), mMaxPersistencePartitionSize = 1000\<rparr>"

definition sample_params :: "bool \<Rightarrow> CollectionSchemeParams" where
  "sample_params compression = \<lparr>prmPersist = True, prmCompression = compression, prmPriority = 0\<rparr>"

lemma empty_store_ok: "partition_ok empty_store" "content empty_store = []" "used empty_store = 0" "mMaxPersistencePartitionSize empty_store = 1000"
  by (simp_all add: partition_ok_def used_def getSize_def empty_store_def content_def)

text \<open>A codec that puts a byte in front.\<close>

theorem payload_roundtrip_witness:
  "\<exists>s'. store_all good_disk (\<lambda>x. 7 # x) [([1, 2], sample_params True), ([3], sample_params False)] empty_store = ([[1, 2], [3]], s') \<and>
     retrieveData good_disk (\<lambda>x. Some (tl x)) (\<lambda>_. 0) s' = Inr (SUCCESS, [[1, 2], [3]])"
proof -
  let ?ps = "[([1, 2], sample_params True), ([3], sample_params False)] :: (nat list \<times> CollectionSchemeParams) list"
  have d: "writes_complete good_disk" by (simp add: writes_complete_def disk_ok_def good_disk_def)
  have c: "codec_ok (\<lambda>x. 7 # x) (\<lambda>x. Some (tl x))" by (simp add: codec_ok_def)
  have f: "\<forall>p \<in> set ?ps. payload_fits (\<lambda>x. 7 # x) p" by (simp add: payload_fits_def stored_bytes_def sample_params_def)
  have k: "fst (store_all good_disk (\<lambda>x. 7 # x) ?ps empty_store) = [[1, 2], [3]]"
    by (simp add: storeData_write record_bytes_def stored_bytes_def sample_params_def header_bytes_def persistency_write_def getSize_def
        empty_store_def good_disk_def u64_def Let_def)
  from payload_roundtrip [OF d c empty_store_ok(1,2) f, of "\<lambda>_. 0"] k show ?thesis by force
qed

theorem torn_header_out_of_bounds_witness:
  "\<exists>s'. storeData (sample_disk 4) id [1, 2, 3] (sample_params True) empty_store = (False, s') \<and>
     retrieveData (sample_disk 4) Some (\<lambda>_. 0) s' = Inl OutOfBounds"
proof (rule torn_header_out_of_bounds)
  show "disk_ok (sample_disk 4)" by (simp add: disk_ok_def sample_disk_def)
qed (simp_all add: empty_store_ok sample_params_def sample_disk_def record_bytes_def stored_bytes_def HEADER_SIZE_def)

end
