(* ===== verification/SchemeManager.thy ===== *)
theory SchemeManager
  imports DictionaryExtractor Persistency
begin

text \<open>
  The thread of the collection scheme manager (\<open>CollectionSchemeManager.cpp\<close>,
  \<open>CheckinAndPersistency.cpp\<close>) and the callbacks that feed it (\<open>Schema.h\<close>, \<open>Schema.cpp\<close>): new
  documents are handed over, built, persisted and turned into the timeline, and whenever the
  enabled schemes change the matrix and the dictionaries are extracted and published. The times
  the clock returns and the environment are inputs; what is published is an output log.
\<close>

section \<open>State\<close>

record environment =
  envGrow :: "nat \<Rightarrow> nat"
  envParseList :: "nat list \<Rightarrow> CollectionSchemeMsg list option"
  envParseManifest :: "nat list \<Rightarrow> DecoderManifestMsg option"
  envDisk :: FileSystem
  envDelivered :: "nat \<Rightarrow> bool"
  envIDs :: CANInterfaceIDTranslator

record manager =
  mgrTimeline :: timeline
  mCollectionSchemeList :: "CollectionSchemeList option"
  mDecoderManifest :: "DecoderManifest option"
  mCollectionSchemeListInput :: "CollectionSchemeList option"
  mDecoderManifestInput :: "DecoderManifest option"
  mCollectionSchemeAvailable :: bool
  mDecoderManifestAvailable :: bool
  mProcessCollectionScheme :: bool
  mProcessDecoderManifest :: bool
  mUseLocalDictionary :: bool
  mSchemaPersistency :: "CacheAndPersist option"
  published :: "(MatrixGraph \<times> dictionary_map option) list"

definition new_manager :: "string \<Rightarrow> bool \<Rightarrow> CacheAndPersist option \<Rightarrow> manager" where
  "new_manager dm_id local persistency =
     \<lparr>mgrTimeline = new_timeline dm_id, mCollectionSchemeList = None, mDecoderManifest = None,
      mCollectionSchemeListInput = None, mDecoderManifestInput = None, mCollectionSchemeAvailable = False,
      mDecoderManifestAvailable = False, mProcessCollectionScheme = False, mProcessDecoderManifest = False,
      mUseLocalDictionary = local, mSchemaPersistency = persistency, published = []\<rparr>"

section \<open>Documents from the cloud\<close>

definition onCollectionSchemeUpdate :: "CollectionSchemeList option \<Rightarrow> manager \<Rightarrow> manager" where
  "onCollectionSchemeUpdate l m = m\<lparr>mCollectionSchemeListInput := l, mCollectionSchemeAvailable := True\<rparr>"

definition onDecoderManifestUpdate :: "DecoderManifest option \<Rightarrow> manager \<Rightarrow> manager" where
  "onDecoderManifestUpdate d m = m\<lparr>mDecoderManifestInput := d, mDecoderManifestAvailable := True\<rparr>"

text \<open>Data received on the two topics; empty data and data that is too long is dropped.\<close>

definition collection_scheme_list_received :: "nat list \<Rightarrow> manager \<Rightarrow> manager" where
  "collection_scheme_list_received buf m =
     (if buf = [] then m
      else let (ok, l) = list_copyData buf new_list in
        if \<not> ok then m else onCollectionSchemeUpdate (Some l) m)"

definition decoder_manifest_received :: "nat list \<Rightarrow> manager \<Rightarrow> manager" where
  "decoder_manifest_received buf m =
     (if buf = [] then m
      else let (ok, d) = manifest_copyData buf new_manifest in
        if \<not> ok then m else onDecoderManifestUpdate (Some d) m)"

definition updateAvailable :: "manager \<Rightarrow> manager" where
  "updateAvailable m =
     (let m = (if mCollectionSchemeAvailable m \<and> mCollectionSchemeListInput m \<noteq> None
               then m\<lparr>mCollectionSchemeList := mCollectionSchemeListInput m, mProcessCollectionScheme := True\<rparr> else m);
          m = m\<lparr>mCollectionSchemeAvailable := False\<rparr>;
          m = (if mDecoderManifestAvailable m \<and> mDecoderManifestInput m \<noteq> None
               then m\<lparr>mDecoderManifest := mDecoderManifestInput m, mProcessDecoderManifest := True\<rparr> else m)
      in m\<lparr>mDecoderManifestAvailable := False\<rparr>)"

section \<open>Persistency\<close>

definition document_bytes :: "DataType \<Rightarrow> manager \<Rightarrow> nat list option" where
  "document_bytes d m =
     (if d = COLLECTION_SCHEME_LIST then map_option lstBinaryData (mCollectionSchemeList m)
      else if d = DECODER_MANIFEST then map_option mProtoBinaryData (mDecoderManifest m) else None)"

definition store_document :: "environment \<Rightarrow> DataType \<Rightarrow> manager \<Rightarrow> manager" where
  "store_document env d m =
     (case mSchemaPersistency m of
        None \<Rightarrow> m
      | Some p \<Rightarrow>
          (case document_bytes d m of
             None \<Rightarrow> m
           | Some protoInput \<Rightarrow>
               if protoInput = [] then m
               else m\<lparr>mSchemaPersistency := Some (snd (persistency_write (envDisk env) (Some protoInput) d p))\<rparr>))"

text \<open>The buffer is zeroed before the read.\<close>

definition retrieve_document :: "environment \<Rightarrow> DataType \<Rightarrow> manager \<Rightarrow> bool \<times> manager" where
  "retrieve_document env d m =
     (case mSchemaPersistency m of
        None \<Rightarrow> (False, m)
      | Some p \<Rightarrow>
          if d \<noteq> COLLECTION_SCHEME_LIST \<and> d \<noteq> DECODER_MANIFEST then (False, m)
          else let protoSize = getSize d p in
            if protoSize = 0 then (False, m)
            else let (ret, bytes) = persistency_read (envDisk env) protoSize d p;
                     protoOutput = bytes @ replicate (protoSize - length bytes) 0
                 in if ret \<noteq> SUCCESS then (False, m)
                    else if d = COLLECTION_SCHEME_LIST
                    then let l = (case mCollectionSchemeList m of None \<Rightarrow> new_list | Some l \<Rightarrow> l)
                         in (True, m\<lparr>mCollectionSchemeList := Some (snd (list_copyData protoOutput l)), mProcessCollectionScheme := True\<rparr>)
                    else let x = (case mDecoderManifest m of None \<Rightarrow> new_manifest | Some x \<Rightarrow> x)
                         in (True, m\<lparr>mDecoderManifest := Some (snd (manifest_copyData protoOutput x)), mProcessDecoderManifest := True\<rparr>))"

section \<open>Processing documents\<close>

definition on_timeline :: "bool \<times> timeline \<Rightarrow> manager \<Rightarrow> bool \<times> manager" where
  "on_timeline r m = (fst r, m\<lparr>mgrTimeline := snd r\<rparr>)"

definition processDecoderManifest :: "environment \<Rightarrow> nat \<Rightarrow> manager \<Rightarrow> bool \<times> manager" where
  "processDecoderManifest env t m =
     (case mDecoderManifest m of
        None \<Rightarrow> (False, m)
      | Some d0 \<Rightarrow>
          let (ok, d) = manifest_build (envParseManifest env) d0; m = m\<lparr>mDecoderManifest := Some d\<rparr> in
          if \<not> ok then (False, m)
          else if getID d = currentDecoderManifestID (mgrTimeline m) then (False, m)
          else let m = m\<lparr>mgrTimeline := (mgrTimeline m)\<lparr>currentDecoderManifestID := getID d\<rparr>\<rparr>;
                   m = store_document env DECODER_MANIFEST m
               in if isCollectionSchemeLoaded (mgrTimeline m)
                  then (False, m\<lparr>mgrTimeline := cleanupCollectionSchemes (mgrTimeline m)\<rparr>)
                  else on_timeline (rebuildMapsandTimeLine (mCollectionSchemeList m) t (mgrTimeline m)) m)"

definition processCollectionScheme :: "environment \<Rightarrow> nat \<Rightarrow> manager \<Rightarrow> (bool \<times> manager) ub_result" where
  "processCollectionScheme env t m =
     (case mCollectionSchemeList m of
        None \<Rightarrow> Inr (False, m)
      | Some l0 \<Rightarrow>
          ub_bind (list_build (envGrow env) (envParseList env) l0) (\<lambda>(ok, l).
            let m = m\<lparr>mCollectionSchemeList := Some l\<rparr> in
            if \<not> ok then Inr (False, m)
            else let m = store_document env COLLECTION_SCHEME_LIST m in
              if isCollectionSchemeLoaded (mgrTimeline m)
              then Inr (on_timeline (updateMapsandTimeLine (mCollectionSchemeList m) t (mgrTimeline m)) m)
              else Inr (on_timeline (rebuildMapsandTimeLine (mCollectionSchemeList m) t (mgrTimeline m)) m)))"

section \<open>Extraction\<close>

text \<open>Without a manifest the first signal looked up dereferences a null pointer.\<close>

definition extract_dictionaries :: "environment \<Rightarrow> manager \<Rightarrow> dictionary_map option ub_result" where
  "extract_dictionaries env m =
     (let schemes = mEnabledCollectionSchemeMap (mgrTimeline m) in
      if mUseLocalDictionary m then Inr None
      else case mDecoderManifest m of
        Some d \<Rightarrow> Inr (Some (decoderDictionaryExtractor d (envIDs env) schemes))
      | None \<Rightarrow>
          if \<exists>p \<in> set schemes. schCollectSignals (snd p) \<noteq> [] then Inl NullPointer
          else Inr (Some (decoderDictionaryExtractor new_manifest (envIDs env) schemes)))"

definition extract_and_publish :: "environment \<Rightarrow> manager \<Rightarrow> manager ub_result option" where
  "extract_and_publish env m =
     (case inspectionMatrixExtractor (envIDs env) (mEnabledCollectionSchemeMap (mgrTimeline m)) of
        None \<Rightarrow> None
      | Some g \<Rightarrow> Some (ub_bind g (\<lambda>g. ub_bind (extract_dictionaries env m) (\<lambda>d.
          Inr (m\<lparr>published := published m @ [(g, d)]\<rparr>)))))"

section \<open>The thread\<close>

datatype Wait = WaitWithPredicate | NoWait | WaitMs nat

definition next_wait :: "nat \<Rightarrow> timeline \<Rightarrow> Wait" where
  "next_wait currentTime s =
     (case mTimeLine s of
        [] \<Rightarrow> WaitWithPredicate
      | ev # _ \<Rightarrow> if currentTime \<ge> tdTime ev then NoWait else WaitMs (u32 (tdTime ev - currentTime)))"

text \<open>The times at which one round reads the clock.\<close>

record round_times =
  manifestTime :: nat
  schemeTime :: nat
  checkTime :: nat
  waitTime :: nat

definition process_documents :: "environment \<Rightarrow> round_times \<Rightarrow> manager \<Rightarrow> (bool \<times> manager) ub_result" where
  "process_documents env ts m =
     (let (c1, m) = (if mProcessDecoderManifest m
                     then processDecoderManifest env (manifestTime ts) (m\<lparr>mProcessDecoderManifest := False\<rparr>) else (False, m)) in
      if mProcessCollectionScheme m
      then ub_bind (processCollectionScheme env (schemeTime ts) (m\<lparr>mProcessCollectionScheme := False\<rparr>)) (\<lambda>(c2, m). Inr (c1 \<or> c2, m))
      else Inr (c1, m))"

text \<open>One round of the loop up to the wait; the change flag is false when it starts.\<close>

definition work_round :: "environment \<Rightarrow> round_times \<Rightarrow> manager \<Rightarrow> (Wait \<times> manager) ub_result option" where
  "work_round env ts m =
     (case process_documents env ts m of
        Inl e \<Rightarrow> Some (Inl e)
      | Inr (c, m) \<Rightarrow>
          (case checkTimeLine (envDelivered env) (checkTime ts) (mgrTimeline m) of
             None \<Rightarrow> None
           | Some (c', s) \<Rightarrow>
               let m = m\<lparr>mgrTimeline := s\<rparr> in
               (case (if c \<or> c' then extract_and_publish env m else Some (Inr m)) of
                  None \<Rightarrow> None
                | Some r \<Rightarrow> Some (ub_bind r (\<lambda>m. Inr (next_wait (waitTime ts) (mgrTimeline m), m))))))"

text \<open>What the thread does before the loop.\<close>

definition manager_start :: "environment \<Rightarrow> nat \<Rightarrow> manager \<Rightarrow> manager" where
  "manager_start env t m =
     (let m = m\<lparr>mgrTimeline := prepareCheckinTimer t (mgrTimeline m)\<rparr>;
          m = snd (retrieve_document env COLLECTION_SCHEME_LIST m)
      in if \<not> mUseLocalDictionary m then snd (retrieve_document env DECODER_MANIFEST m) else m)"

end
