(* ===== verification/ManagerSafety.thy ===== *)
theory ManagerSafety
  imports SchemeManager
begin

text \<open>
  What holds of every round of the manager's thread: it ends, nothing it does is undefined, and
  the schemes in the maps always belong to the manifest in use.
\<close>

section \<open>Schemes and lists that are well-formed\<close>

text \<open>Every condition has at most ten levels, so fewer than 1024 nodes.\<close>

lemma node_count_leaf [simp]: "node_count (leaf t x b s fn) = 1"
  by (simp add: leaf_def)

lemma one_less_power: "Suc 0 < 2 ^ Suc d"
  by (rule two_power [simplified power_Suc [symmetric]])

lemma node_count_expr: "node_count (expr_of d n) < 2 ^ d"
proof (induction d n rule: expr_of.induct)
  case (8 d op l r)
  have l: "node_count (expr_of d l) < 2 ^ d" if "convertOperatorType op \<noteq> BOOLEAN" using "8.IH"(1) that by blast
  have r: "node_count (case r of None \<Rightarrow> None | Some c \<Rightarrow> if op = LOGICAL_NOT then None else expr_of d c) < 2 ^ d"
    if "convertOperatorType op \<noteq> BOOLEAN"
    using "8.IH"(2) [OF that] by (cases r) auto
  show ?case using l r one_less_power [of d] by (cases "convertOperatorType op = BOOLEAN") simp_all
qed (use one_less_power in simp_all)

definition scheme_good :: "CollectionScheme \<Rightarrow> bool" where
  "scheme_good c \<longleftrightarrow> scheme_ok c \<and> schDecoderManifestID c \<noteq> [] \<and>
     (\<exists>T. denotes (at_index (schExpressionNodes c)) (schCondition c) (Some T) \<and> node_count (Some T) < 2 ^ 10)"

definition MAX_SCHEMES :: nat where "MAX_SCHEMES = 2 ^ 20"

definition list_ok :: "CollectionSchemeList \<Rightarrow> bool" where
  "list_ok l \<longleftrightarrow> (\<forall>c \<in> set (getCollectionSchemes l). scheme_good c) \<and>
     distinct (map schCollectionSchemeID (getCollectionSchemes l)) \<and> length (getCollectionSchemes l) \<le> MAX_SCHEMES"

text \<open>
  What is expected of a document, if it parses: among its valid schemes the names are distinct, none is
  that of the checkin, every one has a condition, and there are at most \<open>MAX_SCHEMES\<close>. Nothing is
  expected of what does not parse, nor of the schemes that are rejected. The vectors of nodes grow to
  at least twice the capacity.
\<close>

definition messages_ok :: "CollectionSchemeMsg list \<Rightarrow> bool" where
  "messages_ok msgs \<longleftrightarrow> distinct (map campaign_arn msgs) \<and> length msgs \<le> MAX_SCHEMES \<and>
     (\<forall>msg \<in> set msgs. campaign_arn msg \<noteq> CHECKIN \<and> condition_expr (collection_scheme_type msg) \<noteq> None)"

definition document_ok :: "environment \<Rightarrow> nat list \<Rightarrow> bool" where
  "document_ok env bytes \<longleftrightarrow>
     bytes = [] \<or> (case envParseList env bytes of None \<Rightarrow> True | Some msgs \<Rightarrow> messages_ok (filter msg_valid msgs))"

definition doubles :: "environment \<Rightarrow> bool" where
  "doubles env \<longleftrightarrow> (\<forall>n. 2 * n \<le> envGrow env n)"

text \<open>The documents the manager holds, the one that arrived last included.\<close>

definition held_ok :: "environment \<Rightarrow> manager \<Rightarrow> bool" where
  "held_ok env m \<longleftrightarrow>
     (\<forall>l. mCollectionSchemeList m = Some l \<or> mCollectionSchemeListInput m = Some l \<longrightarrow> document_ok env (lstBinaryData l))"

lemma list_ok_copy: "list_ok (snd (list_copyData bytes l))"
  by (simp add: list_ok_def list_copyData_def getCollectionSchemes_def Let_def)

lemma built_scheme_good:
  assumes "built_from msg c" "msg_valid msg" "campaign_arn msg \<noteq> CHECKIN" "condition_expr (collection_scheme_type msg) \<noteq> None"
  shows "scheme_good c" "schCollectionSchemeID c = campaign_arn msg"
proof -
  have e: "c = scheme_of msg (schCondition c) (schExpressionNodes c)" using assms(1) by (simp add: built_from_def)
  have c: "schCollectionSchemeID c = campaign_arn msg" "schDecoderManifestID c = decoder_manifest_arn msg"
    "schStartTime c = start_time_ms_epoch msg" "schExpiryTime c = expiry_time_ms_epoch msg"
    using arg_cong [OF e, of schCollectionSchemeID] arg_cong [OF e, of schDecoderManifestID]
      arg_cong [OF e, of schStartTime] arg_cong [OF e, of schExpiryTime] by (simp_all add: scheme_of_def)
  obtain T where T: "condition_expr (collection_scheme_type msg) = Some T" using assms(4) by blast
  have "node_count (condition_expr (collection_scheme_type msg)) < 2 ^ 10"
    using node_count_expr [of MAX_EQUATION_DEPTH]
    by (cases "collection_scheme_type msg") (simp_all add: condition_expr_def MAX_EQUATION_DEPTH_def)
  then show "scheme_good c" using assms(1-3) c T by (auto simp: scheme_good_def scheme_ok_def msg_valid_def built_from_def)
  show "schCollectionSchemeID c = campaign_arn msg" by (rule c)
qed

lemma built_list_good:
  assumes "list_all2 built_from ms cs" "\<forall>m \<in> set ms. msg_valid m" "messages_ok ms"
  shows "\<forall>c \<in> set cs. scheme_good c" "map schCollectionSchemeID cs = map campaign_arn ms"
proof -
  have "built_from (ms ! k) (cs ! k)" if "k < length cs" for k using assms(1) that by (simp add: list_all2_conv_all_nth)
  then have k: "scheme_good (cs ! k) \<and> schCollectionSchemeID (cs ! k) = campaign_arn (ms ! k)" if "k < length cs" for k
    using built_scheme_good [of "ms ! k" "cs ! k"] assms that nth_mem [of k ms] list_all2_lengthD [OF assms(1)] by (simp add: messages_ok_def)
  then show "\<forall>c \<in> set cs. scheme_good c" by (auto simp: in_set_conv_nth)
  show "map schCollectionSchemeID cs = map campaign_arn ms"
    using k list_all2_lengthD [OF assms(1)] by (auto intro: nth_equalityI)
qed

lemma list_build_good:
  assumes "doubles env" "document_ok env (lstBinaryData l)" "list_ok l"
  shows "\<exists>ok l'. list_build (envGrow env) (envParseList env) l = Inr (ok, l') \<and> list_ok l' \<and> lstBinaryData l' = lstBinaryData l"
proof (cases "lstBinaryData l = [] \<or> envParseList env (lstBinaryData l) = None")
  case True
  then show ?thesis using assms(3) by (auto simp: list_build_def)
next
  case False
  then obtain msgs where msgs: "envParseList env (lstBinaryData l) = Some msgs" by blast
  have grow: "\<forall>n. 2 * n \<le> envGrow env n" using assms(1) by (simp add: doubles_def)
  obtain ss where ss: "build_schemes (envGrow env) msgs = Inr ss" "list_all2 built_from (filter msg_valid msgs) ss"
    using build_schemes_ok [OF grow, of msgs] by blast
  have m: "messages_ok (filter msg_valid msgs)" using assms(2) msgs False by (simp add: document_ok_def)
  note good = built_list_good [OF ss(2) _ m]
  have "length ss \<le> MAX_SCHEMES" using m list_all2_lengthD [OF ss(2)] by (simp add: messages_ok_def)
  then have "list_ok (l\<lparr>lstReady := True, lstSchemes := ss\<rparr>)"
    using good m by (simp add: list_ok_def getCollectionSchemes_def messages_ok_def)
  then show ?thesis using False msgs ss(1) by (auto simp: list_build_def)
qed

section \<open>Timelines that are well-formed\<close>

definition all_schemes :: "timeline \<Rightarrow> CollectionScheme set" where
  "all_schemes s = ran (enabled s) \<union> ran (idle s)"

definition all_ids :: "timeline \<Rightarrow> string set" where
  "all_ids s = dom (enabled s) \<union> dom (idle s)"

definition sched_ok :: "timeline \<Rightarrow> bool" where
  "sched_ok s \<longleftrightarrow> timeline_ok s \<and> card (all_ids s) \<le> MAX_SCHEMES \<and>
     (\<forall>c \<in> all_schemes s. scheme_good c \<and> schDecoderManifestID c = currentDecoderManifestID s)"

lemma finite_all_ids [simp]: "finite (all_ids s)"
  by (simp add: all_ids_def finite_dom_map_of)

lemma sched_ok_none: "no_schemes s \<Longrightarrow> sorted (mTimeLine s) \<Longrightarrow> sched_ok s"
  by (simp add: sched_ok_def timeline_ok_no_schemes all_ids_def all_schemes_def no_schemes_def)

lemma update_loop_config: "same_config s (snd (snd (update_loop t cs ret s)))"
proof (induction cs arbitrary: ret s)
  case (Cons c cs)
  obtain r1 s1 where u: "update_scheme t c ret s = (r1, s1)" by (cases "update_scheme t c ret s")
  have "same_config s s1" using update_scheme_config [of s t c ret] u by simp
  then show ?case using u Cons.IH [of s1 r1] cleanup_config [of s] by (simp add: same_config_def)
qed simp

lemma update_config: "same_config s (snd (updateMapsandTimeLine l t s))"
proof (cases l)
  case (Some x)
  show ?thesis
  proof (cases "update_loop t (getCollectionSchemes x) False s")
    case (fields b r s1)
    then show ?thesis using Some update_loop_config [of s t "getCollectionSchemes x" False]
      by (simp add: updateMapsandTimeLine_def Let_def same_config_def)
  qed
qed (simp add: updateMapsandTimeLine_def)

lemma list_matches:
  "list_ok l \<Longrightarrow> \<not> mismatch manifest (getCollectionSchemes l) \<Longrightarrow> schemes_ok manifest (getCollectionSchemes l)"
  by (auto simp: list_ok_def schemes_ok_def mismatch_def scheme_good_def)

lemma scheme_for_member: "scheme_for cs i = Some c \<Longrightarrow> c \<in> set cs"
  by (induction cs) (auto split: if_splits)

lemma upd_from: "upd_enabled t c e = Some x \<Longrightarrow> x = c \<or> e = Some x" "upd_idle t c e d = Some x \<Longrightarrow> x = c \<or> d = Some x"
  by (cases e; auto split: if_splits) (cases e; cases d; auto split: if_splits)

text \<open>Maps whose entries come from a list or from before.\<close>

lemma sched_ok_from:
  assumes "timeline_ok s'" "same_config s s'" "sched_ok s" "list_ok l" "\<not> mismatch (currentDecoderManifestID s) (getCollectionSchemes l)"
    and "\<And>i c. enabled s' i = Some c \<or> idle s' i = Some c \<Longrightarrow>
       scheme_for (getCollectionSchemes l) i \<noteq> None \<and> (c \<in> set (getCollectionSchemes l) \<or> c \<in> all_schemes s)"
  shows "sched_ok s'"
proof -
  have "all_ids s' \<subseteq> set (map schCollectionSchemeID (getCollectionSchemes l))"
  proof
    fix i assume "i \<in> all_ids s'"
    then obtain c where "enabled s' i = Some c \<or> idle s' i = Some c" by (auto simp: all_ids_def)
    then have "scheme_for (getCollectionSchemes l) i \<noteq> None" using assms(6) by blast
    then show "i \<in> set (map schCollectionSchemeID (getCollectionSchemes l))" using scheme_for_None [of "getCollectionSchemes l" i] by simp
  qed
  then have "card (all_ids s') \<le> card (set (map schCollectionSchemeID (getCollectionSchemes l)))" by (intro card_mono) simp_all
  also have "\<dots> \<le> length (getCollectionSchemes l)" using card_length [of "map schCollectionSchemeID (getCollectionSchemes l)"] by simp
  also have "\<dots> \<le> MAX_SCHEMES" using assms(4) by (simp add: list_ok_def)
  finally have few: "card (all_ids s') \<le> MAX_SCHEMES" .
  have "scheme_good c \<and> schDecoderManifestID c = currentDecoderManifestID s'" if "c \<in> all_schemes s'" for c
  proof -
    have mem: "c \<in> ran (enabled s') \<or> c \<in> ran (idle s')" using that by (simp add: all_schemes_def)
    obtain i where "enabled s' i = Some c \<or> idle s' i = Some c" using mem unfolding ran_def by blast
    then have "c \<in> set (getCollectionSchemes l) \<or> c \<in> all_schemes s" using assms(6) by blast
    then show ?thesis using assms(2-5) by (auto simp: list_ok_def mismatch_def sched_ok_def same_config_def)
  qed
  then show ?thesis using assms(1) few by (simp add: sched_ok_def)
qed

lemma sched_ok_cleanup: "sched_ok s \<Longrightarrow> sched_ok (cleanupCollectionSchemes s)"
  using cleanup_ok [of s] timeline_ok_no_schemes [OF cleanup_no_schemes [of s]] sched_ok_none [OF cleanup_no_schemes [of s]]
  by (simp add: sched_ok_def)

lemma update_sched_ok:
  assumes "sched_ok s" "list_ok l"
  shows "sched_ok (snd (updateMapsandTimeLine (Some l) t s))"
proof (cases "mismatch (currentDecoderManifestID s) (getCollectionSchemes l)")
  case False
  have ok: "schemes_ok (currentDecoderManifestID s) (getCollectionSchemes l)" by (rule list_matches [OF assms(2) False])
  have tl: "timeline_ok s" using assms(1) by (simp add: sched_ok_def)
  obtain ret s' where u: "updateMapsandTimeLine (Some l) t s = (ret, s')" "timeline_ok s'"
    "\<forall>i. enabled s' i = (case scheme_for (getCollectionSchemes l) i of None \<Rightarrow> None | Some c \<Rightarrow> upd_enabled t c (enabled s i))"
    "\<forall>i. idle s' i = (case scheme_for (getCollectionSchemes l) i of None \<Rightarrow> None | Some c \<Rightarrow> upd_idle t c (enabled s i) (idle s i))"
    using update_ok [OF tl ok, of t] by blast
  have cfg: "same_config s s'" using update_config [of s "Some l" t] u(1) by simp
  have "sched_ok s'"
  proof (rule sched_ok_from [OF u(2) cfg assms False])
    fix i c assume a: "enabled s' i = Some c \<or> idle s' i = Some c"
    show "scheme_for (getCollectionSchemes l) i \<noteq> None \<and> (c \<in> set (getCollectionSchemes l) \<or> c \<in> all_schemes s)"
    proof (cases "scheme_for (getCollectionSchemes l) i")
      case None
      then show ?thesis using a u(3,4) by simp
    next
      case (Some d)
      then have "c = d \<or> enabled s i = Some c \<or> idle s i = Some c" using a u(3,4) upd_from by fastforce
      then show ?thesis using Some scheme_for_member [OF Some] by (auto simp: all_schemes_def ran_def)
    qed
  qed
  then show ?thesis using u(1) by simp
next
  case True
  obtain s1 where u: "update_loop t (getCollectionSchemes l) False s = (False, False, s1)" "no_schemes s1"
    using update_loop_mismatch [OF True, of t False] by blast
  have "timeline_ok s1"
    using update_loop_keeps [of s "getCollectionSchemes l" t False] u(1) assms by (simp add: sched_ok_def list_ok_def scheme_good_def)
  then have "sched_ok s1" using u(2) sched_ok_none timeline_ok_no_schemes by blast
  then show ?thesis using u(1) by (simp add: updateMapsandTimeLine_def)
qed

lemma rebuild_sched_ok:
  assumes "sched_ok s" "no_schemes s" "\<And>x. l = Some x \<Longrightarrow> list_ok x"
  shows "sched_ok (snd (rebuildMapsandTimeLine l t s))" "same_config s (snd (rebuildMapsandTimeLine l t s))"
proof -
  have "sched_ok (snd (rebuildMapsandTimeLine l t s)) \<and> same_config s (snd (rebuildMapsandTimeLine l t s))"
  proof (cases l)
    case None
    then show ?thesis using assms(1) by (simp add: rebuildMapsandTimeLine_def)
  next
    case (Some x)
    let ?cs = "getCollectionSchemes x"
    have ok: "list_ok x" using assms(3) Some by blast
    have tl: "timeline_ok s" "\<forall>c \<in> set ?cs. scheme_ok c" "distinct (map schCollectionSchemeID ?cs)" "fresh_for ?cs s"
      using assms(1,2) ok by (simp_all add: sched_ok_def list_ok_def scheme_good_def fresh_for_def no_schemes_def)
    have eq: "rebuildMapsandTimeLine l t s = snd (update_loop t ?cs False s)"
      using rebuild_loop_update [OF tl, of t False] Some by (simp add: rebuildMapsandTimeLine_def)
    have cfg: "same_config s (snd (snd (update_loop t ?cs False s)))" by (rule update_loop_config)
    have "sched_ok (snd (snd (update_loop t ?cs False s)))"
    proof (cases "mismatch (currentDecoderManifestID s) ?cs")
      case True
      obtain s1 where u: "update_loop t ?cs False s = (False, False, s1)" "no_schemes s1"
        using update_loop_mismatch [OF True, of t False] by blast
      have "timeline_ok s1" using update_loop_keeps [OF tl(1,2), of t False] u(1) by simp
      then show ?thesis using u sched_ok_none timeline_ok_no_schemes by simp
    next
      case False
      obtain ret s' where u: "update_loop t ?cs False s = (True, ret, s')" "timeline_ok s'"
        "enabled s' = listed_enabled t ?cs s" "idle s' = listed_idle t ?cs s"
        using update_loop_ok [OF tl(1) list_matches [OF ok False], of t False] by blast
      have "sched_ok s'"
      proof (rule sched_ok_from [OF u(2) _ assms(1) ok False])
        show "same_config s s'" using cfg u(1) by simp
        fix i c assume a: "enabled s' i = Some c \<or> idle s' i = Some c"
        show "scheme_for ?cs i \<noteq> None \<and> (c \<in> set ?cs \<or> c \<in> all_schemes s)"
        proof (cases "scheme_for ?cs i")
          case None
          then show ?thesis using a u(3,4) assms(2) by (simp add: listed_enabled_def listed_idle_def no_schemes_def)
        next
          case (Some d)
          have "upd_enabled t d None = Some c \<or> upd_idle t d None None = Some c"
            using a u(3,4) assms(2) Some by (simp add: listed_enabled_def listed_idle_def no_schemes_def)
          then have "c = d" using upd_from [of t d] by blast
          then show ?thesis using Some scheme_for_member [OF Some] by simp
        qed
      qed
      then show ?thesis using u(1) by simp
    qed
    then show ?thesis using eq cfg by simp
  qed
  then show "sched_ok (snd (rebuildMapsandTimeLine l t s))" "same_config s (snd (rebuildMapsandTimeLine l t s))" by simp_all
qed

text \<open>The pass over the timeline moves and drops schemes, and adds none.\<close>

lemma pick_from: "pick_enabled t e d = Some c \<Longrightarrow> e = Some c \<or> d = Some c" "pick_idle t d = Some c \<Longrightarrow> d = Some c"
  by (cases e; cases d; auto split: if_splits) (cases d; auto split: if_splits)

lemma check_sched_ok:
  assumes "sched_ok s" "clock_ok t s"
  shows "\<exists>ret s'. checkTimeLine delivered t s = Some (ret, s') \<and> sched_ok s' \<and> same_config s s'"
proof -
  have tl: "timeline_ok s" using assms(1) by (simp add: sched_ok_def)
  obtain ret s' where r: "checkTimeLine delivered t s = Some (ret, s')" "pass_so_far t s ret s'"
    "mTimeLine s' = [] \<or> t < tdTime (hd (mTimeLine s'))"
    using checkTimeLine_pass [OF tl assms(2)] by blast
  have cfg: "timeline_ok s'" "same_config s s'" using r(2) by (simp_all add: pass_so_far_def)
  have maps: "enabled s' = enabled_at t s" "idle s' = idle_at t s" using ahead [OF cfg(1) r(3)] r(2) by (simp_all add: pass_so_far_def)
  have "enabled s i = Some c \<or> idle s i = Some c" if "enabled s' i = Some c \<or> idle s' i = Some c" for i c
    using that pick_from unfolding maps enabled_at_def idle_at_def by blast
  then have "all_ids s' \<subseteq> all_ids s" "all_schemes s' \<subseteq> all_schemes s"
    by (force simp: all_ids_def all_schemes_def ran_def)+
  then have "sched_ok s'" using assms(1) cfg card_mono [OF finite_all_ids [of s], of "all_ids s'"]
    by (auto simp: sched_ok_def same_config_def)
  then show ?thesis using r(1) cfg(2) by blast
qed

section \<open>The manager\<close>

definition manager_ok :: "manager \<Rightarrow> bool" where
  "manager_ok m \<longleftrightarrow> sched_ok (mgrTimeline m) \<and> (\<forall>l. mCollectionSchemeList m = Some l \<longrightarrow> list_ok l) \<and>
     (\<forall>l. mCollectionSchemeListInput m = Some l \<longrightarrow> list_ok l) \<and>
     (mUseLocalDictionary m \<or> currentDecoderManifestID (mgrTimeline m) = [] \<or> mDecoderManifest m \<noteq> None)"

text \<open>What a step leaves alone.\<close>

definition same_setup :: "manager \<Rightarrow> manager \<Rightarrow> bool" where
  "same_setup m m' \<longleftrightarrow> mCheckinIntervalInMsec (mgrTimeline m') = mCheckinIntervalInMsec (mgrTimeline m) \<and>
     mUseLocalDictionary m' = mUseLocalDictionary m"

lemma new_manager_ok: "manager_ok (new_manager [] local p)"
  by (simp add: manager_ok_def new_manager_def new_timeline_def sched_ok_none no_schemes_def)

lemma callbacks_ok:
  assumes "manager_ok m"
  shows "manager_ok (collection_scheme_list_received buf m)" "manager_ok (decoder_manifest_received buf m)" "manager_ok (updateAvailable m)"
proof -
  show "manager_ok (collection_scheme_list_received buf m)"
    using assms list_ok_copy [of buf new_list]
    by (auto simp: collection_scheme_list_received_def onCollectionSchemeUpdate_def manager_ok_def split: prod.split)
  show "manager_ok (decoder_manifest_received buf m)"
    using assms by (auto simp: decoder_manifest_received_def onDecoderManifestUpdate_def manager_ok_def split: prod.split)
  show "manager_ok (updateAvailable m)" using assms by (auto simp: updateAvailable_def manager_ok_def Let_def)
qed

lemma store_document_fields [simp]:
  "mgrTimeline (store_document env d m) = mgrTimeline m" "mCollectionSchemeList (store_document env d m) = mCollectionSchemeList m"
  "mCollectionSchemeListInput (store_document env d m) = mCollectionSchemeListInput m"
  "mDecoderManifest (store_document env d m) = mDecoderManifest m" "mUseLocalDictionary (store_document env d m) = mUseLocalDictionary m"
  "published (store_document env d m) = published m" "mProcessCollectionScheme (store_document env d m) = mProcessCollectionScheme m"
  by (simp_all add: store_document_def split: option.split)

lemma retrieve_document_ok:
  assumes "manager_ok m" shows "manager_ok (snd (retrieve_document env d m))"
proof -
  have "list_ok (snd (list_copyData b l))" for b l by (rule list_ok_copy)
  then show ?thesis using assms by (auto simp: retrieve_document_def manager_ok_def Let_def split: option.split prod.split)
qed

lemma start_ok:
  assumes "manager_ok m" shows "manager_ok (manager_start env t m)"
proof -
  have "timeline_ok (prepareCheckinTimer t s)" if "timeline_ok s" for s
  proof -
    have "needed (prepareCheckinTimer t s) d = needed s d" for d by (simp add: needed_def prepareCheckinTimer_def)
    then show ?thesis using that by (auto simp: timeline_ok_def maps_ok_def events_ok_def prepareCheckinTimer_def sorted_insort intro: le_SucI)
  qed
  then have "manager_ok (m\<lparr>mgrTimeline := prepareCheckinTimer t (mgrTimeline m)\<rparr>)"
    using assms by (auto simp: manager_ok_def sched_ok_def all_ids_def all_schemes_def prepareCheckinTimer_def push_event_def)
  then show ?thesis using retrieve_document_ok by (simp add: manager_start_def Let_def)
qed

lemma loaded_iff: "isCollectionSchemeLoaded s \<longleftrightarrow> \<not> no_schemes s"
  by (simp add: isCollectionSchemeLoaded_def no_schemes_def)

lemma timeline_ok_manifest [simp]: "timeline_ok (s\<lparr>currentDecoderManifestID := x\<rparr>) = timeline_ok s"
  by (simp add: timeline_ok_def maps_ok_def events_ok_def needed_def)

lemma no_schemes_manifest [simp]: "no_schemes (s\<lparr>currentDecoderManifestID := x\<rparr>) = no_schemes s"
  by (simp add: no_schemes_def)

lemma sched_ok_manifest: "timeline_ok s \<Longrightarrow> no_schemes s \<Longrightarrow> sched_ok s"
  using sched_ok_none timeline_ok_no_schemes by blast

lemma processDecoderManifest_ok:
  assumes "manager_ok m"
  shows "manager_ok (snd (processDecoderManifest env t m))" "same_setup m (snd (processDecoderManifest env t m))"
    "mProcessCollectionScheme (snd (processDecoderManifest env t m)) = mProcessCollectionScheme m"
proof -
  have s: "sched_ok (mgrTimeline m)" "timeline_ok (mgrTimeline m)" using assms by (simp_all add: manager_ok_def sched_ok_def)
  have "manager_ok (snd (processDecoderManifest env t m)) \<and> same_setup m (snd (processDecoderManifest env t m)) \<and>
      mProcessCollectionScheme (snd (processDecoderManifest env t m)) = mProcessCollectionScheme m"
  proof (cases "mDecoderManifest m")
    case None
    then show ?thesis using assms by (simp add: processDecoderManifest_def same_setup_def)
  next
    case (Some d0)
    obtain ok d where b: "manifest_build (envParseManifest env) d0 = (ok, d)" by (cases "manifest_build (envParseManifest env) d0")
    show ?thesis
    proof (cases "ok \<and> getID d \<noteq> currentDecoderManifestID (mgrTimeline m)")
      case False
      then have "processDecoderManifest env t m = (False, m\<lparr>mDecoderManifest := Some d\<rparr>)"
        using Some b by (auto simp: processDecoderManifest_def Let_def)
      then show ?thesis using assms by (simp add: same_setup_def manager_ok_def)
    next
      case True
      let ?s = "(mgrTimeline m)\<lparr>currentDecoderManifestID := getID d\<rparr>"
      have "sched_ok (cleanupCollectionSchemes ?s)" by (rule sched_ok_manifest) (simp_all add: cleanup_ok s(2))
      moreover have "mCheckinIntervalInMsec (cleanupCollectionSchemes ?s) = mCheckinIntervalInMsec (mgrTimeline m)"
        using cleanup_config [of ?s] by (simp add: same_config_def)
      moreover have "sched_ok (snd (rebuildMapsandTimeLine (mCollectionSchemeList m) t ?s)) \<and>
          mCheckinIntervalInMsec (snd (rebuildMapsandTimeLine (mCollectionSchemeList m) t ?s)) = mCheckinIntervalInMsec (mgrTimeline m)"
        if "no_schemes (mgrTimeline m)"
        using rebuild_sched_ok [of ?s "mCollectionSchemeList m" t] sched_ok_manifest [of ?s] s(2) that assms
        by (simp add: manager_ok_def same_config_def)
      moreover define m1 where "m1 = store_document env DECODER_MANIFEST
          (m\<lparr>mDecoderManifest := Some d, mgrTimeline := ?s\<rparr>)"
      have "processDecoderManifest env t m =
          (if no_schemes (mgrTimeline m) then on_timeline (rebuildMapsandTimeLine (mCollectionSchemeList m) t ?s) m1
           else (False, m1\<lparr>mgrTimeline := cleanupCollectionSchemes ?s\<rparr>))"
        using Some b True by (simp add: processDecoderManifest_def Let_def loaded_iff m1_def)
      moreover have "mCollectionSchemeList m1 = mCollectionSchemeList m" "mCollectionSchemeListInput m1 = mCollectionSchemeListInput m"
        "mDecoderManifest m1 = Some d" "mUseLocalDictionary m1 = mUseLocalDictionary m" "mProcessCollectionScheme m1 = mProcessCollectionScheme m"
        by (simp_all add: m1_def)
      ultimately show ?thesis using assms by (simp add: on_timeline_def manager_ok_def same_setup_def)
    qed
  qed
  then show "manager_ok (snd (processDecoderManifest env t m))" "same_setup m (snd (processDecoderManifest env t m))"
    "mProcessCollectionScheme (snd (processDecoderManifest env t m)) = mProcessCollectionScheme m" by simp_all
qed

lemma processCollectionScheme_ok:
  assumes "doubles env" "held_ok env m" "manager_ok m"
  shows "\<exists>c m'. processCollectionScheme env t m = Inr (c, m') \<and> manager_ok m' \<and> same_setup m m'"
proof (cases "mCollectionSchemeList m")
  case None
  then show ?thesis using assms(3) by (auto simp: processCollectionScheme_def same_setup_def)
next
  case (Some l0)
  then have "list_ok l0" using assms(3) by (simp add: manager_ok_def)
  then obtain ok l where b: "list_build (envGrow env) (envParseList env) l0 = Inr (ok, l)" "list_ok l"
    using list_build_good [OF assms(1), of l0] assms(2) Some by (auto simp: held_ok_def)
  have s: "sched_ok (mgrTimeline m)" using assms(3) by (simp add: manager_ok_def)
  note upd = update_sched_ok [OF s b(2), of t] update_config [of "mgrTimeline m" "Some l" t]
  note reb = rebuild_sched_ok [OF s _, of "Some l" t]
  define m1 where "m1 = store_document env COLLECTION_SCHEME_LIST (m\<lparr>mCollectionSchemeList := Some l\<rparr>)"
  have m1: "mgrTimeline m1 = mgrTimeline m" "mCollectionSchemeList m1 = Some l" "mCollectionSchemeListInput m1 = mCollectionSchemeListInput m"
    "mDecoderManifest m1 = mDecoderManifest m" "mUseLocalDictionary m1 = mUseLocalDictionary m"
    by (simp_all add: m1_def)
  have "processCollectionScheme env t m = Inr
      (if \<not> ok then (False, m\<lparr>mCollectionSchemeList := Some l\<rparr>)
       else if no_schemes (mgrTimeline m) then on_timeline (rebuildMapsandTimeLine (Some l) t (mgrTimeline m)) m1
       else on_timeline (updateMapsandTimeLine (Some l) t (mgrTimeline m)) m1)"
    using Some b(1) by (simp add: processCollectionScheme_def Let_def loaded_iff m1_def)
  moreover have "manager_ok (snd (on_timeline r m1)) \<and> same_setup m (snd (on_timeline r m1))"
    if "sched_ok (snd r)" "same_config (mgrTimeline m) (snd r)" for r
    using that assms(3) b(2) m1 by (simp add: on_timeline_def manager_ok_def same_setup_def same_config_def)
  moreover have "manager_ok (m\<lparr>mCollectionSchemeList := Some l\<rparr>) \<and> same_setup m (m\<lparr>mCollectionSchemeList := Some l\<rparr>)"
    using assms(3) b(2) by (simp add: manager_ok_def same_setup_def)
  moreover have "list_ok x" if "Some l = Some x" for x using that b(2) by simp
  ultimately show ?thesis using upd reb
    by (cases "ok"; cases "no_schemes (mgrTimeline m)"; simp) (metis prod.collapse)+
qed

text \<open>The documents held stay those that arrived.\<close>

lemma list_copy_binary: "lstBinaryData (snd (list_copyData b l)) \<in> {b, lstBinaryData l}"
  by (simp add: list_copyData_def Let_def)

lemma callbacks_held:
  assumes "held_ok env m"
  shows "document_ok env buf \<Longrightarrow> held_ok env (collection_scheme_list_received buf m)"
    "held_ok env (decoder_manifest_received buf m)" "held_ok env (updateAvailable m)"
proof -
  show "held_ok env (collection_scheme_list_received buf m)" if "document_ok env buf"
    using assms that list_copy_binary [of buf new_list]
    by (auto simp: collection_scheme_list_received_def onCollectionSchemeUpdate_def held_ok_def list_copyData_def Let_def split: prod.split)
  show "held_ok env (decoder_manifest_received buf m)"
    using assms by (auto simp: decoder_manifest_received_def onDecoderManifestUpdate_def held_ok_def split: prod.split)
  show "held_ok env (updateAvailable m)" using assms by (auto simp: updateAvailable_def held_ok_def Let_def)
qed

lemma processDecoderManifest_held: "held_ok env (snd (processDecoderManifest env t m)) = held_ok env m"
  by (auto simp: processDecoderManifest_def Let_def on_timeline_def held_ok_def split: option.split prod.split)

lemma list_build_binary: "list_build grow parse l = Inr (ok, l') \<Longrightarrow> lstBinaryData l' = lstBinaryData l"
  by (auto simp: list_build_def ub_bind_eq_Inr split: if_splits option.splits)

lemma processCollectionScheme_held:
  assumes "processCollectionScheme env t m = Inr (c, m')" "held_ok env m" shows "held_ok env m'"
  using assms list_build_binary
  by (fastforce simp: processCollectionScheme_def Let_def on_timeline_def ub_bind_eq_Inr held_ok_def
      split: option.splits prod.splits if_splits)

section \<open>Extraction\<close>

lemma good_trees:
  assumes "\<forall>c \<in> set ss. scheme_good c"
  obtains Ts where "denote_all ss (map Some Ts)" "sum_list (map (node_count \<circ> Some) Ts) \<le> length ss * 2 ^ 10"
proof -
  have "\<exists>Ts. denote_all ss (map Some Ts) \<and> sum_list (map (node_count \<circ> Some) Ts) \<le> length ss * 2 ^ 10" using assms
  proof (induction ss)
    case Nil
    show ?case by (intro exI [of _ "[]"]) (simp add: denote_all_def)
  next
    case (Cons c ss)
    have "\<forall>c \<in> set ss. scheme_good c" using Cons.prems by simp
    from Cons.IH [OF this] obtain Ts where Ts: "denote_all ss (map Some Ts)" "sum_list (map (node_count \<circ> Some) Ts) \<le> length ss * 2 ^ 10"
      by blast
    obtain T where T: "denotes (at_index (schExpressionNodes c)) (schCondition c) (Some T)" "node_count (Some T) < 2 ^ 10"
      using Cons.prems by (auto simp: scheme_good_def)
    have "denote_all (c # ss) (map Some (T # Ts))"
      using Ts(1) T(1) by (auto simp: denote_all_def nth_Cons split: nat.split)
    moreover have "sum_list (map (node_count \<circ> Some) (T # Ts)) \<le> length (c # ss) * 2 ^ 10" using Ts(2) T(2) by (simp add: comp_def)
    ultimately show ?case by blast
  qed
  then show thesis using that by blast
qed

lemma enabled_members:
  assumes "sched_ok s"
  shows "\<forall>c \<in> set (map snd (mEnabledCollectionSchemeMap s)). scheme_good c \<and> schDecoderManifestID c = currentDecoderManifestID s"
    "length (mEnabledCollectionSchemeMap s) \<le> MAX_SCHEMES"
proof -
  have ok: "omap_ok (mEnabledCollectionSchemeMap s)" using assms by (simp add: sched_ok_def timeline_ok_def maps_ok_def)
  then have dist: "distinct (map fst (mEnabledCollectionSchemeMap s))" by (simp add: omap_ok_def strict_sorted_iff)
  have "c \<in> all_schemes s" if "(i, c) \<in> set (mEnabledCollectionSchemeMap s)" for i c
    using that dist by (auto simp: all_schemes_def ran_def)
  then show "\<forall>c \<in> set (map snd (mEnabledCollectionSchemeMap s)). scheme_good c \<and> schDecoderManifestID c = currentDecoderManifestID s"
    using assms by (auto simp: sched_ok_def)
  have "length (mEnabledCollectionSchemeMap s) = card (dom (enabled s))"
    using dist distinct_card [OF dist] by (simp add: dom_map_of_conv_image_fst)
  also have "\<dots> \<le> card (all_ids s)" by (rule card_mono [OF finite_all_ids]) (simp add: all_ids_def)
  finally show "length (mEnabledCollectionSchemeMap s) \<le> MAX_SCHEMES" using assms by (simp add: sched_ok_def)
qed

lemma extraction_ok:
  assumes "manager_ok m"
  shows "\<exists>g d. extract_and_publish env m = Some (Inr (m\<lparr>published := published m @ [(g, d)]\<rparr>)) \<and>
     map snd (mgConditions g) = map (addConditionData (envIDs env)) (map snd (mEnabledCollectionSchemeMap (mgrTimeline m)))"
proof -
  let ?m = "mEnabledCollectionSchemeMap (mgrTimeline m)"
  have s: "sched_ok (mgrTimeline m)" using assms by (simp add: manager_ok_def)
  note mem = enabled_members [OF s]
  have good: "\<forall>c \<in> set (map snd ?m). scheme_good c" using mem(1) by blast
  obtain Ts where Ts: "denote_all (map snd ?m) (map Some Ts)" "sum_list (map (node_count \<circ> Some) Ts) \<le> length (map snd ?m) * 2 ^ 10"
    by (rule good_trees [OF good])
  have "length (map snd ?m) * 2 ^ 10 \<le> MAX_SCHEMES * 2 ^ 10" using mem(2) by simp
  also have "\<dots> < 2 ^ 32" by (simp add: MAX_SCHEMES_def)
  finally have few: "sum_list (map (node_count \<circ> Some) Ts) < 2 ^ 32" using Ts(2) by linarith
  obtain g where g: "inspectionMatrixExtractor (envIDs env) ?m = Some (Inr g)"
    "map snd (mgConditions g) = map (addConditionData (envIDs env)) (map snd ?m)"
    using extractor_denotes [OF Ts(1) few, of "envIDs env"] by blast
  have "\<exists>d. extract_dictionaries env m = Inr d"
  proof (cases "mUseLocalDictionary m \<or> mDecoderManifest m \<noteq> None")
    case True
    then show ?thesis by (auto simp: extract_dictionaries_def Let_def)
  next
    case False
    then have "currentDecoderManifestID (mgrTimeline m) = []" using assms by (simp add: manager_ok_def)
    then have "?m = []" using mem(1) by (cases ?m) (auto simp: scheme_good_def)
    then show ?thesis using False by (simp add: extract_dictionaries_def Let_def)
  qed
  then obtain d where "extract_dictionaries env m = Inr d" by blast
  then have "extract_and_publish env m = Some (Inr (m\<lparr>published := published m @ [(g, d)]\<rparr>))"
    using g(1) by (simp add: extract_and_publish_def)
  then show ?thesis using g(2) by blast
qed

section \<open>A round of the thread\<close>

definition clocks_ok :: "round_times \<Rightarrow> manager \<Rightarrow> bool" where
  "clocks_ok ts m \<longleftrightarrow> clock_ok (checkTime ts) (mgrTimeline m)"

lemma process_documents_ok:
  assumes "doubles env" "held_ok env m" "manager_ok m"
  shows "\<exists>c m'. process_documents env ts m = Inr (c, m') \<and> manager_ok m' \<and> same_setup m m' \<and> held_ok env m'"
proof -
  have "manager_ok (m\<lparr>mProcessDecoderManifest := False\<rparr>)" using assms(3) by (simp add: manager_ok_def)
  note pd = processDecoderManifest_ok [OF this, of env "manifestTime ts"]
  obtain c1 m1 where m1: "(if mProcessDecoderManifest m
      then processDecoderManifest env (manifestTime ts) (m\<lparr>mProcessDecoderManifest := False\<rparr>) else (False, m)) = (c1, m1)" by force
  have ok1: "manager_ok m1" "same_setup m m1"
    using m1 pd assms(3) by (auto simp: same_setup_def split: if_splits)
  have held: "held_ok env m1"
    using m1 processDecoderManifest_held [of env "manifestTime ts" "m\<lparr>mProcessDecoderManifest := False\<rparr>"] assms(2)
    by (auto simp: held_ok_def split: if_splits)
  then have held': "held_ok env (m1\<lparr>mProcessCollectionScheme := False\<rparr>)" by (simp add: held_ok_def)
  have "manager_ok (m1\<lparr>mProcessCollectionScheme := False\<rparr>)" using ok1(1) by (simp add: manager_ok_def)
  then obtain c2 m2 where m2: "processCollectionScheme env (schemeTime ts) (m1\<lparr>mProcessCollectionScheme := False\<rparr>) = Inr (c2, m2)"
    "manager_ok m2" "same_setup (m1\<lparr>mProcessCollectionScheme := False\<rparr>) m2"
    using processCollectionScheme_ok [OF assms(1) held'] by blast
  have "held_ok env m2" by (rule processCollectionScheme_held [OF m2(1) held'])
  then show ?thesis using m1 ok1 m2 held by (cases "mProcessCollectionScheme m1") (simp_all add: process_documents_def same_setup_def)
qed

text \<open>A round ends, nothing in it is undefined, and the state is well-formed again.\<close>

lemma work_round_safe:
  assumes "doubles env" "held_ok env m" "manager_ok m" "clocks_ok ts m"
  shows "\<exists>w m'. work_round env ts m = Some (Inr (w, m')) \<and> manager_ok m' \<and> same_setup m m' \<and> held_ok env m'"
proof -
  obtain c m1 where m1: "process_documents env ts m = Inr (c, m1)" "manager_ok m1" "same_setup m m1" "held_ok env m1"
    using process_documents_ok [OF assms(1-3)] by blast
  have "clock_ok (checkTime ts) (mgrTimeline m1)" using assms(4) m1(3) by (simp add: clocks_ok_def clock_ok_def same_setup_def)
  then obtain c' s where s: "checkTimeLine (envDelivered env) (checkTime ts) (mgrTimeline m1) = Some (c', s)" "sched_ok s"
    "same_config (mgrTimeline m1) s"
    using check_sched_ok [of "mgrTimeline m1" "checkTime ts" "envDelivered env"] m1(2) unfolding manager_ok_def by blast
  let ?m = "m1\<lparr>mgrTimeline := s\<rparr>"
  have ok: "manager_ok ?m" using m1(2) s(2,3) by (simp add: manager_ok_def same_config_def)
  have su: "same_setup m ?m" using m1(3) s(3) by (simp add: same_setup_def same_config_def)
  obtain g d where x: "extract_and_publish env ?m = Some (Inr (?m\<lparr>published := published ?m @ [(g, d)]\<rparr>))"
    using extraction_ok [OF ok] by blast
  have ok': "manager_ok (?m\<lparr>published := published ?m @ [(g, d)]\<rparr>)" using ok by (simp add: manager_ok_def)
  have held: "held_ok env ?m" "held_ok env (?m\<lparr>published := published ?m @ [(g, d)]\<rparr>)" using m1(4) by (simp_all add: held_ok_def)
  show ?thesis using m1(1) s(1) x ok ok' su held
    by (cases "c \<or> c'") (auto simp: work_round_def same_setup_def)
qed

text \<open>What a round publishes.\<close>

definition publishes :: "environment \<Rightarrow> manager \<Rightarrow> manager \<Rightarrow> bool" where
  "publishes env m m' \<longleftrightarrow> (\<exists>g d. published m' = published m @ [(g, d)] \<and>
     map snd (mgConditions g) = map (addConditionData (envIDs env)) (map snd (mEnabledCollectionSchemeMap (mgrTimeline m'))))"

lemma process_published:
  "published (snd (processDecoderManifest env t m)) = published m"
  "processCollectionScheme env t m = Inr (c, m') \<Longrightarrow> published m' = published m"
proof -
  show "published (snd (processDecoderManifest env t m)) = published m"
    by (auto simp: processDecoderManifest_def Let_def on_timeline_def split: option.split prod.split)
  show "published m' = published m" if "processCollectionScheme env t m = Inr (c, m')"
    using that by (auto simp: processCollectionScheme_def Let_def on_timeline_def ub_bind_eq_Inr split: option.splits prod.splits if_splits)
qed

lemma process_documents_published:
  assumes "process_documents env ts m = Inr (c, m')" shows "published m' = published m"
proof -
  obtain c1 m1 where m1: "(if mProcessDecoderManifest m
      then processDecoderManifest env (manifestTime ts) (m\<lparr>mProcessDecoderManifest := False\<rparr>) else (False, m)) = (c1, m1)" by force
  have p: "published m1 = published m"
    using m1 process_published(1) [of env "manifestTime ts" "m\<lparr>mProcessDecoderManifest := False\<rparr>"] by (auto split: if_splits)
  show ?thesis
  proof (cases "mProcessCollectionScheme m1")
    case True
    then obtain c2 where "processCollectionScheme env (schemeTime ts) (m1\<lparr>mProcessCollectionScheme := False\<rparr>) = Inr (c2, m')"
      using assms m1 by (auto simp: process_documents_def ub_bind_eq_Inr)
    from process_published(2) [OF this] p show ?thesis by simp
  qed (use assms m1 p in \<open>simp add: process_documents_def\<close>)
qed

lemma work_round_published:
  assumes "doubles env" "held_ok env m" "manager_ok m" "clocks_ok ts m" "work_round env ts m = Some (Inr (w, m'))"
  shows "published m' = published m \<or> publishes env m m'"
proof -
  obtain c m1 where m1: "process_documents env ts m = Inr (c, m1)" "manager_ok m1" "same_setup m m1"
    using process_documents_ok [OF assms(1-3)] by blast
  have pub: "published m1 = published m" by (rule process_documents_published [OF m1(1)])
  have "clock_ok (checkTime ts) (mgrTimeline m1)" using assms(4) m1(3) by (simp add: clocks_ok_def clock_ok_def same_setup_def)
  then obtain c' s where s: "checkTimeLine (envDelivered env) (checkTime ts) (mgrTimeline m1) = Some (c', s)" "sched_ok s"
    "same_config (mgrTimeline m1) s"
    using check_sched_ok [of "mgrTimeline m1" "checkTime ts" "envDelivered env"] m1(2) unfolding manager_ok_def by blast
  let ?m = "m1\<lparr>mgrTimeline := s\<rparr>"
  have ok: "manager_ok ?m" using m1(2) s(2,3) by (simp add: manager_ok_def same_config_def)
  obtain g d where x: "extract_and_publish env ?m = Some (Inr (?m\<lparr>published := published ?m @ [(g, d)]\<rparr>))"
    "map snd (mgConditions g) = map (addConditionData (envIDs env)) (map snd (mEnabledCollectionSchemeMap (mgrTimeline ?m)))"
    using extraction_ok [OF ok] by blast
  show ?thesis
  proof (cases "c \<or> c'")
    case True
    then have "m' = ?m\<lparr>published := published ?m @ [(g, d)]\<rparr>" using assms(5) m1(1) s(1) x(1) by (auto simp: work_round_def Let_def)
    then have "publishes env m m'" using x(2) pub by (auto simp: publishes_def)
    then show ?thesis by blast
  next
    case False
    then have "m' = ?m" using assms(5) m1(1) s(1) by (simp add: work_round_def Let_def)
    then show ?thesis using pub by simp
  qed
qed

section \<open>Everything that can happen\<close>

text \<open>
  Documents arrive, the thread picks them up, and it works through a round. A list that does not meet
  what is expected of it is not part of these runs: what the code does then is shown apart
  (\<open>ManagerFaults\<close>).
\<close>

inductive manager_step :: "environment \<Rightarrow> manager \<Rightarrow> manager \<Rightarrow> bool" for env where
  list_arrives: "document_ok env buf \<Longrightarrow> manager_step env m (collection_scheme_list_received buf m)"
| manifest_arrives: "manager_step env m (decoder_manifest_received buf m)"
| wakes: "manager_step env m (updateAvailable m)"
| works: "clocks_ok ts m \<Longrightarrow> work_round env ts m = Some (Inr (w, m')) \<Longrightarrow> manager_step env m m'"

inductive_cases manager_stepE: "manager_step env m m'"

definition started :: "environment \<Rightarrow> nat \<Rightarrow> bool \<Rightarrow> CacheAndPersist option \<Rightarrow> manager" where
  "started env t local persistency = manager_start env t (new_manager [] local persistency)"

text \<open>What the start finds on the disk is expected to be such a document as well.\<close>

definition stored_ok :: "environment \<Rightarrow> manager \<Rightarrow> bool" where
  "stored_ok env m \<longleftrightarrow> (case mCollectionSchemeList m of None \<Rightarrow> True | Some l \<Rightarrow> document_ok env (lstBinaryData l))"

lemma retrieve_input [simp]: "mCollectionSchemeListInput (snd (retrieve_document env d m)) = mCollectionSchemeListInput m"
  by (simp add: retrieve_document_def Let_def split: option.split prod.split)

lemma started_held: "stored_ok env (started env t local p) \<Longrightarrow> held_ok env (started env t local p)"
  by (auto simp: started_def manager_start_def held_ok_def stored_ok_def new_manager_def Let_def)

lemma step_ok: "manager_step env m m' \<Longrightarrow> doubles env \<Longrightarrow> held_ok env m \<Longrightarrow> manager_ok m \<Longrightarrow> manager_ok m' \<and> held_ok env m'"
proof (elim manager_stepE)
  fix ts w assume a: "doubles env" "held_ok env m" "manager_ok m" "clocks_ok ts m" "work_round env ts m = Some (Inr (w, m'))"
  show "manager_ok m' \<and> held_ok env m'" using work_round_safe [OF a(1-4)] a(5) by auto
qed (simp_all add: callbacks_ok callbacks_held)

lemma reachable_ok:
  assumes "(manager_step env)\<^sup>*\<^sup>* (started env t local p) m" "doubles env" "stored_ok env (started env t local p)"
  shows "manager_ok m \<and> held_ok env m"
  using assms(1)
proof (induction rule: rtranclp_induct)
  case base
  show ?case using start_ok [OF new_manager_ok] started_held [OF assms(3)] by (simp add: started_def)
next
  case (step y z)
  then show ?case using step_ok assms(2) by blast
qed

text \<open>
  C2. Let the lists of schemes that arrive, and the one found on the disk at the start, be such that
  their valid schemes have distinct names, none of them that of the checkin, a condition each, and are
  at most 2^20; manifests are arbitrary, as are lists that do not parse. Let vectors grow to at least
  twice their capacity. Then, whenever documents arrive and the thread works: every round from a
  reachable state whose clock stays in range ends and does nothing undefined. In every reachable state the
  timeline holds the events its schemes need and all schemes in the maps belong to the manifest in use.
\<close>

theorem reachable_rounds_safe:
  assumes "doubles env" "stored_ok env (started env t local p)" "(manager_step env)\<^sup>*\<^sup>* (started env t local p) m"
  shows "timeline_ok (mgrTimeline m) \<and>
     (\<forall>c \<in> all_schemes (mgrTimeline m). schDecoderManifestID c = currentDecoderManifestID (mgrTimeline m)) \<and>
     (\<forall>ts. clocks_ok ts m \<longrightarrow> (\<exists>w m'. work_round env ts m = Some (Inr (w, m')) \<and> manager_step env m m'))"
proof -
  have ok: "manager_ok m" "held_ok env m" using reachable_ok [OF assms(3,1,2)] by simp_all
  have "timeline_ok (mgrTimeline m)"
    "\<forall>c \<in> all_schemes (mgrTimeline m). schDecoderManifestID c = currentDecoderManifestID (mgrTimeline m)"
    using ok by (simp_all add: manager_ok_def sched_ok_def)
  moreover have "\<exists>w m'. work_round env ts m = Some (Inr (w, m')) \<and> manager_step env m m'" if "clocks_ok ts m" for ts
    using work_round_safe [OF assms(1) ok(2,1) that] works [OF that] by blast
  ultimately show ?thesis by blast
qed

text \<open>
  C17. Under the same conditions on the lists of schemes and on the vectors: whatever a round from a
  reachable state publishes is one matrix, whose conditions are those of exactly the schemes enabled
  after the round, in the order of the map.
\<close>

theorem round_publishes_enabled:
  assumes "doubles env" "stored_ok env (started env t local p)" "(manager_step env)\<^sup>*\<^sup>* (started env t local p) m" "clocks_ok ts m"
    and "work_round env ts m = Some (Inr (w, m'))"
  shows "published m' = published m \<or>
     (\<exists>g d. published m' = published m @ [(g, d)] \<and>
       map snd (mgConditions g) = map (addConditionData (envIDs env)) (map snd (mEnabledCollectionSchemeMap (mgrTimeline m'))))"
  using work_round_published [OF assms(1) _ _ assms(4,5)] reachable_ok [OF assms(3,1,2)] by (simp add: publishes_def)

section \<open>Witnesses\<close>

text \<open>A list with one scheme and its manifest arrive and are picked up.\<close>

definition sample_env :: environment where
  "sample_env = \<lparr>envGrow = (\<lambda>n. 2 * n), envParseList = (\<lambda>_. Some [sample_msg]), envParseManifest = (\<lambda>_. Some sample_manifest_msg),
     envDisk = good_disk, envDelivered = (\<lambda>_. True), envIDs = sample_ids\<rparr>"

definition sample_times :: round_times where
  "sample_times = \<lparr>manifestTime = 120, schemeTime = 120, checkTime = 120, waitTime = 120\<rparr>"

definition sample_manager :: manager where
  "sample_manager = updateAvailable (collection_scheme_list_received [1] (decoder_manifest_received [2] (started sample_env 100 False None)))"

lemma sample_env_ok: "doubles sample_env" "document_ok sample_env bytes" "stored_ok sample_env (started sample_env 100 False None)"
  by (simp_all add: doubles_def document_ok_def stored_ok_def sample_env_def messages_ok_def sample_msg_def MAX_SCHEMES_def CHECKIN_def
      condition_expr_def leaf_def msg_valid_def started_def manager_start_def retrieve_document_def new_manager_def Let_def)

lemma sample_manager_reachable: "(manager_step sample_env)\<^sup>*\<^sup>* (started sample_env 100 False None) sample_manager"
proof -
  let ?m0 = "started sample_env 100 False None"
  let ?m1 = "decoder_manifest_received [2] ?m0" and ?step = "manager_step sample_env"
  have "?step ?m0 ?m1" by (rule manifest_arrives)
  moreover have "?step ?m1 (collection_scheme_list_received [1] ?m1)" by (rule list_arrives [OF sample_env_ok(2)])
  moreover have "?step (collection_scheme_list_received [1] ?m1) sample_manager" unfolding sample_manager_def by (rule wakes)
  ultimately show ?thesis by (meson rtranclp.intros)
qed

lemma sample_clocks: "clocks_ok sample_times sample_manager"
  by (simp add: clocks_ok_def clock_ok_def sample_times_def sample_manager_def updateAvailable_def collection_scheme_list_received_def
      decoder_manifest_received_def onCollectionSchemeUpdate_def onDecoderManifestUpdate_def list_copyData_def manifest_copyData_def
      started_def manager_start_def retrieve_document_def new_manager_def new_timeline_def prepareCheckinTimer_def push_event_def
      COLLECTION_SCHEME_LIST_BYTE_SIZE_LIMIT_def DECODER_MANIFEST_BYTE_SIZE_LIMIT_def DEFAULT_CHECKIN_INTERVAL_IN_MILLISECOND_def Let_def)

theorem reachable_rounds_safe_witness:
  "\<exists>w m'. work_round sample_env sample_times sample_manager = Some (Inr (w, m')) \<and> manager_step sample_env sample_manager m'"
  using reachable_rounds_safe [OF sample_env_ok(1,3) sample_manager_reachable] sample_clocks by blast

theorem round_publishes_enabled_witness:
  "\<exists>w m'. work_round sample_env sample_times sample_manager = Some (Inr (w, m')) \<and>
     (published m' = [] \<or> (\<exists>g d. published m' = [(g, d)] \<and>
       map snd (mgConditions g) = map (addConditionData sample_ids) (map snd (mEnabledCollectionSchemeMap (mgrTimeline m')))))"
proof -
  obtain w m' where w: "work_round sample_env sample_times sample_manager = Some (Inr (w, m'))"
    using work_round_safe [OF sample_env_ok(1) _ _ sample_clocks] reachable_ok [OF sample_manager_reachable sample_env_ok(1,3)] by blast
  have "published sample_manager = []"
    by (simp add: sample_manager_def updateAvailable_def collection_scheme_list_received_def
        decoder_manifest_received_def onCollectionSchemeUpdate_def onDecoderManifestUpdate_def list_copyData_def manifest_copyData_def
        started_def manager_start_def retrieve_document_def new_manager_def
        COLLECTION_SCHEME_LIST_BYTE_SIZE_LIMIT_def DECODER_MANIFEST_BYTE_SIZE_LIMIT_def Let_def)
  then show ?thesis using round_publishes_enabled [OF sample_env_ok(1,3) sample_manager_reachable sample_clocks w] w
    by (auto simp: sample_env_def)
qed

end
