(* ===== verification/ManagerFaults.thy ===== *)
theory ManagerFaults
  imports ManagerSafety
begin

text \<open>
  Two situations in which what the manager has published no longer fits its state: a new manifest
  while schemes are loaded, and a manifest that cannot be parsed.
\<close>

section \<open>A new manifest\<close>

lemma check_round_none:
  "no_schemes s \<Longrightarrow> check_round delivered t ret s = Some (ret', s') \<Longrightarrow> ret' = ret"
  by (cases "mTimeLine s") (auto simp: check_round_def check_event_def no_schemes_def Let_def split: if_splits)

text \<open>Without schemes the pass over the timeline reports no change.\<close>

lemma check_no_schemes:
  assumes "sched_ok s" "no_schemes s" "clock_ok t s"
  shows "\<exists>s'. checkTimeLine delivered t s = Some (False, s') \<and> no_schemes s'"
proof (cases "mTimeLine s = [] \<or> t < tdTime (hd (mTimeLine s))")
  case True
  then show ?thesis using assms(2) by (auto simp: checkTimeLine_def)
next
  case False
  let ?P = "\<lambda>ret s'. pass_so_far t s ret s' \<and> \<not> ret"
  have start: "?P False s" using assms(1) by (simp add: pass_so_far_def sched_ok_def)
  have round: "?P ret' s'' \<and> rounds_left t s'' < rounds_left t s'"
    if P: "?P ret s'" and r: "check_round delivered t ret s' = Some (ret', s'')" for ret s' ret' s''
  proof -
    have "no_schemes s'" using P assms(2) by (simp add: pass_so_far_def no_schemes_def)
    from check_round_none [OF this r] have "ret' = ret" .
    moreover have "pass_so_far t s ret' s'' \<and> rounds_left t s'' < rounds_left t s'"
      by (rule pass_round [OF assms(3) _ r]) (use P in blast)
    ultimately show ?thesis using P by simp
  qed
  have "\<exists>ret s'. check_loop delivered t False s = Some (ret, s') \<and> ?P ret s' \<and> check_round delivered t ret s' = None"
    by (rule check_loop_ends [where P = ?P, OF start]) (rule round)
  then obtain s' where "check_loop delivered t False s = Some (False, s')" "pass_so_far t s False s'" by force
  then show ?thesis using False assms(2) by (auto simp: checkTimeLine_def pass_so_far_def no_schemes_def)
qed

text \<open>
  C39. A manifest with a new name arrives while schemes are loaded and no new list does. The round
  drops every scheme and publishes nothing, so the engine keeps working with the matrix and the
  dictionaries of schemes that are no longer enabled.
\<close>

theorem new_manifest_unpublished:
  assumes "manager_ok m" "clocks_ok ts m" "mProcessDecoderManifest m" "\<not> mProcessCollectionScheme m"
    and "mDecoderManifest m = Some d0" "manifest_build (envParseManifest env) d0 = (True, d)"
    and "getID d \<noteq> currentDecoderManifestID (mgrTimeline m)" "mEnabledCollectionSchemeMap (mgrTimeline m) \<noteq> []"
  shows "\<exists>w m'. work_round env ts m = Some (Inr (w, m')) \<and> published m' = published m \<and>
     mEnabledCollectionSchemeMap (mgrTimeline m') = []"
proof -
  let ?m = "m\<lparr>mProcessDecoderManifest := False\<rparr>"
  let ?s = "(mgrTimeline m)\<lparr>currentDecoderManifestID := getID d\<rparr>"
  define m1 where "m1 = (store_document env DECODER_MANIFEST (?m\<lparr>mDecoderManifest := Some d, mgrTimeline := ?s\<rparr>))
      \<lparr>mgrTimeline := cleanupCollectionSchemes ?s\<rparr>"
  have "isCollectionSchemeLoaded ?s" using assms(8) by (simp add: isCollectionSchemeLoaded_def)
  then have "processDecoderManifest env (manifestTime ts) ?m = (False, m1)"
    using assms(5-7) by (simp add: processDecoderManifest_def Let_def m1_def)
  moreover have "\<not> mProcessCollectionScheme m1" using assms(4) by (simp add: m1_def)
  ultimately have pd: "process_documents env ts m = Inr (False, m1)" using assms(3) by (simp add: process_documents_def)
  have s1: "mgrTimeline m1 = cleanupCollectionSchemes ?s" "published m1 = published m" by (simp_all add: m1_def)
  have "timeline_ok ?s" using assms(1) by (simp add: manager_ok_def sched_ok_def)
  then have ok: "sched_ok (cleanupCollectionSchemes ?s)" by (intro sched_ok_manifest) (simp_all add: cleanup_ok)
  have "clock_ok (checkTime ts) (cleanupCollectionSchemes ?s)"
    using assms(2) cleanup_config [of ?s] by (simp add: clocks_ok_def clock_ok_def same_config_def)
  then obtain s' where s': "checkTimeLine (envDelivered env) (checkTime ts) (cleanupCollectionSchemes ?s) = Some (False, s')" "no_schemes s'"
    using check_no_schemes [OF ok cleanup_no_schemes] by blast
  have "work_round env ts m = Some (Inr (next_wait (waitTime ts) s', m1\<lparr>mgrTimeline := s'\<rparr>))"
    using pd s1(1) s'(1) by (simp add: work_round_def Let_def)
  then show ?thesis using s1(2) s'(2) by (simp add: no_schemes_def)
qed

section \<open>A manifest that cannot be parsed\<close>

definition without_signals :: "(string \<times> CollectionScheme) list \<Rightarrow> (string \<times> CollectionScheme) list" where
  "without_signals m = map (\<lambda>(i, c). (i, c\<lparr>schCollectSignals := []\<rparr>)) m"

lemma collect_not_ready: "\<not> mReady d \<Longrightarrow> collect_signal d ids i = (\<lambda>m. m)"
  by (rule ext) (simp add: collect_signal_def getNetworkProtocol_def)

lemma extractor_not_ready:
  assumes "\<not> mReady d"
  shows "decoderDictionaryExtractor d ids m = decoderDictionaryExtractor d ids (without_signals m)"
proof -
  have sig: "fold (\<lambda>info. collect_signal d ids (sigID info)) infos x = x" for infos x
    by (induction infos arbitrary: x) (simp_all add: collect_not_ready [OF assms])
  have "fold (\<lambda>p. collect_scheme d ids (snd p)) m x = fold (\<lambda>p. collect_scheme d ids (snd p)) (without_signals m) x" for x
    by (induction m arbitrary: x) (auto simp: without_signals_def collect_scheme_def sig)
  then show ?thesis by (simp add: decoderDictionaryExtractor_def)
qed

text \<open>
  A manifest that has just arrived and does not parse. The schemes stay enabled under the old
  manifest, but the lookups already go to the new one, so the next dictionaries are those of
  schemes without signals: nothing is decoded any more.
\<close>

theorem failed_manifest_blinds:
  assumes "mDecoderManifest m = Some d0" "\<not> mReady d0" "envParseManifest env (mProtoBinaryData d0) = None" "\<not> mUseLocalDictionary m"
  shows "\<exists>m'. processDecoderManifest env t m = (False, m') \<and> mgrTimeline m' = mgrTimeline m \<and>
     extract_dictionaries env m' =
       Inr (Some (decoderDictionaryExtractor d0 (envIDs env) (without_signals (mEnabledCollectionSchemeMap (mgrTimeline m)))))"
proof -
  have "manifest_build (envParseManifest env) d0 = (False, d0)" using assms(3) by (simp add: manifest_build_def)
  then have "processDecoderManifest env t m = (False, m\<lparr>mDecoderManifest := Some d0\<rparr>)"
    using assms(1) by (simp add: processDecoderManifest_def Let_def)
  then show ?thesis using assms(4) extractor_not_ready [OF assms(2)] by (simp add: extract_dictionaries_def Let_def)
qed

section \<open>Witnesses\<close>

text \<open>A manager with a scheme enabled until 40, and another manifest that has arrived.\<close>

definition enabled_manager :: manager where
  "enabled_manager = (new_manager [] False None)
     \<lparr>mgrTimeline := (push_event 40 ''a'' (put_enabled ''a'' (constant_scheme ''a'' True) (new_timeline ''m''))),
      mDecoderManifest := Some (new_manifest\<lparr>mProtoBinaryData := [1]\<rparr>), mProcessDecoderManifest := True\<rparr>"

lemma constant_scheme_good: "scheme_good (constant_scheme ''a'' True)"
  using constant_denotes [of "''a''" True]
  by (auto simp: scheme_good_def scheme_ok_def constant_scheme_def CHECKIN_def constant_tree_def intro!: exI [of _ "constant_tree True"])

lemma enabled_manager_ok: "manager_ok enabled_manager"
proof -
  have "timeline_ok (push_event (schExpiryTime (constant_scheme ''a'' True)) ''a'' (put_enabled ''a'' (constant_scheme ''a'' True) (new_timeline ''m'')))"
    by (rule timeline_ok_enable) (simp_all add: timeline_ok_no_schemes no_schemes_def new_timeline_def CHECKIN_def)
  moreover have "schExpiryTime (constant_scheme ''a'' True) = 40" "schDecoderManifestID (constant_scheme ''a'' True) = ''m''"
    by (simp_all add: constant_scheme_def)
  ultimately show ?thesis using constant_scheme_good
    by (simp add: manager_ok_def enabled_manager_def sched_ok_def all_ids_def all_schemes_def new_manager_def new_timeline_def
        MAX_SCHEMES_def push_event_def put_enabled_def)
qed

theorem new_manifest_unpublished_witness:
  "\<exists>w m'. work_round (sample_env\<lparr>envParseManifest := (\<lambda>_. Some (sample_manifest_msg\<lparr>manifest_arn := ''n''\<rparr>))\<rparr>) sample_times enabled_manager = Some (Inr (w, m')) \<and>
     mEnabledCollectionSchemeMap (mgrTimeline enabled_manager) \<noteq> [] \<and> mEnabledCollectionSchemeMap (mgrTimeline m') = [] \<and> published m' = []"
proof -
  let ?env = "sample_env\<lparr>envParseManifest := (\<lambda>_. Some (sample_manifest_msg\<lparr>manifest_arn := ''n''\<rparr>))\<rparr>"
  let ?d0 = "new_manifest\<lparr>mProtoBinaryData := [1]\<rparr>"
  have f: "mDecoderManifest enabled_manager = Some ?d0" "mProcessDecoderManifest enabled_manager" "\<not> mProcessCollectionScheme enabled_manager"
    "published enabled_manager = []" "mEnabledCollectionSchemeMap (mgrTimeline enabled_manager) \<noteq> []"
    "currentDecoderManifestID (mgrTimeline enabled_manager) = ''m''" "clocks_ok sample_times enabled_manager"
    by (simp_all add: enabled_manager_def new_manager_def new_timeline_def push_event_def put_enabled_def clocks_ok_def clock_ok_def
        sample_times_def DEFAULT_CHECKIN_INTERVAL_IN_MILLISECOND_def)
  obtain d where d: "manifest_build (envParseManifest ?env) ?d0 = (True, d)" "getID d = ''n''"
    by (auto simp: manifest_build_def sample_manifest_msg_def sample_env_def getID_def build_pid build_can_other new_manifest_def)
  show ?thesis using new_manifest_unpublished [OF enabled_manager_ok f(7,2,3,1) d(1)] d(2) f by auto
qed

theorem failed_manifest_blinds_witness:
  "\<exists>m'. processDecoderManifest (sample_env\<lparr>envParseManifest := (\<lambda>_. None)\<rparr>) 120 enabled_manager = (False, m') \<and>
     mEnabledCollectionSchemeMap (mgrTimeline m') \<noteq> [] \<and>
     (\<exists>x. extract_dictionaries (sample_env\<lparr>envParseManifest := (\<lambda>_. None)\<rparr>) m' = Inr (Some x) \<and> can_method x 0 0x123 = None)"
proof -
  let ?env = "sample_env\<lparr>envParseManifest := (\<lambda>_. None)\<rparr>"
  have f: "mDecoderManifest enabled_manager = Some (new_manifest\<lparr>mProtoBinaryData := [1]\<rparr>)" "\<not> mReady (new_manifest\<lparr>mProtoBinaryData := [1]\<rparr>)"
    "envParseManifest ?env (mProtoBinaryData (new_manifest\<lparr>mProtoBinaryData := [1]\<rparr>)) = None" "\<not> mUseLocalDictionary enabled_manager"
    by (simp_all add: enabled_manager_def new_manager_def new_manifest_def)
  have e: "mEnabledCollectionSchemeMap (mgrTimeline enabled_manager) = [(''a'', constant_scheme ''a'' True)]"
    by (simp add: enabled_manager_def new_timeline_def push_event_def put_enabled_def)
  have "requests (without_signals [(''a'', constant_scheme ''a'' True)]) = []"
    by (simp add: requests_def without_signals_def constant_scheme_def sample_scheme_def invalid_scheme_def)
  then have "can_method (decoderDictionaryExtractor d ids (without_signals [(''a'', constant_scheme ''a'' True)])) 0 0x123 = None" for d ids
    by (simp add: extractor_requests can_method_upd) (simp add: can_method_def dictionary_of_def new_dictionary_def frames_of_def)
  then show ?thesis using failed_manifest_blinds [OF f, of 120] e by fastforce
qed

end
