(* ===== verification/ObdModule.thy ===== *)
theory ObdModule
  imports DictionaryExtractor "HOL-Library.Sublist"
begin

text \<open>
  On-board diagnostics over CAN (\<open>OBDOverCANModule.cpp\<close>): the thread that asks the control units
  for the parameters they support, requests the wanted ones in groups, collects trouble codes and
  pushes the decoded values, and the callbacks for new dictionaries and conditions. What the
  control units answer, the timers, the clock and the queues are inputs of a cycle; a control
  unit may answer anything, depending on all that was sent before. Every message written to the
  bus is kept in a log. A callback runs between two cycles of the thread.
\<close>

section \<open>State\<close>

datatype ECUType = ENGINE | TRANSMISSION

definition MAX_PID_RANGE :: nat where "MAX_PID_RANGE = 6"

record obd_module =
  mPIDRequestIntervalSeconds :: nat
  mDTCRequestIntervalSeconds :: nat
  mHasTransmission :: bool
  mVIN :: string
  mShouldRequestDTCs :: bool
  mDecoderManifestAvailable :: bool
  mOBDDataDecoder :: "OBDDecoderDictionary option option"
  mDecoderDictionaryPtr :: "(nat \<times> CANMessageFormat) list option"
  mSupportedPIDs :: "ECUType \<Rightarrow> SID \<Rightarrow> nat list option"
  mPIDsRequestedByDecoderDict :: "SID \<Rightarrow> nat list option"
  mPIDsToRequest :: "ECUType \<Rightarrow> SID \<Rightarrow> nat list option"
  sentPDUs :: "(ECUType \<times> nat list) list"
  signalPushes :: nat
  signalBuffer :: "CollectedSignal list"
  dtcBuffer :: "DTCInfo list"

definition new_obd_module :: obd_module where
  "new_obd_module =
     \<lparr>mPIDRequestIntervalSeconds = 0, mDTCRequestIntervalSeconds = 0, mHasTransmission = False, mVIN = [],
      mShouldRequestDTCs = False, mDecoderManifestAvailable = False, mOBDDataDecoder = None,
      mDecoderDictionaryPtr = None, mSupportedPIDs = (\<lambda>_ _. None), mPIDsRequestedByDecoderDict = (\<lambda>_. None),
      mPIDsToRequest = (\<lambda>_ _. None), sentPDUs = [], signalPushes = 0, signalBuffer = [], dtcBuffer = []\<rparr>"

text \<open>
  One cycle: whether the socket of the engine control unit is alive, the seconds both timers
  show, the clock, whether a message could be sent and what is received after it (\<open>None\<close> is a
  timeout or an error), and whether the queues accept.
\<close>

record obd_env =
  ecuAlive :: bool
  pidElapsed :: rat
  dtcElapsed :: rat
  pidClock :: "ECUType \<Rightarrow> nat"
  dtcClock :: nat
  ecuSend :: "(ECUType \<times> nat list) list \<Rightarrow> bool"
  ecuReceive :: "(ECUType \<times> nat list) list \<Rightarrow> nat list option"
  acceptSignal :: "nat \<Rightarrow> bool"
  acceptDTCs :: bool

text \<open>The identifiers of a connection: extended or not, the source and the destination.\<close>

definition ecu_options :: "bool \<Rightarrow> ECUType \<Rightarrow> bool \<times> nat \<times> nat" where
  "ecu_options useExtendedIDs ecu =
     (if useExtendedIDs
      then case ecu of ENGINE \<Rightarrow> (True, 0x18DB33F1, 0x18DAF158) | TRANSMISSION \<Rightarrow> (True, 0x18DA59F1, 0x18DAF159)
      else case ecu of ENGINE \<Rightarrow> (False, 0x7E0, 0x7E8) | TRANSMISSION \<Rightarrow> (False, 0x7E1, 0x7E9))"

definition obd_init :: "bool \<Rightarrow> bool \<Rightarrow> nat \<Rightarrow> nat \<Rightarrow> bool \<Rightarrow> obd_module \<Rightarrow> bool \<times> obd_module" where
  "obd_init signalBufferPtr activeDTCBufferPtr pidInterval dtcInterval hasTransmissionECU m =
     (if pidInterval = 0 \<and> dtcInterval = 0 then (False, m)
      else let m = m\<lparr>mPIDRequestIntervalSeconds := pidInterval, mDTCRequestIntervalSeconds := dtcInterval\<rparr> in
        if \<not> signalBufferPtr \<or> \<not> activeDTCBufferPtr then (False, m)
        else (True, m\<lparr>mOBDDataDecoder := Some None, mHasTransmission := mHasTransmission m \<or> hasTransmissionECU\<rparr>))"

definition obd_start :: "obd_module \<Rightarrow> obd_module" where
  "obd_start m = m\<lparr>mDecoderManifestAvailable := False, mShouldRequestDTCs := False\<rparr>"

section \<open>Messages to and from a control unit\<close>

definition sendPDU :: "obd_env \<Rightarrow> ECUType \<Rightarrow> nat list \<Rightarrow> obd_module \<Rightarrow> bool \<times> obd_module" where
  "sendPDU env ecu pdu m =
     (let m = m\<lparr>sentPDUs := sentPDUs m @ [(ecu, pdu)]\<rparr> in (ecuSend env (sentPDUs m), m))"

definition receivePDU :: "obd_env \<Rightarrow> obd_module \<Rightarrow> nat list option" where
  "receivePDU env m = ecuReceive env (sentPDUs m)"

definition requestPIDs :: "obd_env \<Rightarrow> SID \<Rightarrow> nat list \<Rightarrow> ECUType \<Rightarrow> obd_module \<Rightarrow> bool \<times> obd_module" where
  "requestPIDs env sid pids ecu m =
     (if length pids > MAX_PID_RANGE then (False, m) else sendPDU env ecu (sid_toUType sid # pids) m)"

definition receivePIDs ::
  "obd_env \<Rightarrow> SID \<Rightarrow> nat list \<Rightarrow> EmissionInfo \<Rightarrow> obd_module \<Rightarrow> (bool \<times> EmissionInfo) ub_result" where
  "receivePIDs env sid pids info m =
     (case receivePDU env m of
        None \<Rightarrow> Inr (False, info)
      | Some ecuResponse \<Rightarrow>
          if ecuResponse = [] then Inr (False, info)
          else case mOBDDataDecoder m of
                 None \<Rightarrow> Inl NullPointer
               | Some dictionary \<Rightarrow> decodeEmissionPIDs dictionary sid pids ecuResponse info)"

text \<open>One group of parameters; whether it was received is only logged.\<close>

definition request_group ::
  "obd_env \<Rightarrow> SID \<Rightarrow> ECUType \<Rightarrow> nat list \<Rightarrow> EmissionInfo \<times> obd_module \<Rightarrow> (EmissionInfo \<times> obd_module) ub_result" where
  "request_group env sid ecu pidList = (\<lambda>(info, m).
     let (ok, m) = requestPIDs env sid pidList ecu m in
     if ok then ub_bind (receivePIDs env sid pidList info m) (\<lambda>(_, info). Inr (info, m)) else Inr (info, m))"

text \<open>The loop over the whole groups, from the last to the first.\<close>

fun request_groups ::
  "obd_env \<Rightarrow> SID \<Rightarrow> ECUType \<Rightarrow> nat list \<Rightarrow> nat \<Rightarrow> EmissionInfo \<times> obd_module \<Rightarrow> (EmissionInfo \<times> obd_module) ub_result" where
  "request_groups env sid ecu pids 0 st = Inr st"
| "request_groups env sid ecu pids (Suc rangeCount) st =
     ub_bind (request_group env sid ecu (take MAX_PID_RANGE (drop (rangeCount * MAX_PID_RANGE) pids)) st)
       (request_groups env sid ecu pids rangeCount)"

definition requestReceiveEmissionPIDs ::
  "obd_env \<Rightarrow> SID \<Rightarrow> nat list \<Rightarrow> ECUType \<Rightarrow> EmissionInfo \<Rightarrow> obd_module \<Rightarrow> (bool \<times> EmissionInfo \<times> obd_module) ub_result" where
  "requestReceiveEmissionPIDs env sid pids ecu info m =
     (let rangeLeft = length pids mod MAX_PID_RANGE in
      ub_bind (request_groups env sid ecu pids (length pids div MAX_PID_RANGE) (info, m)) (\<lambda>st.
      ub_bind (if rangeLeft > 0 then request_group env sid ecu (drop (length pids - rangeLeft) pids) st else Inr st)
        (\<lambda>(info, m). Inr (mPIDsToValues info \<noteq> [], info, m))))"

definition receiveSupportedPIDs :: "obd_env \<Rightarrow> SID \<Rightarrow> nat list \<Rightarrow> obd_module \<Rightarrow> (bool \<times> nat list) ub_result" where
  "receiveSupportedPIDs env sid supportedPIDs m =
     (case receivePDU env m of
        None \<Rightarrow> Inr (False, supportedPIDs)
      | Some ecuResponse \<Rightarrow>
          if ecuResponse = [] then Inr (False, supportedPIDs)
          else case mOBDDataDecoder m of
                 None \<Rightarrow> Inl NullPointer
               | Some _ \<Rightarrow> decodeSupportedPIDs sid ecuResponse supportedPIDs)"

text \<open>One request for supported parameters, with the status and the parameters so far.\<close>

definition request_supported ::
  "obd_env \<Rightarrow> SID \<Rightarrow> ECUType \<Rightarrow> nat list \<Rightarrow> bool \<times> nat list \<times> obd_module \<Rightarrow> (bool \<times> nat list \<times> obd_module) ub_result" where
  "request_supported env sid ecu pidList = (\<lambda>(requestStatus, supportedPIDs, m).
     let (ok, m) = requestPIDs env sid pidList ecu m in
     if ok then ub_bind (receiveSupportedPIDs env sid supportedPIDs m) (\<lambda>(received, supportedPIDs).
                  Inr (requestStatus \<or> received, supportedPIDs, m))
     else Inr (requestStatus, supportedPIDs, m))"

definition requestReceiveSupportedPIDs ::
  "obd_env \<Rightarrow> SID \<Rightarrow> ECUType \<Rightarrow> obd_module \<Rightarrow> (bool \<times> nat list \<times> obd_module) ub_result" where
  "requestReceiveSupportedPIDs env sid ecu m =
     ub_bind (request_supported env sid ecu (take (min MAX_PID_RANGE (length supportedPIDRange)) supportedPIDRange) (False, [], m)) (\<lambda>st.
       if MAX_PID_RANGE < length supportedPIDRange
       then request_supported env sid ecu (drop MAX_PID_RANGE supportedPIDRange) st
       else Inr st)"

definition requestReceiveVIN :: "obd_env \<Rightarrow> obd_module \<Rightarrow> (bool \<times> obd_module) ub_result" where
  "requestReceiveVIN env m =
     (let (ok, m) = sendPDU env ENGINE [sid_toUType (rqSID vehicleIdentificationNumberRequest),
                                        rqPID vehicleIdentificationNumberRequest] m in
      if ok then
        case receivePDU env m of
          None \<Rightarrow> Inr (False, m)
        | Some ecuResponse \<Rightarrow>
            if ecuResponse = [] then Inr (False, m)
            else case mOBDDataDecoder m of
                   None \<Rightarrow> Inl NullPointer
                 | Some _ \<Rightarrow> ub_bind (decodeVIN ecuResponse (mVIN m)) (\<lambda>(decodedVIN, vin). Inr (decodedVIN, m\<lparr>mVIN := vin\<rparr>))
      else Inr (False, m))"

definition requestDTCs :: "obd_env \<Rightarrow> SID \<Rightarrow> ECUType \<Rightarrow> obd_module \<Rightarrow> bool \<times> obd_module" where
  "requestDTCs env sid ecu m = sendPDU env ecu [sid_toUType sid] m"

definition receiveDTCs :: "obd_env \<Rightarrow> SID \<Rightarrow> DTCInfo \<Rightarrow> obd_module \<Rightarrow> (bool \<times> DTCInfo) ub_result" where
  "receiveDTCs env sid info m =
     (case receivePDU env m of
        None \<Rightarrow> Inr (False, info)
      | Some ecuResponse \<Rightarrow>
          if ecuResponse = [] then Inr (False, info)
          else case mOBDDataDecoder m of
                 None \<Rightarrow> Inl NullPointer
               | Some _ \<Rightarrow> decodeDTCs sid ecuResponse info)"

definition requestReceiveDTCs ::
  "obd_env \<Rightarrow> SID \<Rightarrow> ECUType \<Rightarrow> DTCInfo \<Rightarrow> obd_module \<Rightarrow> (bool \<times> DTCInfo \<times> obd_module) ub_result" where
  "requestReceiveDTCs env sid ecu info m =
     (let (ok, m) = requestDTCs env sid ecu m in
      if ok then ub_bind (receiveDTCs env sid info m) (\<lambda>(received, info). Inr (received, info, m))
      else Inr (False, info, m))"

section \<open>What is requested\<close>

text \<open>\<open>std::set_intersection\<close> of two sorted ranges.\<close>

fun set_intersection :: "nat list \<Rightarrow> nat list \<Rightarrow> nat list" where
  "set_intersection [] ys = []"
| "set_intersection (x # xs) [] = []"
| "set_intersection (x # xs) (y # ys) =
     (if x < y then set_intersection xs (y # ys)
      else if y < x then set_intersection (x # xs) ys
      else x # set_intersection xs ys)"

definition updatePIDRequestList :: "SID \<Rightarrow> ECUType \<Rightarrow> obd_module \<Rightarrow> obd_module" where
  "updatePIDRequestList sid ecu m =
     (case (mSupportedPIDs m ecu sid, mPIDsRequestedByDecoderDict m sid) of
        (Some supported, Some requested) \<Rightarrow>
          m\<lparr>mPIDsToRequest := (mPIDsToRequest m)(ecu := (mPIDsToRequest m ecu)(sid \<mapsto> set_intersection supported requested))\<rparr>
      | _ \<Rightarrow> m)"

definition getPIDsToRequest :: "SID \<Rightarrow> ECUType \<Rightarrow> obd_module \<Rightarrow> nat list option" where
  "getPIDsToRequest sid ecu m = mPIDsToRequest m ecu sid"

section \<open>Callbacks\<close>

definition obd_onChangeInspectionMatrix :: "InspectionMatrix option \<Rightarrow> obd_module \<Rightarrow> obd_module" where
  "obd_onChangeInspectionMatrix activeConditions m =
     (case activeConditions of
        None \<Rightarrow> m
      | Some M \<Rightarrow> m\<lparr>mShouldRequestDTCs := list_ex includeActiveDtcs (mtxConditions M)\<rparr>)"

text \<open>
  A dictionary as it is iterated: the signals to collect, and for every channel its entries in
  the order of the map.
\<close>

record dictionary_view =
  viewSignals :: "nat set"
  viewMethods :: "(nat \<times> (nat \<times> CANMessageDecoderMethod) list) list"

definition wants :: "dictionary_view \<Rightarrow> CANMessageDecoderMethod \<Rightarrow> bool" where
  "wants d x = list_ex (\<lambda>s. mSignalID s \<in> viewSignals d) (mSignals (methodFormat x))"

definition view_entries :: "dictionary_view \<Rightarrow> (nat \<times> CANMessageDecoderMethod) list" where
  "view_entries d = (if length (viewMethods d) = 1 then snd (hd (viewMethods d)) else [])"

text \<open>\<open>emplace\<close> with the key cut to a byte keeps the first entry.\<close>

fun emplace_formats :: "(nat \<times> CANMessageDecoderMethod) list \<Rightarrow> (nat \<times> CANMessageFormat) list \<Rightarrow> (nat \<times> CANMessageFormat) list" where
  "emplace_formats [] m = m"
| "emplace_formats ((k, x) # es) m =
     emplace_formats es (if map_of m (u8 k) = None then m @ [(u8 k, methodFormat x)] else m)"

definition obd_onChangeOfActiveDictionary ::
  "dictionary_view option \<Rightarrow> VehicleDataSourceProtocol \<Rightarrow> obd_module \<Rightarrow> obd_module" where
  "obd_onChangeOfActiveDictionary dictionary networkProtocol m =
     (if networkProtocol \<noteq> OBD then m
      else case (mOBDDataDecoder m, dictionary) of
             (Some _, Some d) \<Rightarrow>
               let formats = emplace_formats (view_entries d) [];
                   requested = sort (map (\<lambda>p. u8 (fst p)) (filter (\<lambda>p. wants d (snd p)) (view_entries d)));
                   m = m\<lparr>mDecoderDictionaryPtr := Some formats,
                         mPIDsRequestedByDecoderDict := (mPIDsRequestedByDecoderDict m)(CURRENT_STATS \<mapsto> requested)\<rparr>;
                   m = updatePIDRequestList CURRENT_STATS TRANSMISSION (updatePIDRequestList CURRENT_STATS ENGINE m)
               in if formats \<noteq> [] then m\<lparr>mDecoderManifestAvailable := True\<rparr> else m
           | _ \<Rightarrow> m\<lparr>mDecoderDictionaryPtr := Some []\<rparr>)"

section \<open>A cycle of the thread\<close>

definition has_dictionary :: "obd_module \<Rightarrow> bool" where
  "has_dictionary m = (case mDecoderDictionaryPtr m of None \<Rightarrow> False | Some d \<Rightarrow> d \<noteq> [])"

text \<open>Whether the thread waits for a callback before the cycle.\<close>

definition waits_for_data :: "obd_module \<Rightarrow> bool" where
  "waits_for_data m \<longleftrightarrow> \<not> mShouldRequestDTCs m \<and> \<not> has_dictionary m"

definition take_dictionary :: "obd_module \<Rightarrow> obd_module ub_result" where
  "take_dictionary m =
     (if mDecoderManifestAvailable m
      then case mOBDDataDecoder m of
             None \<Rightarrow> Inl NullPointer
           | Some _ \<Rightarrow> Inr (m\<lparr>mOBDDataDecoder := Some (map_option map_of (mDecoderDictionaryPtr m)),
                              mDecoderManifestAvailable := False\<rparr>)
      else Inr m)"

definition request_vin :: "obd_env \<Rightarrow> obd_module \<Rightarrow> obd_module ub_result" where
  "request_vin env m =
     (if mVIN m = [] then ub_bind (requestReceiveVIN env m) (\<lambda>(_, m). Inr m) else Inr m)"

definition discover :: "obd_env \<Rightarrow> ECUType \<Rightarrow> obd_module \<Rightarrow> obd_module ub_result" where
  "discover env ecu m =
     ub_bind (requestReceiveSupportedPIDs env CURRENT_STATS ecu m) (\<lambda>(received, pids, m).
       if received
       then Inr (updatePIDRequestList CURRENT_STATS ecu
              (m\<lparr>mSupportedPIDs := (mSupportedPIDs m)(ecu := (mSupportedPIDs m ecu)(CURRENT_STATS \<mapsto> sort pids))\<rparr>))
       else Inr m)"

text \<open>The map of supported parameters is empty until the first answer, which is for the one mode in use.\<close>

definition discover_engine :: "obd_env \<Rightarrow> obd_module \<Rightarrow> obd_module ub_result" where
  "discover_engine env m =
     (if ecuAlive env \<and> mSupportedPIDs m ENGINE CURRENT_STATS = None then discover env ENGINE m else Inr m)"

definition discover_transmission :: "obd_env \<Rightarrow> obd_module \<Rightarrow> obd_module ub_result" where
  "discover_transmission env m =
     (if mHasTransmission m \<and> mSupportedPIDs m TRANSMISSION CURRENT_STATS = None then discover env TRANSMISSION m else Inr m)"

definition push_signal :: "obd_env \<Rightarrow> CollectedSignal \<Rightarrow> obd_module \<Rightarrow> obd_module" where
  "push_signal env s m =
     m\<lparr>signalPushes := signalPushes m + 1,
       signalBuffer := signalBuffer m @ (if acceptSignal env (signalPushes m) then [s] else [])\<rparr>"

text \<open>The values are pushed in the order of the map, by signal.\<close>

definition push_values :: "obd_env \<Rightarrow> nat \<Rightarrow> EmissionInfo \<Rightarrow> obd_module \<Rightarrow> obd_module" where
  "push_values env receptionTime info m =
     fold (\<lambda>(i, v). push_signal env (collected_signal i receptionTime v)) (sort_key fst (mPIDsToValues info)) m"

definition empty_info :: EmissionInfo where "empty_info = \<lparr>emSID = INVALID_SERVICE_MODE, mPIDsToValues = []\<rparr>"

definition collect_emissions :: "obd_env \<Rightarrow> ECUType \<Rightarrow> obd_module \<Rightarrow> obd_module ub_result" where
  "collect_emissions env ecu m =
     (case getPIDsToRequest CURRENT_STATS ecu m of
        None \<Rightarrow> Inr m
      | Some pids \<Rightarrow>
          if pids = [] then Inr m
          else ub_bind (requestReceiveEmissionPIDs env CURRENT_STATS pids ecu empty_info m) (\<lambda>(received, info, m).
            Inr (if received then push_values env (pidClock env ecu) info m else m)))"

definition collect_transmission :: "obd_env \<Rightarrow> obd_module \<Rightarrow> obd_module ub_result" where
  "collect_transmission env m = (if mHasTransmission m then collect_emissions env TRANSMISSION m else Inr m)"

definition pids_due :: "obd_env \<Rightarrow> obd_module \<Rightarrow> bool" where
  "pids_due env m \<longleftrightarrow> mPIDRequestIntervalSeconds m > 0 \<and> pidElapsed env \<ge> of_nat (mPIDRequestIntervalSeconds m)"

definition pid_flow :: "obd_env \<Rightarrow> obd_module \<Rightarrow> obd_module ub_result" where
  "pid_flow env m =
     (if \<not> has_dictionary m then Inr m
      else ub_bind (request_vin env m) (\<lambda>m.
        if pids_due env m
        then ub_bind (discover_engine env m) (\<lambda>m.
             ub_bind (discover_transmission env m) (\<lambda>m.
             ub_bind (collect_emissions env ENGINE m) (collect_transmission env)))
        else Inr m))"

definition dtcs_due :: "obd_env \<Rightarrow> obd_module \<Rightarrow> bool" where
  "dtcs_due env m \<longleftrightarrow> mShouldRequestDTCs m \<and> mDTCRequestIntervalSeconds m > 0 \<and>
     dtcElapsed env \<ge> of_nat (mDTCRequestIntervalSeconds m)"

definition dtc_flow :: "obd_env \<Rightarrow> obd_module \<Rightarrow> obd_module ub_result" where
  "dtc_flow env m =
     (if \<not> dtcs_due env m then Inr m
      else ub_bind (requestReceiveDTCs env STORED_DTC ENGINE (default_DTCInfo\<lparr>dtcReceiveTime := dtcClock env\<rparr>) m) (\<lambda>(engine, info, m).
           ub_bind (if mHasTransmission m then requestReceiveDTCs env STORED_DTC TRANSMISSION info m
                    else Inr (False, info, m)) (\<lambda>(transmission, info, m).
             Inr (if (engine \<or> transmission) \<and> acceptDTCs env then m\<lparr>dtcBuffer := dtcBuffer m @ [info]\<rparr> else m))))"

text \<open>The wait in milliseconds, computed in 32 bits.\<close>

definition obd_wait :: "obd_module \<Rightarrow> nat" where
  "obd_wait m =
     (let sleepTime = (if mDTCRequestIntervalSeconds m > 0
                       then min (mPIDRequestIntervalSeconds m) (mDTCRequestIntervalSeconds m)
                       else mPIDRequestIntervalSeconds m)
      in u32 (sleepTime * 1000))"

definition obd_cycle :: "obd_env \<Rightarrow> obd_module \<Rightarrow> (nat \<times> obd_module) ub_result" where
  "obd_cycle env m =
     ub_bind (take_dictionary m) (\<lambda>m.
     ub_bind (pid_flow env m) (\<lambda>m.
     ub_bind (dtc_flow env m) (\<lambda>m. Inr (obd_wait m, m))))"

end
