(* ===== verification/ObdBehaviour.thy ===== *)
theory ObdBehaviour
  imports ObdModule
begin

text \<open>
  What the diagnostics thread guarantees whatever the control units answer: its requests, the
  values it pushes and the trouble codes it reports.
\<close>

section \<open>Requests\<close>

text \<open>The groups in the order they are requested.\<close>

fun whole_groups :: "nat list \<Rightarrow> nat \<Rightarrow> nat list list" where
  "whole_groups pids 0 = []"
| "whole_groups pids (Suc n) = take MAX_PID_RANGE (drop (n * MAX_PID_RANGE) pids) # whole_groups pids n"

definition pid_groups :: "nat list \<Rightarrow> nat list list" where
  "pid_groups pids = whole_groups pids (length pids div MAX_PID_RANGE) @
     (if length pids mod MAX_PID_RANGE > 0 then [drop (length pids - length pids mod MAX_PID_RANGE) pids] else [])"

lemma whole_groups_mset:
  "n * MAX_PID_RANGE \<le> length pids \<Longrightarrow> mset (concat (whole_groups pids n)) = mset (take (n * MAX_PID_RANGE) pids)"
proof (induction n)
  case (Suc n)
  have "take (Suc n * MAX_PID_RANGE) pids = take (n * MAX_PID_RANGE) pids @ take MAX_PID_RANGE (drop (n * MAX_PID_RANGE) pids)"
    using take_add [of "n * MAX_PID_RANGE" MAX_PID_RANGE pids] by (simp add: add.commute)
  with Suc show ?case by simp
qed simp

lemma whole_groups_length:
  "n * MAX_PID_RANGE \<le> length pids \<Longrightarrow> g \<in> set (whole_groups pids n) \<Longrightarrow> length g = MAX_PID_RANGE"
  by (induction n) auto

lemma pid_groups_mset: "mset (concat (pid_groups pids)) = mset pids"
proof -
  let ?q = "length pids div MAX_PID_RANGE * MAX_PID_RANGE"
  have q: "?q \<le> length pids" "length pids - length pids mod MAX_PID_RANGE = ?q"
    by (simp_all add: minus_mod_eq_div_mult)
  have "mset (concat (pid_groups pids)) = mset (take ?q pids) + mset (drop ?q pids)"
    using whole_groups_mset [OF q(1)] minus_mod_eq_div_mult [of "length pids" MAX_PID_RANGE]
    by (auto simp: pid_groups_def q(2))
  also have "\<dots> = mset pids" by (metis append_take_drop_id mset_append)
  finally show ?thesis .
qed

lemma pid_groups_length: "g \<in> set (pid_groups pids) \<Longrightarrow> g \<noteq> [] \<and> length g \<le> MAX_PID_RANGE"
proof -
  assume g: "g \<in> set (pid_groups pids)"
  have q: "length pids div MAX_PID_RANGE * MAX_PID_RANGE \<le> length pids" by simp
  have r: "length pids mod MAX_PID_RANGE < MAX_PID_RANGE" by (simp add: MAX_PID_RANGE_def)
  show ?thesis using g whole_groups_length [OF q, of g] r
    by (auto simp: pid_groups_def MAX_PID_RANGE_def split: if_splits)
qed

lemma pid_groups_set: "g \<in> set (pid_groups pids) \<Longrightarrow> set g \<subseteq> set pids"
  using pid_groups_mset [of pids] by (metis UN_upper set_concat set_mset_mset)

section \<open>Values of a group\<close>

text \<open>The answer to a message, if any: what is received after it was sent.\<close>

definition answer :: "obd_env \<Rightarrow> (ECUType \<times> nat list) list \<Rightarrow> nat list option" where
  "answer env h = (if ecuSend env h then ecuReceive env h else None)"

text \<open>A group is answered when the response is positive and lists exactly its parameters.\<close>

definition answers :: "OBDDecoderDictionary \<Rightarrow> SID \<Rightarrow> nat list \<Rightarrow> nat list \<Rightarrow> bool" where
  "answers dict sid g r \<longleftrightarrow> 3 \<le> length r \<and> r ! 0 = 0x40 + sid_toUType sid \<and> isPIDResponseValid dict g r = Inr True"

definition values_after ::
  "OBDDecoderDictionary \<Rightarrow> SID \<Rightarrow> nat list \<Rightarrow> nat list option \<Rightarrow> (nat \<times> double) list \<Rightarrow> (nat \<times> double) list ub_result" where
  "values_after dict sid g r vals =
     (case r of None \<Rightarrow> Inr vals
      | Some r \<Rightarrow> if answers dict sid g r then walk_pids dict r g 1 vals else Inr vals)"

lemma walk_pids_safe: "lists_pids dict pids inp c = Some (length inp) \<Longrightarrow> \<exists>vals'. walk_pids dict inp pids c vals = Inr vals'"
  using emission_loop_walk emission_loop_safe by metis

lemma values_after_safe: "\<exists>vals'. values_after dict sid g r vals = Inr vals'"
  using walk_pids_safe [of dict g "the r" 1]
  by (auto simp: values_after_def answers_def isPIDResponseValid_eq response_valid_def split: option.split)

lemma receivePIDs_values:
  assumes "mOBDDataDecoder m = Some (Some dict)" and "values_after dict sid g (receivePDU env m) (mPIDsToValues info) = Inr vals"
  shows "\<exists>b info'. receivePIDs env sid g info m = Inr (b, info') \<and> mPIDsToValues info' = vals"
proof (cases "receivePDU env m")
  case None
  then show ?thesis using assms by (auto simp: receivePIDs_def values_after_def)
next
  case (Some r)
  show ?thesis
  proof (cases "answers dict sid g r")
    case True
    then have "decodeEmissionPIDs (Some dict) sid g r info =
        ub_bind (walk_pids dict r g 1 (mPIDsToValues info)) (\<lambda>vals. Inr (vals \<noteq> [], info\<lparr>emSID := sid, mPIDsToValues := vals\<rparr>))"
      using emission_loop_walk [of dict g r 1] byte_differs_first [of 3 r]
      by (simp add: decodeEmissionPIDs_def POSITIVE_ECU_RESPONSE_BASE_def isPIDResponseValid_eq response_valid_def answers_def)
    moreover have "r \<noteq> []" using True by (auto simp: answers_def)
    ultimately show ?thesis using True assms Some by (simp add: receivePIDs_def values_after_def)
  next
    case False
    then have "decodeEmissionPIDs (Some dict) sid g r info = Inr (False, info)"
      using byte_differs_first [of 3 r]
      by (auto simp: decodeEmissionPIDs_def answers_def POSITIVE_ECU_RESPONSE_BASE_def not_le isPIDResponseValid_eq)
    then show ?thesis using assms Some False by (auto simp: receivePIDs_def values_after_def)
  qed
qed

definition logged :: "obd_module \<Rightarrow> (ECUType \<times> nat list) list \<Rightarrow> obd_module" where
  "logged m out = m\<lparr>sentPDUs := sentPDUs m @ out\<rparr>"

lemma logged_simps [simp]:
  "sentPDUs (logged m out) = sentPDUs m @ out" "mOBDDataDecoder (logged m out) = mOBDDataDecoder m"
  "logged (logged m a) b = logged m (a @ b)" "logged m [] = m"
  by (simp_all add: logged_def)

lemma sendPDU_logged: "sendPDU env ecu pdu m = (ecuSend env (sentPDUs m @ [(ecu, pdu)]), logged m [(ecu, pdu)])"
  by (simp add: sendPDU_def logged_def Let_def)

lemma receivePDU_logged: "receivePDU env (logged m out) = ecuReceive env (sentPDUs m @ out)"
  by (simp add: receivePDU_def)

lemma request_group_result:
  assumes "mOBDDataDecoder m = Some (Some dict)" and "length g \<le> MAX_PID_RANGE"
    and "values_after dict sid g (answer env (sentPDUs m @ [(ecu, sid_toUType sid # g)])) (mPIDsToValues info) = Inr vals"
  shows "\<exists>info'. request_group env sid ecu g (info, m) = Inr (info', logged m [(ecu, sid_toUType sid # g)]) \<and> mPIDsToValues info' = vals"
proof (cases "ecuSend env (sentPDUs m @ [(ecu, sid_toUType sid # g)])")
  case True
  then have "receivePDU env (logged m [(ecu, sid_toUType sid # g)]) = answer env (sentPDUs m @ [(ecu, sid_toUType sid # g)])"
    by (simp add: receivePDU_logged answer_def)
  then have "\<exists>b info'. receivePIDs env sid g info (logged m [(ecu, sid_toUType sid # g)]) = Inr (b, info') \<and> mPIDsToValues info' = vals"
    using assms by (intro receivePIDs_values [where dict = dict]) simp_all
  then show ?thesis using assms(2) True by (auto simp: request_group_def requestPIDs_def sendPDU_logged Let_def)
next
  case False
  then show ?thesis using assms by (simp add: request_group_def requestPIDs_def sendPDU_logged answer_def values_after_def Let_def)
qed


text \<open>The groups one after the other, each after what was sent before.\<close>

fun group_values ::
  "obd_env \<Rightarrow> OBDDecoderDictionary \<Rightarrow> SID \<Rightarrow> ECUType \<Rightarrow> (ECUType \<times> nat list) list \<Rightarrow> nat list list \<Rightarrow>
     (nat \<times> double) list \<Rightarrow> (nat \<times> double) list ub_result" where
  "group_values env dict sid ecu h [] vals = Inr vals"
| "group_values env dict sid ecu h (g # gs) vals =
     ub_bind (values_after dict sid g (answer env (h @ [(ecu, sid_toUType sid # g)])) vals)
       (group_values env dict sid ecu (h @ [(ecu, sid_toUType sid # g)]) gs)"

lemma group_values_append:
  "group_values env dict sid ecu h (gs @ gs') vals =
     ub_bind (group_values env dict sid ecu h gs vals)
       (group_values env dict sid ecu (h @ map (\<lambda>g. (ecu, sid_toUType sid # g)) gs) gs')"
proof (induction gs arbitrary: h vals)
  case (Cons g gs)
  then show ?case by (cases "values_after dict sid g (answer env (h @ [(ecu, sid_toUType sid # g)])) vals") simp_all
qed simp

lemma group_values_safe: "\<exists>vals'. group_values env dict sid ecu h gs vals = Inr vals'"
proof (induction gs arbitrary: h vals)
  case (Cons g gs)
  obtain vals1 where "values_after dict sid g (answer env (h @ [(ecu, sid_toUType sid # g)])) vals = Inr vals1"
    using values_after_safe by blast
  with Cons show ?case by simp
qed simp

lemma request_groups_result:
  assumes "mOBDDataDecoder m = Some (Some dict)"
    and "group_values env dict sid ecu (sentPDUs m) (whole_groups pids n) (mPIDsToValues info) = Inr vals"
  shows "\<exists>info'. request_groups env sid ecu pids n (info, m) =
      Inr (info', logged m (map (\<lambda>g. (ecu, sid_toUType sid # g)) (whole_groups pids n))) \<and> mPIDsToValues info' = vals"
  using assms
proof (induction n arbitrary: info m)
  case (Suc n)
  let ?g = "take MAX_PID_RANGE (drop (n * MAX_PID_RANGE) pids)"
  let ?h = "sentPDUs m @ [(ecu, sid_toUType sid # ?g)]"
  obtain vals1 where v1: "values_after dict sid ?g (answer env ?h) (mPIDsToValues info) = Inr vals1"
    using values_after_safe by blast
  from request_group_result [OF Suc.prems(1) _ v1] obtain info1
    where i1: "request_group env sid ecu ?g (info, m) = Inr (info1, logged m [(ecu, sid_toUType sid # ?g)])"
      and e1: "mPIDsToValues info1 = vals1" by auto
  have "group_values env dict sid ecu (sentPDUs (logged m [(ecu, sid_toUType sid # ?g)])) (whole_groups pids n) (mPIDsToValues info1) = Inr vals"
    using Suc.prems(2) v1 by (simp add: e1)
  from Suc.IH [OF _ this] Suc.prems(1) show ?case by (auto simp: i1)
qed simp

lemma emission_requests:
  assumes "mOBDDataDecoder m = Some (Some dict)"
    and "group_values env dict sid ecu (sentPDUs m) (pid_groups pids) (mPIDsToValues info) = Inr vals"
  shows "\<exists>info'. requestReceiveEmissionPIDs env sid pids ecu info m =
      Inr (vals \<noteq> [], info', logged m (map (\<lambda>g. (ecu, sid_toUType sid # g)) (pid_groups pids))) \<and> mPIDsToValues info' = vals"
proof -
  let ?w = "whole_groups pids (length pids div MAX_PID_RANGE)"
  let ?sent = "map (\<lambda>g. (ecu, sid_toUType sid # g))"
  obtain vals1 where v1: "group_values env dict sid ecu (sentPDUs m) ?w (mPIDsToValues info) = Inr vals1"
    using group_values_safe by blast
  from request_groups_result [OF assms(1) v1] obtain info1
    where i1: "request_groups env sid ecu pids (length pids div MAX_PID_RANGE) (info, m) = Inr (info1, logged m (?sent ?w))"
      and e1: "mPIDsToValues info1 = vals1" by blast
  show ?thesis
  proof (cases "length pids mod MAX_PID_RANGE > 0")
    case False
    then show ?thesis using assms(2) v1 i1 e1 by (auto simp: requestReceiveEmissionPIDs_def pid_groups_def)
  next
    case True
    let ?g = "drop (length pids - length pids mod MAX_PID_RANGE) pids"
    have groups: "pid_groups pids = ?w @ [?g]" using True by (simp add: pid_groups_def)
    then have g: "length ?g \<le> MAX_PID_RANGE" using pid_groups_length [of ?g pids] by simp
    obtain vals2 where v2: "values_after dict sid ?g (answer env (sentPDUs (logged m (?sent ?w)) @ [(ecu, sid_toUType sid # ?g)])) vals1 = Inr vals2"
      using values_after_safe by blast
    have "vals2 = vals" using assms(2) v1 v2 by (simp add: groups group_values_append)
    moreover from request_group_result [OF _ g v2 [folded e1]] assms(1)
    obtain info2 where "request_group env sid ecu ?g (info1, logged m (?sent ?w)) =
        Inr (info2, logged m (?sent (pid_groups pids)))" "mPIDsToValues info2 = vals2" by (auto simp: groups)
    ultimately show ?thesis using True i1 by (auto simp: requestReceiveEmissionPIDs_def Let_def)
  qed
qed


section \<open>Where a value comes from\<close>

text \<open>A value that a valid formula of a requested parameter reads from a response, right after the parameter.\<close>

definition decoded_from :: "OBDDecoderDictionary \<Rightarrow> nat list set \<Rightarrow> nat list \<Rightarrow> nat \<Rightarrow> double \<Rightarrow> bool" where
  "decoded_from dict R pids i v \<longleftrightarrow>
     (\<exists>pid \<in> set pids. \<exists>f. dict pid = Some f \<and> (\<exists>s \<in> set (mSignals f). \<exists>r \<in> R. \<exists>c raw.
        mSignalID s = i \<and> isFormulaValid dict pid s \<and> r ! c = pid \<and> c + 1 + mSizeInBytes f \<le> length r \<and>
        formula_raw r (c + 1) s = Inr raw \<and> v = dadd (dmul (of_integer (int raw)) (mFactor s)) (mOffset s)))"

definition wanted_ids :: "OBDDecoderDictionary \<Rightarrow> nat list \<Rightarrow> nat set" where
  "wanted_ids dict pids = {mSignalID s | s pid f. pid \<in> set pids \<and> dict pid = Some f \<and> s \<in> set (mSignals f) \<and> isFormulaValid dict pid s}"

lemma wanted_ids_simps [simp]:
  "wanted_ids dict [] = {}"
  "wanted_ids dict (a @ b) = wanted_ids dict a \<union> wanted_ids dict b"
  by (auto simp: wanted_ids_def)

lemma wanted_ids_Cons:
  "wanted_ids dict (pid # pids) =
     (case dict pid of None \<Rightarrow> {} | Some f \<Rightarrow> mSignalID ` {s \<in> set (mSignals f). isFormulaValid dict pid s}) \<union> wanted_ids dict pids"
  by (auto simp: wanted_ids_def split: option.split)

lemma wanted_ids_set: "set a = set b \<Longrightarrow> wanted_ids dict a = wanted_ids dict b"
  by (simp add: wanted_ids_def)

lemma decoded_from_mono: "decoded_from dict R pids i v \<Longrightarrow> R \<subseteq> R' \<Longrightarrow> set pids \<subseteq> set pids' \<Longrightarrow> decoded_from dict R' pids' i v"
  unfolding decoded_from_def by blast

lemma decoded_fromI:
  "pid \<in> set pids \<Longrightarrow> dict pid = Some f \<Longrightarrow> s \<in> set (mSignals f) \<Longrightarrow> r \<in> R \<Longrightarrow> isFormulaValid dict pid s \<Longrightarrow>
   r ! c = pid \<Longrightarrow> c + 1 + mSizeInBytes f \<le> length r \<Longrightarrow> formula_raw r (c + 1) s = Inr raw \<Longrightarrow>
   decoded_from dict R pids (mSignalID s) (dadd (dmul (of_integer (int raw)) (mFactor s)) (mOffset s))"
  unfolding decoded_from_def by blast

text \<open>How a step of decoding extends the map.\<close>

definition extends_by :: "(nat \<Rightarrow> double \<Rightarrow> bool) \<Rightarrow> nat set \<Rightarrow> (nat \<times> double) list \<Rightarrow> (nat \<times> double) list \<Rightarrow> bool" where
  "extends_by P ids vals vals' \<longleftrightarrow> (\<forall>i v. (i, v) \<in> set vals' \<longrightarrow> (i, v) \<in> set vals \<or> P i v) \<and>
     fst ` set vals' = fst ` set vals \<union> ids \<and> (distinct (map fst vals) \<longrightarrow> distinct (map fst vals'))"

lemma extends_by_refl: "extends_by P {} vals vals"
  by (simp add: extends_by_def)

lemma extends_by_trans:
  assumes "extends_by P ids vals vals1" and "extends_by P ids1 vals1 vals2"
  shows "extends_by P (ids \<union> ids1) vals vals2"
proof -
  have "(i, v) \<in> set vals \<or> P i v" if "(i, v) \<in> set vals2" for i v
    using assms that unfolding extends_by_def by blast
  then show ?thesis using assms by (simp add: extends_by_def Un_assoc)
qed

lemma extends_by_mono: "extends_by P ids vals vals' \<Longrightarrow> (\<And>i v. P i v \<Longrightarrow> Q i v) \<Longrightarrow> extends_by Q ids vals vals'"
  unfolding extends_by_def by blast

lemma emplace_value_extends: "P i v \<Longrightarrow> extends_by P {i} vals (emplace_value i v vals)"
  by (auto simp: extends_by_def emplace_value_def map_of_eq_None_iff rev_image_eqI split: if_splits)

lemma emission_formulas_extends:
  assumes "dict pid = Some f" and "pid \<in> set pids" and "r \<in> R" and "r ! c = pid" and "c + 1 + mSizeInBytes f \<le> length r"
    and "set fs \<subseteq> set (mSignals f)" and "emission_formulas dict r (c + 1) pid fs vals = Inr vals'"
  shows "extends_by (decoded_from dict R pids) (mSignalID ` {s \<in> set fs. isFormulaValid dict pid s}) vals vals'"
  using assms(6,7)
proof (induction fs arbitrary: vals)
  case Nil
  then show ?case by (simp add: extends_by_refl)
next
  case (Cons s fs)
  show ?case
  proof (cases "isFormulaValid dict pid s")
    case False
    then have "{s' \<in> set (s # fs). isFormulaValid dict pid s'} = {s' \<in> set fs. isFormulaValid dict pid s'}" by auto
    then show ?thesis using False Cons by simp
  next
    case True
    obtain raw where raw: "formula_raw r (c + 1) s = Inr raw"
      using formula_raw_safe [where dict = dict, OF assms(1) True assms(5)] by blast
    let ?v = "dadd (dmul (of_integer (int raw)) (mFactor s)) (mOffset s)"
    have "decoded_from dict R pids (mSignalID s) ?v"
      using Cons.prems(1) by (intro decoded_fromI [where dict = dict, OF assms(2,1) _ assms(3) True assms(4,5) raw]) simp
    from emplace_value_extends [where P = "decoded_from dict R pids", OF this] Cons.IH Cons.prems True raw
    have "extends_by (decoded_from dict R pids)
        ({mSignalID s} \<union> mSignalID ` {s' \<in> set fs. isFormulaValid dict pid s'}) vals vals'"
      by (intro extends_by_trans) auto
    moreover have "{s' \<in> set (s # fs). isFormulaValid dict pid s'} = {s} \<union> {s' \<in> set fs. isFormulaValid dict pid s'}"
      using True by auto
    ultimately show ?thesis by simp
  qed
qed

lemma walk_pids_extends:
  assumes "lists_pids dict pids r c = Some (length r)" and "set pids \<subseteq> set all" and "r \<in> R"
    and "walk_pids dict r pids c vals = Inr vals'"
  shows "extends_by (decoded_from dict R all) (wanted_ids dict pids) vals vals'"
  using assms
proof (induction pids arbitrary: c vals)
  case Nil
  then show ?case by (simp add: extends_by_refl)
next
  case (Cons pid pids)
  then obtain f where c: "r ! c = pid" and f: "dict pid = Some f"
    and rest: "lists_pids dict pids r (c + 1 + mSizeInBytes f) = Some (length r)"
    by (auto split: if_splits option.splits)
  have n: "c + 1 + mSizeInBytes f \<le> length r" using lists_pids_mono [OF rest] .
  from Cons.prems(4) f obtain vals1 where v1: "emission_formulas dict r (c + 1) pid (mSignals f) vals = Inr vals1"
    and v2: "walk_pids dict r pids (c + 1 + mSizeInBytes f) vals1 = Inr vals'" by (auto simp: ub_bind_eq_Inr)
  have pid: "pid \<in> set all" and rest': "set pids \<subseteq> set all" using Cons.prems(2) by auto
  have "extends_by (decoded_from dict R all) (mSignalID ` {s \<in> set (mSignals f). isFormulaValid dict pid s} \<union> wanted_ids dict pids) vals vals'"
    by (rule extends_by_trans [OF emission_formulas_extends [where dict = dict, OF f pid Cons.prems(3) c n order_refl v1] Cons.IH [OF rest rest' Cons.prems(3) v2]])
  then show ?case by (simp add: wanted_ids_Cons f)
qed


text \<open>The responses to the messages after the first \<open>k\<close> of the log.\<close>

definition responses :: "obd_env \<Rightarrow> nat \<Rightarrow> (ECUType \<times> nat list) list \<Rightarrow> nat list set" where
  "responses env k sent = {r. \<exists>n. k < n \<and> n \<le> length sent \<and> answer env (take n sent) = Some r}"

lemma responses_next: "answer env (h @ [e]) = Some r \<Longrightarrow> k \<le> length h \<Longrightarrow> r \<in> responses env k (h @ e # rest)"
  unfolding responses_def by (intro CollectI exI [of _ "Suc (length h)"]) simp

text \<open>The parameters of the groups that were answered.\<close>

fun answered :: "obd_env \<Rightarrow> OBDDecoderDictionary \<Rightarrow> SID \<Rightarrow> ECUType \<Rightarrow> (ECUType \<times> nat list) list \<Rightarrow> nat list list \<Rightarrow> nat list" where
  "answered env dict sid ecu h [] = []"
| "answered env dict sid ecu h (g # gs) =
     (let h' = h @ [(ecu, sid_toUType sid # g)] in
      (case answer env h' of None \<Rightarrow> [] | Some r \<Rightarrow> if answers dict sid g r then g else []) @ answered env dict sid ecu h' gs)"

lemma answered_subset: "set (answered env dict sid ecu h gs) \<subseteq> set (concat gs)"
  by (induction gs arbitrary: h) (auto simp: Let_def split: option.splits if_splits)

lemma answered_all:
  "(\<And>h g. g \<in> set gs \<Longrightarrow> \<exists>r. answer env (h @ [(ecu, sid_toUType sid # g)]) = Some r \<and> answers dict sid g r) \<Longrightarrow>
   answered env dict sid ecu h gs = concat gs"
proof (induction gs arbitrary: h)
  case (Cons g gs)
  obtain r where "answer env (h @ [(ecu, sid_toUType sid # g)]) = Some r" "answers dict sid g r"
    using Cons.prems by (metis list.set_intros(1))
  moreover have "answered env dict sid ecu h' gs = concat gs" for h' using Cons by simp
  ultimately show ?case by simp
qed simp

lemma group_values_extends:
  assumes "group_values env dict sid ecu h gs vals = Inr vals'" and "k \<le> length h" and "set (concat gs) \<subseteq> set all"
  shows "extends_by (decoded_from dict (responses env k (h @ map (\<lambda>g. (ecu, sid_toUType sid # g)) gs)) all)
    (wanted_ids dict (answered env dict sid ecu h gs)) vals vals'"
  using assms
proof (induction gs arbitrary: h vals)
  case Nil
  then show ?case by (simp add: extends_by_refl)
next
  case (Cons g gs)
  let ?e = "(ecu, sid_toUType sid # g)"
  let ?R = "responses env k (h @ map (\<lambda>g. (ecu, sid_toUType sid # g)) (g # gs))"
  from Cons.prems(1) obtain vals1 where v1: "values_after dict sid g (answer env (h @ [?e])) vals = Inr vals1"
    and v2: "group_values env dict sid ecu (h @ [?e]) gs vals1 = Inr vals'" by (auto simp: ub_bind_eq_Inr)
  have IH: "extends_by (decoded_from dict ?R all) (wanted_ids dict (answered env dict sid ecu (h @ [?e]) gs)) vals1 vals'"
    using Cons.IH [OF v2] Cons.prems(2,3) by simp
  have first: "extends_by (decoded_from dict ?R all)
      (wanted_ids dict (case answer env (h @ [?e]) of None \<Rightarrow> [] | Some r \<Rightarrow> if answers dict sid g r then g else [])) vals vals1"
  proof (cases "answer env (h @ [?e])")
    case None
    then show ?thesis using v1 by (simp add: values_after_def extends_by_refl)
  next
    case (Some r)
    show ?thesis
    proof (cases "answers dict sid g r")
      case True
      have "r \<in> ?R" using responses_next [OF Some Cons.prems(2)] by simp
      moreover have "lists_pids dict g r 1 = Some (length r)"
        using True by (simp add: answers_def isPIDResponseValid_eq response_valid_def)
      moreover have "walk_pids dict r g 1 vals = Inr vals1" using v1 Some True by (simp add: values_after_def)
      moreover have "set g \<subseteq> set all" using Cons.prems(3) by simp
      ultimately show ?thesis using Some True walk_pids_extends by simp
    qed (use v1 Some in \<open>simp add: values_after_def extends_by_refl\<close>)
  qed
  show ?case using extends_by_trans [OF first IH] by (simp add: Let_def)
qed

section \<open>Values of a control unit in one cycle\<close>

text \<open>The signals the queue takes, when the first is pushed as number \<open>n\<close>.\<close>

definition accepted :: "obd_env \<Rightarrow> nat \<Rightarrow> CollectedSignal list \<Rightarrow> CollectedSignal list" where
  "accepted env n ss = map snd (filter (\<lambda>(k, _). acceptSignal env k) (enumerate n ss))"

definition pushed :: "obd_env \<Rightarrow> CollectedSignal list \<Rightarrow> obd_module \<Rightarrow> obd_module" where
  "pushed env ss m =
     m\<lparr>signalPushes := signalPushes m + length ss, signalBuffer := signalBuffer m @ accepted env (signalPushes m) ss\<rparr>"

lemma accepted_simps [simp]:
  "accepted env n [] = []"
  "accepted env n (s # ss) = (if acceptSignal env n then [s] else []) @ accepted env (Suc n) ss"
  by (simp_all add: accepted_def)

lemma fold_push: "fold (push_signal env) ss m = pushed env ss m"
  by (induction ss arbitrary: m) (simp_all add: pushed_def push_signal_def)

definition signals_of :: "nat \<Rightarrow> (nat \<times> double) list \<Rightarrow> CollectedSignal list" where
  "signals_of t vals = map (\<lambda>(i, v). collected_signal i t v) (sort_key fst vals)"

lemma push_values_pushed: "push_values env t info m = pushed env (signals_of t (mPIDsToValues info)) m"
proof -
  have "fold (\<lambda>(i, v). push_signal env (collected_signal i t v)) vs m = fold (push_signal env) (map (\<lambda>(i, v). collected_signal i t v) vs) m" for vs
    by (induction vs arbitrary: m) auto
  then show ?thesis by (simp add: push_values_def signals_of_def fold_push)
qed

lemma pushed_Nil [simp]: "pushed env [] m = m"
  by (simp add: pushed_def)

lemma collect_emissions_eq:
  assumes "mOBDDataDecoder m = Some (Some dict)" and "mPIDsToRequest m ecu CURRENT_STATS = Some pids"
    and "group_values env dict CURRENT_STATS ecu (sentPDUs m) (pid_groups pids) [] = Inr vals"
  shows "collect_emissions env ecu m = Inr (pushed env (signals_of (pidClock env ecu) vals)
      (logged m (map (\<lambda>g. (ecu, 1 # g)) (pid_groups pids))))"
proof (cases "pids = []")
  case True
  then show ?thesis using assms by (simp add: collect_emissions_def getPIDsToRequest_def pid_groups_def signals_of_def)
next
  case False
  from emission_requests [OF assms(1), of env CURRENT_STATS ecu pids empty_info vals] assms(3)
  obtain info' where "requestReceiveEmissionPIDs env CURRENT_STATS pids ecu empty_info m =
      Inr (vals \<noteq> [], info', logged m (map (\<lambda>g. (ecu, 1 # g)) (pid_groups pids)))" "mPIDsToValues info' = vals"
    by (auto simp: empty_info_def)
  then show ?thesis using False assms(2)
    by (auto simp: collect_emissions_def getPIDsToRequest_def push_values_pushed signals_of_def)
qed

text \<open>
  C24. Collecting from a control unit requests every parameter of its list once, in groups of at
  most six, whatever is answered, and pushes one value for every signal of the groups that were
  answered, in the order of their identifiers. Each value is what a valid formula of a requested
  parameter reads from a response to one of these requests, in the bytes that follow the parameter.
\<close>

theorem emissions_collected:
  assumes "mOBDDataDecoder m = Some (Some dict)" and "mPIDsToRequest m ecu CURRENT_STATS = Some pids"
  shows "\<exists>vals sent. collect_emissions env ecu m = Inr (pushed env (signals_of (pidClock env ecu) vals) (m\<lparr>sentPDUs := sentPDUs m @ sent\<rparr>)) \<and>
    sent = map (\<lambda>g. (ecu, 1 # g)) (pid_groups pids) \<and>
    mset (concat (pid_groups pids)) = mset pids \<and> (\<forall>g \<in> set (pid_groups pids). 0 < length g \<and> length g \<le> 6) \<and>
    distinct (map fst vals) \<and>
    fst ` set vals = wanted_ids dict (answered env dict CURRENT_STATS ecu (sentPDUs m) (pid_groups pids)) \<and>
    (\<forall>(i, v) \<in> set vals. decoded_from dict (responses env (length (sentPDUs m)) (sentPDUs m @ sent)) pids i v)"
proof -
  obtain vals where v: "group_values env dict CURRENT_STATS ecu (sentPDUs m) (pid_groups pids) [] = Inr vals"
    using group_values_safe by blast
  have all: "set (concat (pid_groups pids)) \<subseteq> set pids" using pid_groups_set by fastforce
  from group_values_extends [OF v order_refl all]
  have "distinct (map fst vals) \<and>
    fst ` set vals = wanted_ids dict (answered env dict CURRENT_STATS ecu (sentPDUs m) (pid_groups pids)) \<and>
    (\<forall>(i, v) \<in> set vals. decoded_from dict (responses env (length (sentPDUs m))
       (sentPDUs m @ map (\<lambda>g. (ecu, 1 # g)) (pid_groups pids))) pids i v)"
    by (auto simp: extends_by_def)
  moreover have "\<forall>g \<in> set (pid_groups pids). 0 < length g \<and> length g \<le> 6"
    using pid_groups_length by (auto simp: MAX_PID_RANGE_def)
  ultimately show ?thesis using collect_emissions_eq [OF assms v] pid_groups_mset
    unfolding logged_def by blast
qed

end
