(* ===== verification/ObdSafety.thy ===== *)
theory ObdSafety
  imports ObdBehaviour
begin

text \<open>
  The reachable states of the diagnostics module: the lists of requested parameters are up to
  date, the decoder has the dictionary the requests come from, and no cycle is undefined or sends
  anything a control unit did not announce.
\<close>

section \<open>Intersection\<close>

lemma set_intersection_set: "sorted xs \<Longrightarrow> sorted ys \<Longrightarrow> set (set_intersection xs ys) = set xs \<inter> set ys"
  by (induction xs ys rule: set_intersection.induct) (auto simp: not_less)

lemma set_intersection_subseq: "subseq (set_intersection xs ys) xs"
  by (induction xs ys rule: set_intersection.induct) (auto intro: subseq_Cons')

section \<open>Invariant\<close>

definition requests_ok :: "obd_module \<Rightarrow> bool" where
  "requests_ok m \<longleftrightarrow> (\<forall>ecu. mPIDsToRequest m ecu CURRENT_STATS =
     (case (mSupportedPIDs m ecu CURRENT_STATS, mPIDsRequestedByDecoderDict m CURRENT_STATS) of
        (Some s, Some r) \<Rightarrow> Some (set_intersection s r) | _ \<Rightarrow> None))"

definition lists_sorted :: "obd_module \<Rightarrow> bool" where
  "lists_sorted m \<longleftrightarrow> (\<forall>ecu s. mSupportedPIDs m ecu CURRENT_STATS = Some s \<longrightarrow> sorted s) \<and>
     (\<forall>r. mPIDsRequestedByDecoderDict m CURRENT_STATS = Some r \<longrightarrow> sorted r)"

text \<open>Every requested parameter has a format in the dictionary.\<close>

definition formats_known :: "obd_module \<Rightarrow> bool" where
  "formats_known m \<longleftrightarrow> (\<forall>d. mDecoderDictionaryPtr m = Some d \<and> d \<noteq> [] \<longrightarrow>
     (\<exists>r. mPIDsRequestedByDecoderDict m CURRENT_STATS = Some r \<and> set r \<subseteq> fst ` set d))"

definition decoder_ready :: "obd_module \<Rightarrow> bool" where
  "decoder_ready m \<longleftrightarrow> mOBDDataDecoder m \<noteq> None \<and>
     (\<forall>d. mDecoderDictionaryPtr m = Some d \<and> d \<noteq> [] \<and> \<not> mDecoderManifestAvailable m \<longrightarrow> mOBDDataDecoder m = Some (Some (map_of d)))"

definition obd_inv :: "obd_module \<Rightarrow> bool" where
  "obd_inv m \<longleftrightarrow> requests_ok m \<and> lists_sorted m \<and> formats_known m \<and> decoder_ready m"

text \<open>What may be sent: the VIN request to the engine, trouble code requests, and requests of one to
  six parameters that are supported ranges or both announced and wanted.\<close>

definition pdu_allowed :: "obd_module \<Rightarrow> ECUType \<times> nat list \<Rightarrow> bool" where
  "pdu_allowed m = (\<lambda>(ecu, pdu). (ecu = TRANSMISSION \<longrightarrow> mHasTransmission m) \<and>
     (pdu = [3] \<or> ecu = ENGINE \<and> pdu = [9, 2] \<or>
      (\<exists>g. pdu = 1 # g \<and> 0 < length g \<and> length g \<le> 6 \<and>
         (set g \<subseteq> set supportedPIDRange \<or>
          (\<exists>s r. mSupportedPIDs m ecu CURRENT_STATS = Some s \<and> mPIDsRequestedByDecoderDict m CURRENT_STATS = Some r \<and>
             set g \<subseteq> set s \<inter> set r)))))"

text \<open>Steps of a cycle keep what is configured and wanted, and only add supported parameters and messages.\<close>

definition keeps_config :: "obd_module \<Rightarrow> obd_module \<Rightarrow> bool" where
  "keeps_config m m' \<longleftrightarrow> mHasTransmission m' = mHasTransmission m \<and>
     mPIDsRequestedByDecoderDict m' = mPIDsRequestedByDecoderDict m \<and>
     mDecoderDictionaryPtr m' = mDecoderDictionaryPtr m \<and>
     mPIDRequestIntervalSeconds m' = mPIDRequestIntervalSeconds m \<and>
     mDTCRequestIntervalSeconds m' = mDTCRequestIntervalSeconds m \<and>
     mShouldRequestDTCs m' = mShouldRequestDTCs m \<and>
     (\<forall>ecu s. mSupportedPIDs m ecu CURRENT_STATS = Some s \<longrightarrow> mSupportedPIDs m' ecu CURRENT_STATS = Some s)"

definition proceeds :: "obd_module \<Rightarrow> obd_module \<Rightarrow> bool" where
  "proceeds m m' \<longleftrightarrow> keeps_config m m' \<and> mDecoderManifestAvailable m' = mDecoderManifestAvailable m \<and>
     mOBDDataDecoder m' = mOBDDataDecoder m \<and>
     (\<exists>sent. sentPDUs m' = sentPDUs m @ sent \<and> (\<forall>p \<in> set sent. pdu_allowed m' p))"

lemma keeps_config_trans: "keeps_config m m1 \<Longrightarrow> keeps_config m1 m2 \<Longrightarrow> keeps_config m m2"
  by (simp add: keeps_config_def)

lemma pdu_allowed_mono: "pdu_allowed m p \<Longrightarrow> keeps_config m m' \<Longrightarrow> pdu_allowed m' p"
  unfolding pdu_allowed_def keeps_config_def by (cases p) (simp, blast)

lemma proceeds_refl [simp]: "proceeds m m"
  by (simp add: proceeds_def keeps_config_def)

lemma proceeds_trans: "proceeds m m1 \<Longrightarrow> proceeds m1 m2 \<Longrightarrow> proceeds m m2"
proof -
  assume a: "proceeds m m1" "proceeds m1 m2"
  then obtain s1 s2 where s: "sentPDUs m1 = sentPDUs m @ s1" "\<forall>p \<in> set s1. pdu_allowed m1 p"
    "sentPDUs m2 = sentPDUs m1 @ s2" "\<forall>p \<in> set s2. pdu_allowed m2 p" by (auto simp: proceeds_def)
  have k: "keeps_config m1 m2" using a by (simp add: proceeds_def)
  have "\<forall>p \<in> set (s1 @ s2). pdu_allowed m2 p" using s k pdu_allowed_mono by auto
  moreover have "sentPDUs m2 = sentPDUs m @ (s1 @ s2)" using s by simp
  ultimately show ?thesis using a keeps_config_trans unfolding proceeds_def by metis
qed

text \<open>A step that is defined, proceeds and keeps the invariant.\<close>

definition step_ok :: "obd_module \<Rightarrow> obd_module ub_result \<Rightarrow> bool" where
  "step_ok m r \<longleftrightarrow> (\<exists>m'. r = Inr m' \<and> obd_inv m' \<and> proceeds m m')"

lemma step_ok_Inr: "step_ok m (Inr m') \<longleftrightarrow> obd_inv m' \<and> proceeds m m'"
  by (simp add: step_ok_def)

lemma step_ok_bind: "step_ok m r \<Longrightarrow> (\<And>m'. obd_inv m' \<Longrightarrow> proceeds m m' \<Longrightarrow> step_ok m' (f m')) \<Longrightarrow> step_ok m (ub_bind r f)"
  unfolding step_ok_def by (cases r) (simp, metis proceeds_trans ub_bind_simps(2))

lemma inv_logged [simp]: "obd_inv (logged m sent) = obd_inv m"
  by (simp add: logged_def obd_inv_def requests_ok_def lists_sorted_def formats_known_def decoder_ready_def)

lemma inv_pushed [simp]: "obd_inv (pushed env ss m) = obd_inv m"
  by (simp add: pushed_def obd_inv_def requests_ok_def lists_sorted_def formats_known_def decoder_ready_def)

lemma inv_vin [simp]: "obd_inv (m\<lparr>mVIN := v\<rparr>) = obd_inv m" "obd_inv (m\<lparr>dtcBuffer := b\<rparr>) = obd_inv m"
  by (simp_all add: obd_inv_def requests_ok_def lists_sorted_def formats_known_def decoder_ready_def)

lemma pdu_allowed_cong: "mHasTransmission m' = mHasTransmission m \<Longrightarrow> mSupportedPIDs m' = mSupportedPIDs m \<Longrightarrow>
   mPIDsRequestedByDecoderDict m' = mPIDsRequestedByDecoderDict m \<Longrightarrow> pdu_allowed m' = pdu_allowed m"
  by (simp add: pdu_allowed_def)

lemma allowed_simps [simp]:
  "pdu_allowed (logged m sent) = pdu_allowed m" "pdu_allowed (pushed env ss m) = pdu_allowed m"
  "pdu_allowed (m\<lparr>mVIN := v\<rparr>) = pdu_allowed m" "pdu_allowed (m\<lparr>dtcBuffer := b\<rparr>) = pdu_allowed m"
  by (rule pdu_allowed_cong; simp add: logged_def pushed_def)+

lemma proceeds_logged: "(\<And>p. p \<in> set sent \<Longrightarrow> pdu_allowed m p) \<Longrightarrow> proceeds m (logged m sent)"
proof -
  assume "\<And>p. p \<in> set sent \<Longrightarrow> pdu_allowed m p"
  then have "\<forall>p \<in> set sent. pdu_allowed (logged m sent) p" by simp
  moreover have "keeps_config m (logged m sent)" by (simp add: keeps_config_def logged_def)
  moreover have "mDecoderManifestAvailable (logged m sent) = mDecoderManifestAvailable m" by (simp add: logged_def)
  ultimately show ?thesis unfolding proceeds_def by (intro conjI exI [of _ sent]) simp_all
qed


lemma proceeds_pushed: "proceeds m (pushed env ss m)"
  by (simp add: proceeds_def keeps_config_def) (simp add: pushed_def)

lemma proceeds_vin: "proceeds m (m\<lparr>mVIN := v\<rparr>)" "proceeds m (m\<lparr>dtcBuffer := b\<rparr>)"
  by (simp_all add: proceeds_def keeps_config_def)

section \<open>The stages of a cycle\<close>

lemma inv_decoder: "obd_inv m \<Longrightarrow> \<exists>d. mOBDDataDecoder m = Some d"
  by (auto simp: obd_inv_def decoder_ready_def)

lemma inv_dictionary:
  assumes "obd_inv m" and "has_dictionary m" and "\<not> mDecoderManifestAvailable m"
  shows "\<exists>dict. mOBDDataDecoder m = Some (Some dict)"
  using assms by (auto simp: obd_inv_def decoder_ready_def has_dictionary_def split: option.splits)

lemma receiveSupportedPIDs_ok:
  assumes "mOBDDataDecoder m \<noteq> None" shows "\<exists>r. receiveSupportedPIDs env sid ps m = Inr r"
  using assms decodeSupportedPIDs_safe by (fastforce simp: receiveSupportedPIDs_def split: option.split)

lemma receiveDTCs_ok:
  assumes "mOBDDataDecoder m \<noteq> None" shows "\<exists>r. receiveDTCs env sid info m = Inr r"
  using assms decodeDTCs_safe by (fastforce simp: receiveDTCs_def split: option.split)

lemma requestReceiveVIN_ok:
  assumes "mOBDDataDecoder m \<noteq> None"
  shows "\<exists>b v. requestReceiveVIN env m = Inr (b, (logged m [(ENGINE, [9, 2])])\<lparr>mVIN := v\<rparr>)"
proof -
  let ?l = "logged m [(ENGINE, [9, 2])]"
  obtain d where d: "mOBDDataDecoder m = Some d" using assms by blast
  have same: "?l = ?l\<lparr>mVIN := mVIN ?l\<rparr>" by simp
  show ?thesis
  proof (cases "ecuSend env (sentPDUs m @ [(ENGINE, [9, 2])]) \<and> (\<exists>r. receivePDU env ?l = Some r \<and> r \<noteq> [])")
    case True
    then obtain r where r: "receivePDU env ?l = Some r" "r \<noteq> []" by blast
    obtain b v where "decodeVIN r (mVIN ?l) = Inr (b, v)" using decodeVIN_safe [of r "mVIN ?l"] by auto
    then have "requestReceiveVIN env m = Inr (b, ?l\<lparr>mVIN := v\<rparr>)"
      using True r d by (simp add: requestReceiveVIN_def sendPDU_logged vehicleIdentificationNumberRequest_def)
    then show ?thesis by blast
  next
    case False
    then have "requestReceiveVIN env m = Inr (False, ?l)"
      by (auto simp: requestReceiveVIN_def sendPDU_logged vehicleIdentificationNumberRequest_def split: option.split)
    then show ?thesis using same by metis
  qed
qed

lemma request_vin_ok: "obd_inv m \<Longrightarrow> step_ok m (request_vin env m)"
proof -
  assume inv: "obd_inv m"
  let ?l = "logged m [(ENGINE, [9, 2])]"
  have p: "proceeds m ?l" by (rule proceeds_logged) (auto simp: pdu_allowed_def)
  have v: "proceeds m (?l\<lparr>mVIN := v\<rparr>)" for v by (rule proceeds_trans [OF p proceeds_vin(1)])
  have "mOBDDataDecoder m \<noteq> None" using inv_decoder [OF inv] by auto
  then obtain b w where "requestReceiveVIN env m = Inr (b, ?l\<lparr>mVIN := w\<rparr>)" using requestReceiveVIN_ok by blast
  then show ?thesis using inv v by (auto simp: request_vin_def step_ok_Inr)
qed

lemma request_supported_ok:
  assumes "mOBDDataDecoder m \<noteq> None" and "length g \<le> 6"
  shows "\<exists>b' ps'. request_supported env CURRENT_STATS ecu g (b, ps, m) = Inr (b', ps', logged m [(ecu, 1 # g)])"
  using assms receiveSupportedPIDs_ok [of "logged m [(ecu, 1 # g)]" env CURRENT_STATS ps]
  by (auto simp: request_supported_def requestPIDs_def sendPDU_logged MAX_PID_RANGE_def split: prod.split)

lemma requestReceiveSupportedPIDs_ok:
  assumes "mOBDDataDecoder m \<noteq> None"
  shows "\<exists>b ps. requestReceiveSupportedPIDs env CURRENT_STATS ecu m =
     Inr (b, ps, logged m [(ecu, [1, 0x00, 0x20, 0x40, 0x60, 0x80, 0xA0]), (ecu, [1, 0xC0, 0xE0])])"
proof -
  let ?a = "[0x00, 0x20, 0x40, 0x60, 0x80, 0xA0] :: nat list" and ?b = "[0xC0, 0xE0] :: nat list"
  obtain b ps where 1: "request_supported env CURRENT_STATS ecu ?a (False, [], m) = Inr (b, ps, logged m [(ecu, 1 # ?a)])"
    using request_supported_ok [OF assms, of ?a env ecu False "[]"] by auto
  obtain b' ps' where 2: "request_supported env CURRENT_STATS ecu ?b (b, ps, logged m [(ecu, 1 # ?a)]) =
      Inr (b', ps', logged (logged m [(ecu, 1 # ?a)]) [(ecu, 1 # ?b)])"
    using request_supported_ok [of "logged m [(ecu, 1 # ?a)]" ?b env ecu b ps] assms by auto
  show ?thesis using 1 2 by (simp add: requestReceiveSupportedPIDs_def supportedPIDRange_def MAX_PID_RANGE_def)
qed

text \<open>Learning the supported parameters of a control unit brings its request list up to date.\<close>

definition learned :: "ECUType \<Rightarrow> nat list \<Rightarrow> obd_module \<Rightarrow> obd_module" where
  "learned ecu ps m = updatePIDRequestList CURRENT_STATS ecu
     (m\<lparr>mSupportedPIDs := (mSupportedPIDs m)(ecu := (mSupportedPIDs m ecu)(CURRENT_STATS \<mapsto> sort ps))\<rparr>)"

lemma learned_inv:
  assumes "obd_inv m" and "mSupportedPIDs m ecu CURRENT_STATS = None"
  shows "obd_inv (learned ecu ps m)" and "proceeds m (learned ecu ps m)"
  using assms
  by (auto simp: learned_def updatePIDRequestList_def obd_inv_def requests_ok_def lists_sorted_def formats_known_def
      decoder_ready_def proceeds_def keeps_config_def split: option.splits)

lemma discover_ok:
  assumes "obd_inv m" and "mSupportedPIDs m ecu CURRENT_STATS = None" and "ecu = TRANSMISSION \<Longrightarrow> mHasTransmission m"
  shows "step_ok m (discover env ecu m)"
proof -
  let ?l = "logged m [(ecu, [1, 0x00, 0x20, 0x40, 0x60, 0x80, 0xA0]), (ecu, [1, 0xC0, 0xE0])]"
  have "mOBDDataDecoder m \<noteq> None" using inv_decoder [OF assms(1)] by auto
  from requestReceiveSupportedPIDs_ok [OF this] obtain b ps
    where r: "requestReceiveSupportedPIDs env CURRENT_STATS ecu m = Inr (b, ps, ?l)" by blast
  have p: "proceeds m ?l"
    using assms(3) by (intro proceeds_logged) (auto simp: pdu_allowed_def supportedPIDRange_def)
  have l: "obd_inv ?l" "mSupportedPIDs ?l ecu CURRENT_STATS = None" using assms by (simp, simp add: logged_def)
  have "discover env ecu m = (if b then Inr (learned ecu ps ?l) else Inr ?l)"
    by (simp add: discover_def r learned_def)
  then show ?thesis using learned_inv [OF l] p l(1) by (auto simp: step_ok_Inr intro: proceeds_trans)
qed

lemma discover_stages_ok:
  assumes "obd_inv m"
  shows "step_ok m (discover_engine env m)" and "step_ok m (discover_transmission env m)"
  using discover_ok [OF assms] assms by (auto simp: discover_engine_def discover_transmission_def step_ok_Inr)

lemma request_list:
  assumes "obd_inv m" and "mPIDsToRequest m ecu CURRENT_STATS = Some pids"
  shows "\<exists>s r. mSupportedPIDs m ecu CURRENT_STATS = Some s \<and> mPIDsRequestedByDecoderDict m CURRENT_STATS = Some r \<and> set pids = set s \<inter> set r"
proof -
  obtain s r where s: "mSupportedPIDs m ecu CURRENT_STATS = Some s" "mPIDsRequestedByDecoderDict m CURRENT_STATS = Some r"
    "pids = set_intersection s r" using assms by (auto simp: obd_inv_def requests_ok_def split: option.splits)
  then show ?thesis using assms(1) set_intersection_set by (auto simp: obd_inv_def lists_sorted_def)
qed

lemma collect_emissions_ok:
  assumes "obd_inv m" and "has_dictionary m" and "\<not> mDecoderManifestAvailable m" and "ecu = TRANSMISSION \<Longrightarrow> mHasTransmission m"
  shows "step_ok m (collect_emissions env ecu m)"
proof (cases "mPIDsToRequest m ecu CURRENT_STATS")
  case None
  then show ?thesis using assms(1) by (simp add: collect_emissions_def getPIDsToRequest_def step_ok_Inr)
next
  case (Some pids)
  obtain dict where dict: "mOBDDataDecoder m = Some (Some dict)" using inv_dictionary [OF assms(1-3)] ..
  obtain vals where v: "group_values env dict CURRENT_STATS ecu (sentPDUs m) (pid_groups pids) [] = Inr vals"
    using group_values_safe by blast
  obtain s r where sr: "mSupportedPIDs m ecu CURRENT_STATS = Some s" "mPIDsRequestedByDecoderDict m CURRENT_STATS = Some r"
    "set pids = set s \<inter> set r" using request_list [OF assms(1) Some] by blast
  have "proceeds m (logged m (map (\<lambda>g. (ecu, 1 # g)) (pid_groups pids)))"
  proof (rule proceeds_logged)
    fix p assume "p \<in> set (map (\<lambda>g. (ecu, 1 # g)) (pid_groups pids))"
    then obtain g where g: "p = (ecu, 1 # g)" "g \<in> set (pid_groups pids)" by auto
    then have "0 < length g" "length g \<le> 6" "set g \<subseteq> set s \<inter> set r"
      using pid_groups_length [OF g(2)] pid_groups_set [OF g(2)] sr(3) by (auto simp: MAX_PID_RANGE_def)
    then show "pdu_allowed m p" using g sr(1,2) assms(4) by (auto simp: pdu_allowed_def)
  qed
  then have "proceeds m (pushed env ss (logged m (map (\<lambda>g. (ecu, 1 # g)) (pid_groups pids))))" for ss
    by (rule proceeds_trans [OF _ proceeds_pushed])
  then show ?thesis using assms(1) by (simp add: collect_emissions_eq [OF dict Some v] step_ok_Inr)
qed


lemma proceeds_has_dictionary: "proceeds m m' \<Longrightarrow> has_dictionary m' = has_dictionary m"
  "proceeds m m' \<Longrightarrow> mDecoderManifestAvailable m' = mDecoderManifestAvailable m"
  by (simp_all add: proceeds_def keeps_config_def has_dictionary_def)

lemma pid_flow_ok:
  assumes "obd_inv m" and "\<not> mDecoderManifestAvailable m"
  shows "step_ok m (pid_flow env m)"
proof (cases "has_dictionary m")
  case False
  then show ?thesis using assms by (simp add: pid_flow_def step_ok_Inr)
next
  case True
  have collect: "step_ok m2 (collect_emissions env ecu m2)" if "obd_inv m2" "proceeds m m2" "ecu = TRANSMISSION \<Longrightarrow> mHasTransmission m2" for m2 ecu
    using collect_emissions_ok [OF that(1)] that(3) proceeds_has_dictionary [OF that(2)] True assms(2) by blast
  have transmission: "step_ok m2 (collect_transmission env m2)" if "obd_inv m2" "proceeds m m2" for m2
    using collect [OF that] that(1) by (auto simp: collect_transmission_def step_ok_Inr)
  have flow: "step_ok m1 (ub_bind (discover_engine env m1) (\<lambda>m. ub_bind (discover_transmission env m) (\<lambda>m.
      ub_bind (collect_emissions env ENGINE m) (collect_transmission env))))" if "obd_inv m1" "proceeds m m1" for m1
    by (intro step_ok_bind discover_stages_ok that collect transmission; (elim proceeds_trans [rotated])?; (assumption | simp)?)
       (use that(2) proceeds_trans in blast)+
  show ?thesis unfolding pid_flow_def
    by (simp only: True simp_thms if_False)
       (intro step_ok_bind request_vin_ok assms(1), use flow in \<open>auto simp: step_ok_Inr\<close>)
qed

lemma requestReceiveDTCs_ok:
  assumes "mOBDDataDecoder m \<noteq> None"
  shows "\<exists>b info'. requestReceiveDTCs env STORED_DTC ecu info m = Inr (b, info', logged m [(ecu, [3])])"
  using assms receiveDTCs_ok [of "logged m [(ecu, [3])]" env STORED_DTC info]
  by (auto simp: requestReceiveDTCs_def requestDTCs_def sendPDU_logged split: prod.split)

lemma dtc_flow_ok:
  assumes "obd_inv m"
  shows "step_ok m (dtc_flow env m)"
proof (cases "dtcs_due env m")
  case False
  then show ?thesis using assms by (simp add: dtc_flow_def step_ok_Inr)
next
  case True
  have d: "mOBDDataDecoder m \<noteq> None" using inv_decoder [OF assms] by auto
  obtain b info where 1: "requestReceiveDTCs env STORED_DTC ENGINE (default_DTCInfo\<lparr>dtcReceiveTime := dtcClock env\<rparr>) m =
      Inr (b, info, logged m [(ENGINE, [3])])" using requestReceiveDTCs_ok [OF d] by blast
  let ?r = "if mHasTransmission (logged m [(ENGINE, [3])])
     then requestReceiveDTCs env STORED_DTC TRANSMISSION info (logged m [(ENGINE, [3])])
     else Inr (False, info, logged m [(ENGINE, [3])])"
  have "\<exists>b' info' sent. ?r = Inr (b', info', logged m sent) \<and> (\<forall>p \<in> set sent. pdu_allowed m p)"
  proof (cases "mHasTransmission m")
    case True
    have "mOBDDataDecoder (logged m [(ENGINE, [3])]) \<noteq> None" using d by simp
    from requestReceiveDTCs_ok [OF this] obtain b' info' where
      "requestReceiveDTCs env STORED_DTC TRANSMISSION info (logged m [(ENGINE, [3])]) = Inr (b', info', logged m [(ENGINE, [3]), (TRANSMISSION, [3])])"
      by fastforce
    moreover have "\<forall>p \<in> set [(ENGINE, [3]), (TRANSMISSION, [3])]. pdu_allowed m p" using True by (simp add: pdu_allowed_def)
    moreover have "mHasTransmission (logged m [(ENGINE, [3])])" using True by (simp add: logged_def)
    ultimately show ?thesis by (metis (no_types, lifting))
  next
    case False
    then have "\<not> mHasTransmission (logged m [(ENGINE, [3])])" by (simp add: logged_def)
    moreover have "\<forall>p \<in> set [(ENGINE, [3])]. pdu_allowed m p" by (simp add: pdu_allowed_def)
    ultimately show ?thesis by (metis (no_types, lifting))
  qed
  then obtain b' info' sent where 2: "?r = Inr (b', info', logged m sent)" and a: "\<forall>p \<in> set sent. pdu_allowed m p" by blast
  have p: "proceeds m (logged m sent)" using a by (auto intro: proceeds_logged)
  then have "proceeds m ((logged m sent)\<lparr>dtcBuffer := x\<rparr>)" for x by (rule proceeds_trans [OF _ proceeds_vin(2)])
  then show ?thesis using True 1 2 p assms by (simp add: dtc_flow_def step_ok_Inr)
qed

lemma take_dictionary_ok:
  assumes "obd_inv m"
  shows "\<exists>m'. take_dictionary m = Inr m' \<and> obd_inv m' \<and> \<not> mDecoderManifestAvailable m' \<and> keeps_config m m' \<and> sentPDUs m' = sentPDUs m"
  using assms by (auto simp: take_dictionary_def obd_inv_def decoder_ready_def requests_ok_def lists_sorted_def formats_known_def
      keeps_config_def split: option.splits)

lemma obd_wait_config: "keeps_config m m' \<Longrightarrow> obd_wait m' = obd_wait m"
  by (simp add: keeps_config_def obd_wait_def)

lemma obd_cycle_ok:
  assumes "obd_inv m"
  shows "\<exists>m' sent. obd_cycle env m = Inr (obd_wait m, m') \<and> obd_inv m' \<and> keeps_config m m' \<and>
     sentPDUs m' = sentPDUs m @ sent \<and> (\<forall>p \<in> set sent. pdu_allowed m' p)"
proof -
  obtain m1 where m1: "take_dictionary m = Inr m1" "obd_inv m1" "\<not> mDecoderManifestAvailable m1" "keeps_config m m1"
    "sentPDUs m1 = sentPDUs m" using take_dictionary_ok [OF assms] by blast
  have "step_ok m1 (ub_bind (pid_flow env m1) (dtc_flow env))"
    by (rule step_ok_bind [OF pid_flow_ok [OF m1(2,3)]]) (rule dtc_flow_ok)
  then obtain m2 where m2: "ub_bind (pid_flow env m1) (dtc_flow env) = Inr m2" "obd_inv m2" "proceeds m1 m2"
    by (auto simp: step_ok_def)
  then obtain sent where sent: "sentPDUs m2 = sentPDUs m1 @ sent" "\<forall>p \<in> set sent. pdu_allowed m2 p" "keeps_config m1 m2"
    by (auto simp: proceeds_def)
  have k: "keeps_config m m2" by (rule keeps_config_trans [OF m1(4) sent(3)])
  have "obd_cycle env m = Inr (obd_wait m2, m2)" using m1(1) m2(1) by (auto simp: obd_cycle_def ub_bind_eq_Inr)
  then show ?thesis using m2(2) k sent m1(5) obd_wait_config [OF k] by auto
qed


section \<open>Reachable states\<close>

lemma emplace_formats_keys: "fst ` set (emplace_formats es m) = fst ` set m \<union> (\<lambda>p. u8 (fst p)) ` set es"
proof (induction es m rule: emplace_formats.induct)
  case (2 k x es m)
  show ?case
  proof (cases "map_of m (u8 k)")
    case None
    then show ?thesis using 2 by auto
  next
    case (Some y)
    then have "u8 k \<in> fst ` set m" by (metis domI dom_map_of_conv_image_fst)
    then show ?thesis using 2 Some by auto
  qed
qed simp

lemma matrix_callback_inv: "obd_inv m \<Longrightarrow> obd_inv (obd_onChangeInspectionMatrix M m)"
  by (auto simp: obd_onChangeInspectionMatrix_def obd_inv_def requests_ok_def lists_sorted_def formats_known_def
      decoder_ready_def split: option.split)

lemma update_requests:
  "mPIDsToRequest (updatePIDRequestList sid ecu m) =
     (case (mSupportedPIDs m ecu sid, mPIDsRequestedByDecoderDict m sid) of
        (Some s, Some r) \<Rightarrow> (mPIDsToRequest m)(ecu := (mPIDsToRequest m ecu)(sid \<mapsto> set_intersection s r))
      | _ \<Rightarrow> mPIDsToRequest m)"
  "mSupportedPIDs (updatePIDRequestList sid ecu m) = mSupportedPIDs m"
  "mPIDsRequestedByDecoderDict (updatePIDRequestList sid ecu m) = mPIDsRequestedByDecoderDict m"
  "mOBDDataDecoder (updatePIDRequestList sid ecu m) = mOBDDataDecoder m"
  "mDecoderDictionaryPtr (updatePIDRequestList sid ecu m) = mDecoderDictionaryPtr m"
  "mDecoderManifestAvailable (updatePIDRequestList sid ecu m) = mDecoderManifestAvailable m"
  by (simp_all add: updatePIDRequestList_def split: option.split)

lemma ECUType_all: "(\<forall>ecu. P ecu) \<longleftrightarrow> P ENGINE \<and> P TRANSMISSION"
  by (metis ECUType.exhaust)

lemma dictionary_callback_inv:
  assumes "obd_inv m"
  shows "obd_inv (obd_onChangeOfActiveDictionary d p m)"
proof (cases "p = OBD \<and> d \<noteq> None")
  case False
  then show ?thesis using assms
    by (auto simp: obd_onChangeOfActiveDictionary_def obd_inv_def requests_ok_def lists_sorted_def formats_known_def
        decoder_ready_def split: option.split)
next
  case True
  then obtain v where v: "p = OBD" "d = Some v" by auto
  obtain x where x: "mOBDDataDecoder m = Some x" using inv_decoder [OF assms] ..
  let ?f = "emplace_formats (view_entries v) []"
  let ?r = "sort (map (\<lambda>p. u8 (fst p)) (filter (\<lambda>p. wants v (snd p)) (view_entries v)))"
  let ?m = "m\<lparr>mDecoderDictionaryPtr := Some ?f,
      mPIDsRequestedByDecoderDict := (mPIDsRequestedByDecoderDict m)(CURRENT_STATS \<mapsto> ?r)\<rparr>"
  let ?u = "updatePIDRequestList CURRENT_STATS TRANSMISSION (updatePIDRequestList CURRENT_STATS ENGINE ?m)"
  have result: "obd_onChangeOfActiveDictionary d p m = (if ?f \<noteq> [] then ?u\<lparr>mDecoderManifestAvailable := True\<rparr> else ?u)"
    by (simp add: obd_onChangeOfActiveDictionary_def v x Let_def)
  have keys: "set ?r \<subseteq> fst ` set ?f" by (auto simp: emplace_formats_keys)
  have "requests_ok ?u" "requests_ok (?u\<lparr>mDecoderManifestAvailable := True\<rparr>)"
    using assms unfolding requests_ok_def ECUType_all obd_inv_def
    by (auto simp: update_requests split: option.splits)
  moreover have "lists_sorted ?u" "lists_sorted (?u\<lparr>mDecoderManifestAvailable := True\<rparr>)"
    using assms by (auto simp: lists_sorted_def obd_inv_def update_requests)
  moreover have "formats_known ?u" "formats_known (?u\<lparr>mDecoderManifestAvailable := True\<rparr>)"
    using keys by (auto simp: formats_known_def update_requests)
  moreover have "decoder_ready (?u\<lparr>mDecoderManifestAvailable := True\<rparr>)" "?f = [] \<Longrightarrow> decoder_ready ?u"
    using x by (simp_all add: decoder_ready_def update_requests)
  ultimately have invs: "obd_inv (?u\<lparr>mDecoderManifestAvailable := True\<rparr>)" "?f = [] \<Longrightarrow> obd_inv ?u"
    unfolding obd_inv_def by blast+
  show ?thesis
  proof (cases "?f = []")
    case True
    then have "obd_onChangeOfActiveDictionary d p m = ?u" by (intro trans [OF result if_not_P]) blast
    then show ?thesis using invs(2) [OF True] by (simp only:)
  next
    case False
    then have "obd_onChangeOfActiveDictionary d p m = ?u\<lparr>mDecoderManifestAvailable := True\<rparr>" by (rule trans [OF result if_P])
    then show ?thesis using invs(1) by (simp only:)
  qed
qed

inductive obd_step :: "obd_module \<Rightarrow> obd_module \<Rightarrow> bool" where
  cycle: "obd_cycle env m = Inr (w, m') \<Longrightarrow> obd_step m m'"
| matrix: "obd_step m (obd_onChangeInspectionMatrix M m)"
| dictionary: "obd_step m (obd_onChangeOfActiveDictionary d p m)"

definition obd_started :: "nat \<Rightarrow> nat \<Rightarrow> bool \<Rightarrow> obd_module" where
  "obd_started pidInterval dtcInterval transmission =
     obd_start (snd (obd_init True True pidInterval dtcInterval transmission new_obd_module))"

lemma started_inv: "pid \<noteq> 0 \<or> dtc \<noteq> 0 \<Longrightarrow> obd_inv (obd_started pid dtc tr)"
  by (auto simp: obd_started_def obd_start_def obd_init_def new_obd_module_def obd_inv_def requests_ok_def lists_sorted_def
      formats_known_def decoder_ready_def Let_def)

lemma callback_config:
  "mPIDRequestIntervalSeconds (obd_onChangeInspectionMatrix M m) = mPIDRequestIntervalSeconds m"
  "mDTCRequestIntervalSeconds (obd_onChangeInspectionMatrix M m) = mDTCRequestIntervalSeconds m"
  "mPIDRequestIntervalSeconds (obd_onChangeOfActiveDictionary d p m) = mPIDRequestIntervalSeconds m"
  "mDTCRequestIntervalSeconds (obd_onChangeOfActiveDictionary d p m) = mDTCRequestIntervalSeconds m"
  by (auto simp: obd_onChangeInspectionMatrix_def obd_onChangeOfActiveDictionary_def updatePIDRequestList_def Let_def split: option.split)

lemma obd_step_inv:
  assumes "obd_step m m'" and "obd_inv m"
  shows "obd_inv m' \<and> obd_wait m' = obd_wait m"
  using assms
proof (induction rule: obd_step.induct)
  case (cycle env m w m')
  then show ?case using obd_cycle_ok [OF cycle(2), of env] obd_wait_config by fastforce
qed (simp_all add: matrix_callback_inv dictionary_callback_inv callback_config obd_wait_def)

lemma obd_reachable_inv:
  assumes "obd_step\<^sup>*\<^sup>* m m'" and "obd_inv m"
  shows "obd_inv m' \<and> obd_wait m' = obd_wait m"
  using assms by (induction rule: rtranclp_induct) (auto dest: obd_step_inv)


text \<open>
  The module starts with an interval of zero for parameters when trouble codes are to be
  requested, and then the wait of every cycle is zero: the thread never sleeps between cycles.
\<close>

theorem trouble_codes_only_spins:
  assumes "dtc \<noteq> 0" and "obd_step\<^sup>*\<^sup>* (obd_started 0 dtc transmission) m"
  shows "\<exists>m'. obd_cycle env m = Inr (0, m')"
proof -
  have inv: "obd_inv (obd_started 0 dtc transmission)" using assms(1) by (intro started_inv) simp
  have "obd_wait (obd_started 0 dtc transmission) = 0"
    using assms(1) by (simp add: obd_wait_def obd_started_def obd_start_def obd_init_def Let_def u32_def)
  then have "obd_inv m" "obd_wait m = 0" using obd_reachable_inv [OF assms(2) inv] by auto
  then show ?thesis using obd_cycle_ok [of m env] by auto
qed

section \<open>Examples\<close>

text \<open>An engine control unit that announces parameter 12 only and a dictionary that wants it.\<close>

definition sample_obd_env :: obd_env where
  "sample_obd_env =
     \<lparr>ecuAlive = True, pidElapsed = 5, dtcElapsed = 5, pidClock = (\<lambda>_. 1000), dtcClock = 1000,
      ecuSend = (\<lambda>_. True),
      ecuReceive = (\<lambda>h. if snd (last h) = [1, 0x00, 0x20, 0x40, 0x60, 0x80, 0xA0] then Some [0x41, 0x00, 0x00, 0x10, 0x00, 0x00]
                        else None),
      acceptSignal = (\<lambda>_. True), acceptDTCs = True\<rparr>"

definition sample_dictionary_view :: dictionary_view where
  "sample_dictionary_view =
     \<lparr>viewSignals = {5},
      viewMethods = [(0, [(12, default_method\<lparr>methodFormat := default_message_format
         \<lparr>mSizeInBytes := 2, mSignals := [default_signal_format\<lparr>mSignalID := 5, mSizeInBits := 16\<rparr>]\<rparr>\<rparr>)])]\<rparr>"

definition sample_obd :: obd_module where
  "sample_obd = obd_onChangeOfActiveDictionary (Some sample_dictionary_view) OBD (obd_started 5 0 False)"

lemma sample_obd_reachable: "obd_step\<^sup>*\<^sup>* (obd_started 5 0 False) sample_obd"
  unfolding sample_obd_def by (intro r_into_rtranclp obd_step.dictionary)

lemma sample_obd_messages:
  "map_sum (\<lambda>e. e) sentPDUs (ub_bind (take_dictionary sample_obd) (\<lambda>m. ub_bind (pid_flow sample_obd_env m) (dtc_flow sample_obd_env))) =
   Inr [(ENGINE, [9, 2]), (ENGINE, [1, 0x00, 0x20, 0x40, 0x60, 0x80, 0xA0]), (ENGINE, [1, 0xC0, 0xE0]), (ENGINE, [1, 12])]"
  by code_simp

lemma cycle_chain:
  "obd_cycle env m = Inr (w, m') \<Longrightarrow> ub_bind (take_dictionary m) (\<lambda>m. ub_bind (pid_flow env m) (dtc_flow env)) = Inr m'"
  by (auto simp: obd_cycle_def ub_bind_eq_Inr)


theorem trouble_codes_only_spins_witness:
  "\<exists>m'. obd_cycle sample_obd_env (obd_started 0 60 False) = Inr (0, m')"
  using trouble_codes_only_spins [of 60 False "obd_started 0 60 False" sample_obd_env] by simp

text \<open>Eight parameters are requested as six and two, and both groups can be answered.\<close>

definition sample_obd_dict :: OBDDecoderDictionary where
  "sample_obd_dict = (\<lambda>pid. Some (default_message_format\<lparr>mSizeInBytes := 1,
     mSignals := [default_signal_format\<lparr>mSignalID := pid, mSizeInBits := 8\<rparr>]\<rparr>))"

definition sample_obd_requests :: obd_module where
  "sample_obd_requests = new_obd_module\<lparr>mOBDDataDecoder := Some (Some sample_obd_dict),
     mPIDsToRequest := (\<lambda>_ _. Some [3, 4, 5, 6, 7, 8, 9, 10])\<rparr>"

definition echo_env :: obd_env where
  "echo_env = sample_obd_env\<lparr>ecuReceive := (\<lambda>h. Some (0x41 # concat (map (\<lambda>p. [p, 7]) (tl (snd (last h))))))\<rparr>"

theorem emissions_collected_witness:
  "\<exists>vals. collect_emissions echo_env ENGINE sample_obd_requests =
     Inr (pushed echo_env (signals_of 1000 vals) (sample_obd_requests\<lparr>sentPDUs := [(ENGINE, [1, 3, 4, 5, 6, 7, 8]), (ENGINE, [1, 9, 10])]\<rparr>)) \<and>
     fst ` set vals = {3, 4, 5, 6, 7, 8, 9, 10}"
proof -
  have 1: "mOBDDataDecoder sample_obd_requests = Some (Some sample_obd_dict)"
    "mPIDsToRequest sample_obd_requests ENGINE CURRENT_STATS = Some [3, 4, 5, 6, 7, 8, 9, 10]" "sentPDUs sample_obd_requests = []"
    "pidClock echo_env ENGINE = 1000"
    by (simp_all add: sample_obd_requests_def new_obd_module_def echo_env_def sample_obd_env_def)
  have g: "pid_groups [3, 4, 5, 6, 7, 8, 9, 10] = [[3, 4, 5, 6, 7, 8], [9, 10]]" by code_simp
  have a: "answered echo_env sample_obd_dict CURRENT_STATS ENGINE [] [[3, 4, 5, 6, 7, 8], [9, 10]] = [3, 4, 5, 6, 7, 8, 9, 10]"
    by code_simp
  have w: "wanted_ids sample_obd_dict pids = set pids" for pids
  proof (induction pids)
    case (Cons pid pids)
    let ?s = "default_signal_format\<lparr>mSignalID := pid, mSizeInBits := 8\<rparr>"
    have v: "isFormulaValid sample_obd_dict pid ?s"
      by (simp add: sample_obd_dict_def isFormulaValid_def default_signal_format_def BYTE_SIZE_def)
    have d: "sample_obd_dict pid = Some (default_message_format\<lparr>mSizeInBytes := 1, mSignals := [?s]\<rparr>)"
      by (simp add: sample_obd_dict_def)
    have "{s \<in> {?s}. isFormulaValid sample_obd_dict pid s} = {?s}" using v by blast
    then show ?case using Cons by (simp add: wanted_ids_Cons d)
  qed simp
  let ?groups = "[[3, 4, 5, 6, 7, 8], [9, 10]] :: nat list list"
  from emissions_collected [OF 1(1,2), of echo_env] obtain vals where vals:
    "collect_emissions echo_env ENGINE sample_obd_requests = Inr (pushed echo_env (signals_of 1000 vals)
       (sample_obd_requests\<lparr>sentPDUs := [] @ map (\<lambda>g. (ENGINE, 1 # g)) ?groups\<rparr>))"
    "fst ` set vals = wanted_ids sample_obd_dict (answered echo_env sample_obd_dict CURRENT_STATS ENGINE [] ?groups)"
    unfolding g 1(3,4) by blast
  have "fst ` set vals = {3, 4, 5, 6, 7, 8, 9, 10}" using vals(2) unfolding a w by simp
  with vals(1) show ?thesis by (intro exI [of _ vals]) simp
qed

end
