(* ===== verification/VehicleMessages.thy ===== *)
theory VehicleMessages
  imports CanDecoder
begin

text \<open>
  What vehicle data sources and their consumers share: messages (\<open>VehicleDataMessage.h\<close>), the
  bounded queue between a source and its consumer (\<open>AbstractVehicleDataSource.h\<close>) and the state of
  a worker thread (\<open>Thread.cpp\<close>). The wake-up signal of a thread (\<open>Signal.h\<close>) is a flag of its
  owner: a wait without a timeout goes on only when the flag is set, and every wait clears it.
\<close>

section \<open>Messages\<close>

text \<open>Sources of this program give no synthetic data, so a message is valid when it has raw data.\<close>

record VehicleDataMessage =
  vmID :: nat
  vmRawData :: "byte list"
  vmTimestamp :: nat

definition message_setup :: "nat \<Rightarrow> byte list \<Rightarrow> nat \<Rightarrow> VehicleDataMessage" where
  "message_setup i raw t = \<lparr>vmID = i, vmRawData = raw, vmTimestamp = t\<rparr>"

definition vm_isValid :: "VehicleDataMessage \<Rightarrow> bool" where
  "vm_isValid m = (vmRawData m \<noteq> [])"

section \<open>The queue\<close>

record spsc_queue =
  qItems :: "VehicleDataMessage list"
  qCapacity :: nat

definition new_queue :: "nat \<Rightarrow> spsc_queue" where
  "new_queue n = \<lparr>qItems = [], qCapacity = n\<rparr>"

definition q_push :: "VehicleDataMessage \<Rightarrow> spsc_queue \<Rightarrow> bool \<times> spsc_queue" where
  "q_push m q = (if length (qItems q) < qCapacity q then (True, q\<lparr>qItems := qItems q @ [m]\<rparr>) else (False, q))"

definition q_pop :: "spsc_queue \<Rightarrow> VehicleDataMessage option \<times> spsc_queue" where
  "q_pop q = (case qItems q of [] \<Rightarrow> (None, q) | m # ms \<Rightarrow> (Some m, q\<lparr>qItems := ms\<rparr>))"

text \<open>
  What producer and consumer rely on: a bounded first-in first-out queue that refuses only when
  it is full.
\<close>

locale bounded_fifo =
  fixes items :: "'q \<Rightarrow> 'a list"
    and capacity :: "'q \<Rightarrow> nat"
    and push :: "'a \<Rightarrow> 'q \<Rightarrow> bool \<times> 'q"
    and pop :: "'q \<Rightarrow> 'a option \<times> 'q"
  assumes push_room: "length (items q) < capacity q \<Longrightarrow> fst (push x q) \<and> items (snd (push x q)) = items q @ [x]"
    and push_full: "\<not> length (items q) < capacity q \<Longrightarrow> push x q = (False, q)"
    and push_capacity: "capacity (snd (push x q)) = capacity q"
    and pop_empty: "items q = [] \<Longrightarrow> pop q = (None, q)"
    and pop_item: "items q = x # xs \<Longrightarrow> fst (pop q) = Some x \<and> items (snd (pop q)) = xs \<and> capacity (snd (pop q)) = capacity q"
begin

text \<open>Pushing a list one by one; how many were refused.\<close>

fun push_all :: "'a list \<Rightarrow> nat \<times> 'q \<Rightarrow> nat \<times> 'q" where
  "push_all [] s = s"
| "push_all (x # xs) s = push_all xs (fst s + (if fst (push x (snd s)) then 0 else 1), snd (push x (snd s)))"

lemma push_all_full:
  "\<not> length (items q) < capacity q \<Longrightarrow> push_all xs (n, q) = (n + length xs, q)"
  by (induction xs arbitrary: n) (simp_all add: push_full)

lemma push_all_result:
  "items (snd (push_all xs (n, q))) = items q @ take (capacity q - length (items q)) xs \<and>
   capacity (snd (push_all xs (n, q))) = capacity q \<and>
   fst (push_all xs (n, q)) = n + (length xs - (capacity q - length (items q)))"
proof (induction xs arbitrary: n q)
  case (Cons x xs)
  show ?case
  proof (cases "length (items q) < capacity q")
    case True
    let ?q = "snd (push x q)"
    have p: "fst (push x q)" "items ?q = items q @ [x]" "capacity ?q = capacity q"
      using push_room [OF True, of x] push_capacity by auto
    have s: "capacity q - length (items q) = Suc (capacity q - length (items ?q))" using True p(2) by simp
    show ?thesis using Cons.IH [of n ?q] p by (simp add: s)
  next
    case False
    then show ?thesis using push_all_full [OF False, of "x # xs" n] by simp
  qed
qed simp

end

interpretation vq: bounded_fifo qItems qCapacity q_push q_pop
  by unfold_locales (auto simp: q_push_def q_pop_def)

section \<open>Threads\<close>

record worker_thread =
  thValid :: bool
  thDone :: bool

definition new_thread :: worker_thread where
  "new_thread = \<lparr>thValid = False, thDone = False\<rparr>"

text \<open>Whether the system creates the thread is an input.\<close>

definition thread_create :: "bool \<Rightarrow> worker_thread \<Rightarrow> bool \<times> worker_thread" where
  "thread_create created t = (created, t\<lparr>thDone := False, thValid := created \<or> thValid t\<rparr>)"

text \<open>\<open>release\<close> waits for the end of the worker function and joins the thread, which may fail.\<close>

definition thread_release :: "bool \<Rightarrow> worker_thread \<Rightarrow> bool \<times> worker_thread" where
  "thread_release joined t =
     (if \<not> thValid t then (True, t\<lparr>thDone := True\<rparr>)
      else if joined then (True, t\<lparr>thDone := True, thValid := False\<rparr>)
      else (False, t\<lparr>thDone := True\<rparr>))"

definition thread_alive :: "worker_thread \<Rightarrow> bool" where
  "thread_alive t \<longleftrightarrow> thValid t \<and> \<not> thDone t"

lemma released_not_active: "thDone (snd (thread_release joined t))"
  by (simp add: thread_release_def)

lemma created_alive: "thread_alive (snd (thread_create True t))"
  by (simp add: thread_create_def thread_alive_def)

end
