(* ===== verification/CanSource.thy ===== *)
theory CanSource
  imports VehicleMessages DecoderManifest
begin

text \<open>
  The source of one CAN bus (\<open>CANDataSource.cpp\<close>): its configuration, the socket, and the thread
  that reads batches of frames from the kernel, stamps them and queues them for the consumer. The
  kernel (sockets, received frames and their control messages) and the clock are inputs.
\<close>

section \<open>State\<close>

datatype CAN_TIMESTAMP_TYPE = KERNEL_SOFTWARE_TIMESTAMP | KERNEL_HARDWARE_TIMESTAMP | POLLING_TIME

definition stringToCanTimestampType :: "string \<Rightarrow> CAN_TIMESTAMP_TYPE option" where
  "stringToCanTimestampType s =
     (if s = ''Software'' then Some KERNEL_SOFTWARE_TIMESTAMP
      else if s = ''Hardware'' then Some KERNEL_HARDWARE_TIMESTAMP
      else if s = ''Polling'' then Some POLLING_TIME
      else None)"

definition SOURCE_DEFAULT_IDLE_TIME_MS :: nat where "SOURCE_DEFAULT_IDLE_TIME_MS = 1000"
definition MSB_MASK :: nat where "MSB_MASK = 0x7FFFFFFF"
definition IFNAMSIZ :: nat where "IFNAMSIZ = 16"

record VehicleDataSourceConfig =
  maxNumberOfVehicleDataMessages :: nat
  transportProperties :: "(string \<times> string) list"

record can_source =
  srcID :: nat
  srcIfName :: string
  srcBuffer :: "spsc_queue option"
  srcIdleTimeMs :: nat
  srcTimestampType :: CAN_TIMESTAMP_TYPE
  srcShouldStop :: bool
  srcShouldSleep :: bool
  srcNotified :: bool
  srcResumeTime :: nat
  srcThread :: worker_thread
  openSockets :: nat
  receivedMessages :: nat
  discardedMessages :: nat
  lastFrameTime :: nat
  wokeUpFromSleep :: bool

definition new_source :: "nat \<Rightarrow> CAN_TIMESTAMP_TYPE \<Rightarrow> can_source" where
  "new_source i typ =
     \<lparr>srcID = i, srcIfName = [], srcBuffer = None, srcIdleTimeMs = SOURCE_DEFAULT_IDLE_TIME_MS,
      srcTimestampType = typ, srcShouldStop = False, srcShouldSleep = False, srcNotified = False, srcResumeTime = 0,
      srcThread = new_thread, openSockets = 0, receivedMessages = 0, discardedMessages = 0, lastFrameTime = 0,
      wokeUpFromSleep = False\<rparr>"

section \<open>Configuration\<close>

definition is_space :: "char \<Rightarrow> bool" where
  "is_space c \<longleftrightarrow> c \<in> {CHR '' '', CHR 0x09, CHR 0x0A, CHR 0x0B, CHR 0x0C, CHR 0x0D}"

definition is_digit :: "char \<Rightarrow> bool" where
  "is_digit c \<longleftrightarrow> 48 \<le> (of_char c :: nat) \<and> (of_char c :: nat) \<le> 57"

definition digits_value :: "string \<Rightarrow> nat" where
  "digits_value ds = foldl (\<lambda>n c. 10 * n + ((of_char c :: nat) - 48)) 0 ds"

text \<open>
  \<open>std::stoul\<close> in base ten: white space, a sign and the longest run of digits; no digits or a
  value of more than 64 bits throw, a negative value wraps.
\<close>

definition stoul :: "string \<Rightarrow> nat option" where
  "stoul s =
     (let s = dropWhile is_space s;
          negative = (s \<noteq> [] \<and> hd s = CHR ''-'');
          s = (if s \<noteq> [] \<and> (hd s = CHR ''-'' \<or> hd s = CHR ''+'') then tl s else s);
          ds = takeWhile is_digit s; n = digits_value ds
      in if ds = [] \<or> n \<ge> 2 ^ 64 then None else Some (if negative then sub64 0 n else n))"

definition source_init :: "VehicleDataSourceConfig list \<Rightarrow> can_source \<Rightarrow> bool \<times> can_source" where
  "source_init sourceConfigs s =
     (case sourceConfigs of
        [c] \<Rightarrow>
          (case map_of (transportProperties c) ''interfaceName'' of
             None \<Rightarrow> (False, s)
           | Some name \<Rightarrow>
               let s = s\<lparr>srcIfName := name, srcBuffer := Some (new_queue (maxNumberOfVehicleDataMessages c))\<rparr> in
               case map_of (transportProperties c) ''threadIdleTimeMs'' of
                 None \<Rightarrow> (False, s)
               | Some idle \<Rightarrow>
                   (case stoul idle of
                      None \<Rightarrow> (False, s)
                    | Some n \<Rightarrow> (True, s\<lparr>srcIdleTimeMs := u32 n\<rparr>)))
      | _ \<Rightarrow> (False, s))"

section \<open>Connecting\<close>

record socket_env =
  socketOpens :: bool
  interfaceFound :: bool
  timestampsSupported :: bool
  bindSucceeds :: bool
  threadCreated :: bool
  threadJoined :: bool
  signalLeft :: bool
  closeSucceeds :: bool

definition source_start :: "socket_env \<Rightarrow> can_source \<Rightarrow> bool \<times> can_source" where
  "source_start env s =
     (let t = snd (thread_create (threadCreated env) (srcThread s))
      in (thread_alive t, s\<lparr>srcShouldStop := False, srcShouldSleep := True, srcThread := t, lastFrameTime := 0, wokeUpFromSleep := False\<rparr>))"

text \<open>The second result is whether listeners were told that the source is connected.\<close>

definition source_connect :: "socket_env \<Rightarrow> can_source \<Rightarrow> bool \<times> bool \<times> can_source" where
  "source_connect env s =
     (if \<not> socketOpens env then (False, False, s)
      else let opened = s\<lparr>openSockets := openSockets s + 1\<rparr> in
        if length (srcIfName s) \<ge> IFNAMSIZ then (False, False, opened)
        else if \<not> interfaceFound env then (False, False, s)
        else if srcTimestampType s \<noteq> POLLING_TIME \<and> \<not> timestampsSupported env then (False, False, s)
        else if \<not> bindSucceeds env then (False, False, s)
        else let (ok, started) = source_start env opened in (ok, True, started))"

text \<open>Stopping notifies the thread; the notification is left over when the thread ends without waiting again.\<close>

definition source_stop :: "socket_env \<Rightarrow> can_source \<Rightarrow> bool \<times> can_source" where
  "source_stop env s =
     (let t = snd (thread_release (threadJoined env) (srcThread s))
      in (thDone t, s\<lparr>srcShouldStop := False, srcNotified := signalLeft env, srcThread := t\<rparr>))"

text \<open>The socket is closed only when stopping failed; the second result is as above, for disconnected.\<close>

definition source_disconnect :: "socket_env \<Rightarrow> can_source \<Rightarrow> bool \<times> bool \<times> can_source" where
  "source_disconnect env s =
     (let (stopped, s) = source_stop env s in
      if \<not> stopped
      then if closeSucceeds env then (True, True, s\<lparr>openSockets := openSockets s - 1\<rparr>) else (False, False, s)
      else (True, True, s))"

definition suspendDataAcquisition :: "can_source \<Rightarrow> can_source" where
  "suspendDataAcquisition s = s\<lparr>srcShouldSleep := True\<rparr>"

definition resumeDataAcquisition :: "nat \<Rightarrow> can_source \<Rightarrow> can_source" where
  "resumeDataAcquisition t s = s\<lparr>srcResumeTime := t, srcShouldSleep := False, srcNotified := True\<rparr>"

section \<open>Receiving frames\<close>

text \<open>A control message: whether it holds time stamps, and the software and hardware ones (seconds, nanoseconds).\<close>

record control_message =
  cmTimestamping :: bool
  cmSoftware :: "nat \<times> nat"
  cmHardware :: "nat \<times> nat"

record kernel_frame =
  kfCanID :: nat
  kfDlc :: nat
  kfData :: "byte list"
  kfHeaders :: "control_message list"

definition stamp_ms :: "nat \<times> nat \<Rightarrow> nat" where
  "stamp_ms t = u64 (fst t * 1000 + snd t div 1000000)"

text \<open>The last time stamp of the control messages, or the clock.\<close>

definition extractTimestamp :: "CAN_TIMESTAMP_TYPE \<Rightarrow> nat \<Rightarrow> control_message list \<Rightarrow> nat" where
  "extractTimestamp typ clock headers =
     (let timestamp = (if typ \<noteq> POLLING_TIME
        then foldl (\<lambda>t h. if cmTimestamping h
               then if typ = KERNEL_HARDWARE_TIMESTAMP then stamp_ms (cmHardware h)
                    else if typ = KERNEL_SOFTWARE_TIMESTAMP then stamp_ms (cmSoftware h) else t
               else t) 0 headers
        else 0)
      in if timestamp = 0 then clock else timestamp)"

definition raw_bytes :: "kernel_frame \<Rightarrow> byte list ub_result" where
  "raw_bytes f = (if kfDlc f \<le> length (kfData f) then Inr (take (kfDlc f) (kfData f)) else Inl OutOfBounds)"

text \<open>One frame of a batch, with the clock at that moment.\<close>

definition receive_frame :: "nat \<times> kernel_frame \<Rightarrow> can_source \<Rightarrow> can_source ub_result" where
  "receive_frame = (\<lambda>(clock, f) s.
     let timestamp = extractTimestamp (srcTimestampType s) clock (kfHeaders f) in
     if \<not> wokeUpFromSleep s \<or> timestamp \<ge> srcResumeTime s
     then let s = s\<lparr>lastFrameTime := timestamp, receivedMessages := u64 (receivedMessages s + 1)\<rparr> in
          ub_bind (raw_bytes f) (\<lambda>rawData.
            let message = message_setup (kfCanID f AND MSB_MASK) rawData timestamp in
            if vm_isValid message
            then case srcBuffer s of
                   None \<Rightarrow> Inl NullPointer
                 | Some q \<Rightarrow>
                     let (accepted, q) = q_push message q; s = s\<lparr>srcBuffer := Some q\<rparr> in
                     Inr (if accepted then s else s\<lparr>discardedMessages := u64 (discardedMessages s + 1)\<rparr>)
            else Inr s)
     else Inr s)"

fun receive_batch :: "(nat \<times> kernel_frame) list \<Rightarrow> can_source \<Rightarrow> can_source ub_result" where
  "receive_batch [] s = Inr s"
| "receive_batch (f # fs) s = ub_bind (receive_frame f s) (receive_batch fs)"

datatype source_action = SourceBlocked | SourceIdle nat | SourceContinue

text \<open>
  One iteration of the thread; a sleeping source waits for a notification. No frame, or an
  error, is the empty batch.
\<close>

definition source_iteration :: "(nat \<times> kernel_frame) list \<Rightarrow> can_source \<Rightarrow> (source_action \<times> can_source) ub_result" where
  "source_iteration frames s =
     (if srcShouldSleep s \<and> \<not> srcNotified s then Inr (SourceBlocked, s)
      else let s = (if srcShouldSleep s then s\<lparr>srcNotified := False, wokeUpFromSleep := True\<rparr> else s) in
        ub_bind (receive_batch frames s) (\<lambda>s.
          Inr (if frames = [] then (SourceIdle (srcIdleTimeMs s), s\<lparr>srcNotified := False, wokeUpFromSleep := False\<rparr>)
               else (SourceContinue, s))))"


section \<open>What a batch adds to the queue\<close>

text \<open>After a wake-up, frames stamped before the source was resumed are left out.\<close>

definition is_fresh :: "can_source \<Rightarrow> nat \<times> kernel_frame \<Rightarrow> bool" where
  "is_fresh s = (\<lambda>(clock, f). wokeUpFromSleep s \<longrightarrow> srcResumeTime s \<le> extractTimestamp (srcTimestampType s) clock (kfHeaders f))"

definition message_of :: "can_source \<Rightarrow> nat \<times> kernel_frame \<Rightarrow> VehicleDataMessage" where
  "message_of s = (\<lambda>(clock, f). \<lparr>vmID = kfCanID f AND MSB_MASK, vmRawData = take (kfDlc f) (kfData f),
     vmTimestamp = extractTimestamp (srcTimestampType s) clock (kfHeaders f)\<rparr>)"

definition batch_messages :: "can_source \<Rightarrow> (nat \<times> kernel_frame) list \<Rightarrow> VehicleDataMessage list" where
  "batch_messages s fs = filter vm_isValid (map (message_of s) (filter (is_fresh s) fs))"

text \<open>The parts of the state a frame does not depend on.\<close>

definition same_reader :: "can_source \<Rightarrow> can_source \<Rightarrow> bool" where
  "same_reader s s' \<longleftrightarrow> srcTimestampType s' = srcTimestampType s \<and> srcResumeTime s' = srcResumeTime s \<and>
     wokeUpFromSleep s' = wokeUpFromSleep s \<and> srcIdleTimeMs s' = srcIdleTimeMs s"

lemma same_reader_messages: "same_reader s s' \<Longrightarrow> batch_messages s' fs = batch_messages s fs"
  by (simp add: same_reader_def batch_messages_def is_fresh_def message_of_def)

lemma u64_add: "u64 (u64 a + b) = u64 (a + b)"
  by (simp add: u64_def mod_add_left_eq)

lemma receive_frame_result:
  assumes "srcBuffer s = Some q" and "kfDlc (snd f) \<le> length (kfData (snd f))"
  shows "\<exists>s'. receive_frame f s = Inr s' \<and> same_reader s s' \<and>
     srcBuffer s' = Some (snd (vq.push_all (batch_messages s [f]) (0, q))) \<and>
     discardedMessages s' mod 2 ^ 64 = (discardedMessages s + fst (vq.push_all (batch_messages s [f]) (0, q))) mod 2 ^ 64"
proof -
  obtain clock k where f: "f = (clock, k)" by (cases f)
  then have raw: "raw_bytes k = Inr (take (kfDlc k) (kfData k))" using assms(2) by (simp add: raw_bytes_def)
  show ?thesis
  proof (cases "is_fresh s f \<and> vm_isValid (message_of s f)")
    case True
    then have b: "batch_messages s [f] = [message_of s f]" by (simp add: batch_messages_def)
    have m: "message_of s f = message_setup (kfCanID k AND MSB_MASK) (take (kfDlc k) (kfData k)) (extractTimestamp (srcTimestampType s) clock (kfHeaders k))"
      by (simp add: f message_of_def message_setup_def)
    obtain ok q' where p: "q_push (message_of s f) q = (ok, q')" by (cases "q_push (message_of s f) q")
    let ?s = "s\<lparr>lastFrameTime := extractTimestamp (srcTimestampType s) clock (kfHeaders k),
      receivedMessages := u64 (receivedMessages s + 1), srcBuffer := Some q'\<rparr>"
    have fresh: "\<not> wokeUpFromSleep s \<or> srcResumeTime s \<le> extractTimestamp (srcTimestampType s) clock (kfHeaders k)"
      using True by (auto simp: is_fresh_def f)
    have "receive_frame f s = Inr (if ok then ?s else ?s\<lparr>discardedMessages := u64 (discardedMessages s + 1)\<rparr>)"
      using True p fresh unfolding m by (simp add: receive_frame_def f raw assms(1) Let_def)
    moreover have "vq.push_all (batch_messages s [f]) (0, q) = (if ok then 0 else 1, q')"
      unfolding b by (simp add: p)
    ultimately show ?thesis by (cases ok) (simp_all add: same_reader_def u64_def)
  next
    case False
    then have "batch_messages s [f] = []" by (auto simp: batch_messages_def)
    then show ?thesis using False
      by (auto simp: receive_frame_def f raw assms(1) is_fresh_def Let_def same_reader_def message_of_def message_setup_def vm_isValid_def)
  qed
qed


lemma push_all_append: "vq.push_all (xs @ ys) st = vq.push_all ys (vq.push_all xs st)"
  by (induction xs st rule: vq.push_all.induct) simp_all

lemma push_all_offset:
  "vq.push_all xs (n, q) = (n + fst (vq.push_all xs (0, q)), snd (vq.push_all xs (0, q)))"
proof (induction xs arbitrary: n q)
  case (Cons x xs)
  let ?q = "snd (q_push x q)" and ?d = "if fst (q_push x q) then 0 else 1 :: nat"
  show ?case using Cons.IH [of "n + ?d" ?q] Cons.IH [of ?d ?q] by simp
qed simp

lemma mod_add_assoc: "a mod m = (b + c) mod m \<Longrightarrow> (a + d) mod m = (b + (c + d)) mod m" for a :: nat
  unfolding add.assoc [symmetric] by (rule mod_add_cong) simp_all

lemma receive_batch_pushes:
  assumes "srcBuffer s = Some q" and "\<forall>f \<in> set fs. kfDlc (snd f) \<le> length (kfData (snd f))"
  shows "\<exists>s'. receive_batch fs s = Inr s' \<and> same_reader s s' \<and>
     srcBuffer s' = Some (snd (vq.push_all (batch_messages s fs) (0, q))) \<and>
     discardedMessages s' mod 2 ^ 64 = (discardedMessages s + fst (vq.push_all (batch_messages s fs) (0, q))) mod 2 ^ 64"
  using assms
proof (induction fs arbitrary: s q)
  case Nil
  then show ?case by (simp add: same_reader_def batch_messages_def)
next
  case (Cons f fs)
  let ?p1 = "vq.push_all (batch_messages s [f]) (0, q)"
  from receive_frame_result [OF Cons.prems(1), of f] Cons.prems(2) obtain s1 where
    s1: "receive_frame f s = Inr s1" "same_reader s s1" "srcBuffer s1 = Some (snd ?p1)"
      "discardedMessages s1 mod 2 ^ 64 = (discardedMessages s + fst ?p1) mod 2 ^ 64" by auto
  let ?p2 = "vq.push_all (batch_messages s fs) (0, snd ?p1)"
  from Cons.IH [OF s1(3)] Cons.prems(2) obtain s2 where
    s2: "receive_batch fs s1 = Inr s2" "same_reader s1 s2" "srcBuffer s2 = Some (snd ?p2)"
      "discardedMessages s2 mod 2 ^ 64 = (discardedMessages s1 + fst ?p2) mod 2 ^ 64"
    by (auto simp: same_reader_messages [OF s1(2)])
  have all: "batch_messages s (f # fs) = batch_messages s [f] @ batch_messages s fs"
    by (simp add: batch_messages_def)
  have "vq.push_all (batch_messages s (f # fs)) (0, q) = (fst ?p1 + fst ?p2, snd ?p2)"
    unfolding all push_all_append by (subst push_all_offset [of _ "fst ?p1" "snd ?p1", unfolded prod.collapse]) simp
  moreover have "same_reader s s2" using s1(2) s2(2) by (simp add: same_reader_def)
  moreover have "discardedMessages s2 mod 2 ^ 64 = (discardedMessages s + (fst ?p1 + fst ?p2)) mod 2 ^ 64"
    unfolding s2(4) by (rule mod_add_assoc [OF s1(4)])
  ultimately show ?case using s1(1) s2(1,3) by (intro exI [of _ s2]) simp
qed

text \<open>
  A batch queues, in order, one message for every frame with data that is not older than the
  last wake-up, as far as the queue has room: its identifier without the top bit, its bytes, and
  the time stamp asked for or the clock when there is none. What does not fit is counted as discarded.
\<close>

theorem batch_queued:
  assumes "srcBuffer s = Some q" and "\<forall>f \<in> set fs. kfDlc (snd f) \<le> length (kfData (snd f))"
  shows "\<exists>s' q'. receive_batch fs s = Inr s' \<and> srcBuffer s' = Some q' \<and> qCapacity q' = qCapacity q \<and>
    qItems q' = qItems q @ take (qCapacity q - length (qItems q)) (batch_messages s fs) \<and>
    discardedMessages s' mod 2 ^ 64 =
      (discardedMessages s + (length (batch_messages s fs) - (qCapacity q - length (qItems q)))) mod 2 ^ 64"
proof -
  let ?p = "vq.push_all (batch_messages s fs) (0, q)"
  obtain s' where s': "receive_batch fs s = Inr s'" "srcBuffer s' = Some (snd ?p)"
    "discardedMessages s' mod 2 ^ 64 = (discardedMessages s + fst ?p) mod 2 ^ 64"
    using receive_batch_pushes [OF assms] by blast
  have p: "qItems (snd ?p) = qItems q @ take (qCapacity q - length (qItems q)) (batch_messages s fs)"
    "qCapacity (snd ?p) = qCapacity q"
    "fst ?p = length (batch_messages s fs) - (qCapacity q - length (qItems q))"
    using vq.push_all_result [of "batch_messages s fs" 0 q] by simp_all
  show ?thesis using s'(3) unfolding p(3) by (intro exI conjI) (rule s'(1), rule s'(2), rule p(2), rule p(1))
qed

text \<open>
  Whenever a source connects and its thread starts, disconnecting it leaves the socket open:
  stopping the thread always succeeds, and the socket is closed only when it does not.
\<close>

theorem disconnect_leaks_socket:
  assumes "source_connect env s = (True, told, s')"
  shows "\<exists>s''. source_disconnect env' s' = (True, True, s'') \<and> openSockets s'' = openSockets s + 1"
proof -
  have "openSockets s' = openSockets s + 1"
    using assms by (auto simp: source_connect_def source_start_def Let_def split: if_splits prod.splits)
  then show ?thesis by (simp add: source_disconnect_def source_stop_def released_not_active Let_def)
qed

section \<open>Examples\<close>

definition sample_source :: can_source where
  "sample_source = (new_source 1 KERNEL_SOFTWARE_TIMESTAMP)\<lparr>srcIfName := ''can0'', srcBuffer := Some (new_queue 1)\<rparr>"

definition sample_kernel_frame :: "nat \<times> kernel_frame" where
  "sample_kernel_frame = (500, \<lparr>kfCanID = 0x80000123, kfDlc = 2, kfData = [1, 2, 0, 0, 0, 0, 0, 0],
     kfHeaders = [\<lparr>cmTimestamping = True, cmSoftware = (3, 7000000), cmHardware = (0, 0)\<rparr>]\<rparr>)"

theorem batch_queued_witness:
  "\<exists>s' q'. receive_batch [sample_kernel_frame, sample_kernel_frame] sample_source = Inr s' \<and> srcBuffer s' = Some q' \<and>
     qItems q' = [\<lparr>vmID = 0x123, vmRawData = [1, 2], vmTimestamp = 3007\<rparr>] \<and> discardedMessages s' mod 2 ^ 64 = 1"
proof -
  have b: "srcBuffer sample_source = Some (new_queue 1)" by (simp add: sample_source_def)
  have l: "\<forall>f \<in> set [sample_kernel_frame, sample_kernel_frame]. kfDlc (snd f) \<le> length (kfData (snd f))"
    by (simp add: sample_kernel_frame_def)
  have t: "extractTimestamp KERNEL_SOFTWARE_TIMESTAMP 500 [\<lparr>cmTimestamping = True, cmSoftware = (3, 7000000), cmHardware = (0, 0)\<rparr>] = 3007"
    by (simp add: extractTimestamp_def stamp_ms_def u64_def)
  have m: "batch_messages sample_source [sample_kernel_frame, sample_kernel_frame] =
      [\<lparr>vmID = 0x123, vmRawData = [1, 2], vmTimestamp = 3007\<rparr>, \<lparr>vmID = 0x123, vmRawData = [1, 2], vmTimestamp = 3007\<rparr>]"
    by (simp add: batch_messages_def is_fresh_def message_of_def sample_kernel_frame_def sample_source_def new_source_def
        t MSB_MASK_def vm_isValid_def)
  have d: "discardedMessages sample_source = 0" by (simp add: sample_source_def new_source_def)
  show ?thesis using batch_queued [OF b l] unfolding m d by (auto simp: new_queue_def)
qed

definition working_sockets :: socket_env where
  "working_sockets = \<lparr>socketOpens = True, interfaceFound = True, timestampsSupported = True, bindSucceeds = True,
     threadCreated = True, threadJoined = True, signalLeft = False, closeSucceeds = True\<rparr>"

theorem disconnect_leaks_socket_witness:
  "\<exists>s' s''. source_connect working_sockets sample_source = (True, True, s') \<and>
     source_disconnect working_sockets s' = (True, True, s'') \<and> openSockets s'' = 1"
proof -
  obtain s' where s': "source_connect working_sockets sample_source = (True, True, s')"
    by (simp add: source_connect_def sample_source_def new_source_def working_sockets_def IFNAMSIZ_def source_start_def
        created_alive Let_def)
  have "openSockets sample_source = 0" by (simp add: sample_source_def new_source_def)
  then show ?thesis using s' disconnect_leaks_socket [OF s', of working_sockets] by auto
qed

end
