(* ===== verification/CanConsumer.thy ===== *)
theory CanConsumer
  imports VehicleMessages DictionaryExtractor
begin

text \<open>
  The consumer of a CAN bus (\<open>CANDataConsumer.cpp\<close>, \<open>IVehicleDataConsumer.h\<close>): the thread that
  takes messages from the queue of its source, looks their frame up in the dictionary in use and
  pushes raw frames and decoded signals to the inspection queues. Whether these queues accept is
  an input; what they took is kept in the state.
\<close>

section \<open>State\<close>

definition CONSUMER_DEFAULT_IDLE_TIME_MS :: nat where "CONSUMER_DEFAULT_IDLE_TIME_MS = 1000"

text \<open>The input queue is named by the source it belongs to.\<close>

record can_consumer =
  conID :: nat
  conChannel :: nat
  conInput :: "nat option"
  conProtocol :: VehicleDataSourceProtocol
  conDictionary :: "CANDecoderDictionary option"
  conSignalBuffer :: bool
  conCANBuffer :: bool
  conIdleTimeMs :: nat
  conShouldStop :: bool
  conShouldSleep :: bool
  conNotified :: bool
  conThread :: worker_thread
  framePushes :: nat
  conSignalPushes :: nat
  framesOut :: "CollectedCanRawFrame list"
  signalsOut :: "CollectedSignal list"

definition new_consumer :: can_consumer where
  "new_consumer =
     \<lparr>conID = 0, conChannel = 0, conInput = None, conProtocol = INVALID_PROTOCOL, conDictionary = None,
      conSignalBuffer = False, conCANBuffer = False, conIdleTimeMs = CONSUMER_DEFAULT_IDLE_TIME_MS, conShouldStop = False,
      conShouldSleep = False, conNotified = False, conThread = new_thread, framePushes = 0, conSignalPushes = 0,
      framesOut = [], signalsOut = []\<rparr>"

text \<open>Identifiers are numbered from one; the counter is passed along.\<close>

definition generateConsumerID :: "nat \<Rightarrow> nat" where
  "generateConsumerID n = u32 (n + 1)"

definition consumer_init :: "nat \<Rightarrow> nat \<Rightarrow> bool \<Rightarrow> nat \<Rightarrow> can_consumer \<Rightarrow> bool \<times> can_consumer" where
  "consumer_init i canChannelID signalBufferPtr idleTimeMs c =
     (let c = c\<lparr>conID := i\<rparr> in
      if \<not> signalBufferPtr then (False, c)
      else let c = c\<lparr>conChannel := canChannelID, conSignalBuffer := True\<rparr> in
        (True, if idleTimeMs \<noteq> 0 then c\<lparr>conIdleTimeMs := idleTimeMs\<rparr> else c))"

definition setCANBufferPtr :: "bool \<Rightarrow> can_consumer \<Rightarrow> can_consumer" where
  "setCANBufferPtr p c = c\<lparr>conCANBuffer := p\<rparr>"

definition setInputBuffer :: "nat option \<Rightarrow> can_consumer \<Rightarrow> can_consumer" where
  "setInputBuffer p c = c\<lparr>conInput := p\<rparr>"

definition setChannelMetadata :: "VehicleDataSourceProtocol \<Rightarrow> can_consumer \<Rightarrow> can_consumer" where
  "setChannelMetadata p c = c\<lparr>conProtocol := p\<rparr>"

section \<open>Control\<close>

definition suspendDataConsumption :: "can_consumer \<Rightarrow> can_consumer" where
  "suspendDataConsumption c = c\<lparr>conShouldSleep := True\<rparr>"

text \<open>
  The dictionary is a pointer to the base class: null, or to an object that is a CAN dictionary
  or (\<open>Some None\<close>) one of another class.
\<close>

definition resumeDataConsumption :: "CANDecoderDictionary option option \<Rightarrow> can_consumer \<Rightarrow> can_consumer" where
  "resumeDataConsumption dictionary c =
     (case dictionary of
        None \<Rightarrow> c
      | Some d \<Rightarrow>
          let c = c\<lparr>conDictionary := d\<rparr> in
          if d \<noteq> None then c\<lparr>conShouldSleep := False, conNotified := True\<rparr> else c)"

definition consumer_start :: "bool \<Rightarrow> can_consumer \<Rightarrow> bool \<times> can_consumer" where
  "consumer_start created c =
     (let t = snd (thread_create created (conThread c))
      in (thread_alive t, c\<lparr>conShouldStop := False, conShouldSleep := True, conThread := t\<rparr>))"

definition consumer_connect :: "bool \<Rightarrow> can_consumer \<Rightarrow> bool \<times> can_consumer" where
  "consumer_connect created c =
     (if conInput c \<noteq> None \<and> conSignalBuffer c \<and> conCANBuffer c then consumer_start created c else (False, c))"

text \<open>The request to stop, before the thread has ended.\<close>

definition request_stop :: "can_consumer \<Rightarrow> can_consumer" where
  "request_stop c = c\<lparr>conShouldStop := True, conNotified := True\<rparr>"

text \<open>The end of \<open>stop\<close>, when the thread has ended.\<close>

definition finish_stop :: "bool \<Rightarrow> can_consumer \<Rightarrow> bool \<times> can_consumer" where
  "finish_stop joined c =
     (let t = snd (thread_release joined (conThread c)) in (thDone t, c\<lparr>conShouldStop := False, conThread := t\<rparr>))"

definition consumer_isAlive :: "can_consumer \<Rightarrow> bool" where
  "consumer_isAlive c = thread_alive (conThread c)"

section \<open>Consuming a message\<close>

record consumer_env =
  takesFrame :: "nat \<Rightarrow> bool"
  takesSignal :: "nat \<Rightarrow> bool"
  decodeClock :: nat

definition push_frame :: "consumer_env \<Rightarrow> CollectedCanRawFrame \<Rightarrow> can_consumer \<Rightarrow> can_consumer" where
  "push_frame env f c =
     c\<lparr>framePushes := framePushes c + 1, framesOut := framesOut c @ (if takesFrame env (framePushes c) then [f] else [])\<rparr>"

definition push_signal_out :: "consumer_env \<Rightarrow> CollectedSignal \<Rightarrow> can_consumer \<Rightarrow> can_consumer" where
  "push_signal_out env s c =
     c\<lparr>conSignalPushes := conSignalPushes c + 1, signalsOut := signalsOut c @ (if takesSignal env (conSignalPushes c) then [s] else [])\<rparr>"

text \<open>A raw frame holds at most eight bytes; the array is initialised with zeros.\<close>

definition raw_frame :: "nat \<Rightarrow> VehicleDataMessage \<Rightarrow> CollectedCanRawFrame" where
  "raw_frame channel m =
     (let n = min (u8 (length (vmRawData m))) MAX_CAN_FRAME_BYTE_SIZE in
      \<lparr>cfFrameID = u32 (vmID m), cfChannelID = channel, cfReceiveTime = vmTimestamp m,
       cfData = map unat (take n (vmRawData m)) @ replicate (MAX_CAN_FRAME_BYTE_SIZE - n) 0, cfSize = n\<rparr>)"

definition collect_frame :: "consumer_env \<Rightarrow> CANMessageDecoderMethod \<Rightarrow> VehicleDataMessage \<Rightarrow> can_consumer \<Rightarrow> can_consumer" where
  "collect_frame env x m c =
     (if conCANBuffer c \<and> (collectType x = RAW \<or> collectType x = RAW_AND_DECODE)
      then push_frame env (raw_frame (conChannel c) m) c else c)"

definition decode_message ::
  "consumer_env \<Rightarrow> CANDecoderDictionary \<Rightarrow> CANMessageDecoderMethod \<Rightarrow> VehicleDataMessage \<Rightarrow> can_consumer \<Rightarrow> can_consumer ub_result" where
  "decode_message env d x m c =
     (if conSignalBuffer c \<and> (collectType x = DECODE \<or> collectType x = RAW_AND_DECODE) \<and> message_isValid (methodFormat x)
      then ub_bind (decodeCANMessage (vmRawData m) (methodFormat x) (signalIDsToCollect d) (decodeClock env)
                      \<lparr>dmSignals = [], dmDecodingTime = 0\<rparr>) (\<lambda>(ok, msg).
             Inr (if ok then fold (\<lambda>s. push_signal_out env (collected_signal (dsSignalID s) (vmTimestamp m) (dsPhysicalValue s)))
                              (dmSignals msg) c
                  else c))
      else Inr c)"

definition consume_message :: "consumer_env \<Rightarrow> VehicleDataMessage \<Rightarrow> can_consumer \<Rightarrow> can_consumer ub_result" where
  "consume_message env m c =
     (case conDictionary c of
        None \<Rightarrow> Inl NullPointer
      | Some d \<Rightarrow>
          (case frames_of (conChannel c) d (u32 (vmID m)) of
             None \<Rightarrow> Inr c
           | Some x \<Rightarrow> decode_message env d x m (collect_frame env x m c)))"

datatype consumer_action = ConsumerBlocked | ConsumerIdle nat | ConsumerContinue

text \<open>
  One iteration with the queue of its source. A sleeping consumer waits for a notification, and
  then goes on whatever it was notified of.
\<close>

definition consumer_iteration ::
  "consumer_env \<Rightarrow> spsc_queue \<Rightarrow> can_consumer \<Rightarrow> (consumer_action \<times> spsc_queue \<times> can_consumer) ub_result" where
  "consumer_iteration env q c =
     (if conShouldSleep c \<and> \<not> conNotified c then Inr (ConsumerBlocked, q, c)
      else let c = (if conShouldSleep c then c\<lparr>conNotified := False\<rparr> else c) in
        case q_pop q of
          (None, q) \<Rightarrow> Inr (ConsumerIdle (conIdleTimeMs c), q, c\<lparr>conNotified := False\<rparr>)
        | (Some m, q) \<Rightarrow> ub_bind (consume_message env m c) (\<lambda>c. Inr (ConsumerContinue, q, c)))"

end
