(* ===== verification/ConsumerSafety.thy ===== *)
theory ConsumerSafety
  imports CanConsumer
begin

text \<open>
  What the consumer of a CAN bus guarantees: what one message adds to the inspection queues, that
  no message makes it undefined once it has a dictionary extracted from a manifest, and what
  happens when it is stopped before.
\<close>

section \<open>One message\<close>

definition frames_pushed :: "consumer_env \<Rightarrow> CollectedCanRawFrame list \<Rightarrow> can_consumer \<Rightarrow> can_consumer" where
  "frames_pushed env fs c = fold (push_frame env) fs c"

definition signals_pushed :: "consumer_env \<Rightarrow> CollectedSignal list \<Rightarrow> can_consumer \<Rightarrow> can_consumer" where
  "signals_pushed env ss c = fold (push_signal_out env) ss c"

lemma push_frame_keeps [simp]:
  "conSignalBuffer (push_frame env f c) = conSignalBuffer c" "conChannel (push_frame env f c) = conChannel c"
  "conDictionary (push_frame env f c) = conDictionary c" "conShouldSleep (push_frame env f c) = conShouldSleep c"
  "conNotified (push_frame env f c) = conNotified c"
  by (simp_all add: push_frame_def)

lemma push_signal_keeps [simp]:
  "conDictionary (push_signal_out env s c) = conDictionary c" "conShouldSleep (push_signal_out env s c) = conShouldSleep c"
  "conNotified (push_signal_out env s c) = conNotified c" "conSignalBuffer (push_signal_out env s c) = conSignalBuffer c"
  "conChannel (push_signal_out env s c) = conChannel c"
  by (simp_all add: push_signal_out_def)

lemma signals_pushed_keeps:
  "conDictionary (signals_pushed env ss c) = conDictionary c \<and> conShouldSleep (signals_pushed env ss c) = conShouldSleep c \<and>
   conNotified (signals_pushed env ss c) = conNotified c"
  unfolding signals_pushed_def by (induction ss arbitrary: c) simp_all

lemma fold_push_signals:
  "fold (\<lambda>s. push_signal_out env (g s)) xs c = signals_pushed env (map g xs) c"
  unfolding signals_pushed_def by (induction xs arbitrary: c) simp_all

text \<open>
  The raw frame and the signals a message is worth under an entry of the dictionary. When wanted signals
  lie outside the frame, none is pushed, unless their number is a multiple of 256.
\<close>

definition frames_for :: "nat \<Rightarrow> CANMessageDecoderMethod \<Rightarrow> VehicleDataMessage \<Rightarrow> CollectedCanRawFrame list" where
  "frames_for channel x m =
     (if collectType x = DECODE then []
      else [\<lparr>cfFrameID = u32 (vmID m), cfChannelID = channel, cfReceiveTime = vmTimestamp m,
             cfData = map unat (vmRawData m) @ replicate (8 - length (vmRawData m)) 0, cfSize = length (vmRawData m)\<rparr>])"

definition signals_for :: "CANDecoderDictionary \<Rightarrow> CANMessageDecoderMethod \<Rightarrow> VehicleDataMessage \<Rightarrow> CollectedSignal list" where
  "signals_for d x m =
     (let sel = filter (\<lambda>s. mSignalID s \<in> signalIDsToCollect d) (mSignals (methodFormat x)) in
      if collectType x = RAW \<or> length (filter (\<lambda>s. \<not> in_range (8 * length (vmRawData m)) s) sel) mod 256 \<noteq> 0 then []
      else map (\<lambda>s. collected_signal (mSignalID s) (vmTimestamp m)
                  (dadd (dmul (of_integer (raw_value (vmRawData m) s)) (mFactor s)) (mOffset s)))
             (filter (in_range (8 * length (vmRawData m))) sel))"

lemma raw_frame_short:
  assumes "length (vmRawData m) \<le> 8" and "collectType x \<noteq> DECODE"
  shows "frames_for channel x m = [raw_frame channel m]"
proof -
  have "u8 (length (vmRawData m)) = length (vmRawData m)" using assms(1) by (intro u8_id) simp
  then show ?thesis using assms by (simp add: frames_for_def raw_frame_def MAX_CAN_FRAME_BYTE_SIZE_def min_def Let_def)
qed

lemma decode_message_result:
  assumes "length (vmRawData m) \<le> 8" and "\<not> mIsMultiplexed (methodFormat x)" and "conSignalBuffer c"
  shows "decode_message env d x m c = Inr (signals_pushed env (signals_for d x m) c)"
proof (cases "collectType x = RAW \<or> mSignals (methodFormat x) = []")
  case True
  then show ?thesis by (auto simp: decode_message_def signals_for_def signals_pushed_def message_isValid_def Let_def)
next
  case False
  then have t: "collectType x = DECODE \<or> collectType x = RAW_AND_DECODE" by (cases "collectType x") auto
  let ?sel = "filter (\<lambda>s. mSignalID s \<in> signalIDsToCollect d) (mSignals (methodFormat x))"
  let ?ok = "length (filter (\<lambda>s. \<not> in_range (8 * length (vmRawData m)) s) ?sel) mod 256 = 0"
  obtain msg where msg: "decodeCANMessage (vmRawData m) (methodFormat x) (signalIDsToCollect d) (decodeClock env) \<lparr>dmSignals = [], dmDecodingTime = 0\<rparr> =
      Inr (?ok, msg)" "dmSignals msg = map (decoded_signal (vmRawData m)) (filter (in_range (8 * length (vmRawData m))) ?sel)"
    using decode_plain [OF assms(1,2), of "signalIDsToCollect d" "decodeClock env" "\<lparr>dmSignals = [], dmDecodingTime = 0\<rparr>"] by (simp add: Let_def)
  have "signals_for d x m = (if ?ok then map (\<lambda>s. collected_signal (dsSignalID s) (vmTimestamp m) (dsPhysicalValue s)) (dmSignals msg) else [])"
    using False unfolding msg(2) by (simp add: signals_for_def Let_def decoded_signal_def comp_def)
  then show ?thesis using t False assms(3)
    by (simp add: decode_message_def msg(1) message_isValid_def fold_push_signals) (simp add: signals_pushed_def)
qed

lemma message_result:
  assumes "conDictionary c = Some d" and "conSignalBuffer c" and "conCANBuffer c" and "length (vmRawData m) \<le> 8"
    and "\<And>x. frames_of (conChannel c) d (u32 (vmID m)) = Some x \<Longrightarrow>
           \<not> mIsMultiplexed (methodFormat x)"
  shows "consume_message env m c = Inr
    (case frames_of (conChannel c) d (u32 (vmID m)) of
       None \<Rightarrow> c
     | Some x \<Rightarrow> signals_pushed env (signals_for d x m) (frames_pushed env (frames_for (conChannel c) x m) c))"
proof (cases "frames_of (conChannel c) d (u32 (vmID m))")
  case None
  then show ?thesis using assms(1) by (simp add: consume_message_def)
next
  case (Some x)
  have "collect_frame env x m c = frames_pushed env (frames_for (conChannel c) x m) c"
    using raw_frame_short [OF assms(4), of x "conChannel c"] assms(3)
    by (cases "collectType x") (simp_all add: collect_frame_def frames_pushed_def frames_for_def)
  moreover have "conSignalBuffer (frames_pushed env (frames_for (conChannel c) x m) c)"
    using assms(2) by (simp add: frames_pushed_def frames_for_def)
  ultimately show ?thesis using Some assms(1,4,5) by (simp add: consume_message_def decode_message_result)
qed



section \<open>Dictionaries of a manifest\<close>

text \<open>The manifests of this version describe no multiplexed frames, and no dictionary contains one.\<close>

definition plain_formats :: "DecoderManifest \<Rightarrow> bool" where
  "plain_formats d \<longleftrightarrow> (\<forall>i frames f fmt. mCANMessageFormatDictionary d i = Some frames \<longrightarrow> frames f = Some fmt \<longrightarrow> \<not> mIsMultiplexed fmt)"

definition plain_dictionary :: "CANDecoderDictionary \<Rightarrow> bool" where
  "plain_dictionary d \<longleftrightarrow> (\<forall>ch f x. frames_of ch d f = Some x \<longrightarrow> \<not> mIsMultiplexed (methodFormat x))"

definition plain_map :: "dictionary_map \<Rightarrow> bool" where
  "plain_map m \<longleftrightarrow> (\<forall>p d. m p = Some d \<longrightarrow> plain_dictionary d)"

lemma add_can_msg_plain: "plain_formats d \<Longrightarrow> plain_formats (add_can_msg s d)"
  unfolding plain_formats_def add_can_msg_def add_format_def
  by (auto simp: Let_def split: option.splits if_splits)

lemma add_pid_msg_plain: "plain_formats d \<Longrightarrow> plain_formats (add_pid_msg s d)"
  by (simp add: plain_formats_def add_pid_msg_def)

lemma manifest_build_plain: "plain_formats d \<Longrightarrow> plain_formats (snd (manifest_build parse d))"
proof -
  assume d: "plain_formats d"
  have can: "plain_formats (fold add_can_msg ms d)" if "plain_formats d" for ms d
    using that by (induction ms arbitrary: d) (simp_all add: add_can_msg_plain)
  have pid: "plain_formats (fold add_pid_msg ms d)" if "plain_formats d" for ms d
    using that by (induction ms arbitrary: d) (simp_all add: add_pid_msg_plain)
  have upd: "plain_formats (d\<lparr>mReady := b\<rparr>) = plain_formats d" "plain_formats (d\<lparr>mManifestID := i\<rparr>) = plain_formats d" for d b i
    by (simp_all add: plain_formats_def)
  show ?thesis using d can pid by (simp add: manifest_build_def upd split: option.split)
qed

lemma getCANMessageFormat_plain: "plain_formats d \<Longrightarrow> \<not> mIsMultiplexed (getCANMessageFormat f i d)"
  by (auto simp: plain_formats_def getCANMessageFormat_def default_message_format_def split: option.split)

lemma plain_put: "plain_dictionary d \<Longrightarrow> \<not> mIsMultiplexed (methodFormat x) \<Longrightarrow> plain_dictionary (put_method ch f x d)"
  by (auto simp: plain_dictionary_def)

lemma plain_insert [simp]: "plain_dictionary (d\<lparr>signalIDsToCollect := S\<rparr>) = plain_dictionary d"
  by (simp add: plain_dictionary_def)

lemma plain_new [simp]: "plain_dictionary new_dictionary"
  by (simp add: plain_dictionary_def new_dictionary_def frames_of_def)

lemma plain_of [simp]: "plain_map m \<Longrightarrow> plain_dictionary (dictionary_of p m)"
  by (auto simp: plain_map_def dictionary_of_def split: option.split)

lemma plain_ensure [simp]: "plain_map m \<Longrightarrow> plain_map (ensure_dictionary p m)"
  by (auto simp: plain_map_def ensure_dictionary_def split: option.split)

lemma plain_upd [simp]: "plain_map m \<Longrightarrow> plain_dictionary d \<Longrightarrow> plain_map (m(p \<mapsto> d))"
  by (auto simp: plain_map_def)

lemma collect_can_plain: "plain_formats manifest \<Longrightarrow> plain_dictionary d \<Longrightarrow> plain_dictionary (collect_can_signal manifest ids i d)"
  by (auto simp: collect_can_signal_def Let_def getCANMessageFormat_plain intro: plain_put split: prod.split option.split)

lemma collect_obd_plain: "plain_dictionary d \<Longrightarrow> plain_dictionary (collect_obd_signal manifest i d)"
  unfolding collect_obd_signal_def Let_def
  by (rule plain_put)
     (auto simp: plain_dictionary_def default_method_def default_message_format_def split: option.split)

lemma collect_raw_plain: "plain_dictionary d \<Longrightarrow> plain_dictionary (collect_raw_frame ids info d)"
  by (auto simp: collect_raw_frame_def Let_def default_method_def default_message_format_def plain_dictionary_def split: option.split)

lemma fold_plain: "(\<And>x m. P m \<Longrightarrow> P (f x m)) \<Longrightarrow> P m \<Longrightarrow> P (fold f xs m)"
  by (induction xs arbitrary: m) simp_all

lemma collect_scheme_plain:
  assumes "plain_formats manifest" and "plain_map m"
  shows "plain_map (collect_scheme manifest ids c m)"
proof -
  have "plain_map (collect_signal manifest ids i m)" if "plain_map m" for i m
    using that assms(1) by (simp add: collect_signal_def Let_def collect_can_plain collect_obd_plain)
  then have "plain_map (fold (\<lambda>info. collect_signal manifest ids (sigID info)) (schCollectSignals c) m)"
    using assms(2) by (intro fold_plain [where P = plain_map])
  moreover have "plain_dictionary (fold (collect_raw_frame ids) infos d)" if "plain_dictionary d" for infos d
    using that by (intro fold_plain [where P = plain_dictionary] collect_raw_plain)
  ultimately show ?thesis by (simp add: collect_scheme_def collect_raw_frames_def Let_def)
qed

lemma extractor_plain:
  assumes "plain_formats manifest"
  shows "plain_map (decoderDictionaryExtractor manifest ids m)"
proof -
  have "plain_map (fold (\<lambda>p. collect_scheme manifest ids (snd p)) m (\<lambda>_. None))"
    by (rule fold_plain [where P = plain_map]) (use collect_scheme_plain [OF assms] in \<open>simp_all add: plain_map_def\<close>)
  then show ?thesis by (simp add: decoderDictionaryExtractor_def)
qed

text \<open>The dictionaries the manager can publish: extracted from a manifest that was built, for any schemes.\<close>

definition published_dictionary :: "CANDecoderDictionary \<Rightarrow> bool" where
  "published_dictionary d \<longleftrightarrow> (\<exists>parse bytes ids m p.
     decoderDictionaryExtractor (snd (manifest_build parse (new_manifest\<lparr>mProtoBinaryData := bytes\<rparr>))) ids m p = Some d)"

lemma published_plain: "published_dictionary d \<Longrightarrow> plain_dictionary d"
proof -
  have "plain_formats (new_manifest\<lparr>mProtoBinaryData := bytes\<rparr>)" for bytes
    by (simp add: plain_formats_def new_manifest_def)
  then show "published_dictionary d \<Longrightarrow> plain_dictionary d"
    using extractor_plain [OF manifest_build_plain] unfolding published_dictionary_def plain_map_def by blast
qed


section \<open>Safety\<close>

lemma decode_signals_safe:
  "length fr \<le> 8 \<Longrightarrow> \<exists>st'. decode_signals fr (8 * length fr) ids mux ss st = Inr st'"
  by (induction ss arbitrary: st) (simp_all add: decode_signal_cases)

lemma decode_plain_safe:
  assumes "length fr \<le> 8" and "\<not> mIsMultiplexed fmt"
  shows "\<exists>r. decodeCANMessage fr fmt ids now msg = Inr r"
proof -
  have "length fr * 8 < 2 ^ 32" using assms(1) by simp
  then have u: "u32 (length fr * 8) = 8 * length fr" using u32_id [of "length fr * 8"] by simp
  obtain st where "decode_signals fr (8 * length fr) ids 255 (mSignals fmt) \<lparr>errorCounter = 0, decoded = dmSignals msg\<rparr> = Inr st"
    using decode_signals_safe [OF assms(1)] by blast
  then show ?thesis using assms(2) by (simp add: decodeCANMessage_def Let_def u)
qed

definition consumer_ok :: "spsc_queue \<times> can_consumer \<Rightarrow> bool" where
  "consumer_ok = (\<lambda>(q, c). (\<forall>m \<in> set (qItems q). length (vmRawData m) \<le> 8) \<and>
     (case conDictionary c of None \<Rightarrow> conShouldSleep c \<and> \<not> conNotified c | Some d \<Rightarrow> plain_dictionary d))"

lemma consume_message_safe:
  assumes "conDictionary c = Some d" and "plain_dictionary d" and "length (vmRawData m) \<le> 8"
  shows "\<exists>c'. consume_message env m c = Inr c' \<and> conDictionary c' = Some d"
proof (cases "frames_of (conChannel c) d (u32 (vmID m))")
  case None
  then show ?thesis using assms(1) by (simp add: consume_message_def)
next
  case (Some x)
  then have "\<not> mIsMultiplexed (methodFormat x)" using assms(2) by (auto simp: plain_dictionary_def)
  from decode_plain_safe [OF assms(3) this] obtain ok msg where
    r: "decodeCANMessage (vmRawData m) (methodFormat x) (signalIDsToCollect d) (decodeClock env) \<lparr>dmSignals = [], dmDecodingTime = 0\<rparr> = Inr (ok, msg)"
    by (metis surj_pair)
  have "conDictionary (collect_frame env x m c) = Some d" using assms(1) by (simp add: collect_frame_def)
  then show ?thesis using Some assms(1) r signals_pushed_keeps
    by (simp add: consume_message_def decode_message_def fold_push_signals)
qed

lemma consumer_iteration_ok:
  assumes "consumer_ok (q, c)"
  shows "\<exists>a q' c'. consumer_iteration env q c = Inr (a, q', c') \<and> consumer_ok (q', c')"
proof (cases "conShouldSleep c \<and> \<not> conNotified c")
  case True
  then show ?thesis using assms by (simp add: consumer_iteration_def)
next
  case False
  then obtain d where d: "conDictionary c = Some d" "plain_dictionary d"
    using assms by (auto simp: consumer_ok_def split: option.splits)
  let ?c = "if conShouldSleep c then c\<lparr>conNotified := False\<rparr> else c"
  have dc: "conDictionary ?c = Some d" using d by simp
  show ?thesis
  proof (cases "qItems q")
    case Nil
    then show ?thesis using False assms d by (simp add: consumer_iteration_def q_pop_def consumer_ok_def)
  next
    case (Cons m ms)
    then have m: "length (vmRawData m) \<le> 8" and ms: "\<forall>m \<in> set ms. length (vmRawData m) \<le> 8"
      using assms by (auto simp: consumer_ok_def)
    from consume_message_safe [OF dc d(2) m] obtain c' where c': "consume_message env m ?c = Inr c'" "conDictionary c' = Some d"
      by blast
    have "consumer_iteration env q c = Inr (ConsumerContinue, q\<lparr>qItems := ms\<rparr>, c')"
      unfolding consumer_iteration_def using False c'(1) Cons by (simp add: q_pop_def Let_def split: if_splits)
    then show ?thesis using c'(2) d(2) ms by (simp add: consumer_ok_def)
  qed
qed

text \<open>
  What can happen to a bound consumer: messages arrive, its thread runs, it is suspended and
  resumed with published dictionaries, and, once it has a dictionary, stopped and connected again.
\<close>

inductive consumer_run :: "spsc_queue \<times> can_consumer \<Rightarrow> spsc_queue \<times> can_consumer \<Rightarrow> bool" where
  arrives: "length (vmRawData m) \<le> 8 \<Longrightarrow> consumer_run (q, c) (snd (q_push m q), c)"
| iterates: "consumer_iteration env q c = Inr (a, q', c') \<Longrightarrow> consumer_run (q, c) (q', c')"
| suspends: "consumer_run (q, c) (q, suspendDataConsumption c)"
| resumes: "published_dictionary d \<Longrightarrow> consumer_run (q, c) (q, resumeDataConsumption (Some (Some d)) c)"
| restarts: "conDictionary c \<noteq> None \<Longrightarrow>
    consumer_run (q, c) (q, snd (consumer_connect created (snd (finish_stop joined (request_stop c)))))"

definition bound_consumer :: "nat \<Rightarrow> nat \<Rightarrow> nat \<Rightarrow> can_consumer" where
  "bound_consumer channel source idleMs =
     snd (consumer_connect True (setInputBuffer (Some source) (setCANBufferPtr True (snd (consumer_init 1 channel True idleMs new_consumer)))))"

lemma bound_consumer_fields:
  "conDictionary (bound_consumer ch src idleMs) = None" "conShouldSleep (bound_consumer ch src idleMs)"
  "\<not> conNotified (bound_consumer ch src idleMs)" "consumer_isAlive (bound_consumer ch src idleMs)"
  by (simp_all add: bound_consumer_def consumer_connect_def setInputBuffer_def setCANBufferPtr_def consumer_init_def
      new_consumer_def consumer_start_def consumer_isAlive_def created_alive Let_def)

lemma consumer_run_ok: "consumer_run s s' \<Longrightarrow> consumer_ok s \<Longrightarrow> consumer_ok s'"
proof (induction rule: consumer_run.induct)
  case (arrives m q c)
  then show ?case by (auto simp: consumer_ok_def q_push_def)
next
  case (iterates env q c a q' c')
  then show ?case using consumer_iteration_ok [of q c env] by auto
next
  case (suspends q c)
  then show ?case by (auto simp: consumer_ok_def suspendDataConsumption_def split: option.split)
next
  case (resumes d q c)
  then show ?case by (simp add: consumer_ok_def resumeDataConsumption_def published_plain Let_def)
next
  case (restarts c q created joined)
  then show ?case by (auto simp: consumer_ok_def consumer_connect_def consumer_start_def finish_stop_def request_stop_def Let_def
      split: option.split)
qed

text \<open>
  C23. From the moment it is bound, a consumer that only gets dictionaries extracted from built
  manifests and frames of at most eight bytes never decodes out of bounds nor follows a null
  dictionary, in any order of messages, iterations, suspensions, new dictionaries and, once it
  has a dictionary, restarts.
\<close>

theorem consumer_runs_safe:
  assumes "consumer_run\<^sup>*\<^sup>* (new_queue n, bound_consumer channel source idleMs) (q, c)"
  shows "\<exists>a q' c'. consumer_iteration env q c = Inr (a, q', c')"
proof -
  have "consumer_ok (new_queue n, bound_consumer channel source idleMs)"
    by (simp add: consumer_ok_def new_queue_def bound_consumer_fields)
  with assms have "consumer_ok (q, c)" by (induction rule: rtranclp_induct) (auto intro: consumer_run_ok)
  then show ?thesis using consumer_iteration_ok by blast
qed

text \<open>
  A consumer that is stopped before it got a dictionary, with a message in its queue, follows
  the null pointer: the notification of the stop ends its sleep, and it takes the message before
  it looks whether it should stop.
\<close>

theorem stop_before_dictionary_crashes:
  assumes "conDictionary c = None" and "qItems q \<noteq> []"
  shows "consumer_iteration env q (request_stop c) = Inl NullPointer"
  using assms by (cases "qItems q") (simp_all add: consumer_iteration_def request_stop_def q_pop_def consume_message_def Let_def)

section \<open>Examples\<close>

definition sample_message :: VehicleDataMessage where
  "sample_message = \<lparr>vmID = 0x123, vmRawData = [1, 2], vmTimestamp = 3007\<rparr>"

definition sample_consumer_env :: consumer_env where
  "sample_consumer_env = \<lparr>takesFrame = (\<lambda>_. True), takesSignal = (\<lambda>_. True), decodeClock = 0\<rparr>"

theorem stop_before_dictionary_crashes_witness:
  "consumer_iteration sample_consumer_env \<lparr>qItems = [sample_message], qCapacity = 5\<rparr> (request_stop (bound_consumer 0 1 0)) = Inl NullPointer"
  by (rule stop_before_dictionary_crashes) (simp_all add: bound_consumer_fields)

text \<open>The message is held back until a dictionary arrives.\<close>

theorem consumer_runs_safe_witness:
  "\<exists>a q' c'. consumer_iteration sample_consumer_env (snd (q_push sample_message (new_queue 5))) (bound_consumer 0 1 0) = Inr (a, q', c')"
proof -
  have "length (vmRawData sample_message) \<le> 8" by (simp add: sample_message_def)
  from r_into_rtranclp [where r = consumer_run, OF consumer_run.arrives [OF this]]
  show ?thesis by (rule consumer_runs_safe)
qed

definition sample_frame_dictionary :: CANDecoderDictionary where
  "sample_frame_dictionary = put_method 0 0x123 \<lparr>collectType = RAW, methodFormat = default_message_format\<rparr> new_dictionary"


end
