(* ===== verification/SourceBinder.thy ===== *)
theory SourceBinder
  imports CanSource ConsumerSafety Containers
begin

text \<open>
  The owner of sources and consumers (\<open>VehicleDataSourceBinder.cpp\<close>): it owns the sources of the
  buses and their consumers, connects and disconnects them, passes new dictionaries on, and its
  thread stops and restarts consumers when their source tells that it was disconnected or
  connected. An operation runs as a whole; what the worker threads of sources and consumers do
  in between is in the theories of those. The results of system calls are inputs.
\<close>

section \<open>State\<close>

datatype VehicleDataSourceState = INVALID_STATE | CONNECTED | DISCONNECTED

definition INVALID_DATA_SOURCE_ID :: nat where "INVALID_DATA_SOURCE_ID = 0"

record source_binder =
  mIdsToDataSources :: "(nat \<times> can_source) list"
  mDataSourcesToConsumers :: "(nat \<times> can_consumer) list"
  mDataSourceStates :: "(nat \<times> VehicleDataSourceState) list"
  listenedSources :: "nat set"
  bndNotified :: bool
  bndThread :: worker_thread

definition new_binder :: source_binder where
  "new_binder = \<lparr>mIdsToDataSources = [], mDataSourcesToConsumers = [], mDataSourceStates = [],
     listenedSources = {}, bndNotified = False, bndThread = new_thread\<rparr>"

text \<open>Whether consumer threads are created and joined, and leave a notification behind.\<close>

record binder_env =
  socketEnv :: "nat \<Rightarrow> socket_env"
  consumerCreated :: "nat \<Rightarrow> bool"
  consumerJoined :: "nat \<Rightarrow> bool"
  consumerSignalLeft :: "nat \<Rightarrow> bool"
  binderCreated :: bool
  binderJoined :: bool

section \<open>Consumers and sources\<close>

text \<open>A consumer is disconnected by stopping its thread and waiting for its end.\<close>

definition consumer_disconnect :: "binder_env \<Rightarrow> nat \<Rightarrow> can_consumer \<Rightarrow> bool \<times> can_consumer" where
  "consumer_disconnect env i c =
     (let (stopped, c) = finish_stop (consumerJoined env i) (request_stop c)
      in (stopped, c\<lparr>conNotified := consumerSignalLeft env i\<rparr>))"

section \<open>Notifications of sources\<close>

text \<open>\<open>emplace\<close> keeps the state that is already there.\<close>

definition put_state :: "nat \<Rightarrow> VehicleDataSourceState \<Rightarrow> source_binder \<Rightarrow> source_binder" where
  "put_state i st b =
     b\<lparr>mDataSourceStates := (if map_of (mDataSourceStates b) i = None then omap_put i st (mDataSourceStates b) else mDataSourceStates b),
       bndNotified := True\<rparr>"

definition onVehicleDataSourceConnected :: "nat \<Rightarrow> source_binder \<Rightarrow> source_binder" where
  "onVehicleDataSourceConnected i b = (if i = INVALID_DATA_SOURCE_ID then b else put_state i CONNECTED b)"

definition onVehicleDataSourceDisconnected :: "nat \<Rightarrow> source_binder \<Rightarrow> source_binder" where
  "onVehicleDataSourceDisconnected i b = (if i = INVALID_DATA_SOURCE_ID then b else put_state i DISCONNECTED b)"

text \<open>Connecting and disconnecting a source it holds; it is told when it listens.\<close>

definition connect_source :: "binder_env \<Rightarrow> nat \<Rightarrow> can_source \<Rightarrow> source_binder \<Rightarrow> bool \<times> source_binder" where
  "connect_source env i s b =
     (let (ok, told, s) = source_connect (socketEnv env i) s;
          b = b\<lparr>mIdsToDataSources := omap_put i s (mIdsToDataSources b)\<rparr>
      in (ok, if told \<and> i \<in> listenedSources b then onVehicleDataSourceConnected i b else b))"

definition disconnect_source :: "binder_env \<Rightarrow> nat \<Rightarrow> can_source \<Rightarrow> source_binder \<Rightarrow> bool \<times> source_binder" where
  "disconnect_source env i s b =
     (let (ok, told, s) = source_disconnect (socketEnv env i) s;
          b = b\<lparr>mIdsToDataSources := omap_put i s (mIdsToDataSources b)\<rparr>
      in (ok, if told \<and> i \<in> listenedSources b then onVehicleDataSourceDisconnected i b else b))"

section \<open>Operations\<close>

definition addVehicleDataSource :: "binder_env \<Rightarrow> can_source option \<Rightarrow> source_binder \<Rightarrow> bool \<times> source_binder" where
  "addVehicleDataSource env source b =
     (case source of
        None \<Rightarrow> (False, b)
      | Some s \<Rightarrow>
          if srcID s = INVALID_DATA_SOURCE_ID \<or> map_of (mIdsToDataSources b) (srcID s) \<noteq> None then (False, b)
          else let (ok, b) = connect_source env (srcID s) s b in
            if ok \<and> srcID s \<notin> listenedSources b
            then (True, b\<lparr>listenedSources := insert (srcID s) (listenedSources b)\<rparr>)
            else (False, b))"

definition removeVehicleDataSource :: "binder_env \<Rightarrow> nat \<Rightarrow> source_binder \<Rightarrow> bool \<times> source_binder" where
  "removeVehicleDataSource env i b =
     (if i = INVALID_DATA_SOURCE_ID then (False, b)
      else case map_of (mIdsToDataSources b) i of
        None \<Rightarrow> (False, b)
      | Some s \<Rightarrow>
          let b = b\<lparr>mIdsToDataSources := assoc_del i (mIdsToDataSources b)\<rparr> in
          if i \<in> listenedSources b
          then let b = b\<lparr>listenedSources := listenedSources b - {i}\<rparr>; (ok, told, s) = source_disconnect (socketEnv env i) s in (ok, b)
          else (False, b))"

definition bindConsumerToVehicleDataSource :: "binder_env \<Rightarrow> can_consumer option \<Rightarrow> nat \<Rightarrow> source_binder \<Rightarrow> bool \<times> source_binder" where
  "bindConsumerToVehicleDataSource env consumer i b =
     (case consumer of
        None \<Rightarrow> (False, b)
      | Some c \<Rightarrow>
          if i = INVALID_DATA_SOURCE_ID then (False, b)
          else case map_of (mIdsToDataSources b) i of
            None \<Rightarrow> (False, b)
          | Some s \<Rightarrow>
              if map_of (mDataSourcesToConsumers b) i \<noteq> None then (False, b)
              else let c = setInputBuffer (if srcBuffer s = None then None else Some i) (setChannelMetadata RAW_SOCKET c);
                       (ok, c) = consumer_connect (consumerCreated env i) c
                   in (ok, b\<lparr>mDataSourcesToConsumers := omap_put i c (mDataSourcesToConsumers b)\<rparr>))"

definition unBindConsumerFromVehicleDataSource :: "binder_env \<Rightarrow> nat \<Rightarrow> source_binder \<Rightarrow> bool \<times> source_binder" where
  "unBindConsumerFromVehicleDataSource env i b =
     (if i = INVALID_DATA_SOURCE_ID then (False, b)
      else case map_of (mDataSourcesToConsumers b) i of
        None \<Rightarrow> (False, b)
      | Some c \<Rightarrow> (fst (consumer_disconnect env i c), b\<lparr>mDataSourcesToConsumers := assoc_del i (mDataSourcesToConsumers b)\<rparr>))"

definition disconnectConsumer :: "binder_env \<Rightarrow> nat \<Rightarrow> source_binder \<Rightarrow> bool \<times> source_binder" where
  "disconnectConsumer env i b =
     (case map_of (mDataSourcesToConsumers b) i of
        None \<Rightarrow> (False, b)
      | Some c \<Rightarrow>
          let (ok, c) = consumer_disconnect env i c in (ok, b\<lparr>mDataSourcesToConsumers := omap_put i c (mDataSourcesToConsumers b)\<rparr>))"

definition reConnectConsumer :: "binder_env \<Rightarrow> nat \<Rightarrow> source_binder \<Rightarrow> bool \<times> source_binder" where
  "reConnectConsumer env i b =
     (case map_of (mDataSourcesToConsumers b) i of
        None \<Rightarrow> (False, b)
      | Some c \<Rightarrow>
          if consumer_isAlive c then (False, b)
          else let (ok, c) = consumer_connect (consumerCreated env i) c
               in (ok, b\<lparr>mDataSourcesToConsumers := omap_put i c (mDataSourcesToConsumers b)\<rparr>))"

section \<open>The monitoring thread\<close>

definition serve_state :: "binder_env \<Rightarrow> nat \<times> VehicleDataSourceState \<Rightarrow> source_binder \<Rightarrow> source_binder" where
  "serve_state env = (\<lambda>(i, st) b.
     if st = CONNECTED then snd (reConnectConsumer env i b)
     else if st = DISCONNECTED then snd (disconnectConsumer env i b)
     else b)"

text \<open>One iteration, or \<open>None\<close> while the thread waits for a notification.\<close>

definition binder_iteration :: "binder_env \<Rightarrow> source_binder \<Rightarrow> source_binder option" where
  "binder_iteration env b =
     (if \<not> bndNotified b then None
      else let sourceStatesCopy = mDataSourceStates b in
        Some (fold (serve_state env) sourceStatesCopy (b\<lparr>bndNotified := False, mDataSourceStates := []\<rparr>)))"

definition binder_connect :: "binder_env \<Rightarrow> source_binder \<Rightarrow> bool \<times> source_binder" where
  "binder_connect env b = (let t = snd (thread_create (binderCreated env) (bndThread b)) in (thread_alive t, b\<lparr>bndThread := t\<rparr>))"

text \<open>Disconnecting everything, until one does not succeed.\<close>

fun disconnect_consumers :: "binder_env \<Rightarrow> nat list \<Rightarrow> source_binder \<Rightarrow> bool \<times> source_binder" where
  "disconnect_consumers env [] b = (True, b)"
| "disconnect_consumers env (i # is) b =
     (let (ok, b) = disconnectConsumer env i b in if ok then disconnect_consumers env is b else (False, b))"

fun disconnect_sources :: "binder_env \<Rightarrow> (nat \<times> can_source) list \<Rightarrow> source_binder \<Rightarrow> bool \<times> source_binder" where
  "disconnect_sources env [] b = (True, b)"
| "disconnect_sources env ((i, s) # ss) b =
     (let (ok, b) = disconnect_source env i s b in if ok then disconnect_sources env ss b else (False, b))"

definition binder_disconnect :: "binder_env \<Rightarrow> source_binder \<Rightarrow> bool \<times> source_binder" where
  "binder_disconnect env b =
     (let (ok, b) = disconnect_consumers env (map fst (mDataSourcesToConsumers b)) b in
      if \<not> ok then (False, b)
      else let (ok, b) = disconnect_sources env (mIdsToDataSources b) b in
        if \<not> ok then (False, b)
        else let t = snd (thread_release (binderJoined env) (bndThread b)) in (thDone t, b\<lparr>bndThread := t\<rparr>))"

text \<open>The protocol of every source of this kind is \<open>RAW_SOCKET\<close>.\<close>

definition binder_onChangeOfActiveDictionary ::
  "nat \<Rightarrow> CANDecoderDictionary option option \<Rightarrow> VehicleDataSourceProtocol \<Rightarrow> source_binder \<Rightarrow> source_binder" where
  "binder_onChangeOfActiveDictionary time dictionary networkProtocol b =
     (let forConsumer = (\<lambda>c. if networkProtocol = conProtocol c
            then if dictionary \<noteq> None then resumeDataConsumption dictionary c else suspendDataConsumption c else c);
          forSource = (\<lambda>s. if networkProtocol = RAW_SOCKET
            then if dictionary \<noteq> None then resumeDataAcquisition time s else suspendDataAcquisition s else s)
      in b\<lparr>mDataSourcesToConsumers := map (\<lambda>(i, c). (i, forConsumer c)) (mDataSourcesToConsumers b),
           mIdsToDataSources := map (\<lambda>(i, s). (i, forSource s)) (mIdsToDataSources b)\<rparr>)"

end
