(* ===== verification/BinderBehaviour.thy ===== *)
theory BinderBehaviour
  imports SourceBinder
begin

text \<open>
  What reaches the consumers: dictionaries, and the notifications of their sources. The second
  part follows one source that is disconnected and connected again.
\<close>

section \<open>Dictionaries\<close>

lemma map_of_map_snd: "map_of (map (\<lambda>(i, x). (i, f x)) m) k = map_option f (map_of m k)"
  by (induction m) auto

text \<open>A consumer and a source after they are told of a dictionary, or of none.\<close>

definition consumer_told :: "VehicleDataSourceProtocol \<Rightarrow> CANDecoderDictionary option \<Rightarrow> can_consumer \<Rightarrow> can_consumer" where
  "consumer_told p d c =
     (if conProtocol c \<noteq> p then c
      else case d of Some x \<Rightarrow> c\<lparr>conDictionary := Some x, conShouldSleep := False, conNotified := True\<rparr>
                   | None \<Rightarrow> c\<lparr>conShouldSleep := True\<rparr>)"

definition source_told :: "VehicleDataSourceProtocol \<Rightarrow> CANDecoderDictionary option \<Rightarrow> nat \<Rightarrow> can_source \<Rightarrow> can_source" where
  "source_told p d time s =
     (if p \<noteq> RAW_SOCKET then s
      else case d of Some x \<Rightarrow> s\<lparr>srcResumeTime := time, srcShouldSleep := False, srcNotified := True\<rparr>
                   | None \<Rightarrow> s\<lparr>srcShouldSleep := True\<rparr>)"

text \<open>
  A dictionary for a protocol reaches every consumer and every source of it and nothing
  else: the consumers use it and are awake, the sources are awake and drop what is older. A null
  pointer puts them to sleep and leaves the dictionary they have.
\<close>

theorem dictionary_reaches:
  "map_of (mDataSourcesToConsumers (binder_onChangeOfActiveDictionary time (map_option Some d) p b)) i =
     map_option (consumer_told p d) (map_of (mDataSourcesToConsumers b) i) \<and>
   map_of (mIdsToDataSources (binder_onChangeOfActiveDictionary time (map_option Some d) p b)) i =
     map_option (source_told p d time) (map_of (mIdsToDataSources b) i)"
  unfolding binder_onChangeOfActiveDictionary_def Let_def
  by (cases d) (auto simp: map_of_map_snd resumeDataConsumption_def suspendDataConsumption_def resumeDataAcquisition_def
      suspendDataAcquisition_def consumer_told_def source_told_def intro!: option.map_cong)

section \<open>Notifications\<close>

lemma consumer_disconnect_simps:
  "\<not> consumer_isAlive (snd (consumer_disconnect env i c))" "fst (consumer_disconnect env i c)"
  by (simp_all add: consumer_disconnect_def finish_stop_def released_not_active consumer_isAlive_def thread_alive_def split_beta Let_def)

definition connectable :: "can_consumer \<Rightarrow> bool" where
  "connectable c \<longleftrightarrow> conInput c \<noteq> None \<and> conSignalBuffer c \<and> conCANBuffer c"

lemma consumer_disconnect_connectable [simp]: "connectable (snd (consumer_disconnect env i c)) = connectable c"
  by (simp add: connectable_def consumer_disconnect_def finish_stop_def request_stop_def split_beta Let_def)

lemma consumer_connect_simps:
  assumes "connectable c"
  shows "consumer_isAlive (snd (consumer_connect True c))" "conShouldSleep (snd (consumer_connect True c))"
    "conNotified (snd (consumer_connect True c)) = conNotified c"
  using assms by (simp_all add: connectable_def consumer_connect_def consumer_start_def consumer_isAlive_def created_alive Let_def)

text \<open>What the thread does to a consumer for the state its source told.\<close>

definition served :: "binder_env \<Rightarrow> nat \<Rightarrow> VehicleDataSourceState option \<Rightarrow> can_consumer \<Rightarrow> can_consumer" where
  "served env i st c =
     (case st of
        Some DISCONNECTED \<Rightarrow> snd (consumer_disconnect env i c)
      | Some CONNECTED \<Rightarrow> if consumer_isAlive c then c else snd (consumer_connect (consumerCreated env i) c)
      | _ \<Rightarrow> c)"

lemma served_none [simp]: "served env i None = (\<lambda>c. c)"
  by (simp add: served_def fun_eq_iff)

lemma serve_state_result:
  "map_of (mDataSourcesToConsumers (serve_state env (i, st) b)) j =
     (if j = i then map_option (served env i (Some st)) (map_of (mDataSourcesToConsumers b) i) else map_of (mDataSourcesToConsumers b) j)"
  "mIdsToDataSources (serve_state env (i, st) b) = mIdsToDataSources b"
  "mDataSourceStates (serve_state env (i, st) b) = mDataSourceStates b"
  "listenedSources (serve_state env (i, st) b) = listenedSources b"
  "bndNotified (serve_state env (i, st) b) = bndNotified b"
  by (cases st; cases "map_of (mDataSourcesToConsumers b) i";
      auto simp: serve_state_def reConnectConsumer_def disconnectConsumer_def served_def om.lookup_put split_beta Let_def)+

lemma serve_states_result:
  "distinct (map fst sts) \<Longrightarrow>
   map_of (mDataSourcesToConsumers (fold (serve_state env) sts b)) i =
     map_option (served env i (map_of sts i)) (map_of (mDataSourcesToConsumers b) i) \<and>
   mIdsToDataSources (fold (serve_state env) sts b) = mIdsToDataSources b \<and>
   mDataSourceStates (fold (serve_state env) sts b) = mDataSourceStates b \<and>
   listenedSources (fold (serve_state env) sts b) = listenedSources b \<and>
   bndNotified (fold (serve_state env) sts b) = bndNotified b"
proof (induction sts arbitrary: b)
  case Nil
  then show ?case by (simp add: option.map_ident)
next
  case (Cons p sts)
  obtain j st where p: "p = (j, st)" by (cases p)
  have "map_of sts i = None" if "i = j" using Cons.prems that by (auto simp: p map_of_eq_None_iff)
  then show ?case using Cons.IH [of "serve_state env (j, st) b"] Cons.prems
    by (auto simp: p serve_state_result option.map_ident)
qed

definition states_ok :: "source_binder \<Rightarrow> bool" where
  "states_ok b \<longleftrightarrow> distinct (map fst (mDataSourceStates b)) \<and> (mDataSourceStates b \<noteq> [] \<longrightarrow> bndNotified b)"

lemma notifications_result:
  assumes "states_ok b" and "bndNotified b"
  shows "\<exists>b'. binder_iteration env b = Some b' \<and> mDataSourceStates b' = [] \<and> \<not> bndNotified b' \<and>
    mIdsToDataSources b' = mIdsToDataSources b \<and>
    (\<forall>i. map_of (mDataSourcesToConsumers b') i =
       map_option (served env i (map_of (mDataSourceStates b) i)) (map_of (mDataSourcesToConsumers b) i))"
  using assms serve_states_result [of "mDataSourceStates b" env "b\<lparr>bndNotified := False, mDataSourceStates := []\<rparr>"]
  by (simp add: binder_iteration_def states_ok_def Let_def)

text \<open>
  When it is notified, the thread serves every state once and keeps none: a consumer whose
  source told that it was disconnected is stopped, one whose source told that it is connected is
  started unless it runs, and all others are left as they are.
\<close>

theorem notifications_served:
  assumes "states_ok b" and "bndNotified b"
  shows "\<exists>b'. binder_iteration env b = Some b' \<and> mDataSourceStates b' = [] \<and> \<not> bndNotified b' \<and>
    mIdsToDataSources b' = mIdsToDataSources b \<and>
    (\<forall>i. map_of (mDataSourcesToConsumers b') i =
       map_option (served env i (map_of (mDataSourceStates b) i)) (map_of (mDataSourcesToConsumers b) i))"
  by (rule notifications_result [OF assms])

section \<open>A source that is disconnected and connected again\<close>

definition sockets_work :: "binder_env \<Rightarrow> nat \<Rightarrow> bool" where
  "sockets_work env i \<longleftrightarrow> socketOpens (socketEnv env i) \<and> interfaceFound (socketEnv env i) \<and> timestampsSupported (socketEnv env i) \<and>
     bindSucceeds (socketEnv env i) \<and> threadCreated (socketEnv env i)"

lemma source_disconnect_result: "\<exists>s'. source_disconnect e s = (True, True, s') \<and> srcIfName s' = srcIfName s"
  by (simp add: source_disconnect_def source_stop_def released_not_active Let_def)

lemma source_connect_result:
  "sockets_work env i \<Longrightarrow> length (srcIfName s) < IFNAMSIZ \<Longrightarrow>
   \<exists>s'. source_connect (socketEnv env i) s = (True, True, s') \<and> thread_alive (srcThread s') \<and> srcShouldSleep s' \<and> srcIfName s' = srcIfName s"
  by (simp add: source_connect_def source_start_def sockets_work_def created_alive Let_def)

text \<open>Losing and regaining the connection of source \<open>i\<close>, with what it tells.\<close>

definition lose_source :: "binder_env \<Rightarrow> nat \<Rightarrow> source_binder \<Rightarrow> source_binder" where
  "lose_source env i b = (case map_of (mIdsToDataSources b) i of None \<Rightarrow> b | Some s \<Rightarrow> snd (disconnect_source env i s b))"

definition regain_source :: "binder_env \<Rightarrow> nat \<Rightarrow> source_binder \<Rightarrow> source_binder" where
  "regain_source env i b = (case map_of (mIdsToDataSources b) i of None \<Rightarrow> b | Some s \<Rightarrow> snd (connect_source env i s b))"

text \<open>A listened source with its consumer, and nothing pending.\<close>

definition settled :: "nat \<Rightarrow> source_binder \<Rightarrow> bool" where
  "settled i b \<longleftrightarrow> i \<noteq> INVALID_DATA_SOURCE_ID \<and> i \<in> listenedSources b \<and> mDataSourceStates b = [] \<and>
     (\<exists>s. map_of (mIdsToDataSources b) i = Some s \<and> length (srcIfName s) < IFNAMSIZ) \<and>
     (\<exists>c. map_of (mDataSourcesToConsumers b) i = Some c \<and> connectable c)"

lemma lose_result:
  assumes "settled i b"
  shows "mDataSourceStates (lose_source env i b) = [(i, DISCONNECTED)] \<and> bndNotified (lose_source env i b) \<and>
    mDataSourcesToConsumers (lose_source env i b) = mDataSourcesToConsumers b \<and>
    listenedSources (lose_source env i b) = listenedSources b \<and>
    (\<exists>s. map_of (mIdsToDataSources (lose_source env i b)) i = Some s \<and> length (srcIfName s) < IFNAMSIZ)"
proof -
  obtain s where s: "map_of (mIdsToDataSources b) i = Some s" "length (srcIfName s) < IFNAMSIZ" using assms by (auto simp: settled_def)
  obtain s' where s': "source_disconnect (socketEnv env i) s = (True, True, s')" "srcIfName s' = srcIfName s"
    using source_disconnect_result by blast
  have "map_of (omap_put i s' (mIdsToDataSources b)) i = Some s'" by (simp add: om.lookup_put)
  then show ?thesis using assms s s'
    by (simp add: lose_source_def disconnect_source_def settled_def onVehicleDataSourceDisconnected_def put_state_def Let_def)
qed

lemma regain_result:
  assumes "sockets_work env i" and "i \<noteq> INVALID_DATA_SOURCE_ID" and "i \<in> listenedSources b"
    and "map_of (mIdsToDataSources b) i = Some s" and "length (srcIfName s) < IFNAMSIZ"
  shows "mDataSourcesToConsumers (regain_source env i b) = mDataSourcesToConsumers b \<and>
    listenedSources (regain_source env i b) = listenedSources b \<and> bndNotified (regain_source env i b) \<and>
    mDataSourceStates (regain_source env i b) =
      (if map_of (mDataSourceStates b) i = None then omap_put i CONNECTED (mDataSourceStates b) else mDataSourceStates b) \<and>
    (\<exists>s'. map_of (mIdsToDataSources (regain_source env i b)) i = Some s' \<and> thread_alive (srcThread s') \<and> srcShouldSleep s')"
proof -
  obtain s' where s': "source_connect (socketEnv env i) s = (True, True, s')" "thread_alive (srcThread s')" "srcShouldSleep s'"
    using source_connect_result [OF assms(1,5)] by blast
  have "map_of (omap_put i s' (mIdsToDataSources b)) i = Some s'" by (simp add: om.lookup_put)
  then show ?thesis using assms s'
    by (simp add: regain_source_def connect_source_def onVehicleDataSourceConnected_def put_state_def Let_def)
qed

text \<open>
  If a source is disconnected and connected again before the thread runs, the second
  notification is lost: the thread stops the consumer and does not start it again, while the
  source is connected and nothing is left to serve.
\<close>

theorem quick_reconnect_is_lost:
  assumes "settled i b" and "sockets_work env i"
  shows "\<exists>b' s c. binder_iteration env (regain_source env i (lose_source env i b)) = Some b' \<and>
    map_of (mIdsToDataSources b') i = Some s \<and> thread_alive (srcThread s) \<and>
    map_of (mDataSourcesToConsumers b') i = Some c \<and> \<not> consumer_isAlive c \<and>
    mDataSourceStates b' = [] \<and> binder_iteration env b' = None"
proof -
  let ?b1 = "lose_source env i b"
  let ?b2 = "regain_source env i ?b1"
  obtain c where c: "map_of (mDataSourcesToConsumers b) i = Some c" using assms(1) by (auto simp: settled_def)
  obtain s where s: "map_of (mIdsToDataSources ?b1) i = Some s" "length (srcIfName s) < IFNAMSIZ"
    using lose_result [OF assms(1)] by blast
  have i: "i \<noteq> INVALID_DATA_SOURCE_ID" "i \<in> listenedSources ?b1" using assms(1) lose_result [OF assms(1)] by (auto simp: settled_def)
  note r = regain_result [OF assms(2) i s]
  have st: "mDataSourceStates ?b2 = [(i, DISCONNECTED)]" "bndNotified ?b2" "map_of (mDataSourcesToConsumers ?b2) i = Some c"
    using r lose_result [OF assms(1)] c by simp_all
  obtain s' where s': "map_of (mIdsToDataSources ?b2) i = Some s'" "thread_alive (srcThread s')" using r by blast
  have "states_ok ?b2" using st by (simp add: states_ok_def)
  from notifications_result [OF this st(2)] obtain b' where b': "binder_iteration env ?b2 = Some b'" "mDataSourceStates b' = []"
    "\<not> bndNotified b'" "mIdsToDataSources b' = mIdsToDataSources ?b2"
    "map_of (mDataSourcesToConsumers b') i = map_option (served env i (map_of (mDataSourceStates ?b2) i)) (map_of (mDataSourcesToConsumers ?b2) i)"
    by blast
  then show ?thesis using s' st consumer_disconnect_simps(1)
    by (auto simp: served_def binder_iteration_def [of env b'])
qed


text \<open>
  If the thread serves both notifications, source and consumer run again, but both sleep
  until the next dictionary: starting a thread puts it to sleep, and the dictionary in use is not
  passed on again.
\<close>

theorem reconnected_pair_sleeps:
  assumes "settled i b" and "sockets_work env i" and "consumerCreated env i"
  shows "\<exists>b1 b2 s c. binder_iteration env (lose_source env i b) = Some b1 \<and>
    binder_iteration env (regain_source env i b1) = Some b2 \<and>
    map_of (mIdsToDataSources b2) i = Some s \<and> thread_alive (srcThread s) \<and> srcShouldSleep s \<and>
    map_of (mDataSourcesToConsumers b2) i = Some c \<and> consumer_isAlive c \<and> conShouldSleep c"
proof -
  let ?l = "lose_source env i b"
  obtain c where c: "map_of (mDataSourcesToConsumers b) i = Some c" "connectable c" using assms(1) by (auto simp: settled_def)
  obtain s where s: "map_of (mIdsToDataSources ?l) i = Some s" "length (srcIfName s) < IFNAMSIZ"
    using lose_result [OF assms(1)] by blast
  have l: "mDataSourceStates ?l = [(i, DISCONNECTED)]" "bndNotified ?l" "map_of (mDataSourcesToConsumers ?l) i = Some c"
    "listenedSources ?l = listenedSources b"
    using lose_result [OF assms(1)] c by simp_all
  have "states_ok ?l" using l by (simp add: states_ok_def)
  then obtain b1 where b1: "binder_iteration env ?l = Some b1" "mDataSourceStates b1 = []" "mIdsToDataSources b1 = mIdsToDataSources ?l"
    "listenedSources b1 = listenedSources ?l"
    "map_of (mDataSourcesToConsumers b1) i = Some (snd (consumer_disconnect env i c))"
    using l serve_states_result [of "mDataSourceStates ?l" env "?l\<lparr>bndNotified := False, mDataSourceStates := []\<rparr>"]
    by (simp add: binder_iteration_def Let_def served_def)
  let ?r = "regain_source env i b1"
  have i: "i \<noteq> INVALID_DATA_SOURCE_ID" "i \<in> listenedSources b1" using assms(1) b1(4) l(4) by (auto simp: settled_def)
  note r = regain_result [OF assms(2) i s [folded b1(3)]]
  obtain s' where s': "map_of (mIdsToDataSources ?r) i = Some s'" "thread_alive (srcThread s')" "srcShouldSleep s'" using r by blast
  have st: "mDataSourceStates ?r = [(i, CONNECTED)]" "bndNotified ?r"
    "map_of (mDataSourcesToConsumers ?r) i = Some (snd (consumer_disconnect env i c))"
    using r b1(2,5) by simp_all
  let ?c = "snd (consumer_connect True (snd (consumer_disconnect env i c)))"
  obtain b2 where b2: "binder_iteration env ?r = Some b2" "mIdsToDataSources b2 = mIdsToDataSources ?r"
    "map_of (mDataSourcesToConsumers b2) i = Some ?c"
    using st serve_states_result [of "mDataSourceStates ?r" env "?r\<lparr>bndNotified := False, mDataSourceStates := []\<rparr>"] assms(3)
    by (simp add: binder_iteration_def Let_def served_def consumer_disconnect_simps)
  have "consumer_isAlive ?c" "conShouldSleep ?c" using c(2) by (simp_all add: consumer_connect_simps)
  then show ?thesis using b1(1) b2 s' by auto
qed

section \<open>Examples\<close>

definition all_work :: binder_env where
  "all_work = \<lparr>socketEnv = (\<lambda>_. working_sockets), consumerCreated = (\<lambda>_. True), consumerJoined = (\<lambda>_. True),
     consumerSignalLeft = (\<lambda>_. False), binderCreated = True, binderJoined = True\<rparr>"

text \<open>One bus, added and bound as at start-up.\<close>

definition sample_binder :: source_binder where
  "sample_binder =
     snd (bindConsumerToVehicleDataSource all_work
       (Some (setCANBufferPtr True (snd (consumer_init 1 0 True 0 new_consumer)))) 1
       (snd (addVehicleDataSource all_work (Some sample_source) new_binder)))"

lemma sample_binder_settled: "settled 1 sample_binder" "sockets_work all_work 1" "consumerCreated all_work 1"
proof -
  have e: "socketEnv all_work 1 = working_sockets" "consumerCreated all_work 1" by (simp_all add: all_work_def)
  then show w: "sockets_work all_work 1" "consumerCreated all_work 1" by (simp_all add: sockets_work_def working_sockets_def)
  have n: "length (srcIfName sample_source) < IFNAMSIZ" by (simp add: sample_source_def IFNAMSIZ_def)
  have src: "srcID sample_source = 1" "srcBuffer sample_source \<noteq> None" by (simp_all add: sample_source_def new_source_def)
  obtain s' where s': "source_connect working_sockets sample_source = (True, True, s')" "srcIfName s' = srcIfName sample_source"
    using source_connect_result [OF w(1) n] e by auto
  have b': "srcBuffer s' = srcBuffer sample_source"
    using s'(1) by (auto simp: source_connect_def source_start_def Let_def split: if_splits)
  then obtain q where q: "srcBuffer s' = Some q" using src(2) by auto
  let ?b = "snd (addVehicleDataSource all_work (Some sample_source) new_binder)"
  have b: "?b = new_binder\<lparr>mIdsToDataSources := [(1, s')], listenedSources := {1}\<rparr>"
    using s' e by (simp add: addVehicleDataSource_def connect_source_def src new_binder_def INVALID_DATA_SOURCE_ID_def Let_def)
  let ?c = "setCANBufferPtr True (snd (consumer_init 1 0 True 0 new_consumer))"
  have c: "connectable (snd (consumer_connect True (setInputBuffer (Some 1) (setChannelMetadata RAW_SOCKET ?c))))"
    by (simp add: connectable_def consumer_connect_def consumer_start_def setInputBuffer_def setChannelMetadata_def
        setCANBufferPtr_def consumer_init_def Let_def)
  have sb: "sample_binder = ?b\<lparr>mDataSourcesToConsumers :=
      [(1, snd (consumer_connect True (setInputBuffer (Some 1) (setChannelMetadata RAW_SOCKET ?c))))]\<rparr>"
    unfolding sample_binder_def b using q e
    by (simp add: bindConsumerToVehicleDataSource_def new_binder_def INVALID_DATA_SOURCE_ID_def split_beta Let_def)
  show "settled 1 sample_binder"
    unfolding sb b using c n s'(2) by (simp add: settled_def new_binder_def INVALID_DATA_SOURCE_ID_def)
qed

theorem notifications_served_witness:
  "\<exists>b'. binder_iteration all_work (put_state 1 DISCONNECTED sample_binder) = Some b' \<and> mDataSourceStates b' = []"
proof -
  let ?b = "put_state 1 DISCONNECTED sample_binder"
  have "mDataSourceStates sample_binder = []" using sample_binder_settled(1) by (simp add: settled_def)
  then have "states_ok ?b" by (simp add: states_ok_def put_state_def)
  moreover have "bndNotified ?b" by (simp add: put_state_def)
  ultimately show ?thesis using notifications_served [of ?b all_work] by blast
qed

theorem quick_reconnect_is_lost_witness:
  "\<exists>b' c. binder_iteration all_work (regain_source all_work 1 (lose_source all_work 1 sample_binder)) = Some b' \<and>
     map_of (mDataSourcesToConsumers b') 1 = Some c \<and> \<not> consumer_isAlive c"
  using quick_reconnect_is_lost [OF sample_binder_settled(1,2)] by blast

theorem reconnected_pair_sleeps_witness:
  "\<exists>b1 b2 c. binder_iteration all_work (lose_source all_work 1 sample_binder) = Some b1 \<and>
     binder_iteration all_work (regain_source all_work 1 b1) = Some b2 \<and>
     map_of (mDataSourcesToConsumers b2) 1 = Some c \<and> consumer_isAlive c \<and> conShouldSleep c"
  using reconnected_pair_sleeps [OF sample_binder_settled] by blast

end
