(* ===== verification/InspectionEngine.thy ===== *)
theory InspectionEngine
  imports Expression
begin

text \<open>
  The collection and inspection engine (\<open>CollectionInspectionEngine.cpp\<close>): configuration from an
  inspection matrix, arrival of signals, frames and trouble codes, evaluation of the conditions,
  and collection of the data of triggered conditions. Random numbers are a stream the engine
  draws from; the event counter is part of the state; notified camera events are an output log.
\<close>

section \<open>State\<close>

record engine =
  mSignalBuffers :: signal_buffers
  mCanFrameBuffers :: "CanFrameHistoryBuffer list"
  mActiveDTCs :: DTCInfo
  mActiveDTCsConsumed :: bitset
  mGeohashFunctionNode :: GeohashFunctionNode
  mConditionsWithInputSignalChanged :: bitset
  mConditionsWithConditionCurrentlyTrue :: bitset
  mConditionsNotTriggeredWaitingPublished :: bitset
  mConditions :: "ActiveCondition list"
  mNextConditionToCollectedIndex :: nat
  mNextWindowFunctionTimesOut :: nat
  mDisableProbability :: bool
  mSendDataOnlyOncePerCondition :: bool
  eventCounter :: nat
  mRandomDraws :: nat
  notifiedEvents :: "EventMetadata list list"

definition init_engine :: "bool \<Rightarrow> engine" where
  "init_engine sendDataOnlyOncePerCondition =
     \<lparr>mSignalBuffers = [], mCanFrameBuffers = [], mActiveDTCs = default_DTCInfo, mActiveDTCsConsumed = 0,
      mGeohashFunctionNode = init_geohash_node, mConditionsWithInputSignalChanged = 0,
      mConditionsWithConditionCurrentlyTrue = 0, mConditionsNotTriggeredWaitingPublished = 0, mConditions = [],
      mNextConditionToCollectedIndex = 0, mNextWindowFunctionTimesOut = 0, mDisableProbability = False,
      mSendDataOnlyOncePerCondition = sendDataOnlyOncePerCondition, eventCounter = 0, mRandomDraws = 0,
      notifiedEvents = []\<rparr>"

definition setDataReductionParameters :: "bool \<Rightarrow> engine \<Rightarrow> engine" where
  "setDataReductionParameters disableProbability e = e\<lparr>mDisableProbability := disableProbability\<rparr>"

definition setActiveDTCs :: "DTCInfo \<Rightarrow> engine \<Rightarrow> engine" where
  "setActiveDTCs activeDTCs e =
     e\<lparr>mActiveDTCsConsumed := setAlreadyConsumed ALL_CONDITIONS False (mActiveDTCsConsumed e), mActiveDTCs := activeDTCs\<rparr>"

section \<open>Configuration\<close>

text \<open>The element for a signal, created empty if it is absent as \<open>operator[]\<close> does.\<close>

definition set_buffers :: "nat \<Rightarrow> SignalHistoryBuffer list \<Rightarrow> signal_buffers \<Rightarrow> signal_buffers" where
  "set_buffers signalID bufs m = assoc_upd signalID bufs m"

text \<open>Returns the index of the buffer in the vector of the signal.\<close>

definition addSignalToBuffer :: "SignalCollectionInfo \<Rightarrow> signal_buffers \<Rightarrow> signal_buffers \<times> nat" where
  "addSignalToBuffer s m =
     (let bufs = buffers_of (sigID s) m in
      case find_index (\<lambda>b. sbMinimumSampleIntervalMs b = sigMinimumSampleIntervalMs s) bufs of
        Some i \<Rightarrow> (set_buffers (sigID s) (bufs[i := (bufs ! i)\<lparr>sbSize := max (sbSize (bufs ! i)) (sigSampleBufferSize s)\<rparr>]) m, i)
      | None \<Rightarrow> (set_buffers (sigID s) (bufs @ [signal_history_buffer (sigSampleBufferSize s) (sigMinimumSampleIntervalMs s)]) m,
                 length bufs))"

text \<open>The signals of a condition; false is the early return on an invalid signal.\<close>

fun add_signals :: "SignalCollectionInfo list \<Rightarrow> signal_buffers \<Rightarrow> bool \<times> signal_buffers" where
  "add_signals [] m = (True, m)"
| "add_signals (s # ss) m =
     (if sigID s = INVALID_SIGNAL_ID then (False, m)
      else if sigSampleBufferSize s = 0 then (False, m)
      else let (m, i) = addSignalToBuffer s m;
               bufs = buffers_of (sigID s) m
           in add_signals ss (set_buffers (sigID s) (bufs[i := addFixedWindow (sigFixedWindowPeriod s) (bufs ! i)]) m))"

fun add_frames :: "CanFrameMatrixInfo list \<Rightarrow> CanFrameHistoryBuffer list \<Rightarrow> CanFrameHistoryBuffer list" where
  "add_frames [] bufs = bufs"
| "add_frames (c # cs) bufs =
     add_frames cs
       (case find_index (\<lambda>b. fbFrameID b = frmID c \<and> fbChannelID b = frmChannelID c \<and>
                             fbMinimumSampleIntervalMs b = frmMinimumSampleIntervalMs c) bufs of
          Some i \<Rightarrow> bufs[i := (bufs ! i)\<lparr>fbSize := max (fbSize (bufs ! i)) (frmSampleBufferSize c)\<rparr>]
        | None \<Rightarrow> bufs @ [can_frame_history_buffer (frmID c) (frmChannelID c) (frmSampleBufferSize c)
                            (frmMinimumSampleIntervalMs c)])"

text \<open>The first loop: false when it returned before all conditions were added.\<close>

fun add_conditions :: "ConditionWithCollectedData list \<Rightarrow> engine \<Rightarrow> bool \<times> engine" where
  "add_conditions [] e = (True, e)"
| "add_conditions (p # ps) e =
     (if length (mConditions e) \<ge> MAX_NUMBER_OF_ACTIVE_CONDITION then (True, e)
      else let e = e\<lparr>mConditions := mConditions e @ [active_condition p]\<rparr> in
        if length (cndSignals p) > MAX_DIFFERENT_SIGNAL_IDS then (False, e)
        else let (ok, m) = add_signals (cndSignals p) (mSignalBuffers e); e = e\<lparr>mSignalBuffers := m\<rparr> in
          if \<not> ok then (False, e)
          else add_conditions ps (e\<lparr>mCanFrameBuffers := add_frames (cndCanFrames p) (mCanFrameBuffers e)\<rparr>))"

text \<open>The second loop connects a condition to the buffers of the signals its expression reads.\<close>

fun connect_signals ::
  "nat \<Rightarrow> SignalCollectionInfo list \<Rightarrow> signal_buffers \<Rightarrow> ActiveCondition \<Rightarrow> signal_buffers \<times> ActiveCondition" where
  "connect_signals conditionIndex [] m ac = (m, ac)"
| "connect_signals conditionIndex (s # ss) m ac =
     (let bufs = buffers_of (sigID s) m;
          m = set_buffers (sigID s) bufs m
      in case find_index (\<lambda>b. sbMinimumSampleIntervalMs b = sigMinimumSampleIntervalMs s) bufs of
           None \<Rightarrow> connect_signals conditionIndex ss m ac
         | Some i \<Rightarrow>
             if isSignalPartOfEval (condition (mCondition ac)) (sigID s) MAX_EQUATION_DEPTH
             then let buf = (bufs ! i)\<lparr>sbConditionsThatEvaluateOnThisSignal :=
                        bs_assign conditionIndex True (sbConditionsThatEvaluateOnThisSignal (bufs ! i))\<rparr>;
                      m = set_buffers (sigID s) (bufs[i := buf]) m;
                      ac = ac\<lparr>mEvaluationSignals := (mEvaluationSignals ac)(sigID s \<mapsto> (sigID s, i))\<rparr>;
                      ac = (case getFixedWindow (sigFixedWindowPeriod s) buf of
                              None \<Rightarrow> ac
                            | Some j \<Rightarrow> ac\<lparr>mEvaluationFunctions := (mEvaluationFunctions ac)(sigID s \<mapsto> (sigID s, i, j))\<rparr>)
                  in connect_signals conditionIndex ss m ac
             else connect_signals conditionIndex ss m ac)"

fun connect_conditions :: "nat list \<Rightarrow> engine \<Rightarrow> engine" where
  "connect_conditions [] e = e"
| "connect_conditions (i # is) e =
     (let ac = mConditions e ! i;
          (m, ac) = connect_signals i (cndSignals (mCondition ac)) (mSignalBuffers e) ac
      in connect_conditions is (e\<lparr>mSignalBuffers := m, mConditions := (mConditions e)[i := ac]\<rparr>))"

definition MAX_SAMPLE_MEMORY :: nat where "MAX_SAMPLE_MEMORY = 20 * 1024 * 1024"

text \<open>The sizes of the sample structures on a 64-bit platform: a 32-byte bit set and the members, aligned to 8.\<close>

definition sizeof_SignalSample :: nat where "sizeof_SignalSample = 48"
definition sizeof_CanFrameSample :: nat where "sizeof_CanFrameSample = 56"

definition resize :: "'a \<Rightarrow> nat \<Rightarrow> 'a list \<Rightarrow> 'a list" where
  "resize x n xs = take n xs @ replicate (n - length xs) x"

text \<open>False is the early return; \<open>usedBytes\<close> is a \<open>uint32_t\<close>, its sum with \<open>requiredBytes\<close> has 64 bits.\<close>

fun allocate_signals :: "nat \<Rightarrow> SignalHistoryBuffer list \<Rightarrow> bool \<times> nat \<times> SignalHistoryBuffer list" where
  "allocate_signals usedBytes [] = (True, usedBytes, [])"
| "allocate_signals usedBytes (b # bs) =
     (let requiredBytes = u64 (sbSize b * sizeof_SignalSample) in
      if u64 (usedBytes + requiredBytes) > MAX_SAMPLE_MEMORY then (False, usedBytes, b\<lparr>sbSize := 0\<rparr> # bs)
      else let (ok, used, bs) = allocate_signals (u32 (usedBytes + u32 requiredBytes)) bs
           in (ok, used, b\<lparr>sbBuffer := resize default_SignalSample (sbSize b) (sbBuffer b)\<rparr> # bs))"

fun allocate_signal_map :: "nat \<Rightarrow> signal_buffers \<Rightarrow> bool \<times> nat \<times> signal_buffers" where
  "allocate_signal_map usedBytes [] = (True, usedBytes, [])"
| "allocate_signal_map usedBytes ((signalID, bs) # m) =
     (let (ok, used, bs) = allocate_signals usedBytes bs in
      if \<not> ok then (False, used, (signalID, bs) # m)
      else let (ok, used, m) = allocate_signal_map used m in (ok, used, (signalID, bs) # m))"

fun allocate_frames :: "nat \<Rightarrow> CanFrameHistoryBuffer list \<Rightarrow> bool \<times> CanFrameHistoryBuffer list" where
  "allocate_frames usedBytes [] = (True, [])"
| "allocate_frames usedBytes (b # bs) =
     (let requiredBytes = u64 (fbSize b * sizeof_CanFrameSample) in
      if u64 (usedBytes + requiredBytes) > MAX_SAMPLE_MEMORY then (False, b\<lparr>fbSize := 0\<rparr> # bs)
      else let (ok, bs) = allocate_frames (u32 (usedBytes + u32 requiredBytes)) bs
           in (ok, b\<lparr>fbBuffer := resize default_CanFrameSample (fbSize b) (fbBuffer b)\<rparr> # bs))"

definition preAllocateBuffers :: "engine \<Rightarrow> bool \<times> engine" where
  "preAllocateBuffers e =
     (let (ok, used, m) = allocate_signal_map 0 (mSignalBuffers e); e = e\<lparr>mSignalBuffers := m\<rparr> in
      if \<not> ok then (False, e)
      else let (ok, fs) = allocate_frames used (mCanFrameBuffers e) in (ok, e\<lparr>mCanFrameBuffers := fs\<rparr>))"

definition engine_clear :: "engine \<Rightarrow> engine" where
  "engine_clear e =
     e\<lparr>mSignalBuffers := [], mCanFrameBuffers := [], mConditions := [], mNextConditionToCollectedIndex := 0,
       mNextWindowFunctionTimesOut := 0, mConditionsWithInputSignalChanged := 0,
       mConditionsWithConditionCurrentlyTrue := 0, mConditionsNotTriggeredWaitingPublished := 0\<rparr>"

definition onChangeInspectionMatrix :: "InspectionMatrix \<Rightarrow> engine \<Rightarrow> engine" where
  "onChangeInspectionMatrix activeInspectionMatrix e =
     (let e = (engine_clear e)\<lparr>mConditionsNotTriggeredWaitingPublished := - 1\<rparr>;
          (ok, e) = add_conditions (mtxConditions activeInspectionMatrix) e
      in if \<not> ok then e
         else let e = connect_conditions [0 ..< length (mConditions e)] e;
                  e = e\<lparr>mConditionsWithConditionCurrentlyTrue := - 1\<rparr>
              in snd (preAllocateBuffers e))"

section \<open>Arrival of data\<close>

fun add_to_buffers ::
  "nat \<Rightarrow> double \<Rightarrow> nat \<Rightarrow> bitset \<Rightarrow> SignalHistoryBuffer list \<Rightarrow> SignalHistoryBuffer list \<times> nat \<times> bitset" where
  "add_to_buffers receiveTime v nextTimesOut changed [] = ([], nextTimesOut, changed)"
| "add_to_buffers receiveTime v nextTimesOut changed (b # bs) =
     (let (b, nextTimesOut, changed) = add_to_buffer receiveTime v nextTimesOut changed b;
          (bs, nextTimesOut, changed) = add_to_buffers receiveTime v nextTimesOut changed bs
      in (b # bs, nextTimesOut, changed))"

definition addNewSignal :: "nat \<Rightarrow> nat \<Rightarrow> double \<Rightarrow> engine \<Rightarrow> engine" where
  "addNewSignal signalID receiveTime v e =
     (if buffers_of signalID (mSignalBuffers e) = [] then e
      else let (bufs, nextTimesOut, changed) = add_to_buffers receiveTime v (mNextWindowFunctionTimesOut e)
                 (mConditionsWithInputSignalChanged e) (buffers_of signalID (mSignalBuffers e))
           in e\<lparr>mSignalBuffers := set_buffers signalID bufs (mSignalBuffers e), mNextWindowFunctionTimesOut := nextTimesOut,
                mConditionsWithInputSignalChanged := changed\<rparr>)"

fun add_frame_to_buffers ::
  "nat \<Rightarrow> nat \<Rightarrow> nat \<Rightarrow> nat list \<Rightarrow> nat \<Rightarrow> CanFrameHistoryBuffer list \<Rightarrow> CanFrameHistoryBuffer list ub_result" where
  "add_frame_to_buffers canID channelID receiveTime bytes frameSize [] = Inr []"
| "add_frame_to_buffers canID channelID receiveTime bytes frameSize (b # bs) =
     ub_bind (if fbFrameID b = canID \<and> fbChannelID b = channelID \<and> frame_accepts receiveTime b
              then record_frame receiveTime bytes frameSize b else Inr b) (\<lambda>b.
     ub_bind (add_frame_to_buffers canID channelID receiveTime bytes frameSize bs) (\<lambda>bs. Inr (b # bs)))"

definition addNewRawCanFrame :: "nat \<Rightarrow> nat \<Rightarrow> nat \<Rightarrow> nat list \<Rightarrow> nat \<Rightarrow> engine \<Rightarrow> engine ub_result" where
  "addNewRawCanFrame canID channelID receiveTime bytes frameSize e =
     ub_bind (add_frame_to_buffers canID channelID receiveTime bytes frameSize (mCanFrameBuffers e))
       (\<lambda>bufs. Inr (e\<lparr>mCanFrameBuffers := bufs\<rparr>))"

section \<open>Evaluation of the conditions\<close>

fun update_windows ::
  "nat \<Rightarrow> nat \<Rightarrow> FixedTimeWindowFunctionData list \<Rightarrow> bool \<times> FixedTimeWindowFunctionData list \<times> nat" where
  "update_windows timestamp nextTimesOut [] = (False, [], nextTimesOut)"
| "update_windows timestamp nextTimesOut (w # ws) =
     (let (changed, w, nextTimesOut) = updateWindow timestamp nextTimesOut w;
          (changed', ws, nextTimesOut) = update_windows timestamp nextTimesOut ws
      in (changed \<or> changed', w # ws, nextTimesOut))"

fun update_buffers_windows ::
  "nat \<Rightarrow> nat \<Rightarrow> bitset \<Rightarrow> SignalHistoryBuffer list \<Rightarrow> SignalHistoryBuffer list \<times> nat \<times> bitset" where
  "update_buffers_windows timestamp nextTimesOut changed [] = ([], nextTimesOut, changed)"
| "update_buffers_windows timestamp nextTimesOut changed (b # bs) =
     (let (ch, ws, nextTimesOut) = update_windows timestamp nextTimesOut (sbWindowFunctionData b);
          changed = (if ch then changed OR sbConditionsThatEvaluateOnThisSignal b else changed);
          (bs, nextTimesOut, changed) = update_buffers_windows timestamp nextTimesOut changed bs
      in (b\<lparr>sbWindowFunctionData := ws\<rparr> # bs, nextTimesOut, changed))"

fun update_map_windows :: "nat \<Rightarrow> nat \<Rightarrow> bitset \<Rightarrow> signal_buffers \<Rightarrow> signal_buffers \<times> nat \<times> bitset" where
  "update_map_windows timestamp nextTimesOut changed [] = ([], nextTimesOut, changed)"
| "update_map_windows timestamp nextTimesOut changed ((signalID, bs) # m) =
     (let (bs, nextTimesOut, changed) = update_buffers_windows timestamp nextTimesOut changed bs;
          (m, nextTimesOut, changed) = update_map_windows timestamp nextTimesOut changed m
      in ((signalID, bs) # m, nextTimesOut, changed))"

definition updateAllFixedWindowFunctions :: "nat \<Rightarrow> engine \<Rightarrow> engine" where
  "updateAllFixedWindowFunctions timestamp e =
     (let (m, nextTimesOut, changed) = update_map_windows timestamp (2 ^ 64 - 1) (mConditionsWithInputSignalChanged e) (mSignalBuffers e)
      in e\<lparr>mSignalBuffers := m, mNextWindowFunctionTimesOut := nextTimesOut, mConditionsWithInputSignalChanged := changed\<rparr>)"

definition interval_passed :: "nat \<Rightarrow> ActiveCondition \<Rightarrow> bool" where
  "interval_passed currentTime c \<longleftrightarrow> currentTime \<ge> u64 (mLastTrigger c + minimumPublishInterval (mCondition c))"

text \<open>The loop body of \<open>evaluateConditions\<close> for condition \<open>i\<close>.\<close>

definition evaluate_condition :: "nat \<Rightarrow> nat \<Rightarrow> engine \<Rightarrow> (bool \<times> engine) ub_result" where
  "evaluate_condition currentTime i e =
     (let c = mConditions e ! i in
      if interval_passed currentTime c
      then let e = e\<lparr>mConditionsWithInputSignalChanged := bs_assign i False (mConditionsWithInputSignalChanged e)\<rparr> in
        ub_bind (eval (mSignalBuffers e) c (condition (mCondition c)) (mGeohashFunctionNode e) (Fin 0) False MAX_EQUATION_DEPTH)
          (\<lambda>(ret, result, resultBool, g).
             let e = e\<lparr>mGeohashFunctionNode := g\<rparr> in
             if ret = SUCCESSFUL \<and> resultBool
             then let e = (if \<not> triggerOnlyOnRisingEdge (mCondition c) \<or> \<not> bit (mConditionsWithConditionCurrentlyTrue e) i
                           then e\<lparr>mConditionsNotTriggeredWaitingPublished :=
                                    bs_assign i False (mConditionsNotTriggeredWaitingPublished e),
                                  mConditions := (mConditions e)[i := c\<lparr>mLastTrigger := currentTime\<rparr>]\<rparr>
                           else e)
                  in Inr (True, e\<lparr>mConditionsWithConditionCurrentlyTrue := bs_assign i True (mConditionsWithConditionCurrentlyTrue e)\<rparr>)
             else Inr (False, e\<lparr>mConditionsWithConditionCurrentlyTrue := bs_assign i False (mConditionsWithConditionCurrentlyTrue e)\<rparr>))
      else Inr (False, e))"

fun evaluate_loop :: "nat \<Rightarrow> bitset \<Rightarrow> nat list \<Rightarrow> bool \<Rightarrow> engine \<Rightarrow> (bool \<times> engine) ub_result" where
  "evaluate_loop currentTime conditionsToEvaluate [] oneConditionIsTrue e = Inr (oneConditionIsTrue, e)"
| "evaluate_loop currentTime conditionsToEvaluate (i # is) oneConditionIsTrue e =
     (if bit conditionsToEvaluate i
      then ub_bind (evaluate_condition currentTime i e) (\<lambda>(t, e).
             evaluate_loop currentTime conditionsToEvaluate is (oneConditionIsTrue \<or> t) e)
      else evaluate_loop currentTime conditionsToEvaluate is oneConditionIsTrue e)"

definition conditions_to_evaluate :: "engine \<Rightarrow> bitset" where
  "conditions_to_evaluate e =
     (mConditionsWithConditionCurrentlyTrue e OR mConditionsWithInputSignalChanged e) AND
     mConditionsNotTriggeredWaitingPublished e"

definition evaluateConditions :: "nat \<Rightarrow> engine \<Rightarrow> (bool \<times> engine) ub_result" where
  "evaluateConditions currentTime e =
     (let e = (if currentTime \<ge> mNextWindowFunctionTimesOut e then updateAllFixedWindowFunctions currentTime e else e)
      in if bs_none (conditions_to_evaluate e) then Inr (False, e)
         else evaluate_loop currentTime (conditions_to_evaluate e) [0 ..< length (mConditions e)] False e)"

section \<open>Collection\<close>

text \<open>The first buffer with the sampling interval and a nonzero size.\<close>

definition collectLastSignals ::
  "nat \<Rightarrow> nat \<Rightarrow> nat \<Rightarrow> nat \<Rightarrow> nat \<Rightarrow> CollectedSignal list \<Rightarrow> engine \<Rightarrow> (nat \<times> CollectedSignal list \<times> engine) ub_result" where
  "collectLastSignals signalID minimumSamplingInterval maxNumber conditionId newestTime acc e =
     (let bufs = buffers_of signalID (mSignalBuffers e);
          e = e\<lparr>mSignalBuffers := set_buffers signalID bufs (mSignalBuffers e)\<rparr> in
      case find_index (\<lambda>b. sbMinimumSampleIntervalMs b = minimumSamplingInterval \<and> sbSize b > 0) bufs of
        None \<Rightarrow> Inr (newestTime, acc, e)
      | Some i \<Rightarrow>
          ub_bind (collect_signals (mSendDataOnlyOncePerCondition e) signalID maxNumber conditionId newestTime acc (bufs ! i))
            (\<lambda>(b, newestTime, acc).
               Inr (newestTime, acc, e\<lparr>mSignalBuffers := set_buffers signalID (bufs[i := b]) (mSignalBuffers e)\<rparr>)))"

definition collectLastCanFrames ::
  "nat \<Rightarrow> nat \<Rightarrow> nat \<Rightarrow> nat \<Rightarrow> nat \<Rightarrow> nat \<Rightarrow> CollectedCanRawFrame list \<Rightarrow> engine \<Rightarrow>
   (nat \<times> CollectedCanRawFrame list \<times> engine) ub_result" where
  "collectLastCanFrames canID channelID minimumSamplingInterval maxNumber conditionId newestTime acc e =
     (let bufs = mCanFrameBuffers e in
      case find_index (\<lambda>b. fbFrameID b = canID \<and> fbChannelID b = channelID \<and> fbMinimumSampleIntervalMs b = minimumSamplingInterval) bufs of
        None \<Rightarrow> Inr (newestTime, acc, e)
      | Some i \<Rightarrow>
          ub_bind (collect_frames (mSendDataOnlyOncePerCondition e) maxNumber conditionId newestTime acc (bufs ! i))
            (\<lambda>(b, newestTime, acc). Inr (newestTime, acc, e\<lparr>mCanFrameBuffers := bufs[i := b]\<rparr>)))"

fun pack_signals ::
  "nat \<Rightarrow> SignalCollectionInfo list \<Rightarrow> nat \<Rightarrow> CollectedSignal list \<Rightarrow> engine \<Rightarrow> (nat \<times> CollectedSignal list \<times> engine) ub_result" where
  "pack_signals conditionId [] newestTime acc e = Inr (newestTime, acc, e)"
| "pack_signals conditionId (s # ss) newestTime acc e =
     (if sigIsConditionOnly s then pack_signals conditionId ss newestTime acc e
      else ub_bind (collectLastSignals (sigID s) (sigMinimumSampleIntervalMs s) (sigSampleBufferSize s) conditionId newestTime acc e)
             (\<lambda>(newestTime, acc, e). pack_signals conditionId ss newestTime acc e))"

fun pack_frames ::
  "nat \<Rightarrow> CanFrameMatrixInfo list \<Rightarrow> nat \<Rightarrow> CollectedCanRawFrame list \<Rightarrow> engine \<Rightarrow> (nat \<times> CollectedCanRawFrame list \<times> engine) ub_result" where
  "pack_frames conditionId [] newestTime acc e = Inr (newestTime, acc, e)"
| "pack_frames conditionId (c # cs) newestTime acc e =
     ub_bind (collectLastCanFrames (frmID c) (frmChannelID c) (frmMinimumSampleIntervalMs c) (frmSampleBufferSize c) conditionId newestTime acc e)
       (\<lambda>(newestTime, acc, e). pack_frames conditionId cs newestTime acc e)"

text \<open>The guard on the trouble codes is the source's: an \<open>or\<close> with the positive flag.\<close>

definition collectData :: "nat \<Rightarrow> nat \<Rightarrow> engine \<Rightarrow> (nat \<times> TriggeredCollectionSchemeData \<times> engine) ub_result" where
  "collectData conditionId newestTime e =
     (let c = mConditions e ! conditionId in
      ub_bind (pack_signals conditionId (cndSignals (mCondition c)) newestTime [] e) (\<lambda>(newestTime, signals, e).
      ub_bind (pack_frames conditionId (cndCanFrames (mCondition c)) newestTime [] e) (\<lambda>(newestTime, frames, e).
        let withDtcs = includeActiveDtcs (mCondition c) \<and>
              (\<not> bit (mActiveDTCsConsumed e) conditionId \<or> mSendDataOnlyOncePerCondition e);
            dtcs = (if withDtcs then mActiveDTCs e else default_DTCInfo);
            e = (if withDtcs then e\<lparr>mActiveDTCsConsumed := setAlreadyConsumed conditionId True (mActiveDTCsConsumed e)\<rparr> else e);
            (info, g) = (if hasNewGeohash (mGeohashFunctionNode e) then consumeGeohash (mGeohashFunctionNode e)
                         else (\<lparr>mGeohashString = [], mPrevReportedGeohashString = []\<rparr>, mGeohashFunctionNode e));
            e = e\<lparr>mGeohashFunctionNode := g\<rparr>
        in Inr (newestTime,
                \<lparr>trMetaData = cndMetaData (mCondition c), triggerTime = mLastTrigger c, trSignals = signals, trCanFrames = frames,
                 trDTCInfo = dtcs, trGeohashInfo = info, eventID = mEventID c\<rparr>, e))))"

definition shallSendData :: "(nat \<Rightarrow> double) \<Rightarrow> double \<Rightarrow> engine \<Rightarrow> bool \<times> engine" where
  "shallSendData random collectionSchemeProbability e =
     (if mDisableProbability e then (True, e)
      else if dlt (Fin 0) collectionSchemeProbability
      then (dle (random (mRandomDraws e)) collectionSchemeProbability, e\<lparr>mRandomDraws := mRandomDraws e + 1\<rparr>)
      else (False, e))"

definition generateEventID :: "nat \<Rightarrow> engine \<Rightarrow> nat \<times> engine" where
  "generateEventID timestamp e =
     (let counter = u8 (eventCounter e + 1)
      in (u32 ((counter AND 0xFF) OR u64 (push_bit 8 timestamp)) AND 0x7FFFFFFF, e\<lparr>eventCounter := counter\<rparr>))"

definition evaluateAndTriggerRichSensorCapture :: "ActiveCondition \<Rightarrow> engine \<Rightarrow> engine" where
  "evaluateAndTriggerRichSensorCapture c e =
     (if includeImageCapture (mCondition c)
      then e\<lparr>notifiedEvents := notifiedEvents e @
             [map (\<lambda>i. \<lparr>evEventID = mEventID c, evSourceID = imgDeviceID i,
                        evNegativeOffsetMs = u32 (imgBeforeDurationMs i + afterDuration (mCondition c)), evPositiveOffsetMs = 0\<rparr>)
                (imageCollectionInfos (mCondition c))]\<rparr>
      else e)"

text \<open>What happens to a triggered condition that is due and passed the data reduction.\<close>

definition send_condition :: "nat \<Rightarrow> nat \<Rightarrow> engine \<Rightarrow> (TriggeredCollectionSchemeData \<times> engine) ub_result" where
  "send_condition currentTime i e =
     (let (eid, e) = generateEventID currentTime e;
          e = e\<lparr>mConditions := (mConditions e)[i := (mConditions e ! i)\<lparr>mEventID := eid\<rparr>]\<rparr>;
          e = evaluateAndTriggerRichSensorCapture (mConditions e ! i) e
      in ub_bind (collectData i 0 e) (\<lambda>(newestTime, cd, e).
           Inr (cd, e\<lparr>mConditions := (mConditions e)[i := (mConditions e ! i)\<lparr>mLastDataTimestampPublished := min newestTime currentTime\<rparr>]\<rparr>)))"

fun collect_next_loop ::
  "nat \<Rightarrow> (nat \<Rightarrow> double) \<Rightarrow> nat \<Rightarrow> nat \<Rightarrow> engine \<Rightarrow> (TriggeredCollectionSchemeData option \<times> nat \<times> engine) ub_result" where
  "collect_next_loop 0 random currentTime minimumWait e = Inr (None, minimumWait, e)"
| "collect_next_loop (Suc n) random currentTime minimumWait e =
     (let e = (if mNextConditionToCollectedIndex e \<ge> length (mConditions e) then e\<lparr>mNextConditionToCollectedIndex := 0\<rparr> else e);
          i = mNextConditionToCollectedIndex e;
          c = mConditions e ! i;
          next_index = (\<lambda>e. e\<lparr>mNextConditionToCollectedIndex := u32 (mNextConditionToCollectedIndex e + 1)\<rparr>)
      in if \<not> bit (mConditionsNotTriggeredWaitingPublished e) i
         then if currentTime \<ge> u64 (mLastTrigger c + afterDuration (mCondition c))
              then let e = e\<lparr>mConditionsNotTriggeredWaitingPublished := bs_assign i True (mConditionsNotTriggeredWaitingPublished e)\<rparr>;
                       (send, e) = shallSendData random (probabilityToSend (mCondition c)) e
                   in if send then ub_bind (send_condition currentTime i e) (\<lambda>(cd, e). Inr (Some cd, minimumWait, e))
                      else collect_next_loop n random currentTime minimumWait (next_index e)
              else collect_next_loop n random currentTime
                     (min minimumWait (u32 (sub64 (u64 (mLastTrigger c + afterDuration (mCondition c))) currentTime))) (next_index e)
         else collect_next_loop n random currentTime minimumWait (next_index e))"

text \<open>The data, the new value of \<open>waitTimeMs\<close> (unchanged when data is returned) and the engine.\<close>

definition collectNextDataToSend ::
  "(nat \<Rightarrow> double) \<Rightarrow> nat \<Rightarrow> nat \<Rightarrow> engine \<Rightarrow> (TriggeredCollectionSchemeData option \<times> nat \<times> engine) ub_result" where
  "collectNextDataToSend random currentTime waitTimeMs e =
     (let minimumWaitTimeMs = 2 ^ 32 - 1 in
      if bs_all (mConditionsNotTriggeredWaitingPublished e) then Inr (None, minimumWaitTimeMs, e)
      else ub_bind (collect_next_loop (length (mConditions e)) random currentTime minimumWaitTimeMs e) (\<lambda>(cd, minimumWait, e).
             case cd of Some d \<Rightarrow> Inr (Some d, waitTimeMs, e) | None \<Rightarrow> Inr (None, minimumWait, e)))"

end
