(* ===== verification/EngineSafety.thy ===== *)
theory EngineSafety
  imports InspectionEngine
begin

text \<open>
  Memory safety of the inspection engine: an invariant of its state (pointers into existing
  buffers, ring positions in range, bounded memory and number of conditions) that configuration
  establishes and every operation keeps, so that no sequence of operations reads or writes out
  of bounds.
\<close>

section \<open>Maps of buffers\<close>

lemma buffers_of_set [simp]: "buffers_of s (set_buffers t bs m) = (if s = t then bs else buffers_of s m)"
  by (simp add: buffers_of_def set_buffers_def)

lemma buffers_of_Nil [simp]: "buffers_of s [] = []"
  by (simp add: buffers_of_def)

definition all_buffers :: "(SignalHistoryBuffer \<Rightarrow> bool) \<Rightarrow> signal_buffers \<Rightarrow> bool" where
  "all_buffers P m \<longleftrightarrow> (\<forall>(s, bs) \<in> set m. \<forall>b \<in> set bs. P b)"

lemma all_buffers_of: "all_buffers P m \<Longrightarrow> b \<in> set (buffers_of s m) \<Longrightarrow> P b"
  by (cases "map_of m s") (auto simp: all_buffers_def buffers_of_def dest: map_of_SomeD)

lemma set_assoc_upd: "set (assoc_upd k v m) \<subseteq> insert (k, v) (set m)"
  by (induction m) (auto split: if_splits)

lemma all_buffers_set: "all_buffers P m \<Longrightarrow> \<forall>b \<in> set bs. P b \<Longrightarrow> all_buffers P (set_buffers s bs m)"
  using set_assoc_upd [of s bs m] by (fastforce simp: all_buffers_def set_buffers_def)

text \<open>The bytes allocated for signal samples.\<close>

definition buffers_bytes :: "SignalHistoryBuffer list \<Rightarrow> nat" where
  "buffers_bytes bs = (\<Sum>b \<leftarrow> bs. sizeof_SignalSample * length (sbBuffer b))"

definition map_bytes :: "signal_buffers \<Rightarrow> nat" where
  "map_bytes m = (\<Sum>p \<leftarrow> m. buffers_bytes (snd p))"

definition frames_bytes :: "CanFrameHistoryBuffer list \<Rightarrow> nat" where
  "frames_bytes bs = (\<Sum>b \<leftarrow> bs. sizeof_CanFrameSample * length (fbBuffer b))"

lemma bytes_Cons:
  "buffers_bytes (b # bs) = sizeof_SignalSample * length (sbBuffer b) + buffers_bytes bs"
  "map_bytes ((s, bs) # m) = buffers_bytes bs + map_bytes m"
  "frames_bytes (f # fs) = sizeof_CanFrameSample * length (fbBuffer f) + frames_bytes fs"
  by (simp_all add: buffers_bytes_def map_bytes_def frames_bytes_def)

lemma all_buffers_Cons [simp]: "all_buffers P ((s, bs) # m) \<longleftrightarrow> (\<forall>b \<in> set bs. P b) \<and> all_buffers P m"
  by (simp add: all_buffers_def)

lemma map_bytes_set:
  "map_bytes (set_buffers s bs m) + buffers_bytes (buffers_of s m) = map_bytes m + buffers_bytes bs"
  unfolding map_bytes_def set_buffers_def buffers_of_def
  by (induction m) (auto simp: buffers_bytes_def)

section \<open>Evolution of buffers\<close>

text \<open>What every operation but a reconfiguration leaves alone, and keeps, of a buffer.\<close>

definition evolves :: "SignalHistoryBuffer \<Rightarrow> SignalHistoryBuffer \<Rightarrow> bool" where
  "evolves b b' \<longleftrightarrow> (signal_inv b \<longrightarrow> signal_inv b') \<and> length (sbBuffer b') = length (sbBuffer b) \<and>
     length (sbWindowFunctionData b') = length (sbWindowFunctionData b) \<and> sbSize b' = sbSize b \<and>
     sbMinimumSampleIntervalMs b' = sbMinimumSampleIntervalMs b"

lemma evolves_refl [simp]: "evolves b b" by (simp add: evolves_def)

lemma evolves_trans: "evolves a b \<Longrightarrow> evolves b c \<Longrightarrow> evolves a c" by (simp add: evolves_def)

definition map_evolves :: "signal_buffers \<Rightarrow> signal_buffers \<Rightarrow> bool" where
  "map_evolves m m' \<longleftrightarrow> (\<forall>s. list_all2 evolves (buffers_of s m) (buffers_of s m')) \<and> map_bytes m' = map_bytes m \<and>
     (all_buffers signal_inv m \<longrightarrow> all_buffers signal_inv m')"

lemma list_all2_evolves_refl [simp]: "list_all2 evolves bs bs"
  by (simp add: list_all2_refl)

lemma map_evolves_refl [simp]: "map_evolves m m" by (simp add: map_evolves_def)

lemma map_evolves_trans: "map_evolves a b \<Longrightarrow> map_evolves b c \<Longrightarrow> map_evolves a c"
proof -
  assume ab: "map_evolves a b" and bc: "map_evolves b c"
  have "list_all2 evolves (buffers_of s a) (buffers_of s c)" for s
    by (rule list_all2_trans [of evolves evolves evolves _ "buffers_of s b"])
       (use ab bc in \<open>auto simp: map_evolves_def intro: evolves_trans\<close>)
  then show ?thesis using ab bc by (simp add: map_evolves_def)
qed

lemma evolves_bytes: "list_all2 evolves bs bs' \<Longrightarrow> buffers_bytes bs' = buffers_bytes bs"
  by (induction rule: list_all2_induct) (auto simp: buffers_bytes_def evolves_def)

lemma evolves_inv: "list_all2 evolves bs bs' \<Longrightarrow> \<forall>b \<in> set bs. signal_inv b \<Longrightarrow> \<forall>b \<in> set bs'. signal_inv b"
  by (induction rule: list_all2_induct) (auto simp: evolves_def)

lemma map_evolves_set:
  assumes "list_all2 evolves (buffers_of s m) bs"
  shows "map_evolves m (set_buffers s bs m)"
proof -
  have "all_buffers signal_inv (set_buffers s bs m)" if a: "all_buffers signal_inv m"
    using all_buffers_set [OF a] evolves_inv [OF assms] all_buffers_of [OF a] by blast
  then show ?thesis
    using map_bytes_set [of s bs m] evolves_bytes [OF assms] assms by (auto simp: map_evolves_def)
qed

lemma map_evolves_update:
  assumes "i < length (buffers_of s m)" "evolves (buffers_of s m ! i) b"
  shows "map_evolves m (set_buffers s ((buffers_of s m)[i := b]) m)"
  using assms by (intro map_evolves_set) (simp add: list_all2_conv_all_nth nth_list_update)

text \<open>Pointers into the buffers stay valid.\<close>

definition pointers_in :: "signal_buffers \<Rightarrow> ActiveCondition \<Rightarrow> bool" where
  "pointers_in m c \<longleftrightarrow>
     (\<forall>s sid k. mEvaluationSignals c s = Some (sid, k) \<longrightarrow> k < length (buffers_of sid m)) \<and>
     (\<forall>s sid k j. mEvaluationFunctions c s = Some (sid, k, j) \<longrightarrow>
        k < length (buffers_of sid m) \<and> j < length (sbWindowFunctionData (buffers_of sid m ! k)))"

lemma pointers_in_ok: "pointers_in m c \<Longrightarrow> all_buffers signal_inv m \<Longrightarrow> pointers_ok m c"
  using all_buffers_of [of signal_inv m] nth_mem unfolding pointers_in_def pointers_ok_def by blast

definition same_shape :: "signal_buffers \<Rightarrow> signal_buffers \<Rightarrow> bool" where
  "same_shape m m' \<longleftrightarrow> (\<forall>s. map (\<lambda>b. length (sbWindowFunctionData b)) (buffers_of s m') =
     map (\<lambda>b. length (sbWindowFunctionData b)) (buffers_of s m))"

lemma same_shape_refl [simp]: "same_shape m m"
  by (simp add: same_shape_def)

lemma same_shape_trans: "same_shape a b \<Longrightarrow> same_shape b c \<Longrightarrow> same_shape a c"
  by (simp add: same_shape_def)

lemma pointers_in_shape:
  assumes "pointers_in m c" "same_shape m m'"
  shows "pointers_in m' c"
proof -
  have len: "length (buffers_of s m') = length (buffers_of s m)" for s
    using assms(2) unfolding same_shape_def by (metis length_map)
  have win: "length (sbWindowFunctionData (buffers_of s m' ! k)) = length (sbWindowFunctionData (buffers_of s m ! k))"
    if "k < length (buffers_of s m)" for s k
    using assms(2) that len unfolding same_shape_def by (metis nth_map)
  show ?thesis using assms(1) len win unfolding pointers_in_def by metis
qed

lemma map_evolves_shape: "map_evolves m m' \<Longrightarrow> same_shape m m'"
  unfolding map_evolves_def same_shape_def
  by (auto simp: list_all2_conv_all_nth evolves_def intro!: nth_equalityI)

lemmas pointers_in_evolves = pointers_in_shape [OF _ map_evolves_shape]

section \<open>The operations on buffers evolve them\<close>

lemma length_add_to_windows [simp]: "length (fst (add_to_windows v t n ws)) = length ws"
  by (induction ws arbitrary: n) (auto simp: split_beta Let_def)

lemma signal_inv_accepts: "signal_inv b \<Longrightarrow> signal_accepts t b \<Longrightarrow> signal_ok b"
  by (simp add: signal_inv_def signal_accepts_def)

lemma signal_ok_inv: "signal_ok b \<Longrightarrow> signal_inv b"
  by (simp add: signal_inv_def)

lemma signal_inv_more [simp]:
  "signal_inv (b\<lparr>sbWindowFunctionData := ws\<rparr>) = signal_inv b"
  "signal_inv (b\<lparr>sbConditionsThatEvaluateOnThisSignal := cs\<rparr>) = signal_inv b"
  by (simp_all add: signal_inv_def signal_ok_def)

lemma record_signal_shape:
  "length (sbBuffer (record_signal t v b)) = length (sbBuffer b)"
  "sbWindowFunctionData (record_signal t v b) = sbWindowFunctionData b" "sbSize (record_signal t v b) = sbSize b"
  "sbMinimumSampleIntervalMs (record_signal t v b) = sbMinimumSampleIntervalMs b"
  by (simp_all add: record_signal_def Let_def)

lemma evolves_windows: "length ws = length (sbWindowFunctionData b) \<Longrightarrow> evolves b (b\<lparr>sbWindowFunctionData := ws\<rparr>)"
  by (simp add: evolves_def)

lemma add_to_buffer_evolves: "evolves b (fst (add_to_buffer t v n ch b))"
  using signal_inv_accepts [of b t] record_signal_ok [of b t v] signal_ok_inv [of "record_signal t v b"]
  by (simp add: add_to_buffer_def Let_def split_beta evolves_def record_signal_shape)

lemma add_to_buffers_evolves: "list_all2 evolves bs (fst (add_to_buffers t v n ch bs))"
  by (induction bs arbitrary: n ch) (simp_all add: Let_def split_beta add_to_buffer_evolves)

lemma length_update_windows [simp]: "length (fst (snd (update_windows t n ws))) = length ws"
  by (induction ws arbitrary: n) (auto simp: split_beta Let_def)

lemma update_buffers_windows_evolves: "list_all2 evolves bs (fst (update_buffers_windows t n ch bs))"
  by (induction bs arbitrary: n ch) (simp_all add: Let_def split_beta evolves_windows)

lemma update_map_windows_evolves: "map_evolves m (fst (update_map_windows t n ch m))"
proof (induction m arbitrary: n ch)
  case (Cons p m)
  obtain s bs where p: "p = (s, bs)" by force
  let ?r = "update_buffers_windows t n ch bs"
  let ?m = "fst (update_map_windows t (fst (snd ?r)) (snd (snd ?r)) m)"
  have r: "fst (update_map_windows t n ch ((s, bs) # m)) = (s, fst ?r) # ?m" by (simp add: split_beta Let_def)
  have m: "map_evolves m ?m" by (rule Cons.IH)
  have b: "list_all2 evolves bs (fst ?r)" by (rule update_buffers_windows_evolves)
  show ?case using m b evolves_bytes [OF b] evolves_inv [OF b] unfolding p r
    by (simp add: map_evolves_def buffers_of_def map_bytes_def all_buffers_def)
qed simp

section \<open>CAN frame buffers\<close>

text \<open>
  A buffer first requested with no samples starts one position before the first slot, modulo
  \<open>2 ^ 32\<close>; it behaves like one that starts at its last slot.
\<close>

definition frame_start :: "CanFrameHistoryBuffer \<Rightarrow> CanFrameHistoryBuffer" where
  "frame_start b = (if fbCurrentPosition b = 2 ^ 32 - 1 then b\<lparr>fbCurrentPosition := fbSize b - 1\<rparr> else b)"

definition frame_inv :: "CanFrameHistoryBuffer \<Rightarrow> bool" where
  "frame_inv b \<longleftrightarrow> (\<forall>s \<in> set (fbBuffer b). length (fsBuffer s) = MAX_CAN_FRAME_BYTE_SIZE) \<and>
     (0 < fbCounter b \<longrightarrow> frame_ok b) \<and>
     (0 < fbSize b \<and> fbSize b \<le> length (fbBuffer b) \<longrightarrow> frame_ok (frame_start b))"

definition frame_evolves :: "CanFrameHistoryBuffer \<Rightarrow> CanFrameHistoryBuffer \<Rightarrow> bool" where
  "frame_evolves b b' \<longleftrightarrow> (frame_inv b \<longrightarrow> frame_inv b') \<and> length (fbBuffer b') = length (fbBuffer b)"

lemma frame_evolves_refl [simp]: "frame_evolves b b" "list_all2 frame_evolves bs bs"
  by (simp_all add: frame_evolves_def list_all2_refl)

lemma frame_evolves_trans: "frame_evolves a b \<Longrightarrow> frame_evolves b c \<Longrightarrow> frame_evolves a c"
  by (simp add: frame_evolves_def)

lemma frame_ok_inv: "frame_ok b \<Longrightarrow> frame_inv b"
  by (simp add: frame_inv_def frame_ok_def frame_start_def)

lemma record_frame_start:
  assumes "0 < fbSize b" "fbSize b < 2 ^ 31"
  shows "record_frame t bytes n (frame_start b) = record_frame t bytes n b"
proof (cases "fbCurrentPosition b = 2 ^ 32 - 1")
  case True
  have "u32 (fbCurrentPosition b + 1) = 0" unfolding True by (simp add: u32_def)
  moreover have "u32 (fbSize b - 1 + 1) = fbSize b" using assms by (simp add: u32_id)
  ultimately show ?thesis using assms True by (simp add: record_frame_def frame_start_def Let_def)
qed (simp add: frame_start_def)

lemma record_frame_evolves:
  assumes "frame_inv b" "frame_accepts t b" "frame_fits (t, bytes, n)"
  shows "\<exists>b'. record_frame t bytes n b = Inr b' \<and> frame_evolves b b'"
proof -
  have ok: "frame_ok (frame_start b)" "0 < fbSize b" using assms(1,2) by (simp_all add: frame_inv_def frame_accepts_def)
  moreover have "fbSize (frame_start b) = fbSize b" "length (fbBuffer (frame_start b)) = length (fbBuffer b)"
    by (simp_all add: frame_start_def)
  ultimately have "fbSize b < 2 ^ 31" by (simp add: frame_ok_def)
  then have "record_frame t bytes n b = Inr (put_frame (t, bytes, n) (frame_start b))"
    using record_frame_pos(1) [OF ok(1) assms(3)] record_frame_start [OF ok(2)] by simp
  moreover have "frame_inv (put_frame (t, bytes, n) (frame_start b))"
    by (intro frame_ok_inv put_frame_ok ok assms(3))
  moreover have "length (fbBuffer (put_frame (t, bytes, n) (frame_start b))) = length (fbBuffer b)"
    using put_frame_frame(2) [OF ok(1) assms(3)] by (simp add: frame_start_def)
  ultimately show ?thesis by (simp add: frame_evolves_def)
qed

lemma add_frame_evolves:
  assumes "frame_fits (t, bytes, n)"
  shows "\<forall>b \<in> set bs. frame_inv b \<Longrightarrow>
    \<exists>bs'. add_frame_to_buffers canID ch t bytes n bs = Inr bs' \<and> list_all2 frame_evolves bs bs'"
proof (induction bs)
  case (Cons b bs)
  obtain bs' where bs: "add_frame_to_buffers canID ch t bytes n bs = Inr bs'" "list_all2 frame_evolves bs bs'"
    using Cons by auto
  show ?case
  proof (cases "fbFrameID b = canID \<and> fbChannelID b = ch \<and> frame_accepts t b")
    case True
    then obtain b' where b': "record_frame t bytes n b = Inr b'" "frame_evolves b b'"
      using record_frame_evolves [OF _ _ assms, of b] Cons.prems by auto
    show ?thesis using True b' bs by simp
  next
    case False
    then show ?thesis using bs by auto
  qed
qed simp

lemma frames_evolve_bytes: "list_all2 frame_evolves bs bs' \<Longrightarrow> frames_bytes bs' = frames_bytes bs"
  by (induction rule: list_all2_induct) (auto simp: frames_bytes_def frame_evolves_def)

lemma frames_evolve_inv: "list_all2 frame_evolves bs bs' \<Longrightarrow> \<forall>b \<in> set bs. frame_inv b \<Longrightarrow> \<forall>b \<in> set bs'. frame_inv b"
  by (induction rule: list_all2_induct) (auto simp: frame_evolves_def)

section \<open>Collecting is safe\<close>

lemma all_set_update: "\<forall>x \<in> set xs. P x \<Longrightarrow> P y \<Longrightarrow> \<forall>x \<in> set (xs[j := y]). P x"
  using set_update_subset_insert [of xs j y] by blast

text \<open>Whatever the number of samples asked for, the loop stays within the ring.\<close>

lemma collect_loop_safe:
  assumes "0 < cap" "cap < 2 ^ 31" "\<And>s. P s \<Longrightarrow> P (mark s)"
  shows "cap \<le> length xs \<Longrightarrow> \<forall>s \<in> set xs. P s \<Longrightarrow>
    \<exists>xs' t a. collect_loop taken out mark stamp cap n pos xs nt acc = Inr (xs', t, a) \<and> length xs' = length xs \<and>
      (\<forall>s \<in> set xs'. P s)"
proof (induction n arbitrary: pos xs nt acc)
  case (Suc n)
  define p where "p = (if pos < 0 then int cap - 1 else if pos \<ge> int cap then 0 else pos)"
  define i where "i = nat (p mod 2 ^ 32)"
  define ys where "ys = (if taken (xs ! i) then xs[i := mark (xs ! i)] else xs)"
  have c: "to_int32 cap = int cap" using assms(2) by (rule to_int32_small)
  have p: "0 \<le> p" "p < int cap" using assms(1) by (auto simp: p_def)
  have norm: "(let q = if pos < 0 then to_int32 cap - 1 else pos in if q \<ge> to_int32 cap then 0 else q) = p"
    using assms(1) by (simp add: c Let_def p_def)
  have i: "i < length xs" using p assms(2) Suc.prems(1) by (auto simp: i_def)
  have step: "collect_loop taken out mark stamp cap (Suc n) pos xs nt acc =
      collect_loop taken out mark stamp cap n (p - 1) ys (max nt (stamp (xs ! i))) (if taken (xs ! i) then acc @ [out (xs ! i)] else acc)"
    using i norm by (simp add: Let_def ys_def i_def)
  have "P (xs ! i)" using Suc.prems(2) nth_mem [OF i] by (rule bspec)
  then have "P (mark (xs ! i))" by (rule assms(3))
  then have "\<forall>s \<in> set (xs[i := mark (xs ! i)]). P s"
    using Suc.prems(2) by (intro all_set_update)
  then have ys: "\<forall>s \<in> set ys. P s" "length ys = length xs"
    using Suc.prems(2) by (cases "taken (xs ! i)"; simp add: ys_def)+
  then show ?case using Suc.IH [of ys] Suc.prems(1) unfolding step by simp
qed simp

lemma collect_signals_safe:
  assumes "signal_inv b" "0 < sbSize b"
  shows "\<exists>b' t a. collect_signals once s n c nt acc b = Inr (b', t, a) \<and> evolves b b'"
proof (cases "sbCounter b = 0")
  case True
  then show ?thesis by (simp add: collect_signals_def)
next
  case False
  then have ok: "signal_ok b" using assms(1) by (simp add: signal_inv_def)
  let ?l = "collect_loop (\<lambda>s. \<not> bit (ssConsumed s) c \<or> \<not> once) (\<lambda>x. collected_signal s (ssTimestamp x) (ssValue x))
      (\<lambda>s. s\<lparr>ssConsumed := setAlreadyConsumed c True (ssConsumed s)\<rparr>) ssTimestamp (sbSize b) (min n (sbCounter b))
      (to_int32 (sbCurrentPosition b)) (sbBuffer b) nt acc"
  have "\<exists>xs t a. ?l = Inr (xs, t, a) \<and> length xs = length (sbBuffer b) \<and> (\<forall>x \<in> set xs. True)"
    by (rule collect_loop_safe) (use ok in \<open>simp_all add: signal_ok_def\<close>)
  then obtain xs t a where l: "?l = Inr (xs, t, a)" "length xs = length (sbBuffer b)" by blast
  have "evolves b (b\<lparr>sbBuffer := xs\<rparr>)" using ok l(2) by (simp add: evolves_def signal_inv_def signal_ok_def)
  then show ?thesis unfolding collect_signals_def l(1) by simp
qed

lemma collect_frames_safe:
  assumes "frame_inv b"
  shows "\<exists>b' t a. collect_frames once n c nt acc b = Inr (b', t, a) \<and> frame_evolves b b'"
proof (cases "fbCounter b = 0")
  case True
  then show ?thesis by (simp add: collect_frames_def)
next
  case False
  then have ok: "frame_ok b" using assms by (simp add: frame_inv_def)
  let ?l = "collect_loop (\<lambda>s. \<not> bit (fsConsumed s) c \<or> \<not> once)
      (\<lambda>s. \<lparr>cfFrameID = fbFrameID b, cfChannelID = fbChannelID b, cfReceiveTime = fsTimestamp s, cfData = fsBuffer s, cfSize = fsSize s\<rparr>)
      (\<lambda>s. s\<lparr>fsConsumed := setAlreadyConsumed c True (fsConsumed s)\<rparr>) fsTimestamp (fbSize b) (min n (fbCounter b))
      (to_int32 (fbCurrentPosition b)) (fbBuffer b) nt acc"
  have "\<exists>xs t a. ?l = Inr (xs, t, a) \<and> length xs = length (fbBuffer b) \<and> (\<forall>x \<in> set xs. length (fsBuffer x) = MAX_CAN_FRAME_BYTE_SIZE)"
    by (rule collect_loop_safe) (use ok in \<open>simp_all add: frame_ok_def\<close>)
  then obtain xs t a where l: "?l = Inr (xs, t, a)" "length xs = length (fbBuffer b)"
    "\<forall>x \<in> set xs. length (fsBuffer x) = MAX_CAN_FRAME_BYTE_SIZE" by blast
  have "frame_ok (b\<lparr>fbBuffer := xs\<rparr>)" using ok l(2,3) by (simp add: frame_ok_def)
  then have "frame_evolves b (b\<lparr>fbBuffer := xs\<rparr>)" using l(2) by (simp add: frame_evolves_def frame_ok_inv)
  then show ?thesis unfolding collect_frames_def l(1) by simp
qed

section \<open>The engine invariant\<close>

definition engine_inv :: "engine \<Rightarrow> bool" where
  "engine_inv e \<longleftrightarrow> length (mConditions e) \<le> MAX_NUMBER_OF_ACTIVE_CONDITION \<and>
     all_buffers signal_inv (mSignalBuffers e) \<and> (\<forall>b \<in> set (mCanFrameBuffers e). frame_inv b) \<and>
     (\<forall>c \<in> set (mConditions e). pointers_in (mSignalBuffers e) c) \<and>
     map_bytes (mSignalBuffers e) + frames_bytes (mCanFrameBuffers e) \<le> MAX_SAMPLE_MEMORY"

definition same_pointers :: "ActiveCondition \<Rightarrow> ActiveCondition \<Rightarrow> bool" where
  "same_pointers c c' \<longleftrightarrow> mEvaluationSignals c' = mEvaluationSignals c \<and>
     mEvaluationFunctions c' = mEvaluationFunctions c \<and> mCondition c' = mCondition c"

lemma same_pointers_refl [simp]: "same_pointers c c" "list_all2 same_pointers cs cs"
  by (simp_all add: same_pointers_def list_all2_refl)

definition engine_evolves :: "engine \<Rightarrow> engine \<Rightarrow> bool" where
  "engine_evolves e e' \<longleftrightarrow> map_evolves (mSignalBuffers e) (mSignalBuffers e') \<and>
     list_all2 frame_evolves (mCanFrameBuffers e) (mCanFrameBuffers e') \<and>
     list_all2 same_pointers (mConditions e) (mConditions e')"

lemma engine_evolves_refl [simp]: "engine_evolves e e"
  by (simp add: engine_evolves_def)

lemma engine_evolves_trans:
  assumes "engine_evolves a b" "engine_evolves b c" shows "engine_evolves a c"
proof -
  have "list_all2 frame_evolves (mCanFrameBuffers a) (mCanFrameBuffers c)"
    by (rule list_all2_trans [of frame_evolves frame_evolves frame_evolves _ "mCanFrameBuffers b"])
       (use assms in \<open>auto simp: engine_evolves_def intro: frame_evolves_trans\<close>)
  moreover have "list_all2 same_pointers (mConditions a) (mConditions c)"
    by (rule list_all2_trans [of same_pointers same_pointers same_pointers _ "mConditions b"])
       (use assms in \<open>auto simp: engine_evolves_def same_pointers_def\<close>)
  ultimately show ?thesis using assms map_evolves_trans by (auto simp: engine_evolves_def)
qed

lemma engine_evolves_inv:
  assumes "engine_inv e" "engine_evolves e e'"
  shows "engine_inv e'"
proof -
  have m: "map_evolves (mSignalBuffers e) (mSignalBuffers e')" "list_all2 frame_evolves (mCanFrameBuffers e) (mCanFrameBuffers e')"
    "list_all2 same_pointers (mConditions e) (mConditions e')" using assms(2) by (simp_all add: engine_evolves_def)
  have "pointers_in (mSignalBuffers e') c'" if c: "c' \<in> set (mConditions e')" for c'
  proof -
    obtain i where i: "i < length (mConditions e')" "mConditions e' ! i = c'" using c unfolding in_set_conv_nth by blast
    have "same_pointers (mConditions e ! i) c'" using list_all2_nthD2 [OF m(3) i(1)] unfolding i(2) .
    moreover have "mConditions e ! i \<in> set (mConditions e)" using list_all2_lengthD [OF m(3)] i(1) by simp
    then have "pointers_in (mSignalBuffers e') (mConditions e ! i)"
      using assms(1) pointers_in_evolves [OF _ m(1)] by (simp add: engine_inv_def)
    ultimately show ?thesis by (simp add: pointers_in_def same_pointers_def)
  qed
  then show ?thesis
    using assms(1) m frames_evolve_bytes [OF m(2)] frames_evolve_inv [OF m(2)] list_all2_lengthD [OF m(3)]
    by (auto simp: engine_inv_def map_evolves_def)
qed

text \<open>An operation that does not touch buffers and conditions.\<close>

lemma engine_evolves_frame [frame_simps]:
  "mSignalBuffers e' = mSignalBuffers e \<Longrightarrow> mCanFrameBuffers e' = mCanFrameBuffers e \<Longrightarrow> mConditions e' = mConditions e \<Longrightarrow>
   engine_evolves e e'"
  by (simp add: engine_evolves_def)

section \<open>Every operation is defined and evolves the engine\<close>

text \<open>The result is defined and the engine in it, selected by \<open>get\<close>, evolved from \<open>e\<close>.\<close>

definition keeps :: "engine \<Rightarrow> ('a \<Rightarrow> engine) \<Rightarrow> 'a ub_result \<Rightarrow> bool" where
  "keeps e get r \<longleftrightarrow> (\<exists>x. r = Inr x \<and> engine_evolves e (get x))"

lemma keeps_Inr [simp]: "keeps e get (Inr x) = engine_evolves e (get x)"
  by (simp add: keeps_def)

lemma keeps_bind:
  assumes "engine_inv e" "keeps e get r"
    and "\<And>x. r = Inr x \<Longrightarrow> engine_inv (get x) \<Longrightarrow> engine_evolves e (get x) \<Longrightarrow> keeps (get x) get' (f x)"
  shows "keeps e get' (ub_bind r f)"
  using assms engine_evolves_inv engine_evolves_trans by (fastforce simp: keeps_def)

lemma keeps_trans: "engine_evolves e e' \<Longrightarrow> keeps e' get r \<Longrightarrow> keeps e get r"
  using engine_evolves_trans by (auto simp: keeps_def)

lemma evolves_conditions:
  assumes "i < length (mConditions e)" "same_pointers (mConditions e ! i) c"
  shows "engine_evolves e (e\<lparr>mConditions := (mConditions e)[i := c]\<rparr>)"
  using assms by (simp add: engine_evolves_def list_all2_conv_all_nth nth_list_update)

lemma evolves_buffers:
  "map_evolves (mSignalBuffers e) m \<Longrightarrow> engine_evolves e (e\<lparr>mSignalBuffers := m\<rparr>)"
  by (simp add: engine_evolves_def)

lemma evolves_eq:
  "engine_evolves e e' \<Longrightarrow> mSignalBuffers e'' = mSignalBuffers e' \<Longrightarrow> mCanFrameBuffers e'' = mCanFrameBuffers e' \<Longrightarrow>
   mConditions e'' = mConditions e' \<Longrightarrow> engine_evolves e e''"
  by (simp add: engine_evolves_def)

lemma evolves_length: "engine_evolves e e' \<Longrightarrow> length (mConditions e') = length (mConditions e)"
  by (auto simp: engine_evolves_def dest: list_all2_lengthD)

lemma addNewSignal_evolves: "engine_evolves e (addNewSignal s t v e)"
proof (cases "buffers_of s (mSignalBuffers e) = []")
  case False
  let ?r = "add_to_buffers t v (mNextWindowFunctionTimesOut e) (mConditionsWithInputSignalChanged e) (buffers_of s (mSignalBuffers e))"
  have "map_evolves (mSignalBuffers e) (set_buffers s (fst ?r) (mSignalBuffers e))"
    by (intro map_evolves_set add_to_buffers_evolves)
  with False show ?thesis by (simp add: addNewSignal_def Let_def split_beta engine_evolves_def)
qed (simp add: addNewSignal_def)

lemma addNewRawCanFrame_keeps:
  assumes "engine_inv e" "frame_fits (t, bytes, n)"
  shows "keeps e id (addNewRawCanFrame canID ch t bytes n e)"
proof -
  obtain bs where "add_frame_to_buffers canID ch t bytes n (mCanFrameBuffers e) = Inr bs"
    "list_all2 frame_evolves (mCanFrameBuffers e) bs"
    using add_frame_evolves [OF assms(2)] assms(1) unfolding engine_inv_def by blast
  then show ?thesis by (simp add: addNewRawCanFrame_def engine_evolves_def)
qed

lemma updateAll_evolves: "engine_evolves e (updateAllFixedWindowFunctions t e)"
  using update_map_windows_evolves [of "mSignalBuffers e" t "2 ^ 64 - 1" "mConditionsWithInputSignalChanged e"]
  by (simp add: updateAllFixedWindowFunctions_def split_beta Let_def engine_evolves_def)

lemma engine_inv_pointers:
  "engine_inv e \<Longrightarrow> i < length (mConditions e) \<Longrightarrow> pointers_ok (mSignalBuffers e) (mConditions e ! i)"
  by (intro pointers_in_ok) (simp_all add: engine_inv_def)

lemma evaluate_condition_keeps:
  assumes "engine_inv e" "i < length (mConditions e)"
  shows "keeps e snd (evaluate_condition t i e)"
proof (cases "interval_passed t (mConditions e ! i)")
  case True
  let ?c = "mConditions e ! i"
  obtain ret d b g where r: "eval (mSignalBuffers e) ?c (condition (mCondition ?c)) (mGeohashFunctionNode e) (Fin 0) False MAX_EQUATION_DEPTH
      = Inr (ret, d, b, g)"
    using eval_safe [OF engine_inv_pointers [OF assms]] unfolding defined_def by (metis prod_cases4)
  have "same_pointers ?c (?c\<lparr>mLastTrigger := t\<rparr>)" by (simp add: same_pointers_def)
  with True r evolves_conditions [OF assms(2) this] show ?thesis
    by (auto simp: evaluate_condition_def Let_def intro: evolves_eq frame_simps)
qed (simp add: evaluate_condition_def)

lemma evaluate_loop_keeps:
  "engine_inv e \<Longrightarrow> \<forall>i \<in> set is. i < length (mConditions e) \<Longrightarrow> keeps e snd (evaluate_loop t todo is one e)"
proof (induction "is" arbitrary: one e)
  case (Cons i "is")
  show ?case
  proof (cases "bit todo i")
    case True
    then show ?thesis using Cons
      by (auto intro!: keeps_bind [where get = snd] evaluate_condition_keeps simp: split_beta evolves_length)
  next
    case False
    then show ?thesis using Cons by simp
  qed
qed simp

lemma evaluateConditions_keeps:
  assumes "engine_inv e" shows "keeps e snd (evaluateConditions t e)"
proof -
  let ?e = "if t \<ge> mNextWindowFunctionTimesOut e then updateAllFixedWindowFunctions t e else e"
  have e: "engine_evolves e ?e" "engine_inv ?e"
    using updateAll_evolves [of e t] engine_evolves_inv [OF assms] assms by auto
  have "keeps ?e snd (evaluate_loop t (conditions_to_evaluate ?e) [0 ..< length (mConditions ?e)] False ?e)"
    by (rule evaluate_loop_keeps [OF e(2)]) simp
  then have "keeps e snd (evaluate_loop t (conditions_to_evaluate ?e) [0 ..< length (mConditions ?e)] False ?e)"
    by (rule keeps_trans [OF e(1)])
  then show ?thesis unfolding evaluateConditions_def Let_def
    using e(1) by (cases "bs_none (conditions_to_evaluate ?e)") (simp_all only: if_True if_False keeps_Inr snd_conv)
qed

lemma collectLastSignals_keeps:
  assumes "engine_inv e"
  shows "keeps e (\<lambda>(t, a, e). e) (collectLastSignals s interval n c nt acc e)"
proof -
  let ?bufs = "buffers_of s (mSignalBuffers e)"
  let ?m = "set_buffers s ?bufs (mSignalBuffers e)"
  have m: "map_evolves (mSignalBuffers e) ?m" by (rule map_evolves_set) simp
  show ?thesis
  proof (cases "find_index (\<lambda>b. sbMinimumSampleIntervalMs b = interval \<and> sbSize b > 0) ?bufs")
    case None
    then show ?thesis using evolves_buffers [OF m] by (simp add: collectLastSignals_def Let_def)
  next
    case (Some i)
    then have i: "i < length ?bufs" "0 < sbSize (?bufs ! i)" using find_index_SomeD by fastforce+
    moreover have "signal_inv (?bufs ! i)"
      using assms nth_mem [OF i(1)] all_buffers_of by (auto simp: engine_inv_def)
    ultimately obtain b t a where b: "collect_signals (mSendDataOnlyOncePerCondition e) s n c nt acc (?bufs ! i) = Inr (b, t, a)"
      "evolves (?bufs ! i) b" using collect_signals_safe by blast
    have "map_evolves ?m (set_buffers s (?bufs[i := b]) ?m)"
      using map_evolves_update [of i s ?m b] i(1) b(2) by simp
    then have "engine_evolves e (e\<lparr>mSignalBuffers := set_buffers s (?bufs[i := b]) ?m\<rparr>)"
      using m map_evolves_trans by (intro evolves_buffers) blast
    then show ?thesis using Some b(1) by (simp add: collectLastSignals_def Let_def)
  qed
qed

lemma collectLastCanFrames_keeps:
  assumes "engine_inv e"
  shows "keeps e (\<lambda>(t, a, e). e) (collectLastCanFrames canID ch interval n c nt acc e)"
proof (cases "find_index (\<lambda>b. fbFrameID b = canID \<and> fbChannelID b = ch \<and> fbMinimumSampleIntervalMs b = interval) (mCanFrameBuffers e)")
  case None
  then show ?thesis by (simp add: collectLastCanFrames_def)
next
  case (Some i)
  then have i: "i < length (mCanFrameBuffers e)" using find_index_SomeD by blast
  then have "frame_inv (mCanFrameBuffers e ! i)" using assms by (simp add: engine_inv_def)
  then obtain b t a where b: "collect_frames (mSendDataOnlyOncePerCondition e) n c nt acc (mCanFrameBuffers e ! i) = Inr (b, t, a)"
    "frame_evolves (mCanFrameBuffers e ! i) b" using collect_frames_safe by blast
  then have "list_all2 frame_evolves (mCanFrameBuffers e) ((mCanFrameBuffers e)[i := b])"
    using i by (simp add: list_all2_conv_all_nth nth_list_update)
  then show ?thesis using Some b(1) by (simp add: collectLastCanFrames_def Let_def engine_evolves_def)
qed

lemma pack_signals_keeps:
  "engine_inv e \<Longrightarrow> keeps e (\<lambda>(t, a, e). e) (pack_signals c ss nt acc e)"
proof (induction ss arbitrary: nt acc e)
  case (Cons s ss)
  show ?case
  proof (cases "sigIsConditionOnly s")
    case False
    have "keeps e (\<lambda>(t, a, e). e)
       (ub_bind (collectLastSignals (sigID s) (sigMinimumSampleIntervalMs s) (sigSampleBufferSize s) c nt acc e)
         (\<lambda>(nt, acc, e). pack_signals c ss nt acc e))"
      by (rule keeps_bind [OF Cons.prems collectLastSignals_keeps [OF Cons.prems]]) (auto intro: Cons.IH)
    with False show ?thesis by simp
  qed (simp add: Cons)
qed simp

lemma pack_frames_keeps:
  "engine_inv e \<Longrightarrow> keeps e (\<lambda>(t, a, e). e) (pack_frames c fs nt acc e)"
proof (induction fs arbitrary: nt acc e)
  case (Cons f fs)
  have "keeps e (\<lambda>(t, a, e). e)
     (ub_bind (collectLastCanFrames (frmID f) (frmChannelID f) (frmMinimumSampleIntervalMs f) (frmSampleBufferSize f) c nt acc e)
       (\<lambda>(nt, acc, e). pack_frames c fs nt acc e))"
    by (rule keeps_bind [OF Cons.prems collectLastCanFrames_keeps [OF Cons.prems]]) (auto intro: Cons.IH)
  then show ?case by simp
qed simp

lemma collectData_keeps:
  assumes "engine_inv e"
  shows "keeps e (\<lambda>(t, d, e). e) (collectData i nt e)"
proof -
  let ?c = "mConditions e ! i"
  obtain t1 s1 e1 where p: "pack_signals i (cndSignals (mCondition ?c)) nt [] e = Inr (t1, s1, e1)" "engine_evolves e e1"
    using pack_signals_keeps [OF assms] by (fastforce simp: keeps_def)
  then have "engine_inv e1" using assms engine_evolves_inv by blast
  then obtain t2 f2 e2 where q: "pack_frames i (cndCanFrames (mCondition ?c)) t1 [] e1 = Inr (t2, f2, e2)" "engine_evolves e1 e2"
    using pack_frames_keeps by (fastforce simp: keeps_def)
  have "engine_evolves e e2" using p(2) q(2) by (rule engine_evolves_trans)
  then show ?thesis
    unfolding collectData_def Let_def p(1) ub_bind_simps split q(1)
    by (auto simp: split_beta intro: evolves_eq)
qed

lemma send_condition_keeps:
  assumes "engine_inv e" "i < length (mConditions e)"
  shows "keeps e snd (send_condition t i e)"
proof -
  let ?id = "fst (generateEventID t e)"
  let ?c = "(mConditions e ! i)\<lparr>mEventID := ?id\<rparr>"
  let ?e1 = "snd (generateEventID t e)"
  let ?e2 = "?e1\<lparr>mConditions := (mConditions ?e1)[i := (mConditions ?e1 ! i)\<lparr>mEventID := ?id\<rparr>]\<rparr>"
  let ?e3 = "evaluateAndTriggerRichSensorCapture (mConditions ?e2 ! i) ?e2"
  have "engine_evolves e (e\<lparr>mConditions := (mConditions e)[i := ?c]\<rparr>)"
    by (intro evolves_conditions assms) (simp add: same_pointers_def)
  then have "engine_evolves e ?e3"
    by (rule evolves_eq) (simp_all add: generateEventID_def evaluateAndTriggerRichSensorCapture_def Let_def)
  moreover from this have inv: "engine_inv ?e3" using assms(1) engine_evolves_inv by blast
  then obtain nt d e4 where c: "collectData i 0 ?e3 = Inr (nt, d, e4)" "engine_evolves ?e3 e4"
    using collectData_keeps by (fastforce simp: keeps_def)
  ultimately have e4: "engine_evolves e e4" using engine_evolves_trans by blast
  then have "i < length (mConditions e4)" using assms(2) by (simp add: evolves_length)
  then have "engine_evolves e4 (e4\<lparr>mConditions := (mConditions e4)[i := (mConditions e4 ! i)\<lparr>mLastDataTimestampPublished := min nt t\<rparr>]\<rparr>)"
    by (intro evolves_conditions) (simp_all add: same_pointers_def)
  then have "engine_evolves e (e4\<lparr>mConditions := (mConditions e4)[i := (mConditions e4 ! i)\<lparr>mLastDataTimestampPublished := min nt t\<rparr>]\<rparr>)"
    using e4 engine_evolves_trans by blast
  then show ?thesis using c(1) by (simp add: send_condition_def split_beta Let_def)
qed

lemma collect_next_keeps:
  "engine_inv e \<Longrightarrow> n \<le> length (mConditions e) \<Longrightarrow>
   keeps e (\<lambda>x. snd (snd x)) (collect_next_loop n random t w e)"
proof (induction n arbitrary: w e)
  case (Suc n)
  have len: "0 < length (mConditions e)" using Suc.prems(2) by linarith
  have rec: "keeps e (\<lambda>x. snd (snd x)) (collect_next_loop n random t w' e')"
    if "mSignalBuffers e' = mSignalBuffers e" "mCanFrameBuffers e' = mCanFrameBuffers e" "mConditions e' = mConditions e" for w' e'
  proof (rule keeps_trans)
    show ev: "engine_evolves e e'" using that by (simp add: frame_simps)
    show "keeps e' (\<lambda>x. snd (snd x)) (collect_next_loop n random t w' e')"
      by (rule Suc.IH) (use engine_evolves_inv [OF Suc.prems(1) ev] Suc.prems(2) that in auto)
  qed
  have send: "keeps e (\<lambda>x. snd (snd x)) (ub_bind (send_condition t i e') (\<lambda>(cd, e). Inr (Some cd, w, e)))"
    if "mSignalBuffers e' = mSignalBuffers e" "mCanFrameBuffers e' = mCanFrameBuffers e" "mConditions e' = mConditions e"
      "i < length (mConditions e)" for e' i
  proof (rule keeps_trans)
    show ev: "engine_evolves e e'" using that by (simp add: frame_simps)
    have inv: "engine_inv e'" using engine_evolves_inv [OF Suc.prems(1) ev] .
    show "keeps e' (\<lambda>x. snd (snd x)) (ub_bind (send_condition t i e') (\<lambda>(cd, e). Inr (Some cd, w, e)))"
      by (rule keeps_bind [OF inv send_condition_keeps [OF inv]]) (use that in auto)
  qed
  have shall: "mSignalBuffers (snd (shallSendData random p e')) = mSignalBuffers e'"
    "mCanFrameBuffers (snd (shallSendData random p e')) = mCanFrameBuffers e'"
    "mConditions (snd (shallSendData random p e')) = mConditions e'" for p e'
    by (simp_all add: shallSendData_def)
  show ?case
    using rec send len by (simp add: Let_def split_beta shall)
qed simp

lemma collectNextDataToSend_keeps:
  assumes "engine_inv e" shows "keeps e (\<lambda>x. snd (snd x)) (collectNextDataToSend random t w e)"
proof -
  have "keeps e (\<lambda>x. snd (snd x)) (ub_bind (collect_next_loop (length (mConditions e)) random t (2 ^ 32 - 1) e) (\<lambda>(cd, mw, e).
             case cd of Some d \<Rightarrow> Inr (Some d, w, e) | None \<Rightarrow> Inr (None, mw, e)))"
    by (rule keeps_bind [OF assms collect_next_keeps [OF assms]]) (auto split: option.split)
  then show ?thesis by (simp add: collectNextDataToSend_def Let_def)
qed

section \<open>Configuration establishes the invariant\<close>

text \<open>The 32-bit fields of a matrix are in range.\<close>

definition matrix_ok :: "InspectionMatrix \<Rightarrow> bool" where
  "matrix_ok M \<longleftrightarrow> (\<forall>c \<in> set (mtxConditions M). (\<forall>s \<in> set (cndSignals c). sigSampleBufferSize s < 2 ^ 32) \<and>
     (\<forall>f \<in> set (cndCanFrames c). frmSampleBufferSize f < 2 ^ 32))"

text \<open>A buffer that is requested and not yet allocated.\<close>

definition cfg_signal :: "SignalHistoryBuffer \<Rightarrow> bool" where
  "cfg_signal b \<longleftrightarrow> sbCounter b = 0 \<and> sbBuffer b = [] \<and> 0 < sbSize b \<and> sbSize b < 2 ^ 32 \<and> sbCurrentPosition b < sbSize b"

definition cfg_frame :: "CanFrameHistoryBuffer \<Rightarrow> bool" where
  "cfg_frame b \<longleftrightarrow> fbCounter b = 0 \<and> fbBuffer b = [] \<and> fbSize b < 2 ^ 32 \<and>
     (fbCurrentPosition b < fbSize b \<or> fbCurrentPosition b = 2 ^ 32 - 1)"

lemma sub32_1: "n < 2 ^ 32 \<Longrightarrow> sub32 n 1 = (if n = 0 then 2 ^ 32 - 1 else n - 1)"
  by (cases n) (simp_all add: sub32_def u32_def)

lemma cfg_new_signal: "0 < n \<Longrightarrow> n < 2 ^ 32 \<Longrightarrow> cfg_signal (signal_history_buffer n i)"
  using sub32_1 [of n] by (simp add: cfg_signal_def signal_history_buffer_def)

lemma cfg_new_frame: "n < 2 ^ 32 \<Longrightarrow> cfg_frame (can_frame_history_buffer f c n i)"
  using sub32_1 [of n] by (simp add: cfg_frame_def can_frame_history_buffer_def)

lemma cfg_signal_inv: "cfg_signal b \<Longrightarrow> signal_inv b"
  by (simp add: cfg_signal_def signal_inv_def)

lemma cfg_frame_inv: "cfg_frame b \<Longrightarrow> frame_inv b"
  by (auto simp: cfg_frame_def frame_inv_def)

lemma all_buffers_mono: "all_buffers P m \<Longrightarrow> (\<And>b. P b \<Longrightarrow> Q b) \<Longrightarrow> all_buffers Q m"
  by (auto simp: all_buffers_def)

lemma cfg_bytes: "all_buffers cfg_signal m \<Longrightarrow> map_bytes m = 0"
  by (induction m) (auto simp: map_bytes_def all_buffers_def buffers_bytes_def cfg_signal_def)

lemma cfg_frames_bytes: "\<forall>b \<in> set bs. cfg_frame b \<Longrightarrow> frames_bytes bs = 0"
  by (induction bs) (auto simp: frames_bytes_def cfg_frame_def)

lemma addFixedWindow_cfg [simp]: "cfg_signal (addFixedWindow p b) = cfg_signal b"
  by (auto simp: addFixedWindow_def cfg_signal_def split: option.splits)

lemma addSignalToBuffer_cfg:
  assumes "all_buffers cfg_signal m" "0 < sigSampleBufferSize s" "sigSampleBufferSize s < 2 ^ 32"
  shows "all_buffers cfg_signal (fst (addSignalToBuffer s m)) \<and>
     snd (addSignalToBuffer s m) < length (buffers_of (sigID s) (fst (addSignalToBuffer s m)))"
proof -
  let ?bs = "buffers_of (sigID s) m"
  have bs: "\<forall>b \<in> set ?bs. cfg_signal b" using all_buffers_of [OF assms(1)] by blast
  show ?thesis
  proof (cases "find_index (\<lambda>b. sbMinimumSampleIntervalMs b = sigMinimumSampleIntervalMs s) ?bs")
    case None
    then show ?thesis
      using assms bs cfg_new_signal by (auto simp: addSignalToBuffer_def Let_def intro!: all_buffers_set)
  next
    case (Some i)
    then have i: "i < length ?bs" using find_index_SomeD by blast
    then have "cfg_signal (?bs ! i)" using bs nth_mem by blast
    then have "cfg_signal ((?bs ! i)\<lparr>sbSize := max (sbSize (?bs ! i)) (sigSampleBufferSize s)\<rparr>)"
      using assms(2,3) by (auto simp: cfg_signal_def)
    then have "\<forall>b \<in> set (?bs[i := (?bs ! i)\<lparr>sbSize := max (sbSize (?bs ! i)) (sigSampleBufferSize s)\<rparr>]). cfg_signal b"
      by (rule all_set_update [OF bs])
    then show ?thesis
      using Some i by (simp add: addSignalToBuffer_def Let_def all_buffers_set assms(1))
  qed
qed

lemma add_signals_cfg:
  "all_buffers cfg_signal m \<Longrightarrow> \<forall>s \<in> set ss. sigSampleBufferSize s < 2 ^ 32 \<Longrightarrow> all_buffers cfg_signal (snd (add_signals ss m))"
proof (induction ss arbitrary: m)
  case (Cons s ss)
  show ?case
  proof (cases "sigID s = INVALID_SIGNAL_ID \<or> sigSampleBufferSize s = 0")
    case False
    let ?m = "fst (addSignalToBuffer s m)" and ?i = "snd (addSignalToBuffer s m)"
    let ?bs = "buffers_of (sigID s) ?m"
    have a: "all_buffers cfg_signal ?m" "?i < length ?bs"
      using addSignalToBuffer_cfg [OF Cons.prems(1)] False Cons.prems(2) by auto
    have "cfg_signal (addFixedWindow (sigFixedWindowPeriod s) (?bs ! ?i))"
      using all_buffers_of [OF a(1)] nth_mem [OF a(2)] by simp
    then have "all_buffers cfg_signal (set_buffers (sigID s) (?bs[?i := addFixedWindow (sigFixedWindowPeriod s) (?bs ! ?i)]) ?m)"
      using all_buffers_of [OF a(1)] by (intro all_buffers_set a(1) all_set_update) auto
    then show ?thesis using Cons.IH Cons.prems(2) False by (simp add: split_beta Let_def)
  qed (use Cons.prems in auto)
qed simp

lemma add_frames_cfg:
  "\<forall>b \<in> set bs. cfg_frame b \<Longrightarrow> \<forall>c \<in> set cs. frmSampleBufferSize c < 2 ^ 32 \<Longrightarrow> \<forall>b \<in> set (add_frames cs bs). cfg_frame b"
proof (induction cs arbitrary: bs)
  case (Cons c cs)
  let ?f = "find_index (\<lambda>b. fbFrameID b = frmID c \<and> fbChannelID b = frmChannelID c \<and>
                             fbMinimumSampleIntervalMs b = frmMinimumSampleIntervalMs c) bs"
  show ?case
  proof (cases ?f)
    case None
    have "\<forall>b \<in> set (bs @ [can_frame_history_buffer (frmID c) (frmChannelID c) (frmSampleBufferSize c) (frmMinimumSampleIntervalMs c)]). cfg_frame b"
      using Cons.prems by (auto intro: cfg_new_frame)
    from Cons.IH [OF this] show ?thesis using Cons.prems(2) None by simp
  next
    case (Some i)
    then have "i < length bs" using find_index_SomeD by blast
    then have "cfg_frame (bs ! i)" using Cons.prems(1) nth_mem by blast
    then have "cfg_frame ((bs ! i)\<lparr>fbSize := max (fbSize (bs ! i)) (frmSampleBufferSize c)\<rparr>)"
      using Cons.prems(2) by (auto simp: cfg_frame_def)
    then have "\<forall>b \<in> set (bs[i := (bs ! i)\<lparr>fbSize := max (fbSize (bs ! i)) (frmSampleBufferSize c)\<rparr>]). cfg_frame b"
      using Cons.prems(1) by (intro all_set_update)
    then show ?thesis using Cons.IH Cons.prems(2) Some by simp
  qed
qed simp

text \<open>The state between the two loops.\<close>

definition cfg_engine :: "engine \<Rightarrow> bool" where
  "cfg_engine e \<longleftrightarrow> length (mConditions e) \<le> MAX_NUMBER_OF_ACTIVE_CONDITION \<and> all_buffers cfg_signal (mSignalBuffers e) \<and>
     (\<forall>b \<in> set (mCanFrameBuffers e). cfg_frame b) \<and> (\<forall>c \<in> set (mConditions e). pointers_in (mSignalBuffers e) c)"

lemma cfg_engine_inv: "cfg_engine e \<Longrightarrow> engine_inv e"
  using cfg_bytes cfg_frames_bytes cfg_frame_inv all_buffers_mono [OF _ cfg_signal_inv]
  by (auto simp: cfg_engine_def engine_inv_def)

lemma same_shape_set:
  "map (\<lambda>b. length (sbWindowFunctionData b)) bs = map (\<lambda>b. length (sbWindowFunctionData b)) (buffers_of s m) \<Longrightarrow>
   same_shape m (set_buffers s bs m)"
  by (simp add: same_shape_def)

lemma no_pointers: "mEvaluationSignals c = (\<lambda>_. None) \<Longrightarrow> mEvaluationFunctions c = (\<lambda>_. None) \<Longrightarrow> pointers_in m c"
  by (simp add: pointers_in_def)

text \<open>While buffers are still being added no condition has pointers.\<close>

lemma add_conditions_cfg:
  assumes "\<forall>c \<in> set ps. (\<forall>s \<in> set (cndSignals c). sigSampleBufferSize s < 2 ^ 32) \<and>
     (\<forall>f \<in> set (cndCanFrames c). frmSampleBufferSize f < 2 ^ 32)"
  shows "cfg_engine e \<Longrightarrow> \<forall>c \<in> set (mConditions e). mEvaluationSignals c = (\<lambda>_. None) \<and> mEvaluationFunctions c = (\<lambda>_. None) \<Longrightarrow>
    cfg_engine (snd (add_conditions ps e)) \<and>
    (\<forall>c \<in> set (mConditions (snd (add_conditions ps e))). mEvaluationSignals c = (\<lambda>_. None) \<and> mEvaluationFunctions c = (\<lambda>_. None))"
  using assms
proof (induction ps arbitrary: e)
  case (Cons p ps)
  show ?case
  proof (cases "length (mConditions e) \<ge> MAX_NUMBER_OF_ACTIVE_CONDITION")
    case False
    let ?e = "e\<lparr>mConditions := mConditions e @ [active_condition p]\<rparr>"
    let ?r = "add_signals (cndSignals p) (mSignalBuffers ?e)"
    let ?f = "?e\<lparr>mSignalBuffers := snd ?r\<rparr>"
    let ?g = "?f\<lparr>mCanFrameBuffers := add_frames (cndCanFrames p) (mCanFrameBuffers ?f)\<rparr>"
    have ne: "\<forall>c \<in> set (mConditions ?e). mEvaluationSignals c = (\<lambda>_. None) \<and> mEvaluationFunctions c = (\<lambda>_. None)"
      using Cons.prems(2) by (simp add: active_condition_def)
    have m: "all_buffers cfg_signal (snd ?r)"
      using add_signals_cfg [of "mSignalBuffers e" "cndSignals p"] Cons.prems(1,3) by (simp add: cfg_engine_def)
    have fr: "\<forall>b \<in> set (add_frames (cndCanFrames p) (mCanFrameBuffers e)). cfg_frame b"
      using add_frames_cfg [of "mCanFrameBuffers e" "cndCanFrames p"] Cons.prems(1,3) by (simp add: cfg_engine_def)
    have cfg: "cfg_engine ?e" "cfg_engine ?f" "cfg_engine ?g"
      using Cons.prems(1) False ne m fr by (auto simp: cfg_engine_def intro: no_pointers)
    have "cfg_engine (snd (add_conditions ps ?g)) \<and>
      (\<forall>c \<in> set (mConditions (snd (add_conditions ps ?g))). mEvaluationSignals c = (\<lambda>_. None) \<and> mEvaluationFunctions c = (\<lambda>_. None))"
      by (rule Cons.IH) (use cfg ne Cons.prems(3) in simp_all)
    then show ?thesis using False cfg ne by (simp add: split_beta Let_def)
  qed (use Cons.prems in simp)
qed simp

lemma pointers_in_signal:
  "pointers_in m c \<Longrightarrow> k < length (buffers_of sid m) \<Longrightarrow>
   pointers_in m (c\<lparr>mEvaluationSignals := (mEvaluationSignals c)(s \<mapsto> (sid, k))\<rparr>)"
  by (simp add: pointers_in_def)

lemma pointers_in_function:
  "pointers_in m c \<Longrightarrow> k < length (buffers_of sid m) \<Longrightarrow> j < length (sbWindowFunctionData (buffers_of sid m ! k)) \<Longrightarrow>
   pointers_in m (c\<lparr>mEvaluationFunctions := (mEvaluationFunctions c)(s \<mapsto> (sid, k, j))\<rparr>)"
  by (simp add: pointers_in_def)

lemma getFixedWindow_less: "getFixedWindow p b = Some k \<Longrightarrow> k < length (sbWindowFunctionData b)"
  using find_index_SomeD by (auto simp: getFixedWindow_def split: if_splits)

lemma connect_signals_spec:
  assumes "connect_signals i ss m ac = (m', ac')" "all_buffers cfg_signal m" "pointers_in m ac"
  shows "all_buffers cfg_signal m' \<and> same_shape m m' \<and> pointers_in m' ac' \<and> mCondition ac' = mCondition ac"
  using assms
proof (induction ss arbitrary: m ac)
  case (Cons s ss)
  let ?bs = "buffers_of (sigID s) m" and ?f = "find_index (\<lambda>b. sbMinimumSampleIntervalMs b = sigMinimumSampleIntervalMs s) (buffers_of (sigID s) m)"
  let ?m = "set_buffers (sigID s) ?bs m"
  have m: "all_buffers cfg_signal ?m" "same_shape m ?m" "pointers_in ?m ac"
    using all_buffers_of [OF Cons.prems(2)] Cons.prems(3)
    by (auto intro!: all_buffers_set Cons.prems(2) same_shape_set elim: pointers_in_shape)
  show ?case
  proof (cases "\<exists>j. ?f = Some j \<and> isSignalPartOfEval (condition (mCondition ac)) (sigID s) MAX_EQUATION_DEPTH")
    case True
    then obtain j where j: "?f = Some j" "isSignalPartOfEval (condition (mCondition ac)) (sigID s) MAX_EQUATION_DEPTH" by blast
    then have jl: "j < length ?bs" using find_index_SomeD by blast
    define buf where "buf = (?bs ! j)\<lparr>sbConditionsThatEvaluateOnThisSignal :=
       bs_assign i True (sbConditionsThatEvaluateOnThisSignal (?bs ! j))\<rparr>"
    define m2 where "m2 = set_buffers (sigID s) (?bs[j := buf]) ?m"
    define ac1 where "ac1 = ac\<lparr>mEvaluationSignals := (mEvaluationSignals ac)(sigID s \<mapsto> (sigID s, j))\<rparr>"
    define ac2 where "ac2 = (case getFixedWindow (sigFixedWindowPeriod s) buf of None \<Rightarrow> ac1
       | Some k \<Rightarrow> ac1\<lparr>mEvaluationFunctions := (mEvaluationFunctions ac1)(sigID s \<mapsto> (sigID s, j, k))\<rparr>)"
    have eq: "connect_signals i ss m2 ac2 = (m', ac')"
      using Cons.prems(1) j by (simp add: Let_def buf_def m2_def ac1_def ac2_def cong: option.case_cong)
    have "cfg_signal buf" using all_buffers_of [OF Cons.prems(2)] nth_mem [OF jl] by (simp add: buf_def cfg_signal_def)
    then have c: "all_buffers cfg_signal m2"
      unfolding m2_def using all_buffers_of [OF Cons.prems(2)] by (intro all_buffers_set m(1) all_set_update) auto
    have sh: "same_shape ?m m2" unfolding m2_def
      by (rule same_shape_set) (simp add: map_update buf_def list_update_same_conv jl)
    have at: "j < length (buffers_of (sigID s) m2)" "buffers_of (sigID s) m2 ! j = buf" using jl by (simp_all add: m2_def)
    have p1: "pointers_in m2 ac1"
      unfolding ac1_def by (intro pointers_in_signal pointers_in_shape [OF m(3) sh] at(1))
    have p: "pointers_in m2 ac2"
      using p1 pointers_in_function [OF p1 at(1)] getFixedWindow_less [of _ buf] at(2)
      by (auto simp: ac2_def split: option.split)
    have "mCondition ac2 = mCondition ac" by (auto simp: ac2_def ac1_def split: option.splits)
    with Cons.IH [OF eq c p] show ?thesis using same_shape_trans [OF m(2) same_shape_trans [OF sh]] by simp
  next
    case False
    then have "connect_signals i ss ?m ac = (m', ac')"
      using Cons.prems(1) by (auto simp: Let_def split: option.splits)
    from Cons.IH [OF this m(1,3)] show ?thesis using same_shape_trans [OF m(2)] by blast
  qed
qed simp

lemma connect_conditions_cfg:
  "cfg_engine e \<Longrightarrow> \<forall>i \<in> set is. i < length (mConditions e) \<Longrightarrow> cfg_engine (connect_conditions is e)"
proof (induction "is" arbitrary: e)
  case (Cons i "is")
  let ?ac = "mConditions e ! i"
  obtain m ac where r: "connect_signals i (cndSignals (mCondition ?ac)) (mSignalBuffers e) ?ac = (m, ac)" by force
  have i: "i < length (mConditions e)" using Cons.prems(2) by simp
  then have s: "all_buffers cfg_signal m" "same_shape (mSignalBuffers e) m" "pointers_in m ac"
    using connect_signals_spec [OF r] Cons.prems(1) by (simp_all add: cfg_engine_def)
  have "\<forall>c \<in> set ((mConditions e)[i := ac]). pointers_in m c"
    using Cons.prems(1) s pointers_in_shape by (intro all_set_update) (auto simp: cfg_engine_def)
  then have "cfg_engine (e\<lparr>mSignalBuffers := m, mConditions := (mConditions e)[i := ac]\<rparr>)"
    using Cons.prems(1) s(1) by (simp add: cfg_engine_def)
  from Cons.IH [OF this] show ?case using Cons.prems(2) by (simp add: r)
qed simp

lemma resize_empty [simp]: "resize x n [] = replicate n x"
  by (simp add: resize_def)

lemma allocate_signals_spec:
  assumes "allocate_signals used bs = (ok, used', bs')" "\<forall>b \<in> set bs. cfg_signal b" "used \<le> MAX_SAMPLE_MEMORY"
  shows "used' \<le> MAX_SAMPLE_MEMORY \<and> used + buffers_bytes bs' = used' \<and> (\<forall>b \<in> set bs'. signal_inv b) \<and>
     map (\<lambda>b. length (sbWindowFunctionData b)) bs' = map (\<lambda>b. length (sbWindowFunctionData b)) bs"
  using assms
proof (induction bs arbitrary: used ok used' bs')
  case (Cons b bs)
  have b: "sbCounter b = 0" "sbBuffer b = []" "0 < sbSize b" "sbSize b < 2 ^ 32" "sbCurrentPosition b < sbSize b"
    using Cons.prems(2) by (simp_all add: cfg_signal_def)
  have req: "u64 (sbSize b * sizeof_SignalSample) = sbSize b * sizeof_SignalSample"
    using b(4) by (simp add: u64_id sizeof_SignalSample_def)
  have sum: "u64 (used + sbSize b * sizeof_SignalSample) = used + sbSize b * sizeof_SignalSample"
    using b(4) Cons.prems(3) by (simp add: u64_id sizeof_SignalSample_def MAX_SAMPLE_MEMORY_def)
  show ?case
  proof (cases "used + sbSize b * sizeof_SignalSample > MAX_SAMPLE_MEMORY")
    case True
    have "buffers_bytes bs = 0" using Cons.prems(2) by (induction bs) (auto simp: buffers_bytes_def cfg_signal_def)
    moreover have "signal_inv (b\<lparr>sbSize := 0\<rparr>)" "\<forall>b \<in> set bs. signal_inv b"
      using b(1) Cons.prems(2) by (auto simp: signal_inv_def [of "b\<lparr>sbSize := 0\<rparr>"] intro: cfg_signal_inv)
    ultimately show ?thesis using True Cons.prems(1,3) b(2)
      by (auto simp: req sum Let_def bytes_Cons)
  next
    case False
    let ?u = "u32 (used + u32 (sbSize b * sizeof_SignalSample))"
    have u: "?u = used + sbSize b * sizeof_SignalSample"
      using False by (simp add: u32_id MAX_SAMPLE_MEMORY_def)
    obtain ok2 used2 bs2 where r: "allocate_signals ?u bs = (ok2, used2, bs2)" by (metis prod_cases3)
    have eq: "ok = ok2" "used' = used2" "bs' = b\<lparr>sbBuffer := replicate (sbSize b) default_SignalSample\<rparr> # bs2"
      using Cons.prems(1) False r b(2) by (simp_all add: req sum Let_def)
    have size: "sbSize b < 2 ^ 31" using False by (simp add: sizeof_SignalSample_def MAX_SAMPLE_MEMORY_def)
    have "signal_ok (b\<lparr>sbBuffer := replicate (sbSize b) default_SignalSample\<rparr>)"
      using b size by (simp add: signal_ok_def)
    then show ?thesis
      using Cons.IH [OF r] Cons.prems(2) False unfolding u eq
      by (simp add: buffers_bytes_def signal_ok_inv mult.commute)
  qed
qed (auto simp: buffers_bytes_def)

lemma allocate_signal_map_spec:
  assumes "allocate_signal_map used m = (ok, used', m')" "all_buffers cfg_signal m" "used \<le> MAX_SAMPLE_MEMORY"
  shows "used' \<le> MAX_SAMPLE_MEMORY \<and> used + map_bytes m' = used' \<and> all_buffers signal_inv m' \<and> same_shape m m'"
  using assms
proof (induction m arbitrary: used ok used' m')
  case (Cons p m)
  obtain s bs where p: "p = (s, bs)" by force
  obtain ok1 used1 bs1 where r: "allocate_signals used bs = (ok1, used1, bs1)" by (metis prod_cases3)
  have bs: "\<forall>b \<in> set bs. cfg_signal b" "all_buffers cfg_signal m" using Cons.prems(2) by (simp_all add: p all_buffers_def)
  note b = allocate_signals_spec [OF r bs(1) Cons.prems(3)]
  show ?case
  proof (cases ok1)
    case False
    have "map_bytes m = 0" "all_buffers signal_inv m" using bs(2) cfg_bytes all_buffers_mono cfg_signal_inv by blast+
    then show ?thesis using Cons.prems(1) b False r
      by (auto simp: p bytes_Cons same_shape_def buffers_of_def)
  next
    case True
    obtain ok2 used2 m2 where r2: "allocate_signal_map used1 m = (ok2, used2, m2)" by (metis prod_cases3)
    have eq: "used' = used2" "m' = (s, bs1) # m2" using Cons.prems(1) True r r2 by (simp_all add: p)
    show ?thesis using Cons.IH [OF r2 bs(2)] b unfolding eq p
      by (auto simp: bytes_Cons same_shape_def buffers_of_def)
  qed
qed (auto simp: map_bytes_def all_buffers_def)

lemma allocate_frames_spec:
  assumes "allocate_frames used bs = (ok, bs')" "\<forall>b \<in> set bs. cfg_frame b" "used \<le> MAX_SAMPLE_MEMORY"
  shows "used + frames_bytes bs' \<le> MAX_SAMPLE_MEMORY \<and> (\<forall>b \<in> set bs'. frame_inv b)"
  using assms
proof (induction bs arbitrary: used ok bs')
  case (Cons b bs)
  have b: "fbCounter b = 0" "fbBuffer b = []" "fbSize b < 2 ^ 32" "fbCurrentPosition b < fbSize b \<or> fbCurrentPosition b = 2 ^ 32 - 1"
    using Cons.prems(2) by (simp_all add: cfg_frame_def)
  have req: "u64 (fbSize b * sizeof_CanFrameSample) = fbSize b * sizeof_CanFrameSample"
    using b(3) by (simp add: u64_id sizeof_CanFrameSample_def)
  have sum: "u64 (used + fbSize b * sizeof_CanFrameSample) = used + fbSize b * sizeof_CanFrameSample"
    using b(3) Cons.prems(3) by (simp add: u64_id sizeof_CanFrameSample_def MAX_SAMPLE_MEMORY_def)
  show ?case
  proof (cases "used + fbSize b * sizeof_CanFrameSample > MAX_SAMPLE_MEMORY")
    case True
    have "frames_bytes bs = 0" using Cons.prems(2) by (induction bs) (auto simp: frames_bytes_def cfg_frame_def)
    moreover have "frame_inv (b\<lparr>fbSize := 0\<rparr>)" "\<forall>b \<in> set bs. frame_inv b"
      using b(1,2) Cons.prems(2) by (auto simp: frame_inv_def [of "b\<lparr>fbSize := 0\<rparr>"] intro: cfg_frame_inv)
    ultimately show ?thesis using True Cons.prems(1,3) b(2)
      by (auto simp: req sum Let_def bytes_Cons)
  next
    case False
    let ?u = "u32 (used + u32 (fbSize b * sizeof_CanFrameSample))"
    let ?b = "b\<lparr>fbBuffer := replicate (fbSize b) default_CanFrameSample\<rparr>"
    have u: "?u = used + fbSize b * sizeof_CanFrameSample"
      using False by (simp add: u32_id MAX_SAMPLE_MEMORY_def)
    obtain ok2 bs2 where r: "allocate_frames ?u bs = (ok2, bs2)" by force
    have eq: "bs' = ?b # bs2"
      using Cons.prems(1) False r b(2) by (simp add: req sum Let_def)
    have "fbSize b < 2 ^ 31" using False by (simp add: sizeof_CanFrameSample_def MAX_SAMPLE_MEMORY_def)
    then have "frame_inv ?b"
      using b by (auto simp: frame_inv_def frame_ok_def frame_start_def default_CanFrameSample_def)
    then show ?thesis
      using Cons.IH [OF r] Cons.prems(2) False unfolding u eq
      by (simp add: frames_bytes_def mult.commute)
  qed
qed (auto simp: frames_bytes_def)

lemma preAllocateBuffers_inv:
  assumes "cfg_engine e" shows "engine_inv (snd (preAllocateBuffers e))"
proof -
  obtain ok used m where r: "allocate_signal_map 0 (mSignalBuffers e) = (ok, used, m)" by (metis prod_cases3)
  have s: "used \<le> MAX_SAMPLE_MEMORY" "map_bytes m = used" "all_buffers signal_inv m" "same_shape (mSignalBuffers e) m"
    using allocate_signal_map_spec [OF r] assms by (simp_all add: cfg_engine_def)
  have p: "\<forall>c \<in> set (mConditions e). pointers_in m c" using assms pointers_in_shape [OF _ s(4)] by (simp add: cfg_engine_def)
  have f0: "frames_bytes (mCanFrameBuffers e) = 0" "\<forall>b \<in> set (mCanFrameBuffers e). frame_inv b"
    using assms cfg_frames_bytes cfg_frame_inv by (auto simp: cfg_engine_def)
  obtain ok2 fs where r2: "allocate_frames used (mCanFrameBuffers e) = (ok2, fs)" by force
  have f: "used + frames_bytes fs \<le> MAX_SAMPLE_MEMORY" "\<forall>b \<in> set fs. frame_inv b"
    using allocate_frames_spec [OF r2] assms s(1) by (simp_all add: cfg_engine_def)
  show ?thesis using assms s p f f0 r r2
    by (auto simp: preAllocateBuffers_def engine_inv_def cfg_engine_def split_beta Let_def)
qed

lemma onChangeInspectionMatrix_inv:
  assumes "matrix_ok M" shows "engine_inv (onChangeInspectionMatrix M e)"
proof -
  let ?e0 = "(engine_clear e)\<lparr>mConditionsNotTriggeredWaitingPublished := - 1\<rparr>"
  obtain ok e1 where r: "add_conditions (mtxConditions M) ?e0 = (ok, e1)" by force
  have "cfg_engine ?e0" by (simp add: cfg_engine_def engine_clear_def all_buffers_def)
  then have e1: "cfg_engine e1"
    using add_conditions_cfg [of "mtxConditions M" ?e0] assms r by (simp add: matrix_ok_def engine_clear_def)
  let ?e2 = "connect_conditions [0 ..< length (mConditions e1)] e1"
  have "cfg_engine ?e2" by (rule connect_conditions_cfg [OF e1]) simp
  then have "cfg_engine (?e2\<lparr>mConditionsWithConditionCurrentlyTrue := - 1\<rparr>)" by (simp add: cfg_engine_def)
  then have "engine_inv (snd (preAllocateBuffers (?e2\<lparr>mConditionsWithConditionCurrentlyTrue := - 1\<rparr>)))"
    by (rule preAllocateBuffers_inv)
  then show ?thesis using r cfg_engine_inv [OF e1] by (simp add: onChangeInspectionMatrix_def Let_def)
qed

section \<open>Reachable states\<close>

text \<open>The calls the worker thread makes.\<close>

datatype engine_op =
    Reconfigure InspectionMatrix | DataReduction bool | NewSignal nat nat double
  | NewFrame nat nat nat "nat list" nat | ActiveDTCs DTCInfo | Evaluate nat | Collect nat nat

definition run_op :: "(nat \<Rightarrow> double) \<Rightarrow> engine_op \<Rightarrow> engine \<Rightarrow> engine ub_result" where
  "run_op random op e =
     (case op of
        Reconfigure M \<Rightarrow> Inr (onChangeInspectionMatrix M e)
      | DataReduction b \<Rightarrow> Inr (setDataReductionParameters b e)
      | NewSignal s t v \<Rightarrow> Inr (addNewSignal s t v e)
      | NewFrame canID ch t bytes n \<Rightarrow> addNewRawCanFrame canID ch t bytes n e
      | ActiveDTCs d \<Rightarrow> Inr (setActiveDTCs d e)
      | Evaluate t \<Rightarrow> ub_bind (evaluateConditions t e) (\<lambda>(one, e). Inr e)
      | Collect t w \<Rightarrow> ub_bind (collectNextDataToSend random t w e) (\<lambda>(d, w, e). Inr e))"

text \<open>Matrices have fields in range and frames have eight bytes of which at most eight are used.\<close>

definition op_ok :: "engine_op \<Rightarrow> bool" where
  "op_ok op = (case op of Reconfigure M \<Rightarrow> matrix_ok M | NewFrame canID ch t bytes n \<Rightarrow> frame_fits (t, bytes, n) | _ \<Rightarrow> True)"

inductive reachable :: "(nat \<Rightarrow> double) \<Rightarrow> bool \<Rightarrow> engine \<Rightarrow> bool" for random once where
  start: "reachable random once (init_engine once)"
| step: "reachable random once e \<Longrightarrow> op_ok op \<Longrightarrow> run_op random op e = Inr e' \<Longrightarrow> reachable random once e'"

lemma run_op_inv:
  assumes "engine_inv e" "op_ok op"
  shows "\<exists>e'. run_op random op e = Inr e' \<and> engine_inv e'"
proof -
  have ev: "engine_evolves e e' \<Longrightarrow> engine_inv e'" for e' using engine_evolves_inv [OF assms(1)] .
  show ?thesis
  proof (cases op)
    case (NewFrame canID ch t bytes n)
    then show ?thesis using addNewRawCanFrame_keeps [OF assms(1), of t bytes n canID ch] assms(2) ev
      by (auto simp: keeps_def run_op_def op_ok_def)
  next
    case (Evaluate t)
    then show ?thesis using evaluateConditions_keeps [OF assms(1), of t] ev by (auto simp: keeps_def run_op_def)
  next
    case (Collect t w)
    then show ?thesis using collectNextDataToSend_keeps [OF assms(1), of random t w] ev by (auto simp: keeps_def run_op_def)
  next
    case (Reconfigure M)
    then show ?thesis using onChangeInspectionMatrix_inv assms(2) by (simp add: run_op_def op_ok_def)
  next
    case (NewSignal s t v)
    then show ?thesis using ev [OF addNewSignal_evolves] by (simp add: run_op_def)
  next
    case (DataReduction b)
    then show ?thesis using ev [of "setDataReductionParameters b e"]
      by (simp add: run_op_def setDataReductionParameters_def frame_simps)
  next
    case (ActiveDTCs d)
    then show ?thesis using ev [of "setActiveDTCs d e"] by (simp add: run_op_def setActiveDTCs_def frame_simps)
  qed
qed

lemma init_engine_inv: "engine_inv (init_engine once)"
  by (simp add: engine_inv_def init_engine_def all_buffers_def map_bytes_def frames_bytes_def)

lemma reachable_inv: "reachable random once e \<Longrightarrow> engine_inv e"
proof (induction rule: reachable.induct)
  case start
  show ?case by (rule init_engine_inv)
next
  case (step e op e')
  then show ?case using run_op_inv [of e op random] by auto
qed

text \<open>
  C1. Memory safety of the inspection engine. In every state reachable by any sequence of its
  operations (matrices with fields in range, frames of at most eight bytes) the next operation
  is defined: it reads no buffer, window or sample out of bounds and follows no stale pointer.
  The samples allocated stay within 20 MB and at most 256 conditions are active.
\<close>

theorem engine_memory_safe:
  assumes "reachable random once e" "op_ok op"
  shows "(\<exists>e'. run_op random op e = Inr e') \<and>
     map_bytes (mSignalBuffers e) + frames_bytes (mCanFrameBuffers e) \<le> MAX_SAMPLE_MEMORY \<and>
     length (mConditions e) \<le> MAX_NUMBER_OF_ACTIVE_CONDITION"
  using run_op_inv [OF reachable_inv [OF assms(1)] assms(2), of random] reachable_inv [OF assms(1)]
  unfolding engine_inv_def by blast

definition sample_matrix :: InspectionMatrix where
  "sample_matrix = \<lparr>mtxConditions = [sample_condition]\<rparr>"

lemma sample_reachable:
  "reachable (\<lambda>_. Fin 0) True (onChangeInspectionMatrix sample_matrix (init_engine True))"
  by (rule reachable.step [OF reachable.start, of "Reconfigure sample_matrix"])
     (simp_all add: op_ok_def matrix_ok_def sample_matrix_def sample_condition_def run_op_def)

theorem engine_memory_safe_witness:
  "\<exists>e'. run_op (\<lambda>_. Fin 0) (NewSignal 7 10 (Fin 5)) (onChangeInspectionMatrix sample_matrix (init_engine True)) = Inr e'"
  using engine_memory_safe [OF sample_reachable, of "NewSignal 7 10 (Fin 5)"] by (simp add: op_ok_def)

end
