(* ===== verification/EngineBehaviour.thy ===== *)
theory EngineBehaviour
  imports EngineSafety
begin

text \<open>
  What the inspection engine does with its conditions: when a condition is triggered, when its
  data is collected and what is in it, how trouble codes are packed, and how event identifiers
  are formed.
\<close>

section \<open>Triggering\<close>

lemma engine_inv_256: "engine_inv e \<Longrightarrow> length (mConditions e) \<le> 256"
  by (simp add: engine_inv_def MAX_NUMBER_OF_ACTIVE_CONDITION_def)

text \<open>What evaluating other conditions leaves alone at index \<open>i\<close>.\<close>

definition same_at :: "nat \<Rightarrow> engine \<Rightarrow> engine \<Rightarrow> bool" where
  "same_at i e e' \<longleftrightarrow> mConditions e' ! i = mConditions e ! i \<and> length (mConditions e') = length (mConditions e) \<and>
     bit (mConditionsNotTriggeredWaitingPublished e') i = bit (mConditionsNotTriggeredWaitingPublished e) i \<and>
     bit (mConditionsWithConditionCurrentlyTrue e') i = bit (mConditionsWithConditionCurrentlyTrue e) i"

lemma same_at_refl [simp]: "same_at i e e" by (simp add: same_at_def)

lemma same_at_trans: "same_at i a b \<Longrightarrow> same_at i b c \<Longrightarrow> same_at i a c" by (simp add: same_at_def)

text \<open>What evaluating condition \<open>i\<close> at time \<open>t\<close> may do to it.\<close>

definition triggers_at :: "nat \<Rightarrow> nat \<Rightarrow> engine \<Rightarrow> engine \<Rightarrow> bool" where
  "triggers_at t i e e' \<longleftrightarrow>
     \<not> bit (mConditionsNotTriggeredWaitingPublished e') i \<and> mLastTrigger (mConditions e' ! i) = t \<and>
     interval_passed t (mConditions e ! i) \<and> bit (mConditionsWithConditionCurrentlyTrue e') i \<and>
     (triggerOnlyOnRisingEdge (mCondition (mConditions e ! i)) \<longrightarrow> \<not> bit (mConditionsWithConditionCurrentlyTrue e) i)"

definition untriggered_at :: "nat \<Rightarrow> engine \<Rightarrow> engine \<Rightarrow> bool" where
  "untriggered_at i e e' \<longleftrightarrow>
     bit (mConditionsNotTriggeredWaitingPublished e') i = bit (mConditionsNotTriggeredWaitingPublished e) i \<and>
     mLastTrigger (mConditions e' ! i) = mLastTrigger (mConditions e ! i)"

lemma evaluate_condition_cases:
  assumes "evaluate_condition t j e = Inr (one, e')" "j < length (mConditions e)" "j < 256"
  shows "(\<forall>i. i \<noteq> j \<longrightarrow> same_at i e e') \<and> length (mConditions e') = length (mConditions e) \<and>
     (triggers_at t j e e' \<or> untriggered_at j e e')"
proof (cases "interval_passed t (mConditions e ! j)")
  case True
  let ?c = "mConditions e ! j"
  obtain ret d b g where r: "eval (mSignalBuffers e) ?c (condition (mCondition ?c)) (mGeohashFunctionNode e) (Fin 0) False MAX_EQUATION_DEPTH
      = Inr (ret, d, b, g)"
    using assms(1) True by (auto simp: evaluate_condition_def Let_def ub_bind_eq_Inr)
  show ?thesis
    using assms True r
    by (auto simp: evaluate_condition_def Let_def same_at_def triggers_at_def untriggered_at_def bit_bs_assign split: if_splits)
next
  case False
  then show ?thesis using assms by (auto simp: evaluate_condition_def untriggered_at_def)
qed

lemma evaluate_loop_other:
  "evaluate_loop t todo is one e = Inr (one', e') \<Longrightarrow> \<forall>j \<in> set is. j < length (mConditions e) \<and> j < 256 \<Longrightarrow>
   i \<notin> set is \<or> \<not> bit todo i \<Longrightarrow> same_at i e e'"
proof (induction "is" arbitrary: one e)
  case (Cons j "is")
  show ?case
  proof (cases "bit todo j")
    case False
    then show ?thesis using Cons by auto
  next
    case True
    then obtain f e1 where e1: "evaluate_condition t j e = Inr (f, e1)" "evaluate_loop t todo is (one \<or> f) e1 = Inr (one', e')"
      using Cons.prems(1) by (auto simp: ub_bind_eq_Inr)
    then have "\<forall>i. i \<noteq> j \<longrightarrow> same_at i e e1" "length (mConditions e1) = length (mConditions e)"
      using evaluate_condition_cases Cons.prems(2) by auto
    moreover have "i \<noteq> j" using Cons.prems(3) True by auto
    ultimately show ?thesis using Cons.IH [OF e1(2)] Cons.prems(2,3) same_at_trans by auto
  qed
qed simp

lemma evaluate_loop_at:
  "evaluate_loop t todo is one e = Inr (one', e') \<Longrightarrow> \<forall>j \<in> set is. j < length (mConditions e) \<and> j < 256 \<Longrightarrow> distinct is \<Longrightarrow>
   i \<in> set is \<Longrightarrow> bit todo i \<Longrightarrow> triggers_at t i e e' \<or> untriggered_at i e e'"
proof (induction "is" arbitrary: one e)
  case (Cons j "is")
  show ?case
  proof (cases "i = j")
    case True
    then obtain f e1 where e1: "evaluate_condition t i e = Inr (f, e1)" "evaluate_loop t todo is (one \<or> f) e1 = Inr (one', e')"
      using Cons.prems(1,5) by (auto simp: ub_bind_eq_Inr)
    then have c: "triggers_at t i e e1 \<or> untriggered_at i e e1" "length (mConditions e1) = length (mConditions e)"
      using evaluate_condition_cases [OF e1(1)] Cons.prems(2) True by auto
    have "same_at i e1 e'"
      using evaluate_loop_other [OF e1(2)] c(2) Cons.prems(2,3) True by auto
    then show ?thesis using c(1) by (auto simp: same_at_def triggers_at_def untriggered_at_def)
  next
    case False
    show ?thesis
    proof (cases "bit todo j")
      case True
      then obtain f e1 where e1: "evaluate_condition t j e = Inr (f, e1)" "evaluate_loop t todo is (one \<or> f) e1 = Inr (one', e')"
        using Cons.prems(1) by (auto simp: ub_bind_eq_Inr)
      then have c: "same_at i e e1" "length (mConditions e1) = length (mConditions e)"
        using evaluate_condition_cases [OF e1(1)] Cons.prems(2) False by auto
      have "triggers_at t i e1 e' \<or> untriggered_at i e1 e'"
        by (rule Cons.IH [OF e1(2)]) (use Cons.prems c(2) False in auto)
      then show ?thesis using c(1) by (auto simp: same_at_def triggers_at_def untriggered_at_def)
    next
      case nb: False
      have "evaluate_loop t todo is one e = Inr (one', e')" using Cons.prems(1) nb by simp
      from Cons.IH [OF this] show ?thesis using Cons.prems False by auto
    qed
  qed
qed simp

lemma updateAll_frame [frame_simps]:
  "mConditions (updateAllFixedWindowFunctions t e) = mConditions e"
  "mConditionsNotTriggeredWaitingPublished (updateAllFixedWindowFunctions t e) = mConditionsNotTriggeredWaitingPublished e"
  "mConditionsWithConditionCurrentlyTrue (updateAllFixedWindowFunctions t e) = mConditionsWithConditionCurrentlyTrue e"
  by (simp_all add: updateAllFixedWindowFunctions_def split_beta Let_def)

text \<open>
  One evaluation of the conditions at time \<open>t\<close>. A condition that waits for its data to be
  collected is left waiting with its trigger time; a condition that becomes triggered was not
  waiting, its minimum publish interval has passed, its trigger time is \<open>t\<close>, its expression is
  now recorded as true and, if it triggers on rising edges only, was recorded as false before;
  any other condition keeps its trigger time.
\<close>

theorem evaluateConditions_triggers:
  assumes "engine_inv e" "evaluateConditions t e = Inr (one, e')" "i < length (mConditions e)"
  shows "(\<not> bit (mConditionsNotTriggeredWaitingPublished e) i \<longrightarrow> untriggered_at i e e') \<and>
     (bit (mConditionsNotTriggeredWaitingPublished e) i \<longrightarrow> triggers_at t i e e' \<or> untriggered_at i e e')"
proof -
  let ?e = "if t \<ge> mNextWindowFunctionTimesOut e then updateAllFixedWindowFunctions t e else e"
  have e: "mConditions ?e = mConditions e" "mConditionsNotTriggeredWaitingPublished ?e = mConditionsNotTriggeredWaitingPublished e"
    "mConditionsWithConditionCurrentlyTrue ?e = mConditionsWithConditionCurrentlyTrue e"
    by (simp_all add: frame_simps)
  have at: "triggers_at t i ?e e' = triggers_at t i e e'" "untriggered_at i ?e e' = untriggered_at i e e'"
    unfolding triggers_at_def untriggered_at_def e by simp_all
  have r: "(if bs_none (conditions_to_evaluate ?e) then Inr (False, ?e)
       else evaluate_loop t (conditions_to_evaluate ?e) [0 ..< length (mConditions ?e)] False ?e) = Inr (one, e')"
    using assms(2) unfolding evaluateConditions_def Let_def .
  show ?thesis
  proof (cases "bs_none (conditions_to_evaluate ?e)")
    case True
    then have "e' = ?e" using r by simp
    then have "untriggered_at i ?e e'" by (simp add: untriggered_at_def)
    then show ?thesis using at by blast
  next
    case False
    then have l: "evaluate_loop t (conditions_to_evaluate ?e) [0 ..< length (mConditions ?e)] False ?e = Inr (one, e')"
      using r by simp
    have bounds: "\<forall>j \<in> set [0 ..< length (mConditions ?e)]. j < length (mConditions ?e) \<and> j < 256"
      using engine_inv_256 [OF assms(1)] unfolding e(1) by auto
    show ?thesis
    proof (cases "bit (conditions_to_evaluate ?e) i")
      case True
      then have "bit (mConditionsNotTriggeredWaitingPublished e) i"
        by (simp add: conditions_to_evaluate_def bit_simps e)
      moreover have "triggers_at t i ?e e' \<or> untriggered_at i ?e e'"
        by (rule evaluate_loop_at [OF l bounds]) (use True assms(3) e(1) in auto)
      ultimately show ?thesis using at by blast
    next
      case False
      then have "same_at i ?e e'" by (intro evaluate_loop_other [OF l bounds]) simp
      then have "untriggered_at i ?e e'" by (simp add: same_at_def untriggered_at_def)
      then show ?thesis using at by blast
    qed
  qed
qed

text \<open>
  C10. Evaluating one condition whose publish interval has passed: it becomes triggered exactly
  if its expression evaluates without an error to true and, when it triggers on rising edges
  only, it was not recorded as true; it is recorded as true exactly if the expression is.
\<close>

theorem evaluate_condition_fires:
  assumes "evaluate_condition t i e = Inr (one, e')" "i < length (mConditions e)" "i < 256"
    and "interval_passed t (mConditions e ! i)" "bit (mConditionsNotTriggeredWaitingPublished e) i"
    and "eval (mSignalBuffers e) (mConditions e ! i) (condition (mCondition (mConditions e ! i))) (mGeohashFunctionNode e)
           (Fin 0) False MAX_EQUATION_DEPTH = Inr (ret, v, b, g)"
  shows "(\<not> bit (mConditionsNotTriggeredWaitingPublished e') i \<longleftrightarrow> ret = SUCCESSFUL \<and> b \<and>
       \<not> (triggerOnlyOnRisingEdge (mCondition (mConditions e ! i)) \<and> bit (mConditionsWithConditionCurrentlyTrue e) i)) \<and>
     (bit (mConditionsWithConditionCurrentlyTrue e') i \<longleftrightarrow> ret = SUCCESSFUL \<and> b) \<and>
     (one \<longleftrightarrow> ret = SUCCESSFUL \<and> b) \<and> \<not> bit (mConditionsWithInputSignalChanged e') i"
proof (cases "ret = SUCCESSFUL \<and> b")
  case True
  then show ?thesis
    using assms by (cases "triggerOnlyOnRisingEdge (mCondition (mConditions e ! i)) \<and> bit (mConditionsWithConditionCurrentlyTrue e) i")
      (auto simp: evaluate_condition_def Let_def bit_bs_assign)
next
  case False
  then show ?thesis using assms by (auto simp: evaluate_condition_def Let_def bit_bs_assign)
qed

section \<open>Collecting\<close>

definition due :: "nat \<Rightarrow> ActiveCondition \<Rightarrow> bool" where
  "due t c \<longleftrightarrow> t \<ge> u64 (mLastTrigger c + afterDuration (mCondition c))"

definition remaining :: "nat \<Rightarrow> ActiveCondition \<Rightarrow> nat" where
  "remaining t c = u32 (sub64 (u64 (mLastTrigger c + afterDuration (mCondition c))) t)"

text \<open>Collecting data changes neither the bit sets of the conditions nor, but for bookkeeping, the conditions.\<close>

definition quiet :: "engine \<Rightarrow> engine \<Rightarrow> bool" where
  "quiet e e' \<longleftrightarrow> mConditions e' = mConditions e \<and>
     mConditionsNotTriggeredWaitingPublished e' = mConditionsNotTriggeredWaitingPublished e \<and>
     mSendDataOnlyOncePerCondition e' = mSendDataOnlyOncePerCondition e \<and>
     mActiveDTCs e' = mActiveDTCs e \<and> mActiveDTCsConsumed e' = mActiveDTCsConsumed e"

lemma collectLastSignals_quiet:
  "collectLastSignals s iv n c nt acc e = Inr (t, a, e') \<Longrightarrow> quiet e e'"
  by (auto simp: collectLastSignals_def Let_def quiet_def ub_bind_eq_Inr split: option.splits)

lemma collectLastCanFrames_quiet:
  "collectLastCanFrames f ch iv n c nt acc e = Inr (t, a, e') \<Longrightarrow> quiet e e'"
  by (auto simp: collectLastCanFrames_def Let_def quiet_def ub_bind_eq_Inr split: option.splits)

lemma quiet_trans: "quiet a b \<Longrightarrow> quiet b c \<Longrightarrow> quiet a c" by (simp add: quiet_def)

lemma quiet_refl [simp]: "quiet e e" by (simp add: quiet_def)

lemma pack_signals_quiet: "pack_signals c ss nt acc e = Inr (t, a, e') \<Longrightarrow> quiet e e'"
  by (induction ss arbitrary: nt acc e)
     (auto simp: ub_bind_eq_Inr split: if_splits dest!: collectLastSignals_quiet intro: quiet_trans)

lemma pack_frames_quiet: "pack_frames c fs nt acc e = Inr (t, a, e') \<Longrightarrow> quiet e e'"
  by (induction fs arbitrary: nt acc e)
     (auto simp: ub_bind_eq_Inr dest!: collectLastCanFrames_quiet intro: quiet_trans)

lemma collectData_result:
  assumes "collectData i nt e = Inr (t, d, e')"
  shows "triggerTime d = mLastTrigger (mConditions e ! i) \<and> trMetaData d = cndMetaData (mCondition (mConditions e ! i)) \<and>
     eventID d = mEventID (mConditions e ! i) \<and> mConditions e' = mConditions e \<and>
     mConditionsNotTriggeredWaitingPublished e' = mConditionsNotTriggeredWaitingPublished e \<and>
     (let withDtcs = includeActiveDtcs (mCondition (mConditions e ! i)) \<and>
            (\<not> bit (mActiveDTCsConsumed e) i \<or> mSendDataOnlyOncePerCondition e)
      in trDTCInfo d = (if withDtcs then mActiveDTCs e else default_DTCInfo) \<and>
         mActiveDTCsConsumed e' = (if withDtcs then setAlreadyConsumed i True (mActiveDTCsConsumed e) else mActiveDTCsConsumed e))"
proof -
  let ?c = "mConditions e ! i"
  obtain t1 s1 e1 where p: "pack_signals i (cndSignals (mCondition ?c)) nt [] e = Inr (t1, s1, e1)"
    using assms by (cases "pack_signals i (cndSignals (mCondition ?c)) nt [] e") (auto simp: collectData_def)
  obtain t2 f2 e2 where q: "pack_frames i (cndCanFrames (mCondition ?c)) t1 [] e1 = Inr (t2, f2, e2)"
    using assms by (cases "pack_frames i (cndCanFrames (mCondition ?c)) t1 [] e1") (auto simp: collectData_def p)
  have "quiet e e2" using pack_signals_quiet [OF p] pack_frames_quiet [OF q] by (rule quiet_trans)
  moreover have "triggerTime d = mLastTrigger ?c" "trMetaData d = cndMetaData (mCondition ?c)" "eventID d = mEventID ?c"
    "mConditions e' = mConditions e2" "mConditionsNotTriggeredWaitingPublished e' = mConditionsNotTriggeredWaitingPublished e2"
    "trDTCInfo d = (if includeActiveDtcs (mCondition ?c) \<and> (\<not> bit (mActiveDTCsConsumed e2) i \<or> mSendDataOnlyOncePerCondition e2)
       then mActiveDTCs e2 else default_DTCInfo)"
    "mActiveDTCsConsumed e' = (if includeActiveDtcs (mCondition ?c) \<and> (\<not> bit (mActiveDTCsConsumed e2) i \<or> mSendDataOnlyOncePerCondition e2)
       then setAlreadyConsumed i True (mActiveDTCsConsumed e2) else mActiveDTCsConsumed e2)"
    using assms by (auto simp: collectData_def Let_def p q split_beta)
  ultimately show ?thesis unfolding quiet_def Let_def by simp (auto split: if_splits)
qed

text \<open>
  With the engine set to send data only once per condition, a condition that includes trouble
  codes is given the active codes at every collection, consumed or not; with the engine set to
  send repeatedly it is given them only until it consumed them. The guard has the flag the wrong
  way round compared with the guards for signals and frames.
\<close>

theorem dtcs_guard_inverted:
  assumes "collectData i nt e = Inr (t, d, e')" "includeActiveDtcs (mCondition (mConditions e ! i))"
    and "bit (mActiveDTCsConsumed e) i"
  shows "trDTCInfo d = (if mSendDataOnlyOncePerCondition e then mActiveDTCs e else default_DTCInfo)"
  using collectData_result [OF assms(1)] assms(2,3) by (simp add: Let_def split: if_splits)

lemma send_condition_result:
  assumes "send_condition t i e = Inr (d, e')" "i < length (mConditions e)"
  shows "triggerTime d = mLastTrigger (mConditions e ! i) \<and> trMetaData d = cndMetaData (mCondition (mConditions e ! i)) \<and>
     mConditionsNotTriggeredWaitingPublished e' = mConditionsNotTriggeredWaitingPublished e \<and>
     length (mConditions e') = length (mConditions e) \<and>
     (\<forall>j. mLastTrigger (mConditions e' ! j) = mLastTrigger (mConditions e ! j)) \<and> eventID d = fst (generateEventID t e)"
proof -
  let ?id = "fst (generateEventID t e)" and ?e1 = "snd (generateEventID t e)"
  let ?e2 = "?e1\<lparr>mConditions := (mConditions ?e1)[i := (mConditions ?e1 ! i)\<lparr>mEventID := ?id\<rparr>]\<rparr>"
  define e3 where "e3 = evaluateAndTriggerRichSensorCapture (mConditions ?e2 ! i) ?e2"
  have e3: "mConditions e3 = (mConditions e)[i := (mConditions e ! i)\<lparr>mEventID := ?id\<rparr>]"
    "mConditionsNotTriggeredWaitingPublished e3 = mConditionsNotTriggeredWaitingPublished e"
    by (simp_all add: e3_def generateEventID_def evaluateAndTriggerRichSensorCapture_def Let_def)
  obtain nt e4 where c: "collectData i 0 e3 = Inr (nt, d, e4)"
    "e' = e4\<lparr>mConditions := (mConditions e4)[i := (mConditions e4 ! i)\<lparr>mLastDataTimestampPublished := min nt t\<rparr>]\<rparr>"
    using assms(1) by (auto simp: send_condition_def split_beta Let_def ub_bind_eq_Inr e3_def)
  have "mLastTrigger (mConditions e' ! j) = mLastTrigger (mConditions e ! j)" for j
    using collectData_result [OF c(1)] assms(2) c(2) by (cases "j = i") (simp_all add: e3)
  then show ?thesis using collectData_result [OF c(1)] assms(2) c(2) by (simp add: e3)
qed

text \<open>The conditions visited by \<open>n\<close> steps of the round robin that starts at \<open>i\<close>.\<close>

fun visited :: "nat \<Rightarrow> nat \<Rightarrow> nat \<Rightarrow> nat set" where
  "visited 0 i len = {}"
| "visited (Suc n) i len = insert i (visited n (ring_next len i) len)"

lemma visited_eq:
  "i < len \<Longrightarrow> n \<le> len \<Longrightarrow> visited n i len = {j. j < len \<and> (i \<le> j \<and> j < i + n \<or> j + len < i + n)}"
proof (induction n arbitrary: i)
  case (Suc n)
  let ?i = "ring_next len i"
  have "?i < len" using Suc.prems by (intro ring_next_less) simp
  then have "visited (Suc n) i len = insert i {j. j < len \<and> (?i \<le> j \<and> j < ?i + n \<or> j + len < ?i + n)}"
    using Suc.IH [of ?i] Suc.prems by simp
  also have "\<dots> = {j. j < len \<and> (i \<le> j \<and> j < i + Suc n \<or> j + len < i + Suc n)}"
  proof (rule set_eqI)
    fix j
    have "?i = i + 1 \<and> i + 1 < len \<or> ?i = 0 \<and> len = i + 1" using Suc.prems by (auto simp: ring_next_def)
    then show "j \<in> insert i {j. j < len \<and> (?i \<le> j \<and> j < ?i + n \<or> j + len < ?i + n)} \<longleftrightarrow>
        j \<in> {j. j < len \<and> (i \<le> j \<and> j < i + Suc n \<or> j + len < i + Suc n)}"
      using Suc.prems unfolding insert_iff mem_Collect_eq
      by (elim disjE conjE; simp only:; cases "j = i"; cases "i < j"; simp; linarith)
  qed
  finally show ?case .
qed auto

lemma visited_all: "i < len \<Longrightarrow> visited len i len = {0 ..< len}"
  by (auto simp: visited_eq)

definition start_index :: "engine \<Rightarrow> nat" where
  "start_index e = (if mNextConditionToCollectedIndex e \<ge> length (mConditions e) then 0 else mNextConditionToCollectedIndex e)"

lemma shallSendData_frame [frame_simps]:
  "mConditions (snd (shallSendData random p e)) = mConditions e"
  "mConditionsNotTriggeredWaitingPublished (snd (shallSendData random p e)) = mConditionsNotTriggeredWaitingPublished e"
  "mNextConditionToCollectedIndex (snd (shallSendData random p e)) = mNextConditionToCollectedIndex e"
  by (simp_all add: shallSendData_def)

text \<open>One step of the loop, with the early return and the three ways to go on.\<close>

lemma collect_next_Suc:
  assumes "0 < length (mConditions e)" "length (mConditions e) \<le> 256"
  defines "i \<equiv> start_index e"
  defines "c \<equiv> mConditions e ! i"
  shows "(\<exists>e1. \<not> bit (mConditionsNotTriggeredWaitingPublished e) i \<and> due t c \<and> mConditions e1 = mConditions e \<and>
       mConditionsNotTriggeredWaitingPublished e1 = bs_assign i True (mConditionsNotTriggeredWaitingPublished e) \<and>
       collect_next_loop (Suc n) random t w e = ub_bind (send_condition t i e1) (\<lambda>(cd, e). Inr (Some cd, w, e))) \<or>
     (\<exists>e1 w1. mConditions e1 = mConditions e \<and> start_index e1 = ring_next (length (mConditions e)) i \<and>
       (mConditionsNotTriggeredWaitingPublished e1 = mConditionsNotTriggeredWaitingPublished e \<or>
        mConditionsNotTriggeredWaitingPublished e1 = bs_assign i True (mConditionsNotTriggeredWaitingPublished e)) \<and>
       w1 \<le> w \<and> (\<not> bit (mConditionsNotTriggeredWaitingPublished e1) i \<longrightarrow> \<not> due t c \<and> w1 \<le> remaining t c) \<and>
       collect_next_loop (Suc n) random t w e = collect_next_loop n random t w1 e1)"
proof -
  have i: "i < length (mConditions e)" using assms(1) by (simp add: i_def start_index_def)
  let ?e0 = "if mNextConditionToCollectedIndex e \<ge> length (mConditions e) then e\<lparr>mNextConditionToCollectedIndex := 0\<rparr> else e"
  let ?next = "\<lambda>e. e\<lparr>mNextConditionToCollectedIndex := u32 (mNextConditionToCollectedIndex e + 1)\<rparr>"
  let ?set = "?e0\<lparr>mConditionsNotTriggeredWaitingPublished := bs_assign i True (mConditionsNotTriggeredWaitingPublished ?e0)\<rparr>"
  have e0: "mConditions ?e0 = mConditions e" "mConditionsNotTriggeredWaitingPublished ?e0 = mConditionsNotTriggeredWaitingPublished e"
    "mNextConditionToCollectedIndex ?e0 = i" by (simp_all add: i_def start_index_def)
  have start: "start_index (?next f) = ring_next (length (mConditions e)) i"
    if "mConditions f = mConditions e" "mNextConditionToCollectedIndex f = i" for f
    using that i assms(2) by (auto simp: start_index_def ring_next_def u32_id)
  have eq: "collect_next_loop (Suc n) random t w e =
     (if \<not> bit (mConditionsNotTriggeredWaitingPublished e) i
      then if due t c
           then let (send, e1) = shallSendData random (probabilityToSend (mCondition c)) ?set
                in if send then ub_bind (send_condition t i e1) (\<lambda>(cd, e). Inr (Some cd, w, e))
                   else collect_next_loop n random t w (?next e1)
           else collect_next_loop n random t (min w (remaining t c)) (?next ?e0)
      else collect_next_loop n random t w (?next ?e0))"
    unfolding collect_next_loop.simps Let_def e0 by (simp add: due_def remaining_def c_def Let_def)
  show ?thesis
  proof (cases "bit (mConditionsNotTriggeredWaitingPublished e) i \<or> \<not> due t c")
    case True
    then show ?thesis unfolding eq
      by (intro disjI2 exI [of _ "?next ?e0"] exI [of _ "if bit (mConditionsNotTriggeredWaitingPublished e) i then w else min w (remaining t c)"])
         (use start [OF e0(1,3)] in auto)
  next
    case False
    let ?s = "shallSendData random (probabilityToSend (mCondition c)) ?set"
    have s: "mConditions (snd ?s) = mConditions e"
      "mConditionsNotTriggeredWaitingPublished (snd ?s) = bs_assign i True (mConditionsNotTriggeredWaitingPublished e)"
      "mNextConditionToCollectedIndex (snd ?s) = i" using e0 by (simp_all add: frame_simps)
    show ?thesis
    proof (cases "fst ?s")
      case True
      then show ?thesis using False s unfolding eq
        by (intro disjI1 exI [of _ "snd ?s"]) (simp add: split_beta)
    next
      case ns: False
      have "bit (bs_assign i True (mConditionsNotTriggeredWaitingPublished e)) i" using i assms(2) by (simp add: bit_bs_assign)
      then show ?thesis using False ns s start [OF s(1,3)] unfolding eq
        by (intro disjI2 exI [of _ "?next (snd ?s)"] exI [of _ w]) (simp add: split_beta)
    qed
  qed
qed

definition collected_from :: "nat \<Rightarrow> engine \<Rightarrow> engine \<Rightarrow> TriggeredCollectionSchemeData \<Rightarrow> nat \<Rightarrow> bool" where
  "collected_from t e e' d i \<longleftrightarrow> i < length (mConditions e) \<and>
     \<not> bit (mConditionsNotTriggeredWaitingPublished e) i \<and> bit (mConditionsNotTriggeredWaitingPublished e') i \<and>
     due t (mConditions e ! i) \<and> triggerTime d = mLastTrigger (mConditions e ! i) \<and>
     trMetaData d = cndMetaData (mCondition (mConditions e ! i))"

definition nothing_due :: "nat \<Rightarrow> nat set \<Rightarrow> nat \<Rightarrow> engine \<Rightarrow> bool" where
  "nothing_due t A w e \<longleftrightarrow> (\<forall>j \<in> A. \<not> bit (mConditionsNotTriggeredWaitingPublished e) j \<longrightarrow>
     \<not> due t (mConditions e ! j) \<and> w \<le> remaining t (mConditions e ! j))"

definition keeps_set :: "engine \<Rightarrow> engine \<Rightarrow> bool" where
  "keeps_set e e' \<longleftrightarrow> (\<forall>j. bit (mConditionsNotTriggeredWaitingPublished e) j \<longrightarrow> bit (mConditionsNotTriggeredWaitingPublished e') j)"

lemma collect_next_loop_result:
  "collect_next_loop n random t w e = Inr (r, w', e') \<Longrightarrow> 0 < length (mConditions e) \<Longrightarrow> length (mConditions e) \<le> 256 \<Longrightarrow>
   keeps_set e e' \<and>
   (case r of
      Some d \<Rightarrow> \<exists>i. collected_from t e e' d i
    | None \<Rightarrow> mConditions e' = mConditions e \<and> w' \<le> w \<and>
        nothing_due t (visited n (start_index e) (length (mConditions e))) w' e')"
proof (induction n arbitrary: w e)
  case 0
  then show ?case by (simp add: keeps_set_def nothing_due_def)
next
  case (Suc n)
  let ?i = "start_index e" and ?len = "length (mConditions e)"
  let ?c = "mConditions e ! ?i"
  have i: "?i < ?len" using Suc.prems(2) by (simp add: start_index_def)
  consider (send) e1 where "\<not> bit (mConditionsNotTriggeredWaitingPublished e) ?i" "due t ?c" "mConditions e1 = mConditions e"
      "mConditionsNotTriggeredWaitingPublished e1 = bs_assign ?i True (mConditionsNotTriggeredWaitingPublished e)"
      "collect_next_loop (Suc n) random t w e = ub_bind (send_condition t ?i e1) (\<lambda>(cd, e). Inr (Some cd, w, e))"
    | (go) e1 w1 where "mConditions e1 = mConditions e" "start_index e1 = ring_next ?len ?i"
      "mConditionsNotTriggeredWaitingPublished e1 = mConditionsNotTriggeredWaitingPublished e \<or>
        mConditionsNotTriggeredWaitingPublished e1 = bs_assign ?i True (mConditionsNotTriggeredWaitingPublished e)"
      "w1 \<le> w" "\<not> bit (mConditionsNotTriggeredWaitingPublished e1) ?i \<longrightarrow> \<not> due t ?c \<and> w1 \<le> remaining t ?c"
      "collect_next_loop (Suc n) random t w e = collect_next_loop n random t w1 e1"
    using collect_next_Suc [OF Suc.prems(2,3), where n = n and random = random and t = t and w = w]
    by - (elim disjE exE; elim conjE; rule that; assumption)
  then show ?case
  proof cases
    case send
    then obtain d where d: "send_condition t ?i e1 = Inr (d, e')" "r = Some d"
      using Suc.prems(1) by (auto simp: ub_bind_eq_Inr)
    have res: "triggerTime d = mLastTrigger ?c" "trMetaData d = cndMetaData (mCondition ?c)"
      "mConditionsNotTriggeredWaitingPublished e' = bs_assign ?i True (mConditionsNotTriggeredWaitingPublished e)"
      using send_condition_result [OF d(1)] i send(3,4) by simp_all
    have "keeps_set e e'" "bit (mConditionsNotTriggeredWaitingPublished e') ?i"
      using i Suc.prems(3) by (simp_all add: keeps_set_def res(3) bit_bs_assign)
    then show ?thesis using d(2) send(1,2) res i by (auto simp: collected_from_def)
  next
    case go
    have k1: "keeps_set e e1" using go(3) by (auto simp: keeps_set_def bit_bs_assign)
    have IH: "keeps_set e1 e' \<and> (case r of
      Some d \<Rightarrow> \<exists>i. collected_from t e1 e' d i
    | None \<Rightarrow> mConditions e' = mConditions e1 \<and> w' \<le> w1 \<and>
        nothing_due t (visited n (start_index e1) (length (mConditions e1))) w' e')"
      by (rule Suc.IH) (use Suc.prems go in simp_all)
    then have k: "keeps_set e e'" using k1 by (simp add: keeps_set_def)
    show ?thesis
    proof (cases r)
      case (Some d)
      then obtain j where "collected_from t e1 e' d j" using IH by auto
      then have "collected_from t e e' d j" using k1 go(1) by (auto simp: collected_from_def keeps_set_def)
      then show ?thesis using k Some by auto
    next
      case None
      have w': "w' \<le> w1" "mConditions e' = mConditions e" using IH None go(1) by simp_all
      have "nothing_due t (visited (Suc n) ?i ?len) w' e'"
        using IH None go w' by (auto simp: nothing_due_def keeps_set_def)
      then show ?thesis using k None w' go(4) by simp
    qed
  qed
qed

text \<open>The whole call.\<close>

lemma collect_next_data:
  assumes "engine_inv e" "collectNextDataToSend random t w e = Inr (r, w', e')" "0 < length (mConditions e)"
  shows "keeps_set e e' \<and>
   (case r of
      Some d \<Rightarrow> w' = w \<and> (\<exists>i. collected_from t e e' d i)
    | None \<Rightarrow> mConditions e' = mConditions e \<and> nothing_due t {0 ..< length (mConditions e)} w' e')"
proof (cases "bs_all (mConditionsNotTriggeredWaitingPublished e)")
  case True
  then have "bit (mConditionsNotTriggeredWaitingPublished e) j" if "j < length (mConditions e)" for j
    using engine_inv_256 [OF assms(1)] that by (auto simp: bs_all_iff)
  then show ?thesis using assms(2) True by (auto simp: collectNextDataToSend_def keeps_set_def nothing_due_def)
next
  case False
  obtain r1 w1 where l: "collect_next_loop (length (mConditions e)) random t (2 ^ 32 - 1) e = Inr (r1, w1, e')"
    "r = r1" "w' = (case r1 of Some d \<Rightarrow> w | None \<Rightarrow> w1)"
    using assms(2) False by (auto simp: collectNextDataToSend_def Let_def ub_bind_eq_Inr split: option.splits)
  have "start_index e < length (mConditions e)" using assms(3) by (simp add: start_index_def)
  then have v: "visited (length (mConditions e)) (start_index e) (length (mConditions e)) = {0 ..< length (mConditions e)}"
    by (rule visited_all)
  show ?thesis
    using collect_next_loop_result [OF l(1) assms(3) engine_inv_256 [OF assms(1)]] l(2,3) v
    by (auto split: option.splits)
qed

text \<open>
  C3. Asking for the next data to send. If data is returned, it belongs to a condition that was
  triggered and whose time after the trigger has passed, carries its trigger time and metadata,
  and the condition is no longer marked as triggered. If nothing is returned, no condition is left
  that is triggered and due (those dropped by the data reduction are no longer triggered), and
  the returned waiting time is at most the time left for each condition still triggered. No
  condition becomes triggered by the call.
\<close>

theorem collectNextDataToSend_result:
  assumes "engine_inv e" "collectNextDataToSend random t w e = Inr (r, w', e')" "0 < length (mConditions e)"
  shows "keeps_set e e' \<and>
   (case r of
      Some d \<Rightarrow> w' = w \<and> (\<exists>i. collected_from t e e' d i)
    | None \<Rightarrow> mConditions e' = mConditions e \<and> nothing_due t {0 ..< length (mConditions e)} w' e')"
  by (rule collect_next_data [OF assms])

section \<open>Event identifiers\<close>

text \<open>
  An event identifier is a positive 31-bit number made of the event counter in its low byte
  and 23 bits of the timestamp above it, so the identifiers of two events are equal only if both
  their counters (modulo 256) and their timestamps (modulo \<open>2 ^ 23\<close> ms) are.
\<close>

theorem generateEventID_fields:
  assumes "timestamp < 2 ^ 64"
  shows "fst (generateEventID timestamp e) = timestamp mod 2 ^ 23 * 256 + (eventCounter e + 1) mod 256 \<and>
     eventCounter (snd (generateEventID timestamp e)) = (eventCounter e + 1) mod 256"
proof -
  define c where "c = take_bit 8 (eventCounter e + 1)"
  have u: "u8 n = take_bit 8 n" "u32 n = take_bit 32 n" "u64 n = take_bit 64 n" for n
    by (simp_all add: u8_def u32_def u64_def take_bit_eq_mod)
  have m: "0xFF = (mask 8 :: nat)" "0x7FFFFFFF = (mask 31 :: nat)" by (simp_all add: mask_eq_exp_minus_1)
  have "u32 ((c AND 0xFF) OR u64 (push_bit 8 timestamp)) AND 0x7FFFFFFF = c OR push_bit 8 (take_bit 23 timestamp)"
    unfolding u m by (rule bit_eqI) (auto simp: c_def bit_simps)
  also have "\<dots> = c + push_bit 8 (take_bit 23 timestamp)"
    by (rule disjunctive_add_eq_or [symmetric], rule bit_eqI) (auto simp: c_def bit_simps)
  also have "\<dots> = timestamp mod 2 ^ 23 * 256 + (eventCounter e + 1) mod 256"
    by (simp add: c_def take_bit_eq_mod push_bit_eq_mult)
  finally show ?thesis
    by (simp add: generateEventID_def Let_def u(1) c_def take_bit_eq_mod)
qed

section \<open>Concrete instances\<close>

definition sample_engine :: engine where
  "sample_engine = onChangeInspectionMatrix sample_matrix (init_engine True)"

lemma sample_engine_inv: "engine_inv sample_engine"
  unfolding sample_engine_def by (rule reachable_inv [OF sample_reachable])

lemma sample_engine_conditions: "length (mConditions sample_engine) = 1"
  by (simp add: sample_engine_def sample_matrix_def onChangeInspectionMatrix_def engine_clear_def init_engine_def
      preAllocateBuffers_def split_beta Let_def sample_condition_def MAX_NUMBER_OF_ACTIVE_CONDITION_def
      MAX_DIFFERENT_SIGNAL_IDS_def)

definition dtc_engine :: engine where
  "dtc_engine = (init_engine True)\<lparr>mConditions := [active_condition (sample_condition\<lparr>includeActiveDtcs := True, cndSignals := []\<rparr>)],
     mConditionsNotTriggeredWaitingPublished := - 2, mActiveDTCsConsumed := 1\<rparr>"

theorem evaluateConditions_triggers_witness:
  "\<exists>one e'. evaluateConditions 20 sample_engine = Inr (one, e') \<and>
     (bit (mConditionsNotTriggeredWaitingPublished sample_engine) 0 \<longrightarrow> triggers_at 20 0 sample_engine e' \<or> untriggered_at 0 sample_engine e')"
proof -
  obtain one e' where "evaluateConditions 20 sample_engine = Inr (one, e')"
    using evaluateConditions_keeps [OF sample_engine_inv, of 20] by (auto simp: keeps_def)
  then show ?thesis
    using evaluateConditions_triggers [OF sample_engine_inv, of 20 one e' 0] by (auto simp: sample_engine_conditions)
qed


definition firing_engine :: engine where
  "firing_engine = (init_engine True)\<lparr>mSignalBuffers := sample_buffers, mConditions := [sample_active],
     mConditionsNotTriggeredWaitingPublished := - 1\<rparr>"

lemma firing_eval:
  "eval (mSignalBuffers firing_engine) (mConditions firing_engine ! 0) (condition (mCondition (mConditions firing_engine ! 0)))
     (mGeohashFunctionNode firing_engine) (Fin 0) False MAX_EQUATION_DEPTH =
   Inr (SUCCESSFUL, Fin 0, True, mGeohashFunctionNode firing_engine)"
proof -
  let ?x = "op_node OPERATOR_BIGGER (signal_node 7) (num_node (Fin 2))"
  have "bool_sem sample_buffers sample_active ?x = Some True"
    by (simp add: op_node_def signal_node_def num_node_def sample_signal_value lift2_def)
  from eval_bool [OF this, of "mGeohashFunctionNode (init_engine True)" "Fin 0" False MAX_EQUATION_DEPTH]
  have "eval sample_buffers sample_active (Some ?x) (mGeohashFunctionNode (init_engine True)) (Fin 0) False MAX_EQUATION_DEPTH =
      Inr (SUCCESSFUL, Fin 0, True, mGeohashFunctionNode (init_engine True))"
    by (simp add: op_node_def signal_node_def num_node_def MAX_EQUATION_DEPTH_def)
  moreover have "condition (mCondition sample_active) = Some ?x"
    by (simp add: sample_active_def active_condition_def sample_condition_def)
  ultimately show ?thesis by (simp add: firing_engine_def)
qed

theorem evaluate_condition_fires_witness:
  "\<exists>one e'. evaluate_condition 20 0 firing_engine = Inr (one, e') \<and> \<not> bit (mConditionsNotTriggeredWaitingPublished e') 0"
proof -
  obtain one e' where c: "evaluate_condition 20 0 firing_engine = Inr (one, e')"
    using firing_eval by (cases "evaluate_condition 20 0 firing_engine") (auto simp: evaluate_condition_def Let_def split: if_splits)
  have "interval_passed 20 (mConditions firing_engine ! 0)" "0 < length (mConditions firing_engine)"
    "bit (mConditionsNotTriggeredWaitingPublished firing_engine) 0"
    "\<not> triggerOnlyOnRisingEdge (mCondition (mConditions firing_engine ! 0))"
    by (simp_all add: firing_engine_def interval_passed_def sample_active_def active_condition_def sample_condition_def u64_def)
  then show ?thesis using c evaluate_condition_fires [OF c _ _ _ _ firing_eval] by auto
qed

theorem dtcs_guard_inverted_witness:
  "\<exists>t d e'. collectData 0 0 dtc_engine = Inr (t, d, e') \<and> trDTCInfo d = mActiveDTCs dtc_engine"
proof -
  obtain t d e' where c: "collectData 0 0 dtc_engine = Inr (t, d, e')"
    by (simp add: collectData_def dtc_engine_def active_condition_def sample_condition_def split_beta Let_def)
  have "includeActiveDtcs (mCondition (mConditions dtc_engine ! 0))" "bit (mActiveDTCsConsumed dtc_engine) 0"
    "mSendDataOnlyOncePerCondition dtc_engine"
    by (simp_all add: dtc_engine_def active_condition_def init_engine_def)
  then show ?thesis using c dtcs_guard_inverted [OF c] by auto
qed

theorem collectNextDataToSend_result_witness:
  "\<exists>r w e'. collectNextDataToSend (\<lambda>_. Fin 0) 30 0 (sample_engine\<lparr>mConditionsNotTriggeredWaitingPublished := - 2\<rparr>) = Inr (r, w, e') \<and>
     keeps_set (sample_engine\<lparr>mConditionsNotTriggeredWaitingPublished := - 2\<rparr>) e'"
proof -
  let ?e = "sample_engine\<lparr>mConditionsNotTriggeredWaitingPublished := - 2\<rparr>"
  have inv: "engine_inv ?e" using sample_engine_inv by (simp add: engine_inv_def)
  obtain r w e' where c: "collectNextDataToSend (\<lambda>_. Fin 0) 30 0 ?e = Inr (r, w, e')"
    using collectNextDataToSend_keeps [OF inv, of "\<lambda>_. Fin 0" 30 0] by (auto simp: keeps_def)
  then show ?thesis using collectNextDataToSend_result [OF inv c] sample_engine_conditions by auto
qed

theorem generateEventID_fields_witness:
  "fst (generateEventID 1600000000000 (init_engine True)) = 1600000000000 mod 2 ^ 23 * 256 + 1"
  using generateEventID_fields [of 1600000000000 "init_engine True"] by (simp add: init_engine_def)

end
