(* ===== verification/InspectionWorker.thy ===== *)
theory InspectionWorker
  imports EngineBehaviour
begin

text \<open>
  The thread that drives the inspection engine (\<open>CollectionInspectionWorkerThread.cpp\<close>): one
  iteration of its loop takes over a new inspection matrix, moves one signal, one frame and one
  set of trouble codes from the input queues into the engine, evaluates the conditions and pushes
  all data that is due to the output queue. What the queues return and accept, the clock and the
  stop flag are inputs of the model; the clock is read several times in one iteration.
\<close>

section \<open>The engine as a service\<close>

text \<open>
  What the thread relies on: an invariant that evaluation and collection keep and that makes them
  defined, and a number of triggered conditions that each collection with a result decreases.
\<close>

locale inspection_service =
  fixes inv :: "'e \<Rightarrow> bool"
    and evaluate :: "nat \<Rightarrow> 'e \<Rightarrow> (bool \<times> 'e) ub_result"
    and collect :: "nat \<Rightarrow> nat \<Rightarrow> 'e \<Rightarrow> ('d option \<times> nat \<times> 'e) ub_result"
    and triggered :: "'e \<Rightarrow> nat"
  assumes evaluate_defined: "inv e \<Longrightarrow> \<exists>one e'. evaluate t e = Inr (one, e') \<and> inv e'"
    and collect_defined: "inv e \<Longrightarrow> \<exists>d w' e'. collect t w e = Inr (d, w', e') \<and> inv e'"
    and collect_some: "inv e \<Longrightarrow> collect t w e = Inr (Some d, w', e') \<Longrightarrow> triggered e' < triggered e"
begin

lemma evaluate_inv: "inv e \<Longrightarrow> evaluate t e = Inr (one, e') \<Longrightarrow> inv e'"
  using evaluate_defined [of e t] by auto

lemma collect_inv: "inv e \<Longrightarrow> collect t w e = Inr (d, w', e') \<Longrightarrow> inv e'"
  using collect_defined [of e t w] by auto

text \<open>Only as many collections in a row have a result as conditions were triggered.\<close>

lemma collections_bounded:
  "inv e \<Longrightarrow> successively (\<lambda>a b. \<exists>t w d w'. collect t w a = Inr (Some d, w', b)) (e # es) \<Longrightarrow> length es \<le> triggered e"
proof (induction es arbitrary: e)
  case (Cons b es)
  obtain t w d w' where c: "collect t w e = Inr (Some d, w', b)" using Cons.prems(2) by auto
  have "length es \<le> triggered b" using Cons.IH [OF collect_inv [OF Cons.prems(1) c]] Cons.prems(2) by simp
  then show ?case using collect_some [OF Cons.prems(1) c] by simp
qed simp

end

definition triggered_conditions :: "engine \<Rightarrow> nat" where
  "triggered_conditions e = card {i. i < length (mConditions e) \<and> \<not> bit (mConditionsNotTriggeredWaitingPublished e) i}"

lemma collect_decreases:
  assumes "engine_inv e" "collectNextDataToSend random t w e = Inr (Some d, w', e')"
  shows "triggered_conditions e' < triggered_conditions e"
proof -
  have ev: "engine_evolves e e'" using collectNextDataToSend_keeps [OF assms(1), of random t w] assms(2) by (simp add: keeps_def)
  then have len: "length (mConditions e') = length (mConditions e)" by (rule evolves_length)
  have ne: "0 < length (mConditions e)"
    using assms(2) by (cases "mConditions e") (auto simp: collectNextDataToSend_def Let_def split: if_splits)
  obtain i where k: "keeps_set e e'" "collected_from t e e' d i"
    using collect_next_data [OF assms ne] by auto
  show ?thesis unfolding triggered_conditions_def
    by (rule psubset_card_mono) (use k len in \<open>auto simp: keeps_set_def collected_from_def\<close>)
qed

interpretation ins: inspection_service engine_inv evaluateConditions "collectNextDataToSend random" triggered_conditions
  for random
proof
  fix e :: engine and t w :: nat and d w' e'
  assume inv: "engine_inv e"
  show "\<exists>one e'. evaluateConditions t e = Inr (one, e') \<and> engine_inv e'"
    using evaluateConditions_keeps [OF inv, of t] engine_evolves_inv [OF inv] by (auto simp: keeps_def)
  show "\<exists>d w' e'. collectNextDataToSend random t w e = Inr (d, w', e') \<and> engine_inv e'"
    using collectNextDataToSend_keeps [OF inv, of random t w] engine_evolves_inv [OF inv] by (auto simp: keeps_def)
  show "collectNextDataToSend random t w e = Inr (Some d, w', e') \<Longrightarrow> triggered_conditions e' < triggered_conditions e"
    by (rule collect_decreases [OF inv])
qed

section \<open>State\<close>

text \<open>
  The flag of a queue is false while its pointer is null. The local variables of \<open>doWork\<close> are
  part of the state; the counters of readings and pushes position the thread in its inputs.
\<close>

record worker =
  wEngine :: engine
  fInputSignalBuffer :: bool
  fInputCANBuffer :: bool
  fInputActiveDTCBuffer :: bool
  fOutputCollectedData :: bool
  fUpdatedInspectionMatrix :: "InspectionMatrix option"
  fUpdatedInspectionMatrixAvailable :: bool
  fIdleTimeMs :: nat
  lastInputTimeEvaluated :: nat
  lastTimeEvaluated :: nat
  inputCounterSinceLastEvaluate :: nat
  wClockReads :: nat
  wStopReads :: nat
  wPushes :: nat
  published :: "TriggeredCollectionSchemeData list"

record environment =
  envClock :: "nat \<Rightarrow> nat"
  envStop :: "nat \<Rightarrow> bool"
  envAccept :: "nat \<Rightarrow> bool"
  envRandom :: "nat \<Rightarrow> double"

record worker_input =
  inSignal :: "CollectedSignal option"
  inFrame :: "CollectedCanRawFrame option"
  inDTCs :: "DTCInfo option"

datatype worker_action = WaitWithPredicate | Wait nat | Continue | OutOfFuel

definition EVALUATE_INTERVAL_MS :: nat where "EVALUATE_INTERVAL_MS = 1"
definition DEFAULT_THREAD_IDLE_TIME_MS :: nat where "DEFAULT_THREAD_IDLE_TIME_MS = 1000"

definition new_worker :: worker where
  "new_worker =
     \<lparr>wEngine = init_engine True, fInputSignalBuffer = False, fInputCANBuffer = False, fInputActiveDTCBuffer = False,
      fOutputCollectedData = False, fUpdatedInspectionMatrix = None, fUpdatedInspectionMatrixAvailable = False,
      fIdleTimeMs = DEFAULT_THREAD_IDLE_TIME_MS, lastInputTimeEvaluated = 0, lastTimeEvaluated = 0,
      inputCounterSinceLastEvaluate = 0, wClockReads = 0, wStopReads = 0, wPushes = 0, published = []\<rparr>"

definition worker_init :: "bool \<Rightarrow> bool \<Rightarrow> bool \<Rightarrow> bool \<Rightarrow> nat \<Rightarrow> bool \<Rightarrow> worker \<Rightarrow> worker" where
  "worker_init signalBuffer canBuffer dtcBuffer output idleTimeMs dataReductionProbabilityDisabled w =
     w\<lparr>fInputSignalBuffer := signalBuffer, fInputCANBuffer := canBuffer, fInputActiveDTCBuffer := dtcBuffer,
       fOutputCollectedData := output, fIdleTimeMs := (if idleTimeMs \<noteq> 0 then idleTimeMs else fIdleTimeMs w),
       wEngine := setDataReductionParameters dataReductionProbabilityDisabled (wEngine w)\<rparr>"

text \<open>The check of \<open>start\<close> as it is written: the first pointer is tested twice.\<close>

definition can_start :: "worker \<Rightarrow> bool" where
  "can_start w \<longleftrightarrow> \<not> (\<not> fInputCANBuffer w \<or> \<not> fInputCANBuffer w \<or> \<not> fInputActiveDTCBuffer w \<or> \<not> fOutputCollectedData w)"

definition worker_onChangeInspectionMatrix :: "InspectionMatrix option \<Rightarrow> worker \<Rightarrow> worker" where
  "worker_onChangeInspectionMatrix activeConditions w =
     w\<lparr>fUpdatedInspectionMatrix := activeConditions, fUpdatedInspectionMatrixAvailable := True\<rparr>"

section \<open>One iteration\<close>

definition take_matrix :: "worker \<Rightarrow> worker ub_result" where
  "take_matrix w =
     (if fUpdatedInspectionMatrixAvailable w
      then case fUpdatedInspectionMatrix w of
             None \<Rightarrow> Inl NullPointer
           | Some M \<Rightarrow> Inr (w\<lparr>fUpdatedInspectionMatrixAvailable := False, wEngine := onChangeInspectionMatrix M (wEngine w)\<rparr>)
      else Inr w)"

definition consume_signal :: "worker_input \<Rightarrow> bool \<times> nat \<times> worker \<Rightarrow> (bool \<times> nat \<times> worker) ub_result" where
  "consume_signal inp = (\<lambda>(readyToSleep, latestSignalTime, w).
     if \<not> fInputSignalBuffer w then Inl NullPointer
     else case inSignal inp of
            None \<Rightarrow> Inr (readyToSleep, latestSignalTime, w)
          | Some s \<Rightarrow> Inr (False, max latestSignalTime (csReceiveTime s),
              w\<lparr>wEngine := addNewSignal (csSignalID s) (csReceiveTime s) (csValue s) (wEngine w),
                inputCounterSinceLastEvaluate := u64 (inputCounterSinceLastEvaluate w + 1)\<rparr>))"

definition consume_frame :: "worker_input \<Rightarrow> bool \<times> nat \<times> worker \<Rightarrow> (bool \<times> nat \<times> worker) ub_result" where
  "consume_frame inp = (\<lambda>(readyToSleep, latestSignalTime, w).
     if \<not> fInputCANBuffer w then Inl NullPointer
     else case inFrame inp of
            None \<Rightarrow> Inr (readyToSleep, latestSignalTime, w)
          | Some f \<Rightarrow> ub_bind (addNewRawCanFrame (cfFrameID f) (cfChannelID f) (cfReceiveTime f) (cfData f) (cfSize f) (wEngine w)) (\<lambda>e.
              Inr (False, max latestSignalTime (cfReceiveTime f),
                w\<lparr>wEngine := e, inputCounterSinceLastEvaluate := u64 (inputCounterSinceLastEvaluate w + 1)\<rparr>)))"

definition consume_dtcs :: "worker_input \<Rightarrow> bool \<times> nat \<times> worker \<Rightarrow> (bool \<times> nat \<times> worker) ub_result" where
  "consume_dtcs inp = (\<lambda>(readyToSleep, latestSignalTime, w).
     if \<not> fInputActiveDTCBuffer w then Inl NullPointer
     else case inDTCs inp of
            None \<Rightarrow> Inr (readyToSleep, latestSignalTime, w)
          | Some d \<Rightarrow> Inr (readyToSleep, latestSignalTime, w\<lparr>wEngine := setActiveDTCs d (wEngine w)\<rparr>))"

text \<open>A reading of the clock.\<close>

definition now :: "environment \<Rightarrow> worker \<Rightarrow> nat \<times> worker" where
  "now env w = (envClock env (wClockReads w), w\<lparr>wClockReads := wClockReads w + 1\<rparr>)"

definition evaluate_now :: "environment \<Rightarrow> nat \<Rightarrow> worker \<Rightarrow> worker ub_result" where
  "evaluate_now env latestSignalTime w =
     (let (t, w) = now env w in
      ub_bind (evaluateConditions t (wEngine w)) (\<lambda>(one, e).
        Inr (w\<lparr>wEngine := e, lastInputTimeEvaluated := latestSignalTime, lastTimeEvaluated := t, inputCounterSinceLastEvaluate := 0\<rparr>)))"

definition evaluate_on_input :: "environment \<Rightarrow> nat \<Rightarrow> worker \<Rightarrow> worker ub_result" where
  "evaluate_on_input env latestSignalTime w =
     (if sub64 latestSignalTime (lastInputTimeEvaluated w) \<ge> EVALUATE_INTERVAL_MS \<or> inputCounterSinceLastEvaluate w \<ge> 256
      then evaluate_now env latestSignalTime w else Inr w)"

definition evaluate_before_sleep :: "environment \<Rightarrow> bool \<Rightarrow> nat \<Rightarrow> worker \<Rightarrow> worker ub_result" where
  "evaluate_before_sleep env readyToSleep latestSignalTime w =
     (if readyToSleep
      then let (t, w) = now env w in
           if sub64 t (lastTimeEvaluated w) \<ge> EVALUATE_INTERVAL_MS then evaluate_now env latestSignalTime w else Inr w
      else Inr w)"

definition push_data :: "environment \<Rightarrow> TriggeredCollectionSchemeData \<Rightarrow> worker \<Rightarrow> worker" where
  "push_data env d w =
     w\<lparr>wPushes := wPushes w + 1, published := published w @ (if envAccept env (wPushes w) then [d] else [])\<rparr>"

definition collect_now ::
  "environment \<Rightarrow> nat \<Rightarrow> worker \<Rightarrow> (TriggeredCollectionSchemeData option \<times> nat \<times> worker) ub_result" where
  "collect_now env waitTimeMs w =
     (let (t, w) = now env w in
      ub_bind (collectNextDataToSend (envRandom env) t waitTimeMs (wEngine w)) (\<lambda>(d, wait, e). Inr (d, wait, w\<lparr>wEngine := e\<rparr>)))"

text \<open>The loop that publishes; the first result is false if the fuel did not suffice.\<close>

fun publish_loop ::
  "nat \<Rightarrow> environment \<Rightarrow> TriggeredCollectionSchemeData option \<Rightarrow> nat \<Rightarrow> worker \<Rightarrow> (bool \<times> nat \<times> worker) ub_result" where
  "publish_loop fuel env None waitTimeMs w = Inr (True, waitTimeMs, w)"
| "publish_loop 0 env (Some d) waitTimeMs w = Inr (False, waitTimeMs, w)"
| "publish_loop (Suc fuel) env (Some d) waitTimeMs w =
     (let stop = envStop env (wStopReads w); w = w\<lparr>wStopReads := wStopReads w + 1\<rparr> in
      if stop then Inr (True, waitTimeMs, w)
      else ub_bind (collect_now env waitTimeMs (push_data env d w)) (\<lambda>(d, waitTimeMs, w). publish_loop fuel env d waitTimeMs w))"

definition worker_step :: "environment \<Rightarrow> worker_input \<Rightarrow> worker \<Rightarrow> (worker_action \<times> worker) ub_result" where
  "worker_step env inp w =
     ub_bind (take_matrix w) (\<lambda>w.
       if fUpdatedInspectionMatrix w = None then Inr (WaitWithPredicate, w)
       else ub_bind (consume_signal inp (True, 0, w)) (\<lambda>r.
            ub_bind (consume_frame inp r) (\<lambda>r.
            ub_bind (consume_dtcs inp r) (\<lambda>(readyToSleep, latestSignalTime, w).
            ub_bind (evaluate_on_input env latestSignalTime w) (\<lambda>w.
            ub_bind (evaluate_before_sleep env readyToSleep latestSignalTime w) (\<lambda>w.
            ub_bind (collect_now env (fIdleTimeMs w) w) (\<lambda>(d, waitTimeMs, w).
            ub_bind (publish_loop MAX_NUMBER_OF_ACTIVE_CONDITION env d waitTimeMs w) (\<lambda>(finished, waitTimeMs, w).
              Inr (if \<not> finished then OutOfFuel
                   else if readyToSleep then Wait (min waitTimeMs (fIdleTimeMs w)) else Continue, w)))))))))"

section \<open>The invariant of the thread\<close>

definition worker_inv :: "worker \<Rightarrow> bool" where
  "worker_inv w \<longleftrightarrow> engine_inv (wEngine w) \<and> fInputSignalBuffer w \<and> fInputCANBuffer w \<and> fInputActiveDTCBuffer w \<and>
     (fUpdatedInspectionMatrixAvailable w \<longrightarrow> fUpdatedInspectionMatrix w \<noteq> None) \<and>
     (\<forall>M. fUpdatedInspectionMatrix w = Some M \<longrightarrow> matrix_ok M)"

definition input_ok :: "worker_input \<Rightarrow> bool" where
  "input_ok inp \<longleftrightarrow> (case inFrame inp of None \<Rightarrow> True | Some f \<Rightarrow> frame_fits (cfReceiveTime f, cfData f, cfSize f))"

text \<open>A stage is defined and keeps the invariant.\<close>

definition stage_ok :: "('a \<Rightarrow> worker) \<Rightarrow> 'a ub_result \<Rightarrow> bool" where
  "stage_ok get r \<longleftrightarrow> (\<exists>x. r = Inr x \<and> worker_inv (get x))"

named_theorems stages "stages of an iteration that keep the invariant"

lemma stage_ok_Inr [simp]: "stage_ok get (Inr x) = worker_inv (get x)"
  by (simp add: stage_ok_def)

lemma stage_ok_bind: "stage_ok get r \<Longrightarrow> (\<And>x. r = Inr x \<Longrightarrow> worker_inv (get x) \<Longrightarrow> stage_ok get' (f x)) \<Longrightarrow> stage_ok get' (ub_bind r f)"
  by (auto simp: stage_ok_def)

lemma worker_inv_engine [simp]:
  "worker_inv w \<Longrightarrow> worker_inv (w\<lparr>wEngine := e\<rparr>) = engine_inv e"
  "worker_inv w \<Longrightarrow> engine_inv (wEngine w)"
  by (auto simp: worker_inv_def)

lemma worker_inv_other [simp]:
  "worker_inv (w\<lparr>wClockReads := n\<rparr>) = worker_inv w" "worker_inv (w\<lparr>wStopReads := n\<rparr>) = worker_inv w"
  "worker_inv (w\<lparr>inputCounterSinceLastEvaluate := n\<rparr>) = worker_inv w" "worker_inv (w\<lparr>lastTimeEvaluated := n\<rparr>) = worker_inv w"
  "worker_inv (w\<lparr>lastInputTimeEvaluated := n\<rparr>) = worker_inv w" "worker_inv (push_data env d w) = worker_inv w"
  by (simp_all add: worker_inv_def push_data_def)

lemma take_matrix_ok [stages]: "worker_inv w \<Longrightarrow> stage_ok (\<lambda>w. w) (take_matrix w)"
  by (auto simp: take_matrix_def worker_inv_def split: option.splits intro: onChangeInspectionMatrix_inv)

lemma addNewSignal_inv: "engine_inv e \<Longrightarrow> engine_inv (addNewSignal s t v e)"
  by (rule engine_evolves_inv [OF _ addNewSignal_evolves])

lemma consume_signal_ok [stages]: "worker_inv (snd (snd r)) \<Longrightarrow> stage_ok (\<lambda>r. snd (snd r)) (consume_signal inp r)"
  by (cases r) (auto simp: consume_signal_def worker_inv_def addNewSignal_inv split: option.split)

lemma consume_frame_ok [stages]:
  assumes "worker_inv (snd (snd r))" "input_ok inp"
  shows "stage_ok (\<lambda>r. snd (snd r)) (consume_frame inp r)"
proof -
  obtain ready latest w where r: "r = (ready, latest, w)" by (cases r)
  show ?thesis
  proof (cases "inFrame inp")
    case None
    then show ?thesis using assms r by (auto simp: consume_frame_def worker_inv_def)
  next
    case (Some f)
    have "\<exists>e'. addNewRawCanFrame (cfFrameID f) (cfChannelID f) (cfReceiveTime f) (cfData f) (cfSize f) (wEngine w) = Inr e' \<and> engine_inv e'"
      using run_op_inv [of "wEngine w" "NewFrame (cfFrameID f) (cfChannelID f) (cfReceiveTime f) (cfData f) (cfSize f)" "\<lambda>_. Fin 0"]
        assms r Some by (simp add: run_op_def op_ok_def input_ok_def)
    then show ?thesis using assms r Some by (auto simp: consume_frame_def worker_inv_def)
  qed
qed

lemma consume_dtcs_ok [stages]:
  assumes "worker_inv (snd (snd r))" shows "stage_ok (\<lambda>r. snd (snd r)) (consume_dtcs inp r)"
proof -
  have "engine_inv (setActiveDTCs d e)" if "engine_inv e" for d e
    using run_op_inv [OF that, of "ActiveDTCs d" "\<lambda>_. Fin 0"] by (simp add: run_op_def op_ok_def)
  then show ?thesis using assms by (cases r) (auto simp: consume_dtcs_def worker_inv_def split: option.split)
qed

lemma now_inv [simp]: "worker_inv (snd (now env w)) = worker_inv w" "wEngine (snd (now env w)) = wEngine w"
  by (simp_all add: now_def)

lemma evaluate_now_ok [stages]: "worker_inv w \<Longrightarrow> stage_ok (\<lambda>w. w) (evaluate_now env latest w)"
  using ins.evaluate_defined [of "wEngine w" "envClock env (wClockReads w)"]
  by (auto simp: evaluate_now_def now_def)

lemma evaluate_on_input_ok [stages]: "worker_inv w \<Longrightarrow> stage_ok (\<lambda>w. w) (evaluate_on_input env latest w)"
  by (simp add: evaluate_on_input_def evaluate_now_ok)

lemma evaluate_before_sleep_ok [stages]: "worker_inv w \<Longrightarrow> stage_ok (\<lambda>w. w) (evaluate_before_sleep env ready latest w)"
  by (simp add: evaluate_before_sleep_def now_def evaluate_now_ok)

lemma collect_now_ok [stages]: "worker_inv w \<Longrightarrow> stage_ok (\<lambda>r. snd (snd r)) (collect_now env wait w)"
  using ins.collect_defined [of "wEngine w" "envRandom env" "envClock env (wClockReads w)" wait]
  by (auto simp: collect_now_def now_def)

section \<open>Publishing ends\<close>

definition collect_time :: "environment \<Rightarrow> worker \<Rightarrow> nat" where
  "collect_time env w = envClock env (wClockReads w - 1)"

text \<open>What a collection without a result leaves.\<close>

definition drained :: "environment \<Rightarrow> nat \<Rightarrow> worker \<Rightarrow> bool" where
  "drained env wait w \<longleftrightarrow> nothing_due (collect_time env w) {0 ..< length (mConditions (wEngine w))} wait (wEngine w)"

lemma collect_now_Inr:
  assumes "worker_inv w" "collect_now env wait w = Inr (d, wait', w')"
  shows "worker_inv w'" "d \<noteq> None \<Longrightarrow> triggered_conditions (wEngine w') < triggered_conditions (wEngine w)"
    "d = None \<Longrightarrow> drained env wait' w'"
proof -
  obtain e' where c: "collectNextDataToSend (envRandom env) (envClock env (wClockReads w)) wait (wEngine w) = Inr (d, wait', e')"
    "w' = w\<lparr>wClockReads := wClockReads w + 1, wEngine := e'\<rparr>"
    using assms(2) by (auto simp: collect_now_def now_def ub_bind_eq_Inr)
  have inv: "engine_inv (wEngine w)" using assms(1) by simp
  show "worker_inv w'" using c assms(1) ins.collect_inv [OF inv c(1)] by simp
  show "d \<noteq> None \<Longrightarrow> triggered_conditions (wEngine w') < triggered_conditions (wEngine w)"
    using c ins.collect_some [OF inv] by auto
  assume d: "d = None"
  show "drained env wait' w'"
  proof (cases "0 < length (mConditions (wEngine w))")
    case True
    then show ?thesis using collect_next_data [OF inv c(1) True] d c(2)
      by (auto simp: drained_def collect_time_def nothing_due_def)
  next
    case False
    have "engine_evolves (wEngine w) e'" using collectNextDataToSend_keeps [OF inv, of "envRandom env" "envClock env (wClockReads w)" wait] c(1) by (simp add: keeps_def)
    from evolves_length [OF this] show ?thesis using False c(2) by (simp add: drained_def nothing_due_def)
  qed
qed

text \<open>With more fuel than conditions are triggered the loop ends, stopped or with nothing due.\<close>

lemma publish_loop_ends:
  "worker_inv w \<Longrightarrow> triggered_conditions (wEngine w) < n \<or> d = None \<and> drained env wait w \<Longrightarrow>
   \<exists>wait' w'. publish_loop n env d wait w = Inr (True, wait', w') \<and> worker_inv w' \<and>
     (d = None \<longrightarrow> wait' = wait \<and> w' = w) \<and> ((\<forall>k. \<not> envStop env k) \<longrightarrow> d \<noteq> None \<longrightarrow> drained env wait' w')"
proof (induction n arbitrary: d wait w)
  case 0
  then show ?case by auto
next
  case (Suc n)
  show ?case
  proof (cases d)
    case None
    then show ?thesis using Suc.prems by simp
  next
    case (Some x)
    let ?w = "w\<lparr>wStopReads := wStopReads w + 1\<rparr>"
    let ?p = "push_data env x ?w"
    show ?thesis
    proof (cases "envStop env (wStopReads w)")
      case True
      then show ?thesis using Some Suc.prems by auto
    next
      case False
      have p: "worker_inv ?p" "wEngine ?p = wEngine w" using Suc.prems(1) by simp (simp add: push_data_def)
      obtain d1 wait1 w1 where c: "collect_now env wait ?p = Inr (d1, wait1, w1)"
        using collect_now_ok [OF p(1), of env wait] by (auto simp: stage_ok_def)
      note cn = collect_now_Inr [OF p(1) c]
      have pre: "triggered_conditions (wEngine w1) < n \<or> d1 = None \<and> drained env wait1 w1"
        using cn(2,3) p(2) Suc.prems(2) Some by (cases d1) auto
      from Suc.IH [OF cn(1) pre] obtain wait' w' where r: "publish_loop n env d1 wait1 w1 = Inr (True, wait', w')" "worker_inv w'"
        "d1 = None \<longrightarrow> wait' = wait1 \<and> w' = w1" "(\<forall>k. \<not> envStop env k) \<longrightarrow> d1 \<noteq> None \<longrightarrow> drained env wait' w'"
        by - (elim exE conjE, rule that, assumption+)
      have "drained env wait' w'" if "\<forall>k. \<not> envStop env k" using r(3,4) cn(3) that by (cases d1) auto
      then show ?thesis using Some False c r(1,2) by simp
    qed
  qed
qed

lemma triggered_le: "engine_inv e \<Longrightarrow> triggered_conditions e \<le> MAX_NUMBER_OF_ACTIVE_CONDITION"
  using card_mono [of "{0 ..< length (mConditions e)}" "{i. i < length (mConditions e) \<and> \<not> bit (mConditionsNotTriggeredWaitingPublished e) i}"]
  by (fastforce simp: triggered_conditions_def engine_inv_def)

lemma collect_and_publish:
  assumes "worker_inv w" "collect_now env wait w = Inr (d, wait1, w1)"
  shows "\<exists>wait' w'. publish_loop MAX_NUMBER_OF_ACTIVE_CONDITION env d wait1 w1 = Inr (True, wait', w') \<and> worker_inv w' \<and>
     ((\<forall>k. \<not> envStop env k) \<longrightarrow> drained env wait' w')"
proof -
  note cn = collect_now_Inr [OF assms]
  have "triggered_conditions (wEngine w1) < MAX_NUMBER_OF_ACTIVE_CONDITION \<or> d = None \<and> drained env wait1 w1"
    using cn(2,3) triggered_le [of "wEngine w"] assms(1) by (cases d) auto
  from publish_loop_ends [OF cn(1) this] show ?thesis using cn(3) by (cases d) auto
qed

definition step_result :: "environment \<Rightarrow> worker_action \<Rightarrow> worker \<Rightarrow> bool" where
  "step_result env act w \<longleftrightarrow> worker_inv w \<and> act \<noteq> OutOfFuel \<and>
     ((\<forall>k. \<not> envStop env k) \<longrightarrow>
      (case act of Wait ms \<Rightarrow> drained env ms w | Continue \<Rightarrow> \<exists>wait. drained env wait w | _ \<Rightarrow> True))"

lemma drained_less: "drained env wait w \<Longrightarrow> ms \<le> wait \<Longrightarrow> drained env ms w"
  by (auto simp: drained_def nothing_due_def)

lemma worker_step_result:
  assumes "worker_inv w" "input_ok inp"
  shows "\<exists>act w'. worker_step env inp w = Inr (act, w') \<and> step_result env act w'"
proof -
  obtain w1 where w1: "take_matrix w = Inr w1" "worker_inv w1"
    using take_matrix_ok [OF assms(1)] by (auto simp: stage_ok_def)
  show ?thesis
  proof (cases "fUpdatedInspectionMatrix w1 = None")
    case True
    then show ?thesis using w1 by (simp add: worker_step_def step_result_def)
  next
    case False
    obtain r2 where r2: "consume_signal inp (True, 0, w1) = Inr r2" "worker_inv (snd (snd r2))"
      using consume_signal_ok [of "(True, 0, w1)" inp] w1(2) by (auto simp: stage_ok_def)
    obtain r3 where r3: "consume_frame inp r2 = Inr r3" "worker_inv (snd (snd r3))"
      using consume_frame_ok [OF r2(2) assms(2)] by (auto simp: stage_ok_def)
    obtain ready latest w4 where w4: "consume_dtcs inp r3 = Inr (ready, latest, w4)" "worker_inv w4"
      using consume_dtcs_ok [OF r3(2), of inp] by (auto simp: stage_ok_def)
    obtain w5 where w5: "evaluate_on_input env latest w4 = Inr w5" "worker_inv w5"
      using evaluate_on_input_ok [OF w4(2), of env latest] by (auto simp: stage_ok_def)
    obtain w6 where w6: "evaluate_before_sleep env ready latest w5 = Inr w6" "worker_inv w6"
      using evaluate_before_sleep_ok [OF w5(2), of env ready latest] by (auto simp: stage_ok_def)
    obtain d wait7 w7 where w7: "collect_now env (fIdleTimeMs w6) w6 = Inr (d, wait7, w7)"
      using collect_now_ok [OF w6(2), of env "fIdleTimeMs w6"] by (auto simp: stage_ok_def)
    obtain wait8 w8 where w8: "publish_loop MAX_NUMBER_OF_ACTIVE_CONDITION env d wait7 w7 = Inr (True, wait8, w8)" "worker_inv w8"
      "(\<forall>k. \<not> envStop env k) \<longrightarrow> drained env wait8 w8"
      using collect_and_publish [OF w6(2) w7] by blast
    have "worker_step env inp w = Inr (if ready then Wait (min wait8 (fIdleTimeMs w8)) else Continue, w8)"
      using False by (simp add: worker_step_def w1(1) r2(1) r3(1) w4(1) w5(1) w6(1) w7 w8(1))
    then show ?thesis using w8(2,3) drained_less by (auto simp: step_result_def)
  qed
qed

section \<open>Properties\<close>

datatype worker_event = Handover InspectionMatrix | Iterate worker_input

inductive worker_reachable :: "environment \<Rightarrow> worker \<Rightarrow> bool" for env where
  started: "worker_reachable env (worker_init True True True out idleTimeMs disabled new_worker)"
| handover: "worker_reachable env w \<Longrightarrow> matrix_ok M \<Longrightarrow> worker_reachable env (worker_onChangeInspectionMatrix (Some M) w)"
| iteration: "worker_reachable env w \<Longrightarrow> input_ok inp \<Longrightarrow> worker_step env inp w = Inr (act, w') \<Longrightarrow> worker_reachable env w'"

lemma worker_reachable_inv: "worker_reachable env w \<Longrightarrow> worker_inv w"
proof (induction rule: worker_reachable.induct)
  case (started out idleTimeMs disabled)
  have "engine_inv (setDataReductionParameters disabled (init_engine True))"
    using run_op_inv [OF init_engine_inv, of "DataReduction disabled" "\<lambda>_. Fin 0" True] by (simp add: run_op_def op_ok_def)
  then show ?case by (simp add: worker_inv_def worker_init_def new_worker_def)
next
  case (handover w M)
  then show ?case by (simp add: worker_inv_def worker_onChangeInspectionMatrix_def)
next
  case (iteration w inp act w')
  then show ?case using worker_step_result [of w inp env] by (auto simp: step_result_def)
qed

text \<open>
  C4. The inspection thread runs on: started with all its input queues, after any sequence of
  matrices handed over and iterations on any input, the next iteration is defined, and its loop
  that publishes data ends within as many rounds as conditions can be active.
\<close>

theorem worker_runs:
  assumes "worker_reachable env w" "input_ok inp"
  shows "\<exists>act w'. worker_step env inp w = Inr (act, w') \<and> act \<noteq> OutOfFuel"
  using worker_step_result [OF worker_reachable_inv [OF assms(1)] assms(2), of env] by (auto simp: step_result_def)

text \<open>
  C5. An iteration that is not told to stop leaves no triggered condition whose data is due, at
  the time it looked last; if it goes to sleep, it sleeps no longer than until the data of the
  next triggered condition is due.
\<close>

theorem worker_leaves_nothing_due:
  assumes "worker_reachable env w" "input_ok inp" "worker_step env inp w = Inr (act, w')" "act \<noteq> WaitWithPredicate"
    and "\<forall>k. \<not> envStop env k" "j < length (mConditions (wEngine w'))"
    and "\<not> bit (mConditionsNotTriggeredWaitingPublished (wEngine w')) j"
  shows "\<not> due (collect_time env w') (mConditions (wEngine w') ! j) \<and>
     (\<forall>ms. act = Wait ms \<longrightarrow> ms \<le> remaining (collect_time env w') (mConditions (wEngine w') ! j))"
proof -
  have "step_result env act w'"
    using worker_step_result [OF worker_reachable_inv [OF assms(1)] assms(2), of env] assms(3) by auto
  then show ?thesis using assms(4-) by (cases act) (auto simp: step_result_def drained_def nothing_due_def)
qed

text \<open>
  The thread can be started without a queue for signals, since the check tests the queue for
  frames twice; the first iteration with a matrix then follows the null pointer.
\<close>

theorem start_without_signal_queue:
  "can_start (worker_init False True True True idleTimeMs disabled new_worker) \<and>
   worker_step env inp (worker_onChangeInspectionMatrix (Some M) (worker_init False True True True idleTimeMs disabled new_worker)) =
     Inl NullPointer"
  by (simp add: can_start_def worker_init_def worker_step_def worker_onChangeInspectionMatrix_def take_matrix_def
      consume_signal_def new_worker_def)

section \<open>Concrete instances\<close>

definition sample_env :: environment where
  "sample_env = \<lparr>envClock = (\<lambda>n. 1000 + n), envStop = (\<lambda>_. False), envAccept = (\<lambda>_. True), envRandom = (\<lambda>_. Fin 0)\<rparr>"

definition sample_input :: worker_input where
  "sample_input = \<lparr>inSignal = None, inFrame = None, inDTCs = None\<rparr>"

definition sample_worker :: worker where
  "sample_worker = worker_onChangeInspectionMatrix (Some sample_matrix) (worker_init True True True True 0 False new_worker)"

lemma sample_worker_reachable: "worker_reachable sample_env sample_worker"
  unfolding sample_worker_def
  by (intro worker_reachable.intros) (simp add: matrix_ok_def sample_matrix_def sample_condition_def)

theorem worker_runs_witness:
  "\<exists>act w'. worker_step sample_env sample_input sample_worker = Inr (act, w') \<and> act \<noteq> OutOfFuel"
  by (rule worker_runs [OF sample_worker_reachable]) (simp add: input_ok_def sample_input_def)

text \<open>A condition that is always true, whose data is collected for four seconds after the trigger.\<close>

definition timed_matrix :: InspectionMatrix where
  "timed_matrix = \<lparr>mtxConditions = [sample_condition\<lparr>condition := Some (ExpressionNode BOOLEAN None None (Fin 0) True 0 default_function),
     cndSignals := [], afterDuration := 4000\<rparr>]\<rparr>"

definition timed_worker :: worker where
  "timed_worker = worker_onChangeInspectionMatrix (Some timed_matrix) (worker_init True True True True 0 False new_worker)"

lemma timed_worker_reachable: "worker_reachable sample_env timed_worker"
  unfolding timed_worker_def
  by (intro worker_reachable.intros) (simp add: matrix_ok_def timed_matrix_def sample_condition_def)

lemma timed_step:
  "\<exists>w'. worker_step sample_env sample_input timed_worker = Inr (Wait 1000, w') \<and> length (mConditions (wEngine w')) = 1 \<and>
     \<not> bit (mConditionsNotTriggeredWaitingPublished (wEngine w')) 0"
proof -
  have true: "eval m c (Some (ExpressionNode BOOLEAN None None (Fin 0) True 0 default_function)) g d b MAX_EQUATION_DEPTH =
      Inr (SUCCESSFUL, d, True, g)" for m c g d b
    using eval.simps(3) [of m c _ g d b 9] by (simp add: MAX_EQUATION_DEPTH_def)
  show ?thesis
    by (simp add: worker_step_def timed_worker_def worker_onChangeInspectionMatrix_def worker_init_def new_worker_def
      take_matrix_def onChangeInspectionMatrix_def engine_clear_def init_engine_def timed_matrix_def sample_condition_def
      MAX_NUMBER_OF_ACTIVE_CONDITION_def MAX_DIFFERENT_SIGNAL_IDS_def preAllocateBuffers_def setDataReductionParameters_def
      consume_signal_def consume_frame_def consume_dtcs_def sample_input_def evaluate_on_input_def EVALUATE_INTERVAL_MS_def
      DEFAULT_THREAD_IDLE_TIME_MS_def sub64_def u64_def evaluate_before_sleep_def now_def evaluate_now_def sample_env_def Let_def active_condition_def
      evaluateConditions_def updateAllFixedWindowFunctions_def conditions_to_evaluate_def bs_none_def evaluate_condition_def
      interval_passed_def true bit_bs_assign collect_now_def collectNextDataToSend_def u32_def bs_all_iff)
qed

theorem worker_leaves_nothing_due_witness:
  "\<exists>w'. worker_step sample_env sample_input timed_worker = Inr (Wait 1000, w') \<and>
     \<not> due (collect_time sample_env w') (mConditions (wEngine w') ! 0) \<and>
     1000 \<le> remaining (collect_time sample_env w') (mConditions (wEngine w') ! 0)"
proof -
  obtain w' where w: "worker_step sample_env sample_input timed_worker = Inr (Wait 1000, w')"
    "length (mConditions (wEngine w')) = 1" "\<not> bit (mConditionsNotTriggeredWaitingPublished (wEngine w')) 0"
    using timed_step by blast
  have "input_ok sample_input" "\<forall>k. \<not> envStop sample_env k" by (simp_all add: input_ok_def sample_input_def sample_env_def)
  from worker_leaves_nothing_due [OF timed_worker_reachable this(1) w(1) _ this(2) _ w(3)] w show ?thesis by auto
qed

end
