(* ===== verification/BusPipeline.thy ===== *)
theory BusPipeline
  imports BinderBehaviour InspectionWorker
begin

text \<open>
  From the bus to the inspection queues: a batch of frames that the source reads, and the
  iterations of its consumer that take the messages over.
\<close>

text \<open>Several iterations of a consumer on the queue of its source.\<close>

fun drain :: "consumer_env \<Rightarrow> nat \<Rightarrow> spsc_queue \<times> can_consumer \<Rightarrow> (spsc_queue \<times> can_consumer) ub_result" where
  "drain env 0 st = Inr st"
| "drain env (Suc n) (q, c) = ub_bind (consumer_iteration env q c) (\<lambda>(a, q, c). drain env n (q, c))"

definition frames_worth :: "nat \<Rightarrow> CANDecoderDictionary \<Rightarrow> VehicleDataMessage \<Rightarrow> CollectedCanRawFrame list" where
  "frames_worth ch d m = (case frames_of ch d (u32 (vmID m)) of None \<Rightarrow> [] | Some x \<Rightarrow> frames_for ch x m)"

definition signals_worth :: "nat \<Rightarrow> CANDecoderDictionary \<Rightarrow> VehicleDataMessage \<Rightarrow> CollectedSignal list" where
  "signals_worth ch d m = (case frames_of ch d (u32 (vmID m)) of None \<Rightarrow> [] | Some x \<Rightarrow> signals_for d x m)"

text \<open>An awake consumer with a dictionary and both queues of the inspection.\<close>

definition working :: "CANDecoderDictionary \<Rightarrow> can_consumer \<Rightarrow> bool" where
  "working d c \<longleftrightarrow> \<not> conShouldSleep c \<and> conDictionary c = Some d \<and> conSignalBuffer c \<and> conCANBuffer c"

text \<open>What a queue takes of the elements it is offered, from its \<open>n\<close>th push on.\<close>

fun taken_from :: "(nat \<Rightarrow> bool) \<Rightarrow> nat \<Rightarrow> 'a list \<Rightarrow> 'a list" where
  "taken_from takes n [] = []"
| "taken_from takes n (x # xs) = (if takes n then [x] else []) @ taken_from takes (n + 1) xs"

lemma taken_from_append: "taken_from takes n (xs @ ys) = taken_from takes n xs @ taken_from takes (n + length xs) ys"
  by (induction xs arbitrary: n) simp_all

lemma taken_from_all: "(\<And>k. takes k) \<Longrightarrow> taken_from takes n xs = xs"
  by (induction xs arbitrary: n) simp_all

text \<open>A consumer that was offered frames and signals, the rest of it as it was.\<close>

definition fed :: "consumer_env \<Rightarrow> CANDecoderDictionary \<Rightarrow> CollectedCanRawFrame list \<Rightarrow> CollectedSignal list \<Rightarrow> can_consumer \<Rightarrow> can_consumer \<Rightarrow> bool" where
  "fed env d fs ss c c' \<longleftrightarrow> working d c' = working d c \<and> conChannel c' = conChannel c \<and>
     framesOut c' = framesOut c @ taken_from (takesFrame env) (framePushes c) fs \<and> framePushes c' = framePushes c + length fs \<and>
     signalsOut c' = signalsOut c @ taken_from (takesSignal env) (conSignalPushes c) ss \<and> conSignalPushes c' = conSignalPushes c + length ss"

lemma fed_none: "fed env d [] [] c c"
  by (simp add: fed_def)

lemma fed_trans: "fed env d fs ss c c' \<Longrightarrow> fed env d fs' ss' c' c'' \<Longrightarrow> fed env d (fs @ fs') (ss @ ss') c c''"
  by (simp add: fed_def taken_from_append)

lemma frames_pushed_fed: "fed env d fs [] c (frames_pushed env fs c)"
proof (induction fs arbitrary: c)
  case (Cons f fs)
  have "fed env d [f] [] c (push_frame env f c)" by (simp add: fed_def push_frame_def working_def)
  from fed_trans [OF this Cons.IH] show ?case by (simp add: frames_pushed_def)
qed (simp add: frames_pushed_def fed_none)

lemma signals_pushed_fed: "fed env d [] ss c (signals_pushed env ss c)"
proof (induction ss arbitrary: c)
  case (Cons s ss)
  have "fed env d [] [s] c (push_signal_out env s c)" by (simp add: fed_def push_signal_out_def working_def)
  from fed_trans [OF this Cons.IH] show ?case by (simp add: signals_pushed_def)
qed (simp add: signals_pushed_def fed_none)

lemma iteration_message:
  assumes "working d c" and "plain_dictionary d" and "qItems q = m # ms" and "length (vmRawData m) \<le> 8"
  shows "\<exists>c'. consumer_iteration env q c = Inr (ConsumerContinue, q\<lparr>qItems := ms\<rparr>, c') \<and>
     fed env d (frames_worth (conChannel c) d m) (signals_worth (conChannel c) d m) c c'"
proof -
  have c: "conDictionary c = Some d" "conSignalBuffer c" "conCANBuffer c" "\<not> conShouldSleep c" using assms(1) by (auto simp: working_def)
  have p: "\<not> mIsMultiplexed (methodFormat x)" if "frames_of (conChannel c) d (u32 (vmID m)) = Some x" for x
    using assms(2) that by (auto simp: plain_dictionary_def)
  have it: "consumer_iteration env q c = ub_bind (consume_message env m c) (\<lambda>c. Inr (ConsumerContinue, q\<lparr>qItems := ms\<rparr>, c))"
    using c(4) assms(3) by (simp add: consumer_iteration_def q_pop_def Let_def)
  have r: "consume_message env m c = Inr
    (case frames_of (conChannel c) d (u32 (vmID m)) of
       None \<Rightarrow> c
     | Some x \<Rightarrow> signals_pushed env (signals_for d x m) (frames_pushed env (frames_for (conChannel c) x m) c))"
    by (rule message_result [OF c(1-3) assms(4)]) (rule p)
  show ?thesis
  proof (cases "frames_of (conChannel c) d (u32 (vmID m))")
    case None
    then show ?thesis unfolding it r by (simp add: frames_worth_def signals_worth_def fed_none)
  next
    case (Some x)
    have "fed env d (frames_for (conChannel c) x m @ []) ([] @ signals_for d x m) c
        (signals_pushed env (signals_for d x m) (frames_pushed env (frames_for (conChannel c) x m) c))"
      by (rule fed_trans [OF frames_pushed_fed signals_pushed_fed])
    then show ?thesis using Some unfolding it r by (simp add: frames_worth_def signals_worth_def)
  qed
qed

lemma drain_messages:
  assumes "working d c" and "plain_dictionary d" and "\<forall>m \<in> set ms. length (vmRawData m) \<le> 8" and "qItems q = ms"
  shows "\<exists>c'. drain env (length ms) (q, c) = Inr (q\<lparr>qItems := []\<rparr>, c') \<and>
     fed env d (concat (map (frames_worth (conChannel c) d) ms)) (concat (map (signals_worth (conChannel c) d) ms)) c c'"
  using assms(1,3,4)
proof (induction ms arbitrary: q c)
  case Nil
  then have "q\<lparr>qItems := []\<rparr> = q" by (cases q) simp
  then show ?case by (simp add: fed_none)
next
  case (Cons m ms)
  have "length (vmRawData m) \<le> 8" using Cons.prems(2) by simp
  from iteration_message [OF Cons.prems(1) assms(2) Cons.prems(3) this] obtain c1 where
    c1: "consumer_iteration env q c = Inr (ConsumerContinue, q\<lparr>qItems := ms\<rparr>, c1)"
      "fed env d (frames_worth (conChannel c) d m) (signals_worth (conChannel c) d m) c c1" by blast
  have same: "working d c1" "conChannel c1 = conChannel c" using c1(2) Cons.prems(1) by (simp_all add: fed_def)
  obtain c' where c': "drain env (length ms) (q\<lparr>qItems := ms\<rparr>, c1) = Inr (q\<lparr>qItems := []\<rparr>, c')"
      "fed env d (concat (map (frames_worth (conChannel c) d) ms)) (concat (map (signals_worth (conChannel c) d) ms)) c1 c'"
    using Cons.IH [OF same(1), of "q\<lparr>qItems := ms\<rparr>"] Cons.prems(2) same(2) by auto
  show ?case using c1(1) c'(1) fed_trans [OF c1(2) c'(2)] by simp
qed

lemma worth_fits: "length (vmRawData m) \<le> 8 \<Longrightarrow> f \<in> set (frames_worth ch d m) \<Longrightarrow> frame_fits (cfReceiveTime f, cfData f, cfSize f)"
  by (auto simp: frames_worth_def frames_for_def frame_fits_def MAX_CAN_FRAME_BYTE_SIZE_def split: option.splits if_splits)

text \<open>
  C9. A batch of frames on its way to the inspection, with classic frames of at most eight bytes, a
  consumer that is awake with a dictionary and both queues, and no multiplexed format in the dictionary
  (none extracted from a manifest has one). Of the messages of the batch the queue of the source takes
  as many as it has room for, the first ones. The consumer takes over everything in the queue one by
  one without undefined behaviour and leaves it empty; the queues of the inspection are offered the raw
  frames and signals of the messages in order, and hold what they accept of them. Every raw frame
  offered is well-formed for the inspection engine.
\<close>

theorem bus_reaches_inspection:
  assumes "srcBuffer s = Some q" and "\<forall>m \<in> set (qItems q). length (vmRawData m) \<le> 8"
    and "\<forall>f \<in> set fs. kfDlc (snd f) \<le> 8 \<and> length (kfData (snd f)) = 8"
    and "working d c" and "plain_dictionary d"
  shows "\<exists>s' q' q'' c'. receive_batch fs s = Inr s' \<and> srcBuffer s' = Some q' \<and>
    qItems q' = qItems q @ take (qCapacity q - length (qItems q)) (batch_messages s fs) \<and>
    drain env (length (qItems q')) (q', c) = Inr (q'', c') \<and> qItems q'' = [] \<and>
    (let offered = concat (map (frames_worth (conChannel c) d) (qItems q')) in
      framesOut c' = framesOut c @ taken_from (takesFrame env) (framePushes c) offered \<and>
      (\<forall>f \<in> set offered. frame_fits (cfReceiveTime f, cfData f, cfSize f))) \<and>
    signalsOut c' = signalsOut c @ taken_from (takesSignal env) (conSignalPushes c) (concat (map (signals_worth (conChannel c) d) (qItems q')))"
proof -
  have dlc: "\<forall>f \<in> set fs. kfDlc (snd f) \<le> length (kfData (snd f))" using assms(3) by simp
  obtain s' where s': "receive_batch fs s = Inr s'" "srcBuffer s' = Some (snd (vq.push_all (batch_messages s fs) (0, q)))"
    using receive_batch_pushes [OF assms(1) dlc] by blast
  let ?q = "snd (vq.push_all (batch_messages s fs) (0, q))"
  have q: "qItems ?q = qItems q @ take (qCapacity q - length (qItems q)) (batch_messages s fs)"
    using vq.push_all_result [of "batch_messages s fs" 0 q] by simp
  have "\<forall>m \<in> set (batch_messages s fs). length (vmRawData m) \<le> 8"
    using assms(3) by (auto simp: batch_messages_def message_of_def)
  then have short: "\<forall>m \<in> set (qItems ?q). length (vmRawData m) \<le> 8"
    using assms(2) by (auto simp: q dest: in_set_takeD)
  obtain c' where c': "drain env (length (qItems ?q)) (?q, c) = Inr (?q\<lparr>qItems := []\<rparr>, c')"
      "fed env d (concat (map (frames_worth (conChannel c) d) (qItems ?q))) (concat (map (signals_worth (conChannel c) d) (qItems ?q))) c c'"
    using drain_messages [OF assms(4,5) short refl] by blast
  have fits: "\<forall>f \<in> set (concat (map (frames_worth (conChannel c) d) (qItems ?q))). frame_fits (cfReceiveTime f, cfData f, cfSize f)"
    using short worth_fits by fastforce
  show ?thesis unfolding Let_def
    by (intro exI [of _ s'] exI [of _ ?q] exI [of _ "?q\<lparr>qItems := []\<rparr>"] exI [of _ c'] conjI s' q c'(1) fits)
      (use c'(2) in \<open>simp_all add: fed_def\<close>)
qed

section \<open>Example\<close>

definition sample_working_consumer :: can_consumer where
  "sample_working_consumer = (bound_consumer 0 1 0)\<lparr>conShouldSleep := False, conDictionary := Some sample_frame_dictionary\<rparr>"

lemma sample_dictionary_plain: "plain_dictionary sample_frame_dictionary"
proof -
  have "frames_of ch new_dictionary g = None" for ch g by (simp add: frames_of_def new_dictionary_def)
  then show ?thesis by (auto simp: plain_dictionary_def sample_frame_dictionary_def default_message_format_def split: if_splits)
qed

text \<open>Two frames arrive, the queue of the source has room for one.\<close>

theorem bus_reaches_inspection_witness:
  "\<exists>s' q' q'' c'. receive_batch [sample_kernel_frame, sample_kernel_frame] sample_source = Inr s' \<and> srcBuffer s' = Some q' \<and>
     drain sample_consumer_env 1 (q', sample_working_consumer) = Inr (q'', c') \<and>
     framesOut c' = [\<lparr>cfFrameID = 0x123, cfChannelID = 0, cfReceiveTime = 3007, cfData = [1, 2, 0, 0, 0, 0, 0, 0], cfSize = 2\<rparr>]"
proof -
  let ?fs = "[sample_kernel_frame, sample_kernel_frame]"
  have s: "srcBuffer sample_source = Some (new_queue 1)" "\<forall>m \<in> set (qItems (new_queue 1)). length (vmRawData m) \<le> 8"
    by (simp_all add: sample_source_def new_queue_def)
  have f: "\<forall>f \<in> set ?fs. kfDlc (snd f) \<le> 8 \<and> length (kfData (snd f)) = 8"
    by (simp add: sample_kernel_frame_def)
  have w: "working sample_frame_dictionary sample_working_consumer" "conChannel sample_working_consumer = 0" "framesOut sample_working_consumer = []"
    by (simp_all add: sample_working_consumer_def working_def bound_consumer_def consumer_connect_def setInputBuffer_def
        setCANBufferPtr_def consumer_init_def new_consumer_def consumer_start_def Let_def)
  have t: "extractTimestamp KERNEL_SOFTWARE_TIMESTAMP 500 [\<lparr>cmTimestamping = True, cmSoftware = (3, 7000000), cmHardware = (0, 0)\<rparr>] = 3007"
    by (simp add: extractTimestamp_def stamp_ms_def u64_def)
  let ?m = "\<lparr>vmID = 0x123, vmRawData = [1, 2 :: byte], vmTimestamp = 3007\<rparr>"
  have m: "batch_messages sample_source ?fs = [?m, ?m]"
    by (simp add: batch_messages_def is_fresh_def message_of_def sample_kernel_frame_def sample_source_def new_source_def
        t MSB_MASK_def vm_isValid_def)
  have u: "u32 0x123 = 0x123" by (simp add: u32_def)
  have "replicate 6 (0::nat) = [0, 0, 0, 0, 0, 0]" by (simp add: numeral_eq_Suc)
  then have x: "concat (map (frames_worth 0 sample_frame_dictionary) [?m]) =
      [\<lparr>cfFrameID = 0x123, cfChannelID = 0, cfReceiveTime = 3007, cfData = [1, 2, 0, 0, 0, 0, 0, 0], cfSize = 2\<rparr>]"
    by (simp add: frames_worth_def frames_for_def sample_frame_dictionary_def u)
  have e: "taken_from (takesFrame sample_consumer_env) n xs = xs" for n and xs :: "CollectedCanRawFrame list"
    by (rule taken_from_all) (simp add: sample_consumer_env_def)
  have q: "qItems (new_queue 1) @ take (qCapacity (new_queue 1) - length (qItems (new_queue 1))) [?m, ?m] = [?m]"
    by (simp add: new_queue_def)
  obtain s' q' q'' c' where r: "receive_batch ?fs sample_source = Inr s'" "srcBuffer s' = Some q'" "qItems q' = [?m]"
      "drain sample_consumer_env (length (qItems q')) (q', sample_working_consumer) = Inr (q'', c')"
      "framesOut c' = framesOut sample_working_consumer @ concat (map (frames_worth 0 sample_frame_dictionary) (qItems q'))"
    using bus_reaches_inspection [OF s f w(1) sample_dictionary_plain, of sample_consumer_env, unfolded Let_def m q e w(2)]
    by (elim exE conjE)
  show ?thesis by (intro exI conjI) (rule r(1), rule r(2), use r(4) in \<open>simp add: r(3)\<close>, use r(5) in \<open>simp only: r(3) x w(3) append_Nil\<close>)
qed

end
