(* ===== verification/UploadWriter.thy ===== *)
theory UploadWriter
  imports MatrixExtractor
begin

text \<open>
  The messages collected data becomes: the protobuf message of one upload and its writer
  (\<open>DataCollectionProtoWriter.cpp\<close>, \<open>vehicle_data.proto\<close>), and the optional local file
  (\<open>DataCollectionJSONWriter.cpp\<close>). Protobuf and JSON encoding and compression are parameters.
\<close>

section \<open>Messages\<close>

record CapturedSignal =
  capRelativeTime :: int
  capSignalID :: nat
  capValue :: double

record CanFrameMessage =
  cfmRelativeTime :: int
  cfmMessageID :: nat
  cfmInterfaceID :: string
  cfmBytes :: "nat list"

record VehicleData =
  campaign_arn :: string
  decoder_arn :: string
  collection_event_id :: nat
  collection_event_time :: nat
  captured_signals :: "CapturedSignal list"
  can_frames :: "CanFrameMessage list"
  dtc_data :: "(int \<times> string list) option"
  geohash_data :: "(string \<times> string) option"

definition empty_message :: VehicleData where
  "empty_message = \<lparr>campaign_arn = [], decoder_arn = [], collection_event_id = 0, collection_event_time = 0,
     captured_signals = [], can_frames = [], dtc_data = None, geohash_data = None\<rparr>"

text \<open>
  The difference of two time stamps as signed 64-bit numbers. Times are milliseconds of a clock, so
  that it does not leave their range.
\<close>

definition s64 :: "nat \<Rightarrow> int" where
  "s64 n = (if n < 2 ^ 63 then int n else int n - 2 ^ 64)"

definition relative_time :: "nat \<Rightarrow> nat \<Rightarrow> int" where
  "relative_time receiveTime trigger = s64 receiveTime - s64 trigger"

section \<open>The protobuf writer\<close>

record proto_writer =
  pwTriggerTime :: nat
  mVehicleDataMsgCount :: nat
  mVehicleData :: VehicleData
  mIDTranslator :: CANInterfaceIDTranslator

definition new_proto_writer :: "CANInterfaceIDTranslator \<Rightarrow> proto_writer" where
  "new_proto_writer ids = \<lparr>pwTriggerTime = 0, mVehicleDataMsgCount = 0, mVehicleData = empty_message, mIDTranslator = ids\<rparr>"

definition setupVehicleData :: "TriggeredCollectionSchemeData \<Rightarrow> nat \<Rightarrow> proto_writer \<Rightarrow> proto_writer" where
  "setupVehicleData td collectionEventID w =
     w\<lparr>mVehicleDataMsgCount := 0, pwTriggerTime := triggerTime td,
       mVehicleData := empty_message\<lparr>campaign_arn := collectionSchemeID (trMetaData td), decoder_arn := decoderID (trMetaData td),
         collection_event_id := collectionEventID, collection_event_time := triggerTime td\<rparr>\<rparr>"

definition counted :: "proto_writer \<Rightarrow> proto_writer" where
  "counted w = w\<lparr>mVehicleDataMsgCount := u32 (mVehicleDataMsgCount w + 1)\<rparr>"

definition captured :: "nat \<Rightarrow> CollectedSignal \<Rightarrow> CapturedSignal" where
  "captured trigger s =
     \<lparr>capRelativeTime = relative_time (csReceiveTime s) trigger, capSignalID = csSignalID s, capValue = csValue s\<rparr>"

definition append_signal :: "CollectedSignal \<Rightarrow> proto_writer \<Rightarrow> proto_writer" where
  "append_signal s w =
     counted (w\<lparr>mVehicleData := (mVehicleData w)\<lparr>captured_signals := captured_signals (mVehicleData w) @ [captured (pwTriggerTime w) s]\<rparr>\<rparr>)"

text \<open>The bytes of a frame are read from an array of eight.\<close>

definition frame_message :: "CANInterfaceIDTranslator \<Rightarrow> nat \<Rightarrow> CollectedCanRawFrame \<Rightarrow> CanFrameMessage" where
  "frame_message ids trigger f =
     \<lparr>cfmRelativeTime = relative_time (cfReceiveTime f) trigger, cfmMessageID = cfFrameID f,
      cfmInterfaceID = getInterfaceID ids (cfChannelID f), cfmBytes = take (cfSize f) (cfData f)\<rparr>"

definition append_frame :: "CollectedCanRawFrame \<Rightarrow> proto_writer \<Rightarrow> proto_writer ub_result" where
  "append_frame f w =
     (if cfSize f \<le> length (cfData f)
      then Inr (counted (w\<lparr>mVehicleData := (mVehicleData w)\<lparr>can_frames := can_frames (mVehicleData w) @
             [frame_message (mIDTranslator w) (pwTriggerTime w) f]\<rparr>\<rparr>))
      else Inl OutOfBounds)"

text \<open>\<open>mutable_dtc_data\<close> creates the part of the message on its first use.\<close>

definition dtc_part :: "proto_writer \<Rightarrow> int \<times> string list" where
  "dtc_part w = (case dtc_data (mVehicleData w) of None \<Rightarrow> (0, []) | Some d \<Rightarrow> d)"

definition setupDTCInfo :: "DTCInfo \<Rightarrow> proto_writer \<Rightarrow> proto_writer" where
  "setupDTCInfo info w =
     w\<lparr>mVehicleData := (mVehicleData w)\<lparr>dtc_data := Some (relative_time (dtcReceiveTime info) (pwTriggerTime w), snd (dtc_part w))\<rparr>\<rparr>"

definition append_dtc :: "string \<Rightarrow> proto_writer \<Rightarrow> proto_writer" where
  "append_dtc dtc w =
     counted (w\<lparr>mVehicleData := (mVehicleData w)\<lparr>dtc_data := Some (fst (dtc_part w), snd (dtc_part w) @ [dtc])\<rparr>\<rparr>)"

definition append_geohash :: "GeohashInfo \<Rightarrow> proto_writer \<Rightarrow> proto_writer" where
  "append_geohash g w =
     counted (w\<lparr>mVehicleData := (mVehicleData w)\<lparr>geohash_data := Some (mGeohashString g, mPrevReportedGeohashString g)\<rparr>\<rparr>)"

section \<open>The local file\<close>

datatype json_entry =
    JsonSignal nat int double
  | JsonFrame nat nat int "nat list"
  | JsonGeohash string string

record json_event =
  jeCollectionSchemeARN :: string
  jeDecoderARN :: string
  jeEventID :: nat
  jeEventTime :: nat

record json_writer =
  jwEvent :: "json_event option"
  jwMessages :: "json_entry list"
  jwTriggerTime :: nat
  jwPersistencyPath :: string
  jwShouldCompress :: bool

definition new_json_writer :: "string \<Rightarrow> json_writer" where
  "new_json_writer path =
     \<lparr>jwEvent = None, jwMessages = [], jwTriggerTime = 0, jwPersistencyPath = path, jwShouldCompress = False\<rparr>"

definition setupEvent :: "TriggeredCollectionSchemeData \<Rightarrow> nat \<Rightarrow> json_writer \<Rightarrow> json_writer" where
  "setupEvent td collectionEventID w =
     w\<lparr>jwEvent := Some \<lparr>jeCollectionSchemeARN = collectionSchemeID (trMetaData td), jeDecoderARN = decoderID (trMetaData td),
         jeEventID = collectionEventID, jeEventTime = triggerTime td\<rparr>,
       jwMessages := [], jwTriggerTime := triggerTime td, jwShouldCompress := compress (trMetaData td)\<rparr>"

text \<open>The difference is taken without sign and then read as a signed number.\<close>

definition json_signal :: "CollectedSignal \<Rightarrow> json_writer \<Rightarrow> json_writer" where
  "json_signal s w = w\<lparr>jwMessages := jwMessages w @
     [JsonSignal (csSignalID s) (s64 (sub64 (csReceiveTime s) (jwTriggerTime w))) (csValue s)]\<rparr>"

definition json_frame :: "CollectedCanRawFrame \<Rightarrow> json_writer \<Rightarrow> json_writer ub_result" where
  "json_frame f w =
     (if cfSize f \<le> length (cfData f)
      then Inr (w\<lparr>jwMessages := jwMessages w @
             [JsonFrame (cfFrameID f) (cfChannelID f) (s64 (sub64 (cfReceiveTime f) (jwTriggerTime w))) (take (cfSize f) (cfData f))]\<rparr>)
      else Inl OutOfBounds)"

definition json_geohash :: "GeohashInfo \<Rightarrow> json_writer \<Rightarrow> json_writer" where
  "json_geohash g w = w\<lparr>jwMessages := jwMessages w @ [JsonGeohash (mGeohashString g) (mPrevReportedGeohashString g)]\<rparr>"

text \<open>\<open>std::to_string\<close> of an unsigned number.\<close>

function decimal :: "nat \<Rightarrow> string" where
  "decimal n = (if n < 10 then [char_of (48 + n)] else decimal (n div 10) @ [char_of (48 + n mod 10)])"
  by pat_completeness auto
termination by (relation "measure id") auto

declare decimal.simps [simp del]

text \<open>
  The file of an event: its name, its bytes and whether they are compressed. \<open>write_json\<close> writes the
  text; compression that gives no bytes is skipped.
\<close>

definition flushToFile ::
  "(json_event option \<Rightarrow> json_entry list \<Rightarrow> nat list) \<Rightarrow> (nat list \<Rightarrow> nat list) \<Rightarrow> nat \<Rightarrow> json_writer \<Rightarrow> string \<times> nat list \<times> bool" where
  "flushToFile write_json compressor time w =
     (let eventId = (case jwEvent w of None \<Rightarrow> ''NoEventID'' | Some e \<Rightarrow> decimal (jeEventID e));
          base = ''IoTFleetWise-Data-'' @ eventId @ ''-'' @ decimal time;
          data = write_json (jwEvent w) (jwMessages w);
          compressed = (if jwShouldCompress w then compressor data else []);
          didCompress = (jwShouldCompress w \<and> compressed \<noteq> [])
      in (jwPersistencyPath w @ ''/'' @ base @ (if didCompress then ''.snappy'' else ''.json''),
          if didCompress then compressed else data, didCompress))"

end
