(* ===== verification/CloudChannel.thy ===== *)
theory CloudChannel
  imports UploadSender
begin

text \<open>
  A topic of the MQTT connection (\<open>AwsIotChannel.cpp\<close>) and the memory accounting its sends are
  limited by (\<open>AwsSDKMemoryManager.cpp\<close>): publishing, storing what cannot be published, and
  subscribing. The MQTT library is an input: whether it is connected and when and how it calls
  back. The lemmas show what every sequence of these operations keeps.
\<close>

section \<open>Memory accounting\<close>

definition ALIGNMENT_OFFSET :: nat where "ALIGNMENT_OFFSET = 16"

text \<open>Blocks by the address of their header, which holds the size.\<close>

record memory_manager =
  mMemoryUsedAndReserved :: nat
  mmBlocks :: "(nat \<times> nat) list"

definition reserveMemory :: "nat \<Rightarrow> memory_manager \<Rightarrow> nat \<times> memory_manager" where
  "reserveMemory bytes m =
     (let n = u64 (mMemoryUsedAndReserved m + (bytes + ALIGNMENT_OFFSET)) in (n, m\<lparr>mMemoryUsedAndReserved := n\<rparr>))"

definition releaseReservedMemory :: "nat \<Rightarrow> memory_manager \<Rightarrow> nat \<times> memory_manager" where
  "releaseReservedMemory bytes m =
     (let n = sub64 (mMemoryUsedAndReserved m) (bytes + ALIGNMENT_OFFSET) in (n, m\<lparr>mMemoryUsedAndReserved := n\<rparr>))"

text \<open>\<open>malloc\<close> is an input: the address of the block, or none. The size of the block is written into it.\<close>

definition AllocateMemory :: "nat option \<Rightarrow> nat \<Rightarrow> memory_manager \<Rightarrow> (nat option \<times> memory_manager) ub_result" where
  "AllocateMemory malloc blockSize m =
     (let realSize = u64 (blockSize + ALIGNMENT_OFFSET) in
      case malloc of
        None \<Rightarrow> Inr (None, m)
      | Some pMem \<Rightarrow>
          if realSize < 8 then Inl OutOfBounds
          else Inr (Some (pMem + ALIGNMENT_OFFSET),
                    m\<lparr>mMemoryUsedAndReserved := u64 (mMemoryUsedAndReserved m + realSize), mmBlocks := (pMem, realSize) # mmBlocks m\<rparr>))"

definition FreeMemory :: "nat option \<Rightarrow> memory_manager \<Rightarrow> memory_manager ub_result" where
  "FreeMemory memoryPtr m =
     (case memoryPtr of
        None \<Rightarrow> Inr m
      | Some p \<Rightarrow>
          if p < ALIGNMENT_OFFSET then Inl DanglingPointer
          else case map_of (mmBlocks m) (p - ALIGNMENT_OFFSET) of
            None \<Rightarrow> Inl DanglingPointer
          | Some realSize \<Rightarrow>
              Inr (m\<lparr>mMemoryUsedAndReserved := sub64 (mMemoryUsedAndReserved m) realSize,
                     mmBlocks := assoc_del (p - ALIGNMENT_OFFSET) (mmBlocks m)\<rparr>))"

section \<open>State\<close>

text \<open>What the channels share: the connection, the memory manager, the disk and what was handed to the MQTT library.\<close>

record cloud =
  cwAlive :: bool
  cwMemory :: memory_manager
  cwDisk :: CacheAndPersist
  cwPublished :: "(string \<times> nat list) list"
  cwInFlight :: "nat list"

record cloud_env =
  ceFS :: FileSystem
  ceCompress :: "nat list \<Rightarrow> nat list"
  ceUncompress :: "nat list \<Rightarrow> nat list option"
  ceJunk :: "nat \<Rightarrow> nat"

record aws_channel =
  acTopicName :: string
  acMaximumHeap :: nat
  acModule :: bool
  acPayloadManager :: bool
  acSubscribed :: bool
  acSubscribeAsynchronously :: bool

definition AWS_IOT_MAX_MESSAGE_SIZE :: nat where "AWS_IOT_MAX_MESSAGE_SIZE = 131072"
definition MAXIMUM_IOT_SDK_HEAP_MEMORY_BYTES :: nat where "MAXIMUM_IOT_SDK_HEAP_MEMORY_BYTES = 10000000"

definition new_channel :: "bool \<Rightarrow> nat \<Rightarrow> aws_channel" where
  "new_channel payloadManager maximumHeap =
     \<lparr>acTopicName = [], acMaximumHeap = maximumHeap, acModule = True, acPayloadManager = payloadManager,
      acSubscribed = False, acSubscribeAsynchronously = False\<rparr>"

text \<open>An empty topic is logged and set all the same.\<close>

definition setTopic :: "string \<Rightarrow> bool \<Rightarrow> aws_channel \<Rightarrow> aws_channel" where
  "setTopic topic async ch = ch\<lparr>acSubscribeAsynchronously := async, acTopicName := topic\<rparr>"

definition isTopicValid :: "aws_channel \<Rightarrow> bool" where
  "isTopicValid ch \<longleftrightarrow> acTopicName ch \<noteq> []"

definition invalidateConnection :: "aws_channel \<Rightarrow> aws_channel" where
  "invalidateConnection ch = ch\<lparr>acModule := False\<rparr>"

definition channel_isAlive :: "aws_channel \<Rightarrow> cloud \<Rightarrow> bool" where
  "channel_isAlive ch w \<longleftrightarrow> acModule ch \<and> cwAlive w"

section \<open>Sending\<close>

definition store_unsent :: "cloud_env \<Rightarrow> aws_channel \<Rightarrow> nat list \<Rightarrow> CollectionSchemeParams \<Rightarrow> cloud \<Rightarrow> cloud" where
  "store_unsent env ch buf params w =
     (if acPayloadManager ch then w\<lparr>cwDisk := snd (storeData (ceFS env) (ceCompress env) buf params (cwDisk w))\<rparr> else w)"

text \<open>The buffer is a pointer, \<open>None\<close> when null.\<close>

definition channel_send ::
  "cloud_env \<Rightarrow> aws_channel \<Rightarrow> nat list option \<Rightarrow> CollectionSchemeParams \<Rightarrow> cloud \<Rightarrow> ConnectivityError \<times> cloud" where
  "channel_send env ch bufPtr params w =
     (if \<not> isTopicValid ch then (NotConfigured, w)
      else case bufPtr of
        None \<Rightarrow> (WrongInputData, w)
      | Some buf \<Rightarrow>
          if length buf = 0 then (WrongInputData, w)
          else if length buf > AWS_IOT_MAX_MESSAGE_SIZE then (WrongInputData, w)
          else if \<not> channel_isAlive ch w then (NoConnection, store_unsent env ch buf params w)
          else let (currentMemoryUsage, m) = reserveMemory (length buf) (cwMemory w) in
            if acMaximumHeap ch \<noteq> 0 \<and> currentMemoryUsage > acMaximumHeap ch
            then let m = snd (releaseReservedMemory (length buf) m)
                 in (QuotaReached, store_unsent env ch buf params (w\<lparr>cwMemory := m\<rparr>))
            else (Success, w\<lparr>cwMemory := m, cwPublished := cwPublished w @ [(acTopicName ch, buf)],
                             cwInFlight := cwInFlight w @ [length buf]\<rparr>))"

text \<open>The callback of the library for the publication at position \<open>i\<close> of those outstanding.\<close>

definition remove_at :: "nat \<Rightarrow> 'a list \<Rightarrow> 'a list" where
  "remove_at i xs = take i xs @ drop (Suc i) xs"

definition onPublishComplete :: "aws_channel \<Rightarrow> nat \<Rightarrow> cloud \<Rightarrow> cloud" where
  "onPublishComplete ch i w =
     (let w' = w\<lparr>cwInFlight := remove_at i (cwInFlight w)\<rparr> in
      if acModule ch then w'\<lparr>cwMemory := snd (releaseReservedMemory (cwInFlight w ! i) (cwMemory w))\<rparr> else w')"

section \<open>Subscribing\<close>

text \<open>A call that returns, or one that waits for a promise nobody keeps.\<close>

datatype 'a call = Returns 'a | Blocked

record sub_ack =
  ackErrorCode :: int
  ackPacketId :: nat
  ackQosFailure :: bool

text \<open>What the callback does: whether the promise is kept, and the state of the subscription.\<close>

definition onSubAck :: "sub_ack \<Rightarrow> aws_channel \<Rightarrow> bool \<times> aws_channel" where
  "onSubAck a ch =
     (let ch = ch\<lparr>acSubscribed := False\<rparr> in
      if ackErrorCode a \<noteq> 0 then (False, ch)
      else if ackPacketId a = 0 \<or> ackQosFailure a then (True, ch)
      else (True, ch\<lparr>acSubscribed := True\<rparr>))"

definition channel_subscribe :: "sub_ack \<Rightarrow> bool \<Rightarrow> aws_channel \<Rightarrow> (ConnectivityError \<times> aws_channel) call" where
  "channel_subscribe a alive ch =
     (if \<not> isTopicValid ch then Returns (NotConfigured, ch)
      else if \<not> (acModule ch \<and> alive) then Returns (NoConnection, ch)
      else let (kept, ch) = onSubAck a ch in
        if \<not> kept then Blocked
        else Returns (if acSubscribed ch then Success else NoConnection, ch))"

text \<open>The callback of the library always keeps the promise of an unsubscription.\<close>

definition channel_unsubscribe :: "bool \<Rightarrow> aws_channel \<Rightarrow> bool" where
  "channel_unsubscribe alive ch \<longleftrightarrow> acSubscribed ch \<and> acModule ch \<and> alive"

text \<open>
  After the connection is established (\<open>AwsIotConnectivityModule::onFinished\<close>), the channels that
  ask for it are subscribed one after the other; \<open>acks\<close> are the answers of the broker.
\<close>

fun subscribe_channels :: "sub_ack list \<Rightarrow> bool \<Rightarrow> aws_channel list \<Rightarrow> aws_channel list call" where
  "subscribe_channels acks alive [] = Returns []"
| "subscribe_channels acks alive (ch # chs) =
     (if acSubscribeAsynchronously ch
      then case channel_subscribe (hd acks) alive ch of
             Blocked \<Rightarrow> Blocked
           | Returns (_, ch) \<Rightarrow>
               (case subscribe_channels (tl acks) alive chs of Blocked \<Rightarrow> Blocked | Returns chs \<Rightarrow> Returns (ch # chs))
      else case subscribe_channels acks alive chs of Blocked \<Rightarrow> Blocked | Returns chs \<Rightarrow> Returns (ch # chs))"

section \<open>What the channels keep\<close>

text \<open>Reserved and allocated memory.\<close>

definition reserved :: "nat list \<Rightarrow> nat" where
  "reserved sizes = (\<Sum>n \<leftarrow> sizes. n + ALIGNMENT_OFFSET)"

definition allocated :: "(nat \<times> nat) list \<Rightarrow> nat" where
  "allocated blocks = (\<Sum>p \<leftarrow> blocks. snd p)"

text \<open>
  The steps of everything that shares the connection: any channel of a program sends, the library
  calls back, allocates and frees, and the connection comes and goes. The limit is that of all
  channels. Allocations stay far from the end of the address space.
\<close>

inductive cloud_step :: "cloud_env \<Rightarrow> nat \<Rightarrow> cloud \<Rightarrow> cloud \<Rightarrow> bool" for env limit where
  Send: "acMaximumHeap ch = limit \<Longrightarrow> channel_send env ch bufPtr params w = (res, w') \<Longrightarrow> cloud_step env limit w w'"
| Complete: "acModule ch \<Longrightarrow> i < length (cwInFlight w) \<Longrightarrow> cloud_step env limit w (onPublishComplete ch i w)"
| Allocate: "malloc \<notin> Some ` fst ` set (mmBlocks (cwMemory w)) \<Longrightarrow> allocated (mmBlocks (cwMemory w)) + n < 2 ^ 63 \<Longrightarrow>
     AllocateMemory malloc n (cwMemory w) = Inr (p, m) \<Longrightarrow> cloud_step env limit w (w\<lparr>cwMemory := m\<rparr>)"
| Free: "FreeMemory p (cwMemory w) = Inr m \<Longrightarrow> cloud_step env limit w (w\<lparr>cwMemory := m\<rparr>)"
| Connection: "cloud_step env limit w (w\<lparr>cwAlive := alive\<rparr>)"

inductive cloud_reachable :: "cloud_env \<Rightarrow> nat \<Rightarrow> CacheAndPersist \<Rightarrow> cloud \<Rightarrow> bool" for env limit disk where
  start: "cloud_reachable env limit disk
     \<lparr>cwAlive = False, cwMemory = \<lparr>mMemoryUsedAndReserved = 0, mmBlocks = []\<rparr>, cwDisk = disk, cwPublished = [], cwInFlight = []\<rparr>"
| step: "cloud_reachable env limit disk w \<Longrightarrow> cloud_step env limit w w' \<Longrightarrow> cloud_reachable env limit disk w'"

definition cloud_ok :: "nat \<Rightarrow> cloud \<Rightarrow> bool" where
  "cloud_ok limit w \<longleftrightarrow>
     mMemoryUsedAndReserved (cwMemory w) = allocated (mmBlocks (cwMemory w)) + reserved (cwInFlight w) \<and>
     allocated (mmBlocks (cwMemory w)) < 2 ^ 63 + ALIGNMENT_OFFSET \<and> distinct (map fst (mmBlocks (cwMemory w))) \<and>
     reserved (cwInFlight w) \<le> limit \<and>
     (\<forall>p \<in> set (cwPublished w). fst p \<noteq> [] \<and> 0 < length (snd p) \<and> length (snd p) \<le> AWS_IOT_MAX_MESSAGE_SIZE)"

lemma reserved_append [simp]: "reserved (xs @ ys) = reserved xs + reserved ys"
  by (simp add: reserved_def)

lemma reserved_Cons [simp]: "reserved (n # xs) = n + ALIGNMENT_OFFSET + reserved xs"
  by (simp add: reserved_def)

lemma reserved_Nil [simp]: "reserved [] = 0"
  by (simp add: reserved_def)

lemma reserved_remove: "i < length xs \<Longrightarrow> reserved (remove_at i xs) + (xs ! i + ALIGNMENT_OFFSET) = reserved xs"
proof -
  assume i: "i < length xs"
  have "reserved xs = reserved (take i xs @ [xs ! i] @ drop (Suc i) xs)" using id_take_nth_drop [OF i] by simp
  then show ?thesis by (simp add: remove_at_def)
qed

lemma allocated_delete:
  "distinct (map fst bs) \<Longrightarrow> map_of bs p = Some n \<Longrightarrow> allocated (assoc_del p bs) + n = allocated bs"
proof (induction bs)
  case (Cons b bs)
  obtain q k where b: "b = (q, k)" by (cases b)
  show ?case
  proof (cases "q = p")
    case True
    then have "assoc_del p bs = bs" using Cons.prems(1) b by (auto simp: assoc_del_def filter_id_conv)
    then show ?thesis using Cons.prems(2) b True by (simp add: allocated_def assoc_del_def)
  next
    case False
    then show ?thesis using Cons b by (simp add: allocated_def assoc_del_def)
  qed
qed simp

lemma store_unsent_keeps [simp]:
  "cwMemory (store_unsent env ch buf params w) = cwMemory w" "cwPublished (store_unsent env ch buf params w) = cwPublished w"
  "cwInFlight (store_unsent env ch buf params w) = cwInFlight w" "cwAlive (store_unsent env ch buf params w) = cwAlive w"
  by (simp_all add: store_unsent_def)

text \<open>A send that is accepted, and what every send leaves unchanged.\<close>

lemma send_cases:
  assumes "channel_send env ch bufPtr params w = (res, w')"
  obtains (Published) buf where "bufPtr = Some buf" "res = Success" "isTopicValid ch" "0 < length buf" "length buf \<le> AWS_IOT_MAX_MESSAGE_SIZE"
      "cwAlive w" "acMaximumHeap ch = 0 \<or> u64 (mMemoryUsedAndReserved (cwMemory w) + (length buf + ALIGNMENT_OFFSET)) \<le> acMaximumHeap ch"
      "w' = w\<lparr>cwMemory := (cwMemory w)\<lparr>mMemoryUsedAndReserved := u64 (mMemoryUsedAndReserved (cwMemory w) + (length buf + ALIGNMENT_OFFSET))\<rparr>,
        cwPublished := cwPublished w @ [(acTopicName ch, buf)], cwInFlight := cwInFlight w @ [length buf]\<rparr>"
    | (Stored) buf where "bufPtr = Some buf" "res = NoConnection" "0 < length buf" "length buf \<le> AWS_IOT_MAX_MESSAGE_SIZE" "w' = store_unsent env ch buf params w"
    | (Quota) buf where "bufPtr = Some buf" "res = QuotaReached" "length buf \<le> AWS_IOT_MAX_MESSAGE_SIZE" "acMaximumHeap ch \<noteq> 0"
      "w' = store_unsent env ch buf params (w\<lparr>cwMemory := (cwMemory w)\<lparr>mMemoryUsedAndReserved :=
         sub64 (u64 (mMemoryUsedAndReserved (cwMemory w) + (length buf + ALIGNMENT_OFFSET))) (length buf + ALIGNMENT_OFFSET)\<rparr>\<rparr>)"
    | (Refused) "res = NotConfigured \<or> res = WrongInputData" "w' = w"
  using assms
  by (auto simp: channel_send_def channel_isAlive_def reserveMemory_def releaseReservedMemory_def Let_def split: option.splits if_splits)

lemma send_ok:
  assumes "cloud_ok limit w" and "acMaximumHeap ch = limit" and "0 < limit" and "limit < 2 ^ 62" and "channel_send env ch bufPtr params w = (res, w')"
  shows "cloud_ok limit w'"
proof -
  let ?total = "mMemoryUsedAndReserved (cwMemory w)"
  have t: "?total < 2 ^ 63 + 2 ^ 62 + 16" using assms(1,4) by (simp add: cloud_ok_def ALIGNMENT_OFFSET_def)
  have u: "u64 (?total + (n + ALIGNMENT_OFFSET)) = ?total + (n + ALIGNMENT_OFFSET)" if "n \<le> AWS_IOT_MAX_MESSAGE_SIZE" for n
    by (rule u64_id) (use t that in \<open>simp add: AWS_IOT_MAX_MESSAGE_SIZE_def ALIGNMENT_OFFSET_def\<close>)
  from assms(5) show ?thesis
  proof (cases rule: send_cases)
    case (Published buf)
    have le: "?total + (length buf + ALIGNMENT_OFFSET) \<le> limit" using Published(7) assms(2,3) u [OF Published(5)] by simp
    have tot: "?total = allocated (mmBlocks (cwMemory w)) + reserved (cwInFlight w)" using assms(1) by (simp add: cloud_ok_def)
    have "u64 (allocated (mmBlocks (cwMemory w)) + reserved (cwInFlight w) + (length buf + ALIGNMENT_OFFSET)) =
        allocated (mmBlocks (cwMemory w)) + reserved (cwInFlight w) + (length buf + ALIGNMENT_OFFSET)"
      using u [OF Published(5)] unfolding tot .
    then show ?thesis using assms(1) Published(3,4,5) le tot unfolding Published(8) cloud_ok_def
      by (auto simp: isTopicValid_def)
  next
    case (Stored buf)
    then show ?thesis using assms(1) by (simp add: cloud_ok_def)
  next
    case (Quota buf)
    have "sub64 (u64 (?total + (length buf + ALIGNMENT_OFFSET))) (length buf + ALIGNMENT_OFFSET) = ?total"
      using u [OF Quota(3)] t Quota(3) by (subst u [OF Quota(3)], subst sub64_id) (simp_all add: AWS_IOT_MAX_MESSAGE_SIZE_def ALIGNMENT_OFFSET_def)
    then show ?thesis using assms(1) Quota(5) by (simp add: cloud_ok_def)
  next
    case Refused
    then show ?thesis using assms(1) by simp
  qed
qed

lemma complete_ok:
  assumes "cloud_ok limit w" and "limit < 2 ^ 62" and "acModule ch" and "i < length (cwInFlight w)"
  shows "cloud_ok limit (onPublishComplete ch i w)"
proof -
  let ?total = "mMemoryUsedAndReserved (cwMemory w)" and ?n = "cwInFlight w ! i + ALIGNMENT_OFFSET"
  have r: "reserved (remove_at i (cwInFlight w)) + ?n = reserved (cwInFlight w)" using reserved_remove [OF assms(4)] .
  have tot: "?total = allocated (mmBlocks (cwMemory w)) + reserved (cwInFlight w)" "?total < 2 ^ 64"
    using assms(1,2) by (auto simp: cloud_ok_def ALIGNMENT_OFFSET_def)
  have "sub64 ?total ?n = ?total - ?n" using tot r by (intro sub64_id) linarith+
  then have "sub64 ?total ?n = allocated (mmBlocks (cwMemory w)) + reserved (remove_at i (cwInFlight w))" using tot(1) r by linarith
  then show ?thesis using assms(1,3) r by (simp add: cloud_ok_def onPublishComplete_def releaseReservedMemory_def Let_def)
qed

lemma allocate_ok:
  assumes "cloud_ok limit w" and "limit < 2 ^ 62" and "malloc \<notin> Some ` fst ` set (mmBlocks (cwMemory w))"
    and "allocated (mmBlocks (cwMemory w)) + n < 2 ^ 63" and "AllocateMemory malloc n (cwMemory w) = Inr (p, m)"
  shows "cloud_ok limit (w\<lparr>cwMemory := m\<rparr>)"
proof (cases malloc)
  case None
  then show ?thesis using assms(1,5) by (simp add: AllocateMemory_def cloud_ok_def Let_def)
next
  case (Some a)
  have n: "u64 (n + ALIGNMENT_OFFSET) = n + ALIGNMENT_OFFSET" using assms(4) by (intro u64_id) (simp add: ALIGNMENT_OFFSET_def)
  let ?total = "mMemoryUsedAndReserved (cwMemory w)"
  have "u64 (?total + (n + ALIGNMENT_OFFSET)) = ?total + (n + ALIGNMENT_OFFSET)"
    using assms(1,2,4) by (intro u64_id) (simp add: cloud_ok_def ALIGNMENT_OFFSET_def)
  then show ?thesis using assms Some n
    by (auto simp: AllocateMemory_def cloud_ok_def allocated_def image_iff Let_def split: if_splits)
qed

lemma free_ok:
  assumes "cloud_ok limit w" and "limit < 2 ^ 62" and "FreeMemory p (cwMemory w) = Inr m"
  shows "cloud_ok limit (w\<lparr>cwMemory := m\<rparr>)"
proof (cases p)
  case None
  then show ?thesis using assms by (simp add: FreeMemory_def cloud_ok_def)
next
  case (Some a)
  let ?bs = "mmBlocks (cwMemory w)" and ?total = "mMemoryUsedAndReserved (cwMemory w)"
  obtain k where k: "map_of ?bs (a - ALIGNMENT_OFFSET) = Some k"
    "m = (cwMemory w)\<lparr>mMemoryUsedAndReserved := sub64 ?total k, mmBlocks := assoc_del (a - ALIGNMENT_OFFSET) ?bs\<rparr>"
    using assms(3) Some by (auto simp: FreeMemory_def split: if_splits option.splits)
  have d: "allocated (assoc_del (a - ALIGNMENT_OFFSET) ?bs) + k = allocated ?bs"
    using allocated_delete [OF _ k(1)] assms(1) by (simp add: cloud_ok_def)
  have tot: "?total = allocated ?bs + reserved (cwInFlight w)" "?total < 2 ^ 64"
    using assms(1,2) by (auto simp: cloud_ok_def ALIGNMENT_OFFSET_def)
  have "sub64 ?total k = ?total - k" using tot d by (intro sub64_id) linarith+
  then have "sub64 ?total k = allocated (assoc_del (a - ALIGNMENT_OFFSET) ?bs) + reserved (cwInFlight w)" using tot(1) d by linarith
  then show ?thesis using assms(1) d unfolding k(2) cloud_ok_def by simp
qed

lemma step_cloud_ok: "cloud_step env limit w w' \<Longrightarrow> cloud_ok limit w \<Longrightarrow> 0 < limit \<Longrightarrow> limit < 2 ^ 62 \<Longrightarrow> cloud_ok limit w'"
proof (induction rule: cloud_step.induct)
  case (Connection w alive)
  then show ?case by (simp add: cloud_ok_def)
qed (rule send_ok complete_ok allocate_ok free_ok; assumption)+

lemma reachable_cloud_ok: "cloud_reachable env limit disk w \<Longrightarrow> 0 < limit \<Longrightarrow> limit < 2 ^ 62 \<Longrightarrow> cloud_ok limit w"
proof (induction rule: cloud_reachable.induct)
  case start
  then show ?case by (simp add: cloud_ok_def allocated_def)
next
  case (step w w')
  then show ?case using step_cloud_ok by blast
qed

text \<open>
  C14. Whatever the channels send and the library calls back, allocates and frees, the counter of
  the memory manager is exactly what is allocated and reserved, the memory reserved for
  publications that are outstanding stays within the limit, and everything that was published had a
  topic and between one byte and the 128 KiB the cloud accepts.
\<close>

theorem channels_within_limits:
  assumes "cloud_reachable env limit disk w" and "0 < limit" and "limit < 2 ^ 62"
  shows "mMemoryUsedAndReserved (cwMemory w) = allocated (mmBlocks (cwMemory w)) + reserved (cwInFlight w) \<and>
     reserved (cwInFlight w) \<le> limit \<and>
     (\<forall>(topic, buf) \<in> set (cwPublished w). topic \<noteq> [] \<and> 0 < length buf \<and> length buf \<le> 131072)"
  using reachable_cloud_ok [OF assms] by (auto simp: cloud_ok_def AWS_IOT_MAX_MESSAGE_SIZE_def)

section \<open>Subscriptions that never return\<close>

lemma subscribe_blocked:
  assumes "isTopicValid ch" and "acModule ch"
  shows "channel_subscribe a True ch = Blocked \<longleftrightarrow> ackErrorCode a \<noteq> 0"
  using assms by (auto simp: channel_subscribe_def onSubAck_def Let_def)

text \<open>
  When the connection is established, subscribing the channels returns exactly when the broker
  answers none of them with an error: the promise that the caller waits for is kept only when there
  is no error. Then the thread stays blocked, later channels are not subscribed, and the channel
  keeps its lock.
\<close>

theorem subscribe_error_blocks:
  assumes "\<forall>ch \<in> set chs. isTopicValid ch \<and> acModule ch" and "length acks = length (filter acSubscribeAsynchronously chs)"
  shows "subscribe_channels acks True chs = Blocked \<longleftrightarrow> (\<exists>a \<in> set acks. ackErrorCode a \<noteq> 0)"
  using assms
proof (induction chs arbitrary: acks)
  case (Cons ch chs)
  show ?case
  proof (cases "acSubscribeAsynchronously ch")
    case True
    then obtain a as where acks: "acks = a # as" using Cons.prems(2) by (cases acks) auto
    have ih: "subscribe_channels as True chs = Blocked \<longleftrightarrow> (\<exists>a \<in> set as. ackErrorCode a \<noteq> 0)"
      using Cons.IH [of as] Cons.prems True acks by simp
    have b: "channel_subscribe a True ch = Blocked \<longleftrightarrow> ackErrorCode a \<noteq> 0" using subscribe_blocked Cons.prems(1) by simp
    show ?thesis using ih b True acks by (auto split: call.splits)
  next
    case False
    then show ?thesis using Cons.IH [of acks] Cons.prems by (auto split: call.splits)
  qed
qed simp

end
