(* ===== verification/SchemaCheckin.thy ===== *)
theory SchemaCheckin
  imports CloudChannel UploadSender SchemeSchedule
begin

text \<open>
  Checkins on their way to the cloud (\<open>Schema.cpp\<close>): the message with the documents in use is encoded
  and handed to the channel of its topic. The encoder is a parameter. The lemma joins it to the
  timeline, whose checkins are sent this way, and to the channel.
\<close>

record checkin_msg =
  document_arns :: "string list"
  timestamp_ms_epoch :: nat

text \<open>The sender is a pointer to a channel.\<close>

record schema =
  schSender :: "aws_channel option"
  mProtoCheckinMsg :: checkin_msg
  mProtoCheckinMsgOutput :: "nat list"

definition transmitCheckin :: "cloud_env \<Rightarrow> schema \<Rightarrow> cloud \<Rightarrow> bool \<times> cloud" where
  "transmitCheckin env s w =
     (case schSender s of
        None \<Rightarrow> (False, w)
      | Some ch \<Rightarrow> (case channel_send env ch (Some (mProtoCheckinMsgOutput s)) default_params w of (res, w) \<Rightarrow> (res = Success, w)))"

definition schema_sendCheckin ::
  "cloud_env \<Rightarrow> (checkin_msg \<Rightarrow> nat list option) \<Rightarrow> nat \<Rightarrow> string list \<Rightarrow> schema \<Rightarrow> cloud \<Rightarrow> bool \<times> schema \<times> cloud" where
  "schema_sendCheckin env serialize clock documentARNs s w =
     (let m = \<lparr>document_arns = documentARNs, timestamp_ms_epoch = clock\<rparr>; s = s\<lparr>mProtoCheckinMsg := m\<rparr> in
      case serialize m of
        None \<Rightarrow> (False, s, w)
      | Some out \<Rightarrow>
          let s = s\<lparr>mProtoCheckinMsgOutput := out\<rparr>; (ok, w) = transmitCheckin env s w in (ok, s, w))"

section \<open>Checkins of the timeline\<close>

lemma served_timeline:
  assumes "mTimeLine s = ev # rest" "tdTime ev < c" "mSchemaListener s" "0 < mCheckinIntervalInMsec s"
    and "c = u64 (t + (if ok then mCheckinIntervalInMsec s else min RETRY_CHECKIN_INTERVAL_IN_MILLISECOND (mCheckinIntervalInMsec s)))"
  shows "mTimeLine (serve_checkin (\<lambda>_. ok) t s) = insort (TimeData c CHECKIN) rest"
proof -
  have "tl (insort (TimeData c CHECKIN) (ev # rest)) = insort (TimeData c CHECKIN) rest"
    using assms(2) TimeData_less_time [of ev "TimeData c CHECKIN"] by (auto simp: not_le [symmetric])
  moreover have "mTimeLine (serve_checkin (\<lambda>_. ok) t s) = tl (insort (TimeData c CHECKIN) (ev # rest))"
    using assms(1,3,4) by (simp add: serve_checkin_def sendCheckin_def push_event_def pop_event_def Let_def assms(5) del: insort_key.simps)
  ultimately show ?thesis by simp
qed

lemma checkin_sent_or_not:
  assumes "schSender sc = Some ch" "\<not> acPayloadManager ch" "schema_sendCheckin env serialize clock ids sc w = (ok, sc', w')"
  shows "if ok then \<exists>out. serialize \<lparr>document_arns = ids, timestamp_ms_epoch = clock\<rparr> = Some out \<and> cwPublished w' = cwPublished w @ [(acTopicName ch, out)]
     else cwPublished w' = cwPublished w \<and> cwInFlight w' = cwInFlight w \<and> cwDisk w' = cwDisk w"
proof (cases "serialize \<lparr>document_arns = ids, timestamp_ms_epoch = clock\<rparr>")
  case None
  then show ?thesis using assms(3) by (simp add: schema_sendCheckin_def)
next
  case (Some out)
  obtain res where r: "channel_send env ch (Some out) default_params w = (res, w')" "ok = (res = Success)"
    using assms(1,3) Some by (auto simp: schema_sendCheckin_def transmitCheckin_def Let_def split: prod.splits)
  show ?thesis using r(1)
  proof (cases rule: send_cases)
    case (Published buf)
    then show ?thesis using r(2) Some by simp
  next
    case (Stored buf)
    then show ?thesis using r(2) assms(2) by (simp add: store_unsent_def)
  next
    case (Quota buf)
    then show ?thesis using r(2) assms(2) by (simp add: store_unsent_def)
  next
    case Refused
    then show ?thesis using r(2) by auto
  qed
qed

text \<open>
  C33. A due checkin either reaches the connection, as one message on the topic of checkins that names
  the enabled and idle schemes and the decoder manifest with the time it was made, and the next one is
  due after the interval; or nothing of it is sent or stored, and it is tried again after the interval
  or five seconds, whichever is less.
\<close>

theorem checkin_on_the_wire:
  assumes "schSender sc = Some ch" and "\<not> acPayloadManager ch"
    and "schema_sendCheckin env serialize clock (checkin_message s) sc w = (ok, sc', w')"
    and "mTimeLine s = TimeData due CHECKIN # rest" and "due \<le> t" and "mSchemaListener s"
    and "0 < mCheckinIntervalInMsec s" and "t + mCheckinIntervalInMsec s < 2 ^ 64"
  shows "if ok
     then mTimeLine (serve_checkin (\<lambda>_. ok) t s) = insort (TimeData (t + mCheckinIntervalInMsec s) CHECKIN) rest \<and>
       (\<exists>out. serialize \<lparr>document_arns = map fst (mEnabledCollectionSchemeMap s) @ map fst (mIdleCollectionSchemeMap s) @
            (if currentDecoderManifestID s = [] then [] else [currentDecoderManifestID s]), timestamp_ms_epoch = clock\<rparr> = Some out \<and>
          cwPublished w' = cwPublished w @ [(acTopicName ch, out)])
     else mTimeLine (serve_checkin (\<lambda>_. ok) t s) = insort (TimeData (t + min 5000 (mCheckinIntervalInMsec s)) CHECKIN) rest \<and>
       cwPublished w' = cwPublished w \<and> cwInFlight w' = cwInFlight w \<and> cwDisk w' = cwDisk w"
proof -
  have w: "t + (if ok then mCheckinIntervalInMsec s else min 5000 (mCheckinIntervalInMsec s)) < 2 ^ 64"
    using assms(8) by (auto simp: min_def)
  have m: "checkin_message s = map fst (mEnabledCollectionSchemeMap s) @ map fst (mIdleCollectionSchemeMap s) @
            (if currentDecoderManifestID s = [] then [] else [currentDecoderManifestID s])" by (simp add: checkin_message_def)
  have "mTimeLine (serve_checkin (\<lambda>_. ok) t s) =
      insort (TimeData (t + (if ok then mCheckinIntervalInMsec s else min 5000 (mCheckinIntervalInMsec s))) CHECKIN) rest"
    using assms(4-7) w by (intro served_timeline) (auto simp: u64_id RETRY_CHECKIN_INTERVAL_IN_MILLISECOND_def)
  then show ?thesis using checkin_sent_or_not [OF assms(1-3)] by (simp add: m split: if_splits)
qed

text \<open>A connection that is alive takes the checkin of a timeline with one enabled scheme.\<close>

definition sample_checkin_timeline :: timeline where
  "sample_checkin_timeline = (new_timeline ''dm1'')\<lparr>mTimeLine := [TimeData 100 CHECKIN], mSchemaListener := True\<rparr>"

definition checkin_channel :: aws_channel where
  "checkin_channel = setTopic ''checkin'' False (new_channel False 0)"

definition checkin_cloud :: cloud where
  "checkin_cloud = \<lparr>cwAlive = True, cwMemory = \<lparr>mMemoryUsedAndReserved = 0, mmBlocks = []\<rparr>,
     cwDisk = \<lparr>files = Map.empty, mMaxPersistencePartitionSize = 0\<rparr>, cwPublished = [], cwInFlight = []\<rparr>"

lemma checkin_on_the_wire_witness:
  "\<exists>w' :: cloud. cwPublished w' = [(''checkin'', [1, 2, 3])] \<and>
     mTimeLine (serve_checkin (\<lambda>_. True) 100 sample_checkin_timeline) = [TimeData 300100 CHECKIN]"
proof -
  let ?env = "\<lparr>ceFS = \<lparr>canOpen = \<lambda>_. True, taken = length, canRead = \<lambda>_. True\<rparr>, ceCompress = id, ceUncompress = Some, ceJunk = id\<rparr>"
  let ?sc = "\<lparr>schSender = Some checkin_channel, mProtoCheckinMsg = \<lparr>document_arns = [], timestamp_ms_epoch = 0\<rparr>, mProtoCheckinMsgOutput = []\<rparr>"
  let ?s = sample_checkin_timeline
  have ok: "fst (schema_sendCheckin ?env (\<lambda>_. Some [1, 2, 3]) 77 (checkin_message ?s) ?sc checkin_cloud)"
    by (simp add: schema_sendCheckin_def transmitCheckin_def channel_send_def isTopicValid_def checkin_channel_def setTopic_def new_channel_def
        AWS_IOT_MAX_MESSAGE_SIZE_def channel_isAlive_def checkin_cloud_def reserveMemory_def Let_def)
  obtain sc' w' where r: "schema_sendCheckin ?env (\<lambda>_. Some [1, 2, 3]) 77 (checkin_message ?s) ?sc checkin_cloud = (True, sc', w')"
    using ok by (cases "schema_sendCheckin ?env (\<lambda>_. Some [1, 2, 3]) 77 (checkin_message ?s) ?sc checkin_cloud") auto
  have t: "mTimeLine ?s = TimeData 100 CHECKIN # []" "mSchemaListener ?s" "mCheckinIntervalInMsec ?s = 300000"
    by (simp_all add: sample_checkin_timeline_def new_timeline_def DEFAULT_CHECKIN_INTERVAL_IN_MILLISECOND_def)
  have "schSender ?sc = Some checkin_channel" "\<not> acPayloadManager checkin_channel" by (simp_all add: checkin_channel_def setTopic_def new_channel_def)
  from checkin_on_the_wire [OF this r t(1) le_refl t(2)] t(3) show ?thesis
    by (auto simp: checkin_cloud_def checkin_channel_def setTopic_def)
qed

end
