(* ===== verification/UploadChunks.thy ===== *)
theory UploadChunks
  imports UploadSender "HOL-Library.Sublist"
begin

text \<open>
  What is handed to the channel for one event: its items in order, cut into messages of at most the
  configured number of items, and what the local file holds.
\<close>

section \<open>Cutting while filling\<close>

fun chunk_run :: "nat \<Rightarrow> 'a list \<Rightarrow> 'a list \<Rightarrow> 'a list list \<times> 'a list" where
  "chunk_run n cs [] = ([], cs)"
| "chunk_run n cs (x # xs) =
     (if n \<le> Suc (length cs) then ((cs @ [x]) # fst (chunk_run n [] xs), snd (chunk_run n [] xs)) else chunk_run n (cs @ [x]) xs)"

lemma chunk_run_append:
  "chunk_run n cs (xs @ ys) =
     (fst (chunk_run n cs xs) @ fst (chunk_run n (snd (chunk_run n cs xs)) ys), snd (chunk_run n (snd (chunk_run n cs xs)) ys))"
  by (induction xs arbitrary: cs) auto

lemma chunks_Nil [simp]: "chunks n [] = []"
  by (simp add: chunks.simps)

lemma chunks_full: "length xs = n \<Longrightarrow> 0 < n \<Longrightarrow> chunks n (xs @ ys) = xs # chunks n ys"
  by (subst chunks.simps) auto

lemma chunks_short: "length xs \<le> n \<Longrightarrow> xs \<noteq> [] \<Longrightarrow> chunks n xs = [xs]"
  by (subst chunks.simps) (cases n; simp)

lemma chunk_run_chunks:
  "length cs < n \<Longrightarrow> length (snd (chunk_run n cs xs)) < n \<and>
     chunks n (cs @ xs) = fst (chunk_run n cs xs) @ (if snd (chunk_run n cs xs) = [] then [] else [snd (chunk_run n cs xs)])"
proof (induction xs arbitrary: cs)
  case Nil
  then show ?case by (auto intro: chunks_short)
next
  case (Cons x xs)
  show ?case
  proof (cases "n \<le> Suc (length cs)")
    case True
    then have "length (cs @ [x]) = n" "0 < n" using Cons.prems by auto
    then have "chunks n (cs @ x # xs) = (cs @ [x]) # chunks n xs" using chunks_full [of "cs @ [x]" n xs] by simp
    then show ?thesis using True Cons.IH [of "[]"] \<open>0 < n\<close> by simp
  next
    case False
    then show ?thesis using Cons.IH [of "cs @ [x]"] by simp
  qed
qed

lemma chunk_run_rest: "suffix (snd (chunk_run n cs xs)) (cs @ xs)"
proof (induction xs arbitrary: cs)
  case (Cons x xs)
  show ?case
  proof (cases "n \<le> Suc (length cs)")
    case True
    have "suffix (snd (chunk_run n [] xs)) xs" using Cons.IH [of "[]"] by simp
    then have "suffix (snd (chunk_run n [] xs)) ((cs @ [x]) @ xs)" by (rule suffix_appendI)
    then show ?thesis using True by simp
  next
    case False
    then show ?thesis using Cons.IH [of "cs @ [x]"] by simp
  qed
qed simp

lemma chunk_run_closed:
  "c \<in> set (fst (chunk_run n cs xs)) \<Longrightarrow> c \<noteq> [] \<and> last c \<in> set xs \<and> set c \<subseteq> set cs \<union> set xs"
proof (induction xs arbitrary: cs)
  case (Cons x xs)
  show ?case
  proof (cases "n \<le> Suc (length cs)")
    case True
    then consider "c = cs @ [x]" | "c \<in> set (fst (chunk_run n [] xs))" using Cons.prems by auto
    then show ?thesis using Cons.IH [of "[]"] by cases auto
  next
    case False
    then show ?thesis using Cons.IH [of "cs @ [x]"] Cons.prems by auto
  qed
qed simp

text \<open>The pieces keep everything, in order, and only the last may be short.\<close>

lemma chunks_concat: "0 < n \<Longrightarrow> concat (chunks n xs) = xs"
  by (induction n xs rule: chunks.induct) (subst chunks.simps, simp)

lemma chunks_length: "c \<in> set (chunks n xs) \<Longrightarrow> 0 < length c \<and> length c \<le> n"
proof (induction n xs rule: chunks.induct)
  case (1 n xs)
  show ?case
  proof (cases "n = 0 \<or> xs = []")
    case True
    then show ?thesis using 1(2) by (simp add: chunks.simps)
  next
    case False
    then have "chunks n xs = take n xs # chunks n (drop n xs)" by (subst chunks.simps) simp
    then show ?thesis using 1 False by auto
  qed
qed

lemma chunks_butlast: "c \<in> set (butlast (chunks n xs)) \<Longrightarrow> length c = n"
proof (induction n xs rule: chunks.induct)
  case (1 n xs)
  show ?case
  proof (cases "n = 0 \<or> xs = []")
    case True
    then show ?thesis using 1(2) by (simp add: chunks.simps)
  next
    case False
    then have e: "chunks n xs = take n xs # chunks n (drop n xs)" by (subst chunks.simps) simp
    then have ne: "chunks n (drop n xs) \<noteq> []" using 1(2) by auto
    then have "n < length xs" by (metis chunks_Nil drop_eq_Nil not_le)
    then show ?thesis using 1 False e ne by auto
  qed
qed

section \<open>Filling the messages\<close>

lemma item_append [simp]:
  "item_signals (xs @ ys) = item_signals xs @ item_signals ys"
  "item_frames (xs @ ys) = item_frames xs @ item_frames ys"
  "item_dtcs (xs @ ys) = item_dtcs xs @ item_dtcs ys"
  by (induction xs) (auto split: upload_item.splits)

lemma item_map [simp]:
  "item_signals (map ItemSignal ss) = ss" "item_signals (map ItemFrame fs) = []" "item_signals (map ItemDTC ds) = []"
  "item_frames (map ItemSignal ss) = []" "item_frames (map ItemFrame fs) = fs" "item_frames (map ItemDTC ds) = []"
  "item_dtcs (map ItemSignal ss) = []" "item_dtcs (map ItemFrame fs) = []" "item_dtcs (map ItemDTC ds) = ds"
proof -
  show "item_signals (map ItemSignal ss) = ss" "item_frames (map ItemSignal ss) = []" "item_dtcs (map ItemSignal ss) = []" by (induction ss) simp_all
  show "item_signals (map ItemFrame fs) = []" "item_frames (map ItemFrame fs) = fs" "item_dtcs (map ItemFrame fs) = []" by (induction fs) simp_all
  show "item_signals (map ItemDTC ds) = []" "item_frames (map ItemDTC ds) = []" "item_dtcs (map ItemDTC ds) = ds" by (induction ds) simp_all
qed

text \<open>The writer holds the message of the items \<open>cs\<close>; \<open>P\<close> in the lemmas below is this and the room that is left.\<close>

definition holds :: "CANInterfaceIDTranslator \<Rightarrow> TriggeredCollectionSchemeData \<Rightarrow> nat \<Rightarrow> bool \<Rightarrow> upload_item list \<Rightarrow> 'ch collection_sender \<Rightarrow> bool" where
  "holds ids td n dtcs cs s \<longleftrightarrow>
     mVehicleData (mProtoWriter s) = message_with ids td dtcs cs \<and> mVehicleDataMsgCount (mProtoWriter s) = length cs \<and>
     pwTriggerTime (mProtoWriter s) = triggerTime td \<and> mIDTranslator (mProtoWriter s) = ids \<and>
     mCollectionEventID s = eventID td \<and> mCollectionSchemeParams s = setCollectionSchemeParameters td \<and>
     mTransmitThreshold s = n \<and> length cs \<le> n"

definition room :: "nat \<Rightarrow> upload_item list \<Rightarrow> bool" where
  "room n cs \<longleftrightarrow> length cs < n \<and> n \<le> UINT_MAX"

lemma room_count: "room n cs \<Longrightarrow> u32 (length cs + 1) = Suc (length cs)"
  by (simp add: room_def UINT_MAX_def u32_id)

text \<open>What one item does: the message it fills is delivered and the next one begun.\<close>

definition step_ok ::
  "'ch upload_env \<Rightarrow> CANInterfaceIDTranslator \<Rightarrow> TriggeredCollectionSchemeData \<Rightarrow> nat \<Rightarrow> bool \<Rightarrow> upload_item list \<Rightarrow> upload_item \<Rightarrow>
   'ch collection_sender \<Rightarrow> 'ch collection_sender \<Rightarrow> bool" where
  "step_ok env ids td n dtcs cs x s s' \<longleftrightarrow>
     (if n \<le> Suc (length cs)
      then holds ids td n dtcs [] s' \<and>
           channel s' = deliver env (setCollectionSchemeParameters td) (message_with ids td dtcs (cs @ [x])) (channel s)
      else holds ids td n dtcs (cs @ [x]) s' \<and> channel s' = channel s)"

lemma start_message_holds:
  "mCollectionEventID s = eventID td \<Longrightarrow> mCollectionSchemeParams s = setCollectionSchemeParameters td \<Longrightarrow>
   mIDTranslator (mProtoWriter s) = ids \<Longrightarrow> holds ids td (mTransmitThreshold s) False [] (start_message td s)"
  by (simp add: holds_def start_message_def setupVehicleData_def message_with_def empty_message_def)

lemma flush_full_ok:
  assumes "holds ids td n False (cs @ [x]) s'" and "channel s' = channel s"
  shows "step_ok env ids td n False cs x s (flush_full env td s')"
  using assms start_message_holds [of "serializeAndTransmit env s'" td ids]
  by (auto simp: step_ok_def flush_full_def holds_def serializeAndTransmit_def start_message_def)

lemma steps_ok:
  assumes "\<And>x cs s. x \<in> set xs \<Longrightarrow> holds ids td n dtcs cs s \<Longrightarrow> room n cs \<Longrightarrow> step_ok env ids td n dtcs cs (K x) s (f x s)"
    and "holds ids td n dtcs cs s" and "room n cs"
  shows "holds ids td n dtcs (snd (chunk_run n cs (map K xs))) (fold f xs s) \<and> room n (snd (chunk_run n cs (map K xs))) \<and>
     channel (fold f xs s) =
       fold (deliver env (setCollectionSchemeParameters td)) (map (message_with ids td dtcs) (fst (chunk_run n cs (map K xs)))) (channel s)"
  using assms
proof (induction xs arbitrary: cs s)
  case (Cons x xs)
  have st: "step_ok env ids td n dtcs cs (K x) s (f x s)" using Cons.prems by simp
  have ih: "holds ids td n dtcs cs' s' \<Longrightarrow> room n cs' \<Longrightarrow>
      holds ids td n dtcs (snd (chunk_run n cs' (map K xs))) (fold f xs s') \<and> room n (snd (chunk_run n cs' (map K xs))) \<and>
      channel (fold f xs s') =
        fold (deliver env (setCollectionSchemeParameters td)) (map (message_with ids td dtcs) (fst (chunk_run n cs' (map K xs)))) (channel s')"
    for cs' s' using Cons.IH Cons.prems(1) by simp
  show ?case
  proof (cases "n \<le> Suc (length cs)")
    case True
    have "room n []" using Cons.prems(3) by (auto simp: room_def)
    then show ?thesis using True st ih [of "[]" "f x s"] by (simp add: step_ok_def)
  next
    case False
    then have "room n (cs @ [K x])" using Cons.prems(3) by (simp add: room_def)
    then show ?thesis using False st ih [of "cs @ [K x]" "f x s"] by (simp add: step_ok_def)
  qed
qed simp

text \<open>The four kinds of items.\<close>

lemma signal_ok:
  assumes "holds ids td n False cs s" and "room n cs"
  shows "step_ok env ids td n False cs (ItemSignal x) s (send_signal env td x s)"
proof -
  let ?s = "if mJsonOutputEnabled s then s\<lparr>mJsonWriter := json_signal x (mJsonWriter s)\<rparr> else s"
  have "holds ids td n False (cs @ [ItemSignal x]) (?s\<lparr>mProtoWriter := append_signal x (mProtoWriter ?s)\<rparr>)"
    using assms room_count [OF assms(2)] by (auto simp: holds_def room_def append_signal_def counted_def message_with_def)
  from flush_full_ok [OF this, of s env] show ?thesis by (cases "mJsonOutputEnabled s") (simp_all add: send_signal_def)
qed

lemma frame_ok:
  assumes "holds ids td n False cs s" and "room n cs" and "cfSize x \<le> length (cfData x)"
  shows "\<exists>s'. send_frame env td x s = Inr s' \<and> step_ok env ids td n False cs (ItemFrame x) s s'"
proof -
  obtain w where w: "json_frame x (mJsonWriter s) = Inr w" using assms(3) by (simp add: json_frame_def)
  let ?s = "if mJsonOutputEnabled s then s\<lparr>mJsonWriter := w\<rparr> else s"
  obtain p where p: "append_frame x (mProtoWriter ?s) = Inr p" using assms(3) by (simp add: append_frame_def)
  have "holds ids td n False (cs @ [ItemFrame x]) (?s\<lparr>mProtoWriter := p\<rparr>)"
    using assms p room_count [OF assms(2)] by (auto simp: holds_def room_def append_frame_def counted_def message_with_def split: if_splits)
  from flush_full_ok [OF this, of s env] show ?thesis using w p by (auto simp: send_frame_def)
qed

lemma dtc_ok:
  assumes "holds ids td n True cs s" and "room n cs"
  shows "step_ok env ids td n True cs (ItemDTC x) s (send_dtc env td x s)"
proof -
  let ?s = "s\<lparr>mProtoWriter := append_dtc x (mProtoWriter s)\<rparr>"
  have h: "holds ids td n True (cs @ [ItemDTC x]) ?s"
    using assms room_count [OF assms(2)] by (auto simp: holds_def room_def append_dtc_def dtc_part_def counted_def message_with_def)
  then have "holds ids td n True [] (start_dtcs td (start_message td (serializeAndTransmit env ?s)))"
    by (simp add: holds_def start_dtcs_def start_message_def serializeAndTransmit_def setupVehicleData_def setupDTCInfo_def dtc_part_def
        message_with_def empty_message_def)
  then show ?thesis using h
    by (auto simp: send_dtc_def step_ok_def holds_def start_dtcs_def start_message_def serializeAndTransmit_def Let_def)
qed

lemma start_dtcs_holds: "holds ids td n False cs s \<Longrightarrow> item_dtcs cs = [] \<Longrightarrow> holds ids td n True cs (start_dtcs td s)"
  by (simp add: holds_def start_dtcs_def setupDTCInfo_def dtc_part_def message_with_def)

lemma geohash_ok:
  assumes "holds ids td n dtcs cs s" and "room n cs"
  shows "if n \<le> Suc (length cs)
      then mVehicleDataMsgCount (mProtoWriter (send_geohash env td s)) = 0 \<and>
           channel (send_geohash env td s) = deliver env (setCollectionSchemeParameters td) (message_with ids td dtcs (cs @ [ItemGeohash])) (channel s)
      else holds ids td n dtcs (cs @ [ItemGeohash]) (send_geohash env td s) \<and> channel (send_geohash env td s) = channel s"
proof -
  let ?s = "if mJsonOutputEnabled s then s\<lparr>mJsonWriter := json_geohash (trGeohashInfo td) (mJsonWriter s)\<rparr> else s"
  let ?t = "?s\<lparr>mProtoWriter := append_geohash (trGeohashInfo td) (mProtoWriter ?s)\<rparr>"
  have h: "holds ids td n dtcs (cs @ [ItemGeohash]) ?t" and c: "channel ?t = channel s"
    using assms room_count [OF assms(2)] by (auto simp: holds_def room_def append_geohash_def counted_def message_with_def)
  have g: "send_geohash env td s = flush_full env td ?t" by (simp add: send_geohash_def)
  show ?thesis unfolding g using h c
    by (auto simp: flush_full_def holds_def start_message_def serializeAndTransmit_def setupVehicleData_def)
qed

section \<open>The messages handed over\<close>

definition frame_total :: "'ch upload_env \<Rightarrow> TriggeredCollectionSchemeData \<Rightarrow> CollectedCanRawFrame \<Rightarrow> 'ch collection_sender \<Rightarrow> 'ch collection_sender" where
  "frame_total env td x s = (case send_frame env td x s of Inr s' \<Rightarrow> s' | Inl _ \<Rightarrow> s)"

definition frame_in_array :: "CollectedCanRawFrame \<Rightarrow> bool" where
  "frame_in_array f \<longleftrightarrow> cfSize f \<le> length (cfData f)"

lemma send_frame_total: "frame_in_array x \<Longrightarrow> send_frame env td x s = Inr (frame_total env td x s)"
  by (auto simp: frame_total_def send_frame_def json_frame_def append_frame_def frame_in_array_def)

lemma send_frames_total: "\<forall>x \<in> set xs. frame_in_array x \<Longrightarrow> send_frames env td xs s = Inr (fold (frame_total env td) xs s)"
  by (induction xs arbitrary: s) (simp_all add: send_frame_total)

lemma message_for_with:
  assumes "item_dtcs c \<noteq> [] \<or> dtc_hasItems (trDTCInfo td) \<and> c = [ItemGeohash] \<longleftrightarrow> b"
  shows "message_for ids td c = message_with ids td b c"
  using assms by (simp add: message_for_def)

lemma item_dtcs_member: "item_dtcs c \<noteq> [] \<longleftrightarrow> (\<exists>d. ItemDTC d \<in> set c)"
  by (induction c) (auto split: upload_item.splits)

lemma map_message:
  assumes "\<And>c. c \<in> set cs \<Longrightarrow> (item_dtcs c \<noteq> [] \<or> dtc_hasItems (trDTCInfo td) \<and> c = [ItemGeohash] \<longleftrightarrow> b)"
  shows "map (message_with ids td b) cs = map (message_for ids td) cs"
  by (rule map_cong) (simp_all add: message_for_with [OF assms])

text \<open>Signals and frames.\<close>

lemma signals_frames_holds:
  assumes "holds ids td n False [] s" and "0 < n" and "n \<le> UINT_MAX" and "\<forall>f \<in> set (trCanFrames td). frame_in_array f"
  shows "\<exists>s'. send_frames env td (trCanFrames td) (fold (send_signal env td) (trSignals td) s) = Inr s' \<and>
     holds ids td n False (snd (chunk_run n [] (map ItemSignal (trSignals td) @ map ItemFrame (trCanFrames td)))) s' \<and>
     channel s' = fold (deliver env (setCollectionSchemeParameters td))
       (map (message_for ids td) (fst (chunk_run n [] (map ItemSignal (trSignals td) @ map ItemFrame (trCanFrames td))))) (channel s)"
proof -
  let ?S = "map ItemSignal (trSignals td)" and ?F = "map ItemFrame (trCanFrames td)"
  let ?r = "snd (chunk_run n [] ?S)" and ?s = "fold (send_signal env td) (trSignals td) s"
  let ?t = "fold (frame_total env td) (trCanFrames td) ?s"
  have "room n []" using assms(2,3) by (simp add: room_def)
  note r = this
  have sg: "step_ok env ids td n False cs (ItemSignal x) s' (send_signal env td x s')"
    if "x \<in> set (trSignals td)" "holds ids td n False cs s'" "room n cs" for x cs s'
    by (rule signal_ok [OF that(2,3)])
  from steps_ok [OF sg assms(1) r, where xs = "trSignals td"]
  have a: "holds ids td n False ?r ?s" "room n ?r"
    "channel ?s = fold (deliver env (setCollectionSchemeParameters td)) (map (message_with ids td False) (fst (chunk_run n [] ?S))) (channel s)"
    by simp_all
  have fr: "step_ok env ids td n False cs (ItemFrame x) s' (frame_total env td x s')"
    if "x \<in> set (trCanFrames td)" "holds ids td n False cs s'" "room n cs" for x cs s'
  proof -
    have "cfSize x \<le> length (cfData x)" using assms(4) that(1) by (simp add: frame_in_array_def)
    from frame_ok [OF that(2,3) this, of env] show ?thesis by (auto simp: frame_total_def)
  qed
  from steps_ok [OF fr a(1,2), where xs = "trCanFrames td"]
  have b: "holds ids td n False (snd (chunk_run n ?r ?F)) ?t"
    "channel ?t = fold (deliver env (setCollectionSchemeParameters td)) (map (message_with ids td False) (fst (chunk_run n ?r ?F))) (channel ?s)"
    by simp_all
  have m: "map (message_with ids td False) (fst (chunk_run n [] (?S @ ?F))) = map (message_for ids td) (fst (chunk_run n [] (?S @ ?F)))"
  proof (rule map_message)
    fix c assume "c \<in> set (fst (chunk_run n [] (?S @ ?F)))"
    then have "set c \<subseteq> set (?S @ ?F)" "c \<noteq> []" using chunk_run_closed [of c n "[]" "?S @ ?F"] by auto
    then show "item_dtcs c \<noteq> [] \<or> dtc_hasItems (trDTCInfo td) \<and> c = [ItemGeohash] \<longleftrightarrow> False"
      by (auto simp: item_dtcs_member)
  qed
  have "channel ?t = fold (deliver env (setCollectionSchemeParameters td)) (map (message_with ids td False) (fst (chunk_run n [] (?S @ ?F)))) (channel s)"
    using a(3) b(2) by (simp add: chunk_run_append)
  then show ?thesis using b(1) unfolding m
    by (intro exI [of _ ?t]) (simp add: send_frames_total [OF assms(4)] chunk_run_append)
qed

text \<open>Trouble codes, after which what is left ends with one.\<close>

lemma dtcs_holds:
  fixes env :: "'ch upload_env" and s :: "'ch collection_sender"
  assumes "holds ids td n False cs s" and "room n cs" and "item_dtcs cs = []" and "dtc_hasItems (trDTCInfo td)"
  defines "ds \<equiv> map ItemDTC (mDTCCodes (trDTCInfo td))" and "s' \<equiv> fold (send_dtc env td) (mDTCCodes (trDTCInfo td)) (start_dtcs td s)"
  shows "holds ids td n True (snd (chunk_run n cs ds)) s' \<and> room n (snd (chunk_run n cs ds)) \<and>
     channel s' = fold (deliver env (setCollectionSchemeParameters td)) (map (message_for ids td) (fst (chunk_run n cs ds))) (channel s) \<and>
     (snd (chunk_run n cs ds) = [] \<or> item_dtcs (snd (chunk_run n cs ds)) \<noteq> [])"
proof -
  have h: "holds ids td n True cs (start_dtcs td s)" using start_dtcs_holds [OF assms(1,3)] .
  have dt: "step_ok env ids td n True cs (ItemDTC x) s' (send_dtc env td x s')"
    if "x \<in> set (mDTCCodes (trDTCInfo td))" "holds ids td n True cs s'" "room n cs" for x cs s'
    by (rule dtc_ok [OF that(2,3)])
  from steps_ok [OF dt h assms(2), where xs = "mDTCCodes (trDTCInfo td)"]
  have a: "holds ids td n True (snd (chunk_run n cs ds)) s'" "room n (snd (chunk_run n cs ds))"
    "channel s' = fold (deliver env (setCollectionSchemeParameters td)) (map (message_with ids td True) (fst (chunk_run n cs ds))) (channel s)"
    by (simp_all add: ds_def s'_def start_dtcs_def)
  have m: "map (message_with ids td True) (fst (chunk_run n cs ds)) = map (message_for ids td) (fst (chunk_run n cs ds))"
  proof (rule map_message)
    fix c assume "c \<in> set (fst (chunk_run n cs ds))"
    then have "c \<noteq> []" "last c \<in> set ds" using chunk_run_closed [of c n cs ds] by auto
    then have "item_dtcs c \<noteq> []" by (auto simp: item_dtcs_member ds_def) (metis last_in_set)
    then show "item_dtcs c \<noteq> [] \<or> dtc_hasItems (trDTCInfo td) \<and> c = [ItemGeohash] \<longleftrightarrow> True" by simp
  qed
  let ?r = "snd (chunk_run n cs ds)"
  have "ds \<noteq> []" using assms(4) by (simp add: ds_def dtc_hasItems_def)
  have "?r = [] \<or> item_dtcs ?r \<noteq> []"
  proof (cases "?r = []")
    case False
    obtain zs where "cs @ ds = zs @ ?r" using chunk_run_rest [of n cs ds] by (auto simp: suffix_def)
    then have "last ?r = last ds" using False \<open>ds \<noteq> []\<close> by (metis last_appendR)
    then have "last ?r \<in> set ds" using \<open>ds \<noteq> []\<close> by simp
    then have "item_dtcs ?r \<noteq> []" using False last_in_set [OF False] by (auto simp: item_dtcs_member ds_def) (metis last_in_set)
    then show ?thesis ..
  qed simp
  with a show ?thesis unfolding m by blast
qed

text \<open>Both together.\<close>

lemma items_holds:
  fixes env :: "'ch upload_env" and s :: "'ch collection_sender"
  assumes "holds ids td n False [] s" and "0 < n" and "n \<le> UINT_MAX" and "\<forall>f \<in> set (trCanFrames td). frame_in_array f"
  defines "xs \<equiv> map ItemSignal (trSignals td) @ map ItemFrame (trCanFrames td) @ map ItemDTC (mDTCCodes (trDTCInfo td))"
  shows "\<exists>s1 s2. send_frames env td (trCanFrames td) (fold (send_signal env td) (trSignals td) s) = Inr s1 \<and>
     s2 = (if dtc_hasItems (trDTCInfo td) then fold (send_dtc env td) (mDTCCodes (trDTCInfo td)) (start_dtcs td s1) else s1) \<and>
     holds ids td n (dtc_hasItems (trDTCInfo td)) (snd (chunk_run n [] xs)) s2 \<and> room n (snd (chunk_run n [] xs)) \<and>
     channel s2 = fold (deliver env (setCollectionSchemeParameters td)) (map (message_for ids td) (fst (chunk_run n [] xs))) (channel s) \<and>
     (item_dtcs (snd (chunk_run n [] xs)) \<noteq> [] \<longleftrightarrow> dtc_hasItems (trDTCInfo td) \<and> snd (chunk_run n [] xs) \<noteq> [])"
proof -
  let ?A = "map ItemSignal (trSignals td) @ map ItemFrame (trCanFrames td)" and ?D = "map ItemDTC (mDTCCodes (trDTCInfo td))"
  let ?r = "snd (chunk_run n [] ?A)"
  have xs: "xs = ?A @ ?D" by (simp add: xs_def)
  obtain s1 where s1: "send_frames env td (trCanFrames td) (fold (send_signal env td) (trSignals td) s) = Inr s1" "holds ids td n False ?r s1"
    "channel s1 = fold (deliver env (setCollectionSchemeParameters td)) (map (message_for ids td) (fst (chunk_run n [] ?A))) (channel s)"
    using signals_frames_holds [OF assms(1-4), of env] by blast
  have room: "room n ?r" using chunk_run_chunks [of "[]" n ?A] assms(2,3) by (simp add: room_def)
  have "suffix ?r ?A" using chunk_run_rest [of n "[]" ?A] by simp
  then have "set ?r \<subseteq> set ?A" by (rule set_mono_suffix)
  then have none: "item_dtcs ?r = []" using item_dtcs_member [of ?r] by auto
  show ?thesis
  proof (cases "dtc_hasItems (trDTCInfo td)")
    case True
    from dtcs_holds [OF s1(2) room none True, of env] s1 True show ?thesis
      by (intro exI [of _ s1] exI [of _ "fold (send_dtc env td) (mDTCCodes (trDTCInfo td)) (start_dtcs td s1)"])
        (auto simp: xs chunk_run_append)
  next
    case False
    then have "xs = ?A" using xs by (simp add: dtc_hasItems_def)
    then show ?thesis using s1 room none False by (intro exI [of _ s1]) simp
  qed
qed

lemma flush_json_keeps [simp]: "channel (flush_json env s) = channel s" "mProtoWriter (flush_json env s) = mProtoWriter s"
  "mCollectionSchemeParams (flush_json env s) = mCollectionSchemeParams s"
  by (simp_all add: flush_json_def)

lemma begin_event_holds:
  "mIDTranslator (mProtoWriter s) = ids \<Longrightarrow> holds ids td (mTransmitThreshold s) False [] (begin_event td s) \<and> channel (begin_event td s) = channel s"
  by (simp add: begin_event_def holds_def start_message_def setupVehicleData_def message_with_def empty_message_def Let_def)

text \<open>The messages of an event: the full ones, and the rest with the geohash if there is one.\<close>

lemma event_chunks:
  fixes td :: TriggeredCollectionSchemeData
  assumes "0 < n"
  defines "xs \<equiv> map ItemSignal (trSignals td) @ map ItemFrame (trCanFrames td) @ map ItemDTC (mDTCCodes (trDTCInfo td))"
  shows "\<not> geohash_hasItems (trGeohashInfo td) \<Longrightarrow>
      chunks n (event_items td) = fst (chunk_run n [] xs) @ (if snd (chunk_run n [] xs) = [] then [] else [snd (chunk_run n [] xs)])"
    and "geohash_hasItems (trGeohashInfo td) \<Longrightarrow>
      chunks n (event_items td) = fst (chunk_run n [] xs) @ [snd (chunk_run n [] xs) @ [ItemGeohash]]"
proof -
  assume "\<not> geohash_hasItems (trGeohashInfo td)"
  then have "event_items td = xs" by (simp add: event_items_def xs_def)
  then show "chunks n (event_items td) = fst (chunk_run n [] xs) @ (if snd (chunk_run n [] xs) = [] then [] else [snd (chunk_run n [] xs)])"
    using chunk_run_chunks [of "[]" n xs] assms(1) by simp
next
  assume "geohash_hasItems (trGeohashInfo td)"
  then have ev: "event_items td = xs @ [ItemGeohash]" by (simp add: event_items_def xs_def)
  let ?r = "snd (chunk_run n [] xs)"
  have run: "chunk_run n [] (event_items td) = (fst (chunk_run n [] xs) @ fst (chunk_run n ?r [ItemGeohash]), snd (chunk_run n ?r [ItemGeohash]))"
    by (simp only: ev chunk_run_append)
  show "chunks n (event_items td) = fst (chunk_run n [] xs) @ [?r @ [ItemGeohash]]"
    using chunk_run_chunks [of "[]" n "event_items td"] assms(1) unfolding run by (auto split: if_splits)
qed

lemma sent_messages:
  fixes env :: "'ch upload_env" and s :: "'ch collection_sender"
  assumes "0 < mTransmitThreshold s" and "mTransmitThreshold s \<le> UINT_MAX" and "\<forall>f \<in> set (trCanFrames td). frame_in_array f"
  shows "\<exists>s'. send_data env (Some td) s = Inr s' \<and>
     channel s' = fold (deliver env (setCollectionSchemeParameters td))
       (map (message_for (mIDTranslator (mProtoWriter s)) td) (chunks (mTransmitThreshold s) (event_items td))) (channel s)"
proof -
  define n ids where "n = mTransmitThreshold s" and "ids = mIDTranslator (mProtoWriter s)"
  define xs where "xs = map ItemSignal (trSignals td) @ map ItemFrame (trCanFrames td) @ map ItemDTC (mDTCCodes (trDTCInfo td))"
  define r where "r = snd (chunk_run n [] xs)"
  let ?h = "dtc_hasItems (trDTCInfo td)" and ?go = "fold (deliver env (setCollectionSchemeParameters td))"
  let ?m = "message_for ids td"
  have b: "holds ids td n False [] (begin_event td s)" "channel (begin_event td s) = channel s"
    using begin_event_holds [of s ids td] by (simp_all add: n_def ids_def)
  obtain s1 s2 where s1: "send_frames env td (trCanFrames td) (fold (send_signal env td) (trSignals td) (begin_event td s)) = Inr s1"
      "s2 = (if ?h then fold (send_dtc env td) (mDTCCodes (trDTCInfo td)) (start_dtcs td s1) else s1)"
      "holds ids td n ?h r s2" "room n r" "channel s2 = ?go (map ?m (fst (chunk_run n [] xs))) (channel s)"
      "item_dtcs r \<noteq> [] \<longleftrightarrow> ?h \<and> r \<noteq> []"
    using items_holds [OF b(1) assms(1,2) [folded n_def] assms(3), of env] b(2) unfolding r_def xs_def by auto
  let ?s3 = "if geohash_hasItems (trGeohashInfo td) then send_geohash env td s2 else s2"
  let ?s4 = "flush_json env ?s3"
  let ?s5 = "if mVehicleDataMsgCount (mProtoWriter ?s4) \<ge> 1 then serializeAndTransmit env ?s4 else ?s4"
  have eq: "send_data env (Some td) s = Inr ?s5" unfolding send_data_def by (simp add: s1(1) Let_def flip: s1(2))
  have n: "0 < n" using assms(1) by (simp add: n_def)
  have last: "channel ?s5 = ?go (map ?m (if cs = [] then [] else [cs])) (channel ?s3)"
    if "holds ids td n ?h cs ?s3" "?m cs = message_with ids td ?h cs" for cs
    using that by (auto simp: holds_def serializeAndTransmit_def Suc_le_eq)
  have geo: "?m (r @ [ItemGeohash]) = message_with ids td ?h (r @ [ItemGeohash])"
    by (rule message_for_with) (use s1(6) in auto)
  have "channel ?s5 = ?go (map ?m (chunks n (event_items td))) (channel s)"
  proof (cases "geohash_hasItems (trGeohashInfo td)")
    case False
    note c = event_chunks(1) [OF n False, folded xs_def, folded r_def]
    have m: "?m r = message_with ids td ?h r" if "r \<noteq> []"
      by (rule message_for_with) (use s1(6) that in auto)
    show ?thesis
    proof (cases "r = []")
      case True
      then show ?thesis using False s1(3,5) c by (simp add: holds_def)
    next
      case r: False
      then show ?thesis using last [of r] m [OF r] False s1(3,5) c by simp
    qed
  next
    case True
    note g = geohash_ok [OF s1(3,4), of env]
    note c = event_chunks(2) [OF n True, folded xs_def, folded r_def]
    show ?thesis
    proof (cases "n \<le> Suc (length r)")
      case full: True
      then show ?thesis using g True s1(5) c geo by simp
    next
      case more: False
      then show ?thesis using g True s1(5) c geo last [of "r @ [ItemGeohash]"] by simp
    qed
  qed
  then show ?thesis using eq by (auto simp: n_def ids_def)
qed

text \<open>
  C11. Sending the data of an event, with raw frames that fit their array, reads nothing out of
  bounds and hands every signal, raw frame, trouble code and the position to the channel exactly
  once and in order: in messages of exactly the configured number of items, the last of at least
  one, each with the identification of the event. Failures of the channel change nothing of this.
\<close>

theorem messages_sent:
  fixes env :: "'ch upload_env" and s :: "'ch collection_sender"
  assumes "0 < mTransmitThreshold s" and "mTransmitThreshold s \<le> UINT_MAX" and "\<forall>f \<in> set (trCanFrames td). frame_in_array f"
  shows "\<exists>s' cs. send_data env (Some td) s = Inr s' \<and> concat cs = event_items td \<and>
     (\<forall>c \<in> set cs. 0 < length c \<and> length c \<le> mTransmitThreshold s) \<and> (\<forall>c \<in> set (butlast cs). length c = mTransmitThreshold s) \<and>
     channel s' = fold (deliver env (setCollectionSchemeParameters td)) (map (message_for (mIDTranslator (mProtoWriter s)) td) cs) (channel s)"
proof -
  obtain s' where s': "send_data env (Some td) s = Inr s'"
    "channel s' = fold (deliver env (setCollectionSchemeParameters td))
       (map (message_for (mIDTranslator (mProtoWriter s)) td) (chunks (mTransmitThreshold s) (event_items td))) (channel s)"
    using sent_messages [OF assms] by blast
  show ?thesis
    by (intro exI conjI) (rule s'(1), rule chunks_concat [OF assms(1)], use chunks_length in blast, use chunks_butlast in blast, rule s'(2))
qed

section \<open>The local file\<close>

text \<open>Trouble codes are not among the entries.\<close>

definition json_entries :: "TriggeredCollectionSchemeData \<Rightarrow> json_entry list" where
  "json_entries td =
     map (\<lambda>x. JsonSignal (csSignalID x) (s64 (sub64 (csReceiveTime x) (triggerTime td))) (csValue x)) (trSignals td) @
     map (\<lambda>f. JsonFrame (cfFrameID f) (cfChannelID f) (s64 (sub64 (cfReceiveTime f) (triggerTime td))) (take (cfSize f) (cfData f))) (trCanFrames td) @
     (if geohash_hasItems (trGeohashInfo td) then [JsonGeohash (mGeohashString (trGeohashInfo td)) (mPrevReportedGeohashString (trGeohashInfo td))] else [])"

definition same_json :: "'ch collection_sender \<Rightarrow> 'ch collection_sender \<Rightarrow> bool" where
  "same_json s s' \<longleftrightarrow> mJsonOutputEnabled s' = mJsonOutputEnabled s \<and> jsonFiles s' = jsonFiles s"

lemma json_keeps:
  "mJsonWriter (flush_full env td s) = mJsonWriter s" "same_json s' (flush_full env td s) = same_json s' s"
  "mJsonWriter (start_dtcs td s) = mJsonWriter s" "same_json s' (start_dtcs td s) = same_json s' s"
  "mJsonWriter (send_dtc env td d s) = mJsonWriter s" "same_json s' (send_dtc env td d s) = same_json s' s"
  by (simp_all add: flush_full_def start_message_def serializeAndTransmit_def start_dtcs_def send_dtc_def same_json_def Let_def)

lemma json_dtcs: "mJsonWriter (fold (send_dtc env td) ds s) = mJsonWriter s \<and> same_json s' (fold (send_dtc env td) ds s) = same_json s' s"
  by (induction ds arbitrary: s) (simp_all add: json_keeps)

lemma json_signals:
  "mJsonOutputEnabled s \<Longrightarrow> jwTriggerTime (mJsonWriter s) = t \<Longrightarrow>
   mJsonWriter (fold (send_signal env td) xs s) = (mJsonWriter s)\<lparr>jwMessages := jwMessages (mJsonWriter s) @
     map (\<lambda>x. JsonSignal (csSignalID x) (s64 (sub64 (csReceiveTime x) t)) (csValue x)) xs\<rparr> \<and>
   same_json s (fold (send_signal env td) xs s)"
proof (induction xs arbitrary: s)
  case Nil
  then show ?case by (simp add: same_json_def)
next
  case (Cons x xs)
  let ?s = "send_signal env td x s"
  have s: "mJsonWriter ?s = json_signal x (mJsonWriter s)" "same_json s ?s"
    using Cons.prems(1) by (simp_all add: send_signal_def json_keeps) (simp add: same_json_def)
  show ?case using Cons.IH [of ?s] Cons.prems s by (simp add: json_signal_def same_json_def)
qed

lemma json_frames:
  "mJsonOutputEnabled s \<Longrightarrow> jwTriggerTime (mJsonWriter s) = t \<Longrightarrow> \<forall>f \<in> set xs. frame_in_array f \<Longrightarrow>
   mJsonWriter (fold (frame_total env td) xs s) = (mJsonWriter s)\<lparr>jwMessages := jwMessages (mJsonWriter s) @
     map (\<lambda>f. JsonFrame (cfFrameID f) (cfChannelID f) (s64 (sub64 (cfReceiveTime f) t)) (take (cfSize f) (cfData f))) xs\<rparr> \<and>
   same_json s (fold (frame_total env td) xs s)"
proof (induction xs arbitrary: s)
  case Nil
  then show ?case by (simp add: same_json_def)
next
  case (Cons x xs)
  let ?s = "frame_total env td x s"
  have a: "cfSize x \<le> length (cfData x)" using Cons.prems(3) by (simp add: frame_in_array_def)
  then have s: "Inr (mJsonWriter ?s) = json_frame x (mJsonWriter s)" "same_json s ?s"
    using Cons.prems(1) by (simp_all add: frame_total_def send_frame_def json_frame_def append_frame_def json_keeps) (simp add: same_json_def)
  show ?case using Cons.IH [of ?s] Cons.prems s a by (simp add: json_frame_def same_json_def)
qed

text \<open>The file written for an event.\<close>

theorem local_file:
  assumes "mJsonOutputEnabled s" and "\<forall>f \<in> set (trCanFrames td). frame_in_array f" and "json_entries td \<noteq> []"
  shows "\<exists>s' w. send_data env (Some td) s = Inr s' \<and> jwMessages w = json_entries td \<and>
     jwEvent w = Some \<lparr>jeCollectionSchemeARN = collectionSchemeID (trMetaData td), jeDecoderARN = decoderID (trMetaData td),
       jeEventID = eventID td, jeEventTime = triggerTime td\<rparr> \<and>
     jsonFiles s' = jsonFiles s @ [flushToFile (writeJson env) (snappy env) (jsonClock env) w]"
proof -
  let ?b = "begin_event td s"
  have b: "mJsonWriter ?b = setupEvent td (eventID td) (mJsonWriter s)" "same_json s ?b"
    using assms(1) by (simp_all add: begin_event_def start_message_def same_json_def Let_def)
  let ?s1 = "fold (send_signal env td) (trSignals td) ?b"
  have s1: "mJsonWriter ?s1 = (mJsonWriter ?b)\<lparr>jwMessages := jwMessages (mJsonWriter ?b) @
     map (\<lambda>x. JsonSignal (csSignalID x) (s64 (sub64 (csReceiveTime x) (triggerTime td))) (csValue x)) (trSignals td)\<rparr>" "same_json ?b ?s1"
    using json_signals [of ?b "triggerTime td" env td "trSignals td"] b assms(1) by (simp_all add: setupEvent_def same_json_def)
  let ?s2 = "fold (frame_total env td) (trCanFrames td) ?s1"
  have s2: "mJsonWriter ?s2 = (mJsonWriter ?s1)\<lparr>jwMessages := jwMessages (mJsonWriter ?s1) @
     map (\<lambda>f. JsonFrame (cfFrameID f) (cfChannelID f) (s64 (sub64 (cfReceiveTime f) (triggerTime td))) (take (cfSize f) (cfData f))) (trCanFrames td)\<rparr>"
    "same_json ?s1 ?s2"
    using json_frames [of ?s1 "triggerTime td" "trCanFrames td" env td] s1 b assms by (simp_all add: setupEvent_def same_json_def)
  let ?s3 = "if dtc_hasItems (trDTCInfo td) then fold (send_dtc env td) (mDTCCodes (trDTCInfo td)) (start_dtcs td ?s2) else ?s2"
  have s3: "mJsonWriter ?s3 = mJsonWriter ?s2" "same_json ?s2 ?s3"
    using json_dtcs [of env td "mDTCCodes (trDTCInfo td)" "start_dtcs td ?s2" ?s2] by (simp_all add: json_keeps) (simp add: same_json_def)
  have on: "mJsonOutputEnabled ?s3" using s3 s2 s1 b assms(1) by (simp add: same_json_def)
  let ?s4 = "if geohash_hasItems (trGeohashInfo td) then send_geohash env td ?s3 else ?s3"
  have s4: "mJsonWriter ?s4 = (if geohash_hasItems (trGeohashInfo td) then json_geohash (trGeohashInfo td) (mJsonWriter ?s3) else mJsonWriter ?s3)"
    "same_json ?s3 ?s4"
    using on by (simp_all add: send_geohash_def json_keeps) (simp add: same_json_def)
  let ?w = "mJsonWriter ?s4"
  have w: "jwMessages ?w = json_entries td" "jwEvent ?w = jwEvent (mJsonWriter ?b)"
    unfolding s4 s3 s2 s1 b by (simp_all add: json_geohash_def json_entries_def setupEvent_def)
  let ?s5 = "flush_json env ?s4"
  have "same_json s ?s4" using b s1 s2 s3 s4 by (simp add: same_json_def)
  then have f: "jsonFiles ?s5 = jsonFiles s @ [flushToFile (writeJson env) (snappy env) (jsonClock env) ?w]"
    using assms(1,3) w(1) by (simp add: flush_json_def same_json_def)
  let ?s6 = "if mVehicleDataMsgCount (mProtoWriter ?s5) \<ge> 1 then serializeAndTransmit env ?s5 else ?s5"
  have "send_data env (Some td) s = Inr ?s6"
    unfolding send_data_def by (simp only: send_frames_total [OF assms(2)] option.case ub_bind_simps Let_def)
  moreover have "jsonFiles ?s6 = jsonFiles ?s5" by (simp add: serializeAndTransmit_def)
  ultimately show ?thesis using w f b(1) by (intro exI [of _ ?s6] exI [of _ ?w]) (simp add: setupEvent_def)
qed

end
