(* ===== verification/CloudUpload.thy ===== *)
theory CloudUpload
  imports CloudChannel UploadChunks
begin

text \<open>
  The upload loop (\<open>IoTFleetWiseEngine::doWork\<close> and \<open>checkAndSendRetrievedData\<close>): collected data is
  sent as it arrives, and what was stored without a connection is retrieved and sent later. The
  lemmas show what of it arrives.
\<close>

section \<open>The contract of a channel\<close>

text \<open>What those who send rely on: exactly the payloads that were accepted are handed over, in order.\<close>

locale cloud_sender =
  fixes send :: "nat list \<Rightarrow> CollectionSchemeParams \<Rightarrow> 'ch \<Rightarrow> ConnectivityError \<times> 'ch"
    and handed :: "'ch \<Rightarrow> nat list list"
  assumes accepted: "send p prm c = (Success, c') \<Longrightarrow> handed c' = handed c @ [p]"
    and refused: "send p prm c = (e, c') \<Longrightarrow> e \<noteq> Success \<Longrightarrow> handed c' = handed c"
begin

text \<open>Sending until the first failure.\<close>

fun send_until :: "CollectionSchemeParams \<Rightarrow> nat list list \<Rightarrow> 'ch \<Rightarrow> ConnectivityError \<times> 'ch" where
  "send_until prm [] c = (Success, c)"
| "send_until prm (p # ps) c = (case send p prm c of (e, c) \<Rightarrow> if e \<noteq> Success then (e, c) else send_until prm ps c)"

lemma send_until_prefix:
  "send_until prm ps c = (e, c') \<Longrightarrow> \<exists>k \<le> length ps. handed c' = handed c @ take k ps \<and> (e = Success \<longleftrightarrow> k = length ps)"
proof (induction ps arbitrary: c)
  case Nil
  then show ?case by auto
next
  case (Cons p ps)
  obtain e1 c1 where s: "send p prm c = (e1, c1)" by (cases "send p prm c")
  show ?case
  proof (cases "e1 = Success")
    case True
    then obtain k where "k \<le> length ps" "handed c' = handed c1 @ take k ps" "e = Success \<longleftrightarrow> k = length ps"
      using Cons s by auto
    then show ?thesis using accepted [OF s [unfolded True]] by (intro exI [of _ "Suc k"]) simp
  next
    case False
    then show ?thesis using Cons.prems s refused [OF s False] by (intro exI [of _ 0]) simp
  qed
qed

end

interpretation mqtt: cloud_sender "\<lambda>buf. channel_send env ch (Some buf)" "\<lambda>w. map snd (cwPublished w)" for env ch
proof
  fix p prm c c'
  assume "channel_send env ch (Some p) prm c = (Success, c')"
  then show "map snd (cwPublished c') = map snd (cwPublished c) @ [p]" by (cases rule: send_cases) auto
next
  fix p prm c e c'
  assume "channel_send env ch (Some p) prm c = (e, c')" "e \<noteq> Success"
  then show "map snd (cwPublished c') = map snd (cwPublished c)" by (cases rule: send_cases) auto
qed

section \<open>Stored data\<close>

text \<open>The sender of collected data on a channel; the codecs of messages and of the local file are parameters.\<close>

definition cloud_upload ::
  "cloud_env \<Rightarrow> aws_channel \<Rightarrow> (VehicleData \<Rightarrow> nat list option) \<Rightarrow> (json_event option \<Rightarrow> json_entry list \<Rightarrow> nat list) \<Rightarrow> nat \<Rightarrow> cloud upload_env" where
  "cloud_upload env ch serialize json time =
     \<lparr>serializeMessage = serialize, snappy = ceCompress env, senderSend = (\<lambda>buf. channel_send env ch (Some buf)),
      writeJson = json, jsonClock = time\<rparr>"

fun transmit_all :: "'ch upload_env \<Rightarrow> nat list list \<Rightarrow> 'ch \<Rightarrow> ConnectivityError \<times> 'ch" where
  "transmit_all env [] ch = (Success, ch)"
| "transmit_all env (p # ps) ch =
     (let (res, ch) = transmit_payload env p ch in if res \<noteq> Success then (res, ch) else transmit_all env ps ch)"

definition checkAndSendRetrievedData :: "cloud_env \<Rightarrow> cloud upload_env \<Rightarrow> cloud \<Rightarrow> (bool \<times> cloud) ub_result" where
  "checkAndSendRetrievedData env up w =
     ub_bind (retrieveData (ceFS env) (ceUncompress env) (ceJunk env) (cwDisk w)) (\<lambda>(status, payloads).
       if status = SUCCESS
       then let (res, w) = transmit_all up payloads w in
         if res = Success
         then Inr (True, w\<lparr>cwDisk := snd (persistency_erase (ceFS env) EDGE_TO_CLOUD_PAYLOAD (cwDisk w))\<rparr>)
         else Inr (False, w)
       else Inr (status = EMPTY, w))"

section \<open>The loop\<close>

definition FAST_RETRY_UPLOAD_PERSISTED_INTERVAL_MS :: nat where "FAST_RETRY_UPLOAD_PERSISTED_INTERVAL_MS = 1000"
definition DEFAULT_RETRY_UPLOAD_PERSISTED_INTERVAL_MS :: nat where "DEFAULT_RETRY_UPLOAD_PERSISTED_INTERVAL_MS = 10000"

text \<open>
  The interval from the configuration: whether the persistency section has it, and the value the
  section above it has. A value that is absent reads as zero.
\<close>

definition upload_retry_interval :: "bool \<Rightarrow> int option \<Rightarrow> nat" where
  "upload_retry_interval inPersistency staticConfigValue =
     (if inPersistency then nat ((case staticConfigValue of None \<Rightarrow> 0 | Some v \<Rightarrow> v) mod 2 ^ 64)
      else DEFAULT_RETRY_UPLOAD_PERSISTED_INTERVAL_MS)"

record upload_loop =
  ulUploadedOnce :: bool
  ulTimeTrigger :: double
  ulRetryInterval :: nat

definition start_loop :: "nat \<Rightarrow> upload_loop" where
  "start_loop interval = \<lparr>ulUploadedOnce = False, ulTimeTrigger = Fin 0, ulRetryInterval = interval\<rparr>"

definition seconds_of :: "nat \<Rightarrow> double" where
  "seconds_of ms = ddiv (of_integer (int ms)) (Fin 1000)"

text \<open>The time to wait before a round, in seconds, with the time since the last attempt.\<close>

definition plan_wait :: "nat \<Rightarrow> upload_loop \<Rightarrow> upload_loop" where
  "plan_wait elapsed l =
     (if \<not> ulUploadedOnce l
      then l\<lparr>ulTimeTrigger := seconds_of (max (FAST_RETRY_UPLOAD_PERSISTED_INTERVAL_MS div 10)
               (FAST_RETRY_UPLOAD_PERSISTED_INTERVAL_MS - min elapsed FAST_RETRY_UPLOAD_PERSISTED_INTERVAL_MS))\<rparr>
      else if ulRetryInterval l > 0
      then l\<lparr>ulTimeTrigger := seconds_of (max FAST_RETRY_UPLOAD_PERSISTED_INTERVAL_MS
               (ulRetryInterval l - min elapsed (ulRetryInterval l)))\<rparr>
      else l)"

text \<open>
  The wait of a round in milliseconds, cast to 32 bits, which is undefined when it does not fit;
  \<open>None\<close> is a wait that only a notification ends.
\<close>

definition to_u32 :: "double \<Rightarrow> nat ub_result" where
  "to_u32 x =
     (case fin_val x of
        None \<Rightarrow> Inl BadConversion
      | Some q \<Rightarrow>
          let t = (if q < 0 then \<lceil>q\<rceil> else \<lfloor>q\<rfloor>)
          in if 0 \<le> t \<and> t < 2 ^ 32 then Inr (nat t) else Inl BadConversion)"

definition round_wait :: "upload_loop \<Rightarrow> nat option ub_result" where
  "round_wait l =
     (if dlt (Fin 0) (ulTimeTrigger l)
      then ub_bind (to_u32 (dmul (ulTimeTrigger l) (Fin 1000))) (\<lambda>ms. Inr (Some ms))
      else Inr None)"

definition retry_due :: "nat \<Rightarrow> upload_loop \<Rightarrow> bool" where
  "retry_due elapsed l \<longleftrightarrow>
     ulRetryInterval l > 0 \<and> elapsed \<ge> ulRetryInterval l \<or>
     \<not> ulUploadedOnce l \<and> elapsed \<ge> FAST_RETRY_UPLOAD_PERSISTED_INTERVAL_MS"

fun send_queue :: "'ch upload_env \<Rightarrow> TriggeredCollectionSchemeData list \<Rightarrow> 'ch collection_sender \<Rightarrow> 'ch collection_sender ub_result" where
  "send_queue env [] s = Inr s"
| "send_queue env (td # tds) s = ub_bind (send_data env (Some td) s) (send_queue env tds)"

text \<open>What a round does after its wait; the second result is whether the timer was reset.\<close>

definition upload_round ::
  "cloud_env \<Rightarrow> cloud upload_env \<Rightarrow> nat \<Rightarrow> TriggeredCollectionSchemeData list \<Rightarrow> upload_loop \<times> cloud collection_sender \<Rightarrow>
   (bool \<times> upload_loop \<times> cloud collection_sender) ub_result" where
  "upload_round env up elapsed tds = (\<lambda>(l, s).
     ub_bind (send_queue up tds s) (\<lambda>s.
       if \<not> retry_due elapsed l then Inr (False, l, s)
       else if \<not> cwAlive (channel s) then Inr (True, l, s)
       else ub_bind (checkAndSendRetrievedData env up (channel s)) (\<lambda>(ok, w).
              Inr (True, l\<lparr>ulUploadedOnce := ulUploadedOnce l \<or> ok\<rparr>, s\<lparr>channel := w\<rparr>))))"

section \<open>A queue of events\<close>

text \<open>The frames of every event fit into their arrays.\<close>

definition events_fit :: "TriggeredCollectionSchemeData list \<Rightarrow> bool" where
  "events_fit tds \<longleftrightarrow> list_all (\<lambda>d. list_all frame_in_array (trCanFrames d)) tds"

text \<open>Sending keeps the threshold of the sender and its names of the channels.\<close>

definition settings :: "'ch collection_sender \<Rightarrow> nat \<times> CANInterfaceIDTranslator" where
  "settings s = (mTransmitThreshold s, mIDTranslator (mProtoWriter s))"

lemma writer_settings [simp]:
  "mIDTranslator (counted w) = mIDTranslator w" "mIDTranslator (append_signal x w) = mIDTranslator w"
  "mIDTranslator (append_dtc c w) = mIDTranslator w" "mIDTranslator (append_geohash g w) = mIDTranslator w"
  "mIDTranslator (setupDTCInfo i w) = mIDTranslator w" "mIDTranslator (setupVehicleData td n w) = mIDTranslator w"
  by (simp_all add: counted_def append_signal_def append_dtc_def append_geohash_def setupDTCInfo_def setupVehicleData_def)

lemma append_frame_settings: "append_frame f w = Inr w' \<Longrightarrow> mIDTranslator w' = mIDTranslator w"
  by (auto simp: append_frame_def split: if_splits)

lemma step_settings [simp]:
  "settings (serializeAndTransmit env s) = settings s" "settings (start_message td s) = settings s" "settings (start_dtcs td s) = settings s"
  "settings (flush_json env s) = settings s"
  by (simp_all add: settings_def serializeAndTransmit_def start_message_def start_dtcs_def flush_json_def)

lemma flush_full_settings [simp]: "settings (flush_full env td s) = settings s"
  by (simp add: flush_full_def)

lemma writer_change: "mIDTranslator w = mIDTranslator (mProtoWriter s) \<Longrightarrow> settings (s\<lparr>mProtoWriter := w\<rparr>) = settings s"
  by (simp add: settings_def)

lemma json_change [simp]: "settings (s\<lparr>mJsonWriter := w\<rparr>) = settings s"
  by (simp add: settings_def)

lemma send_settings [simp]:
  "settings (send_signal env td x s) = settings s" "settings (send_dtc env td c s) = settings s" "settings (send_geohash env td s) = settings s"
  "settings (begin_event td s) = settings s"
  by (simp_all add: send_signal_def send_dtc_def send_geohash_def begin_event_def Let_def writer_change) (simp_all add: settings_def)

lemma send_frame_settings: "send_frame env td x s = Inr s' \<Longrightarrow> settings s' = settings s"
  by (auto simp: send_frame_def ub_bind_eq_Inr writer_change split: if_splits dest!: append_frame_settings)

lemma send_frames_settings: "send_frames env td xs s = Inr s' \<Longrightarrow> settings s' = settings s"
  by (induction xs arbitrary: s) (auto simp: ub_bind_eq_Inr dest: send_frame_settings)

lemma fold_settings: "(\<And>x s. settings (f x s) = settings s) \<Longrightarrow> settings (fold f xs s) = settings s"
  by (induction xs arbitrary: s) simp_all

lemma send_data_settings: "send_data env (Some td) s = Inr s' \<Longrightarrow> settings s' = settings s"
  by (auto simp: send_data_def ub_bind_eq_Inr Let_def fold_settings dest!: send_frames_settings split: if_splits)

lemma send_queue_settings: "send_queue env tds s = Inr s' \<Longrightarrow> settings s' = settings s"
  by (induction tds arbitrary: s) (auto simp: ub_bind_eq_Inr dest: send_data_settings)

text \<open>What the channel is handed for the events of a list.\<close>

definition handed_over :: "'ch upload_env \<Rightarrow> nat \<Rightarrow> CANInterfaceIDTranslator \<Rightarrow> TriggeredCollectionSchemeData \<Rightarrow> 'ch \<Rightarrow> 'ch" where
  "handed_over env n ids td =
     fold (deliver env (setCollectionSchemeParameters td)) (map (message_for ids td) (chunks n (event_items td)))"

lemma send_queue_sent:
  assumes "settings s = (n, ids)" and "0 < n" and "n \<le> UINT_MAX" and "events_fit tds"
  shows "\<exists>s'. send_queue env tds s = Inr s' \<and> channel s' = fold (handed_over env n ids) tds (channel s)"
  using assms(1,4)
proof (induction tds arbitrary: s)
  case (Cons td tds)
  have n: "mTransmitThreshold s = n" "mIDTranslator (mProtoWriter s) = ids" using Cons.prems(1) by (simp_all add: settings_def)
  have fit: "\<forall>f \<in> set (trCanFrames td). frame_in_array f" "events_fit tds" using Cons.prems(2) by (simp_all add: events_fit_def list_all_iff)
  obtain s1 where s1: "send_data env (Some td) s = Inr s1" "channel s1 = handed_over env n ids td (channel s)"
    using sent_messages [of s td env] assms(2,3) n fit(1) by (auto simp: handed_over_def)
  have "settings s1 = (n, ids)" using send_data_settings [OF s1(1)] Cons.prems(1) by simp
  from Cons.IH [OF this fit(2)] s1 show ?case by simp
qed simp

section \<open>What arrives\<close>

lemma transmit_all_until: "transmit_all (cloud_upload env ch ser json time) ps w = mqtt.send_until env ch default_params ps w"
  by (induction ps arbitrary: w) (auto simp: transmit_payload_def cloud_upload_def split: prod.splits)

text \<open>The payload a message becomes, none when it cannot be encoded or compressed.\<close>

definition message_payload :: "'ch upload_env \<Rightarrow> CollectionSchemeParams \<Rightarrow> VehicleData \<Rightarrow> nat list list" where
  "message_payload env prm m =
     (case serializeMessage env m of
        None \<Rightarrow> []
      | Some out \<Rightarrow> let p = (if prmCompression prm then snappy env out else out) in if prmCompression prm \<and> p = [] then [] else [p])"

definition payloads_of :: "'ch upload_env \<Rightarrow> CollectionSchemeParams \<Rightarrow> VehicleData list \<Rightarrow> nat list list" where
  "payloads_of env prm ms = concat (map (message_payload env prm) ms)"

text \<open>The payloads of events, each with the parameters of its scheme.\<close>

definition event_payloads ::
  "'ch upload_env \<Rightarrow> nat \<Rightarrow> CANInterfaceIDTranslator \<Rightarrow> TriggeredCollectionSchemeData \<Rightarrow> (nat list \<times> CollectionSchemeParams) list" where
  "event_payloads env n ids td =
     (let prm = setCollectionSchemeParameters td
      in map (\<lambda>p. (p, prm)) (payloads_of env prm (map (message_for ids td) (chunks n (event_items td)))))"

definition queue_payloads ::
  "'ch upload_env \<Rightarrow> 'ch collection_sender \<Rightarrow> TriggeredCollectionSchemeData list \<Rightarrow> (nat list \<times> CollectionSchemeParams) list" where
  "queue_payloads env s tds = concat (map (event_payloads env (mTransmitThreshold s) (mIDTranslator (mProtoWriter s))) tds)"

definition send_all :: "'ch upload_env \<Rightarrow> (nat list \<times> CollectionSchemeParams) list \<Rightarrow> 'ch \<Rightarrow> 'ch" where
  "send_all env pps ch = fold (\<lambda>(p, prm) ch. snd (senderSend env p prm ch)) pps ch"

lemma send_all_append [simp]: "send_all env (as @ bs) ch = send_all env bs (send_all env as ch)" "send_all env [] ch = ch"
  by (simp_all add: send_all_def)

lemma deliver_all: "fold (deliver env prm) ms ch = send_all env (map (\<lambda>p. (p, prm)) (payloads_of env prm ms)) ch"
proof (induction ms arbitrary: ch)
  case (Cons m ms)
  have "deliver env prm m ch = send_all env (map (\<lambda>p. (p, prm)) (message_payload env prm m)) ch"
    by (auto simp: deliver_def message_payload_def send_all_def transmit_def Let_def split: option.splits)
  then show ?case using Cons by (simp add: payloads_of_def)
qed (simp add: payloads_of_def)

lemma handed_payloads: "fold (handed_over env n ids) tds ch = send_all env (concat (map (event_payloads env n ids) tds)) ch"
  by (induction tds arbitrary: ch) (simp_all add: handed_over_def deliver_all event_payloads_def Let_def)

lemma send_queue_payloads:
  assumes "0 < mTransmitThreshold s" and "mTransmitThreshold s \<le> UINT_MAX" and "events_fit tds"
  shows "\<exists>s'. send_queue env tds s = Inr s' \<and> channel s' = send_all env (queue_payloads env s tds) (channel s) \<and> settings s' = settings s"
  using send_queue_sent [of s "mTransmitThreshold s" "mIDTranslator (mProtoWriter s)", OF _ assms, of env] send_queue_settings [of env tds s]
  by (auto simp: settings_def handed_payloads queue_payloads_def)

definition sendable :: "nat list \<Rightarrow> bool" where
  "sendable p \<longleftrightarrow> 0 < length p \<and> length p \<le> AWS_IOT_MAX_MESSAGE_SIZE"

lemma store_all_append:
  "snd (store_all fs compr (as @ bs) d) = snd (store_all fs compr bs (snd (store_all fs compr as d)))"
proof (induction as arbitrary: d)
  case (Cons a as)
  then show ?case by (cases a) (simp add: split_beta Let_def)
qed simp

text \<open>Without a connection everything is stored.\<close>

lemma send_all_offline:
  assumes "isTopicValid ch" and "acPayloadManager ch" and "\<not> cwAlive w" and "\<forall>pp \<in> set pps. sendable (fst pp)"
  shows "send_all (cloud_upload env ch ser json time) pps w =
     w\<lparr>cwDisk := snd (store_all (ceFS env) (ceCompress env) pps (cwDisk w))\<rparr>"
  using assms(3,4)
proof (induction pps arbitrary: w)
  case (Cons pp pps)
  obtain p prm where pp: "pp = (p, prm)" by (cases pp)
  let ?w = "w\<lparr>cwDisk := snd (storeData (ceFS env) (ceCompress env) p prm (cwDisk w))\<rparr>"
  have "snd (channel_send env ch (Some p) prm w) = ?w"
    using assms(1,2) Cons.prems pp by (simp add: channel_send_def channel_isAlive_def store_unsent_def sendable_def)
  then show ?case using Cons.IH [of ?w] Cons.prems pp
    by (simp add: send_all_def cloud_upload_def split: prod.splits)
qed simp

text \<open>With a connection and memory everything is published.\<close>

definition memory_for :: "aws_channel \<Rightarrow> nat list list \<Rightarrow> cloud \<Rightarrow> bool" where
  "memory_for ch ps w \<longleftrightarrow> mMemoryUsedAndReserved (cwMemory w) + reserved (map length ps) < 2 ^ 64 \<and>
     (acMaximumHeap ch = 0 \<or> mMemoryUsedAndReserved (cwMemory w) + reserved (map length ps) \<le> acMaximumHeap ch)"

lemma send_online:
  assumes "isTopicValid ch" and "acModule ch" and "cwAlive w" and "sendable p" and "memory_for ch (p # ps) w"
  shows "\<exists>w'. channel_send env ch (Some p) prm w = (Success, w') \<and> cwAlive w' \<and> memory_for ch ps w' \<and>
     cwPublished w' = cwPublished w @ [(acTopicName ch, p)] \<and> cwDisk w' = cwDisk w"
proof -
  let ?t = "mMemoryUsedAndReserved (cwMemory w) + (length p + ALIGNMENT_OFFSET)"
  have le: "?t \<le> mMemoryUsedAndReserved (cwMemory w) + reserved (map length (p # ps))" by simp
  then have u: "u64 ?t = ?t" using assms(5) by (intro u64_id) (simp add: memory_for_def)
  have "\<not> (acMaximumHeap ch \<noteq> 0 \<and> ?t > acMaximumHeap ch)" using assms(5) le by (auto simp: memory_for_def)
  then show ?thesis using assms u
    by (auto simp: channel_send_def channel_isAlive_def reserveMemory_def sendable_def memory_for_def Let_def)
qed

lemma send_all_online:
  assumes "isTopicValid ch" and "acModule ch" and "cwAlive w" and "\<forall>pp \<in> set pps. sendable (fst pp)" and "memory_for ch (map fst pps) w"
  shows "cwPublished (send_all (cloud_upload env ch ser json time) pps w) = cwPublished w @ map (\<lambda>pp. (acTopicName ch, fst pp)) pps"
  using assms(3-5)
proof (induction pps arbitrary: w)
  case (Cons pp pps)
  obtain p prm where pp: "pp = (p, prm)" by (cases pp)
  obtain w1 where w1: "channel_send env ch (Some p) prm w = (Success, w1)" "cwAlive w1" "memory_for ch (map fst pps) w1"
    "cwPublished w1 = cwPublished w @ [(acTopicName ch, p)]"
    using send_online [OF assms(1,2) Cons.prems(1), of p "map fst pps" env prm] Cons.prems(2,3) pp by auto
  from Cons.IH [OF w1(2) _ w1(3)] Cons.prems(2) show ?case using w1 pp
    by (simp add: send_all_def cloud_upload_def)
qed simp

lemma send_until_online:
  assumes "isTopicValid ch" and "acModule ch" and "cwAlive w" and "\<forall>p \<in> set ps. sendable p" and "memory_for ch ps w"
  shows "\<exists>w'. mqtt.send_until env ch prm ps w = (Success, w') \<and>
     cwPublished w' = cwPublished w @ map (Pair (acTopicName ch)) ps \<and> cwDisk w' = cwDisk w"
  using assms(3-5)
proof (induction ps arbitrary: w)
  case (Cons p ps)
  obtain w1 where w1: "channel_send env ch (Some p) prm w = (Success, w1)" "cwAlive w1" "memory_for ch ps w1"
    "cwPublished w1 = cwPublished w @ [(acTopicName ch, p)]" "cwDisk w1 = cwDisk w"
    using send_online [OF assms(1,2) Cons.prems(1) _ Cons.prems(3), of env prm] Cons.prems(2) by auto
  from Cons.IH [OF w1(2) _ w1(3)] Cons.prems(2) show ?case using w1 by auto
qed simp

text \<open>What was stored, if all of it was, is read back in order.\<close>

lemma stored_payloads_read:
  assumes "writes_complete fs" and "codec_ok compr uncompress" and "partition_ok d0" and "content d0 = []"
    and fits: "\<forall>pp \<in> set pps. payload_fits compr pp"
    and all: "fst (store_all fs compr pps d0) = map fst pps"
  obtains d where "store_all fs compr pps d0 = (map fst pps, d)"
    and "retrieveData fs uncompress junk d = Inr (if pps = [] then (EMPTY, []) else (SUCCESS, map fst pps))" and "pps = [] \<longrightarrow> content d = []"
proof -
  obtain d where d: "store_all fs compr pps d0 = (map fst pps, d)" using all by (cases "store_all fs compr pps d0") auto
  obtain kps s' where k: "store_all fs compr pps d0 = (map fst kps, s')" "partition_ok s'"
      "content s' = content d0 @ records compr kps" "\<forall>p \<in> set kps. record_ok compr p"
    using store_all_records [OF assms(1,3), of pps compr] fits by auto
  have kd: "map fst kps = map fst pps" "s' = d" using k(1) d by simp_all
  have "retrieveData fs uncompress junk d = Inr (if pps = [] then (EMPTY, []) else (SUCCESS, map fst pps))"
  proof (cases kps)
    case Nil
    then show ?thesis using k(3) kd assms(4) by (auto simp: retrieveData_def content_size records_def)
  next
    case (Cons p kps')
    then have ne: "content d \<noteq> []" using k(3) kd by (cases p) (simp add: records_def record_bytes_def header_bytes_def)
    have "retrieveData fs uncompress junk d = Inr (SUCCESS, map fst kps)"
      using retrieve_all [OF _ k(2) [unfolded kd(2)] ne, of fs uncompress junk] assms(1,4)
        payload_loop_records [OF assms(2) k(4), of "[]" "[]"] k(3) kd(2) by (simp add: writes_complete_def)
    then show ?thesis using kd Cons by auto
  qed
  moreover have "pps = [] \<longrightarrow> content d = []" using k(3) kd assms(4) by (auto simp: records_def)
  ultimately show ?thesis using d that by blast
qed

section \<open>Rounds without a connection\<close>

text \<open>
  Rounds one after the other: the times since the last attempt before and after the wait of each, and the
  events it finds in the queue.
\<close>

fun upload_rounds ::
  "cloud_env \<Rightarrow> cloud upload_env \<Rightarrow> (nat \<times> nat \<times> TriggeredCollectionSchemeData list) list \<Rightarrow> upload_loop \<times> cloud collection_sender \<Rightarrow>
   (upload_loop \<times> cloud collection_sender) ub_result" where
  "upload_rounds env up [] st = Inr st"
| "upload_rounds env up ((before, elapsed, tds) # rs) (l, s) =
     ub_bind (upload_round env up elapsed tds (plan_wait before l, s)) (\<lambda>(_, st). upload_rounds env up rs st)"

definition round_events :: "(nat \<times> nat \<times> TriggeredCollectionSchemeData list) list \<Rightarrow> TriggeredCollectionSchemeData list" where
  "round_events rs = concat (map (\<lambda>(_, _, tds). tds) rs)"

lemma round_events_simps [simp]: "round_events [] = []" "round_events ((b, e, tds) # rs) = tds @ round_events rs"
  by (simp_all add: round_events_def)

lemma retry_due_plan: "retry_due elapsed (plan_wait before l) = retry_due elapsed l"
  "ulUploadedOnce (plan_wait before l) = ulUploadedOnce l" "ulRetryInterval (plan_wait before l) = ulRetryInterval l"
  by (simp_all add: retry_due_def plan_wait_def)

text \<open>They store every payload, publish nothing and leave the retries as they were.\<close>

lemma offline_rounds:
  assumes "isTopicValid ch" and "acPayloadManager ch" and "\<not> cwAlive (channel s)"
    and "0 < mTransmitThreshold s" and "mTransmitThreshold s \<le> UINT_MAX" and "events_fit (round_events rs)"
    and "\<forall>pp \<in> set (queue_payloads (cloud_upload env ch ser json time) s (round_events rs)). sendable (fst pp)"
  shows "\<exists>l' s'. upload_rounds env (cloud_upload env ch ser json time) rs (l, s) = Inr (l', s') \<and> settings s' = settings s \<and>
     (\<forall>elapsed. retry_due elapsed l' = retry_due elapsed l) \<and>
     channel s' = (channel s)\<lparr>cwDisk := snd (store_all (ceFS env) (ceCompress env)
       (queue_payloads (cloud_upload env ch ser json time) s (round_events rs)) (cwDisk (channel s)))\<rparr>"
  using assms(3-7)
proof (induction rs arbitrary: l s)
  case Nil
  then show ?case by (simp add: queue_payloads_def)
next
  case (Cons r rs)
  let ?up = "cloud_upload env ch ser json time"
  obtain b e tds where r: "r = (b, e, tds)" by (cases r)
  have fit: "events_fit tds" "events_fit (round_events rs)" using Cons.prems(4) r by (simp_all add: events_fit_def)
  obtain s1 where s1: "send_queue ?up tds s = Inr s1" "channel s1 = send_all ?up (queue_payloads ?up s tds) (channel s)" "settings s1 = settings s"
    using send_queue_payloads [OF Cons.prems(2,3) fit(1), of ?up] by blast
  have q: "queue_payloads ?up s1 x = queue_payloads ?up s x" for x using s1(3) by (simp add: queue_payloads_def settings_def)
  have app: "queue_payloads ?up s (as @ bs) = queue_payloads ?up s as @ queue_payloads ?up s bs" for as bs by (simp add: queue_payloads_def)
  have send: "\<forall>pp \<in> set (queue_payloads ?up s tds). sendable (fst pp)" "\<forall>pp \<in> set (queue_payloads ?up s1 (round_events rs)). sendable (fst pp)"
    using Cons.prems(5) r q app by auto
  have c1: "channel s1 = (channel s)\<lparr>cwDisk := snd (store_all (ceFS env) (ceCompress env) (queue_payloads ?up s tds) (cwDisk (channel s)))\<rparr>"
    using send_all_offline [OF assms(1,2) Cons.prems(1) send(1)] s1(2) by simp
  have st: "\<not> cwAlive (channel s1)" "0 < mTransmitThreshold s1" "mTransmitThreshold s1 \<le> UINT_MAX"
    using c1 Cons.prems(1-3) s1(3) by (simp_all add: settings_def)
  have "\<exists>x. upload_round env ?up e tds (plan_wait b l, s) = Inr (x, plan_wait b l, s1)"
    using s1(1) st(1) by (auto simp: upload_round_def)
  with Cons.IH [OF st fit(2) send(2), of "plan_wait b l"] show ?case
    using r s1(3) c1 q app by (auto simp: retry_due_plan store_all_append)
qed

text \<open>
  C12. Let the store be empty, and events be found in any number of rounds of the upload loop that have no
  connection, all of whose payloads the store accepts: their schemes ask for persistence and the partition
  has room. The codec of the store is the inverse of its compression, writes are complete, every payload has
  an allowed size, and the memory of the channel suffices. Then these rounds publish nothing; the first
  due round with a connection publishes exactly the payloads of all events, in order, as would have been
  published with the connection up, and empties the store.
\<close>

theorem offline_data_uploaded:
  fixes s :: "cloud collection_sender" and env :: cloud_env and ch :: aws_channel and time :: nat
    and serialize :: "VehicleData \<Rightarrow> nat list option" and json :: "json_event option \<Rightarrow> json_entry list \<Rightarrow> nat list"
    and rounds :: "(nat \<times> nat \<times> TriggeredCollectionSchemeData list) list"
  defines "up \<equiv> cloud_upload env ch serialize json time" and "w \<equiv> channel s"
  assumes disk: "writes_complete (ceFS env)" "codec_ok (ceCompress env) (ceUncompress env)" "partition_ok (cwDisk w)" "content (cwDisk w) = []"
    and live: "isTopicValid ch" "acModule ch" "acPayloadManager ch" "\<not> cwAlive w"
    and snd: "0 < mTransmitThreshold s" "mTransmitThreshold s \<le> UINT_MAX" "events_fit (round_events rounds)"
    and pps: "pps = queue_payloads up s (round_events rounds)" "\<forall>pp \<in> set pps. sendable (fst pp) \<and> payload_fits (ceCompress env) pp"
    and all: "fst (store_all (ceFS env) (ceCompress env) pps (cwDisk w)) = map fst pps"
    and mem: "memory_for ch (map fst pps) w"
    and due: "retry_due elapsed l"
  shows "\<exists>l1 s1 l2 s2 s3. upload_rounds env up rounds (l, s) = Inr (l1, s1) \<and> cwPublished (channel s1) = cwPublished w \<and>
     upload_round env up elapsed [] (l1, s1\<lparr>channel := (channel s1)\<lparr>cwAlive := True\<rparr>\<rparr>) = Inr (True, l2, s2) \<and> ulUploadedOnce l2 \<and>
     cwPublished (channel s2) = cwPublished w @ map (\<lambda>pp. (acTopicName ch, fst pp)) pps \<and> content (cwDisk (channel s2)) = [] \<and>
     send_queue up (round_events rounds) (s\<lparr>channel := w\<lparr>cwAlive := True\<rparr>\<rparr>) = Inr s3 \<and> cwPublished (channel s3) = cwPublished (channel s2)"
proof -
  have send: "\<forall>pp \<in> set pps. sendable (fst pp)" "\<forall>p \<in> set (map fst pps). sendable p" and fits: "\<forall>pp \<in> set pps. payload_fits (ceCompress env) pp"
    using pps(2) by auto
  obtain d where d: "store_all (ceFS env) (ceCompress env) pps (cwDisk w) = (map fst pps, d)"
      and ret: "retrieveData (ceFS env) (ceUncompress env) (ceJunk env) d = Inr (if pps = [] then (EMPTY, []) else (SUCCESS, map fst pps))"
      and none: "pps = [] \<longrightarrow> content d = []"
    using stored_payloads_read [OF disk fits all] by blast
  obtain l1 s1 where s1: "upload_rounds env up rounds (l, s) = Inr (l1, s1)" "retry_due elapsed l1" "channel s1 = w\<lparr>cwDisk := d\<rparr>"
    using offline_rounds [OF live(1,3) _ snd, of env serialize json time l] live(4) send(1) due d unfolding pps(1) up_def w_def by auto
  let ?on = "(channel s1)\<lparr>cwAlive := True\<rparr>"
  have m: "memory_for ch (map fst pps) ?on" using mem s1(3) by (simp add: memory_for_def)
  obtain w2 where w2: "mqtt.send_until env ch default_params (map fst pps) ?on = (Success, w2)"
      "cwPublished w2 = cwPublished ?on @ map (Pair (acTopicName ch)) (map fst pps)" "cwDisk w2 = cwDisk ?on"
    using send_until_online [OF live(1,2) _ send(2) m, of env default_params] by auto
  have erase: "content (snd (persistency_erase (ceFS env) EDGE_TO_CLOUD_PAYLOAD d)) = []"
    using disk(1) by (simp add: persistency_erase_def writes_complete_def disk_ok_def content_def)
  have "\<exists>w3. checkAndSendRetrievedData env up ?on = Inr (True, w3) \<and>
      cwPublished w3 = cwPublished w @ map (\<lambda>pp. (acTopicName ch, fst pp)) pps \<and> content (cwDisk w3) = []"
  proof (cases "pps = []")
    case True
    then show ?thesis using ret none s1(3) by (simp add: checkAndSendRetrievedData_def)
  next
    case False
    then show ?thesis using ret w2 s1(3) erase by (simp add: checkAndSendRetrievedData_def up_def transmit_all_until comp_def)
  qed
  then obtain w3 where w3: "checkAndSendRetrievedData env up ?on = Inr (True, w3)"
      "cwPublished w3 = cwPublished w @ map (\<lambda>pp. (acTopicName ch, fst pp)) pps" "content (cwDisk w3) = []" by blast
  have round: "upload_round env up elapsed [] (l1, s1\<lparr>channel := ?on\<rparr>) = Inr (True, l1\<lparr>ulUploadedOnce := True\<rparr>, s1\<lparr>channel := w3\<rparr>)"
    using s1(2) w3(1) by (simp add: upload_round_def)
  let ?s = "s\<lparr>channel := w\<lparr>cwAlive := True\<rparr>\<rparr>"
  obtain s3 where s3: "send_queue up (round_events rounds) ?s = Inr s3" "channel s3 = send_all up pps (w\<lparr>cwAlive := True\<rparr>)"
    using send_queue_payloads [of ?s, OF _ _ snd(3), of up] snd(1,2) pps(1) by (auto simp: queue_payloads_def)
  have "memory_for ch (map fst pps) (w\<lparr>cwAlive := True\<rparr>)" using mem by (simp add: memory_for_def)
  from send_all_online [OF live(1,2) _ send(1) this, of env serialize json time]
  have pub: "cwPublished (channel s3) = cwPublished w @ map (\<lambda>pp. (acTopicName ch, fst pp)) pps" using s3(2) by (simp add: up_def)
  show ?thesis
    by (rule exI [of _ l1], rule exI [of _ s1], rule exI [of _ "l1\<lparr>ulUploadedOnce := True\<rparr>"], rule exI [of _ "s1\<lparr>channel := w3\<rparr>"], rule exI [of _ s3])
      (use s1(1,3) round w3 s3(1) pub in simp)
qed

text \<open>
  An attempt to send what is stored either publishes all of it and empties the store, or leaves
  the store as it was; then it published a proper prefix, which the next attempt publishes again.
\<close>

theorem stored_data_kept_until_sent:
  assumes "checkAndSendRetrievedData env (cloud_upload env ch serialize json time) w = Inr (ok, w')"
    and "retrieveData (ceFS env) (ceUncompress env) (ceJunk env) (cwDisk w) = Inr (SUCCESS, ps)"
  shows "\<exists>k \<le> length ps. map snd (cwPublished w') = map snd (cwPublished w) @ take k ps \<and> (ok \<longleftrightarrow> k = length ps) \<and>
     cwDisk w' = (if ok then snd (persistency_erase (ceFS env) EDGE_TO_CLOUD_PAYLOAD (cwDisk w)) else cwDisk w)"
proof -
  let ?up = "cloud_upload env ch serialize json time"
  obtain res w1 where t: "transmit_all ?up ps w = (res, w1)" by (cases "transmit_all ?up ps w")
  obtain k where k: "k \<le> length ps" "map snd (cwPublished w1) = map snd (cwPublished w) @ take k ps" "res = Success \<longleftrightarrow> k = length ps"
    using mqtt.send_until_prefix t unfolding transmit_all_until by blast
  have d: "cwDisk w1 = cwDisk w"
    using t unfolding transmit_all_until
  proof (induction ps arbitrary: w)
    case (Cons p ps)
    obtain e w2 where s: "channel_send env ch (Some p) default_params w = (e, w2)"
      by (cases "channel_send env ch (Some p) default_params w")
    have "cwDisk w2 = cwDisk w"
      using s by (cases rule: send_cases) (auto simp: store_unsent_def storeData_def default_params_def)
    then show ?case using Cons s by (auto split: if_splits)
  qed simp
  show ?thesis using assms t k d by (auto simp: checkAndSendRetrievedData_def split: if_splits)
qed

text \<open>
  A retry interval in the persistency section of the configuration, where the code looks for it
  but does not read it, becomes zero: once stored data was uploaded, no later round ever looks for
  stored data again, and each keeps the last short timeout instead.
\<close>

theorem configured_interval_stops_retries:
  assumes "ulRetryInterval l = upload_retry_interval True None" and "ulUploadedOnce l"
  shows "\<not> retry_due elapsed l \<and> plan_wait elapsed l = l \<and>
     (upload_round env up elapsed tds (l, s) = Inr (reset, l', s') \<longrightarrow> \<not> reset \<and> l' = l)"
proof -
  have "ulRetryInterval l = 0" using assms(1) by (simp add: upload_retry_interval_def)
  then show ?thesis using assms(2)
    by (auto simp: retry_due_def plan_wait_def upload_round_def ub_bind_eq_Inr)
qed

end
