(* ===== verification/CloudSamples.thy ===== *)
theory CloudSamples
  imports CloudUpload
begin

text \<open>The theorems on uploads at work on an event with one item of each kind.\<close>

section \<open>An event\<close>

definition sample_event :: TriggeredCollectionSchemeData where
  "sample_event =
     \<lparr>trMetaData = \<lparr>compress = False, persist = True, priority = 0, decoderID = ''dm'', collectionSchemeID = ''c1''\<rparr>,
      triggerTime = 1000,
      trSignals = [collected_signal 7 990 (Fin 5)],
      trCanFrames = [\<lparr>cfFrameID = 0x123, cfChannelID = 0, cfReceiveTime = 1010, cfData = [1, 2, 0, 0, 0, 0, 0, 0], cfSize = 2\<rparr>],
      trDTCInfo = \<lparr>dtcSID = STORED_DTC, dtcReceiveTime = 900, mDTCCodes = [''P0143'']\<rparr>,
      trGeohashInfo = \<lparr>mGeohashString = ''9q9hwg28j'', mPrevReportedGeohashString = []\<rparr>,
      eventID = 42\<rparr>"

definition sample_ids :: CANInterfaceIDTranslator where
  "sample_ids = translator_add ''can0'' new_translator"

text \<open>An encoding that counts what a message holds.\<close>

definition sample_encoding :: "VehicleData \<Rightarrow> nat list option" where
  "sample_encoding m = Some [length (captured_signals m), length (can_frames m),
     (case dtc_data m of None \<Rightarrow> 0 | Some (t, codes) \<Rightarrow> length codes), of_bool (geohash_data m \<noteq> None)]"

definition sample_cloud_env :: cloud_env where
  "sample_cloud_env = \<lparr>ceFS = good_disk, ceCompress = (\<lambda>x. 7 # x), ceUncompress = (\<lambda>x. Some (tl x)), ceJunk = (\<lambda>_. 0)\<rparr>"

definition sample_channel :: aws_channel where
  "sample_channel = setTopic ''data'' False (new_channel True MAXIMUM_IOT_SDK_HEAP_MEMORY_BYTES)"

definition sample_cloud :: cloud where
  "sample_cloud = \<lparr>cwAlive = False, cwMemory = \<lparr>mMemoryUsedAndReserved = 0, mmBlocks = []\<rparr>, cwDisk = empty_store, cwPublished = [], cwInFlight = []\<rparr>"

definition sample_upload :: "cloud upload_env" where
  "sample_upload = cloud_upload sample_cloud_env sample_channel sample_encoding (\<lambda>_ _. [1]) 5"

definition sample_sender :: "cloud collection_sender" where
  "sample_sender = new_sender sample_cloud False 2 sample_ids ''/tmp''"

lemma sample_threshold [simp]: "mTransmitThreshold sample_sender = 2" "channel sample_sender = sample_cloud"
  "mIDTranslator (mProtoWriter sample_sender) = sample_ids"
  by (simp_all add: sample_sender_def new_sender_def new_proto_writer_def)

lemma sample_frames: "\<forall>f \<in> set (trCanFrames sample_event). frame_in_array f"
  by (simp add: sample_event_def frame_in_array_def)

lemma sample_items:
  "event_items sample_event =
     [ItemSignal (collected_signal 7 990 (Fin 5)),
      ItemFrame \<lparr>cfFrameID = 0x123, cfChannelID = 0, cfReceiveTime = 1010, cfData = [1, 2, 0, 0, 0, 0, 0, 0], cfSize = 2\<rparr>,
      ItemDTC ''P0143'', ItemGeohash]"
  by (simp add: event_items_def sample_event_def geohash_hasItems_def)

lemma sample_chunks:
  "chunks 2 (event_items sample_event) =
     [[ItemSignal (collected_signal 7 990 (Fin 5)),
       ItemFrame \<lparr>cfFrameID = 0x123, cfChannelID = 0, cfReceiveTime = 1010, cfData = [1, 2, 0, 0, 0, 0, 0, 0], cfSize = 2\<rparr>],
      [ItemDTC ''P0143'', ItemGeohash]]"
  unfolding sample_items by (simp add: chunks.simps)

theorem messages_sent_witness:
  "\<exists>s' cs. send_data sample_upload (Some sample_event) sample_sender = Inr s' \<and> concat cs = event_items sample_event \<and>
     length (concat cs) = 4 \<and> (\<forall>c \<in> set (butlast cs). length c = 2)"
proof -
  have t: "0 < mTransmitThreshold sample_sender" "mTransmitThreshold sample_sender \<le> UINT_MAX" by (simp_all add: UINT_MAX_def)
  obtain s' cs where "send_data sample_upload (Some sample_event) sample_sender = Inr s'" "concat cs = event_items sample_event"
    "\<forall>c \<in> set (butlast cs). length c = mTransmitThreshold sample_sender"
    using messages_sent [OF t sample_frames, of sample_upload] by blast
  then show ?thesis by (intro exI conjI) (assumption, assumption, simp add: sample_items, simp)
qed

section \<open>The channel\<close>

lemma sample_cloud_reachable: "cloud_reachable sample_cloud_env 10000000 empty_store sample_cloud"
  unfolding sample_cloud_def by (rule cloud_reachable.start)

text \<open>The connection comes up, and a message is on its way.\<close>

definition sample_busy_cloud :: cloud where
  "sample_busy_cloud = snd (channel_send sample_cloud_env sample_channel (Some [1, 2]) (sample_params False) (sample_cloud\<lparr>cwAlive := True\<rparr>))"

lemma sample_busy:
  "channel_send sample_cloud_env sample_channel (Some [1, 2]) (sample_params False) (sample_cloud\<lparr>cwAlive := True\<rparr>) = (Success, sample_busy_cloud)"
  "cwInFlight sample_busy_cloud = [2]" "cwPublished sample_busy_cloud = [(''data'', [1, 2])]" "mmBlocks (cwMemory sample_busy_cloud) = []"
  by (simp_all add: sample_busy_cloud_def channel_send_def sample_channel_def setTopic_def new_channel_def isTopicValid_def channel_isAlive_def
      sample_cloud_def AWS_IOT_MAX_MESSAGE_SIZE_def reserveMemory_def ALIGNMENT_OFFSET_def u64_def MAXIMUM_IOT_SDK_HEAP_MEMORY_BYTES_def)

lemma sample_busy_reachable: "cloud_reachable sample_cloud_env 10000000 empty_store sample_busy_cloud"
proof (rule cloud_reachable.step [OF cloud_reachable.step [OF sample_cloud_reachable cloud_step.Connection]])
  show "cloud_step sample_cloud_env 10000000 (sample_cloud\<lparr>cwAlive := True\<rparr>) sample_busy_cloud"
    by (rule cloud_step.Send [OF _ sample_busy(1)])
      (simp add: sample_channel_def setTopic_def new_channel_def MAXIMUM_IOT_SDK_HEAP_MEMORY_BYTES_def)
qed

theorem channels_within_limits_witness:
  "cloud_reachable sample_cloud_env 10000000 empty_store sample_busy_cloud \<and> cwPublished sample_busy_cloud = [(''data'', [1, 2])] \<and>
   mMemoryUsedAndReserved (cwMemory sample_busy_cloud) = 2 + ALIGNMENT_OFFSET \<and> reserved (cwInFlight sample_busy_cloud) \<le> 10000000"
  using channels_within_limits [OF sample_busy_reachable] sample_busy_reachable by (simp add: sample_busy allocated_def)

definition sample_receivers :: "aws_channel list" where
  "sample_receivers = [setTopic ''schemes'' True (new_channel False 0), setTopic ''manifests'' True (new_channel False 0)]"

theorem subscribe_error_blocks_witness:
  "subscribe_channels [\<lparr>ackErrorCode = 5, ackPacketId = 0, ackQosFailure = False\<rparr>, \<lparr>ackErrorCode = 0, ackPacketId = 1, ackQosFailure = False\<rparr>]
     True sample_receivers = Blocked"
proof -
  let ?acks = "[\<lparr>ackErrorCode = 5, ackPacketId = 0, ackQosFailure = False\<rparr>, \<lparr>ackErrorCode = 0, ackPacketId = 1, ackQosFailure = False\<rparr>]"
  have c: "\<forall>ch \<in> set sample_receivers. isTopicValid ch \<and> acModule ch"
    by (simp add: sample_receivers_def setTopic_def new_channel_def isTopicValid_def)
  have l: "length ?acks = length (filter acSubscribeAsynchronously sample_receivers)" by (simp add: sample_receivers_def setTopic_def new_channel_def)
  show ?thesis by (subst subscribe_error_blocks [OF c l]) simp
qed

section \<open>Offline\<close>

text \<open>The event is found in two rounds; in the second a retry is due already.\<close>

definition sample_rounds :: "(nat \<times> nat \<times> TriggeredCollectionSchemeData list) list" where
  "sample_rounds = [(0, 500, [sample_event]), (500, 1200, [sample_event])]"

definition sample_pps :: "(nat list \<times> CollectionSchemeParams) list" where
  "sample_pps = map (\<lambda>p. (p, sample_params False)) [[1, 1, 0, 0], [0, 0, 1, 1], [1, 1, 0, 0], [0, 0, 1, 1]]"

lemma sample_params_eq: "setCollectionSchemeParameters sample_event = sample_params False"
  by (simp add: setCollectionSchemeParameters_def sample_event_def sample_params_def)

lemma sample_event_payloads:
  "event_payloads sample_upload 2 ids sample_event = map (\<lambda>p. (p, sample_params False)) [[1, 1, 0, 0], [0, 0, 1, 1]]"
  unfolding event_payloads_def sample_chunks sample_params_eq sample_upload_def
  by (simp add: Let_def payloads_of_def message_payload_def cloud_upload_def sample_encoding_def message_for_def message_with_def sample_params_def)

lemma sample_pps_eq:
  "sample_pps = queue_payloads sample_upload sample_sender (round_events sample_rounds)"
  unfolding queue_payloads_def sample_threshold by (simp add: sample_pps_def sample_rounds_def sample_event_payloads)

lemma sample_stored:
  "fst (store_all good_disk (\<lambda>x. 7 # x) sample_pps empty_store) = map fst sample_pps"
  by (simp add: sample_pps_def storeData_write record_bytes_def stored_bytes_def sample_params_def header_bytes_def persistency_write_def
      getSize_def empty_store_def good_disk_def u64_def Let_def)

theorem offline_data_uploaded_witness:
  "\<exists>l1 s1 l2 s2. upload_rounds sample_cloud_env sample_upload sample_rounds (start_loop 10000, sample_sender) = Inr (l1, s1) \<and>
     cwPublished (channel s1) = [] \<and>
     upload_round sample_cloud_env sample_upload 1000 [] (l1, s1\<lparr>channel := (channel s1)\<lparr>cwAlive := True\<rparr>\<rparr>) = Inr (True, l2, s2) \<and>
     cwPublished (channel s2) = map (Pair ''data'') [[1, 1, 0, 0], [0, 0, 1, 1], [1, 1, 0, 0], [0, 0, 1, 1]]"
proof -
  have w: "channel sample_sender = sample_cloud" by simp
  have disk: "writes_complete (ceFS sample_cloud_env)" "codec_ok (ceCompress sample_cloud_env) (ceUncompress sample_cloud_env)"
    "partition_ok (cwDisk (channel sample_sender))" "content (cwDisk (channel sample_sender)) = []"
    by (simp_all add: sample_cloud_env_def writes_complete_def disk_ok_def good_disk_def codec_ok_def sample_cloud_def empty_store_ok)
  have live: "isTopicValid sample_channel" "acModule sample_channel" "acPayloadManager sample_channel" "\<not> cwAlive (channel sample_sender)"
    by (simp_all add: sample_channel_def setTopic_def new_channel_def isTopicValid_def sample_cloud_def)
  have t: "0 < mTransmitThreshold sample_sender" "mTransmitThreshold sample_sender \<le> UINT_MAX" by (simp_all add: UINT_MAX_def)
  have fit: "events_fit (round_events sample_rounds)" using sample_frames by (simp add: events_fit_def sample_rounds_def list_all_iff)
  have ps: "\<forall>pp \<in> set sample_pps. sendable (fst pp) \<and> payload_fits (ceCompress sample_cloud_env) pp"
    by (simp add: sample_pps_def sendable_def payload_fits_def stored_bytes_def sample_cloud_env_def AWS_IOT_MAX_MESSAGE_SIZE_def sample_params_def)
  have all: "fst (store_all (ceFS sample_cloud_env) (ceCompress sample_cloud_env) sample_pps (cwDisk (channel sample_sender))) = map fst sample_pps"
    using sample_stored by (simp add: sample_cloud_env_def sample_cloud_def)
  have mem: "memory_for sample_channel (map fst sample_pps) (channel sample_sender)"
    by (simp add: memory_for_def sample_pps_def sample_cloud_def sample_channel_def setTopic_def new_channel_def
        MAXIMUM_IOT_SDK_HEAP_MEMORY_BYTES_def ALIGNMENT_OFFSET_def)
  have due: "retry_due 1000 (start_loop 10000)"
    by (simp add: retry_due_def start_loop_def FAST_RETRY_UPLOAD_PERSISTED_INTERVAL_MS_def)
  have topic: "acTopicName sample_channel = ''data''" by (simp add: sample_channel_def setTopic_def)
  have none: "cwPublished sample_cloud = []" by (simp add: sample_cloud_def)
  from offline_data_uploaded [OF disk live t fit sample_pps_eq [unfolded sample_upload_def] ps all mem due]
  show ?thesis unfolding w none topic sample_upload_def [symmetric] by (elim exE conjE, intro exI conjI) (assumption, simp, assumption, simp add: sample_pps_def)
qed

definition sample_stored_cloud :: cloud where
  "sample_stored_cloud = sample_cloud\<lparr>cwAlive := True,
     cwDisk := snd (store_all good_disk (\<lambda>x. 7 # x) [([1, 2], sample_params True), ([3], sample_params False)] empty_store)\<rparr>"

lemma sample_retrieved: "retrieveData good_disk (\<lambda>x. Some (tl x)) (\<lambda>_. 0) (cwDisk sample_stored_cloud) = Inr (SUCCESS, [[1, 2], [3]])"
proof -
  let ?ps = "[([1, 2], sample_params True), ([3], sample_params False)] :: (nat list \<times> CollectionSchemeParams) list"
  have g: "writes_complete good_disk" by (simp add: writes_complete_def disk_ok_def good_disk_def)
  have c: "codec_ok (\<lambda>x. 7 # x) (\<lambda>x. Some (tl x))" by (simp add: codec_ok_def)
  have f: "\<forall>p \<in> set ?ps. payload_fits (\<lambda>x. 7 # x) p" by (simp add: payload_fits_def stored_bytes_def sample_params_def)
  have k: "fst (store_all good_disk (\<lambda>x. 7 # x) ?ps empty_store) = [[1, 2], [3]]"
    by (simp add: storeData_write record_bytes_def stored_bytes_def sample_params_def header_bytes_def persistency_write_def getSize_def
        empty_store_def good_disk_def u64_def Let_def)
  obtain kps s' where s': "store_all good_disk (\<lambda>x. 7 # x) ?ps empty_store = (map fst kps, s')" "partition_ok s'"
      "content s' = records (\<lambda>x. 7 # x) kps" "\<forall>p \<in> set kps. record_ok (\<lambda>x. 7 # x) p"
    using store_all_records [OF g empty_store_ok(1) f] empty_store_ok(2) by auto
  have kps: "map fst kps = [[1, 2], [3]]" using k s'(1) by simp
  then have "content s' \<noteq> []" using s'(3) by (cases kps) (auto simp: records_def record_bytes_def header_bytes_def)
  then have "retrieveData good_disk (\<lambda>x. Some (tl x)) (\<lambda>_. 0) s' = Inr (SUCCESS, map fst kps)"
    using retrieve_all [OF _ s'(2), of good_disk "\<lambda>x. Some (tl x)" "\<lambda>_. 0"] g payload_loop_records [OF c s'(4), of "[]" "[]"] s'(3)
    by (simp add: writes_complete_def)
  then show ?thesis using kps s'(1) by (simp add: sample_stored_cloud_def)
qed

text \<open>A limit that leaves room for the first payload only.\<close>

definition narrow_channel :: aws_channel where
  "narrow_channel = setTopic ''data'' False (new_channel True 20)"

theorem stored_data_kept_until_sent_witness:
  "\<exists>w'. checkAndSendRetrievedData sample_cloud_env (cloud_upload sample_cloud_env narrow_channel sample_encoding (\<lambda>_ _. [1]) 5) sample_stored_cloud =
     Inr (False, w') \<and> map snd (cwPublished w') = [[1, 2]] \<and> cwDisk w' = cwDisk sample_stored_cloud"
proof -
  let ?up = "cloud_upload sample_cloud_env narrow_channel sample_encoding (\<lambda>_ _. [1]) 5"
  have r: "retrieveData (ceFS sample_cloud_env) (ceUncompress sample_cloud_env) (ceJunk sample_cloud_env) (cwDisk sample_stored_cloud) =
      Inr (SUCCESS, [[1, 2], [3]])"
    using sample_retrieved by (simp add: sample_cloud_env_def)
  have t: "\<exists>w'. transmit_all ?up [[1, 2], [3]] sample_stored_cloud = (QuotaReached, w') \<and> map snd (cwPublished w') = [[1, 2]]"
    by (simp add: transmit_payload_def cloud_upload_def channel_send_def narrow_channel_def setTopic_def new_channel_def isTopicValid_def
        channel_isAlive_def sample_stored_cloud_def sample_cloud_def AWS_IOT_MAX_MESSAGE_SIZE_def reserveMemory_def ALIGNMENT_OFFSET_def u64_def)
  then obtain w' where w': "checkAndSendRetrievedData sample_cloud_env ?up sample_stored_cloud = Inr (False, w')" "map snd (cwPublished w') = [[1, 2]]"
    using r by (auto simp: checkAndSendRetrievedData_def)
  then show ?thesis using stored_data_kept_until_sent [OF w'(1) r] by auto
qed

theorem configured_interval_stops_retries_witness:
  "\<not> retry_due 1000000 \<lparr>ulUploadedOnce = True, ulTimeTrigger = Fin 1, ulRetryInterval = 0\<rparr>"
proof -
  have i: "ulRetryInterval \<lparr>ulUploadedOnce = True, ulTimeTrigger = Fin 1, ulRetryInterval = 0\<rparr> = upload_retry_interval True None"
    by (simp add: upload_retry_interval_def)
  show ?thesis using configured_interval_stops_retries [OF i, of 1000000] by simp
qed

end
