(* ===== verification/DataPipeline.thy ===== *)
theory DataPipeline
  imports InspectionWorker CloudSamples
begin

text \<open>
  From the inspection to the cloud: the raw frames in what the inspection thread publishes always fit
  into their arrays, so that the upload of everything it publishes is defined, and hands every item of
  every event to the channel, in the order of publication.
\<close>

section \<open>Frames keep within their arrays\<close>

definition slot_fits :: "CanFrameSample \<Rightarrow> bool" where
  "slot_fits s \<longleftrightarrow> fsSize s \<le> length (fsBuffer s)"

definition slots_fit :: "CanFrameHistoryBuffer \<Rightarrow> bool" where
  "slots_fit b \<longleftrightarrow> list_all slot_fits (fbBuffer b)"

abbreviation buffers_fit :: "engine \<Rightarrow> bool" where
  "buffers_fit e \<equiv> list_all slots_fit (mCanFrameBuffers e)"

lemma list_all_update: "list_all P xs \<Longrightarrow> P x \<Longrightarrow> list_all P (xs[i := x])"
  by (auto simp: list_all_iff dest: set_update_subset_insert [THEN subsetD])

lemma record_frame_fits: "slots_fit b \<Longrightarrow> record_frame t bytes n b = Inr b' \<Longrightarrow> slots_fit b'"
  by (auto simp: record_frame_def slots_fit_def slot_fits_def Let_def intro!: list_all_update split: if_splits)

lemma add_frame_fits:
  "add_frame_to_buffers canID ch t bytes n bs = Inr bs' \<Longrightarrow> list_all slots_fit bs \<Longrightarrow> list_all slots_fit bs'"
  by (induction bs arbitrary: bs') (auto simp: ub_bind_eq_Inr split: if_splits dest: record_frame_fits)

lemma collect_loop_keeps:
  assumes "collect_loop tk out mark stamp cap n pos xs nt acc = Inr (xs', nt', acc')"
    and "list_all P xs" and "list_all Q acc" and "\<And>s. P s \<Longrightarrow> P (mark s)" and "\<And>s. P s \<Longrightarrow> Q (out s)"
  shows "list_all P xs' \<and> list_all Q acc'"
  using assms(1-3)
proof (induction n arbitrary: pos xs nt acc)
  case (Suc n)
  obtain i s pos1 nt1 where s: "read_at xs i = Inr s"
      "collect_loop tk out mark stamp cap n pos1 (if tk s then xs[i := mark s] else xs) nt1 (if tk s then acc @ [out s] else acc) = Inr (xs', nt', acc')"
    using Suc.prems(1) by (auto simp: Let_def ub_bind_eq_Inr)
  then have "P s" using Suc.prems(2) by (auto simp: read_at_eq_Inr list_all_length)
  then show ?case using Suc.IH [OF s(2)] Suc.prems(2,3) assms(4,5) by (auto simp: list_all_update)
qed simp

lemma collect_frames_fit:
  assumes "collect_frames once n c nt acc b = Inr (b', nt', acc')" and "slots_fit b" and "list_all frame_in_array acc"
  shows "slots_fit b' \<and> list_all frame_in_array acc'"
proof -
  obtain xs where xs: "collect_loop (\<lambda>s. \<not> bit (fsConsumed s) c \<or> \<not> once)
      (\<lambda>s. \<lparr>cfFrameID = fbFrameID b, cfChannelID = fbChannelID b, cfReceiveTime = fsTimestamp s, cfData = fsBuffer s, cfSize = fsSize s\<rparr>)
      (\<lambda>s. s\<lparr>fsConsumed := setAlreadyConsumed c True (fsConsumed s)\<rparr>) fsTimestamp (fbSize b) (min n (fbCounter b))
      (to_int32 (fbCurrentPosition b)) (fbBuffer b) nt acc = Inr (xs, nt', acc')" "b' = b\<lparr>fbBuffer := xs\<rparr>"
    using assms(1) by (auto simp: collect_frames_def ub_bind_eq_Inr)
  from collect_loop_keeps [OF xs(1), of slot_fits frame_in_array] assms(2,3) show ?thesis
    by (simp add: xs(2) slots_fit_def slot_fits_def frame_in_array_def)
qed

lemma find_index_less: "find_index P xs = Some i \<Longrightarrow> i < length xs"
  using find_index_SomeD by fastforce

lemma collectLastCanFrames_fit:
  assumes "collectLastCanFrames f ch iv n c nt acc e = Inr (nt', acc', e')" and "buffers_fit e" and "list_all frame_in_array acc"
  shows "buffers_fit e' \<and> list_all frame_in_array acc'"
proof (cases "find_index (\<lambda>b. fbFrameID b = f \<and> fbChannelID b = ch \<and> fbMinimumSampleIntervalMs b = iv) (mCanFrameBuffers e)")
  case None
  then show ?thesis using assms by (simp add: collectLastCanFrames_def)
next
  case (Some i)
  then obtain b where b: "collect_frames (mSendDataOnlyOncePerCondition e) n c nt acc (mCanFrameBuffers e ! i) = Inr (b, nt', acc')"
      "e' = e\<lparr>mCanFrameBuffers := (mCanFrameBuffers e)[i := b]\<rparr>"
    using assms(1) by (auto simp: collectLastCanFrames_def Let_def ub_bind_eq_Inr)
  have "slots_fit (mCanFrameBuffers e ! i)" using assms(2) find_index_less [OF Some] by (simp add: list_all_length)
  from collect_frames_fit [OF b(1) this assms(3)] show ?thesis using assms(2) by (simp add: b(2) list_all_update)
qed

lemma pack_frames_fit:
  "pack_frames c fs nt acc e = Inr (nt', acc', e') \<Longrightarrow> buffers_fit e \<Longrightarrow> list_all frame_in_array acc \<Longrightarrow>
     buffers_fit e' \<and> list_all frame_in_array acc'"
proof (induction fs arbitrary: nt acc e)
  case (Cons f fs)
  then obtain nt1 acc1 e1 where "collectLastCanFrames (frmID f) (frmChannelID f) (frmMinimumSampleIntervalMs f) (frmSampleBufferSize f) c nt acc e = Inr (nt1, acc1, e1)"
      "pack_frames c fs nt1 acc1 e1 = Inr (nt', acc', e')" by (auto simp: ub_bind_eq_Inr)
  then show ?case using Cons.IH Cons.prems(2,3) collectLastCanFrames_fit by blast
qed simp

text \<open>Signals, evaluation and trouble codes leave the frames alone.\<close>

lemma pack_signals_frames: "pack_signals c ss nt acc e = Inr (t, a, e') \<Longrightarrow> mCanFrameBuffers e' = mCanFrameBuffers e"
proof (induction ss arbitrary: nt acc e)
  case (Cons s ss)
  show ?case
  proof (cases "sigIsConditionOnly s")
    case False
    then obtain nt1 acc1 e1 where l: "collectLastSignals (sigID s) (sigMinimumSampleIntervalMs s) (sigSampleBufferSize s) c nt acc e = Inr (nt1, acc1, e1)"
        "pack_signals c ss nt1 acc1 e1 = Inr (t, a, e')" using Cons.prems by (auto simp: ub_bind_eq_Inr)
    have "mCanFrameBuffers e1 = mCanFrameBuffers e"
      using l(1) by (auto simp: collectLastSignals_def Let_def ub_bind_eq_Inr split: option.splits)
    then show ?thesis using Cons.IH [OF l(2)] by simp
  qed (use Cons in simp)
qed simp

lemma collectData_fit:
  assumes "collectData i nt e = Inr (t, d, e')" and "buffers_fit e"
  shows "buffers_fit e' \<and> list_all frame_in_array (trCanFrames d)"
proof -
  let ?c = "mCondition (mConditions e ! i)"
  obtain t1 s1 e1 where p: "pack_signals i (cndSignals ?c) nt [] e = Inr (t1, s1, e1)"
    using assms by (cases "pack_signals i (cndSignals ?c) nt [] e") (auto simp: collectData_def)
  obtain t2 f2 e2 where q: "pack_frames i (cndCanFrames ?c) t1 [] e1 = Inr (t2, f2, e2)"
    using assms by (cases "pack_frames i (cndCanFrames ?c) t1 [] e1") (auto simp: collectData_def p)
  have "buffers_fit e2 \<and> list_all frame_in_array f2" using pack_frames_fit [OF q] pack_signals_frames [OF p] assms(2) by simp
  moreover have "mCanFrameBuffers e' = mCanFrameBuffers e2" "trCanFrames d = f2"
    using assms(1) by (auto simp: collectData_def Let_def p q split_beta split: if_splits)
  ultimately show ?thesis by simp
qed

lemma generateEventID_frames: "mCanFrameBuffers (snd (generateEventID t e)) = mCanFrameBuffers e"
  by (simp add: generateEventID_def Let_def)

lemma capture_frames: "mCanFrameBuffers (evaluateAndTriggerRichSensorCapture c e) = mCanFrameBuffers e"
  by (simp add: evaluateAndTriggerRichSensorCapture_def)

lemma send_condition_fit:
  assumes "send_condition t i e = Inr (d, e')" and "buffers_fit e"
  shows "buffers_fit e' \<and> list_all frame_in_array (trCanFrames d)"
proof -
  obtain eid e1 where g: "generateEventID t e = (eid, e1)" by (cases "generateEventID t e")
  let ?e = "e1\<lparr>mConditions := (mConditions e1)[i := (mConditions e1 ! i)\<lparr>mEventID := eid\<rparr>]\<rparr>"
  let ?f = "evaluateAndTriggerRichSensorCapture (mConditions ?e ! i) ?e"
  obtain nt e2 where c: "collectData i 0 ?f = Inr (nt, d, e2)" "mCanFrameBuffers e' = mCanFrameBuffers e2"
    using assms(1) by (auto simp: send_condition_def g ub_bind_eq_Inr Let_def)
  have "mCanFrameBuffers ?f = mCanFrameBuffers e" using generateEventID_frames [of t e] g by (simp add: capture_frames)
  then show ?thesis using collectData_fit [OF c(1)] assms(2) c(2) by simp
qed

lemma shallSendData_frames: "shallSendData random p e = (b, e') \<Longrightarrow> mCanFrameBuffers e' = mCanFrameBuffers e"
  by (auto simp: shallSendData_def split: if_splits)

lemma collect_next_loop_fit:
  "collect_next_loop n random t w e = Inr (r, w', e') \<Longrightarrow> buffers_fit e \<Longrightarrow>
     buffers_fit e' \<and> (\<forall>d. r = Some d \<longrightarrow> list_all frame_in_array (trCanFrames d))"
proof (induction n arbitrary: w e)
  case (Suc n)
  define e0 where "e0 = (if mNextConditionToCollectedIndex e \<ge> length (mConditions e) then e\<lparr>mNextConditionToCollectedIndex := 0\<rparr> else e)"
  define i where "i = mNextConditionToCollectedIndex e0"
  have fit: "buffers_fit e0" using Suc.prems(2) by (simp add: e0_def)
  have sent: ?case if "send_condition t i e1 = Inr (d, e')" "r = Some d" "mCanFrameBuffers e1 = mCanFrameBuffers e0" for d e1
    using send_condition_fit [OF that(1)] that(2,3) fit by simp
  have goes: ?case if "collect_next_loop n random t v e1 = Inr (r, w', e')" "mCanFrameBuffers e1 = mCanFrameBuffers e0" for v e1
    using Suc.IH [OF that(1)] that(2) fit by simp
  note step = Suc.prems(1) [unfolded collect_next_loop.simps Let_def, folded e0_def, folded i_def]
  show ?case
  proof (cases "\<not> bit (mConditionsNotTriggeredWaitingPublished e0) i \<and> t \<ge> u64 (mLastTrigger (mConditions e0 ! i) + afterDuration (mCondition (mConditions e0 ! i)))")
    case True
    let ?e1 = "e0\<lparr>mConditionsNotTriggeredWaitingPublished := bs_assign i True (mConditionsNotTriggeredWaitingPublished e0)\<rparr>"
    obtain b e2 where b: "shallSendData random (probabilityToSend (mCondition (mConditions e0 ! i))) ?e1 = (b, e2)" by (cases "shallSendData random (probabilityToSend (mCondition (mConditions e0 ! i))) ?e1")
    have e2: "mCanFrameBuffers e2 = mCanFrameBuffers e0" using shallSendData_frames [OF b] by simp
    show ?thesis
    proof (cases b)
      case True
      then obtain d where "send_condition t i e2 = Inr (d, e')" "r = Some d"
        using step b \<open>\<not> bit _ i \<and> _\<close> by (auto simp: ub_bind_eq_Inr)
      then show ?thesis using sent e2 by blast
    next
      case False
      then have "collect_next_loop n random t w (e2\<lparr>mNextConditionToCollectedIndex := u32 (mNextConditionToCollectedIndex e2 + 1)\<rparr>) = Inr (r, w', e')"
        using step b \<open>\<not> bit _ i \<and> _\<close> by simp
      from goes [OF this] e2 show ?thesis by simp
    qed
  next
    case False
    then show ?thesis using step goes by (auto split: if_splits)
  qed
qed simp

lemma collectNextDataToSend_fit:
  assumes "collectNextDataToSend random t w e = Inr (r, w', e')" and "buffers_fit e"
  shows "buffers_fit e' \<and> (\<forall>d. r = Some d \<longrightarrow> list_all frame_in_array (trCanFrames d))"
proof (cases "bs_all (mConditionsNotTriggeredWaitingPublished e)")
  case True
  then show ?thesis using assms by (simp add: collectNextDataToSend_def)
next
  case False
  then obtain v where "collect_next_loop (length (mConditions e)) random t (2 ^ 32 - 1) e = Inr (r, v, e')"
    using assms(1) by (auto simp: collectNextDataToSend_def Let_def ub_bind_eq_Inr split: option.splits)
  from collect_next_loop_fit [OF this assms(2)] show ?thesis .
qed

section \<open>The operations of the engine\<close>

lemma addNewSignal_frames: "mCanFrameBuffers (addNewSignal s t v e) = mCanFrameBuffers e"
  by (simp add: addNewSignal_def split: prod.split)

lemma evaluate_condition_frames: "evaluate_condition t i e = Inr (b, e') \<Longrightarrow> mCanFrameBuffers e' = mCanFrameBuffers e"
  by (auto simp: evaluate_condition_def Let_def ub_bind_eq_Inr split: if_splits)

lemma evaluate_loop_frames: "evaluate_loop t todo is one e = Inr (b, e') \<Longrightarrow> mCanFrameBuffers e' = mCanFrameBuffers e"
  by (induction "is" arbitrary: one e) (auto simp: ub_bind_eq_Inr split: if_splits dest!: evaluate_condition_frames)

lemma updateAll_frames: "mCanFrameBuffers (updateAllFixedWindowFunctions t e) = mCanFrameBuffers e"
  by (simp add: updateAllFixedWindowFunctions_def split: prod.split)

lemma evaluateConditions_frames: "evaluateConditions t e = Inr (b, e') \<Longrightarrow> mCanFrameBuffers e' = mCanFrameBuffers e"
  by (auto simp: evaluateConditions_def Let_def updateAll_frames split: if_splits dest!: evaluate_loop_frames)

lemma addNewRawCanFrame_fit: "addNewRawCanFrame f ch t bytes n e = Inr e' \<Longrightarrow> buffers_fit e \<Longrightarrow> buffers_fit e'"
  by (auto simp: addNewRawCanFrame_def ub_bind_eq_Inr dest: add_frame_fits)

lemma add_frames_fit: "list_all slots_fit bs \<Longrightarrow> list_all slots_fit (add_frames cs bs)"
proof (induction cs arbitrary: bs)
  case (Cons c cs)
  have new: "slots_fit (can_frame_history_buffer f ch n iv)" for f ch n iv by (simp add: can_frame_history_buffer_def slots_fit_def)
  have "slots_fit ((bs ! i)\<lparr>fbSize := n\<rparr>)" if "i < length bs" for i n using Cons.prems that by (simp add: slots_fit_def list_all_length)
  then show ?case using Cons new by (auto simp: list_all_update dest: find_index_less split: option.split)
qed simp

lemma add_conditions_fit: "add_conditions ps e = (ok, e') \<Longrightarrow> buffers_fit e \<Longrightarrow> buffers_fit e'"
proof (induction ps arbitrary: e)
  case (Cons p ps)
  show ?case
  proof (cases "length (mConditions e) \<ge> MAX_NUMBER_OF_ACTIVE_CONDITION \<or> length (cndSignals p) > MAX_DIFFERENT_SIGNAL_IDS")
    case True
    then show ?thesis using Cons.prems by (auto split: if_splits)
  next
    case False
    obtain ok1 m where a: "add_signals (cndSignals p) (mSignalBuffers e) = (ok1, m)" by (cases "add_signals (cndSignals p) (mSignalBuffers e)")
    show ?thesis
    proof (cases ok1)
      case True
      then show ?thesis using Cons.prems False a by (auto intro!: Cons.IH [of "e\<lparr>mConditions := mConditions e @ [active_condition p], mSignalBuffers := m, mCanFrameBuffers := add_frames (cndCanFrames p) (mCanFrameBuffers e)\<rparr>"] add_frames_fit)
    qed (use Cons.prems False a in auto)
  qed
qed simp

lemma connect_conditions_frames: "mCanFrameBuffers (connect_conditions is e) = mCanFrameBuffers e"
  by (induction "is" arbitrary: e) (simp_all add: split_beta Let_def)

lemma allocate_frames_fit: "list_all slots_fit bs \<Longrightarrow> list_all slots_fit (snd (allocate_frames u bs))"
proof (induction bs arbitrary: u)
  case (Cons b bs)
  have "slots_fit (b\<lparr>fbBuffer := resize default_CanFrameSample (fbSize b) (fbBuffer b)\<rparr>)" "slots_fit (b\<lparr>fbSize := 0\<rparr>)"
    using Cons.prems by (auto simp: slots_fit_def resize_def slot_fits_def default_CanFrameSample_def list_all_iff dest: in_set_takeD)
  then show ?case using Cons by (simp add: Let_def split_beta)
qed simp

lemma onChangeInspectionMatrix_fit: "buffers_fit (onChangeInspectionMatrix M e)"
proof -
  obtain ok e1 where a: "add_conditions (mtxConditions M) ((engine_clear e)\<lparr>mConditionsNotTriggeredWaitingPublished := - 1\<rparr>) = (ok, e1)"
    by fastforce
  have e1: "buffers_fit e1" using add_conditions_fit [OF a] by (simp add: engine_clear_def)
  then show ?thesis
    by (auto simp: onChangeInspectionMatrix_def a preAllocateBuffers_def split_beta Let_def connect_conditions_frames intro: allocate_frames_fit)
qed

section \<open>What the thread publishes\<close>

definition worker_fit :: "worker \<Rightarrow> bool" where
  "worker_fit w \<longleftrightarrow> buffers_fit (wEngine w) \<and> events_fit (published w)"

named_theorems fits "stages of an iteration that keep the frames within their arrays"

lemma take_matrix_fit [fits]: "take_matrix w = Inr w' \<Longrightarrow> worker_fit w \<Longrightarrow> worker_fit w'"
  by (auto simp: take_matrix_def worker_fit_def onChangeInspectionMatrix_fit split: if_splits option.splits)

lemma consume_signal_fit [fits]: "consume_signal inp (a, b, w) = Inr (a', b', w') \<Longrightarrow> worker_fit w \<Longrightarrow> worker_fit w'"
  by (auto simp: consume_signal_def worker_fit_def addNewSignal_frames split: if_splits option.splits)

lemma consume_frame_fit [fits]: "consume_frame inp (a, b, w) = Inr (a', b', w') \<Longrightarrow> worker_fit w \<Longrightarrow> worker_fit w'"
  by (auto simp: consume_frame_def worker_fit_def ub_bind_eq_Inr dest: addNewRawCanFrame_fit split: if_splits option.splits)

lemma consume_dtcs_fit [fits]: "consume_dtcs inp (a, b, w) = Inr (a', b', w') \<Longrightarrow> worker_fit w \<Longrightarrow> worker_fit w'"
  by (auto simp: consume_dtcs_def worker_fit_def setActiveDTCs_def split: if_splits option.splits)

lemma evaluate_now_fit: "evaluate_now env latest w = Inr w' \<Longrightarrow> worker_fit w \<Longrightarrow> worker_fit w'"
  by (auto simp: evaluate_now_def now_def worker_fit_def ub_bind_eq_Inr dest!: evaluateConditions_frames)

lemma evaluate_on_input_fit [fits]: "evaluate_on_input env latest w = Inr w' \<Longrightarrow> worker_fit w \<Longrightarrow> worker_fit w'"
  by (auto simp: evaluate_on_input_def dest: evaluate_now_fit split: if_splits)

lemma clock_fit [simp]: "worker_fit (w\<lparr>wClockReads := n\<rparr>) = worker_fit w" "worker_fit (w\<lparr>wStopReads := n\<rparr>) = worker_fit w"
  by (simp_all add: worker_fit_def)

lemma evaluate_before_sleep_fit [fits]: "evaluate_before_sleep env ready latest w = Inr w' \<Longrightarrow> worker_fit w \<Longrightarrow> worker_fit w'"
  by (auto simp: evaluate_before_sleep_def now_def Let_def dest: evaluate_now_fit split: if_splits)

lemma collect_now_fit:
  assumes "collect_now env wait w = Inr (d, wait', w')" and "worker_fit w"
  shows "worker_fit w' \<and> (\<forall>x. d = Some x \<longrightarrow> list_all frame_in_array (trCanFrames x))"
proof -
  obtain e where "collectNextDataToSend (envRandom env) (envClock env (wClockReads w)) wait (wEngine w) = Inr (d, wait', e)"
      "w' = w\<lparr>wClockReads := wClockReads w + 1, wEngine := e\<rparr>"
    using assms(1) by (auto simp: collect_now_def now_def ub_bind_eq_Inr)
  then show ?thesis using collectNextDataToSend_fit assms(2) by (simp add: worker_fit_def)
qed

lemma push_data_fit: "worker_fit w \<Longrightarrow> list_all frame_in_array (trCanFrames d) \<Longrightarrow> worker_fit (push_data env d w)"
  by (simp add: worker_fit_def push_data_def events_fit_def)

lemma publish_loop_fit:
  "publish_loop n env d wait w = Inr (b, wait', w') \<Longrightarrow> worker_fit w \<Longrightarrow> (\<forall>x. d = Some x \<longrightarrow> list_all frame_in_array (trCanFrames x)) \<Longrightarrow> worker_fit w'"
proof (induction n arbitrary: d wait w)
  case 0
  then show ?case by (cases d) auto
next
  case (Suc n)
  show ?case
  proof (cases d)
    case None
    then show ?thesis using Suc.prems by simp
  next
    case (Some x)
    let ?p = "push_data env x (w\<lparr>wStopReads := wStopReads w + 1\<rparr>)"
    have p: "worker_fit ?p" using Suc.prems(2,3) Some push_data_fit by simp
    show ?thesis
    proof (cases "envStop env (wStopReads w)")
      case True
      then show ?thesis using Suc.prems(1,2) Some by auto
    next
      case False
      then obtain d1 wait1 w1 where c: "collect_now env wait ?p = Inr (d1, wait1, w1)" "publish_loop n env d1 wait1 w1 = Inr (b, wait', w')"
        using Suc.prems(1) Some by (auto simp: ub_bind_eq_Inr)
      then show ?thesis using Suc.IH [OF c(2)] collect_now_fit [OF c(1) p] by blast
    qed
  qed
qed

lemma worker_step_fit:
  assumes "worker_step env inp w = Inr (act, w')" and "worker_fit w"
  shows "worker_fit w'"
proof -
  obtain w1 where w1: "take_matrix w = Inr w1" "worker_fit w1" using assms fits by (auto simp: worker_step_def ub_bind_eq_Inr)
  show ?thesis
  proof (cases "fUpdatedInspectionMatrix w1 = None")
    case True
    then show ?thesis using assms(1) w1 by (simp add: worker_step_def)
  next
    case False
    obtain a2 b2 w2 a3 b3 w3 a4 b4 w4 w5 w6 d t7 w7 fin t8 where st: "consume_signal inp (True, 0, w1) = Inr (a2, b2, w2)"
        "consume_frame inp (a2, b2, w2) = Inr (a3, b3, w3)" "consume_dtcs inp (a3, b3, w3) = Inr (a4, b4, w4)"
        "evaluate_on_input env b4 w4 = Inr w5" "evaluate_before_sleep env a4 b4 w5 = Inr w6"
        "collect_now env (fIdleTimeMs w6) w6 = Inr (d, t7, w7)" "publish_loop MAX_NUMBER_OF_ACTIVE_CONDITION env d t7 w7 = Inr (fin, t8, w')"
      using assms(1) False w1(1) by (auto simp: worker_step_def ub_bind_eq_Inr)
    have "worker_fit w6"
      by (rule evaluate_before_sleep_fit [OF st(5) evaluate_on_input_fit [OF st(4) consume_dtcs_fit [OF st(3)
        consume_frame_fit [OF st(2) consume_signal_fit [OF st(1) w1(2)]]]]])
    from collect_now_fit [OF st(6) this] show ?thesis using publish_loop_fit [OF st(7)] by blast
  qed
qed

lemma worker_reachable_fit: "worker_reachable env w \<Longrightarrow> worker_fit w"
proof (induction rule: worker_reachable.induct)
  case (started out idleTimeMs disabled)
  show ?case by (simp add: worker_fit_def worker_init_def new_worker_def setDataReductionParameters_def init_engine_def events_fit_def)
next
  case (handover w M)
  then show ?case by (simp add: worker_fit_def worker_onChangeInspectionMatrix_def)
next
  case (iteration w inp act w')
  then show ?case using worker_step_fit by blast
qed

section \<open>The upload of everything that was published\<close>

text \<open>
  C6. Everything the inspection thread publishes can be uploaded: for every reachable state of the thread
  and every sender, sending the published events one after the other is defined, and the channel is handed
  each event in the order of publication as messages of at most the threshold, which hold each item of
  the event once and in order.
\<close>

theorem published_data_uploaded:
  assumes "worker_reachable wenv w" and "0 < mTransmitThreshold s" and "mTransmitThreshold s \<le> UINT_MAX"
  shows "\<exists>s'. send_queue up (published w) s = Inr s' \<and>
    channel s' = fold (\<lambda>td. fold (deliver up (setCollectionSchemeParameters td))
      (map (message_for (mIDTranslator (mProtoWriter s)) td) (chunks (mTransmitThreshold s) (event_items td)))) (published w) (channel s) \<and>
    list_all (\<lambda>td. concat (chunks (mTransmitThreshold s) (event_items td)) = event_items td \<and>
      list_all (\<lambda>c. length c \<le> mTransmitThreshold s) (chunks (mTransmitThreshold s) (event_items td))) (published w)"
proof -
  have "events_fit (published w)" using worker_reachable_fit [OF assms(1)] by (simp add: worker_fit_def)
  from send_queue_sent [of s "mTransmitThreshold s" "mIDTranslator (mProtoWriter s)", OF _ assms(2,3) this, of up]
  obtain s' where "send_queue up (published w) s = Inr s'"
      "channel s' = fold (handed_over up (mTransmitThreshold s) (mIDTranslator (mProtoWriter s))) (published w) (channel s)"
    by (auto simp: settings_def)
  then show ?thesis using chunks_concat [OF assms(2)] chunks_length by (auto simp: handed_over_def [abs_def] list_all_iff)
qed

section \<open>A trouble code on its way\<close>

text \<open>A condition that is always true and includes the active trouble codes; one arrives.\<close>

definition code_matrix :: InspectionMatrix where
  "code_matrix = \<lparr>mtxConditions = [sample_condition\<lparr>condition := Some (ExpressionNode BOOLEAN None None (Fin 0) True 0 default_function),
     cndSignals := [], cndCanFrames := [], afterDuration := 0, includeActiveDtcs := True, includeImageCapture := False\<rparr>]\<rparr>"

definition code_worker :: worker where
  "code_worker = worker_onChangeInspectionMatrix (Some code_matrix) (worker_init True True True True 0 True new_worker)"

definition code_input :: worker_input where
  "code_input = \<lparr>inSignal = None, inFrame = None, inDTCs = Some \<lparr>dtcSID = STORED_DTC, dtcReceiveTime = 900, mDTCCodes = [''P0143'']\<rparr>\<rparr>"

lemma code_step:
  "\<exists>act w'. worker_step sample_env code_input code_worker = Inr (act, w') \<and> map event_items (published w') = [[ItemDTC ''P0143'']]"
proof -
  have true: "eval m c (Some (ExpressionNode BOOLEAN None None (Fin 0) True 0 default_function)) g d b MAX_EQUATION_DEPTH =
      Inr (SUCCESSFUL, d, True, g)" for m c g d b
    using eval.simps(3) [of m c _ g d b 9] by (simp add: MAX_EQUATION_DEPTH_def)
  have loop: "publish_loop 256 env (Some d) v w =
     (let stop = envStop env (wStopReads w); w = w\<lparr>wStopReads := wStopReads w + 1\<rparr> in
      if stop then Inr (True, v, w) else ub_bind (collect_now env v (push_data env d w)) (\<lambda>(d, v, w). publish_loop 255 env d v w))" for env d v w
    using publish_loop.simps(3) [of 255 env d v w] by simp
  show ?thesis
    by (simp add: worker_step_def code_worker_def worker_onChangeInspectionMatrix_def worker_init_def new_worker_def
      take_matrix_def onChangeInspectionMatrix_def engine_clear_def init_engine_def code_matrix_def sample_condition_def
      MAX_NUMBER_OF_ACTIVE_CONDITION_def MAX_DIFFERENT_SIGNAL_IDS_def preAllocateBuffers_def setDataReductionParameters_def loop push_data_def
      setActiveDTCs_def consume_signal_def consume_frame_def consume_dtcs_def code_input_def evaluate_on_input_def EVALUATE_INTERVAL_MS_def
      DEFAULT_THREAD_IDLE_TIME_MS_def sub64_def u64_def evaluate_before_sleep_def now_def evaluate_now_def sample_env_def Let_def active_condition_def
      evaluateConditions_def updateAllFixedWindowFunctions_def conditions_to_evaluate_def bs_none_def evaluate_condition_def
      interval_passed_def true bit_bs_assign collect_now_def collectNextDataToSend_def u32_def bs_all_iff
      shallSendData_def send_condition_def generateEventID_def evaluateAndTriggerRichSensorCapture_def collectData_def
      event_items_def init_geohash_node_def setAlreadyConsumed_def ALL_CONDITIONS_def geohash_hasItems_def hasNewGeohash_def)
qed

lemma code_worker_reachable: "worker_reachable sample_env code_worker"
  unfolding code_worker_def
  by (intro worker_reachable.intros) (simp add: matrix_ok_def code_matrix_def sample_condition_def)

theorem published_data_uploaded_witness:
  "\<exists>w s'. worker_reachable sample_env w \<and> map event_items (published w) = [[ItemDTC ''P0143'']] \<and>
     send_queue sample_upload (published w) sample_sender = Inr s'"
proof -
  obtain act w where w: "worker_step sample_env code_input code_worker = Inr (act, w)" "map event_items (published w) = [[ItemDTC ''P0143'']]"
    using code_step by (elim exE conjE)
  have r: "worker_reachable sample_env w"
    by (rule worker_reachable.iteration [OF code_worker_reachable _ w(1)]) (simp add: input_ok_def code_input_def)
  have t: "0 < mTransmitThreshold sample_sender" "mTransmitThreshold sample_sender \<le> UINT_MAX" by (simp_all add: UINT_MAX_def)
  obtain s' where u: "send_queue sample_upload (published w) sample_sender = Inr s'"
    using published_data_uploaded [OF r t, of sample_upload] by (elim exE conjE)
  show ?thesis by (intro exI conjI) (rule r, rule w(2), rule u)
qed

end
