(* ===== verification/RetryBackoff.thy ===== *)
theory RetryBackoff
  imports VehicleMessages
begin

text \<open>
  The retry thread (\<open>RetryThread.cpp\<close>): something is attempted until it succeeds, aborts or is
  stopped, with waits that double up to a maximum. The loop may go on forever; the lemmas give its
  result and all its waits in closed form when it ends, and show that it ends in no other case.
\<close>

section \<open>The thread\<close>

datatype RetryStatus = RETRY_SUCCESS | RETRY | ABORT

record retry_thread =
  fStartBackoffMs :: nat
  fMaxBackoffMs :: nat
  fShouldStop :: bool
  fThread :: worker_thread

definition new_retry_thread :: "nat \<Rightarrow> nat \<Rightarrow> retry_thread" where
  "new_retry_thread startBackoffMs maxBackoffMs =
     \<lparr>fStartBackoffMs = startBackoffMs, fMaxBackoffMs = maxBackoffMs, fShouldStop = False, fThread = new_thread\<rparr>"

text \<open>Whether the system creates and joins the thread is an input.\<close>

definition retry_start :: "bool \<Rightarrow> retry_thread \<Rightarrow> bool \<times> retry_thread" where
  "retry_start created r =
     (let t = snd (thread_create created (fThread r)) in (thValid t, r\<lparr>fShouldStop := False, fThread := t\<rparr>))"

definition retry_stop :: "bool \<Rightarrow> retry_thread \<Rightarrow> bool \<times> retry_thread" where
  "retry_stop joined r =
     (if \<not> thValid (fThread r) then (True, r)
      else let t = snd (thread_release joined (fThread r)) in (thDone t, r\<lparr>fShouldStop := False, fThread := t\<rparr>))"

text \<open>
  The loop from the \<open>n\<close>-th attempt on: \<open>attempt\<close> acts on a state, \<open>stop\<close> says whether the stop flag is
  set before an attempt. The result has the status \<open>onFinished\<close> is called with and the waits so far.
\<close>

partial_function (option) retry_loop ::
  "(nat \<Rightarrow> 's \<Rightarrow> RetryStatus \<times> 's) \<Rightarrow> (nat \<Rightarrow> bool) \<Rightarrow> nat \<Rightarrow> nat \<Rightarrow> nat \<Rightarrow> nat list \<Rightarrow> 's \<Rightarrow> (RetryStatus \<times> nat list \<times> 's) option" where
  "retry_loop attempt stop maxBackoff n currentWait waits s =
     (if stop n then Some (ABORT, waits, s)
      else let r = attempt n s in
        if fst r \<noteq> RETRY then Some (fst r, waits, snd r)
        else retry_loop attempt stop maxBackoff (Suc n) (min (u32 (currentWait * 2)) maxBackoff) (waits @ [currentWait]) (snd r))"

definition retry_doWork ::
  "(nat \<Rightarrow> 's \<Rightarrow> RetryStatus \<times> 's) \<Rightarrow> (nat \<Rightarrow> bool) \<Rightarrow> retry_thread \<Rightarrow> 's \<Rightarrow> (RetryStatus \<times> nat list \<times> 's) option" where
  "retry_doWork attempt stop r s = retry_loop attempt stop (fMaxBackoffMs r) 0 (fStartBackoffMs r) [] s"

section \<open>Waits and result\<close>

text \<open>The state before the \<open>n\<close>-th attempt, and whether the loop goes on after it.\<close>

fun attempted :: "(nat \<Rightarrow> 's \<Rightarrow> RetryStatus \<times> 's) \<Rightarrow> nat \<Rightarrow> 's \<Rightarrow> 's" where
  "attempted attempt 0 s = s"
| "attempted attempt (Suc n) s = snd (attempt n (attempted attempt n s))"

definition goes_on :: "(nat \<Rightarrow> 's \<Rightarrow> RetryStatus \<times> 's) \<Rightarrow> (nat \<Rightarrow> bool) \<Rightarrow> 's \<Rightarrow> nat \<Rightarrow> bool" where
  "goes_on attempt stop s n \<longleftrightarrow> \<not> stop n \<and> fst (attempt n (attempted attempt n s)) = RETRY"

definition backoff :: "nat \<Rightarrow> nat \<Rightarrow> nat \<Rightarrow> nat" where
  "backoff start maxBackoff i = min (start * 2 ^ i) maxBackoff"

lemma backoff_step:
  assumes "maxBackoff < 2 ^ 31"
  shows "min (u32 (backoff start maxBackoff i * 2)) maxBackoff = backoff start maxBackoff (Suc i)"
proof -
  have "backoff start maxBackoff i * 2 < 2 ^ 32" using assms by (simp add: backoff_def min_def)
  then show ?thesis by (simp add: u32_id backoff_def min_def)
qed

lemma retry_loop_prefix:
  assumes "maxBackoff < 2 ^ 31" and "\<forall>i < k. goes_on attempt stop s i" and "n \<le> k"
  shows "retry_loop attempt stop maxBackoff n (backoff start maxBackoff n) (map (backoff start maxBackoff) [0..<n]) (attempted attempt n s) =
     retry_loop attempt stop maxBackoff k (backoff start maxBackoff k) (map (backoff start maxBackoff) [0..<k]) (attempted attempt k s)"
  using assms(3)
proof (induction rule: inc_induct)
  case (step m)
  have g: "goes_on attempt stop s m" using assms(2) step.hyps by simp
  have "retry_loop attempt stop maxBackoff m (backoff start maxBackoff m) (map (backoff start maxBackoff) [0..<m]) (attempted attempt m s) =
      retry_loop attempt stop maxBackoff (Suc m) (backoff start maxBackoff (Suc m)) (map (backoff start maxBackoff) [0..<Suc m]) (attempted attempt (Suc m) s)"
    using g by (subst retry_loop.simps) (simp add: goes_on_def backoff_step [OF assms(1)] Let_def)
  then show ?case using step.IH by simp
qed simp

text \<open>A loop that ends does so after finitely many attempts that all asked for a retry.\<close>

lemma retry_loop_ends:
  assumes "retry_loop attempt stop maxBackoff n w waits t = Some res"
  shows "attempted attempt n s = t \<longrightarrow> (\<exists>k \<ge> n. \<not> goes_on attempt stop s k)"
proof (rule retry_loop.raw_induct [where P = "\<lambda>attempt stop maxBackoff n w waits t res.
    attempted attempt n s = t \<longrightarrow> (\<exists>k \<ge> n. \<not> goes_on attempt stop s k)", OF _ assms], goal_cases)
  case (1 loop attempt stop maxBackoff n w waits t res)
  show ?case
  proof (intro impI, cases "goes_on attempt stop s n")
    case True
    assume t: "attempted attempt n s = t"
    then have "loop attempt stop maxBackoff (Suc n) (min (u32 (w * 2)) maxBackoff) (waits @ [w]) (snd (attempt n t)) = Some res"
      using 1(2) True by (simp add: goes_on_def Let_def)
    from 1(1) [OF this] have "\<exists>k \<ge> Suc n. \<not> goes_on attempt stop s k" using t by simp
    then show "\<exists>k \<ge> n. \<not> goes_on attempt stop s k" using Suc_leD by blast
  qed auto
qed

lemma retry_doWork_result:
  assumes "fStartBackoffMs r \<le> fMaxBackoffMs r" and "fMaxBackoffMs r < 2 ^ 31"
    and "\<forall>i < k. goes_on attempt stop s i" and "\<not> goes_on attempt stop s k"
  shows "retry_doWork attempt stop r s = Some
     (if stop k then ABORT else fst (attempt k (attempted attempt k s)),
      map (backoff (fStartBackoffMs r) (fMaxBackoffMs r)) [0..<k],
      if stop k then attempted attempt k s else attempted attempt (Suc k) s)"
proof -
  have "fStartBackoffMs r = backoff (fStartBackoffMs r) (fMaxBackoffMs r) 0" using assms(1) by (simp add: backoff_def)
  then have "retry_doWork attempt stop r s = retry_loop attempt stop (fMaxBackoffMs r) k (backoff (fStartBackoffMs r) (fMaxBackoffMs r) k)
      (map (backoff (fStartBackoffMs r) (fMaxBackoffMs r)) [0..<k]) (attempted attempt k s)"
    using retry_loop_prefix [OF assms(2,3), of 0 "fStartBackoffMs r"] by (simp add: retry_doWork_def)
  also have "\<dots> = Some (if stop k then ABORT else fst (attempt k (attempted attempt k s)),
      map (backoff (fStartBackoffMs r) (fMaxBackoffMs r)) [0..<k], if stop k then attempted attempt k s else attempted attempt (Suc k) s)"
    using assms(4) by (subst retry_loop.simps) (auto simp: goes_on_def Let_def)
  finally show ?thesis .
qed

text \<open>
  The retry thread ends exactly when it is stopped or an attempt does not ask for a retry, with
  that status; before each further attempt it waited the start time doubled once per attempt, but
  never longer than the maximum. Otherwise it goes on forever.
\<close>

theorem retries_back_off:
  assumes "fStartBackoffMs r \<le> fMaxBackoffMs r" and "fMaxBackoffMs r < 2 ^ 31"
  shows "(if \<exists>k. \<not> goes_on attempt stop s k
      then let k = (LEAST k. \<not> goes_on attempt stop s k) in
        retry_doWork attempt stop r s = Some
          (if stop k then ABORT else fst (attempt k (attempted attempt k s)),
           map (\<lambda>i. min (fStartBackoffMs r * 2 ^ i) (fMaxBackoffMs r)) [0..<k],
           if stop k then attempted attempt k s else attempted attempt (Suc k) s)
      else retry_doWork attempt stop r s = None)"
proof (cases "\<exists>k. \<not> goes_on attempt stop s k")
  case True
  let ?k = "LEAST k. \<not> goes_on attempt stop s k"
  have k: "\<not> goes_on attempt stop s ?k" using True by (rule LeastI_ex)
  have "\<forall>i < ?k. goes_on attempt stop s i" using not_less_Least by blast
  from retry_doWork_result [OF assms this k] show ?thesis using True by (simp add: Let_def backoff_def [abs_def])
next
  case False
  have "retry_doWork attempt stop r s = None"
  proof (cases "retry_doWork attempt stop r s")
    case (Some res)
    then have "retry_loop attempt stop (fMaxBackoffMs r) 0 (fStartBackoffMs r) [] s = Some res"
      by (simp add: retry_doWork_def)
    from retry_loop_ends [OF this, of s] show ?thesis using False by auto
  qed
  then show ?thesis using False by simp
qed

text \<open>Two attempts fail, the third succeeds: it waited one second and two.\<close>

lemma retries_back_off_witness:
  "let attempt = (\<lambda>n s. (if n < 2 then RETRY else RETRY_SUCCESS, Suc s)) in
     retry_doWork attempt (\<lambda>n. False) (new_retry_thread 1000 256000) (0::nat) = Some (RETRY_SUCCESS, [1000, 2000], 3)"
proof -
  define attempt where "attempt = (\<lambda>n s. (if n < (2::nat) then RETRY else RETRY_SUCCESS, Suc s))"
  have g: "goes_on attempt (\<lambda>n. False) 0 n \<longleftrightarrow> n < 2" for n by (simp add: goes_on_def attempt_def)
  have l: "(LEAST k. \<not> k < (2::nat)) = 2" by (rule Least_equality) auto
  have e: "\<exists>k. \<not> k < (2::nat)" by (rule exI [of _ 2]) simp
  have r: "fStartBackoffMs (new_retry_thread 1000 256000) = 1000" "fMaxBackoffMs (new_retry_thread 1000 256000) = 256000"
    by (simp_all add: new_retry_thread_def)
  have m: "map (\<lambda>i. min (1000 * 2 ^ i) (256000::nat)) [0..<2] = [1000, 2000]" by (simp add: upt_rec numeral_2_eq_2)
  have a: "fst (attempt 2 (attempted attempt 2 0)) = RETRY_SUCCESS" "attempted attempt (Suc 2) 0 = 3"
    by (simp_all add: attempt_def numeral_2_eq_2)
  have "retry_doWork attempt (\<lambda>n. False) (new_retry_thread 1000 256000) 0 = Some (RETRY_SUCCESS, [1000, 2000], 3)"
    using retries_back_off [of "new_retry_thread 1000 256000" attempt "\<lambda>n. False" 0] e
    unfolding g l r a m Let_def by (simp only: if_True if_False a m) simp
  then show ?thesis by (simp add: attempt_def Let_def)
qed

end
