(* ===== verification/CloudConnection.thy ===== *)
theory CloudConnection
  imports CloudChannel RetryBackoff
begin

text \<open>
  The connection to the cloud (\<open>AwsIotConnectivityModule.cpp\<close>): establishing it, with retries in the
  background, closing it, and the callbacks of the MQTT library. The answers of the library are an
  input, its documented behaviour a hypothesis. A callback is atomic; it may run at any moment while
  the module waits for one.
\<close>

section \<open>Promises\<close>

text \<open>A promise of the C++ library: the value it holds, and whether its future was taken.\<close>

record 'a promise =
  prValue :: "'a option"
  prTaken :: bool

definition new_promise :: "'a promise" where
  "new_promise = \<lparr>prValue = None, prTaken = False\<rparr>"

datatype conn_fault = PromiseAlreadySatisfied | FutureAlreadyRetrieved | WaitsForever

definition set_value :: "'a \<Rightarrow> 'a promise \<Rightarrow> conn_fault + 'a promise" where
  "set_value v p = (if prValue p \<noteq> None then Inl PromiseAlreadySatisfied else Inr (p\<lparr>prValue := Some v\<rparr>))"

definition get_future :: "'a promise \<Rightarrow> conn_fault + 'a promise" where
  "get_future p = (if prTaken p then Inl FutureAlreadyRetrieved else Inr (p\<lparr>prTaken := True\<rparr>))"

definition conn_bind :: "conn_fault + 'a \<Rightarrow> ('a \<Rightarrow> conn_fault + 'b) \<Rightarrow> conn_fault + 'b" where
  "conn_bind r f = (case r of Inl e \<Rightarrow> Inl e | Inr x \<Rightarrow> f x)"

lemma conn_bind_simps [simp]: "conn_bind (Inl e) f = Inl e" "conn_bind (Inr x) f = f x"
  by (simp_all add: conn_bind_def)

lemma new_promise_simps [simp]: "prValue new_promise = None" "prTaken new_promise = False"
  by (simp_all add: new_promise_def)

section \<open>State\<close>

definition RETRY_FIRST_CONNECTION_START_BACKOFF_MS :: nat where "RETRY_FIRST_CONNECTION_START_BACKOFF_MS = 1000"
definition RETRY_FIRST_CONNECTION_MAX_BACKOFF_MS :: nat where "RETRY_FIRST_CONNECTION_MAX_BACKOFF_MS = 256000"

record connectivity_module =
  cmCertificate :: string
  cmEndpointUrl :: string
  cmPrivateKey :: string
  cmClientId :: string
  cmRetryThread :: retry_thread
  mConnectionCompletedPromise :: "bool promise"
  mConnectionClosedPromise :: "unit promise"
  mConnected :: bool
  mConnectionEstablished :: bool
  mChannels :: "aws_channel list"

definition new_module :: connectivity_module where
  "new_module = \<lparr>cmCertificate = [], cmEndpointUrl = [], cmPrivateKey = [], cmClientId = [],
     cmRetryThread = new_retry_thread RETRY_FIRST_CONNECTION_START_BACKOFF_MS RETRY_FIRST_CONNECTION_MAX_BACKOFF_MS,
     mConnectionCompletedPromise = new_promise, mConnectionClosedPromise = new_promise, mConnected = False,
     mConnectionEstablished = False, mChannels = []\<rparr>"

definition module_isAlive :: "connectivity_module \<Rightarrow> bool" where
  "module_isAlive m \<longleftrightarrow> mConnected m"

definition createNewChannel :: "bool \<Rightarrow> nat \<Rightarrow> connectivity_module \<Rightarrow> connectivity_module" where
  "createNewChannel payloadManager maximumHeap m = m\<lparr>mChannels := mChannels m @ [new_channel payloadManager maximumHeap]\<rparr>"

section \<open>Callbacks\<close>

text \<open>A connection attempt completes with an error code and the return code of the broker, 0 when it accepts.\<close>

datatype mqtt_callback = ConnectionCompleted int nat | ConnectionInterrupted | ConnectionResumed | Disconnected

definition AWS_MQTT_CONNECT_ACCEPTED :: nat where "AWS_MQTT_CONNECT_ACCEPTED = 0"

fun on_callback :: "mqtt_callback \<Rightarrow> connectivity_module \<Rightarrow> conn_fault + connectivity_module" where
  "on_callback (ConnectionCompleted errorCode returnCode) m =
     conn_bind (set_value (errorCode = 0 \<and> returnCode = AWS_MQTT_CONNECT_ACCEPTED) (mConnectionCompletedPromise m)) (\<lambda>p.
       Inr (m\<lparr>mConnectionCompletedPromise := p\<rparr>))"
| "on_callback ConnectionInterrupted m = Inr (m\<lparr>mConnected := False\<rparr>)"
| "on_callback ConnectionResumed m = Inr (m\<lparr>mConnected := True\<rparr>)"
| "on_callback Disconnected m =
     conn_bind (set_value () (mConnectionClosedPromise m)) (\<lambda>p.
       Inr (m\<lparr>mConnectionClosedPromise := p, mConnected := False, mConnectionEstablished := False\<rparr>))"

fun on_callbacks :: "mqtt_callback list \<Rightarrow> connectivity_module \<Rightarrow> conn_fault + connectivity_module" where
  "on_callbacks [] m = Inr m"
| "on_callbacks (c # cs) m = conn_bind (on_callback c m) (on_callbacks cs)"

section \<open>Closing and attempting\<close>

text \<open>
  The library's part in an attempt: whether it starts to connect, the callbacks until the waiting
  thread goes on, and the same for a disconnection.
\<close>

record library_answers =
  laConnects :: bool
  laCompleting :: "mqtt_callback list"
  laDisconnects :: bool
  laClosing :: "mqtt_callback list"

definition resetConnection :: "library_answers \<Rightarrow> connectivity_module \<Rightarrow> conn_fault + bool \<times> connectivity_module" where
  "resetConnection a m =
     (let m = m\<lparr>mConnectionCompletedPromise := new_promise\<rparr> in
      if mConnectionEstablished m \<and> laDisconnects a
      then conn_bind (get_future (mConnectionClosedPromise m)) (\<lambda>p.
        conn_bind (on_callbacks (laClosing a) (m\<lparr>mConnectionClosedPromise := p\<rparr>)) (\<lambda>m.
          if prValue (mConnectionClosedPromise m) = None then Inl WaitsForever
          else Inr (True, m\<lparr>mConnectionClosedPromise := new_promise, mConnectionEstablished := False\<rparr>)))
      else Inr (False, m))"

definition attempt :: "library_answers \<Rightarrow> connectivity_module \<Rightarrow> conn_fault + RetryStatus \<times> connectivity_module" where
  "attempt a m =
     (if \<not> laConnects a then Inr (RETRY, m)
      else conn_bind (get_future (mConnectionCompletedPromise m)) (\<lambda>p.
        conn_bind (on_callbacks (laCompleting a) (m\<lparr>mConnectionEstablished := True, mConnectionCompletedPromise := p\<rparr>)) (\<lambda>m.
          case prValue (mConnectionCompletedPromise m) of
            None \<Rightarrow> Inl WaitsForever
          | Some True \<Rightarrow> Inr (RETRY_SUCCESS, m\<lparr>mConnected := True\<rparr>)
          | Some False \<Rightarrow> conn_bind (resetConnection a m) (\<lambda>(_, m). Inr (RETRY, m)))))"

definition module_onFinished :: "sub_ack list \<Rightarrow> RetryStatus \<Rightarrow> connectivity_module \<Rightarrow> conn_fault + connectivity_module" where
  "module_onFinished acks code m =
     (if code = RETRY_SUCCESS
      then case subscribe_channels acks (module_isAlive m) (mChannels m) of
             Blocked \<Rightarrow> Inl WaitsForever
           | Returns chs \<Rightarrow> Inr (m\<lparr>mChannels := chs\<rparr>)
      else Inr m)"

text \<open>The retry thread joins, then the connection is closed.\<close>

definition module_disconnect :: "bool \<Rightarrow> library_answers \<Rightarrow> connectivity_module \<Rightarrow> conn_fault + bool \<times> connectivity_module" where
  "module_disconnect joined a m = resetConnection a (m\<lparr>cmRetryThread := snd (retry_stop joined (cmRetryThread m))\<rparr>)"

section \<open>Connecting\<close>

text \<open>The bootstrap is a pointer to an object that may be invalid; the last three say what the library could create.\<close>

record connect_env =
  ceBootstrap :: "bool option"
  ceClientConfig :: bool
  ceMqttClient :: bool
  ceConnection :: bool

definition createMqttConnection :: "connect_env \<Rightarrow> connectivity_module \<Rightarrow> bool" where
  "createMqttConnection e m \<longleftrightarrow>
     \<not> (length (cmCertificate m) = 0 \<or> length (cmPrivateKey m) = 0 \<or> cmEndpointUrl m = [] \<or> cmClientId m = []) \<and>
     ceBootstrap e = Some True \<and> ceClientConfig e \<and> ceMqttClient e \<and> ceConnection e"

text \<open>The asynchronous case starts the retry thread, whose creation is an input.\<close>

definition module_connect ::
  "connect_env \<Rightarrow> bool \<Rightarrow> library_answers \<Rightarrow> sub_ack list \<Rightarrow> string \<Rightarrow> string \<Rightarrow> string \<Rightarrow> string \<Rightarrow> bool \<Rightarrow> connectivity_module \<Rightarrow>
   conn_fault + bool \<times> connectivity_module" where
  "module_connect e created a acks privateKey certificate endpointUrl clientId asynchronous m =
     (let m = m\<lparr>cmClientId := clientId, mConnected := False, cmCertificate := certificate, cmEndpointUrl := endpointUrl,
                cmPrivateKey := privateKey\<rparr> in
      if \<not> createMqttConnection e m then Inr (False, m)
      else if asynchronous
      then let (started, t) = retry_start created (cmRetryThread m) in Inr (started, m\<lparr>cmRetryThread := t\<rparr>)
      else conn_bind (attempt a m) (\<lambda>(code, m).
        if code = RETRY_SUCCESS
        then conn_bind (module_onFinished acks RETRY_SUCCESS m) (\<lambda>m. Inr (True, m))
        else Inr (False, m)))"

text \<open>The background thread; a fault ends it.\<close>

definition attempt_step :: "(nat \<Rightarrow> library_answers) \<Rightarrow> nat \<Rightarrow> conn_fault + connectivity_module \<Rightarrow> RetryStatus \<times> (conn_fault + connectivity_module)" where
  "attempt_step answers n s =
     (case conn_bind s (attempt (answers n)) of Inl e \<Rightarrow> (ABORT, Inl e) | Inr (code, m) \<Rightarrow> (code, Inr m))"

definition connection_thread ::
  "(nat \<Rightarrow> library_answers) \<Rightarrow> (nat \<Rightarrow> bool) \<Rightarrow> sub_ack list \<Rightarrow> connectivity_module \<Rightarrow> (RetryStatus \<times> nat list \<times> (conn_fault + connectivity_module)) option" where
  "connection_thread answers stop acks m =
     (case retry_doWork (attempt_step answers) stop (cmRetryThread m) (Inr m) of
        None \<Rightarrow> None
      | Some (code, waits, s) \<Rightarrow> Some (code, waits, conn_bind s (module_onFinished acks code)))"

section \<open>What the library promises\<close>

text \<open>
  A connection that is started completes once, and is interrupted or resumed only after it was
  accepted; a disconnection that is started closes once, after everything else.
\<close>

definition link_change :: "mqtt_callback \<Rightarrow> bool" where
  "link_change c \<longleftrightarrow> c = ConnectionInterrupted \<or> c = ConnectionResumed"

definition accepts :: "library_answers \<Rightarrow> bool" where
  "accepts a \<longleftrightarrow> laConnects a \<and> hd (laCompleting a) = ConnectionCompleted 0 AWS_MQTT_CONNECT_ACCEPTED"

definition library_ok :: "library_answers \<Rightarrow> bool" where
  "library_ok a \<longleftrightarrow>
     (laConnects a \<longrightarrow> (\<exists>e r cs. laCompleting a = ConnectionCompleted e r # cs \<and> list_all link_change cs \<and>
        (cs \<noteq> [] \<longrightarrow> e = 0 \<and> r = AWS_MQTT_CONNECT_ACCEPTED))) \<and>
     (laDisconnects a \<longrightarrow> (\<exists>cs. laClosing a = cs @ [Disconnected] \<and> list_all link_change cs))"

section \<open>Attempts and disconnections under the contract\<close>

lemma link_changes:
  "list_all link_change cs \<Longrightarrow> on_callbacks cs m = Inr (m\<lparr>mConnected := fold (\<lambda>c _. c = ConnectionResumed) cs (mConnected m)\<rparr>)"
  by (induction cs arbitrary: m) (auto simp: link_change_def)

lemma on_callbacks_append: "on_callbacks (cs @ ds) m = conn_bind (on_callbacks cs m) (on_callbacks ds)"
proof (induction cs arbitrary: m)
  case (Cons c cs)
  then show ?case by (cases "on_callback c m") auto
qed simp

definition ready :: "connectivity_module \<Rightarrow> bool" where
  "ready m \<longleftrightarrow> mConnectionCompletedPromise m = new_promise \<and> mConnectionClosedPromise m = new_promise"

definition connected_state :: "connectivity_module \<Rightarrow> connectivity_module" where
  "connected_state m = m\<lparr>mConnectionCompletedPromise := \<lparr>prValue = Some True, prTaken = True\<rparr>, mConnected := True, mConnectionEstablished := True\<rparr>"

lemma reset_result:
  assumes "mConnectionClosedPromise m = new_promise" and "library_ok a"
  shows "resetConnection a m =
     (if mConnectionEstablished m \<and> laDisconnects a
      then Inr (True, m\<lparr>mConnectionCompletedPromise := new_promise, mConnected := False, mConnectionEstablished := False\<rparr>)
      else Inr (False, m\<lparr>mConnectionCompletedPromise := new_promise\<rparr>))"
proof (cases "mConnectionEstablished m \<and> laDisconnects a")
  case True
  obtain cs where cs: "laClosing a = cs @ [Disconnected]" "list_all link_change cs"
    using assms(2) True by (auto simp: library_ok_def)
  show ?thesis using True assms(1)
    by (simp add: resetConnection_def get_future_def set_value_def new_promise_def cs(1) on_callbacks_append link_changes [OF cs(2)])
qed (auto simp: resetConnection_def Let_def)

lemma attempt_result:
  assumes "ready m" and "library_ok a"
  shows "attempt a m =
     (if accepts a then Inr (RETRY_SUCCESS, connected_state m)
      else Inr (RETRY, if laConnects a \<and> laDisconnects a then m\<lparr>mConnected := False, mConnectionEstablished := False\<rparr>
                       else m\<lparr>mConnectionEstablished := mConnectionEstablished m \<or> laConnects a\<rparr>))"
proof (cases "laConnects a")
  case True
  obtain e r cs where a: "laCompleting a = ConnectionCompleted e r # cs" "list_all link_change cs"
      "cs \<noteq> [] \<longrightarrow> e = 0 \<and> r = AWS_MQTT_CONNECT_ACCEPTED"
    using assms(2) True by (auto simp: library_ok_def)
  have acc: "accepts a \<longleftrightarrow> e = 0 \<and> r = AWS_MQTT_CONNECT_ACCEPTED" using True a(1) by (simp add: accepts_def)
  show ?thesis
  proof (cases "accepts a")
    case True
    then show ?thesis using \<open>laConnects a\<close> assms(1) acc
      by (simp add: attempt_def ready_def a(1) link_changes [OF a(2)] get_future_def set_value_def new_promise_def connected_state_def)
  next
    case False
    then have "cs = []" using a(3) acc by auto
    moreover have c: "on_callback (ConnectionCompleted e r) M =
        Inr (M\<lparr>mConnectionCompletedPromise := (mConnectionCompletedPromise M)\<lparr>prValue := Some False\<rparr>\<rparr>)"
      if "prValue (mConnectionCompletedPromise M) = None" for M :: connectivity_module
      using False acc that by (cases "e = 0") (auto simp: set_value_def)
    moreover have "m\<lparr>mConnectionCompletedPromise := new_promise\<rparr> = m" using assms(1) by (cases m) (simp add: ready_def)
    ultimately show ?thesis using \<open>laConnects a\<close> assms False
      by (cases m) (simp add: attempt_def ready_def a(1) c get_future_def reset_result del: on_callback.simps)
  qed
next
  case False
  then show ?thesis by (simp add: attempt_def accepts_def)
qed

section \<open>Every use of the module\<close>

text \<open>
  The uses its interface allows: it connects again only after a disconnection. The flag says whether
  the last attempt succeeded; the callbacks of the library may come as long as an attempt was made.
\<close>

inductive module_run :: "bool \<Rightarrow> connectivity_module \<Rightarrow> bool" where
  Start: "module_run False new_module"
| Channel: "module_run online m \<Longrightarrow> module_run online (createNewChannel payloadManager maximumHeap m)"
| Topic: "module_run online m \<Longrightarrow> module_run online (m\<lparr>mChannels := (mChannels m)[i := setTopic topic async (mChannels m ! i)]\<rparr>)"
| Connect: "module_run False m \<Longrightarrow> library_ok a \<Longrightarrow>
     module_connect e created a acks privateKey certificate endpointUrl clientId asynchronous m = Inr (res, m') \<Longrightarrow>
     module_run (res \<and> \<not> asynchronous) m'"
| Attempt: "module_run False m \<Longrightarrow> library_ok a \<Longrightarrow> attempt a m = Inr (code, m') \<Longrightarrow> module_run (code = RETRY_SUCCESS) m'"
| Finished: "module_run online m \<Longrightarrow> module_onFinished acks code m = Inr m' \<Longrightarrow> module_run online m'"
| Callback: "module_run online m \<Longrightarrow> mConnectionEstablished m \<Longrightarrow> link_change c \<Longrightarrow> on_callback c m = Inr m' \<Longrightarrow> module_run online m'"
| Disconnect: "module_run online m \<Longrightarrow> library_ok a \<Longrightarrow> module_disconnect joined a m = Inr (res, m') \<Longrightarrow> module_run False m'"

definition module_ok :: "bool \<Rightarrow> connectivity_module \<Rightarrow> bool" where
  "module_ok online m \<longleftrightarrow>
     (if online then mConnectionClosedPromise m = new_promise else ready m) \<and>
     (mConnected m \<longrightarrow> mConnectionEstablished m) \<and>
     fStartBackoffMs (cmRetryThread m) = RETRY_FIRST_CONNECTION_START_BACKOFF_MS \<and>
     fMaxBackoffMs (cmRetryThread m) = RETRY_FIRST_CONNECTION_MAX_BACKOFF_MS"

lemma attempt_ok:
  assumes "module_ok False m" and "library_ok a" and "attempt a m = Inr (code, m')"
  shows "module_ok (code = RETRY_SUCCESS) m'"
proof -
  have "ready m" using assms(1) by (simp add: module_ok_def)
  from attempt_result [OF this assms(2)] assms(1,3) show ?thesis
    by (auto simp: module_ok_def ready_def connected_state_def split: if_splits)
qed

lemma finished_ok: "module_ok online m \<Longrightarrow> module_onFinished acks code m = Inr m' \<Longrightarrow> module_ok online m'"
  by (auto simp: module_onFinished_def module_ok_def ready_def split: if_splits call.splits)

lemma retry_thread_times [simp]:
  "fStartBackoffMs (snd (retry_stop joined t)) = fStartBackoffMs t" "fMaxBackoffMs (snd (retry_stop joined t)) = fMaxBackoffMs t"
  "fStartBackoffMs (snd (retry_start created t)) = fStartBackoffMs t" "fMaxBackoffMs (snd (retry_start created t)) = fMaxBackoffMs t"
  by (simp_all add: retry_stop_def retry_start_def Let_def)

lemma connect_ok:
  assumes "module_ok False m" and "library_ok a"
    and "module_connect e created a acks privateKey certificate endpointUrl clientId asynchronous m = Inr (res, m')"
  shows "module_ok (res \<and> \<not> asynchronous) m'"
proof -
  let ?m = "m\<lparr>cmClientId := clientId, mConnected := False, cmCertificate := certificate, cmEndpointUrl := endpointUrl, cmPrivateKey := privateKey\<rparr>"
  have ok: "module_ok False ?m" using assms(1) by (simp add: module_ok_def ready_def)
  show ?thesis
  proof (cases "createMqttConnection e ?m \<and> \<not> asynchronous")
    case True
    show ?thesis
    proof (cases "attempt a ?m")
      case (Inr r)
      obtain code m1 where r: "r = (code, m1)" by (cases r)
      have ok1: "module_ok (code = RETRY_SUCCESS) m1" using attempt_ok [OF ok assms(2)] Inr r by simp
      show ?thesis
      proof (cases "code = RETRY_SUCCESS")
        case succ: True
        then show ?thesis
        proof (cases "module_onFinished acks RETRY_SUCCESS m1")
          case (Inr m2)
          then show ?thesis using assms(3) True r succ finished_ok [OF _ Inr, of True] ok1 \<open>attempt a ?m = Inr r\<close>
            by (simp add: module_connect_def)
        qed (use assms(3) True r succ Inr in \<open>simp add: module_connect_def\<close>)
      qed (use assms(3) True r Inr ok1 in \<open>simp add: module_connect_def\<close>)
    qed (use assms(3) True in \<open>simp add: module_connect_def\<close>)
  next
    case False
    have s: "module_ok False (?m\<lparr>cmRetryThread := snd (retry_start created (cmRetryThread m))\<rparr>)"
      using ok by (simp add: module_ok_def ready_def)
    show ?thesis using False assms(3) ok s
      by (auto simp: module_connect_def Let_def split: if_splits prod.splits)
  qed
qed

lemma disconnect_result:
  assumes "module_ok online m" and "library_ok a"
  obtains res m' where "module_disconnect joined a m = Inr (res, m')" "module_ok False m'" "res \<longrightarrow> \<not> mConnected m' \<and> \<not> mConnectionEstablished m'"
    "res \<longleftrightarrow> mConnectionEstablished m \<and> laDisconnects a"
proof -
  let ?m = "m\<lparr>cmRetryThread := snd (retry_stop joined (cmRetryThread m))\<rparr>"
  have "mConnectionClosedPromise ?m = new_promise" using assms(1) by (cases online) (simp_all add: module_ok_def ready_def)
  note r = reset_result [OF this assms(2)]
  show ?thesis
  proof (cases "mConnectionEstablished m \<and> laDisconnects a")
    case True
    show ?thesis by (rule that [of True "?m\<lparr>mConnectionCompletedPromise := new_promise, mConnected := False, mConnectionEstablished := False\<rparr>"])
      (use r assms(1) True in \<open>auto simp: module_disconnect_def module_ok_def ready_def split: if_splits\<close>)
  next
    case False
    show ?thesis by (rule that [of False "?m\<lparr>mConnectionCompletedPromise := new_promise\<rparr>"])
      (use r assms(1) False in \<open>auto simp: module_disconnect_def module_ok_def ready_def split: if_splits\<close>)
  qed
qed

lemma module_run_ok: "module_run online m \<Longrightarrow> module_ok online m"
proof (induction rule: module_run.induct)
  case Start
  then show ?case by (simp add: module_ok_def ready_def new_module_def new_retry_thread_def)
next
  case (Channel online m payloadManager maximumHeap)
  then show ?case by (auto simp: module_ok_def ready_def createNewChannel_def)
next
  case (Topic online m i topic async)
  then show ?case by (auto simp: module_ok_def ready_def)
next
  case (Callback online m c m')
  then show ?case by (auto simp: module_ok_def ready_def link_change_def)
next
  case (Disconnect online m a joined res m')
  show ?case using disconnect_result [OF Disconnect.IH Disconnect.hyps(2), of joined] Disconnect.hyps(3) by (metis Inr_inject prod.inject)
qed (blast intro: attempt_ok finished_ok connect_ok)+

text \<open>Connecting fails only by waiting for a subscription that the broker answers with an error.\<close>

definition configured :: "string \<Rightarrow> string \<Rightarrow> string \<Rightarrow> string \<Rightarrow> connectivity_module \<Rightarrow> connectivity_module" where
  "configured privateKey certificate endpointUrl clientId m =
     m\<lparr>cmClientId := clientId, mConnected := False, cmCertificate := certificate, cmEndpointUrl := endpointUrl, cmPrivateKey := privateKey\<rparr>"

lemma module_connect_result:
  fixes m :: connectivity_module and privateKey certificate endpointUrl clientId :: string
  assumes "module_ok False m" and "library_ok a"
  defines "m1 \<equiv> configured privateKey certificate endpointUrl clientId m"
  shows "module_connect e created a acks privateKey certificate endpointUrl clientId asynchronous m =
    (if \<not> createMqttConnection e m1 then Inr (False, m1)
     else if asynchronous
     then Inr (fst (retry_start created (cmRetryThread m)), m1\<lparr>cmRetryThread := snd (retry_start created (cmRetryThread m))\<rparr>)
     else if \<not> accepts a then Inr (False, snd (projr (attempt a m1)))
     else case subscribe_channels acks True (mChannels m) of
            Blocked \<Rightarrow> Inl WaitsForever | Returns chs \<Rightarrow> Inr (True, (connected_state m1)\<lparr>mChannels := chs\<rparr>))"
proof -
  have "ready m1" using assms(1) by (simp add: m1_def configured_def module_ok_def ready_def)
  note r = attempt_result [OF this assms(2)]
  have c: "mChannels (connected_state m1) = mChannels m" "module_isAlive (connected_state m1)" "cmRetryThread m1 = cmRetryThread m"
    by (simp_all add: connected_state_def module_isAlive_def m1_def configured_def)
  have "module_connect e created a acks privateKey certificate endpointUrl clientId asynchronous m =
     (if \<not> createMqttConnection e m1 then Inr (False, m1)
      else if asynchronous
      then let (started, t) = retry_start created (cmRetryThread m1) in Inr (started, m1\<lparr>cmRetryThread := t\<rparr>)
      else conn_bind (attempt a m1) (\<lambda>(code, m).
        if code = RETRY_SUCCESS then conn_bind (module_onFinished acks RETRY_SUCCESS m) (\<lambda>m. Inr (True, m)) else Inr (False, m)))"
    unfolding module_connect_def Let_def m1_def configured_def by simp
  then show ?thesis by (simp add: r c module_onFinished_def Let_def split_beta split: call.split)
qed

text \<open>
  C16. However the module is used, under what the library promises of its callbacks, no promise is kept
  twice, no future is taken twice, and attempts and disconnections return. An attempt succeeds exactly
  when the broker accepts, a module that reports a connection has one to close, and a disconnection that
  reports success leaves none; it reports success when there is a connection that the library starts to
  close. A call that connects returns as well, with one exception: a synchronous one that the broker accepts
  waits for ever when subscribing the channels does. One that returns reports a connection exactly when the
  broker accepted, if it is synchronous.
\<close>

theorem connection_promises_kept:
  assumes "module_run online m" and "library_ok a"
  shows "(\<not> online \<longrightarrow> (\<exists>code m'. attempt a m = Inr (code, m') \<and> (code = RETRY_SUCCESS \<longleftrightarrow> accepts a) \<and> (accepts a \<longrightarrow> module_isAlive m'))) \<and>
    (\<exists>closed m'. module_disconnect joined a m = Inr (closed, m') \<and> (closed \<longleftrightarrow> mConnectionEstablished m \<and> laDisconnects a) \<and>
       (closed \<longrightarrow> \<not> module_isAlive m' \<and> \<not> mConnectionEstablished m')) \<and>
    (module_isAlive m \<longrightarrow> mConnectionEstablished m) \<and>
    (\<not> online \<longrightarrow> (case module_connect e created a acks privateKey certificate endpointUrl clientId asynchronous m of
       Inl f \<Rightarrow> f = WaitsForever \<and> \<not> asynchronous \<and> createMqttConnection e (configured privateKey certificate endpointUrl clientId m) \<and>
         accepts a \<and> subscribe_channels acks True (mChannels m) = Blocked
     | Inr (res, m') \<Rightarrow> \<not> asynchronous \<longrightarrow>
         (res \<longleftrightarrow> createMqttConnection e (configured privateKey certificate endpointUrl clientId m) \<and> accepts a) \<and> (res \<longrightarrow> module_isAlive m')))"
proof -
  have ok: "module_ok online m" using module_run_ok [OF assms(1)] .
  have "\<exists>code m'. attempt a m = Inr (code, m') \<and> (code = RETRY_SUCCESS \<longleftrightarrow> accepts a) \<and> (accepts a \<longrightarrow> module_isAlive m')" if "\<not> online"
    using attempt_result [OF _ assms(2), of m] ok that by (simp add: module_ok_def module_isAlive_def connected_state_def)
  moreover obtain res m' where "module_disconnect joined a m = Inr (res, m')" "res \<longrightarrow> \<not> mConnected m' \<and> \<not> mConnectionEstablished m'"
      "res \<longleftrightarrow> mConnectionEstablished m \<and> laDisconnects a"
    by (rule disconnect_result [OF ok assms(2)])
  moreover have "case module_connect e created a acks privateKey certificate endpointUrl clientId asynchronous m of
       Inl f \<Rightarrow> f = WaitsForever \<and> \<not> asynchronous \<and> createMqttConnection e (configured privateKey certificate endpointUrl clientId m) \<and>
         accepts a \<and> subscribe_channels acks True (mChannels m) = Blocked
     | Inr (res, m') \<Rightarrow> \<not> asynchronous \<longrightarrow>
         (res \<longleftrightarrow> createMqttConnection e (configured privateKey certificate endpointUrl clientId m) \<and> accepts a) \<and> (res \<longrightarrow> module_isAlive m')"
    if "\<not> online"
    using module_connect_result [OF _ assms(2), of m e created acks privateKey certificate endpointUrl clientId asynchronous] ok that
    by (simp add: connected_state_def module_isAlive_def split: call.split)
  ultimately show ?thesis using ok by (auto simp: module_ok_def module_isAlive_def)
qed

section \<open>The connection comes up\<close>

text \<open>
  The answers of the broker go to the channels that subscribe, in order. An error leaves the caller waiting;
  any other answer says whether the channel has its subscription.
\<close>

definition granted :: "sub_ack \<Rightarrow> bool" where
  "granted a \<longleftrightarrow> ackErrorCode a = 0 \<and> ackPacketId a \<noteq> 0 \<and> \<not> ackQosFailure a"

definition asks :: "aws_channel \<Rightarrow> bool" where
  "asks ch \<longleftrightarrow> acSubscribeAsynchronously ch \<and> isTopicValid ch \<and> acModule ch"

definition answer_for :: "sub_ack list \<Rightarrow> aws_channel list \<Rightarrow> nat \<Rightarrow> sub_ack" where
  "answer_for acks chs i = acks ! length (filter acSubscribeAsynchronously (take i chs))"

definition some_error :: "sub_ack list \<Rightarrow> aws_channel list \<Rightarrow> bool" where
  "some_error acks chs \<longleftrightarrow> (\<exists>i < length chs. asks (chs ! i) \<and> ackErrorCode (answer_for acks chs i) \<noteq> 0)"

definition answered :: "sub_ack list \<Rightarrow> aws_channel list \<Rightarrow> nat \<Rightarrow> aws_channel" where
  "answered acks chs i = (if asks (chs ! i) then (chs ! i)\<lparr>acSubscribed := granted (answer_for acks chs i)\<rparr> else chs ! i)"

lemma answer_for_Cons:
  assumes "length (filter acSubscribeAsynchronously (ch # chs)) \<le> length acks"
  shows "answer_for acks (ch # chs) 0 = acks ! 0"
    "answer_for acks (ch # chs) (Suc i) = answer_for (if acSubscribeAsynchronously ch then tl acks else acks) chs i"
proof -
  show "answer_for acks (ch # chs) 0 = acks ! 0" by (simp add: answer_for_def)
  show "answer_for acks (ch # chs) (Suc i) = answer_for (if acSubscribeAsynchronously ch then tl acks else acks) chs i"
    using assms by (cases acks) (simp_all add: answer_for_def split: if_splits)
qed

lemma subscribe_answered:
  "length (filter acSubscribeAsynchronously chs) \<le> length acks \<Longrightarrow>
   subscribe_channels acks True chs = (if some_error acks chs then Blocked else Returns (map (answered acks chs) [0..<length chs]))"
proof (induction chs arbitrary: acks)
  case Nil
  then show ?case by (simp add: some_error_def)
next
  case (Cons ch chs)
  note c = answer_for_Cons [OF Cons.prems]
  define as where "as = (if acSubscribeAsynchronously ch then tl acks else acks)"
  have tail: "answer_for acks (ch # chs) (Suc i) = answer_for as chs i" for i using c(2) by (simp add: as_def)
  have "length (filter acSubscribeAsynchronously chs) \<le> length as" using Cons.prems by (cases acks) (auto simp: as_def split: if_splits)
  note ih = Cons.IH [OF this]
  have e: "some_error acks (ch # chs) \<longleftrightarrow> asks ch \<and> ackErrorCode (acks ! 0) \<noteq> 0 \<or> some_error as chs"
    by (simp add: some_error_def Ex_less_Suc2 tail c(1))
  have m: "map (answered acks (ch # chs)) [0..<length (ch # chs)] =
      (if asks ch then ch\<lparr>acSubscribed := granted (acks ! 0)\<rparr> else ch) # map (answered as chs) [0..<length chs]"
    by (simp add: map_upt_Suc answered_def tail c(1) del: upt_Suc)
  show ?case
  proof (cases "acSubscribeAsynchronously ch")
    case True
    then obtain a where acks: "acks = a # as" using Cons.prems by (cases acks) (auto simp: as_def)
    show ?thesis unfolding e m
      using True ih by (auto simp: acks asks_def channel_subscribe_def onSubAck_def granted_def Let_def)
  next
    case False
    then show ?thesis unfolding e m using ih by (simp add: asks_def as_def)
  qed
qed

lemma attempt_step_Inr:
  "attempt_step answers n (Inr m) = (case attempt (answers n) m of Inl e \<Rightarrow> (ABORT, Inl e) | Inr (code, m) \<Rightarrow> (code, Inr m))"
  by (simp add: attempt_step_def)

text \<open>Before every attempt the module is ready, and its channels are those it had.\<close>

lemma attempted_module:
  assumes "module_ok False m" and "\<forall>n. library_ok (answers n)" and "\<forall>i < k. \<not> accepts (answers i)"
  shows "\<exists>m'. attempted (attempt_step answers) k (Inr m) = Inr m' \<and> module_ok False m' \<and> mChannels m' = mChannels m"
  using assms(3)
proof (induction k)
  case 0
  then show ?case using assms(1) by simp
next
  case (Suc k)
  then obtain m' where m': "attempted (attempt_step answers) k (Inr m) = Inr m'" "module_ok False m'" "mChannels m' = mChannels m"
    by auto
  obtain m'' where a: "attempt (answers k) m' = Inr (RETRY, m'')" "mChannels m'' = mChannels m'"
    using attempt_result [of m' "answers k"] m'(2) assms(2) Suc.prems by (simp add: module_ok_def)
  show ?case using m' a attempt_ok [OF m'(2) _ a(1)] assms(2) by (simp add: attempt_step_Inr)
qed

lemma attempt_goes_on:
  assumes "module_ok False m" and "\<forall>n. library_ok (answers n)" and "\<forall>i < k. \<not> accepts (answers i)"
  shows "goes_on (attempt_step answers) stop (Inr m) k \<longleftrightarrow> \<not> stop k \<and> \<not> accepts (answers k)"
proof -
  obtain m' where m': "attempted (attempt_step answers) k (Inr m) = Inr m'" "module_ok False m'"
    using attempted_module [OF assms] by blast
  have "ready m'" using m'(2) by (simp add: module_ok_def)
  from attempt_result [OF this, of "answers k"] assms(2) show ?thesis
    by (simp add: goes_on_def attempt_step_Inr m'(1))
qed

text \<open>
  C15. Under what the library promises of its callbacks, the connection thread attempts to connect until the
  broker accepts or it is stopped. Before each further attempt it waits one second, doubled per attempt up to
  256 seconds. Once accepted, the channels that ask for a subscription get the answers of the broker in order:
  if none of these is an error, the module is connected and each of the channels has its subscription exactly
  when it was granted; otherwise the thread waits for ever. A thread that is neither stopped nor accepted goes
  on for ever.
\<close>

theorem connection_comes_up:
  assumes "module_run False m" and "\<forall>n. library_ok (answers n)" and "length (filter acSubscribeAsynchronously (mChannels m)) \<le> length acks"
  shows "if \<exists>k. stop k \<or> accepts (answers k)
    then let k = (LEAST k. stop k \<or> accepts (answers k)); waits = map (\<lambda>i. min (1000 * 2 ^ i) 256000) [0..<k] in
      if stop k then \<exists>m'. connection_thread answers stop acks m = Some (ABORT, waits, Inr m') \<and> mChannels m' = mChannels m
      else if some_error acks (mChannels m) then connection_thread answers stop acks m = Some (RETRY_SUCCESS, waits, Inl WaitsForever)
      else \<exists>m'. connection_thread answers stop acks m = Some (RETRY_SUCCESS, waits, Inr m') \<and> module_isAlive m' \<and>
        mChannels m' = map (answered acks (mChannels m)) [0..<length (mChannels m)]
    else connection_thread answers stop acks m = None"
proof -
  note ok = module_run_ok [OF assms(1)]
  let ?t = "cmRetryThread m" and ?attempt = "attempt_step answers"
  have times: "fStartBackoffMs ?t = 1000" "fMaxBackoffMs ?t = 256000"
    using ok by (simp_all add: module_ok_def RETRY_FIRST_CONNECTION_START_BACKOFF_MS_def RETRY_FIRST_CONNECTION_MAX_BACKOFF_MS_def)
  note goes = attempt_goes_on [OF ok assms(2)]
  show ?thesis
  proof (cases "\<exists>k. stop k \<or> accepts (answers k)")
    case True
    define k where "k = (LEAST k. stop k \<or> accepts (answers k))"
    have k: "stop k \<or> accepts (answers k)" using True unfolding k_def by (rule LeastI_ex)
    have less: "\<not> stop i \<and> \<not> accepts (answers i)" if "i < k" for i using not_less_Least [of i] that unfolding k_def by blast
    have on: "\<forall>i < k. goes_on ?attempt stop (Inr m) i" "\<not> goes_on ?attempt stop (Inr m) k"
      using goes less k by auto
    obtain m' where m': "attempted ?attempt k (Inr m) = Inr m'" "module_ok False m'" "mChannels m' = mChannels m"
      using attempted_module [OF ok assms(2), of k] less by blast
    have "ready m'" using m'(2) by (simp add: module_ok_def)
    note a = attempt_result [OF this, of "answers k"]
    have "retry_doWork ?attempt stop ?t (Inr m) = Some
        (if stop k then ABORT else RETRY_SUCCESS, map (\<lambda>i. min (1000 * 2 ^ i) 256000) [0..<k], Inr (if stop k then m' else connected_state m'))"
      using retry_doWork_result [of ?t k ?attempt stop "Inr m"] on times a m'(1) k assms(2)
      by (auto simp: attempt_step_Inr backoff_def [abs_def])
    then show ?thesis using True m'(3) subscribe_answered [OF assms(3)]
      by (auto simp: connection_thread_def module_onFinished_def connected_state_def module_isAlive_def Let_def simp flip: k_def)
  next
    case False
    then have "goes_on ?attempt stop (Inr m) k" for k using goes by auto
    then have "retry_doWork ?attempt stop ?t (Inr m) = None"
      using retry_loop_ends [of ?attempt stop "fMaxBackoffMs ?t" 0 "fStartBackoffMs ?t" "[]" "Inr m" _ "Inr m"]
      by (cases "retry_doWork ?attempt stop ?t (Inr m)") (auto simp: retry_doWork_def)
    then show ?thesis using False by (simp add: connection_thread_def)
  qed
qed

text \<open>
  An interruption that is reported before the thread that waits for the connection goes on is
  forgotten: the module reports a connection although the last it heard of the library is that the
  connection is interrupted.
\<close>

theorem early_interruption_forgotten:
  assumes "module_run False m" and "library_ok a" and "accepts a" and "last (laCompleting a) = ConnectionInterrupted"
  shows "\<exists>p m1 m'. get_future (mConnectionCompletedPromise m) = Inr p \<and>
    on_callbacks (laCompleting a) (m\<lparr>mConnectionEstablished := True, mConnectionCompletedPromise := p\<rparr>) = Inr m1 \<and> \<not> module_isAlive m1 \<and>
    attempt a m = Inr (RETRY_SUCCESS, m') \<and> module_isAlive m'"
proof -
  have r: "ready m" using module_run_ok [OF assms(1)] by (simp add: module_ok_def)
  obtain e r cs where a: "laCompleting a = ConnectionCompleted e r # cs" "list_all link_change cs"
    using assms(2,3) by (auto simp: library_ok_def accepts_def)
  then obtain ds where ds: "laCompleting a = ConnectionCompleted e r # ds @ [ConnectionInterrupted]" "list_all link_change ds"
    using assms(4) by (cases cs rule: rev_cases) (auto split: if_splits)
  show ?thesis using r attempt_result [OF r assms(2)] assms(3)
    by (simp add: ready_def get_future_def ds(1) on_callbacks_append link_changes [OF ds(2)] set_value_def module_isAlive_def connected_state_def)
qed

section \<open>Samples\<close>

definition sample_answers :: "int \<Rightarrow> mqtt_callback list \<Rightarrow> library_answers" where
  "sample_answers errorCode later =
     \<lparr>laConnects = True, laCompleting = ConnectionCompleted errorCode 0 # later, laDisconnects = True, laClosing = [Disconnected]\<rparr>"

definition sample_module :: connectivity_module where
  "sample_module = new_module\<lparr>mChannels := [setTopic ''schemes'' True (new_channel False 0)]\<rparr>"

lemma sample_answers_ok: "library_ok (sample_answers 0 [ConnectionInterrupted])" "library_ok (sample_answers 1 [])" "library_ok (sample_answers 0 [])"
  by (auto simp: library_ok_def sample_answers_def link_change_def AWS_MQTT_CONNECT_ACCEPTED_def intro: exI [of _ "[]"])

lemma sample_accepts [simp]: "accepts (sample_answers 0 later)" "\<not> accepts (sample_answers 1 later)"
  by (simp_all add: accepts_def sample_answers_def AWS_MQTT_CONNECT_ACCEPTED_def)

lemma sample_run: "module_run False sample_module"
  using module_run.Topic [OF module_run.Channel [OF module_run.Start, of False 0], of 0 "''schemes''" True]
  by (simp add: sample_module_def createNewChannel_def new_module_def)

lemma connection_promises_kept_witness:
  "\<exists>code m'. attempt (sample_answers 0 []) sample_module = Inr (code, m') \<and> code = RETRY_SUCCESS \<and> module_isAlive m'"
  using connection_promises_kept [OF sample_run sample_answers_ok(3)] by auto

lemma early_interruption_forgotten_witness:
  "\<exists>m'. attempt (sample_answers 0 [ConnectionInterrupted]) sample_module = Inr (RETRY_SUCCESS, m') \<and> module_isAlive m'"
  using early_interruption_forgotten [OF sample_run sample_answers_ok(1)]
  by (simp add: sample_answers_def accepts_def AWS_MQTT_CONNECT_ACCEPTED_def) blast

lemma connection_comes_up_witness:
  "(\<exists>m'. connection_thread (\<lambda>n. if n < 2 then sample_answers 1 [] else sample_answers 0 []) (\<lambda>n. False)
      [\<lparr>ackErrorCode = 0, ackPacketId = 1, ackQosFailure = False\<rparr>] sample_module = Some (RETRY_SUCCESS, [1000, 2000], Inr m') \<and>
    module_isAlive m' \<and> acSubscribed (hd (mChannels m'))) \<and>
   connection_thread (\<lambda>n. if n < 2 then sample_answers 1 [] else sample_answers 0 []) (\<lambda>n. False)
      [\<lparr>ackErrorCode = 5, ackPacketId = 1, ackQosFailure = False\<rparr>] sample_module = Some (RETRY_SUCCESS, [1000, 2000], Inl WaitsForever)"
proof -
  let ?answers = "\<lambda>n. if n < (2::nat) then sample_answers 1 [] else sample_answers 0 []"
  let ?acks = "\<lambda>e. [\<lparr>ackErrorCode = e, ackPacketId = 1, ackQosFailure = False\<rparr>]"
  have acc: "accepts (?answers k) \<longleftrightarrow> \<not> k < 2" for k by simp
  have l: "(LEAST k. \<not> k < (2::nat)) = 2" by (rule Least_equality) auto
  have e: "\<exists>k. \<not> k < (2::nat)" by (rule exI [of _ 2]) simp
  have w: "map (\<lambda>i. min (1000 * 2 ^ i) (256000::nat)) [0..<2] = [1000, 2000]" by (simp add: upt_rec numeral_2_eq_2)
  have chs: "mChannels sample_module = [setTopic ''schemes'' True (new_channel False 0)]" by (simp add: sample_module_def)
  have lib: "\<forall>n. library_ok (?answers n)" using sample_answers_ok(2,3) by simp
  have enough: "length (filter acSubscribeAsynchronously (mChannels sample_module)) \<le> length (?acks c)" for c
    by (simp add: chs setTopic_def new_channel_def)
  have err: "some_error (?acks c) (mChannels sample_module) \<longleftrightarrow> c \<noteq> 0" for c
    by (simp add: some_error_def answer_for_def asks_def chs setTopic_def new_channel_def isTopicValid_def)
  note up = connection_comes_up [OF sample_run lib enough, of "\<lambda>n. False", unfolded acc simp_thms l w Let_def if_False]
  have "\<exists>m'. connection_thread ?answers (\<lambda>n. False) (?acks 0) sample_module = Some (RETRY_SUCCESS, [1000, 2000], Inr m') \<and> module_isAlive m' \<and>
      mChannels m' = map (answered (?acks 0) (mChannels sample_module)) [0..<length (mChannels sample_module)]"
    using up [of 0] e unfolding err by (simp only: if_True if_False simp_thms)
  moreover have "acSubscribed (hd (map (answered (?acks 0) (mChannels sample_module)) [0..<length (mChannels sample_module)]))"
    by (simp add: chs answered_def answer_for_def asks_def setTopic_def new_channel_def isTopicValid_def granted_def)
  moreover have "connection_thread ?answers (\<lambda>n. False) (?acks 5) sample_module = Some (RETRY_SUCCESS, [1000, 2000], Inl WaitsForever)"
    using up [of 5] e unfolding err by (simp add: if_True)
  ultimately show ?thesis by force
qed

end
