(* ===== verification/TraceMetrics.thy ===== *)
theory TraceMetrics
  imports UploadWriter
begin

text \<open>
  Tracing of counters and execution times (\<open>TraceModule.cpp\<close>, \<open>TraceModule.h\<close>): variables with
  their maxima, sections with their times, observation windows and the metrics they become. The
  clock is an input, in nanoseconds. The lemmas show which of the recorded values each metric holds.
\<close>

section \<open>Names\<close>

text \<open>The enumerators in order, each with the name it is displayed with; its value is its position.\<close>

definition trace_variables :: "(string \<times> string) list" where
  "trace_variables =
     [(''READ_SOCKET_FRAMES_0'', ''RFrames0''), (''READ_SOCKET_FRAMES_1'', ''RFrames1''), (''READ_SOCKET_FRAMES_2'', ''RFrames2''),
      (''READ_SOCKET_FRAMES_3'', ''RFrames3''), (''READ_SOCKET_FRAMES_4'', ''RFrames4''), (''READ_SOCKET_FRAMES_5'', ''RFrames5''),
      (''READ_SOCKET_FRAMES_6'', ''RFrames6''), (''READ_SOCKET_FRAMES_7'', ''RFrames7''), (''READ_SOCKET_FRAMES_8'', ''RFrames8''),
      (''READ_SOCKET_FRAMES_9'', ''RFrames9''), (''READ_SOCKET_FRAMES_10'', ''RFrames10''), (''READ_SOCKET_FRAMES_11'', ''RFrames11''),
      (''READ_SOCKET_FRAMES_12'', ''RFrames12''), (''READ_SOCKET_FRAMES_13'', ''RFrames13''), (''READ_SOCKET_FRAMES_14'', ''RFrames14''),
      (''READ_SOCKET_FRAMES_15'', ''RFrames15''), (''READ_SOCKET_FRAMES_16'', ''RFrames16''), (''READ_SOCKET_FRAMES_17'', ''RFrames17''),
      (''READ_SOCKET_FRAMES_18'', ''RFrames18''), (''READ_SOCKET_FRAMES_19'', ''RFrames19''), (''QUEUE_SOCKET_TO_CONSUMER_0'', ''QStC0''),
      (''QUEUE_SOCKET_TO_CONSUMER_1'', ''QStC1''), (''QUEUE_SOCKET_TO_CONSUMER_2'', ''QStC2''), (''QUEUE_SOCKET_TO_CONSUMER_3'', ''QStC3''),
      (''QUEUE_SOCKET_TO_CONSUMER_4'', ''QStC4''), (''QUEUE_SOCKET_TO_CONSUMER_5'', ''QStC5''), (''QUEUE_SOCKET_TO_CONSUMER_6'', ''QStC6''),
      (''QUEUE_SOCKET_TO_CONSUMER_7'', ''QStC7''), (''QUEUE_SOCKET_TO_CONSUMER_8'', ''QStC8''), (''QUEUE_SOCKET_TO_CONSUMER_9'', ''QStC9''),
      (''QUEUE_SOCKET_TO_CONSUMER_10'', ''QStC10''), (''QUEUE_SOCKET_TO_CONSUMER_11'', ''QStC11''), (''QUEUE_SOCKET_TO_CONSUMER_12'', ''QStC12''),
      (''QUEUE_SOCKET_TO_CONSUMER_13'', ''QStC13''), (''QUEUE_SOCKET_TO_CONSUMER_14'', ''QStC14''), (''QUEUE_SOCKET_TO_CONSUMER_15'', ''QStC15''),
      (''QUEUE_SOCKET_TO_CONSUMER_16'', ''QStC16''), (''QUEUE_SOCKET_TO_CONSUMER_17'', ''QStC17''), (''QUEUE_SOCKET_TO_CONSUMER_18'', ''QStC18''),
      (''QUEUE_SOCKET_TO_CONSUMER_19'', ''QStC19''), (''QUEUE_INSPECTION_TO_SENDER'', ''QStS''), (''MAX_SYSTEMTIME_KERNELTIME_DIFF'', ''SysKerTimeDiff''),
      (''PM_MEMORY_NULL'', ''PmE0''), (''PM_MEMORY_INSUFFICIENT'', ''PmE1''), (''PM_COMPRESS_ERROR'', ''PmE2''),
      (''PM_STORE_ERROR'', ''PmE3''), (''CE_TOO_MANY_CONDITIONS'', ''CeE0''), (''CE_SIGNAL_ID_OUTBOUND'', ''CeE1''),
      (''CE_SAMPLE_SIZE_ZERO'', ''CeE2''), (''GE_COMPARE_PRECISION_ERROR'', ''GeE0''), (''GE_EVALUATE_ERROR_LAT_LON'', ''GeE1''),
      (''OBD_VIN_ERROR'', ''ObdE0''), (''OBD_ENG_PID_REQ_ERROR'', ''ObdE1''), (''OBD_TRA_PID_REQ_ERROR'', ''ObdE2''),
      (''OBD_KEEP_ALIVE_ERROR'', ''ObdE3''), (''DISCARDED_FRAMES'', ''FrmE0''), (''CAN_POLLING_TIMESTAMP_COUNTER'', ''CanPollTCnt'')]"

definition trace_atomic_variables :: "(string \<times> string) list" where
  "trace_atomic_variables =
     [(''QUEUE_CONSUMER_TO_INSPECTION_SIGNALS'', ''QUEUE_CONSUMER_TO_INSPECTION_SIGNALS''), (''QUEUE_CONSUMER_TO_INSPECTION_CAN'', ''QUEUE_CONSUMER_TO_INSPECTION_CAN''), (''NOT_TIME_MONOTONIC_FRAMES'', ''nTime''),
      (''SUBSCRIBE_ERROR'', ''SubErr''), (''SUBSCRIBE_REJECT'', ''SubRej''), (''CONNECTION_FAILED'', ''ConFail''),
      (''CONNECTION_REJECTED'', ''ConRej''), (''CONNECTION_INTERRUPTED'', ''ConInt''), (''CONNECTION_RESUMED'', ''ConRes'')]"

definition trace_sections :: "(string \<times> string) list" where
  "trace_sections =
     [(''BUILD_MQTT'', ''BUILD_MQTT''), (''FWE_STARTUP'', ''FWE_STARTUP''), (''FWE_SHUTDOWN'', ''FWE_SHUTDOWN''),
      (''MANAGER_DECODER_BUILD'', ''DEC_BUILD''), (''MANAGER_COLLECTION_BUILD'', ''COL_BUILD''), (''MANAGER_EXTRACTION'', ''EXTRACT'')]"

definition TRACE_VARIABLE_SIZE :: nat where "TRACE_VARIABLE_SIZE = length trace_variables"
definition TRACE_ATOMIC_VARIABLE_SIZE :: nat where "TRACE_ATOMIC_VARIABLE_SIZE = length trace_atomic_variables"
definition TRACE_SECTION_SIZE :: nat where "TRACE_SECTION_SIZE = length trace_sections"

definition display_name :: "(string \<times> string) list \<Rightarrow> nat \<Rightarrow> string" where
  "display_name names i = (if i < length names then snd (names ! i) else ''UNKNOWN'')"

definition getVariableName :: "nat \<Rightarrow> string" where "getVariableName = display_name trace_variables"
definition getAtomicVariableName :: "nat \<Rightarrow> string" where "getAtomicVariableName = display_name trace_atomic_variables"
definition getSectionName :: "nat \<Rightarrow> string" where "getSectionName = display_name trace_sections"

section \<open>State\<close>

record variable_data =
  vdCurrentValue :: nat
  vdMaxValue :: nat
  vdMaxValueAllTime :: nat

record section_data =
  sdHitCounter :: nat
  sdLastStartTime :: int
  sdLastEndTime :: int
  sdMaxSpent :: double
  sdMaxSpentAllTime :: double
  sdMaxInterval :: double
  sdMaxIntervalAllTime :: double
  sdTimeSpentSum :: double
  sdIntervalSum :: double
  sdCurrentlyActive :: bool

record trace_module =
  mVariableData :: "variable_data list"
  mAtomicVariableData :: "variable_data list"
  mSectionData :: "section_data list"

text \<open>The module is a static object, whose memory is zero.\<close>

definition zero_variable :: variable_data where
  "zero_variable = \<lparr>vdCurrentValue = 0, vdMaxValue = 0, vdMaxValueAllTime = 0\<rparr>"

definition zero_section :: section_data where
  "zero_section = \<lparr>sdHitCounter = 0, sdLastStartTime = 0, sdLastEndTime = 0, sdMaxSpent = Fin 0, sdMaxSpentAllTime = Fin 0,
     sdMaxInterval = Fin 0, sdMaxIntervalAllTime = Fin 0, sdTimeSpentSum = Fin 0, sdIntervalSum = Fin 0, sdCurrentlyActive = False\<rparr>"

definition new_trace :: trace_module where
  "new_trace = \<lparr>mVariableData = replicate TRACE_VARIABLE_SIZE zero_variable,
     mAtomicVariableData = replicate TRACE_ATOMIC_VARIABLE_SIZE zero_variable, mSectionData = replicate TRACE_SECTION_SIZE zero_section\<rparr>"

section \<open>Variables\<close>

definition set_data :: "nat \<Rightarrow> variable_data \<Rightarrow> variable_data" where
  "set_data value v = v\<lparr>vdCurrentValue := value, vdMaxValue := max value (vdMaxValue v)\<rparr>"

definition setVariable :: "nat \<Rightarrow> nat \<Rightarrow> trace_module \<Rightarrow> trace_module" where
  "setVariable variable value t =
     (if variable < TRACE_VARIABLE_SIZE
      then t\<lparr>mVariableData := (mVariableData t)[variable := set_data value (mVariableData t ! variable)]\<rparr> else t)"

definition addToVariable :: "nat \<Rightarrow> nat \<Rightarrow> trace_module \<Rightarrow> trace_module" where
  "addToVariable variable value t =
     (if variable < TRACE_VARIABLE_SIZE
      then setVariable variable (u64 (vdCurrentValue (mVariableData t ! variable) + value)) t else t)"

definition incrementVariable :: "nat \<Rightarrow> trace_module \<Rightarrow> trace_module" where
  "incrementVariable variable = addToVariable variable 1"

definition add_data :: "nat \<Rightarrow> variable_data \<Rightarrow> variable_data" where
  "add_data value v = set_data (u64 (vdCurrentValue v + value)) v"

definition addToAtomicVariable :: "nat \<Rightarrow> nat \<Rightarrow> trace_module \<Rightarrow> trace_module" where
  "addToAtomicVariable variable value t =
     (if variable < TRACE_ATOMIC_VARIABLE_SIZE
      then t\<lparr>mAtomicVariableData := (mAtomicVariableData t)[variable := add_data value (mAtomicVariableData t ! variable)]\<rparr> else t)"

definition incrementAtomicVariable :: "nat \<Rightarrow> trace_module \<Rightarrow> trace_module" where
  "incrementAtomicVariable variable = addToAtomicVariable variable 1"

definition sub_data :: "nat \<Rightarrow> variable_data \<Rightarrow> variable_data" where
  "sub_data value v = v\<lparr>vdCurrentValue := sub64 (vdCurrentValue v) value\<rparr>"

definition subtractFromAtomicVariable :: "nat \<Rightarrow> nat \<Rightarrow> trace_module \<Rightarrow> trace_module" where
  "subtractFromAtomicVariable variable value t =
     (if variable < TRACE_ATOMIC_VARIABLE_SIZE
      then t\<lparr>mAtomicVariableData := (mAtomicVariableData t)[variable := sub_data value (mAtomicVariableData t ! variable)]\<rparr> else t)"

definition decrementAtomicVariable :: "nat \<Rightarrow> trace_module \<Rightarrow> trace_module" where
  "decrementAtomicVariable variable = subtractFromAtomicVariable variable 1"

definition getVariableMax :: "nat \<Rightarrow> trace_module \<Rightarrow> nat" where
  "getVariableMax variable t = (if variable < TRACE_VARIABLE_SIZE then vdMaxValue (mVariableData t ! variable) else 0)"

section \<open>Sections\<close>

definition duration :: "int \<Rightarrow> double" where
  "duration ns = ddiv (of_integer ns) (Fin 1000000000)"

definition begin_section :: "int \<Rightarrow> section_data \<Rightarrow> section_data" where
  "begin_section time d =
     (let d = d\<lparr>sdLastStartTime := time, sdCurrentlyActive := True\<rparr> in
      if sdHitCounter d > 0
      then let interval = duration (time - sdLastEndTime d)
           in d\<lparr>sdIntervalSum := dadd (sdIntervalSum d) interval, sdMaxInterval := dmax (sdMaxInterval d) interval\<rparr>
      else d)"

definition end_section :: "int \<Rightarrow> section_data \<Rightarrow> section_data" where
  "end_section time d =
     (let spent = duration (time - sdLastStartTime d)
      in d\<lparr>sdLastEndTime := time, sdHitCounter := u32 (sdHitCounter d + 1), sdCurrentlyActive := False,
           sdTimeSpentSum := dadd (sdTimeSpentSum d) spent, sdMaxSpent := dmax (sdMaxSpent d) spent\<rparr>)"

definition sectionBegin :: "nat \<Rightarrow> int \<Rightarrow> trace_module \<Rightarrow> trace_module" where
  "sectionBegin sec time t =
     (if sec < TRACE_SECTION_SIZE then t\<lparr>mSectionData := (mSectionData t)[sec := begin_section time (mSectionData t ! sec)]\<rparr> else t)"

definition sectionEnd :: "nat \<Rightarrow> int \<Rightarrow> trace_module \<Rightarrow> trace_module" where
  "sectionEnd sec time t =
     (if sec < TRACE_SECTION_SIZE \<and> sdCurrentlyActive (mSectionData t ! sec)
      then t\<lparr>mSectionData := (mSectionData t)[sec := end_section time (mSectionData t ! sec)]\<rparr> else t)"

section \<open>Observation windows\<close>

definition all_time_variable :: "variable_data \<Rightarrow> variable_data" where
  "all_time_variable v = v\<lparr>vdMaxValueAllTime := max (vdMaxValueAllTime v) (vdMaxValue v)\<rparr>"

definition all_time_section :: "section_data \<Rightarrow> section_data" where
  "all_time_section d = d\<lparr>sdMaxSpentAllTime := dmax (sdMaxSpentAllTime d) (sdMaxSpent d),
     sdMaxIntervalAllTime := dmax (sdMaxIntervalAllTime d) (sdMaxInterval d)\<rparr>"

definition updateAllTimeData :: "trace_module \<Rightarrow> trace_module" where
  "updateAllTimeData t = t\<lparr>mVariableData := map all_time_variable (mVariableData t),
     mAtomicVariableData := map all_time_variable (mAtomicVariableData t), mSectionData := map all_time_section (mSectionData t)\<rparr>"

definition startNewObservationWindow :: "trace_module \<Rightarrow> trace_module" where
  "startNewObservationWindow t =
     (let t = updateAllTimeData t
      in t\<lparr>mVariableData := map (vdMaxValue_update (\<lambda>_. 0)) (mVariableData t),
           mAtomicVariableData := map (vdMaxValue_update (\<lambda>_. 0)) (mAtomicVariableData t),
           mSectionData := map (\<lambda>d. d\<lparr>sdMaxSpent := Fin 0, sdMaxInterval := Fin 0\<rparr>) (mSectionData t)\<rparr>)"

section \<open>Metrics\<close>

record metric =
  mtName :: string
  mtValue :: double
  mtUnit :: string

definition id_suffix :: "nat \<Rightarrow> string" where
  "id_suffix i = ''_id'' @ decimal i"

definition variable_metrics :: "nat \<Rightarrow> variable_data \<Rightarrow> metric list" where
  "variable_metrics i v =
     [\<lparr>mtName = ''variableMaxSinceStartup_'' @ getVariableName i @ id_suffix i, mtValue = of_integer (int (vdMaxValue v)), mtUnit = ''Count''\<rparr>,
      \<lparr>mtName = ''variableMaxSinceLast_'' @ getVariableName i @ id_suffix i, mtValue = of_integer (int (vdMaxValueAllTime v)), mtUnit = ''Count''\<rparr>]"

definition atomic_metrics :: "nat \<Rightarrow> variable_data \<Rightarrow> metric list" where
  "atomic_metrics i v =
     [\<lparr>mtName = ''variableMaxSinceStartup_atomic_'' @ getAtomicVariableName i @ id_suffix i,
        mtValue = of_integer (int (vdMaxValueAllTime v)), mtUnit = ''Count''\<rparr>,
      \<lparr>mtName = ''variableMaxSinceLast_atomic_'' @ getAtomicVariableName i @ id_suffix i,
        mtValue = of_integer (int (vdMaxValue v)), mtUnit = ''Count''\<rparr>]"

definition section_metrics :: "nat \<Rightarrow> section_data \<Rightarrow> metric list" where
  "section_metrics i d =
     (let hits = of_integer (int (sdHitCounter d)) in
     [\<lparr>mtName = ''sectionAvgSinceStartup_'' @ getSectionName i @ id_suffix i, mtValue = ddiv (sdTimeSpentSum d) hits, mtUnit = ''Seconds''\<rparr>,
      \<lparr>mtName = ''sectionMaxSinceStartup_'' @ getSectionName i @ id_suffix i, mtValue = sdMaxSpentAllTime d, mtUnit = ''Seconds''\<rparr>,
      \<lparr>mtName = ''sectionMaxSinceLast_'' @ getSectionName i @ id_suffix i, mtValue = sdMaxSpent d, mtUnit = ''Seconds''\<rparr>,
      \<lparr>mtName = ''sectionCountSinceStartup_'' @ getSectionName i @ id_suffix i, mtValue = hits, mtUnit = ''Seconds''\<rparr>])"

definition indexed :: "(nat \<Rightarrow> 'a \<Rightarrow> 'b list) \<Rightarrow> 'a list \<Rightarrow> 'b list" where
  "indexed f xs = concat (map (\<lambda>(i, x). f i x) (enumerate 0 xs))"

definition trace_metrics :: "trace_module \<Rightarrow> metric list" where
  "trace_metrics t = indexed variable_metrics (mVariableData t) @ indexed atomic_metrics (mAtomicVariableData t) @
     indexed section_metrics (mSectionData t)"

text \<open>The receiver, a pointer, takes the metrics one after the other.\<close>

definition forwardAllMetrics :: "(metric \<Rightarrow> 'r \<Rightarrow> 'r) option \<Rightarrow> trace_module \<Rightarrow> 'r \<Rightarrow> trace_module \<times> 'r" where
  "forwardAllMetrics profiler t r =
     (case profiler of
        None \<Rightarrow> (t, r)
      | Some setMetric \<Rightarrow> let t = updateAllTimeData t in (t, fold setMetric (trace_metrics t) r))"

text \<open>
  The numbers \<open>print\<close> writes. The number of intervals is computed without sign, so that it wraps
  around for a section that never ran.
\<close>

definition printed_variable :: "variable_data \<Rightarrow> nat list" where
  "printed_variable v = [vdCurrentValue v, vdMaxValue v, vdMaxValueAllTime v]"

definition printed_section :: "section_data \<Rightarrow> nat \<times> double list" where
  "printed_section d =
     (sdHitCounter d,
      [ddiv (sdTimeSpentSum d) (of_integer (int (sdHitCounter d))), sdMaxSpent d, sdMaxSpentAllTime d,
       ddiv (sdIntervalSum d) (of_integer (int (sub32 (sdHitCounter d) (if sdCurrentlyActive d then 0 else 1)))),
       sdMaxInterval d, sdMaxIntervalAllTime d])"

definition print_trace :: "trace_module \<Rightarrow> trace_module \<times> nat list list \<times> nat list list \<times> (nat \<times> double list) list" where
  "print_trace t =
     (let t = updateAllTimeData t
      in (t, map printed_variable (mVariableData t), map printed_variable (mAtomicVariableData t), map printed_section (mSectionData t)))"

section \<open>What was recorded\<close>

datatype trace_event = SetTo nat nat | AddTo nat nat | AddAtomic nat nat | SubAtomic nat nat | BeginSection nat int | EndSection nat int |
  NewWindow | Report

fun trace_step :: "trace_event \<Rightarrow> trace_module \<Rightarrow> trace_module" where
  "trace_step (SetTo i v) t = setVariable i v t"
| "trace_step (AddTo i v) t = addToVariable i v t"
| "trace_step (AddAtomic i v) t = addToAtomicVariable i v t"
| "trace_step (SubAtomic i v) t = subtractFromAtomicVariable i v t"
| "trace_step (BeginSection i time) t = sectionBegin i time t"
| "trace_step (EndSection i time) t = sectionEnd i time t"
| "trace_step NewWindow t = startNewObservationWindow t"
| "trace_step Report t = updateAllTimeData t"

text \<open>A variable by its history: its value, the values of this window, and those of all earlier windows.\<close>

fun variable_history :: "nat \<Rightarrow> trace_event \<Rightarrow> nat \<times> nat list \<times> nat list \<Rightarrow> nat \<times> nat list \<times> nat list" where
  "variable_history i (SetTo j v) (cur, win, old) = (if i = j then (v, v # win, old) else (cur, win, old))"
| "variable_history i (AddTo j v) (cur, win, old) = (if i = j then (u64 (cur + v), u64 (cur + v) # win, old) else (cur, win, old))"
| "variable_history i NewWindow (cur, win, old) = (cur, [], win @ old)"
| "variable_history i e h = h"

fun atomic_history :: "nat \<Rightarrow> trace_event \<Rightarrow> nat \<times> nat list \<times> nat list \<Rightarrow> nat \<times> nat list \<times> nat list" where
  "atomic_history i (AddAtomic j v) (cur, win, old) = (if i = j then (u64 (cur + v), u64 (cur + v) # win, old) else (cur, win, old))"
| "atomic_history i (SubAtomic j v) (cur, win, old) = (if i = j then (sub64 cur v, win, old) else (cur, win, old))"
| "atomic_history i NewWindow (cur, win, old) = (cur, [], win @ old)"
| "atomic_history i e h = h"

definition largest :: "nat list \<Rightarrow> nat" where
  "largest xs = foldr max xs 0"

text \<open>
  A section by its history: the begin of the execution under way, the completed executions, and the
  times from the last end to each later begin, latest first.
\<close>

fun section_history ::
  "nat \<Rightarrow> trace_event \<Rightarrow> int option \<times> (int \<times> int) list \<times> int list \<Rightarrow> int option \<times> (int \<times> int) list \<times> int list" where
  "section_history i (BeginSection j time) (active, runs, gaps) =
     (if i = j then (Some time, runs, if runs = [] then gaps else (time - snd (hd runs)) # gaps) else (active, runs, gaps))"
| "section_history i (EndSection j time) (active, runs, gaps) =
     (if i = j then (case active of None \<Rightarrow> (active, runs, gaps) | Some b \<Rightarrow> (None, (b, time) # runs, gaps)) else (active, runs, gaps))"
| "section_history i e h = h"

definition time_total :: "int list \<Rightarrow> double" where
  "time_total ns = foldr (\<lambda>n s. dadd s (duration n)) ns (Fin 0)"

section \<open>Variables hold their histories\<close>

lemma largest_simps [simp]: "largest [] = 0" "largest (x # xs) = max x (largest xs)" "largest (xs @ ys) = max (largest xs) (largest ys)"
proof -
  show "largest (xs @ ys) = max (largest xs) (largest ys)" by (induction xs) (auto simp: largest_def)
qed (simp_all add: largest_def)

definition holds_variable :: "nat \<times> nat list \<times> nat list \<Rightarrow> variable_data \<Rightarrow> bool" where
  "holds_variable = (\<lambda>(cur, win, old) v. vdCurrentValue v = cur \<and> vdMaxValue v = largest win \<and>
     max (vdMaxValueAllTime v) (vdMaxValue v) = largest (win @ old))"

definition sized :: "trace_module \<Rightarrow> bool" where
  "sized t \<longleftrightarrow> length (mVariableData t) = TRACE_VARIABLE_SIZE \<and> length (mAtomicVariableData t) = TRACE_ATOMIC_VARIABLE_SIZE \<and>
     length (mSectionData t) = TRACE_SECTION_SIZE"

lemmas trace_op_defs = setVariable_def addToVariable_def addToAtomicVariable_def subtractFromAtomicVariable_def sectionBegin_def sectionEnd_def
  startNewObservationWindow_def updateAllTimeData_def

lemma sized_step: "sized t \<Longrightarrow> sized (trace_step e t)"
  by (cases e) (auto simp: sized_def trace_op_defs Let_def)

lemma sized_run: "sized (fold trace_step es new_trace)"
proof (induction es rule: rev_induct)
  case Nil
  then show ?case by (simp add: sized_def new_trace_def)
qed (simp add: sized_step)

lemma variable_step:
  assumes "sized t" and "i < TRACE_VARIABLE_SIZE" and "holds_variable h (mVariableData t ! i)"
  shows "holds_variable (variable_history i e h) (mVariableData (trace_step e t) ! i)"
  using assms by (cases e; cases h)
    (auto simp: sized_def trace_op_defs holds_variable_def set_data_def all_time_variable_def nth_list_update Let_def)

lemma atomic_step:
  assumes "sized t" and "i < TRACE_ATOMIC_VARIABLE_SIZE" and "holds_variable h (mAtomicVariableData t ! i)"
  shows "holds_variable (atomic_history i e h) (mAtomicVariableData (trace_step e t) ! i)"
  using assms by (cases e; cases h)
    (auto simp: sized_def trace_op_defs holds_variable_def set_data_def add_data_def sub_data_def all_time_variable_def nth_list_update Let_def)

lemma variable_run:
  "i < TRACE_VARIABLE_SIZE \<Longrightarrow> holds_variable (fold (variable_history i) es (0, [], [])) (mVariableData (fold trace_step es new_trace) ! i)"
proof (induction es rule: rev_induct)
  case Nil
  then show ?case by (simp add: holds_variable_def new_trace_def zero_variable_def)
next
  case (snoc e es)
  then show ?case using variable_step [OF sized_run] by simp
qed

lemma atomic_run:
  "i < TRACE_ATOMIC_VARIABLE_SIZE \<Longrightarrow> holds_variable (fold (atomic_history i) es (0, [], [])) (mAtomicVariableData (fold trace_step es new_trace) ! i)"
proof (induction es rule: rev_induct)
  case Nil
  then show ?case by (simp add: holds_variable_def new_trace_def zero_variable_def)
next
  case (snoc e es)
  then show ?case using atomic_step [OF sized_run] by simp
qed

section \<open>Sections hold their histories\<close>

definition holds_section :: "int option \<times> (int \<times> int) list \<times> int list \<Rightarrow> section_data \<Rightarrow> bool" where
  "holds_section = (\<lambda>(active, runs, gaps) d. length runs < 2 ^ 32 \<longrightarrow>
     sdCurrentlyActive d = (active \<noteq> None) \<and> (active \<noteq> None \<longrightarrow> sdLastStartTime d = the active) \<and> sdHitCounter d = length runs \<and>
     (runs \<noteq> [] \<longrightarrow> sdLastEndTime d = snd (hd runs)) \<and> sdTimeSpentSum d = time_total (map (\<lambda>(b, e). e - b) runs) \<and>
     sdIntervalSum d = time_total gaps)"

lemma begin_holds: "holds_section h d \<Longrightarrow> holds_section (section_history i (BeginSection i time) h) (begin_section time d)"
  by (cases h) (auto simp: holds_section_def begin_section_def time_total_def Let_def)

lemma end_holds:
  "holds_section h d \<Longrightarrow> sdCurrentlyActive d \<Longrightarrow> holds_section (section_history i (EndSection i time) h) (end_section time d)"
  by (cases h) (auto simp: holds_section_def end_section_def time_total_def u32_id Let_def split: option.splits)

lemma end_ignored:
  "holds_section h d \<Longrightarrow> \<not> sdCurrentlyActive d \<Longrightarrow> holds_section (section_history i (EndSection i time) h) d"
  by (cases h) (auto simp: holds_section_def split: option.splits)

lemma window_holds: "holds_section h d \<Longrightarrow> holds_section h (all_time_section d)"
  "holds_section h d \<Longrightarrow> holds_section h (d\<lparr>sdMaxSpent := x, sdMaxInterval := y\<rparr>)"
  by (cases h, simp add: holds_section_def all_time_section_def)+

lemma other_section: "i \<noteq> j \<Longrightarrow> section_history i (BeginSection j time) h = h" "i \<noteq> j \<Longrightarrow> section_history i (EndSection j time) h = h"
  by (cases h, simp)+

lemma section_step:
  assumes "sized t" and "i < TRACE_SECTION_SIZE" and "holds_section h (mSectionData t ! i)"
  shows "holds_section (section_history i e h) (mSectionData (trace_step e t) ! i)"
proof (cases e)
  case (BeginSection j time)
  then show ?thesis using assms begin_holds [OF assms(3), of i time]
    by (cases "i = j") (auto simp: sized_def trace_op_defs other_section)
next
  case (EndSection j time)
  then show ?thesis using assms end_holds [OF assms(3), of i time] end_ignored [OF assms(3), of i time]
    by (cases "i = j") (auto simp: sized_def trace_op_defs other_section)
next
  case NewWindow
  then show ?thesis using assms by (simp add: sized_def trace_op_defs window_holds Let_def)
next
  case Report
  then show ?thesis using assms by (simp add: sized_def trace_op_defs window_holds)
qed (use assms in \<open>simp_all add: trace_op_defs\<close>)

lemma section_run:
  "i < TRACE_SECTION_SIZE \<Longrightarrow> holds_section (fold (section_history i) es (None, [], [])) (mSectionData (fold trace_step es new_trace) ! i)"
proof (induction es rule: rev_induct)
  case Nil
  then show ?case by (simp add: holds_section_def new_trace_def zero_section_def time_total_def)
next
  case (snoc e es)
  then show ?case using section_step [OF sized_run] by simp
qed

section \<open>The metrics\<close>

lemma indexed_snoc: "indexed f (xs @ [x]) = indexed f xs @ f (length xs) x"
  by (simp add: indexed_def enumerate_append_eq)

lemma indexed_length: "(\<And>i x. length (f i x) = n) \<Longrightarrow> length (indexed f xs) = n * length xs"
proof (induction xs rule: rev_induct)
  case Nil
  then show ?case by (simp add: indexed_def)
qed (simp add: indexed_snoc)

lemma indexed_nth:
  assumes "\<And>i x. length (f i x) = n" and "i < length xs" and "j < n"
  shows "indexed f xs ! (n * i + j) = f i (xs ! i) ! j"
  using assms(2)
proof (induction xs rule: rev_induct)
  case (snoc x xs)
  show ?case
  proof (cases "i < length xs")
    case True
    then have "n * Suc i \<le> n * length xs" by (intro mult_le_mono) auto
    then have "n * i + j < n * length xs" using assms(3) by simp
    then show ?thesis using snoc.IH True by (simp add: indexed_snoc nth_append indexed_length [of f, OF assms(1)])
  next
    case False
    then have "i = length xs" using snoc.prems by simp
    then show ?thesis by (simp add: indexed_snoc nth_append indexed_length [of f, OF assms(1)])
  qed
qed simp

lemma metric_lengths [simp]: "length (variable_metrics i v) = 2" "length (atomic_metrics i v) = 2" "length (section_metrics i d) = 4"
  by (simp_all add: variable_metrics_def atomic_metrics_def section_metrics_def Let_def)

lemma metric_at:
  assumes "sized t"
  shows "i < TRACE_VARIABLE_SIZE \<Longrightarrow> j < 2 \<Longrightarrow> trace_metrics t ! (2 * i + j) = variable_metrics i (mVariableData t ! i) ! j"
    and "i < TRACE_ATOMIC_VARIABLE_SIZE \<Longrightarrow> j < 2 \<Longrightarrow>
      trace_metrics t ! (2 * TRACE_VARIABLE_SIZE + (2 * i + j)) = atomic_metrics i (mAtomicVariableData t ! i) ! j"
    and "i < TRACE_SECTION_SIZE \<Longrightarrow> j < 4 \<Longrightarrow>
      trace_metrics t ! (2 * TRACE_VARIABLE_SIZE + 2 * TRACE_ATOMIC_VARIABLE_SIZE + (4 * i + j)) = section_metrics i (mSectionData t ! i) ! j"
    and "length (trace_metrics t) = 2 * TRACE_VARIABLE_SIZE + 2 * TRACE_ATOMIC_VARIABLE_SIZE + 4 * TRACE_SECTION_SIZE"
  using assms
  by (auto simp: trace_metrics_def nth_append sized_def indexed_nth indexed_length [where n = 2] indexed_length [where n = 4])

text \<open>The metrics a receiver gets after a run.\<close>

definition reported :: "trace_event list \<Rightarrow> metric list" where
  "reported es = snd (forwardAllMetrics (Some (\<lambda>m ms. ms @ [m])) (fold trace_step es new_trace) [])"

lemma fold_snoc: "fold (\<lambda>m ms. ms @ [m]) xs ys = ys @ xs"
  by (induction xs arbitrary: ys) auto

lemma reported_metrics: "reported es = trace_metrics (fold trace_step (es @ [Report]) new_trace)"
  by (simp add: reported_def forwardAllMetrics_def fold_snoc Let_def)

lemma history_Report: "variable_history i Report h = h" "atomic_history i Report h = h" "section_history i Report g = g"
  by (cases h, simp)+

text \<open>
  Whatever was recorded, the metric ``since startup'' of a plain variable is its maximum in the
  current observation window, and the one ``since last'' its maximum of all time: the two are
  swapped. Those of the atomic variables are as named.
\<close>

theorem metrics_hold_maxima:
  assumes "i < TRACE_VARIABLE_SIZE" and "a < TRACE_ATOMIC_VARIABLE_SIZE"
  shows "(case fold (variable_history i) es (0, [], []) of (_, win, old) \<Rightarrow>
      reported es ! (2 * i) = \<lparr>mtName = ''variableMaxSinceStartup_'' @ getVariableName i @ id_suffix i, mtValue = of_integer (int (largest win)), mtUnit = ''Count''\<rparr> \<and>
      reported es ! (2 * i + 1) = \<lparr>mtName = ''variableMaxSinceLast_'' @ getVariableName i @ id_suffix i, mtValue = of_integer (int (largest (win @ old))), mtUnit = ''Count''\<rparr>) \<and>
    (case fold (atomic_history a) es (0, [], []) of (_, win, old) \<Rightarrow>
      reported es ! (2 * TRACE_VARIABLE_SIZE + 2 * a) =
        \<lparr>mtName = ''variableMaxSinceStartup_atomic_'' @ getAtomicVariableName a @ id_suffix a, mtValue = of_integer (int (largest (win @ old))), mtUnit = ''Count''\<rparr> \<and>
      reported es ! (2 * TRACE_VARIABLE_SIZE + (2 * a + 1)) =
        \<lparr>mtName = ''variableMaxSinceLast_atomic_'' @ getAtomicVariableName a @ id_suffix a, mtValue = of_integer (int (largest win)), mtUnit = ''Count''\<rparr>)"
proof -
  let ?t = "fold trace_step (es @ [Report]) new_trace"
  obtain cur win old where v: "fold (variable_history i) es (0, [], []) = (cur, win, old)" by (metis prod_cases3)
  obtain acur awin aold where av: "fold (atomic_history a) es (0, [], []) = (acur, awin, aold)" by (metis prod_cases3)
  have "holds_variable (cur, win, old) (mVariableData ?t ! i)" using variable_run [OF assms(1), of "es @ [Report]"] v by (simp add: history_Report)
  moreover have "vdMaxValueAllTime (mVariableData ?t ! i) = max (vdMaxValueAllTime (mVariableData ?t ! i)) (vdMaxValue (mVariableData ?t ! i))"
    using sized_run [of es] assms(1) by (simp add: updateAllTimeData_def sized_def all_time_variable_def)
  ultimately have p: "vdMaxValue (mVariableData ?t ! i) = largest win" "vdMaxValueAllTime (mVariableData ?t ! i) = largest (win @ old)"
    unfolding holds_variable_def prod.case by metis+
  have "holds_variable (acur, awin, aold) (mAtomicVariableData ?t ! a)" using atomic_run [OF assms(2), of "es @ [Report]"] av by (simp add: history_Report)
  moreover have "vdMaxValueAllTime (mAtomicVariableData ?t ! a) = max (vdMaxValueAllTime (mAtomicVariableData ?t ! a)) (vdMaxValue (mAtomicVariableData ?t ! a))"
    using sized_run [of es] assms(2) by (simp add: updateAllTimeData_def sized_def all_time_variable_def)
  ultimately have q: "vdMaxValue (mAtomicVariableData ?t ! a) = largest awin" "vdMaxValueAllTime (mAtomicVariableData ?t ! a) = largest (awin @ aold)"
    unfolding holds_variable_def prod.case by metis+
  note m = metric_at(1,2) [OF sized_run, of _ 0 "es @ [Report]"] metric_at(1,2) [OF sized_run, of _ 1 "es @ [Report]"]
  show ?thesis unfolding reported_metrics v av prod.case
    using m(1,3) [OF assms(1)] m(2,4) [OF assms(2)] p q
    by (simp add: variable_metrics_def atomic_metrics_def del: fold_append largest_simps)
qed

text \<open>
  The count of a section is the number of its completed executions, its average the sum of their
  times divided by that number, and its unit is seconds either way. A begin inside an execution
  restarts it; the time since the last end is then counted once for each begin.
\<close>

theorem sections_counted:
  assumes "i < TRACE_SECTION_SIZE"
  shows "case fold (section_history i) es (None, [], []) of (active, runs, gaps) \<Rightarrow> length runs < 2 ^ 32 \<longrightarrow>
      reported es ! (2 * TRACE_VARIABLE_SIZE + 2 * TRACE_ATOMIC_VARIABLE_SIZE + 4 * i) =
        \<lparr>mtName = ''sectionAvgSinceStartup_'' @ getSectionName i @ id_suffix i,
         mtValue = ddiv (time_total (map (\<lambda>(b, e). e - b) runs)) (of_integer (int (length runs))), mtUnit = ''Seconds''\<rparr> \<and>
      reported es ! (2 * TRACE_VARIABLE_SIZE + 2 * TRACE_ATOMIC_VARIABLE_SIZE + (4 * i + 3)) =
        \<lparr>mtName = ''sectionCountSinceStartup_'' @ getSectionName i @ id_suffix i, mtValue = of_integer (int (length runs)), mtUnit = ''Seconds''\<rparr> \<and>
      sdIntervalSum (mSectionData (fold trace_step es new_trace) ! i) = time_total gaps"
proof -
  let ?t = "fold trace_step (es @ [Report]) new_trace"
  obtain active runs gaps where h: "fold (section_history i) es (None, [], []) = (active, runs, gaps)" by (metis prod_cases3)
  have "holds_section (active, runs, gaps) (mSectionData ?t ! i)" "holds_section (active, runs, gaps) (mSectionData (fold trace_step es new_trace) ! i)"
    using section_run [OF assms, of "es @ [Report]"] section_run [OF assms, of es] h by (simp_all add: history_Report)
  then show ?thesis unfolding reported_metrics h prod.case
    using metric_at(3) [OF sized_run assms, of 0 "es @ [Report]"] metric_at(3) [OF sized_run assms, of 3 "es @ [Report]"]
    by (simp add: section_metrics_def holds_section_def Let_def numeral_3_eq_3 del: fold_append)
qed

section \<open>Samples\<close>

lemma sample_sizes: "0 < TRACE_VARIABLE_SIZE" "0 < TRACE_ATOMIC_VARIABLE_SIZE" "1 < TRACE_SECTION_SIZE"
  by (simp_all add: TRACE_VARIABLE_SIZE_def TRACE_ATOMIC_VARIABLE_SIZE_def TRACE_SECTION_SIZE_def
    trace_variables_def trace_atomic_variables_def trace_sections_def)

text \<open>A maximum of 5 in an earlier window and of 3 in the current one.\<close>

lemma metrics_hold_maxima_witness:
  "let ms = reported [SetTo 0 5, AddAtomic 0 5, NewWindow, SetTo 0 3, SubAtomic 0 4, AddAtomic 0 2] in
     mtValue (ms ! 0) = of_integer 3 \<and> mtValue (ms ! 1) = of_integer 5 \<and>
     mtValue (ms ! (2 * TRACE_VARIABLE_SIZE)) = of_integer 5 \<and> mtValue (ms ! (2 * TRACE_VARIABLE_SIZE + 1)) = of_integer 3"
  using metrics_hold_maxima [OF sample_sizes(1,2), of "[SetTo 0 5, AddAtomic 0 5, NewWindow, SetTo 0 3, SubAtomic 0 4, AddAtomic 0 2]"]
  by (simp add: u64_def sub64_def Let_def)

lemma sample_suffix: "id_suffix (Suc 0) = ''_id1''"
  by code_simp

lemma sections_counted_witness:
  "reported [EndSection 1 0, BeginSection 1 5, EndSection 1 10, BeginSection 1 20, BeginSection 1 30, EndSection 1 40] !
      (2 * TRACE_VARIABLE_SIZE + 2 * TRACE_ATOMIC_VARIABLE_SIZE + 7) =
    \<lparr>mtName = ''sectionCountSinceStartup_FWE_STARTUP_id1'', mtValue = of_integer 2, mtUnit = ''Seconds''\<rparr>"
  using sections_counted [OF sample_sizes(3), of "[EndSection 1 0, BeginSection 1 5, EndSection 1 10, BeginSection 1 20, BeginSection 1 30, EndSection 1 40]"]
  by (simp add: getSectionName_def display_name_def trace_sections_def sample_suffix)

end
