(* ===== verification/ResourceUsage.thy ===== *)
theory ResourceUsage
  imports UploadWriter CanSource
begin

text \<open>
  What the process uses (\<open>CPUUsageInfo.cpp\<close>, \<open>CPUUsageInfo.h\<close>, \<open>MemoryUsageInfo.cpp\<close>): times of
  the process and of each thread, and memory. System calls and the files of the kernel are inputs. The
  lemmas show that the parser of a thread's status line reads what the kernel documents.
\<close>

section \<open>Processor time\<close>

record cpu_usage =
  mUserSpaceTime :: double
  mKernelSpaceTime :: double
  mIdleTime :: double
  mNumCPUCores :: nat

definition new_cpu_usage :: "nat \<Rightarrow> cpu_usage" where
  "new_cpu_usage cores = \<lparr>mUserSpaceTime = Fin 0, mKernelSpaceTime = Fin 0, mIdleTime = Fin 0, mNumCPUCores = max cores 1\<rparr>"

text \<open>Seconds and microseconds as a double; the microsecond is the nearest double.\<close>

definition time_value :: "nat \<times> nat \<Rightarrow> double" where
  "time_value = (\<lambda>(sec, usec). dadd (of_integer (int sec)) (dmul (round64 (1 / 1000000)) (of_integer (int usec))))"

text \<open>
  \<open>getrusage\<close> gives the user and the system time or fails; the four numbers of the uptime file are
  there only when the file can be opened and matches.
\<close>

definition reportCPUUsageInfo ::
  "((nat \<times> nat) \<times> (nat \<times> nat)) option \<Rightarrow> (nat \<times> nat \<times> nat \<times> nat) option \<Rightarrow> cpu_usage \<Rightarrow> bool \<times> cpu_usage" where
  "reportCPUUsageInfo usage uptime u =
     (case usage of
        None \<Rightarrow> (False, u)
      | Some (user, system) \<Rightarrow>
          let u = u\<lparr>mUserSpaceTime := time_value user, mKernelSpaceTime := time_value system\<rparr> in
          (True, case uptime of
             None \<Rightarrow> u
           | Some (uptimeSeconds, uptimeFraction, idleTimeSeconds, idleTimeFraction) \<Rightarrow>
               u\<lparr>mIdleTime := dadd (of_integer (int uptimeSeconds)) (ddiv (of_integer (int idleTimeFraction)) (Fin 100))\<rparr>))"

definition getTotalTime :: "cpu_usage \<Rightarrow> double" where
  "getTotalTime u = dadd (mUserSpaceTime u) (mKernelSpaceTime u)"

text \<open>\<open>round\<close>: to the nearest integer, halves away from zero.\<close>

definition dround :: "double \<Rightarrow> double" where
  "dround x = (case x of Fin q \<Rightarrow>
     let n = (if q < 0 then - \<lfloor>- q + 1 / 2\<rfloor> else \<lfloor>q + 1 / 2\<rfloor>) in if n = 0 then (if q < 0 then NegZero else Fin 0) else round64 (of_int n) | _ \<Rightarrow> x)"

definition percentage :: "double \<Rightarrow> double \<Rightarrow> double \<Rightarrow> double" where
  "percentage userTime systemTime elapsedSeconds =
     ddiv (dround (dmul (ddiv (dadd userTime systemTime) elapsedSeconds) (Fin 10000))) (Fin 100)"

definition getCPUPercentage :: "cpu_usage \<Rightarrow> double \<Rightarrow> cpu_usage \<Rightarrow> double" where
  "getCPUPercentage previousUsage elapsedSeconds u =
     percentage (dsub (mUserSpaceTime u) (mUserSpaceTime previousUsage)) (dsub (mKernelSpaceTime u) (mKernelSpaceTime previousUsage)) elapsedSeconds"

definition getTotalCPUPercentage :: "cpu_usage \<Rightarrow> double \<Rightarrow> cpu_usage \<Rightarrow> double" where
  "getTotalCPUPercentage previousUsage elapsedSeconds u =
     (let cores = of_integer (int (mNumCPUCores u)) in
      percentage (ddiv (dsub (mUserSpaceTime u) (mUserSpaceTime previousUsage)) cores)
        (ddiv (dsub (mKernelSpaceTime u) (mKernelSpaceTime previousUsage)) cores) elapsedSeconds)"

section \<open>Threads\<close>

record thread_usage =
  tuThreadId :: nat
  tuThreadName :: string
  tuUserSpaceTime :: double
  tuKernelSpaceTime :: double

definition thread_percentage :: "thread_usage \<Rightarrow> double \<Rightarrow> thread_usage \<Rightarrow> double" where
  "thread_percentage previousUsage elapsedSeconds u =
     percentage (dsub (tuUserSpaceTime u) (tuUserSpaceTime previousUsage)) (dsub (tuKernelSpaceTime u) (tuKernelSpaceTime previousUsage)) elapsedSeconds"

definition MAX_PROC_STAT_FILE_SIZE_READ :: nat where "MAX_PROC_STAT_FILE_SIZE_READ = 300"

text \<open>\<open>fgets\<close> reads a line, at most one byte less than its size; the text ends at a zero byte.\<close>

definition newline :: char where "newline = CHR 0x0A"
definition zero_byte :: char where "zero_byte = CHR 0x00"

definition fgets :: "nat \<Rightarrow> string \<Rightarrow> string option" where
  "fgets n file =
     (let line = (case find_index (\<lambda>c. c = newline) file of None \<Rightarrow> file | Some i \<Rightarrow> take (Suc i) file)
      in if file = [] then None else Some (takeWhile (\<lambda>c. c \<noteq> zero_byte) (take (n - 1) line)))"

record stat_parser =
  spField :: nat
  spComm :: string
  spCommFinished :: bool
  spUtime :: string
  spStime :: string

definition start_parser :: stat_parser where
  "start_parser = \<lparr>spField = 1, spComm = [], spCommFinished = False, spUtime = [], spStime = []\<rparr>"

definition stat_char :: "char \<Rightarrow> stat_parser \<Rightarrow> stat_parser" where
  "stat_char c p =
     (if spField p = 2
      then if spCommFinished p \<and> c = CHR '' '' then p\<lparr>spField := spField p + 1\<rparr>
           else if c = CHR '')'' then p\<lparr>spCommFinished := True\<rparr>
           else if c \<noteq> CHR ''('' then p\<lparr>spComm := spComm p @ [c]\<rparr> else p
      else if c = CHR '' '' then p\<lparr>spField := spField p + 1\<rparr>
      else if spField p = 14 then p\<lparr>spUtime := spUtime p @ [c]\<rparr>
      else if spField p = 15 then p\<lparr>spStime := spStime p @ [c]\<rparr>
      else p)"

definition LONG_MAX :: int where "LONG_MAX = 2 ^ 63 - 1"

definition strtoll :: "string \<Rightarrow> int" where
  "strtoll s =
     (let s = dropWhile is_space s;
          neg = (s \<noteq> [] \<and> hd s = CHR ''-'');
          s = (if s \<noteq> [] \<and> (hd s = CHR ''-'' \<or> hd s = CHR ''+'') then tl s else s);
          n = int (digits_value (takeWhile is_digit s));
          v = (if neg then - n else n)
      in if v > LONG_MAX then LONG_MAX else if v < - LONG_MAX - 1 then - LONG_MAX - 1 else v)"

text \<open>A thread by its number and the content of its file, none when it cannot be opened.\<close>

definition thread_entry :: "double \<Rightarrow> nat \<times> string option \<Rightarrow> thread_usage list" where
  "thread_entry clockTickFrequency = (\<lambda>(tid, file).
     case file of
       None \<Rightarrow> []
     | Some text \<Rightarrow>
         (case fgets (MAX_PROC_STAT_FILE_SIZE_READ - 1) text of
            None \<Rightarrow> []
          | Some line \<Rightarrow>
              let p = fold stat_char line start_parser; uTime = strtoll (spUtime p); sTime = strtoll (spStime p) in
              if uTime \<noteq> LONG_MAX \<and> uTime \<ge> 0 \<and> sTime \<noteq> LONG_MAX \<and> sTime \<ge> 0
              then [\<lparr>tuThreadId = tid, tuThreadName = spComm p, tuUserSpaceTime = dmul (of_integer uTime) clockTickFrequency,
                     tuKernelSpaceTime = dmul (of_integer sTime) clockTickFrequency\<rparr>]
              else []))"

definition reportPerThreadUsageData ::
  "nat \<Rightarrow> (nat \<times> string option) list option \<Rightarrow> thread_usage list \<Rightarrow> bool \<times> thread_usage list" where
  "reportPerThreadUsageData ticks tasks old =
     (case tasks of
        None \<Rightarrow> (False, old)
      | Some ts \<Rightarrow> (True, concat (map (thread_entry (ddiv (Fin 1) (of_integer (int ticks)))) ts)))"

section \<open>Memory\<close>

record memory_usage =
  mMaxResidentMemorySize :: nat
  mResidentMemorySize :: nat
  mVirtualMemorySize :: nat

definition new_memory_usage :: memory_usage where
  "new_memory_usage = \<lparr>mMaxResidentMemorySize = 0, mResidentMemorySize = 0, mVirtualMemorySize = 0\<rparr>"

text \<open>The two numbers of the memory file, in pages, and the maximum in kilobytes.\<close>

definition reportMemoryUsageInfo :: "nat \<Rightarrow> (nat \<times> nat) option \<Rightarrow> nat option \<Rightarrow> memory_usage \<Rightarrow> bool \<times> memory_usage" where
  "reportMemoryUsageInfo pageSize statm maxrss m =
     (case statm of
        None \<Rightarrow> (False, m)
      | Some (vmSize, residentSize) \<Rightarrow>
          let m = m\<lparr>mResidentMemorySize := u64 (residentSize * pageSize), mVirtualMemorySize := u64 (vmSize * pageSize)\<rparr> in
          (case maxrss of
             None \<Rightarrow> (False, m)
           | Some kb \<Rightarrow> (True, m\<lparr>mMaxResidentMemorySize := u64 (kb * 1024)\<rparr>)))"

section \<open>The status line\<close>

definition plain_field :: "string \<Rightarrow> bool" where
  "plain_field f \<longleftrightarrow> CHR '' '' \<notin> set f"

text \<open>A line as the kernel documents it, with the fields after the name each preceded by a space.\<close>

definition stat_line :: "string \<Rightarrow> string \<Rightarrow> string list \<Rightarrow> string" where
  "stat_line pid comm parts = pid @ '' ('' @ comm @ '')'' @ concat (map (\<lambda>f. CHR '' '' # f) parts)"

lemma skip_field: "plain_field f \<Longrightarrow> spField p \<notin> {2, 14, 15} \<Longrightarrow> fold stat_char f p = p"
  by (induction f arbitrary: p) (auto simp: plain_field_def stat_char_def)

lemma utime_field: "plain_field f \<Longrightarrow> spField p = 14 \<Longrightarrow> fold stat_char f p = p\<lparr>spUtime := spUtime p @ f\<rparr>"
  by (induction f arbitrary: p) (auto simp: plain_field_def stat_char_def)

lemma stime_field: "plain_field f \<Longrightarrow> spField p = 15 \<Longrightarrow> fold stat_char f p = p\<lparr>spStime := spStime p @ f\<rparr>"
  by (induction f arbitrary: p) (auto simp: plain_field_def stat_char_def)

lemma comm_field:
  "CHR ''('' \<notin> set f \<Longrightarrow> CHR '')'' \<notin> set f \<Longrightarrow> spField p = 2 \<Longrightarrow> \<not> spCommFinished p \<Longrightarrow> fold stat_char f p = p\<lparr>spComm := spComm p @ f\<rparr>"
  by (induction f arbitrary: p) (auto simp: stat_char_def)

lemma next_field: "spField p \<noteq> 2 \<or> spCommFinished p \<Longrightarrow> stat_char (CHR '' '') p = p\<lparr>spField := spField p + 1\<rparr>"
  by (auto simp: stat_char_def)

lemma skip_fields:
  "list_all plain_field fs \<Longrightarrow> spCommFinished p \<Longrightarrow> 2 \<le> spField p \<Longrightarrow> spField p + length fs \<le> 13 \<or> 15 \<le> spField p \<Longrightarrow>
     fold stat_char (concat (map (\<lambda>f. CHR '' '' # f) fs)) p = p\<lparr>spField := spField p + length fs\<rparr>"
proof (induction fs arbitrary: p)
  case (Cons f fs)
  have "fold stat_char f (p\<lparr>spField := spField p + 1\<rparr>) = p\<lparr>spField := spField p + 1\<rparr>"
    by (rule skip_field) (use Cons.prems in auto)
  moreover have "fold stat_char (concat (map (\<lambda>f. CHR '' '' # f) fs)) (p\<lparr>spField := spField p + 1\<rparr>) =
      p\<lparr>spField := spField p + 1\<rparr>\<lparr>spField := spField p + 1 + length fs\<rparr>"
    using Cons.IH [of "p\<lparr>spField := spField p + 1\<rparr>"] Cons.prems by auto
  ultimately show ?case using Cons.prems(2) by (simp add: next_field)
qed simp

lemma stat_line_parsed:
  assumes "plain_field pid" and "CHR ''('' \<notin> set comm" and "CHR '')'' \<notin> set comm"
    and "length before = 11" and "list_all plain_field (before @ [utime, stime] @ rest)"
  shows "fold stat_char (stat_line pid comm (before @ [utime, stime] @ rest)) start_parser =
    \<lparr>spField = 15 + length rest, spComm = comm, spCommFinished = True, spUtime = utime, spStime = stime\<rparr>"
proof -
  have "fold stat_char pid start_parser = start_parser" by (rule skip_field) (use assms(1) in \<open>auto simp: start_parser_def\<close>)
  moreover have "stat_char (CHR '' '') start_parser = start_parser\<lparr>spField := 2\<rparr>"
      "stat_char (CHR ''('') (start_parser\<lparr>spField := 2\<rparr>) = start_parser\<lparr>spField := 2\<rparr>"
      "stat_char (CHR '')'') (start_parser\<lparr>spField := 2, spComm := comm\<rparr>) = start_parser\<lparr>spField := 2, spComm := comm, spCommFinished := True\<rparr>"
    by (simp_all add: stat_char_def start_parser_def)
  moreover have "fold stat_char comm (start_parser\<lparr>spField := 2\<rparr>) = start_parser\<lparr>spField := 2, spComm := comm\<rparr>"
    using comm_field [OF assms(2,3), of "start_parser\<lparr>spField := 2\<rparr>"] by (simp add: start_parser_def)
  ultimately have "fold stat_char (pid @ '' ('' @ comm @ '')'') start_parser = start_parser\<lparr>spField := 2, spComm := comm, spCommFinished := True\<rparr>"
    by simp
  then show ?thesis using assms(4,5)
    by (simp add: stat_line_def skip_fields next_field utime_field stime_field) (simp add: start_parser_def)
qed

text \<open>Numbers as the kernel writes them.\<close>

lemma digit_char: "n < 10 \<Longrightarrow> (of_char (char_of (48 + n) :: char) :: nat) = 48 + n"
  by (simp add: of_char_of)

lemma digits_value_snoc: "digits_value (ds @ [c]) = 10 * digits_value ds + (of_char c - 48)"
  by (simp add: digits_value_def)

lemma decimal_read: "digits_value (decimal n) = n \<and> list_all is_digit (decimal n) \<and> decimal n \<noteq> []"
proof (induction n rule: decimal.induct)
  case (1 n)
  show ?case
  proof (cases "n < 10")
    case True
    then show ?thesis using digit_char [OF True] True by (simp add: decimal.simps [of n] digits_value_def is_digit_def)
  next
    case False
    have "n mod 10 < 10" by simp
    note d = digit_char [OF this]
    show ?thesis using 1 False d by (simp add: decimal.simps [of n] digits_value_snoc is_digit_def)
  qed
qed

lemma digit_facts: "is_digit c \<Longrightarrow> \<not> is_space c \<and> c \<noteq> CHR ''-'' \<and> c \<noteq> CHR ''+'' \<and> c \<noteq> CHR '' ''"
  by (auto simp: is_digit_def is_space_def)

lemma strtoll_decimal: "int n \<le> LONG_MAX \<Longrightarrow> strtoll (decimal n) = int n"
proof -
  assume n: "int n \<le> LONG_MAX"
  have d: "digits_value (decimal n) = n" "list_all is_digit (decimal n)" "decimal n \<noteq> []" using decimal_read by auto
  obtain c cs where cs: "decimal n = c # cs" "is_digit c" using d(2,3) by (cases "decimal n") auto
  have w: "takeWhile is_digit cs = cs" using d(2) cs(1) by (simp add: takeWhile_eq_all_conv list_all_iff)
  show ?thesis using d(1) cs digit_facts [OF cs(2)] n by (simp add: strtoll_def Let_def LONG_MAX_def w)
qed

lemma decimal_plain: "plain_field (decimal n)"
  using decimal_read [of n] digit_facts unfolding plain_field_def list_all_iff by blast

lemma line_read:
  assumes "newline \<notin> set line" and "zero_byte \<notin> set line" and "length line + 2 \<le> n"
  shows "fgets n (line @ newline # after) = Some (line @ [newline])"
proof -
  have "find_index (\<lambda>c. c = newline) (line @ newline # after) = Some (length line)"
    using assms(1) by (induction line) auto
  moreover have "take (n - 1) (line @ [newline]) = line @ [newline]" using assms(3) by simp
  moreover have "takeWhile (\<lambda>c. c \<noteq> zero_byte) (line @ [newline]) = line @ [newline]"
    using assms(2) by (auto simp: takeWhile_eq_all_conv newline_def zero_byte_def)
  ultimately show ?thesis by (simp add: fgets_def)
qed

text \<open>
  The times of a thread are those its status line states: from a line as the kernel documents it,
  of a thread whose name has no parentheses, exactly the name and the two numbers are read, whatever
  the other fields are.
\<close>

theorem thread_times_read:
  assumes "plain_field pid" and "CHR ''('' \<notin> set comm" and "CHR '')'' \<notin> set comm"
    and "length before = 11" and "list_all plain_field before" and "list_all plain_field rest" and "rest \<noteq> []"
    and "line = stat_line pid comm (before @ [decimal utime, decimal stime] @ rest)"
    and "newline \<notin> set line" and "zero_byte \<notin> set line" and "length line \<le> 297"
    and "int utime < LONG_MAX" and "int stime < LONG_MAX"
  shows "reportPerThreadUsageData ticks (Some [(tid, Some (line @ newline # after))]) old =
    (True, [\<lparr>tuThreadId = tid, tuThreadName = comm,
             tuUserSpaceTime = dmul (of_integer (int utime)) (ddiv (Fin 1) (of_integer (int ticks))),
             tuKernelSpaceTime = dmul (of_integer (int stime)) (ddiv (Fin 1) (of_integer (int ticks)))\<rparr>])"
proof -
  have f: "fgets (MAX_PROC_STAT_FILE_SIZE_READ - 1) (line @ newline # after) = Some (line @ [newline])"
    using assms(9,10,11) by (intro line_read) (auto simp: MAX_PROC_STAT_FILE_SIZE_READ_def)
  have "fold stat_char line start_parser =
      \<lparr>spField = 15 + length rest, spComm = comm, spCommFinished = True, spUtime = decimal utime, spStime = decimal stime\<rparr>"
    unfolding assms(8) by (rule stat_line_parsed [OF assms(1-4)]) (use assms(5,6) decimal_plain in simp)
  moreover have "stat_char newline p = p" if "spField p > 15" for p using that by (simp add: stat_char_def newline_def)
  ultimately have "fold stat_char (line @ [newline]) start_parser =
      \<lparr>spField = 15 + length rest, spComm = comm, spCommFinished = True, spUtime = decimal utime, spStime = decimal stime\<rparr>"
    using assms(7) by simp
  then show ?thesis using assms(12,13) f
    by (simp add: reportPerThreadUsageData_def thread_entry_def strtoll_decimal Let_def)
qed

lemma thread_times_read_witness:
  "reportPerThreadUsageData 100 (Some [(7, Some (''7 (fw CN) S 1 1 1 0 -1 0 0 0 0 0 12 5 0'' @ newline # []))]) [] =
    (True, [\<lparr>tuThreadId = 7, tuThreadName = ''fw CN'', tuUserSpaceTime = dmul (of_integer 12) (ddiv (Fin 1) (of_integer 100)),
             tuKernelSpaceTime = dmul (of_integer 5) (ddiv (Fin 1) (of_integer 100))\<rparr>])"
proof -
  have d: "decimal 12 = ''12''" "decimal 5 = ''5''" by code_simp+
  show ?thesis
    using thread_times_read [of "''7''" "''fw CN''" "[''S'', ''1'', ''1'', ''1'', ''0'', ''-1'', ''0'', ''0'', ''0'', ''0'', ''0'']" "[''0'']"
        "''7 (fw CN) S 1 1 1 0 -1 0 0 0 0 0 12 5 0''" 12 5 100 7 "[]" "[]"]
    by (simp add: stat_line_def plain_field_def d LONG_MAX_def newline_def zero_byte_def)
qed

end
