(* ===== verification/RemoteMetrics.thy ===== *)
theory RemoteMetrics
  imports TraceMetrics ResourceUsage UploadSender
begin

text \<open>
  The remote profiler (\<open>RemoteProfiler.cpp\<close>): metrics of the traces and of the process, and log
  messages, uploaded in JSON documents. Operations are atomic; the channels, the clock, the kernel and
  the JSON encoder are inputs. The lemmas show that every metric is uploaded, in bounded documents, and
  that no log message ever is.
\<close>

section \<open>Logging\<close>

datatype LogLevel = Trace | Info | Warning | Error | Off

fun level_rank :: "LogLevel \<Rightarrow> nat" where
  "level_rank Trace = 0"
| "level_rank Info = 1"
| "level_rank Warning = 2"
| "level_rank Error = 3"
| "level_rank Off = 4"

definition stringToLogLevel :: "string \<Rightarrow> LogLevel option" where
  "stringToLogLevel level =
     (if level = ''Info'' then Some Info else if level = ''Error'' then Some Error else if level = ''Warning'' then Some Warning
      else if level = ''Trace'' then Some Trace else if level = ''Off'' then Some Off else None)"

fun levelToString :: "LogLevel \<Rightarrow> string" where
  "levelToString Error = ''ERROR''"
| "levelToString Warning = ''WARN''"
| "levelToString Info = ''INFO''"
| "levelToString Trace = ''TRACE''"
| "levelToString Off = []"

text \<open>The console prints a message that reaches the level of the system, and forwards it to the receiver, if any.\<close>

definition console_logMessage ::
  "LogLevel \<Rightarrow> (LogLevel \<Rightarrow> string \<Rightarrow> string \<Rightarrow> 's \<Rightarrow> 's) option \<Rightarrow> LogLevel \<Rightarrow> string \<Rightarrow> string \<Rightarrow>
   (LogLevel \<times> string \<times> string) list \<times> 's \<Rightarrow> (LogLevel \<times> string \<times> string) list \<times> 's" where
  "console_logMessage systemLevel forwarder level func logEntry = (\<lambda>(printed, s).
     if level_rank systemLevel \<le> level_rank level
     then (printed @ [(level, func, logEntry)], case forwarder of None \<Rightarrow> s | Some f \<Rightarrow> f level func logEntry s)
     else (printed, s))"

section \<open>The profiler\<close>

definition MAX_PARALLEL_METRICS :: nat where "MAX_PARALLEL_METRICS = 10"
definition MAX_BYTES_FOR_SINGLE_LOG_UPLOAD :: nat where "MAX_BYTES_FOR_SINGLE_LOG_UPLOAD = 16384"
definition JSON_MAX_OVERHEAD_BYTES_PER_LOG :: nat where "JSON_MAX_OVERHEAD_BYTES_PER_LOG = 60"

record log_node =
  lnLevel :: string
  lnFunction :: string
  lnEntry :: string

text \<open>
  The environment: the two channels, each a pointer, and the encoder of the documents. A metric is
  stored under its number, a key of the document of pending metrics.
\<close>

record 'ch profiler_env =
  peMetricsSender :: "(nat list \<Rightarrow> CollectionSchemeParams \<Rightarrow> 'ch \<Rightarrow> ConnectivityError \<times> 'ch) option"
  peLogSender :: "(nat list \<Rightarrow> CollectionSchemeParams \<Rightarrow> 'ch \<Rightarrow> ConnectivityError \<times> 'ch) option"
  peWriteMetrics :: "(nat \<times> metric) list \<Rightarrow> nat list"
  peCores :: nat

record 'ch profiler =
  fMetricsRoot :: "(nat \<times> metric) list"
  fCurrentMetricsPending :: nat
  fLogEntries :: "log_node list"
  fCurrentUserPayloadInLogRoot :: nat
  fInitialUploadInterval :: nat
  fInitialLogMaxInterval :: nat
  fLastTimeMetricsSentOut :: nat
  fLastTimeMLogsSentOut :: nat
  fLastTimeCollected :: nat
  fLogLevelThreshold :: LogLevel
  fLastCPURUsage :: cpu_usage
  fLastThreadUsage :: "thread_usage list"
  fMemoryUsage :: memory_usage
  fProfilerPrefix :: string
  fProfilerThread :: worker_thread
  metricsChannel :: 'ch
  logChannel :: 'ch

definition initLogStructure :: "'ch profiler \<Rightarrow> 'ch profiler" where
  "initLogStructure p = p\<lparr>fLogEntries := [], fCurrentUserPayloadInLogRoot := 0\<rparr>"

text \<open>What the kernel reports at one moment.\<close>

record kernel_report =
  krUsage :: "((nat \<times> nat) \<times> (nat \<times> nat)) option"
  krUptime :: "(nat \<times> nat \<times> nat \<times> nat) option"
  krTicks :: nat
  krTasks :: "(nat \<times> string option) list option"
  krPageSize :: nat
  krStatm :: "(nat \<times> nat) option"
  krMaxRss :: "nat option"
  krTime :: nat

definition new_profiler ::
  "'ch profiler_env \<Rightarrow> kernel_report \<Rightarrow> 'ch \<Rightarrow> 'ch \<Rightarrow> nat \<Rightarrow> nat \<Rightarrow> LogLevel \<Rightarrow> string \<Rightarrow> 'ch profiler" where
  "new_profiler env k metricsCh logCh metricsInterval logInterval threshold prefix =
     \<lparr>fMetricsRoot = [], fCurrentMetricsPending = 0, fLogEntries = [], fCurrentUserPayloadInLogRoot = 0,
      fInitialUploadInterval = metricsInterval, fInitialLogMaxInterval = logInterval, fLastTimeMetricsSentOut = 0,
      fLastTimeMLogsSentOut = 0, fLastTimeCollected = krTime k, fLogLevelThreshold = threshold,
      fLastCPURUsage = snd (reportCPUUsageInfo (krUsage k) (krUptime k) (new_cpu_usage (peCores env))),
      fLastThreadUsage = snd (reportPerThreadUsageData (krTicks k) (krTasks k) []), fMemoryUsage = new_memory_usage,
      fProfilerPrefix = prefix, fProfilerThread = new_thread, metricsChannel = metricsCh, logChannel = logCh\<rparr>"

section \<open>Sending\<close>

text \<open>The sender is there whenever the thread runs; a failure is only logged.\<close>

definition sendMetricsOut :: "'ch profiler_env \<Rightarrow> 'ch profiler \<Rightarrow> 'ch profiler ub_result" where
  "sendMetricsOut env p =
     (case peMetricsSender env of
        None \<Rightarrow> Inl NullPointer
      | Some send \<Rightarrow> Inr (p\<lparr>metricsChannel := snd (send (peWriteMetrics env (fMetricsRoot p)) default_params (metricsChannel p)),
                          fMetricsRoot := [], fCurrentMetricsPending := 0\<rparr>))"

text \<open>
  The document of the log is written into a variable of the inner block. What is sent is the variable
  of the same name outside it, which stays empty, and only if the count of the log that was just reset
  is not zero.
\<close>

definition sendLogsOut :: "'ch profiler_env \<Rightarrow> 'ch profiler \<Rightarrow> 'ch profiler" where
  "sendLogsOut env p =
     (let p = initLogStructure p in
      case peLogSender env of
        None \<Rightarrow> p
      | Some send \<Rightarrow> if fCurrentUserPayloadInLogRoot p > 0 then p\<lparr>logChannel := snd (send [] default_params (logChannel p))\<rparr> else p)"

definition add_log :: "log_node \<Rightarrow> nat \<Rightarrow> 'ch profiler \<Rightarrow> 'ch profiler" where
  "add_log n sz p = p\<lparr>fLogEntries := fLogEntries p @ [n], fCurrentUserPayloadInLogRoot := u32 (fCurrentUserPayloadInLogRoot p + sz)\<rparr>"

definition logMessage :: "'ch profiler_env \<Rightarrow> LogLevel \<Rightarrow> string \<Rightarrow> string \<Rightarrow> 'ch profiler \<Rightarrow> 'ch profiler" where
  "logMessage env level func logEntry p =
     (if level_rank level < level_rank (fLogLevelThreshold p) then p
      else let n = \<lparr>lnLevel = levelToString level, lnFunction = func, lnEntry = logEntry\<rparr>;
               sz = u32 (length func + length logEntry + JSON_MAX_OVERHEAD_BYTES_PER_LOG)
        in if u32 (sz + fCurrentUserPayloadInLogRoot p) > MAX_BYTES_FOR_SINGLE_LOG_UPLOAD
           then add_log n sz (sendLogsOut env p) else add_log n sz p)"

definition setMetric :: "'ch profiler_env \<Rightarrow> metric \<Rightarrow> 'ch profiler \<Rightarrow> 'ch profiler ub_result" where
  "setMetric env m p =
     ub_bind (if fCurrentMetricsPending p > MAX_PARALLEL_METRICS then sendMetricsOut env p else Inr p) (\<lambda>p.
       let n = u16 (fCurrentMetricsPending p + 1)
       in Inr (p\<lparr>fCurrentMetricsPending := n, fMetricsRoot := assoc_upd n (m\<lparr>mtName := fProfilerPrefix p @ mtName m\<rparr>) (fMetricsRoot p)\<rparr>))"

fun set_metrics :: "'ch profiler_env \<Rightarrow> metric list \<Rightarrow> 'ch profiler \<Rightarrow> 'ch profiler ub_result" where
  "set_metrics env [] p = Inr p"
| "set_metrics env (m # ms) p = ub_bind (setMetric env m p) (set_metrics env ms)"

text \<open>The metrics of the process, from what it used before and what it uses now.\<close>

definition execution_metrics :: "cpu_usage \<Rightarrow> cpu_usage \<Rightarrow> memory_usage \<Rightarrow> thread_usage list \<Rightarrow> thread_usage list \<Rightarrow> double \<Rightarrow> metric list" where
  "execution_metrics lastUsage usage mem previous now elapsed =
     [\<lparr>mtName = ''MemoryMaxResidentRam'', mtValue = of_integer (int (mMaxResidentMemorySize mem)), mtUnit = ''Bytes''\<rparr>,
      \<lparr>mtName = ''MemoryCurrentResidentRam'', mtValue = of_integer (int (mResidentMemorySize mem)), mtUnit = ''Bytes''\<rparr>,
      \<lparr>mtName = ''CpuPercentageSum'', mtValue = getCPUPercentage lastUsage elapsed usage, mtUnit = ''Percent''\<rparr>] @
     concat (map (\<lambda>t. map (\<lambda>old. \<lparr>mtName = ''CpuThread_'' @ tuThreadName t @ ''_'' @ decimal (tuThreadId t),
         mtValue = thread_percentage old elapsed t, mtUnit = ''Percent''\<rparr>) (filter (\<lambda>old. tuThreadId t = tuThreadId old) previous)) now)"

definition environment_update :: "kernel_report \<Rightarrow> 'ch profiler \<Rightarrow> 'ch profiler \<times> metric list" where
  "environment_update k p =
     (let usage = snd (reportCPUUsageInfo (krUsage k) (krUptime k) (fLastCPURUsage p));
          elapsed = ddiv (of_integer (int (sub64 (krTime k) (fLastTimeCollected p)))) (Fin 1000);
          mem = snd (reportMemoryUsageInfo (krPageSize k) (krStatm k) (krMaxRss k) (fMemoryUsage p));
          threads = snd (reportPerThreadUsageData (krTicks k) (krTasks k) (fLastThreadUsage p))
      in (p\<lparr>fLastCPURUsage := usage, fLastTimeCollected := krTime k, fMemoryUsage := mem, fLastThreadUsage := threads\<rparr>,
          execution_metrics (fLastCPURUsage p) usage mem (fLastThreadUsage p) threads elapsed))"

definition collectExecutionEnvironmentMetrics :: "'ch profiler_env \<Rightarrow> kernel_report \<Rightarrow> 'ch profiler \<Rightarrow> 'ch profiler ub_result" where
  "collectExecutionEnvironmentMetrics env k p = (let (p, ms) = environment_update k p in set_metrics env ms p)"

section \<open>The thread\<close>

definition profiler_start :: "'ch profiler_env \<Rightarrow> bool \<Rightarrow> 'ch profiler \<Rightarrow> bool \<times> 'ch profiler" where
  "profiler_start env created p =
     (if peMetricsSender env = None then (False, p)
      else let t = snd (thread_create created (fProfilerThread p)) in (\<not> thDone t \<and> thValid t, p\<lparr>fProfilerThread := t\<rparr>))"

definition profiler_stop :: "bool \<Rightarrow> 'ch profiler \<Rightarrow> bool \<times> 'ch profiler" where
  "profiler_stop joined p =
     (if \<not> thValid (fProfilerThread p) \<or> thDone (fProfilerThread p) then (True, p)
      else let t = snd (thread_release joined (fProfilerThread p))
        in (thDone t, initLogStructure (p\<lparr>fProfilerThread := t, fMetricsRoot := []\<rparr>)))"

text \<open>How long an iteration waits; \<open>None\<close> is until notified.\<close>

definition profiler_wait :: "'ch profiler \<Rightarrow> nat option" where
  "profiler_wait p =
     (if fInitialUploadInterval p = 0 \<and> fInitialLogMaxInterval p = 0 then None
      else Some (min (if fInitialUploadInterval p = 0 then UINT_MAX else fInitialUploadInterval p)
                     (if fInitialLogMaxInterval p = 0 then UINT_MAX else fInitialLogMaxInterval p)))"

definition upload_metrics :: "'ch profiler_env \<Rightarrow> kernel_report \<Rightarrow> trace_module \<Rightarrow> 'ch profiler \<Rightarrow> (trace_module \<times> 'ch profiler) ub_result" where
  "upload_metrics env k t p =
     (let (t, r) = forwardAllMetrics (Some (\<lambda>m r. ub_bind r (setMetric env m))) t (Inr p) in
      ub_bind r (\<lambda>p. ub_bind (collectExecutionEnvironmentMetrics env k p) (\<lambda>p. ub_bind (sendMetricsOut env p) (\<lambda>p. Inr (t, p)))))"

definition profiler_iteration ::
  "'ch profiler_env \<Rightarrow> bool \<Rightarrow> nat \<Rightarrow> kernel_report \<Rightarrow> trace_module \<times> 'ch profiler \<Rightarrow> (trace_module \<times> 'ch profiler) ub_result" where
  "profiler_iteration env stop currentTime k = (\<lambda>(t, p).
     ub_bind (if stop \<or> u64 (fLastTimeMetricsSentOut p + fInitialUploadInterval p) < currentTime
              then upload_metrics env k t (p\<lparr>fLastTimeMetricsSentOut := currentTime\<rparr>) else Inr (t, p)) (\<lambda>(t, p).
       if stop \<or> u64 (fLastTimeMLogsSentOut p + fInitialLogMaxInterval p) < currentTime
       then Inr (t, sendLogsOut env (p\<lparr>fLastTimeMLogsSentOut := currentTime\<rparr>)) else Inr (t, p)))"

section \<open>Every metric is uploaded\<close>

text \<open>How the metrics fall into documents, from those already pending.\<close>

fun pack :: "metric list \<Rightarrow> metric list \<Rightarrow> metric list list" where
  "pack part [] = [part]"
| "pack part (m # ms) = (if length part > MAX_PARALLEL_METRICS then part # pack [m] ms else pack (part @ [m]) ms)"

lemma pack_concat: "concat (pack part ms) = part @ ms"
  by (induction part ms rule: pack.induct) auto

lemma pack_sizes:
  "length part \<le> Suc MAX_PARALLEL_METRICS \<Longrightarrow> part \<noteq> [] \<or> ms \<noteq> [] \<Longrightarrow>
     \<forall>b \<in> set (pack part ms). b \<noteq> [] \<and> length b \<le> Suc MAX_PARALLEL_METRICS"
  by (induction part ms rule: pack.induct) (auto simp: MAX_PARALLEL_METRICS_def)

definition prefixed :: "'ch profiler \<Rightarrow> metric \<Rightarrow> metric" where
  "prefixed p m = m\<lparr>mtName := fProfilerPrefix p @ mtName m\<rparr>"

text \<open>Documents sent one after the other; the numbers of their metrics start at one.\<close>

definition send_documents ::
  "'ch profiler_env \<Rightarrow> (nat list \<Rightarrow> CollectionSchemeParams \<Rightarrow> 'ch \<Rightarrow> ConnectivityError \<times> 'ch) \<Rightarrow> metric list list \<Rightarrow> 'ch \<Rightarrow> 'ch" where
  "send_documents env send bs ch = fold (\<lambda>b ch. snd (send (peWriteMetrics env (enumerate 1 b)) default_params ch)) bs ch"

definition holding :: "metric list \<Rightarrow> 'ch profiler \<Rightarrow> bool" where
  "holding ms p \<longleftrightarrow> fMetricsRoot p = enumerate 1 ms \<and> fCurrentMetricsPending p = length ms"

lemma assoc_upd_new: "k \<notin> fst ` set xs \<Longrightarrow> assoc_upd k v xs = xs @ [(k, v)]"
  by (induction xs) auto

lemma enumerate_snoc: "assoc_upd (Suc (length ms)) m (enumerate (Suc 0) ms) = enumerate (Suc 0) (ms @ [m])"
proof -
  have "Suc (length ms) \<notin> fst ` set (enumerate (Suc 0) ms)" by (simp add: in_set_enumerate_eq image_iff)
  then show ?thesis by (simp add: assoc_upd_new enumerate_append_eq)
qed

lemma setMetric_step:
  assumes "peMetricsSender env = Some send" and "holding ms p" and "length ms \<le> Suc MAX_PARALLEL_METRICS"
  shows "setMetric env m p = Inr (if length ms > MAX_PARALLEL_METRICS
    then p\<lparr>metricsChannel := send_documents env send [ms] (metricsChannel p), fMetricsRoot := enumerate 1 [prefixed p m], fCurrentMetricsPending := 1\<rparr>
    else p\<lparr>fMetricsRoot := enumerate 1 (ms @ [prefixed p m]), fCurrentMetricsPending := Suc (length ms)\<rparr>)"
proof (cases "length ms > MAX_PARALLEL_METRICS")
  case True
  then show ?thesis using assms(1,2)
    by (simp add: setMetric_def sendMetricsOut_def holding_def send_documents_def u16_def prefixed_def)
next
  case False
  then have "u16 (length ms + 1) = Suc (length ms)" by (intro trans [OF u16_id]) (simp_all add: MAX_PARALLEL_METRICS_def)
  then show ?thesis using assms(2) False
    by (simp add: setMetric_def holding_def prefixed_def enumerate_snoc)
qed

lemma set_metrics_documents:
  assumes "peMetricsSender env = Some send"
  shows "holding ms p \<Longrightarrow> length ms \<le> Suc MAX_PARALLEL_METRICS \<Longrightarrow>
    ub_bind (set_metrics env xs p) (sendMetricsOut env) =
      Inr (p\<lparr>metricsChannel := send_documents env send (pack ms (map (prefixed p) xs)) (metricsChannel p),
             fMetricsRoot := [], fCurrentMetricsPending := 0\<rparr>)"
proof (induction xs arbitrary: ms p)
  case Nil
  then show ?case using assms by (simp add: sendMetricsOut_def holding_def send_documents_def)
next
  case (Cons x xs)
  define ms' where "ms' = (if length ms > MAX_PARALLEL_METRICS then [prefixed p x] else ms @ [prefixed p x])"
  obtain p' where p': "setMetric env x p = Inr p'" "holding ms' p'" "length ms' \<le> Suc MAX_PARALLEL_METRICS"
      "p' = p\<lparr>metricsChannel := metricsChannel p', fMetricsRoot := fMetricsRoot p', fCurrentMetricsPending := fCurrentMetricsPending p'\<rparr>"
      "metricsChannel p' = (if length ms > MAX_PARALLEL_METRICS then send_documents env send [ms] (metricsChannel p) else metricsChannel p)"
    using setMetric_step [OF assms Cons.prems, of x] Cons.prems(2)
    by (cases "length ms > MAX_PARALLEL_METRICS") (auto simp: ms'_def holding_def MAX_PARALLEL_METRICS_def)
  have "prefixed p' = prefixed p" by (subst p'(4)) (simp add: prefixed_def fun_eq_iff)
  then have "ub_bind (set_metrics env (x # xs) p) (sendMetricsOut env) =
      Inr (p'\<lparr>metricsChannel := send_documents env send (pack ms' (map (prefixed p) xs)) (metricsChannel p'), fMetricsRoot := [], fCurrentMetricsPending := 0\<rparr>)"
    using Cons.IH [OF p'(2,3)] p'(1) by simp
  also have "\<dots> = Inr (p\<lparr>metricsChannel := send_documents env send (pack ms' (map (prefixed p) xs)) (metricsChannel p'), fMetricsRoot := [], fCurrentMetricsPending := 0\<rparr>)"
    by (subst (2) p'(4)) simp
  also have "send_documents env send (pack ms' (map (prefixed p) xs)) (metricsChannel p') =
      send_documents env send (pack ms (map (prefixed p) (x # xs))) (metricsChannel p)"
    unfolding p'(5) by (simp add: ms'_def send_documents_def)
  finally show ?case .
qed

lemma set_metrics_append: "set_metrics env (xs @ ys) p = ub_bind (set_metrics env xs p) (set_metrics env ys)"
proof (induction xs arbitrary: p)
  case (Cons x xs)
  then show ?case by (cases "setMetric env x p") auto
qed simp

lemma forwarded: "fold (\<lambda>m r. ub_bind r (setMetric env m)) ms r = ub_bind r (set_metrics env ms)"
proof (induction ms arbitrary: r)
  case Nil
  then show ?case by (cases r) simp_all
next
  case (Cons m ms)
  then show ?case by (cases r) simp_all
qed

lemma environment_keeps [simp]:
  "prefixed (fst (environment_update k p)) = prefixed p" "metricsChannel (fst (environment_update k p)) = metricsChannel p"
  "logChannel (fst (environment_update k p)) = logChannel p"
  by (simp_all add: environment_update_def prefixed_def fun_eq_iff Let_def)

lemma environment_metrics_nonempty: "snd (environment_update k p) \<noteq> []"
  by (simp add: environment_update_def execution_metrics_def Let_def)

text \<open>Setting metrics only touches what holds them.\<close>

lemma set_metrics_frame:
  "set_metrics env ms p = Inr p' \<Longrightarrow> \<exists>ch docs n. p' = p\<lparr>metricsChannel := ch, fMetricsRoot := docs, fCurrentMetricsPending := n\<rparr>"
proof (induction ms arbitrary: p)
  case Nil
  then show ?case by (intro exI [of _ "metricsChannel p"] exI [of _ "fMetricsRoot p"] exI [of _ "fCurrentMetricsPending p"]) simp
next
  case (Cons m ms)
  then obtain q where q: "setMetric env m p = Inr q" "set_metrics env ms q = Inr p'" by (auto simp: ub_bind_eq_Inr)
  have "\<exists>ch docs n. q = p\<lparr>metricsChannel := ch, fMetricsRoot := docs, fCurrentMetricsPending := n\<rparr>"
    using q(1) by (cases p) (auto simp: setMetric_def sendMetricsOut_def ub_bind_eq_Inr Let_def split: option.splits if_splits)
  then obtain ch docs n where "q = p\<lparr>metricsChannel := ch, fMetricsRoot := docs, fCurrentMetricsPending := n\<rparr>" by blast
  then show ?case using Cons.IH [OF q(2)] by auto
qed

lemma environment_frame:
  "environment_update k (p\<lparr>metricsChannel := ch, fMetricsRoot := docs, fCurrentMetricsPending := n\<rparr>) =
     ((fst (environment_update k p))\<lparr>metricsChannel := ch, fMetricsRoot := docs, fCurrentMetricsPending := n\<rparr>, snd (environment_update k p))"
  by (simp add: environment_update_def Let_def)

text \<open>Metrics set before and after the environment is looked at are set as one list.\<close>

lemma setMetric_commutes:
  "setMetric env m (fst (environment_update k p)) =
     ub_bind (setMetric env m p) (\<lambda>p. Inr (fst (environment_update k p)))"
  by (auto simp: setMetric_def sendMetricsOut_def environment_update_def Let_def split: option.splits)

lemma set_metrics_commutes:
  "set_metrics env ms (fst (environment_update k p)) = ub_bind (set_metrics env ms p) (\<lambda>p. Inr (fst (environment_update k p)))"
proof (induction ms arbitrary: p)
  case (Cons m ms)
  show ?case by (cases "setMetric env m p") (simp_all add: setMetric_commutes Cons.IH)
qed simp

lemma upload_documents:
  assumes "peMetricsSender env = Some send" and "fMetricsRoot p = []" and "fCurrentMetricsPending p = 0"
  shows "\<exists>p' bs. upload_metrics env k t p = Inr (updateAllTimeData t, p') \<and>
    concat bs = map (prefixed p) (trace_metrics (updateAllTimeData t) @ snd (environment_update k p)) \<and>
    (\<forall>b \<in> set bs. 1 \<le> length b \<and> length b \<le> 11) \<and>
    metricsChannel p' = fold (\<lambda>b ch. snd (send (peWriteMetrics env (enumerate 1 b)) default_params ch)) bs (metricsChannel p) \<and>
    fMetricsRoot p' = [] \<and> fCurrentMetricsPending p' = 0 \<and> logChannel p' = logChannel p"
proof -
  let ?t = "updateAllTimeData t" and ?q = "fst (environment_update k p)" and ?ms = "trace_metrics (updateAllTimeData t) @ snd (environment_update k p)"
  let ?bs = "pack [] (map (prefixed p) ?ms)"
  have hold: "holding [] ?q" using assms(2,3) by (simp add: holding_def environment_update_def Let_def)
  have u: "upload_metrics env k t p = ub_bind (ub_bind (set_metrics env ?ms ?q) (sendMetricsOut env)) (\<lambda>p. Inr (?t, p))"
  proof (cases "set_metrics env (trace_metrics ?t) p")
    case (Inl e)
    then show ?thesis
      by (simp add: upload_metrics_def forwardAllMetrics_def forwarded set_metrics_append set_metrics_commutes Let_def)
  next
    case (Inr p1)
    obtain ch docs n where p1: "p1 = p\<lparr>metricsChannel := ch, fMetricsRoot := docs, fCurrentMetricsPending := n\<rparr>"
      using set_metrics_frame [OF Inr] by blast
    have "environment_update k p1 = (fst (environment_update k p1), snd (environment_update k p))"
      unfolding p1 environment_frame by simp
    then have "collectExecutionEnvironmentMetrics env k p1 = set_metrics env (snd (environment_update k p)) (fst (environment_update k p1))"
      by (metis (mono_tags, lifting) case_prod_conv collectExecutionEnvironmentMetrics_def)
    then show ?thesis using Inr
      by (cases "set_metrics env (snd (environment_update k p)) (fst (environment_update k p1))")
        (simp_all add: upload_metrics_def forwardAllMetrics_def forwarded set_metrics_append set_metrics_commutes Let_def)
  qed
  have r: "ub_bind (set_metrics env ?ms ?q) (sendMetricsOut env) =
      Inr (?q\<lparr>metricsChannel := send_documents env send ?bs (metricsChannel p), fMetricsRoot := [], fCurrentMetricsPending := 0\<rparr>)"
    using set_metrics_documents [OF assms(1) hold, of ?ms] by simp
  have "concat ?bs = map (prefixed p) ?ms" by (simp add: pack_concat)
  moreover have "\<forall>b \<in> set ?bs. 1 \<le> length b \<and> length b \<le> 11"
    using pack_sizes [of "[]" "map (prefixed p) ?ms"] environment_metrics_nonempty [of k p] by (auto simp: MAX_PARALLEL_METRICS_def Suc_le_eq)
  ultimately show ?thesis
    by (intro exI [of _ "?q\<lparr>metricsChannel := send_documents env send ?bs (metricsChannel p), fMetricsRoot := [], fCurrentMetricsPending := 0\<rparr>"] exI [of _ ?bs])
      (simp add: u r send_documents_def)
qed

lemma upload_total:
  assumes "peMetricsSender env = Some send" and "fMetricsRoot p = []" and "fCurrentMetricsPending p = 0"
  shows "\<exists>p'. upload_metrics env k t p = Inr (updateAllTimeData t, p')"
  using upload_documents [OF assms] by blast

text \<open>
  C21. An upload sends every metric of the traces and of the process exactly once, in order and with
  the prefix, in documents of one to eleven metrics, whatever the channel answers; afterwards nothing
  is pending.
\<close>

theorem metrics_uploaded:
  assumes "peMetricsSender env = Some send" and "fMetricsRoot p = []" and "fCurrentMetricsPending p = 0"
  shows "\<exists>p' bs. upload_metrics env k t p = Inr (updateAllTimeData t, p') \<and>
    concat bs = map (prefixed p) (trace_metrics (updateAllTimeData t) @ snd (environment_update k p)) \<and>
    (\<forall>b \<in> set bs. 1 \<le> length b \<and> length b \<le> 11) \<and>
    metricsChannel p' = fold (\<lambda>b ch. snd (send (peWriteMetrics env (enumerate 1 b)) default_params ch)) bs (metricsChannel p) \<and>
    fMetricsRoot p' = [] \<and> fCurrentMetricsPending p' = 0 \<and> logChannel p' = logChannel p"
  by (rule upload_documents [OF assms])

section \<open>No log is ever sent\<close>

datatype profiler_op = OpLog LogLevel string string | OpMetric metric | OpIterate bool nat kernel_report trace_module | OpStart bool | OpStop bool

fun profiler_act :: "'ch profiler_env \<Rightarrow> profiler_op \<Rightarrow> 'ch profiler \<Rightarrow> 'ch profiler ub_result" where
  "profiler_act env (OpLog level func entry) p = Inr (logMessage env level func entry p)"
| "profiler_act env (OpMetric m) p = setMetric env m p"
| "profiler_act env (OpIterate stop time k t) p = ub_bind (profiler_iteration env stop time k (t, p)) (\<lambda>(t, p). Inr p)"
| "profiler_act env (OpStart created) p = Inr (snd (profiler_start env created p))"
| "profiler_act env (OpStop joined) p = Inr (snd (profiler_stop joined p))"

fun profiler_run :: "'ch profiler_env \<Rightarrow> profiler_op list \<Rightarrow> 'ch profiler \<Rightarrow> 'ch profiler ub_result" where
  "profiler_run env [] p = Inr p"
| "profiler_run env (op # ops) p = ub_bind (profiler_act env op p) (profiler_run env ops)"

lemma send_logs_keeps [simp]: "logChannel (sendLogsOut env p) = logChannel p" "fLogEntries (sendLogsOut env p) = []"
  by (auto simp: sendLogsOut_def initLogStructure_def Let_def split: option.splits)

definition same_logs :: "'ch profiler \<Rightarrow> 'ch profiler \<Rightarrow> bool" where
  "same_logs p q \<longleftrightarrow> logChannel q = logChannel p \<and> fLastTimeMLogsSentOut q = fLastTimeMLogsSentOut p \<and>
     fInitialLogMaxInterval q = fInitialLogMaxInterval p"

lemma same_logs_trans: "same_logs p q \<Longrightarrow> same_logs q r \<Longrightarrow> same_logs p r"
  by (simp add: same_logs_def)

lemma set_metrics_same: "set_metrics env ms p = Inr q \<Longrightarrow> same_logs p q"
  by (auto simp: same_logs_def dest!: set_metrics_frame)

lemma setMetric_same: "setMetric env m p = Inr q \<Longrightarrow> same_logs p q"
  using set_metrics_same [of env "[m]" p q] by simp

lemma send_metrics_same: "sendMetricsOut env p = Inr q \<Longrightarrow> same_logs p q"
  by (auto simp: same_logs_def sendMetricsOut_def split: option.splits)

lemma environment_same: "same_logs p (fst (environment_update k p))"
  by (simp add: same_logs_def environment_update_def Let_def)

lemma upload_same:
  assumes "upload_metrics env k t p = Inr (t', q)"
  shows "same_logs p q"
proof -
  obtain p1 p2 where p: "set_metrics env (trace_metrics (updateAllTimeData t)) p = Inr p1"
      "collectExecutionEnvironmentMetrics env k p1 = Inr p2" "sendMetricsOut env p2 = Inr q"
    using assms by (auto simp: upload_metrics_def forwardAllMetrics_def forwarded ub_bind_eq_Inr Let_def)
  have "same_logs (fst (environment_update k p1)) p2"
    using p(2) by (auto simp: collectExecutionEnvironmentMetrics_def Let_def split: prod.splits intro: set_metrics_same)
  then show ?thesis using set_metrics_same [OF p(1)] send_metrics_same [OF p(3)] environment_same same_logs_trans by blast
qed

lemma iteration_keeps: "profiler_iteration env stop time k (t, p) = Inr (t', p') \<Longrightarrow> logChannel p' = logChannel p"
  by (auto simp: profiler_iteration_def ub_bind_eq_Inr same_logs_def split: if_splits dest!: upload_same)

lemma setMetric_keeps: "setMetric env m p = Inr p' \<Longrightarrow> logChannel p' = logChannel p"
  by (drule setMetric_same) (simp add: same_logs_def)

lemma op_keeps: "profiler_act env op p = Inr p' \<Longrightarrow> logChannel p' = logChannel p"
  by (cases op) (auto simp: logMessage_def add_log_def profiler_start_def profiler_stop_def initLogStructure_def ub_bind_eq_Inr Let_def
      dest: setMetric_keeps iteration_keeps split: if_splits)

lemma run_keeps: "profiler_run env ops p = Inr p' \<Longrightarrow> logChannel p' = logChannel p"
  by (induction ops arbitrary: p) (auto simp: ub_bind_eq_Inr dest: op_keeps)

text \<open>
  Whatever is logged, whenever it is uploaded: nothing is ever handed to the channel of the logs,
  and an iteration that is due for an upload drops all messages gathered until then.
\<close>

theorem logs_never_sent:
  assumes "profiler_run env ops p = Inr p1" and "profiler_iteration env stop time k (t, p1) = Inr (t', p')"
    and "stop \<or> u64 (fLastTimeMLogsSentOut p1 + fInitialLogMaxInterval p1) < time"
  shows "logChannel p' = logChannel p \<and> fLogEntries p' = []"
proof -
  have "fLogEntries p' = []"
  proof -
    define first where "first = (if stop \<or> u64 (fLastTimeMetricsSentOut p1 + fInitialUploadInterval p1) < time
          then upload_metrics env k t (p1\<lparr>fLastTimeMetricsSentOut := time\<rparr>) else Inr (t, p1))"
    obtain t1 q where "first = Inr (t1, q)"
      using assms(2) by (cases first) (auto simp: profiler_iteration_def simp flip: first_def)
    then have q: "first = Inr (t1, q)" "p' = (if stop \<or> u64 (fLastTimeMLogsSentOut q + fInitialLogMaxInterval q) < time
          then sendLogsOut env (q\<lparr>fLastTimeMLogsSentOut := time\<rparr>) else q)"
      using assms(2) by (auto simp: profiler_iteration_def simp flip: first_def)
    have "same_logs p1 q" using q(1) upload_same unfolding first_def by (fastforce simp: same_logs_def split: if_splits)
    then have "p' = sendLogsOut env (q\<lparr>fLastTimeMLogsSentOut := time\<rparr>)" using q(2) assms(3) by (simp add: same_logs_def)
    then show ?thesis by simp
  qed
  then show ?thesis using run_keeps [OF assms(1)] iteration_keeps [OF assms(2)] by simp
qed

section \<open>Samples\<close>

text \<open>A channel that keeps what it is given, and a kernel that reports nothing.\<close>

definition sample_profiler_env :: "nat list list profiler_env" where
  "sample_profiler_env = \<lparr>peMetricsSender = Some (\<lambda>buf prm ch. (Success, ch @ [buf])), peLogSender = Some (\<lambda>buf prm ch. (Success, ch @ [buf])),
     peWriteMetrics = (\<lambda>ms. [length ms]), peCores = 4\<rparr>"

definition sample_report :: kernel_report where
  "sample_report = \<lparr>krUsage = None, krUptime = None, krTicks = 100, krTasks = None, krPageSize = 4096, krStatm = None, krMaxRss = None, krTime = 1000\<rparr>"

definition sample_profiler :: "nat list list profiler" where
  "sample_profiler = new_profiler sample_profiler_env sample_report [] [] 1000 1000 Trace ''car_''"

lemma metrics_uploaded_witness:
  "\<exists>p' bs. upload_metrics sample_profiler_env sample_report new_trace sample_profiler = Inr (updateAllTimeData new_trace, p') \<and>
    concat bs = map (prefixed sample_profiler) (trace_metrics (updateAllTimeData new_trace) @ snd (environment_update sample_report sample_profiler)) \<and>
    metricsChannel p' = map (\<lambda>b. [length b]) bs"
proof -
  have f: "fold (\<lambda>b ch. ch @ [[length b]]) bs ch = ch @ map (\<lambda>b. [length b]) bs" for bs :: "metric list list" and ch :: "nat list list"
    by (induction bs arbitrary: ch) auto
  show ?thesis
    using metrics_uploaded [of sample_profiler_env "\<lambda>buf prm ch. (Success, ch @ [buf])" sample_profiler sample_report new_trace]
    by (auto simp: sample_profiler_env_def sample_profiler_def new_profiler_def f)
qed

text \<open>A message is logged, and the profiler stopped: the message is dropped.\<close>

lemma logs_never_sent_witness:
  "\<exists>t' p'. profiler_iteration sample_profiler_env True 5000 sample_report
      (new_trace, logMessage sample_profiler_env Error ''connect'' ''failed'' sample_profiler) = Inr (t', p') \<and> logChannel p' = [] \<and> fLogEntries p' = []"
proof -
  let ?p = "logMessage sample_profiler_env Error ''connect'' ''failed'' sample_profiler"
  have m: "fMetricsRoot ?p = []" "fCurrentMetricsPending ?p = 0"
    by (simp_all add: logMessage_def add_log_def sendLogsOut_def initLogStructure_def sample_profiler_def new_profiler_def Let_def split: option.splits)
  obtain q where "upload_metrics sample_profiler_env sample_report new_trace (?p\<lparr>fLastTimeMetricsSentOut := 5000\<rparr>) = Inr (updateAllTimeData new_trace, q)"
    using upload_total [of sample_profiler_env _ "?p\<lparr>fLastTimeMetricsSentOut := 5000\<rparr>" sample_report new_trace] m
    by (auto simp: sample_profiler_env_def)
  then obtain t' p' where it: "profiler_iteration sample_profiler_env True 5000 sample_report (new_trace, ?p) = Inr (t', p')"
    by (simp add: profiler_iteration_def)
  have "profiler_run sample_profiler_env [OpLog Error ''connect'' ''failed''] sample_profiler = Inr ?p" by simp
  from logs_never_sent [OF this it] it show ?thesis by (auto simp: sample_profiler_def new_profiler_def)
qed

end
