(* ===== verification/Listeners.thy ===== *)
theory Listeners
  imports Prelude
begin

text \<open>
  Subjects and their listeners (\<open>Listener.h\<close>): subscribing, unsubscribing and notifying under a mutex
  that is held while the listeners are called. A call that waits for a mutex its own thread holds is
  \<open>None\<close>. The lemmas show that the listeners form an ordered set whose members are all notified once,
  and that the containers for changes during a notification are never used.
\<close>

section \<open>Operations\<close>

record 'l listeners =
  mContainer :: "'l list"
  mTemporaryContainer :: "'l list"
  mActive :: bool
  mCopied :: bool
  mModified :: bool
  lsLocked :: bool

definition no_listeners :: "'l listeners" where
  "no_listeners = \<lparr>mContainer = [], mTemporaryContainer = [], mActive = False, mCopied = False, mModified = False, lsLocked = False\<rparr>"

text \<open>The container to change, the first result telling the temporary one.\<close>

definition getContainer :: "'l listeners \<Rightarrow> bool \<times> 'l listeners" where
  "getContainer l =
     (if mModified l then (True, l)
      else if mActive l then (True, l\<lparr>mModified := True, mCopied := True, mTemporaryContainer := mContainer l\<rparr>)
      else (False, l))"

definition change_container :: "('l list \<Rightarrow> bool) \<Rightarrow> ('l list \<Rightarrow> 'l list) \<Rightarrow> 'l listeners \<Rightarrow> (bool \<times> 'l listeners) option" where
  "change_container test change l =
     (if lsLocked l then None
      else let (temporary, l) = getContainer l; c = (if temporary then mTemporaryContainer l else mContainer l) in
        if test c
        then let l = (if temporary then l\<lparr>mTemporaryContainer := change c\<rparr> else l\<lparr>mContainer := change c\<rparr>)
             in Some (True, l\<lparr>mModified := mCopied l\<rparr>)
        else Some (False, l))"

definition subscribeListener :: "'l \<Rightarrow> 'l listeners \<Rightarrow> (bool \<times> 'l listeners) option" where
  "subscribeListener x = change_container (\<lambda>c. x \<notin> set c) (\<lambda>c. c @ [x])"

definition unSubscribeListener :: "'l \<Rightarrow> 'l listeners \<Rightarrow> (bool \<times> 'l listeners) option" where
  "unSubscribeListener x = change_container (\<lambda>c. x \<in> set c) (remove1 x)"

definition listeners_size :: "'l listeners \<Rightarrow> nat option" where
  "listeners_size l = (if lsLocked l then None else Some (length (mContainer l)))"

definition backupContainer :: "'l listeners \<Rightarrow> 'l listeners" where
  "backupContainer l =
     (if mCopied l
      then let l = (if mModified l then l\<lparr>mContainer := mTemporaryContainer l, mModified := False\<rparr> else l)
           in l\<lparr>mTemporaryContainer := [], mCopied := False\<rparr>
      else l)"

text \<open>What a listener does to the subject that calls it, with the subject as the notification holds it.\<close>

datatype 'l reaction = Subscribes 'l | Unsubscribes 'l | AsksSize

fun react :: "'l reaction list \<Rightarrow> 'l listeners \<Rightarrow> 'l listeners option" where
  "react [] l = Some l"
| "react (Subscribes x # rs) l = (case subscribeListener x l of None \<Rightarrow> None | Some (_, l) \<Rightarrow> react rs l)"
| "react (Unsubscribes x # rs) l = (case unSubscribeListener x l of None \<Rightarrow> None | Some (_, l) \<Rightarrow> react rs l)"
| "react (AsksSize # rs) l = (case listeners_size l of None \<Rightarrow> None | Some _ \<Rightarrow> react rs l)"

text \<open>The listeners called so far are the first result.\<close>

fun call_listeners :: "('l \<Rightarrow> 'l reaction list) \<Rightarrow> 'l list \<Rightarrow> 'l list \<Rightarrow> 'l listeners \<Rightarrow> ('l list \<times> 'l listeners) option" where
  "call_listeners reactions called [] l = Some (called, l)"
| "call_listeners reactions called (x # xs) l =
     (case react (reactions x) l of None \<Rightarrow> None | Some l \<Rightarrow> call_listeners reactions (called @ [x]) xs l)"

definition notifyListeners :: "('l \<Rightarrow> 'l reaction list) \<Rightarrow> 'l listeners \<Rightarrow> ('l list \<times> 'l listeners) option" where
  "notifyListeners reactions l =
     (if lsLocked l then None
      else case call_listeners reactions [] (mContainer l) (l\<lparr>lsLocked := True, mActive := True\<rparr>) of
        None \<Rightarrow> None
      | Some (called, l') \<Rightarrow>
          let l' = l'\<lparr>mActive := mActive l\<rparr>; l' = (if \<not> mActive l' then backupContainer l' else l')
          in Some (called, l'\<lparr>lsLocked := False\<rparr>))"

section \<open>The contract of a subject\<close>

text \<open>What those who subscribe rely on.\<close>

locale subject =
  fixes subscribe :: "'l \<Rightarrow> 's \<Rightarrow> (bool \<times> 's) option"
    and unsubscribe :: "'l \<Rightarrow> 's \<Rightarrow> (bool \<times> 's) option"
    and notified :: "'s \<Rightarrow> 'l list"
    and usable :: "'s \<Rightarrow> bool"
  assumes subscribing: "usable s \<Longrightarrow> \<exists>s'. subscribe x s = Some (x \<notin> set (notified s), s') \<and> usable s' \<and>
      notified s' = (if x \<in> set (notified s) then notified s else notified s @ [x])"
    and unsubscribing: "usable s \<Longrightarrow> \<exists>s'. unsubscribe x s = Some (x \<in> set (notified s), s') \<and> usable s' \<and>
      notified s' = remove1 x (notified s)"
    and once: "usable s \<Longrightarrow> distinct (notified s)"
begin

text \<open>Subscribing several listeners, the outcome of each first.\<close>

fun subscribe_all :: "'l list \<Rightarrow> 's \<Rightarrow> (bool list \<times> 's) option" where
  "subscribe_all [] s = Some ([], s)"
| "subscribe_all (x # xs) s =
     (case subscribe x s of None \<Rightarrow> None
      | Some (ok, s) \<Rightarrow> (case subscribe_all xs s of None \<Rightarrow> None | Some (oks, s) \<Rightarrow> Some (ok # oks, s)))"

lemma subscribe_all_new:
  "usable s \<Longrightarrow> distinct xs \<Longrightarrow> set xs \<inter> set (notified s) = {} \<Longrightarrow>
     \<exists>s'. subscribe_all xs s = Some (map (\<lambda>_. True) xs, s') \<and> usable s' \<and> notified s' = notified s @ xs"
proof (induction xs arbitrary: s)
  case (Cons x xs)
  then obtain s1 where s1: "subscribe x s = Some (True, s1)" "usable s1" "notified s1 = notified s @ [x]"
    using subscribing [OF Cons.prems(1), of x] by auto
  then obtain s2 where "subscribe_all xs s1 = Some (map (\<lambda>_. True) xs, s2)" "usable s2" "notified s2 = notified s1 @ xs"
    using Cons.IH [OF s1(2)] Cons.prems(2,3) by auto
  then show ?case using s1 by auto
qed simp

lemma resubscribed_last:
  assumes "usable s" and "x \<in> set (notified s)"
  shows "\<exists>s1 s2. unsubscribe x s = Some (True, s1) \<and> subscribe x s1 = Some (True, s2) \<and> notified s2 = remove1 x (notified s) @ [x]"
proof -
  obtain s1 where s1: "unsubscribe x s = Some (True, s1)" "usable s1" "notified s1 = remove1 x (notified s)"
    using unsubscribing [OF assms(1), of x] assms(2) by auto
  have "x \<notin> set (notified s1)" using once [OF assms(1)] s1(3) by (simp add: set_remove1_eq)
  then show ?thesis using subscribing [OF s1(2), of x] s1 by auto
qed

end

section \<open>The contract holds\<close>

definition at_rest :: "'l listeners \<Rightarrow> bool" where
  "at_rest l \<longleftrightarrow> \<not> mActive l \<and> \<not> mCopied l \<and> \<not> mModified l \<and> \<not> lsLocked l \<and> distinct (mContainer l)"

lemma subscribe_at_rest:
  "at_rest l \<Longrightarrow> subscribeListener x l =
     Some (x \<notin> set (mContainer l), if x \<in> set (mContainer l) then l else l\<lparr>mContainer := mContainer l @ [x]\<rparr>)"
  by (cases l) (auto simp: at_rest_def subscribeListener_def change_container_def getContainer_def)

lemma unsubscribe_at_rest:
  "at_rest l \<Longrightarrow> unSubscribeListener x l =
     Some (x \<in> set (mContainer l), if x \<in> set (mContainer l) then l\<lparr>mContainer := remove1 x (mContainer l)\<rparr> else l)"
  by (cases l) (auto simp: at_rest_def unSubscribeListener_def change_container_def getContainer_def)

interpretation threadListeners: subject subscribeListener unSubscribeListener mContainer at_rest
proof
  fix l :: "'a listeners" and x
  assume r: "at_rest l"
  show "\<exists>s'. subscribeListener x l = Some (x \<notin> set (mContainer l), s') \<and> at_rest s' \<and>
      mContainer s' = (if x \<in> set (mContainer l) then mContainer l else mContainer l @ [x])"
    using r by (auto simp: subscribe_at_rest at_rest_def)
  show "\<exists>s'. unSubscribeListener x l = Some (x \<in> set (mContainer l), s') \<and> at_rest s' \<and> mContainer s' = remove1 x (mContainer l)"
    using r by (auto simp: unsubscribe_at_rest remove1_idem at_rest_def)
  show "distinct (mContainer l)" using r by (simp add: at_rest_def)
qed

section \<open>Notifying\<close>

lemma react_locked: "lsLocked l \<Longrightarrow> react rs l = (if rs = [] then Some l else None)"
proof (cases rs)
  case (Cons r rs')
  assume "lsLocked l"
  then show ?thesis using Cons
    by (cases r) (simp_all add: subscribeListener_def unSubscribeListener_def change_container_def listeners_size_def)
qed simp

lemma call_listeners_locked:
  "lsLocked l \<Longrightarrow> call_listeners reactions called xs l = (if \<forall>x \<in> set xs. reactions x = [] then Some (called @ xs, l) else None)"
  by (induction xs arbitrary: called) (auto simp: react_locked)

lemma notify_at_rest:
  "at_rest l \<Longrightarrow> notifyListeners reactions l = (if \<forall>x \<in> set (mContainer l). reactions x = [] then Some (mContainer l, l) else None)"
  by (cases l) (auto simp: at_rest_def notifyListeners_def call_listeners_locked backupContainer_def Let_def)

inductive listeners_reachable :: "'l listeners \<Rightarrow> bool" where
  none: "listeners_reachable no_listeners"
| subscribed: "listeners_reachable l \<Longrightarrow> subscribeListener x l = Some (ok, l') \<Longrightarrow> listeners_reachable l'"
| unsubscribed: "listeners_reachable l \<Longrightarrow> unSubscribeListener x l = Some (ok, l') \<Longrightarrow> listeners_reachable l'"
| notified: "listeners_reachable l \<Longrightarrow> notifyListeners reactions l = Some (called, l') \<Longrightarrow> listeners_reachable l'"

lemma reachable_at_rest: "listeners_reachable l \<Longrightarrow> at_rest l"
proof (induction rule: listeners_reachable.induct)
  case none
  then show ?case by (simp add: no_listeners_def at_rest_def)
next
  case (subscribed l x ok l')
  then show ?case using threadListeners.subscribing [OF subscribed.IH, of x] by auto
next
  case (unsubscribed l x ok l')
  then show ?case using threadListeners.unsubscribing [OF unsubscribed.IH, of x] by auto
next
  case (notified l reactions called l')
  then show ?case by (auto simp: notify_at_rest split: if_splits)
qed

text \<open>
  The listeners of a subject form an ordered set: subscribing succeeds for a new one and appends
  it, unsubscribing for a member and removes it, and a notification calls every member exactly once in
  the order of subscription. A listener that subscribes, unsubscribes or asks for the size while it is
  notified never returns.
\<close>

theorem listeners_notified:
  assumes "listeners_reachable l"
  shows "distinct (mContainer l) \<and>
    (\<exists>l'. subscribeListener x l = Some (x \<notin> set (mContainer l), l') \<and> mContainer l' = (if x \<in> set (mContainer l) then mContainer l else mContainer l @ [x])) \<and>
    (\<exists>l'. unSubscribeListener x l = Some (x \<in> set (mContainer l), l') \<and> mContainer l' = remove1 x (mContainer l)) \<and>
    notifyListeners reactions l = (if \<forall>x \<in> set (mContainer l). reactions x = [] then Some (mContainer l, l) else None)"
  using reachable_at_rest [OF assms] threadListeners.subscribing [of l x] threadListeners.unsubscribing [of l x]
    threadListeners.once [of l] notify_at_rest [of l reactions] by blast

lemma listeners_notified_witness:
  "\<exists>l. listeners_reachable l \<and> mContainer l = [1, 2::nat] \<and> notifyListeners (\<lambda>x. if x = 2 then [Unsubscribes 2] else []) l = None"
proof -
  let ?l1 = "no_listeners\<lparr>mContainer := [1::nat]\<rparr>" and ?l2 = "no_listeners\<lparr>mContainer := [1, 2::nat]\<rparr>"
  have r0: "at_rest (no_listeners :: nat listeners)" "at_rest ?l1" by (simp_all add: at_rest_def no_listeners_def)
  have "listeners_reachable ?l1" using listeners_reachable.subscribed [OF listeners_reachable.none, of 1 True ?l1] r0(1)
    by (simp add: subscribe_at_rest no_listeners_def)
  then have "listeners_reachable ?l2" using listeners_reachable.subscribed [of ?l1 2 True ?l2] r0(2)
    by (simp add: subscribe_at_rest no_listeners_def)
  with listeners_notified [OF this, of 1 "\<lambda>x. if x = 2 then [Unsubscribes 2] else []"] show ?thesis by (intro exI [of _ ?l2]) simp
qed

end
