(* ===== verification/LocalScheme.thy ===== *)
theory LocalScheme
  imports CanDecoder Containers "HOL-Library.Multiset"
begin

text \<open>
  The collection scheme that is read from a local file (\<open>CollectionScheme.cpp\<close>,
  \<open>CollectionSchemeJSONParser.cpp\<close>). The JSON library is a parameter: a file that does not open, text
  that does not parse, or a document with the values it was asked for. The lemmas show when a frame
  triggers an upload, and what a reload keeps.
\<close>

section \<open>Triggers\<close>

datatype TriggerType = TIMEPOINT | SIGNALVALUE
datatype PredicateCondition = EVERY | EQUAL | LESS | BIGGER

record EventTrigger =
  mTriggerType :: TriggerType
  etSignalID :: nat
  mParentMessageID :: nat
  mCondition :: PredicateCondition
  mValue :: double

definition new_trigger :: EventTrigger where
  "new_trigger = \<lparr>mTriggerType = TIMEPOINT, etSignalID = 0, mParentMessageID = 0, mCondition = EVERY, mValue = Fin 0\<rparr>"

definition trigger_isValid :: "EventTrigger \<Rightarrow> bool" where
  "trigger_isValid t \<longleftrightarrow>
     mTriggerType t = SIGNALVALUE \<and> etSignalID t > 0 \<and> mCondition t \<noteq> EVERY \<or>
     mTriggerType t = TIMEPOINT \<and> mCondition t = EVERY \<and> dlt (Fin 0) (mValue t)"

section \<open>The scheme\<close>

record local_scheme =
  lsVersion :: string
  lsCollectionSchemeID :: string
  lsEventType :: string
  lsEventID :: nat
  mEventTriggers :: "EventTrigger list"
  mMessageIDsToBeCollected :: "(nat \<times> CANMessageFormat) list"
  mMessageIDsToBeWatched :: "(nat \<times> EventTrigger list) list"
  mTimeTrigger :: EventTrigger

definition new_local_scheme :: local_scheme where
  "new_local_scheme = \<lparr>lsVersion = [], lsCollectionSchemeID = [], lsEventType = [], lsEventID = 0, mEventTriggers = [],
     mMessageIDsToBeCollected = [], mMessageIDsToBeWatched = [], mTimeTrigger = new_trigger\<rparr>"

definition local_isValid :: "local_scheme \<Rightarrow> bool" where
  "local_isValid s \<longleftrightarrow>
     mMessageIDsToBeWatched s \<noteq> [] \<and> mEventTriggers s \<noteq> [] \<or> mMessageIDsToBeCollected s \<noteq> [] \<and> trigger_isValid (mTimeTrigger s)"

definition local_clear :: "local_scheme \<Rightarrow> local_scheme" where
  "local_clear s = s\<lparr>lsVersion := [], lsCollectionSchemeID := [], lsEventType := [], lsEventID := 0,
     mMessageIDsToBeCollected := [], mMessageIDsToBeWatched := []\<rparr>"

text \<open>\<open>emplace\<close> keeps an entry that is there.\<close>

definition insertMessageToCollected :: "nat \<Rightarrow> CANMessageFormat \<Rightarrow> local_scheme \<Rightarrow> local_scheme" where
  "insertMessageToCollected i f s =
     (if map_of (mMessageIDsToBeCollected s) i = None then s\<lparr>mMessageIDsToBeCollected := omap_put i f (mMessageIDsToBeCollected s)\<rparr> else s)"

text \<open>\<open>std::sort\<close> by signal, a parameter as it leaves the order of equal signals open.\<close>

definition insertSignalTriggerToMessage ::
  "(EventTrigger list \<Rightarrow> EventTrigger list) \<Rightarrow> nat \<Rightarrow> EventTrigger \<Rightarrow> local_scheme \<Rightarrow> local_scheme" where
  "insertSignalTriggerToMessage sorter i t s =
     (if \<not> trigger_isValid t then s
      else s\<lparr>mMessageIDsToBeWatched := omap_put i (case map_of (mMessageIDsToBeWatched s) i of
                Some ts \<Rightarrow> sorter (ts @ [t]) | None \<Rightarrow> [t]) (mMessageIDsToBeWatched s)\<rparr>)"

definition setTimeTrigger :: "EventTrigger \<Rightarrow> local_scheme \<Rightarrow> local_scheme" where
  "setTimeTrigger t s = (if \<not> trigger_isValid t then s else s\<lparr>mTimeTrigger := t\<rparr>)"

definition shouldWatchCANMessage :: "nat \<Rightarrow> local_scheme \<Rightarrow> bool" where
  "shouldWatchCANMessage i s \<longleftrightarrow> map_of (mMessageIDsToBeWatched s) i \<noteq> None"

definition getCANMessageFormat :: "nat \<Rightarrow> local_scheme \<Rightarrow> CANMessageFormat" where
  "getCANMessageFormat i s = (case map_of (mMessageIDsToBeCollected s) i of Some f \<Rightarrow> f | None \<Rightarrow> default_message_format)"

definition shouldCollectCANMessage :: "nat \<Rightarrow> local_scheme \<Rightarrow> bool" where
  "shouldCollectCANMessage i s \<longleftrightarrow> map_of (mMessageIDsToBeCollected s) i \<noteq> None"

record CANFrameInfo =
  fiFrameID :: nat
  fiSignals :: "CANDecodedSignal list"

text \<open>Whether a signal meets a trigger. Nothing is compared for the condition ``every''.\<close>

definition trigger_met :: "CANDecodedSignal \<Rightarrow> EventTrigger \<Rightarrow> bool" where
  "trigger_met x t \<longleftrightarrow> mTriggerType t = SIGNALVALUE \<and> etSignalID t = dsSignalID x \<and>
     (case mCondition t of
        LESS \<Rightarrow> dlt (dsPhysicalValue x) (mValue t)
      | BIGGER \<Rightarrow> dlt (mValue t) (dsPhysicalValue x)
      | EQUAL \<Rightarrow> deq (dsPhysicalValue x) (mValue t)
      | EVERY \<Rightarrow> False)"

fun first_trigger :: "EventTrigger list \<Rightarrow> CANDecodedSignal list \<Rightarrow> EventTrigger option" where
  "first_trigger ts [] = None"
| "first_trigger ts (x # xs) = (case find (trigger_met x) ts of Some t \<Rightarrow> Some t | None \<Rightarrow> first_trigger ts xs)"

definition shouldTriggerUpload :: "CANFrameInfo \<Rightarrow> EventTrigger \<Rightarrow> local_scheme \<Rightarrow> bool \<times> EventTrigger" where
  "shouldTriggerUpload info eventTrigger s =
     (case map_of (mMessageIDsToBeWatched s) (fiFrameID info) of
        None \<Rightarrow> (False, eventTrigger)
      | Some ts \<Rightarrow> (case first_trigger ts (fiSignals info) of Some t \<Rightarrow> (True, t) | None \<Rightarrow> (False, eventTrigger)))"

section \<open>Reading a file\<close>

record trigger_doc =
  tdTriggerType :: string
  tdCondition :: string
  tdValue :: double
  tdSignalID :: nat
  tdMessageID :: nat

record message_doc =
  mdMessageID :: nat
  mdSizeInBytes :: nat
  mdIsMultiplexed :: bool
  mdSignals :: "CANSignalFormat list"

record scheme_doc =
  sdVersion :: string
  sdCollectionSchemeID :: string
  sdEventType :: string
  sdEventID :: nat
  sdEventTriggers :: "trigger_doc list"
  sdEventMessages :: "message_doc list"

definition read_trigger :: "trigger_doc \<Rightarrow> EventTrigger" where
  "read_trigger d =
     (let typ = (if tdTriggerType d = ''signalvalue'' then SIGNALVALUE else TIMEPOINT);
          cond = (if tdCondition d = ''equal'' then EQUAL else if tdCondition d = ''less'' then LESS
                  else if tdCondition d = ''bigger'' then BIGGER else EVERY)
      in \<lparr>mTriggerType = typ, etSignalID = (if typ = SIGNALVALUE then tdSignalID d else 0),
          mParentMessageID = (if typ = SIGNALVALUE then tdMessageID d else 0), mCondition = cond, mValue = tdValue d\<rparr>)"

text \<open>The numbers of a signal are cut to the width of the format.\<close>

definition read_signal :: "CANSignalFormat \<Rightarrow> CANSignalFormat" where
  "read_signal x = x\<lparr>mFirstBitPosition := u16 (mFirstBitPosition x), mSizeInBits := u16 (mSizeInBits x), mMultiplexorValue := u8 (mMultiplexorValue x)\<rparr>"

definition read_message :: "message_doc \<Rightarrow> CANMessageFormat" where
  "read_message d = \<lparr>mMessageID = mdMessageID d, mSizeInBytes = u8 (mdSizeInBytes d), mIsMultiplexed = mdIsMultiplexed d,
     mSignals = map read_signal (mdSignals d)\<rparr>"

definition add_trigger :: "(EventTrigger list \<Rightarrow> EventTrigger list) \<Rightarrow> trigger_doc \<Rightarrow> EventTrigger list \<times> local_scheme \<Rightarrow> EventTrigger list \<times> local_scheme" where
  "add_trigger sorter d = (\<lambda>(triggers, s).
     let t = read_trigger d in
     if mTriggerType t = SIGNALVALUE
     then (triggers @ [t], insertSignalTriggerToMessage sorter (mParentMessageID t) t s)
     else (triggers, setTimeTrigger t s))"

text \<open>The outcome of opening and parsing the file.\<close>

datatype file_read = NotOpen | NotParsed | Parsed scheme_doc

definition local_parse :: "(EventTrigger list \<Rightarrow> EventTrigger list) \<Rightarrow> file_read \<Rightarrow> local_scheme \<Rightarrow> bool \<times> local_scheme" where
  "local_parse sorter r s =
     (case r of
        Parsed d \<Rightarrow>
          let s = s\<lparr>lsVersion := sdVersion d, lsCollectionSchemeID := sdCollectionSchemeID d, lsEventType := sdEventType d, lsEventID := sdEventID d\<rparr>;
              (triggers, s) = fold (add_trigger sorter) (sdEventTriggers d) ([], s);
              s = s\<lparr>mEventTriggers := triggers\<rparr>
          in (True, fold (\<lambda>m. insertMessageToCollected (mdMessageID m) (read_message m)) (sdEventMessages d) s)
      | _ \<Rightarrow> (False, s))"

definition local_reLoad :: "(EventTrigger list \<Rightarrow> EventTrigger list) \<Rightarrow> file_read \<Rightarrow> local_scheme \<Rightarrow> bool \<times> local_scheme" where
  "local_reLoad sorter r s = local_parse sorter r (local_clear s)"

section \<open>When a frame triggers\<close>

lemma first_trigger_some: "first_trigger ts xs \<noteq> None \<longleftrightarrow> (\<exists>x \<in> set xs. \<exists>t \<in> set ts. trigger_met x t)"
proof (induction xs)
  case (Cons x xs)
  show ?case
  proof (cases "find (trigger_met x) ts")
    case None
    then have "\<not> (\<exists>t \<in> set ts. trigger_met x t)" by (simp add: find_None_iff)
    then show ?thesis using Cons None by auto
  next
    case (Some t)
    then have "\<exists>t \<in> set ts. trigger_met x t" by (auto simp: find_Some_iff)
    then show ?thesis using Some by auto
  qed
qed simp

text \<open>The triggers watched for a message are those of the document that are valid and name it, in some order.\<close>

definition watched :: "nat \<Rightarrow> local_scheme \<Rightarrow> EventTrigger list" where
  "watched i s = (case map_of (mMessageIDsToBeWatched s) i of Some ts \<Rightarrow> ts | None \<Rightarrow> [])"

definition asked :: "nat \<Rightarrow> trigger_doc list \<Rightarrow> EventTrigger list" where
  "asked i ds = filter (\<lambda>t. mTriggerType t = SIGNALVALUE \<and> trigger_isValid t \<and> mParentMessageID t = i) (map read_trigger ds)"

lemma watched_add:
  assumes "\<And>ts. mset (sorter ts) = mset ts"
  shows "mset (watched i (snd (add_trigger sorter d (triggers, s)))) = mset (watched i s) + mset (asked i [d])"
  using assms
  by (auto simp: add_trigger_def insertSignalTriggerToMessage_def setTimeTrigger_def watched_def asked_def Let_def split: option.splits)

lemma watched_fold:
  assumes "\<And>ts. mset (sorter ts) = mset ts"
  shows "mset (watched i (snd (fold (add_trigger sorter) ds (triggers, s)))) = mset (watched i s) + mset (asked i ds)"
proof (induction ds arbitrary: triggers s)
  case Nil
  then show ?case by (simp add: asked_def)
next
  case (Cons d ds)
  obtain triggers' s' where a: "add_trigger sorter d (triggers, s) = (triggers', s')" by (cases "add_trigger sorter d (triggers, s)")
  have "mset (watched i s') = mset (watched i s) + mset (asked i [d])" using watched_add [OF assms, of i d triggers s] a by simp
  moreover have "asked i (d # ds) = asked i [d] @ asked i ds" by (simp add: asked_def)
  ultimately show ?case using Cons.IH [of triggers' s'] a by simp
qed

lemma collected_keeps: "watched i (fold (\<lambda>m. insertMessageToCollected (f m) (g m)) ms s) = watched i s"
proof (induction ms arbitrary: s)
  case (Cons m ms)
  have "watched i (insertMessageToCollected (f m) (g m) s) = watched i s" by (simp add: insertMessageToCollected_def watched_def)
  then show ?case using Cons by simp
qed simp

lemma watched_parse:
  assumes "\<And>ts. mset (sorter ts) = mset ts"
  shows "set (watched i (snd (local_parse sorter (Parsed d) s))) = set (watched i s) \<union> set (asked i (sdEventTriggers d))"
proof -
  let ?s = "s\<lparr>lsVersion := sdVersion d, lsCollectionSchemeID := sdCollectionSchemeID d, lsEventType := sdEventType d, lsEventID := sdEventID d\<rparr>"
  obtain triggers s' where f: "fold (add_trigger sorter) (sdEventTriggers d) ([], ?s) = (triggers, s')" by (cases "fold (add_trigger sorter) (sdEventTriggers d) ([], ?s)")
  have "mset (watched i s') = mset (watched i ?s) + mset (asked i (sdEventTriggers d))"
    using watched_fold [OF assms, of i "sdEventTriggers d" "[]" ?s] f by simp
  then have "set (watched i s') = set (watched i s) \<union> set (asked i (sdEventTriggers d))"
    by (metis (no_types, lifting) local_scheme.select_convs(7) local_scheme.surjective local_scheme.update_convs(1,2,3,4) set_mset_mset set_mset_union watched_def)
  moreover have "watched i (s'\<lparr>mEventTriggers := triggers\<rparr>) = watched i s'" by (simp add: watched_def)
  ultimately show ?thesis using f by (simp add: local_parse_def collected_keeps)
qed

text \<open>
  After a document was read into a new scheme, a frame triggers an upload exactly when one of its
  signals meets one of the document's triggers for that message: of the type signal value, with a
  signal number above zero and a condition other than ``every''. The trigger handed out is one that is
  met.
\<close>

theorem local_scheme_triggers:
  assumes "\<And>ts. mset (sorter ts) = mset ts" and "local_parse sorter (Parsed d) new_local_scheme = (ok, s)"
  shows "fst (shouldTriggerUpload info et s) \<longleftrightarrow>
    (\<exists>x \<in> set (fiSignals info). \<exists>t \<in> set (sdEventTriggers d).
       tdTriggerType t = ''signalvalue'' \<and> tdMessageID t = fiFrameID info \<and> tdSignalID t > 0 \<and> tdSignalID t = dsSignalID x \<and>
       (tdCondition t = ''equal'' \<and> deq (dsPhysicalValue x) (tdValue t) \<or>
        tdCondition t = ''less'' \<and> dlt (dsPhysicalValue x) (tdValue t) \<or>
        tdCondition t = ''bigger'' \<and> dlt (tdValue t) (dsPhysicalValue x)))"
proof -
  let ?i = "fiFrameID info"
  have "set (watched ?i s) = set (asked ?i (sdEventTriggers d))"
    using watched_parse [OF assms(1), of ?i d new_local_scheme] assms(2) by (simp add: watched_def new_local_scheme_def)
  then have "fst (shouldTriggerUpload info et s) \<longleftrightarrow> (\<exists>x \<in> set (fiSignals info). \<exists>t \<in> set (asked ?i (sdEventTriggers d)). trigger_met x t)"
    using first_trigger_some [of "watched ?i s" "fiSignals info"]
    by (auto simp: shouldTriggerUpload_def watched_def split: option.splits)
  also have "\<dots> \<longleftrightarrow> (\<exists>x \<in> set (fiSignals info). \<exists>t \<in> set (sdEventTriggers d).
      mTriggerType (read_trigger t) = SIGNALVALUE \<and> trigger_isValid (read_trigger t) \<and> mParentMessageID (read_trigger t) = ?i \<and> trigger_met x (read_trigger t))"
    by (auto simp: asked_def)
  also have "\<dots> \<longleftrightarrow> (\<exists>x \<in> set (fiSignals info). \<exists>t \<in> set (sdEventTriggers d).
       tdTriggerType t = ''signalvalue'' \<and> tdMessageID t = fiFrameID info \<and> tdSignalID t > 0 \<and> tdSignalID t = dsSignalID x \<and>
       (tdCondition t = ''equal'' \<and> deq (dsPhysicalValue x) (tdValue t) \<or>
        tdCondition t = ''less'' \<and> dlt (dsPhysicalValue x) (tdValue t) \<or>
        tdCondition t = ''bigger'' \<and> dlt (tdValue t) (dsPhysicalValue x)))"
    by (intro bex_cong refl) (auto simp: read_trigger_def trigger_isValid_def trigger_met_def Let_def)
  finally show ?thesis .
qed

lemma local_scheme_triggers_witness:
  "fst (shouldTriggerUpload \<lparr>fiFrameID = 7, fiSignals = [\<lparr>dsSignalID = 3, dsRawValue = 0, dsPhysicalValue = Fin 12\<rparr>]\<rparr> new_trigger
     (snd (local_parse (sort_key etSignalID)
        (Parsed \<lparr>sdVersion = ''1'', sdCollectionSchemeID = ''s'', sdEventType = [], sdEventID = 0,
           sdEventTriggers = [\<lparr>tdTriggerType = ''signalvalue'', tdCondition = ''bigger'', tdValue = Fin 10, tdSignalID = 3, tdMessageID = 7\<rparr>],
           sdEventMessages = []\<rparr>) new_local_scheme)))"
proof -
  have "\<And>ts. mset (sort_key etSignalID ts) = mset ts" by simp
  from local_scheme_triggers [OF this prod.collapse [symmetric]] show ?thesis by auto
qed

lemma time_trigger_fold:
  "\<forall>t \<in> set ds. tdTriggerType t = ''signalvalue'' \<Longrightarrow> mTimeTrigger (snd (fold (add_trigger sorter) ds (triggers, s))) = mTimeTrigger s"
proof (induction ds arbitrary: triggers s)
  case (Cons d ds)
  obtain triggers' s' where a: "add_trigger sorter d (triggers, s) = (triggers', s')" by (cases "add_trigger sorter d (triggers, s)")
  have "mTimeTrigger s' = mTimeTrigger s" using a Cons.prems
    by (auto simp: add_trigger_def read_trigger_def insertSignalTriggerToMessage_def Let_def)
  then show ?case using Cons.IH [of triggers' s'] Cons.prems a by simp
qed simp

lemma time_trigger_collected: "mTimeTrigger (fold (\<lambda>m. insertMessageToCollected (f m) (g m)) ms s) = mTimeTrigger s"
proof (induction ms arbitrary: s)
  case (Cons m ms)
  have "mTimeTrigger (insertMessageToCollected (f m) (g m) s) = mTimeTrigger s" by (simp add: insertMessageToCollected_def)
  then show ?case using Cons by simp
qed simp

text \<open>
  A reload replaces the messages and signals watched and collected, but the time trigger of the
  document before stays when the new document has no time point that is valid: it is then collected for
  a trigger that is in no document any more.
\<close>

theorem reload_keeps_time_trigger:
  assumes "\<forall>t \<in> set (sdEventTriggers d). tdTriggerType t = ''signalvalue''"
  shows "mTimeTrigger (snd (local_reLoad sorter (Parsed d) s)) = mTimeTrigger s"
proof -
  let ?s = "(local_clear s)\<lparr>lsVersion := sdVersion d, lsCollectionSchemeID := sdCollectionSchemeID d, lsEventType := sdEventType d, lsEventID := sdEventID d\<rparr>"
  obtain triggers s' where f: "fold (add_trigger sorter) (sdEventTriggers d) ([], ?s) = (triggers, s')" by (cases "fold (add_trigger sorter) (sdEventTriggers d) ([], ?s)")
  have "mTimeTrigger s' = mTimeTrigger s" using time_trigger_fold [OF assms, of sorter "[]" ?s] f by (simp add: local_clear_def)
  then show ?thesis using f by (simp add: local_reLoad_def local_parse_def time_trigger_collected)
qed

lemma reload_keeps_time_trigger_witness:
  "let s = snd (local_reLoad id
       (Parsed \<lparr>sdVersion = ''2'', sdCollectionSchemeID = ''s'', sdEventType = [], sdEventID = 0, sdEventTriggers = [],
          sdEventMessages = [\<lparr>mdMessageID = 7, mdSizeInBytes = 8, mdIsMultiplexed = False, mdSignals = []\<rparr>]\<rparr>)
       (new_local_scheme\<lparr>mTimeTrigger := new_trigger\<lparr>mValue := Fin 5\<rparr>\<rparr>))
   in mTimeTrigger s = new_trigger\<lparr>mValue := Fin 5\<rparr>"
  unfolding Let_def by (subst reload_keeps_time_trigger) simp_all

end
