(* ===== verification/IsoTp.thy ===== *)
theory IsoTp
  imports VehicleMessages
begin

text \<open>
  Sockets of the ISO-TP protocol (\<open>ISOTPOverCANSenderReceiver.cpp\<close>, \<open>ISOTPOverCANSender.cpp\<close>,
  \<open>ISOTPOverCANReceiver.cpp\<close>), the keep-alive message of a session (\<open>OBDOverCANSessionManager.cpp\<close>)
  and the connections of the diagnostics module (\<open>OBDOverCANModule.cpp\<close>). The table of the open file
  descriptors of the process is explicit; the answers of the kernel are inputs. The lemmas show what a
  connection leaves in the table on every path.
\<close>

section \<open>Options\<close>

definition P2_TIMEOUT_DEFAULT_MS :: nat where "P2_TIMEOUT_DEFAULT_MS = 5000"
definition P2_TIMEOUT_INFINITE :: nat where "P2_TIMEOUT_INFINITE = 0"

record isotp_options =
  mSocketCanIFName :: string
  mSourceCANId :: nat
  mDestinationCANId :: nat
  mIsExtendedId :: bool
  mBlockSize :: nat
  mFrameSeparationTimeMs :: nat
  mP2TimeoutMs :: nat

definition default_options :: isotp_options where
  "default_options = \<lparr>mSocketCanIFName = [], mSourceCANId = 0, mDestinationCANId = 0, mIsExtendedId = False,
     mBlockSize = 0, mFrameSeparationTimeMs = 0, mP2TimeoutMs = P2_TIMEOUT_DEFAULT_MS\<rparr>"

section \<open>Descriptors\<close>

text \<open>What an open descriptor refers to: an ISO-TP socket as it is configured, or anything else.\<close>

record isotp_socket =
  skBound :: "(string \<times> nat \<times> nat) option"
  skPadding :: bool
  skFlowControl :: "(nat \<times> nat) option"

datatype open_file = IsoTpSocket isotp_socket | OtherFile string

type_synonym fd_table = "(int \<times> open_file) list"

definition new_socket :: isotp_socket where
  "new_socket = \<lparr>skBound = None, skPadding = False, skFlowControl = None\<rparr>"

text \<open>A descriptor that is not open cannot be closed. Whether a close succeeds otherwise is an input.\<close>

definition close_fd :: "bool \<Rightarrow> int \<Rightarrow> fd_table \<Rightarrow> bool \<times> fd_table" where
  "close_fd ok n t = (if map_of t n = None then (False, t) else (ok, filter (\<lambda>(k, _). k \<noteq> n) t))"

definition update_fd :: "int \<Rightarrow> isotp_socket \<Rightarrow> fd_table \<Rightarrow> fd_table" where
  "update_fd n s = map (\<lambda>(k, x). if k = n then (k, IsoTpSocket s) else (k, x))"

text \<open>The number of a new socket, negative when there is none, and whether options and addresses are accepted.\<close>

record isotp_env =
  socketNumber :: int
  optionsAccepted :: bool
  flowControlAccepted :: bool
  bindAccepted :: bool

section \<open>Connecting\<close>

record isotp_link =
  linkOptions :: isotp_options
  mSocket :: int

definition new_link :: isotp_link where
  "new_link = \<lparr>linkOptions = default_options, mSocket = 0\<rparr>"

definition link_init :: "isotp_options \<Rightarrow> isotp_link \<Rightarrow> bool \<times> isotp_link" where
  "link_init opts l = (True, l\<lparr>linkOptions := opts\<rparr>)"

definition CAN_EFF_FLAG :: nat where "CAN_EFF_FLAG = 0x80000000"

definition can_address :: "isotp_options \<Rightarrow> nat \<Rightarrow> nat" where
  "can_address opts i = (if mIsExtendedId opts then or i CAN_EFF_FLAG else i)"

text \<open>The flow control of the receiving side: block size, separation time.\<close>

definition flow_control :: "isotp_options \<Rightarrow> nat \<times> nat" where
  "flow_control opts = (and (mBlockSize opts) 0xFF, and (mFrameSeparationTimeMs opts) 0xFF)"

text \<open>Binding ends a connection on all three classes.\<close>

definition bind_link :: "isotp_env \<Rightarrow> isotp_socket \<Rightarrow> isotp_link \<Rightarrow> fd_table \<Rightarrow> bool \<times> isotp_link \<times> fd_table" where
  "bind_link env s l t =
     (let opts = linkOptions l; n = mSocket l in
      if \<not> bindAccepted env then (False, l, snd (close_fd True n t))
      else (True, l, update_fd n (s\<lparr>skBound := Some (mSocketCanIFName opts, can_address opts (mSourceCANId opts), can_address opts (mDestinationCANId opts))\<rparr>) t))"

text \<open>The class for both directions pads its frames; the socket stays open when an option is refused.\<close>

definition senderReceiver_connect :: "isotp_env \<Rightarrow> isotp_link \<Rightarrow> fd_table \<Rightarrow> bool \<times> isotp_link \<times> fd_table" where
  "senderReceiver_connect env l t =
     (let n = socketNumber env; l = l\<lparr>mSocket := n\<rparr> in
      if n < 0 then (False, l, t)
      else let t = (n, IsoTpSocket new_socket) # t;
               s = new_socket\<lparr>skPadding := optionsAccepted env,
                     skFlowControl := (if flowControlAccepted env then Some (flow_control (linkOptions l)) else None)\<rparr>
           in if \<not> optionsAccepted env \<or> \<not> flowControlAccepted env then (False, l, update_fd n s t)
              else bind_link env s l t)"

definition sender_connect :: "isotp_env \<Rightarrow> isotp_link \<Rightarrow> fd_table \<Rightarrow> bool \<times> isotp_link \<times> fd_table" where
  "sender_connect env l t =
     (let n = socketNumber env; l = l\<lparr>mSocket := n\<rparr> in
      if n < 0 then (False, l, t)
      else let t = (n, IsoTpSocket new_socket) # t in
        if \<not> optionsAccepted env then (False, l, t) else bind_link env new_socket l t)"

definition receiver_connect :: "isotp_env \<Rightarrow> isotp_link \<Rightarrow> fd_table \<Rightarrow> bool \<times> isotp_link \<times> fd_table" where
  "receiver_connect env l t =
     (let n = socketNumber env; l = l\<lparr>mSocket := n\<rparr> in
      if n < 0 then (False, l, t)
      else let t = (n, IsoTpSocket new_socket) # t;
               s = new_socket\<lparr>skFlowControl := (if flowControlAccepted env then Some (flow_control (linkOptions l)) else None)\<rparr>
           in if \<not> optionsAccepted env \<or> \<not> flowControlAccepted env then (False, l, update_fd n s t)
              else bind_link env s l t)"

text \<open>The number stays in the link when it is closed.\<close>

definition link_disconnect :: "bool \<Rightarrow> isotp_link \<Rightarrow> fd_table \<Rightarrow> bool \<times> fd_table" where
  "link_disconnect ok l t = close_fd ok (mSocket l) t"

text \<open>Whether the socket has an error is an input.\<close>

definition link_isAlive :: "bool \<Rightarrow> isotp_link \<Rightarrow> fd_table \<Rightarrow> bool" where
  "link_isAlive healthy l t \<longleftrightarrow> map_of t (mSocket l) \<noteq> None \<and> healthy"

section \<open>Messages\<close>

definition MAX_PDU_SIZE :: nat where "MAX_PDU_SIZE = 5000"

text \<open>
  The result of \<open>poll\<close> and what \<open>read\<close> has (\<open>None\<close> is an error), of which at most the size of the
  buffer is taken. The message that was there before is kept when nothing arrives in time.
\<close>

definition link_receivePDU :: "int \<Rightarrow> nat list option \<Rightarrow> isotp_link \<Rightarrow> nat list \<Rightarrow> bool \<times> nat list" where
  "link_receivePDU polled incoming l pdu =
     (if mP2TimeoutMs (linkOptions l) > P2_TIMEOUT_INFINITE \<and> polled \<le> 0 then (False, pdu)
      else let bytes = (case incoming of None \<Rightarrow> [] | Some bs \<Rightarrow> take MAX_PDU_SIZE bs) in (bytes \<noteq> [], bytes))"

definition link_sendPDU :: "int \<Rightarrow> nat list \<Rightarrow> bool" where
  "link_sendPDU bytesWritten pdu \<longleftrightarrow> bytesWritten > 0 \<and> bytesWritten = int (length pdu)"

section \<open>The session\<close>

definition BROADCAST_ID :: nat where "BROADCAST_ID = 0x7DF"
definition ENGINE_ECU_RX :: nat where "ENGINE_ECU_RX = 0x7E8"

record obd_session =
  mTxPDU :: "nat list"
  mSenderReceiver :: isotp_link

definition session_init :: "string \<Rightarrow> obd_session \<Rightarrow> bool \<times> obd_session" where
  "session_init name s =
     (let opts = default_options\<lparr>mSocketCanIFName := name, mSourceCANId := BROADCAST_ID, mDestinationCANId := ENGINE_ECU_RX\<rparr>;
          (ok, l) = link_init opts (mSenderReceiver s)
      in (ok, s\<lparr>mTxPDU := [0x01, 0x00], mSenderReceiver := l\<rparr>))"

text \<open>The second component is the count of failures, a traced variable.\<close>

definition sendHeartBeat :: "int \<Rightarrow> obd_session \<Rightarrow> nat \<Rightarrow> bool \<times> nat" where
  "sendHeartBeat bytesWritten s errors = (if link_sendPDU bytesWritten (mTxPDU s) then (True, errors) else (False, errors + 1))"

section \<open>The connections of the diagnostics module\<close>

record obd_links =
  engineLink :: isotp_link
  transmissionLink :: isotp_link
  obdThread :: worker_thread

definition links_start :: "bool \<Rightarrow> obd_links \<Rightarrow> bool \<times> obd_links" where
  "links_start created x = (let t = snd (thread_create created (obdThread x)) in (thread_alive t, x\<lparr>obdThread := t\<rparr>))"

definition links_stop :: "bool \<Rightarrow> obd_links \<Rightarrow> bool \<times> obd_links" where
  "links_stop joined x =
     (if \<not> thread_alive (obdThread x) then (True, x)
      else let t = snd (thread_release joined (obdThread x)) in (thDone t, x\<lparr>obdThread := t\<rparr>))"

text \<open>Whether the transmission was connected is ignored.\<close>

definition links_connect :: "isotp_env \<Rightarrow> isotp_env \<Rightarrow> bool \<Rightarrow> bool \<Rightarrow> obd_links \<Rightarrow> fd_table \<Rightarrow> bool \<times> obd_links \<times> fd_table" where
  "links_connect engine transmission created hasTransmission x t =
     (let (x, t) = (if hasTransmission
                    then case senderReceiver_connect transmission (transmissionLink x) t of (_, l, t) \<Rightarrow> (x\<lparr>transmissionLink := l\<rparr>, t)
                    else (x, t));
          (ok, l, t) = senderReceiver_connect engine (engineLink x) t;
          x = x\<lparr>engineLink := l\<rparr>
      in if ok then let (ok, x) = links_start created x in (ok, x, t) else (False, x, t))"

definition links_disconnect :: "bool \<Rightarrow> bool \<Rightarrow> bool \<Rightarrow> bool \<Rightarrow> obd_links \<Rightarrow> fd_table \<Rightarrow> bool \<times> obd_links \<times> fd_table" where
  "links_disconnect engineCloses transmissionCloses joined hasTransmission x t =
     (let t = (if hasTransmission then snd (link_disconnect transmissionCloses (transmissionLink x) t) else t);
          (ok, t) = link_disconnect engineCloses (engineLink x) t
      in if ok then let (ok, x) = links_stop joined x in (ok, x, t) else (False, x, t))"

definition links_alive :: "bool \<Rightarrow> bool \<Rightarrow> bool \<Rightarrow> obd_links \<Rightarrow> fd_table \<Rightarrow> bool" where
  "links_alive engineHealthy transmissionHealthy hasTransmission x t \<longleftrightarrow>
     thread_alive (obdThread x) \<and> link_isAlive engineHealthy (engineLink x) t \<and>
     (hasTransmission \<longrightarrow> link_isAlive transmissionHealthy (transmissionLink x) t)"

section \<open>Descriptors are kept in order\<close>

text \<open>The kernel never hands out a number that is in use.\<close>

definition fresh :: "isotp_env \<Rightarrow> fd_table \<Rightarrow> bool" where
  "fresh env t \<longleftrightarrow> map_of t (socketNumber env) = None"

lemma fresh_notin: "map_of t n = None \<Longrightarrow> filter (\<lambda>(k, _). k \<noteq> n) t = t"
  by (induction t) (auto split: if_splits)

lemma update_notin: "map_of t n = None \<Longrightarrow> update_fd n s t = t"
  by (induction t) (auto simp: update_fd_def split: if_splits)

lemma update_head: "update_fd n s ((n, f) # t) = (n, IsoTpSocket s) # update_fd n s t"
  by (simp add: update_fd_def)

text \<open>What a connection adds to the table: the socket, bound or left unconfigured, or nothing.\<close>

definition configured :: "isotp_options \<Rightarrow> isotp_socket" where
  "configured opts = \<lparr>skBound = Some (mSocketCanIFName opts, can_address opts (mSourceCANId opts), can_address opts (mDestinationCANId opts)),
     skPadding = True, skFlowControl = Some (flow_control opts)\<rparr>"

definition left_open :: "isotp_env \<Rightarrow> isotp_options \<Rightarrow> isotp_socket" where
  "left_open env opts = \<lparr>skBound = None, skPadding = optionsAccepted env,
     skFlowControl = (if flowControlAccepted env then Some (flow_control opts) else None)\<rparr>"

lemma senderReceiver_outcome:
  assumes "fresh env t"
  shows "senderReceiver_connect env l t =
    (let n = socketNumber env; l' = l\<lparr>mSocket := n\<rparr> in
     if n < 0 then (False, l', t)
     else if \<not> optionsAccepted env \<or> \<not> flowControlAccepted env then (False, l', (n, IsoTpSocket (left_open env (linkOptions l))) # t)
     else if \<not> bindAccepted env then (False, l', t)
     else (True, l', (n, IsoTpSocket (configured (linkOptions l))) # t))"
  using assms
  by (auto simp: senderReceiver_connect_def bind_link_def Let_def fresh_def update_head update_notin close_fd_def fresh_notin
      left_open_def configured_def new_socket_def)

lemma close_head:
  "map_of t n = None \<Longrightarrow> close_fd ok n ((n, f) # t) = (ok, t)"
  by (simp add: close_fd_def fresh_notin)

text \<open>
  A connection that succeeds adds one descriptor, bound to the interface with the two addresses of
  its options (flagged when they are extended), with padding and the flow control cut to bytes, and
  disconnecting it restores the table. Of those that fail, the one whose options are refused leaves a
  socket behind; no other changes the table.
\<close>

theorem connection_descriptors:
  assumes "fresh env t" and "senderReceiver_connect env l t = (ok, l', t')"
  shows "if ok then t' = (mSocket l', IsoTpSocket (configured (linkOptions l))) # t \<and> link_disconnect True l' t' = (True, t)
     else if 0 \<le> socketNumber env \<and> \<not> (optionsAccepted env \<and> flowControlAccepted env)
     then t' = (socketNumber env, IsoTpSocket (left_open env (linkOptions l))) # t
     else t' = t"
  using assms(2) senderReceiver_outcome [OF assms(1), of l] assms(1)
  by (auto simp: Let_def link_disconnect_def close_head fresh_def split: if_splits)

lemma connection_descriptors_witness:
  "let env = \<lparr>socketNumber = 5, optionsAccepted = True, flowControlAccepted = False, bindAccepted = True\<rparr>
   in snd (snd (senderReceiver_connect env new_link [(4, OtherFile ''log'')])) =
      [(5, IsoTpSocket (left_open env default_options)), (4, OtherFile ''log'')]"
proof -
  let ?env = "\<lparr>socketNumber = 5, optionsAccepted = True, flowControlAccepted = False, bindAccepted = True\<rparr>"
  let ?t = "[(4, OtherFile ''log'')]"
  have f: "fresh ?env ?t" by (simp add: fresh_def)
  have c: "senderReceiver_connect ?env new_link ?t = (False, new_link\<lparr>mSocket := 5\<rparr>, (5, IsoTpSocket (left_open ?env default_options)) # ?t)"
    by (subst senderReceiver_outcome [OF f]) (simp add: new_link_def)
  from connection_descriptors [OF f c] c show ?thesis by simp
qed

text \<open>
  The number of a closed socket stays in the link. When it was handed out again in between,
  disconnecting once more closes the file of another owner, and says that it succeeded.
\<close>

theorem disconnect_closes_foreign:
  assumes "fresh env t" and "senderReceiver_connect env l t = (ok, l', t')" and "0 \<le> socketNumber env"
    and "if ok then link_disconnect True l' t' = (True, t'') else optionsAccepted env \<and> flowControlAccepted env \<and> t'' = t'"
  shows "link_disconnect True l' ((socketNumber env, OtherFile owner) # t'') = (True, t)"
  using assms(2-4) senderReceiver_outcome [OF assms(1), of l] assms(1)
  by (auto simp: Let_def link_disconnect_def close_head fresh_def split: if_splits)

lemma disconnect_closes_foreign_witness:
  "link_disconnect True (new_link\<lparr>mSocket := 5\<rparr>) [(5, OtherFile ''certificate''), (4, OtherFile ''log'')] = (True, [(4, OtherFile ''log'')])"
proof -
  let ?env = "\<lparr>socketNumber = 5, optionsAccepted = True, flowControlAccepted = True, bindAccepted = False\<rparr>"
  let ?t = "[(4, OtherFile ''log'')]"
  have f: "fresh ?env ?t" by (simp add: fresh_def)
  have "senderReceiver_connect ?env new_link ?t = (False, new_link\<lparr>mSocket := 5\<rparr>, ?t)" by (subst senderReceiver_outcome [OF f]) simp
  from disconnect_closes_foreign [OF f this, of ?t "''certificate''"] show ?thesis by simp
qed

text \<open>
  A message that is received is what arrived, cut to the size of the buffer, and never empty; when
  nothing arrives in time the message there was before is kept, and an error empties it.
\<close>

theorem received_within_buffer:
  "link_receivePDU polled incoming l pdu = (ok, pdu') \<Longrightarrow>
     (ok \<longrightarrow> 0 < length pdu' \<and> length pdu' \<le> MAX_PDU_SIZE \<and> (\<exists>bs. incoming = Some bs \<and> pdu' = take MAX_PDU_SIZE bs)) \<and>
     (\<not> ok \<longrightarrow> pdu' = (if 0 < mP2TimeoutMs (linkOptions l) \<and> polled \<le> 0 then pdu else []))"
  by (auto simp: link_receivePDU_def Let_def P2_TIMEOUT_INFINITE_def split: if_splits option.splits)

lemma received_within_buffer_witness:
  "\<exists>pdu. link_receivePDU 1 (Some (replicate 6000 7)) new_link [] = (True, pdu) \<and> length pdu \<le> 5000"
proof -
  let ?p = "replicate 5000 (7::nat)"
  have "link_receivePDU 1 (Some (replicate 6000 7)) new_link [] = (True, ?p)"
    by (simp add: link_receivePDU_def new_link_def default_options_def MAX_PDU_SIZE_def)
  from received_within_buffer [OF this] this show ?thesis by (auto simp: MAX_PDU_SIZE_def)
qed

end
