(* ===== verification/EngineStartup.thy ===== *)
theory EngineStartup
  imports CloudConnection CloudUpload RemoteMetrics Listeners LocalScheme IsoTp InspectionWorker SchemeManager SourceBinder ObdModule
begin

text \<open>
  Starting and stopping the program (\<open>IoTFleetWiseEngine.cpp\<close>, \<open>main.cpp\<close>): the parts are created,
  configured, connected to each other and started, in the order of the code, until one of them fails.
  The configuration is the document's values; the answers of the system are inputs. A part that was
  not created yet is a null pointer. The lemmas are in \<open>StartupBehaviour\<close>.
\<close>

section \<open>Files\<close>

text \<open>The character that reading at the end of a file gives, cut to eight bits.\<close>

definition eof_char :: char where "eof_char = char_of (255 :: nat)"

text \<open>A stream is good until a read has failed, so the result of the read that fails is kept.\<close>

fun read_chars :: "string \<Rightarrow> string" where
  "read_chars [] = [eof_char]"
| "read_chars (c # cs) = c # read_chars cs"

definition getFileContents :: "string option \<Rightarrow> string" where
  "getFileContents file = (case file of None \<Rightarrow> [] | Some cs \<Rightarrow> read_chars cs)"

section \<open>Configuration\<close>

definition CAN_INTERFACE_TYPE :: string where "CAN_INTERFACE_TYPE = ''canInterface''"
definition OBD_INTERFACE_TYPE :: string where "OBD_INTERFACE_TYPE = ''obdInterface''"

record network_interface =
  niType :: string
  niInterfaceId :: string
  canInterfaceName :: string
  canTimestampType :: "string option"
  obdInterfaceName :: string
  obdPidRequestIntervalSeconds :: nat
  obdDtcRequestIntervalSeconds :: nat
  obdUseExtendedIds :: bool
  obdHasTransmissionEcu :: bool

record profiler_config =
  pcLoggingUploadLevelThreshold :: string
  pcMetricsUploadIntervalMs :: nat
  pcLoggingUploadMaxWaitBeforeUploadMs :: nat
  pcProfilerPrefix :: string

record engine_config =
  ecPersistencyPath :: string
  ecPersistencyPartitionMaxSize :: nat
  ecRetryIntervalInPersistency :: bool
  ecRetryIntervalMs :: "int option"
  ecNetworkInterfaces :: "network_interface list"
  ecCanDataTopic :: string
  ecCollectionSchemeListTopic :: string
  ecDecoderManifestTopic :: string
  ecMetricsUploadTopic :: string
  ecLoggingUploadTopic :: string
  ecCheckinTopic :: string
  ecUseJsonBasedCollection :: bool
  ecMaxPublishMessageCount :: nat
  ecPrivateKeyFilename :: string
  ecCertificateFilename :: string
  ecEndpointUrl :: string
  ecClientId :: string
  ecRemoteProfiler :: "profiler_config option"
  ecInspectionThreadIdleTimeMs :: nat
  ecDataReductionProbabilityDisabled :: bool
  ecUseJsonBasedCollectionScheme :: bool
  ecJsonBasedCollectionSchemeFilename :: string
  ecCheckinIntervalMs :: nat
  ecSocketCANThreadIdleTimeMs :: string
  ecSocketCANBufferSize :: nat
  ecCanDecoderThreadIdleTimeMs :: nat

section \<open>The program\<close>

datatype part = EnginePart | InspectionPart | ManagerPart | ObdPart | BinderPart
datatype receiver = DecoderManifestCb | CollectionSchemeListCb

text \<open>Channels are named by their position in the connectivity module.\<close>

record program =
  pgPersistency :: "CacheAndPersist option"
  pgRetryIntervalMs :: nat
  pgModule :: "connectivity_module option"
  pgCanData :: "nat option"
  pgSchemeList :: "nat option"
  pgManifest :: "nat option"
  pgMetrics :: "nat option"
  pgLogs :: "nat option"
  pgCheckin :: "nat option"
  pgSender :: "nat collection_sender option"
  pgProfiler :: "nat profiler option"
  pgLogForwarding :: bool
  pgWorker :: "worker option"
  pgWorkerThread :: worker_thread
  pgReadyListeners :: "part listeners"
  pgLocalScheme :: "local_scheme option"
  pgSchema :: "part listeners option"
  pgSchemeReceivers :: "receiver listeners"
  pgManifestReceivers :: "receiver listeners"
  pgManager :: "manager option"
  pgManagerThread :: worker_thread
  pgManagerIDs :: CANInterfaceIDTranslator
  pgMatrixListeners :: "part listeners"
  pgDictionaryListeners :: "part listeners"
  pgBinder :: "source_binder option"
  pgObd :: "obd_module option"
  pgLinks :: obd_links
  pgDescriptors :: fd_table
  pgSourceIDs :: nat
  pgConsumerIDs :: nat
  pgThread :: worker_thread

definition new_program :: program where
  "new_program = \<lparr>pgPersistency = None, pgRetryIntervalMs = 0, pgModule = None, pgCanData = None, pgSchemeList = None,
     pgManifest = None, pgMetrics = None, pgLogs = None, pgCheckin = None, pgSender = None, pgProfiler = None,
     pgLogForwarding = False, pgWorker = None, pgWorkerThread = new_thread, pgReadyListeners = no_listeners,
     pgLocalScheme = None, pgSchema = None, pgSchemeReceivers = no_listeners, pgManifestReceivers = no_listeners,
     pgManager = None, pgManagerThread = new_thread, pgManagerIDs = new_translator, pgMatrixListeners = no_listeners,
     pgDictionaryListeners = no_listeners, pgBinder = None, pgObd = None,
     pgLinks = \<lparr>engineLink = new_link, transmissionLink = new_link, obdThread = new_thread\<rparr>, pgDescriptors = [],
     pgSourceIDs = 0, pgConsumerIDs = 0, pgThread = new_thread\<rparr>"

text \<open>What the system answers: files, the cloud library, threads, the kernel.\<close>

record startup_env =
  seFS :: FileSystem
  seDisk :: "DataType \<Rightarrow> nat list option"
  seFiles :: "string \<Rightarrow> string option"
  seConnect :: connect_env
  seAnswers :: library_answers
  seAcks :: "sub_ack list"
  seRetryCreated :: bool
  seProfilerEnv :: "nat profiler_env"
  seKernel :: kernel_report
  seProfilerCreated :: bool
  seWorkerCreated :: bool
  seLocalFile :: "string \<Rightarrow> file_read"
  seSorter :: "EventTrigger list \<Rightarrow> EventTrigger list"
  seBinder :: binder_env
  seObdEngine :: isotp_env
  seObdTransmission :: isotp_env
  seObdCreated :: bool
  seManagerCreated :: bool

text \<open>Steps that may fail; the state they leave is kept.\<close>

definition and_then :: "(bool \<times> 's) ub_result \<Rightarrow> ('s \<Rightarrow> (bool \<times> 's) ub_result) \<Rightarrow> (bool \<times> 's) ub_result" where
  "and_then r f = ub_bind r (\<lambda>(ok, s). if ok then f s else Inr (False, s))"

text \<open>No subject is notified by the thread that subscribes, so subscribing returns.\<close>

definition add_listener :: "'l \<Rightarrow> 'l listeners \<Rightarrow> bool \<times> 'l listeners" where
  "add_listener x l = (case subscribeListener x l of None \<Rightarrow> (False, l) | Some r \<Rightarrow> r)"

section \<open>Persistency and the cloud\<close>

text \<open>A failure to initialise is only logged.\<close>

definition start_persistency :: "startup_env \<Rightarrow> engine_config \<Rightarrow> program \<Rightarrow> program" where
  "start_persistency env c p =
     p\<lparr>pgPersistency := Some (snd (persistency_init (seFS env) \<lparr>files = seDisk env, mMaxPersistencePartitionSize = ecPersistencyPartitionMaxSize c\<rparr>)),
       pgRetryIntervalMs := upload_retry_interval (ecRetryIntervalInPersistency c) (ecRetryIntervalMs c)\<rparr>"

definition can_interfaces :: "engine_config \<Rightarrow> network_interface list" where
  "can_interfaces c = filter (\<lambda>i. niType i = CAN_INTERFACE_TYPE) (ecNetworkInterfaces c)"

definition interface_ids :: "engine_config \<Rightarrow> CANInterfaceIDTranslator" where
  "interface_ids c = fold (\<lambda>i x. if niType i = CAN_INTERFACE_TYPE then translator_add (niInterfaceId i) x else x) (ecNetworkInterfaces c) new_translator"

definition open_channel :: "bool \<Rightarrow> string \<Rightarrow> bool \<Rightarrow> connectivity_module \<Rightarrow> nat \<times> connectivity_module" where
  "open_channel payloadManager topic async m =
     (let n = length (mChannels m); m = createNewChannel payloadManager MAXIMUM_IOT_SDK_HEAP_MEMORY_BYTES m
      in (n, m\<lparr>mChannels := (mChannels m)[n := setTopic topic async (mChannels m ! n)]\<rparr>))"

definition open_if_named :: "string \<Rightarrow> connectivity_module \<Rightarrow> nat option \<times> connectivity_module" where
  "open_if_named topic m = (if topic = [] then (None, m) else case open_channel False topic False m of (n, m) \<Rightarrow> (Some n, m))"

definition start_channels :: "engine_config \<Rightarrow> program \<Rightarrow> program" where
  "start_channels c p =
     (let (canData, m) = open_channel True (ecCanDataTopic c) False new_module;
          (schemeList, m) = open_channel False (ecCollectionSchemeListTopic c) True m;
          (manifest, m) = open_channel False (ecDecoderManifestTopic c) True m;
          (metrics, m) = open_if_named (ecMetricsUploadTopic c) m;
          (logs, m) = open_if_named (ecLoggingUploadTopic c) m;
          (checkin, m) = open_channel False (ecCheckinTopic c) False m
      in p\<lparr>pgModule := Some m, pgCanData := Some canData, pgSchemeList := Some schemeList, pgManifest := Some manifest,
           pgMetrics := (if metrics = None then pgMetrics p else metrics), pgLogs := (if logs = None then pgLogs p else logs),
           pgCheckin := Some checkin,
           pgSender := Some (new_sender canData (ecUseJsonBasedCollection c) (ecMaxPublishMessageCount c) (interface_ids c) (ecPersistencyPath c))\<rparr>)"

text \<open>The result of the call is not looked at.\<close>

definition start_connection :: "startup_env \<Rightarrow> engine_config \<Rightarrow> program \<Rightarrow> program" where
  "start_connection env c p =
     (case pgModule p of
        None \<Rightarrow> p
      | Some m \<Rightarrow>
          (case module_connect (seConnect env) (seRetryCreated env) (seAnswers env) (seAcks env)
                  (getFileContents (seFiles env (ecPrivateKeyFilename c))) (getFileContents (seFiles env (ecCertificateFilename c)))
                  (ecEndpointUrl c) (ecClientId c) True m of
             Inl _ \<Rightarrow> p
           | Inr (_, m) \<Rightarrow> p\<lparr>pgModule := Some m\<rparr>))"

text \<open>A profiler without a channel for metrics does not start, which is only logged. The level stays off when it is not known.\<close>

definition profiler_senders :: "program \<Rightarrow> nat profiler_env \<Rightarrow> nat profiler_env" where
  "profiler_senders p e = e\<lparr>peMetricsSender := (if pgMetrics p = None then None else peMetricsSender e),
                            peLogSender := (if pgLogs p = None then None else peLogSender e)\<rparr>"

definition start_profiler :: "startup_env \<Rightarrow> engine_config \<Rightarrow> program \<Rightarrow> program" where
  "start_profiler env c p =
     (case ecRemoteProfiler c of
        None \<Rightarrow> p
      | Some pc \<Rightarrow>
          let threshold = (case stringToLogLevel (pcLoggingUploadLevelThreshold pc) of None \<Rightarrow> LogLevel.Off | Some l \<Rightarrow> l);
              e = profiler_senders p (seProfilerEnv env);
              q = new_profiler e (seKernel env) (case pgMetrics p of None \<Rightarrow> 0 | Some n \<Rightarrow> n) (case pgLogs p of None \<Rightarrow> 0 | Some n \<Rightarrow> n)
                    (pcMetricsUploadIntervalMs pc) (pcLoggingUploadMaxWaitBeforeUploadMs pc) threshold (pcProfilerPrefix pc)
          in p\<lparr>pgProfiler := Some (snd (profiler_start e (seProfilerCreated env) q)), pgLogForwarding := True\<rparr>)"

section \<open>Inspection and collection schemes\<close>

text \<open>All queues were created.\<close>

definition start_inspection :: "startup_env \<Rightarrow> engine_config \<Rightarrow> program \<Rightarrow> bool \<times> program" where
  "start_inspection env c p =
     (let w = worker_init True True True True (ecInspectionThreadIdleTimeMs c) (ecDataReductionProbabilityDisabled c) new_worker;
          p = p\<lparr>pgWorker := Some w, pgWorkerThread := new_thread, pgReadyListeners := no_listeners\<rparr> in
      if \<not> can_start w then (False, p)
      else let t = snd (thread_create (seWorkerCreated env) (pgWorkerThread p)); p = p\<lparr>pgWorkerThread := t\<rparr> in
        if \<not> thread_alive t then (False, p)
        else let (ok, l) = add_listener EnginePart (pgReadyListeners p) in (ok, p\<lparr>pgReadyListeners := l\<rparr>))"

definition load_scheme :: "startup_env \<Rightarrow> engine_config \<Rightarrow> program \<Rightarrow> bool \<times> program" where
  "load_scheme env c p =
     (if ecUseJsonBasedCollectionScheme c
      then let (ok, s) = local_parse (seSorter env) (seLocalFile env (ecJsonBasedCollectionSchemeFilename c)) new_local_scheme in
        if \<not> ok \<or> \<not> local_isValid s then (False, p) else (True, p\<lparr>pgLocalScheme := Some s\<rparr>)
      else (True, p\<lparr>pgSchema := Some no_listeners,
                    pgSchemeReceivers := snd (add_listener CollectionSchemeListCb (pgSchemeReceivers p)),
                    pgManifestReceivers := snd (add_listener DecoderManifestCb (pgManifestReceivers p))\<rparr>))"

text \<open>The manager is created for no manifest; initialising it always succeeds.\<close>

definition start_manager :: "engine_config \<Rightarrow> program \<Rightarrow> program" where
  "start_manager c p =
     (let m = new_manager [] False (pgPersistency p);
          m = m\<lparr>mgrTimeline := set_checkin_interval (ecCheckinIntervalMs c) (mgrTimeline m)\<rparr>
      in p\<lparr>pgManager := Some m, pgManagerThread := new_thread, pgManagerIDs := interface_ids c,
           pgMatrixListeners := no_listeners, pgDictionaryListeners := no_listeners\<rparr>)"

text \<open>The pointer to the receiver of documents is used whether or not one was created.\<close>

definition subscribe_manager :: "program \<Rightarrow> (bool \<times> program) ub_result" where
  "subscribe_manager p =
     (case pgSchema p of
        None \<Rightarrow> Inl NullPointer
      | Some l \<Rightarrow> let (ok, l) = add_listener ManagerPart l in Inr (ok, p\<lparr>pgSchema := Some l\<rparr>))"

text \<open>Then it can send checkins.\<close>

definition subscribe_inspection :: "program \<Rightarrow> bool \<times> program" where
  "subscribe_inspection p =
     (let (ok, l) = add_listener InspectionPart (pgMatrixListeners p); p = p\<lparr>pgMatrixListeners := l\<rparr> in
      if \<not> ok then (False, p)
      else (True, p\<lparr>pgManager := map_option (\<lambda>m. m\<lparr>mgrTimeline := (mgrTimeline m)\<lparr>mSchemaListener := pgSchema p \<noteq> None\<rparr>\<rparr>) (pgManager p)\<rparr>))"

section \<open>Buses\<close>

definition start_binder :: "startup_env \<Rightarrow> program \<Rightarrow> bool \<times> program" where
  "start_binder env p = (let (ok, b) = binder_connect (seBinder env) new_binder in (ok, p\<lparr>pgBinder := Some b\<rparr>))"

definition generateSourceID :: "nat \<Rightarrow> nat" where
  "generateSourceID n = u32 (n + 1)"

definition timestamp_type :: "network_interface \<Rightarrow> CAN_TIMESTAMP_TYPE" where
  "timestamp_type i =
     (case canTimestampType i of
        None \<Rightarrow> KERNEL_SOFTWARE_TIMESTAMP
      | Some s \<Rightarrow> (case stringToCanTimestampType s of None \<Rightarrow> KERNEL_SOFTWARE_TIMESTAMP | Some t \<Rightarrow> t))"

definition source_config :: "engine_config \<Rightarrow> network_interface \<Rightarrow> VehicleDataSourceConfig" where
  "source_config c i = \<lparr>maxNumberOfVehicleDataMessages = ecSocketCANBufferSize c,
     transportProperties = [(''interfaceName'', canInterfaceName i), (''threadIdleTimeMs'', ecSocketCANThreadIdleTimeMs c)]\<rparr>"

text \<open>The source is created, then the consumer; the source is handed to the binder, which connects it, and the two are bound.\<close>

definition start_can :: "startup_env \<Rightarrow> engine_config \<Rightarrow> network_interface \<Rightarrow> program \<Rightarrow> bool \<times> program" where
  "start_can env c i p =
     (case pgBinder p of
        None \<Rightarrow> (False, p)
      | Some b \<Rightarrow>
          let p = p\<lparr>pgSourceIDs := generateSourceID (pgSourceIDs p)\<rparr>;
              (ok, s) = source_init [source_config c i] (new_source (pgSourceIDs p) (timestamp_type i)) in
          if \<not> ok then (False, p)
          else let p = p\<lparr>pgConsumerIDs := generateConsumerID (pgConsumerIDs p)\<rparr>;
                   (ok, con) = consumer_init (pgConsumerIDs p) (getChannelNumericID (interface_ids c) (niInterfaceId i)) True
                                 (ecCanDecoderThreadIdleTimeMs c) new_consumer in
            if \<not> ok then (False, p)
            else let con = setCANBufferPtr True con;
                     (ok, b) = addVehicleDataSource (seBinder env) (Some s) b; p = p\<lparr>pgBinder := Some b\<rparr> in
              if \<not> ok then (False, p)
              else let (ok, b) = bindConsumerToVehicleDataSource (seBinder env) (Some con) (srcID s) b
                in (ok, p\<lparr>pgBinder := Some b\<rparr>))"

text \<open>The options of the two connections of the diagnostics module.\<close>

definition ecu_link :: "network_interface \<Rightarrow> ECUType \<Rightarrow> isotp_options" where
  "ecu_link i ecu =
     (case ecu_options (obdUseExtendedIds i) ecu of
        (extended, source, destination) \<Rightarrow>
          default_options\<lparr>mSocketCanIFName := obdInterfaceName i, mSourceCANId := source, mDestinationCANId := destination, mIsExtendedId := extended\<rparr>)"

definition links_init :: "network_interface \<Rightarrow> obd_links" where
  "links_init i =
     \<lparr>engineLink = snd (link_init (ecu_link i ENGINE) new_link),
      transmissionLink = (if obdHasTransmissionEcu i then snd (link_init (ecu_link i TRANSMISSION) new_link) else new_link),
      obdThread = new_thread\<rparr>"

text \<open>A module that has nothing to request is not kept.\<close>

definition start_obd :: "startup_env \<Rightarrow> network_interface \<Rightarrow> program \<Rightarrow> bool \<times> program" where
  "start_obd env i p =
     (let (ok, o') = obd_init True True (obdPidRequestIntervalSeconds i) (obdDtcRequestIntervalSeconds i) (obdHasTransmissionEcu i) new_obd_module in
      if \<not> ok then (True, p)
      else let (ok, x, t) = links_connect (seObdEngine env) (seObdTransmission env) (seObdCreated env) (mHasTransmission o') (links_init i) (pgDescriptors p);
               p = p\<lparr>pgObd := Some (obd_start o'), pgLinks := x, pgDescriptors := t\<rparr> in
        if \<not> ok then (False, p)
        else let (ok, l) = add_listener ObdPart (pgDictionaryListeners p); p = p\<lparr>pgDictionaryListeners := l\<rparr> in
          if \<not> ok then (False, p)
          else let (ok, l) = add_listener ObdPart (pgMatrixListeners p) in (ok, p\<lparr>pgMatrixListeners := l\<rparr>))"

text \<open>One module for diagnostics at most; interfaces of other types are only logged.\<close>

fun start_interfaces :: "startup_env \<Rightarrow> engine_config \<Rightarrow> bool \<Rightarrow> network_interface list \<Rightarrow> program \<Rightarrow> bool \<times> program" where
  "start_interfaces env c obdInit [] p = (True, p)"
| "start_interfaces env c obdInit (i # is) p =
     (if niType i = CAN_INTERFACE_TYPE
      then case start_can env c i p of (ok, p) \<Rightarrow> if ok then start_interfaces env c obdInit is p else (False, p)
      else if niType i = OBD_INTERFACE_TYPE \<and> \<not> obdInit
      then case start_obd env i p of (ok, p) \<Rightarrow> if ok then start_interfaces env c True is p else (False, p)
      else start_interfaces env c obdInit is p)"

definition subscribe_binder :: "program \<Rightarrow> bool \<times> program" where
  "subscribe_binder p =
     (let (ok, l) = add_listener BinderPart (pgDictionaryListeners p) in (ok, p\<lparr>pgDictionaryListeners := l\<rparr>))"

definition connect_manager :: "startup_env \<Rightarrow> program \<Rightarrow> bool \<times> program" where
  "connect_manager env p =
     (let t = snd (thread_create (seManagerCreated env) (pgManagerThread p)) in (thValid t, p\<lparr>pgManagerThread := t\<rparr>))"

section \<open>Connecting\<close>

definition cloud_parts :: "startup_env \<Rightarrow> engine_config \<Rightarrow> program \<Rightarrow> program" where
  "cloud_parts env c p = start_profiler env c (start_connection env c (start_channels c (start_persistency env c p)))"

definition bus_parts :: "startup_env \<Rightarrow> engine_config \<Rightarrow> program \<Rightarrow> (bool \<times> program) ub_result" where
  "bus_parts env c p =
     and_then (Inr (start_binder env p)) (\<lambda>p.
     and_then (Inr (start_interfaces env c False (ecNetworkInterfaces c) p)) (\<lambda>p.
     and_then (Inr (subscribe_binder p)) (\<lambda>p. Inr (connect_manager env p))))"

definition engine_connect :: "startup_env \<Rightarrow> engine_config \<Rightarrow> program \<Rightarrow> (bool \<times> program) ub_result" where
  "engine_connect env c p =
     and_then (Inr (start_inspection env c (cloud_parts env c p))) (\<lambda>p.
     and_then (Inr (load_scheme env c p)) (\<lambda>p.
     and_then (subscribe_manager (start_manager c p)) (\<lambda>p.
     and_then (Inr (subscribe_inspection p)) (bus_parts env c))))"

section \<open>Disconnecting\<close>

record shutdown_env =
  sdEngineCloses :: bool
  sdTransmissionCloses :: bool
  sdObdJoined :: bool
  sdWorkerJoined :: bool
  sdProfilerJoined :: bool
  sdManagerJoined :: bool
  sdBinder :: binder_env

definition stop_obd :: "shutdown_env \<Rightarrow> program \<Rightarrow> bool \<times> program" where
  "stop_obd env p =
     (case pgObd p of
        None \<Rightarrow> (True, p)
      | Some o' \<Rightarrow>
          (case links_disconnect (sdEngineCloses env) (sdTransmissionCloses env) (sdObdJoined env) (mHasTransmission o') (pgLinks p) (pgDescriptors p) of
             (ok, x, t) \<Rightarrow> (ok, p\<lparr>pgLinks := x, pgDescriptors := t\<rparr>)))"

definition stop_inspection :: "shutdown_env \<Rightarrow> program \<Rightarrow> (bool \<times> program) ub_result" where
  "stop_inspection env p =
     (if pgWorker p = None then Inl NullPointer
      else if \<not> thread_alive (pgWorkerThread p) then Inr (True, p)
      else let t = snd (thread_release (sdWorkerJoined env) (pgWorkerThread p)) in Inr (thDone t, p\<lparr>pgWorkerThread := t\<rparr>))"

definition stop_profiler :: "shutdown_env \<Rightarrow> program \<Rightarrow> bool \<times> program" where
  "stop_profiler env p =
     (let p = p\<lparr>pgLogForwarding := False\<rparr> in
      case pgProfiler p of
        None \<Rightarrow> (True, p)
      | Some q \<Rightarrow> (case profiler_stop (sdProfilerJoined env) q of (ok, q) \<Rightarrow> (ok, p\<lparr>pgProfiler := Some q\<rparr>)))"

definition stop_manager :: "shutdown_env \<Rightarrow> program \<Rightarrow> (bool \<times> program) ub_result" where
  "stop_manager env p =
     (if pgManager p = None then Inl NullPointer
      else Inr (True, p\<lparr>pgManagerThread := snd (thread_release (sdManagerJoined env) (pgManagerThread p))\<rparr>))"

definition stop_binder :: "shutdown_env \<Rightarrow> program \<Rightarrow> bool \<times> program" where
  "stop_binder env p =
     (case pgBinder p of
        None \<Rightarrow> (True, p)
      | Some b \<Rightarrow> (case binder_disconnect (sdBinder env) b of (ok, b) \<Rightarrow> (ok, p\<lparr>pgBinder := Some b\<rparr>)))"

definition engine_disconnect :: "shutdown_env \<Rightarrow> program \<Rightarrow> (bool \<times> program) ub_result" where
  "engine_disconnect env p =
     and_then (Inr (stop_obd env p)) (\<lambda>p.
     and_then (stop_inspection env p) (\<lambda>p.
     and_then (Inr (stop_profiler env p)) (\<lambda>p.
     and_then (stop_manager env p) (\<lambda>p. Inr (stop_binder env p)))))"

section \<open>The thread and the process\<close>

definition engine_start :: "bool \<Rightarrow> program \<Rightarrow> bool \<times> program" where
  "engine_start created p = (let t = snd (thread_create created (pgThread p)) in (thread_alive t, p\<lparr>pgThread := t\<rparr>))"

definition engine_stop :: "bool \<Rightarrow> program \<Rightarrow> bool \<times> program" where
  "engine_stop joined p = (let t = snd (thread_release joined (pgThread p)) in (thDone t, p\<lparr>pgThread := t\<rparr>))"

definition engine_isAlive :: "program \<Rightarrow> bool" where
  "engine_isAlive p \<longleftrightarrow> thread_alive (pgThread p)"

definition EXIT_SUCCESS :: nat where "EXIT_SUCCESS = 0"
definition EXIT_FAILURE :: nat where "EXIT_FAILURE = 1"

text \<open>
  The exit code, from the number of arguments and the configuration that was read, if any. After the
  start it waits for the signal, which is taken to come.
\<close>

definition main :: "startup_env \<Rightarrow> shutdown_env \<Rightarrow> bool \<Rightarrow> bool \<Rightarrow> nat \<Rightarrow> engine_config option \<Rightarrow> nat ub_result" where
  "main env senv created joined argc config =
     (if argc \<noteq> 2 then Inr EXIT_FAILURE
      else case config of
        None \<Rightarrow> Inr EXIT_FAILURE
      | Some c \<Rightarrow>
          ub_bind (and_then (engine_connect env c new_program) (\<lambda>p. Inr (engine_start created p))) (\<lambda>(ok, p).
            if \<not> ok then Inr EXIT_FAILURE
            else ub_bind (and_then (Inr (engine_stop joined p)) (engine_disconnect senv)) (\<lambda>(ok, p).
              Inr (if ok then EXIT_SUCCESS else EXIT_FAILURE))))"

end
