(* ===== verification/StartupBehaviour.thy ===== *)
theory StartupBehaviour
  imports EngineStartup BinderBehaviour
begin

text \<open>
  What a start and a stop of the program leave behind. The lemmas follow the buses through the start,
  show what the connection to the cloud is given, and what a shutdown stops.
\<close>

lemma and_then_Inr [simp]: "and_then (Inr (ok, s)) f = (if ok then f s else Inr (False, s))"
  by (simp add: and_then_def)

lemma and_then_True: "and_then r f = Inr (True, q) \<Longrightarrow> \<exists>s. r = Inr (True, s) \<and> f s = Inr (True, q)"
  by (auto simp: and_then_def ub_bind_def split: sum.splits if_splits)

lemma and_then_step: "and_then (Inr r) f = Inr (True, q) \<Longrightarrow> \<exists>s. r = (True, s) \<and> f s = Inr (True, q)"
  by (cases r) (auto split: if_splits)

section \<open>Numbers of the interfaces\<close>

lemma interface_ids_fold: "interface_ids c = fold translator_add (map niInterfaceId (can_interfaces c)) new_translator"
proof -
  have "fold (\<lambda>i x. if niType i = CAN_INTERFACE_TYPE then translator_add (niInterfaceId i) x else x) is x =
      fold translator_add (map niInterfaceId (filter (\<lambda>i. niType i = CAN_INTERFACE_TYPE) is)) x" for "is" x
    by (induction "is" arbitrary: x) auto
  then show ?thesis by (simp add: interface_ids_def can_interfaces_def)
qed

lemma channel_translates_back:
  assumes "length (can_interfaces c) < 2 ^ 32 - 1" and "i \<in> set (can_interfaces c)"
  shows "getInterfaceID (interface_ids c) (getChannelNumericID (interface_ids c) (niInterfaceId i)) = niInterfaceId i"
proof -
  let ?ids = "map niInterfaceId (can_interfaces c)"
  have m: "mLookup (interface_ids c) = zip [0..<length ?ids] ?ids"
    using assms(1) translator_add_all [of ?ids new_translator] by (simp add: interface_ids_fold new_translator_def)
  have ok: "translator_ok (interface_ids c)" using assms(1) translator_ok_add_all [of ?ids] by (simp add: interface_ids_fold)
  obtain k where k: "k < length ?ids" "?ids ! k = niInterfaceId i" using assms(2) by (metis in_set_conv_nth length_map nth_map)
  then have "(k, niInterfaceId i) \<in> set (mLookup (interface_ids c))" by (force simp: m in_set_zip)
  then obtain l where l: "find (\<lambda>l. snd l = niInterfaceId i) (mLookup (interface_ids c)) = Some l"
    by (cases "find (\<lambda>l. snd l = niInterfaceId i) (mLookup (interface_ids c))") (auto simp: find_None_iff)
  then have "fst l < length ?ids" using find_member [OF l] by (auto simp: m in_set_zip)
  then have "getChannelNumericID (interface_ids c) (niInterfaceId i) \<noteq> INVALID_CAN_SOURCE_NUMERIC_ID"
    using l assms(1) by (simp add: getChannelNumericID_def INVALID_CAN_SOURCE_NUMERIC_ID_def)
  then show ?thesis using interface_of_channel [OF ok refl] by blast
qed

section \<open>One bus\<close>

lemma three_steps:
  assumes "(if \<not> a then (False, x) else if \<not> b then (False, y) else (d, z)) = (True, q)"
  shows a b d "q = z"
  using assms by (auto split: if_splits)

text \<open>A bus in service: its source is connected and listened to, its consumer is bound to it with both queues.\<close>

definition bus_served :: "engine_config \<Rightarrow> source_binder \<Rightarrow> nat \<Rightarrow> network_interface \<Rightarrow> bool" where
  "bus_served c b n i \<longleftrightarrow>
     (\<exists>s con. map_of (mIdsToDataSources b) n = Some s \<and> srcIfName s = canInterfaceName i \<and> srcTimestampType s = timestamp_type i \<and>
        thread_alive (srcThread s) \<and> openSockets s = 1 \<and> n \<in> listenedSources b \<and>
        map_of (mDataSourcesToConsumers b) n = Some con \<and> conInput con = Some n \<and> conProtocol con = RAW_SOCKET \<and>
        conSignalBuffer con \<and> conCANBuffer con \<and> consumer_isAlive con \<and>
        conChannel con = getChannelNumericID (interface_ids c) (niInterfaceId i))"

lemma source_init_result:
  "source_init [source_config c i] (new_source n typ) = (ok, s) \<Longrightarrow> ok \<Longrightarrow>
     srcIfName s = canInterfaceName i \<and> srcBuffer s \<noteq> None \<and> srcID s = n \<and> srcTimestampType s = typ \<and> openSockets s = 0"
  by (auto simp: source_init_def source_config_def new_source_def Let_def split: option.splits)

lemma consumer_init_result:
  "\<exists>con. consumer_init k ch True idleMs new_consumer = (True, con) \<and> conChannel con = ch \<and> conSignalBuffer con"
  by (auto simp: consumer_init_def Let_def)

lemma addSource_result:
  assumes "addVehicleDataSource env (Some s) b = (True, b')"
  obtains s' where "map_of (mIdsToDataSources b) (srcID s) = None" "srcID s \<noteq> 0"
    "b' = b\<lparr>mIdsToDataSources := omap_put (srcID s) s' (mIdsToDataSources b), listenedSources := insert (srcID s) (listenedSources b)\<rparr>"
    "thread_alive (srcThread s')" "srcIfName s' = srcIfName s" "srcTimestampType s' = srcTimestampType s"
    "srcBuffer s' = srcBuffer s" "srcID s' = srcID s" "openSockets s' = openSockets s + 1"
proof -
  let ?i = "srcID s"
  obtain ok told s' where c: "source_connect (socketEnv env ?i) s = (ok, told, s')" by (metis prod_cases3)
  have a: "?i \<noteq> 0" "map_of (mIdsToDataSources b) ?i = None" "ok" "?i \<notin> listenedSources b"
    "b' = b\<lparr>mIdsToDataSources := omap_put ?i s' (mIdsToDataSources b), listenedSources := insert ?i (listenedSources b)\<rparr>"
    using assms c
    by (auto simp: addVehicleDataSource_def connect_source_def INVALID_DATA_SOURCE_ID_def onVehicleDataSourceConnected_def put_state_def
        Let_def split: if_splits)
  have "thread_alive (srcThread s') \<and> srcIfName s' = srcIfName s \<and> srcTimestampType s' = srcTimestampType s \<and> srcBuffer s' = srcBuffer s \<and>
      srcID s' = srcID s \<and> openSockets s' = openSockets s + 1"
    using c a(3) by (auto simp: source_connect_def source_start_def Let_def split: if_splits)
  then show thesis using that a by blast
qed

lemma bindConsumer_result:
  assumes "bindConsumerToVehicleDataSource env (Some con) n b = (True, b')"
  obtains s con' where "map_of (mIdsToDataSources b) n = Some s"
    "b' = b\<lparr>mDataSourcesToConsumers := omap_put n con' (mDataSourcesToConsumers b)\<rparr>" "consumer_isAlive con'"
    "conInput con' = (if srcBuffer s = None then None else Some n)" "conProtocol con' = RAW_SOCKET"
    "conSignalBuffer con' = conSignalBuffer con" "conCANBuffer con' = conCANBuffer con" "conChannel con' = conChannel con"
proof -
  obtain s where s: "map_of (mIdsToDataSources b) n = Some s" "n \<noteq> 0" "map_of (mDataSourcesToConsumers b) n = None"
    using assms by (auto simp: bindConsumerToVehicleDataSource_def INVALID_DATA_SOURCE_ID_def split: if_splits option.splits)
  let ?c = "setInputBuffer (if srcBuffer s = None then None else Some n) (setChannelMetadata RAW_SOCKET con)"
  obtain ok con' where c: "consumer_connect (consumerCreated env n) ?c = (ok, con')" by (cases "consumer_connect (consumerCreated env n) ?c")
  have ok: "ok" "b' = b\<lparr>mDataSourcesToConsumers := omap_put n con' (mDataSourcesToConsumers b)\<rparr>"
    using assms c s by (auto simp: bindConsumerToVehicleDataSource_def INVALID_DATA_SOURCE_ID_def Let_def)
  have "consumer_isAlive con' \<and> conInput con' = (if srcBuffer s = None then None else Some n) \<and> conProtocol con' = RAW_SOCKET \<and>
      conSignalBuffer con' = conSignalBuffer con \<and> conCANBuffer con' = conCANBuffer con \<and> conChannel con' = conChannel con"
    using c ok(1) by (auto simp: consumer_connect_def consumer_start_def consumer_isAlive_def setInputBuffer_def setChannelMetadata_def Let_def split: if_splits)
  then show thesis using that s ok(2) by blast
qed

text \<open>Starting a bus adds one source and one consumer with the next number, and nothing else changes.\<close>

lemma start_can_result:
  assumes "start_can env c i p = (True, p')" and "pgBinder p = Some b"
  obtains b' where "p' = p\<lparr>pgSourceIDs := generateSourceID (pgSourceIDs p), pgConsumerIDs := generateConsumerID (pgConsumerIDs p), pgBinder := Some b'\<rparr>"
    "bus_served c b' (generateSourceID (pgSourceIDs p)) i" "bndThread b' = bndThread b"
    "map_of (mIdsToDataSources b) (generateSourceID (pgSourceIDs p)) = None"
    "\<And>k. k \<noteq> generateSourceID (pgSourceIDs p) \<Longrightarrow> map_of (mIdsToDataSources b') k = map_of (mIdsToDataSources b) k \<and>
       map_of (mDataSourcesToConsumers b') k = map_of (mDataSourcesToConsumers b) k \<and> (k \<in> listenedSources b \<longrightarrow> k \<in> listenedSources b')"
proof -
  let ?n = "generateSourceID (pgSourceIDs p)"
  obtain ok s where s: "source_init [source_config c i] (new_source ?n (timestamp_type i)) = (ok, s)"
    by (cases "source_init [source_config c i] (new_source ?n (timestamp_type i))")
  let ?ch = "getChannelNumericID (interface_ids c) (niInterfaceId i)"
  obtain con where con: "consumer_init (generateConsumerID (pgConsumerIDs p)) ?ch True (ecCanDecoderThreadIdleTimeMs c) new_consumer = (True, con)"
    and con': "conChannel con = ?ch" "conSignalBuffer con"
    using consumer_init_result by blast
  obtain ok3 b1 where b1: "addVehicleDataSource (seBinder env) (Some s) b = (ok3, b1)" by (cases "addVehicleDataSource (seBinder env) (Some s) b")
  obtain ok4 b' where b': "bindConsumerToVehicleDataSource (seBinder env) (Some (setCANBufferPtr True con)) (srcID s) b1 = (ok4, b')"
    by (cases "bindConsumerToVehicleDataSource (seBinder env) (Some (setCANBufferPtr True con)) (srcID s) b1")
  let ?q = "p\<lparr>pgSourceIDs := ?n, pgConsumerIDs := generateConsumerID (pgConsumerIDs p), pgBinder := Some b'\<rparr>"
  have "start_can env c i p =
      (if \<not> ok then (False, p\<lparr>pgSourceIDs := ?n\<rparr>)
       else if \<not> ok3 then (False, p\<lparr>pgSourceIDs := ?n, pgConsumerIDs := generateConsumerID (pgConsumerIDs p), pgBinder := Some b1\<rparr>)
       else (ok4, ?q))"
    unfolding start_can_def assms(2) option.case Let_def
    by (simp add: s) (simp add: con b1 b')
  note ok = three_steps [OF trans [OF this [symmetric] assms(1)]]
  note s' = source_init_result [OF s ok(1)]
  have sid: "srcID s = ?n" using s' by simp
  have "addVehicleDataSource (seBinder env) (Some s) b = (True, b1)" using b1 ok(2) by simp
  then obtain s2 where s2: "map_of (mIdsToDataSources b) (srcID s) = None"
    "b1 = b\<lparr>mIdsToDataSources := omap_put (srcID s) s2 (mIdsToDataSources b), listenedSources := insert (srcID s) (listenedSources b)\<rparr>"
    "thread_alive (srcThread s2)" "srcIfName s2 = srcIfName s" "srcTimestampType s2 = srcTimestampType s"
    "srcBuffer s2 = srcBuffer s" "openSockets s2 = openSockets s + 1" by (rule addSource_result)
  have "bindConsumerToVehicleDataSource (seBinder env) (Some (setCANBufferPtr True con)) (srcID s) b1 = (True, b')" using b' ok(3) by simp
  then obtain s3 con2 where c2: "map_of (mIdsToDataSources b1) (srcID s) = Some s3"
    "b' = b1\<lparr>mDataSourcesToConsumers := omap_put (srcID s) con2 (mDataSourcesToConsumers b1)\<rparr>" "consumer_isAlive con2"
    "conInput con2 = (if srcBuffer s3 = None then None else Some (srcID s))" "conProtocol con2 = RAW_SOCKET"
    "conSignalBuffer con2 = conSignalBuffer (setCANBufferPtr True con)" "conCANBuffer con2 = conCANBuffer (setCANBufferPtr True con)"
    "conChannel con2 = conChannel (setCANBufferPtr True con)" by (rule bindConsumer_result)
  note s2 = s2 [unfolded sid]
  note c2 = c2 [unfolded sid]
  have s3: "s3 = s2" using c2(1) s2(2) by simp
  show thesis
  proof (rule that)
    show "p' = p\<lparr>pgSourceIDs := ?n, pgConsumerIDs := generateConsumerID (pgConsumerIDs p), pgBinder := Some b'\<rparr>" by (rule ok(4))
    show "bus_served c b' ?n i" using s2 s' c2 con' s3 by (simp add: bus_served_def setCANBufferPtr_def)
  qed (use s2 c2 in simp_all)
qed

section \<open>All buses\<close>

text \<open>What the other steps of the loop, and the buses among each other, leave alone.\<close>

definition same_bus :: "source_binder \<Rightarrow> source_binder \<Rightarrow> nat \<Rightarrow> bool" where
  "same_bus b b' k \<longleftrightarrow> map_of (mIdsToDataSources b') k = map_of (mIdsToDataSources b) k \<and>
     map_of (mDataSourcesToConsumers b') k = map_of (mDataSourcesToConsumers b) k \<and> (k \<in> listenedSources b \<longrightarrow> k \<in> listenedSources b')"

lemma same_bus_served: "same_bus b b' k \<Longrightarrow> bus_served c b k i \<Longrightarrow> bus_served c b' k i"
  by (auto simp: same_bus_def bus_served_def)

lemma same_bus_refl [simp]: "same_bus b b k" by (simp add: same_bus_def)
lemma same_bus_trans: "same_bus a b k \<Longrightarrow> same_bus b d k \<Longrightarrow> same_bus a d k" by (auto simp: same_bus_def)

text \<open>Listeners that were there stay.\<close>

definition told_of :: "'l listeners \<Rightarrow> 'l set" where
  "told_of l = set (mContainer l)"

definition quiet :: "program \<Rightarrow> bool" where
  "quiet p \<longleftrightarrow> at_rest (pgMatrixListeners p) \<and> at_rest (pgDictionaryListeners p)"

definition same_parts :: "program \<Rightarrow> program \<Rightarrow> bool" where
  "same_parts p p' \<longleftrightarrow> told_of (pgMatrixListeners p) \<subseteq> told_of (pgMatrixListeners p') \<and> quiet p' \<and>
     pgModule p' = pgModule p \<and> pgSchema p' = pgSchema p \<and> pgReadyListeners p' = pgReadyListeners p \<and> pgWorkerThread p' = pgWorkerThread p \<and>
     pgManager p' = pgManager p \<and> pgSchemeReceivers p' = pgSchemeReceivers p \<and> pgManifestReceivers p' = pgManifestReceivers p"

lemma same_parts_trans: "same_parts p q \<Longrightarrow> same_parts q r \<Longrightarrow> same_parts p r"
  by (auto simp: same_parts_def)

lemma add_listener_result:
  "at_rest l \<Longrightarrow> \<exists>l'. add_listener x l = (x \<notin> told_of l, l') \<and> at_rest l' \<and> told_of l' = insert x (told_of l)"
  using threadListeners.subscribing [of l x] by (auto simp: add_listener_def told_of_def)

lemma start_obd_result:
  assumes "start_obd env i p = (ok, p')" and "quiet p"
  shows "same_parts p p' \<and> pgBinder p' = pgBinder p \<and> pgSourceIDs p' = pgSourceIDs p"
proof -
  obtain ok1 o' where o': "obd_init True True (obdPidRequestIntervalSeconds i) (obdDtcRequestIntervalSeconds i) (obdHasTransmissionEcu i) new_obd_module = (ok1, o')"
    by (cases "obd_init True True (obdPidRequestIntervalSeconds i) (obdDtcRequestIntervalSeconds i) (obdHasTransmissionEcu i) new_obd_module")
  obtain ok2 x t where x: "links_connect (seObdEngine env) (seObdTransmission env) (seObdCreated env) (mHasTransmission o') (links_init i) (pgDescriptors p) = (ok2, x, t)"
    by (metis prod_cases3)
  obtain l where l: "add_listener ObdPart (pgDictionaryListeners p) = (ObdPart \<notin> told_of (pgDictionaryListeners p), l)" "at_rest l"
    using add_listener_result [of "pgDictionaryListeners p" ObdPart] assms(2) by (auto simp: quiet_def)
  obtain l2 where l2: "add_listener ObdPart (pgMatrixListeners p) = (ObdPart \<notin> told_of (pgMatrixListeners p), l2)" "at_rest l2"
      "told_of l2 = insert ObdPart (told_of (pgMatrixListeners p))"
    using add_listener_result [of "pgMatrixListeners p" ObdPart] assms(2) by (auto simp: quiet_def)
  show ?thesis using assms o' x l l2 by (auto simp: start_obd_def same_parts_def quiet_def Let_def split: if_splits)
qed

lemma generate_small: "n + 1 < 2 ^ 32 \<Longrightarrow> generateSourceID n = n + 1"
  by (simp add: generateSourceID_def u32_id)

lemma interfaces_result:
  assumes "start_interfaces env c obdInit is p = (True, p')" and "pgBinder p = Some b" and "quiet p"
    and "pgSourceIDs p + length (filter (\<lambda>i. niType i = CAN_INTERFACE_TYPE) is) < 2 ^ 32"
  shows "\<exists>b'. pgBinder p' = Some b' \<and> bndThread b' = bndThread b \<and> same_parts p p' \<and> (\<forall>k \<le> pgSourceIDs p. same_bus b b' k) \<and>
    (\<forall>j < length (filter (\<lambda>i. niType i = CAN_INTERFACE_TYPE) is).
       bus_served c b' (pgSourceIDs p + j + 1) (filter (\<lambda>i. niType i = CAN_INTERFACE_TYPE) is ! j))"
  using assms
proof (induction "is" arbitrary: p b obdInit)
  case Nil
  then show ?case by (auto simp: same_parts_def)
next
  case (Cons i "is")
  let ?cans = "filter (\<lambda>i. niType i = CAN_INTERFACE_TYPE) is"
  consider (can) "niType i = CAN_INTERFACE_TYPE" | (obd) "niType i = OBD_INTERFACE_TYPE" "\<not> obdInit" "niType i \<noteq> CAN_INTERFACE_TYPE"
    | (other) "niType i \<noteq> CAN_INTERFACE_TYPE" "niType i \<noteq> OBD_INTERFACE_TYPE \<or> obdInit" by blast
  then show ?case
  proof cases
    case can
    then obtain q where q: "start_can env c i p = (True, q)" "start_interfaces env c obdInit is q = (True, p')"
      using Cons.prems(1) by (auto split: prod.splits if_splits)
    let ?n = "pgSourceIDs p + 1"
    have n: "generateSourceID (pgSourceIDs p) = ?n" using Cons.prems(4) can by (intro generate_small) simp
    obtain b1 where b1: "q = p\<lparr>pgSourceIDs := ?n, pgConsumerIDs := generateConsumerID (pgConsumerIDs p), pgBinder := Some b1\<rparr>"
      "bus_served c b1 ?n i" "bndThread b1 = bndThread b" "\<And>k. k \<noteq> ?n \<Longrightarrow> same_bus b b1 k"
      using start_can_result [OF q(1) Cons.prems(2)] unfolding n same_bus_def by metis
    have prem: "pgBinder q = Some b1" "quiet q" "pgSourceIDs q = ?n" "?n + length ?cans < 2 ^ 32" "same_parts p q"
      using b1(1) Cons.prems(3,4) can by (simp_all add: quiet_def same_parts_def)
    obtain b' where b': "pgBinder p' = Some b'" "bndThread b' = bndThread b1" "same_parts q p'" "\<forall>k \<le> ?n. same_bus b1 b' k"
      "\<forall>j < length ?cans. bus_served c b' (?n + j + 1) (?cans ! j)"
      using Cons.IH [OF q(2) prem(1,2)] prem(3,4) by auto
    have "bus_served c b' (pgSourceIDs p + j + 1) ((i # ?cans) ! j)" if "j < length (i # ?cans)" for j
    proof (cases j)
      case 0
      then show ?thesis using same_bus_served [of b1 b' ?n c i] b'(4) b1(2) by simp
    next
      case (Suc j')
      then show ?thesis using b'(5) that by simp
    qed
    moreover have "same_bus b b' k" if "k \<le> pgSourceIDs p" for k
      using that b1(4) [of k] b'(4) same_bus_trans [of b b1 k b'] by simp
    moreover have "same_parts p p'" using prem(5) b'(3) by (rule same_parts_trans)
    ultimately show ?thesis using b'(1,2) b1(3) can by auto
  next
    case obd
    then obtain q where q: "start_obd env i p = (True, q)" "start_interfaces env c True is q = (True, p')"
      using Cons.prems(1) by (auto split: prod.splits if_splits)
    note o' = start_obd_result [OF q(1) Cons.prems(3)]
    have prem: "pgBinder q = Some b" "quiet q" using o' Cons.prems(2) by (simp_all add: same_parts_def)
    from Cons.IH [OF q(2) prem] Cons.prems(4) o' obd(3) same_parts_trans [of p q p'] show ?thesis by auto
  next
    case other
    then have "start_interfaces env c obdInit is p = (True, p')" using Cons.prems(1) by (auto split: if_splits)
    from Cons.IH [OF this Cons.prems(2,3)] Cons.prems(4) other(1) show ?thesis by simp
  qed
qed

section \<open>A start that succeeds\<close>

lemma inspection_result:
  assumes "start_inspection env c p = (True, q)"
  shows "told_of (pgReadyListeners q) = {EnginePart} \<and> thread_alive (pgWorkerThread q) \<and> pgWorker q \<noteq> None \<and>
    pgModule q = pgModule p \<and> pgSchema q = pgSchema p"
proof -
  obtain l where l: "add_listener EnginePart no_listeners = (True, l)" "told_of l = {EnginePart}"
    using add_listener_result [of no_listeners EnginePart] by (auto simp: at_rest_def no_listeners_def told_of_def)
  let ?w = "worker_init True True True True (ecInspectionThreadIdleTimeMs c) (ecDataReductionProbabilityDisabled c) new_worker"
  let ?t = "snd (thread_create (seWorkerCreated env) new_thread)"
  have "start_inspection env c p =
      (if \<not> can_start ?w then (False, p\<lparr>pgWorker := Some ?w, pgWorkerThread := new_thread, pgReadyListeners := no_listeners\<rparr>)
       else if \<not> thread_alive ?t then (False, p\<lparr>pgWorker := Some ?w, pgWorkerThread := ?t, pgReadyListeners := no_listeners\<rparr>)
       else (True, p\<lparr>pgWorker := Some ?w, pgWorkerThread := ?t, pgReadyListeners := l\<rparr>))"
    by (simp add: start_inspection_def Let_def l(1))
  from three_steps [OF trans [OF this [symmetric] assms]] l(2)
  have "thread_alive ?t" "q = p\<lparr>pgWorker := Some ?w, pgWorkerThread := ?t, pgReadyListeners := l\<rparr>" by simp_all
  then show ?thesis using l(2) by simp
qed

lemma subscribe_manager_result:
  assumes "subscribe_manager p = Inr (True, q)" and "pgSchema p = Some no_listeners"
  shows "\<exists>l. q = p\<lparr>pgSchema := Some l\<rparr> \<and> told_of l = {ManagerPart}"
proof -
  obtain l where "add_listener ManagerPart no_listeners = (True, l)" "told_of l = {ManagerPart}"
    using add_listener_result [of no_listeners ManagerPart] by (auto simp: at_rest_def no_listeners_def told_of_def)
  then show ?thesis using assms by (auto simp: subscribe_manager_def)
qed

lemma subscribe_inspection_result:
  assumes "subscribe_inspection p = (True, q)" and "quiet p"
  shows "quiet q \<and> InspectionPart \<in> told_of (pgMatrixListeners q) \<and> pgSchema q = pgSchema p \<and> pgReadyListeners q = pgReadyListeners p \<and>
    pgWorkerThread q = pgWorkerThread p \<and> pgModule q = pgModule p \<and> pgSourceIDs q = pgSourceIDs p"
proof -
  obtain l where "add_listener InspectionPart (pgMatrixListeners p) = (InspectionPart \<notin> told_of (pgMatrixListeners p), l)"
      "at_rest l" "told_of l = insert InspectionPart (told_of (pgMatrixListeners p))"
    using add_listener_result [of "pgMatrixListeners p" InspectionPart] assms(2) by (auto simp: quiet_def)
  then show ?thesis using assms by (auto simp: subscribe_inspection_def quiet_def Let_def split: if_splits)
qed

lemma cloud_parts_frame: "pgSourceIDs (cloud_parts env c p) = pgSourceIDs p" "pgSchema (cloud_parts env c p) = pgSchema p"
  by (simp_all add: cloud_parts_def start_profiler_def start_connection_def start_channels_def start_persistency_def Let_def
      split: option.split sum.split prod.split)

lemma inspection_frame: "pgSourceIDs (snd (start_inspection env c p)) = pgSourceIDs p"
  by (simp add: start_inspection_def Let_def split: prod.split)

lemma load_scheme_frame:
  "load_scheme env c p = (True, q) \<Longrightarrow> pgReadyListeners q = pgReadyListeners p \<and> pgWorkerThread q = pgWorkerThread p \<and>
     pgSourceIDs q = pgSourceIDs p \<and> pgModule q = pgModule p \<and> (pgSchema p = None \<longrightarrow> pgSchema q = (if ecUseJsonBasedCollectionScheme c then None else Some no_listeners))"
  by (auto simp: load_scheme_def split: if_splits prod.splits)

lemma start_manager_frame:
  "quiet (start_manager c p)" "pgSchema (start_manager c p) = pgSchema p" "pgReadyListeners (start_manager c p) = pgReadyListeners p"
  "pgWorkerThread (start_manager c p) = pgWorkerThread p" "pgSourceIDs (start_manager c p) = pgSourceIDs p"
  "pgModule (start_manager c p) = pgModule p"
  by (simp_all add: start_manager_def quiet_def at_rest_def no_listeners_def Let_def)

text \<open>The stages of a start that succeeded.\<close>

lemma connect_stages:
  assumes "engine_connect env c new_program = Inr (True, p)"
  shows "\<exists>q1 q2 q3 q4 q5 q6 q7. start_inspection env c (cloud_parts env c new_program) = (True, q1) \<and> load_scheme env c q1 = (True, q2) \<and>
    subscribe_manager (start_manager c q2) = Inr (True, q3) \<and> subscribe_inspection q3 = (True, q4) \<and> start_binder env q4 = (True, q5) \<and>
    start_interfaces env c False (ecNetworkInterfaces c) q5 = (True, q6) \<and> subscribe_binder q6 = (True, q7) \<and> connect_manager env q7 = (True, p)"
proof -
  obtain q1 where q1: "start_inspection env c (cloud_parts env c new_program) = (True, q1)"
    and r1: "and_then (Inr (load_scheme env c q1)) (\<lambda>p. and_then (subscribe_manager (start_manager c p)) (\<lambda>p.
       and_then (Inr (subscribe_inspection p)) (bus_parts env c))) = Inr (True, p)"
    using and_then_step [OF assms [unfolded engine_connect_def]] by blast
  obtain q2 where q2: "load_scheme env c q1 = (True, q2)"
    and r2: "and_then (subscribe_manager (start_manager c q2)) (\<lambda>p. and_then (Inr (subscribe_inspection p)) (bus_parts env c)) = Inr (True, p)"
    using and_then_step [OF r1] by blast
  obtain q3 where q3: "subscribe_manager (start_manager c q2) = Inr (True, q3)"
    and r3: "and_then (Inr (subscribe_inspection q3)) (bus_parts env c) = Inr (True, p)"
    using and_then_True [OF r2] by blast
  obtain q4 where q4: "subscribe_inspection q3 = (True, q4)" and r4: "bus_parts env c q4 = Inr (True, p)"
    using and_then_step [OF r3] by blast
  obtain q5 q6 q7 where q5: "start_binder env q4 = (True, q5)" "start_interfaces env c False (ecNetworkInterfaces c) q5 = (True, q6)"
      "subscribe_binder q6 = (True, q7)" "connect_manager env q7 = (True, p)"
    using r4 unfolding bus_parts_def by (auto dest!: and_then_step simp del: and_then_Inr)
  show ?thesis by (intro exI conjI) (rule q1, rule q2, rule q3, rule q4, rule q5(1), rule q5(2), rule q5(3), rule q5(4))
qed

lemma startup_result:
  assumes "engine_connect env c new_program = Inr (True, p)" and "length (can_interfaces c) < 2 ^ 32 - 1"
  shows "\<exists>b. pgBinder p = Some b \<and> thread_alive (bndThread b) \<and>
    (\<forall>j < length (can_interfaces c). bus_served c b (j + 1) (can_interfaces c ! j) \<and>
       getInterfaceID (interface_ids c) (getChannelNumericID (interface_ids c) (niInterfaceId (can_interfaces c ! j))) = niInterfaceId (can_interfaces c ! j)) \<and>
    told_of (pgReadyListeners p) = {EnginePart} \<and> (\<exists>l. pgSchema p = Some l \<and> told_of l = {ManagerPart}) \<and>
    InspectionPart \<in> told_of (pgMatrixListeners p) \<and> BinderPart \<in> told_of (pgDictionaryListeners p) \<and>
    thread_alive (pgWorkerThread p) \<and> thValid (pgManagerThread p) \<and> pgModule p = pgModule (cloud_parts env c new_program)"
proof -
  let ?q0 = "cloud_parts env c new_program"
  obtain q1 q2 q3 q4 q5 q6 q7 where q1: "start_inspection env c ?q0 = (True, q1)" and q2: "load_scheme env c q1 = (True, q2)"
    and q3: "subscribe_manager (start_manager c q2) = Inr (True, q3)" and q4: "subscribe_inspection q3 = (True, q4)"
    and q5: "start_binder env q4 = (True, q5)" "start_interfaces env c False (ecNetworkInterfaces c) q5 = (True, q6)"
      "subscribe_binder q6 = (True, q7)" "connect_manager env q7 = (True, p)"
    using connect_stages [OF assms(1)] by (elim exE conjE)
  note i = inspection_result [OF q1]
  have i2: "pgSourceIDs q1 = 0" "pgSchema q1 = None"
    using inspection_frame [of env c ?q0] q1 cloud_parts_frame [of env c new_program] i by (simp_all add: new_program_def)
  note l = load_scheme_frame [OF q2]
  have s: "pgSchema q2 = Some no_listeners"
  proof (rule ccontr)
    assume "pgSchema q2 \<noteq> Some no_listeners"
    then have "pgSchema (start_manager c q2) = None" using l i2(2) by (simp add: start_manager_frame split: if_splits)
    then show False using q3 by (simp add: subscribe_manager_def)
  qed
  obtain l3 where l3: "q3 = (start_manager c q2)\<lparr>pgSchema := Some l3\<rparr>" "told_of l3 = {ManagerPart}"
    using subscribe_manager_result [OF q3] s by (auto simp: start_manager_frame)
  have f3: "quiet q3" "pgReadyListeners q3 = pgReadyListeners q1" "pgWorkerThread q3 = pgWorkerThread q1" "pgSourceIDs q3 = 0" "pgSchema q3 = Some l3"
      "pgModule q3 = pgModule ?q0"
    using start_manager_frame [of c q2] l i i2 by (simp_all add: l3(1) quiet_def)
  note f4 = subscribe_inspection_result [OF q4 f3(1)]
  obtain b where b: "q5 = q4\<lparr>pgBinder := Some b\<rparr>" "thread_alive (bndThread b)"
    using q5(1) by (auto simp: start_binder_def binder_connect_def Let_def)
  have f5: "pgBinder q5 = Some b" "quiet q5" "pgSourceIDs q5 = 0" using b(1) f4 f3 by (simp_all add: quiet_def)
  obtain b' where b': "pgBinder q6 = Some b'" "bndThread b' = bndThread b" "same_parts q5 q6"
      "\<forall>j < length (can_interfaces c). bus_served c b' (j + 1) (can_interfaces c ! j)"
    using interfaces_result [OF q5(2) f5(1,2)] f5(3) assms(2) by (auto simp: can_interfaces_def)
  have f6: "InspectionPart \<in> told_of (pgMatrixListeners q6)" "quiet q6" "pgReadyListeners q6 = pgReadyListeners q1"
      "pgWorkerThread q6 = pgWorkerThread q1" "pgSchema q6 = Some l3" "pgModule q6 = pgModule ?q0"
    using b'(3) b(1) f4 f3 by (auto simp: same_parts_def)
  obtain l7 where "add_listener BinderPart (pgDictionaryListeners q6) = (BinderPart \<notin> told_of (pgDictionaryListeners q6), l7)"
      "told_of l7 = insert BinderPart (told_of (pgDictionaryListeners q6))"
    using add_listener_result [of "pgDictionaryListeners q6" BinderPart] f6(2) by (auto simp: quiet_def)
  then have p: "p = q6\<lparr>pgDictionaryListeners := l7, pgManagerThread := pgManagerThread p\<rparr>" "BinderPart \<in> told_of l7" "thValid (pgManagerThread p)"
    using q5(3,4) by (auto simp: subscribe_binder_def connect_manager_def Let_def)
  have t: "\<forall>j < length (can_interfaces c). getInterfaceID (interface_ids c) (getChannelNumericID (interface_ids c) (niInterfaceId (can_interfaces c ! j)))
      = niInterfaceId (can_interfaces c ! j)" using channel_translates_back [OF assms(2)] by simp
  have "pgBinder p = Some b'" "pgReadyListeners p = pgReadyListeners q1" "pgSchema p = Some l3" "pgMatrixListeners p = pgMatrixListeners q6"
      "pgDictionaryListeners p = l7" "pgWorkerThread p = pgWorkerThread q1" "pgModule p = pgModule ?q0"
    by (subst p(1), use b'(1) f6 in simp)+
  then show ?thesis using b' b(2) t i l3(2) f6(1) p(2,3) by auto
qed

section \<open>Who is told of what\<close>

text \<open>The diagnostics module counts if it is there; it is made for the first interface of its type that has something to request.\<close>

definition obd_parts :: "program \<Rightarrow> part set" where
  "obd_parts p = (if pgObd p = None then {} else {ObdPart})"

definition obd_wanted :: "network_interface list \<Rightarrow> bool" where
  "obd_wanted is \<longleftrightarrow> (case find (\<lambda>i. niType i = OBD_INTERFACE_TYPE) is of
     None \<Rightarrow> False | Some i \<Rightarrow> obdPidRequestIntervalSeconds i \<noteq> 0 \<or> obdDtcRequestIntervalSeconds i \<noteq> 0)"

definition obd_wired :: "program \<Rightarrow> bool" where
  "obd_wired p \<longleftrightarrow> quiet p \<and> told_of (pgMatrixListeners p) = {InspectionPart} \<union> obd_parts p \<and>
     told_of (pgDictionaryListeners p) = obd_parts p \<and> (pgObd p \<noteq> None \<longrightarrow> thread_alive (obdThread (pgLinks p)))"

definition apart :: "program \<Rightarrow> program \<Rightarrow> bool" where
  "apart p q \<longleftrightarrow> pgManager q = pgManager p \<and> pgSchemeReceivers q = pgSchemeReceivers p \<and> pgManifestReceivers q = pgManifestReceivers p"

lemma apart_trans: "apart p q \<Longrightarrow> apart q r \<Longrightarrow> apart p r"
  by (simp add: apart_def)

lemma start_can_frame:
  assumes "start_can env c i p = (ok, q)"
  shows "apart p q" "pgObd q = pgObd p" "pgMatrixListeners q = pgMatrixListeners p" "pgDictionaryListeners q = pgDictionaryListeners p"
    "pgLinks q = pgLinks p"
  using assms by (auto simp: start_can_def apart_def Let_def split: option.splits prod.splits if_splits)

lemma links_connect_alive: "links_connect engine transmission created has x t = (True, x', t') \<Longrightarrow> thread_alive (obdThread x')"
  by (auto simp: links_connect_def links_start_def Let_def split: prod.splits if_splits)

lemma start_obd_wired:
  assumes "start_obd env i p = (True, q)" and "obd_wired p" and "pgObd p = None"
  shows "obd_wired q" "apart p q" "pgObd q \<noteq> None \<longleftrightarrow> obdPidRequestIntervalSeconds i \<noteq> 0 \<or> obdDtcRequestIntervalSeconds i \<noteq> 0"
proof -
  obtain ok1 o' where o': "obd_init True True (obdPidRequestIntervalSeconds i) (obdDtcRequestIntervalSeconds i) (obdHasTransmissionEcu i) new_obd_module = (ok1, o')"
    by (cases "obd_init True True (obdPidRequestIntervalSeconds i) (obdDtcRequestIntervalSeconds i) (obdHasTransmissionEcu i) new_obd_module")
  have ok1: "ok1 \<longleftrightarrow> obdPidRequestIntervalSeconds i \<noteq> 0 \<or> obdDtcRequestIntervalSeconds i \<noteq> 0"
    using o' by (auto simp: obd_init_def Let_def split: if_splits)
  obtain ok2 x t where x: "links_connect (seObdEngine env) (seObdTransmission env) (seObdCreated env) (mHasTransmission o') (links_init i) (pgDescriptors p) = (ok2, x, t)"
    by (metis prod_cases3)
  have told: "told_of (pgMatrixListeners p) = {InspectionPart}" "told_of (pgDictionaryListeners p) = {}" "quiet p"
    using assms(2,3) by (simp_all add: obd_wired_def obd_parts_def)
  obtain l where l: "add_listener ObdPart (pgDictionaryListeners p) = (True, l)" "at_rest l" "told_of l = {ObdPart}"
    using add_listener_result [of "pgDictionaryListeners p" ObdPart] told(2,3) by (auto simp: quiet_def)
  obtain l2 where l2: "add_listener ObdPart (pgMatrixListeners p) = (True, l2)" "at_rest l2" "told_of l2 = {InspectionPart, ObdPart}"
    using add_listener_result [of "pgMatrixListeners p" ObdPart] told(1,3) by (auto simp: quiet_def insert_commute)
  have q: "q = (if ok1 then p\<lparr>pgObd := Some (obd_start o'), pgLinks := x, pgDescriptors := t, pgDictionaryListeners := l, pgMatrixListeners := l2\<rparr> else p)"
      "ok1 \<longrightarrow> ok2"
    using assms(1) by (auto simp: start_obd_def o' x l(1) l2(1) Let_def split: if_splits)
  have alive: "ok1 \<longrightarrow> thread_alive (obdThread x)" using q(2) x links_connect_alive by auto
  show "obd_wired q" using q(1) alive assms(2) l l2 by (auto simp: obd_wired_def obd_parts_def quiet_def)
  show "apart p q" using q(1) by (simp add: apart_def)
  show "pgObd q \<noteq> None \<longleftrightarrow> obdPidRequestIntervalSeconds i \<noteq> 0 \<or> obdDtcRequestIntervalSeconds i \<noteq> 0"
    using q(1) ok1 assms(3) by simp
qed

lemma interfaces_wired:
  assumes "start_interfaces env c obdInit is p = (True, q)" and "obd_wired p" and "\<not> obdInit \<Longrightarrow> pgObd p = None"
  shows "obd_wired q \<and> apart p q \<and> (pgObd q \<noteq> None \<longleftrightarrow> (if obdInit then pgObd p \<noteq> None else obd_wanted is))"
  using assms
proof (induction "is" arbitrary: p obdInit)
  case Nil
  then show ?case by (auto simp: apart_def obd_wanted_def)
next
  case (Cons i "is")
  consider (can) "niType i = CAN_INTERFACE_TYPE" | (obd) "niType i = OBD_INTERFACE_TYPE" "\<not> obdInit" "niType i \<noteq> CAN_INTERFACE_TYPE"
    | (other) "niType i \<noteq> CAN_INTERFACE_TYPE" "niType i \<noteq> OBD_INTERFACE_TYPE \<or> obdInit" by blast
  then show ?case
  proof cases
    case can
    then obtain p1 where p1: "start_can env c i p = (True, p1)" "start_interfaces env c obdInit is p1 = (True, q)"
      using Cons.prems(1) by (auto split: prod.splits if_splits)
    note f = start_can_frame [OF p1(1)]
    have "obd_wired p1" "\<not> obdInit \<Longrightarrow> pgObd p1 = None" using Cons.prems(2,3) f by (simp_all add: obd_wired_def obd_parts_def quiet_def)
    from Cons.IH [OF p1(2) this] have "obd_wired q" "apart p1 q" "pgObd q \<noteq> None \<longleftrightarrow> (if obdInit then pgObd p1 \<noteq> None else obd_wanted is)"
      by simp_all
    moreover have "obd_wanted (i # is) = obd_wanted is" using can by (simp add: obd_wanted_def CAN_INTERFACE_TYPE_def OBD_INTERFACE_TYPE_def)
    ultimately show ?thesis using apart_trans [OF f(1)] f(2) by simp
  next
    case obd
    then obtain p1 where p1: "start_obd env i p = (True, p1)" "start_interfaces env c True is p1 = (True, q)"
      using Cons.prems(1) by (auto split: prod.splits if_splits)
    note w = start_obd_wired [OF p1(1) Cons.prems(2) Cons.prems(3) [OF obd(2)]]
    have "obd_wired q \<and> apart p1 q \<and> (pgObd q \<noteq> None \<longleftrightarrow> pgObd p1 \<noteq> None)" using Cons.IH [OF p1(2) w(1)] by simp
    then show ?thesis using w apart_trans [OF w(2)] obd by (simp add: obd_wanted_def)
  next
    case other
    then have "start_interfaces env c obdInit is p = (True, q)" using Cons.prems(1) by (auto split: if_splits)
    from Cons.IH [OF this Cons.prems(2,3)] other show ?thesis by (auto simp: obd_wanted_def)
  qed
qed

lemma receivers_of_parts:
  "pgSchemeReceivers (cloud_parts env c p) = pgSchemeReceivers p" "pgManifestReceivers (cloud_parts env c p) = pgManifestReceivers p"
  "pgObd (cloud_parts env c p) = pgObd p"
  "pgSchemeReceivers (snd (start_inspection env c p)) = pgSchemeReceivers p" "pgManifestReceivers (snd (start_inspection env c p)) = pgManifestReceivers p"
  "pgObd (snd (start_inspection env c p)) = pgObd p"
  by (simp_all add: cloud_parts_def start_profiler_def start_connection_def start_channels_def start_persistency_def start_inspection_def Let_def
      split: option.split sum.split prod.split)

lemma load_scheme_receivers:
  assumes "load_scheme env c p = (True, q)" and "pgSchemeReceivers p = no_listeners" and "pgManifestReceivers p = no_listeners"
    and "pgSchema p = None" and "pgSchema q \<noteq> None"
  shows "told_of (pgSchemeReceivers q) = {CollectionSchemeListCb}" "told_of (pgManifestReceivers q) = {DecoderManifestCb}" "pgObd q = pgObd p"
  using assms add_listener_result [of no_listeners CollectionSchemeListCb] add_listener_result [of no_listeners DecoderManifestCb]
  by (auto simp: load_scheme_def at_rest_def no_listeners_def told_of_def split: if_splits prod.splits)

lemma startup_listeners:
  assumes "engine_connect env c new_program = Inr (True, p)"
  shows "told_of (pgSchemeReceivers p) = {CollectionSchemeListCb} \<and> told_of (pgManifestReceivers p) = {DecoderManifestCb} \<and>
    (\<exists>m. pgManager p = Some m \<and> mSchemaListener (mgrTimeline m)) \<and>
    told_of (pgMatrixListeners p) = {InspectionPart} \<union> obd_parts p \<and> told_of (pgDictionaryListeners p) = {BinderPart} \<union> obd_parts p \<and>
    (pgObd p \<noteq> None \<longleftrightarrow> obd_wanted (ecNetworkInterfaces c)) \<and> (pgObd p \<noteq> None \<longrightarrow> thread_alive (obdThread (pgLinks p)))"
proof -
  let ?q0 = "cloud_parts env c new_program"
  obtain q1 q2 q3 q4 q5 q6 q7 where q1: "start_inspection env c ?q0 = (True, q1)" and q2: "load_scheme env c q1 = (True, q2)"
    and q3: "subscribe_manager (start_manager c q2) = Inr (True, q3)" and q4: "subscribe_inspection q3 = (True, q4)"
    and q5: "start_binder env q4 = (True, q5)" "start_interfaces env c False (ecNetworkInterfaces c) q5 = (True, q6)"
      "subscribe_binder q6 = (True, q7)" "connect_manager env q7 = (True, p)"
    using connect_stages [OF assms] by (elim exE conjE)
  have n1: "pgSchemeReceivers q1 = no_listeners" "pgManifestReceivers q1 = no_listeners" "pgObd q1 = None" "pgSchema q1 = None"
    using receivers_of_parts [of env c new_program] receivers_of_parts(4-6) [of env c ?q0] q1 cloud_parts_frame(2) [of env c new_program]
      inspection_result [OF q1] by (simp_all add: new_program_def)
  have "pgSchema (start_manager c q2) \<noteq> None" using q3 by (auto simp: subscribe_manager_def split: option.splits)
  then have s2: "pgSchema q2 \<noteq> None" by (simp add: start_manager_frame)
  note r2 = load_scheme_receivers [OF q2 n1(1,2,4) s2]
  obtain l3 where l3: "q3 = (start_manager c q2)\<lparr>pgSchema := Some l3\<rparr>"
    using q3 by (auto simp: subscribe_manager_def Let_def split: option.splits prod.splits)
  have f3: "pgMatrixListeners q3 = no_listeners" "pgDictionaryListeners q3 = no_listeners" "pgObd q3 = None" "pgManager q3 \<noteq> None"
      "pgSchemeReceivers q3 = pgSchemeReceivers q2" "pgManifestReceivers q3 = pgManifestReceivers q2" "pgSchema q3 = Some l3"
    using r2(3) n1(3) by (simp_all add: l3 start_manager_def Let_def)
  obtain l4 where l4: "add_listener InspectionPart no_listeners = (True, l4)" "at_rest l4" "told_of l4 = {InspectionPart}"
    using add_listener_result [of no_listeners InspectionPart] by (auto simp: at_rest_def no_listeners_def told_of_def)
  obtain m3 where m3: "pgManager q3 = Some m3" using f3(4) by blast
  have q4_eq: "q4 = q3\<lparr>pgMatrixListeners := l4, pgManager := Some (m3\<lparr>mgrTimeline := (mgrTimeline m3)\<lparr>mSchemaListener := True\<rparr>\<rparr>)\<rparr>"
    using q4 l4(1) f3 m3 by (simp add: subscribe_inspection_def Let_def)
  obtain b where b: "q5 = q4\<lparr>pgBinder := b\<rparr>" using q5(1) by (auto simp: start_binder_def split: prod.splits)
  have w5: "obd_wired q5" "pgObd q5 = None"
    using f3 l4 by (simp_all add: b q4_eq obd_wired_def obd_parts_def quiet_def at_rest_def no_listeners_def told_of_def)
  note w6 = interfaces_wired [OF q5(2) w5]
  obtain l7 where "add_listener BinderPart (pgDictionaryListeners q6) = (BinderPart \<notin> told_of (pgDictionaryListeners q6), l7)"
      "told_of l7 = insert BinderPart (told_of (pgDictionaryListeners q6))"
    using add_listener_result [of "pgDictionaryListeners q6" BinderPart] w6 by (auto simp: obd_wired_def quiet_def)
  then have p: "p = q6\<lparr>pgDictionaryListeners := l7, pgManagerThread := pgManagerThread p\<rparr>"
      "told_of l7 = insert BinderPart (told_of (pgDictionaryListeners q6))"
    using q5(3,4) by (auto simp: subscribe_binder_def connect_manager_def Let_def)
  have same: "pgSchemeReceivers p = pgSchemeReceivers q6" "pgManifestReceivers p = pgManifestReceivers q6" "pgManager p = pgManager q6"
      "pgMatrixListeners p = pgMatrixListeners q6" "pgDictionaryListeners p = l7" "pgObd p = pgObd q6" "pgLinks p = pgLinks q6"
    by (subst p(1), simp)+
  show ?thesis using w6 r2(1,2) f3(5,6) p(2) same
    by (simp add: b q4_eq apart_def obd_wired_def obd_parts_def)
qed

text \<open>
  C8. After a start that succeeded, of a configuration with fewer than 2^32 - 1 buses, every bus is in
  service: its source is connected, running and listened to, its consumer runs, takes the messages of this
  source, has both queues of the inspection, and its channel number translates back to the interface the
  cloud knows the bus by. The parts are registered where their messages come from, and nowhere else: the engine
  for collected data, the receivers of the two documents on their channels, the manager for new documents, the
  inspection for matrices, the binder for dictionaries, and the diagnostics module for both, if there is
  one. There is one exactly if the first interface for diagnostics has something to request; then its thread
  runs. The manager can send checkins. The threads of the inspection, the manager and the binder run.
\<close>

theorem startup_wires_buses:
  assumes "engine_connect env c new_program = Inr (True, p)" and "length (can_interfaces c) < 2 ^ 32 - 1"
  shows "\<exists>b. pgBinder p = Some b \<and> thread_alive (bndThread b) \<and>
    (\<forall>j < length (can_interfaces c). bus_served c b (j + 1) (can_interfaces c ! j) \<and>
       getInterfaceID (interface_ids c) (getChannelNumericID (interface_ids c) (niInterfaceId (can_interfaces c ! j))) = niInterfaceId (can_interfaces c ! j)) \<and>
    told_of (pgReadyListeners p) = {EnginePart} \<and>
    told_of (pgSchemeReceivers p) = {CollectionSchemeListCb} \<and> told_of (pgManifestReceivers p) = {DecoderManifestCb} \<and>
    (\<exists>l. pgSchema p = Some l \<and> told_of l = {ManagerPart}) \<and> (\<exists>m. pgManager p = Some m \<and> mSchemaListener (mgrTimeline m)) \<and>
    told_of (pgMatrixListeners p) = {InspectionPart} \<union> obd_parts p \<and> told_of (pgDictionaryListeners p) = {BinderPart} \<union> obd_parts p \<and>
    (pgObd p \<noteq> None \<longleftrightarrow> obd_wanted (ecNetworkInterfaces c)) \<and> (pgObd p \<noteq> None \<longrightarrow> thread_alive (obdThread (pgLinks p))) \<and>
    thread_alive (pgWorkerThread p) \<and> thValid (pgManagerThread p)"
  using startup_result [OF assms] startup_listeners [OF assms(1)] by (elim exE conjE) (intro exI conjI; assumption)

section \<open>A scheme from a local file\<close>

text \<open>
  With a collection scheme from a local file the program never starts: no receiver of documents is
  created, and the pointer to it is used. The inspection thread and a connection to the cloud were
  started before, whenever the file holds a valid scheme.
\<close>

theorem local_scheme_crashes:
  assumes "ecUseJsonBasedCollectionScheme c" and "seWorkerCreated env"
    and "local_parse (seSorter env) (seLocalFile env (ecJsonBasedCollectionSchemeFilename c)) new_local_scheme = (ok, s)"
  shows "if ok \<and> local_isValid s then engine_connect env c new_program = Inl NullPointer
     else \<exists>p. engine_connect env c new_program = Inr (False, p)"
proof -
  let ?q0 = "cloud_parts env c new_program"
  obtain l where l: "add_listener EnginePart no_listeners = (True, l)"
    using add_listener_result [of no_listeners EnginePart] by (auto simp: at_rest_def no_listeners_def told_of_def)
  have "fst (start_inspection env c ?q0)"
    using assms(2) l by (simp add: start_inspection_def can_start_def worker_init_def created_alive Let_def)
  then obtain q1 where q1: "start_inspection env c ?q0 = (True, q1)" by (cases "start_inspection env c ?q0") simp
  have none: "pgSchema q1 = None" using inspection_result [OF q1] cloud_parts_frame(2) [of env c new_program] by (simp add: new_program_def)
  show ?thesis
    using assms(1,3) none
    by (simp add: engine_connect_def q1 load_scheme_def subscribe_manager_def start_manager_frame and_then_def ub_bind_def split: if_splits)
qed

section \<open>Keys and certificates\<close>

lemma read_chars_eof: "read_chars cs = cs @ [eof_char]"
  by (induction cs) simp_all

lemma module_of_parts:
  "\<exists>m m'. pgModule (cloud_parts env c p) = Some m \<and> m = m'\<lparr>cmClientId := ecClientId c, mConnected := False, cmRetryThread := cmRetryThread m,
       cmCertificate := getFileContents (seFiles env (ecCertificateFilename c)), cmEndpointUrl := ecEndpointUrl c,
       cmPrivateKey := getFileContents (seFiles env (ecPrivateKeyFilename c))\<rparr>"
proof -
  have "pgModule (start_channels c q) \<noteq> None" for q by (simp add: start_channels_def Let_def split: prod.split)
  then obtain m' where m': "pgModule (start_channels c (start_persistency env c p)) = Some m'" by fast
  let ?m = "m'\<lparr>cmClientId := ecClientId c, mConnected := False, cmCertificate := getFileContents (seFiles env (ecCertificateFilename c)),
      cmEndpointUrl := ecEndpointUrl c, cmPrivateKey := getFileContents (seFiles env (ecPrivateKeyFilename c))\<rparr>"
  obtain ok t where t: "retry_start (seRetryCreated env) (cmRetryThread m') = (ok, t)" by (cases "retry_start (seRetryCreated env) (cmRetryThread m')")
  have "pgModule (start_connection env c (start_channels c (start_persistency env c p))) =
      Some (if createMqttConnection (seConnect env) ?m then ?m\<lparr>cmRetryThread := t\<rparr> else ?m)"
    using t by (simp add: start_connection_def m' module_connect_def Let_def)
  moreover have "pgModule (start_profiler env c q) = pgModule q" for q by (simp add: start_profiler_def Let_def split: option.split)
  ultimately show ?thesis by (auto simp: cloud_parts_def intro!: exI [of _ m'])
qed

text \<open>
  The key and the certificate that are given to the connection are the contents of their files with
  one more byte at the end, of the value 255. So an empty file passes for a key: whether a connection is
  made depends on the rest of the configuration and the library alone.
\<close>

theorem key_has_trailing_byte:
  assumes "engine_connect env c new_program = Inr (True, p)" and "length (can_interfaces c) < 2 ^ 32 - 1"
    and "seFiles env (ecPrivateKeyFilename c) = Some key" and "seFiles env (ecCertificateFilename c) = Some certificate"
  shows "\<exists>m. pgModule p = Some m \<and> cmPrivateKey m = key @ [char_of (255 :: nat)] \<and> cmCertificate m = certificate @ [char_of (255 :: nat)] \<and>
    (createMqttConnection (seConnect env) m \<longleftrightarrow> ecEndpointUrl c \<noteq> [] \<and> ecClientId c \<noteq> [] \<and> ceBootstrap (seConnect env) = Some True \<and>
       ceClientConfig (seConnect env) \<and> ceMqttClient (seConnect env) \<and> ceConnection (seConnect env))"
proof -
  obtain m m' where m: "pgModule (cloud_parts env c new_program) = Some m"
    "m = m'\<lparr>cmClientId := ecClientId c, mConnected := False, cmRetryThread := cmRetryThread m,
       cmCertificate := getFileContents (seFiles env (ecCertificateFilename c)), cmEndpointUrl := ecEndpointUrl c,
       cmPrivateKey := getFileContents (seFiles env (ecPrivateKeyFilename c))\<rparr>"
    using module_of_parts by blast
  have f: "cmPrivateKey m = key @ [char_of (255 :: nat)]" "cmCertificate m = certificate @ [char_of (255 :: nat)]"
      "cmEndpointUrl m = ecEndpointUrl c" "cmClientId m = ecClientId c"
    by (subst m(2), use assms(3,4) in \<open>simp add: getFileContents_def read_chars_eof eof_char_def\<close>)+
  then have "createMqttConnection (seConnect env) m \<longleftrightarrow> ecEndpointUrl c \<noteq> [] \<and> ecClientId c \<noteq> [] \<and> ceBootstrap (seConnect env) = Some True \<and>
       ceClientConfig (seConnect env) \<and> ceMqttClient (seConnect env) \<and> ceConnection (seConnect env)"
    by (simp add: createMqttConnection_def)
  then show ?thesis using startup_result [OF assms(1,2)] m(1) f by auto
qed

section \<open>A shutdown that succeeds\<close>

lemma released_not_alive: "\<not> thread_alive (snd (thread_release joined t))"
  by (simp add: thread_alive_def released_not_active)

lemma disconnectConsumer_effect:
  assumes "disconnectConsumer env i b = (ok, b')"
  shows "mIdsToDataSources b' = mIdsToDataSources b \<and> bndThread b' = bndThread b \<and>
    (\<forall>k con'. map_of (mDataSourcesToConsumers b') k = Some con' \<longrightarrow>
       (if k = i then \<not> consumer_isAlive con' else map_of (mDataSourcesToConsumers b) k = Some con'))"
  using assms consumer_disconnect_simps(1) [of env i]
  by (auto simp: disconnectConsumer_def Let_def split: option.splits prod.splits if_splits) (metis snd_conv)

lemma disconnect_consumers_effect:
  "disconnect_consumers env is b = (True, b') \<Longrightarrow>
   mIdsToDataSources b' = mIdsToDataSources b \<and> bndThread b' = bndThread b \<and>
   (\<forall>k con'. map_of (mDataSourcesToConsumers b') k = Some con' \<longrightarrow>
      \<not> consumer_isAlive con' \<or> k \<notin> set is \<and> map_of (mDataSourcesToConsumers b) k = Some con')"
proof (induction "is" arbitrary: b)
  case (Cons i "is")
  obtain ok b1 where b1: "disconnectConsumer env i b = (ok, b1)" by (cases "disconnectConsumer env i b")
  then have "disconnect_consumers env is b1 = (True, b')" using Cons.prems by (simp split: if_splits)
  note ih = Cons.IH [OF this] and e = disconnectConsumer_effect [OF b1]
  show ?case
  proof (intro conjI allI impI)
    fix k con'
    assume k: "map_of (mDataSourcesToConsumers b') k = Some con'"
    show "\<not> consumer_isAlive con' \<or> k \<notin> set (i # is) \<and> map_of (mDataSourcesToConsumers b) k = Some con'"
    proof (cases "consumer_isAlive con'")
      case True
      then have "k \<notin> set is" "map_of (mDataSourcesToConsumers b1) k = Some con'" using ih k by auto
      then show ?thesis using e True by (auto split: if_splits)
    qed simp
  qed (use ih e in simp_all)
qed simp

lemma put_state_frame:
  "mIdsToDataSources (put_state i st b) = mIdsToDataSources b" "mDataSourcesToConsumers (put_state i st b) = mDataSourcesToConsumers b"
  "bndThread (put_state i st b) = bndThread b"
  by (simp_all add: put_state_def)

lemma disconnect_source_effect:
  assumes "disconnect_source env i s b = (ok, b')"
  shows "\<exists>s'. mIdsToDataSources b' = omap_put i s' (mIdsToDataSources b) \<and> \<not> thread_alive (srcThread s') \<and> openSockets s' = openSockets s \<and>
    mDataSourcesToConsumers b' = mDataSourcesToConsumers b \<and> bndThread b' = bndThread b"
proof -
  obtain s' where s': "source_disconnect (socketEnv env i) s = (True, True, s')" "\<not> thread_alive (srcThread s')" "openSockets s' = openSockets s"
    by (auto simp: source_disconnect_def source_stop_def released_not_active released_not_alive Let_def)
  then show ?thesis using assms
    by (auto simp: disconnect_source_def onVehicleDataSourceDisconnected_def put_state_frame Let_def intro!: exI [of _ s'])
qed

lemma disconnect_sources_effect:
  "disconnect_sources env ss b = (True, b') \<Longrightarrow>
   mDataSourcesToConsumers b' = mDataSourcesToConsumers b \<and> bndThread b' = bndThread b \<and>
   (\<forall>k s'. map_of (mIdsToDataSources b') k = Some s' \<longrightarrow>
      \<not> thread_alive (srcThread s') \<and> (\<exists>s. (k, s) \<in> set ss \<and> openSockets s' = openSockets s) \<or>
      k \<notin> fst ` set ss \<and> map_of (mIdsToDataSources b) k = Some s')"
proof (induction ss arbitrary: b)
  case (Cons p ss)
  obtain i s where p: "p = (i, s)" by (cases p)
  obtain ok b1 where b1: "disconnect_source env i s b = (ok, b1)" by (cases "disconnect_source env i s b")
  then have "disconnect_sources env ss b1 = (True, b')" using Cons.prems p by (simp split: if_splits)
  note ih = Cons.IH [OF this]
  obtain s1 where s1: "mIdsToDataSources b1 = omap_put i s1 (mIdsToDataSources b)" "\<not> thread_alive (srcThread s1)" "openSockets s1 = openSockets s"
      "mDataSourcesToConsumers b1 = mDataSourcesToConsumers b" "bndThread b1 = bndThread b"
    using disconnect_source_effect [OF b1] by blast
  have each: "\<not> thread_alive (srcThread s') \<and> (\<exists>s. (k, s) \<in> set (p # ss) \<and> openSockets s' = openSockets s) \<or>
      k \<notin> fst ` set (p # ss) \<and> map_of (mIdsToDataSources b) k = Some s'"
    if k: "map_of (mIdsToDataSources b') k = Some s'" for k s'
  proof -
    from ih k consider (stopped) s where "\<not> thread_alive (srcThread s')" "(k, s) \<in> set ss" "openSockets s' = openSockets s"
      | (before) "k \<notin> fst ` set ss" "map_of (mIdsToDataSources b1) k = Some s'" by blast
    then show ?thesis
    proof cases
      case stopped
      then show ?thesis by auto
    next
      case before
      then show ?thesis using s1(1-3) p by (cases "k = i") auto
    qed
  qed
  have "mDataSourcesToConsumers b' = mDataSourcesToConsumers b \<and> bndThread b' = bndThread b" using ih s1(4,5) by simp
  with each show ?case by blast
qed simp

lemma binder_disconnect_effect:
  assumes "binder_disconnect env b = (True, b')"
  shows "\<not> thread_alive (bndThread b') \<and>
    (\<forall>k con. map_of (mDataSourcesToConsumers b') k = Some con \<longrightarrow> \<not> consumer_isAlive con) \<and>
    (\<forall>k s'. map_of (mIdsToDataSources b') k = Some s' \<longrightarrow>
       \<not> thread_alive (srcThread s') \<and> (\<exists>s. (k, s) \<in> set (mIdsToDataSources b) \<and> openSockets s' = openSockets s))"
proof -
  let ?keys = "map fst (mDataSourcesToConsumers b)"
  obtain ok1 b1 where b1: "disconnect_consumers env ?keys b = (ok1, b1)" by (cases "disconnect_consumers env ?keys b")
  obtain ok2 b2 where b2: "disconnect_sources env (mIdsToDataSources b1) b1 = (ok2, b2)" by (cases "disconnect_sources env (mIdsToDataSources b1) b1")
  have ok: "ok1" "ok2" "b' = b2\<lparr>bndThread := snd (thread_release (binderJoined env) (bndThread b2))\<rparr>"
    using assms b1 b2 by (auto simp: binder_disconnect_def Let_def split: if_splits)
  note e1 = disconnect_consumers_effect [OF b1 [unfolded eqTrueI [OF ok(1)]]]
  note e2 = disconnect_sources_effect [OF b2 [unfolded eqTrueI [OF ok(2)]]]
  have "\<not> consumer_isAlive con" if "map_of (mDataSourcesToConsumers b') k = Some con" for k con
  proof -
    have "\<not> consumer_isAlive con \<or> k \<notin> set ?keys \<and> map_of (mDataSourcesToConsumers b) k = Some con"
      using e1 e2 that ok(3) by simp
    then show ?thesis using map_of_eq_None_iff [of "mDataSourcesToConsumers b" k] by auto
  qed
  moreover have "\<not> thread_alive (srcThread s') \<and> (\<exists>s. (k, s) \<in> set (mIdsToDataSources b) \<and> openSockets s' = openSockets s)"
    if "map_of (mIdsToDataSources b') k = Some s'" for k s'
  proof -
    have "\<not> thread_alive (srcThread s') \<and> (\<exists>s. (k, s) \<in> set (mIdsToDataSources b) \<and> openSockets s' = openSockets s) \<or>
        k \<notin> fst ` set (mIdsToDataSources b) \<and> map_of (mIdsToDataSources b) k = Some s'"
      using e1 e2 that ok(3) by simp
    then show ?thesis using map_of_eq_None_iff [of "mIdsToDataSources b" k] by auto
  qed
  ultimately show ?thesis by (simp add: ok(3) released_not_alive)
qed

text \<open>Disconnecting the binder succeeds for whatever it holds.\<close>

lemma disconnect_consumers_succeed:
  "\<forall>i \<in> set is. map_of (mDataSourcesToConsumers b) i \<noteq> None \<Longrightarrow> fst (disconnect_consumers env is b)"
proof (induction "is" arbitrary: b)
  case (Cons i "is")
  then obtain con where con: "map_of (mDataSourcesToConsumers b) i = Some con" by auto
  obtain con' where con': "consumer_disconnect env i con = (True, con')"
    using consumer_disconnect_simps(2) [of env i con] by (cases "consumer_disconnect env i con") simp
  then have "disconnectConsumer env i b = (True, b\<lparr>mDataSourcesToConsumers := omap_put i con' (mDataSourcesToConsumers b)\<rparr>)"
    using con by (simp add: disconnectConsumer_def)
  then show ?case using Cons by simp
qed simp

lemma disconnect_sources_succeed: "fst (disconnect_sources env ss b)"
proof (induction ss arbitrary: b)
  case (Cons p ss)
  have "fst (disconnect_source env (fst p) (snd p) b)"
    by (simp add: disconnect_source_def source_disconnect_def source_stop_def released_not_active Let_def split: prod.split)
  then obtain b' where "disconnect_source env (fst p) (snd p) b = (True, b')" by (cases "disconnect_source env (fst p) (snd p) b") simp
  then show ?case using Cons by (cases p) simp
qed simp

lemma disconnect_succeeds: "fst (binder_disconnect env b)"
proof -
  have "fst (disconnect_consumers env (map fst (mDataSourcesToConsumers b)) b)"
    by (intro disconnect_consumers_succeed) (auto simp: map_of_eq_None_iff)
  then show ?thesis using disconnect_sources_succeed
    by (auto simp: binder_disconnect_def released_not_active Let_def split: prod.split) (metis fst_conv)
qed

lemma stop_inspection_effect:
  assumes "stop_inspection env p = Inr (True, q)"
  shows "\<exists>w. q = p\<lparr>pgWorkerThread := w\<rparr> \<and> \<not> thread_alive w"
proof (cases "thread_alive (pgWorkerThread p)")
  case True
  then show ?thesis using assms by (auto simp: stop_inspection_def released_not_alive Let_def split: if_splits)
next
  case False
  then show ?thesis using assms by (auto simp: stop_inspection_def split: if_splits intro!: exI [of _ "pgWorkerThread q"])
qed

lemma stop_profiler_effect:
  assumes "stop_profiler env p = (True, q)"
  shows "\<exists>x. q = p\<lparr>pgLogForwarding := False, pgProfiler := x\<rparr> \<and> (\<forall>r. x = Some r \<longrightarrow> \<not> thread_alive (fProfilerThread r))"
proof (cases "pgProfiler p")
  case None
  then show ?thesis using assms by (auto simp: stop_profiler_def intro!: exI [of _ "None"])
next
  case (Some r)
  obtain ok r' where r': "profiler_stop (sdProfilerJoined env) r = (ok, r')" by (cases "profiler_stop (sdProfilerJoined env) r")
  have "\<not> thread_alive (fProfilerThread r')"
    using r' by (auto simp: profiler_stop_def initLogStructure_def released_not_alive thread_alive_def released_not_active Let_def split: if_splits)
  then show ?thesis using assms r' Some by (auto simp: stop_profiler_def intro!: exI [of _ "Some r'"])
qed

lemma stop_obd_effect:
  assumes "stop_obd env p = (True, q)"
  shows "\<exists>x t. q = p\<lparr>pgLinks := x, pgDescriptors := t\<rparr> \<and> (pgObd p \<noteq> None \<longrightarrow> \<not> thread_alive (obdThread x))"
proof (cases "pgObd p")
  case None
  then show ?thesis using assms by (auto simp: stop_obd_def intro!: exI [of _ "pgLinks p"] exI [of _ "pgDescriptors p"])
next
  case (Some m)
  obtain ok x t where x: "links_disconnect (sdEngineCloses env) (sdTransmissionCloses env) (sdObdJoined env) (mHasTransmission m) (pgLinks p) (pgDescriptors p) = (ok, x, t)"
    by (metis prod_cases3)
  then have "ok \<Longrightarrow> \<not> thread_alive (obdThread x)"
    by (auto simp: links_disconnect_def links_stop_def released_not_alive Let_def split: prod.splits if_splits)
  then show ?thesis using assms x Some by (auto simp: stop_obd_def intro!: exI [of _ x] exI [of _ t])
qed

lemma engine_disconnect_result:
  assumes "engine_disconnect env p = Inr (True, q)"
  shows "\<not> thread_alive (pgWorkerThread q) \<and> \<not> thread_alive (pgManagerThread q) \<and>
    (\<forall>r. pgProfiler q = Some r \<longrightarrow> \<not> thread_alive (fProfilerThread r)) \<and> \<not> pgLogForwarding q \<and>
    (pgObd p \<noteq> None \<longrightarrow> \<not> thread_alive (obdThread (pgLinks q))) \<and> pgModule q = pgModule p \<and> pgThread q = pgThread p \<and>
    (\<forall>b. pgBinder p = Some b \<longrightarrow> (\<exists>b'. pgBinder q = Some b' \<and> \<not> thread_alive (bndThread b') \<and>
       (\<forall>k con. map_of (mDataSourcesToConsumers b') k = Some con \<longrightarrow> \<not> consumer_isAlive con) \<and>
       (\<forall>k s'. map_of (mIdsToDataSources b') k = Some s' \<longrightarrow>
          \<not> thread_alive (srcThread s') \<and> (\<exists>s. (k, s) \<in> set (mIdsToDataSources b) \<and> openSockets s' = openSockets s))))"
proof -
  obtain p1 where p1: "stop_obd env p = (True, p1)"
    and r1: "and_then (stop_inspection env p1) (\<lambda>p. and_then (Inr (stop_profiler env p)) (\<lambda>p. and_then (stop_manager env p) (\<lambda>p. Inr (stop_binder env p)))) = Inr (True, q)"
    using and_then_step [OF assms [unfolded engine_disconnect_def]] by blast
  obtain p2 where p2: "stop_inspection env p1 = Inr (True, p2)"
    and r2: "and_then (Inr (stop_profiler env p2)) (\<lambda>p. and_then (stop_manager env p) (\<lambda>p. Inr (stop_binder env p))) = Inr (True, q)"
    using and_then_True [OF r1] by blast
  obtain p3 where p3: "stop_profiler env p2 = (True, p3)"
    and r3: "and_then (stop_manager env p3) (\<lambda>p. Inr (stop_binder env p)) = Inr (True, q)"
    using and_then_step [OF r2] by blast
  obtain p4 where p4: "stop_manager env p3 = Inr (True, p4)" and q: "stop_binder env p4 = (True, q)" using and_then_True [OF r3] by blast
  obtain x t where e1: "p1 = p\<lparr>pgLinks := x, pgDescriptors := t\<rparr>" "pgObd p \<noteq> None \<longrightarrow> \<not> thread_alive (obdThread x)"
    using stop_obd_effect [OF p1] by blast
  obtain w where e2: "p2 = p1\<lparr>pgWorkerThread := w\<rparr>" "\<not> thread_alive w"
    using stop_inspection_effect [OF p2] by blast
  obtain y where e3: "p3 = p2\<lparr>pgLogForwarding := False, pgProfiler := y\<rparr>" "\<forall>r. y = Some r \<longrightarrow> \<not> thread_alive (fProfilerThread r)"
    using stop_profiler_effect [OF p3] by blast
  obtain m where e4: "p4 = p3\<lparr>pgManagerThread := m\<rparr>" "\<not> thread_alive m"
    using p4 by (auto simp: stop_manager_def released_not_alive split: if_splits)
  let ?p = "p\<lparr>pgLinks := x, pgDescriptors := t, pgWorkerThread := w, pgLogForwarding := False, pgProfiler := y, pgManagerThread := m\<rparr>"
  have p4_eq: "p4 = ?p" by (simp add: e1(1) e2(1) e3(1) e4(1))
  show ?thesis
  proof (cases "pgBinder p")
    case None
    then have "q = ?p" using q by (simp add: stop_binder_def p4_eq)
    then show ?thesis using None e1(2) e2(2) e3(2) e4(2) by simp
  next
    case (Some b)
    then obtain b' where b': "binder_disconnect (sdBinder env) b = (True, b')" "q = ?p\<lparr>pgBinder := Some b'\<rparr>"
      using q by (cases "binder_disconnect (sdBinder env) b") (simp add: stop_binder_def p4_eq)
    then show ?thesis using Some e1(2) e2(2) e3(2) e4(2) binder_disconnect_effect [OF b'(1)] by auto
  qed
qed

text \<open>
  C28. When the program is shut down, its thread is stopped and then it is disconnected. If both succeed, these
  threads have ended: that of the engine itself, the inspection, the profiler, the manager, the diagnostics,
  the binder, every consumer and every source. But each source keeps as many sockets open as it had, and
  the connectivity module is left as it was, with its thread that retries to connect if that still runs.
\<close>

theorem shutdown_stops_threads:
  assumes "engine_stop joined p = (True, p1)" and "engine_disconnect env p1 = Inr (True, q)"
  shows "\<not> engine_isAlive q \<and> \<not> thread_alive (pgWorkerThread q) \<and> \<not> thread_alive (pgManagerThread q) \<and>
    (\<forall>r. pgProfiler q = Some r \<longrightarrow> \<not> thread_alive (fProfilerThread r)) \<and> \<not> pgLogForwarding q \<and>
    (pgObd p \<noteq> None \<longrightarrow> \<not> thread_alive (obdThread (pgLinks q))) \<and>
    (\<forall>b. pgBinder p = Some b \<longrightarrow> (\<exists>b'. pgBinder q = Some b' \<and> \<not> thread_alive (bndThread b') \<and>
       (\<forall>k con. map_of (mDataSourcesToConsumers b') k = Some con \<longrightarrow> \<not> consumer_isAlive con) \<and>
       (\<forall>k s'. map_of (mIdsToDataSources b') k = Some s' \<longrightarrow>
          \<not> thread_alive (srcThread s') \<and> (\<exists>s. (k, s) \<in> set (mIdsToDataSources b) \<and> openSockets s' = openSockets s)))) \<and>
    pgModule q = pgModule p"
proof -
  have p1: "p1 = p\<lparr>pgThread := snd (thread_release joined (pgThread p))\<rparr>" using assms(1) by (auto simp: engine_stop_def Let_def)
  have "\<not> engine_isAlive q" using engine_disconnect_result [OF assms(2)] by (simp add: engine_isAlive_def p1 released_not_alive)
  then show ?thesis using engine_disconnect_result [OF assms(2)] by (simp add: p1)
qed

end
