(* ===== verification/StartupSamples.thy ===== *)
theory StartupSamples
  imports StartupBehaviour
begin

text \<open>
  A program with one bus that starts and stops, on which the theorems of \<open>StartupBehaviour\<close> are applied.
\<close>

definition sample_interface :: network_interface where
  "sample_interface = \<lparr>niType = CAN_INTERFACE_TYPE, niInterfaceId = ''1'', canInterfaceName = ''can0'', canTimestampType = None,
     obdInterfaceName = [], obdPidRequestIntervalSeconds = 0, obdDtcRequestIntervalSeconds = 0, obdUseExtendedIds = False,
     obdHasTransmissionEcu = False\<rparr>"

definition sample_config :: engine_config where
  "sample_config = \<lparr>ecPersistencyPath = ''/tmp'', ecPersistencyPartitionMaxSize = 1000, ecRetryIntervalInPersistency = False,
     ecRetryIntervalMs = None, ecNetworkInterfaces = [sample_interface], ecCanDataTopic = ''data'', ecCollectionSchemeListTopic = ''schemes'',
     ecDecoderManifestTopic = ''manifest'', ecMetricsUploadTopic = [], ecLoggingUploadTopic = [], ecCheckinTopic = ''checkin'',
     ecUseJsonBasedCollection = False, ecMaxPublishMessageCount = 100, ecPrivateKeyFilename = ''key'', ecCertificateFilename = ''cert'',
     ecEndpointUrl = ''url'', ecClientId = ''vehicle'', ecRemoteProfiler = None, ecInspectionThreadIdleTimeMs = 50,
     ecDataReductionProbabilityDisabled = False, ecUseJsonBasedCollectionScheme = False, ecJsonBasedCollectionSchemeFilename = [],
     ecCheckinIntervalMs = 0, ecSocketCANThreadIdleTimeMs = ''50'', ecSocketCANBufferSize = 10, ecCanDecoderThreadIdleTimeMs = 0\<rparr>"

definition sample_kernel :: kernel_report where
  "sample_kernel = \<lparr>krUsage = None, krUptime = None, krTicks = 100, krTasks = None, krPageSize = 4096, krStatm = None, krMaxRss = None, krTime = 0\<rparr>"

definition sample_startup :: startup_env where
  "sample_startup = \<lparr>seFS = \<lparr>canOpen = \<lambda>_. True, taken = length, canRead = \<lambda>_. True\<rparr>, seDisk = \<lambda>_. None,
     seFiles = (\<lambda>_. Some []), seConnect = \<lparr>ceBootstrap = Some True, ceClientConfig = True, ceMqttClient = True, ceConnection = True\<rparr>,
     seAnswers = \<lparr>laConnects = True, laCompleting = [], laDisconnects = True, laClosing = []\<rparr>, seAcks = [], seRetryCreated = True,
     seProfilerEnv = \<lparr>peMetricsSender = None, peLogSender = None, peWriteMetrics = \<lambda>_. [], peCores = 1\<rparr>, seKernel = sample_kernel,
     seProfilerCreated = True, seWorkerCreated = True, seLocalFile = \<lambda>_. NotOpen, seSorter = id, seBinder = all_work,
     seObdEngine = \<lparr>socketNumber = 5, optionsAccepted = True, flowControlAccepted = True, bindAccepted = True\<rparr>,
     seObdTransmission = \<lparr>socketNumber = 6, optionsAccepted = True, flowControlAccepted = True, bindAccepted = True\<rparr>,
     seObdCreated = True, seManagerCreated = True\<rparr>"

lemma idle_time_read: "stoul ''50'' = Some 50"
proof -
  have d: "is_digit (CHR ''5'')" "is_digit (CHR ''0'')" "\<not> is_space (CHR ''5'')" by code_simp+
  have v: "digits_value ''50'' = 50" by code_simp
  show ?thesis by (simp add: stoul_def d v)
qed

definition sample_started_source :: can_source where
  "sample_started_source = (new_source 1 KERNEL_SOFTWARE_TIMESTAMP)\<lparr>srcIfName := ''can0'', srcBuffer := Some (new_queue 10), srcIdleTimeMs := 50\<rparr>"

lemma sample_source_init: "source_init [source_config sample_config sample_interface] (new_source 1 KERNEL_SOFTWARE_TIMESTAMP) = (True, sample_started_source)"
  by (simp add: source_init_def source_config_def sample_config_def sample_interface_def idle_time_read sample_started_source_def u32_id Let_def)

lemma sample_can_starts:
  assumes "pgBinder p = Some (new_binder\<lparr>bndThread := t\<rparr>)" and "pgSourceIDs p = 0"
  shows "fst (start_can sample_startup sample_config sample_interface p)"
proof -
  have g: "generateSourceID 0 = 1" by (simp add: generateSourceID_def u32_def)
  have t: "timestamp_type sample_interface = KERNEL_SOFTWARE_TIMESTAMP" by (simp add: timestamp_type_def sample_interface_def)
  have e: "seBinder sample_startup = all_work" by (simp add: sample_startup_def)
  obtain s where s: "source_connect (socketEnv all_work 1) sample_started_source = (True, True, s)" "srcBuffer s = Some (new_queue 10)"
    by (auto simp: source_connect_def source_start_def all_work_def working_sockets_def sample_started_source_def IFNAMSIZ_def new_source_def
        thread_create_def thread_alive_def new_thread_def Let_def)
  have i: "srcID sample_started_source = 1" by (simp add: sample_started_source_def new_source_def)
  have c: "consumerCreated all_work 1" by (simp add: all_work_def)
  show ?thesis
    using s
    by (simp del: One_nat_def add: start_can_def assms g t e i sample_source_init addVehicleDataSource_def connect_source_def bindConsumerToVehicleDataSource_def
        INVALID_DATA_SOURCE_ID_def new_binder_def consumer_init_def new_consumer_def setCANBufferPtr_def setInputBuffer_def setChannelMetadata_def
        consumer_connect_def consumer_start_def c created_alive Let_def)
qed

lemma sample_starts: "\<exists>p. engine_connect sample_startup sample_config new_program = Inr (True, p)"
proof -
  let ?e = sample_startup and ?c = sample_config
  let ?q0 = "cloud_parts ?e ?c new_program"
  obtain l where l: "add_listener EnginePart no_listeners = (True, l)"
    using add_listener_result [of no_listeners EnginePart] by (auto simp: at_rest_def no_listeners_def told_of_def)
  have "fst (start_inspection ?e ?c ?q0)"
    using l by (simp add: start_inspection_def can_start_def worker_init_def created_alive sample_startup_def Let_def)
  then obtain q1 where q1: "start_inspection ?e ?c ?q0 = (True, q1)" by (cases "start_inspection ?e ?c ?q0") simp
  have "fst (load_scheme ?e ?c q1)" by (simp add: load_scheme_def sample_config_def)
  then obtain q2 where q2: "load_scheme ?e ?c q1 = (True, q2)" by (cases "load_scheme ?e ?c q1") simp
  have i: "pgSourceIDs q1 = 0" "pgSchema q1 = None"
    using inspection_frame [of ?e ?c ?q0] inspection_result [OF q1] q1 cloud_parts_frame [of ?e ?c new_program] by (simp_all add: new_program_def)
  have s2: "pgSchema q2 = Some no_listeners" "pgSourceIDs q2 = 0" using load_scheme_frame [OF q2] i by (simp_all add: sample_config_def)
  have "\<exists>l. add_listener ManagerPart no_listeners = (True, l)"
    using add_listener_result [of no_listeners ManagerPart] by (auto simp: at_rest_def no_listeners_def told_of_def)
  then obtain l3 where q3: "subscribe_manager (start_manager ?c q2) = Inr (True, (start_manager ?c q2)\<lparr>pgSchema := Some l3\<rparr>)"
    using s2(1) by (auto simp: subscribe_manager_def start_manager_frame)
  let ?q3 = "(start_manager ?c q2)\<lparr>pgSchema := Some l3\<rparr>"
  have n: "pgMatrixListeners ?q3 = no_listeners" "pgDictionaryListeners ?q3 = no_listeners" "pgSourceIDs ?q3 = 0"
    using s2(2) by (simp_all add: start_manager_def Let_def)
  have qt: "quiet ?q3" using n(1,2) by (simp add: quiet_def at_rest_def no_listeners_def)
  obtain l4 where l4: "add_listener InspectionPart no_listeners = (True, l4)" "at_rest l4"
    using add_listener_result [of no_listeners InspectionPart] by (auto simp: at_rest_def no_listeners_def told_of_def)
  then obtain q4 where q4: "subscribe_inspection ?q3 = (True, q4)" "pgDictionaryListeners q4 = no_listeners" "pgSourceIDs q4 = 0"
    using n by (auto simp: subscribe_inspection_def Let_def)
  obtain t where q5: "start_binder ?e q4 = (True, q4\<lparr>pgBinder := Some (new_binder\<lparr>bndThread := t\<rparr>)\<rparr>)"
    by (auto simp: start_binder_def binder_connect_def sample_startup_def all_work_def created_alive Let_def)
  let ?q5 = "q4\<lparr>pgBinder := Some (new_binder\<lparr>bndThread := t\<rparr>)\<rparr>"
  have "fst (start_can ?e ?c sample_interface ?q5)" by (rule sample_can_starts) (simp_all add: q4(3))
  then obtain q6 where q6: "start_can ?e ?c sample_interface ?q5 = (True, q6)" by (cases "start_can ?e ?c sample_interface ?q5") simp
  have d6: "pgDictionaryListeners q6 = no_listeners"
  proof -
    have "pgBinder ?q5 = Some (new_binder\<lparr>bndThread := t\<rparr>)" by simp
    from start_can_result [OF q6 this] obtain b' where
      "q6 = ?q5\<lparr>pgSourceIDs := generateSourceID (pgSourceIDs ?q5), pgConsumerIDs := generateConsumerID (pgConsumerIDs ?q5), pgBinder := Some b'\<rparr>"
      by metis
    then show ?thesis using q4(2) by simp
  qed
  have ni: "ecNetworkInterfaces ?c = [sample_interface]" "niType sample_interface = CAN_INTERFACE_TYPE"
    by (simp_all add: sample_config_def sample_interface_def)
  have si: "start_interfaces ?e ?c False (ecNetworkInterfaces ?c) ?q5 = (True, q6)"
    using q6 ni by simp
  have "\<exists>l. add_listener BinderPart no_listeners = (True, l)"
    using add_listener_result [of no_listeners BinderPart] by (auto simp: at_rest_def no_listeners_def told_of_def)
  then obtain q7 where q7: "subscribe_binder q6 = (True, q7)" using d6 by (auto simp: subscribe_binder_def)
  have "fst (connect_manager ?e q7)" by (simp add: connect_manager_def thread_create_def sample_startup_def Let_def)
  then obtain p where p: "connect_manager ?e q7 = (True, p)" by (cases "connect_manager ?e q7") simp
  show ?thesis by (simp add: engine_connect_def bus_parts_def q1 q2 q3 q4(1) q5 si q7 p)
qed

lemma startup_wires_buses_witness:
  "\<exists>p b. engine_connect sample_startup sample_config new_program = Inr (True, p) \<and> pgBinder p = Some b \<and> bus_served sample_config b 1 sample_interface \<and>
     told_of (pgSchemeReceivers p) = {CollectionSchemeListCb} \<and> told_of (pgMatrixListeners p) = {InspectionPart} \<and>
     told_of (pgDictionaryListeners p) = {BinderPart}"
proof -
  obtain p where p: "engine_connect sample_startup sample_config new_program = Inr (True, p)" using sample_starts by blast
  have c: "can_interfaces sample_config = [sample_interface]" by (simp add: can_interfaces_def sample_config_def sample_interface_def)
  have n: "\<not> obd_wanted (ecNetworkInterfaces sample_config)"
    by (simp add: obd_wanted_def sample_config_def sample_interface_def CAN_INTERFACE_TYPE_def OBD_INTERFACE_TYPE_def)
  from startup_wires_buses [OF p] c p n show ?thesis by (auto simp: obd_parts_def)
qed

lemma key_has_trailing_byte_witness:
  "\<exists>p m. engine_connect sample_startup sample_config new_program = Inr (True, p) \<and> pgModule p = Some m \<and> cmPrivateKey m = [char_of (255 :: nat)] \<and>
     createMqttConnection (seConnect sample_startup) m"
proof -
  obtain p where p: "engine_connect sample_startup sample_config new_program = Inr (True, p)" using sample_starts by blast
  have c: "length (can_interfaces sample_config) < 2 ^ 32 - 1" by (simp add: can_interfaces_def sample_config_def sample_interface_def)
  have f: "seFiles sample_startup x = Some []" for x by (simp add: sample_startup_def)
  from key_has_trailing_byte [OF p c f f] p show ?thesis by (auto simp: sample_startup_def sample_config_def)
qed

lemma local_scheme_crashes_witness:
  "\<exists>p. engine_connect sample_startup (sample_config\<lparr>ecUseJsonBasedCollectionScheme := True\<rparr>) new_program = Inr (False, p)"
proof -
  have p: "local_parse (seSorter sample_startup) (seLocalFile sample_startup []) new_local_scheme = (False, new_local_scheme)"
    by (simp add: sample_startup_def local_parse_def)
  from local_scheme_crashes [of "sample_config\<lparr>ecUseJsonBasedCollectionScheme := True\<rparr>" sample_startup False new_local_scheme] p
  show ?thesis by (simp add: sample_startup_def sample_config_def)
qed

definition sample_shutdown :: shutdown_env where
  "sample_shutdown = \<lparr>sdEngineCloses = True, sdTransmissionCloses = True, sdObdJoined = True, sdWorkerJoined = True,
     sdProfilerJoined = True, sdManagerJoined = True, sdBinder = all_work\<rparr>"

text \<open>The thread of the program, the inspection and the bus run; the retry thread does as well, and goes on.\<close>

definition sample_running :: program where
  "sample_running = new_program\<lparr>pgWorker := Some new_worker, pgManager := Some (new_manager [] False None),
     pgThread := \<lparr>thValid = True, thDone = False\<rparr>, pgWorkerThread := \<lparr>thValid = True, thDone = False\<rparr>, pgBinder := Some sample_binder,
     pgModule := Some (new_module\<lparr>cmRetryThread := snd (retry_start True (cmRetryThread new_module))\<rparr>)\<rparr>"

lemma shutdown_stops_threads_witness:
  "\<exists>p q b. engine_stop True sample_running = (True, p) \<and> engine_disconnect sample_shutdown p = Inr (True, q) \<and>
     \<not> engine_isAlive q \<and> \<not> thread_alive (pgWorkerThread q) \<and>
     pgBinder q = Some b \<and> (\<forall>k con. map_of (mDataSourcesToConsumers b) k = Some con \<longrightarrow> \<not> consumer_isAlive con) \<and>
     pgModule q = pgModule sample_running"
proof -
  obtain b where b: "binder_disconnect all_work sample_binder = (True, b)"
    using disconnect_succeeds [of all_work sample_binder] by (cases "binder_disconnect all_work sample_binder") simp
  obtain p where p: "engine_stop True sample_running = (True, p)" "p = sample_running\<lparr>pgThread := snd (thread_release True (pgThread sample_running))\<rparr>"
    by (simp add: engine_stop_def released_not_active Let_def)
  have "\<exists>q. engine_disconnect sample_shutdown p = Inr (True, q)"
    by (simp add: p(2) sample_running_def engine_disconnect_def stop_obd_def stop_inspection_def stop_profiler_def stop_manager_def stop_binder_def b
        thread_alive_def released_not_active new_program_def sample_shutdown_def Let_def)
  then obtain q where q: "engine_disconnect sample_shutdown p = Inr (True, q)" by blast
  have r: "pgBinder sample_running = Some sample_binder" by (simp add: sample_running_def)
  from shutdown_stops_threads [OF p(1) q] p(1) q r show ?thesis by auto
qed

end
