(* ===== verification/CameraSources.thy ===== *)
theory CameraSources
  imports InspectionTypes Containers VehicleMessages Listeners
begin

text \<open>
  Data of cameras over DDS (\<open>DataOverDDSModule.cpp\<close>, \<open>CameraDataPublisher.cpp\<close>,
  \<open>CameraDataSubscriber.cpp\<close>, compiled with the camera feature): events of the inspection become
  requests to the publisher of their source, which its thread writes to the network; responses are
  stored in files. The threads and the callbacks are steps that interleave; a step is what runs while a
  mutex is held. The DDS library and the file system are inputs.
\<close>

section \<open>Configuration\<close>

datatype SensorSourceType = INVALID_SENSOR_TYPE | CAMERA | RADAR | LIDAR
datatype DDSTransportType = INVALID_TRANSPORT | SHM | UDP | TCP

record dds_config =
  dcSourceID :: nat
  dcSourceType :: SensorSourceType
  dcDomainID :: nat
  dcPublishTopic :: string
  dcSubscribeTopic :: string
  dcTopicQoS :: string
  dcReaderName :: string
  dcWriterName :: string
  dcTemporaryCacheLocation :: string
  dcTransportType :: DDSTransportType

text \<open>A node of the program's configuration; a node with an unknown transport or device is left out.\<close>

record dds_node =
  dnTransport :: string
  dnDeviceType :: string
  dnConfig :: dds_config

definition read_node :: "dds_node \<Rightarrow> dds_config option" where
  "read_node n =
     (if dnTransport n \<noteq> ''SHM'' \<and> dnTransport n \<noteq> ''UDP'' \<or> dnDeviceType n \<noteq> ''CAMERA'' then None
      else Some ((dnConfig n)\<lparr>dcTransportType := (if dnTransport n = ''SHM'' then SHM else UDP), dcSourceType := CAMERA\<rparr>))"

definition read_nodes :: "dds_node list \<Rightarrow> dds_config list" where
  "read_nodes ns = List.map_filter read_node ns"

section \<open>Publishers\<close>

record camera_request =
  rqEventID :: nat
  rqNegativeOffsetMs :: nat
  rqPositiveOffsetMs :: nat

text \<open>What the library creates: participant, topic, end point and its reader or writer.\<close>

record dds_library =
  dlParticipant :: bool
  dlTopic :: bool
  dlEndpoint :: bool
  dlData :: bool

text \<open>The requests written to the network are an output.\<close>

record publisher =
  pubIsAlive :: bool
  pubRequestCompleted :: bool
  pubRequest :: camera_request
  pubNotified :: bool
  pubAwake :: bool
  pubThread :: worker_thread
  pubWritten :: "camera_request list"

definition new_publisher :: publisher where
  "new_publisher = \<lparr>pubIsAlive = False, pubRequestCompleted = True,
     pubRequest = \<lparr>rqEventID = 0, rqNegativeOffsetMs = 0, rqPositiveOffsetMs = 0\<rparr>, pubNotified = False, pubAwake = False, pubThread = new_thread, pubWritten = []\<rparr>"

definition endpoint_init :: "dds_library \<Rightarrow> dds_config \<Rightarrow> bool" where
  "endpoint_init lib c \<longleftrightarrow> dcTransportType c \<noteq> TCP \<and> dlParticipant lib \<and> dlTopic lib \<and> dlEndpoint lib \<and> dlData lib"

definition publisher_connect :: "bool \<Rightarrow> publisher \<Rightarrow> bool \<times> publisher" where
  "publisher_connect created p = (let t = snd (thread_create created (pubThread p)) in (thread_alive t, p\<lparr>pubThread := t\<rparr>))"

definition publisher_disconnect :: "bool \<Rightarrow> publisher \<Rightarrow> bool \<times> publisher" where
  "publisher_disconnect joined p = (let t = snd (thread_release joined (pubThread p)) in (thDone t, p\<lparr>pubThread := t\<rparr>))"

definition publisher_isAlive :: "publisher \<Rightarrow> bool" where
  "publisher_isAlive p \<longleftrightarrow> pubIsAlive p \<and> thread_alive (pubThread p)"

text \<open>The change of the count of matching subscribers.\<close>

definition on_publication_matched :: "int \<Rightarrow> publisher \<Rightarrow> publisher" where
  "on_publication_matched change p = (if change = 1 then p\<lparr>pubIsAlive := True\<rparr> else if change = - 1 then p\<lparr>pubIsAlive := False\<rparr> else p)"

text \<open>There is one request; a new one replaces it.\<close>

definition publishDataRequest :: "camera_request \<Rightarrow> publisher \<Rightarrow> publisher" where
  "publishDataRequest r p = p\<lparr>pubRequest := r, pubRequestCompleted := False, pubNotified := True\<rparr>"

text \<open>The thread wakes up; then, under the mutex of the request, it writes one that is not completed.\<close>

definition publisher_wake :: "publisher \<Rightarrow> publisher" where
  "publisher_wake p = p\<lparr>pubNotified := False, pubAwake := True\<rparr>"

definition publisher_send :: "publisher \<Rightarrow> publisher" where
  "publisher_send p =
     (let p = p\<lparr>pubAwake := False\<rparr> in
      if pubRequestCompleted p then p else p\<lparr>pubWritten := pubWritten p @ [pubRequest p], pubRequestCompleted := True\<rparr>)"

section \<open>Subscribers\<close>

record camera_item =
  ciDataItemId :: string
  ciFrames :: "nat list list"

record artifact =
  arPath :: string
  arSourceID :: nat

record subscriber =
  subIsAlive :: bool
  subItem :: camera_item
  subNewResponse :: bool
  subNotified :: bool
  subCachePath :: string
  subSourceID :: nat
  subThread :: worker_thread
  subModuleListens :: bool
  subTold :: "artifact list"

definition new_subscriber :: "dds_config \<Rightarrow> subscriber" where
  "new_subscriber c = \<lparr>subIsAlive = False, subItem = \<lparr>ciDataItemId = [], ciFrames = []\<rparr>, subNewResponse = False, subNotified = False,
     subCachePath = dcTemporaryCacheLocation c, subSourceID = dcSourceID c, subThread = new_thread, subModuleListens = False, subTold = []\<rparr>"

definition subscriber_connect :: "bool \<Rightarrow> subscriber \<Rightarrow> bool \<times> subscriber" where
  "subscriber_connect created s = (let t = snd (thread_create created (subThread s)) in (thread_alive t, s\<lparr>subThread := t\<rparr>))"

definition subscriber_disconnect :: "bool \<Rightarrow> subscriber \<Rightarrow> bool \<times> subscriber" where
  "subscriber_disconnect joined s = (let t = snd (thread_release joined (subThread s)) in (thDone t, s\<lparr>subThread := t\<rparr>))"

definition subscriber_isAlive :: "subscriber \<Rightarrow> bool" where
  "subscriber_isAlive s \<longleftrightarrow> subIsAlive s \<and> thread_alive (subThread s)"

definition on_subscription_matched :: "int \<Rightarrow> subscriber \<Rightarrow> subscriber" where
  "on_subscription_matched change s = (if change = 1 then s\<lparr>subIsAlive := True\<rparr> else if change = - 1 then s\<lparr>subIsAlive := False\<rparr> else s)"

text \<open>A sample that was taken is copied even if its data is not valid.\<close>

definition on_data_available :: "(bool \<times> camera_item) option \<Rightarrow> subscriber \<Rightarrow> subscriber" where
  "on_data_available sample s =
     (case sample of
        None \<Rightarrow> s
      | Some (valid, x) \<Rightarrow>
          let s = s\<lparr>subItem := x\<rparr> in if valid then s\<lparr>subNewResponse := True, subNotified := True\<rparr> else s)"

text \<open>Files by their path. The old file goes even when the new one cannot be opened; how many bytes of a write arrive is an input.\<close>

type_synonym disk = "string \<Rightarrow> nat list option"

definition persistToStorage :: "bool \<Rightarrow> (nat list \<Rightarrow> nat) \<Rightarrow> nat list list \<Rightarrow> string \<Rightarrow> disk \<Rightarrow> bool \<times> disk" where
  "persistToStorage opens written frameBuffer fileName d =
     (let d = d(fileName := None) in
      if \<not> opens then (False, d)
      else let stored = foldl (\<lambda>(ok, out) f. if ok then (written f \<ge> length f, out @ take (written f) f) else (False, out)) (True, []) frameBuffer
        in (fst stored, d(fileName \<mapsto> snd stored)))"

definition subscriber_iteration :: "bool \<Rightarrow> (nat list \<Rightarrow> nat) \<Rightarrow> subscriber \<times> disk \<Rightarrow> subscriber \<times> disk" where
  "subscriber_iteration opens written = (\<lambda>(s, d).
     let s = s\<lparr>subNotified := False\<rparr> in
     if \<not> subNewResponse s then (s, d)
     else let a = \<lparr>arPath = subCachePath s @ ciDataItemId (subItem s), arSourceID = subSourceID s\<rparr>;
              (ok, d) = persistToStorage opens written (ciFrames (subItem s)) (arPath a) d;
              s = (if ok \<and> subModuleListens s then s\<lparr>subTold := subTold s @ [a]\<rparr> else s)
          in (s\<lparr>subNewResponse := False\<rparr>, d))"

section \<open>The module\<close>

record dds_module =
  mPublishers :: "(nat \<times> publisher) list"
  mSubscribers :: "subscriber list"
  mEventMetatdata :: "EventMetadata list"
  mNewEventReceived :: bool
  modNotified :: bool
  modThread :: worker_thread

definition new_dds_module :: dds_module where
  "new_dds_module = \<lparr>mPublishers = [], mSubscribers = [], mEventMetatdata = [], mNewEventReceived = False, modNotified = False, modThread = new_thread\<rparr>"

text \<open>One publisher and one subscriber for each camera; \<open>emplace\<close> keeps a publisher that is there. The library answers for both.\<close>

fun init_sources :: "(dds_config \<Rightarrow> dds_library \<times> dds_library) \<Rightarrow> dds_config list \<Rightarrow> dds_module \<Rightarrow> bool \<times> dds_module" where
  "init_sources lib [] m = (True, m)"
| "init_sources lib (c # cs) m =
     (if dcSourceType c \<noteq> CAMERA then init_sources lib cs m
      else if \<not> endpoint_init (fst (lib c)) c \<or> \<not> endpoint_init (snd (lib c)) c then (False, m)
      else init_sources lib cs
        (m\<lparr>mPublishers := (if map_of (mPublishers m) (dcSourceID c) = None then omap_put (dcSourceID c) new_publisher (mPublishers m) else mPublishers m),
           mSubscribers := mSubscribers m @ [new_subscriber c]\<rparr>))"

definition module_init :: "(dds_config \<Rightarrow> dds_library \<times> dds_library) \<Rightarrow> dds_config list \<Rightarrow> dds_module \<Rightarrow> bool \<times> dds_module" where
  "module_init lib cs m =
     (case init_sources lib cs m of
        (ok, m) \<Rightarrow> (ok \<and> mPublishers m \<noteq> [] \<and> mSubscribers m \<noteq> [] \<and> length (mPublishers m) = length (mSubscribers m), m))"

text \<open>The first failure ends a loop; what was connected before stays so. Whether the threads are created is an input by position.\<close>

fun connect_subscribers :: "(nat \<Rightarrow> bool) \<Rightarrow> nat \<Rightarrow> subscriber list \<Rightarrow> bool \<times> subscriber list" where
  "connect_subscribers created n [] = (True, [])"
| "connect_subscribers created n (s # ss) =
     (if subModuleListens s then (False, s # ss)
      else let (ok, s) = subscriber_connect (created n) (s\<lparr>subModuleListens := True\<rparr>) in
        if \<not> ok then (False, s # ss) else let (ok, ss) = connect_subscribers created (Suc n) ss in (ok, s # ss))"

fun connect_publishers :: "(nat \<Rightarrow> bool) \<Rightarrow> (nat \<times> publisher) list \<Rightarrow> bool \<times> (nat \<times> publisher) list" where
  "connect_publishers created [] = (True, [])"
| "connect_publishers created ((i, p) # ps) =
     (let (ok, p) = publisher_connect (created i) p in
      if \<not> ok then (False, (i, p) # ps) else let (ok, ps) = connect_publishers created ps in (ok, (i, p) # ps))"

record dds_threads =
  subscriberThread :: "nat \<Rightarrow> bool"
  publisherThread :: "nat \<Rightarrow> bool"
  moduleThread :: bool

definition dds_connect :: "dds_threads \<Rightarrow> dds_module \<Rightarrow> bool \<times> dds_module" where
  "dds_connect env m =
     (let (ok, ss) = connect_subscribers (subscriberThread env) 0 (mSubscribers m); m = m\<lparr>mSubscribers := ss\<rparr> in
      if \<not> ok then (False, m)
      else let (ok, ps) = connect_publishers (publisherThread env) (mPublishers m); m = m\<lparr>mPublishers := ps\<rparr> in
        if \<not> ok then (False, m)
        else let t = snd (thread_create (moduleThread env) (modThread m)) in (thread_alive t, m\<lparr>modThread := t\<rparr>))"

fun disconnect_subscribers :: "(nat \<Rightarrow> bool) \<Rightarrow> nat \<Rightarrow> subscriber list \<Rightarrow> bool \<times> subscriber list" where
  "disconnect_subscribers joined n [] = (True, [])"
| "disconnect_subscribers joined n (s # ss) =
     (if \<not> subModuleListens s then (False, s # ss)
      else let (ok, s) = subscriber_disconnect (joined n) (s\<lparr>subModuleListens := False\<rparr>) in
        if \<not> ok then (False, s # ss) else let (ok, ss) = disconnect_subscribers joined (Suc n) ss in (ok, s # ss))"

fun disconnect_publishers :: "(nat \<Rightarrow> bool) \<Rightarrow> (nat \<times> publisher) list \<Rightarrow> bool \<times> (nat \<times> publisher) list" where
  "disconnect_publishers joined [] = (True, [])"
| "disconnect_publishers joined ((i, p) # ps) =
     (let (ok, p) = publisher_disconnect (joined i) p in
      if \<not> ok then (False, (i, p) # ps) else let (ok, ps) = disconnect_publishers joined ps in (ok, (i, p) # ps))"

definition dds_disconnect :: "dds_threads \<Rightarrow> dds_module \<Rightarrow> bool \<times> dds_module" where
  "dds_disconnect env m =
     (let (ok, ss) = disconnect_subscribers (subscriberThread env) 0 (mSubscribers m); m = m\<lparr>mSubscribers := ss\<rparr> in
      if \<not> ok then (False, m)
      else let (ok, ps) = disconnect_publishers (publisherThread env) (mPublishers m); m = m\<lparr>mPublishers := ps\<rparr> in
        if \<not> ok then (False, m)
        else let t = snd (thread_release (moduleThread env) (modThread m)) in (thDone t, m\<lparr>modThread := t\<rparr>))"

definition dds_isAlive :: "dds_module \<Rightarrow> bool" where
  "dds_isAlive m \<longleftrightarrow> list_all subscriber_isAlive (mSubscribers m) \<and> list_all (\<lambda>(i, p). publisher_isAlive p) (mPublishers m) \<and> thread_alive (modThread m)"

text \<open>What the program does at its start and stop; whether the inspection registers the module is an input.\<close>

definition start_dds :: "(dds_config \<Rightarrow> dds_library \<times> dds_library) \<Rightarrow> bool \<Rightarrow> dds_threads \<Rightarrow> dds_node list \<Rightarrow> bool \<times> dds_module option" where
  "start_dds lib registered env ns =
     (let cs = read_nodes ns in
      if cs = [] then (True, None)
      else case module_init lib cs new_dds_module of (ok, m) \<Rightarrow>
        if \<not> ok \<or> \<not> registered then (False, Some m)
        else case dds_connect env m of (ok, m) \<Rightarrow> (ok, Some m))"

definition stop_dds :: "bool \<Rightarrow> dds_threads \<Rightarrow> dds_module option \<Rightarrow> bool \<times> dds_module option" where
  "stop_dds deregistered env x =
     (case x of
        None \<Rightarrow> (True, None)
      | Some m \<Rightarrow> if \<not> deregistered then (False, Some m) else case dds_disconnect env m of (ok, m) \<Rightarrow> (ok, Some m))"

text \<open>An event replaces the one before.\<close>

definition onEventOfInterestDetected :: "EventMetadata list \<Rightarrow> dds_module \<Rightarrow> dds_module" where
  "onEventOfInterestDetected eventMetadata m = m\<lparr>mEventMetatdata := eventMetadata, mNewEventReceived := True, modNotified := True\<rparr>"

definition request_of :: "EventMetadata \<Rightarrow> camera_request" where
  "request_of e = \<lparr>rqEventID = evEventID e, rqNegativeOffsetMs = evNegativeOffsetMs e, rqPositiveOffsetMs = evPositiveOffsetMs e\<rparr>"

definition at_source :: "nat \<Rightarrow> (publisher \<Rightarrow> publisher) \<Rightarrow> (nat \<times> publisher) list \<Rightarrow> (nat \<times> publisher) list" where
  "at_source i f = map (\<lambda>(k, p). (k, if k = i then f p else p))"

text \<open>An item of the event; a source that is not configured is skipped.\<close>

definition serve_event :: "EventMetadata \<Rightarrow> dds_module \<Rightarrow> dds_module" where
  "serve_event e m = m\<lparr>mPublishers := at_source (evSourceID e) (publishDataRequest (request_of e)) (mPublishers m)\<rparr>"

section \<open>The threads together\<close>

text \<open>
  Where the thread of the module is: \<open>Serving es\<close> holds the mutex of the event, with the items
  \<open>es\<close> left; \<open>Served\<close> has released it. The events that were raised are recorded.
\<close>

datatype module_phase = AtWait | Woken | Serving "EventMetadata list" | Served

record camera_system =
  csModule :: dds_module
  csPhase :: module_phase
  csEvents :: "EventMetadata list list"

abbreviation publisher_at :: "camera_system \<Rightarrow> nat \<Rightarrow> publisher option" where
  "publisher_at s \<equiv> map_of (mPublishers (csModule s))"

definition on_publisher :: "nat \<Rightarrow> (publisher \<Rightarrow> publisher) \<Rightarrow> camera_system \<Rightarrow> camera_system" where
  "on_publisher i f s = s\<lparr>csModule := (csModule s)\<lparr>mPublishers := at_source i f (mPublishers (csModule s))\<rparr>\<rparr>"

text \<open>The inspection raises an event when it gets the mutex, thus not while one is served.\<close>

definition event_free :: "camera_system \<Rightarrow> bool" where
  "event_free s \<longleftrightarrow> (\<forall>es. csPhase s \<noteq> Serving es)"

definition raise_event :: "EventMetadata list \<Rightarrow> camera_system \<Rightarrow> camera_system" where
  "raise_event es s = s\<lparr>csModule := onEventOfInterestDetected es (csModule s), csEvents := csEvents s @ [es]\<rparr>"

text \<open>The steps of the threads. The flag of a new event is reset after the mutexes are released.\<close>

inductive thread_step :: "camera_system \<Rightarrow> camera_system \<Rightarrow> bool" where
  wake: "csPhase s = AtWait \<Longrightarrow> modNotified (csModule s) \<Longrightarrow>
     thread_step s (s\<lparr>csPhase := Woken, csModule := (csModule s)\<lparr>modNotified := False\<rparr>\<rparr>)"
| nothing: "csPhase s = Woken \<Longrightarrow> \<not> mNewEventReceived (csModule s) \<Longrightarrow> thread_step s (s\<lparr>csPhase := AtWait\<rparr>)"
| serve: "csPhase s = Woken \<Longrightarrow> mNewEventReceived (csModule s) \<Longrightarrow>
     thread_step s (s\<lparr>csPhase := Serving (mEventMetatdata (csModule s))\<rparr>)"
| serve_item: "csPhase s = Serving (e # es) \<Longrightarrow> thread_step s (s\<lparr>csPhase := Serving es, csModule := serve_event e (csModule s)\<rparr>)"
| release: "csPhase s = Serving [] \<Longrightarrow> thread_step s (s\<lparr>csPhase := Served\<rparr>)"
| reset: "csPhase s = Served \<Longrightarrow> thread_step s (s\<lparr>csPhase := AtWait, csModule := (csModule s)\<lparr>mNewEventReceived := False\<rparr>\<rparr>)"
| publisher_wakes: "publisher_at s i = Some p \<Longrightarrow> \<not> pubAwake p \<Longrightarrow> pubNotified p \<Longrightarrow> thread_step s (on_publisher i publisher_wake s)"
| publisher_sends: "publisher_at s i = Some p \<Longrightarrow> pubAwake p \<Longrightarrow> thread_step s (on_publisher i publisher_send s)"

inductive_cases thread_stepE: "thread_step s s'"

inductive camera_reachable :: "camera_system \<Rightarrow> bool" where
  initialised: "module_init lib cs new_dds_module = (True, m) \<Longrightarrow> camera_reachable \<lparr>csModule = m, csPhase = AtWait, csEvents = []\<rparr>"
| raised: "camera_reachable s \<Longrightarrow> event_free s \<Longrightarrow> camera_reachable (raise_event es s)"
| stepped: "camera_reachable s \<Longrightarrow> thread_step s s' \<Longrightarrow> camera_reachable s'"

end
