(* ===== verification/CameraRequests.thy ===== *)
theory CameraRequests
  imports CameraSources "HOL-Library.Sublist"
begin

text \<open>
  What reaches the cameras: every request that is written to the network belongs to an event; an event
  raised at rest is requested from every camera it names; an event that arrives while the one before is
  finished is lost. The threads come to rest whenever no event is raised.
\<close>

section \<open>Publishers of a source\<close>

lemma map_of_at_source: "map_of (at_source i f ps) k = (if k = i then map_option f (map_of ps i) else map_of ps k)"
  by (induction ps) (auto simp: at_source_def)

lemma keys_at_source [simp]: "fst ` set (at_source i f ps) = fst ` set ps"
  by (force simp: at_source_def)

lemma on_publisher_at: "publisher_at (on_publisher i f s) k = (if k = i then map_option f (publisher_at s i) else publisher_at s k)"
  by (simp add: on_publisher_def map_of_at_source)

lemma serve_event_at: "map_of (mPublishers (serve_event e m)) k =
    (if k = evSourceID e then map_option (publishDataRequest (request_of e)) (map_of (mPublishers m) k) else map_of (mPublishers m) k)"
  by (simp add: serve_event_def map_of_at_source)

section \<open>Only what was asked for\<close>

text \<open>The requests of a publisher: those written, and the one that waits.\<close>

definition requests_of :: "publisher \<Rightarrow> camera_request set" where
  "requests_of p = set (pubWritten p) \<union> (if pubRequestCompleted p then {} else {pubRequest p})"

definition requested :: "EventMetadata list list \<Rightarrow> nat \<Rightarrow> camera_request set" where
  "requested ess k = {request_of e | e es. es \<in> set ess \<and> e \<in> set es \<and> evSourceID e = k}"

definition only_requested :: "camera_system \<Rightarrow> bool" where
  "only_requested s \<longleftrightarrow> (\<forall>k p. publisher_at s k = Some p \<longrightarrow> requests_of p \<subseteq> requested (csEvents s) k) \<and>
     (mNewEventReceived (csModule s) \<longrightarrow> mEventMetatdata (csModule s) \<in> set (csEvents s)) \<and>
     (\<forall>rest. csPhase s = Serving rest \<longrightarrow> (\<exists>es \<in> set (csEvents s). set rest \<subseteq> set es))"

lemma requests_of_send: "requests_of (publisher_send p) = requests_of p"
  by (simp add: requests_of_def publisher_send_def Let_def)

lemma requests_of_wake: "requests_of (publisher_wake p) = requests_of p"
  by (simp add: requests_of_def publisher_wake_def)

lemma requests_of_publish: "requests_of (publishDataRequest r p) \<subseteq> insert r (requests_of p)"
  by (auto simp: requests_of_def publishDataRequest_def)

text \<open>A module whose publishers are as they were made.\<close>

definition untouched :: "dds_module \<Rightarrow> bool" where
  "untouched m \<longleftrightarrow> (\<forall>k p. map_of (mPublishers m) k = Some p \<longrightarrow> p = new_publisher) \<and> \<not> mNewEventReceived m \<and> \<not> modNotified m"

lemma untouched_add: "untouched m \<Longrightarrow> untouched (m\<lparr>mPublishers := omap_put i new_publisher (mPublishers m), mSubscribers := ss\<rparr>)"
  by (auto simp: untouched_def)

lemma untouched_subscribers: "untouched m \<Longrightarrow> untouched (m\<lparr>mSubscribers := ss\<rparr>)"
  by (simp add: untouched_def)

lemma untouched_init: "untouched m \<Longrightarrow> untouched (snd (init_sources lib cs m))"
proof (induction cs arbitrary: m)
  case (Cons c cs)
  show ?case
    by (simp add: Cons untouched_add untouched_subscribers)
qed simp

lemma module_init_result:
  assumes "module_init lib cs new_dds_module = (ok, m)"
  shows "untouched m"
proof -
  have "m = snd (init_sources lib cs new_dds_module)" using assms by (simp add: module_init_def split: prod.splits)
  moreover have "untouched new_dds_module" by (simp add: untouched_def new_dds_module_def)
  ultimately show ?thesis by (simp add: untouched_init)
qed

lemma only_requested_publishers:
  assumes "only_requested s" and "\<And>p. requests_of (f p) = requests_of p"
  shows "only_requested (on_publisher i f s)"
proof -
  have "requests_of p' \<subseteq> requested (csEvents s) k" if "publisher_at (on_publisher i f s) k = Some p'" for k p'
    using assms(1) that by (auto simp: on_publisher_at only_requested_def assms(2) split: if_splits; blast)
  then show ?thesis using assms(1) by (auto simp: only_requested_def on_publisher_def)
qed

lemma only_requested_serve:
  assumes "only_requested s" and "csPhase s = Serving (e # es)"
  shows "only_requested (s\<lparr>csPhase := Serving es, csModule := serve_event e (csModule s)\<rparr>)"
proof -
  have new: "request_of e \<in> requested (csEvents s) (evSourceID e)"
    using assms by (fastforce simp: only_requested_def requested_def)
  have "requests_of p' \<subseteq> requested (csEvents s) k" if p': "map_of (mPublishers (serve_event e (csModule s))) k = Some p'" for k p'
  proof (cases "k = evSourceID e")
    case True
    obtain p where "publisher_at s k = Some p" "p' = publishDataRequest (request_of e) p" using p' True by (auto simp: serve_event_at)
    then show ?thesis using assms(1) new requests_of_publish [of "request_of e" p] True by (auto simp: only_requested_def)
  next
    case False
    then show ?thesis using assms(1) p' by (auto simp: serve_event_at only_requested_def)
  qed
  then have "\<forall>k p'. map_of (mPublishers (serve_event e (csModule s))) k = Some p' \<longrightarrow> requests_of p' \<subseteq> requested (csEvents s) k" by blast
  moreover have "\<exists>ess \<in> set (csEvents s). set es \<subseteq> set ess" using assms by (auto simp: only_requested_def)
  moreover have "mNewEventReceived (serve_event e (csModule s)) \<longrightarrow> mEventMetatdata (serve_event e (csModule s)) \<in> set (csEvents s)"
    using assms(1) by (simp add: only_requested_def serve_event_def)
  ultimately show ?thesis by (simp add: only_requested_def)
qed

lemma step_only_requested:
  assumes "thread_step s s'" and "only_requested s"
  shows "only_requested s'"
  using assms(1)
proof (cases rule: thread_step.cases)
  case (serve_item e es)
  then show ?thesis using only_requested_serve [OF assms(2)] by simp
next
  case (publisher_wakes i p)
  then show ?thesis using only_requested_publishers [OF assms(2) requests_of_wake] by simp
next
  case (publisher_sends i p)
  then show ?thesis using only_requested_publishers [OF assms(2) requests_of_send] by simp
qed (use assms(2) in \<open>auto simp: only_requested_def\<close>)

lemma reachable_only_requested: "camera_reachable s \<Longrightarrow> only_requested s"
proof (induction rule: camera_reachable.induct)
  case (initialised lib cs m)
  have "requests_of new_publisher = {}" by (simp add: requests_of_def new_publisher_def)
  then show ?case using module_init_result [OF initialised] by (auto simp: only_requested_def untouched_def)
next
  case (raised s es)
  have "requested (csEvents s) k \<subseteq> requested (csEvents s @ [es]) k" for k by (auto simp: requested_def)
  then show ?case using raised
    by (fastforce simp: only_requested_def raise_event_def onEventOfInterestDetected_def event_free_def)
next
  case (stepped s s')
  then show ?case using step_only_requested by blast
qed

text \<open>
  In every state that can be reached, each request that was written to the network by the publisher
  of a source is the request of an item of an event for this source, with its event number and offsets.
\<close>

theorem cameras_get_requested:
  assumes "camera_reachable s" and "publisher_at s k = Some p" and "r \<in> set (pubWritten p)"
  shows "\<exists>es \<in> set (csEvents s). \<exists>e \<in> set es. evSourceID e = k \<and>
    r = \<lparr>rqEventID = evEventID e, rqNegativeOffsetMs = evNegativeOffsetMs e, rqPositiveOffsetMs = evPositiveOffsetMs e\<rparr>"
proof -
  have "r \<in> requested (csEvents s) k"
    using reachable_only_requested [OF assms(1)] assms(2,3) by (auto simp: only_requested_def requests_of_def)
  then show ?thesis by (auto simp: requested_def request_of_def)
qed

section \<open>An event at rest\<close>

definition publisher_idle :: "publisher \<Rightarrow> bool" where
  "publisher_idle p \<longleftrightarrow> pubRequestCompleted p \<and> \<not> pubNotified p \<and> \<not> pubAwake p"

definition at_rest :: "camera_system \<Rightarrow> bool" where
  "at_rest s \<longleftrightarrow> csPhase s = AtWait \<and> \<not> modNotified (csModule s) \<and> \<not> mNewEventReceived (csModule s) \<and>
     (\<forall>k p. publisher_at s k = Some p \<longrightarrow> publisher_idle p)"

definition asked_of :: "nat \<Rightarrow> EventMetadata list \<Rightarrow> camera_request list" where
  "asked_of k es = map request_of (filter (\<lambda>e. evSourceID e = k) es)"

text \<open>A publisher that wrote \<open>old\<close> before, was given the requests \<open>rs\<close> since and wrote \<open>ws\<close>.\<close>

definition follows :: "camera_request list \<Rightarrow> camera_request list \<Rightarrow> camera_request list \<Rightarrow> publisher \<Rightarrow> bool" where
  "follows old rs ws p \<longleftrightarrow> pubWritten p = old @ ws \<and>
     (if rs = [] then ws = [] \<and> publisher_idle p
      else if pubRequestCompleted p then subseq ws rs \<and> ws \<noteq> [] \<and> last ws = last rs
      else subseq (ws @ [pubRequest p]) rs \<and> pubRequest p = last rs \<and> (pubNotified p \<or> pubAwake p))"

lemma follows_subseq: "follows old rs ws p \<Longrightarrow> subseq ws rs"
proof -
  assume f: "follows old rs ws p"
  have "subseq ws (ws @ [pubRequest p])" by (simp add: prefix_imp_subseq)
  then show ?thesis using f subseq_order.trans by (fastforce simp: follows_def split: if_splits)
qed

lemma follows_publish: "follows old rs ws p \<Longrightarrow> follows old (rs @ [r]) ws (publishDataRequest r p)"
  by (frule follows_subseq) (simp add: follows_def publishDataRequest_def)

lemma follows_wake: "follows old rs ws p \<Longrightarrow> pubNotified p \<Longrightarrow> follows old rs ws (publisher_wake p)"
  by (cases "pubRequestCompleted p"; cases "rs = []") (auto simp: follows_def publisher_wake_def publisher_idle_def)

lemma follows_send: "follows old rs ws p \<Longrightarrow> pubAwake p \<Longrightarrow> \<exists>ws. follows old rs ws (publisher_send p)"
  by (cases "pubRequestCompleted p"; cases "rs = []") (auto simp: follows_def publisher_send_def publisher_idle_def Let_def)

section \<open>Runs after an event\<close>

text \<open>How far the module is: the items of the event \<open>es\<close> it has served.\<close>

definition progress :: "EventMetadata list \<Rightarrow> EventMetadata list \<Rightarrow> camera_system \<Rightarrow> bool" where
  "progress es dn s \<longleftrightarrow> mEventMetatdata (csModule s) = es \<and>
     (case csPhase s of
        AtWait \<Rightarrow> if modNotified (csModule s) then mNewEventReceived (csModule s) \<and> dn = [] else \<not> mNewEventReceived (csModule s) \<and> dn = es
      | Woken \<Rightarrow> \<not> modNotified (csModule s) \<and> mNewEventReceived (csModule s) \<and> dn = []
      | Serving rest \<Rightarrow> \<not> modNotified (csModule s) \<and> es = dn @ rest
      | Served \<Rightarrow> \<not> modNotified (csModule s) \<and> dn = es)"

definition publishers_follow :: "camera_system \<Rightarrow> EventMetadata list \<Rightarrow> camera_system \<Rightarrow> bool" where
  "publishers_follow s0 dn s \<longleftrightarrow> (\<forall>k. rel_option (\<lambda>p0 p. \<exists>ws. follows (pubWritten p0) (asked_of k dn) ws p) (publisher_at s0 k) (publisher_at s k))"

lemma publishers_follow_at:
  "publishers_follow s0 dn s \<Longrightarrow> publisher_at s k = Some p \<Longrightarrow>
     \<exists>p0 ws. publisher_at s0 k = Some p0 \<and> follows (pubWritten p0) (asked_of k dn) ws p"
  by (cases "publisher_at s0 k") (force simp: publishers_follow_def dest: spec [of _ k])+

lemma publishers_follow_frame:
  "publishers_follow s0 dn s \<Longrightarrow> mPublishers (csModule s') = mPublishers (csModule s) \<Longrightarrow> publishers_follow s0 dn s'"
  by (simp add: publishers_follow_def)

lemma publishers_follow_on:
  assumes "publishers_follow s0 dn s" and "publisher_at s i = Some p"
    and "\<And>old rs ws. follows old rs ws p \<Longrightarrow> \<exists>ws. follows old rs ws (f p)"
  shows "publishers_follow s0 dn (on_publisher i f s)"
  unfolding publishers_follow_def
proof
  fix k
  show "rel_option (\<lambda>p0 p. \<exists>ws. follows (pubWritten p0) (asked_of k dn) ws p) (publisher_at s0 k) (publisher_at (on_publisher i f s) k)"
  proof (cases "k = i")
    case True
    then show ?thesis using publishers_follow_at [OF assms(1,2)] assms(2,3) by (auto simp: on_publisher_at)
  next
    case False
    then show ?thesis using assms(1) by (simp add: on_publisher_at publishers_follow_def)
  qed
qed

lemma publishers_follow_serve:
  assumes "publishers_follow s0 dn s"
  shows "publishers_follow s0 (dn @ [e]) (s\<lparr>csPhase := ph, csModule := serve_event e (csModule s)\<rparr>)"
  unfolding publishers_follow_def
proof
  fix k
  have r: "rel_option (\<lambda>p0 p. \<exists>ws. follows (pubWritten p0) (asked_of k dn) ws p) (publisher_at s0 k) (publisher_at s k)"
    using assms by (simp add: publishers_follow_def)
  show "rel_option (\<lambda>p0 p. \<exists>ws. follows (pubWritten p0) (asked_of k (dn @ [e])) ws p) (publisher_at s0 k)
      (publisher_at (s\<lparr>csPhase := ph, csModule := serve_event e (csModule s)\<rparr>) k)"
  proof (cases "k = evSourceID e")
    case True
    then show ?thesis using r by (cases "publisher_at s k"; cases "publisher_at s0 k")
      (auto simp: serve_event_at asked_of_def dest: follows_publish)
  next
    case False
    then show ?thesis using r by (simp add: serve_event_at asked_of_def)
  qed
qed

lemma progress_on_publisher:
  assumes "progress es dn s"
  shows "progress es dn (on_publisher i f s)"
  using assms by (cases "csPhase s") (simp_all add: progress_def on_publisher_def)

lemma event_run_step:
  assumes "thread_step s s'" and "progress es dn s" and "publishers_follow s0 dn s"
  shows "\<exists>dn. progress es dn s' \<and> publishers_follow s0 dn s'"
  using assms(1)
proof (cases rule: thread_step.cases)
  case (serve_item e rest)
  have "progress es (dn @ [e]) s'" using assms(2) serve_item by (simp add: progress_def serve_event_def)
  moreover have "publishers_follow s0 (dn @ [e]) s'" unfolding serve_item(1) by (rule publishers_follow_serve [OF assms(3)])
  ultimately show ?thesis by blast
next
  case (publisher_wakes i p)
  have "progress es dn s'" unfolding publisher_wakes(1) by (rule progress_on_publisher [OF assms(2)])
  moreover have "publishers_follow s0 dn s'" unfolding publisher_wakes(1)
    using follows_wake publisher_wakes(4) by (intro publishers_follow_on [OF assms(3) publisher_wakes(2)]) blast
  ultimately show ?thesis by blast
next
  case (publisher_sends i p)
  have "progress es dn s'" unfolding publisher_sends(1) by (rule progress_on_publisher [OF assms(2)])
  moreover have "publishers_follow s0 dn s'" unfolding publisher_sends(1)
    using follows_send publisher_sends(3) by (intro publishers_follow_on [OF assms(3) publisher_sends(2)]) blast
  ultimately show ?thesis by blast
qed (use assms(2) publishers_follow_frame [OF assms(3)] in \<open>auto simp: progress_def split: if_splits\<close>)

lemma event_run:
  assumes "thread_step\<^sup>*\<^sup>* s s'" and "\<exists>dn. progress es dn s \<and> publishers_follow s0 dn s"
  shows "\<exists>dn. progress es dn s' \<and> publishers_follow s0 dn s'"
  using assms by (induction rule: rtranclp_induct) (use event_run_step in blast)+

lemma stuck_phase:
  assumes "\<And>s'. \<not> thread_step s s'"
  shows "csPhase s = AtWait \<and> \<not> modNotified (csModule s)"
proof (cases "csPhase s")
  case AtWait
  then show ?thesis using assms wake by blast
next
  case Woken
  then show ?thesis using assms thread_step.nothing serve by blast
next
  case (Serving rest)
  then show ?thesis using assms serve_item release by (cases rest) blast+
next
  case Served
  then show ?thesis using assms reset by blast
qed

lemma stuck_publisher:
  assumes "\<And>s'. \<not> thread_step s s'" and "publisher_at s k = Some p"
  shows "\<not> pubNotified p \<and> \<not> pubAwake p"
  using assms publisher_wakes publisher_sends by blast

lemma event_begins:
  assumes "at_rest s"
  shows "progress es [] (raise_event es s) \<and> publishers_follow s [] (raise_event es s)"
proof
  show "progress es [] (raise_event es s)"
    using assms by (simp add: progress_def raise_event_def onEventOfInterestDetected_def at_rest_def)
  have "rel_option (\<lambda>p0 p. \<exists>ws. follows (pubWritten p0) (asked_of k []) ws p) (publisher_at s k) (publisher_at s k)" for k
    using assms by (cases "publisher_at s k") (auto simp: follows_def asked_of_def at_rest_def)
  then show "publishers_follow s [] (raise_event es s)"
    by (simp add: publishers_follow_def raise_event_def onEventOfInterestDetected_def)
qed

text \<open>
  C25. When an event is raised at rest and the threads then run until none can go on, each configured
  source has been asked: the requests it was sent are some of those of the event for it, in order, and
  the last of the event is the last one sent (earlier ones for the same source may be replaced before
  they are sent). A source the event does not name is sent nothing, and all is at rest again.
\<close>

theorem event_is_requested:
  assumes "at_rest s" and "thread_step\<^sup>*\<^sup>* (raise_event es s) s'" and "\<And>s''. \<not> thread_step s' s''"
  shows "at_rest s' \<and> (\<forall>k. rel_option (\<lambda>p p'. \<exists>ws. pubWritten p' = pubWritten p @ ws \<and> subseq ws (asked_of k es) \<and>
    (asked_of k es \<noteq> [] \<longrightarrow> ws \<noteq> [] \<and> last ws = last (asked_of k es))) (publisher_at s k) (publisher_at s' k))"
proof -
  obtain dn where dn: "progress es dn s'" "publishers_follow s dn s'"
    using event_run [OF assms(2)] event_begins [OF assms(1)] by blast
  have ph: "csPhase s' = AtWait" "\<not> modNotified (csModule s')" using stuck_phase [OF assms(3)] by auto
  then have e: "dn = es" "\<not> mNewEventReceived (csModule s')" using dn(1) by (auto simp: progress_def)
  have p: "publisher_idle p \<and> (asked_of k es \<noteq> [] \<longrightarrow> ws \<noteq> [] \<and> last ws = last (asked_of k es)) \<and> pubWritten p = old @ ws"
    if "publisher_at s' k = Some p" "follows old (asked_of k es) ws p" for k p old ws
    using that stuck_publisher [OF assms(3) that(1)] by (auto simp: follows_def publisher_idle_def split: if_splits)
  have "at_rest s'"
    using ph e p publishers_follow_at [OF dn(2)] by (fastforce simp: at_rest_def)
  moreover have "rel_option (\<lambda>p p'. \<exists>ws. pubWritten p' = pubWritten p @ ws \<and> subseq ws (asked_of k es) \<and>
    (asked_of k es \<noteq> [] \<longrightarrow> ws \<noteq> [] \<and> last ws = last (asked_of k es))) (publisher_at s k) (publisher_at s' k)" for k
  proof (cases "publisher_at s' k")
    case None
    then show ?thesis using dn(2) by (cases "publisher_at s k") (force simp: publishers_follow_def dest: spec [of _ k])+
  next
    case (Some p)
    from publishers_follow_at [OF dn(2) Some] obtain p0 ws where
      "publisher_at s k = Some p0" "follows (pubWritten p0) (asked_of k es) ws p" unfolding e(1) by blast
    then show ?thesis using p [OF Some] follows_subseq Some by (auto simp: publisher_idle_def)
  qed
  ultimately show ?thesis by blast
qed

section \<open>The threads come to rest\<close>

text \<open>The steps that are left: two of a publisher that is notified, one of one that is awake.\<close>

definition publisher_work :: "publisher option \<Rightarrow> nat" where
  "publisher_work x = (case x of None \<Rightarrow> 0 | Some p \<Rightarrow> (if pubNotified p then 2 else 0) + (if pubAwake p then 1 else 0))"

definition publishers_work :: "dds_module \<Rightarrow> nat" where
  "publishers_work m = (\<Sum>k \<in> fst ` set (mPublishers m). publisher_work (map_of (mPublishers m) k))"

definition work_left :: "camera_system \<Rightarrow> nat" where
  "work_left s = publishers_work (csModule s) +
     (if modNotified (csModule s) then 4 + 3 * length (mEventMetatdata (csModule s)) else 0) +
     (case csPhase s of
        AtWait \<Rightarrow> 0
      | Woken \<Rightarrow> 3 + 3 * length (mEventMetatdata (csModule s))
      | Serving es \<Rightarrow> 2 + 3 * length es
      | Served \<Rightarrow> 1)"

lemma sum_one_less:
  fixes f g :: "'a \<Rightarrow> nat"
  assumes "finite K" and "i \<in> K" and "f i < g i" and "\<And>k. k \<noteq> i \<Longrightarrow> f k = g k"
  shows "sum f K < sum g K"
  using assms by (intro sum_strict_mono_ex1) (auto intro: order.strict_implies_order, metis order_less_imp_le order_refl)

lemma sum_one_more:
  fixes f g :: "'a \<Rightarrow> nat"
  assumes "finite K" and "f i \<le> g i + 2" and "\<And>k. k \<noteq> i \<Longrightarrow> f k = g k"
  shows "sum f K \<le> sum g K + 2"
proof -
  have "sum f K \<le> (\<Sum>k \<in> K. g k + (if k = i then 2 else 0))" using assms(2,3) by (intro sum_mono) auto
  also have "\<dots> \<le> sum g K + 2" using assms(1) by (simp add: sum.distrib sum.delta)
  finally show ?thesis .
qed

lemma key_of_publisher: "publisher_at s i = Some p \<Longrightarrow> i \<in> fst ` set (mPublishers (csModule s))"
  by (force dest: map_of_SomeD)

lemma work_on_publisher:
  assumes "publisher_at s i = Some p" and "publisher_work (Some (f p)) < publisher_work (Some p)"
  shows "work_left (on_publisher i f s) < work_left s"
proof -
  have "publishers_work (csModule (on_publisher i f s)) < publishers_work (csModule s)"
    unfolding publishers_work_def using key_of_publisher [OF assms(1)] assms
    by (simp add: on_publisher_def map_of_at_source) (rule sum_one_less [of _ i]; simp)
  then show ?thesis by (cases "csPhase s") (simp_all add: work_left_def on_publisher_def)
qed

lemma work_publish: "publisher_work (map_option (publishDataRequest r) x) \<le> publisher_work x + 2"
  by (simp add: publisher_work_def publishDataRequest_def split: option.split)

lemma work_serve_event: "publishers_work (serve_event e m) \<le> publishers_work m + 2"
proof -
  have "(\<Sum>k \<in> fst ` set (mPublishers m). publisher_work (map_of (mPublishers (serve_event e m)) k)) \<le> publishers_work m + 2"
    unfolding publishers_work_def serve_event_at by (rule sum_one_more [of _ _ "evSourceID e"]) (simp_all add: work_publish del: add_2_eq_Suc')
  then show ?thesis by (simp add: publishers_work_def [of "serve_event e m"]) (simp add: serve_event_def)
qed

lemma step_works: "thread_step s s' \<Longrightarrow> work_left s' < work_left s"
proof (induction rule: thread_step.induct)
  case (serve_item s e es)
  then show ?case using work_serve_event [of e "csModule s"] by (simp add: work_left_def) (simp add: serve_event_def)
next
  case (publisher_wakes s i p)
  then show ?case by (intro work_on_publisher [of s i p]) (simp_all add: publisher_work_def publisher_wake_def)
next
  case (publisher_sends s i p)
  then show ?case by (intro work_on_publisher [of s i p]) (simp_all add: publisher_work_def publisher_send_def Let_def)
qed (simp_all add: work_left_def publishers_work_def)

lemma steps_work: "(thread_step ^^ n) s s' \<Longrightarrow> n + work_left s' \<le> work_left s"
proof (induction n arbitrary: s')
  case (Suc n)
  then obtain t where "(thread_step ^^ n) s t" "thread_step t s'" by auto
  then show ?case using Suc.IH step_works by fastforce
qed simp

lemma runs_end: "\<exists>s'. thread_step\<^sup>*\<^sup>* s s' \<and> (\<forall>s''. \<not> thread_step s' s'')"
proof (induction "work_left s" arbitrary: s rule: less_induct)
  case less
  show ?case
  proof (cases "\<exists>t. thread_step s t")
    case True
    then obtain t where t: "thread_step s t" by blast
    then show ?thesis using less [OF step_works [OF t]] by (meson converse_rtranclp_into_rtranclp)
  qed blast
qed

text \<open>
  After an event with $n$ items that is raised at rest, the threads make at most $4 + 3n$ steps, however
  they interleave: four of the module and, for each item, one of the module and two of a publisher.
\<close>

theorem threads_come_to_rest:
  assumes "at_rest s" and "(thread_step ^^ n) (raise_event es s) s'"
  shows "n \<le> 4 + 3 * length es"
proof -
  have "publishers_work (csModule (raise_event es s)) = 0"
    using assms(1) by (auto simp: publishers_work_def publisher_work_def raise_event_def onEventOfInterestDetected_def at_rest_def publisher_idle_def split: option.split)
  then have "work_left (raise_event es s) = 4 + 3 * length es"
    using assms(1) by (simp add: work_left_def raise_event_def onEventOfInterestDetected_def at_rest_def)
  then show ?thesis using steps_work [OF assms(2)] by simp
qed

section \<open>An event that is lost\<close>

definition nothing_new :: "camera_system \<Rightarrow> camera_system \<Rightarrow> bool" where
  "nothing_new s0 s \<longleftrightarrow> (csPhase s = AtWait \<or> csPhase s = Woken) \<and> \<not> mNewEventReceived (csModule s) \<and>
     (\<forall>k p. publisher_at s k = Some p \<longrightarrow> (\<exists>p0. publisher_at s0 k = Some p0 \<and> requests_of p \<subseteq> requests_of p0))"

lemma nothing_new_on_publisher:
  assumes "nothing_new s0 s" and "\<And>p. requests_of (f p) = requests_of p"
  shows "nothing_new s0 (on_publisher i f s)"
proof -
  have "\<exists>p0. publisher_at s0 k = Some p0 \<and> requests_of p' \<subseteq> requests_of p0" if at: "publisher_at (on_publisher i f s) k = Some p'" for k p'
  proof (cases "k = i")
    case True
    obtain p where "publisher_at s i = Some p" "p' = f p" using at by (cases "publisher_at s i") (simp_all add: on_publisher_at True)
    then show ?thesis using assms True by (auto simp: nothing_new_def)
  next
    case False
    then show ?thesis using assms(1) at by (simp add: on_publisher_at nothing_new_def)
  qed
  then show ?thesis using assms(1) by (simp add: nothing_new_def) (simp add: on_publisher_def)
qed

lemma step_nothing_new:
  assumes "thread_step s s'" and "nothing_new s0 s"
  shows "nothing_new s0 s'"
  using assms(1)
proof (cases rule: thread_step.cases)
  case (publisher_wakes i p)
  then show ?thesis using nothing_new_on_publisher [OF assms(2) requests_of_wake] by simp
next
  case (publisher_sends i p)
  then show ?thesis using nothing_new_on_publisher [OF assms(2) requests_of_send] by simp
qed (use assms(2) in \<open>simp_all add: nothing_new_def\<close>)

lemma steps_nothing_new: "thread_step\<^sup>*\<^sup>* s s' \<Longrightarrow> nothing_new s0 s \<Longrightarrow> nothing_new s0 s'"
  by (induction rule: rtranclp_induct) (use step_nothing_new in blast)+

text \<open>
  C40. An event that is raised after the one before was served, but before its flag is reset, is lost: the
  reset clears the flag, and no publisher ever gets a request it did not have before.
\<close>

theorem event_during_reset_lost:
  assumes "csPhase s = Served" and "thread_step (raise_event es s) s1" and "csPhase s1 = AtWait" and "thread_step\<^sup>*\<^sup>* s1 s2"
    and "publisher_at s2 k = Some p2"
  shows "\<exists>p. publisher_at s k = Some p \<and> requests_of p2 \<subseteq> requests_of p"
proof -
  have "nothing_new s s1"
    using assms(2)
  proof (cases rule: thread_step.cases)
    case reset
    then show ?thesis by (simp add: nothing_new_def raise_event_def onEventOfInterestDetected_def)
  qed (use assms(1,3) in \<open>simp_all add: raise_event_def on_publisher_def\<close>)
  from steps_nothing_new [OF assms(4) this] show ?thesis using assms(5) by (auto simp: nothing_new_def)
qed

section \<open>Two cameras\<close>

definition sample_camera_config :: "nat \<Rightarrow> dds_config" where
  "sample_camera_config k = \<lparr>dcSourceID = k, dcSourceType = CAMERA, dcDomainID = 0, dcPublishTopic = ''request'', dcSubscribeTopic = ''response'',
     dcTopicQoS = [], dcReaderName = ''reader'', dcWriterName = ''writer'', dcTemporaryCacheLocation = ''/tmp/'', dcTransportType = SHM\<rparr>"

definition sample_cameras :: camera_system where
  "sample_cameras = \<lparr>csModule = snd (module_init (\<lambda>c. (\<lparr>dlParticipant = True, dlTopic = True, dlEndpoint = True, dlData = True\<rparr>,
       \<lparr>dlParticipant = True, dlTopic = True, dlEndpoint = True, dlData = True\<rparr>)) [sample_camera_config 1, sample_camera_config 2] new_dds_module),
     csPhase = AtWait, csEvents = []\<rparr>"

definition sample_camera_event :: "nat \<Rightarrow> EventMetadata list" where
  "sample_camera_event k = [\<lparr>evEventID = k, evSourceID = 1, evNegativeOffsetMs = 100, evPositiveOffsetMs = 200\<rparr>]"

lemma sample_cameras_at: "publisher_at sample_cameras k = (if k = 1 \<or> k = 2 then Some new_publisher else None)"
  by (simp add: sample_cameras_def module_init_def endpoint_init_def sample_camera_config_def new_dds_module_def)

lemma sample_cameras_rest: "at_rest sample_cameras"
proof -
  have "csPhase sample_cameras = AtWait \<and> \<not> modNotified (csModule sample_cameras) \<and> \<not> mNewEventReceived (csModule sample_cameras)"
    by (simp add: sample_cameras_def module_init_def endpoint_init_def sample_camera_config_def new_dds_module_def)
  then show ?thesis by (simp add: at_rest_def sample_cameras_at publisher_idle_def new_publisher_def)
qed

lemma sample_asked: "asked_of k (sample_camera_event 7) = (if k = 1 then [\<lparr>rqEventID = 7, rqNegativeOffsetMs = 100, rqPositiveOffsetMs = 200\<rparr>] else [])"
  by (simp add: asked_of_def sample_camera_event_def request_of_def)

lemma subseq_single: "subseq ws [x] \<Longrightarrow> ws \<noteq> [] \<Longrightarrow> ws = [x]"
  by (cases ws) (auto split: if_splits)

theorem event_is_requested_witness:
  "\<exists>s' p. thread_step\<^sup>*\<^sup>* (raise_event (sample_camera_event 7) sample_cameras) s' \<and> at_rest s' \<and> publisher_at s' 1 = Some p \<and>
     pubWritten p = [\<lparr>rqEventID = 7, rqNegativeOffsetMs = 100, rqPositiveOffsetMs = 200\<rparr>]"
proof -
  obtain s' where s': "thread_step\<^sup>*\<^sup>* (raise_event (sample_camera_event 7) sample_cameras) s'" "\<And>s''. \<not> thread_step s' s''"
    using runs_end by blast
  note r = event_is_requested [OF sample_cameras_rest s']
  have "rel_option (\<lambda>p p'. \<exists>ws. pubWritten p' = pubWritten p @ ws \<and> subseq ws (asked_of 1 (sample_camera_event 7)) \<and>
    (asked_of 1 (sample_camera_event 7) \<noteq> [] \<longrightarrow> ws \<noteq> [] \<and> last ws = last (asked_of 1 (sample_camera_event 7))))
      (publisher_at sample_cameras 1) (publisher_at s' 1)" using r by blast
  then obtain p ws where "publisher_at s' 1 = Some p" "pubWritten p = ws"
      "subseq ws [\<lparr>rqEventID = 7, rqNegativeOffsetMs = 100, rqPositiveOffsetMs = 200\<rparr>]" "ws \<noteq> []"
    by (cases "publisher_at s' 1") (auto simp: sample_cameras_at sample_asked new_publisher_def)
  then show ?thesis using r s'(1) subseq_single by metis
qed

theorem threads_come_to_rest_witness: "\<exists>s'. (thread_step ^^ 1) (raise_event (sample_camera_event 7) sample_cameras) s' \<and> (1::nat) \<le> 7"
proof -
  let ?s = "raise_event (sample_camera_event 7) sample_cameras"
  let ?t = "?s\<lparr>csPhase := Woken, csModule := (csModule ?s)\<lparr>modNotified := False\<rparr>\<rparr>"
  have "thread_step ?s ?t"
    using sample_cameras_rest by (intro wake) (simp_all add: raise_event_def onEventOfInterestDetected_def at_rest_def)
  then have one: "(thread_step ^^ 1) ?s ?t" by (simp add: eq_OO)
  show ?thesis using threads_come_to_rest [OF sample_cameras_rest one] one by (auto simp: sample_camera_event_def)
qed

theorem event_during_reset_lost_witness:
  "\<exists>s s1 s2. csPhase s = Served \<and> thread_step (raise_event (sample_camera_event 8) s) s1 \<and> thread_step\<^sup>*\<^sup>* s1 s2 \<and>
     (\<exists>p2. publisher_at s2 1 = Some p2 \<and> requests_of p2 = {})"
proof -
  let ?s = "sample_cameras\<lparr>csPhase := Served\<rparr>"
  let ?e = "raise_event (sample_camera_event 8) ?s"
  let ?t = "?e\<lparr>csPhase := AtWait, csModule := (csModule ?e)\<lparr>mNewEventReceived := False\<rparr>\<rparr>"
  have t: "thread_step ?e ?t" by (intro reset) (simp add: raise_event_def)
  have p: "publisher_at ?t 1 = Some new_publisher" using sample_cameras_at [of 1] by (simp add: raise_event_def onEventOfInterestDetected_def)
  have "\<exists>p. publisher_at ?s 1 = Some p \<and> requests_of new_publisher \<subseteq> requests_of p"
    by (rule event_during_reset_lost [of ?s "sample_camera_event 8" ?t ?t 1, OF _ t _ _ p]) simp_all
  then have "requests_of new_publisher = {}" using sample_cameras_at [of 1] by (simp add: requests_of_def new_publisher_def)
  then show ?thesis using t p by (intro exI [of _ ?s] exI [of _ ?t]) auto
qed

section \<open>Responses\<close>

lemma foldl_stored: "foldl (\<lambda>(ok, out) f. if ok then (length f \<le> length f, out @ take (length f) f) else (False, out)) (True, out) fs = (True, out @ concat fs)"
  by (induction fs arbitrary: out) simp_all

text \<open>
  A valid response that arrives while the subscriber waits is stored: on a disk that completes its
  writes the file of the item holds the frames of the response one after the other, other files are kept,
  the module is told of the file once if it listens, and the subscriber is ready for the next response.
\<close>

theorem response_is_stored:
  assumes "subscriber_iteration True length (on_data_available (Some (True, x)) s, d) = (s', d')"
  shows "d' = d(subCachePath s @ ciDataItemId x \<mapsto> concat (ciFrames x)) \<and> \<not> subNewResponse s' \<and> \<not> subNotified s' \<and>
    subTold s' = subTold s @ (if subModuleListens s then [\<lparr>arPath = subCachePath s @ ciDataItemId x, arSourceID = subSourceID s\<rparr>] else [])"
  using assms
  by (auto simp: subscriber_iteration_def on_data_available_def persistToStorage_def Let_def foldl_stored [of "[]", simplified])

theorem response_is_stored_witness:
  "\<exists>s'. subscriber_iteration True length
      (on_data_available (Some (True, \<lparr>ciDataItemId = ''9'', ciFrames = [[1, 2], [3]]\<rparr>)) (new_subscriber (sample_camera_config 1)), \<lambda>_. None) =
        (s', [''/tmp/9'' \<mapsto> [1, 2, 3]])"
proof -
  obtain s' d' where "subscriber_iteration True length
      (on_data_available (Some (True, \<lparr>ciDataItemId = ''9'', ciFrames = [[1, 2], [3]]\<rparr>)) (new_subscriber (sample_camera_config 1)), \<lambda>_. None) = (s', d')"
    by fastforce
  with response_is_stored [OF this] show ?thesis by (simp add: new_subscriber_def sample_camera_config_def)
qed

end
