(* ===== verification/WorkerThreads.thy ===== *)
theory WorkerThreads
  imports VehicleMessages
begin

text \<open>
  Timers (\<open>Timer.h\<close>), wake-up signals (\<open>Signal.h\<close>) and worker threads (\<open>Thread.cpp\<close>) at the
  level of their locks and of the operating system: what the other theories use of them, a clock, a flag
  that a wait consumes and a thread that has ended once it is released, is proved here for every
  interleaving. The clock and the results of the system calls are inputs.
\<close>

section \<open>Timers\<close>

record timer =
  tmResume :: int
  tmElapsed :: int
  tmIsTimerRunning :: bool

text \<open>Time points are readings of the clock in nanoseconds.\<close>

definition timer_reset :: "int \<Rightarrow> timer" where
  "timer_reset now = \<lparr>tmResume = now, tmElapsed = 0, tmIsTimerRunning = True\<rparr>"

definition timer_pause :: "int \<Rightarrow> timer \<Rightarrow> timer" where
  "timer_pause now t =
     (if \<not> tmIsTimerRunning t then t
      else t\<lparr>tmIsTimerRunning := False, tmElapsed := tmElapsed t + (now - tmResume t)\<rparr>)"

definition timer_resume :: "int \<Rightarrow> timer \<Rightarrow> timer" where
  "timer_resume now t = (if tmIsTimerRunning t then t else t\<lparr>tmIsTimerRunning := True, tmResume := now\<rparr>)"

definition getElapsed :: "int \<Rightarrow> timer \<Rightarrow> int" where
  "getElapsed now t = (if tmIsTimerRunning t then tmElapsed t + now - tmResume t else tmElapsed t)"

text \<open>A \<open>duration_cast\<close> truncates.\<close>

definition getElapsedMs :: "int \<Rightarrow> timer \<Rightarrow> int" where
  "getElapsedMs now t = sgn (getElapsed now t) * (\<bar>getElapsed now t\<bar> div 1000000)"

datatype timer_op = Reset | Pause | Resume

fun timer_do :: "timer_op \<Rightarrow> int \<Rightarrow> timer \<Rightarrow> timer" where
  "timer_do Reset now t = timer_reset now"
| "timer_do Pause now t = timer_pause now t"
| "timer_do Resume now t = timer_resume now t"

definition timer_run :: "(timer_op \<times> int) list \<Rightarrow> int \<Rightarrow> timer" where
  "timer_run ops start = fold (\<lambda>(x, now). timer_do x now) ops (timer_reset start)"

text \<open>The reference: whether the timer runs after some operations, and the time it ran since the last reset.\<close>

fun timer_runs :: "(timer_op \<times> int) list \<Rightarrow> bool" where
  "timer_runs [] = True"
| "timer_runs ((Reset, t) # past) = True"
| "timer_runs ((Pause, t) # past) = False"
| "timer_runs ((Resume, t) # past) = True"

definition last_time :: "int \<Rightarrow> (timer_op \<times> int) list \<Rightarrow> int" where
  "last_time start past = (case past of [] \<Rightarrow> start | (x, t) # _ \<Rightarrow> t)"

fun time_run :: "int \<Rightarrow> (timer_op \<times> int) list \<Rightarrow> int \<Rightarrow> int" where
  "time_run start [] now = now - start"
| "time_run start ((Reset, t) # past) now = now - t"
| "time_run start ((x, t) # past) now = time_run start past t + (if timer_runs ((x, t) # past) then now - t else 0)"

lemma timer_run_snoc: "timer_run (ops @ [(x, t)]) start = timer_do x t (timer_run ops start)"
  by (simp add: timer_run_def)

lemma timer_is_running: "tmIsTimerRunning (timer_run (rev past) start) = timer_runs past"
proof (induction past)
  case (Cons a past)
  then show ?case
    by (cases a; cases "fst a") (auto simp: timer_run_snoc timer_reset_def timer_pause_def timer_resume_def)
qed (simp add: timer_run_def timer_reset_def)

lemma time_run_advances: "time_run start past now = time_run start past t + (if timer_runs past then now - t else 0)"
  by (cases "(start, past, now)" rule: time_run.cases) auto

lemma elapsed_reference: "getElapsed now (timer_run (rev past) start) = time_run start past now"
proof (induction past arbitrary: now)
  case (Cons a past)
  obtain x t where a: "a = (x, t)" by (cases a)
  have at: "getElapsed t (timer_run (rev past) start) = time_run start past t" by (rule Cons.IH)
  have on: "tmIsTimerRunning (timer_run (rev past) start) = timer_runs past" by (rule timer_is_running)
  show ?case
  proof (cases x)
    case Reset
    then show ?thesis by (simp add: a timer_run_snoc timer_reset_def getElapsed_def)
  next
    case Pause
    then show ?thesis using at on by (auto simp: a timer_run_snoc timer_pause_def getElapsed_def split: if_splits)
  next
    case Resume
    show ?thesis
    proof (cases "timer_runs past")
      case True
      then show ?thesis using Cons.IH [of now] Resume time_run_advances [of start past now t] on
        by (simp add: a timer_run_snoc timer_resume_def)
    next
      case False
      then show ?thesis using at on Resume by (simp add: a timer_run_snoc timer_resume_def getElapsed_def)
    qed
  qed
qed (simp add: timer_run_def timer_reset_def getElapsed_def)

text \<open>
  After any sequence of operations (the last one first in \<open>past\<close>), the elapsed time is the time since
  the last reset, or the construction, less the time the timer was paused.
\<close>

theorem timer_measures_running_time:
  "getElapsed now (timer_run (rev past) start) = time_run start past now \<and> tmIsTimerRunning (timer_run (rev past) start) = timer_runs past"
  by (simp add: elapsed_reference timer_is_running)

section \<open>Wake-up signals\<close>

text \<open>
  Threads that wait sleep on the condition variable until they are woken and check the flag again;
  \<open>notify\<close> sets the flag under the mutex and wakes one thread after it has released the mutex
  (\<open>sigOwed\<close> counts the wake-ups to come). A thread that times out, or wakes without a reason, is
  woken as well; \<open>sigLeft\<close> records the threads whose wait has returned.
\<close>

record signal =
  sigNotify :: bool
  sigSleeping :: "nat set"
  sigWoken :: "nat set"
  sigOwed :: nat
  sigLeft :: "nat set"

definition new_signal :: signal where
  "new_signal = \<lparr>sigNotify = False, sigSleeping = {}, sigWoken = {}, sigOwed = 0, sigLeft = {}\<rparr>"

definition signal_notify :: "signal \<Rightarrow> signal" where
  "signal_notify s = s\<lparr>sigNotify := True, sigOwed := Suc (sigOwed s)\<rparr>"

definition signal_enter :: "nat \<Rightarrow> signal \<Rightarrow> signal" where
  "signal_enter i s =
     (if sigNotify s then s\<lparr>sigNotify := False, sigLeft := insert i (sigLeft s)\<rparr>
      else s\<lparr>sigSleeping := insert i (sigSleeping s), sigLeft := sigLeft s - {i}\<rparr>)"

definition signal_wake :: "nat \<Rightarrow> signal \<Rightarrow> signal" where
  "signal_wake i s = s\<lparr>sigSleeping := sigSleeping s - {i}, sigWoken := insert i (sigWoken s)\<rparr>"

text \<open>A woken thread checks the flag; \<open>expired\<close> says that its wait has a timeout that is over.\<close>

definition signal_check :: "bool \<Rightarrow> nat \<Rightarrow> signal \<Rightarrow> signal" where
  "signal_check expired i s =
     (let s = s\<lparr>sigWoken := sigWoken s - {i}\<rparr> in
      if sigNotify s then s\<lparr>sigNotify := False, sigLeft := insert i (sigLeft s)\<rparr>
      else if expired then s\<lparr>sigLeft := insert i (sigLeft s)\<rparr>
      else s\<lparr>sigSleeping := insert i (sigSleeping s)\<rparr>)"

inductive signal_step :: "signal \<Rightarrow> signal \<Rightarrow> bool" where
  notify: "signal_step s (signal_notify s)"
| wakes_one: "sigOwed s = Suc n \<Longrightarrow> i \<in> sigSleeping s \<Longrightarrow> signal_step s (signal_wake i (s\<lparr>sigOwed := n\<rparr>))"
| wakes_none: "sigOwed s = Suc n \<Longrightarrow> sigSleeping s = {} \<Longrightarrow> signal_step s (s\<lparr>sigOwed := n\<rparr>)"
| waits: "i \<notin> sigSleeping s \<Longrightarrow> i \<notin> sigWoken s \<Longrightarrow> signal_step s (signal_enter i s)"
| spurious: "i \<in> sigSleeping s \<Longrightarrow> signal_step s (signal_wake i s)"
| checks: "i \<in> sigWoken s \<Longrightarrow> signal_step s (signal_check expired i s)"

definition never_missed :: "signal \<Rightarrow> bool" where
  "never_missed s \<longleftrightarrow> (sigNotify s \<and> sigSleeping s \<noteq> {} \<longrightarrow> 0 < sigOwed s \<or> sigWoken s \<noteq> {})"

lemma step_never_missed: "signal_step s s' \<Longrightarrow> never_missed s \<Longrightarrow> never_missed s'"
  by (induction rule: signal_step.induct)
    (auto simp: never_missed_def signal_notify_def signal_enter_def signal_wake_def signal_check_def Let_def)

lemma steps_never_missed: "signal_step\<^sup>*\<^sup>* s s' \<Longrightarrow> never_missed s \<Longrightarrow> never_missed s'"
  by (induction rule: rtranclp_induct) (use step_never_missed in blast)+

text \<open>
  C34. No wake-up is lost: however notifications, waits, timeouts and spurious wake-ups interleave, no
  thread sleeps on a flag that is set, unless a wake-up is still to come or a woken thread is about to
  check the flag.
\<close>

theorem no_wakeup_lost:
  assumes "signal_step\<^sup>*\<^sup>* new_signal s" and "sigOwed s = 0" and "sigWoken s = {}" and "sigNotify s"
  shows "sigSleeping s = {}"
  using steps_never_missed [OF assms(1)] assms(2-4) by (simp add: never_missed_def new_signal_def)

text \<open>A thread waits, sleeps and is woken; the next notification finds nobody asleep.\<close>

definition sample_signal :: signal where
  "sample_signal = new_signal\<lparr>sigNotify := True, sigLeft := {1}\<rparr>"

theorem no_wakeup_lost_witness: "signal_step\<^sup>*\<^sup>* new_signal sample_signal \<and> sigSleeping sample_signal = {}"
proof -
  let ?a = "signal_enter 1 new_signal"
  let ?b = "signal_notify ?a"
  let ?c = "signal_wake 1 (?b\<lparr>sigOwed := 0\<rparr>)"
  let ?d = "signal_check False 1 ?c"
  let ?e = "signal_notify ?d"
  note defs = signal_enter_def signal_notify_def signal_wake_def signal_check_def new_signal_def
  have "signal_step new_signal ?a" by (rule waits) (simp_all add: defs)
  moreover have "signal_step ?a ?b" by (rule notify)
  moreover have "signal_step ?b ?c" by (rule wakes_one) (simp_all add: defs)
  moreover have "signal_step ?c ?d" by (rule checks) (simp add: defs)
  moreover have "signal_step ?d ?e" by (rule notify)
  moreover have "signal_step ?e (?e\<lparr>sigOwed := 0\<rparr>)" by (rule wakes_none) (simp_all add: defs)
  moreover have "?e\<lparr>sigOwed := 0\<rparr> = sample_signal" by (simp add: defs sample_signal_def)
  ultimately have r: "signal_step\<^sup>*\<^sup>* new_signal sample_signal"
    by (metis (no_types, lifting) converse_rtranclp_into_rtranclp rtranclp.rtrancl_refl)
  show ?thesis using r no_wakeup_lost [OF r] by (simp add: sample_signal_def new_signal_def)
qed

section \<open>Worker threads\<close>

text \<open>
  The threads of the operating system that one object has created, and the object: its handle, the flag
  that the worker function is over and the flag of its termination signal. \<open>Working\<close> runs the worker
  function; \<open>Ended\<close> has raised the signal.
\<close>

datatype os_phase = Created | Working | Ended

record thread_object =
  ptThreads :: "os_phase list"
  ptHandle :: "nat option"
  ptDone :: bool
  ptTerminated :: bool
  ptReleasing :: bool

definition new_thread_object :: thread_object where
  "new_thread_object = \<lparr>ptThreads = [], ptHandle = None, ptDone = False, ptTerminated = False, ptReleasing = False\<rparr>"

text \<open>
  A creation that fails is taken to leave the handle as it was; POSIX says nothing of its value then. Were it
  another one, the release after it would wait for a thread that does not exist.
\<close>

definition object_create :: "bool \<Rightarrow> thread_object \<Rightarrow> thread_object" where
  "object_create created t =
     (let t = t\<lparr>ptDone := False, ptTerminated := False\<rparr> in
      if created then t\<lparr>ptThreads := ptThreads t @ [Created], ptHandle := Some (length (ptThreads t))\<rparr> else t)"

text \<open>A thread that was released before it started does not call the worker function.\<close>

definition worker_starts :: "nat \<Rightarrow> thread_object \<Rightarrow> thread_object" where
  "worker_starts i t =
     (if \<not> ptDone t then t\<lparr>ptThreads := (ptThreads t)[i := Working]\<rparr>
      else t\<lparr>ptThreads := (ptThreads t)[i := Ended], ptDone := True, ptTerminated := True\<rparr>)"

definition worker_ends :: "nat \<Rightarrow> thread_object \<Rightarrow> thread_object" where
  "worker_ends i t = t\<lparr>ptThreads := (ptThreads t)[i := Ended], ptDone := True, ptTerminated := True\<rparr>"

definition release_begins :: "thread_object \<Rightarrow> thread_object" where
  "release_begins t = t\<lparr>ptDone := True, ptReleasing := ptHandle t \<noteq> None\<rparr>"

text \<open>The wait consumes the signal; the join needs the thread of the handle to have ended.\<close>

definition release_ends :: "bool \<Rightarrow> thread_object \<Rightarrow> thread_object" where
  "release_ends joined t = t\<lparr>ptTerminated := False, ptReleasing := False, ptHandle := (if joined then None else ptHandle t)\<rparr>"

text \<open>With \<open>careful\<close>, the owner creates a thread only when it has none.\<close>

inductive object_step :: "bool \<Rightarrow> thread_object \<Rightarrow> thread_object \<Rightarrow> bool" where
  creates: "(careful \<Longrightarrow> ptHandle t = None) \<Longrightarrow> \<not> ptReleasing t \<Longrightarrow> object_step careful t (object_create created t)"
| starts: "i < length (ptThreads t) \<Longrightarrow> ptThreads t ! i = Created \<Longrightarrow> object_step careful t (worker_starts i t)"
| ends: "i < length (ptThreads t) \<Longrightarrow> ptThreads t ! i = Working \<Longrightarrow> object_step careful t (worker_ends i t)"
| releases: "\<not> ptReleasing t \<Longrightarrow> object_step careful t (release_begins t)"
| joins: "ptReleasing t \<Longrightarrow> ptTerminated t \<Longrightarrow> ptHandle t = Some i \<Longrightarrow> ptThreads t ! i = Ended \<Longrightarrow> object_step careful t (release_ends True t)"

definition others_ended :: "nat \<Rightarrow> os_phase list \<Rightarrow> bool" where
  "others_ended i xs \<longleftrightarrow> (\<forall>j < length xs. j \<noteq> i \<longrightarrow> xs ! j = Ended)"

definition thread_owned :: "thread_object \<Rightarrow> bool" where
  "thread_owned t \<longleftrightarrow>
     (case ptHandle t of
        None \<Rightarrow> list_all (\<lambda>x. x = Ended) (ptThreads t) \<and> \<not> ptReleasing t
      | Some i \<Rightarrow> i < length (ptThreads t) \<and> others_ended i (ptThreads t) \<and> (ptTerminated t \<longleftrightarrow> ptThreads t ! i = Ended))"

lemma others_ended_update [simp]: "others_ended i (xs[i := x]) = others_ended i xs"
  by (simp add: others_ended_def)

lemma others_ended_append: "list_all (\<lambda>x. x = Ended) xs \<Longrightarrow> others_ended (length xs) (xs @ [x])"
  by (simp add: others_ended_def list_all_length nth_append)

lemma all_ended: "others_ended i xs \<Longrightarrow> xs ! i = Ended \<Longrightarrow> list_all (\<lambda>x. x = Ended) xs"
  unfolding others_ended_def list_all_length by metis

lemma owned_create: "thread_owned t \<Longrightarrow> ptHandle t = None \<Longrightarrow> thread_owned (object_create created t)"
  by (cases created) (simp_all add: thread_owned_def object_create_def Let_def others_ended_append)

lemma owned_handle: "thread_owned t \<Longrightarrow> i < length (ptThreads t) \<Longrightarrow> ptThreads t ! i \<noteq> Ended \<Longrightarrow> ptHandle t = Some i"
  by (cases "ptHandle t") (auto simp: thread_owned_def list_all_length others_ended_def)

lemma owned_ended:
  assumes "thread_owned t" and "i < length (ptThreads t)" and "ptThreads t ! i \<noteq> Ended"
  shows "thread_owned (t\<lparr>ptThreads := (ptThreads t)[i := Ended], ptDone := d, ptTerminated := True\<rparr>)"
  using assms owned_handle [OF assms] by (simp add: thread_owned_def)

lemma owned_works:
  assumes "thread_owned t" and "i < length (ptThreads t)" and "ptThreads t ! i = Created"
  shows "thread_owned (t\<lparr>ptThreads := (ptThreads t)[i := Working]\<rparr>)"
  using assms owned_handle [of t i] by (simp add: thread_owned_def)

lemma owned_joined:
  assumes "thread_owned t" and "ptHandle t = Some i" and "ptThreads t ! i = Ended"
  shows "thread_owned (release_ends True t)"
  using assms all_ended [of i "ptThreads t"] by (simp add: thread_owned_def release_ends_def)

lemma step_thread_owned: "object_step careful t t' \<Longrightarrow> careful \<Longrightarrow> thread_owned t \<Longrightarrow> thread_owned t'"
proof (induction rule: object_step.induct)
  case (creates careful t created)
  then show ?case by (simp add: owned_create)
next
  case (starts i t careful)
  then show ?case using owned_ended [of t i True] owned_works [of t i] by (cases "ptDone t") (simp_all add: worker_starts_def)
next
  case (ends i t careful)
  then show ?case using owned_ended [of t i True] by (simp add: worker_ends_def)
next
  case (releases t careful)
  then show ?case by (simp add: thread_owned_def release_begins_def split: option.splits)
next
  case (joins t i careful)
  then show ?case by (simp add: owned_joined)
qed

lemma steps_thread_owned: "(object_step True)\<^sup>*\<^sup>* t t' \<Longrightarrow> thread_owned t \<Longrightarrow> thread_owned t'"
  by (induction rule: rtranclp_induct) (use step_thread_owned in blast)+

lemma before_steps: "object_step c s t \<Longrightarrow> (object_step c)\<^sup>*\<^sup>* t u \<Longrightarrow> (object_step c)\<^sup>*\<^sup>* s u"
  by (rule converse_rtranclp_into_rtranclp)

text \<open>
  C35. When an owner that creates a thread only while it has none has released it, every thread of the
  operating system has ended; and a release that waits is never stuck: the thread starts, ends, or has
  ended and can be joined.
\<close>

theorem released_thread_has_ended:
  assumes "(object_step True)\<^sup>*\<^sup>* new_thread_object t"
  shows "(ptHandle t = None \<longrightarrow> list_all (\<lambda>x. x = Ended) (ptThreads t)) \<and>
    (ptReleasing t \<longrightarrow> (\<exists>i. ptHandle t = Some i \<and>
       (ptThreads t ! i = Created \<or> ptThreads t ! i = Working \<or> object_step True t (release_ends True t))))"
proof -
  have t: "thread_owned t" using steps_thread_owned [OF assms] by (simp add: thread_owned_def new_thread_object_def)
  have "\<exists>i. ptHandle t = Some i \<and> (ptThreads t ! i = Created \<or> ptThreads t ! i = Working \<or> object_step True t (release_ends True t))"
    if rel: "ptReleasing t"
  proof -
    obtain i where i: "ptHandle t = Some i" using t rel by (cases "ptHandle t") (simp_all add: thread_owned_def)
    show ?thesis
    proof (cases "ptThreads t ! i")
      case Ended
      then have "object_step True t (release_ends True t)" using t rel i by (intro joins) (simp_all add: thread_owned_def)
      then show ?thesis using i by simp
    qed (use i in auto)
  qed
  moreover have "list_all (\<lambda>x. x = Ended) (ptThreads t)" if "ptHandle t = None"
    using t that by (simp add: thread_owned_def)
  ultimately show ?thesis by blast
qed

theorem released_thread_has_ended_witness:
  "\<exists>t. (object_step True)\<^sup>*\<^sup>* new_thread_object t \<and> ptHandle t = None \<and> ptThreads t = [Ended]"
proof -
  have a: "object_step True new_thread_object (object_create True new_thread_object)"
    by (rule creates) (simp_all add: new_thread_object_def)
  let ?b = "object_create True new_thread_object"
  have b: "object_step True ?b (release_begins ?b)" by (rule releases) (simp add: object_create_def new_thread_object_def)
  let ?c = "release_begins ?b"
  have c: "object_step True ?c (worker_starts 0 ?c)" by (rule starts) (simp_all add: object_create_def new_thread_object_def release_begins_def)
  let ?d = "worker_starts 0 ?c"
  have d: "object_step True ?d (release_ends True ?d)"
    by (rule joins [where i = 0]) (simp_all add: object_create_def new_thread_object_def release_begins_def worker_starts_def)
  have r: "(object_step True)\<^sup>*\<^sup>* new_thread_object (release_ends True ?d)"
    by (rule before_steps [OF a before_steps [OF b before_steps [OF c before_steps [OF d rtranclp.rtrancl_refl]]]])
  have len: "length (ptThreads (release_ends True ?d)) = 1" and none: "ptHandle (release_ends True ?d) = None"
    by (simp_all add: object_create_def new_thread_object_def release_begins_def worker_starts_def release_ends_def)
  have "list_all (\<lambda>x. x = Ended) (ptThreads (release_ends True ?d))"
    using released_thread_has_ended [OF r] none by blast
  then have "ptThreads (release_ends True ?d) = [Ended]" using len by (cases "ptThreads (release_ends True ?d)") auto
  then show ?thesis using r none by blast
qed

text \<open>An owner that creates a second thread over the first leaves one running after the release.\<close>

theorem second_create_leaves_thread:
  "\<exists>t. (object_step False)\<^sup>*\<^sup>* new_thread_object t \<and> ptHandle t = None \<and> ptThreads t = [Working, Ended]"
proof -
  let ?a = "object_create True new_thread_object" let ?b = "worker_starts 0 ?a" let ?c = "object_create True ?b"
  let ?d = "release_begins ?c" let ?e = "worker_starts 1 ?d"
  note defs = object_create_def new_thread_object_def release_begins_def worker_starts_def release_ends_def
  have a: "object_step False new_thread_object ?a" by (rule creates) (simp_all add: defs)
  have b: "object_step False ?a ?b" by (rule starts) (simp_all add: defs)
  have c: "object_step False ?b ?c" by (rule creates) (simp_all add: defs)
  have d: "object_step False ?c ?d" by (rule releases) (simp add: defs)
  have e: "object_step False ?d ?e" by (rule starts) (simp_all add: defs)
  have f: "object_step False ?e (release_ends True ?e)" by (rule joins [where i = 1]) (simp_all add: defs)
  have "(object_step False)\<^sup>*\<^sup>* new_thread_object (release_ends True ?e)"
    by (rule before_steps [OF a before_steps [OF b before_steps [OF c before_steps [OF d before_steps [OF e before_steps [OF f rtranclp.rtrancl_refl]]]]]])
  moreover have "ptHandle (release_ends True ?e) = None \<and> ptThreads (release_ends True ?e) = [Working, Ended]" by (simp add: defs)
  ultimately show ?thesis by blast
qed

text \<open>What the other theories use of a thread: whether it is valid and whether it is done.\<close>

definition abstract_thread :: "thread_object \<Rightarrow> worker_thread" where
  "abstract_thread t = \<lparr>thValid = ptHandle t \<noteq> None, thDone = ptDone t\<rparr>"

lemma create_refines: "abstract_thread (object_create created t) = snd (thread_create created (abstract_thread t))"
  by (simp add: abstract_thread_def object_create_def thread_create_def Let_def)

lemma release_refines:
  "abstract_thread (if ptReleasing (release_begins t) then release_ends joined (release_begins t) else release_begins t) =
     snd (thread_release joined (abstract_thread t))"
  by (simp add: abstract_thread_def release_begins_def release_ends_def thread_release_def)

end
