(* ===== verification/ObdTables.thy ===== *)
theory ObdTables
  imports ObdDecoder
begin

unbundle bit_operations_syntax

text \<open>
  The tables of diagnostics parameters (\<open>OBDDataTypes.h\<close>): the parameters of services 1 and 5 and
  the formulas of their signals. By its own comment the table of service 1 serves the unit tests, which
  build the dictionary of the decoder from it; at run time the dictionary comes from the manifest.
\<close>

section \<open>Formulas of signals\<close>

record PIDSignalFormula =
  pfScaling :: double
  pfOffset :: double
  pfByteOffset :: nat
  pfNumOfBytes :: nat
  pfBitShift :: nat
  pfBitMaskLen :: nat

text \<open>The constructors: the default one, that of signals of whole bytes and that of bit fields.\<close>

definition any_byte :: PIDSignalFormula where
  "any_byte = \<lparr>pfScaling = Fin 1, pfOffset = Fin 0, pfByteOffset = 0, pfNumOfBytes = 1, pfBitShift = 0, pfBitMaskLen = 8\<rparr>"

definition scaled_bytes :: "nat \<Rightarrow> rat \<Rightarrow> rat \<Rightarrow> nat \<Rightarrow> PIDSignalFormula" where
  "scaled_bytes byteOffsetIn scalingIn offsetIn numOfBytesIn =
     any_byte\<lparr>pfScaling := round64 scalingIn, pfOffset := round64 offsetIn, pfByteOffset := byteOffsetIn, pfNumOfBytes := numOfBytesIn\<rparr>"

definition bit_field :: "nat \<Rightarrow> nat \<Rightarrow> nat \<Rightarrow> PIDSignalFormula" where
  "bit_field byteOffsetIn bitShiftIn bitMaskIn = any_byte\<lparr>pfByteOffset := byteOffsetIn, pfBitShift := bitShiftIn, pfBitMaskLen := bitMaskIn\<rparr>"

record PIDInfo =
  piPid :: nat
  piRetLen :: nat
  piFormulas :: "PIDSignalFormula list"

definition pid_info :: "nat \<Rightarrow> nat \<Rightarrow> PIDSignalFormula list \<Rightarrow> PIDInfo" where
  "pid_info i n fs = \<lparr>piPid = i, piRetLen = n, piFormulas = fs\<rparr>"

section \<open>The tables\<close>

definition mode1PIDs_00_3F :: "PIDInfo list" where
  "mode1PIDs_00_3F =
    [pid_info 0x00 4 [scaled_bytes 0 (1) (0) 4],
     pid_info 0x01 4 [any_byte],
     pid_info 0x02 2 [any_byte],
     pid_info 0x03 2 [scaled_bytes 0 (1) (0) 1, scaled_bytes 1 (1) (0) 1],
     pid_info 0x04 1 [scaled_bytes 0 (100 / 255) (0) 1],
     pid_info 0x05 1 [scaled_bytes 0 (1) (- 40) 1],
     pid_info 0x06 1 [scaled_bytes 0 (100 / 128) (- 100) 1],
     pid_info 0x07 1 [scaled_bytes 0 (100 / 128) (- 100) 1],
     pid_info 0x08 1 [scaled_bytes 0 (100 / 128) (- 100) 1],
     pid_info 0x09 1 [scaled_bytes 0 (100 / 128) (- 100) 1],
     pid_info 0x0A 1 [scaled_bytes 0 (3) (0) 1],
     pid_info 0x0B 1 [scaled_bytes 0 (1) (0) 1],
     pid_info 0x0C 2 [scaled_bytes 0 (25 / 100) (0) 2],
     pid_info 0x0D 1 [scaled_bytes 0 (1) (0) 1],
     pid_info 0x0E 1 [scaled_bytes 0 (5 / 10) (- 64) 1],
     pid_info 0x0F 1 [scaled_bytes 0 (1) (- 40) 1],
     pid_info 0x10 2 [scaled_bytes 0 (1 / 100) (0) 2],
     pid_info 0x11 1 [scaled_bytes 0 (100 / 255) (0) 1],
     pid_info 0x12 1 [any_byte],
     pid_info 0x13 1 [scaled_bytes 0 (1) (0) 1],
     pid_info 0x14 2 [scaled_bytes 0 (5 / 1000) (0) 1, scaled_bytes 1 (100 / 128) (- 100) 1],
     pid_info 0x15 2 [scaled_bytes 0 (5 / 1000) (0) 1, scaled_bytes 1 (100 / 128) (- 100) 1],
     pid_info 0x16 2 [scaled_bytes 0 (5 / 1000) (0) 1, scaled_bytes 1 (100 / 128) (- 100) 1],
     pid_info 0x17 2 [scaled_bytes 0 (5 / 1000) (0) 1, scaled_bytes 1 (100 / 128) (- 100) 1],
     pid_info 0x18 2 [scaled_bytes 0 (5 / 1000) (0) 1, scaled_bytes 1 (100 / 128) (- 100) 1],
     pid_info 0x19 2 [scaled_bytes 0 (5 / 1000) (0) 1, scaled_bytes 1 (100 / 128) (- 100) 1],
     pid_info 0x1A 2 [scaled_bytes 0 (5 / 1000) (0) 1, scaled_bytes 1 (100 / 128) (- 100) 1],
     pid_info 0x1B 2 [scaled_bytes 0 (5 / 1000) (0) 1, scaled_bytes 1 (100 / 128) (- 100) 1],
     pid_info 0x1C 1 [any_byte],
     pid_info 0x1D 1 [any_byte],
     pid_info 0x1E 1 [any_byte],
     pid_info 0x1F 2 [scaled_bytes 0 (1) (0) 2],
     pid_info 0x20 4 [scaled_bytes 0 (1) (0) 4],
     pid_info 0x21 2 [scaled_bytes 0 (1) (0) 2],
     pid_info 0x22 2 [scaled_bytes 0 (79 / 1000) (0) 2],
     pid_info 0x23 2 [scaled_bytes 0 (10) (0) 2],
     pid_info 0x24 4 [scaled_bytes 0 (305 / 10000000) (0) 2, scaled_bytes 2 (122 / 1000000) (0) 2],
     pid_info 0x25 4 [scaled_bytes 0 (305 / 10000000) (0) 2, scaled_bytes 2 (122 / 1000000) (0) 2],
     pid_info 0x26 4 [scaled_bytes 0 (305 / 10000000) (0) 2, scaled_bytes 2 (122 / 1000000) (0) 2],
     pid_info 0x27 4 [scaled_bytes 0 (305 / 10000000) (0) 2, scaled_bytes 2 (122 / 1000000) (0) 2],
     pid_info 0x28 4 [scaled_bytes 0 (305 / 10000000) (0) 2, scaled_bytes 2 (122 / 1000000) (0) 2],
     pid_info 0x29 4 [scaled_bytes 0 (305 / 10000000) (0) 2, scaled_bytes 2 (122 / 1000000) (0) 2],
     pid_info 0x2A 4 [scaled_bytes 0 (305 / 10000000) (0) 2, scaled_bytes 2 (122 / 1000000) (0) 2],
     pid_info 0x2B 4 [scaled_bytes 0 (305 / 10000000) (0) 2, scaled_bytes 2 (122 / 1000000) (0) 2],
     pid_info 0x2C 1 [any_byte],
     pid_info 0x2D 1 [scaled_bytes 0 (100 / 128) (- 100) 1],
     pid_info 0x2E 1 [any_byte],
     pid_info 0x2F 1 [scaled_bytes 0 (100 / 255) (0) 1],
     pid_info 0x30 1 [scaled_bytes 0 (1) (0) 1],
     pid_info 0x31 2 [scaled_bytes 0 (1) (0) 2],
     pid_info 0x32 2 [scaled_bytes 0 (25 / 100) (0) 2],
     pid_info 0x33 1 [scaled_bytes 0 (1) (0) 1],
     pid_info 0x34 4 [scaled_bytes 0 (305 / 10000000) (0) 2, scaled_bytes 2 (390625 / 100000000) (- 128) 2],
     pid_info 0x35 4 [scaled_bytes 0 (305 / 10000000) (0) 2, scaled_bytes 2 (390625 / 100000000) (- 128) 2],
     pid_info 0x36 4 [scaled_bytes 0 (305 / 10000000) (0) 2, scaled_bytes 2 (390625 / 100000000) (- 128) 2],
     pid_info 0x37 4 [scaled_bytes 0 (305 / 10000000) (0) 2, scaled_bytes 2 (390625 / 100000000) (- 128) 2],
     pid_info 0x38 4 [scaled_bytes 0 (305 / 10000000) (0) 2, scaled_bytes 2 (390625 / 100000000) (- 128) 2],
     pid_info 0x39 4 [scaled_bytes 0 (305 / 10000000) (0) 2, scaled_bytes 2 (390625 / 100000000) (- 128) 2],
     pid_info 0x3A 4 [scaled_bytes 0 (305 / 10000000) (0) 2, scaled_bytes 2 (390625 / 100000000) (- 128) 2],
     pid_info 0x3B 4 [scaled_bytes 0 (305 / 10000000) (0) 2, scaled_bytes 2 (390625 / 100000000) (- 128) 2],
     pid_info 0x3C 2 [scaled_bytes 0 (1 / 10) (- 40) 2],
     pid_info 0x3D 2 [scaled_bytes 0 (1 / 10) (- 40) 2],
     pid_info 0x3E 2 [scaled_bytes 0 (1 / 10) (- 40) 2],
     pid_info 0x3F 2 [scaled_bytes 0 (1 / 10) (- 40) 2]]"

definition mode1PIDs_40_67 :: "PIDInfo list" where
  "mode1PIDs_40_67 =
    [pid_info 0x40 4 [scaled_bytes 0 (1) (0) 4],
     pid_info 0x41 4 [any_byte],
     pid_info 0x42 2 [scaled_bytes 0 (1 / 1000) (0) 2],
     pid_info 0x43 2 [scaled_bytes 0 (100 / 255) (0) 2],
     pid_info 0x44 2 [scaled_bytes 0 (305 / 10000000) (0) 2],
     pid_info 0x45 1 [scaled_bytes 0 (100 / 255) (0) 1],
     pid_info 0x46 1 [scaled_bytes 0 (1) (- 40) 1],
     pid_info 0x47 1 [scaled_bytes 0 (100 / 255) (0) 1],
     pid_info 0x48 1 [scaled_bytes 0 (100 / 255) (0) 1],
     pid_info 0x49 1 [scaled_bytes 0 (100 / 255) (0) 1],
     pid_info 0x4A 1 [scaled_bytes 0 (100 / 255) (0) 1],
     pid_info 0x4B 1 [scaled_bytes 0 (100 / 255) (0) 1],
     pid_info 0x4C 1 [any_byte],
     pid_info 0x4D 2 [scaled_bytes 0 (1) (0) 1],
     pid_info 0x4E 2 [scaled_bytes 0 (1) (0) 1],
     pid_info 0x4F 4 [scaled_bytes 0 (1) (0) 1, scaled_bytes 1 (1) (0) 1, scaled_bytes 2 (1) (0) 1, scaled_bytes 3 (10) (0) 1],
     pid_info 0x50 4 [any_byte],
     pid_info 0x51 1 [scaled_bytes 0 (1) (0) 1],
     pid_info 0x52 1 [scaled_bytes 0 (100 / 255) (0) 1],
     pid_info 0x53 2 [any_byte],
     pid_info 0x54 2 [any_byte],
     pid_info 0x55 2 [any_byte],
     pid_info 0x56 2 [any_byte],
     pid_info 0x57 2 [any_byte],
     pid_info 0x58 2 [any_byte],
     pid_info 0x59 2 [scaled_bytes 0 (10) (0) 2],
     pid_info 0x5A 1 [scaled_bytes 0 (100 / 255) (0) 1],
     pid_info 0x5B 1 [scaled_bytes 0 (100 / 255) (0) 1],
     pid_info 0x5C 1 [scaled_bytes 0 (1) (- 40) 1],
     pid_info 0x5D 2 [scaled_bytes 0 (1 / 128) (- 210) 2],
     pid_info 0x5E 2 [scaled_bytes 0 (5 / 100) (0) 2],
     pid_info 0x5F 1 [any_byte],
     pid_info 0x60 4 [scaled_bytes 0 (1) (0) 4],
     pid_info 0x61 1 [scaled_bytes 0 (1) (- 125) 1],
     pid_info 0x62 1 [scaled_bytes 0 (1) (- 125) 1],
     pid_info 0x63 2 [scaled_bytes 0 (1) (0) 2],
     pid_info 0x64 5 [scaled_bytes 0 (1) (- 125) 1, scaled_bytes 1 (1) (- 125) 1, scaled_bytes 2 (1) (- 125) 1, scaled_bytes 3 (1) (- 125) 1, scaled_bytes 4 (1) (- 125) 1],
     pid_info 0x65 2 [any_byte],
     pid_info 0x66 5 [scaled_bytes 0 (1) (0) 1, scaled_bytes 1 (3125 / 100000) (0) 2, scaled_bytes 3 (3125 / 100000) (0) 2],
     pid_info 0x67 3 [scaled_bytes 0 (1) (0) 1, scaled_bytes 1 (1) (- 40) 1, scaled_bytes 2 (1) (- 40) 1]]"

definition mode1PIDs_68_7C :: "PIDInfo list" where
  "mode1PIDs_68_7C =
    [pid_info 0x68 7 [scaled_bytes 0 (1) (0) 1, scaled_bytes 1 (1) (- 40) 1, scaled_bytes 2 (1) (- 40) 1, scaled_bytes 3 (1) (- 40) 1, scaled_bytes 4 (1) (- 40) 1, scaled_bytes 5 (1) (- 40) 1, scaled_bytes 6 (1) (- 40) 1],
     pid_info 0x69 7 [scaled_bytes 0 (1) (0) 1, scaled_bytes 1 (100 / 255) (0) 1, scaled_bytes 2 (100 / 255) (0) 1, scaled_bytes 3 (100 / 255) (0) 1, scaled_bytes 4 (100 / 255) (0) 1, scaled_bytes 5 (100 / 255) (0) 1, scaled_bytes 6 (100 / 255) (0) 1],
     pid_info 0x6A 5 [scaled_bytes 0 (1) (0) 1, scaled_bytes 1 (100 / 255) (0) 1, scaled_bytes 2 (100 / 255) (0) 1, scaled_bytes 3 (100 / 255) (0) 1, scaled_bytes 4 (100 / 255) (0) 1],
     pid_info 0x6B 5 [scaled_bytes 0 (1) (0) 1, scaled_bytes 1 (1) (- 40) 1, scaled_bytes 2 (1) (- 40) 1, scaled_bytes 3 (1) (- 40) 1, scaled_bytes 4 (1) (- 40) 1],
     pid_info 0x6C 5 [scaled_bytes 0 (1) (0) 1, scaled_bytes 1 (100 / 255) (0) 1, scaled_bytes 2 (100 / 255) (0) 1, scaled_bytes 3 (100 / 255) (0) 1, scaled_bytes 4 (100 / 255) (0) 1],
     pid_info 0x6D 11 [scaled_bytes 0 (1) (0) 1, scaled_bytes 1 (10) (0) 2, scaled_bytes 3 (10) (0) 2, scaled_bytes 5 (1) (- 40) 1, scaled_bytes 6 (10) (0) 2, scaled_bytes 8 (10) (0) 2, scaled_bytes 10 (1) (- 40) 1],
     pid_info 0x6E 9 [scaled_bytes 0 (1) (0) 1, scaled_bytes 1 (10) (0) 2, scaled_bytes 3 (10) (0) 2, scaled_bytes 5 (10) (0) 2, scaled_bytes 7 (10) (0) 2],
     pid_info 0x6F 3 [scaled_bytes 0 (1) (0) 1, scaled_bytes 1 (1) (0) 1, scaled_bytes 2 (1) (0) 1],
     pid_info 0x70 10 [scaled_bytes 0 (1) (0) 1, scaled_bytes 1 (3125 / 100000) (0) 2, scaled_bytes 3 (3125 / 100000) (0) 2, scaled_bytes 5 (3125 / 100000) (0) 2, scaled_bytes 7 (3125 / 100000) (0) 2, bit_field 9 0 2, bit_field 9 2 2, bit_field 9 4 4],
     pid_info 0x71 6 [scaled_bytes 0 (1) (0) 1, scaled_bytes 1 (100 / 255) (0) 1, scaled_bytes 2 (100 / 255) (0) 1, scaled_bytes 3 (100 / 255) (0) 1, scaled_bytes 4 (100 / 255) (0) 1, bit_field 5 0 2, bit_field 5 2 2, bit_field 5 4 4],
     pid_info 0x72 5 [scaled_bytes 0 (1) (0) 1, scaled_bytes 1 (100 / 255) (0) 1, scaled_bytes 2 (100 / 255) (0) 1, scaled_bytes 3 (100 / 255) (0) 1, scaled_bytes 4 (100 / 255) (0) 1],
     pid_info 0x73 5 [scaled_bytes 0 (1) (0) 1, scaled_bytes 1 (1 / 100) (0) 2, scaled_bytes 3 (1 / 100) (0) 2],
     pid_info 0x74 5 [scaled_bytes 0 (1) (0) 1, scaled_bytes 1 (10) (0) 2, scaled_bytes 3 (10) (0) 2],
     pid_info 0x75 7 [scaled_bytes 0 (1) (0) 1, scaled_bytes 1 (1) (- 40) 1, scaled_bytes 2 (1) (- 40) 1, scaled_bytes 3 (1 / 10) (- 40) 2, scaled_bytes 5 (1 / 10) (- 40) 2],
     pid_info 0x76 7 [scaled_bytes 0 (1) (0) 1, scaled_bytes 1 (1) (- 40) 1, scaled_bytes 2 (1) (- 40) 1, scaled_bytes 3 (1 / 10) (- 40) 2, scaled_bytes 5 (1 / 10) (- 40) 2],
     pid_info 0x77 5 [scaled_bytes 0 (1) (0) 1, scaled_bytes 1 (1) (- 40) 1, scaled_bytes 2 (1) (- 40) 1, scaled_bytes 3 (1) (- 40) 1, scaled_bytes 4 (1) (- 40) 1],
     pid_info 0x78 9 [scaled_bytes 0 (1) (0) 1, scaled_bytes 1 (1 / 10) (- 40) 2, scaled_bytes 3 (1 / 10) (- 40) 2, scaled_bytes 5 (1 / 10) (- 40) 2, scaled_bytes 7 (1 / 10) (- 40) 2],
     pid_info 0x79 9 [scaled_bytes 0 (1) (0) 1, scaled_bytes 1 (1 / 10) (- 40) 2, scaled_bytes 3 (1 / 10) (- 40) 2, scaled_bytes 5 (1 / 10) (- 40) 2, scaled_bytes 7 (1 / 10) (- 40) 2],
     pid_info 0x7A 7 [scaled_bytes 0 (1) (0) 1, scaled_bytes 1 (1 / 100) (0) 2, scaled_bytes 3 (1 / 100) (0) 2, scaled_bytes 5 (1 / 100) (0) 2],
     pid_info 0x7B 7 [scaled_bytes 0 (1) (0) 1, scaled_bytes 1 (1 / 100) (0) 2, scaled_bytes 3 (1 / 100) (0) 2, scaled_bytes 5 (1 / 100) (0) 2],
     pid_info 0x7C 9 [scaled_bytes 0 (1) (0) 1, scaled_bytes 1 (1 / 10) (- 40) 2, scaled_bytes 3 (1 / 10) (- 40) 2, scaled_bytes 5 (1 / 10) (- 40) 2, scaled_bytes 7 (1 / 10) (- 40) 2]]"

definition mode1PIDs_7D_C1 :: "PIDInfo list" where
  "mode1PIDs_7D_C1 =
    [pid_info 0x7D 1 [scaled_bytes 0 (1) (0) 1],
     pid_info 0x7E 1 [scaled_bytes 0 (1) (0) 1],
     pid_info 0x7F 13 [scaled_bytes 0 (1) (0) 1, scaled_bytes 1 (1) (0) 4, scaled_bytes 5 (1) (0) 4, scaled_bytes 9 (1) (0) 4],
     pid_info 0x80 4 [scaled_bytes 0 (1) (0) 4],
     pid_info 0x81 21 [any_byte],
     pid_info 0x82 21 [any_byte],
     pid_info 0x83 9 [scaled_bytes 0 (1) (0) 1, scaled_bytes 1 (1 / 10) (0) 2, scaled_bytes 3 (1 / 10) (0) 2, scaled_bytes 5 (1 / 10) (0) 2, scaled_bytes 7 (1 / 10) (0) 2],
     pid_info 0x84 1 [scaled_bytes 0 (1) (- 40) 1],
     pid_info 0x85 10 [scaled_bytes 0 (1) (0) 1, scaled_bytes 1 (5 / 1000) (0) 2, scaled_bytes 3 (5 / 1000) (0) 2, scaled_bytes 5 (100 / 255) (0) 1, scaled_bytes 6 (1) (0) 4],
     pid_info 0x86 5 [scaled_bytes 0 (1) (0) 1, scaled_bytes 1 (125 / 10000) (0) 2, scaled_bytes 3 (125 / 10000) (0) 2],
     pid_info 0x87 5 [scaled_bytes 0 (1) (0) 1, scaled_bytes 1 (3125 / 100000) (0) 2, scaled_bytes 3 (3125 / 100000) (0) 2],
     pid_info 0x88 13 [any_byte],
     pid_info 0x89 41 [any_byte],
     pid_info 0x8A 41 [any_byte],
     pid_info 0x8B 7 [any_byte],
     pid_info 0x8C 17 [scaled_bytes 0 (1) (0) 1, scaled_bytes 1 (1526 / 1000000) (0) 2, scaled_bytes 3 (1526 / 1000000) (0) 2, scaled_bytes 5 (1526 / 1000000) (0) 2, scaled_bytes 7 (1526 / 1000000) (0) 2, scaled_bytes 9 (122 / 1000000) (0) 2, scaled_bytes 11 (122 / 1000000) (0) 2, scaled_bytes 13 (122 / 1000000) (0) 2, scaled_bytes 15 (122 / 1000000) (0) 2],
     pid_info 0x8D 1 [scaled_bytes 0 (100 / 255) (0) 1],
     pid_info 0x8E 1 [scaled_bytes 0 (1) (- 125) 1],
     pid_info 0x8F 5 [any_byte],
     pid_info 0x90 3 [any_byte],
     pid_info 0x91 5 [any_byte],
     pid_info 0x92 2 [scaled_bytes 0 (1) (0) 1, scaled_bytes 1 (1) (0) 1],
     pid_info 0x93 3 [scaled_bytes 0 (1) (0) 1, scaled_bytes 1 (1) (0) 2],
     pid_info 0x94 12 [scaled_bytes 0 (1) (0) 1, scaled_bytes 1 (1) (0) 1, scaled_bytes 2 (1) (0) 2, scaled_bytes 4 (1) (0) 2, scaled_bytes 6 (1) (0) 2, scaled_bytes 8 (1) (0) 2, scaled_bytes 10 (1) (0) 2],
     pid_info 0x95 0 [any_byte],
     pid_info 0x96 0 [any_byte],
     pid_info 0x97 0 [any_byte],
     pid_info 0x98 9 [scaled_bytes 0 (1) (0) 1, scaled_bytes 1 (1 / 10) (- 40) 2, scaled_bytes 3 (1 / 10) (- 40) 2, scaled_bytes 5 (1 / 10) (- 40) 2, scaled_bytes 7 (1 / 10) (- 40) 2],
     pid_info 0x99 9 [scaled_bytes 0 (1) (0) 1, scaled_bytes 1 (1 / 10) (- 40) 2, scaled_bytes 3 (1 / 10) (- 40) 2, scaled_bytes 5 (1 / 10) (- 40) 2, scaled_bytes 7 (1 / 10) (- 40) 2],
     pid_info 0x9A 6 [scaled_bytes 0 (1) (0) 1, scaled_bytes 1 (1) (0) 1, scaled_bytes 2 (15625 / 1000000) (0) 2, scaled_bytes 4 (1 / 10) (- 32768 / 10) 2],
     pid_info 0x9B 4 [scaled_bytes 0 (1) (0) 1, scaled_bytes 1 (25 / 100) (0) 1, scaled_bytes 0 (1) (- 40) 1, scaled_bytes 1 (100 / 255) (0) 1],
     pid_info 0x9C 17 [scaled_bytes 0 (1) (0) 1, scaled_bytes 1 (1526 / 1000000) (0) 2, scaled_bytes 3 (1526 / 1000000) (0) 2, scaled_bytes 5 (1526 / 1000000) (0) 2, scaled_bytes 7 (1526 / 1000000) (0) 2, scaled_bytes 9 (122 / 1000000) (0) 2, scaled_bytes 11 (122 / 1000000) (0) 2, scaled_bytes 13 (122 / 1000000) (0) 2, scaled_bytes 15 (122 / 1000000) (0) 2],
     pid_info 0x9D 4 [scaled_bytes 0 (2 / 100) (0) 2, scaled_bytes 2 (2 / 100) (0) 2],
     pid_info 0x9E 2 [scaled_bytes 0 (2 / 10) (0) 2],
     pid_info 0x9F 9 [scaled_bytes 0 (1) (0) 1, scaled_bytes 1 (100 / 255) (0) 1, scaled_bytes 2 (100 / 255) (0) 1, scaled_bytes 3 (100 / 255) (0) 1, scaled_bytes 4 (100 / 255) (0) 1, scaled_bytes 5 (100 / 255) (0) 1, scaled_bytes 6 (100 / 255) (0) 1, scaled_bytes 7 (100 / 255) (0) 1, scaled_bytes 8 (100 / 255) (0) 1],
     pid_info 0xA0 4 [any_byte],
     pid_info 0xA1 9 [any_byte],
     pid_info 0xA2 2 [scaled_bytes 0 (3125 / 100000) (0) 2],
     pid_info 0xA3 9 [any_byte],
     pid_info 0xA4 4 [scaled_bytes 0 (1) (0) 1, bit_field 1 4 4, scaled_bytes 2 (1 / 1000) (0) 2],
     pid_info 0xA5 4 [any_byte],
     pid_info 0xA6 4 [scaled_bytes 0 (1 / 10) (0) 4],
     pid_info 0xC0 4 [scaled_bytes 0 (1) (0) 4],
     pid_info 0xC1 1 [any_byte]]"

text \<open>The array has 172 places; those without an initialiser hold zeros.\<close>

definition mode1PIDs :: "PIDInfo list" where
  "mode1PIDs = mode1PIDs_00_3F @ mode1PIDs_40_67 @ mode1PIDs_68_7C @ mode1PIDs_7D_C1 @ replicate 3 (pid_info 0 0 [])"

definition mode5PIDs :: "nat list" where
  "mode5PIDs =
    [0x100, 0x101, 0x102, 0x103, 0x104, 0x105, 0x106, 0x107, 0x108, 0x109, 0x10A,
     0x10B, 0x10C, 0x10D, 0x10E, 0x10F, 0x110, 0x201, 0x202, 0x203, 0x204, 0x205,
     0x206, 0x207, 0x208, 0x209, 0x20A, 0x20B, 0x20C, 0x20D, 0x20E, 0x20F, 0x210]"

text \<open>The names of the parameters the software supports.\<close>

definition EmissionPIDs :: "(string \<times> nat) list" where
  "EmissionPIDs =
    [(''PIDS_SUPPORTED_01_20'', 0x00), (''FUEL_SYSTEM_STATUS'', 0x03), (''ENGINE_LOAD'', 0x04),
     (''ENGINE_COOLANT_TEMPERATURE'', 0x05), (''SHORT_TERM_FUEL_TRIM_BANK_1'', 0x06), (''LONG_TERM_FUEL_TRIM_BANK_1'', 0x07),
     (''SHORT_TERM_FUEL_TRIM_BANK_2'', 0x08), (''LONG_TERM_FUEL_TRIM_BANK_2'', 0x09), (''FUEL_PRESSURE'', 0x0A),
     (''INTAKE_MANIFOLD_ABSOLUTE_PRESSURE'', 0x0B), (''ENGINE_SPEED'', 0x0C), (''VEHICLE_SPEED'', 0x0D),
     (''TIMING_ADVANCE'', 0x0E), (''INTAKE_AIR_FLOW_TEMPERATURE'', 0x0F), (''MAF_RATE'', 0x10),
     (''THROTTLE_POSITION'', 0x11), (''OXYGEN_SENSORS_PRESENT'', 0x13), (''OXYGEN_SENSOR1_1'', 0x14),
     (''OXYGEN_SENSOR2_1'', 0x15), (''OXYGEN_SENSOR3_1'', 0x16), (''OXYGEN_SENSOR4_1'', 0x17),
     (''OXYGEN_SENSOR5_1'', 0x18), (''OXYGEN_SENSOR6_1'', 0x19), (''OXYGEN_SENSOR7_1'', 0x1A),
     (''OXYGEN_SENSOR8_1'', 0x1B), (''RUNTIME_SINCE_ENGINE_START'', 0x1F), (''PIDS_SUPPORTED_21_40'', 0x20),
     (''DISTANCE_TRAVELED_WITH_MIL'', 0x21), (''FUEL_RAIL_PRESSURE'', 0x22), (''FUEL_RAIL_GAUGE_PRESSURE'', 0x23),
     (''OXYGEN_SENSOR1_2'', 0x24), (''OXYGEN_SENSOR2_2'', 0x25), (''OXYGEN_SENSOR3_2'', 0x26),
     (''OXYGEN_SENSOR4_2'', 0x27), (''OXYGEN_SENSOR5_2'', 0x28), (''OXYGEN_SENSOR6_2'', 0x29),
     (''OXYGEN_SENSOR7_2'', 0x2A), (''OXYGEN_SENSOR8_2'', 0x2B), (''EGR_ERROR'', 0x2D),
     (''FUEL_TANK_LEVEL'', 0x2F), (''WARM_UPS_SINCE_CODES_CLEARED'', 0x30), (''DISTANCE_TRAVELED_SINCE_CLEARED_DTC'', 0x31),
     (''EVAP_SYSTEM_VAPOR_PRESSURE'', 0x32), (''ABSOLUTE_BAROMETRIC_PRESSURE'', 0x33), (''OXYGEN_SENSOR1_3'', 0x34),
     (''OXYGEN_SENSOR2_3'', 0x35), (''OXYGEN_SENSOR3_3'', 0x36), (''OXYGEN_SENSOR4_3'', 0x37),
     (''OXYGEN_SENSOR5_3'', 0x38), (''OXYGEN_SENSOR6_3'', 0x39), (''OXYGEN_SENSOR7_3'', 0x3A),
     (''OXYGEN_SENSOR8_3'', 0x3B), (''CATALYST_TEMPERATURE_BANK1_SENSOR1'', 0x3C), (''CATALYST_TEMPERATURE_BANK2_SENSOR1'', 0x3D),
     (''CATALYST_TEMPERATURE_BANK1_SENSOR2'', 0x3E), (''CATALYST_TEMPERATURE_BANK2_SENSOR2'', 0x3F), (''PIDS_SUPPORTED_41_60'', 0x40),
     (''CONTROL_MODULE_VOLTAGE'', 0x42), (''ABSOLUTE_LOAD_VALUE'', 0x43), (''COMMANDED_AIR_FUEL_EQUIVALENCE_RATIO'', 0x44),
     (''RELATIVE_THROTTLE_POSITION'', 0x45), (''AMBIENT_AIR_TEMPERATURE'', 0x46), (''ABSOLUTE_THROTTLE_POSITION_B'', 0x47),
     (''ABSOLUTE_THROTTLE_POSITION_C'', 0x48), (''ACCELERATOR_PEDAL_POSITION_D'', 0x49), (''ACCELERATOR_PEDAL_POSITION_E'', 0x4A),
     (''ACCELERATOR_PEDAL_POSITION_F'', 0x4B), (''TIME_RUN_WITH_MIL_ON'', 0x4D), (''TIME_SINCE_TROUBLE_CODES_CLEARED'', 0x4E),
     (''FUEL_TYPE'', 0x51), (''ALCOHOL_FUEL_PERCENTAGE'', 0x52), (''FUEL_RAIL_ABSOLUTE_PRESSURE'', 0x59),
     (''RELATIVE_ACCELERATOR_PEDAL_POSITION'', 0x5A), (''HYBRID_BATTERY_PACK_REMAINING_LIFE'', 0x5B), (''ENGINE_OIL_TEMPERATURE'', 0x5C),
     (''FUEL_INJECTION_TIMING'', 0x5D), (''ENGINE_FUEL_RATE'', 0x5E), (''PIDS_SUPPORTED_61_80'', 0x60),
     (''DRIVER_DEMAND_PERCENT_TORQUE'', 0x61), (''ACTUAL_PERCENT_TORQUE'', 0x62), (''ENGINE_REFERENCE_PERCENT_TORQUE'', 0x63),
     (''ENGINE_PERCENT_TORQUE_DATA'', 0x64), (''MASS_AIR_FLOW_SENSOR'', 0x66), (''ENGINE_COOLANT_TEMPERATURE_1_2'', 0x67),
     (''INTAKE_AIR_TEMPERATURE_SENSOR'', 0x68), (''COMMANDED_EGR_AND_EGR_ERROR'', 0x69), (''COMMANDED_DIESEL_INTAKE_AIR_FLOW_CONTROL_AND_RELATIVE_INTAKE_AIR_FLOW_POSITION'', 0x6A),
     (''EXHAUST_GAS_RECIRCULATION_TEMPERATURE'', 0x6B), (''COMMANDED_THROTTLE_ACTUATOR_CONTROL_AND_RELATIVE_THROTTLE_POSITION'', 0x6C), (''FUEL_PRESSURE_CONTROL_SYSTEM'', 0x6D),
     (''INJECTION_PRESSURE_CONTROL_SYSTEM'', 0x6E), (''TURBOCHARGER_COMPRESSOR_INLET_PRESSURE'', 0x6F), (''BOOST_PRESSURE_CONTROL'', 0x70),
     (''VARIABLE_GEOMETRY_TURBO_CONTROL'', 0x71), (''WASTEGATE_CONTROL'', 0x72), (''EXHAUST_PRESSURE'', 0x73),
     (''TURBOCHARGER_RPM'', 0x74), (''TURBOCHARGER_TEMPERATURE_A'', 0x75), (''TURBOCHARGER_TEMPERATURE_B'', 0x76),
     (''CHARGE_AIR_COOLER_TEMPERATURE'', 0x77), (''EXHAUST_GAS_TEMPERATURE_BANK1'', 0x78), (''EXHAUST_GAS_TEMPERATURE_BANK2'', 0x79),
     (''DIESEL_PARTICULATE_FILTER1'', 0x7A), (''DIESEL_PARTICULATE_FILTER2'', 0x7B), (''DIESEL_PARTICULATE_FILTER_TEMPERATURE'', 0x7C),
     (''ENGINE_RUN_TIME'', 0x7F), (''PIDS_SUPPORTED_81_A0'', 0x80), (''NOX_SENSOR'', 0x83),
     (''MANIFOLD_SURFACE_TEMPERATURE'', 0x84), (''NOX_REAGENT_SYSTEM'', 0x85), (''PARTICULATE_MATTER_SENSOR'', 0x86),
     (''INTAKE_MANIFOLD_ABSOLUTE_PRESSURE_A_B'', 0x87), (''O2_SENSOR_WIDE_RANGE'', 0x8C), (''THROTTLE_POSITION_G'', 0x8D),
     (''ENGINE_FRICTION_PERCENT_TORQUE'', 0x8E), (''FUEL_SYSTEM_CONTROL'', 0x92), (''EXHAUST_GAS_TEMPERATURE_SENSORA'', 0x98),
     (''EXHAUST_GAS_TEMPERATURE_SENSORB'', 0x99), (''HYBRID_EV_VEHICLE_SYSTEM_DATA_BATTERY_VOLTAGE'', 0x9A), (''DIESEL_EXHAUST_FLUID_SENSOR_DATA'', 0x9B),
     (''O2_SENSOR_DATA'', 0x9C), (''FUEL_RATE'', 0x9D), (''ENGINE_EXHAUST_FLOW_RATE'', 0x9E),
     (''FUEL_SYSTEM_PERCENTAGE_USE'', 0x9F), (''PIDS_SUPPORTED_A1_C0'', 0xA0), (''CYLINDER_FUEL_RATE'', 0xA2),
     (''TRANSMISSION_ACTUAL_GEAR'', 0xA4), (''ODOMETER'', 0xA6), (''PIDS_SUPPORTED_C1_E0'', 0xC0),
     (''HVESS_RECOMMENDED_MAX_SOC'', 0xC1)]"

section \<open>The dictionary of the unit tests\<close>

text \<open>What \<open>OBDDataDecoderTest.cpp\<close> builds from an entry of the table.\<close>

definition table_signal :: "nat \<Rightarrow> nat \<Rightarrow> PIDSignalFormula \<Rightarrow> CANSignalFormat" where
  "table_signal pid idx f =
     \<lparr>mSignalID = pid OR push_bit 8 idx, mIsBigEndian = False, mIsSigned = False,
      mFirstBitPosition = u16 (pfByteOffset f * BYTE_SIZE + pfBitShift f),
      mSizeInBits = u16 ((pfNumOfBytes f - 1) * BYTE_SIZE + pfBitMaskLen f),
      mOffset = pfOffset f, mFactor = pfScaling f, mIsMultiplexorSignal = False, mMultiplexorValue = 0\<rparr>"

definition table_format :: "nat \<Rightarrow> PIDInfo \<Rightarrow> CANMessageFormat" where
  "table_format pid e =
     \<lparr>mMessageID = pid, mSizeInBytes = u8 (piRetLen e), mIsMultiplexed = False,
      mSignals = map (\<lambda>(idx, f). table_signal pid idx f) (enumerate 0 (piFormulas e))\<rparr>"

definition table_dictionary :: OBDDecoderDictionary where
  "table_dictionary pid = (if 0x03 \<le> pid \<and> pid \<le> 0xA6 then Some (table_format pid (mode1PIDs ! pid)) else None)"

section \<open>The tables are well-formed\<close>

text \<open>A formula that lies within the bytes of its response, and a bit field within its byte.\<close>

definition formula_fits :: "nat \<Rightarrow> PIDSignalFormula \<Rightarrow> bool" where
  "formula_fits n f \<longleftrightarrow> pfByteOffset f + pfNumOfBytes f \<le> n \<and> 0 < pfNumOfBytes f \<and> n < 256 \<and>
     (if pfNumOfBytes f = 1 then 0 < pfBitMaskLen f \<and> pfBitShift f + pfBitMaskLen f \<le> 8 else pfBitShift f = 0 \<and> pfBitMaskLen f = 8)"

definition formula_bits :: "PIDSignalFormula \<Rightarrow> nat list" where
  "formula_bits f = (let b = 8 * pfByteOffset f + pfBitShift f in [b ..< b + (8 * (pfNumOfBytes f - 1) + pfBitMaskLen f)])"

definition info_fits :: "PIDInfo \<Rightarrow> bool" where
  "info_fits e \<longleftrightarrow> list_all (formula_fits (piRetLen e)) (piFormulas e)"

definition info_disjoint :: "PIDInfo \<Rightarrow> bool" where
  "info_disjoint e \<longleftrightarrow> distinct (concat (map formula_bits (piFormulas e)))"

lemmas table_simps = mode1PIDs_00_3F_def mode1PIDs_40_67_def mode1PIDs_68_7C_def mode1PIDs_7D_C1_def

lemmas info_simps = pid_info_def any_byte_def scaled_bytes_def bit_field_def

lemma table_pids: "map piPid mode1PIDs = [0 ..< 0xA7] @ [0xC0, 0xC1, 0, 0, 0]"
  by (simp add: mode1PIDs_def table_simps pid_info_def numeral_3_eq_3 upt_rec)

lemma table_fits: "filter (\<lambda>e. \<not> info_fits e) mode1PIDs = map (\<lambda>i. pid_info i 0 [any_byte]) [0x95, 0x96, 0x97]"
  by (simp add: mode1PIDs_def table_simps info_simps info_fits_def formula_fits_def numeral_3_eq_3)

lemma table_overlaps: "map piPid (filter (\<lambda>e. \<not> info_disjoint e) mode1PIDs) = [0x9B]"
  by (simp add: mode1PIDs_def table_simps info_simps info_disjoint_def formula_bits_def numeral_3_eq_3 upt_rec)

lemma table_dummies: "mode1PIDs ! 0x95 = pid_info 0x95 0 [any_byte] \<and> mode1PIDs ! 0x96 = pid_info 0x96 0 [any_byte] \<and>
    mode1PIDs ! 0x97 = pid_info 0x97 0 [any_byte]"
  by (simp add: mode1PIDs_def table_simps)

lemma table_entry:
  assumes "pid < 0xA7"
  shows "mode1PIDs ! pid \<in> set mode1PIDs \<and> piPid (mode1PIDs ! pid) = pid"
proof -
  have n: "length mode1PIDs = 172" using arg_cong [OF table_pids, of length] by simp
  then have "piPid (mode1PIDs ! pid) = map piPid mode1PIDs ! pid" using assms by simp
  also have "\<dots> = pid" using assms by (simp add: table_pids nth_append)
  finally show ?thesis using n assms by simp
qed

lemma table_entry_fits:
  assumes "pid < 0xA7" and "pid \<noteq> 0x95" "pid \<noteq> 0x96" "pid \<noteq> 0x97"
  shows "info_fits (mode1PIDs ! pid)"
proof (rule ccontr)
  assume "\<not> info_fits (mode1PIDs ! pid)"
  then have "mode1PIDs ! pid \<in> set (filter (\<lambda>e. \<not> info_fits e) mode1PIDs)" using table_entry [OF assms(1)] by simp
  then have "piPid (mode1PIDs ! pid) \<in> {0x95, 0x96, 0x97}" unfolding table_fits by (auto simp: pid_info_def)
  then show False using table_entry [OF assms(1)] assms(2-) by simp
qed

lemma fits_valid:
  assumes "formula_fits (piRetLen e) f" and "dict pid = Some (table_format pid e)"
  shows "isFormulaValid dict pid (table_signal pid idx f)"
proof (cases "pfNumOfBytes f = 1")
  case True
  have "pfBitMaskLen f < 8 \<or> pfBitMaskLen f = 8 \<and> pfBitShift f = 0" using assms(1) True by (auto simp: formula_fits_def)
  then show ?thesis using assms True by (auto simp: formula_fits_def isFormulaValid_def table_format_def table_signal_def BYTE_SIZE_def u8_def u16_def)
next
  case False
  then obtain n where "pfNumOfBytes f = Suc n" using assms(1) by (cases "pfNumOfBytes f") (auto simp: formula_fits_def)
  then show ?thesis using assms False by (auto simp: formula_fits_def isFormulaValid_def table_format_def table_signal_def BYTE_SIZE_def u8_def u16_def)
qed

lemma dummy_invalid: "dict pid = Some (table_format pid (pid_info i 0 [any_byte])) \<Longrightarrow>
    \<not> list_all (isFormulaValid dict pid) (mSignals (table_format pid (pid_info i 0 [any_byte])))"
  by (simp add: isFormulaValid_def table_format_def table_signal_def info_simps u8_def)

text \<open>
  The table of service 1 holds, at every place up to 0xA6, the parameter of this number. In the
  dictionary built from it, all formulas of a parameter pass the check of the decoder, except for the
  three parameters 0x95 to 0x97, which have no bytes; the signals of one parameter do not share bits,
  except for 0x9B; the places after the last two entries are empty; every named parameter has an entry.
\<close>

theorem table_well_formed:
  "map piPid mode1PIDs = [0 ..< 0xA7] @ [0xC0, 0xC1, 0, 0, 0] \<and>
   list_all (\<lambda>pid. list_all (isFormulaValid table_dictionary pid) (mSignals (table_format pid (mode1PIDs ! pid))) = (pid \<notin> {0x95, 0x96, 0x97})) [0x03 ..< 0xA7] \<and>
   map piPid (filter (\<lambda>e. \<not> info_disjoint e) mode1PIDs) = [0x9B] \<and>
   list_all (\<lambda>(name, pid). pid \<in> set (map piPid mode1PIDs)) EmissionPIDs"
proof (intro conjI)
  have "list_all (isFormulaValid table_dictionary pid) (mSignals (table_format pid (mode1PIDs ! pid))) = (pid \<notin> {0x95, 0x96, 0x97})"
    if "0x03 \<le> pid" "pid < 0xA7" for pid
  proof -
    have d: "table_dictionary pid = Some (table_format pid (mode1PIDs ! pid))" using that by (simp add: table_dictionary_def)
    show ?thesis
    proof (cases "pid \<in> {0x95, 0x96, 0x97}")
      case True
      then have "\<exists>i. mode1PIDs ! pid = pid_info i 0 [any_byte]" using table_dummies by auto
      then show ?thesis using dummy_invalid d True by metis
    next
      case False
      then have "info_fits (mode1PIDs ! pid)" using table_entry_fits that by simp
      then have "\<forall>f \<in> set (piFormulas (mode1PIDs ! pid)). \<forall>idx. isFormulaValid table_dictionary pid (table_signal pid idx f)"
        using fits_valid d by (auto simp: info_fits_def list_all_iff)
      then show ?thesis using False by (auto simp: table_format_def list_all_iff dest!: in_set_enumerate_eq [THEN iffD1])
    qed
  qed
  then show "list_all (\<lambda>pid. list_all (isFormulaValid table_dictionary pid) (mSignals (table_format pid (mode1PIDs ! pid))) = (pid \<notin> {0x95, 0x96, 0x97})) [0x03 ..< 0xA7]"
    unfolding list_all_iff by simp
  show "list_all (\<lambda>(name, pid). pid \<in> set (map piPid mode1PIDs)) EmissionPIDs"
    unfolding table_pids by (simp add: EmissionPIDs_def)
qed (rule table_pids table_overlaps)+

end
