(* ===== verification/Spec2Isabelle.thy ===== *)
theory Spec2Isabelle
  imports ObdDecoder ManagerFaults ObdSafety BusPipeline SchemaCheckin DataPipeline StartupSamples CameraRequests WorkerThreads ObdTables
begin

text \<open>
  A model of the AWS IoT FleetWise Edge Agent, the C++ program under \<open>src/src/\<close> that runs in a vehicle:
  it receives collection schemes and decoder manifests from the cloud, reads the CAN buses and the
  diagnostics interface, decodes the signals that enabled schemes need, evaluates the conditions of the
  schemes on them, and uploads the data of the conditions that hold. This theory only collects the others;
  each opens with the files it models, and its definitions bear the names of the code.

  \<^bold>\<open>The program and how its parts interact.\<close>
    \<^item> Documents: \<open>Schema\<close> hands messages of the cloud to \<open>CollectionSchemeManager\<close>. Its thread builds schemes
      and manifests from them, persists them, keeps the timeline of enabled and idle schemes, and publishes an
      inspection matrix and one decoder dictionary per protocol.
    \<^item> Vehicle: \<open>VehicleDataSourceBinder\<close> owns a source and a consumer for every bus. A source reads frames
      of its socket into a bounded queue; its consumer decodes them by the dictionary into queues of signals and raw
      frames. \<open>OBDOverCANModule\<close> asks the control units over ISO-TP for parameters and trouble codes.
    \<^item> Inspection: \<open>CollectionInspectionWorkerThread\<close> takes matrices and the queues of data over, and drives
      \<open>CollectionInspectionEngine\<close>; triggered data goes into a queue to the cloud, and as an event to the cameras.
    \<^item> Cloud: \<open>IoTFleetWiseEngine\<close> uploads that queue through \<open>DataCollectionSender\<close>, \<open>AwsIotChannel\<close> and
      \<open>AwsIotConnectivityModule\<close>, stores on disk what cannot be sent, and starts and stops all of the above.

  \<^bold>\<open>Conventions.\<close> A class is a record of its members, a method a function from the state to the state it leaves.
  Behaviour that C++ leaves undefined is a value: such an operation returns \<open>ub_result\<close>, \<open>Inl\<close> for undefined and
  \<open>Inr\<close> for a result, and that a program is safe means that it returns \<open>Inr\<close>. Unsigned integers are natural numbers
  with the wrap-around written out (\<open>u8\<close>, \<open>u16\<close>, \<open>u32\<close>, \<open>u64\<close>, \<open>sub64\<close>) or words where bits matter. A pointer
  is an index into the object it points to, \<open>None\<close> the null pointer; a \<open>std::map\<close> is a sorted association list,
  a \<open>double\<close> an IEEE 754 number with its rounding (\<open>Ieee754\<close>).

  \<^bold>\<open>The theories.\<close>
    \<^item> \<open>Prelude\<close>, \<open>Containers\<close>: undefined behaviour, wrapping arithmetic and vectors; the ordered map and the
      priority queue of the manager, whose laws are the locales \<open>ordered_map\<close> and \<open>min_queue\<close>.
    \<^item> \<open>Ieee754\<close>, \<open>CanDecoder\<close> (\<open>CANDecoder.cpp\<close>), \<open>ObdDecoder\<close> (\<open>OBDDataDecoder.cpp\<close>), \<open>ObdTables\<close>
      (\<open>OBDDataTypes.h\<close>), \<open>Geohash\<close> (\<open>Geohash.cpp\<close>, \<open>GeohashFunctionNode.cpp\<close>): the decoders. Shown: the
      extraction of a signal is the number its bits denote; which signals of a multiplexed frame are
      decoded; no decoder of diagnostics reads outside the response, whatever that is; what the tables hold.
    \<^item> \<open>InspectionTypes\<close>, \<open>WindowFunction\<close>, \<open>HistoryBuffer\<close> (locale \<open>history\<close>), \<open>Expression\<close>, \<open>InspectionEngine\<close>
      (\<open>CollectionInspectionEngine.cpp\<close>): windows, ring buffers, the evaluator and the engine. Shown: a ring buffer holds
      the last samples and collects them once; the evaluator equals a reference semantics of the expression.
      \<open>EngineSafety\<close>: no sequence of operations is undefined or takes more than the memory limit. \<open>EngineBehaviour\<close>: when a
      condition is triggered and when its data is collected.
    \<^item> \<open>InspectionWorker\<close> (\<open>CollectionInspectionWorkerThread.cpp\<close>, locale \<open>inspection_service\<close>): an iteration of the
      thread ends, is defined and leaves nothing due.
    \<^item> \<open>SchemeTypes\<close>, \<open>SchemeIngestion\<close> (\<open>CollectionSchemeIngestion.cpp\<close>), \<open>SchemeTimeline\<close>, \<open>SchemeSchedule\<close>,
      \<open>SchemeUpdates\<close> (\<open>CollectionSchemeManager.cpp\<close>, \<open>CheckinAndPersistency.cpp\<close>): schemes and their timeline. Shown: what is
      built from a message, which schemes are enabled when, what an update reports.
    \<^item> \<open>DecoderManifest\<close> (\<open>DecoderManifestIngestion.cpp\<close>), \<open>DictionaryExtractor\<close>
      (\<open>DecoderDictionaryExtractor.cpp\<close>), \<open>MatrixExtractor\<close> (\<open>InspectionMatrixExtractor.cpp\<close>): what the manager publishes. Shown: every
      expression of the matrix denotes the tree of its scheme; what each entry of a dictionary holds.
    \<^item> \<open>Persistency\<close> (\<open>CacheAndPersist.cpp\<close>, \<open>PayloadManager.cpp\<close>, locale \<open>document_store\<close>), \<open>SchemeManager\<close>,
      \<open>ManagerSafety\<close>, \<open>ManagerFaults\<close>, \<open>SchemaCheckin\<close> (\<open>Schema.cpp\<close>): the thread of the manager, what its rounds
      keep and publish for lists of schemes as they are expected (below), situations in which they go wrong, and checkins on the wire.
    \<^item> \<open>VehicleMessages\<close> (locale \<open>bounded_fifo\<close>), \<open>CanSource\<close> (\<open>CANDataSource.cpp\<close>), \<open>CanConsumer\<close>, \<open>ConsumerSafety\<close>
      (\<open>CANDataConsumer.cpp\<close>), \<open>SourceBinder\<close>, \<open>BinderBehaviour\<close> (\<open>VehicleDataSourceBinder.cpp\<close>), \<open>BusPipeline\<close>: the buses. Shown: what a
      message adds to the inspection queues, that no order of events makes a consumer undefined, and which part of a batch of frames
      reaches the inspection queues, in order.
    \<^item> \<open>ObdModule\<close>, \<open>ObdBehaviour\<close>, \<open>ObdSafety\<close> (\<open>OBDOverCANModule.cpp\<close>), \<open>IsoTp\<close> (\<open>ISOTPOverCAN*.cpp\<close>,
      \<open>OBDOverCANSessionManager.cpp\<close>): diagnostics. Shown: only announced parameters are requested, and what is collected from the answers.
    \<^item> \<open>UploadWriter\<close> (\<open>DataCollectionProtoWriter.cpp\<close>, \<open>DataCollectionJSONWriter.cpp\<close>), \<open>UploadSender\<close>,
      \<open>UploadChunks\<close> (\<open>DataCollectionSender.cpp\<close>), \<open>CloudChannel\<close> (\<open>AwsIotChannel.cpp\<close>, \<open>AwsSDKMemoryManager.cpp\<close>), \<open>RetryBackoff\<close>
      (\<open>RetryThread.cpp\<close>), \<open>CloudConnection\<close> (\<open>AwsIotConnectivityModule.cpp\<close>), \<open>CloudUpload\<close> (\<open>doWork\<close> of
      \<open>IoTFleetWiseEngine.cpp\<close>, locale \<open>cloud_sender\<close>), \<open>CloudSamples\<close>: uploads. Shown: messages hold every item once and in order, what
      was stored without a connection is uploaded later, memory stays within its limit, when the connection comes up and keeps its
      promises, and when it waits for ever.
    \<^item> \<open>DataPipeline\<close>: all that the inspection thread publishes in a reachable state is uploaded.
    \<^item> \<open>TraceMetrics\<close> (\<open>TraceModule.cpp\<close>), \<open>ResourceUsage\<close> (\<open>CPUUsageInfo.cpp\<close>, \<open>MemoryUsageInfo.cpp\<close>), \<open>RemoteMetrics\<close>
      (\<open>RemoteProfiler.cpp\<close>): tracing and its way to the cloud.
    \<^item> \<open>Listeners\<close> (\<open>Listener.h\<close>, locale \<open>subject\<close>), \<open>WorkerThreads\<close> (\<open>Timer.h\<close>, \<open>Signal.h\<close>, \<open>Thread.cpp\<close>): the platform. Shown: no
      wake-up is lost, and a released thread has ended, for every interleaving.
    \<^item> \<open>LocalScheme\<close> (\<open>CollectionScheme.cpp\<close>, \<open>CollectionSchemeJSONParser.cpp\<close>): the scheme of a local file.
    \<^item> \<open>CameraSources\<close>, \<open>CameraRequests\<close> (\<open>DataOverDDSModule.cpp\<close>, \<open>CameraDataPublisher.cpp\<close>, \<open>CameraDataSubscriber.cpp\<close>):
      cameras over DDS, with the interleavings of their threads; an event is requested from its cameras, unless it arrives in a window in which it is lost.
    \<^item> \<open>EngineStartup\<close>, \<open>StartupBehaviour\<close>, \<open>StartupSamples\<close> (\<open>connect\<close>, \<open>disconnect\<close> of \<open>IoTFleetWiseEngine.cpp\<close>, \<open>main.cpp\<close>): start and stop.
      Shown: who is registered where and which threads run after a start, and which have ended after a stop.
\<close>

text \<open>
  \<^bold>\<open>Bounds.\<close>
    \<^item> The evaluator recurses to depth \<open>MAX_EQUATION_DEPTH\<close>, the limit of the code itself.
    \<^item> \<open>publish_loop\<close> of the inspection thread has the fuel \<open>MAX_NUMBER_OF_ACTIVE_CONDITION\<close> of 256; each round
      clears the mark of one condition, of which there are at most 256, so that it never runs out
      (\<open>worker_runs\<close>).
    \<^item> \<open>check_loop\<close> of the timeline, \<open>push_left\<close> and \<open>walk\<close> of the traversal of expressions and \<open>retry_loop\<close> may not end
      for some states; they are partial functions with \<open>None\<close> for not ending, and the theorems show a result.
    \<^item> \<open>ManagerSafety\<close> expects of the lists of schemes that arrive or were stored that their valid schemes have distinct names,
      none of them that of the checkin, and a condition each, and are at most \<open>MAX_SCHEMES\<close>, 2^20; a built scheme has less than
      2^10 expression nodes, so that their indices do not wrap. Lists that do not parse and manifests are arbitrary.

  \<^bold>\<open>Parameters.\<close> What is not under \<open>src/\<close> is an argument of the definitions, with the assumptions of the code named
  where a theorem needs them: the protocol buffer and JSON encoders and parsers, the compression (undone by its inverse), the file
  system, the MQTT library (\<open>library_ok\<close>: a connect that is started first completes, changes of the link follow only an accepted
  one, and a disconnect that is started closes once, after everything else), the DDS library,
  the frames and the results of system calls of the kernel, the answers of control units, clocks, random numbers, whether
  a bounded lock-free queue accepts an element, the growth of the capacity of a vector (it at least doubles), and the order \<open>std::sort\<close> gives to equal elements.

  \<^bold>\<open>Atomicity.\<close> A callback and a cycle of a thread are each one step, as the mutexes of the code make
  them for the state they protect. Where the order of finer steps matters, the steps are those of the code: the threads of the cameras, signals, and creating and releasing a thread.

  \<^bold>\<open>Not modelled.\<close>
    \<^item> \<open>AwsBootstrap.cpp\<close> and \<open>IoTFleetWiseConfig.cpp\<close>, which only call libraries; the configuration is the values read from it.
    \<^item> The texts of log messages and of the printed traces, and the console; names of threads.
    \<^item> Destructors, beyond what a shutdown calls; \<open>attachVehicleDataSource\<close>, which stores a pointer nothing reads; synthetic data
      of messages, which no source sets.
    \<^item> Data races: a member that two threads access without a lock is read and written as if the accesses were ordered.
    \<^item> Failure of an allocation, except of the memory the MQTT library is given, whose allocator the program replaces.
    \<^item> Tests, mocks and tools; of the tests only the helper that builds a dictionary from the table of service 1.
\<close>

end
